(* ===== verification/Prelude.thy ===== *)
theory Prelude
  imports Main "HOL-Library.Word" "HOL-Library.Monad_Syntax"
begin

text \<open>
  Shared vocabulary of the development: the machine word types of the driver (a 32-bit ARM
  target), the conventions for undefined behaviour, and generic lemmas on the option monad,
  on machine words and on lists.

  Conventions used everywhere.  A C function that may have undefined behaviour (a null or
  unmapped access, a division by zero, a read past the end of a string) is a function into
  \<open>option\<close>: \<open>None\<close> is undefined behaviour, \<open>Some\<close> a normal return.  Return codes
  and error values of the source (\<open>0\<close>, \<open>-1\<close>, a \<open>VkResult\<close>) are ordinary values inside
  \<open>Some\<close>.  The \<open>assert\<close> macro of \<open>driver/CustomAssert.h\<close> is the one of a release build, which
  does nothing.
\<close>

unbundle bit_operations_syntax

subsection \<open>Machine types\<close>

type_synonym u8 = "8 word"
type_synonym u16 = "16 word"
type_synonym u32 = "32 word"
type_synonym u64 = "64 word"
type_synonym addr = "32 word"

abbreviation NULL :: addr where
  "NULL \<equiv> 0"

text \<open>The value \<open>~0u\<close>, also written \<open>-1\<close> by the source where it is stored in a \<open>uint32_t\<close>.\<close>

abbreviation U32_MAX :: u32 where
  "U32_MAX \<equiv> 0xFFFFFFFF"

subsection \<open>Theorem collections\<close>

named_theorems fields \<open>reading the bit fields of a packed word\<close>

subsection \<open>Option monad\<close>

lemma bind_Some_iff:
  "Option.bind x f = Some y \<longleftrightarrow> (\<exists>z. x = Some z \<and> f z = Some y)"
  by (cases x) auto

lemma bind_SomeE:
  assumes "Option.bind x f = Some y"
  obtains z where "x = Some z" "f z = Some y"
  using assms by (auto simp: bind_Some_iff)

subsection \<open>Machine words\<close>

lemma unat_of_nat_u32: "n < 2 ^ 32 \<Longrightarrow> unat (of_nat n :: u32) = n"
  by (simp add: unat_of_nat take_bit_nat_eq_self)

lemma unat_lt_u32: "unat (x :: u32) < 4294967296"
proof -
  have "unat x < 2 ^ LENGTH(32)" by (rule unsigned_less)
  then show ?thesis by simp
qed

lemma unat_of_nat_self: "(of_nat (unat x) :: u32) = x"
  by simp

lemma of_nat_u32_inject:
  assumes "i < 2 ^ 32" "j < 2 ^ 32"
  shows "(of_nat i :: u32) = of_nat j \<longleftrightarrow> i = j"
  using assms by (metis unat_of_nat_u32)

lemma unat_add_of_nat:
  fixes a :: u32
  assumes "unat a + n < 2 ^ 32"
  shows "unat (a + of_nat n) = unat a + n"
proof -
  have "unat (of_nat n :: u32) = n" using assms by (simp add: unat_of_nat_u32)
  then show ?thesis using assms by (simp add: unat_word_ariths)
qed

lemma add_of_nat_inject:
  fixes a :: u32
  assumes "i < 2 ^ 32" "j < 2 ^ 32"
  shows "a + of_nat i = a + of_nat j \<longleftrightarrow> i = j"
  using of_nat_u32_inject [OF assms] by simp

subsection \<open>Bit fields\<close>

text \<open>
  The encoders of the driver build hardware words from fields: \<open>(d & (2^n - 1)) << p\<close> is
  \<open>bits_at n p d\<close>, and \<open>(w >> p) & (2^n - 1)\<close> is \<open>field n p w\<close>.  The lemmas of \<open>fields\<close> compute a
  field of a disjunction of such pieces: the piece at the same place gives its value, a piece at
  another place gives nothing.
\<close>

definition bits_at :: "nat \<Rightarrow> nat \<Rightarrow> 'a::len word \<Rightarrow> 'a word" where
  "bits_at n p d = push_bit p (d AND mask n)"

definition field :: "nat \<Rightarrow> nat \<Rightarrow> 'a::len word \<Rightarrow> 'a word" where
  "field n p w = drop_bit p w AND mask n"

lemma bit_bits_at:
  "bit (bits_at n p (d :: 'a::len word)) i \<longleftrightarrow> p \<le> i \<and> i < p + n \<and> i < LENGTH('a) \<and> bit d (i - p)"
  by (auto simp: bits_at_def bit_simps)

lemma bit_field: "bit (field n p (w :: 'a::len word)) i \<longleftrightarrow> i < n \<and> bit w (p + i)"
  by (auto simp: field_def bit_simps dest: bit_imp_le_length)

lemma field_or [fields]: "field n p (v OR w) = field n p v OR field n p w"
  by (rule bit_word_eqI) (auto simp: bit_field bit_or_iff)

lemma field_0 [fields]: "field n p 0 = 0"
  by (simp add: field_def)

lemma field_same [fields]:
  "p + n \<le> LENGTH('a) \<Longrightarrow> field n p (bits_at n p (d :: 'a::len word)) = d AND mask n"
  by (rule bit_word_eqI) (auto simp: bit_field bit_bits_at bit_simps)

lemma field_below [fields]: "p + n \<le> q \<Longrightarrow> field n p (bits_at k q (d :: 'a::len word)) = 0"
  by (rule bit_word_eqI) (auto simp: bit_field bit_bits_at)

lemma field_above [fields]: "q + k \<le> p \<Longrightarrow> field n p (bits_at k q (d :: 'a::len word)) = 0"
  by (rule bit_word_eqI) (auto simp: bit_field bit_bits_at)

lemma field_inside:
  "q \<le> p \<Longrightarrow> p + n \<le> q + k \<Longrightarrow> q + k \<le> LENGTH('a) \<Longrightarrow>
    field n p (bits_at k q (d :: 'a::len word)) = field n (p - q) d"
  by (rule bit_word_eqI) (auto simp: bit_field bit_bits_at)

lemma bits_at_ucast:
  fixes x :: "'b::len word"
  assumes "LENGTH('b) \<le> n"
  shows "bits_at n 0 (ucast x :: 'a::len word) = ucast x"
  using assms by (intro bit_word_eqI) (auto simp: bit_bits_at bit_simps dest: bit_imp_le_length)

lemma ucast_and_mask:
  fixes x :: "'b::len word"
  assumes "LENGTH('b) \<le> n"
  shows "(ucast x :: 'a::len word) AND mask n = ucast x"
  using assms by (intro bit_word_eqI) (auto simp: bit_simps dest: bit_imp_le_length)

lemma unat_and_mask: "unat ((x :: 'a::len word) AND mask n) = unat x mod 2 ^ n"
proof -
  have "unat (x AND mask n) = unat (take_bit n x)" by (simp only: take_bit_eq_mask)
  also have "\<dots> = take_bit n (unat x)" by (simp only: unsigned_take_bit_eq)
  also have "\<dots> = unat x mod 2 ^ n" by (rule take_bit_eq_mod)
  finally show ?thesis .
qed

end
