(* ===== verification/Formats.thy ===== *)
theory Formats
  imports Prelude Complex_Main
begin

text \<open>
  The pure part of driver/common.c: format and enumeration tables, texture geometry, and the
  encoders of the hardware words for texture uniforms, stencil setup and the VPM.

  The Vulkan enumerations come from the Vulkan headers; their constructors here are those the
  driver distinguishes, with one more for every other value.  A format name that ends in a
  numeric type is a constructor applied to that type: \<open>VK_FORMAT_R8G8B8A8 UNORM\<close> is
  \<open>VK_FORMAT_R8G8B8A8_UNORM\<close>, and \<open>VK_FORMAT_A8B8G8R8_PACK32 UNORM\<close> is
  \<open>VK_FORMAT_A8B8G8R8_UNORM_PACK32\<close>.  A left shift of a C \<open>int\<close> into its sign bit is the
  two's complement one.
\<close>

subsection \<open>Formats\<close>

datatype VkNumeric = UNORM | SNORM | USCALED | SSCALED | UINT | SINT | SFLOAT | SRGB

datatype (plugins only: code size) VkFormat =
    VK_FORMAT_UNDEFINED
  | VK_FORMAT_R4G4_UNORM_PACK8
  | VK_FORMAT_R4G4B4A4_UNORM_PACK16
  | VK_FORMAT_B4G4R4A4_UNORM_PACK16
  | VK_FORMAT_R5G6B5_UNORM_PACK16
  | VK_FORMAT_B5G6R5_UNORM_PACK16
  | VK_FORMAT_R5G5B5A1_UNORM_PACK16
  | VK_FORMAT_B5G5R5A1_UNORM_PACK16
  | VK_FORMAT_A1R5G5B5_UNORM_PACK16
  | VK_FORMAT_R8 VkNumeric
  | VK_FORMAT_R8G8 VkNumeric
  | VK_FORMAT_R8G8B8 VkNumeric
  | VK_FORMAT_B8G8R8 VkNumeric
  | VK_FORMAT_R8G8B8A8 VkNumeric
  | VK_FORMAT_B8G8R8A8 VkNumeric
  | VK_FORMAT_A8B8G8R8_PACK32 VkNumeric
  | VK_FORMAT_A2R10G10B10_PACK32 VkNumeric
  | VK_FORMAT_A2B10G10R10_PACK32 VkNumeric
  | VK_FORMAT_R16 VkNumeric
  | VK_FORMAT_R16G16 VkNumeric
  | VK_FORMAT_R16G16B16 VkNumeric
  | VK_FORMAT_R16G16B16A16 VkNumeric
  | VK_FORMAT_R32 VkNumeric
  | VK_FORMAT_R32G32 VkNumeric
  | VK_FORMAT_R32G32B32 VkNumeric
  | VK_FORMAT_R32G32B32A32 VkNumeric
  | VK_FORMAT_R64 VkNumeric
  | VK_FORMAT_R64G64 VkNumeric
  | VK_FORMAT_R64G64B64 VkNumeric
  | VK_FORMAT_R64G64B64A64 VkNumeric
  | VK_FORMAT_B10G11R11_UFLOAT_PACK32
  | VK_FORMAT_E5B9G9R9_UFLOAT_PACK32
  | VK_FORMAT_D16_UNORM
  | VK_FORMAT_X8_D24_UNORM_PACK32
  | VK_FORMAT_D32_SFLOAT
  | VK_FORMAT_S8_UINT
  | VK_FORMAT_D16_UNORM_S8_UINT
  | VK_FORMAT_D24_UNORM_S8_UINT
  | VK_FORMAT_D32_SFLOAT_S8_UINT
  | VK_FORMAT_ETC2_R8G8B8_UNORM_BLOCK
  | VK_FORMAT_G8B8G8R8_422_UNORM
  | VK_FORMAT_other u32

definition getFormatBpp :: "VkFormat \<Rightarrow> u32" where
  "getFormatBpp f = (case f of
     VK_FORMAT_R64G64B64A64 t \<Rightarrow> if t \<in> {UINT, SINT, SFLOAT} then 256 else 0
   | VK_FORMAT_R64G64B64 t \<Rightarrow> if t \<in> {UINT, SINT, SFLOAT} then 192 else 0
   | VK_FORMAT_R32G32B32A32 t \<Rightarrow> if t \<in> {UINT, SINT, SFLOAT} then 128 else 0
   | VK_FORMAT_R64G64 t \<Rightarrow> if t \<in> {UINT, SINT, SFLOAT} then 128 else 0
   | VK_FORMAT_R32G32B32 t \<Rightarrow> if t \<in> {UINT, SINT, SFLOAT} then 96 else 0
   | VK_FORMAT_R16G16B16A16 t \<Rightarrow>
       if t \<in> {SFLOAT, UNORM, SNORM, USCALED, SSCALED, UINT, SINT} then 64 else 0
   | VK_FORMAT_R32G32 t \<Rightarrow> if t \<in> {UINT, SINT, SFLOAT} then 64 else 0
   | VK_FORMAT_R64 t \<Rightarrow> if t \<in> {UINT, SINT, SFLOAT} then 64 else 0
   | VK_FORMAT_R16G16B16 t \<Rightarrow>
       if t \<in> {UNORM, SNORM, USCALED, SSCALED, UINT, SINT, SFLOAT} then 48 else 0
   | VK_FORMAT_R8G8B8A8 t \<Rightarrow>
       if t \<in> {UNORM, UINT, SNORM, USCALED, SSCALED, SINT, SRGB} then 32 else 0
   | VK_FORMAT_B8G8R8A8 t \<Rightarrow>
       if t \<in> {UNORM, SNORM, USCALED, SSCALED, UINT, SINT, SRGB} then 32 else 0
   | VK_FORMAT_A8B8G8R8_PACK32 t \<Rightarrow>
       if t \<in> {UNORM, SNORM, USCALED, SSCALED, UINT, SINT, SRGB} then 32 else 0
   | VK_FORMAT_A2R10G10B10_PACK32 t \<Rightarrow>
       if t \<in> {UNORM, SNORM, USCALED, SSCALED, UINT, SINT} then 32 else 0
   | VK_FORMAT_A2B10G10R10_PACK32 t \<Rightarrow>
       if t \<in> {UNORM, SNORM, USCALED, SSCALED, UINT, SINT} then 32 else 0
   | VK_FORMAT_R16G16 t \<Rightarrow>
       if t \<in> {UNORM, SNORM, USCALED, SSCALED, UINT, SINT, SFLOAT} then 32 else 0
   | VK_FORMAT_R32 t \<Rightarrow> if t \<in> {UINT, SINT, SFLOAT} then 32 else 0
   | VK_FORMAT_B10G11R11_UFLOAT_PACK32 \<Rightarrow> 32
   | VK_FORMAT_E5B9G9R9_UFLOAT_PACK32 \<Rightarrow> 32
   | VK_FORMAT_R8G8B8 t \<Rightarrow>
       if t \<in> {UNORM, SNORM, USCALED, SSCALED, UINT, SINT, SRGB} then 24 else 0
   | VK_FORMAT_B8G8R8 t \<Rightarrow>
       if t \<in> {UNORM, SNORM, USCALED, SSCALED, UINT, SINT, SRGB} then 24 else 0
   | VK_FORMAT_R5G5B5A1_UNORM_PACK16 \<Rightarrow> 16
   | VK_FORMAT_R4G4B4A4_UNORM_PACK16 \<Rightarrow> 16
   | VK_FORMAT_R5G6B5_UNORM_PACK16 \<Rightarrow> 16
   | VK_FORMAT_R8G8 t \<Rightarrow>
       if t \<in> {UNORM, SNORM, USCALED, SSCALED, UINT, SINT, SRGB} then 16 else 0
   | VK_FORMAT_R16 t \<Rightarrow>
       if t \<in> {SFLOAT, SINT, UNORM, SNORM, USCALED, SSCALED, UINT} then 16 else 0
   | VK_FORMAT_B4G4R4A4_UNORM_PACK16 \<Rightarrow> 16
   | VK_FORMAT_B5G6R5_UNORM_PACK16 \<Rightarrow> 16
   | VK_FORMAT_B5G5R5A1_UNORM_PACK16 \<Rightarrow> 16
   | VK_FORMAT_A1R5G5B5_UNORM_PACK16 \<Rightarrow> 16
   | VK_FORMAT_R8 t \<Rightarrow>
       if t \<in> {UNORM, SINT, SNORM, USCALED, SSCALED, UINT, SRGB} then 8 else 0
   | VK_FORMAT_S8_UINT \<Rightarrow> 8
   | VK_FORMAT_R4G4_UNORM_PACK8 \<Rightarrow> 8
   | VK_FORMAT_UNDEFINED \<Rightarrow> 8
   | VK_FORMAT_G8B8G8R8_422_UNORM \<Rightarrow> 8
   | VK_FORMAT_D32_SFLOAT_S8_UINT \<Rightarrow> 64
   | VK_FORMAT_D16_UNORM_S8_UINT \<Rightarrow> 32
   | VK_FORMAT_D24_UNORM_S8_UINT \<Rightarrow> 32
   | VK_FORMAT_D32_SFLOAT \<Rightarrow> 32
   | VK_FORMAT_X8_D24_UNORM_PACK32 \<Rightarrow> 32
   | VK_FORMAT_D16_UNORM \<Rightarrow> 16
   | VK_FORMAT_ETC2_R8G8B8_UNORM_BLOCK \<Rightarrow> 4
   | VK_FORMAT_other n \<Rightarrow> 0)"

text \<open>
  A \<open>float\<close> component is its rational value: the product with \<open>255.0\<close> is exact in a \<open>double\<close>,
  the conversion to \<open>uint8_t\<close> truncates and is undefined outside the range of the type.
\<close>

definition unorm8 :: "rat \<Rightarrow> u8 option" where
  "unorm8 x = (let p = x * 255; i = (if p < 0 then ceiling p else floor p) in
     if 0 \<le> i \<and> i < 256 then Some (word_of_int i) else None)"

definition packVec4IntoABGR8 :: "rat \<times> rat \<times> rat \<times> rat \<Rightarrow> u32 option" where
  "packVec4IntoABGR8 rgba = (case rgba of (x, y, z, w) \<Rightarrow> do {
     r \<leftarrow> unorm8 x; g \<leftarrow> unorm8 y; b \<leftarrow> unorm8 z; a \<leftarrow> unorm8 w;
     Some (push_bit 24 (ucast a) OR push_bit 16 (ucast b) OR push_bit 8 (ucast g) OR ucast r) })"

text \<open>The extension tables of driver/vkCaps.h, and the search through them.\<close>

definition instanceExtensions :: "(string \<times> u32) list" where
  "instanceExtensions = [(''VK_KHR_surface'', 25), (''VK_KHR_display'', 21),
     (''VK_EXT_debug_report'', 9), (''VK_EXT_debug_utils'', 1)]"

definition deviceExtensions :: "(string \<times> u32) list" where
  "deviceExtensions = [(''VK_KHR_display_swapchain'', 9), (''VK_KHR_maintenance1'', 2),
     (''VK_KHR_maintenance2'', 1), (''VK_KHR_maintenance3'', 1), (''VK_KHR_swapchain'', 70),
     (''VK_EXT_debug_marker'', 4), (''VK_KHR_driver_properties'', 1),
     (''VK_KHR_performance_query'', 1)]"

fun find_extension :: "(string \<times> u32) list \<Rightarrow> nat \<Rightarrow> string \<Rightarrow> int" where
  "find_extension [] c name = -1"
| "find_extension (e # es) c name = (if fst e = name then int c else find_extension es (Suc c) name)"

definition findInstanceExtension :: "string \<Rightarrow> int" where
  "findInstanceExtension name = find_extension instanceExtensions 0 name"

definition findDeviceExtension :: "string \<Rightarrow> int" where
  "findDeviceExtension name = find_extension deviceExtensions 0 name"

subsection \<open>Texture geometry\<close>

text \<open>Any other number of bits leaves the two results unassigned: reading them is undefined.\<close>

definition getUTileDimensions :: "u32 \<Rightarrow> (u32 \<times> u32) option" where
  "getUTileDimensions bpp =
     (if bpp = 256 then Some (1, 2)
      else if bpp = 128 then Some (2, 2)
      else if bpp = 64 then Some (2, 4)
      else if bpp = 32 \<or> bpp = 24 then Some (4, 4)
      else if bpp = 16 then Some (8, 4)
      else if bpp = 8 then Some (8, 8)
      else if bpp = 4 then Some (16, 8)
      else if bpp = 1 then Some (32, 16)
      else None)"

definition isLTformat :: "u32 \<Rightarrow> u32 \<Rightarrow> u32 \<Rightarrow> bool option" where
  "isLTformat bpp width height = do {
     (utileW, utileH) \<leftarrow> getUTileDimensions bpp;
     Some (width \<le> 4 * utileW \<or> height \<le> 4 * utileH) }"

definition roundUp :: "u32 \<Rightarrow> u32 \<Rightarrow> u32" where
  "roundUp numToRound multiple =
     (if multiple = 0 then numToRound
      else (let remainder = numToRound mod multiple in
        if remainder = 0 then numToRound else numToRound + multiple - remainder))"

function ulog2_loop :: "u32 \<Rightarrow> u32 \<Rightarrow> u32" where
  "ulog2_loop v ret = (let v' = drop_bit 1 v in if v' = 0 then ret else ulog2_loop v' (ret + 1))"
  by auto

termination
proof (relation "measure (\<lambda>(v, ret). unat v)")
  show "wf (measure (\<lambda>(v :: u32, ret :: u32). unat v))" by simp
next
  fix v ret x :: u32
  assume a: "x = drop_bit 1 v" "x \<noteq> 0"
  have x: "unat x = unat v div 2" by (simp add: a(1) drop_bit_eq_div unat_div)
  have "unat x \<noteq> 0" using a(2) by (metis unsigned_eq_0_iff)
  with x have "unat v div 2 \<noteq> 0" by simp
  then have "0 < unat v div 2" by linarith
  then show "((x, ret + 1), v, ret) \<in> measure (\<lambda>(v, ret). unat v)" using x by simp
qed

declare ulog2_loop.simps [simp del]

definition ulog2 :: "u32 \<Rightarrow> u32" where
  "ulog2 v = ulog2_loop v 0"

definition getPow2Pad :: "u32 \<Rightarrow> u32" where
  "getPow2Pad n0 = (
     let n1 = n0 - 1;
         n2 = n1 OR drop_bit 1 n1;
         n3 = n2 OR drop_bit 2 n2;
         n4 = n3 OR drop_bit 4 n3;
         n5 = n4 OR drop_bit 8 n4;
         n6 = n5 OR drop_bit 16 n5
     in n6 + 1)"

definition isDepthStencilFormat :: "VkFormat \<Rightarrow> bool" where
  "isDepthStencilFormat format \<longleftrightarrow> format \<in> {VK_FORMAT_D16_UNORM, VK_FORMAT_X8_D24_UNORM_PACK32,
     VK_FORMAT_D32_SFLOAT, VK_FORMAT_S8_UINT, VK_FORMAT_D16_UNORM_S8_UINT,
     VK_FORMAT_D24_UNORM_S8_UINT, VK_FORMAT_D32_SFLOAT_S8_UINT}"

subsection \<open>Enumerations\<close>

datatype VkCompareOp = VK_COMPARE_OP_NEVER | VK_COMPARE_OP_LESS | VK_COMPARE_OP_EQUAL
  | VK_COMPARE_OP_LESS_OR_EQUAL | VK_COMPARE_OP_GREATER | VK_COMPARE_OP_NOT_EQUAL
  | VK_COMPARE_OP_GREATER_OR_EQUAL | VK_COMPARE_OP_ALWAYS | VK_COMPARE_OP_other u32

definition getCompareOp :: "VkCompareOp \<Rightarrow> u32" where
  "getCompareOp op = (case op of
     VK_COMPARE_OP_NEVER \<Rightarrow> 0 | VK_COMPARE_OP_LESS \<Rightarrow> 1 | VK_COMPARE_OP_EQUAL \<Rightarrow> 2
   | VK_COMPARE_OP_LESS_OR_EQUAL \<Rightarrow> 3 | VK_COMPARE_OP_GREATER \<Rightarrow> 4 | VK_COMPARE_OP_NOT_EQUAL \<Rightarrow> 5
   | VK_COMPARE_OP_GREATER_OR_EQUAL \<Rightarrow> 6 | VK_COMPARE_OP_ALWAYS \<Rightarrow> 7 | VK_COMPARE_OP_other n \<Rightarrow> -1)"

datatype VkStencilOp = VK_STENCIL_OP_ZERO | VK_STENCIL_OP_KEEP | VK_STENCIL_OP_REPLACE
  | VK_STENCIL_OP_INCREMENT_AND_CLAMP | VK_STENCIL_OP_DECREMENT_AND_CLAMP | VK_STENCIL_OP_INVERT
  | VK_STENCIL_OP_INCREMENT_AND_WRAP | VK_STENCIL_OP_DECREMENT_AND_WRAP | VK_STENCIL_OP_other u32

definition getStencilOp :: "VkStencilOp \<Rightarrow> u32" where
  "getStencilOp op = (case op of
     VK_STENCIL_OP_ZERO \<Rightarrow> 0 | VK_STENCIL_OP_KEEP \<Rightarrow> 1 | VK_STENCIL_OP_REPLACE \<Rightarrow> 2
   | VK_STENCIL_OP_INCREMENT_AND_CLAMP \<Rightarrow> 3 | VK_STENCIL_OP_DECREMENT_AND_CLAMP \<Rightarrow> 4
   | VK_STENCIL_OP_INVERT \<Rightarrow> 5 | VK_STENCIL_OP_INCREMENT_AND_WRAP \<Rightarrow> 6
   | VK_STENCIL_OP_DECREMENT_AND_WRAP \<Rightarrow> 7 | VK_STENCIL_OP_other n \<Rightarrow> -1)"

datatype VkPrimitiveTopology = VK_PRIMITIVE_TOPOLOGY_POINT_LIST | VK_PRIMITIVE_TOPOLOGY_LINE_LIST
  | VK_PRIMITIVE_TOPOLOGY_LINE_STRIP | VK_PRIMITIVE_TOPOLOGY_TRIANGLE_LIST
  | VK_PRIMITIVE_TOPOLOGY_TRIANGLE_STRIP | VK_PRIMITIVE_TOPOLOGY_TRIANGLE_FAN
  | VK_PRIMITIVE_TOPOLOGY_other u32

definition getTopology :: "VkPrimitiveTopology \<Rightarrow> u32" where
  "getTopology topology = (case topology of
     VK_PRIMITIVE_TOPOLOGY_POINT_LIST \<Rightarrow> 0
   | VK_PRIMITIVE_TOPOLOGY_LINE_LIST \<Rightarrow> 1 | VK_PRIMITIVE_TOPOLOGY_LINE_STRIP \<Rightarrow> 1
   | VK_PRIMITIVE_TOPOLOGY_TRIANGLE_LIST \<Rightarrow> 2 | VK_PRIMITIVE_TOPOLOGY_TRIANGLE_STRIP \<Rightarrow> 2
   | VK_PRIMITIVE_TOPOLOGY_TRIANGLE_FAN \<Rightarrow> 2
   | VK_PRIMITIVE_TOPOLOGY_other n \<Rightarrow> -1)"

text \<open>The values of \<open>enum V3D21_Primitive\<close>: points 0, lines 1, line strip 3, triangles 4, strip 5, fan 6.\<close>

definition getPrimitiveMode :: "VkPrimitiveTopology \<Rightarrow> u32" where
  "getPrimitiveMode topology = (case topology of
     VK_PRIMITIVE_TOPOLOGY_POINT_LIST \<Rightarrow> 0
   | VK_PRIMITIVE_TOPOLOGY_LINE_LIST \<Rightarrow> 1 | VK_PRIMITIVE_TOPOLOGY_LINE_STRIP \<Rightarrow> 3
   | VK_PRIMITIVE_TOPOLOGY_TRIANGLE_LIST \<Rightarrow> 4 | VK_PRIMITIVE_TOPOLOGY_TRIANGLE_STRIP \<Rightarrow> 5
   | VK_PRIMITIVE_TOPOLOGY_TRIANGLE_FAN \<Rightarrow> 6
   | VK_PRIMITIVE_TOPOLOGY_other n \<Rightarrow> -1)"

datatype VkFilter = VK_FILTER_NEAREST | VK_FILTER_LINEAR | VK_FILTER_other u32
datatype VkSamplerMipmapMode =
  VK_SAMPLER_MIPMAP_MODE_NEAREST | VK_SAMPLER_MIPMAP_MODE_LINEAR | VK_SAMPLER_MIPMAP_MODE_other u32
datatype VkSamplerAddressMode = VK_SAMPLER_ADDRESS_MODE_REPEAT
  | VK_SAMPLER_ADDRESS_MODE_MIRRORED_REPEAT | VK_SAMPLER_ADDRESS_MODE_CLAMP_TO_EDGE
  | VK_SAMPLER_ADDRESS_MODE_CLAMP_TO_BORDER | VK_SAMPLER_ADDRESS_MODE_other u32

definition getMinFilterType :: "VkFilter \<Rightarrow> VkSamplerMipmapMode \<Rightarrow> u8" where
  "getMinFilterType minFilter mipFilter =
     (if minFilter = VK_FILTER_NEAREST then
        (if mipFilter = VK_SAMPLER_MIPMAP_MODE_NEAREST then 2
         else if mipFilter = VK_SAMPLER_MIPMAP_MODE_LINEAR then 3 else -1)
      else if minFilter = VK_FILTER_LINEAR then
        (if mipFilter = VK_SAMPLER_MIPMAP_MODE_NEAREST then 4
         else if mipFilter = VK_SAMPLER_MIPMAP_MODE_LINEAR then 5 else -1)
      else -1)"

definition getWrapMode :: "VkSamplerAddressMode \<Rightarrow> u8" where
  "getWrapMode mode =
     (if mode = VK_SAMPLER_ADDRESS_MODE_REPEAT then 0
      else if mode = VK_SAMPLER_ADDRESS_MODE_CLAMP_TO_EDGE then 1
      else if mode = VK_SAMPLER_ADDRESS_MODE_MIRRORED_REPEAT then 2
      else if mode = VK_SAMPLER_ADDRESS_MODE_CLAMP_TO_BORDER then 3
      else -1)"

definition getTextureDataType :: "VkFormat \<Rightarrow> u8" where
  "getTextureDataType format =
     (if format = VK_FORMAT_R16G16B16A16 SFLOAT then 15
      else if format = VK_FORMAT_R8G8B8 UNORM then 1
      else if format = VK_FORMAT_R8G8B8A8 UNORM then 0
      else if format = VK_FORMAT_R5G5B5A1_UNORM_PACK16 then 3
      else if format = VK_FORMAT_R4G4B4A4_UNORM_PACK16 then 2
      else if format = VK_FORMAT_B5G6R5_UNORM_PACK16 then 4
      else if format = VK_FORMAT_R8G8 UNORM then 7
      else if format = VK_FORMAT_R16 SFLOAT then 9
      else if format = VK_FORMAT_R16 SINT then 11
      else if format = VK_FORMAT_R8 UNORM then 5
      else if format = VK_FORMAT_R8 SINT then 10
      else if format = VK_FORMAT_ETC2_R8G8B8_UNORM_BLOCK then 8
      else if format = VK_FORMAT_G8B8G8R8_422_UNORM then 17
      else if format = VK_FORMAT_X8_D24_UNORM_PACK32 \<or> format = VK_FORMAT_D24_UNORM_S8_UINT then 0
      else -1)"

text \<open>\<open>VC4_RENDER_CONFIG_FORMAT_RGBA8888\<close> is 1 and \<open>VC4_RENDER_CONFIG_FORMAT_BGR565\<close> is 2.\<close>

definition getRenderTargetFormatVC4 :: "VkFormat \<Rightarrow> u32" where
  "getRenderTargetFormatVC4 format =
     (if format \<in> {VK_FORMAT_R16G16B16A16 SFLOAT, VK_FORMAT_R8G8B8A8 UNORM, VK_FORMAT_B8G8R8A8 UNORM,
          VK_FORMAT_X8_D24_UNORM_PACK32, VK_FORMAT_ETC2_R8G8B8_UNORM_BLOCK, VK_FORMAT_D24_UNORM_S8_UINT}
      then 1
      else if format \<in> {VK_FORMAT_B5G6R5_UNORM_PACK16, VK_FORMAT_R5G6B5_UNORM_PACK16} then 2
      else -1)"

subsection \<open>Encoders\<close>

definition encodeTextureUniform ::
  "u8 \<Rightarrow> u8 \<Rightarrow> u8 \<Rightarrow> u32 \<Rightarrow> u32 \<Rightarrow> u16 \<Rightarrow> u16 \<Rightarrow> u8 \<Rightarrow> u8 \<Rightarrow> u8 \<Rightarrow> u8 \<Rightarrow> u8 \<Rightarrow> u32 list" where
  "encodeTextureUniform numMipLevels textureDataType isCubeMap cubemapStride textureBasePtr height width
     minFilter magFilter wrapT wrapS noAutoLod =
   [bits_at 4 0 (ucast numMipLevels)
      OR bits_at 4 4 (ucast textureDataType)
      OR bits_at 1 9 (if isCubeMap \<noteq> 0 then 1 else 0)
      OR bits_at 20 12 textureBasePtr,
    bits_at 2 0 (ucast wrapS)
      OR bits_at 2 2 (ucast wrapT)
      OR bits_at 3 4 (ucast minFilter)
      OR bits_at 1 7 (ucast magFilter)
      OR bits_at 11 8 (ucast width)
      OR bits_at 11 20 (ucast height)
      OR push_bit 31 (drop_bit 4 (ucast textureDataType AND 0x10)),
    bits_at 1 0 (ucast noAutoLod)
      OR bits_at 18 12 cubemapStride
      OR bits_at 1 30 (if isCubeMap \<noteq> 0 \<or> noAutoLod \<noteq> 0 then 1 else 0),
    0]"

record VkStencilOpState =
  failOp :: VkStencilOp
  passOp :: VkStencilOp
  depthFailOp :: VkStencilOp
  compareOp :: VkCompareOp
  compareMask :: u32
  writeMask :: u32
  reference :: u32

text \<open>A write to element \<open>i\<close> of the caller's array; outside the array it is undefined.\<close>

definition arr_put :: "u32 list \<Rightarrow> nat \<Rightarrow> u32 \<Rightarrow> u32 list option" where
  "arr_put vs i v = (if i < length vs then Some (vs[i := v]) else None)"

definition stencil_word :: "VkStencilOpState \<Rightarrow> u32 \<Rightarrow> u32" where
  "stencil_word st face =
     bits_at 8 0 (compareMask st)
     OR bits_at 8 8 (reference st)
     OR bits_at 3 16 (getCompareOp (compareOp st))
     OR bits_at 3 19 (getStencilOp (failOp st))
     OR bits_at 3 22 (getStencilOp (passOp st))
     OR bits_at 3 25 (getStencilOp (depthFailOp st))
     OR bits_at 2 30 face"

text \<open>The write masks that fit in bits 28 and 29 of the setup word.\<close>

definition short_write_mask :: "u32 \<Rightarrow> u32 option" where
  "short_write_mask w =
     (if w = 0x1 then Some 0 else if w = 0x3 then Some 1 else if w = 0xf then Some 2
      else if w = 0xff then Some 3 else None)"

definition encodeStencilValue ::
  "u32 list \<Rightarrow> VkStencilOpState \<Rightarrow> VkStencilOpState \<Rightarrow> u8 \<Rightarrow> (u32 list \<times> u32) option" where
  "encodeStencilValue values front0 back0 stencilTestEnable = (
     let front = (if stencilTestEnable = 0 then front0\<lparr>compareOp := VK_COMPARE_OP_ALWAYS\<rparr> else front0);
         back = (if stencilTestEnable = 0 then back0\<lparr>compareOp := VK_COMPARE_OP_ALWAYS\<rparr> else back0)
     in
     if compareMask front = compareMask back \<and> compareOp front = compareOp back \<and>
        depthFailOp front = depthFailOp back \<and> failOp front = failOp back \<and>
        passOp front = passOp back \<and> reference front = reference back \<and>
        writeMask front = writeMask back
     then do {
       vs \<leftarrow> arr_put values 0 (stencil_word front 3);
       case short_write_mask (writeMask front) of
         Some code \<Rightarrow> do {
           vs' \<leftarrow> arr_put vs 0 (vs ! 0 OR bits_at 2 28 code);
           Some (vs', 1) }
       | None \<Rightarrow> do {
           vs' \<leftarrow> arr_put vs 1 (bits_at 8 0 (writeMask front) OR bits_at 8 8 (writeMask front));
           Some (vs', 2) } }
     else do {
       vs1 \<leftarrow> arr_put values 0 (stencil_word front 1);
       vs2 \<leftarrow> arr_put vs1 1 (stencil_word back 2);
       case (short_write_mask (writeMask front), short_write_mask (writeMask back)) of
         (Some cf, Some cb) \<Rightarrow> do {
           vs3 \<leftarrow> arr_put vs2 0 (vs2 ! 0 OR bits_at 2 28 cf);
           vs4 \<leftarrow> arr_put vs3 1 (vs3 ! 1 OR bits_at 2 28 cb);
           Some (vs4, 2) }
       | _ \<Rightarrow> do {
           vs3 \<leftarrow> arr_put vs2 2 (bits_at 8 0 (writeMask front) OR bits_at 8 8 (writeMask back));
           Some (vs3, 3) } })"

definition encodeVPMSetup :: "u8 \<Rightarrow> u8 \<Rightarrow> u8 \<Rightarrow> u8 \<Rightarrow> u8 \<Rightarrow> u8 \<Rightarrow> u32" where
  "encodeVPMSetup stride direction isLaned sz address vectorComponentsToRead =
     bits_at 4 20 (ucast vectorComponentsToRead)
     OR bits_at 6 12 (ucast stride)
     OR bits_at 1 11 (ucast direction)
     OR bits_at 1 10 (ucast isLaned)
     OR bits_at 2 8 (ucast sz)
     OR bits_at 8 0 (ucast address)"

subsection \<open>Properties of the encoders\<close>

lemma type4_bit: "push_bit 31 (drop_bit 4 (ucast t AND 0x10)) = bits_at 1 31 (drop_bit 4 (ucast (t :: u8)) :: u32)"
proof -
  have "(0x10 :: u32) = push_bit 4 (mask 1)" by (simp add: mask_eq_exp_minus_1)
  then show ?thesis by (intro bit_word_eqI) (auto simp: bits_at_def bit_simps simp del: push_bit_of_1)
qed

lemma flag_mask: "(if b then 1 else 0 :: 'a::len word) AND mask 1 = (if b then 1 else 0)"
  by (simp add: mask_eq_exp_minus_1)

text \<open>C11: encodeTextureUniform packs every argument into its hardware field: each field of the
  three configuration words reads back as the argument reduced to the width of the field, the
  fifth bit of the texture type included, and the fourth word is 0.\<close>

theorem encodeTextureUniform_fields:
  "\<exists>p0 p1 p2. encodeTextureUniform levels type cube stride base height width minf magf wrapT wrapS noLod
       = [p0, p1, p2, 0] \<and>
     field 4 0 p0 = ucast levels AND mask 4 \<and> field 4 4 p0 = ucast type AND mask 4 \<and>
     field 1 31 p1 = drop_bit 4 (ucast type) AND mask 1 \<and>
     field 1 9 p0 = (if cube \<noteq> 0 then 1 else 0) \<and> field 20 12 p0 = base AND mask 20 \<and>
     field 2 0 p1 = ucast wrapS AND mask 2 \<and> field 2 2 p1 = ucast wrapT AND mask 2 \<and>
     field 3 4 p1 = ucast minf AND mask 3 \<and> field 1 7 p1 = ucast magf AND mask 1 \<and>
     field 11 8 p1 = ucast width AND mask 11 \<and> field 11 20 p1 = ucast height AND mask 11 \<and>
     field 1 0 p2 = ucast noLod AND mask 1 \<and> field 18 12 p2 = stride AND mask 18 \<and>
     field 1 30 p2 = (if cube = 0 \<and> noLod = 0 then 0 else 1)"
  unfolding encodeTextureUniform_def type4_bit
  by ((rule exI)+, rule conjI, rule refl, simp add: fields flag_mask)

lemma stencil_word_fields:
  "field 8 0 (stencil_word st face) = compareMask st AND mask 8"
  "field 8 8 (stencil_word st face) = reference st AND mask 8"
  "field 3 16 (stencil_word st face) = getCompareOp (compareOp st) AND mask 3"
  "field 3 19 (stencil_word st face) = getStencilOp (failOp st) AND mask 3"
  "field 3 22 (stencil_word st face) = getStencilOp (passOp st) AND mask 3"
  "field 3 25 (stencil_word st face) = getStencilOp (depthFailOp st) AND mask 3"
  "field 2 28 (stencil_word st face) = 0"
  "field 2 30 (stencil_word st face) = face AND mask 2"
  by (simp_all add: stencil_word_def fields)


subsection \<open>Powers of two\<close>

lemma ulog2_loop_spec:
  "0 < unat v \<Longrightarrow> unat r + unat v < 2 ^ 32 \<Longrightarrow>
    \<exists>k. unat (ulog2_loop v r) = unat r + k \<and> 2 ^ k \<le> unat v \<and> unat v < 2 ^ Suc k"
proof (induction v r rule: ulog2_loop.induct)
  case (1 v r)
  let ?v = "drop_bit 1 v"
  have h: "unat ?v = unat v div 2" by (simp add: drop_bit_eq_div unat_div)
  show ?case
  proof (cases "?v = 0")
    case True
    with h "1.prems" have "unat v = 1" by simp
    then show ?thesis using True by (intro exI [of _ 0]) (simp add: ulog2_loop.simps [of v r] Let_def)
  next
    case False
    then have "unat ?v \<noteq> 0" by (metis unsigned_eq_0_iff)
    with h have v2: "2 \<le> unat v" "0 < unat ?v" by simp_all
    have r1: "unat (r + 1) = unat r + 1"
      using v2 "1.prems" unat_add_of_nat [of r 1] by simp
    have "unat (r + 1) + unat ?v < 2 ^ 32" using r1 h v2 "1.prems" by simp
    from "1.IH" [OF refl False v2(2) this] obtain k where
      k: "unat (ulog2_loop ?v (r + 1)) = unat (r + 1) + k" "2 ^ k \<le> unat ?v" "unat ?v < 2 ^ Suc k" by blast
    have "ulog2_loop v r = ulog2_loop ?v (r + 1)"
      using False by (simp only: ulog2_loop.simps [of v r] Let_def if_False)
    moreover have "2 * 2 ^ k \<le> unat v" "unat v < 2 * (2 * 2 ^ k)" using k(2,3) h by simp_all
    ultimately show ?thesis using k(1) r1 by (intro exI [of _ "Suc k"]) simp
  qed
qed

lemma ulog2_floor: "0 < unat v \<Longrightarrow> 2 ^ unat (ulog2 v) \<le> unat v \<and> unat v < 2 ^ Suc (unat (ulog2 v))"
  using ulog2_loop_spec [of v 0] unat_lt_u32 [of v] by (auto simp: ulog2_def)

lemma smear_step:
  assumes "\<And>i. bit y i \<longleftrightarrow> (\<exists>d<m. bit (n :: 'a::len word) (i + d))"
  shows "bit (y OR drop_bit m y) i \<longleftrightarrow> (\<exists>d<2 * m. bit n (i + d))"
proof
  assume "bit (y OR drop_bit m y) i"
  then consider "bit y i" | "bit y (m + i)" by (auto simp: bit_simps)
  then show "\<exists>d<2 * m. bit n (i + d)"
  proof cases
    case 1
    then obtain d where "d < m" "bit n (i + d)" using assms by blast
    then show ?thesis by (intro exI [of _ d]) simp
  next
    case 2
    then obtain d where "d < m" "bit n (m + i + d)" using assms by blast
    then show ?thesis by (intro exI [of _ "m + d"]) (simp add: ac_simps)
  qed
next
  assume "\<exists>d<2 * m. bit n (i + d)"
  then obtain d where d: "d < 2 * m" "bit n (i + d)" by blast
  show "bit (y OR drop_bit m y) i"
  proof (cases "d < m")
    case True
    then show ?thesis using d assms by (auto simp: bit_simps)
  next
    case False
    then have "bit y (m + i)" using assms [of "m + i"] d by (auto intro!: exI [of _ "d - m"])
    then show ?thesis by (simp add: bit_simps)
  qed
qed

lemma top_bit:
  assumes "(n :: 'a::len word) \<noteq> 0"
  obtains h where "2 ^ h \<le> unat n" "unat n < 2 ^ Suc h" "bit n h" "\<And>j. h < j \<Longrightarrow> \<not> bit n j"
proof -
  have "1 \<le> unat n" using assms by (simp add: Suc_le_eq unat_gt_0)
  then obtain h where h: "2 ^ h \<le> unat n" "unat n < 2 ^ (h + 1)"
    using ex_power_ivl1 [of 2 "unat n"] by auto
  have b: "bit n j \<longleftrightarrow> odd (unat n div 2 ^ j)" for j
  proof -
    have "bit (unat n) j \<longleftrightarrow> bit n j" by (simp add: bit_unsigned_iff)
    then show ?thesis by (simp add: bit_iff_odd)
  qed
  have "unat n div 2 ^ h = 1" using h by (intro div_nat_eqI) auto
  then have "bit n h" using b by simp
  moreover have "\<not> bit n j" if "h < j" for j
  proof -
    have "(2 :: nat) ^ Suc h \<le> 2 ^ j" using that by (intro power_increasing) auto
    then have "unat n div 2 ^ j = 0" using h(2) by simp
    then show ?thesis using b by simp
  qed
  ultimately show ?thesis using that h by auto
qed

lemma getPow2Pad_smear:
  assumes "n0 - 1 \<noteq> 0" "2 ^ h \<le> unat (n0 - 1)" "unat (n0 - 1) < 2 ^ Suc h" "bit (n0 - 1) h"
    "\<And>j. h < j \<Longrightarrow> \<not> bit (n0 - 1) j"
  shows "getPow2Pad n0 = mask (Suc h) + 1"
proof -
  define n where "n = n0 - 1"
  define n2 where "n2 = n OR drop_bit 1 n"
  define n3 where "n3 = n2 OR drop_bit 2 n2"
  define n4 where "n4 = n3 OR drop_bit 4 n3"
  define n5 where "n5 = n4 OR drop_bit 8 n4"
  define n6 where "n6 = n5 OR drop_bit 16 n5"
  have 1: "bit n i \<longleftrightarrow> (\<exists>d<1. bit n (i + d))" for i by simp
  have 2: "bit n2 i \<longleftrightarrow> (\<exists>d<2. bit n (i + d))" for i
    unfolding n2_def using smear_step [of n 1 n i, OF 1] by simp
  have 3: "bit n3 i \<longleftrightarrow> (\<exists>d<4. bit n (i + d))" for i
    unfolding n3_def using smear_step [of n2 2 n i, OF 2] by simp
  have 4: "bit n4 i \<longleftrightarrow> (\<exists>d<8. bit n (i + d))" for i
    unfolding n4_def using smear_step [of n3 4 n i, OF 3] by simp
  have 5: "bit n5 i \<longleftrightarrow> (\<exists>d<16. bit n (i + d))" for i
    unfolding n5_def using smear_step [of n4 8 n i, OF 4] by simp
  have 6: "bit n6 i \<longleftrightarrow> (\<exists>d<32. bit n (i + d))" for i
    unfolding n6_def using smear_step [of n5 16 n i, OF 5] by simp
  have h: "h < 32" using bit_imp_le_length [OF assms(4)] by simp
  have "n6 = mask (Suc h)"
  proof (rule bit_word_eqI)
    fix i assume "i < LENGTH(32)"
    have "(\<exists>d<32. bit n (i + d)) \<longleftrightarrow> i \<le> h"
    proof
      assume "\<exists>d<32. bit n (i + d)"
      then obtain d where "bit n (i + d)" by blast
      then have "\<not> h < i + d" using assms(5) n_def by blast
      then show "i \<le> h" by simp
    next
      assume "i \<le> h"
      then show "\<exists>d<32. bit n (i + d)" using h assms(4) n_def by (intro exI [of _ "h - i"]) simp
    qed
    then show "bit n6 i \<longleftrightarrow> bit (mask (Suc h) :: u32) i"
      using 6 \<open>i < LENGTH(32)\<close> by (simp add: bit_mask_iff less_Suc_eq_le)
  qed
  moreover have "getPow2Pad n0 = n6 + 1"
    by (simp only: getPow2Pad_def Let_def n_def n2_def n3_def n4_def n5_def n6_def)
  ultimately show ?thesis by simp
qed

text \<open>\<open>getPow2Pad\<close> returns the least power of two that is not below n, for 1 up to 2^31; outside
  that range it wraps to 0.\<close>

theorem getPow2Pad_least:
  "if 0 < n \<and> n \<le> 2 ^ 31
   then \<exists>k. unat (getPow2Pad n) = 2 ^ k \<and> unat n \<le> 2 ^ k \<and> 2 ^ k < 2 * unat n
   else getPow2Pad n = 0"
proof (cases "n - 1 = 0")
  case True
  then have "n = 1" by simp
  then show ?thesis by (auto simp: getPow2Pad_def intro!: exI [of _ 0])
next
  case False
  from top_bit [OF this] obtain h where h: "2 ^ h \<le> unat (n - 1)" "unat (n - 1) < 2 ^ Suc h"
    "bit (n - 1) h" "\<And>j. h < j \<Longrightarrow> \<not> bit (n - 1) j" by blast
  have g: "getPow2Pad n = 2 ^ Suc h" using getPow2Pad_smear [OF False h]
    by (simp add: mask_eq_exp_minus_1)
  have h32: "h < 32" using bit_imp_le_length [OF h(3)] by simp
  show ?thesis
  proof (cases "0 < n \<and> n \<le> 2 ^ 31")
    case True
    then have n: "unat (n - 1) = unat n - 1" "unat n \<le> 2 ^ 31" "0 < unat n"
      by (simp_all add: unat_minus_one word_le_nat_alt unat_gt_0 word_greater_zero_iff)
    have "(2 :: nat) ^ h < 2 ^ 31" using h(1) n by linarith
    then have "h < 31" by (simp only: power_strict_increasing_iff)
    then have "(2 :: nat) ^ Suc h < 2 ^ 32" by (intro power_strict_increasing) auto
    then have "unat (of_nat (2 ^ Suc h) :: u32) = 2 ^ Suc h" by (rule unat_of_nat_u32)
    then have "unat (2 ^ Suc h :: u32) = 2 ^ Suc h" by simp
    moreover have "(2 :: nat) ^ Suc h < 2 * unat n" using h(1) n by simp
    moreover have "unat n \<le> 2 ^ Suc h" using h(2) n by linarith
    ultimately have "\<exists>k. unat (getPow2Pad n) = 2 ^ k \<and> unat n \<le> 2 ^ k \<and> 2 ^ k < 2 * unat n"
      unfolding g by blast
    with True show ?thesis by (simp only: simp_thms if_True)
  next
    case F: False
    have "h = 31"
    proof (rule ccontr)
      assume "h \<noteq> 31"
      with h32 have "Suc h \<le> 31" by simp
      then have "(2 :: nat) ^ Suc h \<le> 2 ^ 31" by (rule power_increasing) simp
      with h(2) have l: "unat (n - 1) < 2 ^ 31" by linarith
      have "n \<noteq> 0"
      proof
        assume "n = 0"
        with l show False by (simp add: unsigned_minus_1_eq_mask mask_eq_exp_minus_1)
      qed
      then have "unat n \<le> 2 ^ 31" "0 < unat n" using l unat_minus_one [of n] by (simp_all add: unat_gt_0)
      then show False using F \<open>n \<noteq> 0\<close> by (simp add: word_le_nat_alt word_gt_0)
    qed
    then show ?thesis using F g by simp
  qed
qed

subsection \<open>The stencil setup\<close>

lemma short_write_mask_Some:
  assumes "short_write_mask w = Some c"
  shows "[0x1, 0x3, 0xf, 0xff] ! unat c = w" "c AND mask 2 = c" "w AND mask 8 = w"
  using assms by (auto simp: short_write_mask_def mask_eq_exp_minus_1 split: if_splits)

text \<open>
  How the hardware reads the stencil setup: bits 30 and 31 of a setup word name the faces it is
  for, bits 28 and 29 are a short write mask, replaced by those of a write mask word if one
  follows the setup words.
\<close>

record stencil_face =
  sf_compareMask :: u32
  sf_reference :: u32
  sf_func :: u32
  sf_fail :: u32
  sf_pass :: u32
  sf_zfail :: u32
  sf_writeMask :: u32

definition read_face :: "u32 \<Rightarrow> u32 \<Rightarrow> stencil_face" where
  "read_face w wm = \<lparr>sf_compareMask = field 8 0 w, sf_reference = field 8 8 w, sf_func = field 3 16 w,
     sf_fail = field 3 19 w, sf_pass = field 3 22 w, sf_zfail = field 3 25 w, sf_writeMask = wm\<rparr>"

definition read_stencil :: "u32 list \<Rightarrow> u32 \<Rightarrow> stencil_face \<times> stencil_face" where
  "read_stencil vs num = (
     let front = vs ! 0;
         both = (field 2 30 front = 3);
         back = (if both then front else vs ! 1);
         extra = (if both then 1 else 2);
         short = (\<lambda>w. [0x1, 0x3, 0xf, 0xff] ! unat (field 2 28 w))
     in if unat num = extra then (read_face front (short front), read_face back (short back))
        else (read_face front (field 8 0 (vs ! extra)), read_face back (field 8 8 (vs ! extra))))"

definition face_of :: "VkStencilOpState \<Rightarrow> u8 \<Rightarrow> stencil_face" where
  "face_of st enable = \<lparr>sf_compareMask = compareMask st AND mask 8, sf_reference = reference st AND mask 8,
     sf_func = getCompareOp (if enable = 0 then VK_COMPARE_OP_ALWAYS else compareOp st) AND mask 3,
     sf_fail = getStencilOp (failOp st) AND mask 3, sf_pass = getStencilOp (passOp st) AND mask 3,
     sf_zfail = getStencilOp (depthFailOp st) AND mask 3, sf_writeMask = writeMask st AND mask 8\<rparr>"

lemma read_face_stencil_word:
  assumes "\<And>n p. p + n \<le> 28 \<or> 30 \<le> p \<Longrightarrow> field n p w = field n p (stencil_word st f)"
  shows "read_face w m = \<lparr>sf_compareMask = compareMask st AND mask 8, sf_reference = reference st AND mask 8,
     sf_func = getCompareOp (compareOp st) AND mask 3,
     sf_fail = getStencilOp (failOp st) AND mask 3, sf_pass = getStencilOp (passOp st) AND mask 3,
     sf_zfail = getStencilOp (depthFailOp st) AND mask 3, sf_writeMask = m\<rparr>"
  by (simp add: read_face_def assms stencil_word_fields)

lemma or_code_fields:
  "p + n \<le> 28 \<or> 30 \<le> p \<Longrightarrow> field n p (w OR bits_at 2 28 c) = field n p (w :: u32)"
  by (auto simp: field_or field_above field_below)

lemma code_field:
  "field 2 28 (stencil_word st f OR bits_at 2 28 c) = c AND mask 2"
  by (simp add: field_or field_same stencil_word_fields)

lemma face_of_read:
  "face_of st enable =
     read_face (stencil_word (if enable = 0 then st\<lparr>compareOp := VK_COMPARE_OP_ALWAYS\<rparr> else st) f) (writeMask st AND mask 8)"
  by (simp add: face_of_def read_face_def stencil_word_fields)

lemma read_face_code: "read_face (stencil_word st f OR bits_at 2 28 k) m = read_face (stencil_word st f) m"
  by (simp add: read_face_def or_code_fields)

lemma face_bits:
  "field 2 30 (stencil_word st f OR bits_at 2 28 k) = f AND mask 2"
  "field 2 30 (stencil_word st f) = f AND mask 2"
  by (simp_all add: or_code_fields stencil_word_fields)

lemma write_mask_word:
  "field 8 0 (bits_at 8 0 x OR bits_at 8 8 y) = (x :: u32) AND mask 8"
  "field 8 8 (bits_at 8 0 x OR bits_at 8 8 y) = (y :: u32) AND mask 8"
  by (simp_all add: fields)

lemma face_numbers: "(3 :: u32) AND mask 2 = 3" "(1 :: u32) AND mask 2 = 1"
  by (simp_all add: mask_eq_exp_minus_1)

lemmas stencil_read = read_stencil_def Let_def face_bits face_numbers read_face_code code_field write_mask_word

text \<open>C10: encodeStencilValue writes between one and three words of a three-element array, from which
  the hardware reads back exactly the state of the two faces it was given: masks and references
  reduced to 8 bits, the operations as their codes, the compare operation ALWAYS when the test is
  disabled, and the write masks, whether they went into the short codes or into an extra word.\<close>

theorem encodeStencilValue_roundtrip:
  assumes "length values = 3"
  shows "\<exists>vs num. encodeStencilValue values front back enable = Some (vs, num) \<and> length vs = 3 \<and>
     unat num \<in> {1, 2, 3} \<and> read_stencil vs num = (face_of front enable, face_of back enable)"
proof -
  obtain a b c where v: "values = [a, b, c]" using assms by (auto simp: length_Suc_conv numeral_3_eq_3)
  define F where "F = (if enable = 0 then front\<lparr>compareOp := VK_COMPARE_OP_ALWAYS\<rparr> else front)"
  define B where "B = (if enable = 0 then back\<lparr>compareOp := VK_COMPARE_OP_ALWAYS\<rparr> else back)"
  let ?same = "compareMask F = compareMask B \<and> compareOp F = compareOp B \<and>
        depthFailOp F = depthFailOp B \<and> failOp F = failOp B \<and>
        passOp F = passOp B \<and> reference F = reference B \<and> writeMask F = writeMask B"
  have wm: "writeMask F = writeMask front" "writeMask B = writeMask back" by (simp_all add: F_def B_def)
  have faces: "face_of front enable = read_face (stencil_word F f) (writeMask F AND mask 8)"
    "face_of back enable = read_face (stencil_word B f) (writeMask B AND mask 8)" for f
    using face_of_read [of front enable f] face_of_read [of "back" enable f] wm by (simp_all only: F_def B_def)
  note enc = encodeStencilValue_def [of "values" front "back" enable, unfolded Let_def, folded F_def B_def]
  show ?thesis
  proof (cases ?same)
    case same: True
    have sw: "stencil_word B f = stencil_word F f" for f using same by (simp add: stencil_word_def)
    show ?thesis
    proof (cases "short_write_mask (writeMask F)")
      case None
      have "encodeStencilValue values front back enable =
          Some ([stencil_word F 3, bits_at 8 0 (writeMask F) OR bits_at 8 8 (writeMask F), c], 2)"
        unfolding enc if_P [OF same] by (simp add: None v arr_put_def)
      moreover have "read_stencil [stencil_word F 3, bits_at 8 0 (writeMask F) OR bits_at 8 8 (writeMask F), c] 2 =
          (face_of front enable, face_of back enable)"
        unfolding faces [of 3] sw using same by (simp add: stencil_read)
      ultimately show ?thesis by simp
    next
      case (Some k)
      note k = short_write_mask_Some [OF Some]
      have "encodeStencilValue values front back enable = Some ([stencil_word F 3 OR bits_at 2 28 k, b, c], 1)"
        unfolding enc if_P [OF same] by (simp add: Some v arr_put_def)
      moreover have "read_stencil [stencil_word F 3 OR bits_at 2 28 k, b, c] 1 =
          (face_of front enable, face_of back enable)"
        unfolding faces [of 3] sw using same k by (simp add: stencil_read)
      ultimately show ?thesis by simp
    qed
  next
    case diff: False
    show ?thesis
    proof (cases "\<exists>cf cb. short_write_mask (writeMask F) = Some cf \<and> short_write_mask (writeMask B) = Some cb")
      case True
      then obtain cf cb where k: "short_write_mask (writeMask F) = Some cf" "short_write_mask (writeMask B) = Some cb"
        by blast
      have "encodeStencilValue values front back enable =
          Some ([stencil_word F 1 OR bits_at 2 28 cf, stencil_word B 2 OR bits_at 2 28 cb, c], 2)"
        unfolding enc if_not_P [OF diff] by (simp add: k v arr_put_def)
      moreover have "read_stencil [stencil_word F 1 OR bits_at 2 28 cf, stencil_word B 2 OR bits_at 2 28 cb, c] 2 =
          (face_of front enable, face_of back enable)"
        unfolding faces(1) [of 1] faces(2) [of 2]
        using short_write_mask_Some [OF k(1)] short_write_mask_Some [OF k(2)] by (simp add: stencil_read)
      ultimately show ?thesis by simp
    next
      case False
      then have "encodeStencilValue values front back enable =
          Some ([stencil_word F 1, stencil_word B 2, bits_at 8 0 (writeMask F) OR bits_at 8 8 (writeMask B)], 3)"
        unfolding enc if_not_P [OF diff] by (auto simp: v arr_put_def split: option.splits)
      moreover have "read_stencil [stencil_word F 1, stencil_word B 2,
          bits_at 8 0 (writeMask F) OR bits_at 8 8 (writeMask B)] 3 = (face_of front enable, face_of back enable)"
        unfolding faces(1) [of 1] faces(2) [of 2] by (simp add: stencil_read)
      ultimately show ?thesis by simp
    qed
  qed
qed

lemma encodeStencilValue_roundtrip_witness:
  "\<exists>vs num. encodeStencilValue [0, 0, 0]
       \<lparr>failOp = VK_STENCIL_OP_KEEP, passOp = VK_STENCIL_OP_REPLACE, depthFailOp = VK_STENCIL_OP_ZERO,
        compareOp = VK_COMPARE_OP_LESS, compareMask = 0xff, writeMask = 0x7, reference = 0x101\<rparr>
       \<lparr>failOp = VK_STENCIL_OP_KEEP, passOp = VK_STENCIL_OP_INVERT, depthFailOp = VK_STENCIL_OP_ZERO,
        compareOp = VK_COMPARE_OP_LESS, compareMask = 0xff, writeMask = 0xff, reference = 2\<rparr> 1 = Some (vs, num) \<and>
     sf_reference (fst (read_stencil vs num)) = 1 \<and> sf_writeMask (fst (read_stencil vs num)) = 0x7 \<and>
     sf_pass (snd (read_stencil vs num)) = 5"
  using encodeStencilValue_roundtrip [of "[0, 0, 0]"
       "\<lparr>failOp = VK_STENCIL_OP_KEEP, passOp = VK_STENCIL_OP_REPLACE, depthFailOp = VK_STENCIL_OP_ZERO,
        compareOp = VK_COMPARE_OP_LESS, compareMask = 0xff, writeMask = 0x7, reference = 0x101\<rparr>"
       "\<lparr>failOp = VK_STENCIL_OP_KEEP, passOp = VK_STENCIL_OP_INVERT, depthFailOp = VK_STENCIL_OP_ZERO,
        compareOp = VK_COMPARE_OP_LESS, compareMask = 0xff, writeMask = 0xff, reference = 2\<rparr>" 1]
  by (auto simp: face_of_def getStencilOp_def mask_eq_exp_minus_1)

text \<open>The microtiles of every format are 512 bits: tile width times tile height times the bits
  per pixel is 512 (24-bit formats use the tiles of 32-bit ones), and isLTformat compares the
  texture with four tiles; only formats of 48, 96 and 192 bits and unknown ones have no tile, and
  there the dimensions are read uninitialised.\<close>

theorem format_utile_512_bits:
  "case isLTformat (getFormatBpp f) w h of
     None \<Rightarrow> getFormatBpp f \<in> {0, 48, 96, 192}
   | Some lt \<Rightarrow> \<exists>tw th. getUTileDimensions (getFormatBpp f) = Some (tw, th) \<and>
       (tw * th * getFormatBpp f = 512 \<or> getFormatBpp f = 24 \<and> tw * th * 32 = 512) \<and>
       (lt \<longleftrightarrow> w \<le> 4 * tw \<or> h \<le> 4 * th)"
proof -
  have "getFormatBpp f \<in> {256, 192, 128, 96, 64, 48, 32, 24, 16, 8, 4, 0}"
    by (cases f) (simp_all add: getFormatBpp_def)
  then show ?thesis by (auto simp: isLTformat_def getUTileDimensions_def)
qed

end
