(* ===== verification/Memory.thy ===== *)
theory Memory
  imports Prelude
begin

text \<open>
  The byte memory of the process, as far as the driver reads and writes it through raw
  pointers.  A memory maps the addresses that may be accessed to their bytes; an access to any
  other address is undefined behaviour (\<open>None\<close>).  A 32-bit access is four byte accesses, low
  byte first, which is the layout of the ARM target.  The locale \<open>word_heap\<close> is the interface
  the allocators use (word loads and stores and the cells they touch); the interpretation at
  the end discharges its laws for this memory.
\<close>

type_synonym mem = "addr \<rightharpoonup> u8"

subsection \<open>Bytes of a word\<close>

definition bytes32 :: "u32 \<Rightarrow> u8 list" where
  "bytes32 v = [ucast v, ucast (drop_bit 8 v), ucast (drop_bit 16 v), ucast (drop_bit 24 v)]"

definition bytes16 :: "u16 \<Rightarrow> u8 list" where
  "bytes16 v = [ucast v, ucast (drop_bit 8 v)]"

definition le32 :: "u8 \<Rightarrow> u8 \<Rightarrow> u8 \<Rightarrow> u8 \<Rightarrow> u32" where
  "le32 b0 b1 b2 b3 =
     ucast b0 OR push_bit 8 (ucast b1) OR push_bit 16 (ucast b2) OR push_bit 24 (ucast b3)"

lemma length_bytes [simp]: "length (bytes32 v) = 4" "length (bytes16 w) = 2"
  by (simp_all add: bytes32_def bytes16_def)

lemma le32_bytes32:
  "le32 (ucast v) (ucast (drop_bit 8 v)) (ucast (drop_bit 16 v)) (ucast (drop_bit 24 v)) = v"
proof (rule bit_eqI)
  fix n
  assume "possible_bit TYPE(u32) n"
  then have "n < 32" by simp
  then consider "n < 8" | "8 \<le> n" "n < 16" | "16 \<le> n" "n < 24" | "24 \<le> n" "n < 32"
    by linarith
  then show "bit (le32 (ucast v) (ucast (drop_bit 8 v)) (ucast (drop_bit 16 v))
      (ucast (drop_bit 24 v))) n = bit v n"
    by cases (auto simp: le32_def bit_simps)
qed

subsection \<open>Loads and stores\<close>

fun load_bytes :: "mem \<Rightarrow> addr \<Rightarrow> nat \<Rightarrow> u8 list option" where
  "load_bytes m a 0 = Some []"
| "load_bytes m a (Suc n) = do { b \<leftarrow> m a; bs \<leftarrow> load_bytes m (a + 1) n; Some (b # bs) }"

fun store_bytes :: "mem \<Rightarrow> addr \<Rightarrow> u8 list \<Rightarrow> mem option" where
  "store_bytes m a [] = Some m"
| "store_bytes m a (b # bs) =
     (if m a = None then None else store_bytes (m(a \<mapsto> b)) (a + 1) bs)"

definition load32 :: "mem \<Rightarrow> addr \<Rightarrow> u32 option" where
  "load32 m a = do { b0 \<leftarrow> m a; b1 \<leftarrow> m (a + 1); b2 \<leftarrow> m (a + 2); b3 \<leftarrow> m (a + 3);
     Some (le32 b0 b1 b2 b3) }"

definition store32 :: "mem \<Rightarrow> addr \<Rightarrow> u32 \<Rightarrow> mem option" where
  "store32 m a v = store_bytes m a (bytes32 v)"

text \<open>The addresses of the \<open>n\<close> bytes at \<open>a\<close>.\<close>

definition extent :: "addr \<Rightarrow> nat \<Rightarrow> addr set" where
  "extent a n = (\<lambda>i. a + of_nat i) ` {..<n}"

lemma extent_0 [simp]: "extent a 0 = {}"
  by (simp add: extent_def)

lemma extent_Suc: "extent a (Suc n) = insert a (extent (a + 1) n)"
  by (force simp: extent_def lessThan_Suc_eq_insert_0 image_image algebra_simps)

lemma extent_mono: "k \<le> n \<Longrightarrow> extent a k \<subseteq> extent a n"
  by (auto simp: extent_def)

lemma extent_add: "extent a (k + n) = extent a k \<union> extent (a + of_nat k) n"
  by (induction k arbitrary: a) (auto simp: extent_Suc algebra_simps)

lemma extent_4: "extent a 4 = {a, a + 1, a + 2, a + 3}"
  by (auto simp: extent_def numeral_eq_Suc lessThan_Suc algebra_simps)

lemma self_notin_span:
  assumes "n < 2 ^ 32"
  shows "a \<notin> extent (a + 1) n"
proof
  assume "a \<in> extent (a + 1) n"
  then obtain i where "i < n" and "a = a + (1 + of_nat i)"
    by (auto simp: extent_def algebra_simps)
  then have "(of_nat (Suc i) :: u32) = of_nat 0" by simp
  with \<open>i < n\<close> assms show False by (simp only: of_nat_u32_inject)
qed

subsection \<open>Laws of byte accesses\<close>

lemma store_bytes_dom:
  "store_bytes m a bs = Some m' \<Longrightarrow> dom m' = dom m"
  by (induction m a bs rule: store_bytes.induct) (auto split: if_splits)

lemma store_bytes_frame:
  "store_bytes m a bs = Some m' \<Longrightarrow> x \<notin> extent a (length bs) \<Longrightarrow> m' x = m x"
  by (induction m a bs rule: store_bytes.induct) (auto simp: extent_Suc split: if_splits)

lemma store_bytes_defined:
  "extent a (length bs) \<subseteq> dom m \<Longrightarrow> \<exists>m'. store_bytes m a bs = Some m'"
  by (induction m a bs rule: store_bytes.induct) (force simp: extent_Suc)+

lemma store_bytes_span:
  "store_bytes m a bs = Some m' \<Longrightarrow> extent a (length bs) \<subseteq> dom m"
proof (induction m a bs rule: store_bytes.induct)
  case (1 m a)
  then show ?case by simp
next
  case (2 m a b bs)
  from "2.prems" have st: "m a \<noteq> None" "store_bytes (m(a \<mapsto> b)) (a + 1) bs = Some m'"
    by (auto split: if_splits)
  then have "extent (a + 1) (length bs) \<subseteq> dom (m(a \<mapsto> b))" by (rule "2.IH")
  with st show ?case by (auto simp: extent_Suc)
qed

lemma load_bytes_frame:
  "(\<And>x. x \<in> extent a n \<Longrightarrow> m' x = m x) \<Longrightarrow> load_bytes m' a n = load_bytes m a n"
  by (induction n arbitrary: a) (auto simp: extent_Suc)

lemma load_bytes_defined: "extent a n \<subseteq> dom m \<Longrightarrow> \<exists>bs. load_bytes m a n = Some bs"
  by (induction n arbitrary: a) (auto simp: extent_Suc bind_Some_iff)

lemma load_bytes_length: "load_bytes m a n = Some bs \<Longrightarrow> length bs = n"
  by (induction n arbitrary: a bs) (auto elim!: bind_SomeE)

lemma load_bytes_add:
  "load_bytes m a (k + n) =
     do { xs \<leftarrow> load_bytes m a k; ys \<leftarrow> load_bytes m (a + of_nat k) n; Some (xs @ ys) }"
proof (induction k arbitrary: a)
  case 0
  then show ?case by (cases "load_bytes m a n") auto
next
  case (Suc k)
  have eq: "a + 1 + of_nat k = a + of_nat (Suc k)" by simp
  show ?case
    by (cases "m a"; cases "load_bytes m (a + 1) k"; cases "load_bytes m (a + of_nat (Suc k)) n")
      (simp_all only: add_Suc load_bytes.simps Suc eq, simp_all)
qed

lemma load_bytes_prefix:
  assumes "load_bytes m a (length (xs @ ys)) = Some (xs @ ys)"
  shows "load_bytes m a (length xs) = Some xs"
proof -
  from assms obtain zs ws where z: "load_bytes m a (length xs) = Some zs" "zs @ ws = xs @ ys"
    unfolding length_append load_bytes_add bind_Some_iff option.inject by blast
  from z(2) load_bytes_length [OF z(1)] have "zs = xs" by simp
  with z(1) show ?thesis by (simp only:)
qed

lemma load_store_bytes_same:
  "store_bytes m a bs = Some m' \<Longrightarrow> length bs \<le> 2 ^ 32 \<Longrightarrow> load_bytes m' a (length bs) = Some bs"
proof (induction m a bs rule: store_bytes.induct)
  case (1 m a)
  then show ?case by simp
next
  case (2 m a b bs)
  then have st: "m a \<noteq> None" "store_bytes (m(a \<mapsto> b)) (a + 1) bs = Some m'"
    by (auto split: if_splits)
  have "a \<notin> extent (a + 1) (length bs)" using "2.prems" by (intro self_notin_span) simp
  then have "m' a = Some b" using store_bytes_frame [OF st(2)] by simp
  moreover have "load_bytes m' (a + 1) (length bs) = Some bs"
    using "2.IH" [OF st] "2.prems" by simp
  ultimately show ?case by simp
qed

subsection \<open>Laws of word accesses\<close>

lemma load_bytes_4:
  "load_bytes m a 4 = do { b0 \<leftarrow> m a; b1 \<leftarrow> m (a + 1); b2 \<leftarrow> m (a + 2); b3 \<leftarrow> m (a + 3);
     Some [b0, b1, b2, b3] }"
proof -
  have "load_bytes m a (Suc (Suc (Suc (Suc 0)))) =
      do { b0 \<leftarrow> m a; b1 \<leftarrow> m (a + 1); b2 \<leftarrow> m (a + 2); b3 \<leftarrow> m (a + 3); Some [b0, b1, b2, b3] }"
    by (cases "m a"; cases "m (a + 1)"; cases "m (a + 2)"; cases "m (a + 3)")
      (simp_all add: add.assoc)
  then show ?thesis by (simp only: eval_nat_numeral BitM.simps)
qed

lemma load32_load_bytes:
  "load32 m a = do { bs \<leftarrow> load_bytes m a 4; Some (le32 (bs ! 0) (bs ! 1) (bs ! 2) (bs ! 3)) }"
  by (cases "m a"; cases "m (a + 1)"; cases "m (a + 2)"; cases "m (a + 3)")
    (simp_all add: load32_def load_bytes_4)

lemma load32_frame:
  "(\<And>x. x \<in> extent a 4 \<Longrightarrow> m' x = m x) \<Longrightarrow> load32 m' a = load32 m a"
  by (simp add: load32_def extent_4)

lemma load32_defined: "load32 m a \<noteq> None \<longleftrightarrow> extent a 4 \<subseteq> dom m"
  by (auto simp: load32_def extent_4 bind_eq_None_conv domD)

lemma store32_frame:
  "store32 m a v = Some m' \<Longrightarrow> x \<notin> extent a 4 \<Longrightarrow> m' x = m x"
  using store_bytes_frame [of m a "bytes32 v"] by (simp add: store32_def)

lemma store32_dom: "store32 m a v = Some m' \<Longrightarrow> dom m' = dom m"
  unfolding store32_def by (rule store_bytes_dom)

lemma store32_defined: "(\<exists>m'. store32 m a v = Some m') \<longleftrightarrow> extent a 4 \<subseteq> dom m"
  unfolding store32_def
  using store_bytes_defined [of a "bytes32 v" m] store_bytes_span [of m a "bytes32 v"] by auto

lemma load_store32_same:
  assumes "store32 m a v = Some m'"
  shows "load32 m' a = Some v"
proof -
  have "load_bytes m' a 4 = Some (bytes32 v)"
    using load_store_bytes_same [of m a "bytes32 v" m'] assms by (simp add: store32_def)
  then show ?thesis by (simp add: load32_load_bytes) (simp add: bytes32_def le32_bytes32)
qed

text \<open>Two addresses are apart when their 4-byte cells do not overlap.\<close>

definition apart :: "addr \<Rightarrow> addr \<Rightarrow> bool" where
  "apart a b \<longleftrightarrow> extent a 4 \<inter> extent b 4 = {}"

lemma apart_sym: "apart a b \<Longrightarrow> apart b a"
  by (auto simp: apart_def)

lemma load_store32_apart:
  "store32 m a v = Some m' \<Longrightarrow> apart a b \<Longrightarrow> load32 m' b = load32 m b"
  by (rule load32_frame) (auto simp: apart_def dest: store32_frame)

lemma apart_distance:
  fixes a :: addr
  assumes "unat a + i + 4 \<le> 2 ^ 32" "unat a + j + 4 \<le> 2 ^ 32" "i + 4 \<le> j"
  shows "apart (a + of_nat i) (a + of_nat j)"
proof -
  have "unat x \<noteq> unat y"
    if x: "x \<in> extent (a + of_nat i) 4" and y: "y \<in> extent (a + of_nat j) 4" for x y
  proof -
    from x obtain k where k: "k < 4" "x = a + of_nat (i + k)"
      by (auto simp: extent_def algebra_simps)
    from y obtain l where l: "l < 4" "y = a + of_nat (j + l)"
      by (auto simp: extent_def algebra_simps)
    have "unat x = unat a + (i + k)" using k assms by (simp only: k, intro unat_add_of_nat) linarith
    moreover have "unat y = unat a + (j + l)" using l assms by (simp only: l, intro unat_add_of_nat) linarith
    ultimately show ?thesis using k l assms by linarith
  qed
  then show ?thesis by (auto simp: apart_def)
qed

text \<open>A freshly mapped, zeroed piece of memory; the witnesses start from one.\<close>

definition zero_mem :: "addr \<Rightarrow> nat \<Rightarrow> mem" where
  "zero_mem b n = (\<lambda>x. if unat b \<le> unat x \<and> unat x < unat b + n then Some 0 else None)"

lemma zero_mem_span: "unat b + n \<le> 2 ^ 32 \<Longrightarrow> extent b n \<subseteq> dom (zero_mem b n)"
proof
  fix x assume b: "unat b + n \<le> 2 ^ 32" and "x \<in> extent b n"
  then obtain i where "i < n" "x = b + of_nat i" by (auto simp: extent_def)
  with b have "unat x = unat b + i" by (simp add: unat_add_of_nat)
  with \<open>i < n\<close> show "x \<in> dom (zero_mem b n)" by (simp add: zero_mem_def dom_def)
qed

subsection \<open>Paths through linked cells\<close>

text \<open>
  \<open>path ld m p as q\<close>: following the words loaded by \<open>ld\<close> from \<open>p\<close> visits the non-null cells
  \<open>as\<close> in this order and then arrives at \<open>q\<close>.  A null-terminated list is a \<open>chain\<close>.
\<close>

fun path :: "('m \<Rightarrow> addr \<Rightarrow> u32 option) \<Rightarrow> 'm \<Rightarrow> addr \<Rightarrow> addr list \<Rightarrow> addr \<Rightarrow> bool" where
  "path ld m p [] q \<longleftrightarrow> p = q"
| "path ld m p (a # as) q \<longleftrightarrow>
     p = a \<and> a \<noteq> NULL \<and> (\<exists>r. ld m a = Some r \<and> path ld m r as q)"

definition chain :: "('m \<Rightarrow> addr \<Rightarrow> u32 option) \<Rightarrow> 'm \<Rightarrow> addr \<Rightarrow> addr list \<Rightarrow> bool" where
  "chain ld m p as \<longleftrightarrow> path ld m p as NULL"

lemma path_append [simp]:
  "path ld m p (xs @ ys) q \<longleftrightarrow> (\<exists>r. path ld m p xs r \<and> path ld m r ys q)"
  by (induction xs arbitrary: p) auto

lemma chain_Nil [simp]: "chain ld m p [] \<longleftrightarrow> p = NULL"
  by (simp add: chain_def)

lemma chain_Cons [simp]:
  "chain ld m p (a # as) \<longleftrightarrow> p = a \<and> a \<noteq> NULL \<and> (\<exists>r. ld m a = Some r \<and> chain ld m r as)"
  by (simp add: chain_def)

lemma chain_append: "chain ld m p (xs @ ys) \<longleftrightarrow> (\<exists>r. path ld m p xs r \<and> chain ld m r ys)"
  by (simp add: chain_def)

lemma chain_NULL [simp]: "chain ld m NULL as \<longleftrightarrow> as = []"
  by (cases as) auto

lemma chain_nonnull: "p \<noteq> NULL \<Longrightarrow> chain ld m p as \<longleftrightarrow>
    (\<exists>r bs. as = p # bs \<and> ld m p = Some r \<and> chain ld m r bs)"
  by (cases as) auto

lemma chain_unique: "chain ld m p as \<Longrightarrow> chain ld m p bs \<Longrightarrow> as = bs"
  by (induction as arbitrary: p bs) (auto simp: chain_nonnull)

lemma path_cong:
  "(\<And>a. a \<in> set as \<Longrightarrow> ld m' a = ld m a) \<Longrightarrow> path ld m' p as q = path ld m p as q"
  by (induction as arbitrary: p) auto

lemma path_defined: "path ld m p as q \<Longrightarrow> a \<in> set as \<Longrightarrow> ld m a \<noteq> None"
  by (induction as arbitrary: p) auto

lemma path_nonnull: "path ld m p as q \<Longrightarrow> NULL \<notin> set as"
  by (induction as arbitrary: p) auto

lemma path_unique_end: "path ld m p as q \<Longrightarrow> path ld m p as r \<Longrightarrow> q = r"
  by (induction as arbitrary: p) auto

subsection \<open>The interface of the allocators to the memory\<close>

locale word_heap =
  fixes ld :: "'m \<Rightarrow> addr \<Rightarrow> u32 option"
    and st :: "'m \<Rightarrow> addr \<Rightarrow> u32 \<Rightarrow> 'm option"
    and sep :: "addr \<Rightarrow> addr \<Rightarrow> bool"
  assumes ld_st_same: "st m a v = Some m' \<Longrightarrow> ld m' a = Some v"
    and ld_st_sep: "st m a v = Some m' \<Longrightarrow> sep a b \<Longrightarrow> ld m' b = ld m b"
    and st_defined: "ld m a \<noteq> None \<Longrightarrow> \<exists>m'. st m a v = Some m'"
    and ld_defined: "st m a v = Some m' \<Longrightarrow> ld m b \<noteq> None \<longleftrightarrow> ld m' b \<noteq> None"
begin

lemma path_st:
  assumes "st m a v = Some m'" "\<And>b. b \<in> set as \<Longrightarrow> sep a b"
  shows "path ld m' p as q = path ld m p as q"
  using assms by (intro path_cong) (auto dest: ld_st_sep)

lemma chain_st:
  assumes "st m a v = Some m'" "\<And>b. b \<in> set as \<Longrightarrow> sep a b"
  shows "chain ld m' p as = chain ld m p as"
  unfolding chain_def using assms by (rule path_st)

text \<open>Writing the link of a cell in front of a chain extends the chain.\<close>

lemma chain_push:
  assumes "st m a p = Some m'" "a \<noteq> NULL" "chain ld m p as" "\<And>b. b \<in> set as \<Longrightarrow> sep a b"
  shows "chain ld m' a (a # as)"
  using assms by (simp add: ld_st_same chain_st [OF assms(1,4)])

text \<open>Redirecting the last cell of a path splices another chain behind it.\<close>

lemma chain_splice:
  assumes "st m a p = Some m'"
    and "path ld m q (xs @ [a]) r" "chain ld m p ys"
    and "\<And>b. b \<in> set xs \<union> set ys \<Longrightarrow> sep a b"
  shows "chain ld m' q (xs @ a # ys)"
proof -
  from assms(2) have "path ld m q xs a" "a \<noteq> NULL" by auto
  then have "path ld m' q xs a" using path_st [OF assms(1)] assms(4) by auto
  moreover have "chain ld m' a (a # ys)"
    using assms \<open>a \<noteq> NULL\<close> by (intro chain_push) auto
  ultimately show ?thesis by (simp add: chain_append)
qed

end

interpretation byte_heap: word_heap load32 store32 apart
proof
  fix m m' :: mem and a b :: addr and v :: u32
  show "store32 m a v = Some m' \<Longrightarrow> load32 m' a = Some v" by (rule load_store32_same)
  show "store32 m a v = Some m' \<Longrightarrow> apart a b \<Longrightarrow> load32 m' b = load32 m b"
    by (rule load_store32_apart)
  show "load32 m a \<noteq> None \<Longrightarrow> \<exists>m'. store32 m a v = Some m'"
    by (simp only: load32_defined store32_defined)
  show "store32 m a v = Some m' \<Longrightarrow> load32 m b \<noteq> None \<longleftrightarrow> load32 m' b \<noteq> None"
    by (simp only: load32_defined store32_dom)
qed

end
