(* ===== verification/Pool_Alloc.thy ===== *)
theory Pool_Alloc
  imports Memory
begin

text \<open>
  The three simple allocators of the driver: \<open>alignedAlloc\<close> (AlignedAllocator.c), the bump
  allocator of LinearAllocator.c and the fixed-size block pool of PoolAllocator.c, whose free
  list is threaded through the free blocks themselves.  The locale \<open>block_allocator\<close> is the
  contract a client of a block pool relies on; it is interpreted on the pool's own operations.
\<close>

subsection \<open>AlignedAllocator.c\<close>

text \<open>
  \<open>posix_memalign\<close> is the C library's: the parameter maps an alignment and a size to the
  address it returns, or to \<open>None\<close> when it reports an error.
\<close>

definition alignedAlloc :: "(u32 \<Rightarrow> u32 \<Rightarrow> addr option) \<Rightarrow> u32 \<Rightarrow> u32 \<Rightarrow> addr" where
  "alignedAlloc posix_memalign bytes alignment =
     (if bytes = 0 then NULL
      else if bytes > 1024 * 1024 * 1024 then NULL
      else case posix_memalign alignment bytes of None \<Rightarrow> NULL | Some pv \<Rightarrow> pv)"

subsection \<open>LinearAllocator.c\<close>

record LinearAllocator =
  la_buf :: addr
  la_offset :: u32
  la_size :: u32

definition createLinearAllocator :: "addr \<Rightarrow> u32 \<Rightarrow> LinearAllocator" where
  "createLinearAllocator b s = \<lparr>la_buf = b, la_offset = 0, la_size = s\<rparr>"

definition destroyLinearAllocator :: "LinearAllocator \<Rightarrow> LinearAllocator" where
  "destroyLinearAllocator la = la\<lparr>la_buf := NULL, la_offset := 0, la_size := 0\<rparr>"

definition linearAllocte :: "LinearAllocator \<Rightarrow> u32 \<Rightarrow> LinearAllocator \<times> addr" where
  "linearAllocte la s =
     (if la_offset la + s \<ge> la_size la then (la, NULL)
      else (let p = la_buf la + la_offset la + s
            in (la\<lparr>la_offset := la_offset la + s\<rparr>, p)))"

definition linearFree :: "LinearAllocator \<Rightarrow> addr \<Rightarrow> LinearAllocator" where
  "linearFree la p = la"

subsection \<open>PoolAllocator.c\<close>

record PoolAllocator =
  pa_buf :: addr
  pa_nextFreeBlock :: addr
  pa_blockSize :: u32
  pa_size :: u32

text \<open>The loop of the two \<open>create\<close> functions: \<open>n\<close> times, link a block to the one behind it.\<close>

fun init_links :: "mem \<Rightarrow> addr \<Rightarrow> u32 \<Rightarrow> nat \<Rightarrow> (mem \<times> addr) option" where
  "init_links m ptr bs 0 = Some (m, ptr)"
| "init_links m ptr bs (Suc n) = do { m' \<leftarrow> store32 m ptr (ptr + bs); init_links m' (ptr + bs) bs n }"

definition createPoolAllocator :: "mem \<Rightarrow> addr \<Rightarrow> u32 \<Rightarrow> u32 \<Rightarrow> (mem \<times> PoolAllocator) option" where
  "createPoolAllocator m b bs s =
     (if bs = 0 then None
      else do {
        (m1, ptr) \<leftarrow> init_links m b bs (unat (s div bs - 1));
        m2 \<leftarrow> store32 m1 ptr 0;
        Some (m2, \<lparr>pa_buf = b, pa_nextFreeBlock = b, pa_blockSize = bs, pa_size = s\<rparr>) })"

definition destroyPoolAllocator :: "PoolAllocator \<Rightarrow> PoolAllocator" where
  "destroyPoolAllocator pa =
     pa\<lparr>pa_buf := NULL, pa_nextFreeBlock := NULL, pa_blockSize := 0, pa_size := 0\<rparr>"

fun poolAllocate :: "mem \<times> PoolAllocator \<Rightarrow> ((mem \<times> PoolAllocator) \<times> addr) option" where
  "poolAllocate (m, pa) =
     (if pa_nextFreeBlock pa = NULL then Some ((m, pa), NULL)
      else do {
        next \<leftarrow> load32 m (pa_nextFreeBlock pa);
        Some ((m, pa\<lparr>pa_nextFreeBlock := next\<rparr>), pa_nextFreeBlock pa) })"

fun poolFree :: "mem \<times> PoolAllocator \<Rightarrow> addr \<Rightarrow> (mem \<times> PoolAllocator) option" where
  "poolFree (m, pa) p = do {
     m' \<leftarrow> store32 m p (pa_nextFreeBlock pa);
     Some (m', pa\<lparr>pa_nextFreeBlock := p\<rparr>) }"

subsection \<open>Geometry of a block area\<close>

definition block_at :: "addr \<Rightarrow> u32 \<Rightarrow> nat \<Rightarrow> addr" where
  "block_at buf bs i = buf + of_nat (i * unat bs)"

definition blocks :: "addr \<Rightarrow> u32 \<Rightarrow> nat \<Rightarrow> addr list" where
  "blocks buf bs n = map (block_at buf bs) [0..<n]"

text \<open>
  What a client hands to a \<open>create\<close> function, as the asserts there ask: a non-null buffer of
  \<open>n\<close> blocks, each large enough for a link, mapped and not wrapping around the address space.
\<close>

definition block_area :: "mem \<Rightarrow> addr \<Rightarrow> u32 \<Rightarrow> nat \<Rightarrow> bool" where
  "block_area m buf bs n \<longleftrightarrow>
     buf \<noteq> NULL \<and> 4 \<le> unat bs \<and> unat buf + n * unat bs < 2 ^ 32 \<and>
     extent buf (n * unat bs) \<subseteq> dom m"

lemma block_area_pos: "block_area m buf bs n \<Longrightarrow> 4 \<le> unat bs"
  by (simp add: block_area_def)

lemma block_area_store: "store32 m a v = Some m' \<Longrightarrow> block_area m' buf bs n = block_area m buf bs n"
  by (simp add: block_area_def store32_dom)

lemma mult_lt_bound:
  fixes i n b :: nat
  assumes "i < n"
  shows "i * b + b \<le> n * b"
  using assms mult_le_mono1 [of "Suc i" n b] by simp

lemma unat_block_at:
  assumes "block_area m buf bs n" "i \<le> n"
  shows "unat (block_at buf bs i) = unat buf + i * unat bs"
proof -
  have "i * unat bs \<le> n * unat bs" using assms(2) by simp
  moreover have "unat buf + n * unat bs < 2 ^ 32" using assms(1) unfolding block_area_def by blast
  ultimately have "unat buf + i * unat bs < 2 ^ 32" by linarith
  then show ?thesis unfolding block_at_def by (rule unat_add_of_nat)
qed

lemma block_at_inject:
  assumes "block_area m buf bs n" "i < n" "j < n"
  shows "block_at buf bs i = block_at buf bs j \<longleftrightarrow> i = j"
proof
  assume "block_at buf bs i = block_at buf bs j"
  then have "i * unat bs = j * unat bs"
    using unat_block_at [OF assms(1), of i] unat_block_at [OF assms(1), of j] assms(2,3)
    by (metis add_left_cancel less_imp_le)
  then show "i = j" using block_area_pos [OF assms(1)] by simp
qed simp

lemma block_at_nonnull: "block_area m buf bs n \<Longrightarrow> i < n \<Longrightarrow> block_at buf bs i \<noteq> NULL"
  using unat_block_at [of m buf bs n i] by (auto simp: block_area_def unat_eq_0)

lemma block_at_apart_less:
  assumes "block_area m buf bs n" "i < j" "j < n"
  shows "apart (block_at buf bs i) (block_at buf bs j)"
proof -
  have "i * unat bs + unat bs \<le> j * unat bs" "j * unat bs + unat bs \<le> n * unat bs"
    using assms(2,3) mult_lt_bound by blast+
  with assms(1) show ?thesis
    unfolding block_at_def block_area_def by (intro apart_distance) linarith+
qed

lemma block_at_apart:
  assumes "block_area m buf bs n" "i < n" "j < n" "i \<noteq> j"
  shows "apart (block_at buf bs i) (block_at buf bs j)"
  using assms block_at_apart_less [OF assms(1)] by (metis apart_sym linorder_neqE_nat)

lemma block_at_span:
  assumes "block_area m buf bs n" "i < n"
  shows "extent (block_at buf bs i) (unat bs) \<subseteq> dom m"
proof -
  have "i * unat bs + unat bs \<le> n * unat bs" using assms(2) by (rule mult_lt_bound)
  then have "extent buf (i * unat bs + unat bs) \<subseteq> dom m"
    using assms(1) extent_mono unfolding block_area_def by blast
  then show ?thesis by (simp add: extent_add block_at_def)
qed

lemma block_at_cell: "block_area m buf bs n \<Longrightarrow> i < n \<Longrightarrow> extent (block_at buf bs i) 4 \<subseteq> dom m"
  using block_at_span [of m buf bs n i] extent_mono [OF block_area_pos] by blast

lemma set_blocks: "set (blocks buf bs n) = block_at buf bs ` {..<n}"
  by (auto simp: blocks_def)

lemma distinct_blocks: "block_area m buf bs n \<Longrightarrow> distinct (blocks buf bs n)"
  by (auto simp: blocks_def distinct_map inj_on_def block_at_inject)

lemma block_facts:
  assumes "block_area m buf bs n" "p \<in> set (blocks buf bs n)"
  shows block_nonnull: "p \<noteq> NULL"
    and block_cell: "extent p 4 \<subseteq> dom m"
    and block_store: "\<exists>m'. store32 m p v = Some m'"
    and block_load: "load32 m p \<noteq> None"
proof -
  obtain i where i: "i < n" "p = block_at buf bs i" using assms(2) by (auto simp: set_blocks)
  show "p \<noteq> NULL" using i block_at_nonnull [OF assms(1)] by simp
  show "extent p 4 \<subseteq> dom m" using i block_at_cell [OF assms(1)] by simp
  then show "\<exists>m'. store32 m p v = Some m'" "load32 m p \<noteq> None"
    by (simp_all only: store32_defined load32_defined)
qed

lemma blocks_apart:
  assumes "block_area m buf bs n" "p \<in> set (blocks buf bs n)" "q \<in> set (blocks buf bs n)" "p \<noteq> q"
  shows "apart p q"
  using assms by (auto simp: set_blocks intro: block_at_apart)

lemma block_at_Suc: "block_at buf bs i + bs = block_at buf bs (Suc i)"
  by (simp add: block_at_def algebra_simps)

subsection \<open>Linking a run of blocks\<close>

lemma upt_head: "i < j \<Longrightarrow> [i..<j] = i # [Suc i..<j]"
  by (rule upt_conv_Cons)

lemma init_links_path:
  assumes "block_area m buf bs n" "i + k < n"
  shows "\<exists>m'. init_links m (block_at buf bs i) bs k = Some (m', block_at buf bs (i + k)) \<and>
     dom m' = dom m \<and>
     path load32 m' (block_at buf bs i) (map (block_at buf bs) [i..<i + k]) (block_at buf bs (i + k)) \<and>
     (\<forall>x. x \<notin> (\<Union>j\<in>{i..<i + k}. extent (block_at buf bs j) 4) \<longrightarrow> m' x = m x)"
  using assms
proof (induction k arbitrary: i m)
  case 0
  then show ?case by simp
next
  case (Suc k)
  let ?b = "block_at buf bs"
  from Suc.prems obtain m1 where m1: "store32 m (?b i) (?b (Suc i)) = Some m1"
    using block_at_cell [of m buf bs n i] store32_defined [of m "?b i"] by (metis add_lessD1)
  have area1: "block_area m1 buf bs n" using Suc.prems(1) block_area_store [OF m1] by simp
  from Suc.IH [OF area1, of "Suc i"] Suc.prems(2)
  obtain m' where m': "init_links m1 (?b (Suc i)) bs k = Some (m', ?b (i + Suc k))"
    and dom': "dom m' = dom m1"
    and path': "path load32 m' (?b (Suc i)) (map ?b [Suc i..<i + Suc k]) (?b (i + Suc k))"
    and frame: "\<And>x. x \<notin> (\<Union>j\<in>{Suc i..<i + Suc k}. extent (?b j) 4) \<Longrightarrow> m' x = m1 x"
    by auto
  have "load32 m' (?b i) = load32 m1 (?b i)"
  proof (rule load32_frame)
    fix x assume "x \<in> extent (?b i) 4"
    then have "x \<notin> extent (?b j) 4" if "Suc i \<le> j" "j < i + Suc k" for j
      using that Suc.prems block_at_apart_less [of m buf bs n i j] by (auto simp: apart_def)
    then show "m' x = m1 x" by (intro frame) auto
  qed
  then have "load32 m' (?b i) = Some (?b (Suc i))" using load_store32_same [OF m1] by simp
  then have "path load32 m' (?b i) (map ?b [i..<i + Suc k]) (?b (i + Suc k))"
    using path' block_at_nonnull [OF Suc.prems(1), of i] Suc.prems(2)
    by (subst upt_head) auto
  moreover have "m' x = m x" if "x \<notin> (\<Union>j\<in>{i..<i + Suc k}. extent (?b j) 4)" for x
  proof -
    have "x \<notin> extent (?b i) 4" using that by force
    moreover have "x \<notin> (\<Union>j\<in>{Suc i..<i + Suc k}. extent (?b j) 4)" using that by force
    ultimately show ?thesis using store32_frame [OF m1] frame by metis
  qed
  moreover have "dom m' = dom m" using dom' store32_dom [OF m1] by simp
  ultimately show ?case using m1 m' by (auto simp: block_at_Suc)
qed

subsection \<open>The invariant of a block pool\<close>

definition pool_blocks :: "PoolAllocator \<Rightarrow> addr list" where
  "pool_blocks pa = blocks (pa_buf pa) (pa_blockSize pa) (unat (pa_size pa) div unat (pa_blockSize pa))"

fun pool_inv :: "mem \<times> PoolAllocator \<Rightarrow> addr list \<Rightarrow> bool" where
  "pool_inv (m, pa) ps \<longleftrightarrow>
     block_area m (pa_buf pa) (pa_blockSize pa) (unat (pa_size pa) div unat (pa_blockSize pa)) \<and>
     chain load32 m (pa_nextFreeBlock pa) ps \<and> distinct ps \<and> set ps \<subseteq> set (pool_blocks pa)"

text \<open>A chain over a whole run of blocks: the last link is written separately.\<close>

lemma init_links_chain:
  assumes area: "block_area m buf bs n" and k: "i + k < n"
    and tail: "chain load32 m q qs" "set qs \<subseteq> set (blocks buf bs n)"
      "set qs \<inter> block_at buf bs ` {i..i + k} = {}"
  shows "\<exists>m1 m2. init_links m (block_at buf bs i) bs k = Some (m1, block_at buf bs (i + k)) \<and>
     store32 m1 (block_at buf bs (i + k)) q = Some m2 \<and> dom m2 = dom m \<and>
     chain load32 m2 (block_at buf bs i) (map (block_at buf bs) [i..<Suc (i + k)] @ qs) \<and>
     (\<forall>x. x \<notin> (\<Union>j\<in>{i..i + k}. extent (block_at buf bs j) 4) \<longrightarrow> m2 x = m x)"
proof -
  let ?b = "block_at buf bs"
  from init_links_path [OF area k]
  obtain m1 where m1: "init_links m (?b i) bs k = Some (m1, ?b (i + k))" "dom m1 = dom m"
    and p1: "path load32 m1 (?b i) (map ?b [i..<i + k]) (?b (i + k))"
    and f1: "\<And>x. x \<notin> (\<Union>j\<in>{i..<i + k}. extent (?b j) 4) \<Longrightarrow> m1 x = m x" by blast
  have area1: "block_area m1 buf bs n" using area m1(2) by (simp add: block_area_def)
  then obtain m2 where m2: "store32 m1 (?b (i + k)) q = Some m2"
    using block_at_cell [OF area1 k] by (metis store32_defined)
  have f2: "m2 x = m x" if "x \<notin> (\<Union>j\<in>{i..i + k}. extent (?b j) 4)" for x
  proof -
    have "x \<notin> extent (?b (i + k)) 4" "x \<notin> (\<Union>j\<in>{i..<i + k}. extent (?b j) 4)"
      using that by auto
    then show ?thesis using store32_frame [OF m2] f1 by metis
  qed
  have qs_in: "a \<in> ?b ` ({..<n} - {i..i + k})" if "a \<in> set qs" for a
    using that tail(2,3) unfolding set_blocks by blast
  have ap: "apart (?b j) a" if "a \<in> set qs" "j \<in> {i..i + k}" for a j
    using qs_in [OF that(1)] that(2) k block_at_apart [OF area, of j] by auto
  have "load32 m2 a = load32 m a" if "a \<in> set qs" for a
    using ap [OF that] by (intro load32_frame f2) (fastforce simp: apart_def)
  then have "chain load32 m2 q qs" using tail(1) by (simp add: chain_def cong: path_cong)
  moreover have "apart (?b (i + k)) a" if "a \<in> set (map ?b [i..<i + k])" for a
    using that k block_at_apart [OF area1, of "i + k"] by auto
  then have "path load32 m2 (?b i) (map ?b [i..<i + k]) (?b (i + k))"
    using byte_heap.path_st [OF m2] p1 by blast
  moreover have "?b (i + k) \<noteq> NULL" using block_at_nonnull [OF area k] .
  ultimately have "chain load32 m2 (?b i) (map ?b [i..<Suc (i + k)] @ qs)"
    using load_store32_same [OF m2] by (auto simp: chain_append)
  then show ?thesis using m1 m2 f2 store32_dom [OF m2] by auto
qed

lemma pool_inv_create:
  assumes "block_area m b bs n" "0 < n" "unat s = n * unat bs"
  shows "\<exists>m' pa. createPoolAllocator m b bs s = Some (m', pa) \<and>
     pool_inv (m', pa) (blocks b bs n) \<and> pool_blocks pa = blocks b bs n \<and>
     (\<forall>x. x \<notin> extent b (unat s) \<longrightarrow> m' x = m x)"
proof -
  have bs: "4 \<le> unat bs" using assms(1) by (rule block_area_pos)
  then have bs0: "bs \<noteq> 0" by auto
  have n: "unat s div unat bs = n" using assms(3) bs by simp
  then have sn: "unat (s div bs) = n" by (simp add: unat_div)
  then have "s div bs \<noteq> 0" using assms(2) by auto
  then have last: "unat (s div bs - 1) = n - 1" using sn by (simp add: unat_minus_one)
  from init_links_chain [OF assms(1), of 0 "n - 1" NULL "[]"] assms(2)
  obtain m1 m2 where m1: "init_links m (block_at b bs 0) bs (n - 1) = Some (m1, block_at b bs (n - 1))"
    and m2: "store32 m1 (block_at b bs (n - 1)) 0 = Some m2" "dom m2 = dom m"
    and ch: "chain load32 m2 (block_at b bs 0) (map (block_at b bs) [0..<n])"
    and fr: "\<And>x. x \<notin> (\<Union>j\<in>{0..n - 1}. extent (block_at b bs j) 4) \<Longrightarrow> m2 x = m x"
    by auto
  have b0: "block_at b bs 0 = b" by (simp add: block_at_def)
  have area2: "block_area m2 b bs n" using assms(1) m2(2) by (simp add: block_area_def)
  have "x \<notin> extent (block_at b bs j) 4" if "x \<notin> extent b (unat s)" "j < n" for x j
  proof -
    have "j * unat bs + 4 \<le> unat s" using mult_lt_bound [OF that(2), of "unat bs"] bs assms(3) by simp
    then have "extent b (j * unat bs + 4) \<subseteq> extent b (unat s)" by (rule extent_mono)
    then show ?thesis using that(1) by (auto simp: extent_add block_at_def)
  qed
  then have fr': "m2 x = m x" if "x \<notin> extent b (unat s)" for x
    using that fr assms(2) by auto
  have "createPoolAllocator m b bs s =
      Some (m2, \<lparr>pa_buf = b, pa_nextFreeBlock = b, pa_blockSize = bs, pa_size = s\<rparr>)"
    using m1 m2(1) bs0 by (simp add: createPoolAllocator_def last b0)
  then show ?thesis
    using ch fr' area2 distinct_blocks [OF assms(1)] by (auto simp: n pool_blocks_def b0 blocks_def)
qed

subsection \<open>The contract of a block pool\<close>

locale block_allocator =
  fixes inv :: "'s \<Rightarrow> addr list \<Rightarrow> bool"
    and area :: "'s \<Rightarrow> addr list"
    and alloc :: "'s \<Rightarrow> ('s \<times> addr) option"
    and release :: "'s \<Rightarrow> addr \<Rightarrow> 's option"
  assumes inv_distinct: "inv s ps \<Longrightarrow> distinct ps \<and> set ps \<subseteq> set (area s)"
    and area_nonnull: "inv s ps \<Longrightarrow> NULL \<notin> set (area s)"
    and alloc_empty: "inv s [] \<Longrightarrow> alloc s = Some (s, NULL)"
    and alloc_next: "inv s (p # ps) \<Longrightarrow> \<exists>s'. alloc s = Some (s', p) \<and> inv s' ps \<and> area s' = area s"
    and release_block: "inv s ps \<Longrightarrow> p \<in> set (area s) \<Longrightarrow> p \<notin> set ps \<Longrightarrow>
      \<exists>s'. release s p = Some s' \<and> inv s' (p # ps) \<and> area s' = area s"

text \<open>
  A client of a pool: it allocates blocks and gives one of those it holds back, in any order.
  \<open>run_pool\<close> returns the state and the list of the blocks the client holds.
\<close>

datatype pool_op = Alloc | Release nat

fun run_pool ::
  "('s \<Rightarrow> ('s \<times> addr) option) \<Rightarrow> ('s \<Rightarrow> addr \<Rightarrow> 's option) \<Rightarrow> 's \<Rightarrow> addr list \<Rightarrow> pool_op list \<Rightarrow>
    ('s \<times> addr list) option" where
  "run_pool alloc release s live [] = Some (s, live)"
| "run_pool alloc release s live (Alloc # ops) = do {
     (s', p) \<leftarrow> alloc s;
     run_pool alloc release s' (if p = NULL then live else p # live) ops }"
| "run_pool alloc release s live (Release i # ops) =
     (if i < length live
      then do {
        s' \<leftarrow> release s (live ! i);
        run_pool alloc release s' (take i live @ drop (Suc i) live) ops }
      else run_pool alloc release s live ops)"

lemma drop_nth_props:
  assumes "i < length xs" "distinct xs"
  shows "distinct (take i xs @ drop (Suc i) xs)"
    and "set (take i xs @ drop (Suc i) xs) = set xs - {xs ! i}"
proof -
  have "xs = take i xs @ xs ! i # drop (Suc i) xs" using assms(1) by (rule id_take_nth_drop)
  then obtain ys y zs where "take i xs = ys" "xs ! i = y" "drop (Suc i) xs = zs" "xs = ys @ y # zs"
    by blast
  with assms(2) show "distinct (take i xs @ drop (Suc i) xs)"
    and "set (take i xs @ drop (Suc i) xs) = set xs - {xs ! i}" by auto
qed

context block_allocator
begin

text \<open>
  The blocks the client holds and the blocks in the pool partition the area, whatever the
  client does: no block is handed out twice and none is lost.
\<close>

lemma run_pool_partition:
  assumes "inv s ps" "distinct (live @ ps)" "set (live @ ps) = set (area s)"
  shows "\<exists>s' live' ps'. run_pool alloc release s live ops = Some (s', live') \<and> inv s' ps' \<and>
     area s' = area s \<and> distinct (live' @ ps') \<and> set (live' @ ps') = set (area s)"
  using assms
proof (induction ops arbitrary: s live ps)
  case Nil
  then show ?case by auto
next
  case (Cons op ops)
  note area_nn = area_nonnull [OF Cons.prems(1)]
  show ?case
  proof (cases op)
    case Alloc
    show ?thesis
    proof (cases ps)
      case Nil
      with Cons Alloc show ?thesis using alloc_empty by auto
    next
      case (Cons p qs)
      then obtain s' where s': "alloc s = Some (s', p)" "inv s' qs" "area s' = area s"
        using Cons.prems(1) alloc_next by blast
      have "p \<noteq> NULL" using Cons.prems(3) area_nn Cons by auto
      moreover have "distinct ((p # live) @ qs)" "set ((p # live) @ qs) = set (area s')"
        using Cons.prems(2,3) Cons s'(3) by auto
      ultimately show ?thesis using Cons.IH [OF s'(2)] s' Alloc by auto
    qed
  next
    case (Release i)
    show ?thesis
    proof (cases "i < length live")
      case True
      let ?l = "take i live @ drop (Suc i) live"
      have dl: "distinct live" "distinct ps" "set live \<inter> set ps = {}" using Cons.prems(2) by auto
      have mem: "live ! i \<in> set live" using True by simp
      obtain s' where s': "release s (live ! i) = Some s'" "inv s' (live ! i # ps)" "area s' = area s"
        using release_block [OF Cons.prems(1), of "live ! i"] mem dl(3) Cons.prems(3) by auto
      have "distinct (?l @ live ! i # ps)" "set (?l @ live ! i # ps) = set (area s')"
        using drop_nth_props [OF True dl(1)] dl mem Cons.prems(3) s'(3)
        unfolding distinct_append set_append by auto
      from Cons.IH [OF s'(2) this] show ?thesis using s'(1,3) Release True by simp
    next
      case False
      with Cons Release show ?thesis by simp
    qed
  qed
qed

text \<open>Allocations alone take the blocks in the order of the free list, until it is empty.\<close>

lemma run_pool_allocs:
  "inv s ps \<Longrightarrow> \<exists>s'. run_pool alloc release s live (replicate k Alloc) =
     Some (s', rev (take k ps) @ live) \<and> inv s' (drop k ps) \<and> area s' = area s"
proof (induction k arbitrary: s ps live)
  case 0
  then show ?case by simp
next
  case (Suc k)
  show ?case
  proof (cases ps)
    case Nil
    with Suc show ?thesis using alloc_empty [of s] by force
  next
    case (Cons p qs)
    with Suc.prems obtain s' where s': "alloc s = Some (s', p)" "inv s' qs" "area s' = area s"
      using alloc_next by blast
    moreover have "p \<noteq> NULL"
      using area_nonnull [OF Suc.prems] inv_distinct [OF Suc.prems] Cons by auto
    ultimately show ?thesis using Suc.IH [OF s'(2), of "p # live"] Cons by auto
  qed
qed

text \<open>A block that is freed is the next one to be handed out.\<close>

lemma alloc_after_release:
  assumes "inv s ps" "p \<in> set (area s)" "p \<notin> set ps" "release s p = Some s'"
  shows "\<exists>s''. alloc s' = Some (s'', p) \<and> inv s'' ps"
  using release_block [OF assms(1-3)] assms(4) alloc_next by force

end

subsection \<open>The pool allocator meets the contract\<close>

lemma pool_alloc_next:
  assumes "pool_inv s (p # ps)"
  shows "\<exists>s'. poolAllocate s = Some (s', p) \<and> pool_inv s' ps \<and>
    pool_blocks (snd s') = pool_blocks (snd s) \<and> fst s' = fst s"
  using assms by (cases s) (auto simp: pool_blocks_def)

lemma pool_free_block:
  assumes "pool_inv (m, pa) ps" "p \<in> set (pool_blocks pa)" "p \<notin> set ps"
  shows "\<exists>s'. poolFree (m, pa) p = Some s' \<and> pool_inv s' (p # ps) \<and>
    pool_blocks (snd s') = pool_blocks pa"
proof -
  let ?n = "unat (pa_size pa) div unat (pa_blockSize pa)"
  from assms(1) have inv: "block_area m (pa_buf pa) (pa_blockSize pa) ?n"
    "chain load32 m (pa_nextFreeBlock pa) ps" "distinct ps" "set ps \<subseteq> set (pool_blocks pa)" by auto
  have p: "p \<in> set (blocks (pa_buf pa) (pa_blockSize pa) ?n)" using assms(2) by (simp add: pool_blocks_def)
  then obtain m' where m': "store32 m p (pa_nextFreeBlock pa) = Some m'"
    using block_store [OF inv(1)] by blast
  have ap: "apart p b" if "b \<in> set ps" for b
    using that blocks_apart [OF inv(1) p] inv(4) assms(3) by (auto simp: pool_blocks_def)
  have "chain load32 m' p (p # ps)"
    using byte_heap.chain_push [OF m' block_nonnull [OF inv(1) p] inv(2)] ap by blast
  then show ?thesis
    using m' inv assms block_area_store [OF m'] by (auto simp: pool_blocks_def)
qed

interpretation pool: block_allocator pool_inv "\<lambda>s. pool_blocks (snd s)" poolAllocate poolFree
proof
  fix s :: "mem \<times> PoolAllocator" and ps p
  show "pool_inv s ps \<Longrightarrow> distinct ps \<and> set ps \<subseteq> set (pool_blocks (snd s))"
    by (cases s) auto
  show "pool_inv s ps \<Longrightarrow> NULL \<notin> set (pool_blocks (snd s))"
    by (cases s) (auto simp: pool_blocks_def dest: block_nonnull)
  show "pool_inv s [] \<Longrightarrow> poolAllocate s = Some (s, NULL)"
    by (cases s) auto
  show "pool_inv s (p # ps) \<Longrightarrow> \<exists>s'. poolAllocate s = Some (s', p) \<and> pool_inv s' ps \<and>
      pool_blocks (snd s') = pool_blocks (snd s)"
    using pool_alloc_next by blast
  show "pool_inv s ps \<Longrightarrow> p \<in> set (pool_blocks (snd s)) \<Longrightarrow> p \<notin> set ps \<Longrightarrow>
      \<exists>s'. poolFree s p = Some s' \<and> pool_inv s' (p # ps) \<and> pool_blocks (snd s') = pool_blocks (snd s)"
    using pool_free_block [of "fst s" "snd s"] by simp
qed

declare pool_inv.simps [simp del]

subsection \<open>Properties\<close>

text \<open>C1: a pool created over a valid buffer keeps its blocks apart from those its client holds:
  after any sequence of poolAllocate and poolFree the held blocks and the free list together are
  exactly the blocks of the buffer, with no repetition, so no block is handed out twice and none
  is lost, and no operation of the sequence is undefined.\<close>

theorem pool_client_partition:
  assumes "block_area m b bs n" "0 < n" "unat s = n * unat bs"
  shows "\<exists>m' pa t live free. createPoolAllocator m b bs s = Some (m', pa) \<and>
     run_pool poolAllocate poolFree (m', pa) [] ops = Some (t, live) \<and>
     pool_inv t free \<and> distinct (live @ free) \<and> set (live @ free) = set (blocks b bs n)"
proof -
  obtain m' pa where c: "createPoolAllocator m b bs s = Some (m', pa)"
    "pool_inv (m', pa) (blocks b bs n)" "pool_blocks pa = blocks b bs n"
    using pool_inv_create [OF assms] by blast
  have d: "distinct ([] @ blocks b bs n)" "set ([] @ blocks b bs n) = set (pool_blocks (snd (m', pa)))"
    using distinct_blocks [OF assms(1)] c(3) by simp_all
  from pool.run_pool_partition [OF c(2) d, of ops] obtain t live free where
    "run_pool poolAllocate poolFree (m', pa) [] ops = Some (t, live)" "pool_inv t free"
    "distinct (live @ free)" "set (live @ free) = set (blocks b bs n)" using c(3) by auto
  with c(1) show ?thesis by blast
qed

lemma pool_client_partition_witness:
  "\<exists>m' pa t live free. createPoolAllocator (zero_mem 4096 48) 4096 16 48 = Some (m', pa) \<and>
     run_pool poolAllocate poolFree (m', pa) [] [Alloc, Alloc, Release 1, Alloc] = Some (t, live) \<and>
     pool_inv t free \<and> distinct (live @ free) \<and> set (live @ free) = set (blocks 4096 16 3)"
proof -
  have "block_area (zero_mem 4096 48) 4096 16 3"
    using zero_mem_span [of 4096 48] by (simp add: block_area_def)
  then show ?thesis by (rule pool_client_partition) simp_all
qed

text \<open>A fresh pool of n blocks serves exactly n allocations, in address order: k allocations
  return the first k blocks of the buffer, and every allocation past the n-th returns NULL and
  changes nothing.\<close>

theorem pool_capacity:
  assumes "block_area m b bs n" "0 < n" "unat s = n * unat bs"
  shows "\<exists>m' pa t. createPoolAllocator m b bs s = Some (m', pa) \<and>
     run_pool poolAllocate poolFree (m', pa) [] (replicate k Alloc) =
       Some (t, rev (take k (blocks b bs n))) \<and>
     (n \<le> k \<longrightarrow> poolAllocate t = Some (t, NULL))"
proof -
  obtain m' pa where c: "createPoolAllocator m b bs s = Some (m', pa)"
    "pool_inv (m', pa) (blocks b bs n)"
    using pool_inv_create [OF assms] by blast
  from pool.run_pool_allocs [OF c(2), of "[]" k] obtain t where
    t: "run_pool poolAllocate poolFree (m', pa) [] (replicate k Alloc) = Some (t, rev (take k (blocks b bs n)))"
    "pool_inv t (drop k (blocks b bs n))" by auto
  have "poolAllocate t = Some (t, NULL)" if "n \<le> k"
    using t(2) that pool.alloc_empty [of t] by (simp add: blocks_def)
  with c t show ?thesis by blast
qed

lemma pool_capacity_witness:
  "\<exists>m' pa t. createPoolAllocator (zero_mem 4096 48) 4096 16 48 = Some (m', pa) \<and>
     run_pool poolAllocate poolFree (m', pa) [] (replicate 4 Alloc) =
       Some (t, rev (take 4 (blocks 4096 16 3))) \<and>
     (3 \<le> (4::nat) \<longrightarrow> poolAllocate t = Some (t, NULL))"
proof -
  have "block_area (zero_mem 4096 48) 4096 16 3"
    using zero_mem_span [of 4096 48] by (simp add: block_area_def)
  then show ?thesis by (rule pool_capacity) simp_all
qed

text \<open>\<open>linearAllocte\<close> hands out the bytes behind the piece it reserves.  A successful request for
  s bytes at offset o returns buf + o + s, so the s bytes at the returned pointer stay inside the
  buffer only if o + 2 s fits it, and a second request returns a pointer that does not respect the
  size of the first.\<close>

theorem linear_alloc_shifted:
  assumes "unat (la_buf la) + unat (la_size la) < 2 ^ 32"
    and "unat (la_offset la) + unat s < unat (la_size la)"
  shows "\<exists>la' p. linearAllocte la s = (la', p) \<and> la_offset la' = la_offset la + s \<and>
     unat p = unat (la_buf la) + unat (la_offset la) + unat s \<and>
     (unat p + unat s \<le> unat (la_buf la) + unat (la_size la) \<longleftrightarrow>
        unat (la_offset la) + 2 * unat s \<le> unat (la_size la)) \<and>
     (\<forall>t. unat (la_offset la') + unat t < unat (la_size la) \<longrightarrow> snd (linearAllocte la' t) = p + t)"
proof -
  have off: "unat (la_offset la + s) = unat (la_offset la) + unat s"
    using assms unat_add_lem [of "la_offset la" s] by simp
  have p: "unat (la_buf la + la_offset la + s) = unat (la_buf la) + unat (la_offset la) + unat s"
    using assms off unat_add_lem [of "la_buf la" "la_offset la + s"] by (simp add: add.assoc)
  have "\<not> la_offset la + s \<ge> la_size la" using assms(2) off by (simp add: word_le_nat_alt)
  moreover have "\<not> la_offset la + s + t \<ge> la_size la"
    if "unat (la_offset la + s) + unat t < unat (la_size la)" for t
    using that unat_lt_u32 [of "la_size la"] unat_add_lem [of "la_offset la + s" t]
    by (simp add: word_le_nat_alt)
  ultimately show ?thesis using off p by (auto simp: linearAllocte_def algebra_simps)
qed

lemma linear_alloc_shifted_witness:
  "\<exists>la' p. linearAllocte (createLinearAllocator 4096 100) 60 = (la', p) \<and> la_offset la' = 60 \<and>
     unat p = 4096 + 0 + 60 \<and>
     \<not> unat p + unat (60 :: u32) \<le> 4096 + 100"
  using linear_alloc_shifted [of "createLinearAllocator 4096 100" 60]
  by (auto simp: createLinearAllocator_def)

end
