(* ===== verification/Consecutive_Alloc.thy ===== *)
theory Consecutive_Alloc
  imports Pool_Alloc
begin

text \<open>
  ConsecutivePoolAllocator.c: a block pool that hands out runs of physically consecutive blocks.
  Its free list is a linked list through the free blocks; an allocation looks for the first place
  of the list where the links follow the addresses, a release puts a run behind the free block
  that precedes it in memory, or else in front of the list.  Loops over the list are
  \<open>partial_function\<close>s (a cyclic list would not end); the lemmas show that they end on the
  well-formed lists of the invariant \<open>cpa_inv\<close>.
\<close>

record ConsecutivePoolAllocator =
  cpa_buf :: addr
  cpa_nextFreeBlock :: addr
  cpa_blockSize :: u32
  cpa_size :: u32
  cpa_numFreeBlocks :: u32

type_synonym cpa_state = "mem \<times> ConsecutivePoolAllocator"

definition createConsecutivePoolAllocator :: "mem \<Rightarrow> addr \<Rightarrow> u32 \<Rightarrow> u32 \<Rightarrow> cpa_state option" where
  "createConsecutivePoolAllocator m b bs s =
     (if bs = 0 then None
      else do {
        (m1, ptr) \<leftarrow> init_links m b bs (unat (s div bs - 1));
        m2 \<leftarrow> store32 m1 ptr 0;
        Some (m2, \<lparr>cpa_buf = b, cpa_nextFreeBlock = b, cpa_blockSize = bs, cpa_size = s,
                   cpa_numFreeBlocks = s div bs\<rparr>) })"

definition destroyConsecutivePoolAllocator :: "ConsecutivePoolAllocator \<Rightarrow> ConsecutivePoolAllocator" where
  "destroyConsecutivePoolAllocator pa =
     pa\<lparr>cpa_buf := NULL, cpa_nextFreeBlock := NULL, cpa_blockSize := 0, cpa_size := 0\<rparr>"

definition getCPAptrFromOffset :: "ConsecutivePoolAllocator \<Rightarrow> u32 \<Rightarrow> addr" where
  "getCPAptrFromOffset pa offset = cpa_buf pa + offset"

subsection \<open>consecutivePoolAllocate\<close>

text \<open>The inner loop: do the next \<open>k\<close> links follow the addresses?\<close>

fun cpa_run_free :: "mem \<Rightarrow> u32 \<Rightarrow> nat \<Rightarrow> addr \<Rightarrow> addr \<Rightarrow> bool option" where
  "cpa_run_free m bs 0 nextBlock nextFree = Some True"
| "cpa_run_free m bs (Suc k) nextBlock nextFree =
     (if nextBlock = nextFree
      then do { nextFree' \<leftarrow> load32 m nextFree; cpa_run_free m bs k (nextBlock + bs) nextFree' }
      else Some False)"

text \<open>
  The outer loop, started at a non-null block; \<open>Some None\<close> is its \<open>return -1\<close>.  The loop leaves
  through one of its two exits before the condition of the \<open>for\<close> could see a null pointer.
\<close>

partial_function (option) cpa_search :: "mem \<Rightarrow> u32 \<Rightarrow> u32 \<Rightarrow> addr \<Rightarrow> addr option option" where
  "cpa_search m bs numBlocks ptr = do {
     nextFree \<leftarrow> load32 m ptr;
     found \<leftarrow> cpa_run_free m bs (unat (numBlocks - 1)) (ptr + bs) nextFree;
     if found then Some (Some ptr)
     else if nextFree = NULL then Some None
     else cpa_search m bs numBlocks nextFree }"

text \<open>The search for the list element in front of \<open>ptr\<close>.\<close>

partial_function (option) cpa_prev :: "mem \<Rightarrow> addr \<Rightarrow> addr \<Rightarrow> addr \<Rightarrow> addr option" where
  "cpa_prev m ptr prevPtr currPtr =
     (if currPtr = NULL then Some prevPtr
      else if currPtr = ptr then Some prevPtr
      else do { next \<leftarrow> load32 m currPtr; cpa_prev m ptr currPtr next })"

definition cpa_unlink :: "cpa_state \<Rightarrow> addr \<Rightarrow> u32 \<Rightarrow> cpa_state option" where
  "cpa_unlink s ptr numBlocks = (let (m, pa) = s in do {
     candidate \<leftarrow> load32 m (ptr + (numBlocks - 1) * cpa_blockSize pa);
     if cpa_nextFreeBlock pa = ptr then Some (m, pa\<lparr>cpa_nextFreeBlock := candidate\<rparr>)
     else do {
       prev \<leftarrow> cpa_prev m ptr (cpa_nextFreeBlock pa) (cpa_nextFreeBlock pa);
       m' \<leftarrow> store32 m prev candidate;
       Some (m', pa) } })"

definition consecutivePoolAllocate :: "cpa_state \<Rightarrow> u32 \<Rightarrow> (cpa_state \<times> u32) option" where
  "consecutivePoolAllocate s numBlocks = (let (m, pa) = s in
     if cpa_nextFreeBlock pa = NULL then Some (s, -1)
     else do {
       r \<leftarrow> cpa_search m (cpa_blockSize pa) numBlocks (cpa_nextFreeBlock pa);
       case r of
         None \<Rightarrow> Some (s, -1)
       | Some ptr \<Rightarrow> do {
           (m', pa') \<leftarrow> cpa_unlink s ptr numBlocks;
           Some ((m', pa'\<lparr>cpa_numFreeBlocks := cpa_numFreeBlocks pa' - numBlocks\<rparr>),
                 ptr - cpa_buf pa') } })"

subsection \<open>consecutivePoolFree\<close>

text \<open>Link the \<open>numBlocks\<close> blocks at \<open>p\<close> to each other and the last of them to \<open>tail\<close>.\<close>

definition cpa_link_run :: "mem \<Rightarrow> u32 \<Rightarrow> addr \<Rightarrow> u32 \<Rightarrow> addr \<Rightarrow> mem option" where
  "cpa_link_run m bs p numBlocks tail = do {
     (m1, ptr) \<leftarrow> init_links m p bs (unat (numBlocks - 1));
     store32 m1 ptr tail }"

partial_function (option) cpa_insert ::
  "mem \<Rightarrow> u32 \<Rightarrow> addr \<Rightarrow> u32 \<Rightarrow> bool \<Rightarrow> addr \<Rightarrow> (mem \<times> bool) option" where
  "cpa_insert m bs p numBlocks found listPtr =
     (if listPtr = NULL then Some (m, found)
      else if listPtr + bs = p then do {
        tmp \<leftarrow> load32 m listPtr;
        m1 \<leftarrow> store32 m listPtr p;
        ptr \<leftarrow> load32 m1 listPtr;
        m2 \<leftarrow> cpa_link_run m1 bs ptr numBlocks tmp;
        next \<leftarrow> load32 m2 listPtr;
        cpa_insert m2 bs p numBlocks True next }
      else do {
        next \<leftarrow> load32 m listPtr;
        cpa_insert m bs p numBlocks found next })"

definition consecutivePoolFree :: "cpa_state \<Rightarrow> addr \<Rightarrow> u32 \<Rightarrow> cpa_state option" where
  "consecutivePoolFree s p numBlocks = (let (m, pa) = s in do {
     (m', pa') \<leftarrow>
       (if cpa_nextFreeBlock pa = NULL then do {
          m' \<leftarrow> cpa_link_run m (cpa_blockSize pa) p numBlocks 0;
          Some (m', pa\<lparr>cpa_nextFreeBlock := p\<rparr>) }
        else do {
          (m', found) \<leftarrow> cpa_insert m (cpa_blockSize pa) p numBlocks False (cpa_nextFreeBlock pa);
          if found then Some (m', pa)
          else do {
            m'' \<leftarrow> cpa_link_run m' (cpa_blockSize pa) p numBlocks (cpa_nextFreeBlock pa);
            Some (m'', pa\<lparr>cpa_nextFreeBlock := p\<rparr>) } });
     Some (m', pa'\<lparr>cpa_numFreeBlocks := cpa_numFreeBlocks pa' + numBlocks\<rparr>) })"

subsection \<open>consecutivePoolReAllocate\<close>

text \<open>The scan of the first branch; the result is the list element in front of the candidate.\<close>

partial_function (option) cpa_find_block :: "mem \<Rightarrow> addr \<Rightarrow> addr \<Rightarrow> addr \<Rightarrow> addr option option" where
  "cpa_find_block m nextCandidate prevPtr listPtr =
     (if listPtr = NULL then Some None
      else if listPtr = nextCandidate then Some (Some prevPtr)
      else do { next \<leftarrow> load32 m listPtr; cpa_find_block m nextCandidate listPtr next })"

definition cpa_grow_in_place :: "cpa_state \<Rightarrow> addr \<Rightarrow> addr \<Rightarrow> cpa_state option" where
  "cpa_grow_in_place s candidate prevPtr = (let (m, pa) = s in do {
     next \<leftarrow> load32 m candidate;
     (m', pa') \<leftarrow>
       (if prevPtr \<noteq> NULL then do {
          m' \<leftarrow> store32 m prevPtr next;
          Some (m', pa\<lparr>cpa_nextFreeBlock := prevPtr\<rparr>) }
        else if next \<noteq> NULL then Some (m, pa\<lparr>cpa_nextFreeBlock := next\<rparr>)
        else Some (m, pa));
     Some (m', pa'\<lparr>cpa_numFreeBlocks := cpa_numFreeBlocks pa' - 1\<rparr>) })"

definition cpa_move :: "cpa_state \<Rightarrow> addr \<Rightarrow> u32 \<Rightarrow> u32 \<Rightarrow> (cpa_state \<times> u32) option" where
  "cpa_move s currentMem currNumBlocks newNumBlocks = do {
     ((m, pa), newMemOffset) \<leftarrow> consecutivePoolAllocate s newNumBlocks;
     if newMemOffset = -1 then Some ((m, pa), -1)
     else do {
       let pa' = pa\<lparr>cpa_numFreeBlocks := cpa_numFreeBlocks pa - (newNumBlocks - currNumBlocks)\<rparr>;
       content \<leftarrow> load_bytes m currentMem (unat (currNumBlocks * cpa_blockSize pa));
       m' \<leftarrow> store_bytes m (cpa_buf pa + newMemOffset) content;
       s' \<leftarrow> consecutivePoolFree (m', pa') currentMem currNumBlocks;
       Some (s', newMemOffset) } }"

definition consecutivePoolReAllocate ::
  "cpa_state \<Rightarrow> addr \<Rightarrow> u32 \<Rightarrow> u32 \<Rightarrow> (cpa_state \<times> u32) option" where
  "consecutivePoolReAllocate s currentMem currNumBlocks newNumBlocks = (let (m, pa) = s in
     if newNumBlocks - currNumBlocks < 2 then do {
       let nextCandidate = currentMem + cpa_blockSize pa * currNumBlocks;
       r \<leftarrow> cpa_find_block m nextCandidate NULL (cpa_nextFreeBlock pa);
       case r of
         Some prevPtr \<Rightarrow> do {
           s' \<leftarrow> cpa_grow_in_place s nextCandidate prevPtr;
           Some (s', currentMem - cpa_buf pa) }
       | None \<Rightarrow> cpa_move s currentMem currNumBlocks newNumBlocks }
     else cpa_move s currentMem currNumBlocks newNumBlocks)"

subsection \<open>Runs of blocks\<close>

fun is_run :: "u32 \<Rightarrow> addr \<Rightarrow> addr list \<Rightarrow> bool" where
  "is_run bs p [] = True"
| "is_run bs p (q # qs) \<longleftrightarrow> q = p + bs \<and> is_run bs q qs"

text \<open>
  The abstract allocation on the free list: the first block that is followed, in the list, by
  the \<open>k\<close> blocks behind it in memory, and the list without these \<open>k + 1\<close> blocks.
\<close>

fun take_run :: "u32 \<Rightarrow> nat \<Rightarrow> addr list \<Rightarrow> (addr \<times> addr list) option" where
  "take_run bs k [] = None"
| "take_run bs k (p # ps) =
     (if k \<le> length ps \<and> is_run bs p (take k ps) then Some (p, drop k ps)
      else map_option (\<lambda>(q, rest). (q, p # rest)) (take_run bs k ps))"

text \<open>
  The abstract release: behind the free block that ends where the run begins, or in front.
\<close>

fun put_run :: "u32 \<Rightarrow> addr list \<Rightarrow> addr list \<Rightarrow> addr list" where
  "put_run bs run ps =
     (case dropWhile (\<lambda>l. l + bs \<noteq> hd run) ps of
        [] \<Rightarrow> run @ ps
      | l # ys \<Rightarrow> takeWhile (\<lambda>l. l + bs \<noteq> hd run) ps @ l # run @ ys)"

definition cpa_blocks :: "ConsecutivePoolAllocator \<Rightarrow> addr list" where
  "cpa_blocks pa =
     blocks (cpa_buf pa) (cpa_blockSize pa) (unat (cpa_size pa) div unat (cpa_blockSize pa))"

definition cpa_area :: "cpa_state \<Rightarrow> bool" where
  "cpa_area s \<longleftrightarrow> block_area (fst s) (cpa_buf (snd s)) (cpa_blockSize (snd s))
     (unat (cpa_size (snd s)) div unat (cpa_blockSize (snd s)))"

definition cpa_links :: "cpa_state \<Rightarrow> addr list \<Rightarrow> bool" where
  "cpa_links s ps \<longleftrightarrow> cpa_area s \<and> chain load32 (fst s) (cpa_nextFreeBlock (snd s)) ps \<and>
     distinct ps \<and> set ps \<subseteq> set (cpa_blocks (snd s))"

definition cpa_inv :: "cpa_state \<Rightarrow> addr list \<Rightarrow> bool" where
  "cpa_inv s ps \<longleftrightarrow> cpa_links s ps \<and> cpa_numFreeBlocks (snd s) = of_nat (length ps)"

subsection \<open>The allocation meets its abstract specification\<close>

lemma cpa_linksD:
  assumes "cpa_links s ps"
  shows "block_area (fst s) (cpa_buf (snd s)) (cpa_blockSize (snd s))
      (unat (cpa_size (snd s)) div unat (cpa_blockSize (snd s)))"
    and "chain load32 (fst s) (cpa_nextFreeBlock (snd s)) ps"
    and "distinct ps" and "set ps \<subseteq> set (cpa_blocks (snd s))"
  using assms by (simp_all add: cpa_links_def cpa_area_def)

lemma cpa_invD:
  assumes "cpa_inv s ps"
  shows "block_area (fst s) (cpa_buf (snd s)) (cpa_blockSize (snd s))
      (unat (cpa_size (snd s)) div unat (cpa_blockSize (snd s)))"
    and "chain load32 (fst s) (cpa_nextFreeBlock (snd s)) ps"
    and "distinct ps" and "set ps \<subseteq> set (cpa_blocks (snd s))"
    and "cpa_numFreeBlocks (snd s) = of_nat (length ps)"
  using assms by (simp_all add: cpa_inv_def cpa_links_def cpa_area_def)

lemma block_end_nonnull:
  assumes "block_area m buf bs n" "e \<in> set (blocks buf bs n)"
  shows "e + bs \<noteq> NULL"
proof -
  from assms(2) obtain i where i: "i < n" "e = block_at buf bs i" by (auto simp: set_blocks)
  then have "unat (e + bs) = unat buf + Suc i * unat bs"
    using unat_block_at [OF assms(1), of "Suc i"] by (simp only: block_at_Suc)
  moreover have "0 < unat buf" using assms(1) by (simp add: block_area_def unat_gt_0)
  ultimately show ?thesis by auto
qed

lemma cpa_run_free_spec:
  assumes area: "block_area m0 buf bs n"
  shows "chain load32 m nf qs \<Longrightarrow> e \<in> set (blocks buf bs n) \<Longrightarrow> set qs \<subseteq> set (blocks buf bs n) \<Longrightarrow>
    cpa_run_free m bs k (e + bs) nf = Some (k \<le> length qs \<and> is_run bs e (take k qs))"
proof (induction k arbitrary: e nf qs)
  case 0
  then show ?case by simp
next
  case (Suc k)
  show ?case
  proof (cases qs)
    case Nil
    with Suc.prems block_end_nonnull [OF area Suc.prems(2)] show ?thesis by simp
  next
    case (Cons q qs')
    with Suc.prems obtain r where "load32 m q = Some r" "chain load32 m r qs'" "nf = q" by auto
    with Suc Cons show ?thesis by auto
  qed
qed

lemma cpa_search_spec:
  assumes area: "block_area m0 buf bs n" and k: "unat (numBlocks - 1) = k"
  shows "chain load32 m p (p # ps) \<Longrightarrow> set (p # ps) \<subseteq> set (blocks buf bs n) \<Longrightarrow>
    cpa_search m bs numBlocks p = Some (map_option fst (take_run bs k (p # ps)))"
proof (induction ps arbitrary: p)
  case Nil
  then have "load32 m p = Some NULL" "p \<in> set (blocks buf bs n)" by auto
  then show ?case
    using cpa_run_free_spec [OF area, of m NULL "[]" p k] k
    by (subst cpa_search.simps) auto
next
  case (Cons q ps)
  then obtain r where r: "load32 m p = Some q" "chain load32 m q (q # ps)" "q \<noteq> NULL" by auto
  have free: "cpa_run_free m bs k (p + bs) q = Some (k \<le> length (q # ps) \<and> is_run bs p (take k (q # ps)))"
    using Cons.prems r by (intro cpa_run_free_spec [OF area]) auto
  have rest: "cpa_search m bs numBlocks q = Some (map_option fst (take_run bs k (q # ps)))"
    using Cons.prems r by (intro Cons.IH) auto
  show ?case
    by (subst cpa_search.simps)
      (simp add: k r free rest option.map_comp comp_def case_prod_unfold del: take_run.simps(2),
       simp add: option.map_comp comp_def case_prod_unfold)
qed

lemma take_run_split:
  "take_run bs k ps = Some (q, rest) \<Longrightarrow>
    \<exists>xs run ys. ps = xs @ (q # run) @ ys \<and> length run = k \<and> is_run bs q run \<and> rest = xs @ ys"
proof (induction ps arbitrary: rest)
  case Nil
  then show ?case by simp
next
  case (Cons p ps)
  show ?case
  proof (cases "k \<le> length ps \<and> is_run bs p (take k ps)")
    case True
    with Cons.prems have "q = p" "rest = drop k ps" by auto
    with True show ?thesis
      by (intro exI [of _ "[]"] exI [of _ "take k ps"] exI [of _ "drop k ps"]) simp
  next
    case False
    with Cons.prems obtain rest' where r: "take_run bs k ps = Some (q, rest')" "rest = p # rest'"
      by auto
    from Cons.IH [OF r(1)] obtain xs run ys where
      "ps = xs @ (q # run) @ ys \<and> length run = k \<and> is_run bs q run \<and> rest' = xs @ ys" by blast
    with r(2) show ?thesis by (intro exI [of _ "p # xs"] exI [of _ run] exI [of _ ys]) simp
  qed
qed

text \<open>Nothing in front of the run that is taken is long enough.\<close>

definition no_run_before :: "u32 \<Rightarrow> nat \<Rightarrow> addr list \<Rightarrow> nat \<Rightarrow> bool" where
  "no_run_before bs k ps n \<longleftrightarrow>
     (\<forall>xs q run ys. ps = xs @ (q # run) @ ys \<and> length run = k \<and> is_run bs q run \<longrightarrow> n \<le> length xs)"

lemma take_run_first:
  "take_run bs k ps = Some (q, rest) \<Longrightarrow>
    \<exists>xs run ys. ps = xs @ (q # run) @ ys \<and> length run = k \<and> is_run bs q run \<and> rest = xs @ ys \<and>
      no_run_before bs k ps (length xs)"
proof (induction ps arbitrary: rest)
  case Nil
  then show ?case by simp
next
  case (Cons p ps)
  show ?case
  proof (cases "k \<le> length ps \<and> is_run bs p (take k ps)")
    case True
    with Cons.prems have "q = p" "rest = drop k ps" by auto
    with True show ?thesis
      by (intro exI [of _ "[]"] exI [of _ "take k ps"] exI [of _ "drop k ps"]) (simp add: no_run_before_def)
  next
    case False
    with Cons.prems obtain rest' where r: "take_run bs k ps = Some (q, rest')" "rest = p # rest'"
      by auto
    from Cons.IH [OF r(1)] obtain xs run ys where
      x: "ps = xs @ (q # run) @ ys" "length run = k" "is_run bs q run" "rest' = xs @ ys" "no_run_before bs k ps (length xs)"
      by blast
    have "no_run_before bs k (p # ps) (length (p # xs))"
      unfolding no_run_before_def
    proof (intro allI impI, elim conjE)
      fix zs q' run' ys'
      assume a: "p # ps = zs @ (q' # run') @ ys'" "length run' = k" "is_run bs q' run'"
      then show "length (p # xs) \<le> length zs" using False x(5) by (cases zs) (auto simp: no_run_before_def)
    qed
    with x r(2) show ?thesis by (intro exI [of _ "p # xs"] exI [of _ run] exI [of _ ys]) simp
  qed
qed

lemma is_run_nth:
  "is_run bs q run \<Longrightarrow> i < length run \<Longrightarrow> run ! i = q + of_nat (Suc i) * bs"
  by (induction bs q run arbitrary: i rule: is_run.induct)
    (auto simp: nth_Cons' algebra_simps gr0_conv_Suc)

lemma is_run_last: "is_run bs q run \<Longrightarrow> last (q # run) = q + of_nat (length run) * bs"
  using is_run_nth [of bs q run "length run - 1"] by (cases run) (auto simp: last_conv_nth)

lemma cpa_prev_spec:
  "chain load32 m cp (xs @ q # ys) \<Longrightarrow> q \<notin> set xs \<Longrightarrow>
    cpa_prev m q prev cp = Some (if xs = [] then prev else last xs)"
proof (induction xs arbitrary: cp prev)
  case Nil
  then show ?case by (subst cpa_prev.simps) auto
next
  case (Cons x xs)
  then obtain r where r: "cp = x" "x \<noteq> NULL" "load32 m x = Some r" "chain load32 m r (xs @ q # ys)"
    by auto
  with Cons show ?case by (subst cpa_prev.simps) auto
qed

text \<open>What removing a run does to the list; the block area and the other links are untouched.\<close>

lemma cpa_unlink_spec:
  assumes inv: "cpa_inv (m, pa) (xs @ (q # run) @ ys)" and run: "is_run (cpa_blockSize pa) q run"
    and n: "numBlocks = of_nat (Suc (length run))"
  shows "\<exists>m' next'. cpa_unlink (m, pa) q numBlocks = Some (m', pa\<lparr>cpa_nextFreeBlock := next'\<rparr>) \<and>
     chain load32 m' next' (xs @ ys) \<and> dom m' = dom m \<and>
     (\<forall>x. x \<notin> (\<Union>p\<in>set xs. extent p 4) \<longrightarrow> m' x = m x)"
proof -
  note d = cpa_invD [OF inv, simplified]
  have last: "q + (numBlocks - 1) * cpa_blockSize pa = last (q # run)"
    using is_run_last [OF run] n by simp
  have "chain load32 m (cpa_nextFreeBlock pa) (xs @ butlast (q # run) @ last (q # run) # ys)"
    using d(2) by (metis append.assoc append_Cons append_Nil append_butlast_last_id list.distinct(1))
  then obtain r where r: "load32 m (last (q # run)) = Some r" "chain load32 m r ys"
    by (auto simp: chain_append)
  show ?thesis
  proof (cases xs rule: rev_cases)
    case Nil
    then have "cpa_nextFreeBlock pa = q" using d(2) by simp
    with r last Nil show ?thesis by (auto simp: cpa_unlink_def)
  next
    case (snoc zs z)
    have ne: "cpa_nextFreeBlock pa \<noteq> q" using d(2,3) snoc by (cases zs) auto
    have prev: "cpa_prev m q (cpa_nextFreeBlock pa) (cpa_nextFreeBlock pa) = Some z"
      using cpa_prev_spec [of m "cpa_nextFreeBlock pa" xs q "run @ ys"] d(2,3) snoc by simp
    have zb: "z \<in> set (cpa_blocks pa)" using d(4) snoc by simp
    then obtain m' where m': "store32 m z r = Some m'"
      using block_store [OF d(1)] by (auto simp: cpa_blocks_def)
    have ap: "apart z b" if "b \<in> set zs \<union> set ys" for b
      using that d(3,4) snoc zb blocks_apart [OF d(1), of z b] by (auto simp: cpa_blocks_def)
    obtain w where "path load32 m (cpa_nextFreeBlock pa) (zs @ [z]) w"
      using d(2) snoc by (auto simp: chain_def)
    then have "chain load32 m' (cpa_nextFreeBlock pa) (zs @ z # ys)"
      by (rule byte_heap.chain_splice [OF m' _ r(2) ap])
    moreover have "m' x = m x" if "x \<notin> (\<Union>p\<in>set xs. extent p 4)" for x
      using that snoc store32_frame [OF m', of x] by simp
    moreover have "cpa_unlink (m, pa) q numBlocks = Some (m', pa\<lparr>cpa_nextFreeBlock := cpa_nextFreeBlock pa\<rparr>)"
      using r last prev m' ne by (simp add: cpa_unlink_def)
    ultimately show ?thesis using snoc store32_dom [OF m']
      by (intro exI [of _ m'] exI [of _ "cpa_nextFreeBlock pa"]) simp
  qed
qed

lemma cpa_allocate_spec:
  assumes inv: "cpa_inv s ps" and n: "numBlocks \<noteq> 0"
  shows "case take_run (cpa_blockSize (snd s)) (unat numBlocks - 1) ps of
      None \<Rightarrow> consecutivePoolAllocate s numBlocks = Some (s, -1)
    | Some (q, rest) \<Rightarrow> \<exists>s'. consecutivePoolAllocate s numBlocks = Some (s', q - cpa_buf (snd s)) \<and>
        cpa_inv s' rest \<and> cpa_blocks (snd s') = cpa_blocks (snd s) \<and>
        cpa_buf (snd s') = cpa_buf (snd s) \<and> cpa_blockSize (snd s') = cpa_blockSize (snd s) \<and>
        cpa_size (snd s') = cpa_size (snd s) \<and> dom (fst s') = dom (fst s) \<and>
        (\<forall>x. x \<notin> (\<Union>p\<in>set rest. extent p 4) \<longrightarrow> fst s' x = fst s x)"
proof (cases s)
  case (Pair m pa)
  note d = cpa_invD [OF inv, unfolded Pair, simplified]
  let ?k = "unat numBlocks - 1"
  have k: "unat (numBlocks - 1) = ?k" using n by (simp add: unat_minus_one)
  show ?thesis
  proof (cases ps)
    case Nil
    with Pair d(2) show ?thesis by (simp add: consecutivePoolAllocate_def)
  next
    case (Cons p qs)
    then have p: "cpa_nextFreeBlock pa = p" "p \<noteq> NULL" using d(2) by auto
    have search: "cpa_search m (cpa_blockSize pa) numBlocks p =
        Some (map_option fst (take_run (cpa_blockSize pa) ?k ps))"
      using cpa_search_spec [OF d(1) k, of m p qs] d(2,4) Cons p by (simp add: cpa_blocks_def)
    show ?thesis
    proof (cases "take_run (cpa_blockSize pa) ?k ps")
      case None
      with Pair p search show ?thesis by (simp add: consecutivePoolAllocate_def)
    next
      case (Some qr)
      then obtain q rest where qr: "take_run (cpa_blockSize pa) ?k ps = Some (q, rest)"
        by (cases qr) auto
      from take_run_split [OF qr] obtain xs run ys where sp: "ps = xs @ (q # run) @ ys"
        "length run = ?k" "is_run (cpa_blockSize pa) q run" "rest = xs @ ys" by blast
      have nn: "numBlocks = of_nat (Suc (length run))"
        using sp(2) n by (simp add: unat_gt_0 flip: of_nat_Suc)
      from cpa_unlink_spec [OF inv [unfolded Pair sp(1)] sp(3) nn]
      obtain m' nx where u: "cpa_unlink (m, pa) q numBlocks = Some (m', pa\<lparr>cpa_nextFreeBlock := nx\<rparr>)"
        "chain load32 m' nx (xs @ ys)" "dom m' = dom m"
        "\<And>x. x \<notin> (\<Union>p\<in>set xs. extent p 4) \<Longrightarrow> m' x = m x" by blast
      let ?pa' = "pa\<lparr>cpa_nextFreeBlock := nx, cpa_numFreeBlocks := cpa_numFreeBlocks pa - numBlocks\<rparr>"
      have "cpa_numFreeBlocks pa - numBlocks = of_nat (length (xs @ ys))"
        using d(5) sp(1) nn by simp
      moreover have "block_area m' (cpa_buf pa) (cpa_blockSize pa)
          (unat (cpa_size pa) div unat (cpa_blockSize pa))"
        using d(1) u(3) by (simp add: block_area_def)
      ultimately have "cpa_inv (m', ?pa') rest"
        using u(2) d(3,4) sp by (auto simp: cpa_inv_def cpa_links_def cpa_area_def cpa_blocks_def)
      moreover have "consecutivePoolAllocate s numBlocks = Some ((m', ?pa'), q - cpa_buf pa)"
        using Pair p search qr u(1) by (simp add: consecutivePoolAllocate_def)
      ultimately show ?thesis
        using qr Pair u(3,4) sp(4) by (auto simp: cpa_blocks_def intro!: exI [of _ m'] exI [of _ ?pa'])
    qed
  qed
qed

subsection \<open>The release meets its abstract specification\<close>

definition run_of :: "ConsecutivePoolAllocator \<Rightarrow> nat \<Rightarrow> nat \<Rightarrow> addr list" where
  "run_of pa i n = map (block_at (cpa_buf pa) (cpa_blockSize pa)) [i..<i + n]"

lemma length_run_of [simp]: "length (run_of pa i n) = n"
  by (simp add: run_of_def)

lemma hd_run_of: "0 < n \<Longrightarrow> hd (run_of pa i n) = block_at (cpa_buf pa) (cpa_blockSize pa) i"
  by (simp add: run_of_def upt_conv_Cons)

lemma set_run_of: "set (run_of pa i n) = block_at (cpa_buf pa) (cpa_blockSize pa) ` {i..<i + n}"
  by (simp add: run_of_def)

lemma run_of_blocks:
  "i + n \<le> N \<Longrightarrow> set (run_of pa i n) \<subseteq> set (blocks (cpa_buf pa) (cpa_blockSize pa) N)"
  by (auto simp: set_run_of set_blocks)

lemma distinct_run_of:
  "block_area m (cpa_buf pa) (cpa_blockSize pa) N \<Longrightarrow> i + n \<le> N \<Longrightarrow> distinct (run_of pa i n)"
  by (auto simp: run_of_def distinct_map inj_on_def block_at_inject)

lemma block_count_bound:
  assumes "block_area m buf bs N"
  shows "N < 2 ^ 32"
proof -
  have "N * 1 \<le> N * unat bs" using assms by (intro mult_le_mono2) (simp add: block_area_def)
  then show ?thesis using assms unfolding block_area_def by linarith
qed

lemma cpa_link_run_spec:
  assumes area: "block_area m (cpa_buf pa) (cpa_blockSize pa) N"
    and n: "0 < n" "i + n \<le> N" "numBlocks = of_nat n"
    and tail: "chain load32 m q qs" "set qs \<subseteq> set (blocks (cpa_buf pa) (cpa_blockSize pa) N)"
      "set qs \<inter> set (run_of pa i n) = {}"
  shows "\<exists>m2. cpa_link_run m (cpa_blockSize pa) (block_at (cpa_buf pa) (cpa_blockSize pa) i) numBlocks q = Some m2 \<and>
     dom m2 = dom m \<and> chain load32 m2 (block_at (cpa_buf pa) (cpa_blockSize pa) i) (run_of pa i n @ qs) \<and>
     (\<forall>x. x \<notin> (\<Union>p\<in>set (run_of pa i n). extent p 4) \<longrightarrow> m2 x = m x)"
proof -
  let ?b = "block_at (cpa_buf pa) (cpa_blockSize pa)"
  have nn: "n < 2 ^ 32" using n(2) block_count_bound [OF area] by linarith
  have k: "unat (numBlocks - 1) = n - 1"
  proof -
    have "(of_nat n :: u32) \<noteq> 0" using of_nat_u32_inject [OF nn, of 0] n(1) by simp
    then show ?thesis using n(3) nn by (simp add: unat_minus_one unat_of_nat_u32)
  qed
  have iv: "{i..i + (n - 1)} = {i..<i + n}" "[i..<Suc (i + (n - 1))] = [i..<i + n]" using n(1) by auto
  have dj: "set qs \<inter> ?b ` {i..i + (n - 1)} = {}" using tail(3) unfolding set_run_of iv .
  have lt: "i + (n - 1) < N" using n by linarith
  from init_links_chain [OF area lt tail(1,2) dj] obtain m1 m2 where
    "init_links m (?b i) (cpa_blockSize pa) (n - 1) = Some (m1, ?b (i + (n - 1)))"
    "store32 m1 (?b (i + (n - 1))) q = Some m2" "dom m2 = dom m"
    "chain load32 m2 (?b i) (map ?b [i..<Suc (i + (n - 1))] @ qs)"
    "\<forall>x. x \<notin> (\<Union>j\<in>{i..i + (n - 1)}. extent (?b j) 4) \<longrightarrow> m2 x = m x" by blast
  then show ?thesis
    unfolding iv by (intro exI [of _ m2]) (simp add: cpa_link_run_def k run_of_def)
qed

lemma cpa_insert_nomatch:
  "chain load32 m lp ps \<Longrightarrow> (\<And>l. l \<in> set ps \<Longrightarrow> l + bs \<noteq> p) \<Longrightarrow>
    cpa_insert m bs p numBlocks f lp = Some (m, f)"
proof (induction ps arbitrary: lp)
  case Nil
  then show ?case by (subst cpa_insert.simps) simp
next
  case (Cons a ps)
  then show ?case by (subst cpa_insert.simps) auto
qed

lemma cpa_insert_skip:
  "path load32 m lp xs l \<Longrightarrow> (\<And>x. x \<in> set xs \<Longrightarrow> x + bs \<noteq> p) \<Longrightarrow>
    cpa_insert m bs p numBlocks f lp = cpa_insert m bs p numBlocks f l"
proof (induction xs arbitrary: lp)
  case Nil
  then show ?case by simp
next
  case (Cons a xs)
  then obtain r where "lp = a" "a \<noteq> NULL" "load32 m a = Some r" "path load32 m r xs l" by auto
  with Cons show ?case by (subst cpa_insert.simps) auto
qed

text \<open>The scan when some free block ends where the run begins.\<close>

lemma cpa_insert_match:
  assumes area: "block_area m (cpa_buf pa) (cpa_blockSize pa) N"
    and n: "0 < n" "i + n \<le> N" "numBlocks = of_nat n"
    and p: "p = block_at (cpa_buf pa) (cpa_blockSize pa) i"
    and l: "chain load32 m lp (xs @ l # ys)" "l + cpa_blockSize pa = p"
      "distinct (xs @ l # ys)"
      "set (xs @ l # ys) \<subseteq> set (blocks (cpa_buf pa) (cpa_blockSize pa) N)"
      "set (xs @ l # ys) \<inter> set (run_of pa i n) = {}"
  shows "\<exists>m'. cpa_insert m (cpa_blockSize pa) p numBlocks f lp = Some (m', True) \<and>
     chain load32 m' lp (xs @ l # run_of pa i n @ ys) \<and> dom m' = dom m \<and>
     (\<forall>x. x \<notin> (\<Union>p\<in>insert l (set (run_of pa i n)). extent p 4) \<longrightarrow> m' x = m x)"
proof -
  let ?run = "run_of pa i n" and ?bs = "cpa_blockSize pa"
  let ?B = "set (blocks (cpa_buf pa) ?bs N)"
  from l(1) obtain tmp where t: "path load32 m lp xs l" "l \<noteq> NULL" "load32 m l = Some tmp"
    "chain load32 m tmp ys" by (auto simp: chain_append)
  have lB: "l \<in> ?B" using l(4) by simp
  have ap: "apart l b" if "b \<in> set xs \<union> set ys \<union> set ?run" for b
    using that l(3-5) run_of_blocks [OF n(2), of pa] blocks_apart [OF area lB, of b] by auto
  obtain m1 where m1: "store32 m l p = Some m1" using block_store [OF area lB] by blast
  have area1: "block_area m1 (cpa_buf pa) ?bs N" using area block_area_store [OF m1] by simp
  have ch1: "chain load32 m1 tmp ys" using t(4) byte_heap.chain_st [OF m1] ap by blast
  have ys: "set ys \<subseteq> ?B" "set ys \<inter> set ?run = {}" using l(4,5) by auto
  from cpa_link_run_spec [OF area1 n ch1 ys] obtain m2 where
    m2: "cpa_link_run m1 ?bs p numBlocks tmp = Some m2" "dom m2 = dom m1"
    "chain load32 m2 p (?run @ ys)"
    "\<And>x. x \<notin> (\<Union>p\<in>set ?run. extent p 4) \<Longrightarrow> m2 x = m1 x" unfolding p by blast
  have keep: "load32 m2 b = load32 m1 b" if "b \<in> set xs \<or> b = l" for b
  proof (rule load32_frame, rule m2(4))
    fix x assume x: "x \<in> extent b 4"
    have "b \<in> ?B" "b \<notin> set ?run" using that l(4,5) by auto
    then have "apart b r" if "r \<in> set ?run" for r
      using that run_of_blocks [OF n(2), of pa] blocks_apart [OF area, of b r] by auto
    then show "x \<notin> (\<Union>p\<in>set ?run. extent p 4)" using x by (auto simp: apart_def)
  qed
  have l1: "load32 m1 l = Some p" using load_store32_same [OF m1] .
  then have l2: "load32 m2 l = Some p" using keep by simp
  have nomatch: "b + ?bs \<noteq> p" if "b \<in> set xs \<union> set ys \<union> set ?run" for b
    using ap [OF that] l(2) by (auto simp: apart_def extent_4)
  have "path load32 m1 lp xs l" using t(1) byte_heap.path_st [OF m1] ap by blast
  then have "path load32 m2 lp xs l" using keep by (simp cong: path_cong)
  then have "chain load32 m2 lp (xs @ l # ?run @ ys)"
    using t(2) l2 m2(3) by (auto simp: chain_append)
  moreover have "cpa_insert m ?bs p numBlocks f lp = cpa_insert m ?bs p numBlocks f l"
    using t(1) nomatch by (intro cpa_insert_skip) auto
  then have "cpa_insert m ?bs p numBlocks f lp = cpa_insert m2 ?bs p numBlocks True p"
    using t(2,3) l(2) m1 l1 l2 m2(1) by (subst (asm) (2) cpa_insert.simps) simp
  moreover have "cpa_insert m2 ?bs p numBlocks True p = Some (m2, True)"
    using nomatch by (intro cpa_insert_nomatch [OF m2(3)]) auto
  moreover have "m2 x = m x" if "x \<notin> (\<Union>p\<in>insert l (set ?run). extent p 4)" for x
    using that m2(4) [of x] store32_frame [OF m1, of x] by auto
  ultimately show ?thesis using m2(2) store32_dom [OF m1] by auto
qed

lemma put_run_cases:
  obtains (front) "\<forall>l\<in>set ps. l + bs \<noteq> hd run" "put_run bs run ps = run @ ps"
  | (behind) xs l ys where "ps = xs @ l # ys" "l + bs = hd run" "put_run bs run ps = xs @ l # run @ ys"
proof (cases "dropWhile (\<lambda>l. l + bs \<noteq> hd run) ps")
  case Nil
  then have "\<forall>l\<in>set ps. l + bs \<noteq> hd run" by (simp add: dropWhile_eq_Nil_conv)
  moreover have "put_run bs run ps = run @ ps" unfolding put_run.simps Nil by simp
  ultimately show ?thesis by (rule front)
next
  case (Cons l ys)
  have "ps = takeWhile (\<lambda>l. l + bs \<noteq> hd run) ps @ l # ys"
    using takeWhile_dropWhile_id [of "\<lambda>l. l + bs \<noteq> hd run" ps] Cons by simp
  moreover have "l + bs = hd run" using hd_dropWhile [of "\<lambda>l. l + bs \<noteq> hd run" ps] Cons by simp
  moreover have "put_run bs run ps = takeWhile (\<lambda>l. l + bs \<noteq> hd run) ps @ l # run @ ys"
    using Cons by simp
  ultimately show ?thesis by (rule behind)
qed

lemma put_run_set: "set (put_run bs run ps) = set ps \<union> set run"
  by (rule put_run_cases [of ps bs run]) auto

lemma put_run_length: "length (put_run bs run ps) = length ps + length run"
  by (rule put_run_cases [of ps bs run]) auto

lemma put_run_distinct:
  "distinct ps \<Longrightarrow> distinct run \<Longrightarrow> set ps \<inter> set run = {} \<Longrightarrow> distinct (put_run bs run ps)"
  by (rule put_run_cases [of ps bs run]) auto

declare put_run.simps [simp del]

text \<open>The list and the memory after a release; the count and the geometry follow in \<open>cpa_free_spec\<close>.\<close>

lemma cpa_free_links:
  assumes inv: "cpa_links (m, pa) ps"
    and n: "0 < n" "i + n \<le> unat (cpa_size pa) div unat (cpa_blockSize pa)" "numBlocks = of_nat n"
    and dj: "set ps \<inter> set (run_of pa i n) = {}"
  shows "\<exists>m' next'. consecutivePoolFree (m, pa) (block_at (cpa_buf pa) (cpa_blockSize pa) i) numBlocks =
       Some (m', pa\<lparr>cpa_nextFreeBlock := next', cpa_numFreeBlocks := cpa_numFreeBlocks pa + numBlocks\<rparr>) \<and>
     chain load32 m' next' (put_run (cpa_blockSize pa) (run_of pa i n) ps) \<and> dom m' = dom m \<and>
     (\<forall>x. x \<notin> (\<Union>p\<in>set ps \<union> set (run_of pa i n). extent p 4) \<longrightarrow> m' x = m x)"
proof -
  note d = cpa_linksD [OF inv, simplified]
  let ?bs = "cpa_blockSize pa" and ?run = "run_of pa i n"
  let ?p = "block_at (cpa_buf pa) ?bs i"
  have ps: "set ps \<subseteq> set (blocks (cpa_buf pa) ?bs (unat (cpa_size pa) div unat ?bs))"
    using d(4) by (simp add: cpa_blocks_def)
  have hd: "hd ?run = ?p" using n(1) by (rule hd_run_of)
  show ?thesis
  proof (rule put_run_cases [of ps ?bs ?run])
    assume nomatch: "\<forall>l\<in>set ps. l + ?bs \<noteq> hd ?run" and put: "put_run ?bs ?run ps = ?run @ ps"
    from cpa_link_run_spec [OF d(1) n d(2) ps dj] obtain m' where
      m': "cpa_link_run m ?bs ?p numBlocks (cpa_nextFreeBlock pa) = Some m'" "dom m' = dom m"
      "chain load32 m' ?p (?run @ ps)"
      "\<And>x. x \<notin> (\<Union>p\<in>set ?run. extent p 4) \<Longrightarrow> m' x = m x" by blast
    have "cpa_insert m ?bs ?p numBlocks False (cpa_nextFreeBlock pa) = Some (m, False)"
      using nomatch hd by (intro cpa_insert_nomatch [OF d(2)]) auto
    then have "consecutivePoolFree (m, pa) ?p numBlocks =
       Some (m', pa\<lparr>cpa_nextFreeBlock := ?p, cpa_numFreeBlocks := cpa_numFreeBlocks pa + numBlocks\<rparr>)"
      using m'(1) by (auto simp: consecutivePoolFree_def)
    then show ?thesis using m' put by auto
  next
    fix xs l ys
    assume sp: "ps = xs @ l # ys" "l + ?bs = hd ?run" and put: "put_run ?bs ?run ps = xs @ l # ?run @ ys"
    from cpa_insert_match [OF d(1) n refl d(2) [unfolded sp(1)] sp(2) [unfolded hd]
        d(3) [unfolded sp(1)] ps [unfolded sp(1)] dj [unfolded sp(1)], of False] obtain m' where
      m': "cpa_insert m ?bs ?p numBlocks False (cpa_nextFreeBlock pa) = Some (m', True)"
      "chain load32 m' (cpa_nextFreeBlock pa) (xs @ l # ?run @ ys)" "dom m' = dom m"
      "\<And>x. x \<notin> (\<Union>p\<in>insert l (set ?run). extent p 4) \<Longrightarrow> m' x = m x" by blast
    have "cpa_nextFreeBlock pa \<noteq> NULL" using d(2) sp(1) by (cases xs) auto
    then have "consecutivePoolFree (m, pa) ?p numBlocks =
       Some (m', pa\<lparr>cpa_nextFreeBlock := cpa_nextFreeBlock pa,
                  cpa_numFreeBlocks := cpa_numFreeBlocks pa + numBlocks\<rparr>)"
      using m'(1) by (simp add: consecutivePoolFree_def)
    then show ?thesis using m'(2-4) put sp(1)
      by (intro exI [of _ m'] exI [of _ "cpa_nextFreeBlock pa"]) simp
  qed
qed

lemma cpa_free_spec:
  assumes inv: "cpa_inv s ps"
    and n: "0 < n" "i + n \<le> unat (cpa_size (snd s)) div unat (cpa_blockSize (snd s))"
    and dj: "set ps \<inter> set (run_of (snd s) i n) = {}"
  shows "\<exists>s'. consecutivePoolFree s (block_at (cpa_buf (snd s)) (cpa_blockSize (snd s)) i) (of_nat n) = Some s' \<and>
     cpa_inv s' (put_run (cpa_blockSize (snd s)) (run_of (snd s) i n) ps) \<and>
     cpa_blocks (snd s') = cpa_blocks (snd s) \<and> cpa_buf (snd s') = cpa_buf (snd s) \<and>
     cpa_blockSize (snd s') = cpa_blockSize (snd s) \<and> cpa_size (snd s') = cpa_size (snd s) \<and>
     (\<forall>x. x \<notin> (\<Union>p\<in>set ps \<union> set (run_of (snd s) i n). extent p 4) \<longrightarrow> fst s' x = fst s x)"
proof (cases s)
  case (Pair m pa)
  note inv' = inv [unfolded Pair]
  note d = cpa_invD [OF inv', simplified]
  let ?bs = "cpa_blockSize pa" and ?run = "run_of pa i n"
  have "cpa_links (m, pa) ps" using inv' by (simp add: cpa_inv_def)
  from cpa_free_links [OF this n(1) _ refl] n(2) dj Pair obtain m' nx where
    f: "consecutivePoolFree (m, pa) (block_at (cpa_buf pa) ?bs i) (of_nat n) =
       Some (m', pa\<lparr>cpa_nextFreeBlock := nx, cpa_numFreeBlocks := cpa_numFreeBlocks pa + of_nat n\<rparr>)"
    "chain load32 m' nx (put_run ?bs ?run ps)" "dom m' = dom m"
    "\<And>x. x \<notin> (\<Union>p\<in>set ps \<union> set ?run. extent p 4) \<Longrightarrow> m' x = m x"
    by (metis fst_conv snd_conv)
  let ?pa' = "pa\<lparr>cpa_nextFreeBlock := nx, cpa_numFreeBlocks := cpa_numFreeBlocks pa + of_nat n\<rparr>"
  have "block_area m' (cpa_buf pa) ?bs (unat (cpa_size pa) div unat ?bs)"
    using d(1) f(3) by (simp add: block_area_def)
  moreover have "distinct (put_run ?bs ?run ps)"
    using d(3) dj Pair distinct_run_of [OF d(1), of i n] n(2) by (intro put_run_distinct) auto
  moreover have "set (put_run ?bs ?run ps) \<subseteq> set (cpa_blocks pa)"
    using d(4) run_of_blocks [of i n _ pa] n(2) Pair by (auto simp: put_run_set cpa_blocks_def)
  ultimately have "cpa_inv (m', ?pa') (put_run ?bs ?run ps)"
    using f(2) d(5) by (simp add: cpa_inv_def cpa_links_def cpa_area_def cpa_blocks_def put_run_length)
  then show ?thesis using f Pair by (auto simp: cpa_blocks_def)
qed

subsection \<open>Regions of consecutive blocks\<close>

definition region :: "ConsecutivePoolAllocator \<Rightarrow> nat \<Rightarrow> nat \<Rightarrow> addr set" where
  "region pa i n = extent (block_at (cpa_buf pa) (cpa_blockSize pa) i) (n * unat (cpa_blockSize pa))"

lemma region_bounds:
  assumes "block_area m (cpa_buf pa) (cpa_blockSize pa) N" "i + n \<le> N" "x \<in> region pa i n"
  shows "unat (cpa_buf pa) + i * unat (cpa_blockSize pa) \<le> unat x"
    and "unat x < unat (cpa_buf pa) + (i + n) * unat (cpa_blockSize pa)"
proof -
  let ?bs = "unat (cpa_blockSize pa)"
  obtain k where k: "k < n * ?bs" "x = block_at (cpa_buf pa) (cpa_blockSize pa) i + of_nat k"
    using assms(3) by (auto simp: region_def extent_def)
  have b: "unat (block_at (cpa_buf pa) (cpa_blockSize pa) i) = unat (cpa_buf pa) + i * ?bs"
    using assms(2) by (intro unat_block_at [OF assms(1)]) simp
  have "(i + n) * ?bs \<le> N * ?bs" using assms(2) by (rule mult_le_mono1)
  then have "unat (cpa_buf pa) + i * ?bs + k < 2 ^ 32"
    using k(1) assms(1) unfolding block_area_def by (simp add: add_mult_distrib)
  then have "unat x = unat (cpa_buf pa) + i * ?bs + k"
    using k(2) b by (simp add: unat_add_of_nat)
  then show "unat (cpa_buf pa) + i * ?bs \<le> unat x" "unat x < unat (cpa_buf pa) + (i + n) * ?bs"
    using k(1) by (simp_all add: add_mult_distrib)
qed

lemma region_disjoint:
  assumes area: "block_area m (cpa_buf pa) (cpa_blockSize pa) N"
    and "i + n \<le> N" "j + k \<le> N" "i + n \<le> j \<or> j + k \<le> i"
  shows "region pa i n \<inter> region pa j k = {}"
proof -
  let ?bs = "unat (cpa_blockSize pa)"
  have "unat x \<noteq> unat y" if x: "x \<in> region pa i n" and y: "y \<in> region pa j k" for x y
  proof -
    have "(i + n) * ?bs \<le> j * ?bs \<or> (j + k) * ?bs \<le> i * ?bs"
      using assms(4) mult_le_mono1 by blast
    then show ?thesis
      using region_bounds [OF area assms(2) x] region_bounds [OF area assms(3) y] by linarith
  qed
  then show ?thesis by auto
qed

lemma region_cells:
  assumes area: "block_area m (cpa_buf pa) (cpa_blockSize pa) N" and "i + n \<le> N" "j \<in> {i..<i + n}"
  shows "extent (block_at (cpa_buf pa) (cpa_blockSize pa) j) 4 \<subseteq> region pa i n"
proof -
  let ?bs = "unat (cpa_blockSize pa)"
  have "(j - i) * ?bs + ?bs \<le> n * ?bs" using assms(3) by (intro mult_lt_bound) auto
  then have "(j - i) * ?bs + 4 \<le> n * ?bs" using block_area_pos [OF area] by linarith
  then have "extent (block_at (cpa_buf pa) (cpa_blockSize pa) i) ((j - i) * ?bs + 4) \<subseteq> region pa i n"
    unfolding region_def by (rule extent_mono)
  moreover have "block_at (cpa_buf pa) (cpa_blockSize pa) i + of_nat ((j - i) * ?bs) =
      block_at (cpa_buf pa) (cpa_blockSize pa) j"
  proof -
    have "i * ?bs + (j - i) * ?bs = j * ?bs"
      using assms(3) by (metis add_mult_distrib atLeastLessThan_iff le_add_diff_inverse)
    then have "(of_nat (i * ?bs) :: u32) + of_nat ((j - i) * ?bs) = of_nat (j * ?bs)"
      by (metis of_nat_add)
    then show ?thesis by (simp add: block_at_def add.assoc del: of_nat_mult)
  qed
  ultimately show ?thesis unfolding extent_add by simp
qed

lemma region_mapped:
  assumes area: "block_area m (cpa_buf pa) (cpa_blockSize pa) N" and "i + n \<le> N"
  shows "region pa i n \<subseteq> dom m"
proof -
  let ?bs = "unat (cpa_blockSize pa)"
  have "(i + n) * ?bs \<le> N * ?bs" using assms(2) by (rule mult_le_mono1)
  then have "extent (cpa_buf pa) (i * ?bs + n * ?bs) \<subseteq> dom m"
    using area extent_mono unfolding block_area_def by (metis add_mult_distrib subset_trans)
  then show ?thesis by (simp add: region_def extent_add block_at_def)
qed

text \<open>A run of list elements that follow each other in memory is a run of blocks of the area.\<close>

lemma is_run_run_of:
  assumes area: "block_area m (cpa_buf pa) (cpa_blockSize pa) N"
  shows "is_run (cpa_blockSize pa) (block_at (cpa_buf pa) (cpa_blockSize pa) i) run \<Longrightarrow> i < N \<Longrightarrow>
    set run \<subseteq> set (blocks (cpa_buf pa) (cpa_blockSize pa) N) \<Longrightarrow>
    i + Suc (length run) \<le> N \<and>
    block_at (cpa_buf pa) (cpa_blockSize pa) i # run = run_of pa i (Suc (length run))"
proof (induction run arbitrary: i)
  case Nil
  then show ?case by (simp add: run_of_def)
next
  case (Cons q run)
  let ?b = "block_at (cpa_buf pa) (cpa_blockSize pa)"
  from Cons.prems(1) have q: "q = ?b (Suc i)" "is_run (cpa_blockSize pa) q run"
    by (auto simp: block_at_Suc)
  obtain j where j: "j < N" "?b (Suc i) = ?b j" using Cons.prems(3) q(1) by (auto simp: set_blocks)
  then have "Suc i * unat (cpa_blockSize pa) = j * unat (cpa_blockSize pa)"
    using unat_block_at [OF area, of "Suc i"] unat_block_at [OF area, of j] Cons.prems(2)
    by (metis Suc_leI add_left_cancel less_imp_le)
  then have "Suc i = j" using block_area_pos [OF area] by (metis mult_cancel2 not_numeral_le_zero)
  then have "Suc i < N" using j(1) by simp
  then have "Suc i + Suc (length run) \<le> N \<and> ?b (Suc i) # run = run_of pa (Suc i) (Suc (length run))"
    using Cons.IH [of "Suc i"] q Cons.prems(3) by simp
  moreover have "run_of pa i (Suc (length (q # run))) = ?b i # run_of pa (Suc i) (Suc (length run))"
    by (simp add: run_of_def upt_conv_Cons del: upt_Suc)
  ultimately show ?case using q(1) by simp
qed

subsection \<open>Allocation and release together\<close>

text \<open>The allocation, with the blocks it takes named by their index in the area.\<close>

lemma cpa_allocate_cases:
  assumes inv: "cpa_inv s ps" and n: "numBlocks \<noteq> 0"
  obtains (full) "consecutivePoolAllocate s numBlocks = Some (s, -1)"
      "take_run (cpa_blockSize (snd s)) (unat numBlocks - 1) ps = None"
  | (taken) s' i xs ys where
      "consecutivePoolAllocate s numBlocks = Some (s', of_nat (i * unat (cpa_blockSize (snd s))))"
      "ps = xs @ run_of (snd s) i (unat numBlocks) @ ys"
      "i + unat numBlocks \<le> unat (cpa_size (snd s)) div unat (cpa_blockSize (snd s))"
      "cpa_inv s' (xs @ ys)" "cpa_blocks (snd s') = cpa_blocks (snd s)"
      "cpa_buf (snd s') = cpa_buf (snd s)" "cpa_blockSize (snd s') = cpa_blockSize (snd s)"
      "cpa_size (snd s') = cpa_size (snd s)" "dom (fst s') = dom (fst s)"
      "\<And>x. x \<notin> (\<Union>p\<in>set (xs @ ys). extent p 4) \<Longrightarrow> fst s' x = fst s x"
      "no_run_before (cpa_blockSize (snd s)) (unat numBlocks - 1) ps (length xs)"
proof (cases "take_run (cpa_blockSize (snd s)) (unat numBlocks - 1) ps")
  case None
  then show ?thesis using cpa_allocate_spec [OF inv n] full by simp
next
  case (Some qr)
  let ?pa = "snd s" let ?bs = "cpa_blockSize ?pa"
  obtain q rest where qr: "take_run ?bs (unat numBlocks - 1) ps = Some (q, rest)"
    using Some by (cases qr) auto
  from take_run_first [OF qr] obtain xs run ys where sp: "ps = xs @ (q # run) @ ys"
    "length run = unat numBlocks - 1" "is_run ?bs q run" "rest = xs @ ys"
    "no_run_before ?bs (unat numBlocks - 1) ps (length xs)" by blast
  note d = cpa_invD [OF inv]
  from d(4) sp(1) obtain i where i: "i < unat (cpa_size ?pa) div unat ?bs"
    "q = block_at (cpa_buf ?pa) ?bs i" by (auto simp: cpa_blocks_def set_blocks)
  have "Suc (length run) = unat numBlocks" using sp(2) n by (simp add: unat_gt_0)
  then have "i + unat numBlocks \<le> unat (cpa_size ?pa) div unat ?bs \<and> q # run = run_of ?pa i (unat numBlocks)"
    using is_run_run_of [OF d(1), of i run] sp i d(4) by (auto simp: cpa_blocks_def)
  moreover have "q - cpa_buf ?pa = of_nat (i * unat ?bs)" by (simp add: i(2) block_at_def)
  moreover obtain s' where s': "consecutivePoolAllocate s numBlocks = Some (s', q - cpa_buf ?pa)"
    "cpa_inv s' (xs @ ys)" "cpa_blocks (snd s') = cpa_blocks ?pa"
    "cpa_buf (snd s') = cpa_buf ?pa" "cpa_blockSize (snd s') = ?bs"
    "cpa_size (snd s') = cpa_size ?pa" "dom (fst s') = dom (fst s)"
    "\<forall>x. x \<notin> (\<Union>p\<in>set (xs @ ys). extent p 4) \<longrightarrow> fst s' x = fst s x"
    using cpa_allocate_spec [OF inv n] unfolding qr sp(4) option.case prod.case by blast
  ultimately show ?thesis
    using sp(1,5) by (intro taken [of s' i xs ys]) auto
qed

lemma block_at_offset: "cpa_buf pa + of_nat (i * unat (cpa_blockSize pa)) =
    block_at (cpa_buf pa) (cpa_blockSize pa) i"
  by (simp add: block_at_def)

lemma offset_not_error:
  assumes "block_area m (cpa_buf pa) (cpa_blockSize pa) N" "i < N"
  shows "(of_nat (i * unat (cpa_blockSize pa)) :: u32) \<noteq> - 1"
proof
  assume "(of_nat (i * unat (cpa_blockSize pa)) :: u32) = - 1"
  then have "block_at (cpa_buf pa) (cpa_blockSize pa) i = cpa_buf pa - 1"
    by (simp only: block_at_def) simp
  moreover have "unat (cpa_buf pa - 1) < unat (cpa_buf pa)"
    using assms(1) by (simp add: block_area_def unat_minus_one unat_gt_0)
  ultimately show False using unat_block_at [OF assms(1), of i] assms(2) by simp
qed

text \<open>No run of the requested length means that the abstract search fails, and conversely.\<close>

lemma take_run_None:
  "take_run bs k ps = None \<longleftrightarrow>
    \<not> (\<exists>xs q run ys. ps = xs @ (q # run) @ ys \<and> length run = k \<and> is_run bs q run)"
proof
  show "take_run bs k ps = None \<Longrightarrow>
    \<not> (\<exists>xs q run ys. ps = xs @ (q # run) @ ys \<and> length run = k \<and> is_run bs q run)"
  proof (induction ps)
    case Nil
    then show ?case by simp
  next
    case (Cons p ps)
    then have no: "\<not> (k \<le> length ps \<and> is_run bs p (take k ps))" "take_run bs k ps = None"
      by (auto split: if_splits)
    show ?case
    proof clarify
      fix xs q run ys
      assume a: "p # ps = xs @ (q # run) @ ys" "k = length run" "is_run bs q run"
      show False
      proof (cases xs)
        case Nil
        with a no(1) show ?thesis by simp
      next
        case (Cons x zs)
        with a Cons.IH [OF no(2)] show ?thesis by auto
      qed
    qed
  qed
next
  assume no: "\<not> (\<exists>xs q run ys. ps = xs @ (q # run) @ ys \<and> length run = k \<and> is_run bs q run)"
  show "take_run bs k ps = None"
  proof (rule ccontr)
    assume "take_run bs k ps \<noteq> None"
    then obtain q rest where "take_run bs k ps = Some (q, rest)" by fastforce
    from take_run_split [OF this] no show False by blast
  qed
qed

subsection \<open>The two ways of a reallocation\<close>

lemma cpa_find_block_found:
  "chain load32 m lp (xs @ c # ys) \<Longrightarrow> c \<notin> set xs \<Longrightarrow>
    cpa_find_block m c prev lp = Some (Some (if xs = [] then prev else last xs))"
proof (induction xs arbitrary: lp prev)
  case Nil
  then show ?case by (subst cpa_find_block.simps) auto
next
  case (Cons x xs)
  then show ?case by (subst cpa_find_block.simps) auto
qed

lemma cpa_find_block_absent:
  "chain load32 m lp ps \<Longrightarrow> c \<notin> set ps \<Longrightarrow> cpa_find_block m c prev lp = Some None"
proof (induction ps arbitrary: lp prev)
  case Nil
  then show ?case by (subst cpa_find_block.simps) simp
next
  case (Cons x ps)
  then show ?case by (subst cpa_find_block.simps) auto
qed

text \<open>The free list that the in-place branch leaves behind.\<close>

definition grown_list :: "addr list \<Rightarrow> addr \<Rightarrow> addr list \<Rightarrow> addr list" where
  "grown_list xs c ys = (if xs \<noteq> [] then last xs # ys else if ys \<noteq> [] then ys else [c])"

lemma cpa_grow_in_place_spec:
  assumes inv: "cpa_links (m, pa) (xs @ c # ys)"
  shows "\<exists>m' nx. cpa_grow_in_place (m, pa) c (if xs = [] then NULL else last xs) =
      Some (m', pa\<lparr>cpa_nextFreeBlock := nx, cpa_numFreeBlocks := cpa_numFreeBlocks pa - 1\<rparr>) \<and>
    chain load32 m' nx (grown_list xs c ys) \<and> dom m' = dom m \<and>
    (\<forall>x. x \<in> (\<Union>p\<in>set (xs @ c # ys). extent p 4) \<or> m' x = m x)"
proof -
  note d = cpa_linksD [OF inv, simplified]
  obtain r where r: "load32 m c = Some r" "chain load32 m r ys" "c \<noteq> NULL"
    using d(2) by (auto simp: chain_append)
  show ?thesis
  proof (cases xs rule: rev_cases)
    case Nil
    then have "cpa_nextFreeBlock pa = c" using d(2) by simp
    moreover have "r \<noteq> NULL \<longleftrightarrow> ys \<noteq> []" using r(2) by (cases ys) auto
    moreover have "pa\<lparr>cpa_numFreeBlocks := n\<rparr> =
        pa\<lparr>cpa_nextFreeBlock := cpa_nextFreeBlock pa, cpa_numFreeBlocks := n\<rparr>" for n by simp
    ultimately show ?thesis using Nil r
      by (cases "ys = []") (auto simp: cpa_grow_in_place_def grown_list_def)
  next
    case (snoc zs z)
    have z: "z \<in> set (cpa_blocks pa)" "z \<noteq> NULL"
      using d(4) snoc block_nonnull [OF d(1)] by (auto simp: cpa_blocks_def)
    then obtain m' where m': "store32 m z r = Some m'"
      using block_store [OF d(1)] by (auto simp: cpa_blocks_def)
    have "apart z b" if "b \<in> set ys" for b
      using that d(3,4) snoc z blocks_apart [OF d(1), of z b] by (auto simp: cpa_blocks_def)
    then have "chain load32 m' z (z # ys)" by (rule byte_heap.chain_push [OF m' z(2) r(2)])
    moreover have "x \<in> extent z 4 \<or> m' x = m x" for x using store32_frame [OF m'] by blast
    ultimately show ?thesis using snoc r z m' store32_dom [OF m']
      by (auto simp: cpa_grow_in_place_def grown_list_def)
  qed
qed

lemma region_cells_disjoint:
  assumes area: "block_area m (cpa_buf pa) (cpa_blockSize pa) N" and i: "i + n \<le> N"
    and ps: "set ps \<subseteq> set (blocks (cpa_buf pa) (cpa_blockSize pa) N)" "set ps \<inter> set (run_of pa i n) = {}"
    and x: "x \<in> region pa i n"
  shows "x \<notin> (\<Union>p\<in>set ps. extent p 4)"
proof
  assume "x \<in> (\<Union>p\<in>set ps. extent p 4)"
  then obtain p where p: "p \<in> set ps" "x \<in> extent p 4" by blast
  then obtain j where j: "j < N" "p = block_at (cpa_buf pa) (cpa_blockSize pa) j"
    using ps(1) by (auto simp: set_blocks)
  have "j \<notin> {i..<i + n}" using p(1) j(2) ps(2) by (auto simp: set_run_of)
  moreover have "extent p 4 \<subseteq> region pa j 1" using region_cells [OF area, of j 1 j] j by simp
  moreover have "region pa i n \<inter> region pa j 1 = {}" if "i + n \<le> j \<or> j + 1 \<le> i"
    using that i j(1) by (intro region_disjoint [OF area]) auto
  ultimately show False using p(2) x by force
qed

text \<open>
  The moving branch: the content is copied, the old run goes back to the free list, and the
  count of free blocks is decremented twice.
\<close>

lemma cpa_move_spec:
  assumes inv: "cpa_inv s ps" and b: "0 < n" "i + n \<le> unat (cpa_size (snd s)) div unat (cpa_blockSize (snd s))"
    and dj: "set ps \<inter> set (run_of (snd s) i n) = {}"
    and new: "n \<le> unat new" and avail: "take_run (cpa_blockSize (snd s)) (unat new - 1) ps \<noteq> None"
  shows "\<exists>s' j xs ys.
     cpa_move s (block_at (cpa_buf (snd s)) (cpa_blockSize (snd s)) i) (of_nat n) new =
       Some (s', of_nat (j * unat (cpa_blockSize (snd s)))) \<and>
     ps = xs @ run_of (snd s) j (unat new) @ ys \<and>
     j + unat new \<le> unat (cpa_size (snd s)) div unat (cpa_blockSize (snd s)) \<and>
     cpa_links s' (put_run (cpa_blockSize (snd s)) (run_of (snd s) i n) (xs @ ys)) \<and>
     load_bytes (fst s') (block_at (cpa_buf (snd s)) (cpa_blockSize (snd s)) j) (n * unat (cpa_blockSize (snd s))) =
       load_bytes (fst s) (block_at (cpa_buf (snd s)) (cpa_blockSize (snd s)) i) (n * unat (cpa_blockSize (snd s))) \<and>
     cpa_numFreeBlocks (snd s') = cpa_numFreeBlocks (snd s) - 2 * (new - of_nat n) \<and>
     cpa_buf (snd s') = cpa_buf (snd s) \<and> dom (fst s') = dom (fst s) \<and>
     cpa_blockSize (snd s') = cpa_blockSize (snd s) \<and>
     no_run_before (cpa_blockSize (snd s)) (unat new - 1) ps (length xs)"
proof -
  let ?pa = "snd s" let ?bs = "cpa_blockSize ?pa" let ?b = "block_at (cpa_buf ?pa) ?bs"
  let ?N = "unat (cpa_size ?pa) div unat ?bs"
  have new0: "new \<noteq> 0" using b(1) new by auto
  note d = cpa_invD [OF inv]
  obtain s1 j xs ys where a: "consecutivePoolAllocate s new = Some (s1, of_nat (j * unat ?bs))"
    "ps = xs @ run_of ?pa j (unat new) @ ys" "j + unat new \<le> ?N"
    "cpa_inv s1 (xs @ ys)" "cpa_buf (snd s1) = cpa_buf ?pa" "cpa_blockSize (snd s1) = ?bs"
    "cpa_size (snd s1) = cpa_size ?pa" "dom (fst s1) = dom (fst s)"
    "\<And>x. x \<notin> (\<Union>p\<in>set (xs @ ys). extent p 4) \<Longrightarrow> fst s1 x = fst s x"
    "no_run_before ?bs (unat new - 1) ps (length xs)"
    using cpa_allocate_cases [OF inv new0] avail by metis
  obtain m1 pa1 where s1: "s1 = (m1, pa1)" by (cases s1)
  note geo = a(5-7) [unfolded s1 snd_conv]
  have run_eq: "run_of pa1 i n = run_of ?pa i n" "region pa1 i n = region ?pa i n" for i n
    using geo by (simp_all add: run_of_def region_def)
  note d1 = cpa_invD [OF a(4), unfolded s1 fst_conv snd_conv geo]
  have sz: "unat ((of_nat n :: u32) * ?bs) = n * unat ?bs"
  proof -
    have "n * unat ?bs \<le> ?N * unat ?bs" using b(2) by (intro mult_le_mono1) simp
    then have "n * unat ?bs < 2 ^ 32" using d(1) unfolding block_area_def by linarith
    moreover have "n < 2 ^ 32" using b(2) block_count_bound [OF d(1)] by linarith
    ultimately show ?thesis by (simp add: unat_word_ariths unat_of_nat_u32)
  qed
  have xy: "set (xs @ ys) \<subseteq> set (blocks (cpa_buf ?pa) ?bs ?N)"
    "set (xs @ ys) \<inter> set (run_of ?pa i n) = {}" "set (xs @ ys) \<inter> set (run_of ?pa j (unat new)) = {}"
    using a(2) d(3,4) dj by (auto simp: cpa_blocks_def)
  have apart_ij: "i + n \<le> j \<or> j + unat new \<le> i"
  proof (rule ccontr)
    assume "\<not> ?thesis"
    then have "max i j \<in> {i..<i + n}" "max i j \<in> {j..<j + unat new}" using b(1) new by auto
    then have "?b (max i j) \<in> set (run_of ?pa i n) \<inter> set (run_of ?pa j (unat new))"
      by (simp add: set_run_of)
    then show False using dj a(2) by auto
  qed
  have rdj: "region ?pa i n \<inter> region ?pa j (unat new) = {}"
    using b(2) a(3) apart_ij by (rule region_disjoint [OF d(1)])
  obtain content where c: "load_bytes (fst s) (?b i) (n * unat ?bs) = Some content"
    using load_bytes_defined region_mapped [OF d(1) b(2)] unfolding region_def by blast
  have c1: "load_bytes m1 (?b i) (n * unat ?bs) = Some content"
    using c load_bytes_frame [of "?b i" "n * unat ?bs" m1 "fst s"] a(9) s1
      region_cells_disjoint [OF d(1) b(2) xy(1,2)] by (simp add: region_def)
  have len: "length content = n * unat ?bs" using c by (rule load_bytes_length)
  have sub: "extent (?b j) (length content) \<subseteq> region ?pa j (unat new)"
    unfolding region_def len using new by (intro extent_mono mult_le_mono1)
  then have "extent (?b j) (length content) \<subseteq> dom m1"
    using region_mapped [OF d(1) a(3)] a(8) s1 by auto
  then obtain m2 where m2: "store_bytes m1 (?b j) content = Some m2"
    using store_bytes_defined by blast
  have f2: "m2 x = m1 x" if "x \<notin> region ?pa j (unat new)" for x
    using that sub store_bytes_frame [OF m2] by blast
  let ?pa2 = "pa1\<lparr>cpa_numFreeBlocks := cpa_numFreeBlocks pa1 - (new - of_nat n)\<rparr>"
  have "load32 m2 p = load32 m1 p" if "p \<in> set (xs @ ys)" for p
    using that f2 region_cells_disjoint [OF d(1) a(3) xy(1,3)] by (intro load32_frame) blast
  then have ch2: "chain load32 m2 (cpa_nextFreeBlock pa1) (xs @ ys)"
    using d1(2) by (simp add: chain_def cong: path_cong)
  have links2: "cpa_links (m2, ?pa2) (xs @ ys)"
    using ch2 d1(1,3,4) store_bytes_dom [OF m2] geo
    by (simp add: cpa_links_def cpa_area_def cpa_blocks_def block_area_def)
  have run2: "run_of ?pa2 i n = run_of ?pa i n" using geo by (simp add: run_of_def)
  from cpa_free_links [OF links2 b(1), of i] b(2) xy(2) geo run2 obtain m3 nx where
    f: "consecutivePoolFree (m2, ?pa2) (?b i) (of_nat n) =
      Some (m3, ?pa2\<lparr>cpa_nextFreeBlock := nx, cpa_numFreeBlocks := cpa_numFreeBlocks ?pa2 + of_nat n\<rparr>)"
    "chain load32 m3 nx (put_run ?bs (run_of ?pa i n) (xs @ ys))" "dom m3 = dom m2"
    "\<And>x. x \<notin> (\<Union>p\<in>set (xs @ ys) \<union> set (run_of ?pa i n). extent p 4) \<Longrightarrow> m3 x = m2 x"
    by auto
  let ?s' = "(m3, ?pa2\<lparr>cpa_nextFreeBlock := nx, cpa_numFreeBlocks := cpa_numFreeBlocks ?pa2 + of_nat n\<rparr>)"
  have mv: "cpa_move s (?b i) (of_nat n) new = Some (?s', of_nat (j * unat ?bs))"
    using a(1) s1 geo c1 m2 f(1) sz offset_not_error [OF d(1), of j] a(3) new b(1)
      block_at_offset [of ?pa j]
    by (simp add: cpa_move_def del: of_nat_mult)
  have "load_bytes m3 (?b j) (n * unat ?bs) = load_bytes m2 (?b j) (n * unat ?bs)"
  proof (rule load_bytes_frame, rule f(4))
    fix x assume "x \<in> extent (?b j) (n * unat ?bs)"
    then have xj: "x \<in> region ?pa j (unat new)" using sub len by auto
    then have "x \<notin> (\<Union>p\<in>set (xs @ ys). extent p 4)"
      by (rule region_cells_disjoint [OF d(1) a(3) xy(1,3)])
    moreover have "x \<notin> (\<Union>p\<in>set (run_of ?pa i n). extent p 4)"
      using region_cells [OF d(1) b(2)] xj rdj by (fastforce simp: set_run_of)
    ultimately show "x \<notin> (\<Union>p\<in>set (xs @ ys) \<union> set (run_of ?pa i n). extent p 4)" by auto
  qed
  moreover have "load_bytes m2 (?b j) (n * unat ?bs) = Some content"
  proof -
    have "length content \<le> 2 ^ 32"
      using sz unat_lt_u32 [of "of_nat n * ?bs"] len by simp
    then show ?thesis using load_store_bytes_same [OF m2] len by simp
  qed
  moreover have "cpa_links ?s' (put_run ?bs (run_of ?pa i n) (xs @ ys))"
    using f(2,3) d1(1,3,4) geo store_bytes_dom [OF m2] xy(2) distinct_run_of [OF d(1) b(2)]
      run_of_blocks [OF b(2), of ?pa]
    by (auto simp: cpa_links_def cpa_area_def cpa_blocks_def block_area_def put_run_set
        intro!: put_run_distinct)
  moreover have "cpa_numFreeBlocks (snd ?s') = cpa_numFreeBlocks ?pa - 2 * (new - of_nat n)"
  proof -
    have "cpa_numFreeBlocks pa1 = of_nat (length (xs @ ys))" using d1(5) .
    moreover have "cpa_numFreeBlocks ?pa = of_nat (length (xs @ ys)) + new"
      using d(5) a(2) by simp
    ultimately show ?thesis by (simp add: algebra_simps)
  qed
  moreover have "cpa_buf (snd ?s') = cpa_buf ?pa" "dom (fst ?s') = dom (fst s)"
    "cpa_blockSize (snd ?s') = ?bs" using geo f(3) store_bytes_dom [OF m2] a(8) s1 by simp_all
  ultimately show ?thesis using mv a(2,3,10) c by (intro exI [of _ ?s'] exI [of _ j] exI [of _ xs] exI [of _ ys]) simp
qed

lemma block_at_add:
  "block_at buf bs i + bs * of_nat n = block_at buf bs (i + n)"
  by (simp add: block_at_def algebra_simps)

lemma cpa_realloc_far:
  assumes inv: "cpa_inv s ps"
    and far: "\<not> new - of_nat n < 2 \<or> block_at (cpa_buf (snd s)) (cpa_blockSize (snd s)) (i + n) \<notin> set ps"
  shows "consecutivePoolReAllocate s (block_at (cpa_buf (snd s)) (cpa_blockSize (snd s)) i) (of_nat n) new =
     cpa_move s (block_at (cpa_buf (snd s)) (cpa_blockSize (snd s)) i) (of_nat n) new"
proof -
  have "cpa_find_block (fst s) c NULL (cpa_nextFreeBlock (snd s)) = Some None" if "c \<notin> set ps" for c
    using that by (rule cpa_find_block_absent [OF cpa_invD(2) [OF inv]])
  then show ?thesis
    using far unfolding consecutivePoolReAllocate_def by (simp add: split_beta Let_def block_at_add)
qed

lemma cpa_realloc_near:
  assumes inv: "cpa_inv s (xs @ c # ys)" and new: "new - n < 2"
    and c: "c = currentMem + cpa_blockSize (snd s) * n"
  shows "\<exists>m' nx. consecutivePoolReAllocate s currentMem n new =
      Some ((m', (snd s)\<lparr>cpa_nextFreeBlock := nx, cpa_numFreeBlocks := cpa_numFreeBlocks (snd s) - 1\<rparr>),
        currentMem - cpa_buf (snd s)) \<and>
     chain load32 m' nx (grown_list xs c ys) \<and> dom m' = dom (fst s) \<and>
     (\<forall>x. x \<in> (\<Union>p\<in>set (xs @ c # ys). extent p 4) \<or> m' x = fst s x)"
proof -
  obtain m pa where s: "s = (m, pa)" by (cases s)
  note d = cpa_invD [OF inv]
  have l: "cpa_links (m, pa) (xs @ c # ys)" using inv s by (simp add: cpa_inv_def)
  from cpa_grow_in_place_spec [OF l] obtain m' nx where
    g: "cpa_grow_in_place (m, pa) c (if xs = [] then NULL else last xs) =
      Some (m', pa\<lparr>cpa_nextFreeBlock := nx, cpa_numFreeBlocks := cpa_numFreeBlocks pa - 1\<rparr>)"
    "chain load32 m' nx (grown_list xs c ys)" "dom m' = dom m"
    "\<forall>x. x \<in> (\<Union>p\<in>set (xs @ c # ys). extent p 4) \<or> m' x = m x" by blast
  have "cpa_find_block m c NULL (cpa_nextFreeBlock pa) = Some (Some (if xs = [] then NULL else last xs))"
    using d(2,3) s by (intro cpa_find_block_found) auto
  then have "consecutivePoolReAllocate s currentMem n new =
      Some ((m', pa\<lparr>cpa_nextFreeBlock := nx, cpa_numFreeBlocks := cpa_numFreeBlocks pa - 1\<rparr>), currentMem - cpa_buf pa)"
    using g(1) new c s by (simp add: consecutivePoolReAllocate_def)
  with g(2-4) s show ?thesis by (intro exI [of _ m'] exI [of _ nx]) simp
qed

subsection \<open>Properties\<close>

lemma cpa_inv_create:
  assumes "block_area m b bs n" "0 < n" "unat s = n * unat bs"
  shows "\<exists>m' pa. createConsecutivePoolAllocator m b bs s = Some (m', pa) \<and>
     cpa_inv (m', pa) (blocks b bs n) \<and> cpa_buf pa = b \<and> cpa_blockSize pa = bs \<and> cpa_size pa = s \<and>
     (\<forall>x. x \<notin> extent b (unat s) \<longrightarrow> m' x = m x)"
proof -
  from pool_inv_create [OF assms] obtain m' pa where
    c: "createPoolAllocator m b bs s = Some (m', pa)" "pool_inv (m', pa) (blocks b bs n)"
    "\<And>x. x \<notin> extent b (unat s) \<Longrightarrow> m' x = m x" by blast
  let ?pa = "\<lparr>cpa_buf = b, cpa_nextFreeBlock = b, cpa_blockSize = bs, cpa_size = s,
    cpa_numFreeBlocks = s div bs\<rparr>"
  from c(1) have pa: "pa = \<lparr>pa_buf = b, pa_nextFreeBlock = b, pa_blockSize = bs, pa_size = s\<rparr>"
    and cr: "createConsecutivePoolAllocator m b bs s = Some (m', ?pa)"
    by (auto simp: createPoolAllocator_def createConsecutivePoolAllocator_def bind_Some_iff split: if_splits)
  have "0 < unat bs" using block_area_pos [OF assms(1)] by simp
  then have "s div bs = of_nat n" using assms(3)
    by (metis nonzero_mult_div_cancel_right not_less0 unat_div unat_of_nat_self)
  then have "cpa_inv (m', ?pa) (blocks b bs n)"
    using c(2) by (simp add: pa pool_inv.simps pool_blocks_def cpa_inv_def cpa_links_def cpa_area_def
        cpa_blocks_def blocks_def)
  then show ?thesis using cr c(3) by auto
qed

lemma take_run_fits: "is_run bs q run \<Longrightarrow> take_run bs (length run) ((q # run) @ ys) = Some (q, ys)"
  by simp

text \<open>A pool of four blocks of 16 bytes at address 4096, and the same pool with two blocks taken.\<close>

lemma cpa_example:
  obtains s where "createConsecutivePoolAllocator (zero_mem 4096 64) 4096 16 64 = Some s"
    "cpa_inv s [4096, 4112, 4128, 4144]" "cpa_buf (snd s) = 4096" "cpa_blockSize (snd s) = 16"
    "cpa_size (snd s) = 64"
proof -
  have "block_area (zero_mem 4096 64) 4096 16 4"
    using zero_mem_span [of 4096 64] by (simp add: block_area_def)
  moreover have "blocks 4096 16 4 = [4096, 4112, 4128, 4144]"
    by (simp add: blocks_def block_at_def upt_rec)
  ultimately show ?thesis using that cpa_inv_create [of "zero_mem 4096 64" 4096 16 4 64] by auto
qed

lemma cpa_example_taken:
  obtains s1 where "cpa_inv s1 [4128, 4144]" "cpa_buf (snd s1) = 4096" "cpa_blockSize (snd s1) = 16"
    "cpa_size (snd s1) = 64"
proof -
  obtain s where s: "cpa_inv s [4096, 4112, 4128, 4144]" "cpa_buf (snd s) = 4096"
    "cpa_blockSize (snd s) = 16" "cpa_size (snd s) = 64" by (rule cpa_example)
  have "take_run 16 1 [4096, 4112, 4128, 4144] = Some (4096, [4128, 4144])" by code_simp
  with cpa_allocate_spec [OF s(1), of 2] s(2-4) that show ?thesis by fastforce
qed

text \<open>C2: consecutivePoolAllocate is first fit on the free list: it succeeds exactly when n blocks
  that follow each other in memory also follow each other in the list, takes the first such run
  out of the list and returns its offset; otherwise it returns -1 and changes nothing.\<close>

theorem cpa_allocate_first_fit:
  assumes "cpa_inv s ps" "n \<noteq> 0"
  shows "if \<exists>xs q run ys. ps = xs @ (q # run) @ ys \<and> length run = unat n - 1 \<and>
            is_run (cpa_blockSize (snd s)) q run
     then \<exists>s' q run xs ys. consecutivePoolAllocate s n = Some (s', q - cpa_buf (snd s)) \<and>
            ps = xs @ (q # run) @ ys \<and> length run = unat n - 1 \<and>
            is_run (cpa_blockSize (snd s)) q run \<and> cpa_inv s' (xs @ ys) \<and>
            take_run (cpa_blockSize (snd s)) (unat n - 1) ps = Some (q, xs @ ys)
     else consecutivePoolAllocate s n = Some (s, -1)"
proof (cases "take_run (cpa_blockSize (snd s)) (unat n - 1) ps")
  case None
  then have "\<not> (\<exists>xs q run ys. ps = xs @ (q # run) @ ys \<and> length run = unat n - 1 \<and>
      is_run (cpa_blockSize (snd s)) q run)"
    by (rule take_run_None [THEN iffD1])
  moreover have "consecutivePoolAllocate s n = Some (s, -1)"
    using cpa_allocate_spec [OF assms] unfolding None option.case .
  ultimately show ?thesis by (simp only: if_False)
next
  case (Some qr)
  then obtain q rest where qr: "take_run (cpa_blockSize (snd s)) (unat n - 1) ps = Some (q, rest)"
    by (cases qr) auto
  from take_run_split [OF qr] obtain xs run ys where
    sp: "ps = xs @ (q # run) @ ys" "length run = unat n - 1"
      "is_run (cpa_blockSize (snd s)) q run" "rest = xs @ ys" by blast
  moreover obtain s' where "consecutivePoolAllocate s n = Some (s', q - cpa_buf (snd s))" "cpa_inv s' rest"
    using cpa_allocate_spec [OF assms] unfolding qr option.case prod.case by blast
  ultimately have "\<exists>s' q run xs ys. consecutivePoolAllocate s n = Some (s', q - cpa_buf (snd s)) \<and>
      ps = xs @ (q # run) @ ys \<and> length run = unat n - 1 \<and>
      is_run (cpa_blockSize (snd s)) q run \<and> cpa_inv s' (xs @ ys) \<and>
      take_run (cpa_blockSize (snd s)) (unat n - 1) ps = Some (q, xs @ ys)"
    using qr by blast
  then show ?thesis using sp by (meson)
qed

text \<open>C3: consecutivePoolFree puts a run of n blocks that are not free back: behind the free block
  that ends where the run begins, or in front of the list, so the free blocks become exactly the
  old ones and those of the run, once each, and the count grows by n.\<close>

theorem cpa_free_returns_run:
  assumes "cpa_inv s ps" "0 < n" "i + n \<le> unat (cpa_size (snd s)) div unat (cpa_blockSize (snd s))"
    and "set ps \<inter> set (run_of (snd s) i n) = {}"
  shows "\<exists>s' ps'. consecutivePoolFree s (block_at (cpa_buf (snd s)) (cpa_blockSize (snd s)) i) (of_nat n) = Some s' \<and>
     cpa_inv s' ps' \<and> ps' = put_run (cpa_blockSize (snd s)) (run_of (snd s) i n) ps \<and>
     set ps' = set ps \<union> set (run_of (snd s) i n) \<and> length ps' = length ps + n"
  using cpa_free_spec [OF assms] by (auto simp: put_run_set put_run_length)

text \<open>C4: an allocation followed by the release of the same blocks restores the pool: the same
  blocks are free again and the same number of them.\<close>

theorem cpa_allocate_free_restores:
  assumes inv: "cpa_inv s ps" and n: "n \<noteq> 0"
    and alloc: "consecutivePoolAllocate s n = Some (s1, off)" "off \<noteq> -1"
  shows "\<exists>s2 ps2. consecutivePoolFree s1 (getCPAptrFromOffset (snd s1) off) n = Some s2 \<and>
     cpa_inv s2 ps2 \<and> set ps2 = set ps \<and> cpa_numFreeBlocks (snd s2) = cpa_numFreeBlocks (snd s)"
proof -
  obtain i xs ys where t: "off = of_nat (i * unat (cpa_blockSize (snd s)))"
    "ps = xs @ run_of (snd s) i (unat n) @ ys"
    "i + unat n \<le> unat (cpa_size (snd s)) div unat (cpa_blockSize (snd s))"
    "cpa_inv s1 (xs @ ys)" "cpa_buf (snd s1) = cpa_buf (snd s)"
    "cpa_blockSize (snd s1) = cpa_blockSize (snd s)" "cpa_size (snd s1) = cpa_size (snd s)"
    using cpa_allocate_cases [OF inv n] alloc by (metis option.inject prod.inject)
  note d = cpa_invD [OF inv]
  have run: "run_of (snd s1) i (unat n) = run_of (snd s) i (unat n)" using t by (simp add: run_of_def)
  have "set (xs @ ys) \<inter> set (run_of (snd s1) i (unat n)) = {}" using d(3) t(2) run by auto
  moreover have "0 < unat n" using n by (simp add: unat_gt_0)
  ultimately obtain s2 ps2 where
    f: "consecutivePoolFree s1 (block_at (cpa_buf (snd s1)) (cpa_blockSize (snd s1)) i) (of_nat (unat n)) = Some s2"
    "cpa_inv s2 ps2" "set ps2 = set (xs @ ys) \<union> set (run_of (snd s1) i (unat n))"
    "length ps2 = length (xs @ ys) + unat n"
    using cpa_free_spec [OF t(4), of "unat n" i] t(3,6,7) by (auto simp: put_run_set put_run_length)
  have "getCPAptrFromOffset (snd s1) off = block_at (cpa_buf (snd s1)) (cpa_blockSize (snd s1)) i"
    using t(1,6) by (simp add: getCPAptrFromOffset_def block_at_def)
  moreover have "cpa_numFreeBlocks (snd s2) = cpa_numFreeBlocks (snd s)"
    using cpa_invD(5) [OF f(2)] f(4) d(5) t(2) by simp
  ultimately show ?thesis using f t(2) run by auto
qed

lemma cpa_allocate_first_fit_witness:
  "\<exists>s s'. createConsecutivePoolAllocator (zero_mem 4096 64) 4096 16 64 = Some s \<and>
     consecutivePoolAllocate s 2 = Some (s', 0) \<and> cpa_inv s' [4128, 4144]"
proof -
  obtain s where s: "createConsecutivePoolAllocator (zero_mem 4096 64) 4096 16 64 = Some s"
    "cpa_inv s [4096, 4112, 4128, 4144]" "cpa_buf (snd s) = 4096" "cpa_blockSize (snd s) = 16"
    by (rule cpa_example)
  have "\<exists>xs q run ys. [4096, 4112, 4128, 4144] = xs @ (q # run) @ ys \<and> length run = unat (2 :: u32) - 1 \<and>
      is_run (cpa_blockSize (snd s)) q run"
    by (rule exI [of _ "[]"], rule exI [of _ 4096], rule exI [of _ "[4112]"],
        rule exI [of _ "[4128, 4144]"]) (simp add: s)
  moreover have "take_run 16 1 [4096, 4112, 4128, 4144] = Some (4096, [4128, 4144])" by code_simp
  ultimately obtain s' where "consecutivePoolAllocate s 2 = Some (s', 0)" "cpa_inv s' [4128, 4144]"
    using cpa_allocate_first_fit [OF s(2), of 2] s(3,4) by (auto simp del: take_run.simps)
  with s(1) show ?thesis by blast
qed

lemma cpa_free_returns_run_witness:
  "\<exists>s s' ps'. cpa_inv s [4128, 4144] \<and> consecutivePoolFree s 4096 2 = Some s' \<and> cpa_inv s' ps' \<and>
     set ps' = {4096, 4112, 4128, 4144} \<and> length ps' = 4"
proof -
  obtain s1 where s1: "cpa_inv s1 [4128, 4144]" "cpa_buf (snd s1) = 4096"
    "cpa_blockSize (snd s1) = 16" "cpa_size (snd s1) = 64" by (rule cpa_example_taken)
  have "run_of (snd s1) 0 2 = [4096, 4112]" by (simp add: run_of_def s1 block_at_def upt_rec)
  then obtain s' ps' where "consecutivePoolFree s1 4096 2 = Some s'" "cpa_inv s' ps'"
    "set ps' = {4096, 4112, 4128, 4144}" "length ps' = 4"
    using cpa_free_returns_run [OF s1(1), of 2 0] s1(2-4) by (auto simp: block_at_def)
  with s1(1) show ?thesis by blast
qed

lemma cpa_allocate_free_restores_witness:
  "\<exists>s s1 s2 ps2. createConsecutivePoolAllocator (zero_mem 4096 64) 4096 16 64 = Some s \<and>
     consecutivePoolAllocate s 3 = Some (s1, 0) \<and>
     consecutivePoolFree s1 (getCPAptrFromOffset (snd s1) 0) 3 = Some s2 \<and> cpa_inv s2 ps2 \<and>
     set ps2 = {4096, 4112, 4128, 4144} \<and> cpa_numFreeBlocks (snd s2) = cpa_numFreeBlocks (snd s)"
proof -
  obtain s where s: "createConsecutivePoolAllocator (zero_mem 4096 64) 4096 16 64 = Some s"
    "cpa_inv s [4096, 4112, 4128, 4144]" "cpa_buf (snd s) = 4096" "cpa_blockSize (snd s) = 16"
    by (rule cpa_example)
  have "take_run 16 2 [4096, 4112, 4128, 4144] = Some (4096, [4144])" by code_simp
  then obtain s1 where s1: "consecutivePoolAllocate s 3 = Some (s1, 0)"
    using cpa_allocate_spec [OF s(2), of 3] s(3,4) by auto
  from cpa_allocate_free_restores [OF s(2) _ s1] obtain s2 ps2 where
    "consecutivePoolFree s1 (getCPAptrFromOffset (snd s1) 0) 3 = Some s2" "cpa_inv s2 ps2"
    "set ps2 = {4096, 4112, 4128, 4144}" "cpa_numFreeBlocks (snd s2) = cpa_numFreeBlocks (snd s)" by auto
  with s(1) s1 show ?thesis by blast
qed

lemma grown_list_sub:
  assumes "distinct (xs @ c # ys)"
  shows "distinct (grown_list xs c ys)" "set (grown_list xs c ys) \<subseteq> set (xs @ c # ys)"
proof -
  have "last xs \<in> set xs" if "xs \<noteq> []" using that by simp
  then show "distinct (grown_list xs c ys)" "set (grown_list xs c ys) \<subseteq> set (xs @ c # ys)"
    using assms by (auto simp: grown_list_def disjoint_iff)
qed

text \<open>C6: consecutivePoolReAllocate by at most one block, when the block behind the run is free: the
  run keeps its offset and the count falls by one, but the free list that remains is
  grown_list: everything in front of the predecessor of the taken block is dropped from it, and
  a taken block that was the only free one stays in it.  The pool invariant survives exactly when
  the taken block was second in the list, or first with another one behind it.\<close>

theorem cpa_realloc_in_place:
  assumes inv: "cpa_inv s (xs @ c # ys)" and new: "new - n < 2"
    and c: "c = currentMem + cpa_blockSize (snd s) * n"
  shows "\<exists>s'. consecutivePoolReAllocate s currentMem n new = Some (s', currentMem - cpa_buf (snd s)) \<and>
     chain load32 (fst s') (cpa_nextFreeBlock (snd s')) (grown_list xs c ys) \<and>
     cpa_numFreeBlocks (snd s') = of_nat (length xs + length ys) \<and>
     (cpa_inv s' (grown_list xs c ys) \<longleftrightarrow> length xs = 1 \<or> xs = [] \<and> ys \<noteq> [])"
proof -
  obtain m pa where s: "s = (m, pa)" by (cases s)
  note d = cpa_invD [OF inv]
  from cpa_realloc_near [OF inv new c] obtain m' nx where
    g: "consecutivePoolReAllocate s currentMem n new = Some ((m', pa\<lparr>cpa_nextFreeBlock := nx,
        cpa_numFreeBlocks := cpa_numFreeBlocks pa - 1\<rparr>), currentMem - cpa_buf pa)"
    "chain load32 m' nx (grown_list xs c ys)" "dom m' = dom m" unfolding s fst_conv snd_conv by blast
  let ?pa' = "pa\<lparr>cpa_nextFreeBlock := nx, cpa_numFreeBlocks := cpa_numFreeBlocks pa - 1\<rparr>"
  have num: "cpa_numFreeBlocks ?pa' = of_nat (length xs + length ys)"
    using d(5) s by simp
  have "length (xs @ c # ys) = card (set (xs @ c # ys))" using d(3) by (simp only: distinct_card)
  also have "\<dots> \<le> card (set (cpa_blocks pa))" using d(4) s by (intro card_mono) auto
  also have "\<dots> \<le> unat (cpa_size pa) div unat (cpa_blockSize pa)"
    using card_length [of "cpa_blocks pa"] by (simp add: cpa_blocks_def blocks_def)
  finally have bound': "length (xs @ c # ys) < 2 ^ 32"
    using block_count_bound [OF d(1)] s by simp
  have sub: "cpa_links (m', ?pa') (grown_list xs c ys)"
    using g(2,3) d(1,4) s grown_list_sub [OF d(3)]
    by (auto simp: cpa_links_def cpa_area_def cpa_blocks_def block_area_def)
  have "(of_nat (length xs + length ys) :: u32) = of_nat (length (grown_list xs c ys)) \<longleftrightarrow>
      length xs + length ys = length (grown_list xs c ys)"
    using bound' by (intro of_nat_u32_inject) (auto simp: grown_list_def split: if_splits)
  then have "cpa_inv (m', ?pa') (grown_list xs c ys) \<longleftrightarrow> length xs = 1 \<or> xs = [] \<and> ys \<noteq> []"
    using sub num unfolding cpa_inv_def by (auto simp: grown_list_def length_Suc_conv)
  with g(1,2) num s show ?thesis by auto
qed

lemma cpa_realloc_in_place_witness:
  "\<exists>s s'. cpa_inv s [4112] \<and> consecutivePoolReAllocate s 4096 1 2 = Some (s', 0) \<and>
     chain load32 (fst s') (cpa_nextFreeBlock (snd s')) [4112] \<and> cpa_numFreeBlocks (snd s') = 0 \<and>
     \<not> cpa_inv s' [4112]"
proof -
  have "block_area (zero_mem 4096 32) 4096 16 2"
    using zero_mem_span [of 4096 32] by (simp add: block_area_def)
  then obtain s0 where s0: "cpa_inv s0 [4096, 4112]" "cpa_buf (snd s0) = 4096" "cpa_blockSize (snd s0) = 16"
    using cpa_inv_create [of "zero_mem 4096 32" 4096 16 2 32]
    by (auto simp: blocks_def block_at_def upt_rec)
  have "take_run 16 0 [4096, 4112] = Some (4096, [4112])" by code_simp
  then obtain s where s: "cpa_inv s [4112]" "cpa_buf (snd s) = 4096" "cpa_blockSize (snd s) = 16"
    using cpa_allocate_spec [OF s0(1), of 1] s0(2,3) by auto
  have "cpa_inv s ([] @ 4112 # [])" "2 - 1 < (2 :: u32)" "4112 = 4096 + cpa_blockSize (snd s) * 1"
    using s by simp_all
  from cpa_realloc_in_place [OF this] obtain s' where
    "consecutivePoolReAllocate s 4096 1 2 = Some (s', 4096 - cpa_buf (snd s))"
    "chain load32 (fst s') (cpa_nextFreeBlock (snd s')) (grown_list [] 4112 [])"
    "cpa_numFreeBlocks (snd s') = of_nat (length ([] :: addr list) + length ([] :: addr list))"
    "cpa_inv s' (grown_list [] 4112 []) \<longleftrightarrow> length ([] :: addr list) = 1 \<or>
      ([] :: addr list) = [] \<and> ([] :: addr list) \<noteq> []" by blast
  moreover have "grown_list [] 4112 [] = [4112]" by (simp add: grown_list_def)
  ultimately have "consecutivePoolReAllocate s 4096 1 2 = Some (s', 0)"
    "chain load32 (fst s') (cpa_nextFreeBlock (snd s')) [4112]" "cpa_numFreeBlocks (snd s') = 0"
    "\<not> cpa_inv s' [4112]" using s(2) by simp_all
  with s(1) show ?thesis by blast
qed

text \<open>C5: consecutivePoolReAllocate when the block behind the run is not free, or for two or more
  blocks more: the content is copied to the first free run that is long enough, the old run
  goes back to the free list, and the list stays well formed; but the count of free blocks is
  decremented twice by the growth.\<close>

theorem cpa_realloc_moves:
  assumes inv: "cpa_inv s ps" and n: "0 < n" "i + n \<le> unat (cpa_size (snd s)) div unat (cpa_blockSize (snd s))"
    and held: "set ps \<inter> set (run_of (snd s) i n) = {}" and new: "n \<le> unat new"
    and far: "\<not> new - of_nat n < 2 \<or> block_at (cpa_buf (snd s)) (cpa_blockSize (snd s)) (i + n) \<notin> set ps"
    and avail: "take_run (cpa_blockSize (snd s)) (unat new - 1) ps \<noteq> None"
  shows "\<exists>s' j xs ys.
     consecutivePoolReAllocate s (block_at (cpa_buf (snd s)) (cpa_blockSize (snd s)) i) (of_nat n) new =
       Some (s', of_nat (j * unat (cpa_blockSize (snd s)))) \<and>
     ps = xs @ run_of (snd s) j (unat new) @ ys \<and>
     no_run_before (cpa_blockSize (snd s)) (unat new - 1) ps (length xs) \<and>
     j + unat new \<le> unat (cpa_size (snd s)) div unat (cpa_blockSize (snd s)) \<and>
     cpa_links s' (put_run (cpa_blockSize (snd s)) (run_of (snd s) i n) (xs @ ys)) \<and>
     load_bytes (fst s') (block_at (cpa_buf (snd s)) (cpa_blockSize (snd s)) j) (n * unat (cpa_blockSize (snd s))) =
       load_bytes (fst s) (block_at (cpa_buf (snd s)) (cpa_blockSize (snd s)) i) (n * unat (cpa_blockSize (snd s))) \<and>
     cpa_numFreeBlocks (snd s') = cpa_numFreeBlocks (snd s) - 2 * (new - of_nat n)"
  unfolding cpa_realloc_far [OF inv far] using cpa_move_spec [OF inv n held new avail] by blast

lemma cpa_realloc_moves_witness:
  "\<exists>s s' j. cpa_inv s [4112, 4128, 4144] \<and> cpa_numFreeBlocks (snd s) = 3 \<and>
     consecutivePoolReAllocate s 4096 1 3 = Some (s', of_nat (j * 16)) \<and>
     cpa_links s' [4096] \<and> cpa_numFreeBlocks (snd s') = - 1"
proof -
  obtain s0 where s0: "cpa_inv s0 [4096, 4112, 4128, 4144]" "cpa_buf (snd s0) = 4096"
    "cpa_blockSize (snd s0) = 16" "cpa_size (snd s0) = 64" by (rule cpa_example)
  have "take_run 16 0 [4096, 4112, 4128, 4144] = Some (4096, [4112, 4128, 4144])" by code_simp
  with cpa_allocate_spec [OF s0(1), of 1] s0(2-4) obtain s where
    s: "cpa_inv s [4112, 4128, 4144]" "cpa_buf (snd s) = 4096" "cpa_blockSize (snd s) = 16"
    "cpa_size (snd s) = 64" by fastforce
  have t: "take_run 16 2 [4112, 4128, 4144] = Some (4112, [])" by code_simp
  have r: "run_of (snd s) 0 1 = [4096]" by (simp add: run_of_def s block_at_def)
  from cpa_realloc_moves [OF s(1), of 1 0 3] s(2-4) t r obtain s' j xs ys where
    m: "consecutivePoolReAllocate s 4096 1 3 = Some (s', of_nat (j * 16))"
    "[4112, 4128, 4144] = xs @ run_of (snd s) j 3 @ ys"
    "cpa_links s' (put_run 16 [4096] (xs @ ys))" "cpa_numFreeBlocks (snd s') = cpa_numFreeBlocks (snd s) - 2 * 2"
    by (auto simp: block_at_def)
  have "length (xs @ ys) = 0" using arg_cong [OF m(2), of length] by simp
  then have "put_run 16 [4096] (xs @ ys) = [4096]" by (simp add: put_run.simps)
  moreover have "cpa_numFreeBlocks (snd s) = 3" using cpa_invD(5) [OF s(1)] by simp
  ultimately show ?thesis using s(1) m by (intro exI [of _ s] exI [of _ s'] exI [of _ j]) simp
qed

end
