(* ===== verification/Control_List.thy ===== *)
theory Control_List
  imports Consecutive_Alloc Complex_Main
begin

text \<open>
  driver/ControlListUtil.c and \<open>clFit\<close> of driver/common.c: the control lists a command buffer is
  recorded into.  A \<open>ControlList\<close> is a window of blocks of a consecutive pool; the emitters append
  hardware packets byte by byte at its write position and do not check for space, \<open>clFit\<close> makes
  the space.  The \<open>CPA\<close> pointer of the C structure is the pool state that the operations take and
  return; all lists of a command buffer lie in the same pool.  A \<open>float\<close> that is only copied is its
  bit pattern; a \<open>float\<close> that is converted is its rational value.
\<close>

unbundle bit_operations_syntax

record ControlListAddress =
  cla_handle :: u32
  cla_offset :: u32

record ControlList =
  cl_offset :: u32
  cl_numBlocks :: u32
  cl_blockSize :: u32
  cl_nextFreeByteOffset :: u32
  cl_currMarkerOffset :: u32

type_synonym cl_state = "cpa_state \<times> ControlList"

subsection \<open>Space\<close>

definition divRoundUp :: "u32 \<Rightarrow> u32 \<Rightarrow> u32 option" where
  "divRoundUp n d = (if d = 0 then None else Some ((n + d - 1) div d))"

text \<open>
  A shift by 32, which \<open>clInsertShaderRecord\<close> asks for, is undefined in C; here it gives 0, as
  the shift instruction of the ARM target does.
\<close>

definition moveBits :: "u32 \<Rightarrow> nat \<Rightarrow> nat \<Rightarrow> u32" where
  "moveBits d bits offset = push_bit offset d AND push_bit offset (NOT (push_bit bits (NOT 0)))"

definition clHasEnoughSpace :: "ControlList \<Rightarrow> u32 \<Rightarrow> bool" where
  "clHasEnoughSpace cl sz = (let currSize = cl_nextFreeByteOffset cl - cl_offset cl in
     currSize + sz \<le> cl_numBlocks cl * cl_blockSize cl)"

definition clInit :: "u32 \<Rightarrow> u32 \<Rightarrow> ControlList" where
  "clInit offset blockSize = \<lparr>cl_offset = offset, cl_numBlocks = 1, cl_blockSize = blockSize,
     cl_nextFreeByteOffset = offset, cl_currMarkerOffset = -1\<rparr>"

definition clFit :: "cl_state \<Rightarrow> u32 \<Rightarrow> cl_state option" where
  "clFit \<sigma> commandSize = (let (s, cl) = \<sigma>; pa = snd s in
     if clHasEnoughSpace cl commandSize then Some (s, cl)
     else if cpa_blockSize pa = 0 then None
     else do {
       let currSize = cl_nextFreeByteOffset cl - cl_offset cl;
       let currMarkerOffset = cl_currMarkerOffset cl - cl_offset cl;
       let newNumBlocks = (currSize + commandSize) div cpa_blockSize pa + 1;
       (s', newOffset) \<leftarrow> consecutivePoolReAllocate s (getCPAptrFromOffset pa (cl_offset cl))
         (cl_numBlocks cl) newNumBlocks;
       Some (s', cl\<lparr>cl_offset := newOffset, cl_nextFreeByteOffset := newOffset + currSize,
         cl_numBlocks := newNumBlocks,
         cl_currMarkerOffset := (if cl_currMarkerOffset cl = U32_MAX then U32_MAX
           else newOffset + currMarkerOffset)\<rparr>) })"

subsection \<open>Writing packets\<close>

text \<open>One \<open>memcpy\<close> to the write position, and the step of the write position after it.\<close>

definition cl_put :: "u8 list \<Rightarrow> u32 \<Rightarrow> cl_state \<Rightarrow> cl_state option" where
  "cl_put bs step \<sigma> = (let (s, cl) = \<sigma> in do {
     m' \<leftarrow> store_bytes (fst s) (getCPAptrFromOffset (snd s) (cl_nextFreeByteOffset cl)) bs;
     Some ((m', snd s), cl\<lparr>cl_nextFreeByteOffset := cl_nextFreeByteOffset cl + step\<rparr>) })"

text \<open>A sequence of such writes, each followed by a step of its own length.\<close>

fun cl_puts :: "u8 list list \<Rightarrow> cl_state \<Rightarrow> cl_state option" where
  "cl_puts [] \<sigma> = Some \<sigma>"
| "cl_puts (bs # bss) \<sigma> = do { \<sigma>' \<leftarrow> cl_put bs (of_nat (length bs)) \<sigma>; cl_puts bss \<sigma>' }"

definition clInsertData :: "u32 \<Rightarrow> addr \<Rightarrow> cl_state \<Rightarrow> cl_state option" where
  "clInsertData sz data \<sigma> = do {
     bs \<leftarrow> load_bytes (fst (fst \<sigma>)) data (unat sz);
     cl_put bs sz \<sigma> }"

definition clInsertUniformConstant :: "u32 \<Rightarrow> cl_state \<Rightarrow> cl_state option" where
  "clInsertUniformConstant data = cl_puts [bytes32 data]"

definition clInsertUniformXYScale :: "u32 \<Rightarrow> cl_state \<Rightarrow> cl_state option" where
  "clInsertUniformXYScale data = cl_puts [bytes32 data]"

definition clInsertUniformZOffset :: "u32 \<Rightarrow> cl_state \<Rightarrow> cl_state option" where
  "clInsertUniformZOffset data = cl_puts [bytes32 data]"

definition clInsertHalt :: "cl_state \<Rightarrow> cl_state option" where
  "clInsertHalt = cl_puts [[0]]"

definition clInsertNop :: "cl_state \<Rightarrow> cl_state option" where
  "clInsertNop = cl_puts [[1]]"

definition clInsertFlush :: "cl_state \<Rightarrow> cl_state option" where
  "clInsertFlush = cl_puts [[4]]"

definition clInsertFlushAllState :: "cl_state \<Rightarrow> cl_state option" where
  "clInsertFlushAllState = cl_puts [[5]]"

definition clInsertStartTileBinning :: "cl_state \<Rightarrow> cl_state option" where
  "clInsertStartTileBinning = cl_puts [[6]]"

definition clInsertIncrementSemaphore :: "cl_state \<Rightarrow> cl_state option" where
  "clInsertIncrementSemaphore = cl_puts [[7]]"

definition clInsertWaitOnSemaphore :: "cl_state \<Rightarrow> cl_state option" where
  "clInsertWaitOnSemaphore = cl_puts [[8]]"

definition clInsertBranch :: "ControlListAddress \<Rightarrow> cl_state \<Rightarrow> cl_state option" where
  "clInsertBranch address = cl_puts [[16], bytes32 (cla_offset address)]"

definition clInsertBranchToSubList :: "ControlListAddress \<Rightarrow> cl_state \<Rightarrow> cl_state option" where
  "clInsertBranchToSubList address = cl_puts [[17], bytes32 (cla_offset address)]"

definition clInsertReturnFromSubList :: "cl_state \<Rightarrow> cl_state option" where
  "clInsertReturnFromSubList = cl_puts [[18]]"

definition clInsertIndexedPrimitiveList ::
  "u32 \<Rightarrow> u32 \<Rightarrow> u32 \<Rightarrow> u32 \<Rightarrow> u32 \<Rightarrow> cl_state \<Rightarrow> cl_state option" where
  "clInsertIndexedPrimitiveList maxIndex indicesAddress len indexType primitiveMode =
     cl_puts [[32], [ucast (moveBits indexType 4 4 OR moveBits primitiveMode 4 0)],
       bytes32 len, bytes32 indicesAddress, bytes32 maxIndex]"

definition clInsertVertexArrayPrimitives :: "u32 \<Rightarrow> u32 \<Rightarrow> u32 \<Rightarrow> cl_state \<Rightarrow> cl_state option" where
  "clInsertVertexArrayPrimitives firstVertexIndex len primitiveMode =
     cl_puts [[33], [ucast (moveBits primitiveMode 8 0)], bytes32 len, bytes32 firstVertexIndex]"

definition clInsertShaderState :: "u32 \<Rightarrow> u32 \<Rightarrow> u32 \<Rightarrow> cl_state \<Rightarrow> cl_state option" where
  "clInsertShaderState address extendedShaderRecord numberOfAttributeArrays =
     cl_puts [[64], bytes32 (moveBits address 28 4 OR moveBits extendedShaderRecord 1 3 OR
       moveBits numberOfAttributeArrays 3 0)]"

text \<open>
  The configuration packet writes its 24 bits as a 32-bit word: four bytes, but a step of three.
\<close>

definition configuration_word ::
  "u32 \<Rightarrow> u32 \<Rightarrow> u32 \<Rightarrow> u32 \<Rightarrow> u32 \<Rightarrow> u32 \<Rightarrow> u32 \<Rightarrow> u32 \<Rightarrow> u32 \<Rightarrow> u32 \<Rightarrow> u32 \<Rightarrow> u32 \<Rightarrow> u32 \<Rightarrow> u32" where
  "configuration_word earlyZUpdatesEnable earlyZEnable zUpdatesEnable depthTestFunction
     coverageReadMode coveragePipeSelect coverageUpdateMode coverageReadType
     rasterizerOversampleMode enableDepthOffset clockwisePrimitives
     enableReverseFacingPrimitive enableForwardFacingPrimitive =
     moveBits enableForwardFacingPrimitive 1 0 OR
     moveBits enableReverseFacingPrimitive 1 1 OR
     moveBits clockwisePrimitives 1 2 OR
     moveBits enableDepthOffset 1 3 OR
     moveBits coverageReadType 1 5 OR
     moveBits rasterizerOversampleMode 2 6 OR
     moveBits coveragePipeSelect 1 8 OR
     moveBits coverageUpdateMode 2 9 OR
     moveBits coverageReadMode 1 11 OR
     moveBits depthTestFunction 3 12 OR
     moveBits zUpdatesEnable 1 15 OR
     moveBits earlyZEnable 1 16 OR
     moveBits earlyZUpdatesEnable 1 17"

definition clInsertConfigurationBits ::
  "u32 \<Rightarrow> u32 \<Rightarrow> u32 \<Rightarrow> u32 \<Rightarrow> u32 \<Rightarrow> u32 \<Rightarrow> u32 \<Rightarrow> u32 \<Rightarrow> u32 \<Rightarrow> u32 \<Rightarrow> u32 \<Rightarrow> u32 \<Rightarrow> u32 \<Rightarrow>
    cl_state \<Rightarrow> cl_state option" where
  "clInsertConfigurationBits earlyZUpdatesEnable earlyZEnable zUpdatesEnable depthTestFunction
     coverageReadMode coveragePipeSelect coverageUpdateMode coverageReadType
     rasterizerOversampleMode enableDepthOffset clockwisePrimitives
     enableReverseFacingPrimitive enableForwardFacingPrimitive \<sigma> = do {
     \<sigma>' \<leftarrow> cl_put [96] 1 \<sigma>;
     cl_put (bytes32 (configuration_word earlyZUpdatesEnable earlyZEnable zUpdatesEnable depthTestFunction
       coverageReadMode coveragePipeSelect coverageUpdateMode coverageReadType
       rasterizerOversampleMode enableDepthOffset clockwisePrimitives
       enableReverseFacingPrimitive enableForwardFacingPrimitive)) 3 \<sigma>' }"

definition clInsertFlatShadeFlags :: "u32 \<Rightarrow> cl_state \<Rightarrow> cl_state option" where
  "clInsertFlatShadeFlags flags = cl_puts [[97], bytes32 flags]"

definition clInsertPointSize :: "u32 \<Rightarrow> cl_state \<Rightarrow> cl_state option" where
  "clInsertPointSize sz = cl_puts [[98], bytes32 sz]"

definition clInsertLineWidth :: "u32 \<Rightarrow> cl_state \<Rightarrow> cl_state option" where
  "clInsertLineWidth width = cl_puts [[99], bytes32 width]"

definition clInsertRHTXBoundary :: "u32 \<Rightarrow> cl_state \<Rightarrow> cl_state option" where
  "clInsertRHTXBoundary boundary = cl_puts [[100], bytes16 (ucast (moveBits boundary 16 0))]"

definition f32_to_f187 :: "u32 \<Rightarrow> u32" where
  "f32_to_f187 bits = drop_bit 16 bits"

definition clInsertDepthOffset :: "u32 \<Rightarrow> u32 \<Rightarrow> cl_state \<Rightarrow> cl_state option" where
  "clInsertDepthOffset units factor = cl_puts [[101],
     bytes32 (moveBits (f32_to_f187 factor) 16 0 OR moveBits (f32_to_f187 units) 16 16)]"

definition clInsertClipWindow :: "u32 \<Rightarrow> u32 \<Rightarrow> u32 \<Rightarrow> u32 \<Rightarrow> cl_state \<Rightarrow> cl_state option" where
  "clInsertClipWindow width height bottomPixelCoord leftPixelCoord = cl_puts [[102],
     bytes32 (moveBits leftPixelCoord 16 0 OR moveBits bottomPixelCoord 16 16),
     bytes32 (moveBits width 16 0 OR moveBits height 16 16)]"

text \<open>
  \<open>roundf\<close> rounds halves away from zero; the product with \<open>16.0f\<close> is exact, and the conversion to
  \<open>int32_t\<close> is undefined outside its range.
\<close>

definition roundf :: "rat \<Rightarrow> int" where
  "roundf x = (if x < 0 then - \<lfloor>1 / 2 - x\<rfloor> else \<lfloor>x + 1 / 2\<rfloor>)"

definition get16bitSignedFixedNumber :: "rat \<Rightarrow> u16 option" where
  "get16bitSignedFixedNumber x = (let integerPart = roundf (x * 16) in
     if - (2 ^ 31) \<le> integerPart \<and> integerPart < 2 ^ 31
     then Some (ucast ((word_of_int integerPart :: u32) AND 0xffff)) else None)"

definition clInsertViewPortOffset :: "rat \<Rightarrow> rat \<Rightarrow> cl_state \<Rightarrow> cl_state option" where
  "clInsertViewPortOffset x y \<sigma> = do {
     \<sigma>1 \<leftarrow> cl_puts [[103]] \<sigma>;
     fx \<leftarrow> get16bitSignedFixedNumber x;
     \<sigma>2 \<leftarrow> cl_puts [bytes16 fx] \<sigma>1;
     fy \<leftarrow> get16bitSignedFixedNumber y;
     cl_puts [bytes16 fy] \<sigma>2 }"

definition clInsertZMinMaxClippingPlanes :: "u32 \<Rightarrow> u32 \<Rightarrow> cl_state \<Rightarrow> cl_state option" where
  "clInsertZMinMaxClippingPlanes minZw maxZw = cl_puts [[104], bytes32 minZw, bytes32 maxZw]"

definition clInsertClipperXYScaling :: "u32 \<Rightarrow> u32 \<Rightarrow> cl_state \<Rightarrow> cl_state option" where
  "clInsertClipperXYScaling width height = cl_puts [[105], bytes32 width, bytes32 height]"

definition clInsertClipperZScaleOffset :: "u32 \<Rightarrow> u32 \<Rightarrow> cl_state \<Rightarrow> cl_state option" where
  "clInsertClipperZScaleOffset zOffset zScale = cl_puts [[106], bytes32 zScale, bytes32 zOffset]"

definition clInsertTileBinningModeConfiguration ::
  "u32 \<Rightarrow> u32 \<Rightarrow> u32 \<Rightarrow> u32 \<Rightarrow> u32 \<Rightarrow> u32 \<Rightarrow> u32 \<Rightarrow> u32 \<Rightarrow> u32 \<Rightarrow> u32 \<Rightarrow> u32 \<Rightarrow> cl_state \<Rightarrow> cl_state option" where
  "clInsertTileBinningModeConfiguration doubleBufferInNonMsMode tileAllocationBlockSize
     tileAllocationInitialBlockSize autoInitializeTileStateDataArray tileBuffer64BitColorDepth
     multisampleMode4x widthInPixels heightInPixels tileStateDataArrayAddress
     tileAllocationMemorySize tileAllocationMemoryAddress \<sigma> = do {
     \<sigma>1 \<leftarrow> cl_puts [[112], bytes32 tileAllocationMemoryAddress, bytes32 tileAllocationMemorySize,
       bytes32 tileStateDataArrayAddress] \<sigma>;
     let tileSizeW = (if multisampleMode4x \<noteq> 0 then 32 else 64);
     let tileSizeH0 = (if multisampleMode4x \<noteq> 0 then 32 else 64);
     let tileSizeH = (if tileBuffer64BitColorDepth \<noteq> 0 then drop_bit 1 tileSizeH0 else tileSizeH0);
     widthInTiles \<leftarrow> divRoundUp widthInPixels tileSizeW;
     heightInTiles \<leftarrow> divRoundUp heightInPixels tileSizeH;
     cl_puts [[ucast widthInTiles], [ucast heightInTiles],
       [ucast (moveBits multisampleMode4x 1 0 OR moveBits tileBuffer64BitColorDepth 1 1 OR
         moveBits autoInitializeTileStateDataArray 1 2 OR moveBits tileAllocationInitialBlockSize 2 3 OR
         moveBits tileAllocationBlockSize 2 5 OR moveBits doubleBufferInNonMsMode 1 7)]] \<sigma>1 }"

definition clInsertGEMRelocations :: "u32 \<Rightarrow> u32 \<Rightarrow> cl_state \<Rightarrow> cl_state option" where
  "clInsertGEMRelocations buffer0 buffer1 = cl_puts [[254], bytes32 buffer0, bytes32 buffer1]"

subsection \<open>Buffer handles and relocations\<close>

text \<open>The search among the \<open>k\<close> handles at \<open>base\<close> from index \<open>c\<close> on.\<close>

fun find_handle :: "mem \<Rightarrow> addr \<Rightarrow> u32 \<Rightarrow> u32 \<Rightarrow> nat \<Rightarrow> u32 option option" where
  "find_handle m base handle c 0 = Some None"
| "find_handle m base handle c (Suc k) = do {
     h \<leftarrow> load32 m (base + 4 * c);
     if h = handle then Some (Some c) else find_handle m base handle (c + 1) k }"

definition clGetHandleIndex :: "u32 \<Rightarrow> u32 \<Rightarrow> u32 \<Rightarrow> cl_state \<Rightarrow> (cl_state \<times> u32) option" where
  "clGetHandleIndex handlesOffset handlesSize handle \<sigma> = (let (s, handlesCl) = \<sigma>;
     numHandles = (if handlesSize \<noteq> 0 then handlesSize
                   else cl_nextFreeByteOffset handlesCl - handlesOffset) div 4
   in do {
     r \<leftarrow> find_handle (fst s) (getCPAptrFromOffset (snd s) handlesOffset) handle 0 (unat numHandles);
     case r of
       Some c \<Rightarrow> Some (\<sigma>, c)
     | None \<Rightarrow> do { \<sigma>' \<leftarrow> cl_put (bytes32 handle) 4 \<sigma>; Some (\<sigma>', numHandles) } })"

text \<open>The state of the operations on three lists: the list written, its relocations, the handles.\<close>

type_synonym cl3_state = "cpa_state \<times> ControlList \<times> ControlList \<times> ControlList"

definition clEmitShaderRelocation ::
  "u32 \<Rightarrow> u32 \<Rightarrow> ControlListAddress \<Rightarrow> cl3_state \<Rightarrow> cl3_state option" where
  "clEmitShaderRelocation handlesOffset handlesSize address \<sigma> = (let (s, cls, relocCl, handlesCl) = \<sigma> in do {
     ((s1, handlesCl'), idx) \<leftarrow> clGetHandleIndex handlesOffset handlesSize (cla_handle address) (s, handlesCl);
     (s2, relocCl') \<leftarrow> cl_put (bytes32 idx) 4 (s1, relocCl);
     Some (s2, cls, relocCl', handlesCl') })"

text \<open>Writes to the first of the three lists.\<close>

definition cls_put :: "u8 list \<Rightarrow> u32 \<Rightarrow> cl3_state \<Rightarrow> cl3_state option" where
  "cls_put bs step \<sigma> = (let (s, cls, relocCl, handlesCl) = \<sigma> in do {
     (s', cls') \<leftarrow> cl_put bs step (s, cls);
     Some (s', cls', relocCl, handlesCl) })"

definition cls_byte :: "cl3_state \<Rightarrow> u8 option" where
  "cls_byte \<sigma> = (let (s, cls, relocCl, handlesCl) = \<sigma> in
     fst s (getCPAptrFromOffset (snd s) (cl_nextFreeByteOffset cls)))"

text \<open>
  The second byte of the 16-bit uniform count is read back and combined with the varyings; the
  vertex uniforms address takes part in the code address word and its own word is skipped.
\<close>

definition clInsertShaderRecord ::
  "u32 \<Rightarrow> u32 \<Rightarrow> u32 \<Rightarrow> u32 \<Rightarrow> u32 \<Rightarrow> u32 \<Rightarrow> u32 \<Rightarrow> u32 \<Rightarrow> ControlListAddress \<Rightarrow>
   u32 \<Rightarrow> u32 \<Rightarrow> u32 \<Rightarrow> u32 \<Rightarrow> ControlListAddress \<Rightarrow>
   u32 \<Rightarrow> u32 \<Rightarrow> u32 \<Rightarrow> u32 \<Rightarrow> ControlListAddress \<Rightarrow> cl3_state \<Rightarrow> cl3_state option" where
  "clInsertShaderRecord handlesOffset handlesSize
     fragmentShaderIsSingleThreaded pointSizeIncludedInShadedVertexData enableClipping
     fragmentNumberOfUsedUniforms fragmentNumberOfVaryings fragmentUniformsAddress fragmentCodeAddress
     vertexNumberOfUsedUniforms vertexAttributeArraySelectBits vertexTotalAttributesSize
     vertexUniformsAddress vertexCodeAddress
     coordinateNumberOfUsedUniforms coordinateAttributeArraySelectBits coordinateTotalAttributesSize
     coordinateUniformsAddress coordinateCodeAddress \<sigma> = do {
     \<sigma> \<leftarrow> cls_put [ucast (moveBits fragmentShaderIsSingleThreaded 1 0 OR
         moveBits pointSizeIncludedInShadedVertexData 1 1 OR moveBits enableClipping 1 2)] 1 \<sigma>;
     \<sigma> \<leftarrow> cls_put [0] 1 \<sigma>;
     \<sigma> \<leftarrow> cls_put (bytes16 (ucast (moveBits fragmentNumberOfUsedUniforms 16 0))) 1 \<sigma>;
     tmp \<leftarrow> cls_byte \<sigma>;
     \<sigma> \<leftarrow> cls_put [tmp OR ucast fragmentNumberOfVaryings] 1 \<sigma>;
     \<sigma> \<leftarrow> clEmitShaderRelocation handlesOffset handlesSize fragmentCodeAddress \<sigma>;
     \<sigma> \<leftarrow> cls_put (bytes32 (cla_offset fragmentCodeAddress)) 4 \<sigma>;
     \<sigma> \<leftarrow> cls_put (bytes32 fragmentUniformsAddress) 4 \<sigma>;
     \<sigma> \<leftarrow> cls_put (bytes16 (ucast (moveBits vertexNumberOfUsedUniforms 16 0))) 2 \<sigma>;
     \<sigma> \<leftarrow> cls_put [ucast vertexAttributeArraySelectBits] 1 \<sigma>;
     \<sigma> \<leftarrow> cls_put [ucast vertexTotalAttributesSize] 1 \<sigma>;
     \<sigma> \<leftarrow> clEmitShaderRelocation handlesOffset handlesSize vertexCodeAddress \<sigma>;
     \<sigma> \<leftarrow> cls_put (bytes32 (moveBits (cla_offset vertexCodeAddress) 32 0 OR
         moveBits vertexUniformsAddress 32 0)) 4 \<sigma>;
     \<sigma> \<leftarrow> cls_put [] 4 \<sigma>;
     \<sigma> \<leftarrow> cls_put (bytes16 (ucast (moveBits coordinateNumberOfUsedUniforms 16 0))) 2 \<sigma>;
     \<sigma> \<leftarrow> cls_put [ucast coordinateAttributeArraySelectBits] 1 \<sigma>;
     \<sigma> \<leftarrow> cls_put [ucast coordinateTotalAttributesSize] 1 \<sigma>;
     \<sigma> \<leftarrow> clEmitShaderRelocation handlesOffset handlesSize coordinateCodeAddress \<sigma>;
     \<sigma> \<leftarrow> cls_put (bytes32 (cla_offset coordinateCodeAddress)) 4 \<sigma>;
     cls_put (bytes32 coordinateUniformsAddress) 4 \<sigma> }"

definition clInsertAttributeRecord ::
  "u32 \<Rightarrow> u32 \<Rightarrow> ControlListAddress \<Rightarrow> u32 \<Rightarrow> u32 \<Rightarrow> u32 \<Rightarrow> u32 \<Rightarrow> cl3_state \<Rightarrow> cl3_state option" where
  "clInsertAttributeRecord handlesOffset handlesSize address sizeBytes stride vertexVPMOffset
     coordinateVPMOffset \<sigma> = do {
     \<sigma> \<leftarrow> clEmitShaderRelocation handlesOffset handlesSize address \<sigma>;
     \<sigma> \<leftarrow> cls_put (bytes32 (cla_offset address)) 4 \<sigma>;
     \<sigma> \<leftarrow> cls_put [ucast (sizeBytes - 1)] 1 \<sigma>;
     \<sigma> \<leftarrow> cls_put [ucast stride] 1 \<sigma>;
     \<sigma> \<leftarrow> cls_put [ucast vertexVPMOffset] 1 \<sigma>;
     cls_put [ucast coordinateVPMOffset] 1 \<sigma> }"

subsection \<open>Markers\<close>

text \<open>
  A \<open>CLMarker\<close> is 41 words in the list itself; these are the byte offsets of its members and its
  size.
\<close>

definition CLMarker_memGuard :: u32 where "CLMarker_memGuard = 0"
definition CLMarker_nextMarkerOffset :: u32 where "CLMarker_nextMarkerOffset = 4"
definition CLMarker_size :: u32 where "CLMarker_size = 8"
definition CLMarker_handlesBufOffset :: u32 where "CLMarker_handlesBufOffset = 112"
definition CLMarker_handlesSize :: u32 where "CLMarker_handlesSize = 116"
definition CLMarker_shaderRecBufOffset :: u32 where "CLMarker_shaderRecBufOffset = 120"
definition CLMarker_shaderRecSize :: u32 where "CLMarker_shaderRecSize = 124"
definition CLMarker_shaderRecCount :: u32 where "CLMarker_shaderRecCount = 128"
definition CLMarker_uniformsBufOffset :: u32 where "CLMarker_uniformsBufOffset = 132"
definition CLMarker_uniformsSize :: u32 where "CLMarker_uniformsSize = 136"
definition sizeof_CLMarker :: u32 where "sizeof_CLMarker = 164"

text \<open>The state of the marker operations: the binning list, and the positions of the three others.\<close>

definition clCloseCurrentMarker ::
  "ControlList \<Rightarrow> ControlList \<Rightarrow> u32 \<Rightarrow> ControlList \<Rightarrow> cl_state \<Rightarrow> cl_state option" where
  "clCloseCurrentMarker handlesCL shaderRecCL shaderRecCount uniformsCL \<sigma> = (let ((m, pa), cl) = \<sigma>;
     p = getCPAptrFromOffset pa (cl_currMarkerOffset cl) in do {
     m \<leftarrow> store32 m (p + CLMarker_size)
       (cl_nextFreeByteOffset cl - (cl_currMarkerOffset cl + sizeof_CLMarker));
     hb \<leftarrow> load32 m (p + CLMarker_handlesBufOffset);
     m \<leftarrow> store32 m (p + CLMarker_handlesSize) (cl_nextFreeByteOffset handlesCL - (hb + cl_offset handlesCL));
     sb \<leftarrow> load32 m (p + CLMarker_shaderRecBufOffset);
     m \<leftarrow> store32 m (p + CLMarker_shaderRecSize)
       (cl_nextFreeByteOffset shaderRecCL - (sb + cl_offset shaderRecCL));
     ub \<leftarrow> load32 m (p + CLMarker_uniformsBufOffset);
     m \<leftarrow> store32 m (p + CLMarker_uniformsSize)
       (cl_nextFreeByteOffset uniformsCL - (ub + cl_offset uniformsCL));
     sc \<leftarrow> load32 m (p + CLMarker_shaderRecCount);
     m \<leftarrow> store32 m (p + CLMarker_shaderRecCount) (shaderRecCount - sc);
     Some ((m, pa), cl) })"

text \<open>The words of a marker that is zero but for the members given.\<close>

definition marker_words :: "u32 \<Rightarrow> u32 \<Rightarrow> u32 \<Rightarrow> u32 \<Rightarrow> u32 list" where
  "marker_words handlesBufOffset shaderRecBufOffset uniformsBufOffset shaderRecCount =
     (replicate 41 0)[0 := 0xDDDDDDDD, 1 := -1, 28 := handlesBufOffset, 30 := shaderRecBufOffset,
       33 := uniformsBufOffset, 32 := shaderRecCount]"

definition clInsertNewCLMarker ::
  "ControlList \<Rightarrow> ControlList \<Rightarrow> u32 \<Rightarrow> ControlList \<Rightarrow> cl_state \<Rightarrow> cl_state option" where
  "clInsertNewCLMarker handlesCL shaderRecCL shaderRecCount uniformsCL \<sigma> = (let ((m, pa), cl) = \<sigma>;
     p = getCPAptrFromOffset pa (cl_currMarkerOffset cl);
     first = (cl_currMarkerOffset cl = U32_MAX) in do {
     m \<leftarrow> (if first then Some m
          else do {
            sz \<leftarrow> load32 m (p + CLMarker_size);
            if sz = 0 then do {
              ((m', pa'), cl') \<leftarrow>
                clCloseCurrentMarker handlesCL shaderRecCL shaderRecCount uniformsCL ((m, pa), cl);
              Some m' }
            else Some m });
     ws \<leftarrow> (if first then Some (marker_words 0 0 0 0)
           else do {
             ho \<leftarrow> load32 m (p + CLMarker_handlesBufOffset); hs \<leftarrow> load32 m (p + CLMarker_handlesSize);
             so \<leftarrow> load32 m (p + CLMarker_shaderRecBufOffset); ss \<leftarrow> load32 m (p + CLMarker_shaderRecSize);
             uo \<leftarrow> load32 m (p + CLMarker_uniformsBufOffset); us \<leftarrow> load32 m (p + CLMarker_uniformsSize);
             sc \<leftarrow> load32 m (p + CLMarker_shaderRecCount);
             Some (marker_words (ho + hs) (so + ss) (uo + us) sc) });
     m \<leftarrow> store_bytes m (getCPAptrFromOffset pa (cl_nextFreeByteOffset cl)) (concat (map bytes32 ws));
     m \<leftarrow> (if first then Some m
          else store32 m (p + CLMarker_nextMarkerOffset) (cl_nextFreeByteOffset cl - cl_offset cl));
     Some ((m, pa), cl\<lparr>cl_currMarkerOffset := cl_nextFreeByteOffset cl,
       cl_nextFreeByteOffset := cl_nextFreeByteOffset cl + sizeof_CLMarker\<rparr>) })"

subsection \<open>Control lists as byte sequences\<close>

definition cl_cap :: "ControlList \<Rightarrow> nat" where
  "cl_cap cl = unat (cl_numBlocks cl * cl_blockSize cl)"

definition cl_at :: "cl_state \<Rightarrow> u32 \<Rightarrow> addr" where
  "cl_at \<sigma> off = getCPAptrFromOffset (snd (fst \<sigma>)) off"

definition cl_wf :: "cl_state \<Rightarrow> bool" where
  "cl_wf \<sigma> \<longleftrightarrow> unat (cl_offset (snd \<sigma>)) \<le> unat (cl_nextFreeByteOffset (snd \<sigma>)) \<and>
     unat (cl_nextFreeByteOffset (snd \<sigma>)) \<le> unat (cl_offset (snd \<sigma>)) + cl_cap (snd \<sigma>) \<and>
     unat (cpa_buf (snd (fst \<sigma>))) + unat (cl_offset (snd \<sigma>)) + cl_cap (snd \<sigma>) < 2 ^ 32 \<and>
     extent (cl_at \<sigma> (cl_offset (snd \<sigma>))) (cl_cap (snd \<sigma>)) \<subseteq> dom (fst (fst \<sigma>))"

definition cl_room :: "cl_state \<Rightarrow> nat \<Rightarrow> bool" where
  "cl_room \<sigma> n \<longleftrightarrow> cl_wf \<sigma> \<and>
     unat (cl_nextFreeByteOffset (snd \<sigma>)) + n \<le> unat (cl_offset (snd \<sigma>)) + cl_cap (snd \<sigma>)"

text \<open>The bytes written so far.\<close>

definition cl_content :: "cl_state \<Rightarrow> u8 list option" where
  "cl_content \<sigma> = load_bytes (fst (fst \<sigma>)) (cl_at \<sigma> (cl_offset (snd \<sigma>)))
     (unat (cl_nextFreeByteOffset (snd \<sigma>)) - unat (cl_offset (snd \<sigma>)))"

text \<open>
  \<open>\<sigma>'\<close> is \<open>\<sigma>\<close> with \<open>bs\<close> appended, where at most the \<open>n\<close> bytes behind the write position changed.
\<close>

definition cl_after :: "nat \<Rightarrow> cl_state \<Rightarrow> u8 list \<Rightarrow> cl_state \<Rightarrow> bool" where
  "cl_after n \<sigma> bs \<sigma>' \<longleftrightarrow> snd (fst \<sigma>') = snd (fst \<sigma>) \<and>
     snd \<sigma>' = (snd \<sigma>)\<lparr>cl_nextFreeByteOffset := cl_nextFreeByteOffset (snd \<sigma>) + of_nat (length bs)\<rparr> \<and>
     dom (fst (fst \<sigma>')) = dom (fst (fst \<sigma>)) \<and>
     (\<forall>x. x \<in> extent (cl_at \<sigma> (cl_nextFreeByteOffset (snd \<sigma>))) n \<or> fst (fst \<sigma>') x = fst (fst \<sigma>) x) \<and>
     load_bytes (fst (fst \<sigma>')) (cl_at \<sigma> (cl_nextFreeByteOffset (snd \<sigma>))) (length bs) = Some bs"

lemma cl_room_mono: "cl_room \<sigma> n \<Longrightarrow> k \<le> n \<Longrightarrow> cl_room \<sigma> k"
  by (simp add: cl_room_def)

lemma cl_room_next:
  assumes "cl_room \<sigma> n" "k \<le> n"
  shows "unat (cl_nextFreeByteOffset (snd \<sigma>) + of_nat k) = unat (cl_nextFreeByteOffset (snd \<sigma>)) + k"
proof (rule unat_add_of_nat)
  show "unat (cl_nextFreeByteOffset (snd \<sigma>)) + k < 2 ^ 32"
    using assms unfolding cl_room_def cl_wf_def by linarith
qed

lemma cl_at_next:
  assumes "cl_wf \<sigma>"
  shows "cl_at \<sigma> (cl_nextFreeByteOffset (snd \<sigma>)) = cl_at \<sigma> (cl_offset (snd \<sigma>)) +
    of_nat (unat (cl_nextFreeByteOffset (snd \<sigma>)) - unat (cl_offset (snd \<sigma>)))"
  using assms by (simp add: cl_at_def getCPAptrFromOffset_def cl_wf_def of_nat_diff)

lemma cl_window:
  assumes "cl_room \<sigma> n"
  shows "extent (cl_at \<sigma> (cl_nextFreeByteOffset (snd \<sigma>))) n \<subseteq> dom (fst (fst \<sigma>))"
proof -
  let ?k = "unat (cl_nextFreeByteOffset (snd \<sigma>)) - unat (cl_offset (snd \<sigma>))"
  have wf: "cl_wf \<sigma>" using assms by (simp add: cl_room_def)
  have "extent (cl_at \<sigma> (cl_offset (snd \<sigma>))) (?k + n) \<subseteq> dom (fst (fst \<sigma>))"
    using assms extent_mono [of "?k + n" "cl_cap (snd \<sigma>)"] unfolding cl_room_def cl_wf_def by fastforce
  then show ?thesis unfolding cl_at_next [OF wf] extent_add by blast
qed

lemma cl_window_outside:
  assumes "cl_room \<sigma> n" "x \<in> extent (cl_at \<sigma> (cl_offset (snd \<sigma>)))
      (unat (cl_nextFreeByteOffset (snd \<sigma>)) - unat (cl_offset (snd \<sigma>)))"
  shows "x \<notin> extent (cl_at \<sigma> (cl_nextFreeByteOffset (snd \<sigma>))) n"
proof
  assume "x \<in> extent (cl_at \<sigma> (cl_nextFreeByteOffset (snd \<sigma>))) n"
  let ?k = "unat (cl_nextFreeByteOffset (snd \<sigma>)) - unat (cl_offset (snd \<sigma>))"
  have wf: "cl_wf \<sigma>" using assms by (simp add: cl_room_def)
  from assms(2) obtain i where i: "i < ?k" "x = cl_at \<sigma> (cl_offset (snd \<sigma>)) + of_nat i"
    by (auto simp: extent_def)
  from \<open>x \<in> extent (cl_at \<sigma> (cl_nextFreeByteOffset (snd \<sigma>))) n\<close> obtain j where
    j: "j < n" "x = cl_at \<sigma> (cl_offset (snd \<sigma>)) + of_nat (?k + j)"
    unfolding cl_at_next [OF wf] by (auto simp: extent_def algebra_simps)
  have "?k + j < 2 ^ 32" "i < 2 ^ 32" using assms(1) i(1) j(1) unfolding cl_room_def cl_wf_def by linarith+
  then have "i = ?k + j" using i(2) j(2) add_of_nat_inject by metis
  with i(1) show False by simp
qed

lemma cl_afterD:
  assumes "cl_after n \<sigma> bs \<sigma>'"
  shows "snd (fst \<sigma>') = snd (fst \<sigma>)"
    and "snd \<sigma>' = (snd \<sigma>)\<lparr>cl_nextFreeByteOffset := cl_nextFreeByteOffset (snd \<sigma>) + of_nat (length bs)\<rparr>"
    and "dom (fst (fst \<sigma>')) = dom (fst (fst \<sigma>))"
    and "x \<in> extent (cl_at \<sigma> (cl_nextFreeByteOffset (snd \<sigma>))) n \<or> fst (fst \<sigma>') x = fst (fst \<sigma>) x"
    and "load_bytes (fst (fst \<sigma>')) (cl_at \<sigma> (cl_nextFreeByteOffset (snd \<sigma>))) (length bs) = Some bs"
  using assms unfolding cl_after_def by blast+

lemma cl_after_next:
  "cl_after n \<sigma> bs \<sigma>' \<Longrightarrow> cl_at \<sigma>' off = cl_at \<sigma> off"
  "cl_after n \<sigma> bs \<sigma>' \<Longrightarrow> cl_offset (snd \<sigma>') = cl_offset (snd \<sigma>)"
  "cl_after n \<sigma> bs \<sigma>' \<Longrightarrow> cl_cap (snd \<sigma>') = cl_cap (snd \<sigma>)"
  "cl_after n \<sigma> bs \<sigma>' \<Longrightarrow> cl_nextFreeByteOffset (snd \<sigma>') = cl_nextFreeByteOffset (snd \<sigma>) + of_nat (length bs)"
  by (simp_all add: cl_after_def cl_at_def cl_cap_def)

lemma cl_after_room:
  assumes "cl_after n \<sigma> bs \<sigma>'" "cl_room \<sigma> (length bs + k)"
  shows "cl_room \<sigma>' k"
proof -
  have "unat (cl_nextFreeByteOffset (snd \<sigma>')) = unat (cl_nextFreeByteOffset (snd \<sigma>)) + length bs"
    using cl_room_next [OF assms(2), of "length bs"] cl_after_next(4) [OF assms(1)] by simp
  moreover have "dom (fst (fst \<sigma>')) = dom (fst (fst \<sigma>))" "snd (fst \<sigma>') = snd (fst \<sigma>)"
    using assms(1) by (simp_all add: cl_after_def)
  ultimately show ?thesis using assms(2) cl_after_next [OF assms(1)]
    by (auto simp: cl_room_def cl_wf_def)
qed

lemma cl_after_content:
  assumes "cl_after n \<sigma> bs \<sigma>'" "cl_room \<sigma> n" "length bs \<le> n"
  shows "cl_content \<sigma>' = map_option (\<lambda>xs. xs @ bs) (cl_content \<sigma>)"
proof -
  let ?k = "unat (cl_nextFreeByteOffset (snd \<sigma>)) - unat (cl_offset (snd \<sigma>))"
  let ?b = "cl_at \<sigma> (cl_offset (snd \<sigma>))"
  have wf: "cl_wf \<sigma>" using assms by (simp add: cl_room_def)
  have len: "unat (cl_nextFreeByteOffset (snd \<sigma>')) - unat (cl_offset (snd \<sigma>)) = ?k + length bs"
    using cl_room_next [OF assms(2,3)] cl_after_next [OF assms(1)] wf by (simp add: cl_wf_def)
  have "fst (fst \<sigma>') x = fst (fst \<sigma>) x" if "x \<in> extent ?b ?k" for x
    using assms(1) cl_window_outside [OF assms(2) that] unfolding cl_after_def by blast
  then have "load_bytes (fst (fst \<sigma>')) ?b ?k = load_bytes (fst (fst \<sigma>)) ?b ?k"
    by (rule load_bytes_frame)
  moreover have "load_bytes (fst (fst \<sigma>')) (?b + of_nat ?k) (length bs) = Some bs"
    using assms(1) cl_at_next [OF wf] by (simp add: cl_after_def)
  ultimately show ?thesis
    unfolding cl_content_def cl_after_next(1,2) [OF assms(1)] len load_bytes_add
    by (cases "load_bytes (fst (fst \<sigma>)) ?b ?k") simp_all
qed

lemma cl_put_after:
  assumes "cl_room \<sigma> (length bs)" "step = of_nat (length xs)" "bs = xs @ ys"
  shows "\<exists>\<sigma>'. cl_put bs step \<sigma> = Some \<sigma>' \<and> cl_after (length bs) \<sigma> xs \<sigma>'"
proof -
  obtain m pa cl where s: "\<sigma> = ((m, pa), cl)" by (metis prod.exhaust)
  let ?p = "getCPAptrFromOffset pa (cl_nextFreeByteOffset cl)"
  have at: "cl_at \<sigma> (cl_nextFreeByteOffset (snd \<sigma>)) = ?p" by (simp add: cl_at_def s)
  have "extent ?p (length bs) \<subseteq> dom m" using cl_window [OF assms(1)] by (simp add: s cl_at_def)
  then obtain m' where m': "store_bytes m ?p bs = Some m'" using store_bytes_defined by blast
  have "length bs < 2 ^ 32" using assms(1) unfolding cl_room_def cl_wf_def by linarith
  then have "load_bytes m' ?p (length (xs @ ys)) = Some (xs @ ys)"
    using load_store_bytes_same [OF m'] assms(3) by simp
  then have "load_bytes m' ?p (length xs) = Some xs" by (rule load_bytes_prefix)
  moreover have "x \<in> extent ?p (length bs) \<or> m' x = m x" for x using store_bytes_frame [OF m'] by blast
  ultimately have "cl_after (length bs) \<sigma> xs ((m', pa), cl\<lparr>cl_nextFreeByteOffset := cl_nextFreeByteOffset cl + step\<rparr>)"
    using store_bytes_dom [OF m'] assms(2) by (simp add: cl_after_def s cl_at_def)
  moreover have "cl_put bs step \<sigma> = Some ((m', pa), cl\<lparr>cl_nextFreeByteOffset := cl_nextFreeByteOffset cl + step\<rparr>)"
    using m' by (simp add: cl_put_def s)
  ultimately show ?thesis by blast
qed

lemma cl_after_refl: "cl_after 0 \<sigma> [] \<sigma>"
  by (simp add: cl_after_def)

lemma cl_after_trans:
  assumes a: "cl_after n \<sigma> xs \<sigma>1" and b: "cl_after k \<sigma>1 ys \<sigma>2"
    and l: "length xs \<le> n" "length ys \<le> k" and room: "cl_room \<sigma> (max n (length xs + k))"
  shows "cl_after (max n (length xs + k)) \<sigma> (xs @ ys) \<sigma>2"
proof -
  let ?p = "cl_at \<sigma> (cl_nextFreeByteOffset (snd \<sigma>))"
  let ?N = "max n (length xs + k)"
  have nxt: "cl_at \<sigma>1 (cl_nextFreeByteOffset (snd \<sigma>1)) = ?p + of_nat (length xs)"
    using cl_after_next(1,4) [OF a] by (simp add: cl_at_def getCPAptrFromOffset_def)
  have sub: "extent ?p n \<subseteq> extent ?p ?N" "extent (?p + of_nat (length xs)) k \<subseteq> extent ?p ?N"
    using extent_mono [of n ?N ?p] extent_mono [of "length xs + k" ?N ?p] extent_add [of ?p "length xs" k] by auto
  have frame: "x \<in> extent ?p ?N \<or> fst (fst \<sigma>2) x = fst (fst \<sigma>) x" for x
  proof -
    have "x \<in> extent ?p n \<or> fst (fst \<sigma>1) x = fst (fst \<sigma>) x" by (rule cl_afterD(4) [OF a])
    moreover have "x \<in> extent (?p + of_nat (length xs)) k \<or> fst (fst \<sigma>2) x = fst (fst \<sigma>1) x"
      using cl_afterD(4) [OF b] unfolding nxt .
    ultimately show ?thesis using sub by auto
  qed
  have apart: "extent ?p (length xs) \<inter> extent (?p + of_nat (length xs)) k = {}"
  proof (rule ccontr)
    assume "\<not> ?thesis"
    then obtain i j where "i < length xs" "j < k" "?p + of_nat i = ?p + of_nat (length xs + j)"
      by (auto simp: extent_def algebra_simps)
    moreover have "length xs + k < 2 ^ 32" using room unfolding cl_room_def cl_wf_def by linarith
    ultimately show False using add_of_nat_inject [of i "length xs + j" ?p] by simp
  qed
  have "fst (fst \<sigma>2) x = fst (fst \<sigma>1) x" if "x \<in> extent ?p (length xs)" for x
    using cl_afterD(4) [OF b, of x] that apart unfolding nxt by blast
  then have "load_bytes (fst (fst \<sigma>2)) ?p (length xs) = load_bytes (fst (fst \<sigma>1)) ?p (length xs)"
    by (rule load_bytes_frame)
  then have "load_bytes (fst (fst \<sigma>2)) ?p (length xs) = Some xs" using cl_afterD(5) [OF a] by simp
  moreover have "load_bytes (fst (fst \<sigma>2)) (?p + of_nat (length xs)) (length ys) = Some ys"
    using cl_afterD(5) [OF b] unfolding nxt .
  ultimately have "load_bytes (fst (fst \<sigma>2)) ?p (length (xs @ ys)) = Some (xs @ ys)"
    unfolding length_append load_bytes_add by simp
  moreover have "snd \<sigma>2 = (snd \<sigma>)\<lparr>cl_nextFreeByteOffset := cl_nextFreeByteOffset (snd \<sigma>) + of_nat (length (xs @ ys))\<rparr>"
    "snd (fst \<sigma>2) = snd (fst \<sigma>)" "dom (fst (fst \<sigma>2)) = dom (fst (fst \<sigma>))"
    using cl_afterD(1-3) [OF a] cl_afterD(1-3) [OF b] by (simp_all add: add.assoc)
  ultimately show ?thesis using frame unfolding cl_after_def by blast
qed

subsection \<open>The interface of a packet writer\<close>

text \<open>
  What the emitters rely on: a sink with room accepts a write, and successive writes compose.
  \<open>appends\<close> says that an operation appends \<open>bs\<close> and needs, and touches, at most \<open>n\<close> bytes.
\<close>

definition appends :: "('s \<Rightarrow> nat \<Rightarrow> bool) \<Rightarrow> (nat \<Rightarrow> 's \<Rightarrow> u8 list \<Rightarrow> 's \<Rightarrow> bool) \<Rightarrow>
    ('s \<Rightarrow> 's option) \<Rightarrow> u8 list \<Rightarrow> nat \<Rightarrow> bool" where
  "appends room after f bs n \<longleftrightarrow> length bs \<le> n \<and>
     (\<forall>s. room s n \<longrightarrow> (\<exists>s'. f s = Some s' \<and> after n s bs s'))"

fun run_ops :: "('s \<Rightarrow> 's option) list \<Rightarrow> 's \<Rightarrow> 's option" where
  "run_ops [] s = Some s"
| "run_ops (f # fs) s = do { s' \<leftarrow> f s; run_ops fs s' }"

locale packet_sink =
  fixes room :: "'s \<Rightarrow> nat \<Rightarrow> bool" and after :: "nat \<Rightarrow> 's \<Rightarrow> u8 list \<Rightarrow> 's \<Rightarrow> bool"
  assumes room_mono: "room s n \<Longrightarrow> k \<le> n \<Longrightarrow> room s k"
    and after_refl: "after 0 s [] s"
    and after_room: "after n s bs s' \<Longrightarrow> room s (length bs + k) \<Longrightarrow> room s' k"
    and after_trans: "after n s xs s1 \<Longrightarrow> after k s1 ys s2 \<Longrightarrow> length xs \<le> n \<Longrightarrow> length ys \<le> k \<Longrightarrow>
      room s (max n (length xs + k)) \<Longrightarrow> after (max n (length xs + k)) s (xs @ ys) s2"
begin

lemma appends_seq:
  assumes f: "appends room after f xs n" and g: "appends room after g ys k"
  shows "appends room after (\<lambda>s. Option.bind (f s) g) (xs @ ys) (max n (length xs + k))"
  unfolding appends_def
proof (intro conjI allI impI)
  show "length (xs @ ys) \<le> max n (length xs + k)" using g by (auto simp: appends_def le_max_iff_disj)
next
  fix s assume room: "room s (max n (length xs + k))"
  then have "room s n" by (rule room_mono) simp
  with f obtain s1 where s1: "f s = Some s1" "after n s xs s1" by (auto simp: appends_def)
  have "room s (length xs + k)" using room by (rule room_mono) simp
  with s1(2) have "room s1 k" by (rule after_room)
  with g obtain s2 where s2: "g s1 = Some s2" "after k s1 ys s2" by (auto simp: appends_def)
  from after_trans [OF s1(2) s2(2) _ _ room] f g have "after (max n (length xs + k)) s (xs @ ys) s2"
    by (simp add: appends_def)
  with s1(1) s2(1) show "\<exists>s'. Option.bind (f s) g = Some s' \<and> after (max n (length xs + k)) s (xs @ ys) s'"
    by auto
qed

lemma appends_none: "appends room after Some [] 0"
  by (simp add: appends_def after_refl)

text \<open>A sequence of operations needs the room of what each writes behind those before it.\<close>

lemma appends_run:
  assumes "\<And>c. c \<in> set cs \<Longrightarrow> appends room after (op c) (bytes c) (length (bytes c) + slack c)"
    and "\<And>c. c \<in> set cs \<Longrightarrow> slack c \<le> d"
  shows "\<exists>n. n \<le> length (concat (map bytes cs)) + d \<and>
    appends room after (run_ops (map op cs)) (concat (map bytes cs)) n"
  using assms
proof (induction cs)
  case Nil
  then show ?case using appends_none by (auto simp: appends_def intro!: exI [of _ 0])
next
  case (Cons c cs)
  then obtain n where n: "n \<le> length (concat (map bytes cs)) + d"
    "appends room after (run_ops (map op cs)) (concat (map bytes cs)) n" by auto
  have c: "appends room after (op c) (bytes c) (length (bytes c) + slack c)" "slack c \<le> d"
    using Cons.prems by auto
  have "run_ops (map op (c # cs)) = (\<lambda>s. Option.bind (op c s) (run_ops (map op cs)))" by auto
  then have "appends room after (run_ops (map op (c # cs))) (concat (map bytes (c # cs)))
      (max (length (bytes c) + slack c) (length (bytes c) + n))"
    using appends_seq [OF c(1) n(2)] by simp
  moreover have "max (length (bytes c) + slack c) (length (bytes c) + n) \<le> length (concat (map bytes (c # cs))) + d"
    using n(1) c(2) by simp
  ultimately show ?case by blast
qed

end

interpretation cl: packet_sink cl_room cl_after
proof
  show "cl_room s n \<Longrightarrow> k \<le> n \<Longrightarrow> cl_room s k" for s n k by (rule cl_room_mono)
  show "cl_after 0 s [] s" for s by (rule cl_after_refl)
  show "cl_after n s bs s' \<Longrightarrow> cl_room s (length bs + k) \<Longrightarrow> cl_room s' k" for n s bs s' k
    by (rule cl_after_room)
  show "cl_after n s xs s1 \<Longrightarrow> cl_after k s1 ys s2 \<Longrightarrow> length xs \<le> n \<Longrightarrow> length ys \<le> k \<Longrightarrow>
      cl_room s (max n (length xs + k)) \<Longrightarrow> cl_after (max n (length xs + k)) s (xs @ ys) s2"
    for n s xs s1 k ys s2 by (rule cl_after_trans)
qed

abbreviation cl_appends :: "(cl_state \<Rightarrow> cl_state option) \<Rightarrow> u8 list \<Rightarrow> nat \<Rightarrow> bool" where
  "cl_appends \<equiv> appends cl_room cl_after"

lemma cl_puts_appends: "cl_appends (cl_puts bss) (concat bss) (length (concat bss))"
proof (induction bss)
  case Nil
  then show ?case using cl.appends_none by (simp add: appends_def)
next
  case (Cons bs bss)
  have "cl_appends (cl_put bs (of_nat (length bs))) bs (length bs)"
    using cl_put_after [of _ bs _ bs "[]"] by (simp add: appends_def)
  from cl.appends_seq [OF this Cons] show ?case by (simp add: appends_def)
qed

end
