(* ===== verification/Packet_Stream.thy ===== *)
theory Packet_Stream
  imports Control_List
begin

text \<open>
  What the emitters of Control_List.thy produce: every emitter, with enough room, appends one
  hardware packet, and the stream of packets is read back by the lengths of their opcodes.  The
  commands of \<open>cl_cmd\<close> are the calls a client makes, one constructor per emitter.
\<close>

unbundle bit_operations_syntax

lemma moveBits_bits_at: "moveBits d n p = bits_at n p d"
  by (rule bit_word_eqI) (auto simp: moveBits_def bit_bits_at bit_simps)

datatype (plugins only: code size) cl_cmd =
    Halt | Nop | Flush | FlushAllState | StartTileBinning | IncrementSemaphore | WaitOnSemaphore
  | Branch ControlListAddress | BranchToSubList ControlListAddress | ReturnFromSubList
  | IndexedPrimitiveList u32 u32 u32 u32 u32
  | VertexArrayPrimitives u32 u32 u32
  | ShaderState u32 u32 u32
  | ConfigurationBits u32 u32 u32 u32 u32 u32 u32 u32 u32 u32 u32 u32 u32
  | FlatShadeFlags u32 | PointSize u32 | LineWidth u32 | RHTXBoundary u32
  | DepthOffset u32 u32 | ClipWindow u32 u32 u32 u32 | ViewPortOffset rat rat
  | ZMinMaxClippingPlanes u32 u32 | ClipperXYScaling u32 u32 | ClipperZScaleOffset u32 u32
  | TileBinningModeConfiguration u32 u32 u32 u32 u32 u32 u32 u32 u32 u32 u32
  | GEMRelocations u32 u32

fun cl_exec :: "cl_cmd \<Rightarrow> cl_state \<Rightarrow> cl_state option" where
  "cl_exec Halt = clInsertHalt"
| "cl_exec Nop = clInsertNop"
| "cl_exec Flush = clInsertFlush"
| "cl_exec FlushAllState = clInsertFlushAllState"
| "cl_exec StartTileBinning = clInsertStartTileBinning"
| "cl_exec IncrementSemaphore = clInsertIncrementSemaphore"
| "cl_exec WaitOnSemaphore = clInsertWaitOnSemaphore"
| "cl_exec (Branch a) = clInsertBranch a"
| "cl_exec (BranchToSubList a) = clInsertBranchToSubList a"
| "cl_exec ReturnFromSubList = clInsertReturnFromSubList"
| "cl_exec (IndexedPrimitiveList a b c d e) = clInsertIndexedPrimitiveList a b c d e"
| "cl_exec (VertexArrayPrimitives a b c) = clInsertVertexArrayPrimitives a b c"
| "cl_exec (ShaderState a b c) = clInsertShaderState a b c"
| "cl_exec (ConfigurationBits a b c d e f g h i j k l m) = clInsertConfigurationBits a b c d e f g h i j k l m"
| "cl_exec (FlatShadeFlags a) = clInsertFlatShadeFlags a"
| "cl_exec (PointSize a) = clInsertPointSize a"
| "cl_exec (LineWidth a) = clInsertLineWidth a"
| "cl_exec (RHTXBoundary a) = clInsertRHTXBoundary a"
| "cl_exec (DepthOffset a b) = clInsertDepthOffset a b"
| "cl_exec (ClipWindow a b c d) = clInsertClipWindow a b c d"
| "cl_exec (ViewPortOffset x y) = clInsertViewPortOffset x y"
| "cl_exec (ZMinMaxClippingPlanes a b) = clInsertZMinMaxClippingPlanes a b"
| "cl_exec (ClipperXYScaling a b) = clInsertClipperXYScaling a b"
| "cl_exec (ClipperZScaleOffset a b) = clInsertClipperZScaleOffset a b"
| "cl_exec (TileBinningModeConfiguration a b c d e f g h i j k) =
     clInsertTileBinningModeConfiguration a b c d e f g h i j k"
| "cl_exec (GEMRelocations a b) = clInsertGEMRelocations a b"

text \<open>Tiles are 64 pixels wide and high, halved by multisampling, the height again by 64-bit colour.\<close>

definition tiles :: "u32 \<Rightarrow> u32 \<Rightarrow> u32" where
  "tiles n sz = (n + sz - 1) div sz"

fun packet :: "cl_cmd \<Rightarrow> u8 list" where
  "packet Halt = [0]"
| "packet Nop = [1]"
| "packet Flush = [4]"
| "packet FlushAllState = [5]"
| "packet StartTileBinning = [6]"
| "packet IncrementSemaphore = [7]"
| "packet WaitOnSemaphore = [8]"
| "packet (Branch a) = 16 # bytes32 (cla_offset a)"
| "packet (BranchToSubList a) = 17 # bytes32 (cla_offset a)"
| "packet ReturnFromSubList = [18]"
| "packet (IndexedPrimitiveList maxIndex indices len type mode) =
     32 # ucast (bits_at 4 4 type OR bits_at 4 0 mode) # bytes32 len @ bytes32 indices @ bytes32 maxIndex"
| "packet (VertexArrayPrimitives first len mode) = 33 # ucast (bits_at 8 0 mode) # bytes32 len @ bytes32 first"
| "packet (ShaderState addr ext num) = 64 # bytes32 (bits_at 28 4 addr OR bits_at 1 3 ext OR bits_at 3 0 num)"
| "packet (ConfigurationBits a b c d e f g h i j k l m) =
     96 # take 3 (bytes32 (configuration_word a b c d e f g h i j k l m))"
| "packet (FlatShadeFlags a) = 97 # bytes32 a"
| "packet (PointSize a) = 98 # bytes32 a"
| "packet (LineWidth a) = 99 # bytes32 a"
| "packet (RHTXBoundary a) = 100 # bytes16 (ucast a)"
| "packet (DepthOffset units factor) = 101 # bytes32 (bits_at 16 0 (drop_bit 16 factor) OR bits_at 16 16 (drop_bit 16 units))"
| "packet (ClipWindow w h bottom left) = 102 # bytes32 (bits_at 16 0 left OR bits_at 16 16 bottom) @
     bytes32 (bits_at 16 0 w OR bits_at 16 16 h)"
| "packet (ViewPortOffset x y) = 103 # bytes16 (the (get16bitSignedFixedNumber x)) @
     bytes16 (the (get16bitSignedFixedNumber y))"
| "packet (ZMinMaxClippingPlanes lo hi) = 104 # bytes32 lo @ bytes32 hi"
| "packet (ClipperXYScaling w h) = 105 # bytes32 w @ bytes32 h"
| "packet (ClipperZScaleOffset off scale) = 106 # bytes32 scale @ bytes32 off"
| "packet (TileBinningModeConfiguration dbl blk initial auto wide ms w h state_addr msize maddr) =
     112 # bytes32 maddr @ bytes32 msize @ bytes32 state_addr @
     [ucast (tiles w (if ms \<noteq> 0 then 32 else 64)),
      ucast (tiles h ((if ms \<noteq> 0 then 32 else 64) div (if wide \<noteq> 0 then 2 else 1))),
      ucast (bits_at 1 0 ms OR bits_at 1 1 wide OR bits_at 1 2 auto OR bits_at 2 3 initial OR
        bits_at 2 5 blk OR bits_at 1 7 dbl)]"
| "packet (GEMRelocations a b) = 254 # bytes32 a @ bytes32 b"

fun cmd_ok :: "cl_cmd \<Rightarrow> bool" where
  "cmd_ok (ViewPortOffset x y) \<longleftrightarrow>
     get16bitSignedFixedNumber x \<noteq> None \<and> get16bitSignedFixedNumber y \<noteq> None"
| "cmd_ok c = True"

fun slack :: "cl_cmd \<Rightarrow> nat" where
  "slack (ConfigurationBits a b c d e f g h i j k l m) = 1"
| "slack c = 0"

lemma puts_packet:
  "f = cl_puts bss \<Longrightarrow> concat bss = bs \<Longrightarrow> cl_appends f bs (length bs)"
  using cl_puts_appends [of bss] by simp

lemmas emitter_defs = clInsertHalt_def clInsertNop_def clInsertFlush_def clInsertFlushAllState_def
  clInsertStartTileBinning_def clInsertIncrementSemaphore_def clInsertWaitOnSemaphore_def
  clInsertBranch_def clInsertBranchToSubList_def clInsertReturnFromSubList_def
  clInsertIndexedPrimitiveList_def clInsertVertexArrayPrimitives_def clInsertShaderState_def
  clInsertFlatShadeFlags_def clInsertPointSize_def clInsertLineWidth_def clInsertRHTXBoundary_def
  clInsertDepthOffset_def clInsertClipWindow_def clInsertZMinMaxClippingPlanes_def
  clInsertClipperXYScaling_def clInsertClipperZScaleOffset_def clInsertGEMRelocations_def

lemma ucast_bits_at_16: "ucast (bits_at 16 0 (x :: u32)) = (ucast x :: u16)"
  by (rule bit_word_eqI) (auto simp: bit_bits_at bit_simps)

lemma configuration_appends:
  "cl_appends (cl_exec (ConfigurationBits a b c d e f g h i j k l m))
     (packet (ConfigurationBits a b c d e f g h i j k l m)) 5"
proof -
  let ?w = "bytes32 (configuration_word a b c d e f g h i j k l m)"
  have op: "cl_appends (cl_put [96] 1) [96] 1"
    using cl_put_after [of _ "[96]" 1 "[96]" "[]"] by (simp add: appends_def)
  have len: "length (take 3 ?w) = 3" by simp
  have "cl_appends (cl_put ?w 3) (take 3 ?w) 4"
    unfolding appends_def
  proof (intro conjI allI impI)
    fix \<sigma> assume "cl_room \<sigma> 4"
    then have r: "cl_room \<sigma> (length ?w)" by simp
    have "(3 :: u32) = of_nat (length (take 3 ?w))" using len by simp
    from cl_put_after [OF r this, of "drop 3 ?w"]
    show "\<exists>s'. cl_put ?w 3 \<sigma> = Some s' \<and> cl_after 4 \<sigma> (take 3 ?w) s'" by simp
  qed (simp add: len)
  from cl.appends_seq [OF op this] have "cl_appends (\<lambda>\<sigma>. cl_put [96] 1 \<sigma> \<bind> cl_put ?w 3) ([96] @ take 3 ?w) (max 1 (length [96::u8] + 4))" .
  moreover have "cl_exec (ConfigurationBits a b c d e f g h i j k l m) = (\<lambda>\<sigma>. cl_put [96] 1 \<sigma> \<bind> cl_put ?w 3)"
    by (rule ext) (simp add: clInsertConfigurationBits_def)
  ultimately show ?thesis by simp
qed

lemma cl_puts_fun:
  "cl_puts [] = Some" "cl_puts (bs # bss) = (\<lambda>\<sigma>. cl_put bs (of_nat (length bs)) \<sigma> \<bind> cl_puts bss)"
  by (rule ext, simp)+

lemma viewport_appends:
  assumes "get16bitSignedFixedNumber x = Some fx" "get16bitSignedFixedNumber y = Some fy"
  shows "cl_appends (cl_exec (ViewPortOffset x y)) (packet (ViewPortOffset x y)) 5"
proof -
  have "clInsertViewPortOffset x y = cl_puts [[103], bytes16 fx, bytes16 fy]"
    using assms by (intro ext) (simp add: clInsertViewPortOffset_def cl_puts_fun)
  from puts_packet [OF this] assms show ?thesis by simp
qed

lemma tile_binning_appends:
  "cl_appends (cl_exec (TileBinningModeConfiguration a b c d e f g h i j k))
     (packet (TileBinningModeConfiguration a b c d e f g h i j k)) 16"
proof -
  let ?tw = "if f \<noteq> 0 then 32 else 64 :: u32"
  let ?th = "(if f \<noteq> 0 then 32 else 64) div (if e \<noteq> 0 then 2 else 1) :: u32"
  have w: "divRoundUp g ?tw = Some (tiles g ?tw)" by (simp add: divRoundUp_def tiles_def)
  have "(if e \<noteq> 0 then drop_bit 1 (if f \<noteq> 0 then 32 else 64) else if f \<noteq> 0 then 32 else 64) = ?th"
    by (simp add: drop_bit_eq_div)
  moreover have "divRoundUp h ?th = Some (tiles h ?th)" by (simp add: divRoundUp_def tiles_def)
  ultimately have "clInsertTileBinningModeConfiguration a b c d e f g h i j k \<sigma> =
    (cl_puts [[112], bytes32 k, bytes32 j, bytes32 i] \<sigma> \<bind>
     cl_puts [[ucast (tiles g ?tw)], [ucast (tiles h ?th)], [ucast (bits_at 1 0 f OR bits_at 1 1 e OR
        bits_at 1 2 d OR bits_at 2 3 c OR bits_at 2 5 b OR bits_at 1 7 a)]])" for \<sigma>
    unfolding clInsertTileBinningModeConfiguration_def Let_def moveBits_bits_at using w
    by (simp only: Option.bind.bind_lunit)
  then have op: "cl_exec (TileBinningModeConfiguration a b c d e f g h i j k) = (\<lambda>\<sigma>.
     cl_puts [[112], bytes32 k, bytes32 j, bytes32 i] \<sigma> \<bind>
     cl_puts [[ucast (tiles g ?tw)], [ucast (tiles h ?th)], [ucast (bits_at 1 0 f OR bits_at 1 1 e OR
        bits_at 1 2 d OR bits_at 2 3 c OR bits_at 2 5 b OR bits_at 1 7 a)]])"
    by (simp only: cl_exec.simps fun_eq_iff)  simp
  show ?thesis unfolding op
    using cl.appends_seq [OF cl_puts_appends [of "[[112], bytes32 k, bytes32 j, bytes32 i]"]
      cl_puts_appends [of "[[ucast (tiles g ?tw)], [ucast (tiles h ?th)], [ucast (bits_at 1 0 f OR bits_at 1 1 e OR
        bits_at 1 2 d OR bits_at 2 3 c OR bits_at 2 5 b OR bits_at 1 7 a)]]"]] by simp
qed

lemma cmd_appends:
  assumes "cmd_ok c"
  shows "cl_appends (cl_exec c) (packet c) (length (packet c) + slack c)"
proof (cases c)
  case (ConfigurationBits a b c d e f g h i j k l m)
  then show ?thesis using configuration_appends by simp
next
  case (ViewPortOffset x y)
  then show ?thesis using assms viewport_appends by auto
next
  case (TileBinningModeConfiguration a b c d e f g h i j k)
  then show ?thesis using tile_binning_appends by simp
qed ((simp only: cl_exec.simps emitter_defs slack.simps Nat.add_0_right, rule puts_packet [OF refl],
      simp add: moveBits_bits_at ucast_bits_at_16 f32_to_f187_def)+)

subsection \<open>The stream the hardware reads\<close>

text \<open>The packet lengths of brcm/cle/v3d_packet_v21_pack.h, by opcode.\<close>

definition v3d21_lengths :: "(u8 \<times> nat) list" where
  "v3d21_lengths = [(0, 1), (1, 1), (4, 1), (5, 1), (6, 1), (7, 1), (8, 1), (16, 5), (17, 5), (18, 1),
     (32, 14), (33, 10), (56, 2), (64, 5), (96, 4), (97, 5), (98, 5), (99, 5), (100, 3), (101, 5),
     (102, 9), (103, 5), (104, 9), (105, 9), (106, 9), (112, 16), (254, 9)]"

text \<open>Cut a byte stream into packets, as the control list executor does; \<open>n\<close> bounds their number.\<close>

fun read_packets :: "nat \<Rightarrow> u8 list \<Rightarrow> u8 list list option" where
  "read_packets n [] = Some []"
| "read_packets 0 (b # bs) = None"
| "read_packets (Suc n) (b # bs) = (case map_of v3d21_lengths b of
     None \<Rightarrow> None
   | Some len \<Rightarrow> if len \<le> Suc (length bs)
       then map_option ((#) (take len (b # bs))) (read_packets n (drop len (b # bs))) else None)"

lemma packet_length:
  "map_of v3d21_lengths (hd (packet c)) = Some (length (packet c)) \<and> packet c \<noteq> []"
  by (cases c) (simp_all add: v3d21_lengths_def)

lemma read_packets_stream:
  "length cs \<le> n \<Longrightarrow> read_packets n (concat (map packet cs)) = Some (map packet cs)"
proof (induction cs arbitrary: n)
  case Nil
  then show ?case by (cases n) simp_all
next
  case (Cons c cs)
  then obtain k where k: "n = Suc k" "length cs \<le> k" by (cases n) auto
  obtain b bs where b: "packet c = b # bs" using packet_length [of c] by (cases "packet c") auto
  then have "map_of v3d21_lengths b = Some (Suc (length bs))" using packet_length [of c] by simp
  then show ?case using Cons.IH [OF k(2)] k(1) b by simp
qed

text \<open>A list of 512 bytes in a pool of one block; the witnesses of the control list properties use it.\<close>

definition ex_list :: cl_state where
  "ex_list = ((zero_mem 4096 512, \<lparr>cpa_buf = 4096, cpa_nextFreeBlock = NULL, cpa_blockSize = 512,
     cpa_size = 512, cpa_numFreeBlocks = 0\<rparr>), clInit 0 512)"

lemma ex_list_room: "n \<le> 512 \<Longrightarrow> cl_room ex_list n"
  using zero_mem_span [of 4096 512]
  by (simp add: ex_list_def cl_room_def cl_wf_def cl_cap_def clInit_def cl_at_def getCPAptrFromOffset_def)

lemma ex_list_content: "cl_content ex_list = Some []"
  by (simp add: ex_list_def cl_content_def clInit_def)

text \<open>C12: any sequence of emitter calls, on a control list with room for their packets, appends
  exactly these packets behind what the list held, and the hardware, which cuts the stream by the
  length of each opcode, reads back exactly the packets emitted.  A sequence with a configuration
  packet needs one byte more than it appends.\<close>

theorem cl_stream:
  assumes ok: "list_all cmd_ok cs" and content: "cl_content \<sigma> = Some xs"
    and room: "cl_room \<sigma> (length (concat (map packet cs)) + (if list_all (\<lambda>c. slack c = 0) cs then 0 else 1))"
  shows "\<exists>\<sigma>'. run_ops (map cl_exec cs) \<sigma> = Some \<sigma>' \<and>
     cl_content \<sigma>' = Some (xs @ concat (map packet cs)) \<and>
     read_packets (length cs) (concat (map packet cs)) = Some (map packet cs)"
proof -
  let ?d = "if list_all (\<lambda>c. slack c = 0) cs then 0 else 1 :: nat"
  let ?bytes = "concat (map packet cs)"
  have "slack c \<le> ?d" if "c \<in> set cs" for c
  proof -
    have "slack c \<le> 1" by (cases c) simp_all
    then show ?thesis using that by (auto simp: list_all_iff)
  qed
  moreover have "cl_appends (cl_exec c) (packet c) (length (packet c) + slack c)" if "c \<in> set cs" for c
    using that ok by (intro cmd_appends) (simp add: list_all_iff)
  ultimately obtain n where n: "n \<le> length ?bytes + ?d" "cl_appends (run_ops (map cl_exec cs)) ?bytes n"
    using cl.appends_run [of cs cl_exec packet slack ?d] by blast
  have r: "cl_room \<sigma> n" using room n(1) by (rule cl_room_mono)
  then obtain \<sigma>' where s': "run_ops (map cl_exec cs) \<sigma> = Some \<sigma>'" "cl_after n \<sigma> ?bytes \<sigma>'"
    using n(2) unfolding appends_def by blast
  moreover have "length ?bytes \<le> n" using n(2) by (simp add: appends_def)
  ultimately have "cl_content \<sigma>' = Some (xs @ ?bytes)" using cl_after_content [OF s'(2) r] content by simp
  then show ?thesis using s'(1) read_packets_stream [of cs "length cs"] by blast
qed

lemma cl_stream_witness:
  "\<exists>\<sigma>'. run_ops (map cl_exec [StartTileBinning, ConfigurationBits 0 1 1 7 0 0 0 0 0 0 0 1 1, Flush]) ex_list = Some \<sigma>' \<and>
     cl_content \<sigma>' = Some [6, 96, 3, 0xF0, 1, 4] \<and>
     read_packets 3 [6, 96, 3, 0xF0, 1, 4] = Some [[6], [96, 3, 0xF0, 1], [4]]"
proof -
  let ?cs = "[StartTileBinning, ConfigurationBits 0 1 1 7 0 0 0 0 0 0 0 1 1, Flush]"
  have p: "map packet ?cs = [[6], [96, 3, 0xF0, 1], [4]]" by code_simp
  have "list_all cmd_ok ?cs" by simp
  moreover have "length (concat (map packet ?cs)) + (if list_all (\<lambda>c. slack c = 0) ?cs then 0 else 1) \<le> 512"
    unfolding p by simp
  ultimately have "\<exists>\<sigma>'. run_ops (map cl_exec ?cs) ex_list = Some \<sigma>' \<and>
     cl_content \<sigma>' = Some ([] @ concat (map packet ?cs)) \<and>
     read_packets (length ?cs) (concat (map packet ?cs)) = Some (map packet ?cs)"
    by (intro cl_stream ex_list_content ex_list_room)
  moreover have "concat (map packet ?cs) = [6, 96, 3, 0xF0, 1, 4]" unfolding p by simp
  moreover have "length ?cs = 3" by simp
  ultimately show ?thesis unfolding p by (simp only: append_Nil)
qed

lemma configuration_word_top: "ucast (drop_bit 24 (configuration_word a b c d e f g h i j k l n)) = (0 :: u8)"
proof -
  have "drop_bit 24 (configuration_word a b c d e f g h i j k l n) = 0"
    by (rule bit_word_eqI) (auto simp: configuration_word_def moveBits_bits_at bit_bits_at bit_drop_bit_eq bit_or_iff)
  then show ?thesis by simp
qed

text \<open>C16: clInsertConfigurationBits writes one byte behind its four-byte packet: with the four bytes
  that clFit reserves for it, the byte that follows them, which may be the first byte of the next
  block of the pool, is set to 0.\<close>

theorem clInsertConfigurationBits_overrun:
  assumes room: "cl_room \<sigma> 4" and st: "\<sigma> = ((m, pa), cl)"
    and mapped: "cl_at \<sigma> (cl_nextFreeByteOffset cl + 4) \<in> dom m"
  shows "\<exists>m' cl'. clInsertConfigurationBits a b c d e f g h i j k l n \<sigma> = Some ((m', pa), cl') \<and>
     cl_nextFreeByteOffset cl' = cl_nextFreeByteOffset cl + 4 \<and>
     m' (cl_at \<sigma> (cl_nextFreeByteOffset cl + 4)) = Some 0"
proof -
  let ?p = "getCPAptrFromOffset pa (cl_nextFreeByteOffset cl)"
  let ?w = "configuration_word a b c d e f g h i j k l n"
  have at: "cl_at \<sigma> (cl_nextFreeByteOffset cl + 4) = ?p + 4"
    by (simp add: cl_at_def st getCPAptrFromOffset_def)
  have "extent ?p 4 \<subseteq> dom m" using cl_window [OF room] by (simp add: st cl_at_def)
  then have dom: "?p \<in> dom m" "extent (?p + 1) 4 \<subseteq> dom m"
    using mapped unfolding at by (auto simp: extent_4 add.assoc)
  obtain m1 where m1: "store_bytes m ?p [96] = Some m1" using dom(1) by auto
  have "extent (?p + 1) (length (bytes32 ?w)) \<subseteq> dom m1" using dom(2) store_bytes_dom [OF m1] by simp
  then obtain m2 where m2: "store_bytes m1 (?p + 1) (bytes32 ?w) = Some m2" using store_bytes_defined by blast
  have "load_bytes m2 (?p + 1) 4 = Some (bytes32 ?w)" using load_store_bytes_same [OF m2] by simp
  then have "m2 (?p + 1 + 3) = Some (ucast (drop_bit 24 ?w))"
    by (auto simp: load_bytes_4 bytes32_def bind_Some_iff)
  then have "m2 (?p + 4) = Some 0" unfolding configuration_word_top by (simp add: add.assoc)
  moreover have "clInsertConfigurationBits a b c d e f g h i j k l n \<sigma> =
      Some ((m2, pa), cl\<lparr>cl_nextFreeByteOffset := cl_nextFreeByteOffset cl + 4\<rparr>)"
    using m1 m2 by (simp add: clInsertConfigurationBits_def cl_put_def st getCPAptrFromOffset_def add.assoc
        del: store_bytes.simps)
  ultimately show ?thesis unfolding at by simp
qed

lemma clInsertConfigurationBits_overrun_witness:
  "\<exists>\<sigma> m' pa cl'. cl_room \<sigma> 4 \<and> clInsertConfigurationBits 0 1 1 7 0 0 0 0 0 0 0 1 1 \<sigma> = Some ((m', pa), cl') \<and>
     cl_nextFreeByteOffset cl' = 4 \<and> m' 4100 = Some 0"
proof -
  obtain m pa cl where e: "ex_list = ((m, pa), cl)" by (metis prod.exhaust)
  then have pa: "cl_nextFreeByteOffset cl = 0" "m = zero_mem 4096 512" "cpa_buf pa = 4096"
    by (auto simp: ex_list_def clInit_def)
  have at: "cl_at ex_list (cl_nextFreeByteOffset cl + 4) = 4100"
    by (simp add: e pa cl_at_def getCPAptrFromOffset_def)
  have "cl_at ex_list (cl_nextFreeByteOffset cl + 4) \<in> dom m" unfolding at by (simp add: pa zero_mem_def dom_def)
  from clInsertConfigurationBits_overrun [OF ex_list_room e this, of 0 1 1 7 0 0 0 0 0 0 0 1 1] obtain m' cl' where
    "clInsertConfigurationBits 0 1 1 7 0 0 0 0 0 0 0 1 1 ex_list = Some ((m', pa), cl')"
    "cl_nextFreeByteOffset cl' = 4" "m' 4100 = Some 0" using at pa(1) by auto
  moreover have "cl_room ex_list 4" by (rule ex_list_room) simp
  ultimately show ?thesis by blast
qed

end
