(* ===== verification/Handles_Markers.thy ===== *)
theory Handles_Markers
  imports Packet_Stream
begin

text \<open>
  The handle table of a control list (\<open>clGetHandleIndex\<close>) and the markers that cut the binning list
  into jobs (\<open>clInsertNewCLMarker\<close>, \<open>clCloseCurrentMarker\<close>), both of Control_List.thy.
\<close>

unbundle bit_operations_syntax

subsection \<open>The handle table\<close>

text \<open>The handles stored from an offset on.\<close>

fun words_at :: "mem \<Rightarrow> addr \<Rightarrow> u32 list \<Rightarrow> bool" where
  "words_at m p [] = True"
| "words_at m p (v # vs) \<longleftrightarrow> load32 m p = Some v \<and> words_at m (p + 4) vs"

lemma words_at_append: "words_at m p (vs @ ws) \<longleftrightarrow> words_at m p vs \<and> words_at m (p + of_nat (4 * length vs)) ws"
  by (induction vs arbitrary: p) (simp_all add: algebra_simps)

lemma words_at_frame:
  "words_at m p vs \<Longrightarrow> (\<And>x. x \<in> extent p (4 * length vs) \<Longrightarrow> m' x = m x) \<Longrightarrow> words_at m' p vs"
proof (induction vs arbitrary: p)
  case (Cons v vs)
  have "extent p (4 + 4 * length vs) = extent p 4 \<union> extent (p + 4) (4 * length vs)"
    using extent_add [of p 4 "4 * length vs"] by simp
  then have e: "extent p (4 * length (v # vs)) = extent p 4 \<union> extent (p + 4) (4 * length vs)" by simp
  have "load32 m' p = load32 m p" using Cons.prems(2) e by (intro load32_frame) blast
  moreover have "words_at m' (p + 4) vs" using Cons e by auto
  ultimately show ?case using Cons.prems(1) by simp
qed simp

lemma find_handle_spec:
  "words_at m (base + 4 * c) vs \<Longrightarrow> find_handle m base h c (length vs) =
     Some (if h \<in> set vs then Some (c + of_nat (length (takeWhile (\<lambda>v. v \<noteq> h) vs))) else None)"
proof (induction vs arbitrary: c)
  case (Cons v vs)
  have "words_at m (base + 4 * (c + 1)) vs" using Cons.prems by (simp add: algebra_simps)
  from Cons.IH [OF this] Cons.prems show ?case by (auto simp: algebra_simps)
qed simp

lemma first_occurrence:
  "h \<in> set hs \<Longrightarrow> length (takeWhile (\<lambda>v. v \<noteq> h) hs) < length hs \<and> hs ! length (takeWhile (\<lambda>v. v \<noteq> h) hs) = h"
  by (induction hs) auto

text \<open>C14: clGetHandleIndex interns buffer handles: with the marker open, the index it returns is below
  the number of handles and denotes the handle asked for; a handle that is in the list is not added
  again, a new one is appended, and the handles in front keep their indices.\<close>

theorem clGetHandleIndex_interns:
  assumes hs: "words_at (fst (fst \<sigma>)) (cl_at \<sigma> off) hs"
    and off: "unat (cl_nextFreeByteOffset (snd \<sigma>)) = unat off + 4 * length hs" "cl_offset (snd \<sigma>) \<le> off"
    and room: "cl_room \<sigma> 4"
  shows "\<exists>\<sigma>' idx hs'. clGetHandleIndex off 0 h \<sigma> = Some (\<sigma>', idx) \<and>
     hs' = (if h \<in> set hs then hs else hs @ [h]) \<and>
     words_at (fst (fst \<sigma>')) (cl_at \<sigma>' off) hs' \<and> cl_wf \<sigma>' \<and>
     unat (cl_nextFreeByteOffset (snd \<sigma>')) = unat off + 4 * length hs' \<and>
     unat idx < length hs' \<and> hs' ! unat idx = h"
proof -
  obtain m pa cl where s: "\<sigma> = ((m, pa), cl)" by (metis prod.exhaust)
  have n32: "4 * length hs < 2 ^ 32" using off(1) unat_lt_u32 [of "cl_nextFreeByteOffset (snd \<sigma>)"] by simp
  have "unat (cl_nextFreeByteOffset cl - off) = 4 * length hs"
    using off(1) s by (simp add: unat_sub_if_size word_le_nat_alt)
  then have num: "unat ((cl_nextFreeByteOffset cl - off) div 4) = length hs" by (simp add: unat_div)
  have at: "cl_at \<sigma> off = getCPAptrFromOffset pa off" by (simp add: cl_at_def s)
  have f: "find_handle m (getCPAptrFromOffset pa off) h 0 (length hs) =
      Some (if h \<in> set hs then Some (of_nat (length (takeWhile (\<lambda>v. v \<noteq> h) hs))) else None)"
    using find_handle_spec [of m "getCPAptrFromOffset pa off" 0 hs h] hs unfolding at by (simp add: s)
  have wf: "cl_wf \<sigma>" using room by (simp add: cl_room_def)
  show ?thesis
  proof (cases "h \<in> set hs")
    case True
    let ?i = "length (takeWhile (\<lambda>v. v \<noteq> h) hs)"
    have "?i < length hs \<and> hs ! ?i = h" using True by (rule first_occurrence)
    moreover have "unat (of_nat ?i :: u32) = ?i" using calculation n32 by (intro unat_of_nat_u32) simp
    moreover have "clGetHandleIndex off 0 h \<sigma> = Some (\<sigma>, of_nat ?i)"
      using f num True by (simp add: clGetHandleIndex_def s)
    ultimately show ?thesis using True hs off(1) wf by auto
  next
    case False
    have "cl_room \<sigma> (length (bytes32 h))" using room by simp
    from cl_put_after [OF this, of 4 "bytes32 h" "[]"] obtain \<sigma>' where
      p: "cl_put (bytes32 h) 4 \<sigma> = Some \<sigma>'" "cl_after 4 \<sigma> (bytes32 h) \<sigma>'" by auto
    let ?idx = "(cl_nextFreeByteOffset cl - off) div 4"
    have g: "clGetHandleIndex off 0 h \<sigma> = Some (\<sigma>', ?idx)"
      using f num False p(1) by (simp add: clGetHandleIndex_def s)
    have at': "cl_at \<sigma>' off = cl_at \<sigma> off" by (rule cl_after_next(1) [OF p(2)])
    have nx: "unat (cl_nextFreeByteOffset (snd \<sigma>')) = unat (cl_nextFreeByteOffset (snd \<sigma>)) + 4"
      using cl_after_next(4) [OF p(2)] cl_room_next [OF room, of 4] by simp
    have nxt: "cl_at \<sigma> (cl_nextFreeByteOffset (snd \<sigma>)) = cl_at \<sigma> off + of_nat (4 * length hs)"
    proof -
      have "cl_nextFreeByteOffset cl = off + of_nat (4 * length hs)"
        using off(1) s by (metis of_nat_add snd_conv unat_of_nat_self)
      then show ?thesis by (simp add: cl_at_def getCPAptrFromOffset_def s)
    qed
    have "x \<notin> extent (cl_at \<sigma> (cl_nextFreeByteOffset (snd \<sigma>))) 4" if x: "x \<in> extent (cl_at \<sigma> off) (4 * length hs)" for x
    proof
      assume "x \<in> extent (cl_at \<sigma> (cl_nextFreeByteOffset (snd \<sigma>))) 4"
      then obtain j where j: "j < 4" "x = cl_at \<sigma> off + of_nat (4 * length hs + j)"
        unfolding nxt by (auto simp: extent_def algebra_simps)
      from x obtain i where i: "i < 4 * length hs" "x = cl_at \<sigma> off + of_nat i" by (auto simp: extent_def)
      have "4 * length hs + 4 < 2 ^ 32"
        using room off(1) unfolding cl_room_def cl_wf_def by linarith
      then show False using i j add_of_nat_inject [of i "4 * length hs + j" "cl_at \<sigma> off"] by simp
    qed
    then have old: "words_at (fst (fst \<sigma>')) (cl_at \<sigma> off) hs"
      using cl_afterD(4) [OF p(2)] by (intro words_at_frame [OF hs]) blast
    have "load_bytes (fst (fst \<sigma>')) (cl_at \<sigma> off + of_nat (4 * length hs)) 4 = Some (bytes32 h)"
      using cl_afterD(5) [OF p(2)] unfolding nxt by simp
    then have "load32 (fst (fst \<sigma>')) (cl_at \<sigma> off + of_nat (4 * length hs)) = Some h"
      by (simp add: load32_load_bytes) (simp add: bytes32_def le32_bytes32)
    with old have "words_at (fst (fst \<sigma>')) (cl_at \<sigma>' off) (hs @ [h])"
      by (simp add: words_at_append at')
    moreover have "cl_wf \<sigma>'" using cl_after_room [OF p(2), of 0] room by (simp add: cl_room_def)
    ultimately show ?thesis using g False num nx off(1) by (auto simp: nth_append)
  qed
qed

lemma clGetHandleIndex_interns_witness:
  "\<exists>\<sigma> \<sigma>' idx. words_at (fst (fst \<sigma>)) (cl_at \<sigma> 0) [0, 0] \<and> clGetHandleIndex 0 0 7 \<sigma> = Some (\<sigma>', idx) \<and>
     words_at (fst (fst \<sigma>')) (cl_at \<sigma>' 0) [0, 0, 7] \<and> idx = 2"
proof -
  let ?s = "(fst ex_list, (snd ex_list)\<lparr>cl_nextFreeByteOffset := 8\<rparr>)"
  have "cl_room ?s 4"
    using zero_mem_span [of 4096 512]
    by (simp add: ex_list_def cl_room_def cl_wf_def cl_cap_def clInit_def cl_at_def getCPAptrFromOffset_def)
  moreover have w: "words_at (fst (fst ?s)) (cl_at ?s 0) [0, 0]"
    by (simp add: ex_list_def clInit_def cl_at_def getCPAptrFromOffset_def load32_def zero_mem_def le32_def)
  ultimately obtain \<sigma>' idx where g: "clGetHandleIndex 0 0 7 ?s = Some (\<sigma>', idx)"
    "words_at (fst (fst \<sigma>')) (cl_at \<sigma>' 0) [0, 0, 7]" "unat idx < 3" "[0, 0, 7 :: u32] ! unat idx = 7"
    using clGetHandleIndex_interns [of ?s 0 "[0, 0]" 7] by (auto simp: ex_list_def clInit_def)
  from g(3,4) have "unat idx = 2" by (cases "unat idx") (auto simp: less_Suc_eq numeral_3_eq_3 split: if_splits)
  then have "idx = 2" by (metis unat_of_nat_self of_nat_numeral)
  with w g show ?thesis by blast
qed


subsection \<open>Markers\<close>

lemma apart_offsets: "apart (p + a) (p + b) \<longleftrightarrow> apart a b"
proof -
  have "extent (p + c) 4 = (+) p ` extent c 4" for c by (auto simp: extent_4 add.assoc)
  then have "extent (p + a) 4 \<inter> extent (p + b) 4 = (+) p ` (extent a 4 \<inter> extent b 4)" by auto
  then show ?thesis by (simp add: apart_def)
qed

lemma apart_offset_0: "apart p (p + b) \<longleftrightarrow> apart 0 b" "apart (p + b) p \<longleftrightarrow> apart b 0"
  using apart_offsets [of p 0 b] apart_offsets [of p b 0] by simp_all

lemmas marker_offsets = CLMarker_memGuard_def CLMarker_nextMarkerOffset_def CLMarker_size_def
  CLMarker_handlesBufOffset_def CLMarker_handlesSize_def CLMarker_shaderRecBufOffset_def
  CLMarker_shaderRecSize_def CLMarker_shaderRecCount_def CLMarker_uniformsBufOffset_def
  CLMarker_uniformsSize_def

lemma store_words:
  "store_bytes m p (concat (map bytes32 ws)) = Some m' \<Longrightarrow> 4 * length ws \<le> 2 ^ 32 \<Longrightarrow> words_at m' p ws"
proof (induction ws arbitrary: m p)
  case (Cons w ws)
  have split: "store_bytes m p (xs @ ys) = do { m1 \<leftarrow> store_bytes m p xs; store_bytes m1 (p + of_nat (length xs)) ys }"
    for m p xs ys by (induction xs arbitrary: m p) (simp_all add: algebra_simps)
  from Cons.prems(1) obtain m1 where m1: "store32 m p w = Some m1"
    "store_bytes m1 (p + 4) (concat (map bytes32 ws)) = Some m'"
    by (auto simp: split store32_def bind_Some_iff)
  have "words_at m' (p + 4) ws" using Cons.IH [OF m1(2)] Cons.prems(2) by simp
  moreover have "load32 m' p = load32 m1 p"
  proof (rule load32_frame)
    fix x assume x: "x \<in> extent p 4"
    have "length (concat (map bytes32 ws)) = 4 * length ws" by (induction ws) simp_all
    moreover have "x \<notin> extent (p + 4) (4 * length ws)"
    proof
      assume "x \<in> extent (p + 4) (4 * length ws)"
      then obtain j where "j < 4 * length ws" "x = p + of_nat (4 + j)" by (auto simp: extent_def algebra_simps)
      moreover from x obtain i where "i < 4" "x = p + of_nat i" by (auto simp: extent_def)
      ultimately show False using Cons.prems(2) add_of_nat_inject [of i "4 + j" p] by simp
    qed
    ultimately show "m' x = m1 x" using store_bytes_frame [OF m1(2), of x] by simp
  qed
  ultimately show ?case using load_store32_same [OF m1(1)] by simp
qed simp

lemma words_at_nth:
  "words_at m p ws \<Longrightarrow> i < length ws \<Longrightarrow> load32 m (p + of_nat (4 * i)) = Some (ws ! i)"
proof (induction ws arbitrary: p i)
  case (Cons w ws)
  show ?case
  proof (cases i)
    case (Suc j)
    then have "load32 m (p + 4 + of_nat (4 * j)) = Some (ws ! j)" using Cons by simp
    then show ?thesis using Suc by (simp add: add.assoc)
  qed (use Cons.prems in simp)
qed simp

text \<open>The ten members of a marker the list operations work with.\<close>

lemma marker_member_extent:
  assumes "extent p 164 \<subseteq> dom m" "c + 4 \<le> 164"
  shows "extent (p + of_nat c) 4 \<subseteq> dom m"
proof -
  have "extent p (c + 4) \<subseteq> dom m" using assms extent_mono [of "c + 4" 164 p] by auto
  then show ?thesis by (simp add: extent_add)
qed

lemma store32_total:
  assumes "extent a 4 \<subseteq> D" "dom m = D"
  obtains m' where "store32 m a v = Some m'" "dom m' = D" "load32 m' a = Some v"
    "\<And>b. apart a b \<Longrightarrow> load32 m' b = load32 m b" "\<And>x. x \<notin> extent a 4 \<Longrightarrow> m' x = m x"
proof -
  obtain m' where m': "store32 m a v = Some m'" using assms store32_defined [of m a v] by blast
  then show ?thesis
    using that assms(2) store32_dom [OF m'] load_store32_same [OF m'] load_store32_apart [OF m'] store32_frame [OF m'] by blast
qed

lemma clClose_spec:
  assumes p: "p = getCPAptrFromOffset pa (cl_currMarkerOffset cl)" and dom: "extent p 164 \<subseteq> dom m"
    and flds: "load32 m (p + CLMarker_handlesBufOffset) = Some ho"
      "load32 m (p + CLMarker_shaderRecBufOffset) = Some so"
      "load32 m (p + CLMarker_uniformsBufOffset) = Some uo" "load32 m (p + CLMarker_shaderRecCount) = Some sc"
  shows "\<exists>m'. clCloseCurrentMarker h r N u ((m, pa), cl) = Some ((m', pa), cl) \<and> dom m' = dom m \<and>
     load32 m' (p + CLMarker_size) =
       Some (cl_nextFreeByteOffset cl - (cl_currMarkerOffset cl + sizeof_CLMarker)) \<and>
     load32 m' (p + CLMarker_handlesBufOffset) = Some ho \<and>
     load32 m' (p + CLMarker_shaderRecBufOffset) = Some so \<and>
     load32 m' (p + CLMarker_uniformsBufOffset) = Some uo \<and>
     load32 m' (p + CLMarker_handlesSize) = Some (cl_nextFreeByteOffset h - (ho + cl_offset h)) \<and>
     load32 m' (p + CLMarker_shaderRecSize) = Some (cl_nextFreeByteOffset r - (so + cl_offset r)) \<and>
     load32 m' (p + CLMarker_uniformsSize) = Some (cl_nextFreeByteOffset u - (uo + cl_offset u)) \<and>
     load32 m' (p + CLMarker_shaderRecCount) = Some (N - sc) \<and>
     (\<forall>x. x \<in> extent p 164 \<or> m' x = m x)"
proof -
  have sub: "extent (p + of_nat c) 4 \<subseteq> extent p 164" if "c + 4 \<le> 164" for c
    using extent_mono [OF that, of p] by (simp add: extent_add)
  note mem = sub [of 8, simplified] sub [of 116, simplified] sub [of 124, simplified]
    sub [of 136, simplified] sub [of 128, simplified]
  note ap = apart_offsets apart_def extent_4
  obtain m1 where m1: "store32 m (p + 8) (cl_nextFreeByteOffset cl - (cl_currMarkerOffset cl + sizeof_CLMarker)) = Some m1"
    "dom m1 = dom m" "load32 m1 (p + 8) = Some (cl_nextFreeByteOffset cl - (cl_currMarkerOffset cl + sizeof_CLMarker))"
    "\<And>b. apart (p + 8) b \<Longrightarrow> load32 m1 b = load32 m b" "\<And>x. x \<notin> extent (p + 8) 4 \<Longrightarrow> m1 x = m x"
    by (rule store32_total [OF subset_trans [OF mem(1) dom] refl], rule that, assumption+)
  obtain m2 where m2: "store32 m1 (p + 116) (cl_nextFreeByteOffset h - (ho + cl_offset h)) = Some m2"
    "dom m2 = dom m" "load32 m2 (p + 116) = Some (cl_nextFreeByteOffset h - (ho + cl_offset h))"
    "\<And>b. apart (p + 116) b \<Longrightarrow> load32 m2 b = load32 m1 b" "\<And>x. x \<notin> extent (p + 116) 4 \<Longrightarrow> m2 x = m1 x"
    by (rule store32_total [OF subset_trans [OF mem(2) dom] m1(2)], rule that, assumption+)
  obtain m3 where m3: "store32 m2 (p + 124) (cl_nextFreeByteOffset r - (so + cl_offset r)) = Some m3"
    "dom m3 = dom m" "load32 m3 (p + 124) = Some (cl_nextFreeByteOffset r - (so + cl_offset r))"
    "\<And>b. apart (p + 124) b \<Longrightarrow> load32 m3 b = load32 m2 b" "\<And>x. x \<notin> extent (p + 124) 4 \<Longrightarrow> m3 x = m2 x"
    by (rule store32_total [OF subset_trans [OF mem(3) dom] m2(2)], rule that, assumption+)
  obtain m4 where m4: "store32 m3 (p + 136) (cl_nextFreeByteOffset u - (uo + cl_offset u)) = Some m4"
    "dom m4 = dom m" "load32 m4 (p + 136) = Some (cl_nextFreeByteOffset u - (uo + cl_offset u))"
    "\<And>b. apart (p + 136) b \<Longrightarrow> load32 m4 b = load32 m3 b" "\<And>x. x \<notin> extent (p + 136) 4 \<Longrightarrow> m4 x = m3 x"
    by (rule store32_total [OF subset_trans [OF mem(4) dom] m3(2)], rule that, assumption+)
  obtain m5 where m5: "store32 m4 (p + 128) (N - sc) = Some m5"
    "dom m5 = dom m" "load32 m5 (p + 128) = Some (N - sc)"
    "\<And>b. apart (p + 128) b \<Longrightarrow> load32 m5 b = load32 m4 b" "\<And>x. x \<notin> extent (p + 128) 4 \<Longrightarrow> m5 x = m4 x"
    by (rule store32_total [OF subset_trans [OF mem(5) dom] m4(2)], rule that, assumption+)
  note f = flds [unfolded marker_offsets]
  have l: "load32 m1 (p + 112) = Some ho" "load32 m2 (p + 120) = Some so" "load32 m3 (p + 132) = Some uo"
    "load32 m4 (p + 128) = Some sc"
    using f by (simp_all add: m1(4) m2(4) m3(4) m4(4) ap)
  have close: "clCloseCurrentMarker h r N u ((m, pa), cl) = Some ((m5, pa), cl)"
    using m1(1) m2(1) m3(1) m4(1) m5(1) l
    by (simp add: clCloseCurrentMarker_def p [symmetric] marker_offsets)
  have "x \<in> extent p 164 \<or> m5 x = m x" for x
  proof (cases "x \<in> extent p 164")
    case False
    then have "x \<notin> extent (p + 8) 4" "x \<notin> extent (p + 116) 4" "x \<notin> extent (p + 124) 4"
      "x \<notin> extent (p + 136) 4" "x \<notin> extent (p + 128) 4" using mem by blast+
    then show ?thesis by (simp add: m1(5) m2(5) m3(5) m4(5) m5(5))
  qed simp
  then show ?thesis unfolding marker_offsets
    using close m5(2,3) f m1(3) m2(3) m3(3) m4(3)
    by (intro exI [of _ m5]) (simp add: m1(4) m2(4) m3(4) m4(4) m5(4) ap)
qed

lemma new_marker_spec:
  assumes p: "p = getCPAptrFromOffset pa (cl_currMarkerOffset cl)" "cl_currMarkerOffset cl \<noteq> U32_MAX"
    and q: "q = getCPAptrFromOffset pa (cl_nextFreeByteOffset cl)"
    and dom: "extent p 164 \<subseteq> dom m" "extent q 164 \<subseteq> dom m" "extent p 164 \<inter> extent q 164 = {}"
    and flds: "load32 m (p + CLMarker_size) = Some 0" "load32 m (p + CLMarker_handlesBufOffset) = Some ho"
      "load32 m (p + CLMarker_shaderRecBufOffset) = Some so"
      "load32 m (p + CLMarker_uniformsBufOffset) = Some uo" "load32 m (p + CLMarker_shaderRecCount) = Some sc"
  shows "\<exists>m'. clInsertNewCLMarker h r N u ((m, pa), cl) = Some ((m', pa),
       cl\<lparr>cl_currMarkerOffset := cl_nextFreeByteOffset cl, cl_nextFreeByteOffset := cl_nextFreeByteOffset cl + 164\<rparr>) \<and>
     load32 m' (p + CLMarker_size) = Some (cl_nextFreeByteOffset cl - (cl_currMarkerOffset cl + 164)) \<and>
     load32 m' (p + CLMarker_nextMarkerOffset) = Some (cl_nextFreeByteOffset cl - cl_offset cl) \<and>
     load32 m' (p + CLMarker_shaderRecCount) = Some (N - sc) \<and>
     load32 m' (q + CLMarker_memGuard) = Some 0xDDDDDDDD \<and>
     load32 m' (q + CLMarker_nextMarkerOffset) = Some (- 1) \<and> load32 m' (q + CLMarker_size) = Some 0 \<and>
     load32 m' (q + CLMarker_handlesBufOffset) = Some (cl_nextFreeByteOffset h - cl_offset h) \<and>
     load32 m' (q + CLMarker_shaderRecBufOffset) = Some (cl_nextFreeByteOffset r - cl_offset r) \<and>
     load32 m' (q + CLMarker_uniformsBufOffset) = Some (cl_nextFreeByteOffset u - cl_offset u) \<and>
     load32 m' (q + CLMarker_shaderRecCount) = Some (N - sc) \<and> dom m' = dom m"
proof -
  obtain m1 where c: "clCloseCurrentMarker h r N u ((m, pa), cl) = Some ((m1, pa), cl)" "dom m1 = dom m"
    "load32 m1 (p + CLMarker_size) = Some (cl_nextFreeByteOffset cl - (cl_currMarkerOffset cl + sizeof_CLMarker))"
    "load32 m1 (p + CLMarker_handlesBufOffset) = Some ho" "load32 m1 (p + CLMarker_shaderRecBufOffset) = Some so"
    "load32 m1 (p + CLMarker_uniformsBufOffset) = Some uo"
    "load32 m1 (p + CLMarker_handlesSize) = Some (cl_nextFreeByteOffset h - (ho + cl_offset h))"
    "load32 m1 (p + CLMarker_shaderRecSize) = Some (cl_nextFreeByteOffset r - (so + cl_offset r))"
    "load32 m1 (p + CLMarker_uniformsSize) = Some (cl_nextFreeByteOffset u - (uo + cl_offset u))"
    "load32 m1 (p + CLMarker_shaderRecCount) = Some (N - sc)"
    using clClose_spec [OF p(1) dom(1) flds(2-5), of h r N u] by blast
  let ?ws = "marker_words (ho + (cl_nextFreeByteOffset h - (ho + cl_offset h)))
     (so + (cl_nextFreeByteOffset r - (so + cl_offset r))) (uo + (cl_nextFreeByteOffset u - (uo + cl_offset u))) (N - sc)"
  have len: "length ?ws = 41" "length (concat (map bytes32 ?ws)) = 164"
    by (simp_all add: length_concat comp_def sum_list_triv) (simp_all add: marker_words_def)
  have "extent q (length (concat (map bytes32 ?ws))) \<subseteq> dom m1" using dom(2) c(2) len by simp
  then obtain m2 where m2: "store_bytes m1 q (concat (map bytes32 ?ws)) = Some m2" using store_bytes_defined by blast
  have w2: "words_at m2 q ?ws" using store_words [OF m2] len by simp
  have f2: "m2 x = m1 x" if "x \<notin> extent q 164" for x using store_bytes_frame [OF m2] that len by simp
  have sub: "extent (p + of_nat k) 4 \<subseteq> extent p 164" "extent (q + of_nat k) 4 \<subseteq> extent q 164" if "k + 4 \<le> 164" for k
    using extent_mono [OF that, of p] extent_mono [OF that, of q] by (simp_all add: extent_add)
  have old: "load32 m2 (p + of_nat k) = load32 m1 (p + of_nat k)" if "k + 4 \<le> 164" for k
    using sub(1) [OF that] dom(3) by (intro load32_frame f2) blast
  have "extent (p + 4) 4 \<subseteq> dom m2" using sub(1) [of 4] dom(1) c(2) store_bytes_dom [OF m2] by auto
  then obtain m3 where m3: "store32 m2 (p + 4) (cl_nextFreeByteOffset cl - cl_offset cl) = Some m3"
    using store32_defined by blast
  have new: "load32 m3 (q + of_nat (4 * k)) = Some (?ws ! k)" if "k < 41" for k
  proof -
    have "extent (q + of_nat (4 * k)) 4 \<inter> extent (p + 4) 4 = {}"
      using sub(1) [of 4] sub(2) [of "4 * k"] that dom(3) by auto
    then have "load32 m3 (q + of_nat (4 * k)) = load32 m2 (q + of_nat (4 * k))"
      using store32_frame [OF m3] by (intro load32_frame) blast
    then show ?thesis using words_at_nth [OF w2, of k] that len by simp
  qed
  have "apart (p + 4) (p + 8)" "apart (p + 4) (p + 128)" by (simp_all add: apart_offsets apart_def extent_4)
  then have app: "load32 m3 (p + 8) = load32 m1 (p + 8)" "load32 m3 (p + 128) = load32 m1 (p + 128)"
    using load_store32_apart [OF m3] old [of 8] old [of 128] by simp_all
  have "clInsertNewCLMarker h r N u ((m, pa), cl) = Some ((m3, pa),
       cl\<lparr>cl_currMarkerOffset := cl_nextFreeByteOffset cl, cl_nextFreeByteOffset := cl_nextFreeByteOffset cl + 164\<rparr>)"
    using p(2) flds(1) c m2 m3
    by (simp add: clInsertNewCLMarker_def p(1) [symmetric] q [symmetric] sizeof_CLMarker_def CLMarker_nextMarkerOffset_def)
  then show ?thesis
    using new [of 0] new [of 1] new [of 2] new [of 28] new [of 30] new [of 33] new [of 32]
      app c(2,3,10) load_store32_same [OF m3] store_bytes_dom [OF m2] store32_dom [OF m3]
    by (intro exI [of _ m3]) (simp add: marker_offsets marker_words_def sizeof_CLMarker_def nth_list_update)
qed

text \<open>C15: opening a marker behind an open one closes that one and links it to the new marker; when the
  new marker is closed, its buffer offsets and sizes are those of the handles, shader records and
  uniforms added while it was open.  Its shader record count is the number of records added plus the
  count sc the previous marker started from, so it is exact only when that was 0.\<close>

theorem clMarker_chain:
  assumes p: "p = getCPAptrFromOffset pa (cl_currMarkerOffset cl)" "cl_currMarkerOffset cl \<noteq> U32_MAX"
    and q: "q = getCPAptrFromOffset pa (cl_nextFreeByteOffset cl)"
    and dom: "extent p 164 \<subseteq> dom m" "extent q 164 \<subseteq> dom m" "extent p 164 \<inter> extent q 164 = {}"
    and flds: "load32 m (p + CLMarker_size) = Some 0" "load32 m (p + CLMarker_handlesBufOffset) = Some ho"
      "load32 m (p + CLMarker_shaderRecBufOffset) = Some so"
      "load32 m (p + CLMarker_uniformsBufOffset) = Some uo" "load32 m (p + CLMarker_shaderRecCount) = Some sc"
  shows "\<exists>m' cl'. clInsertNewCLMarker h r N u ((m, pa), cl) \<bind> clCloseCurrentMarker h' r' N' u' =
       Some ((m', pa), cl') \<and>
     load32 m' (p + CLMarker_nextMarkerOffset) = Some (cl_nextFreeByteOffset cl - cl_offset cl) \<and>
     load32 m' (p + CLMarker_shaderRecCount) = Some (N - sc) \<and>
     load32 m' (q + CLMarker_handlesBufOffset) = Some (cl_nextFreeByteOffset h - cl_offset h) \<and>
     load32 m' (q + CLMarker_handlesSize) =
       Some ((cl_nextFreeByteOffset h' - cl_offset h') - (cl_nextFreeByteOffset h - cl_offset h)) \<and>
     load32 m' (q + CLMarker_shaderRecSize) =
       Some ((cl_nextFreeByteOffset r' - cl_offset r') - (cl_nextFreeByteOffset r - cl_offset r)) \<and>
     load32 m' (q + CLMarker_uniformsSize) =
       Some ((cl_nextFreeByteOffset u' - cl_offset u') - (cl_nextFreeByteOffset u - cl_offset u)) \<and>
     load32 m' (q + CLMarker_shaderRecCount) = Some (N' - N + sc)"
proof -
  let ?cl = "cl\<lparr>cl_currMarkerOffset := cl_nextFreeByteOffset cl, cl_nextFreeByteOffset := cl_nextFreeByteOffset cl + 164\<rparr>"
  obtain m1 where m1: "clInsertNewCLMarker h r N u ((m, pa), cl) = Some ((m1, pa), ?cl)"
    "load32 m1 (p + CLMarker_nextMarkerOffset) = Some (cl_nextFreeByteOffset cl - cl_offset cl)"
    "load32 m1 (p + CLMarker_shaderRecCount) = Some (N - sc)"
    "load32 m1 (q + CLMarker_handlesBufOffset) = Some (cl_nextFreeByteOffset h - cl_offset h)"
    "load32 m1 (q + CLMarker_shaderRecBufOffset) = Some (cl_nextFreeByteOffset r - cl_offset r)"
    "load32 m1 (q + CLMarker_uniformsBufOffset) = Some (cl_nextFreeByteOffset u - cl_offset u)"
    "load32 m1 (q + CLMarker_shaderRecCount) = Some (N - sc)" "dom m1 = dom m"
    using new_marker_spec [OF p q dom flds, of h r N u] by blast
  have q': "q = getCPAptrFromOffset pa (cl_currMarkerOffset ?cl)" using q by simp
  have dq: "extent q 164 \<subseteq> dom m1" using dom(2) m1(8) by simp
  from clClose_spec [OF q' dq m1(4-7), of h' r' N' u'] obtain m2 where
    m2: "clCloseCurrentMarker h' r' N' u' ((m1, pa), ?cl) = Some ((m2, pa), ?cl)"
    "load32 m2 (q + CLMarker_handlesBufOffset) = Some (cl_nextFreeByteOffset h - cl_offset h)"
    "load32 m2 (q + CLMarker_handlesSize) =
      Some (cl_nextFreeByteOffset h' - (cl_nextFreeByteOffset h - cl_offset h + cl_offset h'))"
    "load32 m2 (q + CLMarker_shaderRecSize) =
      Some (cl_nextFreeByteOffset r' - (cl_nextFreeByteOffset r - cl_offset r + cl_offset r'))"
    "load32 m2 (q + CLMarker_uniformsSize) =
      Some (cl_nextFreeByteOffset u' - (cl_nextFreeByteOffset u - cl_offset u + cl_offset u'))"
    "load32 m2 (q + CLMarker_shaderRecCount) = Some (N' - (N - sc))"
    "\<And>x. x \<in> extent q 164 \<or> m2 x = m1 x" by blast
  have old: "load32 m2 (p + of_nat k) = load32 m1 (p + of_nat k)" if "k + 4 \<le> 164" for k
  proof (rule load32_frame)
    fix x assume "x \<in> extent (p + of_nat k) 4"
    then have "x \<in> extent p 164" using extent_mono [OF that, of p] by (auto simp: extent_add)
    then show "m2 x = m1 x" using m2(7) [of x] dom(3) by blast
  qed
  show ?thesis unfolding m1(1) Option.bind.bind_lunit m2(1)
    using m1(2,3) m2(2-6) old [of 4] old [of 128]
    by (intro exI [of _ m2] exI [of _ ?cl]) (simp add: marker_offsets algebra_simps)
qed

lemma clMarker_chain_witness:
  "\<exists>m' pa cl'. clInsertNewCLMarker (clInit 0 512) (clInit 0 512) 2 (clInit 0 512)
       (fst ex_list, (snd ex_list)\<lparr>cl_currMarkerOffset := 0, cl_nextFreeByteOffset := 164\<rparr>) \<bind>
       clCloseCurrentMarker ((clInit 0 512)\<lparr>cl_nextFreeByteOffset := 8\<rparr>) (clInit 0 512) 5 (clInit 0 512) =
       Some ((m', pa), cl') \<and>
     load32 m' (4096 + CLMarker_nextMarkerOffset) = Some 164 \<and>
     load32 m' (4260 + CLMarker_handlesSize) = Some 8 \<and> load32 m' (4260 + CLMarker_shaderRecCount) = Some 3"
proof -
  obtain m pa cl0 where e: "ex_list = ((m, pa), cl0)" by (metis prod.exhaust)
  let ?cl = "cl0\<lparr>cl_currMarkerOffset := 0, cl_nextFreeByteOffset := 164\<rparr>"
  have m: "m = zero_mem 4096 512" "cpa_buf pa = 4096" "cl_offset cl0 = 0"
    using e by (auto simp: ex_list_def clInit_def)
  have p: "4096 = getCPAptrFromOffset pa (cl_currMarkerOffset ?cl)" "cl_currMarkerOffset ?cl \<noteq> U32_MAX"
    "4260 = getCPAptrFromOffset pa (cl_nextFreeByteOffset ?cl)" by (simp_all add: getCPAptrFromOffset_def m)
  have ext: "extent 4096 (164 + 164) = extent 4096 164 \<union> extent 4260 (164 :: nat)"
    unfolding extent_add by simp
  have "extent 4096 512 \<subseteq> dom m" unfolding m by (rule zero_mem_span) simp
  then have d: "extent 4096 164 \<subseteq> dom m" "extent 4260 164 \<subseteq> dom m"
    using ext extent_mono [of "164 + 164" 512 4096] by auto
  have "extent 4096 164 \<inter> extent 4260 164 = {}"
  proof (rule ccontr)
    assume "\<not> ?thesis"
    then obtain i j where "i < 164" "j < 164" "(4096 :: u32) + of_nat i = 4096 + of_nat (164 + j)"
      by (auto simp: extent_def)
    then show False using add_of_nat_inject [of i "164 + j" 4096] by simp
  qed
  moreover have "load32 m (4096 + CLMarker_size) = Some 0" "load32 m (4096 + CLMarker_handlesBufOffset) = Some 0"
    "load32 m (4096 + CLMarker_shaderRecBufOffset) = Some 0" "load32 m (4096 + CLMarker_uniformsBufOffset) = Some 0"
    "load32 m (4096 + CLMarker_shaderRecCount) = Some 0"
    by (simp_all add: m marker_offsets load32_def zero_mem_def le32_def)
  ultimately show ?thesis
    using clMarker_chain [OF p d, of 0 0 0 0 "clInit 0 512" "clInit 0 512" 2 "clInit 0 512"
        "(clInit 0 512)\<lparr>cl_nextFreeByteOffset := 8\<rparr>" "clInit 0 512" 5 "clInit 0 512"]
    unfolding e fst_conv snd_conv by (simp add: m clInit_def) blast
qed

end
