(* ===== verification/List_Fit.thy ===== *)
theory List_Fit
  imports Control_List
begin

text \<open>
  \<open>clFit\<close> of driver/common.c over the consecutive pool: growing a control list in place or by moving
  it keeps its bytes and makes room for the next command.
\<close>

unbundle bit_operations_syntax

lemma cpa_move_full:
  assumes "cpa_inv s ps" "new \<noteq> 0" "take_run (cpa_blockSize (snd s)) (unat new - 1) ps = None"
  shows "cpa_move s p n new = Some (s, -1)"
proof -
  have "consecutivePoolAllocate s new = Some (s, -1)"
    using cpa_allocate_spec [OF assms(1,2)] unfolding assms(3) option.case .
  then show ?thesis by (cases s) (simp add: cpa_move_def)
qed

text \<open>
  A list in the pool: its blocks are blocks \<open>i\<close> to \<open>i + n\<close> of the pool, none of them is free, and it
  is filled up to byte \<open>k\<close>.
\<close>

definition cl_placed :: "cpa_state \<Rightarrow> addr list \<Rightarrow> nat \<Rightarrow> nat \<Rightarrow> nat \<Rightarrow> ControlList \<Rightarrow> bool" where
  "cl_placed s ps i n k cl \<longleftrightarrow> 0 < n \<and> i + n \<le> unat (cpa_size (snd s)) div unat (cpa_blockSize (snd s)) \<and>
     set ps \<inter> set (run_of (snd s) i n) = {} \<and>
     cl_offset cl = of_nat (i * unat (cpa_blockSize (snd s))) \<and> cl_numBlocks cl = of_nat n \<and>
     cl_blockSize cl = cpa_blockSize (snd s) \<and> cl_nextFreeByteOffset cl = cl_offset cl + of_nat k \<and>
     k \<le> n * unat (cpa_blockSize (snd s))"

text \<open>The geometry of such a list.\<close>

lemma run_size:
  assumes area: "block_area m (cpa_buf pa) (cpa_blockSize pa) N" and b: "i + n \<le> N"
    and cl: "cl_offset cl = of_nat (i * unat (cpa_blockSize pa))" "cl_numBlocks cl = of_nat n"
      "cl_blockSize cl = cpa_blockSize pa"
  shows "cl_cap cl = n * unat (cpa_blockSize pa)" "unat (cl_offset cl) = i * unat (cpa_blockSize pa)"
    "unat (cpa_buf pa) + unat (cl_offset cl) + cl_cap cl < 2 ^ 32"
proof -
  have "(i + n) * unat (cpa_blockSize pa) \<le> N * unat (cpa_blockSize pa)" using b by (rule mult_le_mono1)
  then have le: "unat (cpa_buf pa) + i * unat (cpa_blockSize pa) + n * unat (cpa_blockSize pa) < 2 ^ 32"
    using area unfolding block_area_def by (simp add: algebra_simps)
  have n32: "n < 2 ^ 32" using b block_count_bound [OF area] by linarith
  show c: "cl_cap cl = n * unat (cpa_blockSize pa)"
    using le n32 by (simp add: cl_cap_def cl unat_word_ariths unat_of_nat_u32)
  show o: "unat (cl_offset cl) = i * unat (cpa_blockSize pa)"
    using le unfolding cl by (intro unat_of_nat_u32) linarith
  show "unat (cpa_buf pa) + unat (cl_offset cl) + cl_cap cl < 2 ^ 32" using le c o by simp
qed

lemma placed_room:
  assumes area: "block_area (fst s) (cpa_buf (snd s)) (cpa_blockSize (snd s)) N" and b: "i + n \<le> N"
    and cl: "cl_offset cl = of_nat (i * unat (cpa_blockSize (snd s)))" "cl_numBlocks cl = of_nat n"
      "cl_blockSize cl = cpa_blockSize (snd s)" "cl_nextFreeByteOffset cl = cl_offset cl + of_nat k"
    and k: "k + r \<le> n * unat (cpa_blockSize (snd s))"
  shows "cl_room (s, cl) r" "unat (cl_nextFreeByteOffset cl) = unat (cl_offset cl) + k"
    "cl_content (s, cl) = load_bytes (fst s) (block_at (cpa_buf (snd s)) (cpa_blockSize (snd s)) i) k"
proof -
  note g = run_size [OF area b cl(1-3)]
  show nx: "unat (cl_nextFreeByteOffset cl) = unat (cl_offset cl) + k"
    unfolding cl(4) using g k by (intro unat_add_of_nat) linarith
  have at: "cl_at (s, cl) (cl_offset cl) = block_at (cpa_buf (snd s)) (cpa_blockSize (snd s)) i"
    by (simp add: cl_at_def getCPAptrFromOffset_def cl(1) block_at_def)
  have "extent (block_at (cpa_buf (snd s)) (cpa_blockSize (snd s)) i) (n * unat (cpa_blockSize (snd s))) \<subseteq> dom (fst s)"
    using region_mapped [OF area b] by (simp add: region_def)
  then show "cl_room (s, cl) r" using nx g k by (simp add: cl_room_def cl_wf_def at)
  show "cl_content (s, cl) = load_bytes (fst s) (block_at (cpa_buf (snd s)) (cpa_blockSize (snd s)) i) k"
    using nx by (simp add: cl_content_def at)
qed

lemma load_bytes_part:
  assumes "load_bytes m a n = load_bytes m' b n" "k \<le> n" "load_bytes m a n \<noteq> None"
  shows "load_bytes m a k = load_bytes m' b k"
proof -
  obtain d where d: "n = k + d" using assms(2) le_Suc_ex by blast
  obtain bs where bs: "load_bytes m a n = Some bs" "load_bytes m' b n = Some bs" using assms by auto
  from bs(1) obtain x y where x: "load_bytes m a k = Some x" "bs = x @ y"
    unfolding d load_bytes_add bind_Some_iff by auto
  from bs(2) obtain x' y' where x': "load_bytes m' b k = Some x'" "bs = x' @ y'"
    unfolding d load_bytes_add bind_Some_iff by auto
  have "length x = length x'" using x(1) x'(1) load_bytes_length by metis
  with x x' show ?thesis by auto
qed

lemma placed_facts:
  assumes "cl_placed s ps i n k cl"
  shows "0 < n" "i + n \<le> unat (cpa_size (snd s)) div unat (cpa_blockSize (snd s))"
    "set ps \<inter> set (run_of (snd s) i n) = {}" "cl_offset cl = of_nat (i * unat (cpa_blockSize (snd s)))"
    "cl_numBlocks cl = of_nat n" "cl_blockSize cl = cpa_blockSize (snd s)"
    "cl_nextFreeByteOffset cl = cl_offset cl + of_nat k" "k \<le> n * unat (cpa_blockSize (snd s))"
  using assms by (simp_all add: cl_placed_def)

lemma placed_content:
  assumes inv: "cpa_inv s ps" and pl: "cl_placed s ps i n k cl"
  shows "cl_content (s, cl) = load_bytes (fst s) (block_at (cpa_buf (snd s)) (cpa_blockSize (snd s)) i) k"
    "cl_room (s, cl) (n * unat (cpa_blockSize (snd s)) - k)"
proof -
  note p = placed_facts [OF pl]
  have "k + (n * unat (cpa_blockSize (snd s)) - k) \<le> n * unat (cpa_blockSize (snd s))" using p(8) by simp
  from placed_room [OF cpa_invD(1) [OF inv] p(2,4-7) this]
  show "cl_content (s, cl) = load_bytes (fst s) (block_at (cpa_buf (snd s)) (cpa_blockSize (snd s)) i) k"
    "cl_room (s, cl) (n * unat (cpa_blockSize (snd s)) - k)" by simp_all
qed

lemma fit_near:
  assumes inv: "cpa_inv s ps" and pl: "cl_placed s ps i n k cl"
    and new: "n < unat new" "new - of_nat n < 2"
    and free: "block_at (cpa_buf (snd s)) (cpa_blockSize (snd s)) (i + n) \<in> set ps"
    and k: "k + r \<le> unat new * unat (cpa_blockSize (snd s))"
    and cl': "cl_offset cl' = cl_offset cl" "cl_numBlocks cl' = new" "cl_blockSize cl' = cl_blockSize cl"
      "cl_nextFreeByteOffset cl' = cl_offset cl + of_nat k"
  shows "\<exists>s'. consecutivePoolReAllocate s (block_at (cpa_buf (snd s)) (cpa_blockSize (snd s)) i) (of_nat n) new =
      Some (s', cl_offset cl) \<and> cl_room (s', cl') r \<and> cl_content (s', cl') = cl_content (s, cl)"
proof -
  let ?pa = "snd s" let ?bs = "cpa_blockSize ?pa" let ?b = "block_at (cpa_buf ?pa) ?bs"
  let ?N = "unat (cpa_size ?pa) div unat ?bs"
  note d = cpa_invD [OF inv] and p = placed_facts [OF pl]
  from free obtain xs ys where ps: "ps = xs @ ?b (i + n) # ys" by (meson split_list)
  have "?b (i + n) = ?b i + ?bs * of_nat n" by (rule block_at_add [symmetric])
  from cpa_realloc_near [OF inv [unfolded ps] new(2) this] obtain m' nx where
    re: "consecutivePoolReAllocate s (?b i) (of_nat n) new =
      Some ((m', ?pa\<lparr>cpa_nextFreeBlock := nx, cpa_numFreeBlocks := cpa_numFreeBlocks ?pa - 1\<rparr>), ?b i - cpa_buf ?pa)"
    "dom m' = dom (fst s)" "\<And>x. x \<in> (\<Union>p\<in>set ps. extent p 4) \<or> m' x = fst s x" unfolding ps by blast
  let ?pa' = "?pa\<lparr>cpa_nextFreeBlock := nx, cpa_numFreeBlocks := cpa_numFreeBlocks ?pa - 1\<rparr>"
  have n32: "unat (of_nat n :: u32) = n"
    using p(2) block_count_bound [OF d(1)] by (intro unat_of_nat_u32) linarith
  have "unat (new - of_nat n) = unat new - n" using new(1) n32 by (simp add: unat_sub_if_size)
  moreover have "unat (new - of_nat n) < 2" using new(2) by (simp add: word_less_nat_alt)
  ultimately have one: "unat new = n + 1" using new(1) by simp
  have inN: "i + n < ?N"
  proof (rule ccontr)
    assume "\<not> i + n < ?N"
    with p(2) have "i + n = ?N" by simp
    moreover obtain j where j: "j < ?N" "?b (i + n) = ?b j"
      using free d(4) by (auto simp: cpa_blocks_def set_blocks)
    ultimately show False using unat_block_at [OF d(1), of "i + n"] unat_block_at [OF d(1), of j] block_area_pos [OF d(1)]
      by simp
  qed
  have off: "?b i - cpa_buf ?pa = cl_offset cl" by (simp add: p(4) block_at_def)
  have area': "block_area (fst (m', ?pa')) (cpa_buf (snd (m', ?pa'))) (cpa_blockSize (snd (m', ?pa'))) ?N"
    using d(1) re(2) by (simp add: block_area_def)
  have num: "cl_numBlocks cl' = of_nat (n + 1)" using cl'(2) one unat_of_nat_self [of new] by simp
  have b': "i + (n + 1) \<le> ?N" using inN by simp
  have k': "k + r \<le> (n + 1) * unat (cpa_blockSize (snd (m', ?pa')))" using k one by simp
  note room = placed_room [OF area' b', of cl' k r]
  have "m' x = fst s x" if "x \<in> extent (?b i) k" for x
  proof -
    have "x \<in> region ?pa i n" using that extent_mono [OF p(8), of "?b i"] unfolding region_def by blast
    moreover have "set ps \<subseteq> set (blocks (cpa_buf ?pa) ?bs ?N)" using d(4) by (simp add: cpa_blocks_def)
    ultimately have "x \<notin> (\<Union>p\<in>set ps. extent p 4)" using region_cells_disjoint [OF d(1) p(2) _ p(3)] by blast
    then show ?thesis using re(3) by blast
  qed
  then have "load_bytes m' (?b i) k = load_bytes (fst s) (?b i) k" by (rule load_bytes_frame)
  then have "cl_content ((m', ?pa'), cl') = cl_content (s, cl)"
    using room(3) cl' num k' p(4,6) placed_content(1) [OF inv pl] by simp
  moreover have "cl_room ((m', ?pa'), cl') r" using room(1) cl' num k' p(4,6) by simp
  ultimately show ?thesis using re(1) unfolding off by blast
qed

lemma fit_moved:
  assumes inv: "cpa_inv s ps" and pl: "cl_placed s ps i n k cl" and new: "n < unat new"
    and avail: "take_run (cpa_blockSize (snd s)) (unat new - 1) ps \<noteq> None"
    and k: "k + r \<le> unat new * unat (cpa_blockSize (snd s))"
  shows "\<exists>s' off. cpa_move s (block_at (cpa_buf (snd s)) (cpa_blockSize (snd s)) i) (of_nat n) new = Some (s', off) \<and>
     (\<forall>cl'. cl_offset cl' = off \<and> cl_numBlocks cl' = new \<and> cl_blockSize cl' = cl_blockSize cl \<and>
        cl_nextFreeByteOffset cl' = off + of_nat k \<longrightarrow>
        cl_room (s', cl') r \<and> cl_content (s', cl') = cl_content (s, cl))"
proof -
  let ?pa = "snd s" let ?bs = "cpa_blockSize ?pa" let ?b = "block_at (cpa_buf ?pa) ?bs"
  let ?N = "unat (cpa_size ?pa) div unat ?bs"
  note d = cpa_invD [OF inv] and p = placed_facts [OF pl]
  have "n \<le> unat new" using new by simp
  from cpa_move_spec [OF inv p(1,2,3) this avail] obtain s' j xs ys where
    mv: "cpa_move s (?b i) (of_nat n) new = Some (s', of_nat (j * unat ?bs))" "j + unat new \<le> ?N"
      "load_bytes (fst s') (?b j) (n * unat ?bs) = load_bytes (fst s) (?b i) (n * unat ?bs)"
      "cpa_buf (snd s') = cpa_buf ?pa" "dom (fst s') = dom (fst s)" "cpa_blockSize (snd s') = ?bs" by blast
  have area': "block_area (fst s') (cpa_buf (snd s')) (cpa_blockSize (snd s')) ?N"
    using d(1) mv by (simp add: block_area_def)
  have "load_bytes (fst s') (?b j) (n * unat ?bs) \<noteq> None"
    using load_bytes_defined region_mapped [OF d(1) p(2)] unfolding region_def mv(3) by blast
  then have same: "load_bytes (fst s') (?b j) k = load_bytes (fst s) (?b i) k"
    by (rule load_bytes_part [OF mv(3) p(8)])
  have "cl_room (s', cl') r \<and> cl_content (s', cl') = cl_content (s, cl)"
    if "cl_offset cl' = of_nat (j * unat ?bs)" "cl_numBlocks cl' = new" "cl_blockSize cl' = cl_blockSize cl"
      "cl_nextFreeByteOffset cl' = of_nat (j * unat ?bs) + of_nat k" for cl'
  proof -
    have "cl_offset cl' = of_nat (j * unat (cpa_blockSize (snd s')))" "cl_numBlocks cl' = of_nat (unat new)"
      "cl_blockSize cl' = cpa_blockSize (snd s')" "cl_nextFreeByteOffset cl' = cl_offset cl' + of_nat k"
      "k + r \<le> unat new * unat (cpa_blockSize (snd s'))"
      using that mv(6) p(6) k by (simp_all only: unat_of_nat_self)
    note room = placed_room [OF area' mv(2) this]
    show ?thesis using room(1,3) same unfolding mv(4,6) placed_content(1) [OF inv pl] by simp
  qed
  with mv(1) show ?thesis by blast
qed

text \<open>C13: clFit gives a control list the space of a command: unless the pool has no run of blocks long
  enough, in which case the list is left with offset -1, the list has room for the command, holds
  the same bytes, and its current marker moved with it.\<close>

theorem clFit_makes_room:
  assumes inv: "cpa_inv s ps" and pl: "cl_placed s ps i n k cl" and sz: "k + unat cmd < 2 ^ 32"
  shows "\<exists>\<sigma>'. clFit (s, cl) cmd = Some \<sigma>' \<and>
     (cl_offset (snd \<sigma>') = -1 \<and>
        take_run (cpa_blockSize (snd s)) ((k + unat cmd) div unat (cpa_blockSize (snd s))) ps = None \<or>
      cl_room \<sigma>' (unat cmd) \<and> cl_content \<sigma>' = cl_content (s, cl) \<and>
      cl_currMarkerOffset (snd \<sigma>') = (if cl_currMarkerOffset cl = U32_MAX then U32_MAX
        else cl_offset (snd \<sigma>') + (cl_currMarkerOffset cl - cl_offset cl)))"
proof -
  let ?pa = "snd s" let ?bs = "cpa_blockSize ?pa" let ?b = "block_at (cpa_buf ?pa) ?bs"
  let ?N = "unat (cpa_size ?pa) div unat ?bs"
  note d = cpa_invD [OF inv]
  from pl have p: "0 < n" "i + n \<le> ?N" "set ps \<inter> set (run_of ?pa i n) = {}"
    "cl_offset cl = of_nat (i * unat ?bs)" "cl_numBlocks cl = of_nat n" "cl_blockSize cl = ?bs"
    "cl_nextFreeByteOffset cl = cl_offset cl + of_nat k" "k \<le> n * unat ?bs"
    by (simp_all add: cl_placed_def)
  note g = run_size [OF d(1) p(2,4-6)]
  have bs: "4 \<le> unat ?bs" using block_area_pos [OF d(1)] .
  have k32: "unat (of_nat k :: u32) = k" using p(8) g by (intro unat_of_nat_u32) linarith
  have add: "unat (of_nat k + cmd) = k + unat cmd"
    using sz k32 unat_add_lem [of "of_nat k" cmd] by simp
  have enough: "clHasEnoughSpace cl cmd \<longleftrightarrow> k + unat cmd \<le> n * unat ?bs"
    using add g(1) by (simp add: clHasEnoughSpace_def Let_def p(7) word_le_nat_alt cl_cap_def)
  let ?new = "(of_nat k + cmd) div ?bs + 1"
  have q32: "(k + unat cmd) div unat ?bs + 1 < 2 ^ 32"
  proof -
    have "(k + unat cmd) div unat ?bs \<le> (k + unat cmd) div 4" using bs by (intro div_le_mono2) auto
    moreover have "(k + unat cmd) div 4 < 2 ^ 30" using sz by (simp add: less_mult_imp_div_less)
    ultimately show ?thesis by simp
  qed
  have "unat ((of_nat k + cmd) div ?bs) = (k + unat cmd) div unat ?bs" by (simp add: unat_div add)
  then have new: "unat ?new = (k + unat cmd) div unat ?bs + 1"
    using q32 unat_add_of_nat [of "(of_nat k + cmd) div ?bs" 1] by simp
  have new_big: "k + unat cmd \<le> unat ?new * unat ?bs"
    unfolding new using bs dividend_less_div_times [of "unat ?bs" "k + unat cmd"] by simp
  show ?thesis
  proof (cases "k + unat cmd \<le> n * unat ?bs")
    case True
    then have "clFit (s, cl) cmd = Some (s, cl)" using enough by (simp add: clFit_def)
    moreover have "cl_room (s, cl) (unat cmd)" using placed_room(1) [OF d(1) p(2,4-7) True] .
    ultimately show ?thesis by auto
  next
    case False
    have ptr: "getCPAptrFromOffset ?pa (cl_offset cl) = ?b i"
      by (simp add: getCPAptrFromOffset_def p(4) block_at_def)
    have bs0: "?bs \<noteq> 0" using bs by auto
    have fit: "clFit (s, cl) cmd = (do { (s', newOffset) \<leftarrow> consecutivePoolReAllocate s (?b i) (of_nat n) ?new;
       Some (s', cl\<lparr>cl_offset := newOffset, cl_nextFreeByteOffset := newOffset + of_nat k, cl_numBlocks := ?new,
         cl_currMarkerOffset := (if cl_currMarkerOffset cl = U32_MAX then U32_MAX
           else newOffset + (cl_currMarkerOffset cl - cl_offset cl))\<rparr>) })"
      using False enough bs0 ptr p(5,7) by (simp add: clFit_def Let_def)
    have gt: "n < unat ?new"
    proof (rule ccontr)
      assume "\<not> n < unat ?new"
      then have "unat ?new * unat ?bs \<le> n * unat ?bs" by (intro mult_le_mono1) simp
      with new_big False show False by linarith
    qed
    show ?thesis
    proof (cases "?new - of_nat n < 2 \<and> ?b (i + n) \<in> set ps")
      case near: True
      let ?cl' = "cl\<lparr>cl_offset := cl_offset cl, cl_nextFreeByteOffset := cl_offset cl + of_nat k, cl_numBlocks := ?new,
         cl_currMarkerOffset := (if cl_currMarkerOffset cl = U32_MAX then U32_MAX
           else cl_offset cl + (cl_currMarkerOffset cl - cl_offset cl))\<rparr>"
      obtain s' where "consecutivePoolReAllocate s (?b i) (of_nat n) ?new = Some (s', cl_offset cl)"
        "cl_room (s', ?cl') (unat cmd)" "cl_content (s', ?cl') = cl_content (s, cl)"
        using fit_near [OF inv pl gt _ _ new_big, of ?cl'] near by auto
      then show ?thesis unfolding fit by simp
    next
      case far: False
      then have far': "\<not> ?new - of_nat n < 2 \<or> ?b (i + n) \<notin> set ps" by blast
      note re = cpa_realloc_far [OF inv far']
      show ?thesis
      proof (cases "take_run ?bs (unat ?new - 1) ps")
        case None
        have "?new \<noteq> 0" using gt by auto
        from cpa_move_full [OF inv this None] show ?thesis
          unfolding fit re using None new by simp
      next
        case (Some r)
        then have "take_run ?bs (unat ?new - 1) ps \<noteq> None" by simp
        from fit_moved [OF inv pl gt this new_big] obtain s' off where
          mv: "cpa_move s (?b i) (of_nat n) ?new = Some (s', off)"
          "\<And>cl'. cl_offset cl' = off \<and> cl_numBlocks cl' = ?new \<and> cl_blockSize cl' = cl_blockSize cl \<and>
            cl_nextFreeByteOffset cl' = off + of_nat k \<Longrightarrow>
            cl_room (s', cl') (unat cmd) \<and> cl_content (s', cl') = cl_content (s, cl)" by blast
        show ?thesis unfolding fit re mv(1) using mv(2) by simp
      qed
    qed
  qed
qed

lemma clFit_makes_room_witness:
  "\<exists>s \<sigma>'. cpa_inv s [4128, 4144] \<and>
     clFit (s, (clInit 0 16)\<lparr>cl_nextFreeByteOffset := 16\<rparr>) 5 = Some \<sigma>' \<and> cl_room \<sigma>' 5 \<and>
     cl_content \<sigma>' = cl_content (s, (clInit 0 16)\<lparr>cl_nextFreeByteOffset := 16\<rparr>)"
proof -
  obtain s where s: "cpa_inv s [4128, 4144]" "cpa_buf (snd s) = 4096" "cpa_blockSize (snd s) = 16"
    "cpa_size (snd s) = 64" by (rule cpa_example_taken)
  let ?cl = "(clInit 0 16)\<lparr>cl_nextFreeByteOffset := 16\<rparr>"
  have pl: "cl_placed s [4128, 4144] 0 1 16 ?cl"
    using s by (simp add: cl_placed_def clInit_def set_run_of block_at_def)
  have t: "take_run 16 1 [4128, 4144] = Some (4128, [])" by code_simp
  obtain \<sigma>' where f: "clFit (s, ?cl) 5 = Some \<sigma>'"
    "cl_offset (snd \<sigma>') = -1 \<and> take_run (cpa_blockSize (snd s)) ((16 + unat (5 :: u32)) div unat (cpa_blockSize (snd s))) [4128, 4144] = None \<or>
      cl_room \<sigma>' (unat (5 :: u32)) \<and> cl_content \<sigma>' = cl_content (s, ?cl)"
    using clFit_makes_room [OF s(1) pl, of 5] by auto
  have "take_run (cpa_blockSize (snd s)) ((16 + unat (5 :: u32)) div unat (cpa_blockSize (snd s))) [4128, 4144] \<noteq> None"
    using s(3) t by simp
  then have "cl_room \<sigma>' (unat (5 :: u32)) \<and> cl_content \<sigma>' = cl_content (s, ?cl)" using f(2) by argo
  moreover have "unat (5 :: u32) = 5" by simp
  ultimately show ?thesis using s(1) f(1) by metis
qed

end
