(* ===== verification/Qpu_Encode.thy ===== *)
theory Qpu_Encode
  imports Prelude
begin

text \<open>
  QPUassembler: the instruction words of the QPU shader cores.  This theory holds the name tables and
  the small immediates of \<open>vc4_qpu_defines.h\<close> and the six encoders of \<open>qpu_assembler.c\<close>, and shows that
  each encoder fills its 64 bits so that every field reads back.  An enum of the source is an
  \<open>unsigned int\<close>, here \<open>u32\<close>: the assembler stores numbers in it that name no constant.
\<close>

unbundle bit_operations_syntax

subsection \<open>Name tables\<close>

text \<open>
  An array of names with designated initialisers: \<open>n\<close> entries, a null pointer where no name is
  given.
\<close>

type_synonym names = "string option list"

definition names_of :: "nat \<Rightarrow> (nat \<times> string) list \<Rightarrow> names" where
  "names_of n es = map (map_of es) [0..<n]"

definition qpu_sig_bits_str :: names where
  "qpu_sig_bits_str = map Some [''sig_brk'', ''sig_none'', ''sig_thread_switch'', ''sig_end'',
     ''sig_wait_score'', ''sig_unlock_score'', ''sig_last_thread_switch'', ''sig_coverage_load'',
     ''sig_color_load'', ''sig_color_load_end'', ''sig_load_tmu0'', ''sig_load_tmu1'',
     ''sig_alpha_mask_load'', ''sig_small_imm'', ''sig_load_imm'', ''sig_branch'']"

definition qpu_cond_str :: names where
  "qpu_cond_str = map Some [''never'', ''always'', ''zs'', ''zc'', ''ns'', ''nc'', ''cs'', ''cc'']"

definition qpu_mux_str :: names where
  "qpu_mux_str = map Some [''r0'', ''r1'', ''r2'', ''r3'', ''r4'', ''r5'', ''a'', ''b'']"

definition qpu_unpack_str :: names where
  "qpu_unpack_str = map Some [''nop'', ''16a'', ''16b'', ''8d_rep'', ''8a'', ''8b'', ''8c'', ''8d'']"

definition qpu_pack_a_str :: names where
  "qpu_pack_a_str = names_of 16 [(0, ''nop''), (1, ''16a''), (2, ''16b''), (3, ''8888''), (4, ''8a''),
     (5, ''8b''), (6, ''8c''), (7, ''8d''), (8, ''sat''), (9, ''16a.sat''),
     (10, ''16b.sat''), (11, ''8888.sat''), (12, ''8a.sat''), (13, ''8b.sat''), (14, ''8c.sat''), (15, ''8d.sat'')]"

definition qpu_pack_mul_str :: names where
  "qpu_pack_mul_str = names_of 8 [(0, ''nop''), (3, ''8888''), (4, ''8a''), (5, ''8b''), (6, ''8c''),
     (7, ''8d'')]"

definition qpu_branch_cond_str :: names where
  "qpu_branch_cond_str = names_of 16 [(0, ''all_zs''), (1, ''all_zc''), (2, ''any_zs''),
     (3, ''any_zc''), (4, ''all_ns''), (5, ''all_nc''), (6, ''any_ns''), (7, ''any_nc''),
     (8, ''all_cs''), (9, ''all_cc''), (10, ''any_cs''), (11, ''any_cc''), (15, ''always'')]"

definition qpu_op_add_str :: names where
  "qpu_op_add_str = names_of 32 [(0, ''nop''), (1, ''fadd''), (2, ''fsub''), (3, ''fmin''),
     (4, ''fmax''), (5, ''fminabs''), (6, ''fmaxabs''), (7, ''ftoi''), (8, ''itof''), (12, ''add''),
     (13, ''sub''), (14, ''shr''), (15, ''asr''), (16, ''ror''), (17, ''shl''), (18, ''min''),
     (19, ''max''), (20, ''and''), (21, ''or''), (22, ''xor''), (23, ''not''), (24, ''clz''),
     (30, ''v8adds''), (31, ''v8subs'')]"

definition qpu_op_mul_str :: names where
  "qpu_op_mul_str = map Some [''nop'', ''fmul'', ''mul24'', ''v8muld'', ''v8min'', ''v8max'',
     ''v8adds'', ''v8subs'']"

definition qpu_raddr_str :: "names list" where
  "qpu_raddr_str = [
     names_of 52 [(15, ''pay_zw''), (32, ''uni''), (35, ''vary''), (38, ''elem''), (39, ''nop''),
       (41, ''x_pix''), (42, ''ms_flags''), (48, ''vpm_read''), (49, ''vpm_ld_busy''),
       (50, ''vpm_ld_wait''), (51, ''mutex_acq'')],
     names_of 52 [(15, ''pay_zw''), (32, ''uni''), (35, ''vary''), (38, ''elem''), (39, ''nop''),
       (41, ''y_pix''), (42, ''rev_flag''), (48, ''vpm_read''), (49, ''vpm_st_busy''),
       (50, ''vpm_st_wait''), (51, ''mutex_acq'')]]"

definition qpu_waddr_str :: "names list" where
  "qpu_waddr_str = [
     names_of 64 [(32, ''r0''), (33, ''r1''), (34, ''r2''), (35, ''r3''), (36, ''tmu_noswap''),
       (37, ''r5''), (38, ''host_int''), (39, ''nop''), (40, ''uniforms_addr''), (41, ''quad_x''),
       (42, ''ms_flags''), (43, ''tlb_stencil_setup''), (44, ''tlb_z''), (45, ''tlb_color_ms''),
       (46, ''tlb_color_all''), (48, ''vpm''), (49, ''vr_setup''), (50, ''vr_addr''),
       (51, ''mutex_release''), (52, ''sfu_recip''), (53, ''sfu_recipsqrt''), (54, ''sfu_exp''),
       (55, ''sfu_log''), (56, ''tmu0_s''), (57, ''tmu0_t''), (58, ''tmu0_r''), (59, ''tmu0_b''),
       (60, ''tmu1_s''), (61, ''tmu1_t''), (62, ''tmu1_r''), (63, ''tmu1_b'')],
     names_of 64 [(32, ''r0''), (33, ''r1''), (34, ''r2''), (35, ''r3''), (36, ''tmu_noswap''),
       (37, ''r5''), (38, ''host_int''), (39, ''nop''), (40, ''uniforms_addr''), (41, ''quad_y''),
       (42, ''rev_flags''), (43, ''tlb_stencil_setup''), (44, ''tlb_z''), (45, ''tlb_color_ms''),
       (46, ''tlb_color_all''), (48, ''vpm''), (49, ''vw_setup''), (50, ''vw_addr''),
       (51, ''mutex_release''), (52, ''sfu_recip''), (53, ''sfu_recipsqrt''), (54, ''sfu_exp''),
       (55, ''sfu_log''), (56, ''tmu0_s''), (57, ''tmu0_t''), (58, ''tmu0_r''), (59, ''tmu0_b''),
       (60, ''tmu1_s''), (61, ''tmu1_t''), (62, ''tmu1_r''), (63, ''tmu1_b'')]]"

text \<open>Small immediates: the value for the \<open>raddr_b\<close> field, or 0xff where there is none.\<close>

definition qpu_encode_small_immediate :: "u32 \<Rightarrow> u8" where
  "qpu_encode_small_immediate i = (
     if i \<le> 15 then ucast i
     else if sint i < 0 \<and> -16 \<le> sint i then ucast (i + 32)
     else if i = 0x3f800000 then 32
     else if i = 0x40000000 then 33
     else if i = 0x40800000 then 34
     else if i = 0x41000000 then 35
     else if i = 0x41800000 then 36
     else if i = 0x42000000 then 37
     else if i = 0x42800000 then 38
     else if i = 0x43000000 then 39
     else if i = 0x3b800000 then 40
     else if i = 0x3c000000 then 41
     else if i = 0x3c800000 then 42
     else if i = 0x3d000000 then 43
     else if i = 0x3d800000 then 44
     else if i = 0x3e000000 then 45
     else if i = 0x3e800000 then 46
     else if i = 0x3f000000 then 47
     else 255)"

subsection \<open>Encoders\<close>

definition encode_alu ::
  "u32 \<Rightarrow> u32 \<Rightarrow> u8 \<Rightarrow> u8 \<Rightarrow> u32 \<Rightarrow> u32 \<Rightarrow> u8 \<Rightarrow> u8 \<Rightarrow> u32 \<Rightarrow> u32 \<Rightarrow> u32 \<Rightarrow> u32 \<Rightarrow> u32 \<Rightarrow> u32 \<Rightarrow>
   u32 \<Rightarrow> u32 \<Rightarrow> u32 \<Rightarrow> u32 \<Rightarrow> u64" where
  "encode_alu sig_bits unpack_mode pack_unpack_select pack_mode add_cond mul_cond set_flags
     write_swap_flag waddr_add waddr_mul op_add op_mul raddr_a raddr_b add_a add_b mul_a mul_b =
     bits_at 4 60 (ucast sig_bits)
     OR bits_at 3 57 (ucast unpack_mode)
     OR bits_at 1 56 (ucast pack_unpack_select)
     OR bits_at 4 52 (ucast pack_mode)
     OR bits_at 3 49 (ucast add_cond)
     OR bits_at 3 46 (ucast mul_cond)
     OR bits_at 1 45 (ucast set_flags)
     OR bits_at 1 44 (ucast write_swap_flag)
     OR bits_at 6 38 (ucast waddr_add)
     OR bits_at 6 32 (ucast waddr_mul)
     OR bits_at 3 29 (ucast op_mul)
     OR bits_at 5 24 (ucast op_add)
     OR bits_at 6 18 (ucast raddr_a)
     OR bits_at 6 12 (ucast raddr_b)
     OR bits_at 3 9 (ucast add_a)
     OR bits_at 3 6 (ucast add_b)
     OR bits_at 3 3 (ucast mul_a)
     OR bits_at 3 0 (ucast mul_b)"

definition encode_alu_small_imm ::
  "u32 \<Rightarrow> u8 \<Rightarrow> u8 \<Rightarrow> u32 \<Rightarrow> u32 \<Rightarrow> u8 \<Rightarrow> u8 \<Rightarrow> u32 \<Rightarrow> u32 \<Rightarrow> u32 \<Rightarrow> u32 \<Rightarrow> u32 \<Rightarrow> u8 \<Rightarrow>
   u32 \<Rightarrow> u32 \<Rightarrow> u32 \<Rightarrow> u32 \<Rightarrow> u64" where
  "encode_alu_small_imm unpack_mode pack_unpack_select pack_mode add_cond mul_cond set_flags
     write_swap_flag waddr_add waddr_mul op_add op_mul raddr_a small_imm add_a add_b mul_a mul_b =
     encode_alu 0xd unpack_mode pack_unpack_select pack_mode add_cond mul_cond set_flags
       write_swap_flag waddr_add waddr_mul op_add op_mul raddr_a (ucast small_imm)
       add_a add_b mul_a mul_b"

definition encode_branch ::
  "u32 \<Rightarrow> u8 \<Rightarrow> u8 \<Rightarrow> u32 \<Rightarrow> u8 \<Rightarrow> u32 \<Rightarrow> u32 \<Rightarrow> u32 \<Rightarrow> u64" where
  "encode_branch branch_cond is_relative use_raddr_a raddr_a write_swap_bit waddr_add waddr_mul imm =
     push_bit 60 0xf
     OR bits_at 4 52 (ucast branch_cond)
     OR bits_at 1 51 (ucast is_relative)
     OR bits_at 1 50 (ucast use_raddr_a)
     OR bits_at 5 45 (ucast raddr_a)
     OR bits_at 1 44 (ucast write_swap_bit)
     OR bits_at 6 38 (ucast waddr_add)
     OR bits_at 6 32 (ucast waddr_mul)
     OR ucast imm"

definition encode_semaphore ::
  "u8 \<Rightarrow> u8 \<Rightarrow> u32 \<Rightarrow> u32 \<Rightarrow> u8 \<Rightarrow> u8 \<Rightarrow> u32 \<Rightarrow> u32 \<Rightarrow> u8 \<Rightarrow> u8 \<Rightarrow> u32 \<Rightarrow> u64" where
  "encode_semaphore pack_unpack_select pack_mode cond_add cond_mul set_flags write_swap
     waddr_add waddr_mul incr_sem sem imm_val =
     push_bit 57 0x74
     OR bits_at 1 56 (ucast pack_unpack_select)
     OR bits_at 4 52 (ucast pack_mode)
     OR bits_at 3 49 (ucast cond_add)
     OR bits_at 3 46 (ucast cond_mul)
     OR bits_at 1 45 (ucast set_flags)
     OR bits_at 1 44 (ucast write_swap)
     OR bits_at 6 38 (ucast waddr_add)
     OR bits_at 6 32 (ucast waddr_mul)
     OR bits_at 27 5 (ucast imm_val)
     OR bits_at 1 4 (ucast incr_sem)
     OR bits_at 4 0 (ucast sem)"

definition encode_load_imm ::
  "u8 \<Rightarrow> u8 \<Rightarrow> u32 \<Rightarrow> u32 \<Rightarrow> u8 \<Rightarrow> u8 \<Rightarrow> u32 \<Rightarrow> u32 \<Rightarrow> u32 \<Rightarrow> u64" where
  "encode_load_imm pack_unpack_select pack_mode cond_add cond_mul set_flags write_swap
     waddr_add waddr_mul imm =
     push_bit 57 0x70
     OR bits_at 1 56 (ucast pack_unpack_select)
     OR bits_at 4 52 (ucast pack_mode)
     OR bits_at 3 49 (ucast cond_add)
     OR bits_at 3 46 (ucast cond_mul)
     OR bits_at 1 45 (ucast set_flags)
     OR bits_at 1 44 (ucast write_swap)
     OR bits_at 6 38 (ucast waddr_add)
     OR bits_at 6 32 (ucast waddr_mul)
     OR ucast imm"

definition encode_load_imm_per_elem ::
  "u8 \<Rightarrow> u8 \<Rightarrow> u8 \<Rightarrow> u32 \<Rightarrow> u32 \<Rightarrow> u8 \<Rightarrow> u8 \<Rightarrow> u32 \<Rightarrow> u32 \<Rightarrow> u16 \<Rightarrow> u16 \<Rightarrow> u64" where
  "encode_load_imm_per_elem signed_or_unsigned pack_unpack_select pack_mode cond_add cond_mul
     set_flags write_swap waddr_add waddr_mul ms_bit ls_bit =
     push_bit 57 (0x71 OR push_bit 1 (if signed_or_unsigned = 0 then 1 else 0))
     OR bits_at 1 56 (ucast pack_unpack_select)
     OR bits_at 4 52 (ucast pack_mode)
     OR bits_at 3 49 (ucast cond_add)
     OR bits_at 3 46 (ucast cond_mul)
     OR bits_at 1 45 (ucast set_flags)
     OR bits_at 1 44 (ucast write_swap)
     OR bits_at 6 38 (ucast waddr_add)
     OR bits_at 6 32 (ucast waddr_mul)
     OR push_bit 16 (ucast ms_bit)
     OR ucast ls_bit"

subsection \<open>Reading the words\<close>

text \<open>C19: every field of an ALU instruction word reads back as the argument of the encoder, reduced to
  the width of the field; no two fields overlap.\<close>

theorem encode_alu_fields:
  fixes sg un ca cm wa wm oa om ra rb aa ab ma mb :: u32 and pm pk sf ws :: u8
  defines "w \<equiv> encode_alu sg un pm pk ca cm sf ws wa wm oa om ra rb aa ab ma mb"
  shows "field 4 60 w = ucast sg AND mask 4 \<and> field 3 57 w = ucast un AND mask 3 \<and>
    field 1 56 w = ucast pm AND mask 1 \<and> field 4 52 w = ucast pk AND mask 4 \<and>
    field 3 49 w = ucast ca AND mask 3 \<and> field 3 46 w = ucast cm AND mask 3 \<and>
    field 1 45 w = ucast sf AND mask 1 \<and> field 1 44 w = ucast ws AND mask 1 \<and>
    field 6 38 w = ucast wa AND mask 6 \<and> field 6 32 w = ucast wm AND mask 6 \<and>
    field 3 29 w = ucast om AND mask 3 \<and> field 5 24 w = ucast oa AND mask 5 \<and>
    field 6 18 w = ucast ra AND mask 6 \<and> field 6 12 w = ucast rb AND mask 6 \<and>
    field 3 9 w = ucast aa AND mask 3 \<and> field 3 6 w = ucast ab AND mask 3 \<and>
    field 3 3 w = ucast ma AND mask 3 \<and> field 3 0 w = ucast mb AND mask 3"
  unfolding w_def encode_alu_def by (simp add: fields)



lemma field_low: "32 \<le> p \<Longrightarrow> field n p (ucast (x :: u32) :: u64) = 0"
  by (rule bit_word_eqI) (auto simp: bit_field bit_simps dest: bit_imp_le_length)

lemma field_low16:
  "16 \<le> p \<Longrightarrow> field n p (ucast (x :: u16) :: u64) = 0"
  "32 \<le> p \<Longrightarrow> field n p (push_bit 16 (ucast (x :: u16)) :: u64) = 0"
  by (rule bit_word_eqI; auto simp: bit_field bit_simps dest: bit_imp_le_length)+

lemma field_tops:
  "field 4 60 (push_bit 60 0xf :: u64) = 15" "field 7 57 (push_bit 57 0x74 :: u64) = 0x74"
  "field 7 57 (push_bit 57 0x70 :: u64) = 0x70" "field 7 57 (push_bit 57 (0x71 OR push_bit 1 1) :: u64) = 0x73"
  "field 7 57 (push_bit 57 (0x71 OR push_bit 1 0) :: u64) = 0x71"
  by code_simp+

lemma field_zeros:
  "field 4 52 (push_bit 60 0xf :: u64) = 0" "field 5 45 (push_bit 60 0xf :: u64) = 0"
  "field 27 5 (push_bit 57 0x74 :: u64) = 0" "field 1 4 (push_bit 57 0x74 :: u64) = 0"
  "field 4 0 (push_bit 57 0x74 :: u64) = 0" "field 32 0 (push_bit 60 0xf :: u64) = 0"
  "field 32 0 (push_bit 57 0x70 :: u64) = 0" "field 16 0 (push_bit 57 (0x71 OR push_bit 1 1) :: u64) = 0"
  "field 16 0 (push_bit 57 (0x71 OR push_bit 1 0) :: u64) = 0" "field 16 16 (push_bit 57 (0x71 OR push_bit 1 1) :: u64) = 0"
  "field 16 16 (push_bit 57 (0x71 OR push_bit 1 0) :: u64) = 0"
  by code_simp+

lemma field_own:
  "field 32 0 (ucast (x :: u32) :: u64) = ucast x" "field 16 0 (ucast (y :: u16) :: u64) = ucast y"
  "field 16 16 (push_bit 16 (ucast y) :: u64) = ucast y" "field 16 0 (push_bit 16 (ucast y) :: u64) = 0"
  by (rule bit_word_eqI; auto simp: bit_field bit_simps dest: bit_imp_le_length)+

text \<open>The other instruction words can be told apart, and their operands read back: signal 15 is a
  branch, the top seven bits 0x74 are a semaphore operation, 0x70 a load of 32 bits, 0x71 and 0x73 a
  signed and an unsigned load per element.\<close>

theorem encoders_formats:
  "field 4 60 (encode_branch bc rel reg ra ws wa wm imm) = 15 \<and>
     field 4 52 (encode_branch bc rel reg ra ws wa wm imm) = ucast bc AND mask 4 \<and>
     field 5 45 (encode_branch bc rel reg ra ws wa wm imm) = ucast ra AND mask 5 \<and>
     field 32 0 (encode_branch bc rel reg ra ws wa wm imm) = ucast imm \<and>
   field 7 57 (encode_semaphore pm pk ca cm sf ws wa wm inc sem imm) = 0x74 \<and>
     field 27 5 (encode_semaphore pm pk ca cm sf ws wa wm inc sem imm) = ucast imm AND mask 27 \<and>
     field 1 4 (encode_semaphore pm pk ca cm sf ws wa wm inc sem imm) = ucast inc AND mask 1 \<and>
     field 4 0 (encode_semaphore pm pk ca cm sf ws wa wm inc sem imm) = ucast sem AND mask 4 \<and>
   field 7 57 (encode_load_imm pm pk ca cm sf ws wa wm imm) = 0x70 \<and>
     field 32 0 (encode_load_imm pm pk ca cm sf ws wa wm imm) = ucast imm \<and>
   field 7 57 (encode_load_imm_per_elem sn pm pk ca cm sf ws wa wm msb lsb) = (if sn = 0 then 0x73 else 0x71) \<and>
     field 16 0 (encode_load_imm_per_elem sn pm pk ca cm sf ws wa wm msb lsb) = ucast lsb \<and>
     field 16 16 (encode_load_imm_per_elem sn pm pk ca cm sf ws wa wm msb lsb) = ucast msb"
proof -
  have branch: "field 4 60 (encode_branch bc rel reg ra ws wa wm imm) = 15"
    "field 4 52 (encode_branch bc rel reg ra ws wa wm imm) = ucast bc AND mask 4"
    "field 5 45 (encode_branch bc rel reg ra ws wa wm imm) = ucast ra AND mask 5"
    unfolding encode_branch_def by (simp_all only: field_or field_tops field_zeros) (simp_all add: fields field_low)
  have sem: "field 7 57 (encode_semaphore pm pk ca cm sf ws wa wm inc sem imm) = 0x74"
    "field 27 5 (encode_semaphore pm pk ca cm sf ws wa wm inc sem imm) = ucast imm AND mask 27"
    "field 1 4 (encode_semaphore pm pk ca cm sf ws wa wm inc sem imm) = ucast inc AND mask 1"
    "field 4 0 (encode_semaphore pm pk ca cm sf ws wa wm inc sem imm) = ucast sem AND mask 4"
    unfolding encode_semaphore_def by (simp_all only: field_or field_tops field_zeros) (simp_all add: fields)
  have load: "field 7 57 (encode_load_imm pm pk ca cm sf ws wa wm imm) = 0x70"
    unfolding encode_load_imm_def by (simp_all only: field_or field_tops) (simp add: fields field_low)
  have elem: "field 7 57 (encode_load_imm_per_elem sn pm pk ca cm sf ws wa wm msb lsb) = (if sn = 0 then 0x73 else 0x71)"
    unfolding encode_load_imm_per_elem_def
    by (cases "sn = 0") (simp_all only: field_or field_tops if_True if_False simp_thms, simp_all add: fields field_low16)
  have low: "field 32 0 (encode_branch bc rel reg ra ws wa wm imm) = ucast imm"
    "field 32 0 (encode_load_imm pm pk ca cm sf ws wa wm imm) = ucast imm"
    unfolding encode_branch_def encode_load_imm_def
    by (simp_all only: field_or field_zeros) (simp_all add: fields field_own)
  have elem_low: "field 16 0 (encode_load_imm_per_elem sn pm pk ca cm sf ws wa wm msb lsb) = ucast lsb"
    "field 16 16 (encode_load_imm_per_elem sn pm pk ca cm sf ws wa wm msb lsb) = ucast msb"
    unfolding encode_load_imm_per_elem_def
    by (cases "sn = 0"; simp only: field_or field_zeros if_True if_False simp_thms; simp add: fields field_low16 field_own)+
  show ?thesis using branch sem load elem low elem_low by (intro conjI)
qed

end
