(* ===== verification/Qpu_Text.thy ===== *)
theory Qpu_Text
  imports Qpu_Encode
begin

text \<open>
  The assembler of QPUassembler/qpu_assembler.c.  It works in place on a NUL-terminated buffer with the
  \<open>strtok\<close> of the C library, whose state is the buffer and the position where the next call without
  a string goes on.  A \<open>char*\<close> into the buffer is a position, the null pointer is \<open>None\<close>; a read or a
  write outside the buffer makes the result \<open>None\<close>.  The parse functions, which write through
  pointers to the locals of \<open>assemble_qpu_asm\<close>, update the record of these locals.
\<close>

unbundle bit_operations_syntax

subsection \<open>Strings and the C library\<close>

abbreviation NUL :: char where
  "NUL \<equiv> CHR 0x00"

definition spaces :: string where
  "spaces = [CHR '' '', CHR 0x0A, CHR 0x0B, CHR 0x0C, CHR 0x0D, CHR 0x09]"

text \<open>The C string at a position: the characters up to the next NUL.\<close>

definition cstr :: "string \<Rightarrow> nat \<Rightarrow> string option" where
  "cstr buf p = (let s = drop p buf in
     if NUL \<in> set s then Some (takeWhile (\<lambda>c. c \<noteq> NUL) s) else None)"

type_synonym ptr = "nat option"
type_synonym toks = "string \<times> nat"

definition strtok :: "ptr \<Rightarrow> string \<Rightarrow> toks \<Rightarrow> (ptr \<times> toks) option" where
  "strtok s delims t = (let (buf, saved) = t; p = (case s of Some p \<Rightarrow> p | None \<Rightarrow> saved) in do {
     str \<leftarrow> cstr buf p;
     let lead = takeWhile (\<lambda>c. c \<in> set delims) str;
     let tk = takeWhile (\<lambda>c. c \<notin> set delims) (dropWhile (\<lambda>c. c \<in> set delims) str);
     let q = p + length lead;
     let e = q + length tk;
     if tk = [] then Some (None, buf, q)
     else if buf ! e = NUL then Some (Some q, buf, e)
     else Some (Some q, buf[e := NUL], e + 1) })"

text \<open>\<open>while(*p) p++; p += 1\<close>\<close>

definition skip_past :: "ptr \<Rightarrow> toks \<Rightarrow> nat option" where
  "skip_past s t = do { p \<leftarrow> s; str \<leftarrow> cstr (fst t) p; Some (p + length str + 1) }"

definition digit_val :: "char \<Rightarrow> int option" where
  "digit_val c = (let n = (of_char c :: int) in
     if 48 \<le> n \<and> n \<le> 57 then Some (n - 48)
     else if 97 \<le> n \<and> n \<le> 122 then Some (n - 87)
     else if 65 \<le> n \<and> n \<le> 90 then Some (n - 55)
     else None)"

fun digits :: "int \<Rightarrow> int \<Rightarrow> string \<Rightarrow> int" where
  "digits b acc [] = acc"
| "digits b acc (c # cs) = (case digit_val c of
     Some d \<Rightarrow> (if d < b then digits b (acc * b + d) cs else acc) | None \<Rightarrow> acc)"

text \<open>\<open>strtoul(s, 0, 0)\<close>, with the 32-bit \<open>unsigned long\<close> of the target.\<close>

definition strtoul :: "string \<Rightarrow> u32" where
  "strtoul s = (
     let s1 = dropWhile (\<lambda>c. c \<in> set spaces) s;
         neg = (take 1 s1 = ''-'');
         s2 = (if neg \<or> take 1 s1 = ''+'' then drop 1 s1 else s1);
         hex = (take 2 s2 = ''0x'' \<or> take 2 s2 = ''0X'') \<and>
           (case drop 2 s2 of [] \<Rightarrow> False | c # _ \<Rightarrow> (case digit_val c of Some d \<Rightarrow> d < 16 | None \<Rightarrow> False));
         v = (if hex then digits 16 0 (drop 2 s2)
              else if take 1 s2 = ''0'' then digits 8 0 s2 else digits 10 0 s2)
     in if 2 ^ 32 \<le> v then U32_MAX else if neg then - word_of_int v else word_of_int v)"

text \<open>The first index with a name, as the search loops over the tables find it.\<close>

definition name_index :: "names \<Rightarrow> string \<Rightarrow> nat option" where
  "name_index ns s = (let i = length (takeWhile (\<lambda>n. n \<noteq> Some s) ns) in
     if i < length ns then Some i else None)"

text \<open>The result variable of such a loop, 0 if nothing is found; a second table is searched only
  while the result is 0.\<close>

definition name_code :: "names \<Rightarrow> string \<Rightarrow> u8" where
  "name_code ns s = (case name_index ns s of Some i \<Rightarrow> of_nat i | None \<Rightarrow> 0)"

definition name_code2 :: "names \<Rightarrow> names \<Rightarrow> string \<Rightarrow> u8" where
  "name_code2 ns ns' s = (if name_code ns s = 0 then name_code ns' s else name_code ns s)"

subsection \<open>The locals of \<open>assemble_qpu_asm\<close>\<close>

datatype qpu_alu_type = QPU_ALU | QPU_SEM | QPU_BRANCH | QPU_LOAD_IMM

datatype qpu_load_type = QPU_LOAD32 | QPU_LOAD16

record qpu_insn =
  q_sig_bit :: u32
  q_type :: qpu_alu_type
  q_op_add :: u32
  q_op_mul :: u32
  q_mul_a :: u32
  q_mul_b :: u32
  q_add_a :: u32
  q_add_b :: u32
  q_cond_mul :: u32
  q_cond_add :: u32
  q_waddr_add :: u32
  q_waddr_mul :: u32
  q_raddr_a :: u32
  q_raddr_b :: u32
  q_pack_unpack_select :: u8
  q_pack_mode :: u8
  q_unpack_mode :: u32
  q_is_sem_inc :: u8
  q_rel :: u8
  q_reg :: u8
  q_ws :: u8
  q_sf :: u8
  q_imm32 :: u32
  q_ms_imm16 :: u16
  q_ls_imm16 :: u16
  q_semaphore :: u8
  q_load_type :: qpu_load_type
  q_is_signed :: u8
  q_branch_cond :: u32

definition qpu_insn_init :: qpu_insn where
  "qpu_insn_init = \<lparr>q_sig_bit = 1, q_type = QPU_ALU, q_op_add = 0, q_op_mul = 0,
     q_mul_a = 0, q_mul_b = 0, q_add_a = 0, q_add_b = 0, q_cond_mul = 0, q_cond_add = 0,
     q_waddr_add = 39, q_waddr_mul = 39, q_raddr_a = 39, q_raddr_b = 39,
     q_pack_unpack_select = 0, q_pack_mode = 0, q_unpack_mode = 0, q_is_sem_inc = 0, q_rel = 0, q_reg = 0,
     q_ws = 0, q_sf = 0, q_imm32 = 0, q_ms_imm16 = 0, q_ls_imm16 = 0, q_semaphore = 0,
     q_load_type = QPU_LOAD32, q_is_signed = 0, q_branch_cond = 15\<rparr>"

subsection \<open>Parsing\<close>

text \<open>The \<open>-1\<close> of an unknown signal is stored in an unsigned enum.\<close>

definition parse_sig_bit :: "string \<Rightarrow> u32" where
  "parse_sig_bit str = (case name_index qpu_sig_bits_str str of Some c \<Rightarrow> of_nat c | None \<Rightarrow> -1)"

definition parse_dst :: "ptr \<Rightarrow> bool \<Rightarrow> bool \<Rightarrow> u8 \<Rightarrow> toks \<Rightarrow> (ptr \<times> u32 \<times> u8 \<times> toks) option" where
  "parse_dst str is_add pm_set pack_mode t = do {
     (dst, t) \<leftarrow> strtok str ''.'' t;
     (pack, t) \<leftarrow> strtok None ''.'' t;
     (case dst of
       None \<Rightarrow> Some (str, 0, (if is_add \<or> pm_set then 0 else pack_mode), t)
     | Some d \<Rightarrow> do {
         str' \<leftarrow> skip_past (case pack of Some _ \<Rightarrow> pack | None \<Rightarrow> dst) t;
         s \<leftarrow> cstr (fst t) d;
         let waddr_res = (if take 2 s = ''rx'' then ucast (strtoul (drop 2 s))
           else name_code2 (qpu_waddr_str ! 0) (qpu_waddr_str ! 1) s);
         pack_mode_res \<leftarrow> (case pack of None \<Rightarrow> Some 0
           | Some p \<Rightarrow> do { ps \<leftarrow> cstr (fst t) p; Some (name_code2 qpu_pack_a_str qpu_pack_mul_str ps) });
         Some (Some str', ucast waddr_res, (if is_add \<or> pm_set then pack_mode_res else pack_mode), t) }) }"

text \<open>One modifier, in the order in which the loop compares.\<close>

definition apply_modifier :: "bool \<Rightarrow> string \<Rightarrow> qpu_insn \<Rightarrow> qpu_insn" where
  "apply_modifier is_add s q = (
     if s = ''pm'' \<and> is_add then q\<lparr>q_pack_unpack_select := 1\<rparr>
     else if s = ''ws'' \<and> is_add then q\<lparr>q_ws := 1\<rparr>
     else if s = ''rel'' \<and> is_add then q\<lparr>q_rel := 1\<rparr>
     else if s = ''reg'' \<and> is_add then q\<lparr>q_reg := 1\<rparr>
     else if s = ''sf'' \<and> is_add then q\<lparr>q_sf := 1\<rparr>
     else if s = ''signed'' \<and> is_add then q\<lparr>q_is_signed := 1\<rparr>
     else case name_index qpu_cond_str s of
       Some d \<Rightarrow> (if is_add then q\<lparr>q_cond_add := of_nat d\<rparr> else q\<lparr>q_cond_mul := of_nat d\<rparr>)
     | None \<Rightarrow> (if is_add then (case name_index qpu_unpack_str s of
         Some d \<Rightarrow> q\<lparr>q_unpack_mode := of_nat d\<rparr> | None \<Rightarrow> q) else q))"

text \<open>The rounds of the loop that are left; a round without a modifier does nothing.\<close>

fun modifier_loop :: "nat \<Rightarrow> bool \<Rightarrow> ptr \<Rightarrow> ptr \<Rightarrow> qpu_insn \<Rightarrow> toks \<Rightarrow> (ptr \<times> qpu_insn \<times> toks) option" where
  "modifier_loop 0 is_add modifier str q t = Some (str, q, t)"
| "modifier_loop (Suc k) is_add None str q t = Some (str, q, t)"
| "modifier_loop (Suc k) is_add (Some p) str q t = do {
     s \<leftarrow> cstr (fst t) p;
     (modifier', t') \<leftarrow> strtok None ''.'' t;
     modifier_loop k is_add modifier' (Some p) (apply_modifier is_add s q) t' }"

definition parse_op_modifiers :: "ptr \<Rightarrow> bool \<Rightarrow> qpu_insn \<Rightarrow> toks \<Rightarrow> (ptr \<times> qpu_insn \<times> toks) option" where
  "parse_op_modifiers str is_add q t = do {
     (modifier, t) \<leftarrow> strtok str ''.'' t;
     (str, q, t) \<leftarrow> modifier_loop 5 is_add modifier str q t;
     e \<leftarrow> skip_past str t;
     Some (Some e, q, t) }"

definition apply_op :: "bool \<Rightarrow> string option \<Rightarrow> qpu_insn \<Rightarrow> qpu_insn" where
  "apply_op is_add op q = (
     if op = Some ''sem_inc'' then q\<lparr>q_type := QPU_SEM, q_is_sem_inc := 1\<rparr>
     else if op = Some ''sem_dec'' then q\<lparr>q_type := QPU_SEM, q_is_sem_inc := 0\<rparr>
     else if op = Some ''branch'' then q\<lparr>q_type := QPU_BRANCH\<rparr>
     else if op = Some ''load32'' then q\<lparr>q_type := QPU_LOAD_IMM, q_load_type := QPU_LOAD32\<rparr>
     else if op = Some ''load16'' then q\<lparr>q_type := QPU_LOAD_IMM, q_load_type := QPU_LOAD16\<rparr>
     else case op of None \<Rightarrow> q\<lparr>q_type := QPU_ALU\<rparr>
       | Some s \<Rightarrow> (if is_add
           then (case name_index qpu_op_add_str s of
             Some c \<Rightarrow> q\<lparr>q_type := QPU_ALU, q_op_add := of_nat c\<rparr> | None \<Rightarrow> q\<lparr>q_type := QPU_ALU\<rparr>)
           else (case name_index qpu_op_mul_str s of
             Some c \<Rightarrow> q\<lparr>q_type := QPU_ALU, q_op_mul := of_nat c\<rparr> | None \<Rightarrow> q\<lparr>q_type := QPU_ALU\<rparr>)))"

text \<open>The C string of a pointer that may be null.\<close>

definition str_at :: "ptr \<Rightarrow> toks \<Rightarrow> string option option" where
  "str_at p t = (case p of None \<Rightarrow> Some None | Some p \<Rightarrow> map_option Some (cstr (fst t) p))"

definition parse_op :: "ptr \<Rightarrow> bool \<Rightarrow> qpu_insn \<Rightarrow> toks \<Rightarrow> (ptr \<times> qpu_insn \<times> toks) option" where
  "parse_op str is_add q t = do {
     (op, t) \<leftarrow> strtok str ''.'' t;
     s \<leftarrow> str_at op t;
     e \<leftarrow> skip_past (case op of Some _ \<Rightarrow> op | None \<Rightarrow> str) t;
     Some (Some e, apply_op is_add s q, t) }"

definition arg_delims :: string where
  "arg_delims = spaces @ '',''"

text \<open>A number register: its name in the tables, or the number behind its prefix.\<close>

definition raddr_number :: "string \<Rightarrow> u8 \<Rightarrow> string \<Rightarrow> u8" where
  "raddr_number prefix res s = (if res = 0 \<and> take 2 s = prefix then ucast (strtoul (drop 2 s)) else res)"

definition parse_args_alu ::
  "ptr \<Rightarrow> bool \<Rightarrow> bool \<Rightarrow> qpu_insn \<Rightarrow> toks \<Rightarrow> (ptr \<times> qpu_insn \<times> toks) option" where
  "parse_args_alu str is_add is_si q t = do {
     (arg, t) \<leftarrow> strtok str arg_delims t;
     s \<leftarrow> str_at arg t;
     let in_a = Option.bind s (name_index qpu_mux_str);
     let str = (if in_a = None then str else arg);
     let q = (case in_a of None \<Rightarrow> q
       | Some c \<Rightarrow> if is_add then q\<lparr>q_add_a := of_nat c\<rparr> else q\<lparr>q_mul_a := of_nat c\<rparr>);
     (arg, t) \<leftarrow> strtok None arg_delims t;
     s \<leftarrow> str_at arg t;
     let in_b = Option.bind s (name_index qpu_mux_str);
     let str = (if in_b = None then str else arg);
     let q = (case in_b of None \<Rightarrow> q
       | Some c \<Rightarrow> if is_add then q\<lparr>q_add_b := of_nat c\<rparr> else q\<lparr>q_mul_b := of_nat c\<rparr>);
     (arg, t) \<leftarrow> strtok None arg_delims t;
     s \<leftarrow> str_at arg t;
     let str = (if s = None then str else arg);
     let q = (case s of None \<Rightarrow> q
       | Some a \<Rightarrow> q\<lparr>q_raddr_a := ucast (raddr_number ''ra'' (name_code (qpu_raddr_str ! 0) a) a)\<rparr>);
     (arg, t) \<leftarrow> strtok None arg_delims t;
     s \<leftarrow> str_at arg t;
     let str = (if s = None then str else arg);
     let q = (case s of None \<Rightarrow> q
       | Some b \<Rightarrow> q\<lparr>q_raddr_b := ucast (if is_si then qpu_encode_small_immediate (strtoul b)
           else raddr_number ''rb'' (name_code2 (qpu_raddr_str ! 0) (qpu_raddr_str ! 1) b) b)\<rparr>);
     e \<leftarrow> skip_past str t;
     Some (Some e, q, t) }"

definition parse_args_sem :: "ptr \<Rightarrow> qpu_insn \<Rightarrow> toks \<Rightarrow> (ptr \<times> qpu_insn \<times> toks) option" where
  "parse_args_sem str q t = do {
     (arg, t) \<leftarrow> strtok str arg_delims t;
     s \<leftarrow> str_at arg t;
     let q = (case s of None \<Rightarrow> q | Some a \<Rightarrow> q\<lparr>q_semaphore := ucast (strtoul a)\<rparr>);
     let str = (if s = None then str else arg);
     (arg, t) \<leftarrow> strtok None arg_delims t;
     s \<leftarrow> str_at arg t;
     let q = (case s of None \<Rightarrow> q | Some a \<Rightarrow> q\<lparr>q_imm32 := strtoul a\<rparr>);
     let str = (if s = None then str else arg);
     e \<leftarrow> skip_past str t;
     Some (Some e, q, t) }"

definition parse_args_branch :: "ptr \<Rightarrow> qpu_insn \<Rightarrow> toks \<Rightarrow> (ptr \<times> qpu_insn \<times> toks) option" where
  "parse_args_branch str q t = do {
     (arg, t) \<leftarrow> strtok str arg_delims t;
     s \<leftarrow> str_at arg t;
     let q = (case s of None \<Rightarrow> q | Some a \<Rightarrow> q\<lparr>q_imm32 := strtoul a\<rparr>);
     let str = (if s = None then str else arg);
     (arg, t) \<leftarrow> strtok None arg_delims t;
     s \<leftarrow> str_at arg t;
     let c = Option.bind s (name_index qpu_branch_cond_str);
     let q = (case c of None \<Rightarrow> q | Some c \<Rightarrow> q\<lparr>q_branch_cond := of_nat c\<rparr>);
     let str = (if c = None then str else arg);
     (arg, t) \<leftarrow> strtok None arg_delims t;
     s \<leftarrow> str_at arg t;
     let q = (case s of None \<Rightarrow> q
       | Some a \<Rightarrow> q\<lparr>q_raddr_a :=
           ucast (raddr_number ''ra'' (name_code2 (qpu_raddr_str ! 0) (qpu_raddr_str ! 1) a) a)\<rparr>);
     let str = (if s = None then str else arg);
     e \<leftarrow> skip_past str t;
     Some (Some e, q, t) }"

definition parse_args_load :: "ptr \<Rightarrow> qpu_insn \<Rightarrow> toks \<Rightarrow> (ptr \<times> qpu_insn \<times> toks) option" where
  "parse_args_load str q t = do {
     (arg, t) \<leftarrow> strtok str arg_delims t;
     s \<leftarrow> str_at arg t;
     let str = (if s = None then str else arg);
     (str, q, t) \<leftarrow> (case q_load_type q of
       QPU_LOAD32 \<Rightarrow> Some (str, (case s of None \<Rightarrow> q | Some a \<Rightarrow> q\<lparr>q_imm32 := strtoul a\<rparr>), t)
     | QPU_LOAD16 \<Rightarrow> do {
         let q = (case s of None \<Rightarrow> q | Some a \<Rightarrow> q\<lparr>q_ms_imm16 := ucast (strtoul a)\<rparr>);
         (arg, t) \<leftarrow> strtok None arg_delims t;
         s \<leftarrow> str_at arg t;
         let q = (case s of None \<Rightarrow> q | Some a \<Rightarrow> q\<lparr>q_ls_imm16 := ucast (strtoul a)\<rparr>);
         Some ((if s = None then str else arg), q, t) });
     e \<leftarrow> skip_past str t;
     Some (Some e, q, t) }"

subsection \<open>The assembler\<close>

text \<open>
  Comments are overwritten with blanks up to and including the end of the line.  The loop that
  looks for the end of the line does not stop at the end of the string.
\<close>

fun strip_comments :: "bool \<Rightarrow> string \<Rightarrow> string option" where
  "strip_comments in_comment [] = None"
| "strip_comments False (c # cs) = (
     if c = NUL then Some (c # cs)
     else if c = CHR ''#'' then map_option ((#) (CHR '' '')) (strip_comments True cs)
     else map_option ((#) c) (strip_comments False cs))"
| "strip_comments True (c # cs) = map_option ((#) (CHR '' '')) (strip_comments (c \<noteq> CHR 0x0A) cs)"

text \<open>The operation of one of the two pipelines with its modifiers.\<close>

definition assemble_op :: "bool \<Rightarrow> ptr \<Rightarrow> qpu_insn \<Rightarrow> toks \<Rightarrow> (ptr \<times> qpu_insn \<times> toks) option" where
  "assemble_op is_add token q t = do {
     (token, t) \<leftarrow> strtok token (spaces @ ''=('') t;
     p \<leftarrow> token;
     s \<leftarrow> cstr (fst t) p;
     let has_modifiers = (CHR ''.'' \<in> set s);
     (token, q, t) \<leftarrow> parse_op token is_add q t;
     if has_modifiers then parse_op_modifiers token is_add q t else Some (token, q, t) }"

definition assemble_args :: "ptr \<Rightarrow> qpu_insn \<Rightarrow> toks \<Rightarrow> (ptr \<times> qpu_insn \<times> toks) option" where
  "assemble_args token q t = do {
     (token, t) \<leftarrow> strtok token '')'' t;
     (case q_type q of
       QPU_ALU \<Rightarrow> parse_args_alu token True (q_sig_bit q = 13) q t
     | QPU_SEM \<Rightarrow> parse_args_sem token q t
     | QPU_BRANCH \<Rightarrow> parse_args_branch token q t
     | QPU_LOAD_IMM \<Rightarrow> parse_args_load token q t) }"

definition emit_instruction :: "qpu_insn \<Rightarrow> u64" where
  "emit_instruction q = (case q_type q of
     QPU_ALU \<Rightarrow>
       (if q_sig_bit q = 13
        then encode_alu_small_imm (q_unpack_mode q) (q_pack_unpack_select q) (q_pack_mode q)
          (q_cond_add q) (q_cond_mul q) (q_sf q) (q_ws q) (q_waddr_add q) (q_waddr_mul q)
          (q_op_add q) (q_op_mul q) (q_raddr_a q) (ucast (q_raddr_b q))
          (q_add_a q) (q_add_b q) (q_mul_a q) (q_mul_b q)
        else encode_alu (q_sig_bit q) (q_unpack_mode q) (q_pack_unpack_select q) (q_pack_mode q)
          (q_cond_add q) (q_cond_mul q) (q_sf q) (q_ws q) (q_waddr_add q) (q_waddr_mul q)
          (q_op_add q) (q_op_mul q) (q_raddr_a q) (q_raddr_b q)
          (q_add_a q) (q_add_b q) (q_mul_a q) (q_mul_b q))
   | QPU_SEM \<Rightarrow> encode_semaphore (q_pack_unpack_select q) (q_pack_mode q) (q_cond_add q)
       (q_cond_mul q) (q_sf q) (q_ws q) (q_waddr_add q) (q_waddr_mul q) (q_is_sem_inc q)
       (q_semaphore q) (q_imm32 q)
   | QPU_BRANCH \<Rightarrow> encode_branch (q_branch_cond q) (q_rel q) (q_reg q) (q_raddr_a q) (q_ws q)
       (q_waddr_add q) (q_waddr_mul q) (q_imm32 q)
   | QPU_LOAD_IMM \<Rightarrow> (case q_load_type q of
       QPU_LOAD32 \<Rightarrow> encode_load_imm (q_pack_unpack_select q) (q_pack_mode q) (q_cond_add q)
         (q_cond_mul q) (q_sf q) (q_ws q) (q_waddr_add q) (q_waddr_mul q) (q_imm32 q)
     | QPU_LOAD16 \<Rightarrow> encode_load_imm_per_elem (q_is_signed q) (q_pack_unpack_select q) (q_pack_mode q)
         (q_cond_add q) (q_cond_mul q) (q_sf q) (q_ws q) (q_waddr_add q) (q_waddr_mul q)
         (q_ms_imm16 q) (q_ls_imm16 q)))"

text \<open>One round of the loop, from the signal token at \<open>p\<close> to the next signal token.\<close>

definition assemble_step :: "nat \<Rightarrow> toks \<Rightarrow> (u64 \<times> ptr \<times> toks) option" where
  "assemble_step p t = do {
     s \<leftarrow> cstr (fst t) p;
     let q = qpu_insn_init\<lparr>q_sig_bit := parse_sig_bit s\<rparr>;
     (token, t) \<leftarrow> strtok None (spaces @ ''=;'') t;
     (token, waddr, pack_mode, t) \<leftarrow> parse_dst token True False (q_pack_mode q) t;
     let q = q\<lparr>q_waddr_add := waddr, q_pack_mode := pack_mode\<rparr>;
     (token, q, t) \<leftarrow> assemble_op True token q t;
     (token, q, t) \<leftarrow> assemble_args token q t;
     (token, t) \<leftarrow> strtok token (spaces @ ''=;'') t;
     (token, waddr, pack_mode, t) \<leftarrow>
       parse_dst token False (q_pack_unpack_select q \<noteq> 0) (q_pack_mode q) t;
     let q = q\<lparr>q_waddr_mul := waddr, q_pack_mode := pack_mode\<rparr>;
     (token, q, t) \<leftarrow> assemble_op False token q t;
     (token, t) \<leftarrow> strtok token '')'' t;
     (token, q, t) \<leftarrow> (if q_type q = QPU_ALU
       then parse_args_alu token False (q_sig_bit q = 13) q t else Some (token, q, t));
     (token, t) \<leftarrow> strtok token (spaces @ '';'') t;
     Some (emit_instruction q, token, t) }"

partial_function (option) assemble_loop :: "ptr \<Rightarrow> toks \<Rightarrow> u64 list option" where
  "assemble_loop token t = (case token of
     None \<Rightarrow> Some []
   | Some p \<Rightarrow> Option.bind (assemble_step p t) (\<lambda>(w, token', t').
       Option.bind (assemble_loop token' t') (\<lambda>ws. Some (w # ws))))"

declare assemble_loop.simps [code]

definition assemble_qpu_asm :: "string \<Rightarrow> u64 list option" where
  "assemble_qpu_asm str = do {
     buf \<leftarrow> strip_comments False str;
     (token, t) \<leftarrow> strtok (Some 0) (spaces @ '';'') (buf, 0);
     assemble_loop token t }"

text \<open>The number of instructions: every third semicolon ends one.\<close>

definition after_semicolon :: "string \<Rightarrow> string option" where
  "after_semicolon s = (case dropWhile (\<lambda>c. c \<noteq> CHR '';'') s of [] \<Rightarrow> None | c # cs \<Rightarrow> Some cs)"

lemma after_semicolon_length: "after_semicolon s = Some s' \<Longrightarrow> length s' < length s"
proof -
  assume "after_semicolon s = Some s'"
  then obtain c where "dropWhile (\<lambda>c. c \<noteq> CHR '';'') s = c # s'"
    by (auto simp: after_semicolon_def split: list.splits)
  then show ?thesis using length_dropWhile_le [of "\<lambda>c. c \<noteq> CHR '';''" s] by simp
qed

function get_num_instructions :: "string \<Rightarrow> u32" where
  "get_num_instructions s = (case after_semicolon s of None \<Rightarrow> 0
     | Some s1 \<Rightarrow> (case after_semicolon s1 of None \<Rightarrow> 0
     | Some s2 \<Rightarrow> (case after_semicolon s2 of None \<Rightarrow> 0
     | Some s3 \<Rightarrow> 1 + get_num_instructions s3)))"
  by auto

termination
  by (relation "measure length") (auto dest!: after_semicolon_length)

end
