(* ===== verification/Qpu_Disasm.thy ===== *)
theory Qpu_Disasm
  imports Qpu_Text
begin

text \<open>
  The disassembler of QPUassembler/qpu_assembler.c, as the text it prints: \<open>None\<close> where it passes a
  null pointer to \<open>printf\<close> for a \<open>%s\<close>, reads a name table out of bounds or shifts by a negative
  distance.
\<close>

unbundle bit_operations_syntax

subsection \<open>Output\<close>

function show_num :: "int \<Rightarrow> int \<Rightarrow> string" where
  "show_num b n = (if b \<le> 1 \<or> n < b then [''0123456789abcdef'' ! nat n]
     else show_num b (n div b) @ [''0123456789abcdef'' ! nat (n mod b)])"
  by auto

termination
proof (relation "measure (\<lambda>(b, n). nat n)")
  fix b n :: int
  assume "\<not> (b \<le> 1 \<or> n < b)"
  then have "n div b < n" by (intro int_div_less_self) auto
  then show "((b, n div b), (b, n)) \<in> measure (\<lambda>(b, n). nat n)"
    using \<open>\<not> (b \<le> 1 \<or> n < b)\<close> by simp
qed simp

declare show_num.simps [simp del]

text \<open>\<open>%d\<close> and \<open>%#x\<close>\<close>

definition show_d :: "int \<Rightarrow> string" where
  "show_d i = (if i < 0 then ''-'' @ show_num 10 (- i) else show_num 10 i)"

definition show_x :: "u32 \<Rightarrow> string" where
  "show_x w = (if w = 0 then ''0'' else ''0x'' @ show_num 16 (uint w))"

definition name_at :: "names \<Rightarrow> u32 \<Rightarrow> string option" where
  "name_at ns i = (if unat i < length ns then ns ! unat i else None)"

definition get_bitfield :: "u64 \<Rightarrow> u64 \<Rightarrow> nat \<Rightarrow> u64" where
  "get_bitfield w num_bits place = drop_bit place (w AND push_bit place num_bits)"

text \<open>The bits of the \<open>float\<close> that is \<open>2^e\<close>.\<close>

definition float_pow2 :: "int \<Rightarrow> u32" where
  "float_pow2 e = word_of_int ((127 + e) * 2 ^ 23)"

definition show_waddr :: "u8 \<Rightarrow> u32 \<Rightarrow> string option" where
  "show_waddr table waddr = (if waddr \<le> 31 then Some (''rx'' @ show_d (uint waddr))
     else name_at (qpu_waddr_str ! unat table) waddr)"

definition show_raddr :: "nat \<Rightarrow> string \<Rightarrow> u32 \<Rightarrow> string option" where
  "show_raddr table prefix raddr = (
     if raddr \<le> 31 then (if raddr = 15 then Some ''pay_zw'' else Some (prefix @ show_d (uint raddr)))
     else name_at (qpu_raddr_str ! table) raddr)"

definition show_small_imm :: "u32 \<Rightarrow> string option" where
  "show_small_imm raddr_b = (
     if raddr_b < 16 then Some (show_d (uint raddr_b))
     else if raddr_b < 32 then Some (show_d (uint raddr_b - 32))
     else if raddr_b < 40 then Some (show_x (float_pow2 (uint raddr_b - 32)))
     else if raddr_b \<le> 48 then Some (show_x (float_pow2 (uint raddr_b - 48)))
     else None)"

definition flag :: "u8 \<Rightarrow> string \<Rightarrow> string" where
  "flag b s = (if b \<noteq> 0 then s else '''')"

subsection \<open>The four formats\<close>

definition disassemble_sem :: "u64 \<Rightarrow> u32 \<Rightarrow> u8 \<Rightarrow> u8 \<Rightarrow> string option" where
  "disassemble_sem w waddr_mul ws pm = do {
     let pack_mode = (ucast (get_bitfield w 0xf 52) :: u32);
     pack_s \<leftarrow> (if ws = 0 \<and> pm = 0 then map_option ((@) ''.'') (name_at qpu_pack_a_str pack_mode)
       else Some '''');
     let op = (if get_bitfield w 1 4 \<noteq> 0 then ''sem_inc'' else ''sem_dec'');
     cond_add \<leftarrow> name_at qpu_cond_str (ucast (get_bitfield w 7 49));
     let sf = (ucast (get_bitfield w 1 45) :: u8);
     let sem = (ucast (get_bitfield w 0xf 0) :: u32);
     let imm_val = (ucast (get_bitfield w 0x7ffffff 5) :: u32);
     dst_mul \<leftarrow> show_waddr (if ws = 0 then 1 else 0) waddr_mul;
     pack_mul \<leftarrow> (if pm \<noteq> 0 then map_option ((@) ''.'') (name_at qpu_pack_mul_str pack_mode)
       else Some '''');
     cond_mul \<leftarrow> name_at qpu_cond_str (ucast (get_bitfield w 7 46));
     Some (pack_s @ '' = '' @ op @ flag ws ''.ws'' @ flag pm ''.pm'' @ ''.'' @ cond_add @ flag sf ''.sf'' @
       ''('' @ show_d (uint sem) @ '', '' @ show_x imm_val @ '') ; '' @ dst_mul @ pack_mul @ '' = '' @ op @
       ''.'' @ cond_mul @ ''() ;'') }"

definition disassemble_load :: "u64 \<Rightarrow> u32 \<Rightarrow> u8 \<Rightarrow> u8 \<Rightarrow> string option" where
  "disassemble_load w waddr_mul ws pm = do {
     let is_load32 = (get_bitfield w 0x7f 57 = 0x70);
     let is_signed = (get_bitfield w 1 58 = 0);
     let pack_mode = (ucast (get_bitfield w 0xf 52) :: u32);
     pack_s \<leftarrow> (if ws = 0 \<and> pm = 0 then map_option ((@) ''.'') (name_at qpu_pack_a_str pack_mode)
       else Some '''');
     let op = (if is_load32 then ''load32'' else ''load16'');
     cond_add \<leftarrow> name_at qpu_cond_str (ucast (get_bitfield w 7 49));
     let sf = (ucast (get_bitfield w 1 45) :: u8);
     let args = (if is_load32 then ''('' @ show_x (ucast (get_bitfield w 0xffffffff 0)) @ '') ; ''
       else (if is_signed then ''.signed'' else '''') @ ''('' @ show_x (ucast (get_bitfield w 0xffff 16)) @ '', '' @
         show_x (ucast (get_bitfield w 0xffff 0)) @ '') ; '');
     dst_mul \<leftarrow> show_waddr (if ws = 0 then 1 else 0) waddr_mul;
     pack_mul \<leftarrow> (if pm \<noteq> 0 then map_option ((@) ''.'') (name_at qpu_pack_mul_str pack_mode)
       else Some '''');
     cond_mul \<leftarrow> name_at qpu_cond_str (ucast (get_bitfield w 7 46));
     Some (pack_s @ '' = '' @ op @ flag ws ''.ws'' @ flag pm ''.pm'' @ ''.'' @ cond_add @ flag sf ''.sf'' @
       args @ dst_mul @ '' = '' @ op @ pack_mul @ ''.'' @ cond_mul @ ''() ;'') }"

definition disassemble_branch :: "u64 \<Rightarrow> u32 \<Rightarrow> u8 \<Rightarrow> string option" where
  "disassemble_branch w waddr_mul ws = do {
     let is_relative = (ucast (get_bitfield w 1 51) :: u8);
     let use_addr_a = (ucast (get_bitfield w 1 50) :: u8);
     let imm = (ucast (get_bitfield w 0xffffffff 0) :: u32);
     branch_cond \<leftarrow> name_at qpu_branch_cond_str (ucast (get_bitfield w 0xf 52));
     raddr_a \<leftarrow> show_raddr 0 ''ra'' (ucast (get_bitfield w 0x1f 45));
     dst_mul \<leftarrow> show_waddr (if ws = 0 then 1 else 0) waddr_mul;
     Some ('' = branch'' @ flag ws ''.ws'' @ flag is_relative ''.rel'' @ flag use_addr_a ''.reg'' @ ''('' @
       show_x imm @ '', '' @ branch_cond @ '', '' @ raddr_a @ '') ; '' @ dst_mul @ '' = branch() ;'') }"

definition disassemble_alu :: "u64 \<Rightarrow> u32 \<Rightarrow> u32 \<Rightarrow> u8 \<Rightarrow> u8 \<Rightarrow> string option" where
  "disassemble_alu w sig_bits waddr_mul ws pm = do {
     let pack_mode = (ucast (get_bitfield w 0xf 52) :: u32);
     pack_s \<leftarrow> (if pm = 0 then map_option ((@) ''.'') (name_at qpu_pack_a_str pack_mode) else Some '''');
     op_add \<leftarrow> name_at qpu_op_add_str (ucast (get_bitfield w 0x1f 24));
     cond_add \<leftarrow> name_at qpu_cond_str (ucast (get_bitfield w 7 49));
     let sf = (ucast (get_bitfield w 1 45) :: u8);
     unpack_mode \<leftarrow> name_at qpu_unpack_str (ucast (get_bitfield w 7 57));
     let raddr_b = (ucast (get_bitfield w 0x3f 12) :: u32);
     add_a \<leftarrow> name_at qpu_mux_str (ucast (get_bitfield w 7 9));
     add_b \<leftarrow> name_at qpu_mux_str (ucast (get_bitfield w 7 6));
     raddr_a_s \<leftarrow> show_raddr 0 ''ra'' (ucast (get_bitfield w 0x3f 18));
     raddr_b_s \<leftarrow> (if sig_bits = 13 then show_small_imm raddr_b else show_raddr 1 ''rb'' raddr_b);
     dst_mul \<leftarrow> show_waddr (if ws = 0 then 1 else 0) waddr_mul;
     pack_mul \<leftarrow> (if pm \<noteq> 0 then map_option ((@) ''.'') (name_at qpu_pack_mul_str pack_mode)
       else Some '''');
     op_mul \<leftarrow> name_at qpu_op_mul_str (ucast (get_bitfield w 7 29));
     cond_mul \<leftarrow> name_at qpu_cond_str (ucast (get_bitfield w 7 46));
     mul_a \<leftarrow> name_at qpu_mux_str (ucast (get_bitfield w 7 3));
     mul_b \<leftarrow> name_at qpu_mux_str (ucast (get_bitfield w 7 0));
     Some (pack_s @ '' = '' @ op_add @ flag ws ''.ws'' @ flag pm ''.pm'' @ ''.'' @ cond_add @ flag sf ''.sf'' @
       ''.'' @ unpack_mode @ ''('' @ add_a @ '', '' @ add_b @ '', '' @ raddr_a_s @ '', '' @ raddr_b_s @ '') ; '' @
       dst_mul @ pack_mul @ '' = '' @ op_mul @ ''.'' @ cond_mul @ ''('' @ mul_a @ '', '' @ mul_b @ '') ; '') }"

text \<open>The text between the quotation marks that the function prints around each instruction.\<close>

definition disassemble_text :: "u64 \<Rightarrow> string option" where
  "disassemble_text w = do {
     let sig_bits = (ucast (get_bitfield w 0xf 60) :: u32);
     let is_sem = (get_bitfield w 0x7f 57 = 0x74);
     let waddr_add = (ucast (get_bitfield w 0x3f 38) :: u32);
     let waddr_mul = (ucast (get_bitfield w 0x3f 32) :: u32);
     let ws = (ucast (get_bitfield w 1 44) :: u8);
     let pm = (ucast (get_bitfield w 1 56) :: u8);
     sig_s \<leftarrow> name_at qpu_sig_bits_str sig_bits;
     dst_add \<leftarrow> show_waddr ws waddr_add;
     rest \<leftarrow> (if is_sem then disassemble_sem w waddr_mul ws pm
       else if sig_bits = 14 then disassemble_load w waddr_mul ws pm
       else if sig_bits = 15 then disassemble_branch w waddr_mul ws
       else disassemble_alu w sig_bits waddr_mul ws pm);
     Some (sig_s @ '' ; '' @ dst_add @ rest) }"

definition disassemble_qpu_asm :: "u64 \<Rightarrow> string option" where
  "disassemble_qpu_asm w = do { s \<leftarrow> disassemble_text w; Some ([CHR 0x22] @ s @ [CHR 0x22, CHR 0x0A]) }"

end
