(* ===== verification/Qpu_Tokens.thy ===== *)
theory Qpu_Tokens
  imports Qpu_Disasm
begin

text \<open>
  How the tokeniser and the parse functions of the assembler act on a buffer that holds well formed
  text: lemmas for \<open>strtok\<close> and for each parse function, in terms of the text behind a position, and
  the facts on the name tables and the number formats that the round trip needs.
\<close>

subsection \<open>Words\<close>

definition special :: string where
  "special = spaces @ ''=;.,()#'' @ [NUL]"

text \<open>A word of the assembly text: non-empty, without separators.\<close>

definition plain :: "string \<Rightarrow> bool" where
  "plain s \<longleftrightarrow> s \<noteq> [] \<and> list_all (\<lambda>c. c \<notin> set special) s"

lemma plain_not_Nil [simp]: "\<not> plain []"
  by (simp add: plain_def)

lemma plain_char: "plain s \<Longrightarrow> c \<in> set s \<Longrightarrow> c \<notin> set special"
  by (auto simp: plain_def list_all_iff)

lemma special_set: "set special = {CHR '' '', CHR 0x0A, CHR 0x0B, CHR 0x0C, CHR 0x0D, CHR 0x09,
    CHR ''='', CHR '';'', CHR ''.'', CHR '','', CHR ''('', CHR '')'', CHR ''#'', NUL}"
  by (simp add: special_def spaces_def insert_commute)

lemma spaces_set: "set spaces = {CHR '' '', CHR 0x0A, CHR 0x0B, CHR 0x0C, CHR 0x0D, CHR 0x09}"
  by (simp add: spaces_def)

lemma plain_no_NUL: "plain s \<Longrightarrow> NUL \<notin> set s"
  by (auto dest: plain_char simp: special_set)

subsection \<open>Tokens\<close>

lemma cstr_drop: "drop p buf = s @ NUL # rest \<Longrightarrow> NUL \<notin> set s \<Longrightarrow> cstr buf p = Some s"
  by (simp add: cstr_def takeWhile_append)

lemma drop_nth: "drop p buf = s @ c # rest \<Longrightarrow> buf ! (p + length s) = c"
proof -
  assume d: "drop p buf = s @ c # rest"
  then have "p \<le> length buf" by (metis drop_all nat_le_linear append_is_Nil_conv list.distinct(1))
  then have "buf ! (p + length s) = drop p buf ! length s" by simp
  then show ?thesis using d by simp
qed

lemma drop_more: "drop p buf = s @ rest \<Longrightarrow> drop (p + length s) buf = rest"
  by (metis add.commute append_eq_conv_conj drop_drop)

lemma drop_update: "drop p buf = s @ c # rest \<Longrightarrow> drop p (buf[p + length s := d]) = s @ d # rest"
  by (simp add: drop_update_swap list_update_append)

lemma skip_past_drop:
  assumes "drop p buf = s @ NUL # rest" "NUL \<notin> set s"
  shows "skip_past (Some p) (buf, sv) = Some (p + length s + 1)" "drop (p + length s + 1) buf = rest"
  using cstr_drop [OF assms] drop_more [of p buf "s @ [NUL]" rest] assms(1) by (simp_all add: skip_past_def)

lemma strtok_None: "strtok None ds (buf, sv) = strtok (Some sv) ds (buf, sv)"
  by (simp add: strtok_def)

lemma takeWhile_token:
  assumes "\<forall>c\<in>set xs. P c" "ys = [] \<or> \<not> P (hd ys)"
  shows "takeWhile P (xs @ ys) = xs" "dropWhile P (xs @ ys) = ys"
  using assms by (cases ys; simp add: takeWhile_append dropWhile_append)+

text \<open>
  A token: leading separators, the token, and the separator or NUL that ends it.
\<close>

lemma strtok_token:
  assumes buf: "drop p buf = lead @ tk @ d # rest" "NUL \<in> set (d # rest)"
    and ds: "NUL \<notin> set ds" "set lead \<subseteq> set ds" "d = NUL \<or> d \<in> set ds"
    and tk: "tk \<noteq> []" "\<forall>c\<in>set tk. c \<notin> set ds \<and> c \<noteq> NUL"
  obtains buf' q sv' where "\<And>sv. strtok (Some p) ds (buf, sv) = Some (Some q, buf', sv')"
    "drop q buf' = tk @ NUL # rest" "cstr buf' q = Some tk"
    "drop sv' buf' = (if d = NUL then NUL # rest else rest)" "d = NUL \<Longrightarrow> buf' = buf"
proof -
  let ?s = "takeWhile (\<lambda>c. c \<noteq> NUL) (d # rest)"
  let ?q = "p + length lead"
  have lead: "NUL \<notin> set lead" using ds by auto
  have "cstr buf p = Some (lead @ tk @ ?s)"
    using buf lead tk(2) unfolding cstr_def by (auto simp: Let_def takeWhile_append)
  moreover have "hd (tk @ ?s) \<notin> set ds" using tk by (cases tk) auto
  then have "takeWhile (\<lambda>c. c \<in> set ds) (lead @ tk @ ?s) = lead"
    "dropWhile (\<lambda>c. c \<in> set ds) (lead @ tk @ ?s) = tk @ ?s"
    using ds(2) by (auto intro!: takeWhile_token)
  moreover have "takeWhile (\<lambda>c. c \<notin> set ds) (tk @ ?s) = tk"
    using tk ds by (intro takeWhile_token(1)) auto
  ultimately have st: "strtok (Some p) ds (buf, sv) = (if buf ! (?q + length tk) = NUL
      then Some (Some ?q, buf, ?q + length tk)
      else Some (Some ?q, buf[?q + length tk := NUL], ?q + length tk + 1))" for sv
    using tk(1) by (simp add: strtok_def Let_def)
  have d': "drop ?q buf = tk @ d # rest" using drop_more [OF buf(1)] .
  then have "buf ! (?q + length tk) = d" by (rule drop_nth)
  note st = st [unfolded this]
  show thesis
  proof (cases "d = NUL")
    case True
    show thesis
    proof (rule that [of ?q buf "?q + length tk"])
      show "strtok (Some p) ds (buf, sv) = Some (Some ?q, buf, ?q + length tk)" for sv
        using st True by simp
      show "drop ?q buf = tk @ NUL # rest" using d' True by simp
      then show "cstr buf ?q = Some tk" using tk by (intro cstr_drop) auto
      show "drop (?q + length tk) buf = (if d = NUL then NUL # rest else rest)"
        using drop_more [OF d'] True by simp
    qed simp
  next
    case False
    let ?buf = "buf[?q + length tk := NUL]"
    have u: "drop ?q ?buf = tk @ NUL # rest" by (rule drop_update [OF d'])
    show thesis
    proof (rule that [of ?q ?buf "?q + length tk + 1"])
      show "strtok (Some p) ds (buf, sv) = Some (Some ?q, ?buf, ?q + length tk + 1)" for sv
        using st False by simp
      show "drop ?q ?buf = tk @ NUL # rest" by (rule u)
      then show "cstr ?buf ?q = Some tk" using tk by (intro cstr_drop) auto
      show "drop (?q + length tk + 1) ?buf = (if d = NUL then NUL # rest else rest)"
        using drop_more [of ?q ?buf "tk @ [NUL]" rest] u False by simp
    qed (simp add: False)
  qed
qed

text \<open>Only separators up to the end of the string.\<close>

lemma strtok_end:
  assumes "drop p buf = lead @ NUL # rest" "NUL \<notin> set ds" "set lead \<subseteq> set ds"
  shows "strtok (Some p) ds (buf, sv) = Some (None, buf, p + length lead)"
    "drop (p + length lead) buf = NUL # rest"
proof -
  have "cstr buf p = Some lead" using assms by (intro cstr_drop) auto
  moreover have "takeWhile (\<lambda>c. c \<in> set ds) lead = lead" "dropWhile (\<lambda>c. c \<in> set ds) lead = []"
    using assms(3) by (auto simp: takeWhile_eq_all_conv)
  ultimately show "strtok (Some p) ds (buf, sv) = Some (None, buf, p + length lead)"
    unfolding strtok_def by (simp add: Let_def del: takeWhile_eq_all_conv dropWhile_eq_Nil_conv)
  show "drop (p + length lead) buf = NUL # rest" by (rule drop_more [OF assms(1)])
qed

text \<open>The two ways a word ends inside a larger token: at a separator, or at its end.\<close>

lemma plain_not_in: "plain s \<Longrightarrow> set ds \<subseteq> set special \<Longrightarrow> \<forall>c\<in>set s. c \<notin> set ds \<and> c \<noteq> NUL"
  using plain_char plain_no_NUL by blast

lemma separators:
  "NUL \<notin> set ''.''" "set ''.'' \<subseteq> set special"
  "NUL \<notin> set '')''" "set '')'' \<subseteq> set special"
  "NUL \<notin> set arg_delims" "set arg_delims \<subseteq> set special"
  "NUL \<notin> set (spaces @ '';'')" "set (spaces @ '';'') \<subseteq> set special"
  "NUL \<notin> set (spaces @ ''=;'')" "set (spaces @ ''=;'') \<subseteq> set special"
  "NUL \<notin> set (spaces @ ''=('')" "set (spaces @ ''=('') \<subseteq> set special"
  by (code_simp)+

text \<open>A plain word as the token, ended by a separator or by the end of the string.\<close>

lemma strtok_word_end:
  assumes "drop p buf = lead @ s @ NUL # rest"
    and ds: "NUL \<notin> set ds" "set ds \<subseteq> set special" "set lead \<subseteq> set ds" and s: "plain s"
  shows "\<exists>q sv'. (\<forall>sv. strtok (Some p) ds (buf, sv) = Some (Some q, buf, sv')) \<and>
    drop q buf = s @ NUL # rest \<and> cstr buf q = Some s \<and> drop sv' buf = NUL # rest"
proof -
  have "s \<noteq> []" using s by auto
  from strtok_token [OF assms(1) _ ds(1,3) _ this plain_not_in [OF s ds(2)]] obtain b q sv' where
    t: "\<And>sv. strtok (Some p) ds (buf, sv) = Some (Some q, b, sv')" "drop q b = s @ NUL # rest"
    "cstr b q = Some s" "drop sv' b = (if NUL = NUL then NUL # rest else rest)" "b = buf"
    by (metis list.set_intros(1))
  then show ?thesis by auto
qed

lemma strtok_word_sep:
  assumes "drop p buf = lead @ s @ d # rest" "NUL \<in> set rest"
    and ds: "NUL \<notin> set ds" "set ds \<subseteq> set special" "set lead \<subseteq> set ds" and s: "plain s" and d: "d \<in> set ds"
  shows "\<exists>b q sv'. (\<forall>sv. strtok (Some p) ds (buf, sv) = Some (Some q, b, sv')) \<and>
    drop q b = s @ NUL # rest \<and> cstr b q = Some s \<and> drop sv' b = rest"
proof -
  have "s \<noteq> []" "d \<noteq> NUL" "NUL \<in> set (d # rest)" using s d ds assms(2) by auto
  from strtok_token [OF assms(1) this(3) ds(1,3) _ this(1) plain_not_in [OF s ds(2)]] d obtain b q sv' where
    "\<And>sv. strtok (Some p) ds (buf, sv) = Some (Some q, b, sv')" "drop q b = s @ NUL # rest"
    "cstr b q = Some s" "drop sv' b = (if d = NUL then NUL # rest else rest)" by metis
  then show ?thesis using \<open>d \<noteq> NUL\<close> by auto
qed

subsection \<open>Destinations\<close>

definition waddr_of :: "string \<Rightarrow> u32" where
  "waddr_of s = ucast (if take 2 s = ''rx'' then ucast (strtoul (drop 2 s))
     else name_code2 (qpu_waddr_str ! 0) (qpu_waddr_str ! 1) s)"

definition pack_of :: "string option \<Rightarrow> u8" where
  "pack_of pk = (case pk of None \<Rightarrow> 0 | Some s \<Rightarrow> name_code2 qpu_pack_a_str qpu_pack_mul_str s)"

text \<open>An optional part of the text behind a dot.\<close>

definition dotted :: "string option \<Rightarrow> string" where
  "dotted s = (case s of None \<Rightarrow> [] | Some s \<Rightarrow> ''.'' @ s)"

lemma parse_dst_text:
  assumes buf: "drop p buf = dst @ dotted pk @ NUL # rest" and dst: "plain dst" "pred_option plain pk"
  obtains p' buf' sv' where "parse_dst (Some p) is_add pm_set pack_mode (buf, sv) =
      Some (Some p', waddr_of dst, (if is_add \<or> pm_set then pack_of pk else pack_mode), buf', sv')"
    "drop p' buf' = rest"
proof (cases pk)
  case None
  have "drop p buf = [] @ dst @ NUL # rest" using buf None by (simp add: dotted_def)
  from strtok_word_end [OF this separators(1,2) _ dst(1)] obtain q sv' where
    1: "\<forall>sv. strtok (Some p) ''.'' (buf, sv) = Some (Some q, buf, sv')"
    "drop q buf = dst @ NUL # rest" "cstr buf q = Some dst" "drop sv' buf = NUL # rest" by auto
  have 2: "strtok None ''.'' (buf, sv') = Some (None, buf, sv')"
    using strtok_end(1) [of sv' buf "[]" rest "''.''"] 1(4) by (simp add: strtok_None)
  note 3 = skip_past_drop [OF 1(2) plain_no_NUL [OF dst(1)]]
  have "parse_dst (Some p) is_add pm_set pack_mode (buf, sv) = Some (Some (q + length dst + 1), waddr_of dst,
      (if is_add \<or> pm_set then pack_of pk else pack_mode), buf, sv')"
    unfolding parse_dst_def waddr_of_def pack_of_def None 1(1) [rule_format]
    by (simp only: Option.bind_lunit prod.case option.case 2 3(1) 1(3) Let_def fst_conv)
  then show thesis using 3(2) by (rule that)
next
  case (Some s)
  have s: "plain s" using dst(2) Some by simp
  have "drop p buf = [] @ dst @ CHR ''.'' # (s @ NUL # rest)" using buf Some by (simp add: dotted_def)
  from strtok_word_sep [OF this _ separators(1,2) _ dst(1)] obtain b q sv1 where
    1: "\<forall>sv. strtok (Some p) ''.'' (buf, sv) = Some (Some q, b, sv1)"
    "cstr b q = Some dst" "drop sv1 b = [] @ s @ NUL # rest" by auto
  from strtok_word_end [OF 1(3) separators(1,2) _ s] obtain q' sv' where
    2: "\<forall>sv. strtok (Some sv1) ''.'' (b, sv) = Some (Some q', b, sv')"
    "drop q' b = s @ NUL # rest" "cstr b q' = Some s" by auto
  note 3 = skip_past_drop [OF 2(2) plain_no_NUL [OF s]]
  have "parse_dst (Some p) is_add pm_set pack_mode (buf, sv) = Some (Some (q' + length s + 1), waddr_of dst,
      (if is_add \<or> pm_set then pack_of pk else pack_mode), b, sv')"
    unfolding parse_dst_def waddr_of_def pack_of_def Some 1(1) [rule_format]
    by (simp only: Option.bind_lunit prod.case option.case strtok_None 2(1) [rule_format] 2(3) 3(1) 1(2) Let_def fst_conv)
  then show thesis using 3(2) by (rule that)
qed

subsection \<open>Operations\<close>

text \<open>The modifiers of an operation, each behind a dot.\<close>

definition modifiers :: "string list \<Rightarrow> string" where
  "modifiers ms = concat (map (\<lambda>m. ''.'' @ m) ms)"

lemma modifier_loop_text:
  assumes "drop p buf = m @ NUL # (if ms = [] then rest else tl (modifiers ms) @ NUL # rest)" "cstr buf p = Some m"
    "drop sv buf = (if ms = [] then NUL # rest else tl (modifiers ms) @ NUL # rest)"
    "plain m" "list_all plain ms" "length ms < k"
  shows "\<exists>p' buf' sv' m'. modifier_loop k is_add (Some p) str q (buf, sv) =
      Some (Some p', fold (apply_modifier is_add) (m # ms) q, buf', sv') \<and>
    drop p' buf' = m' @ NUL # rest \<and> plain m'"
  using assms
proof (induction ms arbitrary: k p m buf sv str q)
  case Nil
  then obtain j where k: "k = Suc j" by (cases k) auto
  have "strtok None ''.'' (buf, sv) = Some (None, buf, sv)"
    using strtok_end(1) [of sv buf "[]" rest "''.''"] Nil.prems(3) by (simp add: strtok_None)
  then have "modifier_loop k is_add (Some p) str q (buf, sv) = Some (Some p, apply_modifier is_add m q, buf, sv)"
    using Nil.prems(2) by (cases j) (simp_all add: k)
  then show ?case using Nil.prems(1,4) by auto
next
  case (Cons m' ms)
  then obtain j where k: "k = Suc j" "length ms < j" by (cases k) auto
  have m': "plain m'" "list_all plain ms" using Cons.prems(5) by simp_all
  have tl: "tl (modifiers (m' # ms)) = m' @ modifiers ms" by (simp add: modifiers_def)
  show ?case
  proof (cases "ms = []")
    case True
    then have "drop sv buf = [] @ m' @ NUL # rest" using Cons.prems(3) tl by (simp add: modifiers_def)
    from strtok_word_end [OF this separators(1,2) _ m'(1)] obtain p1 sv1 where
      1: "\<forall>sv0. strtok (Some sv) ''.'' (buf, sv0) = Some (Some p1, buf, sv1)"
      "drop p1 buf = m' @ NUL # rest" "cstr buf p1 = Some m'" "drop sv1 buf = NUL # rest" by auto
    from Cons.IH [of p1 buf m' sv1 j "Some p" "apply_modifier is_add m q"] obtain p' b sv' m2 where
      "modifier_loop j is_add (Some p1) (Some p) (apply_modifier is_add m q) (buf, sv1) =
        Some (Some p', fold (apply_modifier is_add) (m' # ms) (apply_modifier is_add m q), b, sv')"
      "drop p' b = m2 @ NUL # rest" "plain m2"
      using 1 True m' k(2) by auto
    then show ?thesis using Cons.prems(2) 1(1) by (auto simp: k(1) strtok_None)
  next
    case False
    then obtain t where t: "modifiers ms = CHR ''.'' # t" "t = tl (modifiers ms)"
      by (cases ms) (auto simp: modifiers_def)
    then have "drop sv buf = [] @ m' @ CHR ''.'' # (t @ NUL # rest)" using Cons.prems(3) tl by simp
    from strtok_word_sep [OF this _ separators(1,2) _ m'(1)] obtain b p1 sv1 where
      1: "\<forall>sv0. strtok (Some sv) ''.'' (buf, sv0) = Some (Some p1, b, sv1)"
      "drop p1 b = m' @ NUL # (t @ NUL # rest)" "cstr b p1 = Some m'" "drop sv1 b = t @ NUL # rest" by auto
    from Cons.IH [of p1 b m' sv1 j "Some p" "apply_modifier is_add m q"] obtain p' b' sv' m2 where
      "modifier_loop j is_add (Some p1) (Some p) (apply_modifier is_add m q) (b, sv1) =
        Some (Some p', fold (apply_modifier is_add) (m' # ms) (apply_modifier is_add m q), b', sv')"
      "drop p' b' = m2 @ NUL # rest" "plain m2"
      using 1 False m' k(2) t(2) by auto
    then show ?thesis using Cons.prems(2) 1(1) by (auto simp: k(1) strtok_None)
  qed
qed

lemma parse_op_modifiers_text:
  assumes "drop p buf = tl (modifiers ms) @ NUL # rest" "ms \<noteq> []" "list_all plain ms" "length ms \<le> 5"
  shows "\<exists>p' buf' sv'. parse_op_modifiers (Some p) is_add q (buf, sv) =
      Some (Some p', fold (apply_modifier is_add) ms q, buf', sv') \<and> drop p' buf' = rest"
proof -
  obtain m ms' where ms: "ms = m # ms'" using assms(2) by (cases ms) auto
  have m: "plain m" "list_all plain ms'" "length ms' < 5" using assms(3,4) ms by auto
  have front: "drop p buf = m @ modifiers ms' @ NUL # rest" using assms(1) ms by (simp add: modifiers_def)
  obtain b p1 sv1 where 1: "\<forall>sv. strtok (Some p) ''.'' (buf, sv) = Some (Some p1, b, sv1)"
    "drop p1 b = m @ NUL # (if ms' = [] then rest else tl (modifiers ms') @ NUL # rest)" "cstr b p1 = Some m"
    "drop sv1 b = (if ms' = [] then NUL # rest else tl (modifiers ms') @ NUL # rest)"
  proof (cases "ms' = []")
    case True
    then have "drop p buf = [] @ m @ NUL # rest" using front by (simp add: modifiers_def)
    from strtok_word_end [OF this separators(1,2) _ m(1)] show thesis using that True by auto
  next
    case False
    then obtain t where t: "modifiers ms' = CHR ''.'' # t" "t = tl (modifiers ms')"
      by (cases ms') (auto simp: modifiers_def)
    then have "drop p buf = [] @ m @ CHR ''.'' # (t @ NUL # rest)" using front by simp
    from strtok_word_sep [OF this _ separators(1,2) _ m(1)] show thesis using that False t(2) by auto
  qed
  from modifier_loop_text [OF 1(2,3,4) m] obtain p' b' sv' m' where
    2: "modifier_loop 5 is_add (Some p1) (Some p) q (b, sv1) =
      Some (Some p', fold (apply_modifier is_add) (m # ms') q, b', sv')"
    "drop p' b' = m' @ NUL # rest" "plain m'" by blast
  note 3 = skip_past_drop [OF 2(2) plain_no_NUL [OF 2(3)]]
  have "parse_op_modifiers (Some p) is_add q (buf, sv) =
      Some (Some (p' + length m' + 1), fold (apply_modifier is_add) ms q, b', sv')"
    unfolding parse_op_modifiers_def ms 1(1) [rule_format]
    by (simp only: Option.bind_lunit prod.case 2(1) 3(1))
  then show ?thesis using 3(2) by blast
qed

lemma parse_op_text:
  assumes buf: "drop p buf = op @ d # rest" "d = NUL \<or> d = CHR ''.'' \<and> NUL \<in> set rest" and op: "plain op"
  shows "\<exists>p' buf' sv'. parse_op (Some p) is_add q (buf, sv) =
      Some (Some p', apply_op is_add (Some op) q, buf', sv') \<and> drop p' buf' = rest"
proof -
  have "drop p buf = [] @ op @ d # rest" using buf(1) by simp
  then obtain b q0 sv1 where 1: "\<forall>sv. strtok (Some p) ''.'' (buf, sv) = Some (Some q0, b, sv1)"
    "drop q0 b = op @ NUL # rest" "cstr b q0 = Some op"
    using strtok_word_end [of p buf "[]" "op" rest "''.''", OF _ separators(1,2) _ assms(3)]
      strtok_word_sep [of p buf "[]" "op" d rest "''.''", OF _ _ separators(1,2) _ assms(3)] buf(2)
    by (cases "d = NUL") auto
  note 2 = skip_past_drop [OF 1(2) plain_no_NUL [OF assms(3)]]
  have "parse_op (Some p) is_add q (buf, sv) = Some (Some (q0 + length op + 1), apply_op is_add (Some op) q, b, sv1)"
    unfolding parse_op_def 1(1) [rule_format]
    by (simp only: Option.bind_lunit prod.case option.case str_at_def fst_conv 1(3) option.map 2(1))
  then show ?thesis using 2(2) by blast
qed

lemma dot_in_modifiers: "list_all plain ms \<Longrightarrow> CHR ''.'' \<in> set (modifiers ms) \<longleftrightarrow> ms \<noteq> []"
  by (cases ms) (auto simp: modifiers_def)

lemma modifiers_chars: "list_all plain ms \<Longrightarrow> c \<in> set (modifiers ms) \<Longrightarrow> c = CHR ''.'' \<or> c \<notin> set special"
  by (induction ms) (auto simp: modifiers_def dest: plain_char)

lemma assemble_op_text:
  assumes buf: "drop p buf = lead @ op @ modifiers ms @ CHR ''('' # rest" "NUL \<in> set rest"
    and lead: "set lead \<subseteq> set (spaces @ ''=('')" and op: "plain op" and ms: "list_all plain ms" "length ms \<le> 5"
  shows "\<exists>p' buf' sv'. assemble_op is_add (Some p) q (buf, sv) =
      Some (Some p', fold (apply_modifier is_add) ms (apply_op is_add (Some op) q), buf', sv') \<and>
    drop p' buf' = rest"
proof -
  let ?ds = "spaces @ ''=(''"
  have dot: "CHR ''.'' \<notin> set ?ds" "CHR ''('' \<in> set ?ds" by code_simp+
  have tk: "\<forall>c\<in>set (op @ modifiers ms). c \<notin> set ?ds \<and> c \<noteq> NUL"
  proof
    fix c assume "c \<in> set (op @ modifiers ms)"
    then have "c = CHR ''.'' \<or> c \<notin> set special" using plain_char [OF op] modifiers_chars [OF ms(1)] by auto
    then show "c \<notin> set ?ds \<and> c \<noteq> NUL" using dot(1) separators(12) by (auto simp: special_def)
  qed
  have "op @ modifiers ms \<noteq> []" using op by auto
  moreover have "drop p buf = lead @ (op @ modifiers ms) @ CHR ''('' # rest" using buf(1) by simp
  ultimately obtain b p1 sv1 where 1: "\<forall>sv. strtok (Some p) ?ds (buf, sv) = Some (Some p1, b, sv1)"
    "drop p1 b = (op @ modifiers ms) @ NUL # rest" "cstr b p1 = Some (op @ modifiers ms)"
    using strtok_token [of p buf lead "op @ modifiers ms" "CHR ''(''" rest ?ds, OF _ _ separators(11) lead _ _ tk]
      buf(2) dot(2) by (metis list.set_intros(2))
  have has: "(CHR ''.'' \<in> set (op @ modifiers ms)) = (ms \<noteq> [])"
    using dot_in_modifiers [OF ms(1)] plain_char [OF op, of "CHR ''.''"] by (auto simp: special_def)
  show ?thesis
  proof (cases "ms = []")
    case True
    then have "drop p1 b = op @ NUL # rest" using 1(2) by (simp add: modifiers_def)
    from parse_op_text [OF this _ op, of is_add q sv1] obtain p' b' sv' where
      2: "parse_op (Some p1) is_add q (b, sv1) = Some (Some p', apply_op is_add (Some op) q, b', sv')"
      "drop p' b' = rest" by auto
    have "assemble_op is_add (Some p) q (buf, sv) = Some (Some p', apply_op is_add (Some op) q, b', sv')"
      unfolding assemble_op_def 1(1) [rule_format]
      using has True by (simp add: 1(3) 2(1) del: set_append)
    then show ?thesis using 2(2) True by simp
  next
    case False
    then obtain t where t: "modifiers ms = CHR ''.'' # t" "t = tl (modifiers ms)"
      by (cases ms) (auto simp: modifiers_def)
    then have "drop p1 b = op @ CHR ''.'' # (t @ NUL # rest)" using 1(2) by simp
    from parse_op_text [OF this _ op, of is_add q sv1] obtain p2 b2 sv2 where
      2: "parse_op (Some p1) is_add q (b, sv1) = Some (Some p2, apply_op is_add (Some op) q, b2, sv2)"
      "drop p2 b2 = tl (modifiers ms) @ NUL # rest" using t(2) by auto
    from parse_op_modifiers_text [OF 2(2) False ms, of is_add "apply_op is_add (Some op) q" sv2] obtain p' b' sv' where
      3: "parse_op_modifiers (Some p2) is_add (apply_op is_add (Some op) q) (b2, sv2) =
        Some (Some p', fold (apply_modifier is_add) ms (apply_op is_add (Some op) q), b', sv')"
      "drop p' b' = rest" by blast
    have "assemble_op is_add (Some p) q (buf, sv) =
        Some (Some p', fold (apply_modifier is_add) ms (apply_op is_add (Some op) q), b', sv')"
      unfolding assemble_op_def 1(1) [rule_format]
      by (simp only: Option.bind_lunit prod.case 1(3) fst_conv 2(1) has Let_def False simp_thms if_True 3(1))
    then show ?thesis using 3(2) by blast
  qed
qed

subsection \<open>Arguments\<close>

text \<open>Arguments separated by a comma and a blank.\<close>

lemma strtok_arg:
  assumes "drop p buf = lead @ s @ '', '' @ rest" "NUL \<in> set rest" "lead = [] \<or> lead = '' ''" "plain s"
  shows "\<exists>b q sv'. (\<forall>sv. strtok (Some p) arg_delims (buf, sv) = Some (Some q, b, sv')) \<and>
    cstr b q = Some s \<and> drop sv' b = '' '' @ rest"
proof -
  have "set lead \<subseteq> set arg_delims" "CHR '','' \<in> set arg_delims" using assms(3) by (auto simp: arg_delims_def spaces_set)
  moreover have "drop p buf = lead @ s @ CHR '','' # ('' '' @ rest)" using assms(1) by simp
  ultimately show ?thesis
    using strtok_word_sep [of p buf lead s "CHR '',''" "'' '' @ rest" arg_delims, OF _ _ separators(5,6) _ assms(4)]
      assms(2) by auto
qed

lemma strtok_last_arg:
  assumes "drop p buf = lead @ s @ NUL # rest" "lead = [] \<or> lead = '' ''" "plain s"
  shows "\<exists>q sv'. (\<forall>sv. strtok (Some p) arg_delims (buf, sv) = Some (Some q, buf, sv')) \<and>
    cstr buf q = Some s \<and> skip_past (Some q) (buf, sv') = Some (q + length s + 1) \<and>
    drop (q + length s + 1) buf = rest \<and> strtok None arg_delims (buf, sv') = Some (None, buf, sv')"
proof -
  have "set lead \<subseteq> set arg_delims" using assms(2) by (auto simp: arg_delims_def spaces_set)
  from strtok_word_end [OF assms(1) separators(5,6) this assms(3)] obtain q sv' where
    1: "\<forall>sv. strtok (Some p) arg_delims (buf, sv) = Some (Some q, buf, sv')" "drop q buf = s @ NUL # rest"
    "cstr buf q = Some s" "drop sv' buf = NUL # rest" by blast
  have "strtok None arg_delims (buf, sv') = Some (None, buf, sv')"
    using strtok_end(1) [of sv' buf "[]" rest arg_delims, OF _ separators(5)] 1(4) by (simp add: strtok_None)
  then show ?thesis using 1 skip_past_drop [OF 1(2) plain_no_NUL [OF assms(3)]] by blast
qed

definition raddr_a_of :: "string \<Rightarrow> u32" where
  "raddr_a_of a = ucast (raddr_number ''ra'' (name_code (qpu_raddr_str ! 0) a) a)"

definition raddr_b_of :: "bool \<Rightarrow> string \<Rightarrow> u32" where
  "raddr_b_of is_si b = ucast (if is_si then qpu_encode_small_immediate (strtoul b)
     else raddr_number ''rb'' (name_code2 (qpu_raddr_str ! 0) (qpu_raddr_str ! 1) b) b)"

lemma parse_args_alu_4:
  assumes buf: "drop p buf = a @ '', '' @ b @ '', '' @ c @ '', '' @ e @ NUL # rest"
    and plain: "plain a" "plain b" "plain c" "plain e"
    and mux: "name_index qpu_mux_str a = Some i" "name_index qpu_mux_str b = Some j"
  shows "\<exists>p' buf' sv'. parse_args_alu (Some p) True is_si q (buf, sv) =
      Some (Some p', q\<lparr>q_add_a := of_nat i, q_add_b := of_nat j, q_raddr_a := raddr_a_of c,
        q_raddr_b := raddr_b_of is_si e\<rparr>, buf', sv') \<and> drop p' buf' = rest"
proof -
  obtain b1 p1 s1 where 1: "\<forall>sv. strtok (Some p) arg_delims (buf, sv) = Some (Some p1, b1, s1)"
    "cstr b1 p1 = Some a" "drop s1 b1 = '' '' @ b @ '', '' @ c @ '', '' @ e @ NUL # rest"
    using strtok_arg [of p buf "[]" a, OF _ _ _ plain(1)] buf by auto
  obtain b2 p2 s2 where 2: "\<forall>sv. strtok (Some s1) arg_delims (b1, sv) = Some (Some p2, b2, s2)"
    "cstr b2 p2 = Some b" "drop s2 b2 = '' '' @ c @ '', '' @ e @ NUL # rest"
    using strtok_arg [OF 1(3) _ _ plain(2)] by auto
  obtain b3 p3 s3 where 3: "\<forall>sv. strtok (Some s2) arg_delims (b2, sv) = Some (Some p3, b3, s3)"
    "cstr b3 p3 = Some c" "drop s3 b3 = '' '' @ e @ NUL # rest"
    using strtok_arg [OF 2(3) _ _ plain(3)] by auto
  obtain p4 s4 where 4: "\<forall>sv. strtok (Some s3) arg_delims (b3, sv) = Some (Some p4, b3, s4)"
    "cstr b3 p4 = Some e" "skip_past (Some p4) (b3, s4) = Some (p4 + length e + 1)"
    "drop (p4 + length e + 1) b3 = rest"
    using strtok_last_arg [OF 3(3) _ plain(4)] by auto
  have "parse_args_alu (Some p) True is_si q (buf, sv) =
      Some (Some (p4 + length e + 1), q\<lparr>q_add_a := of_nat i, q_add_b := of_nat j, q_raddr_a := raddr_a_of c,
        q_raddr_b := raddr_b_of is_si e\<rparr>, b3, s4)"
    unfolding parse_args_alu_def 1(1) [rule_format]
    by (simp add: 1(2) 2(1,2) 3(1,2) 4(1-3) strtok_None str_at_def mux raddr_a_of_def raddr_b_of_def)
  then show ?thesis using 4(4) by blast
qed

lemma parse_args_alu_2:
  assumes buf: "drop p buf = a @ '', '' @ b @ NUL # rest"
    and plain: "plain a" "plain b"
    and mux: "name_index qpu_mux_str a = Some i" "name_index qpu_mux_str b = Some j"
  shows "\<exists>p' buf' sv'. parse_args_alu (Some p) is_add is_si q (buf, sv) = Some (Some p',
      (if is_add then q\<lparr>q_add_a := of_nat i, q_add_b := of_nat j\<rparr> else q\<lparr>q_mul_a := of_nat i, q_mul_b := of_nat j\<rparr>),
      buf', sv') \<and> drop p' buf' = rest"
proof -
  obtain b1 p1 s1 where 1: "\<forall>sv. strtok (Some p) arg_delims (buf, sv) = Some (Some p1, b1, s1)"
    "cstr b1 p1 = Some a" "drop s1 b1 = '' '' @ b @ NUL # rest"
    using strtok_arg [of p buf "[]" a, OF _ _ _ plain(1)] buf by auto
  obtain p2 s2 where 2: "\<forall>sv. strtok (Some s1) arg_delims (b1, sv) = Some (Some p2, b1, s2)"
    "cstr b1 p2 = Some b" "skip_past (Some p2) (b1, s2) = Some (p2 + length b + 1)"
    "drop (p2 + length b + 1) b1 = rest" "strtok None arg_delims (b1, s2) = Some (None, b1, s2)"
    using strtok_last_arg [OF 1(3) _ plain(2)] by auto
  have "parse_args_alu (Some p) is_add is_si q (buf, sv) = Some (Some (p2 + length b + 1),
      (if is_add then q\<lparr>q_add_a := of_nat i, q_add_b := of_nat j\<rparr> else q\<lparr>q_mul_a := of_nat i, q_mul_b := of_nat j\<rparr>),
      b1, s2)"
    unfolding parse_args_alu_def 1(1) [rule_format]
    by (simp add: 1(2) 2(1-3) strtok_None [of _ b1 s1] 2(5) str_at_def mux)
  then show ?thesis using 2(4) by blast
qed

lemma parse_args_sem_text:
  assumes buf: "drop p buf = a @ '', '' @ b @ NUL # rest" and plain: "plain a" "plain b"
  shows "\<exists>p' buf' sv'. parse_args_sem (Some p) q (buf, sv) =
      Some (Some p', q\<lparr>q_semaphore := ucast (strtoul a), q_imm32 := strtoul b\<rparr>, buf', sv') \<and> drop p' buf' = rest"
proof -
  obtain b1 p1 s1 where 1: "\<forall>sv. strtok (Some p) arg_delims (buf, sv) = Some (Some p1, b1, s1)"
    "cstr b1 p1 = Some a" "drop s1 b1 = '' '' @ b @ NUL # rest"
    using strtok_arg [of p buf "[]" a, OF _ _ _ plain(1)] buf by auto
  obtain p2 s2 where 2: "\<forall>sv. strtok (Some s1) arg_delims (b1, sv) = Some (Some p2, b1, s2)"
    "cstr b1 p2 = Some b" "skip_past (Some p2) (b1, s2) = Some (p2 + length b + 1)"
    "drop (p2 + length b + 1) b1 = rest"
    using strtok_last_arg [OF 1(3) _ plain(2)] by auto
  have "parse_args_sem (Some p) q (buf, sv) =
      Some (Some (p2 + length b + 1), q\<lparr>q_semaphore := ucast (strtoul a), q_imm32 := strtoul b\<rparr>, b1, s2)"
    unfolding parse_args_sem_def 1(1) [rule_format]
    by (simp add: 1(2) 2(1-3) strtok_None str_at_def)
  then show ?thesis using 2(4) by blast
qed

lemma parse_args_branch_text:
  assumes buf: "drop p buf = a @ '', '' @ b @ '', '' @ c @ NUL # rest" and plain: "plain a" "plain b" "plain c"
    and cond: "name_index qpu_branch_cond_str b = Some i"
  shows "\<exists>p' buf' sv'. parse_args_branch (Some p) q (buf, sv) =
      Some (Some p', q\<lparr>q_imm32 := strtoul a, q_branch_cond := of_nat i,
        q_raddr_a := ucast (raddr_number ''ra'' (name_code2 (qpu_raddr_str ! 0) (qpu_raddr_str ! 1) c) c)\<rparr>, buf', sv') \<and>
    drop p' buf' = rest"
proof -
  obtain b1 p1 s1 where 1: "\<forall>sv. strtok (Some p) arg_delims (buf, sv) = Some (Some p1, b1, s1)"
    "cstr b1 p1 = Some a" "drop s1 b1 = '' '' @ b @ '', '' @ c @ NUL # rest"
    using strtok_arg [of p buf "[]" a, OF _ _ _ plain(1)] buf by auto
  obtain b2 p2 s2 where 2: "\<forall>sv. strtok (Some s1) arg_delims (b1, sv) = Some (Some p2, b2, s2)"
    "cstr b2 p2 = Some b" "drop s2 b2 = '' '' @ c @ NUL # rest"
    using strtok_arg [OF 1(3) _ _ plain(2)] by auto
  obtain p3 s3 where 3: "\<forall>sv. strtok (Some s2) arg_delims (b2, sv) = Some (Some p3, b2, s3)"
    "cstr b2 p3 = Some c" "skip_past (Some p3) (b2, s3) = Some (p3 + length c + 1)"
    "drop (p3 + length c + 1) b2 = rest"
    using strtok_last_arg [OF 2(3) _ plain(3)] by auto
  have "parse_args_branch (Some p) q (buf, sv) =
      Some (Some (p3 + length c + 1), q\<lparr>q_imm32 := strtoul a, q_branch_cond := of_nat i,
        q_raddr_a := ucast (raddr_number ''ra'' (name_code2 (qpu_raddr_str ! 0) (qpu_raddr_str ! 1) c) c)\<rparr>, b2, s3)"
    unfolding parse_args_branch_def 1(1) [rule_format]
    by (simp add: 1(2) 2(1,2) 3(1-3) strtok_None str_at_def cond)
  then show ?thesis using 3(4) by blast
qed

lemma parse_args_load32_text:
  assumes buf: "drop p buf = a @ NUL # rest" and plain: "plain a" and q: "q_load_type q = QPU_LOAD32"
  shows "\<exists>p' buf' sv'. parse_args_load (Some p) q (buf, sv) =
      Some (Some p', q\<lparr>q_imm32 := strtoul a\<rparr>, buf', sv') \<and> drop p' buf' = rest"
proof -
  obtain p1 s1 where 1: "\<forall>sv. strtok (Some p) arg_delims (buf, sv) = Some (Some p1, buf, s1)"
    "cstr buf p1 = Some a" "skip_past (Some p1) (buf, s1) = Some (p1 + length a + 1)"
    "drop (p1 + length a + 1) buf = rest"
    using strtok_last_arg [of p buf "[]" a rest, OF _ _ plain] buf by auto
  have "parse_args_load (Some p) q (buf, sv) = Some (Some (p1 + length a + 1), q\<lparr>q_imm32 := strtoul a\<rparr>, buf, s1)"
    unfolding parse_args_load_def 1(1) [rule_format] by (simp add: 1(2,3) str_at_def q)
  then show ?thesis using 1(4) by blast
qed

lemma parse_args_load16_text:
  assumes buf: "drop p buf = a @ '', '' @ b @ NUL # rest" and plain: "plain a" "plain b"
    and q: "q_load_type q = QPU_LOAD16"
  shows "\<exists>p' buf' sv'. parse_args_load (Some p) q (buf, sv) =
      Some (Some p', q\<lparr>q_ms_imm16 := ucast (strtoul a), q_ls_imm16 := ucast (strtoul b)\<rparr>, buf', sv') \<and>
    drop p' buf' = rest"
proof -
  obtain b1 p1 s1 where 1: "\<forall>sv. strtok (Some p) arg_delims (buf, sv) = Some (Some p1, b1, s1)"
    "cstr b1 p1 = Some a" "drop s1 b1 = '' '' @ b @ NUL # rest"
    using strtok_arg [of p buf "[]" a, OF _ _ _ plain(1)] buf by auto
  obtain p2 s2 where 2: "\<forall>sv. strtok (Some s1) arg_delims (b1, sv) = Some (Some p2, b1, s2)"
    "cstr b1 p2 = Some b" "skip_past (Some p2) (b1, s2) = Some (p2 + length b + 1)"
    "drop (p2 + length b + 1) b1 = rest"
    using strtok_last_arg [OF 1(3) _ plain(2)] by auto
  have "parse_args_load (Some p) q (buf, sv) = Some (Some (p2 + length b + 1),
      q\<lparr>q_ms_imm16 := ucast (strtoul a), q_ls_imm16 := ucast (strtoul b)\<rparr>, b1, s2)"
    unfolding parse_args_load_def 1(1) [rule_format] by (simp add: 1(2) 2(1-3) strtok_None str_at_def q)
  then show ?thesis using 2(4) by blast
qed

end
