(* ===== verification/Qpu_Line.thy ===== *)
theory Qpu_Line
  imports Qpu_Tokens
begin

text \<open>
  One line of assembly text: its parts, the text they make up, and what the assembler must make of
  it.  The main lemma says that the loop of the assembler, started in front of a sequence of lines,
  returns the instruction words of exactly these lines.
\<close>

subsection \<open>Lines\<close>

record asm_line =
  al_sig :: string
  al_dst :: string
  al_pack :: "string option"
  al_op :: string
  al_mods :: "string list"
  al_args :: "string list"
  al_dst2 :: string
  al_pack2 :: "string option"
  al_op2 :: string
  al_mods2 :: "string list"
  al_args2 :: "string list"

fun commas :: "string list \<Rightarrow> string" where
  "commas [] = []"
| "commas [a] = a"
| "commas (a # as) = a @ '', '' @ commas as"

text \<open>
  The text of a line in which the first closing parenthesis is the character \<open>c\<close>: the assembler
  may have overwritten it with a NUL while it worked on the line in front.  After the last
  parenthesis follow blanks, a semicolon and, where the programmer likes, a newline.
\<close>

definition line_with :: "string \<Rightarrow> char \<Rightarrow> asm_line \<Rightarrow> string" where
  "line_with w c l = ''; '' @ al_dst l @ dotted (al_pack l) @ '' = '' @ al_op l @ modifiers (al_mods l) @ ''('' @
     commas (al_args l) @ [c] @ '' ; '' @ al_dst2 l @ dotted (al_pack2 l) @ '' = '' @ al_op2 l @
     modifiers (al_mods2 l) @ ''('' @ commas (al_args2 l) @ '')'' @ w"

text \<open>The end of a line as the disassembler prints it.\<close>

definition line_tail :: "asm_line \<Rightarrow> string" where
  "line_tail l = (if al_args2 l = [] then '' ;'' else '' ; '')"

definition line_rest :: "char \<Rightarrow> asm_line \<Rightarrow> string" where
  "line_rest c l = line_with (line_tail l) c l"

definition line_text :: "char \<Rightarrow> asm_line \<Rightarrow> string" where
  "line_text c l = al_sig l @ '' '' @ line_rest c l"

definition line_ok :: "asm_line \<Rightarrow> bool" where
  "line_ok l \<longleftrightarrow> list_all plain ([al_sig l, al_dst l, al_op l, al_dst2 l, al_op2 l] @ al_mods l @ al_args l @
     al_mods2 l @ al_args2 l) \<and> pred_option plain (al_pack l) \<and> pred_option plain (al_pack2 l) \<and>
     length (al_mods l) \<le> 5 \<and> length (al_mods2 l) \<le> 5"

subsection \<open>Meaning\<close>

text \<open>The arguments of the first and of the second operation; \<open>None\<close> if they do not fit it.\<close>

definition apply_args :: "string list \<Rightarrow> qpu_insn \<Rightarrow> qpu_insn option" where
  "apply_args as q = (case (q_type q, as) of
     (QPU_ALU, [a, b, c, e]) \<Rightarrow> do {
       i \<leftarrow> name_index qpu_mux_str a;
       j \<leftarrow> name_index qpu_mux_str b;
       Some (q\<lparr>q_add_a := of_nat i, q_add_b := of_nat j, q_raddr_a := raddr_a_of c,
         q_raddr_b := raddr_b_of (q_sig_bit q = 13) e\<rparr>) }
   | (QPU_ALU, [a, b]) \<Rightarrow> do {
       i \<leftarrow> name_index qpu_mux_str a;
       j \<leftarrow> name_index qpu_mux_str b;
       Some (q\<lparr>q_add_a := of_nat i, q_add_b := of_nat j\<rparr>) }
   | (QPU_SEM, [a, b]) \<Rightarrow> Some (q\<lparr>q_semaphore := ucast (strtoul a), q_imm32 := strtoul b\<rparr>)
   | (QPU_BRANCH, [a, b, c]) \<Rightarrow> do {
       i \<leftarrow> name_index qpu_branch_cond_str b;
       Some (q\<lparr>q_imm32 := strtoul a, q_branch_cond := of_nat i, q_raddr_a :=
         ucast (raddr_number ''ra'' (name_code2 (qpu_raddr_str ! 0) (qpu_raddr_str ! 1) c) c)\<rparr>) }
   | (QPU_LOAD_IMM, as) \<Rightarrow> (case (q_load_type q, as) of
       (QPU_LOAD32, [a]) \<Rightarrow> Some (q\<lparr>q_imm32 := strtoul a\<rparr>)
     | (QPU_LOAD16, [a, b]) \<Rightarrow> Some (q\<lparr>q_ms_imm16 := ucast (strtoul a), q_ls_imm16 := ucast (strtoul b)\<rparr>)
     | _ \<Rightarrow> None)
   | _ \<Rightarrow> None)"

definition apply_args2 :: "string list \<Rightarrow> qpu_insn \<Rightarrow> qpu_insn option" where
  "apply_args2 as q = (if q_type q = QPU_ALU
     then (case as of
       [a, b] \<Rightarrow> do {
         i \<leftarrow> name_index qpu_mux_str a;
         j \<leftarrow> name_index qpu_mux_str b;
         Some (q\<lparr>q_mul_a := of_nat i, q_mul_b := of_nat j\<rparr>) }
     | _ \<Rightarrow> None)
     else if as = [] then Some q else None)"

definition line_insn :: "asm_line \<Rightarrow> qpu_insn option" where
  "line_insn l = do {
     let q = qpu_insn_init\<lparr>q_sig_bit := parse_sig_bit (al_sig l), q_waddr_add := waddr_of (al_dst l),
       q_pack_mode := pack_of (al_pack l)\<rparr>;
     q \<leftarrow> apply_args (al_args l) (fold (apply_modifier True) (al_mods l) (apply_op True (Some (al_op l)) q));
     let q = q\<lparr>q_waddr_mul := waddr_of (al_dst2 l),
       q_pack_mode := (if q_pack_unpack_select q \<noteq> 0 then pack_of (al_pack2 l) else q_pack_mode q)\<rparr>;
     apply_args2 (al_args2 l) (fold (apply_modifier False) (al_mods2 l) (apply_op False (Some (al_op2 l)) q)) }"

subsection \<open>The assembler on a line\<close>

lemma dotted_chars: "pred_option plain pk \<Longrightarrow> c \<in> set (dotted pk) \<Longrightarrow> c = CHR ''.'' \<or> c \<notin> set special"
  by (cases pk) (auto simp: dotted_def dest: plain_char)

lemma strtok_dst:
  assumes buf: "drop p buf = lead @ dst @ dotted pk @ '' '' @ rest" "NUL \<in> set rest"
    and lead: "set lead \<subseteq> set (spaces @ ''=;'')" and plain: "plain dst" "pred_option plain pk"
  shows "\<exists>q b s p' b' s'. (\<forall>sv. strtok (Some p) (spaces @ ''=;'') (buf, sv) = Some (Some q, b, s)) \<and>
    parse_dst (Some q) is_add pm_set pack_mode (b, s) =
      Some (Some p', waddr_of dst, (if is_add \<or> pm_set then pack_of pk else pack_mode), b', s') \<and>
    drop p' b' = rest"
proof -
  let ?ds = "spaces @ ''=;''"
  have dot: "CHR ''.'' \<notin> set ?ds" "CHR '' '' \<in> set ?ds" by code_simp+
  have tk: "\<forall>c\<in>set (dst @ dotted pk). c \<notin> set ?ds \<and> c \<noteq> NUL"
  proof
    fix c assume "c \<in> set (dst @ dotted pk)"
    then have "c = CHR ''.'' \<or> c \<notin> set special" using plain_char [OF plain(1)] dotted_chars [OF plain(2)] by auto
    then show "c \<notin> set ?ds \<and> c \<noteq> NUL" using dot(1) separators(10) by (auto simp: special_def)
  qed
  have "dst @ dotted pk \<noteq> []" using plain(1) by auto
  moreover have "drop p buf = lead @ (dst @ dotted pk) @ CHR '' '' # rest" using buf(1) by simp
  ultimately obtain b q s where 1: "\<forall>sv. strtok (Some p) ?ds (buf, sv) = Some (Some q, b, s)"
    "drop q b = dst @ dotted pk @ NUL # rest"
    using strtok_token [of p buf lead "dst @ dotted pk" "CHR '' ''" rest ?ds, OF _ _ separators(9) lead _ _ tk]
      buf(2) dot(2) by (metis append.assoc list.set_intros(2))
  from parse_dst_text [OF 1(2) plain, of is_add pm_set pack_mode s] 1(1) show ?thesis by metis
qed

text \<open>The text up to a closing parenthesis.\<close>

lemma strtok_paren:
  assumes "drop p buf = lead @ tk @ d # rest" "lead = [] \<or> lead = '')''" "tk \<noteq> []"
    "\<forall>c\<in>set tk. c \<noteq> CHR '')'' \<and> c \<noteq> NUL" "d = NUL \<or> d = CHR '')'' \<and> NUL \<in> set rest"
  shows "\<exists>q b s. (\<forall>sv. strtok (Some p) '')'' (buf, sv) = Some (Some q, b, s)) \<and> drop q b = tk @ NUL # rest"
proof -
  have "NUL \<in> set (d # rest)" "d = NUL \<or> d \<in> set '')''" using assms(5) by auto
  moreover have "NUL \<notin> set '')''" "set lead \<subseteq> set '')''" using assms(2) by auto
  moreover have "\<forall>c\<in>set tk. c \<notin> set '')'' \<and> c \<noteq> NUL" using assms(4) by simp
  ultimately show ?thesis using strtok_token [OF assms(1) _ _ _ _ assms(3)] by metis
qed

lemma plain_paren: "plain s \<Longrightarrow> c \<in> set s \<Longrightarrow> c \<noteq> CHR '')'' \<and> c \<noteq> NUL"
  using plain_char [of s c] by (auto simp: special_def)

lemma commas_paren: "list_all plain as \<Longrightarrow> \<forall>c\<in>set (commas as). c \<noteq> CHR '')'' \<and> c \<noteq> NUL"
  by (induction as rule: commas.induct) (auto dest: plain_paren)

lemma assemble_args_text:
  assumes buf: "drop p buf = commas as @ d # rest" "d = NUL \<or> d = CHR '')'' \<and> NUL \<in> set rest"
    and plain: "list_all plain as" and q: "apply_args as q = Some q'"
  shows "\<exists>p' b s. assemble_args (Some p) q (buf, sv) = Some (Some p', q', b, s) \<and> drop p' b = rest"
proof -
  have "as \<noteq> []" using q by (auto simp: apply_args_def split: qpu_alu_type.splits qpu_load_type.splits)
  then have "commas as \<noteq> []" using plain by (induction as rule: commas.induct) auto
  from strtok_paren [of p buf "[]", OF _ _ this commas_paren [OF plain] buf(2)] buf(1) obtain p1 b1 s1 where
    1: "\<forall>sv. strtok (Some p) '')'' (buf, sv) = Some (Some p1, b1, s1)" "drop p1 b1 = commas as @ NUL # rest"
    by auto
  have args: "assemble_args (Some p) q (buf, sv) = (case q_type q of
       QPU_ALU \<Rightarrow> parse_args_alu (Some p1) True (q_sig_bit q = 13) q (b1, s1)
     | QPU_SEM \<Rightarrow> parse_args_sem (Some p1) q (b1, s1)
     | QPU_BRANCH \<Rightarrow> parse_args_branch (Some p1) q (b1, s1)
     | QPU_LOAD_IMM \<Rightarrow> parse_args_load (Some p1) q (b1, s1))"
    unfolding assemble_args_def 1(1) [rule_format] by (simp only: Option.bind_lunit prod.case)
  show ?thesis
  proof (cases "q_type q")
    case QPU_ALU
    then consider a b c e i j where "as = [a, b, c, e]"
        "name_index qpu_mux_str a = Some i" "name_index qpu_mux_str b = Some j"
        "q' = q\<lparr>q_add_a := of_nat i, q_add_b := of_nat j, q_raddr_a := raddr_a_of c,
         q_raddr_b := raddr_b_of (q_sig_bit q = 13) e\<rparr>"
      | a b i j where "as = [a, b]" "name_index qpu_mux_str a = Some i" "name_index qpu_mux_str b = Some j"
        "q' = q\<lparr>q_add_a := of_nat i, q_add_b := of_nat j\<rparr>"
      using q by (auto simp: apply_args_def bind_Some_iff split: list.splits)
    then show ?thesis
    proof cases
      case 1
      then show ?thesis
        using parse_args_alu_4 [of p1 b1 a b c e rest i j] \<open>drop p1 b1 = commas as @ NUL # rest\<close> plain args QPU_ALU by simp
    next
      case 2
      then show ?thesis
        using parse_args_alu_2 [of p1 b1 a b rest i j True] \<open>drop p1 b1 = commas as @ NUL # rest\<close> plain args QPU_ALU by simp
    qed
  next
    case QPU_SEM
    then obtain a b where as: "as = [a, b]" and q': "q' = q\<lparr>q_semaphore := ucast (strtoul a), q_imm32 := strtoul b\<rparr>"
      using q by (auto simp: apply_args_def split: list.splits)
    then show ?thesis using parse_args_sem_text [of p1 b1 a b rest] 1(2) plain args QPU_SEM by simp
  next
    case QPU_BRANCH
    then obtain a b c i where as: "as = [a, b, c]" and i: "name_index qpu_branch_cond_str b = Some i"
      and q': "q' = q\<lparr>q_imm32 := strtoul a, q_branch_cond := of_nat i, q_raddr_a :=
         ucast (raddr_number ''ra'' (name_code2 (qpu_raddr_str ! 0) (qpu_raddr_str ! 1) c) c)\<rparr>"
      using q by (auto simp: apply_args_def bind_Some_iff split: list.splits)
    then show ?thesis using parse_args_branch_text [of p1 b1 a b c rest i] 1(2) plain args QPU_BRANCH by simp
  next
    case QPU_LOAD_IMM
    show ?thesis
    proof (cases "q_load_type q")
      case QPU_LOAD32
      then obtain a where as: "as = [a]" and q': "q' = q\<lparr>q_imm32 := strtoul a\<rparr>"
        using q QPU_LOAD_IMM by (auto simp: apply_args_def split: list.splits)
      then show ?thesis using parse_args_load32_text [of p1 b1 a rest q] 1(2) plain args QPU_LOAD_IMM QPU_LOAD32 by simp
    next
      case QPU_LOAD16
      then obtain a b where as: "as = [a, b]"
        and q': "q' = q\<lparr>q_ms_imm16 := ucast (strtoul a), q_ls_imm16 := ucast (strtoul b)\<rparr>"
        using q QPU_LOAD_IMM by (auto simp: apply_args_def split: list.splits)
      then show ?thesis using parse_args_load16_text [of p1 b1 a b rest q] 1(2) plain args QPU_LOAD_IMM QPU_LOAD16
        by simp
    qed
  qed
qed

subsection \<open>Text without a character\<close>

text \<open>Text without a given character and without NUL.\<close>

definition avoids :: "char \<Rightarrow> string \<Rightarrow> bool" where
  "avoids x s \<longleftrightarrow> list_all (\<lambda>c. c \<noteq> x \<and> c \<noteq> NUL) s"

lemma avoids_append [simp]: "avoids x (s @ t) \<longleftrightarrow> avoids x s \<and> avoids x t"
  by (simp add: avoids_def)

lemma avoids_Nil [simp]: "avoids x []"
  by (simp add: avoids_def)

lemma avoids_Cons [simp]: "avoids x (c # s) \<longleftrightarrow> c \<noteq> x \<and> c \<noteq> NUL \<and> avoids x s"
  by (simp add: avoids_def)

lemma avoids_plain: "plain s \<Longrightarrow> x \<in> set special \<Longrightarrow> avoids x s"
  using plain_char [of s] plain_no_NUL [of s] by (auto simp: avoids_def list_all_iff)

lemma avoids_dotted:
  "pred_option plain pk \<Longrightarrow> x \<in> set special \<Longrightarrow> x \<noteq> CHR ''.'' \<Longrightarrow> avoids x (dotted pk)"
  by (cases pk) (auto simp: dotted_def avoids_plain)

lemma avoids_modifiers:
  "list_all plain ms \<Longrightarrow> x \<in> set special \<Longrightarrow> x \<noteq> CHR ''.'' \<Longrightarrow> avoids x (modifiers ms)"
  by (induction ms) (auto simp: modifiers_def avoids_plain)

lemma avoids_commas:
  "list_all plain as \<Longrightarrow> x \<in> set special \<Longrightarrow> x \<noteq> CHR '','' \<Longrightarrow> x \<noteq> CHR '' '' \<Longrightarrow> avoids x (commas as)"
  by (induction as rule: commas.induct) (auto simp: avoids_plain)

subsection \<open>One round of the loop\<close>

text \<open>
  The empty argument list of the second operation makes \<open>strtok\<close> run on to the next closing
  parenthesis, which may be that of the next line, and put a NUL there.
\<close>

definition cut_paren :: "string \<Rightarrow> string" where
  "cut_paren s = takeWhile (\<lambda>c. c \<noteq> CHR '')'' \<and> c \<noteq> NUL) s @
     (case dropWhile (\<lambda>c. c \<noteq> CHR '')'' \<and> c \<noteq> NUL) s of [] \<Rightarrow> [] | c # cs \<Rightarrow> NUL # cs)"

lemma cut_paren_split:
  assumes "NUL \<in> set s"
  shows "\<exists>t d r. s = t @ d # r \<and> (\<forall>c\<in>set t. c \<noteq> CHR '')'' \<and> c \<noteq> NUL) \<and>
    (d = NUL \<or> d = CHR '')'' \<and> NUL \<in> set r) \<and> cut_paren s = t @ NUL # r"
proof -
  define P where "P = (\<lambda>c. c \<noteq> CHR '')'' \<and> c \<noteq> NUL)"
  define t where "t = takeWhile P s"
  have NUL: "\<not> P NUL" by (simp add: P_def)
  obtain d r where dr: "dropWhile P s = d # r"
    using assms NUL by (cases "dropWhile P s") (auto simp: dropWhile_eq_Nil_conv)
  have s: "s = t @ d # r" using takeWhile_dropWhile_id [of P s] dr by (simp add: t_def)
  have t: "P c" if "c \<in> set t" for c using set_takeWhileD [of c P s] that by (simp add: t_def)
  have "dropWhile P s \<noteq> []" using dr by simp
  from hd_dropWhile [OF this] have d: "\<not> P d" by (simp add: dr)
  have "NUL \<notin> set t" using t NUL by blast
  then have "NUL \<in> set (d # r)" using assms s by simp
  then have "d = NUL \<or> d = CHR '')'' \<and> NUL \<in> set r" using d by (auto simp: P_def)
  moreover have "cut_paren s = t @ NUL # r" using dr by (simp add: cut_paren_def t_def P_def)
  ultimately show ?thesis using s t by (simp add: P_def) blast
qed

lemma cut_paren_append:
  assumes "\<forall>c\<in>set t. c \<noteq> CHR '')'' \<and> c \<noteq> NUL"
  shows "cut_paren (t @ c # r) = (if c = CHR '')'' \<or> c = NUL then t @ NUL # r else t @ c # cut_paren r)"
proof -
  let ?P = "\<lambda>c. c \<noteq> CHR '')'' \<and> c \<noteq> NUL"
  have "takeWhile ?P (t @ xs) = t @ takeWhile ?P xs" "dropWhile ?P (t @ xs) = dropWhile ?P xs" for xs
    using assms by (simp_all add: takeWhile_append dropWhile_append)
  then show ?thesis by (simp add: cut_paren_def)
qed

lemma assemble_step_line:
  assumes ok: "line_ok l" and q: "line_insn l = Some q"
    and sig_s: "cstr buf p = Some (al_sig l)" and buf: "drop sv buf = line_with w c l @ post"
    and c: "c = NUL \<or> c = CHR '')''" and post: "NUL \<in> set post" and w: "w \<noteq> []" "avoids (CHR '')'') w"
  shows "\<exists>p' b s. assemble_step p (buf, sv) =
      Option.bind (strtok (Some p') (spaces @ '';'') (b, s)) (\<lambda>(token, t). Some (emit_instruction q, token, t)) \<and>
    drop p' b = w @ (if al_args2 l = [] then cut_paren post else post)"
proof -
  have plain: "plain (al_dst l)" "pred_option plain (al_pack l)" "plain (al_op l)" "list_all plain (al_mods l)"
    "length (al_mods l) \<le> 5" "list_all plain (al_args l)" "plain (al_dst2 l)" "pred_option plain (al_pack2 l)"
    "plain (al_op2 l)" "list_all plain (al_mods2 l)" "length (al_mods2 l) \<le> 5" "list_all plain (al_args2 l)"
    using ok by (auto simp: line_ok_def)
  let ?q0 = "qpu_insn_init\<lparr>q_sig_bit := parse_sig_bit (al_sig l)\<rparr>"
  let ?q1 = "?q0\<lparr>q_waddr_add := waddr_of (al_dst l), q_pack_mode := pack_of (al_pack l)\<rparr>"
  let ?q2 = "fold (apply_modifier True) (al_mods l) (apply_op True (Some (al_op l)) ?q1)"
  obtain q3 where q3: "apply_args (al_args l) ?q2 = Some q3"
    using q by (auto simp: line_insn_def bind_Some_iff Let_def)
  let ?pk = "if q_pack_unpack_select q3 \<noteq> 0 then pack_of (al_pack2 l) else q_pack_mode q3"
  let ?q4 = "q3\<lparr>q_waddr_mul := waddr_of (al_dst2 l), q_pack_mode := ?pk\<rparr>"
  let ?q5 = "fold (apply_modifier False) (al_mods2 l) (apply_op False (Some (al_op2 l)) ?q4)"
  have q5: "apply_args2 (al_args2 l) ?q5 = Some q" using q q3 by (simp add: line_insn_def Let_def)
  define r3 where "r3 = commas (al_args2 l) @ '')'' @ w @ post"
  define r2 where "r2 = ''= '' @ al_op2 l @ modifiers (al_mods2 l) @ CHR ''('' # r3"
  define r1 where "r1 = '' ; '' @ al_dst2 l @ dotted (al_pack2 l) @ '' '' @ r2"
  have nul: "NUL \<in> set r3" "NUL \<in> set r2" "NUL \<in> set r1" using post by (simp_all add: r1_def r2_def r3_def)
  have d0: "drop sv buf = ''; '' @ al_dst l @ dotted (al_pack l) @ '' '' @
      (''= '' @ al_op l @ modifiers (al_mods l) @ CHR ''('' # (commas (al_args l) @ c # r1))"
    using buf by (simp add: line_with_def r1_def r2_def r3_def)
  have leads: "set ''; '' \<subseteq> set (spaces @ ''=;'')" "set '' ; '' \<subseteq> set (spaces @ ''=;'')"
    "set ''= '' \<subseteq> set (spaces @ ''=('')" by code_simp+
  obtain t1 b1 s1 t2 b2 s2 where
    1: "\<forall>x. strtok (Some sv) (spaces @ ''=;'') (buf, x) = Some (Some t1, b1, s1)"
    "parse_dst (Some t1) True False (q_pack_mode ?q0) (b1, s1) =
      Some (Some t2, waddr_of (al_dst l), pack_of (al_pack l), b2, s2)"
    "drop t2 b2 = ''= '' @ al_op l @ modifiers (al_mods l) @ CHR ''('' # (commas (al_args l) @ c # r1)"
    using strtok_dst [OF d0 _ leads(1) plain(1,2), of True False "q_pack_mode ?q0"] nul(3) by auto
  obtain t3 b3 s3 where 2: "assemble_op True (Some t2) ?q1 (b2, s2) = Some (Some t3, ?q2, b3, s3)"
    "drop t3 b3 = commas (al_args l) @ c # r1"
    using assemble_op_text [OF 1(3) _ leads(3) plain(3-5), of True ?q1 s2] nul(3) by auto
  obtain t4 b4 s4 where 3: "assemble_args (Some t3) ?q2 (b3, s3) = Some (Some t4, q3, b4, s4)" "drop t4 b4 = r1"
    using assemble_args_text [OF 2(2) _ plain(6) q3, of s3] c nul(3) by auto
  obtain t5 b5 s5 t6 b6 s6 where
    4: "\<forall>x. strtok (Some t4) (spaces @ ''=;'') (b4, x) = Some (Some t5, b5, s5)"
    "parse_dst (Some t5) False (q_pack_unpack_select q3 \<noteq> 0) (q_pack_mode q3) (b5, s5) =
      Some (Some t6, waddr_of (al_dst2 l), ?pk, b6, s6)"
    "drop t6 b6 = ''= '' @ al_op2 l @ modifiers (al_mods2 l) @ CHR ''('' # r3"
    using strtok_dst [OF 3(2) [unfolded r1_def] _ leads(2) plain(7,8), of False "q_pack_unpack_select q3 \<noteq> 0"
        "q_pack_mode q3"] nul(2) unfolding r2_def by auto
  obtain t7 b7 s7 where 5: "assemble_op False (Some t6) ?q4 (b6, s6) = Some (Some t7, ?q5, b7, s7)" "drop t7 b7 = r3"
    using assemble_op_text [OF 4(3) _ leads(3) plain(9-11), of False ?q4 s6] nul(1) by auto
  have step: "assemble_step p (buf, sv) = Option.bind (strtok (Some t7) '')'' (b7, s7)) (\<lambda>(token, t).
      Option.bind (if q_type ?q5 = QPU_ALU then parse_args_alu token False (q_sig_bit ?q5 = 13) ?q5 t
        else Some (token, ?q5, t)) (\<lambda>(token, q, t).
      Option.bind (strtok token (spaces @ '';'') t) (\<lambda>(token, t). Some (emit_instruction q, token, t))))"
    unfolding assemble_step_def fst_conv sig_s strtok_None
    by (simp only: Option.bind_lunit prod.case Let_def 1(1) [rule_format] 1(2) 2(1) 3(1) 4(1) [rule_format] 4(2) 5(1))
  show ?thesis
  proof (cases "q_type ?q5 = QPU_ALU")
    case True
    then obtain a b i j where as: "al_args2 l = [a, b]"
      and ij: "name_index qpu_mux_str a = Some i" "name_index qpu_mux_str b = Some j"
      and qq: "q = ?q5\<lparr>q_mul_a := of_nat i, q_mul_b := of_nat j\<rparr>"
      using q5 by (auto simp: apply_args2_def bind_Some_iff split: list.splits)
    have ab: "plain a" "plain b" using plain(12) as by simp_all
    have d7: "drop t7 b7 = [] @ commas [a, b] @ CHR '')'' # (w @ post)"
      using 5(2) as by (simp add: r3_def)
    have ne: "commas [a, b] \<noteq> []" "\<forall>c\<in>set (commas [a, b]). c \<noteq> CHR '')'' \<and> c \<noteq> NUL"
      using ab commas_paren [of "[a, b]"] by auto
    obtain t8 b8 s8 where 6: "\<forall>x. strtok (Some t7) '')'' (b7, x) = Some (Some t8, b8, s8)"
      "drop t8 b8 = a @ '', '' @ b @ NUL # (w @ post)"
      using strtok_paren [OF d7 _ ne] post by auto
    from parse_args_alu_2 [OF 6(2) ab ij, of False "q_sig_bit ?q5 = 13" ?q5 s8] obtain t9 b9 s9 where
      7: "parse_args_alu (Some t8) False (q_sig_bit ?q5 = 13) ?q5 (b8, s8) = Some (Some t9, q, b9, s9)"
      "drop t9 b9 = w @ post" unfolding qq by auto
    have "assemble_step p (buf, sv) = Option.bind (strtok (Some t9) (spaces @ '';'') (b9, s9))
        (\<lambda>(token, t). Some (emit_instruction q, token, t))"
      unfolding step 6(1) [rule_format] using True 7(1) by simp
    then show ?thesis using 7(2) as by auto
  next
    case False
    then have as: "al_args2 l = []" "q = ?q5" using q5 by (auto simp: apply_args2_def split: if_splits)
    obtain t d r where cut: "post = t @ d # r" "\<forall>c\<in>set t. c \<noteq> CHR '')'' \<and> c \<noteq> NUL"
      "d = NUL \<or> d = CHR '')'' \<and> NUL \<in> set r" "cut_paren post = t @ NUL # r"
      using cut_paren_split [OF post] by blast
    have "drop t7 b7 = '')'' @ (w @ t) @ d # r" using 5(2) as(1) cut(1) by (simp add: r3_def)
    moreover have "w @ t \<noteq> []" "\<forall>c\<in>set (w @ t). c \<noteq> CHR '')'' \<and> c \<noteq> NUL"
      using w cut(2) by (auto simp: avoids_def list_all_iff)
    ultimately obtain t8 b8 s8 where
      6: "\<forall>x. strtok (Some t7) '')'' (b7, x) = Some (Some t8, b8, s8)" "drop t8 b8 = w @ cut_paren post"
      using strtok_paren [OF _ _ _ _ cut(3)] unfolding cut(4) by (metis append.assoc)
    have "assemble_step p (buf, sv) = Option.bind (strtok (Some t8) (spaces @ '';'') (b8, s8))
        (\<lambda>(token, t). Some (emit_instruction q, token, t))"
      unfolding step 6(1) [rule_format] using False as(2) by simp
    then show ?thesis using 6(2) as by auto
  qed
qed

subsection \<open>Programs\<close>

text \<open>
  A sequence of lines, each with what separates it from the next one, as a C string with bytes behind
  it; \<open>c\<close> is the first closing parenthesis.
\<close>

type_synonym asm_program = "(asm_line \<times> string) list"

fun spaced_text :: "string \<Rightarrow> char \<Rightarrow> asm_program \<Rightarrow> string" where
  "spaced_text z c [] = NUL # z"
| "spaced_text z c ((l, w) # ls) = al_sig l @ '' '' @ line_with w c l @ spaced_text z (CHR '')'') ls"

text \<open>Each line ended by a newline, as the disassembler prints them.\<close>

fun program_text :: "char \<Rightarrow> asm_line list \<Rightarrow> string" where
  "program_text c [] = [NUL]"
| "program_text c (l # ls) = line_text c l @ [CHR 0x0A] @ program_text (CHR '')'') ls"

lemma line_with_append: "line_with (w @ x) c l = line_with w c l @ x"
  by (simp add: line_with_def)

lemma program_spaced: "program_text c ls = spaced_text [] c (map (\<lambda>l. (l, line_tail l @ [CHR 0x0A])) ls)"
  by (induction c ls rule: program_text.induct) (simp_all add: line_text_def line_rest_def line_with_append)

lemma spaced_text_NUL: "NUL \<in> set (spaced_text z c ls)"
  by (induction z c ls rule: spaced_text.induct) auto

lemma program_text_NUL: "NUL \<in> set (program_text c ls)"
  by (simp add: program_spaced spaced_text_NUL)

text \<open>Between two lines there are separators only, one of them a semicolon.\<close>

definition gap_ok :: "string \<Rightarrow> bool" where
  "gap_ok w \<longleftrightarrow> set w \<subseteq> set (spaces @ '';'') \<and> count_list w (CHR '';'') = 1"

lemma gap_chars:
  assumes "gap_ok w"
  shows "w \<noteq> []" "avoids (CHR '')'') w" "avoids (CHR ''#'') w"
  using assms by (auto simp: gap_ok_def avoids_def list_all_iff spaces_set)

lemma gap_tail: "gap_ok (line_tail l @ [CHR 0x0A])"
  by (simp add: gap_ok_def line_tail_def spaces_set)

definition spaced_ok :: "asm_line \<times> string \<Rightarrow> bool" where
  "spaced_ok lw \<longleftrightarrow> line_ok (fst lw) \<and> gap_ok (snd lw)"

definition line_front :: "asm_line \<Rightarrow> string" where
  "line_front l = al_sig l @ '' ; '' @ al_dst l @ dotted (al_pack l) @ '' = '' @ al_op l @ modifiers (al_mods l) @
     ''('' @ commas (al_args l)"

lemma special_paren: "CHR '')'' \<in> set special" "CHR ''#'' \<in> set special"
  by (simp_all add: special_set)

lemma avoids_line_front: "line_ok l \<Longrightarrow> avoids (CHR '')'') (line_front l)"
  using special_paren(1)
  by (simp add: line_front_def line_ok_def avoids_plain avoids_dotted avoids_modifiers avoids_commas)

lemma cut_paren_spaced:
  assumes "list_all spaced_ok ls"
  shows "cut_paren (spaced_text z (CHR '')'') ls) = spaced_text z NUL ls"
proof (cases ls)
  case Nil
  then show ?thesis using cut_paren_append [of "[]" NUL z] by simp
next
  case (Cons lw ls')
  obtain l w where lw: "lw = (l, w)" by (cases lw)
  have "avoids (CHR '')'') (line_front l)" using assms Cons lw avoids_line_front by (simp add: spaced_ok_def)
  then have "\<forall>x\<in>set (line_front l). x \<noteq> CHR '')'' \<and> x \<noteq> NUL"
    by (simp only: avoids_def list_all_iff)
  moreover define r where "r = '' ; '' @ al_dst2 l @ dotted (al_pack2 l) @ '' = '' @ al_op2 l @
     modifiers (al_mods2 l) @ ''('' @ commas (al_args2 l) @ '')'' @ w @ spaced_text z (CHR '')'') ls'"
  have "spaced_text z d ls = line_front l @ d # r" for d
    by (simp add: Cons lw line_with_def line_front_def r_def)
  ultimately show ?thesis using cut_paren_append [of "line_front l" "CHR '')''" r] by simp
qed

lemma assemble_loop_spaced:
  assumes "list_all2 (\<lambda>lw q. spaced_ok lw \<and> line_insn (fst lw) = Some q) ls qs"
    "drop p buf = lead @ spaced_text z c ls" "set lead \<subseteq> set (spaces @ '';'')" "c = NUL \<or> c = CHR '')''"
  shows "Option.bind (strtok (Some p) (spaces @ '';'') (buf, sv)) (\<lambda>(token, t). assemble_loop token t) =
    Some (map emit_instruction qs)"
  using assms
proof (induction ls qs arbitrary: p buf sv lead c rule: list_all2_induct)
  case Nil
  have "drop p buf = lead @ NUL # z" using Nil.prems(1) by simp
  from strtok_end(1) [OF this separators(7) Nil.prems(2)] show ?case
    by (simp add: assemble_loop.simps)
next
  case (Cons lw ls q qs)
  obtain l w where lw: "lw = (l, w)" by (cases lw)
  let ?post = "spaced_text z (CHR '')'') ls"
  have ok: "line_ok l" "gap_ok w" "line_insn l = Some q" using Cons.hyps(1) by (simp_all add: spaced_ok_def lw)
  have sg: "plain (al_sig l)" using ok(1) by (simp add: line_ok_def)
  have nul: "NUL \<in> set ?post" by (rule spaced_text_NUL)
  have oks: "list_all spaced_ok ls" using Cons.hyps(2) by (auto simp: list_all2_conv_all_nth list_all_length)
  have "drop p buf = lead @ al_sig l @ CHR '' '' # (line_with w c l @ ?post)"
    using Cons.prems(1) by (simp add: lw)
  moreover have "CHR '' '' \<in> set (spaces @ '';'')" by code_simp
  ultimately obtain b t s where 1: "\<forall>x. strtok (Some p) (spaces @ '';'') (buf, x) = Some (Some t, b, s)"
    "cstr b t = Some (al_sig l)" "drop s b = line_with w c l @ ?post"
    using strtok_word_sep [of p buf lead "al_sig l" "CHR '' ''" "line_with w c l @ ?post", OF _ _ separators(7,8)
        Cons.prems(2) sg] nul by (metis Un_iff set_append)
  obtain p' b' s' where 2: "assemble_step t (b, s) = Option.bind (strtok (Some p') (spaces @ '';'') (b', s'))
      (\<lambda>(token, t). Some (emit_instruction q, token, t))"
    "drop p' b' = w @ (if al_args2 l = [] then cut_paren ?post else ?post)"
    using assemble_step_line [OF ok(1,3) 1(2,3) Cons.prems(3) nul gap_chars(1,2) [OF ok(2)]] by blast
  have "cut_paren ?post = spaced_text z NUL ls"
    by (rule cut_paren_spaced [OF oks])
  then obtain c' where 3: "drop p' b' = w @ spaced_text z c' ls" "c' = NUL \<or> c' = CHR '')''"
    using 2(2) by metis
  have "set w \<subseteq> set (spaces @ '';'')" using ok(2) by (simp add: gap_ok_def)
  from Cons.IH [OF 3(1) this 3(2), of s'] obtain tk t' where
    4: "strtok (Some p') (spaces @ '';'') (b', s') = Some (tk, t')" "assemble_loop tk t' = Some (map emit_instruction qs)"
    by (auto simp: bind_Some_iff)
  show ?case unfolding 1(1) [rule_format] by (simp add: assemble_loop.simps [of "Some t"] 2(1) 4)
qed

subsection \<open>Comments\<close>

text \<open>Text without a comment is left alone.\<close>

lemma strip_comments_avoids:
  "avoids (CHR ''#'') s \<Longrightarrow> strip_comments False (s @ NUL # rest) = Some (s @ NUL # rest)"
  by (induction s) (auto simp: avoids_def)

text \<open>A line is not a comment.\<close>

lemma avoids_spaced_line:
  "spaced_ok (l, w) \<Longrightarrow> avoids (CHR ''#'') (al_sig l @ '' '' @ line_with w (CHR '')'') l)"
  using special_paren(2) gap_chars(3) [of w]
  by (simp add: spaced_ok_def line_with_def line_ok_def avoids_plain avoids_dotted avoids_modifiers avoids_commas)

lemma avoids_spaced_text:
  assumes "list_all spaced_ok ls"
  shows "\<exists>s. spaced_text z (CHR '')'') ls = s @ NUL # z \<and> avoids (CHR ''#'') s"
  using assms
proof (induction ls)
  case (Cons lw ls)
  obtain l w where lw: "lw = (l, w)" by (cases lw)
  from Cons obtain s where s: "spaced_text z (CHR '')'') ls = s @ NUL # z" "avoids (CHR ''#'') s" by auto
  have "spaced_text z (CHR '')'') (lw # ls) = ((al_sig l @ '' '' @ line_with w (CHR '')'') l) @ s) @ NUL # z"
    by (simp add: s(1) lw)
  moreover have "avoids (CHR ''#'') ((al_sig l @ '' '' @ line_with w (CHR '')'') l) @ s)"
    using avoids_spaced_line [of l w] s(2) Cons.prems unfolding lw by (simp del: append_assoc)
  ultimately show ?case by blast
qed (auto intro: exI [of _ "[]"])

lemma assemble_spaced:
  assumes "list_all2 (\<lambda>lw q. spaced_ok lw \<and> line_insn (fst lw) = Some q) ls qs"
  shows "assemble_qpu_asm (spaced_text z (CHR '')'') ls) = Some (map emit_instruction qs)"
proof -
  have ok: "list_all spaced_ok ls" using assms by (auto simp: list_all2_conv_all_nth list_all_length)
  have "strip_comments False (spaced_text z (CHR '')'') ls) = Some (spaced_text z (CHR '')'') ls)"
    using avoids_spaced_text [OF ok, of z] strip_comments_avoids [of _ z] by auto
  then show ?thesis
    using assemble_loop_spaced [OF assms, of 0 "spaced_text z (CHR '')'') ls" "[]" z "CHR '')''" 0]
    by (simp add: assemble_qpu_asm_def)
qed

lemma assemble_program:
  assumes "list_all2 (\<lambda>l q. line_ok l \<and> line_insn l = Some q) ls qs"
  shows "assemble_qpu_asm (program_text (CHR '')'') ls) = Some (map emit_instruction qs)"
  unfolding program_spaced
  by (rule assemble_spaced) (use assms in \<open>simp add: list_all2_map1 spaced_ok_def gap_tail\<close>)

end
