(* ===== verification/Qpu_Names.thy ===== *)
theory Qpu_Names
  imports Qpu_Line
begin

text \<open>
  Reading back what the disassembler prints: numbers in the two formats it uses, and the names of the
  tables, which are unique and contain no separators.
\<close>

unbundle bit_operations_syntax

subsection \<open>Numbers\<close>

lemma digit_vals: "list_all (\<lambda>d. digit_val (''0123456789abcdef'' ! nat d) = Some d \<and>
    ''0123456789abcdef'' ! nat d \<notin> set special) [0..15]"
  by code_simp

lemma digit_val_hex:
  assumes "0 \<le> d" "d < 16"
  shows "digit_val (''0123456789abcdef'' ! nat d) = Some d" "''0123456789abcdef'' ! nat d \<notin> set special"
proof -
  have "d \<in> set [0..15]" using assms unfolding set_upto by simp
  then show "digit_val (''0123456789abcdef'' ! nat d) = Some d" "''0123456789abcdef'' ! nat d \<notin> set special"
    using digit_vals unfolding list_all_iff by blast+
qed

lemma digits_snoc:
  assumes "list_all (\<lambda>c. \<exists>e. digit_val c = Some e \<and> e < b) s" "digit_val c = Some d" "d < b"
  shows "digits b acc (s @ [c]) = digits b acc s * b + d"
  using assms by (induction s arbitrary: acc) auto

lemma show_num_digits:
  assumes "2 \<le> b" "b \<le> 16" "0 \<le> n"
  shows "plain (show_num b n) \<and> list_all (\<lambda>c. \<exists>e. digit_val c = Some e \<and> e < b) (show_num b n) \<and>
    digits b 0 (show_num b n) = n"
  using assms
proof (induction b n rule: show_num.induct)
  case (1 b n)
  show ?case
  proof (cases "n < b")
    case True
    then show ?thesis using "1.prems" digit_val_hex [of n]
      by (subst (1 2 3) show_num.simps) (simp add: plain_def)
  next
    case False
    let ?d = "n mod b"
    have d: "0 \<le> ?d" "?d < b" "?d < 16" using "1.prems" pos_mod_bound [of b n] pos_mod_sign [of b n] by linarith+
    have q: "0 \<le> n div b" using "1.prems" by (simp add: pos_imp_zdiv_nonneg_iff)
    have IH: "plain (show_num b (n div b))"
      "list_all (\<lambda>c. \<exists>e. digit_val c = Some e \<and> e < b) (show_num b (n div b))"
      "digits b 0 (show_num b (n div b)) = n div b"
      using "1.IH" [OF _ "1.prems"(1,2) q] False "1.prems" by simp_all
    have step: "show_num b n = show_num b (n div b) @ [''0123456789abcdef'' ! nat ?d]"
      using False "1.prems" by (subst show_num.simps) simp
    have "digits b 0 (show_num b n) = n div b * b + ?d"
      unfolding step using digits_snoc [OF IH(2) digit_val_hex(1) [OF d(1,3)] d(2)] IH(3) by simp
    moreover have "plain (show_num b n)" unfolding step using IH(1) digit_val_hex(2) [OF d(1,3)]
      by (simp add: plain_def)
    moreover have "list_all (\<lambda>c. \<exists>e. digit_val c = Some e \<and> e < b) (show_num b n)"
      unfolding step using IH(2) digit_val_hex(1) [OF d(1,3)] d(2) by simp
    ultimately show ?thesis by simp
  qed
qed

lemma show_x_strtoul: "strtoul (show_x w) = w" "plain (show_x w)"
proof -
  have z: "strtoul ''0'' = 0" "plain ''0''" "plain ''0x''" by code_simp+
  have n: "plain (show_num 16 (uint w))"
    "list_all (\<lambda>c. \<exists>e. digit_val c = Some e \<and> e < 16) (show_num 16 (uint w))"
    "digits 16 0 (show_num 16 (uint w)) = uint w" using show_num_digits [of 16 "uint w"] by simp_all
  obtain c cs where c: "show_num 16 (uint w) = c # cs" using n(1) by (cases "show_num 16 (uint w)") auto
  have "uint w < 2 ^ 32" using uint_lt2p [of w] by simp
  moreover have "CHR ''0'' \<notin> set spaces" by code_simp
  moreover obtain e where "digit_val c = Some e" "e < 16" using n(2) c by auto
  ultimately have "strtoul (''0x'' @ show_num 16 (uint w)) = w"
    using n(3) unfolding c by (simp add: strtoul_def Let_def)
  then show "strtoul (show_x w) = w" using z(1) by (simp add: show_x_def)
  show "plain (show_x w)" using z(2,3) n(1) by (simp add: show_x_def plain_def)
qed

lemma show_d_numbers: "list_all (\<lambda>i. plain (show_d i) \<and> strtoul (show_d i) = word_of_int i) [-16..31]"
  by code_simp

lemma show_d_strtoul:
  assumes "-16 \<le> i" "i \<le> 31"
  shows "strtoul (show_d i) = word_of_int i" "plain (show_d i)"
proof -
  have "i \<in> set [-16..31]" using assms by (simp only: set_upto atLeastAtMost_iff)
  then show "strtoul (show_d i) = word_of_int i" "plain (show_d i)"
    using show_d_numbers unfolding list_all_iff by blast+
qed

subsection \<open>Tables\<close>

text \<open>A table whose names are unique.\<close>

definition unique_names :: "names \<Rightarrow> bool" where
  "unique_names ns \<longleftrightarrow> (\<forall>i s. i < length ns \<longrightarrow> ns ! i = Some s \<longrightarrow> name_index ns s = Some i)"

lemma name_index_first:
  assumes "i < length ns" "ns ! i = Some s" "\<And>j. j < i \<Longrightarrow> ns ! j \<noteq> Some s"
  shows "name_index ns s = Some i"
proof -
  have "length (takeWhile (\<lambda>n. n \<noteq> Some s) ns) = i"
    using assms length_takeWhile_less_P_nth [of i "\<lambda>n. n \<noteq> Some s" ns]
      nth_length_takeWhile [of "\<lambda>n. n \<noteq> Some s" ns]
    by (metis (mono_tags, lifting) length_takeWhile_le linorder_neqE_nat nth_mem set_takeWhileD takeWhile_nth
        order_le_less order_less_le_trans)
  then show ?thesis using assms(1) by (simp add: name_index_def)
qed

lemma unique_names_of: "distinct (map snd es) \<Longrightarrow> unique_names (names_of n es)"
proof (unfold unique_names_def, intro allI impI)
  fix i s assume d: "distinct (map snd es)" and i: "i < length (names_of n es)" "names_of n es ! i = Some s"
  have nth: "names_of n es ! j = map_of es j" if "j < n" for j using that by (simp add: names_of_def)
  have m: "map_of es i = Some s" "i < n" using i nth by (simp_all add: names_of_def)
  show "name_index (names_of n es) s = Some i"
  proof (rule name_index_first [OF i])
    fix j assume "j < i"
    show "names_of n es ! j \<noteq> Some s"
    proof
      assume "names_of n es ! j = Some s"
      then have "map_of es j = Some s" using nth [of j] \<open>j < i\<close> m(2) by simp
      then have "(j, s) \<in> set es" "(i, s) \<in> set es" using m(1) map_of_SomeD by fast+
      then have "j = i" using d by (metis distinct_map inj_onD old.prod.inject snd_conv)
      then show False using \<open>j < i\<close> by simp
    qed
  qed
qed

lemma unique_map_Some: "distinct xs \<Longrightarrow> unique_names (map Some xs)"
  unfolding unique_names_def by (auto intro!: name_index_first simp: nth_eq_iff_index_eq)

lemma unique_name_at:
  "unique_names ns \<Longrightarrow> name_at ns c = Some s \<Longrightarrow> name_index ns s = Some (unat c)"
  by (auto simp: unique_names_def name_at_def split: if_splits)

text \<open>All names of a table have a property.\<close>

definition all_names :: "(string \<Rightarrow> bool) \<Rightarrow> names \<Rightarrow> bool" where
  "all_names P ns \<longleftrightarrow> (\<forall>s. Some s \<in> set ns \<longrightarrow> P s)"

lemma all_names_of: "list_all P (map snd es) \<Longrightarrow> all_names P (names_of n es)"
  by (auto simp: all_names_def names_of_def list_all_iff dest!: map_of_SomeD [OF sym])

lemma all_names_map_Some: "list_all P xs \<Longrightarrow> all_names P (map Some xs)"
  by (auto simp: all_names_def list_all_iff)

lemma all_name_at: "all_names P ns \<Longrightarrow> name_at ns c = Some s \<Longrightarrow> P s"
  by (auto simp: all_names_def name_at_def split: if_splits) (metis nth_mem)

lemma name_index_None: "all_names (\<lambda>s. s \<noteq> t) ns \<Longrightarrow> name_index ns t = None"
proof -
  assume "all_names (\<lambda>s. s \<noteq> t) ns"
  then have "Some t \<notin> set ns" by (auto simp: all_names_def)
  then have "takeWhile (\<lambda>n. n \<noteq> Some t) ns = ns" by (auto simp: takeWhile_eq_all_conv)
  then show ?thesis unfolding name_index_def Let_def by (simp only: less_irrefl if_False)
qed

lemmas table_defs = qpu_sig_bits_str_def qpu_cond_str_def qpu_mux_str_def qpu_unpack_str_def qpu_pack_a_str_def
  qpu_pack_mul_str_def qpu_branch_cond_str_def qpu_op_add_str_def qpu_op_mul_str_def qpu_raddr_str_def
  qpu_waddr_str_def

lemma unique_tables:
  "unique_names qpu_sig_bits_str" "unique_names qpu_cond_str" "unique_names qpu_mux_str"
  "unique_names qpu_unpack_str" "unique_names qpu_pack_a_str" "unique_names qpu_pack_mul_str"
  "unique_names qpu_branch_cond_str" "unique_names qpu_op_add_str" "unique_names qpu_op_mul_str"
  "unique_names (qpu_raddr_str ! 0)" "unique_names (qpu_raddr_str ! 1)"
  "unique_names (qpu_waddr_str ! 0)" "unique_names (qpu_waddr_str ! 1)"
  by (simp_all only: table_defs nth_Cons_0 One_nat_def nth_Cons_Suc)
    (rule unique_names_of unique_map_Some; simp)+

lemma plain_tables:
  "all_names plain qpu_sig_bits_str" "all_names plain qpu_cond_str" "all_names plain qpu_mux_str"
  "all_names plain qpu_unpack_str" "all_names plain qpu_pack_mul_str"
  "all_names plain qpu_branch_cond_str" "all_names plain qpu_op_add_str" "all_names plain qpu_op_mul_str"
  "all_names plain (qpu_raddr_str ! 0)" "all_names plain (qpu_raddr_str ! 1)"
  "all_names plain (qpu_waddr_str ! 0)" "all_names plain (qpu_waddr_str ! 1)"
  by (simp_all only: table_defs nth_Cons_0 One_nat_def nth_Cons_Suc)
    (rule all_names_of all_names_map_Some; simp add: plain_def special_def spaces_def)+

subsection \<open>Reading names back\<close>

lemma name_index_SomeD: "name_index ns s = Some i \<Longrightarrow> i < length ns \<and> ns ! i = Some s"
  using nth_length_takeWhile [of "\<lambda>n. n \<noteq> Some s" ns]
  by (auto simp: name_index_def Let_def split: if_splits)

lemma name_code_at:
  assumes "unique_names ns" "name_at ns c = Some s" "unat c < 256"
  shows "name_code ns s = ucast c"
  using unique_name_at [OF assms(1,2)] by (simp add: name_code_def)

text \<open>Two tables that never give two numbers to a name.\<close>

definition compatible :: "names \<Rightarrow> names \<Rightarrow> bool" where
  "compatible ns ns' \<longleftrightarrow> (\<forall>i j s. name_index ns s = Some i \<longrightarrow> name_index ns' s = Some j \<longrightarrow> i = j)"

lemma compatible_names_of:
  assumes "list_all (\<lambda>(i, s). list_all (\<lambda>(j, s'). s = s' \<longrightarrow> i = j) es') es"
  shows "compatible (names_of n es) (names_of m es')"
proof (unfold compatible_def, intro allI impI)
  fix i j s assume "name_index (names_of n es) s = Some i" "name_index (names_of m es') s = Some j"
  then have "map_of es i = Some s" "map_of es' j = Some s"
    by (auto dest!: name_index_SomeD simp: names_of_def)
  then have "(i, s) \<in> set es" "(j, s) \<in> set es'" by (simp_all add: map_of_SomeD)
  then show "i = j" using assms unfolding list_all_iff by fast
qed

lemma name_code2_at:
  assumes u: "unique_names ns" "unique_names ns'" and c: "compatible ns ns'" "unat c < 256"
    and at: "name_at ns c = Some s \<or> name_at ns' c = Some s"
  shows "name_code2 ns ns' s = ucast c"
proof -
  have code: "name_code m s = (case name_index m s of None \<Rightarrow> 0 | Some i \<Rightarrow> of_nat i)" for m
    by (simp add: name_code_def)
  have ix: "name_index ns s = Some (unat c) \<or> name_index ns' s = Some (unat c)"
    using at unique_name_at [OF u(1)] unique_name_at [OF u(2)] by blast
  have eq: "i = unat c" if "name_index ns s = Some i \<or> name_index ns' s = Some i" for i
    using that ix c(1) unfolding compatible_def by (metis option.inject)
  have n: "of_nat (unat c) = (ucast c :: u8)" by simp
  have "name_code ns s = ucast c \<or> name_code ns s = 0 \<and> name_index ns s = None"
    unfolding code using eq [OF disjI1] n by (cases "name_index ns s") force+
  moreover have "name_code ns' s = ucast c \<or> name_code ns' s = 0 \<and> name_index ns' s = None"
    unfolding code using eq [OF disjI2] n by (cases "name_index ns' s") force+
  ultimately show ?thesis using ix by (auto simp: name_code2_def)
qed

lemma compatible_tables:
  "compatible (qpu_waddr_str ! 0) (qpu_waddr_str ! 1)" "compatible (qpu_raddr_str ! 0) (qpu_raddr_str ! 1)"
  "compatible qpu_pack_a_str qpu_pack_mul_str"
  by (simp_all only: table_defs nth_Cons_0 One_nat_def nth_Cons_Suc)
    (rule compatible_names_of; simp)+

lemma prefix_tables:
  "all_names (\<lambda>s. take 2 s \<noteq> ''rx'') (qpu_waddr_str ! 0)" "all_names (\<lambda>s. take 2 s \<noteq> ''rx'') (qpu_waddr_str ! 1)"
  "all_names (\<lambda>s. take 2 s \<noteq> ''ra'' \<and> take 2 s \<noteq> ''rb'') (qpu_raddr_str ! 0)"
  "all_names (\<lambda>s. take 2 s \<noteq> ''ra'' \<and> take 2 s \<noteq> ''rb'') (qpu_raddr_str ! 1)"
  by (simp_all only: table_defs nth_Cons_0 One_nat_def nth_Cons_Suc)
    (rule all_names_of; simp)+

lemma name_index_prefix:
  assumes "all_names (\<lambda>s. take 2 s \<noteq> p \<and> take 2 s \<noteq> q) ns" "take 2 s = p \<or> take 2 s = q"
  shows "name_index ns s = None"
  using assms by (intro name_index_None) (auto simp: all_names_def)

lemma uint_31:
  assumes "(w :: u32) \<le> 31"
  shows "strtoul (show_d (uint w)) = w" "plain (show_d (uint w))"
proof -
  have "uint w \<le> uint (31 :: u32)" using assms by (simp only: word_le_def)
  then have "uint w \<le> 31" by simp
  moreover have "-16 \<le> uint w" using uint_ge_0 [of w] by linarith
  ultimately show "strtoul (show_d (uint w)) = w" "plain (show_d (uint w))" using show_d_strtoul [of "uint w"] by simp_all
qed

lemma ucast_small: "unat (w :: u32) < 256 \<Longrightarrow> (ucast (ucast w :: u8) :: u32) = w"
  by (rule word_unat_eq_iff [THEN iffD2]) (simp add: unsigned_ucast_eq unsigned_take_bit_eq take_bit_nat_eq_self)

lemma show_waddr_back:
  assumes "show_waddr t w = Some s" "t = 0 \<or> t = 1" "unat w < 64"
  shows "plain s" "waddr_of s = w"
proof -
  have "plain s \<and> waddr_of s = w"
  proof (cases "w \<le> 31")
    case True
    then have s: "s = ''rx'' @ show_d (uint w)" using assms(1) by (simp add: show_waddr_def)
    have n: "strtoul (show_d (uint w)) = w" "plain (show_d (uint w))"
      using uint_31 [of w] True by simp_all
    have "plain ''rx''" by code_simp
    then have "plain s" using n(2) s by (simp add: plain_def)
    moreover have "waddr_of s = w" using n(1) ucast_small [of w] assms(3) by (simp add: waddr_of_def s)
    ultimately show ?thesis ..
  next
    case False
    then have at: "name_at (qpu_waddr_str ! 0) w = Some s \<or> name_at (qpu_waddr_str ! 1) w = Some s"
      using assms(1,2) by (auto simp: show_waddr_def)
    have "take 2 s \<noteq> ''rx''" using at all_name_at [OF prefix_tables(1)] all_name_at [OF prefix_tables(2)] by blast
    moreover have "name_code2 (qpu_waddr_str ! 0) (qpu_waddr_str ! 1) s = ucast w"
      using name_code2_at [OF unique_tables(12,13) compatible_tables(1) _ at] assms(3) by simp
    moreover have "plain s" using at all_name_at [OF plain_tables(11)] all_name_at [OF plain_tables(12)] by blast
    ultimately show ?thesis using ucast_small [of w] assms(3) by (simp add: waddr_of_def)
  qed
  then show "plain s" "waddr_of s = w" by simp_all
qed

text \<open>The number of a register that the assembler reads with \<open>p\<close> as its prefix.\<close>

lemma show_raddr_back:
  assumes s: "show_raddr t p r = Some s" and t: "t = 0 \<or> t = 1" and p: "p = ''ra'' \<or> p = ''rb''" and r: "unat r < 64"
  shows "plain s"
    "raddr_number p (name_code2 (qpu_raddr_str ! 0) (qpu_raddr_str ! 1) s) s = ucast r"
    "t = 0 \<Longrightarrow> raddr_number p (name_code (qpu_raddr_str ! 0) s) s = ucast r"
proof -
  let ?A = "qpu_raddr_str ! 0" and ?B = "qpu_raddr_str ! 1"
  have "plain s \<and> raddr_number p (name_code2 ?A ?B s) s = ucast r \<and>
    (t = 0 \<longrightarrow> raddr_number p (name_code ?A s) s = ucast r)"
  proof (cases "r \<le> 31 \<and> r \<noteq> 15")
    case True
    then have s': "s = p @ show_d (uint r)" using s by (simp add: show_raddr_def)
    have n: "strtoul (show_d (uint r)) = r" "plain (show_d (uint r))"
      using uint_31 [of r] True by simp_all
    have "plain ''ra''" "plain ''rb''" by code_simp+
    then have pl: "plain s" using n(2) s' p by (auto simp: plain_def)
    have tk: "take 2 s = p" "drop 2 s = show_d (uint r)" using s' p by auto
    then have "take 2 s = ''ra'' \<or> take 2 s = ''rb''" using p by blast
    then have "name_index ?A s = None" "name_index ?B s = None"
      using name_index_prefix [OF prefix_tables(3)] name_index_prefix [OF prefix_tables(4)] by blast+
    then have "name_code ?A s = 0" "name_code2 ?A ?B s = 0" by (simp_all add: name_code_def name_code2_def)
    then show ?thesis using pl tk n(1) by (simp add: raddr_number_def)
  next
    case False
    have z: "name_at ?A 15 = Some ''pay_zw''" "name_at ?B 15 = Some ''pay_zw''" by code_simp+
    have at: "name_at ?A r = Some s \<or> name_at ?B r = Some s" "t = 0 \<Longrightarrow> name_at ?A r = Some s"
      using s t z False by (auto simp: show_raddr_def split: if_splits)
    have pl: "plain s" "take 2 s \<noteq> p"
      using at(1) p all_name_at [OF plain_tables(9)] all_name_at [OF plain_tables(10)]
        all_name_at [OF prefix_tables(3)] all_name_at [OF prefix_tables(4)] by blast+
    have "name_code2 ?A ?B s = ucast r"
      using name_code2_at [OF unique_tables(10,11) compatible_tables(2) _ at(1)] r by simp
    moreover have "t = 0 \<Longrightarrow> name_code ?A s = ucast r" using name_code_at [OF unique_tables(10) at(2)] r by simp
    ultimately show ?thesis using pl by (simp add: raddr_number_def)
  qed
  then show "plain s" "raddr_number p (name_code2 ?A ?B s) s = ucast r"
    "t = 0 \<Longrightarrow> raddr_number p (name_code ?A s) s = ucast r" by simp_all
qed

lemma small_imm_floats:
  "list_all (\<lambda>r. qpu_encode_small_immediate (float_pow2 (if r < 40 then r - 32 else r - 48)) = word_of_int r) [32..47]"
  "list_all (\<lambda>r. qpu_encode_small_immediate (word_of_int r) = word_of_int r) [0..15]"
  "list_all (\<lambda>r. qpu_encode_small_immediate (word_of_int (r - 32)) = word_of_int r) [16..31]"
  by code_simp+

lemma show_small_imm_back:
  assumes "show_small_imm r = Some s" "unat r < 48"
  shows "plain s \<and> qpu_encode_small_immediate (strtoul s) = ucast r"
proof -
  define i where "i = uint r"
  have "i = int (unat r)" by (simp add: i_def)
  then have "0 \<le> i" "i < 48" using assms(2) by linarith+
  then have i: "r = word_of_int i" "0 \<le> i" "i < 48" by (simp_all add: i_def)
  have u: "(ucast r :: u8) = word_of_int i" by (simp add: i_def)
  have cmp: "(r < 16) = (i < 16)" "(r < 32) = (i < 32)" "(r < 40) = (i < 40)" "(r \<le> 48) = (i \<le> 48)"
    by (simp_all add: i_def word_less_def word_le_def)
  consider "i < 16" | "16 \<le> i" "i < 32" | "32 \<le> i" by linarith
  then show ?thesis
  proof cases
    case 1
    then have s: "s = show_d i" using assms(1) cmp by (simp add: show_small_imm_def i_def)
    have "i \<in> set [0..15]" using 1 i(2) unfolding set_upto by simp
    then have "qpu_encode_small_immediate (word_of_int i) = word_of_int i"
      using small_imm_floats(2) unfolding list_all_iff by blast
    then show ?thesis using show_d_strtoul [of i] 1 i(2) by (simp add: s u)
  next
    case 2
    then have s: "s = show_d (i - 32)" using assms(1) cmp by (simp add: show_small_imm_def i_def)
    have "i \<in> set [16..31]" using 2 unfolding set_upto by simp
    then have "qpu_encode_small_immediate (word_of_int (i - 32)) = word_of_int i"
      using small_imm_floats(3) unfolding list_all_iff by blast
    then show ?thesis using show_d_strtoul [of "i - 32"] 2 by (simp add: s u)
  next
    case 3
    then have s: "s = show_x (float_pow2 (if i < 40 then i - 32 else i - 48))"
      using assms(1) cmp i(3) by (simp add: show_small_imm_def i_def split: if_splits)
    have "i \<in> set [32..47]" using 3 i(3) unfolding set_upto by simp
    then have "qpu_encode_small_immediate (float_pow2 (if i < 40 then i - 32 else i - 48)) = word_of_int i"
      using small_imm_floats(1) unfolding list_all_iff by blast
    then show ?thesis by (simp only: s u show_x_strtoul simp_thms)
  qed
qed

lemma pack_back:
  "name_at qpu_pack_a_str c = Some s \<or> name_at qpu_pack_mul_str c = Some s \<Longrightarrow> unat c < 256 \<Longrightarrow>
    pack_of (Some s) = ucast c"
  using name_code2_at [OF unique_tables(5,6) compatible_tables(3)] by (simp add: pack_of_def)

text \<open>The saturating pack modes have a dot in their names; \<open>sat\<close> is the last one that has not.\<close>

lemma pack_plain:
  assumes "name_at qpu_pack_a_str c = Some s" "unat c \<le> 8"
  shows "plain s"
proof -
  have "list_all (\<lambda>i. case qpu_pack_a_str ! i of None \<Rightarrow> True | Some s \<Rightarrow> plain s) [0..<9]" by code_simp
  moreover have "unat c \<in> set [0..<9]" using assms(2) by simp
  ultimately have "case qpu_pack_a_str ! unat c of None \<Rightarrow> True | Some s \<Rightarrow> plain s" unfolding list_all_iff by blast
  then show ?thesis using assms(1) by (auto simp: name_at_def split: if_splits)
qed

end
