(* ===== verification/Qpu_Roundtrip.thy ===== *)
theory Qpu_Roundtrip
  imports Qpu_Names
begin

text \<open>
  The assembler and the disassembler against each other, and the encoders against the fields of the
  instruction word.
\<close>

unbundle bit_operations_syntax

subsection \<open>Fields of an instruction word\<close>

lemma get_bitfield_and: "get_bitfield w m p = drop_bit p w AND m"
  by (rule bit_word_eqI) (auto simp: get_bitfield_def bit_simps dest: bit_imp_le_length)

lemma masks:
  "(1 :: u64) = mask 1" "(7 :: u64) = mask 3" "(0xf :: u64) = mask 4" "(0x1f :: u64) = mask 5"
  "(0x3f :: u64) = mask 6" "(0x7f :: u64) = mask 7" "(0xffff :: u64) = mask 16"
  "(0x7ffffff :: u64) = mask 27" "(0xffffffff :: u64) = mask 32"
  by (simp_all add: mask_eq_exp_minus_1)

lemma get_bitfield_fields:
  "get_bitfield w 1 p = field 1 p w" "get_bitfield w 7 p = field 3 p w" "get_bitfield w 0xf p = field 4 p w"
  "get_bitfield w 0x1f p = field 5 p w" "get_bitfield w 0x3f p = field 6 p w"
  "get_bitfield w 0x7f p = field 7 p w" "get_bitfield w 0xffff p = field 16 p w"
  "get_bitfield w 0x7ffffff p = field 27 p w" "get_bitfield w 0xffffffff p = field 32 p w"
  by (simp_all only: get_bitfield_and masks field_def)

text \<open>The bits of a word in a field, at their place.\<close>

definition part :: "nat \<Rightarrow> nat \<Rightarrow> u64 \<Rightarrow> u64" where
  "part n p w = w AND push_bit p (mask n)"

lemma bit_part: "bit (part n p w) i \<longleftrightarrow> p \<le> i \<and> i < p + n \<and> bit w i"
  by (auto simp: part_def bit_simps dest: bit_imp_le_length)

lemma part_u32: "n \<le> 32 \<Longrightarrow> bits_at n p (ucast (ucast (field n p w) :: u32)) = part n p w"
  by (rule bit_word_eqI) (auto simp: bit_part bit_bits_at bit_field bit_simps dest: bit_imp_le_length)

lemma part_u8: "n \<le> 8 \<Longrightarrow> bits_at n p (ucast (ucast (field n p w) :: u8)) = part n p w"
  by (rule bit_word_eqI) (auto simp: bit_part bit_bits_at bit_field bit_simps dest: bit_imp_le_length)

lemma part_const: "field n p w = c \<Longrightarrow> part n p w = push_bit p c"
  by (rule bit_word_eqI) (auto simp: bit_part bit_field bit_simps dest: bit_imp_le_length)

lemma ucast_u32_u8: "(ucast (ucast (x :: u64) :: u32) :: u8) = ucast x"
  by (rule bit_word_eqI) (auto simp: bit_simps dest: bit_imp_le_length)

lemma part_low: "ucast (ucast (field 32 0 w) :: u32) = part 32 0 w"
  by (rule bit_word_eqI) (auto simp: bit_part bit_field bit_simps dest: bit_imp_le_length)

lemma part_ucast16: "(ucast (ucast (x :: u64) :: u32) :: u16) = ucast x"
  by (rule bit_word_eqI) (auto simp: bit_simps dest: bit_imp_le_length)

lemma part_u16: "push_bit p (ucast (ucast (field 16 p w) :: u16)) = part 16 p w"
  by (rule bit_word_eqI) (auto simp: bit_part bit_field bit_simps dest: bit_imp_le_length)

text \<open>A flag that is set to 1 where the field is not 0.\<close>

lemma field_1: "field 1 p (w :: u64) = 0 \<or> field 1 p w = 1"
proof -
  have "field 1 p w = (if bit w p then 1 else 0)"
    by (rule bit_word_eqI) (auto simp: bit_field bit_simps)
  then show ?thesis by auto
qed

lemma flag_u8: "(if (ucast (field 1 p (w :: u64)) :: u8) \<noteq> 0 then 1 else 0 :: u8) = ucast (field 1 p w)"
  using field_1 [of p w] by auto

lemma unat_field: "unat (field n p (w :: u64)) < 2 ^ n"
proof -
  have "unat (field n p w) = unat (drop_bit p w) mod 2 ^ n" by (simp add: field_def unat_and_mask)
  then show ?thesis by simp
qed

lemma unat_ucast_field:
  "n < 8 \<Longrightarrow> unat (ucast (field n p (w :: u64)) :: u32) < 2 ^ n"
proof -
  assume n: "n < 8"
  have "unat (ucast (field n p w) :: u32) \<le> unat (field n p w)"
    by (simp add: unsigned_ucast_eq unsigned_take_bit_eq)
  then show ?thesis using unat_field [of n p w] by linarith
qed

text \<open>The parts of a word make up the word, whatever the format.\<close>

lemma and_all: "(w :: u64) AND 0xFFFFFFFFFFFFFFFF = w"
proof -
  have "(0xFFFFFFFFFFFFFFFF :: u64) = -1" by simp
  then show ?thesis by (simp only: and.right_neutral)
qed

lemma parts_alu:
  "part 4 60 w OR part 3 57 w OR part 1 56 w OR part 4 52 w OR part 3 49 w OR part 3 46 w OR part 1 45 w OR
   part 1 44 w OR part 6 38 w OR part 6 32 w OR part 3 29 w OR part 5 24 w OR part 6 18 w OR part 6 12 w OR
   part 3 9 w OR part 3 6 w OR part 3 3 w OR part 3 0 w = w"
  unfolding part_def by (simp only: bit.conj_disj_distrib [symmetric]) (simp add: mask_eq_exp_minus_1 and_all)

lemma parts_sem:
  "part 7 57 w OR part 1 56 w OR part 4 52 w OR part 3 49 w OR part 3 46 w OR part 1 45 w OR part 1 44 w OR
   part 6 38 w OR part 6 32 w OR part 27 5 w OR part 1 4 w OR part 4 0 w = w"
  unfolding part_def by (simp only: bit.conj_disj_distrib [symmetric]) (simp add: mask_eq_exp_minus_1 and_all)

lemma parts_load:
  "part 7 57 w OR part 1 56 w OR part 4 52 w OR part 3 49 w OR part 3 46 w OR part 1 45 w OR part 1 44 w OR
   part 6 38 w OR part 6 32 w OR part 32 0 w = w"
  "part 7 57 w OR part 1 56 w OR part 4 52 w OR part 3 49 w OR part 3 46 w OR part 1 45 w OR part 1 44 w OR
   part 6 38 w OR part 6 32 w OR part 16 16 w OR part 16 0 w = w"
  unfolding part_def
  by ((simp only: bit.conj_disj_distrib [symmetric]), simp add: mask_eq_exp_minus_1 and_all)+

lemma parts_branch:
  "part 8 56 w OR part 4 52 w OR part 1 51 w OR part 1 50 w OR part 5 45 w OR part 1 44 w OR part 6 38 w OR
   part 6 32 w OR part 32 0 w = w"
  unfolding part_def by (simp only: bit.conj_disj_distrib [symmetric]) (simp add: mask_eq_exp_minus_1 and_all)

subsection \<open>Operations and modifiers read back\<close>

lemma op_names:
  "all_names (\<lambda>s. s \<noteq> ''sem_inc'' \<and> s \<noteq> ''sem_dec'' \<and> s \<noteq> ''branch'' \<and> s \<noteq> ''load32'' \<and> s \<noteq> ''load16'') qpu_op_add_str"
  "all_names (\<lambda>s. s \<noteq> ''sem_inc'' \<and> s \<noteq> ''sem_dec'' \<and> s \<noteq> ''branch'' \<and> s \<noteq> ''load32'' \<and> s \<noteq> ''load16'') qpu_op_mul_str"
  by (simp_all only: table_defs) (rule all_names_of all_names_map_Some; simp)+

lemma modifier_names:
  "all_names (\<lambda>s. s \<notin> set [''pm'', ''ws'', ''rel'', ''reg'', ''sf'', ''signed'']) qpu_cond_str"
  "all_names (\<lambda>s. s \<notin> set [''pm'', ''ws'', ''rel'', ''reg'', ''sf'', ''signed'', ''never'', ''always'', ''zs'', ''zc'',
     ''ns'', ''nc'', ''cs'', ''cc'']) qpu_unpack_str"
  by (simp_all only: table_defs) (rule all_names_map_Some; simp)+

lemma apply_op_add:
  "name_at qpu_op_add_str c = Some s \<Longrightarrow> apply_op True (Some s) q = q\<lparr>q_type := QPU_ALU, q_op_add := c\<rparr>"
  using all_name_at [OF op_names(1), of c s] unique_name_at [OF unique_tables(8), of c s] by (simp add: apply_op_def)

lemma apply_op_mul:
  "name_at qpu_op_mul_str c = Some s \<Longrightarrow> apply_op False (Some s) q = q\<lparr>q_type := QPU_ALU, q_op_mul := c\<rparr>"
  using all_name_at [OF op_names(2), of c s] unique_name_at [OF unique_tables(9), of c s] by (simp add: apply_op_def)

lemma apply_cond:
  assumes "name_at qpu_cond_str c = Some s"
  shows "apply_modifier is_add s q = (if is_add then q\<lparr>q_cond_add := c\<rparr> else q\<lparr>q_cond_mul := c\<rparr>)"
  using all_name_at [OF modifier_names(1) assms] unique_name_at [OF unique_tables(2) assms]
  by (simp add: apply_modifier_def)

lemma apply_unpack:
  assumes "name_at qpu_unpack_str c = Some s"
  shows "apply_modifier True s q = q\<lparr>q_unpack_mode := c\<rparr>"
proof -
  note ne = all_name_at [OF modifier_names(2) assms]
  have "all_names (\<lambda>t. t \<noteq> s) qpu_cond_str"
    unfolding qpu_cond_str_def using ne by (intro all_names_map_Some) auto
  then have "name_index qpu_cond_str s = None" by (rule name_index_None)
  then show ?thesis using ne unique_name_at [OF unique_tables(4) assms] by (simp add: apply_modifier_def)
qed

lemma apply_flags:
  "apply_modifier True ''pm'' q = q\<lparr>q_pack_unpack_select := 1\<rparr>"
  "apply_modifier True ''ws'' q = q\<lparr>q_ws := 1\<rparr>"
  "apply_modifier True ''rel'' q = q\<lparr>q_rel := 1\<rparr>"
  "apply_modifier True ''reg'' q = q\<lparr>q_reg := 1\<rparr>"
  "apply_modifier True ''sf'' q = q\<lparr>q_sf := 1\<rparr>"
  "apply_modifier True ''signed'' q = q\<lparr>q_is_signed := 1\<rparr>"
  by (simp_all add: apply_modifier_def)

lemma apply_nop: "apply_modifier False ''nop'' q = q"
proof -
  have "name_index qpu_cond_str ''nop'' = None" by code_simp
  then show ?thesis by (simp add: apply_modifier_def)
qed

subsection \<open>The meaning of the printed lines\<close>

definition flag_mod :: "u8 \<Rightarrow> string \<Rightarrow> string list" where
  "flag_mod b s = (if b \<noteq> 0 then [s] else [])"

lemma modifiers_append [simp]: "modifiers (ms @ ms') = modifiers ms @ modifiers ms'"
  by (simp add: modifiers_def)

lemma modifiers_Cons [simp]: "modifiers (m # ms) = ''.'' @ m @ modifiers ms"
  by (simp add: modifiers_def)

lemma modifiers_Nil [simp]: "modifiers [] = []"
  by (simp add: modifiers_def)

lemma modifiers_flag: "modifiers (flag_mod b s) = flag b (''.'' @ s)"
  by (simp add: flag_mod_def flag_def)

lemma plain_flag: "plain s \<Longrightarrow> list_all plain (flag_mod b s)"
  by (simp add: flag_mod_def)

lemma length_flag: "length (flag_mod b s) \<le> 1"
  by (simp add: flag_mod_def)

lemma plain_flags: "plain ''ws''" "plain ''pm''" "plain ''sf''" "plain ''rel''" "plain ''reg''" "plain ''signed''"
  by code_simp+

lemma parse_sig_back: "name_at qpu_sig_bits_str c = Some s \<Longrightarrow> parse_sig_bit s = c"
  using unique_name_at [OF unique_tables(1), of c s] by (simp add: parse_sig_bit_def)

text \<open>The four formats, with the numbers of the names as free variables.\<close>

lemma alu_insn:
  assumes nm: "name_at qpu_sig_bits_str sg = Some sg_s" "waddr_of dst = wa" "waddr_of dst2 = wm"
    "name_at qpu_op_add_str oa = Some oa_s" "name_at qpu_op_mul_str om = Some om_s"
    "name_at qpu_cond_str ca = Some ca_s" "name_at qpu_cond_str cm = Some cm_s" "name_at qpu_unpack_str un = Some un_s"
    "name_at qpu_mux_str aa = Some aa_s" "name_at qpu_mux_str ab = Some ab_s"
    "name_at qpu_mux_str ma = Some ma_s" "name_at qpu_mux_str mb = Some mb_s"
    "raddr_a_of ra_s = ra" "raddr_b_of (sg = 13) rb_s = rb"
    and fl: "ws = 0 \<or> ws = 1" "pm = 0 \<or> pm = 1" "sf = 0 \<or> sf = 1"
    and pk: "pm = 0 \<Longrightarrow> pack_of P1 = pk" "pm \<noteq> 0 \<Longrightarrow> pack_of P2 = pk"
  shows "line_insn \<lparr>al_sig = sg_s, al_dst = dst, al_pack = P1, al_op = oa_s,
      al_mods = flag_mod ws ''ws'' @ flag_mod pm ''pm'' @ [ca_s] @ flag_mod sf ''sf'' @ [un_s],
      al_args = [aa_s, ab_s, ra_s, rb_s], al_dst2 = dst2, al_pack2 = P2, al_op2 = om_s, al_mods2 = [cm_s],
      al_args2 = [ma_s, mb_s]\<rparr> =
    Some (qpu_insn_init\<lparr>q_sig_bit := sg, q_waddr_add := wa, q_pack_mode := pk, q_type := QPU_ALU, q_op_add := oa,
      q_ws := ws, q_pack_unpack_select := pm, q_cond_add := ca, q_sf := sf, q_unpack_mode := un, q_add_a := aa,
      q_add_b := ab, q_raddr_a := ra, q_raddr_b := rb, q_waddr_mul := wm, q_op_mul := om, q_cond_mul := cm,
      q_mul_a := ma, q_mul_b := mb\<rparr>)"
proof -
  note mux = unique_name_at [OF unique_tables(3)]
  note simps = line_insn_def parse_sig_back [OF nm(1)] nm(2,3) apply_op_add [OF nm(4)] apply_op_mul [OF nm(5)]
    apply_cond [OF nm(6)] apply_cond [OF nm(7)] apply_unpack [OF nm(8)] apply_flags flag_mod_def
    apply_args_def apply_args2_def mux [OF nm(9)] mux [OF nm(10)] mux [OF nm(11)] mux [OF nm(12)] nm(13,14)
    qpu_insn_init_def
  show ?thesis using fl pk by (elim disjE) (simp_all add: simps)
qed

lemma sem_insn:
  assumes nm: "name_at qpu_sig_bits_str sg = Some sg_s" "waddr_of dst = wa" "waddr_of dst2 = wm"
    "op = (if inc \<noteq> 0 then ''sem_inc'' else ''sem_dec'')" "inc = 0 \<or> inc = (1 :: u8)"
    "name_at qpu_cond_str ca = Some ca_s" "name_at qpu_cond_str cm = Some cm_s"
    and fl: "ws = 0 \<or> ws = 1" "pm = 0 \<or> pm = 1" "sf = 0 \<or> sf = 1"
    and pk: "pm = 0 \<Longrightarrow> pack_of P1 = pk" "pm \<noteq> 0 \<Longrightarrow> pack_of P2 = pk"
  shows "line_insn \<lparr>al_sig = sg_s, al_dst = dst, al_pack = P1, al_op = op,
      al_mods = flag_mod ws ''ws'' @ flag_mod pm ''pm'' @ [ca_s] @ flag_mod sf ''sf'',
      al_args = [sem_s, imm_s], al_dst2 = dst2, al_pack2 = P2, al_op2 = op, al_mods2 = [cm_s], al_args2 = []\<rparr> =
    Some (qpu_insn_init\<lparr>q_sig_bit := sg, q_waddr_add := wa, q_pack_mode := pk, q_type := QPU_SEM, q_is_sem_inc := inc,
      q_ws := ws, q_pack_unpack_select := pm, q_cond_add := ca, q_sf := sf, q_semaphore := ucast (strtoul sem_s),
      q_imm32 := strtoul imm_s, q_waddr_mul := wm, q_cond_mul := cm\<rparr>)"
proof -
  have op: "apply_op b (Some op) q = q\<lparr>q_type := QPU_SEM, q_is_sem_inc := inc\<rparr>" for b q
    unfolding nm(4) using nm(5) by (elim disjE) (simp_all add: apply_op_def)
  note simps = line_insn_def parse_sig_back [OF nm(1)] nm(2,3) op apply_cond [OF nm(6)] apply_cond [OF nm(7)]
    apply_flags flag_mod_def apply_args_def apply_args2_def qpu_insn_init_def
  show ?thesis using fl pk by (elim disjE) (simp_all add: simps)
qed

lemma load_insn:
  assumes nm: "name_at qpu_sig_bits_str sg = Some sg_s" "waddr_of dst = wa" "waddr_of dst2 = wm"
    "name_at qpu_cond_str ca = Some ca_s" "name_at qpu_cond_str cm = Some cm_s"
    and fl: "ws = 0 \<or> ws = 1" "pm = 0 \<or> pm = 1" "sf = 0 \<or> sf = 1" "sn = 0 \<or> sn = 1"
    and pk: "pack_of P1 = pk" "pm \<noteq> 0 \<longrightarrow> pk = 0"
  shows "line_insn \<lparr>al_sig = sg_s, al_dst = dst, al_pack = P1, al_op = ''load32'',
      al_mods = flag_mod ws ''ws'' @ flag_mod pm ''pm'' @ [ca_s] @ flag_mod sf ''sf'',
      al_args = [imm_s], al_dst2 = dst2, al_pack2 = None, al_op2 = ''load32'',
      al_mods2 = flag_mod pm ''nop'' @ [cm_s], al_args2 = []\<rparr> =
    Some (qpu_insn_init\<lparr>q_sig_bit := sg, q_waddr_add := wa, q_pack_mode := pk, q_type := QPU_LOAD_IMM,
      q_load_type := QPU_LOAD32, q_ws := ws, q_pack_unpack_select := pm, q_cond_add := ca, q_sf := sf,
      q_imm32 := strtoul imm_s, q_waddr_mul := wm, q_cond_mul := cm\<rparr>)" (is ?a)
    "line_insn \<lparr>al_sig = sg_s, al_dst = dst, al_pack = P1, al_op = ''load16'',
      al_mods = flag_mod ws ''ws'' @ flag_mod pm ''pm'' @ [ca_s] @ flag_mod sf ''sf'' @ flag_mod sn ''signed'',
      al_args = [ms_s, ls_s], al_dst2 = dst2, al_pack2 = None, al_op2 = ''load16'',
      al_mods2 = flag_mod pm ''nop'' @ [cm_s], al_args2 = []\<rparr> =
    Some (qpu_insn_init\<lparr>q_sig_bit := sg, q_waddr_add := wa, q_pack_mode := pk, q_type := QPU_LOAD_IMM,
      q_load_type := QPU_LOAD16, q_ws := ws, q_pack_unpack_select := pm, q_cond_add := ca, q_sf := sf,
      q_is_signed := sn, q_ms_imm16 := ucast (strtoul ms_s), q_ls_imm16 := ucast (strtoul ls_s),
      q_waddr_mul := wm, q_cond_mul := cm\<rparr>)" (is ?b)
proof -
  have op: "apply_op b (Some ''load32'') q = q\<lparr>q_type := QPU_LOAD_IMM, q_load_type := QPU_LOAD32\<rparr>"
    "apply_op b (Some ''load16'') q = q\<lparr>q_type := QPU_LOAD_IMM, q_load_type := QPU_LOAD16\<rparr>" for b q
    by (auto simp: apply_op_def)
  have none: "pack_of None = 0" by (simp add: pack_of_def)
  note simps = line_insn_def parse_sig_back [OF nm(1)] nm(2,3) op apply_cond [OF nm(4)] apply_cond [OF nm(5)]
    apply_flags apply_nop none flag_mod_def apply_args_def apply_args2_def qpu_insn_init_def
  show ?a using fl(1-3) pk by (elim disjE) (simp_all add: simps)
  show ?b using fl pk by (elim disjE) (simp_all add: simps)
qed

lemma branch_insn:
  assumes nm: "name_at qpu_sig_bits_str sg = Some sg_s" "waddr_of dst = wa" "waddr_of dst2 = wm"
    "name_at qpu_branch_cond_str bc = Some bc_s"
    "ucast (raddr_number ''ra'' (name_code2 (qpu_raddr_str ! 0) (qpu_raddr_str ! 1) ra_s) ra_s) = ra"
    and fl: "ws = 0 \<or> ws = 1" "rel = 0 \<or> rel = 1" "reg = 0 \<or> reg = 1"
  shows "line_insn \<lparr>al_sig = sg_s, al_dst = dst, al_pack = None, al_op = ''branch'',
      al_mods = flag_mod ws ''ws'' @ flag_mod rel ''rel'' @ flag_mod reg ''reg'',
      al_args = [imm_s, bc_s, ra_s], al_dst2 = dst2, al_pack2 = None, al_op2 = ''branch'', al_mods2 = [], al_args2 = []\<rparr> =
    Some (qpu_insn_init\<lparr>q_sig_bit := sg, q_waddr_add := wa, q_type := QPU_BRANCH, q_ws := ws, q_rel := rel, q_reg := reg,
      q_imm32 := strtoul imm_s, q_branch_cond := bc, q_raddr_a := ra, q_waddr_mul := wm\<rparr>)"
proof -
  have op: "apply_op b (Some ''branch'') q = q\<lparr>q_type := QPU_BRANCH\<rparr>" for b q by (auto simp: apply_op_def)
  have none: "pack_of None = 0" by (simp add: pack_of_def)
  note simps = line_insn_def parse_sig_back [OF nm(1)] nm(2,3) op unique_name_at [OF unique_tables(7) nm(4)] nm(5)
    apply_flags none flag_mod_def apply_args_def apply_args2_def qpu_insn_init_def
  show ?thesis using fl by (elim disjE) (simp_all add: simps del: One_nat_def)
qed

subsection \<open>What the disassembler prints\<close>

lemma dotted_print:
  "(if b then map_option ((@) ''.'') x else Some '''') = Some s \<Longrightarrow>
    s = dotted (if b then x else None) \<and> (b \<longrightarrow> x \<noteq> None)"
  by (auto simp: dotted_def split: if_splits)

lemma pack_facts:
  assumes "b \<longrightarrow> name_at qpu_pack_a_str c \<noteq> None" "unat c < 16" "b \<longrightarrow> unat c \<le> 8"
  shows "pred_option plain (if b then name_at qpu_pack_a_str c else None)"
    "b \<Longrightarrow> pack_of (if b then name_at qpu_pack_a_str c else None) = ucast c"
  using assms pack_plain [of c] pack_back [of c] by (auto simp: pred_option_def)

lemma pack_mul_facts:
  assumes "b \<longrightarrow> name_at qpu_pack_mul_str c \<noteq> None" "unat c < 16"
  shows "pred_option plain (if b then name_at qpu_pack_mul_str c else None)"
    "b \<Longrightarrow> pack_of (if b then name_at qpu_pack_mul_str c else None) = ucast c"
  using assms all_name_at [OF plain_tables(5), of c] pack_back [of c] by (auto simp: pred_option_def)

lemma flag_cases: "(ucast (field 1 p (w :: u64)) :: u8) = 0 \<or> (ucast (field 1 p w) :: u8) = 1"
  using field_1 [of p w] by auto

lemma ws_table: "(if (ws :: u8) = 0 then 1 else 0 :: u8) = 0 \<or> (if ws = 0 then 1 else 0 :: u8) = 1"
  by simp

lemma field_bounds:
  "unat (ucast (field 6 p (w :: u64)) :: u32) < 64" "unat (ucast (field 4 p (w :: u64)) :: u32) < 16"
  "unat (ucast (field 5 p (w :: u64)) :: u32) < 64"
  using unat_ucast_field [of 6 p w] unat_ucast_field [of 4 p w] unat_ucast_field [of 5 p w] by simp_all

lemma raddr_a_of_back:
  assumes "show_raddr 0 ''ra'' r = Some s" "unat r < 64"
  shows "plain s" "raddr_a_of s = r"
    "ucast (raddr_number ''ra'' (name_code2 (qpu_raddr_str ! 0) (qpu_raddr_str ! 1) s) s) = r"
  using show_raddr_back [OF assms(1) _ _ assms(2)] ucast_small [of r] assms(2)
  by (simp_all add: raddr_a_of_def del: One_nat_def)

lemma raddr_b_of_back:
  assumes "(if si then show_small_imm r else show_raddr 1 ''rb'' r) = Some s" "unat r < 64" "si \<longrightarrow> unat r < 48"
  shows "plain s" "raddr_b_of si s = r"
proof -
  have "plain s \<and> raddr_b_of si s = r"
  proof (cases si)
    case True
    then show ?thesis using show_small_imm_back [of r s] assms ucast_small [of r] by (simp add: raddr_b_of_def)
  next
    case False
    then show ?thesis using show_raddr_back [of 1 "''rb''" r s] assms ucast_small [of r]
      by (simp add: raddr_b_of_def del: One_nat_def)
  qed
  then show "plain s" "raddr_b_of si s = r" by simp_all
qed

lemma alu_line:
  fixes w :: u64
  defines "sg \<equiv> ucast (field 4 60 w) :: u32" and "wa \<equiv> ucast (field 6 38 w) :: u32" and "wm \<equiv> ucast (field 6 32 w) :: u32"
    and "ws \<equiv> ucast (field 1 44 w) :: u8" and "pm \<equiv> ucast (field 1 56 w) :: u8" and "pk \<equiv> ucast (field 4 52 w) :: u32"
    and "rb \<equiv> ucast (field 6 12 w) :: u32"
  assumes d: "disassemble_alu w sg wm ws pm = Some r" and sg: "name_at qpu_sig_bits_str sg = Some sg_s"
    and dst: "show_waddr ws wa = Some dst" and pack: "pm = 0 \<longrightarrow> unat pk \<le> 8" and si: "sg = 13 \<longrightarrow> unat rb < 48"
  shows "\<exists>l q. sg_s @ '' ; '' @ dst @ r = line_text (CHR '')'') l \<and> line_ok l \<and> line_insn l = Some q \<and>
    emit_instruction q = w"
proof -
  obtain pack_s oa_s ca_s un_s aa_s ab_s ra_s rb_s dst2 pack2 om_s cm_s ma_s mb_s where
    pack_s: "(if pm = 0 then map_option ((@) ''.'') (name_at qpu_pack_a_str pk) else Some '''') = Some pack_s"
    and nm: "name_at qpu_op_add_str (ucast (field 5 24 w)) = Some oa_s" "name_at qpu_cond_str (ucast (field 3 49 w)) = Some ca_s"
    "name_at qpu_unpack_str (ucast (field 3 57 w)) = Some un_s" "name_at qpu_mux_str (ucast (field 3 9 w)) = Some aa_s"
    "name_at qpu_mux_str (ucast (field 3 6 w)) = Some ab_s" "show_raddr 0 ''ra'' (ucast (field 6 18 w)) = Some ra_s"
    "(if sg = 13 then show_small_imm rb else show_raddr 1 ''rb'' rb) = Some rb_s"
    "show_waddr (if ws = 0 then 1 else 0) wm = Some dst2"
    and pack2: "(if pm \<noteq> 0 then map_option ((@) ''.'') (name_at qpu_pack_mul_str pk) else Some '''') = Some pack2"
    and nm2: "name_at qpu_op_mul_str (ucast (field 3 29 w)) = Some om_s" "name_at qpu_cond_str (ucast (field 3 46 w)) = Some cm_s"
    "name_at qpu_mux_str (ucast (field 3 3 w)) = Some ma_s" "name_at qpu_mux_str (ucast (field 3 0 w)) = Some mb_s"
    and r: "r = pack_s @ '' = '' @ oa_s @ flag ws ''.ws'' @ flag pm ''.pm'' @ ''.'' @ ca_s @
       flag (ucast (field 1 45 w)) ''.sf'' @ ''.'' @ un_s @ ''('' @ aa_s @ '', '' @ ab_s @ '', '' @ ra_s @ '', '' @ rb_s @
       '') ; '' @ dst2 @ pack2 @ '' = '' @ om_s @ ''.'' @ cm_s @ ''('' @ ma_s @ '', '' @ mb_s @ '') ; ''"
    using d unfolding disassemble_alu_def get_bitfield_fields Let_def pk_def [symmetric] rb_def [symmetric]
    by (elim bind_SomeE) (simp only: option.inject)
  define P1 where "P1 = (if pm = 0 then name_at qpu_pack_a_str pk else None)"
  define P2 where "P2 = (if pm \<noteq> 0 then name_at qpu_pack_mul_str pk else None)"
  have pk: "unat pk < 16" unfolding pk_def by (rule field_bounds)
  note p1 = dotted_print [OF pack_s] and p2 = dotted_print [OF pack2]
  note P1 = pack_facts [OF conjunct2 [OF p1] pk pack] and P2 = pack_mul_facts [OF conjunct2 [OF p2] pk]
  note wa = show_waddr_back [OF dst flag_cases [of 44 w, folded ws_def] field_bounds(1) [of 38 w, folded wa_def]]
  note wm = show_waddr_back [OF nm(8) ws_table field_bounds(1) [of 32 w, folded wm_def]]
  note ra = raddr_a_of_back [OF nm(6) field_bounds(1)]
  note rb = raddr_b_of_back [OF nm(7) field_bounds(1) [of 12 w, folded rb_def] si]
  let ?sf = "ucast (field 1 45 w) :: u8"
  define l where "l = \<lparr>al_sig = sg_s, al_dst = dst, al_pack = P1, al_op = oa_s,
      al_mods = flag_mod ws ''ws'' @ flag_mod pm ''pm'' @ [ca_s] @ flag_mod ?sf ''sf'' @ [un_s],
      al_args = [aa_s, ab_s, ra_s, rb_s], al_dst2 = dst2, al_pack2 = P2, al_op2 = om_s, al_mods2 = [cm_s],
      al_args2 = [ma_s, mb_s]\<rparr>"
  have insn: "line_insn l = Some (qpu_insn_init\<lparr>q_sig_bit := sg, q_waddr_add := wa, q_pack_mode := ucast pk,
      q_type := QPU_ALU, q_op_add := ucast (field 5 24 w), q_ws := ws, q_pack_unpack_select := pm,
      q_cond_add := ucast (field 3 49 w), q_sf := ?sf, q_unpack_mode := ucast (field 3 57 w),
      q_add_a := ucast (field 3 9 w), q_add_b := ucast (field 3 6 w), q_raddr_a := ucast (field 6 18 w), q_raddr_b := rb,
      q_waddr_mul := wm, q_op_mul := ucast (field 3 29 w), q_cond_mul := ucast (field 3 46 w),
      q_mul_a := ucast (field 3 3 w), q_mul_b := ucast (field 3 0 w)\<rparr>)" (is "_ = Some ?q")
    unfolding l_def P1_def P2_def
    by (rule alu_insn [OF sg wa(2) wm(2) nm(1) nm2(1) nm(2) nm2(2) nm(3) nm(4,5) nm2(3,4) ra(2) rb(2) flag_cases
        [of 44 w, folded ws_def] flag_cases [of 56 w, folded pm_def] flag_cases P1(2) P2(2)])
  have "(ucast (ucast rb :: u8) :: u32) = rb"
    using ucast_small [of rb] field_bounds(1) [of 12 w, folded rb_def] by simp
  then have "emit_instruction ?q = encode_alu sg (ucast (field 3 57 w)) pm (ucast pk) (ucast (field 3 49 w))
      (ucast (field 3 46 w)) ?sf ws wa wm (ucast (field 5 24 w)) (ucast (field 3 29 w)) (ucast (field 6 18 w)) rb
      (ucast (field 3 9 w)) (ucast (field 3 6 w)) (ucast (field 3 3 w)) (ucast (field 3 0 w))"
    by (simp add: emit_instruction_def qpu_insn_init_def encode_alu_small_imm_def)
  also have "\<dots> = w"
    unfolding encode_alu_def sg_def pm_def pk_def ws_def wa_def wm_def rb_def ucast_u32_u8
    by (subst part_u32 part_u8, simp)+ (rule parts_alu)
  finally have emit: "emit_instruction ?q = w" .
  have "line_ok l" using all_name_at [OF plain_tables(1) sg] wa(1) wm(1) all_name_at [OF plain_tables(7) nm(1)]
      all_name_at [OF plain_tables(8) nm2(1)] all_name_at [OF plain_tables(2) nm(2)]
      all_name_at [OF plain_tables(2) nm2(2)] all_name_at [OF plain_tables(4) nm(3)]
      all_name_at [OF plain_tables(3) nm(4)] all_name_at [OF plain_tables(3) nm(5)]
      all_name_at [OF plain_tables(3) nm2(3)] all_name_at [OF plain_tables(3) nm2(4)] ra(1) rb(1) P1(1) P2(1)
    unfolding l_def P1_def P2_def by (simp add: line_ok_def plain_flag plain_flags) (simp add: flag_mod_def)
  moreover have "sg_s @ '' ; '' @ dst @ r = line_text (CHR '')'') l"
    using conjunct1 [OF p1] conjunct1 [OF p2]
    by (simp add: r l_def line_text_def line_rest_def line_with_def line_tail_def P1_def P2_def modifiers_flag)
  ultimately show ?thesis using insn emit by blast
qed

lemma sem_line:
  fixes w :: u64
  defines "sg \<equiv> ucast (field 4 60 w) :: u32" and "wa \<equiv> ucast (field 6 38 w) :: u32" and "wm \<equiv> ucast (field 6 32 w) :: u32"
    and "ws \<equiv> ucast (field 1 44 w) :: u8" and "pm \<equiv> ucast (field 1 56 w) :: u8" and "pk \<equiv> ucast (field 4 52 w) :: u32"
  assumes d: "disassemble_sem w wm ws pm = Some r" and sg: "name_at qpu_sig_bits_str sg = Some sg_s"
    and dst: "show_waddr ws wa = Some dst" and top: "field 7 57 w = 0x74"
    and pack: "ws = 0 \<and> pm = 0 \<longrightarrow> unat pk \<le> 8" "ws \<noteq> 0 \<and> pm = 0 \<longrightarrow> pk = 0"
  shows "\<exists>l q. sg_s @ '' ; '' @ dst @ r = line_text (CHR '')'') l \<and> line_ok l \<and> line_insn l = Some q \<and>
    emit_instruction q = w"
proof -
  define inc :: u8 where "inc = ucast (field 1 4 w)"
  define op where "op = (if inc \<noteq> 0 then ''sem_inc'' else ''sem_dec'')"
  have op_eq: "(if field 1 4 w \<noteq> 0 then ''sem_inc'' else ''sem_dec'') = op"
    using field_1 [of 4 w] by (auto simp: op_def inc_def)
  obtain pack_s ca_s dst2 pack2 cm_s where
    pack_s: "(if ws = 0 \<and> pm = 0 then map_option ((@) ''.'') (name_at qpu_pack_a_str pk) else Some '''') = Some pack_s"
    and nm: "name_at qpu_cond_str (ucast (field 3 49 w)) = Some ca_s" "show_waddr (if ws = 0 then 1 else 0) wm = Some dst2"
    and pack2: "(if pm \<noteq> 0 then map_option ((@) ''.'') (name_at qpu_pack_mul_str pk) else Some '''') = Some pack2"
    and nm2: "name_at qpu_cond_str (ucast (field 3 46 w)) = Some cm_s"
    and r: "r = pack_s @ '' = '' @ op @ flag ws ''.ws'' @ flag pm ''.pm'' @ ''.'' @ ca_s @
       flag (ucast (field 1 45 w)) ''.sf'' @ ''('' @ show_d (uint (ucast (field 4 0 w) :: u32)) @ '', '' @
       show_x (ucast (field 27 5 w)) @ '') ; '' @ dst2 @ pack2 @ '' = '' @ op @ ''.'' @ cm_s @ ''() ;''"
    using d unfolding disassemble_sem_def get_bitfield_fields Let_def pk_def [symmetric] op_eq
    by (elim bind_SomeE) (simp only: option.inject)
  define P1 where "P1 = (if ws = 0 \<and> pm = 0 then name_at qpu_pack_a_str pk else None)"
  define P2 where "P2 = (if pm \<noteq> 0 then name_at qpu_pack_mul_str pk else None)"
  have pk: "unat pk < 16" unfolding pk_def by (rule field_bounds)
  note p1 = dotted_print [OF pack_s] and p2 = dotted_print [OF pack2]
  note P1 = pack_facts [OF conjunct2 [OF p1] pk pack(1), folded P1_def]
  note P2 = pack_mul_facts [OF conjunct2 [OF p2] pk, folded P2_def]
  have P1': "pack_of P1 = ucast pk" if "pm = 0"
    using P1(2) that pack(2) by (cases "ws = 0") (simp_all add: P1_def pack_of_def)
  note wa = show_waddr_back [OF dst flag_cases [of 44 w, folded ws_def] field_bounds(1) [of 38 w, folded wa_def]]
  note wm = show_waddr_back [OF nm(2) ws_table field_bounds(1) [of 32 w, folded wm_def]]
  let ?sf = "ucast (field 1 45 w) :: u8" and ?sem = "ucast (field 4 0 w) :: u32"
  have "unat ?sem < 16" by (rule field_bounds)
  then have "?sem \<le> 31" by (simp add: word_le_nat_alt)
  note sem = uint_31 [OF this]
  define l where "l = \<lparr>al_sig = sg_s, al_dst = dst, al_pack = P1, al_op = op,
      al_mods = flag_mod ws ''ws'' @ flag_mod pm ''pm'' @ [ca_s] @ flag_mod ?sf ''sf'',
      al_args = [show_d (uint ?sem), show_x (ucast (field 27 5 w))], al_dst2 = dst2, al_pack2 = P2, al_op2 = op,
      al_mods2 = [cm_s], al_args2 = []\<rparr>"
  have insn: "line_insn l = Some (qpu_insn_init\<lparr>q_sig_bit := sg, q_waddr_add := wa, q_pack_mode := ucast pk,
      q_type := QPU_SEM, q_is_sem_inc := inc, q_ws := ws, q_pack_unpack_select := pm,
      q_cond_add := ucast (field 3 49 w), q_sf := ?sf, q_semaphore := ucast (strtoul (show_d (uint ?sem))),
      q_imm32 := strtoul (show_x (ucast (field 27 5 w))), q_waddr_mul := wm, q_cond_mul := ucast (field 3 46 w)\<rparr>)"
      (is "_ = Some ?q")
    unfolding l_def
    by (rule sem_insn [OF sg wa(2) wm(2) op_def flag_cases [of 4 w, folded inc_def] nm(1) nm2 flag_cases
        [of 44 w, folded ws_def] flag_cases [of 56 w, folded pm_def] flag_cases P1' P2(2)])
  have "emit_instruction ?q = encode_semaphore pm (ucast pk) (ucast (field 3 49 w)) (ucast (field 3 46 w)) ?sf ws
      wa wm inc (ucast ?sem) (ucast (field 27 5 w))"
    using sem(1) show_x_strtoul(1) by (simp add: emit_instruction_def qpu_insn_init_def)
  also have "\<dots> = w"
    unfolding encode_semaphore_def pm_def pk_def ws_def wa_def wm_def inc_def ucast_u32_u8 part_const [OF top, symmetric]
    by (subst part_u32 part_u8, simp)+ (rule parts_sem)
  finally have emit: "emit_instruction ?q = w" .
  have "plain op" unfolding op_def by (cases "inc = 0") (simp_all, code_simp+)
  then have "line_ok l" using all_name_at [OF plain_tables(1) sg] wa(1) wm(1) all_name_at [OF plain_tables(2) nm(1)]
      all_name_at [OF plain_tables(2) nm2] P1(1) P2(1) sem(2) show_x_strtoul(2)
    unfolding l_def by (simp add: line_ok_def plain_flag plain_flags) (simp add: flag_mod_def)
  moreover have "sg_s @ '' ; '' @ dst @ r = line_text (CHR '')'') l"
    using conjunct1 [OF p1] conjunct1 [OF p2]
    by (simp add: r l_def line_text_def line_rest_def line_with_def line_tail_def P1_def P2_def modifiers_flag)
  ultimately show ?thesis using insn emit by blast
qed

lemma load_line:
  fixes w :: u64
  defines "sg \<equiv> ucast (field 4 60 w) :: u32" and "wa \<equiv> ucast (field 6 38 w) :: u32" and "wm \<equiv> ucast (field 6 32 w) :: u32"
    and "ws \<equiv> ucast (field 1 44 w) :: u8" and "pm \<equiv> ucast (field 1 56 w) :: u8" and "pk \<equiv> ucast (field 4 52 w) :: u32"
  assumes d: "disassemble_load w wm ws pm = Some r" and sg: "name_at qpu_sig_bits_str sg = Some sg_s"
    and dst: "show_waddr ws wa = Some dst" and top: "field 7 57 w = 0x70 \<or> field 7 57 w = 0x71 \<or> field 7 57 w = 0x73"
    and pack: "ws = 0 \<and> pm = 0 \<longrightarrow> unat pk \<le> 8" "\<not> (ws = 0 \<and> pm = 0) \<longrightarrow> pk = 0"
  shows "\<exists>l q. sg_s @ '' ; '' @ dst @ r = line_text (CHR '')'') l \<and> line_ok l \<and> line_insn l = Some q \<and>
    emit_instruction q = w"
proof -
  define is32 where "is32 = (field 7 57 w = 0x70)"
  define op where "op = (if is32 then ''load32'' else ''load16'')"
  define args where "args = (if is32 then ''('' @ show_x (ucast (field 32 0 w)) @ '') ; ''
       else (if field 1 58 w = 0 then ''.signed'' else '''') @ ''('' @ show_x (ucast (field 16 16 w)) @ '', '' @
         show_x (ucast (field 16 0 w)) @ '') ; '')"
  obtain pack_s ca_s dst2 pack2 cm_s where
    pack_s: "(if ws = 0 \<and> pm = 0 then map_option ((@) ''.'') (name_at qpu_pack_a_str pk) else Some '''') = Some pack_s"
    and nm: "name_at qpu_cond_str (ucast (field 3 49 w)) = Some ca_s" "show_waddr (if ws = 0 then 1 else 0) wm = Some dst2"
    and pack2: "(if pm \<noteq> 0 then map_option ((@) ''.'') (name_at qpu_pack_mul_str pk) else Some '''') = Some pack2"
    and nm2: "name_at qpu_cond_str (ucast (field 3 46 w)) = Some cm_s"
    and r: "r = pack_s @ '' = '' @ op @ flag ws ''.ws'' @ flag pm ''.pm'' @ ''.'' @ ca_s @
       flag (ucast (field 1 45 w)) ''.sf'' @ args @ dst2 @ '' = '' @ op @ pack2 @ ''.'' @ cm_s @ ''() ;''"
    using d unfolding disassemble_load_def get_bitfield_fields Let_def pk_def [symmetric] is32_def [symmetric]
      op_def [symmetric] args_def [symmetric]
    by (elim bind_SomeE) (simp only: option.inject)
  define P1 where "P1 = (if ws = 0 \<and> pm = 0 then name_at qpu_pack_a_str pk else None)"
  have pk: "unat pk < 16" unfolding pk_def by (rule field_bounds)
  note p1 = dotted_print [OF pack_s]
  note P1 = pack_facts [OF conjunct2 [OF p1] pk pack(1), folded P1_def]
  have P1': "pack_of P1 = ucast pk"
  proof (cases "ws = 0 \<and> pm = 0")
    case False
    then have "P1 = None" "pk = 0" using pack(2) by (auto simp: P1_def)
    then show ?thesis by (simp add: pack_of_def)
  qed (rule P1(2))
  have pk0: "pm \<noteq> 0 \<longrightarrow> (ucast pk :: u8) = 0" using pack(2) by simp
  have "name_at qpu_pack_mul_str 0 = Some ''nop''" by code_simp
  then have pack2': "pack2 = modifiers (flag_mod pm ''nop'')" using pack2 pack(2) by (auto simp: flag_mod_def split: if_splits)
  note wa = show_waddr_back [OF dst flag_cases [of 44 w, folded ws_def] field_bounds(1) [of 38 w, folded wa_def]]
  note wm = show_waddr_back [OF nm(2) ws_table field_bounds(1) [of 32 w, folded wm_def]]
  let ?sf = "ucast (field 1 45 w) :: u8"
  define sn :: u8 where "sn = (if field 1 58 w = 0 then 1 else 0)"
  have sn: "sn = 0 \<or> sn = 1" by (simp add: sn_def)
  note insn = load_insn [OF sg wa(2) wm(2) nm(1) nm2 flag_cases [of 44 w, folded ws_def]
      flag_cases [of 56 w, folded pm_def] flag_cases [of 45 w] sn P1' pk0]
  have pl: "plain ''load32''" "plain ''load16''" "plain ''nop''" by code_simp+
  note ok = all_name_at [OF plain_tables(1) sg] wa(1) wm(1) all_name_at [OF plain_tables(2) nm(1)]
      all_name_at [OF plain_tables(2) nm2] P1(1) show_x_strtoul(2) pl
  show ?thesis
  proof (cases is32)
    case True
    define l where "l = \<lparr>al_sig = sg_s, al_dst = dst, al_pack = P1, al_op = ''load32'',
      al_mods = flag_mod ws ''ws'' @ flag_mod pm ''pm'' @ [ca_s] @ flag_mod ?sf ''sf'',
      al_args = [show_x (ucast (field 32 0 w))], al_dst2 = dst2, al_pack2 = None, al_op2 = ''load32'',
      al_mods2 = flag_mod pm ''nop'' @ [cm_s], al_args2 = []\<rparr>"
    note insn1 = insn(1) [where imm_s = "show_x (ucast (field 32 0 w))", folded l_def]
    have "emit_instruction (the (line_insn l)) = encode_load_imm pm (ucast pk) (ucast (field 3 49 w))
        (ucast (field 3 46 w)) ?sf ws wa wm (ucast (field 32 0 w))"
      unfolding insn1 using show_x_strtoul(1) by (simp add: emit_instruction_def qpu_insn_init_def)
    also have "\<dots> = w"
      unfolding encode_load_imm_def pm_def pk_def ws_def wa_def wm_def ucast_u32_u8 part_low
        part_const [OF True [unfolded is32_def], symmetric]
      by (subst part_u32 part_u8, simp)+ (rule parts_load(1))
    finally have emit: "emit_instruction (the (line_insn l)) = w" .
    have "line_ok l" using ok
      unfolding l_def by (simp add: line_ok_def plain_flag plain_flags) (simp add: flag_mod_def)
    moreover have "sg_s @ '' ; '' @ dst @ r = line_text (CHR '')'') l"
      using conjunct1 [OF p1] True
      by (simp add: r l_def line_text_def line_rest_def line_with_def line_tail_def P1_def modifiers_flag pack2' op_def args_def
          dotted_def)
    ultimately show ?thesis using insn1 emit by auto
  next
    case False
    define l where "l = \<lparr>al_sig = sg_s, al_dst = dst, al_pack = P1, al_op = ''load16'',
      al_mods = flag_mod ws ''ws'' @ flag_mod pm ''pm'' @ [ca_s] @ flag_mod ?sf ''sf'' @ flag_mod sn ''signed'',
      al_args = [show_x (ucast (field 16 16 w)), show_x (ucast (field 16 0 w))], al_dst2 = dst2, al_pack2 = None,
      al_op2 = ''load16'', al_mods2 = flag_mod pm ''nop'' @ [cm_s], al_args2 = []\<rparr>"
    note insn2 = insn(2) [where ms_s = "show_x (ucast (field 16 16 w))" and ls_s = "show_x (ucast (field 16 0 w))",
      folded l_def]
    have "emit_instruction (the (line_insn l)) = encode_load_imm_per_elem sn pm (ucast pk) (ucast (field 3 49 w))
        (ucast (field 3 46 w)) ?sf ws wa wm (ucast (field 16 16 w)) (ucast (field 16 0 w))"
      unfolding insn2 using show_x_strtoul(1) part_ucast16 by (simp add: emit_instruction_def qpu_insn_init_def)
    also have "\<dots> = w"
    proof -
      have "field 1 58 w = field 1 1 (field 7 57 w)"
        by (rule bit_word_eqI) (auto simp: bit_field)
      moreover have "field 1 1 (0x71 :: u64) = 0" "field 1 1 (0x73 :: u64) = 1" by code_simp+
      moreover have "field 7 57 w = 0x71 \<or> field 7 57 w = 0x73" using top False by (auto simp: is32_def)
      ultimately have "field 7 57 w = 0x71 OR push_bit 1 (if sn = 0 then 1 else 0)" by (auto simp: sn_def)
      from part_const [OF this]
      have "push_bit 57 (0x71 OR push_bit 1 (if sn = 0 then 1 else 0)) = part 7 57 w" by (rule sym)
      then show ?thesis
        unfolding encode_load_imm_per_elem_def pm_def pk_def ws_def wa_def wm_def ucast_u32_u8
        using part_u16 [of 0 w] part_u16 [of 16 w] parts_load(2) [of w] by (simp add: part_u32 part_u8)
    qed
    finally have emit: "emit_instruction (the (line_insn l)) = w" .
    have "line_ok l" using ok
      unfolding l_def by (simp add: line_ok_def plain_flag plain_flags) (simp add: flag_mod_def)
    moreover have "sg_s @ '' ; '' @ dst @ r = line_text (CHR '')'') l"
      using conjunct1 [OF p1] False
      by (simp add: r l_def line_text_def line_rest_def line_with_def line_tail_def P1_def modifiers_flag pack2' op_def args_def
          dotted_def sn_def flag_def)
    ultimately show ?thesis using insn2 emit by auto
  qed
qed

lemma branch_line:
  fixes w :: u64
  defines "sg \<equiv> ucast (field 4 60 w) :: u32" and "wa \<equiv> ucast (field 6 38 w) :: u32" and "wm \<equiv> ucast (field 6 32 w) :: u32"
    and "ws \<equiv> ucast (field 1 44 w) :: u8" and "rel \<equiv> ucast (field 1 51 w) :: u8" and "reg \<equiv> ucast (field 1 50 w) :: u8"
  assumes d: "disassemble_branch w wm ws = Some r" and sg: "name_at qpu_sig_bits_str sg = Some sg_s"
    and dst: "show_waddr ws wa = Some dst" and top: "field 8 56 w = 0xf0"
  shows "\<exists>l q. sg_s @ '' ; '' @ dst @ r = line_text (CHR '')'') l \<and> line_ok l \<and> line_insn l = Some q \<and>
    emit_instruction q = w"
proof -
  obtain bc_s ra_s dst2 where
    nm: "name_at qpu_branch_cond_str (ucast (field 4 52 w)) = Some bc_s" "show_raddr 0 ''ra'' (ucast (field 5 45 w)) = Some ra_s"
    "show_waddr (if ws = 0 then 1 else 0) wm = Some dst2"
    and r: "r = '' = branch'' @ flag ws ''.ws'' @ flag rel ''.rel'' @ flag reg ''.reg'' @ ''('' @
       show_x (ucast (field 32 0 w)) @ '', '' @ bc_s @ '', '' @ ra_s @ '') ; '' @ dst2 @ '' = branch() ;''"
    using d unfolding disassemble_branch_def get_bitfield_fields Let_def rel_def [symmetric] reg_def [symmetric]
    by (elim bind_SomeE) (simp only: option.inject)
  note wa = show_waddr_back [OF dst flag_cases [of 44 w, folded ws_def] field_bounds(1) [of 38 w, folded wa_def]]
  note wm = show_waddr_back [OF nm(3) ws_table field_bounds(1) [of 32 w, folded wm_def]]
  note ra = raddr_a_of_back [OF nm(2) field_bounds(3)]
  define l where "l = \<lparr>al_sig = sg_s, al_dst = dst, al_pack = None, al_op = ''branch'',
      al_mods = flag_mod ws ''ws'' @ flag_mod rel ''rel'' @ flag_mod reg ''reg'',
      al_args = [show_x (ucast (field 32 0 w)), bc_s, ra_s], al_dst2 = dst2, al_pack2 = None, al_op2 = ''branch'',
      al_mods2 = [], al_args2 = []\<rparr>"
  note insn = branch_insn [OF sg wa(2) wm(2) nm(1) ra(3) flag_cases [of 44 w, folded ws_def]
      flag_cases [of 51 w, folded rel_def] flag_cases [of 50 w, folded reg_def], of "show_x (ucast (field 32 0 w))", folded l_def]
  have "emit_instruction (the (line_insn l)) = encode_branch (ucast (field 4 52 w)) rel reg (ucast (field 5 45 w)) ws
      wa wm (ucast (field 32 0 w))"
    unfolding insn using show_x_strtoul(1) by (simp add: emit_instruction_def qpu_insn_init_def)
  also have "\<dots> = w"
  proof -
    have "push_bit 60 0xf = (push_bit 56 0xf0 :: u64)" by simp
    then show ?thesis
      unfolding encode_branch_def rel_def reg_def ws_def wa_def wm_def part_low
      using part_const [OF top] parts_branch [of w] by (simp add: part_u32 part_u8)
  qed
  finally have emit: "emit_instruction (the (line_insn l)) = w" .
  have "plain ''branch''" by code_simp
  then have "line_ok l" using all_name_at [OF plain_tables(1) sg] wa(1) wm(1) all_name_at [OF plain_tables(6) nm(1)] ra(1)
      show_x_strtoul(2)
    unfolding l_def by (simp add: line_ok_def plain_flag plain_flags) (simp add: flag_mod_def)
  moreover have "sg_s @ '' ; '' @ dst @ r = line_text (CHR '')'') l"
    by (simp add: r l_def line_text_def line_rest_def line_with_def line_tail_def modifiers_flag dotted_def)
  ultimately show ?thesis using insn emit by auto
qed

subsection \<open>The round trip\<close>

text \<open>
  The instruction words whose text determines them: every part of the word has a name, the bits that
  the text does not show are those the assembler fills in, the pack mode can be parsed (a saturating
  one other than \<open>sat\<close> has a dot in its name) and is printed, and the small immediate is not a
  rotation.
\<close>

definition reassembles :: "u64 \<Rightarrow> bool" where
  "reassembles w \<longleftrightarrow> disassemble_text w \<noteq> None \<and>
    (let top = field 7 57 w; sig_bits = field 4 60 w; ws = field 1 44 w; pm = field 1 56 w; pack = unat (field 4 52 w) in
     if top = 0x74 then (if pm = 0 then (if ws = 0 then pack \<le> 8 else pack = 0) else True)
     else if sig_bits = 14 then top \<in> {0x70, 0x71, 0x73} \<and> (if ws = 0 \<and> pm = 0 then pack \<le> 8 else pack = 0)
     else if sig_bits = 15 then field 4 56 w = 0
     else (pm = 0 \<longrightarrow> pack \<le> 8) \<and> (sig_bits = 13 \<longrightarrow> unat (field 6 12 w) < 48))"

lemma ucast_field_u32: "n \<le> 32 \<Longrightarrow> unat (ucast (field n p (w :: u64)) :: u32) = unat (field n p w)"
proof -
  assume "n \<le> 32"
  then have "(2 :: nat) ^ n \<le> 2 ^ 32" by (intro power_increasing) simp_all
  then have "unat (field n p w) < 2 ^ 32" using unat_field [of n p w] by linarith
  then show ?thesis by (simp add: unsigned_ucast_eq unsigned_take_bit_eq take_bit_nat_eq_self)
qed

lemma ucast_field_eq:
  "n \<le> 32 \<Longrightarrow> (ucast (field n p (w :: u64)) :: u32) = c \<longleftrightarrow> unat (field n p w) = unat c"
  using ucast_field_u32 [of n p w] by (metis word_unat_eq_iff)

lemma flag_zero: "(ucast (field 1 p (w :: u64)) :: u8) = 0 \<longleftrightarrow> field 1 p w = 0"
  using field_1 [of p w] by auto

lemma top_bits: "field 8 56 w = 0xf0" if "field 4 60 w = 15" "field 4 56 (w :: u64) = 0"
proof -
  have "field 8 56 w = push_bit 4 (field 4 60 w) OR field 4 56 w"
    by (rule bit_word_eqI) (auto simp: bit_field bit_simps)
  then show ?thesis using that by simp
qed

lemma reassembles_line:
  assumes "reassembles w" "disassemble_text w = Some s"
  shows "\<exists>l q. s = line_text (CHR '')'') l \<and> line_ok l \<and> line_insn l = Some q \<and> emit_instruction q = w"
proof -
  let ?sg = "ucast (field 4 60 w) :: u32" and ?wa = "ucast (field 6 38 w) :: u32" and ?wm = "ucast (field 6 32 w) :: u32"
  let ?ws = "ucast (field 1 44 w) :: u8" and ?pm = "ucast (field 1 56 w) :: u8" and ?pk = "ucast (field 4 52 w) :: u32"
  obtain sg_s dst r where sg: "name_at qpu_sig_bits_str ?sg = Some sg_s" and dst: "show_waddr ?ws ?wa = Some dst"
    and r: "(if field 7 57 w = 0x74 then disassemble_sem w ?wm ?ws ?pm
       else if ?sg = 14 then disassemble_load w ?wm ?ws ?pm
       else if ?sg = 15 then disassemble_branch w ?wm ?ws
       else disassemble_alu w ?sg ?wm ?ws ?pm) = Some r"
    and s: "s = sg_s @ '' ; '' @ dst @ r"
    using assms(2) unfolding disassemble_text_def get_bitfield_fields Let_def
    by (elim bind_SomeE) (simp only: option.inject)
  have conv: "(?sg = 13) = (field 4 60 w = 13)" "(?sg = 14) = (field 4 60 w = 14)" "(?sg = 15) = (field 4 60 w = 15)"
    by (simp_all add: ucast_field_eq word_unat_eq_iff [of "field 4 60 w"])
  have pk0: "(?pk = 0) = (unat (field 4 52 w) = 0)" by (simp add: ucast_field_eq)
  have unats: "unat ?pk = unat (field 4 52 w)" "unat (ucast (field 6 12 w) :: u32) = unat (field 6 12 w)"
    by (simp_all add: ucast_field_u32)
  have re: "if field 7 57 w = 0x74 then (if ?pm = 0 then (if ?ws = 0 then unat ?pk \<le> 8 else ?pk = 0) else True)
     else if ?sg = 14 then field 7 57 w \<in> {0x70, 0x71, 0x73} \<and> (if ?ws = 0 \<and> ?pm = 0 then unat ?pk \<le> 8 else ?pk = 0)
     else if ?sg = 15 then field 4 56 w = 0
     else (?pm = 0 \<longrightarrow> unat ?pk \<le> 8) \<and> (?sg = 13 \<longrightarrow> unat (ucast (field 6 12 w) :: u32) < 48)"
    using assms(1) unfolding reassembles_def Let_def conv pk0 unats flag_zero by (rule conjunct2)
  consider "field 7 57 w = 0x74" | "field 7 57 w \<noteq> 0x74" "?sg = 14" | "field 7 57 w \<noteq> 0x74" "?sg = 15"
    | "field 7 57 w \<noteq> 0x74" "?sg \<noteq> 14" "?sg \<noteq> 15" by blast
  then show ?thesis
  proof cases
    case 1
    then show ?thesis unfolding s using sem_line [OF _ sg dst] r re by (auto split: if_splits)
  next
    case 2
    then show ?thesis unfolding s using load_line [OF _ sg dst] r re by (auto split: if_splits)
  next
    case 3
    then have "field 4 60 w = 15" using conv(3) by simp
    then show ?thesis unfolding s using branch_line [OF _ sg dst top_bits] r re 3 by auto
  next
    case 4
    then show ?thesis unfolding s using alu_line [OF _ sg dst] r re by auto
  qed
qed

text \<open>C17: for every sequence of instruction words whose text determines them, the text that the
  disassembler prints for the words, one line each, is assembled back to exactly these words.  No step
  of the assembler reads or writes outside the text.\<close>

theorem assemble_disassemble:
  assumes "list_all reassembles ws"
  shows "assemble_qpu_asm (concat (map (\<lambda>w. the (disassemble_text w) @ [CHR 0x0A]) ws) @ [NUL]) = Some ws"
proof -
  have "\<exists>ls qs. list_all2 (\<lambda>l q. line_ok l \<and> line_insn l = Some q) ls qs \<and> map emit_instruction qs = ws \<and>
      program_text (CHR '')'') ls = concat (map (\<lambda>w. the (disassemble_text w) @ [CHR 0x0A]) ws) @ [NUL]"
    using assms
  proof (induction ws)
    case (Cons w ws)
    then obtain ls qs where IH: "list_all2 (\<lambda>l q. line_ok l \<and> line_insn l = Some q) ls qs" "map emit_instruction qs = ws"
      "program_text (CHR '')'') ls = concat (map (\<lambda>w. the (disassemble_text w) @ [CHR 0x0A]) ws) @ [NUL]" by auto
    have w: "reassembles w" using Cons.prems by simp
    then obtain s where s: "disassemble_text w = Some s" by (auto simp: reassembles_def)
    obtain l q where "s = line_text (CHR '')'') l" "line_ok l" "line_insn l = Some q" "emit_instruction q = w"
      using reassembles_line [OF w s] by blast
    then show ?case using IH s by (intro exI [of _ "l # ls"] exI [of _ "q # qs"]) simp
  qed (auto intro!: exI [of _ "[]"])
  then obtain ls qs where x: "list_all2 (\<lambda>l q. line_ok l \<and> line_insn l = Some q) ls qs" "map emit_instruction qs = ws"
      "program_text (CHR '')'') ls = concat (map (\<lambda>w. the (disassemble_text w) @ [CHR 0x0A]) ws) @ [NUL]" by blast
  show ?thesis using assemble_program [OF x(1)] unfolding x(2,3) .
qed

lemma reassembles_load: "reassembles 0xe0024c6700601a00"
  by code_simp

lemma reassembles_alu: "reassembles 0x100049e020802037"
  by code_simp

lemma assemble_disassemble_witness:
  "assemble_qpu_asm (concat (map (\<lambda>w. the (disassemble_text w) @ [CHR 0x0A])
     [0xe0024c6700601a00, 0x100049e020802037, 0xe0024c6700601a00]) @ [NUL]) =
   Some [0xe0024c6700601a00, 0x100049e020802037, 0xe0024c6700601a00]"
  by (rule assemble_disassemble) (simp add: reassembles_load reassembles_alu)

end
