(* ===== verification/Qpu_Programs.thy ===== *)
theory Qpu_Programs
  imports Qpu_Roundtrip
begin

text \<open>
  Whole programs: the number of instructions that the driver allocates memory for against the number
  that the assembler writes, comments, and the examples of the comment in front of the assembler.
\<close>

subsection \<open>Counting\<close>

lemma after_semicolon_None: "after_semicolon s = None \<longleftrightarrow> CHR '';'' \<notin> set s"
  by (induction s) (auto simp: after_semicolon_def)

lemma after_semicolon_count:
  "after_semicolon s = Some s' \<Longrightarrow> count_list s (CHR '';'') = Suc (count_list s' (CHR '';''))"
  by (induction s) (auto simp: after_semicolon_def split: if_splits)

declare get_num_instructions.simps [simp del]

lemma get_num_instructions_count: "get_num_instructions s = of_nat (count_list s (CHR '';'') div 3)"
proof (induction s rule: get_num_instructions.induct)
  case (1 s)
  have none: "count_list x (CHR '';'') = 0" if "after_semicolon x = None" for x
    using that by (simp add: after_semicolon_None)
  show ?case
  proof (cases "after_semicolon s")
    case None
    then show ?thesis by (simp add: get_num_instructions.simps [of s] none)
  next
    case s1: (Some s1)
    show ?thesis
    proof (cases "after_semicolon s1")
      case None
      then show ?thesis using s1 by (simp add: get_num_instructions.simps [of s] none after_semicolon_count)
    next
      case s2: (Some s2)
      show ?thesis
      proof (cases "after_semicolon s2")
        case None
        then show ?thesis using s1 s2 by (simp add: get_num_instructions.simps [of s] none after_semicolon_count)
      next
        case s3: (Some s3)
        have "count_list s (CHR '';'') div 3 = Suc (count_list s3 (CHR '';'') div 3)"
          using after_semicolon_count [OF s1] after_semicolon_count [OF s2] after_semicolon_count [OF s3] by simp
        then show ?thesis using s1 s2 s3 1 [OF s1 s2 s3] by (simp add: get_num_instructions.simps [of s])
      qed
    qed
  qed
qed

lemma avoids_count: "avoids x s \<Longrightarrow> count_list s x = 0"
  by (induction s) auto

lemma semicolon_special: "CHR '';'' \<in> set special"
  by (simp add: special_set)

lemma line_with_semicolons:
  "line_ok l \<Longrightarrow> count_list w (CHR '';'') = 1 \<Longrightarrow>
    count_list (al_sig l @ '' '' @ line_with w (CHR '')'') l) (CHR '';'') = 3"
  by (simp add: line_with_def line_ok_def avoids_count avoids_plain semicolon_special avoids_dotted avoids_modifiers
      avoids_commas)

text \<open>The C string of a program, in front of its NUL.\<close>

lemma spaced_text_cstr:
  assumes "list_all spaced_ok ls"
  shows "\<exists>s. spaced_text z (CHR '')'') ls = s @ NUL # z \<and> NUL \<notin> set s \<and> count_list s (CHR '';'') = 3 * length ls"
  using assms
proof (induction ls)
  case (Cons lw ls)
  obtain l w where lw: "lw = (l, w)" by (cases lw)
  from Cons obtain s where s: "spaced_text z (CHR '')'') ls = s @ NUL # z" "NUL \<notin> set s"
    "count_list s (CHR '';'') = 3 * length ls" by auto
  let ?t = "al_sig l @ '' '' @ line_with w (CHR '')'') l"
  have ok: "spaced_ok (l, w)" using Cons.prems by (simp add: lw)
  have "count_list ?t (CHR '';'') = 3" using ok line_with_semicolons [of l w] by (simp add: spaced_ok_def gap_ok_def)
  moreover have "NUL \<notin> set ?t" using avoids_spaced_line [OF ok] by (auto simp: avoids_def list_all_iff)
  moreover have "spaced_text z (CHR '')'') (lw # ls) = (?t @ s) @ NUL # z" by (simp add: s(1) lw)
  ultimately have "spaced_text z (CHR '')'') (lw # ls) = (?t @ s) @ NUL # z \<and> NUL \<notin> set (?t @ s) \<and>
      count_list (?t @ s) (CHR '';'') = 3 * length (lw # ls)"
    using s(2,3) by (simp del: append_assoc)
  then show ?case by blast
qed (auto intro: exI [of _ "[]"])

lemma spaced_text_size:
  assumes "list_all spaced_ok ls"
  shows "get_num_instructions (takeWhile (\<lambda>c. c \<noteq> NUL) (spaced_text z (CHR '')'') ls)) = of_nat (length ls)"
proof -
  obtain s where s: "spaced_text z (CHR '')'') ls = s @ NUL # z" "NUL \<notin> set s"
    "count_list s (CHR '';'') = 3 * length ls" using spaced_text_cstr [OF assms] by blast
  have "takeWhile (\<lambda>c. c \<noteq> NUL) (s @ NUL # z) = s" using s(2) by (simp add: takeWhile_append)
  then show ?thesis unfolding s(1) get_num_instructions_count by (simp add: s(3))
qed

lemma line_text_semicolons: "line_ok l \<Longrightarrow> count_list (line_text (CHR '')'') l) (CHR '';'') = 3"
  by (simp add: line_text_def line_rest_def line_with_def line_tail_def line_ok_def avoids_count avoids_plain semicolon_special
      avoids_dotted avoids_modifiers avoids_commas)

lemma program_text_semicolons:
  "list_all line_ok ls \<Longrightarrow> count_list (program_text (CHR '')'') ls) (CHR '';'') = 3 * length ls"
  by (induction ls) (simp_all add: line_text_semicolons)

lemma program_text_nonempty: "program_text c ls \<noteq> []"
  using program_text_NUL [of c ls] by auto

lemma program_text_butlast:
  "count_list (butlast (program_text c ls)) (CHR '';'') = count_list (program_text c ls) (CHR '';'')"
proof -
  have "program_text c ls = butlast (program_text c ls) @ [NUL]"
    by (induction c ls rule: program_text.induct) (simp_all add: butlast_append program_text_nonempty)
  then have "count_list (program_text c ls) (CHR '';'') = count_list (butlast (program_text c ls) @ [NUL]) (CHR '';'')"
    by metis
  then show ?thesis by simp
qed

text \<open>C18: a program of well-formed lines is assembled to the instruction words of its lines, in order,
  and the number of instructions counted in its text (from which the caller takes the size of the
  buffer for the words) is exactly the number of words that the assembler writes.\<close>

theorem assemble_program_size:
  assumes "list_all2 (\<lambda>l q. line_ok l \<and> line_insn l = Some q) ls qs"
  shows "assemble_qpu_asm (program_text (CHR '')'') ls) = Some (map emit_instruction qs) \<and>
    get_num_instructions (butlast (program_text (CHR '')'') ls)) = of_nat (length (map emit_instruction qs))"
proof -
  have "list_all line_ok ls" using assms by (auto simp: list_all2_conv_all_nth list_all_length)
  then show ?thesis
    using assemble_program [OF assms] list_all2_lengthD [OF assms]
    by (simp add: get_num_instructions_count program_text_butlast program_text_semicolons)
qed

definition fadd_line :: asm_line where
  "fadd_line = \<lparr>al_sig = ''sig_none'', al_dst = ''rx1'', al_pack = Some ''nop'', al_op = ''fadd'',
     al_mods = [''sf'', ''always''], al_args = [''r0'', ''a'', ''ra7'', ''nop''], al_dst2 = ''vpm'',
     al_pack2 = None, al_op2 = ''fmul'', al_mods2 = [''zs''], al_args2 = [''r2'', ''r3'']\<rparr>"

lemma fadd_line_ok: "line_ok fadd_line"
  unfolding line_ok_def fadd_line_def asm_line.simps option.pred_inject by (code_simp, simp)

lemma fadd_line_insn: "\<not> Option.is_none (line_insn fadd_line)"
  by code_simp

lemma assemble_program_size_witness:
  "assemble_qpu_asm (program_text (CHR '')'') [fadd_line, fadd_line]) =
     Some (map emit_instruction [the (line_insn fadd_line), the (line_insn fadd_line)]) \<and>
   get_num_instructions (butlast (program_text (CHR '')'') [fadd_line, fadd_line])) =
     of_nat (length (map emit_instruction [the (line_insn fadd_line), the (line_insn fadd_line)]))"
  by (rule assemble_program_size) (use fadd_line_ok fadd_line_insn in \<open>auto simp: Option.is_none_def\<close>)

subsection \<open>Comments\<close>

lemma strip_comments_state:
  assumes "\<forall>c\<in>set s. c \<noteq> NUL"
  shows "strip_comments b (s @ [NUL]) = None \<longleftrightarrow>
    (if b then CHR 0x0A \<notin> set s else False) \<or> (\<exists>u v. s = u @ CHR ''#'' # v \<and> CHR 0x0A \<notin> set v)"
  using assms
proof (induction s arbitrary: b)
  case (Cons c s)
  have step: "(\<exists>u v. c # s = u @ CHR ''#'' # v \<and> CHR 0x0A \<notin> set v) \<longleftrightarrow>
     (c = CHR ''#'' \<and> CHR 0x0A \<notin> set s) \<or> (\<exists>u v. s = u @ CHR ''#'' # v \<and> CHR 0x0A \<notin> set v)"
    by (auto simp: Cons_eq_append_conv)
  show ?case unfolding step using Cons by (cases b) auto
qed auto

text \<open>The pass that blanks out comments runs off the end of the text exactly when the last line holds
  a comment that no newline ends; on every other text it stays inside.\<close>

theorem strip_comments_overrun:
  assumes "\<forall>c\<in>set s. c \<noteq> NUL"
  shows "strip_comments False (s @ [NUL]) = None \<longleftrightarrow> (\<exists>u v. s = u @ CHR ''#'' # v \<and> CHR 0x0A \<notin> set v)"
  using strip_comments_state [OF assms, of False] by simp

lemma strip_comments_overrun_witness:
  "strip_comments False (''nop #x'' @ [NUL]) = None \<longleftrightarrow>
    (\<exists>u v. ''nop #x'' = u @ CHR ''#'' # v \<and> CHR 0x0A \<notin> set v)"
  by (rule strip_comments_overrun) simp

subsection \<open>The documented examples\<close>

text \<open>
  The second example below the heading nop: arguments that are not the name of an accumulator do not
  move the position, so that the first operation gets the register address 0 instead of 39.
\<close>

lemma documented_nop:
  "map_option (map (field 6 18)) (assemble_qpu_asm
     (''sig_none ; nop = nop(nop, nop) ; nop = nop(nop, nop) ;'' @ [NUL])) = Some [0]"
  by code_simp

text \<open>The documented branch has no condition among its arguments, and is assembled to a word that is not
  the encoding of any branch with the documented address.\<close>

lemma documented_branch:
  "map_option (map (field 32 0)) (assemble_qpu_asm
     (''sig_branch ; rx0 = branch.pm.rel.reg.always(0xdeadbeef, ra1) ; rx0 = branch() ;'' @ [NUL])) \<noteq> Some [0xdeadbeef]"
  by code_simp

end
