(* ===== verification/Hash_Map.thy ===== *)
theory Hash_Map
  imports Prelude
begin

text \<open>
  The hash map of driver/map.c: a table with linear probing that maps 32-bit keys to pointers; an
  element whose pointer is null is free.  A \<open>map\<close> is the buffer of its elements with the number of
  buckets; both loops go on until they hit the key or a free bucket and need not end, so they are
  partial functions in the option monad: \<open>None\<close> is an access outside the table, an undefined shift,
  or a loop that runs forever.  The locale \<open>lookup_table\<close> is what a client of the map relies on.
\<close>

unbundle bit_operations_syntax

subsection \<open>The code\<close>

record mapElem =
  me_data :: addr
  me_key :: u32

record hashmap =
  hm_elements :: "mapElem list"
  hm_maxData :: u32

text \<open>The shift by \<open>32 - maxData\<close> is defined for 1 to 32 buckets only.\<close>

definition getIndex :: "u32 \<Rightarrow> u32 \<Rightarrow> u32 option" where
  "getIndex key maxData = (
     let a = 0x678DDE6F; s = 32 - maxData
     in if unat s < 32 \<and> maxData \<noteq> 0 then Some (drop_bit (unat s) (a * key) mod maxData) else None)"

text \<open>The loop of \<open>getMapElement\<close> and \<open>setMapElement\<close>, which returns the index where it stops.\<close>

partial_function (option) probe :: "mapElem list \<Rightarrow> u32 \<Rightarrow> u32 \<Rightarrow> u32 \<Rightarrow> u32 option" where
  "probe es maxData key index = (
     if length es \<le> unat index then None
     else if me_key (es ! unat index) \<noteq> key \<and> me_data (es ! unat index) \<noteq> 0
     then probe es maxData key ((index + 1) mod maxData)
     else Some index)"

declare probe.simps [code]

definition getMapElement :: "hashmap \<Rightarrow> u32 \<Rightarrow> addr option" where
  "getMapElement m key = do {
     index \<leftarrow> getIndex key (hm_maxData m);
     i \<leftarrow> probe (hm_elements m) (hm_maxData m) key index;
     Some (me_data (hm_elements m ! unat i)) }"

definition setMapElement :: "hashmap \<Rightarrow> u32 \<Rightarrow> addr \<Rightarrow> hashmap option" where
  "setMapElement m key data = do {
     index \<leftarrow> getIndex key (hm_maxData m);
     i \<leftarrow> probe (hm_elements m) (hm_maxData m) key index;
     Some (m\<lparr>hm_elements := (hm_elements m)[unat i := \<lparr>me_data = data, me_key = key\<rparr>]\<rparr>) }"

text \<open>The loop of \<open>deleteMapElement\<close> does not wrap around.\<close>

partial_function (option) delete_probe :: "mapElem list \<Rightarrow> u32 \<Rightarrow> u32 \<Rightarrow> u32 option" where
  "delete_probe es key index = (
     if length es \<le> unat index then None
     else if me_key (es ! unat index) \<noteq> key then delete_probe es key (index + 1)
     else Some index)"

declare delete_probe.simps [code]

definition deleteMapElement :: "hashmap \<Rightarrow> u32 \<Rightarrow> hashmap option" where
  "deleteMapElement m key = do {
     index \<leftarrow> getIndex key (hm_maxData m);
     i \<leftarrow> delete_probe (hm_elements m) key index;
     Some (m\<lparr>hm_elements := (hm_elements m)[unat i := (hm_elements m ! unat i)\<lparr>me_data := 0\<rparr>]\<rparr>) }"

text \<open>The keys of the buffer stay as they are.\<close>

definition createMap :: "mapElem list \<Rightarrow> u32 \<Rightarrow> hashmap option" where
  "createMap buf maxData = (
     if length buf < unat maxData then None
     else Some \<lparr>hm_elements = map (\<lambda>e. e\<lparr>me_data := 0\<rparr>) (take (unat maxData) buf) @ drop (unat maxData) buf,
       hm_maxData = maxData\<rparr>)"

definition destroyMap :: "hashmap \<Rightarrow> hashmap" where
  "destroyMap m = m\<lparr>hm_elements := [], hm_maxData := 0\<rparr>"

subsection \<open>The contract of a lookup table\<close>

text \<open>
  \<open>inv n s\<close>: a table of \<open>n\<close> entries in a good state; \<open>view s\<close>: the finite map that it stands for.
  Storing needs room for the key, looking up a missing key needs a free entry.
\<close>

locale lookup_table =
  fixes inv :: "nat \<Rightarrow> 's \<Rightarrow> bool"
    and view :: "'s \<Rightarrow> 'k \<Rightarrow> 'v option"
    and store :: "'s \<Rightarrow> 'k \<Rightarrow> 'v \<Rightarrow> 's option"
    and lookup :: "'s \<Rightarrow> 'k \<Rightarrow> 'v option"
    and missing :: 'v
  assumes view_card: "inv n s \<Longrightarrow> finite (dom (view s)) \<and> card (dom (view s)) \<le> n"
    and store_ok: "inv n s \<Longrightarrow> v \<noteq> missing \<Longrightarrow> k \<in> dom (view s) \<or> card (dom (view s)) < n \<Longrightarrow>
      \<exists>s'. store s k v = Some s' \<and> inv n s' \<and> view s' = (view s)(k \<mapsto> v)"
    and lookup_found: "inv n s \<Longrightarrow> view s k = Some v \<Longrightarrow> lookup s k = Some v"
    and lookup_missing: "inv n s \<Longrightarrow> view s k = None \<Longrightarrow> card (dom (view s)) < n \<Longrightarrow> lookup s k = Some missing"
    and lookup_full: "inv n s \<Longrightarrow> view s k = None \<Longrightarrow> card (dom (view s)) = n \<Longrightarrow> lookup s k = None"

text \<open>A client that fills a table.\<close>

fun store_all :: "('s \<Rightarrow> 'k \<Rightarrow> 'v \<Rightarrow> 's option) \<Rightarrow> 's \<Rightarrow> ('k \<times> 'v) list \<Rightarrow> 's option" where
  "store_all store s [] = Some s"
| "store_all store s ((k, v) # kvs) = do { s' \<leftarrow> store s k v; store_all store s' kvs }"

context lookup_table
begin

lemma store_all_view:
  assumes "inv n s" "\<forall>(k, v)\<in>set kvs. v \<noteq> missing" "card (dom (view s) \<union> fst ` set kvs) \<le> n"
  shows "\<exists>s'. store_all store s kvs = Some s' \<and> inv n s' \<and> view s' = view s ++ map_of (rev kvs)"
  using assms
proof (induction kvs arbitrary: s)
  case (Cons kv kvs)
  obtain k v where kv: "kv = (k, v)" by (cases kv)
  let ?d = "dom (view s)"
  have fin: "finite (?d \<union> fst ` set (kv # kvs))" using view_card [OF Cons.prems(1)] by simp
  have "k \<in> ?d \<or> card ?d < n"
  proof (rule disjCI)
    assume "\<not> card ?d < n"
    then have "card (?d \<union> fst ` set (kv # kvs)) \<le> card ?d" using Cons.prems(3) by linarith
    from card_seteq [OF fin _ this] show "k \<in> ?d" using kv by auto
  qed
  then obtain s' where s': "store s k v = Some s'" "inv n s'" "view s' = (view s)(k \<mapsto> v)"
    using store_ok [OF Cons.prems(1), of v k] Cons.prems(2) kv by auto
  have dom: "dom (view s') \<union> fst ` set kvs = ?d \<union> fst ` set (kv # kvs)" using s'(3) kv by auto
  have "\<forall>(k, v)\<in>set kvs. v \<noteq> missing" using Cons.prems(2) by simp
  from Cons.IH [OF s'(2) this] Cons.prems(3) obtain s'' where
    "store_all store s' kvs = Some s''" "inv n s''" "view s'' = view s' ++ map_of (rev kvs)"
    unfolding dom by blast
  moreover have "view s' ++ map_of (rev kvs) = view s ++ map_of (rev (kv # kvs))"
    by (simp add: s'(3) kv fun_upd_def map_add_def fun_eq_iff split: option.split)
  ultimately show ?case using s'(1) kv by simp
qed simp

lemma lookup_view:
  assumes "inv n s"
  shows "lookup s k = (case view s k of Some v \<Rightarrow> Some v
    | None \<Rightarrow> if card (dom (view s)) < n then Some missing else None)"
  using assms view_card [OF assms] lookup_found lookup_missing lookup_full by (auto split: option.split)

end

subsection \<open>The probe sequence\<close>

definition home :: "u32 \<Rightarrow> u32 \<Rightarrow> nat" where
  "home key maxData = unat (the (getIndex key maxData))"

definition stops :: "mapElem list \<Rightarrow> u32 \<Rightarrow> nat \<Rightarrow> bool" where
  "stops es key i \<longleftrightarrow> me_key (es ! i) = key \<or> me_data (es ! i) = 0"

lemma getIndex_home:
  assumes "0 < unat md" "unat md \<le> 32"
  shows "getIndex key md = Some (of_nat (home key md))" "home key md < unat md"
proof -
  have "unat (32 - md) = 32 - unat md" using assms by (subst unat_sub) (simp_all add: word_le_nat_alt)
  moreover have "md \<noteq> 0" using assms(1) by auto
  ultimately have ex: "getIndex key md = Some (drop_bit (unat (32 - md)) (0x678DDE6F * key) mod md)"
    using assms(1) by (simp add: getIndex_def Let_def)
  show "getIndex key md = Some (of_nat (home key md))" by (simp add: ex home_def)
  show "home key md < unat md" using assms(1) by (simp add: ex home_def unat_mod)
qed

text \<open>A table of \<open>n\<close> buckets, of which the index is computed without an undefined shift.\<close>

locale probing =
  fixes es :: "mapElem list" and md :: u32
  assumes len: "length es = unat md" and pos: "0 < unat md" and bound: "unat md \<le> 32"

context probing
begin

lemma next_index: "i < unat md \<Longrightarrow> (of_nat i + 1) mod md = of_nat (Suc i mod unat md)"
proof -
  assume i: "i < unat md"
  have "unat (of_nat i + 1 :: u32) = Suc i"
    using unat_of_nat_u32 [of "Suc i"] i bound by (simp add: add.commute)
  then have "unat ((of_nat i + 1) mod md) = Suc i mod unat md" by (simp add: unat_mod)
  then show ?thesis by (metis unat_of_nat_self)
qed

lemma probe_step:
  assumes "i < unat md"
  shows "probe es md key (of_nat i) =
    (if stops es key i then Some (of_nat i) else probe es md key (of_nat (Suc i mod unat md)))"
proof -
  have "unat (of_nat i :: u32) = i" using assms bound by (intro unat_of_nat_u32) simp
  then show ?thesis
    using assms by (simp add: probe.simps [of es md key "of_nat i"] stops_def next_index len)
qed

lemma probe_at:
  assumes "i < unat md" "\<forall>j'<j. \<not> stops es key ((i + j') mod unat md)" "stops es key ((i + j) mod unat md)"
  shows "probe es md key (of_nat i) = Some (of_nat ((i + j) mod unat md))"
  using assms
proof (induction j arbitrary: i)
  case 0
  then show ?case by (simp add: probe_step)
next
  case (Suc j)
  let ?i = "Suc i mod unat md"
  have sh: "(?i + j') mod unat md = (i + Suc j') mod unat md" for j' by (simp add: mod_add_left_eq)
  have "\<not> stops es key i" using Suc.prems(1,2) by (metis add_0_right mod_less zero_less_Suc)
  then have "probe es md key (of_nat i) = probe es md key (of_nat ?i)" using Suc.prems(1) by (simp add: probe_step)
  also have "\<dots> = Some (of_nat ((?i + j) mod unat md))"
  proof (rule Suc.IH)
    show "?i < unat md" using pos by simp
    show "\<forall>j'<j. \<not> stops es key ((?i + j') mod unat md)" unfolding sh using Suc.prems(2) by blast
    show "stops es key ((?i + j) mod unat md)" unfolding sh by (rule Suc.prems(3))
  qed
  finally show ?case unfolding sh .
qed

lemma around: "i < unat md \<Longrightarrow> r < unat md \<Longrightarrow> \<exists>j<unat md. r = (i + j) mod unat md"
proof -
  assume *: "i < unat md" "r < unat md"
  show ?thesis
  proof (cases "i \<le> r")
    case True
    then show ?thesis using * by (intro exI [of _ "r - i"]) simp
  next
    case False
    then show ?thesis using * by (intro exI [of _ "unat md + r - i"]) (simp add: mod_if)
  qed
qed

lemma first_stop:
  assumes "i < unat md" "r < unat md" "stops es key r"
  obtains j where "j < unat md" "\<forall>j'<j. \<not> stops es key ((i + j') mod unat md)" "stops es key ((i + j) mod unat md)"
    "probe es md key (of_nat i) = Some (of_nat ((i + j) mod unat md))"
proof -
  obtain j0 where j0: "j0 < unat md" "stops es key ((i + j0) mod unat md)" using around [OF assms(1,2)] assms(3) by auto
  define j where "j = (LEAST j. stops es key ((i + j) mod unat md))"
  have "stops es key ((i + j) mod unat md)" "j \<le> j0" "\<forall>j'<j. \<not> stops es key ((i + j') mod unat md)"
    unfolding j_def using j0(2) by (auto intro: LeastI Least_le dest: not_less_Least)
  then show ?thesis using that [of j] j0(1) probe_at [OF assms(1)] by simp
qed

end

lemma probe_stops:
  assumes "probe es md key index = Some r"
  shows "unat r < length es \<and> stops es key (unat r)"
  by (rule probe.raw_induct [where P = "\<lambda>es md key index r. unat r < length es \<and> stops es key (unat r)", OF _ assms])
    (auto simp: stops_def split: if_splits)

subsection \<open>The invariant\<close>

text \<open>Every entry is where a probe for its key stops first.\<close>

definition used :: "mapElem list \<Rightarrow> u32 \<Rightarrow> nat \<Rightarrow> bool" where
  "used es key i \<longleftrightarrow> me_key (es ! i) = key \<and> me_data (es ! i) \<noteq> 0"

definition map_inv :: "nat \<Rightarrow> hashmap \<Rightarrow> bool" where
  "map_inv n m \<longleftrightarrow> n = unat (hm_maxData m) \<and> length (hm_elements m) = n \<and> 0 < n \<and> n \<le> 32 \<and>
     (\<forall>i<n. \<forall>key. used (hm_elements m) key i \<longrightarrow>
        (\<exists>j. i = (home key (hm_maxData m) + j) mod n \<and>
           (\<forall>j'<j. \<not> stops (hm_elements m) key ((home key (hm_maxData m) + j') mod n))))"

definition map_view :: "hashmap \<Rightarrow> u32 \<Rightarrow> addr option" where
  "map_view m key = map_option me_data (List.find (\<lambda>e. me_key e = key \<and> me_data e \<noteq> 0) (hm_elements m))"

lemma map_inv_probing: "map_inv n m \<Longrightarrow> probing (hm_elements m) (hm_maxData m)"
  by (simp add: map_inv_def probing_def)

lemma map_inv_size: "map_inv n m \<Longrightarrow> unat (hm_maxData m) = n \<and> length (hm_elements m) = n \<and> 0 < n \<and> n \<le> 32"
  by (simp add: map_inv_def)

lemma home_lt: "map_inv n m \<Longrightarrow> home key (hm_maxData m) < n"
  using getIndex_home(2) [of "hm_maxData m" key] by (simp add: map_inv_def)

lemma index_unat: "map_inv n m \<Longrightarrow> i < n \<Longrightarrow> unat (of_nat i :: u32) = i"
  by (rule unat_of_nat_u32) (simp add: map_inv_def)

lemma used_probe:
  assumes "map_inv n m" "i < n" "used (hm_elements m) key i"
  shows "probe (hm_elements m) (hm_maxData m) key (of_nat (home key (hm_maxData m))) = Some (of_nat i)"
proof -
  obtain j where j: "i = (home key (hm_maxData m) + j) mod n"
    "\<forall>j'<j. \<not> stops (hm_elements m) key ((home key (hm_maxData m) + j') mod n)"
    using assms unfolding map_inv_def by blast
  moreover have "stops (hm_elements m) key i" using assms(3) by (simp add: used_def stops_def)
  ultimately show ?thesis
    using probing.probe_at [OF map_inv_probing [OF assms(1)]] home_lt [OF assms(1)] map_inv_size [OF assms(1)] by simp
qed

lemma used_unique:
  assumes "map_inv n m" "i < n" "i' < n" "used (hm_elements m) key i" "used (hm_elements m) key i'"
  shows "i = i'"
  using used_probe [OF assms(1,2,4)] used_probe [OF assms(1,3,5)] index_unat [OF assms(1)] assms(2,3)
  by (metis option.inject)

lemma view_Some:
  assumes "map_inv n m"
  shows "map_view m key = Some d \<longleftrightarrow> (\<exists>i<n. used (hm_elements m) key i \<and> d = me_data (hm_elements m ! i))"
proof
  assume "map_view m key = Some d"
  then show "\<exists>i<n. used (hm_elements m) key i \<and> d = me_data (hm_elements m ! i)"
    using map_inv_size [OF assms] by (auto simp: map_view_def find_Some_iff used_def)
next
  assume "\<exists>i<n. used (hm_elements m) key i \<and> d = me_data (hm_elements m ! i)"
  then obtain i where i: "i < n" "used (hm_elements m) key i" "d = me_data (hm_elements m ! i)" by blast
  then have "List.find (\<lambda>e. me_key e = key \<and> me_data e \<noteq> 0) (hm_elements m) \<noteq> None"
    using map_inv_size [OF assms] unfolding find_None_iff used_def by (metis nth_mem)
  then obtain e where e: "List.find (\<lambda>e. me_key e = key \<and> me_data e \<noteq> 0) (hm_elements m) = Some e" by blast
  then obtain i' where i': "i' < n" "used (hm_elements m) key i'" "e = hm_elements m ! i'"
    using map_inv_size [OF assms] by (auto simp: find_Some_iff used_def)
  then show "map_view m key = Some d" using e used_unique [OF assms i(1) i'(1) i(2) i'(2)] i(3) by (simp add: map_view_def)
qed

lemma view_None: "map_inv n m \<Longrightarrow> map_view m key = None \<longleftrightarrow> (\<forall>i<n. \<not> used (hm_elements m) key i)"
  using view_Some by (metis not_None_eq)

lemma dom_view: "map_inv n m \<Longrightarrow> dom (map_view m) = (\<lambda>i. me_key (hm_elements m ! i)) ` {i. i < n \<and> me_data (hm_elements m ! i) \<noteq> 0}"
  by (auto simp: dom_def view_Some used_def)

lemma card_view: "map_inv n m \<Longrightarrow> card (dom (map_view m)) = card {i. i < n \<and> me_data (hm_elements m ! i) \<noteq> 0}"
  unfolding dom_view using used_unique by (intro card_image) (auto simp: inj_on_def used_def)

lemma card_view_le: "map_inv n m \<Longrightarrow> finite (dom (map_view m)) \<and> card (dom (map_view m)) \<le> n"
proof -
  assume inv: "map_inv n m"
  have "card {i. i < n \<and> me_data (hm_elements m ! i) \<noteq> 0} \<le> card {..<n}" by (rule card_mono) auto
  then show ?thesis unfolding card_view [OF inv] unfolding dom_view [OF inv] by simp
qed

lemma free_slot:
  assumes "map_inv n m" "card (dom (map_view m)) < n"
  shows "\<exists>i<n. me_data (hm_elements m ! i) = 0"
proof (rule ccontr)
  assume "\<not> ?thesis"
  then have "{i. i < n \<and> me_data (hm_elements m ! i) \<noteq> 0} = {..<n}" by auto
  then show False using assms(2) card_view [OF assms(1)] by simp
qed

lemma full_slots:
  assumes "map_inv n m" "card (dom (map_view m)) = n" "i < n"
  shows "me_data (hm_elements m ! i) \<noteq> 0"
proof -
  have "{i. i < n \<and> me_data (hm_elements m ! i) \<noteq> 0} = {..<n}"
    using assms(2) card_view [OF assms(1)] by (intro card_subset_eq) auto
  then show ?thesis using assms(3) by blast
qed

subsection \<open>The operations\<close>

lemma map_op_unfold:
  assumes "map_inv n m"
  shows "getMapElement m key = do { i \<leftarrow> probe (hm_elements m) (hm_maxData m) key (of_nat (home key (hm_maxData m)));
      Some (me_data (hm_elements m ! unat i)) }"
    and "setMapElement m key d = do { i \<leftarrow> probe (hm_elements m) (hm_maxData m) key (of_nat (home key (hm_maxData m)));
      Some (m\<lparr>hm_elements := (hm_elements m)[unat i := \<lparr>me_data = d, me_key = key\<rparr>]\<rparr>) }"
  using getIndex_home(1) [of "hm_maxData m" key] map_inv_size [OF assms]
  by (simp_all add: getMapElement_def setMapElement_def)

lemma get_found: "map_inv n m \<Longrightarrow> map_view m key = Some d \<Longrightarrow> getMapElement m key = Some d"
  using used_probe index_unat by (auto simp: view_Some map_op_unfold)

lemma stop_slot:
  assumes "map_inv n m" "key \<in> dom (map_view m) \<or> card (dom (map_view m)) < n"
  obtains j where "\<forall>j'<j. \<not> stops (hm_elements m) key ((home key (hm_maxData m) + j') mod n)"
    "stops (hm_elements m) key ((home key (hm_maxData m) + j) mod n)"
    "probe (hm_elements m) (hm_maxData m) key (of_nat (home key (hm_maxData m))) =
       Some (of_nat ((home key (hm_maxData m) + j) mod n))"
proof -
  have "\<exists>r<n. stops (hm_elements m) key r"
    using assms(2) free_slot [OF assms(1)] view_Some [OF assms(1)] by (auto simp: stops_def used_def)
  then obtain r where r: "r < n" "stops (hm_elements m) key r" by blast
  have n: "n = unat (hm_maxData m)" using map_inv_size [OF assms(1)] by simp
  show ?thesis
    using probing.first_stop [OF map_inv_probing [OF assms(1)] home_lt [OF assms(1), unfolded n] r(1) [unfolded n] r(2)]
      that unfolding n by metis
qed

lemma get_missing:
  assumes "map_inv n m" "map_view m key = None" "card (dom (map_view m)) < n"
  shows "getMapElement m key = Some 0"
proof -
  obtain j where j: "stops (hm_elements m) key ((home key (hm_maxData m) + j) mod n)"
    "probe (hm_elements m) (hm_maxData m) key (of_nat (home key (hm_maxData m))) =
       Some (of_nat ((home key (hm_maxData m) + j) mod n))"
    using stop_slot assms(1,3) by metis
  have lt: "(home key (hm_maxData m) + j) mod n < n" using map_inv_size [OF assms(1)] by simp
  then have "\<not> used (hm_elements m) key ((home key (hm_maxData m) + j) mod n)"
    using assms(2) by (simp add: view_None [OF assms(1)])
  then have "me_data (hm_elements m ! ((home key (hm_maxData m) + j) mod n)) = 0"
    using j(1) by (auto simp: stops_def used_def)
  then show ?thesis using j lt by (simp add: map_op_unfold(1) [OF assms(1)] index_unat [OF assms(1)])
qed

lemma get_full:
  assumes "map_inv n m" "map_view m key = None" "card (dom (map_view m)) = n"
  shows "getMapElement m key = None"
proof -
  have "probe (hm_elements m) (hm_maxData m) key (of_nat (home key (hm_maxData m))) = None"
  proof (rule ccontr)
    assume "\<not> ?thesis"
    then obtain r where "probe (hm_elements m) (hm_maxData m) key (of_nat (home key (hm_maxData m))) = Some r" by blast
    from probe_stops [OF this] have "unat r < n" "stops (hm_elements m) key (unat r)"
      using map_inv_size [OF assms(1)] by auto
    then show False using assms(2) full_slots [OF assms(1,3)] by (auto simp: view_None [OF assms(1)] stops_def used_def)
  qed
  then show ?thesis by (simp add: map_op_unfold(1) [OF assms(1)])
qed

lemma set_used:
  assumes inv: "map_inv n m" and stop: "stops (hm_elements m) key t" "t < n" and d: "d \<noteq> 0"
    and es': "es' = (hm_elements m)[t := \<lparr>me_data = d, me_key = key\<rparr>]"
  shows "used es' key' i \<longleftrightarrow> (if i = t then key' = key else used (hm_elements m) key' i)"
    and "\<not> stops (hm_elements m) key' i \<Longrightarrow> i \<noteq> t \<or> key' \<noteq> key \<Longrightarrow> \<not> stops es' key' i"
  using map_inv_size [OF inv] stop d unfolding es' by (auto simp: used_def stops_def nth_list_update)

lemma set_element:
  assumes inv: "map_inv n m" and d: "d \<noteq> 0" and room: "key \<in> dom (map_view m) \<or> card (dom (map_view m)) < n"
  shows "\<exists>m'. setMapElement m key d = Some m' \<and> map_inv n m' \<and> map_view m' = (map_view m)(key \<mapsto> d)"
proof -
  let ?es = "hm_elements m" and ?h = "\<lambda>key. home key (hm_maxData m)"
  obtain j where j: "\<forall>j'<j. \<not> stops ?es key ((?h key + j') mod n)" "stops ?es key ((?h key + j) mod n)"
    "probe ?es (hm_maxData m) key (of_nat (?h key)) = Some (of_nat ((?h key + j) mod n))"
    using stop_slot [OF inv room] by blast
  define t es' where "t = (?h key + j) mod n" and "es' = ?es[t := \<lparr>me_data = d, me_key = key\<rparr>]"
  have t: "t < n" "unat (of_nat t :: u32) = t" using map_inv_size [OF inv] index_unat [OF inv, of t] by (auto simp: t_def)
  define m' where "m' = m\<lparr>hm_elements := es'\<rparr>"
  have set: "setMapElement m key d = Some m'"
    using j(3) t(2) by (simp add: map_op_unfold(2) [OF inv] m'_def es'_def flip: t_def)
  note used' = set_used(1) [OF inv j(2) [folded t_def] t(1) d es'_def]
    and stops' = set_used(2) [OF inv j(2) [folded t_def] t(1) d es'_def]
  have path: "\<exists>j. i = (?h k + j) mod n \<and> (\<forall>j'<j. \<not> stops es' k ((?h k + j') mod n))" if i: "i < n" "used es' k i" for i k
  proof (cases "i = t")
    case True
    then have k: "k = key" using i(2) used' by simp
    have "(?h key + j') mod n \<noteq> t" if "j' < j" for j' using j(1,2) that unfolding t_def by metis
    then show ?thesis using True k j(1) stops' t_def by blast
  next
    case False
    then have u: "used ?es k i" using i(2) used' by simp
    then obtain j0 where j0: "i = (?h k + j0) mod n" "\<forall>j'<j0. \<not> stops ?es k ((?h k + j') mod n)"
      using inv i(1) unfolding map_inv_def by blast
    have "(?h k + j') mod n \<noteq> t \<or> k \<noteq> key" if "j' < j0" for j'
      using j0(2) that j(2) [folded t_def] by metis
    then show ?thesis using j0 stops' by blast
  qed
  then have inv': "map_inv n m'" using map_inv_size [OF inv] by (simp add: map_inv_def m'_def es'_def)
  have "map_view m' k = Some x \<longleftrightarrow> ((map_view m)(key \<mapsto> d)) k = Some x" for k x
  proof (cases "k = key")
    case True
    have "used es' key t" "me_data (es' ! t) = d" using used' t(1) map_inv_size [OF inv] by (simp_all add: es'_def)
    then show ?thesis using True t(1) used_unique [OF inv'] view_Some [OF inv'] by (auto simp: m'_def)
  next
    case False
    have "\<not> used ?es k t" using j(2) [folded t_def] False by (auto simp: used_def stops_def)
    then have "(\<exists>i<n. used es' k i \<and> x = me_data (es' ! i)) \<longleftrightarrow> (\<exists>i<n. used ?es k i \<and> x = me_data (?es ! i))"
      using used' False by (metis es'_def nth_list_update_neq)
    then show ?thesis using False by (simp add: view_Some [OF inv'] view_Some [OF inv]) (simp add: m'_def)
  qed
  then have "map_view m' = (map_view m)(key \<mapsto> d)" by (intro ext) (metis option.exhaust)
  then show ?thesis using set inv' by blast
qed

interpretation hash: lookup_table map_inv map_view setMapElement getMapElement 0
proof
  fix n m and key :: u32 and d :: addr
  show "map_inv n m \<Longrightarrow> finite (dom (map_view m)) \<and> card (dom (map_view m)) \<le> n" by (rule card_view_le)
  show "map_inv n m \<Longrightarrow> d \<noteq> 0 \<Longrightarrow> key \<in> dom (map_view m) \<or> card (dom (map_view m)) < n \<Longrightarrow>
      \<exists>s'. setMapElement m key d = Some s' \<and> map_inv n s' \<and> map_view s' = (map_view m)(key \<mapsto> d)"
    by (rule set_element)
  show "map_inv n m \<Longrightarrow> map_view m key = Some d \<Longrightarrow> getMapElement m key = Some d" by (rule get_found)
  show "map_inv n m \<Longrightarrow> map_view m key = None \<Longrightarrow> card (dom (map_view m)) < n \<Longrightarrow> getMapElement m key = Some 0"
    by (rule get_missing)
  show "map_inv n m \<Longrightarrow> map_view m key = None \<Longrightarrow> card (dom (map_view m)) = n \<Longrightarrow> getMapElement m key = None"
    by (rule get_full)
qed

subsection \<open>A new table\<close>

lemma create_inv:
  assumes "0 < unat n" "unat n \<le> 32" "length buf = unat n"
  shows "\<exists>m. createMap buf n = Some m \<and> map_inv (unat n) m \<and> map_view m = Map.empty"
proof -
  define m where "m = \<lparr>hm_elements = map (\<lambda>e. e\<lparr>me_data := 0\<rparr>) buf, hm_maxData = n\<rparr>"
  have free: "me_data (hm_elements m ! i) = 0" if "i < unat n" for i using that assms(3) by (simp add: m_def)
  have inv: "map_inv (unat n) m" unfolding map_inv_def using free assms by (simp add: used_def) (simp add: m_def)
  have "map_view m key = None" for key using view_None [OF inv] free by (simp add: used_def)
  then show ?thesis using inv assms(3) by (intro exI [of _ m]) (simp add: createMap_def m_def fun_eq_iff)
qed

text \<open>C7: a table of 1 to 32 buckets that is filled with pointers, and that has a bucket for every key,
  is the finite map of what was stored last under each key: a stored key yields its pointer, a missing
  one the null pointer while a bucket is free, and the lookup of a missing key in a full table does not
  return.\<close>

theorem map_is_finite_map:
  assumes "0 < unat n" "unat n \<le> 32" "length buf = unat n" "\<forall>(k, v)\<in>set kvs. v \<noteq> 0"
    "card (fst ` set kvs) \<le> unat n"
  shows "\<exists>m. Option.bind (createMap buf n) (\<lambda>m. store_all setMapElement m kvs) = Some m \<and>
    (\<forall>key. getMapElement m key = (case map_of (rev kvs) key of Some v \<Rightarrow> Some v
       | None \<Rightarrow> if card (fst ` set kvs) < unat n then Some 0 else None))"
proof -
  obtain m0 where m0: "createMap buf n = Some m0" "map_inv (unat n) m0" "map_view m0 = Map.empty"
    using create_inv [OF assms(1-3)] by blast
  obtain m where m: "store_all setMapElement m0 kvs = Some m" "map_inv (unat n) m" "map_view m = map_of (rev kvs)"
    using hash.store_all_view [OF m0(2) assms(4)] assms(5) by (auto simp: m0(3))
  have "dom (map_view m) = fst ` set kvs" by (simp add: m(3) dom_map_of_conv_image_fst)
  then show ?thesis using m0(1) m(1) hash.lookup_view [OF m(2)] m(3) by (intro exI [of _ m]) simp
qed

lemma map_is_finite_map_witness:
  "\<exists>m. Option.bind (createMap [\<lparr>me_data = 7, me_key = 5\<rparr>, \<lparr>me_data = 0, me_key = 0\<rparr>] 2)
      (\<lambda>m. store_all setMapElement m [(5, 0x1000), (9, 0x2000)]) = Some m \<and>
    (\<forall>key. getMapElement m key = (case map_of (rev [(5, 0x1000), (9, 0x2000)]) key of Some v \<Rightarrow> Some v
       | None \<Rightarrow> if card (fst ` set [(5 :: u32, 0x1000 :: addr), (9, 0x2000)]) < unat (2 :: u32) then Some 0 else None))"
  by (rule map_is_finite_map) simp_all

subsection \<open>Shifts and deletions\<close>

text \<open>The index of a key is defined exactly for tables of 1 to 32 buckets; for every other size the hash
  is shifted by 32 bits or more, whatever the key.\<close>

theorem getIndex_defined: "getIndex key maxData \<noteq> None \<longleftrightarrow> 1 \<le> unat maxData \<and> unat maxData \<le> 32"
proof (cases "1 \<le> unat maxData \<and> unat maxData \<le> 32")
  case True
  then show ?thesis using getIndex_home(1) [of maxData key] by simp
next
  case False
  show ?thesis
  proof (cases "maxData = 0")
    case True
    then show ?thesis by (simp add: getIndex_def)
  next
    case nz: False
    then have "32 < unat maxData" using False by (simp add: unat_gt_0 [symmetric] not_le)
    moreover have "unat (32 - maxData) = 2 ^ 32 + 32 - unat maxData" if "32 < unat maxData"
      using that unat_lt_u32 [of maxData] by (subst unat_sub_if_size) (simp add: word_size)
    ultimately have "\<not> unat (32 - maxData) < 32" using unat_lt_u32 [of maxData] by simp
    then show ?thesis using False by (simp add: getIndex_def Let_def)
  qed
qed

lemma delete_probe_step:
  assumes "i < length es" "length es < 2 ^ 32"
  shows "delete_probe es key (of_nat i) = (if me_key (es ! i) = key then Some (of_nat i) else delete_probe es key (of_nat (Suc i)))"
proof -
  have "unat (of_nat i :: u32) = i" using assms by (intro unat_of_nat_u32) simp
  then show ?thesis using assms by (simp add: delete_probe.simps [of es key "of_nat i"] add.commute)
qed

lemma delete_probe_defined:
  assumes "length es < 2 ^ 32" "i \<le> length es"
  shows "delete_probe es key (of_nat i) \<noteq> None \<longleftrightarrow> (\<exists>k. i \<le> k \<and> k < length es \<and> me_key (es ! k) = key)"
  using assms(2)
proof (induction rule: inc_induct)
  case base
  have "unat (of_nat (length es) :: u32) = length es" using assms(1) by (rule unat_of_nat_u32)
  then show ?case by (simp add: delete_probe.simps)
next
  case (step i)
  have "(\<exists>k. i \<le> k \<and> k < length es \<and> me_key (es ! k) = key) \<longleftrightarrow>
     me_key (es ! i) = key \<or> (\<exists>k. Suc i \<le> k \<and> k < length es \<and> me_key (es ! k) = key)"
    using step.hyps(2) by (metis le_eq_less_or_eq less_eq_Suc_le)
  then show ?case using step by (simp add: delete_probe_step [OF _ assms(1)])
qed

text \<open>C8: \<open>deleteMapElement\<close> stays inside the table exactly when a bucket at or behind the index of the
  key holds the key: an entry that was stored before its index, because the probe that stored it
  went around the end of the table, cannot be deleted.\<close>

theorem deleteMapElement_defined:
  assumes "map_inv n m"
  shows "deleteMapElement m key \<noteq> None \<longleftrightarrow>
    (\<exists>i. home key (hm_maxData m) \<le> i \<and> i < n \<and> me_key (hm_elements m ! i) = key)"
proof -
  have "getIndex key (hm_maxData m) = Some (of_nat (home key (hm_maxData m)))"
    using getIndex_home(1) [of "hm_maxData m" key] map_inv_size [OF assms] by simp
  then show ?thesis
    using delete_probe_defined [of "hm_elements m" "home key (hm_maxData m)" key] home_lt [OF assms, of key]
      map_inv_size [OF assms] by (auto simp: deleteMapElement_def bind_eq_None_conv)
qed

lemma deleteMapElement_defined_witness:
  "deleteMapElement \<lparr>hm_elements = [\<lparr>me_data = 0, me_key = 7\<rparr>, \<lparr>me_data = 0, me_key = 8\<rparr>], hm_maxData = 2\<rparr> 7 \<noteq> None \<longleftrightarrow>
    (\<exists>i. home 7 (hm_maxData \<lparr>hm_elements = [\<lparr>me_data = 0, me_key = 7\<rparr>, \<lparr>me_data = 0, me_key = 8\<rparr>], hm_maxData = 2\<rparr>) \<le> i \<and>
      i < 2 \<and> me_key (hm_elements \<lparr>hm_elements = [\<lparr>me_data = 0, me_key = 7\<rparr>, \<lparr>me_data = 0, me_key = 8\<rparr>], hm_maxData = 2\<rparr> ! i) = 7)"
  by (rule deleteMapElement_defined) (auto simp: map_inv_def used_def less_2_cases_iff)

text \<open>Deletion breaks the probe sequences: of two entries whose keys have the same index, the second
  is not found any more once the first is deleted, although it still is in the table.\<close>

theorem deleteMapElement_hides:
  "do { m \<leftarrow> createMap (replicate 4 \<lparr>me_data = 0, me_key = 0\<rparr>) 4;
        m \<leftarrow> setMapElement m 1 0x1000;
        m \<leftarrow> setMapElement m 6 0x2000;
        before \<leftarrow> getMapElement m 6;
        m \<leftarrow> deleteMapElement m 1;
        after \<leftarrow> getMapElement m 6;
        Some (before, after, map me_key (filter (\<lambda>e. me_data e = 0x2000) (hm_elements m))) } = Some (0x2000, 0, [6])"
  by code_simp

end
