(* ===== verification/Memory_Frames.thy ===== *)
theory Memory_Frames
  imports Pool_Alloc
begin

text \<open>
  What a write to memory leaves alone: \<open>agree_off W m m'\<close> says that \<open>m'\<close> is \<open>m\<close> but for the addresses
  in \<open>W\<close>.  The components whose objects lie in pools carry their invariants across writes with
  these lemmas.  \<open>memcpy\<close> is the one of the C library.
\<close>

text \<open>\<open>memcpy\<close> of the C library; it is not defined for overlapping pieces of memory.\<close>

definition memcpy :: "mem \<Rightarrow> addr \<Rightarrow> addr \<Rightarrow> nat \<Rightarrow> mem option" where
  "memcpy m dst src n =
     (if unat (dst - src) < n \<or> unat (src - dst) < n then None
      else do { bs \<leftarrow> load_bytes m src n; store_bytes m dst bs })"

subsection \<open>Pieces of memory\<close>

lemma extent_iff:
  assumes "unat a + n \<le> 2 ^ 32"
  shows "x \<in> extent a n \<longleftrightarrow> unat a \<le> unat x \<and> unat x < unat a + n"
proof
  assume "x \<in> extent a n"
  then obtain i where "i < n" "x = a + of_nat i" by (auto simp: extent_def)
  then show "unat a \<le> unat x \<and> unat x < unat a + n" using assms by (simp add: unat_add_of_nat)
next
  assume x: "unat a \<le> unat x \<and> unat x < unat a + n"
  then have "x = a + of_nat (unat x - unat a)" by (simp add: of_nat_diff word_le_nat_alt)
  then show "x \<in> extent a n" using x unfolding extent_def by (intro image_eqI [of _ _ "unat x - unat a"]) auto
qed

lemma extent_self: "0 < n \<Longrightarrow> a \<in> extent a n"
  unfolding extent_def by (intro image_eqI [of _ _ 0]) auto

lemma extent_diff: "unat (b - a) < n \<Longrightarrow> b \<in> extent a n"
  unfolding extent_def by (intro image_eqI [of _ _ "unat (b - a)"]) auto

lemma memcpy_ok:
  assumes "load_bytes m src n = Some bs" "extent dst n \<subseteq> dom m" "extent dst n \<inter> extent src n = {}" "0 < n"
  obtains m' where "memcpy m dst src n = Some m'" "store_bytes m dst bs = Some m'"
proof -
  have "\<not> unat (dst - src) < n" "\<not> unat (src - dst) < n"
    using assms(3) extent_diff extent_self [OF assms(4)] by blast+
  then show ?thesis
    using that store_bytes_defined [of dst bs m] assms(1,2) load_bytes_length [OF assms(1)] by (auto simp: memcpy_def)
qed

lemma block_extents_disjoint:
  assumes "block_area m buf bs n" "p \<in> set (blocks buf bs n)" "q \<in> set (blocks buf bs n)" "p \<noteq> q"
  shows "extent p (unat bs) \<inter> extent q (unat bs) = {}"
proof -
  obtain i j where ij: "i < n" "p = block_at buf bs i" "j < n" "q = block_at buf bs j"
    using assms(2,3) by (auto simp: set_blocks)
  have lim: "unat buf + n * unat bs < 2 ^ 32" using assms(1) unfolding block_area_def by blast
  have u: "unat (block_at buf bs k) = unat buf + k * unat bs" "k * unat bs + unat bs \<le> n * unat bs" if "k < n" for k
    using unat_block_at [OF assms(1), of k] mult_lt_bound [OF that] that by auto
  have sep: "k * unat bs + unat bs \<le> l * unat bs" if "k < l" for k l using mult_lt_bound [OF that] .
  have "x \<notin> extent q (unat bs)" if "x \<in> extent p (unat bs)" for x
    using that sep [of i j] sep [of j i] assms(4) ij u [OF ij(1)] u [OF ij(3)] lim
    by (cases "i < j"; cases "i = j") (auto simp: extent_iff)
  then show ?thesis by blast
qed

lemma block_limit:
  assumes "block_area m buf bs n" "p \<in> set (blocks buf bs n)"
  shows "unat p + unat bs \<le> 2 ^ 32" "extent p (unat bs) \<subseteq> dom m"
proof -
  obtain i where i: "i < n" "p = block_at buf bs i" using assms(2) by (auto simp: set_blocks)
  have "unat buf + n * unat bs < 2 ^ 32" using assms(1) unfolding block_area_def by blast
  then show "unat p + unat bs \<le> 2 ^ 32" using unat_block_at [OF assms(1), of i] mult_lt_bound [OF i(1), of "unat bs"] i by simp
  show "extent p (unat bs) \<subseteq> dom m" using block_at_span [OF assms(1) i(1)] i(2) by simp
qed

text \<open>Accesses to memory that was not written.\<close>

definition agree_off :: "addr set \<Rightarrow> mem \<Rightarrow> mem \<Rightarrow> bool" where
  "agree_off W m m' \<longleftrightarrow> dom m' = dom m \<and> (\<forall>x. x \<notin> W \<longrightarrow> m' x = m x)"

lemma agree_load32: "agree_off W m m' \<Longrightarrow> extent a 4 \<inter> W = {} \<Longrightarrow> load32 m' a = load32 m a"
  by (rule load32_frame) (auto simp: agree_off_def)

lemma agree_load_bytes: "agree_off W m m' \<Longrightarrow> extent a n \<inter> W = {} \<Longrightarrow> load_bytes m' a n = load_bytes m a n"
  by (rule load_bytes_frame) (auto simp: agree_off_def)

lemma agree_refl: "agree_off {} m m"
  by (simp add: agree_off_def)

lemma agree_store32: "agree_off W m m' \<Longrightarrow> store32 m' a v = Some m'' \<Longrightarrow> agree_off (W \<union> extent a 4) m m''"
  using store32_frame [of m' a v m''] store32_dom [of m' a v m''] by (auto simp: agree_off_def)

lemma agree_store_bytes:
  "agree_off W m m' \<Longrightarrow> store_bytes m' a bs = Some m'' \<Longrightarrow> agree_off (W \<union> extent a (length bs)) m m''"
  using store_bytes_frame [of m' a bs m''] store_bytes_dom [of m' a bs m''] by (auto simp: agree_off_def)

lemma agree_mono: "agree_off W m m' \<Longrightarrow> W \<subseteq> W' \<Longrightarrow> agree_off W' m m'"
  by (auto simp: agree_off_def)

lemma agree_pool:
  assumes "agree_off W m m'" "pool_inv (m, pa) ps" "\<And>p. p \<in> set ps \<Longrightarrow> extent p 4 \<inter> W = {}"
  shows "pool_inv (m', pa) ps"
proof -
  have "path load32 m' (pa_nextFreeBlock pa) ps NULL = path load32 m (pa_nextFreeBlock pa) ps NULL"
    using agree_load32 [OF assms(1)] assms(3) by (intro path_cong) blast
  then show ?thesis using assms(1,2) by (simp add: pool_inv.simps block_area_def agree_off_def chain_def)
qed

subsection \<open>Pools across writes\<close>

lemma chain_cong: "(\<And>a. a \<in> set as \<Longrightarrow> ld' m' a = ld m a) \<Longrightarrow> chain ld' m' p as = chain ld m p as"
  by (induction as arbitrary: p) auto

lemma poolAllocate_head:
  assumes "pool_inv (m, pa) (p # ps)"
  obtains nx where "poolAllocate (m, pa) = Some ((m, pa\<lparr>pa_nextFreeBlock := nx\<rparr>), p)"
    "pool_inv (m, pa\<lparr>pa_nextFreeBlock := nx\<rparr>) ps" "p \<noteq> NULL"
  using assms that by (auto simp: pool_inv.simps pool_blocks_def)

lemma store32_ex: "extent a 4 \<subseteq> dom m \<Longrightarrow> \<exists>m'. store32 m a v = Some m'"
  using store32_defined by blast

lemma poolFree_block:
  assumes "pool_inv (m, pa) ps" "p \<in> set (pool_blocks pa)" "p \<notin> set ps"
  obtains m' where "poolFree (m, pa) p = Some (m', pa\<lparr>pa_nextFreeBlock := p\<rparr>)"
    "store32 m p (pa_nextFreeBlock pa) = Some m'" "pool_inv (m', pa\<lparr>pa_nextFreeBlock := p\<rparr>) (p # ps)"
  using pool_free_block [OF assms] that by (auto elim!: bind_SomeE)

lemma disj_sub: "X \<subseteq> Y \<Longrightarrow> Y \<inter> Z = {} \<Longrightarrow> X \<inter> Z = {}"
  by blast

lemma blocks_inside:
  assumes "block_area m buf bs n" "p \<in> set (blocks buf bs n)"
  shows "extent p (unat bs) \<subseteq> extent buf (n * unat bs)"
proof -
  obtain i where i: "i < n" "p = block_at buf bs i" using assms(2) by (auto simp: set_blocks)
  have "extent buf (i * unat bs + unat bs) \<subseteq> extent buf (n * unat bs)" using mult_lt_bound [OF i(1)] by (rule extent_mono)
  then show ?thesis by (simp add: extent_add i(2) block_at_def)
qed

lemma poolAllocate_empty: "pool_inv (m, pa) [] \<Longrightarrow> poolAllocate (m, pa) = Some ((m, pa), NULL)"
  using pool.alloc_empty [of "(m, pa)"] by simp

lemma init_links_dom: "init_links m p bs k = Some (m', q) \<Longrightarrow> dom m' = dom m"
  by (induction m p bs k rule: init_links.induct) (auto elim!: bind_SomeE simp del: store_bytes.simps del: equalityI dest: store32_dom)

lemma createPool_dom: "createPoolAllocator m b bs s = Some (m', pa) \<Longrightarrow> dom m' = dom m"
  by (auto simp: createPoolAllocator_def split: if_splits elim!: bind_SomeE simp del: store_bytes.simps del: equalityI dest!: init_links_dom store32_dom)

end
