(* ===== verification/Fifo_Queue.thy ===== *)
theory Fifo_Queue
  imports Memory_Frames
begin

text \<open>
  The queue of driver/fifo.c, which the flip queue of modeset.c uses: a doubly linked list of
  \<open>FifoElem\<close> blocks from one pool, each of which points to a data block of a second pool.  New
  elements go in at \<open>first\<close>, \<open>fifoRemove\<close> takes the one at \<open>last\<close>.  The locale \<open>bounded_queue\<close> is
  what a client relies on.
\<close>

subsection \<open>The code\<close>

text \<open>A \<open>FifoElem\<close> holds \<open>next\<close>, \<open>prev\<close> and \<open>data\<close>, four bytes each.\<close>

definition FifoElem_prev :: "addr \<Rightarrow> addr" where
  "FifoElem_prev p = p + 4"

definition FifoElem_data :: "addr \<Rightarrow> addr" where
  "FifoElem_data p = p + 8"

record Fifo =
  f_first :: addr
  f_last :: addr
  f_dataBuf :: PoolAllocator
  f_fifoElemBuf :: PoolAllocator
  f_dataSize :: u32
  f_maxElems :: u32

definition createFifo :: "mem \<Rightarrow> addr \<Rightarrow> addr \<Rightarrow> u32 \<Rightarrow> u32 \<Rightarrow> (mem \<times> Fifo) option" where
  "createFifo m dataMem fifoElemMem maxElems dataSize = do {
     (m, dataBuf) \<leftarrow> createPoolAllocator m dataMem dataSize (maxElems * dataSize);
     (m, fifoElemBuf) \<leftarrow> createPoolAllocator m fifoElemMem 12 (maxElems * 12);
     Some (m, \<lparr>f_first = NULL, f_last = NULL, f_dataBuf = dataBuf, f_fifoElemBuf = fifoElemBuf,
       f_dataSize = dataSize, f_maxElems = maxElems\<rparr>) }"

definition destroyFifo :: "Fifo \<Rightarrow> Fifo" where
  "destroyFifo f = f\<lparr>f_first := NULL, f_last := NULL, f_dataBuf := destroyPoolAllocator (f_dataBuf f),
     f_fifoElemBuf := destroyPoolAllocator (f_fifoElemBuf f)\<rparr>"

text \<open>The blocks are used before they are tested for null.\<close>

definition fifoAdd :: "mem \<times> Fifo \<Rightarrow> addr \<Rightarrow> ((mem \<times> Fifo) \<times> u32) option" where
  "fifoAdd s data = do {
     let (m, f) = s;
     ((m, dataBuf), dataPtr) \<leftarrow> poolAllocate (m, f_dataBuf f);
     ((m, elemBuf), elemPtr) \<leftarrow> poolAllocate (m, f_fifoElemBuf f);
     let f = f\<lparr>f_dataBuf := dataBuf, f_fifoElemBuf := elemBuf\<rparr>;
     m \<leftarrow> memcpy m dataPtr data (unat (f_dataSize f));
     m \<leftarrow> store32 m (FifoElem_data elemPtr) dataPtr;
     if dataPtr = NULL \<or> elemPtr = NULL then Some ((m, f), 0)
     else if f_first f = NULL then do {
       m \<leftarrow> store32 m (FifoElem_prev elemPtr) 0;
       m \<leftarrow> store32 m elemPtr 0;
       Some ((m, f\<lparr>f_first := elemPtr, f_last := elemPtr\<rparr>), 1) }
     else do {
       let tmpFirst = f_first f;
       m \<leftarrow> store32 m elemPtr tmpFirst;
       m \<leftarrow> store32 m (FifoElem_prev elemPtr) 0;
       m \<leftarrow> store32 m (FifoElem_prev tmpFirst) elemPtr;
       Some ((m, f\<lparr>f_first := elemPtr\<rparr>), 1) } }"

definition fifoGetLast :: "mem \<times> Fifo \<Rightarrow> addr option" where
  "fifoGetLast s = (if f_last (snd s) \<noteq> NULL then load32 (fst s) (FifoElem_data (f_last (snd s))) else Some NULL)"

definition fifoGetFirst :: "mem \<times> Fifo \<Rightarrow> addr option" where
  "fifoGetFirst s = (if f_first (snd s) \<noteq> NULL then load32 (fst s) (FifoElem_data (f_first (snd s))) else Some NULL)"

definition fifoRemove :: "mem \<times> Fifo \<Rightarrow> addr \<Rightarrow> ((mem \<times> Fifo) \<times> u32) option" where
  "fifoRemove s data = (let (m, f) = s in
     if f_last f = NULL then Some ((m, f), 0)
     else do {
       d \<leftarrow> load32 m (FifoElem_data (f_last f));
       m \<leftarrow> memcpy m data d (unat (f_dataSize f));
       let tmp = f_last f;
       prev \<leftarrow> load32 m (FifoElem_prev tmp);
       let f = f\<lparr>f_last := prev\<rparr>;
       (m, f) \<leftarrow> (if prev \<noteq> NULL then do { m \<leftarrow> store32 m prev 0; Some (m, f) }
         else Some (m, f\<lparr>f_first := NULL\<rparr>));
       d \<leftarrow> load32 m (FifoElem_data tmp);
       (m, dataBuf) \<leftarrow> poolFree (m, f_dataBuf f) d;
       (m, elemBuf) \<leftarrow> poolFree (m, f_fifoElemBuf f) tmp;
       Some ((m, f\<lparr>f_dataBuf := dataBuf, f_fifoElemBuf := elemBuf\<rparr>), 1) })"

subsection \<open>The contract of a queue\<close>

text \<open>\<open>inv s xs\<close>: the state holds the elements \<open>xs\<close>, oldest first.\<close>

locale bounded_queue =
  fixes inv :: "'s \<Rightarrow> 'x list \<Rightarrow> bool"
    and cap :: nat
    and elem :: "'x \<Rightarrow> bool"
    and push :: "'s \<Rightarrow> 'x \<Rightarrow> ('s \<times> u32) option"
    and pop :: "'s \<Rightarrow> ('s \<times> 'x option) option"
  assumes push_room: "inv s xs \<Longrightarrow> length xs < cap \<Longrightarrow> elem x \<Longrightarrow> \<exists>s'. push s x = Some (s', 1) \<and> inv s' (xs @ [x])"
    and pop_some: "inv s (x # xs) \<Longrightarrow> \<exists>s'. pop s = Some (s', Some x) \<and> inv s' xs"
    and pop_empty: "inv s [] \<Longrightarrow> \<exists>s'. pop s = Some (s', None) \<and> inv s' []"

datatype 'x queue_op = Push 'x | Pop

text \<open>The run of a client, with the results of its removals; and the same on a list.\<close>

fun run_queue :: "('s \<Rightarrow> 'x \<Rightarrow> ('s \<times> u32) option) \<Rightarrow> ('s \<Rightarrow> ('s \<times> 'x option) option) \<Rightarrow> 's \<Rightarrow> 'x queue_op list \<Rightarrow>
    ('s \<times> 'x option list) option" where
  "run_queue push pop s [] = Some (s, [])"
| "run_queue push pop s (Push x # ops) = do { (s', r) \<leftarrow> push s x; run_queue push pop s' ops }"
| "run_queue push pop s (Pop # ops) = do {
     (s', y) \<leftarrow> pop s; (s'', ys) \<leftarrow> run_queue push pop s' ops; Some (s'', y # ys) }"

fun list_queue :: "nat \<Rightarrow> 'x list \<Rightarrow> 'x queue_op list \<Rightarrow> ('x list \<times> 'x option list) option" where
  "list_queue cap xs [] = Some (xs, [])"
| "list_queue cap xs (Push x # ops) = (if length xs < cap then list_queue cap (xs @ [x]) ops else None)"
| "list_queue cap [] (Pop # ops) = do { (xs, ys) \<leftarrow> list_queue cap [] ops; Some (xs, None # ys) }"
| "list_queue cap (x # xs) (Pop # ops) = do { (xs, ys) \<leftarrow> list_queue cap xs ops; Some (xs, Some x # ys) }"

context bounded_queue
begin

lemma run_queue_refines:
  assumes "inv s xs" "list_queue cap xs ops = Some (xs', ys)" "\<forall>x. Push x \<in> set ops \<longrightarrow> elem x"
  shows "\<exists>s'. run_queue push pop s ops = Some (s', ys) \<and> inv s' xs'"
  using assms
proof (induction ops arbitrary: s xs ys)
  case (Cons op ops)
  have el: "\<forall>x. Push x \<in> set ops \<longrightarrow> elem x" using Cons.prems(3) by simp
  show ?case
  proof (cases op)
    case (Push x)
    then obtain s' where s': "push s x = Some (s', 1)" "inv s' (xs @ [x])"
      using push_room [OF Cons.prems(1), of x] Cons.prems(2,3) by (auto split: if_splits)
    show ?thesis using Cons.IH [OF s'(2) _ el] Cons.prems(2) s'(1) Push by (auto split: if_splits)
  next
    case Pop
    show ?thesis
    proof (cases xs)
      case Nil
      obtain s' where s': "pop s = Some (s', None)" "inv s' []" using pop_empty Cons.prems(1) Nil by blast
      obtain ys0 where y: "list_queue cap [] ops = Some (xs', ys0)" "ys = None # ys0"
        using Cons.prems(2) Pop Nil by (auto simp: bind_Some_iff)
      show ?thesis using Cons.IH [OF s'(2) y(1) el] s'(1) y(2) Pop by auto
    next
      case xs: (Cons x xs1)
      obtain s' where s': "pop s = Some (s', Some x)" "inv s' xs1" using pop_some Cons.prems(1) xs by blast
      obtain ys0 where y: "list_queue cap xs1 ops = Some (xs', ys0)" "ys = Some x # ys0"
        using Cons.prems(2) Pop xs by (auto simp: bind_Some_iff)
      show ?thesis using Cons.IH [OF s'(2) y(1) el] s'(1) y(2) Pop by auto
    qed
  qed
qed simp

end

lemma cells_of_12:
  assumes "unat (e :: addr) + 12 \<le> 2 ^ 32"
  shows "extent e 4 \<subseteq> extent e 12" "extent (e + 4) 4 \<subseteq> extent e 12" "extent (e + 8) 4 \<subseteq> extent e 12"
    "extent e 12 = extent e 4 \<union> extent (e + 4) 4 \<union> extent (e + 8) 4"
    "apart e (e + 4)" "apart e (e + 8)" "apart (e + 4) (e + 8)"
proof -
  have "extent e (4 + (4 + 4)) = extent e 4 \<union> (extent (e + 4) 4 \<union> extent (e + 4 + 4) 4)"
    unfolding extent_add by simp
  then show all: "extent e 12 = extent e 4 \<union> extent (e + 4) 4 \<union> extent (e + 8) 4"
    by (simp add: add.assoc Un_assoc)
  then show "extent e 4 \<subseteq> extent e 12" "extent (e + 4) 4 \<subseteq> extent e 12" "extent (e + 8) 4 \<subseteq> extent e 12" by blast+
  show "apart e (e + 4)" "apart e (e + 8)" "apart (e + 4) (e + 8)"
    using apart_distance [of e 0 4] apart_distance [of e 0 8] apart_distance [of e 4 8] assms by simp_all
qed

subsection \<open>The state of a queue\<close>

text \<open>
  \<open>es\<close> and \<open>ds\<close>: the elements from first to last and their data blocks; \<open>fe\<close> and \<open>fd\<close>: the free
  blocks of the two pools.
\<close>

definition fifo_links :: "mem \<Rightarrow> Fifo \<Rightarrow> addr list \<Rightarrow> addr list \<Rightarrow> bool" where
  "fifo_links m f es ds \<longleftrightarrow> chain load32 m (f_first f) es \<and>
     chain (\<lambda>m p. load32 m (FifoElem_prev p)) m (f_last f) (rev es) \<and>
     list_all2 (\<lambda>e d. load32 m (FifoElem_data e) = Some d) es ds"

definition fifo_blocks :: "Fifo \<Rightarrow> bool" where
  "fifo_blocks f \<longleftrightarrow> pa_blockSize (f_dataBuf f) = f_dataSize f \<and> pa_blockSize (f_fifoElemBuf f) = 12 \<and>
     length (pool_blocks (f_dataBuf f)) = unat (f_maxElems f) \<and>
     length (pool_blocks (f_fifoElemBuf f)) = unat (f_maxElems f) \<and>
     (\<forall>d\<in>set (pool_blocks (f_dataBuf f)). \<forall>e\<in>set (pool_blocks (f_fifoElemBuf f)).
        extent d (unat (f_dataSize f)) \<inter> extent e 12 = {})"

definition fifo_state :: "mem \<Rightarrow> Fifo \<Rightarrow> addr list \<Rightarrow> addr list \<Rightarrow> addr list \<Rightarrow> addr list \<Rightarrow> bool" where
  "fifo_state m f es ds fe fd \<longleftrightarrow> fifo_blocks f \<and> fifo_links m f es ds \<and>
     pool_inv (m, f_fifoElemBuf f) fe \<and> pool_inv (m, f_dataBuf f) fd \<and>
     distinct (es @ fe) \<and> set (es @ fe) = set (pool_blocks (f_fifoElemBuf f)) \<and>
     distinct (ds @ fd) \<and> set (ds @ fd) = set (pool_blocks (f_dataBuf f))"

text \<open>The contents of a queue, newest first, and the memory that it uses.\<close>

definition fifo_inv :: "mem \<times> Fifo \<Rightarrow> u8 list list \<Rightarrow> bool" where
  "fifo_inv s xs \<longleftrightarrow> (\<exists>es ds fe fd. fifo_state (fst s) (snd s) es ds fe fd \<and>
     map (\<lambda>d. load_bytes (fst s) d (unat (f_dataSize (snd s)))) ds = map Some xs)"

definition fifo_area :: "Fifo \<Rightarrow> addr set" where
  "fifo_area f = (\<Union>d\<in>set (pool_blocks (f_dataBuf f)). extent d (unat (f_dataSize f))) \<union>
     (\<Union>e\<in>set (pool_blocks (f_fifoElemBuf f)). extent e 12)"

lemma fifo_elem:
  assumes "fifo_state m f es ds fe fd" "e \<in> set (es @ fe)"
  shows "e \<noteq> NULL" "unat e + 12 \<le> 2 ^ 32" "extent e 12 \<subseteq> dom m" "extent e 12 \<subseteq> fifo_area f"
    "e' \<in> set (es @ fe) \<Longrightarrow> e \<noteq> e' \<Longrightarrow> extent e 12 \<inter> extent e' 12 = {}"
    "d \<in> set (ds @ fd) \<Longrightarrow> extent e 12 \<inter> extent d (unat (f_dataSize f)) = {}"
proof -
  let ?n = "unat (pa_size (f_fifoElemBuf f)) div unat (pa_blockSize (f_fifoElemBuf f))"
  have bs: "pa_blockSize (f_fifoElemBuf f) = 12" using assms(1) by (simp add: fifo_state_def fifo_blocks_def)
  have area: "block_area m (pa_buf (f_fifoElemBuf f)) 12 ?n"
    using assms(1) bs by (simp add: fifo_state_def pool_inv.simps)
  have S: "set (es @ fe) = set (pool_blocks (f_fifoElemBuf f))" using assms(1) unfolding fifo_state_def by blast
  have mem: "x \<in> set (blocks (pa_buf (f_fifoElemBuf f)) 12 ?n)" if "x \<in> set (es @ fe)" for x
    using that bs unfolding S by (simp add: pool_blocks_def)
  show "e \<noteq> NULL" using block_nonnull [OF area mem] assms(2) .
  show "unat e + 12 \<le> 2 ^ 32" "extent e 12 \<subseteq> dom m" using block_limit [OF area mem [OF assms(2)]] by simp_all
  show "extent e 12 \<subseteq> fifo_area f" using assms by (auto simp: fifo_area_def fifo_state_def)
  show "extent e 12 \<inter> extent e' 12 = {}" if "e' \<in> set (es @ fe)" "e \<noteq> e'"
    using block_extents_disjoint [OF area mem [OF assms(2)] mem [OF that(1)] that(2)] by simp
  show "extent e 12 \<inter> extent d (unat (f_dataSize f)) = {}" if "d \<in> set (ds @ fd)"
    using that assms unfolding fifo_state_def fifo_blocks_def by blast
qed

lemma fifo_data:
  assumes "fifo_state m f es ds fe fd" "d \<in> set (ds @ fd)"
  shows "d \<noteq> NULL" "extent d (unat (f_dataSize f)) \<subseteq> dom m" "extent d (unat (f_dataSize f)) \<subseteq> fifo_area f"
    "4 \<le> unat (f_dataSize f)" "extent d 4 \<subseteq> extent d (unat (f_dataSize f))"
    "d' \<in> set (ds @ fd) \<Longrightarrow> d \<noteq> d' \<Longrightarrow> extent d (unat (f_dataSize f)) \<inter> extent d' (unat (f_dataSize f)) = {}"
proof -
  let ?n = "unat (pa_size (f_dataBuf f)) div unat (pa_blockSize (f_dataBuf f))"
  have bs: "pa_blockSize (f_dataBuf f) = f_dataSize f" using assms(1) by (simp add: fifo_state_def fifo_blocks_def)
  have area: "block_area m (pa_buf (f_dataBuf f)) (f_dataSize f) ?n"
    using assms(1) bs by (simp add: fifo_state_def pool_inv.simps)
  have S: "set (ds @ fd) = set (pool_blocks (f_dataBuf f))" using assms(1) unfolding fifo_state_def by blast
  have mem: "x \<in> set (blocks (pa_buf (f_dataBuf f)) (f_dataSize f) ?n)" if "x \<in> set (ds @ fd)" for x
    using that bs unfolding S by (simp add: pool_blocks_def)
  show "d \<noteq> NULL" using block_nonnull [OF area mem] assms(2) .
  show "extent d (unat (f_dataSize f)) \<subseteq> dom m" using block_limit [OF area mem [OF assms(2)]] by simp
  show "extent d (unat (f_dataSize f)) \<subseteq> fifo_area f" using assms by (auto simp: fifo_area_def fifo_state_def)
  show z: "4 \<le> unat (f_dataSize f)" using block_area_pos [OF area] .
  show "extent d 4 \<subseteq> extent d (unat (f_dataSize f))" using z by (rule extent_mono)
  show "extent d (unat (f_dataSize f)) \<inter> extent d' (unat (f_dataSize f)) = {}" if "d' \<in> set (ds @ fd)" "d \<noteq> d'"
    using block_extents_disjoint [OF area mem [OF assms(2)] mem [OF that(1)] that(2)] by simp
qed

text \<open>The cells of the elements are apart from each other.\<close>

lemma fifo_cells:
  assumes "fifo_state m f es ds fe fd" "e \<in> set (es @ fe)"
  shows "extent e 4 \<subseteq> extent e 12" "extent (FifoElem_prev e) 4 \<subseteq> extent e 12" "extent (FifoElem_data e) 4 \<subseteq> extent e 12"
    "extent e 4 \<inter> extent (FifoElem_prev e) 4 = {}" "extent e 4 \<inter> extent (FifoElem_data e) 4 = {}"
    "extent (FifoElem_prev e) 4 \<inter> extent (FifoElem_data e) 4 = {}"
    "extent e 12 = extent e 4 \<union> extent (FifoElem_prev e) 4 \<union> extent (FifoElem_data e) 4"
  using cells_of_12 [OF fifo_elem(2) [OF assms]] by (simp_all add: FifoElem_prev_def FifoElem_data_def apart_def)

lemma fifo_held:
  assumes "fifo_state m f es ds fe fd"
  shows "length es = length ds" "length es \<le> unat (f_maxElems f)"
    "length fe = unat (f_maxElems f) - length es" "length fd = unat (f_maxElems f) - length ds"
proof -
  have E: "distinct (es @ fe)" "set (es @ fe) = set (pool_blocks (f_fifoElemBuf f))"
    and D: "distinct (ds @ fd)" "set (ds @ fd) = set (pool_blocks (f_dataBuf f))"
    and n: "length (pool_blocks (f_dataBuf f)) = unat (f_maxElems f)" "length (pool_blocks (f_fifoElemBuf f)) = unat (f_maxElems f)"
    and pools: "pool_inv (m, f_fifoElemBuf f) fe" "pool_inv (m, f_dataBuf f) fd"
    using assms unfolding fifo_state_def fifo_blocks_def by blast+
  show "length es = length ds" using assms by (auto simp: fifo_state_def fifo_links_def dest: list_all2_lengthD)
  have dist: "distinct (pool_blocks (f_fifoElemBuf f))" "distinct (pool_blocks (f_dataBuf f))"
    using pools distinct_blocks unfolding pool_blocks_def pool_inv.simps by blast+
  have "length es + length fe = unat (f_maxElems f)" "length ds + length fd = unat (f_maxElems f)"
    using E D n dist by (metis distinct_card length_append)+
  then show "length es \<le> unat (f_maxElems f)" "length fe = unat (f_maxElems f) - length es"
    "length fd = unat (f_maxElems f) - length ds" by simp_all
qed

end
