(* ===== verification/Fifo_Refine.thy ===== *)
theory Fifo_Refine
  imports Fifo_Queue
begin

text \<open>
  The queue of driver/fifo.c refines a bounded list: \<open>fifoAdd\<close> puts a free block in front of the list
  of elements, \<open>fifoRemove\<close> takes the last one, and neither touches any other memory.  The contract
  of the queue is interpreted on the code, and the behaviour of a client follows from it.
\<close>

subsection \<open>Adding an element\<close>

text \<open>The memory that \<open>fifoAdd\<close> writes.\<close>

definition add_area :: "Fifo \<Rightarrow> addr list \<Rightarrow> addr \<Rightarrow> addr \<Rightarrow> addr set" where
  "add_area f es p d = extent d (unat (f_dataSize f)) \<union> extent p 12 \<union>
     (case es of [] \<Rightarrow> {} | q # _ \<Rightarrow> extent (FifoElem_prev q) 4)"

lemma add_area_cells:
  assumes st: "fifo_state m f es ds (p # fe) (d # fd)" and e: "e \<in> set es"
  shows "extent e 4 \<inter> add_area f es p d = {}" "extent (FifoElem_data e) 4 \<inter> add_area f es p d = {}"
    "e \<noteq> hd es \<Longrightarrow> extent (FifoElem_prev e) 4 \<inter> add_area f es p d = {}"
proof -
  have e': "e \<in> set (es @ p # fe)" "p \<in> set (es @ p # fe)" "e \<noteq> p" using st e by (auto simp: fifo_state_def)
  note cells = fifo_cells [OF st e'(1)]
  have "extent e 12 \<inter> extent p 12 = {}" "extent e 12 \<inter> extent d (unat (f_dataSize f)) = {}"
    using fifo_elem(5) [OF st e'(1,2,3)] fifo_elem(6) [OF st e'(1), of d] by simp_all
  moreover have "extent e 12 \<inter> extent (FifoElem_prev q) 4 = {}" if "q \<in> set es" "e \<noteq> q" for q
    using that fifo_elem(5) [OF st e'(1), of q] fifo_cells(2) [OF st, of q] by auto
  ultimately show "extent e 4 \<inter> add_area f es p d = {}" "extent (FifoElem_data e) 4 \<inter> add_area f es p d = {}"
    "e \<noteq> hd es \<Longrightarrow> extent (FifoElem_prev e) 4 \<inter> add_area f es p d = {}"
    using cells unfolding add_area_def by (cases es; cases "e = hd es"; auto)+
qed

lemma add_area_free:
  assumes st: "fifo_state m f es ds (p # fe) (d # fd)"
  shows "e \<in> set fe \<Longrightarrow> extent e 4 \<inter> add_area f es p d = {}"
    "c \<in> set fd \<Longrightarrow> extent c 4 \<inter> add_area f es p d = {}"
    "c \<in> set ds \<Longrightarrow> extent c (unat (f_dataSize f)) \<inter> add_area f es p d = {}"
proof -
  have q: "extent (FifoElem_prev q) 4 \<subseteq> extent q 12" if "q \<in> set es" for q using fifo_cells(2) [OF st] that by simp
  have dst: "distinct (es @ p # fe)" "distinct (ds @ d # fd)" using st unfolding fifo_state_def by blast+
  show "extent e 4 \<inter> add_area f es p d = {}" if e: "e \<in> set fe"
  proof -
    have e': "e \<in> set (es @ p # fe)" using e by simp
    have "extent e 12 \<inter> extent p 12 = {}" "extent e 12 \<inter> extent d (unat (f_dataSize f)) = {}"
      using fifo_elem(5) [OF st e', of p] fifo_elem(6) [OF st e', of d] dst(1) e by auto
    moreover have "extent e 12 \<inter> extent (FifoElem_prev q) 4 = {}" if "q \<in> set es" for q
      using that fifo_elem(5) [OF st e', of q] q [OF that] dst(1) e by auto
    ultimately show ?thesis using fifo_cells(1) [OF st e'] unfolding add_area_def by (cases es) fastforce+
  qed
  have data: "extent c (unat (f_dataSize f)) \<inter> add_area f es p d = {}" if c: "c \<in> set (ds @ d # fd)" "c \<noteq> d" for c
  proof -
    have "extent c (unat (f_dataSize f)) \<inter> extent e 12 = {}" if "e \<in> set (es @ p # fe)" for e
      using fifo_elem(6) [OF st that c(1)] by blast
    moreover have "extent c (unat (f_dataSize f)) \<inter> extent d (unat (f_dataSize f)) = {}"
      using fifo_data(6) [OF st c(1), of d] c(2) by simp
    ultimately show ?thesis using q unfolding add_area_def by (cases es) fastforce+
  qed
  show "extent c (unat (f_dataSize f)) \<inter> add_area f es p d = {}" if "c \<in> set ds"
    using data [of c] that dst(2) by auto
  show "extent c 4 \<inter> add_area f es p d = {}" if "c \<in> set fd"
    using data [of c] that dst(2) fifo_data(5) [OF st, of c] by fastforce
qed

lemma links_add:
  assumes st: "fifo_state m f es ds (p # fe) (d # fd)" and ag: "agree_off (add_area f es p d) m m'"
    and new: "load32 m' p = Some (f_first f)" "load32 m' (FifoElem_prev p) = Some 0" "load32 m' (FifoElem_data p) = Some d"
    and prev: "es \<noteq> [] \<Longrightarrow> load32 m' (FifoElem_prev (hd es)) = Some p"
    and f': "f_first f' = p" "f_last f' = (if es = [] then p else f_last f)"
  shows "fifo_links m' f' (p # es) (d # ds)"
proof -
  have p: "p \<noteq> NULL" using fifo_elem(1) [OF st, of p] by simp
  have L: "chain load32 m (f_first f) es" "chain (\<lambda>m p. load32 m (FifoElem_prev p)) m (f_last f) (rev es)"
    "list_all2 (\<lambda>e d. load32 m (FifoElem_data e) = Some d) es ds"
    using st by (simp_all add: fifo_state_def fifo_links_def)
  note off = add_area_cells [OF st]
  have "chain load32 m' (f_first f) es = chain load32 m (f_first f) es"
    using agree_load32 [OF ag] off(1) by (intro chain_cong) blast
  then have 1: "chain load32 m' (f_first f') (p # es)" using L(1) new(1) f'(1) p by simp
  have 2: "chain (\<lambda>m p. load32 m (FifoElem_prev p)) m' (f_last f') (rev (p # es))"
  proof (cases es)
    case Nil
    then show ?thesis using f'(2) new(2) p by simp
  next
    case (Cons q es0)
    have "path (\<lambda>m p. load32 m (FifoElem_prev p)) m (f_last f) (rev es0) q" "q \<noteq> NULL"
      using L(2) Cons by (auto simp: chain_append)
    moreover have "path (\<lambda>m p. load32 m (FifoElem_prev p)) m' (f_last f) (rev es0) q =
        path (\<lambda>m p. load32 m (FifoElem_prev p)) m (f_last f) (rev es0) q"
    proof (rule path_cong)
      fix a assume "a \<in> set (rev es0)"
      then have "a \<in> set es" "a \<noteq> hd es" using Cons st by (auto simp: fifo_state_def)
      then show "load32 m' (FifoElem_prev a) = load32 m (FifoElem_prev a)" using agree_load32 [OF ag] off(3) by blast
    qed
    ultimately show ?thesis using prev new(2) p f'(2) Cons by (simp add: chain_append)
  qed
  have "load32 m' (FifoElem_data e) = load32 m (FifoElem_data e)" if "e \<in> set es" for e
    using agree_load32 [OF ag] off(2) that by blast
  then have "list_all2 (\<lambda>e d. load32 m' (FifoElem_data e) = Some d) es ds"
    using L(3) by (auto simp: list_all2_conv_all_nth)
  then show ?thesis using 1 2 new(3) by (simp add: fifo_links_def)
qed

lemma fifo_cell_apart:
  assumes "fifo_state m f es ds fe fd" "e \<in> set (es @ fe)"
  shows "apart e (FifoElem_prev e)" "apart e (FifoElem_data e)" "apart (FifoElem_prev e) (FifoElem_data e)"
    "apart (FifoElem_prev e) e"
  using fifo_cells(4-6) [OF assms] by (auto simp: apart_def)

lemma fifoAdd_state:
  assumes st: "fifo_state m f es ds (p # fe) (d # fd)" and src: "load_bytes m data (unat (f_dataSize f)) = Some bs"
    and apart: "extent data (unat (f_dataSize f)) \<inter> fifo_area f = {}"
  shows "\<exists>m' f'. fifoAdd (m, f) data = Some ((m', f'), 1) \<and> fifo_state m' f' (p # es) (d # ds) fe fd \<and>
    load_bytes m' d (unat (f_dataSize f)) = Some bs \<and> agree_off (add_area f es p d) m m' \<and>
    f_dataSize f' = f_dataSize f \<and> f_maxElems f' = f_maxElems f \<and> fifo_area f' = fifo_area f"
proof -
  let ?z = "unat (f_dataSize f)"
  have pools: "pool_inv (m, f_fifoElemBuf f) (p # fe)" "pool_inv (m, f_dataBuf f) (d # fd)"
    using st by (simp_all add: fifo_state_def)
  obtain nd where nd: "poolAllocate (m, f_dataBuf f) = Some ((m, (f_dataBuf f)\<lparr>pa_nextFreeBlock := nd\<rparr>), d)"
    "pool_inv (m, (f_dataBuf f)\<lparr>pa_nextFreeBlock := nd\<rparr>) fd" "d \<noteq> NULL" using poolAllocate_head [OF pools(2)] .
  obtain ne where ne: "poolAllocate (m, f_fifoElemBuf f) = Some ((m, (f_fifoElemBuf f)\<lparr>pa_nextFreeBlock := ne\<rparr>), p)"
    "pool_inv (m, (f_fifoElemBuf f)\<lparr>pa_nextFreeBlock := ne\<rparr>) fe" "p \<noteq> NULL" using poolAllocate_head [OF pools(1)] .
  define f1 where "f1 = f\<lparr>f_dataBuf := (f_dataBuf f)\<lparr>pa_nextFreeBlock := nd\<rparr>, f_fifoElemBuf := (f_fifoElemBuf f)\<lparr>pa_nextFreeBlock := ne\<rparr>\<rparr>"
  have d: "extent d ?z \<subseteq> dom m" "extent d ?z \<subseteq> fifo_area f" "4 \<le> ?z" using fifo_data [OF st, of d] by simp_all
  have pin: "p \<in> set (es @ p # fe)" by simp
  note pc = fifo_cells [OF st pin] and pe = fifo_elem [OF st pin]
  obtain m1 where m1: "memcpy m d data ?z = Some m1" "store_bytes m d bs = Some m1"
    using memcpy_ok [OF src d(1)] apart d(2,3) by auto
  have len: "length bs = ?z" using load_bytes_length [OF src] .
  have a1: "agree_off (extent d ?z) m m1" using agree_store_bytes [OF agree_refl m1(2)] len by simp
  have cells: "extent p 4 \<subseteq> dom m'" "extent (FifoElem_prev p) 4 \<subseteq> dom m'" "extent (FifoElem_data p) 4 \<subseteq> dom m'"
    if "agree_off W m m'" for m' W using that pc(1-3) pe(3) unfolding agree_off_def by blast+
  obtain m2 where m2: "store32 m1 (FifoElem_data p) d = Some m2" using store32_ex [OF cells(3) [OF a1]] by blast
  note a2 = agree_store32 [OF a1 m2]
  have pd: "extent p 12 \<inter> extent d ?z = {}" using pe(6) [of d] by simp
  have "length bs \<le> 2 ^ 32" using len unat_lt_u32 [of "f_dataSize f"] by simp
  then have l1: "load_bytes m1 d ?z = Some bs" using load_store_bytes_same [OF m1(2)] len by simp
  have "\<exists>m' f'. fifoAdd (m, f) data = Some ((m', f'), 1) \<and> agree_off (add_area f es p d) m m' \<and>
      load32 m' p = Some (f_first f) \<and> load32 m' (FifoElem_prev p) = Some 0 \<and> load32 m' (FifoElem_data p) = Some d \<and>
      (es \<noteq> [] \<longrightarrow> load32 m' (FifoElem_prev (hd es)) = Some p) \<and>
      f' = f1\<lparr>f_first := p, f_last := (if es = [] then p else f_last f)\<rparr> \<and>
      load_bytes m' d ?z = Some bs"
  proof (cases es)
    case Nil
    then have first: "f_first f = NULL" using st by (simp add: fifo_state_def fifo_links_def)
    obtain m3 where m3: "store32 m2 (FifoElem_prev p) 0 = Some m3" using store32_ex [OF cells(2) [OF a2]] by blast
    note a3 = agree_store32 [OF a2 m3]
    obtain m4 where m4: "store32 m3 p 0 = Some m4" using store32_ex [OF cells(1) [OF a3]] by blast
    have "agree_off (add_area f es p d) m m4"
      using pc(1-3) by (intro agree_mono [OF agree_store32 [OF a3 m4]]) (auto simp: add_area_def Nil)
    moreover have "load32 m4 p = Some 0" "load32 m4 (FifoElem_prev p) = Some 0" "load32 m4 (FifoElem_data p) = Some d"
      using fifo_cell_apart [OF st pin] load_store32_same [OF m2] load_store32_same [OF m3] load_store32_same [OF m4]
      by (simp_all add: load_store32_apart [OF m4] load_store32_apart [OF m3])
    moreover have "agree_off (extent (FifoElem_data p) 4 \<union> extent (FifoElem_prev p) 4 \<union> extent p 4) m1 m4"
      using agree_store32 [OF agree_store32 [OF agree_store32 [OF agree_refl m2] m3] m4] by simp
    then have "load_bytes m4 d ?z = Some bs" using l1 agree_load_bytes [of _ m1 m4 d ?z] pd pc(7) by auto
    ultimately show ?thesis
      using m1 m2 m3 m4 nd(1,3) ne(1,3) first Nil by (simp add: fifoAdd_def f1_def Let_def)
  next
    case (Cons q es0)
    then have q: "f_first f = q" "q \<noteq> NULL" using st by (simp_all add: fifo_state_def fifo_links_def)
    have qin: "q \<in> set (es @ p # fe)" "q \<noteq> p" using Cons st by (auto simp: fifo_state_def)
    have qp: "extent (FifoElem_prev q) 4 \<inter> extent p 12 = {}" "extent (FifoElem_prev q) 4 \<inter> extent d ?z = {}"
      using fifo_elem(5) [OF st qin(1) pin qin(2)] fifo_elem(6) [OF st qin(1), of d] fifo_cells(2) [OF st qin(1)] by auto
    obtain m3 where m3: "store32 m2 p q = Some m3" using store32_ex [OF cells(1) [OF a2]] by blast
    note a3 = agree_store32 [OF a2 m3]
    obtain m4 where m4: "store32 m3 (FifoElem_prev p) 0 = Some m4" using store32_ex [OF cells(2) [OF a3]] by blast
    note a4 = agree_store32 [OF a3 m4]
    have "extent (FifoElem_prev q) 4 \<subseteq> dom m4"
      using fifo_cells(2) [OF st qin(1)] fifo_elem(3) [OF st qin(1)] a4 by (auto simp: agree_off_def)
    then obtain m5 where m5: "store32 m4 (FifoElem_prev q) p = Some m5" using store32_ex by blast
    have "agree_off (add_area f es p d) m m5"
      using pc(1-3) by (intro agree_mono [OF agree_store32 [OF a4 m5]]) (auto simp: add_area_def Cons)
    moreover have ap: "apart (FifoElem_prev q) x" if "x \<in> {p, FifoElem_prev p, FifoElem_data p}" for x
      using that qp(1) pc(1-3) by (auto simp: apart_def)
    then have "load32 m5 p = Some q" "load32 m5 (FifoElem_prev p) = Some 0" "load32 m5 (FifoElem_data p) = Some d"
      using fifo_cell_apart [OF st pin] load_store32_same [OF m2] load_store32_same [OF m3] load_store32_same [OF m4]
      by (simp_all add: load_store32_apart [OF m5] load_store32_apart [OF m4] load_store32_apart [OF m3])
    moreover have "agree_off (extent (FifoElem_data p) 4 \<union> extent p 4 \<union> extent (FifoElem_prev p) 4 \<union> extent (FifoElem_prev q) 4) m1 m5"
      using agree_store32 [OF agree_store32 [OF agree_store32 [OF agree_store32 [OF agree_refl m2] m3] m4] m5] by simp
    then have "load_bytes m5 d ?z = Some bs" using l1 agree_load_bytes [of _ m1 m5 d ?z] pd pc(7) qp(2) by auto
    ultimately show ?thesis
      using load_store32_same [OF m5] m1 m2 m3 m4 m5 nd(1,3) ne(1,3) q Cons by (simp add: fifoAdd_def f1_def Let_def)
  qed
  then obtain m' f' where F: "fifoAdd (m, f) data = Some ((m', f'), 1)" "agree_off (add_area f es p d) m m'"
      "load32 m' p = Some (f_first f)" "load32 m' (FifoElem_prev p) = Some 0" "load32 m' (FifoElem_data p) = Some d"
      "es \<noteq> [] \<Longrightarrow> load32 m' (FifoElem_prev (hd es)) = Some p"
      "f' = f1\<lparr>f_first := p, f_last := (if es = [] then p else f_last f)\<rparr>" "load_bytes m' d ?z = Some bs" by blast
  have blocks: "pool_blocks (f_dataBuf f') = pool_blocks (f_dataBuf f)" "pool_blocks (f_fifoElemBuf f') = pool_blocks (f_fifoElemBuf f)"
    by (simp_all add: F(7) f1_def pool_blocks_def)
  have "fifo_links m' f' (p # es) (d # ds)"
    using links_add [OF st F(2-6)] F(7) by simp
  moreover have "pool_inv (m', f_fifoElemBuf f') fe" "pool_inv (m', f_dataBuf f') fd"
    using agree_pool [OF F(2)] ne(2) nd(2) add_area_free [OF st] by (simp_all add: F(7) f1_def)
  ultimately have "fifo_state m' f' (p # es) (d # ds) fe fd"
    using st unfolding fifo_state_def fifo_blocks_def blocks by (auto simp: F(7) f1_def)
  then show ?thesis using F(1,2,8) by (intro exI [of _ m'] exI [of _ f']) (simp add: fifo_area_def blocks, simp add: F(7) f1_def)
qed

subsection \<open>Removing an element\<close>

text \<open>The memory that \<open>fifoRemove\<close> writes in the pools.\<close>

definition remove_area :: "addr list \<Rightarrow> addr \<Rightarrow> addr \<Rightarrow> addr set" where
  "remove_area es l c = extent c 4 \<union> extent l 4 \<union> (if es = [] then {} else extent (last es) 4)"

lemma remove_area_cells:
  assumes st: "fifo_state m f (es @ [l]) (ds @ [c]) fe fd"
  shows "e \<in> set es \<Longrightarrow> e \<noteq> last es \<Longrightarrow> extent e 4 \<inter> remove_area es l c = {}"
    "e \<in> set (es @ [l]) \<Longrightarrow> extent (FifoElem_prev e) 4 \<inter> remove_area es l c = {}"
    "e \<in> set (es @ [l]) \<Longrightarrow> extent (FifoElem_data e) 4 \<inter> remove_area es l c = {}"
    "e \<in> set fe \<Longrightarrow> extent e 4 \<inter> remove_area es l c = {}"
    "d \<in> set ds \<Longrightarrow> extent d (unat (f_dataSize f)) \<inter> remove_area es l c = {}"
    "d \<in> set fd \<Longrightarrow> extent d 4 \<inter> remove_area es l c = {}"
proof -
  have dst: "distinct (es @ l # fe)" "distinct (ds @ c # fd)" using st by (simp_all add: fifo_state_def)
  have E: "extent e 12 \<inter> extent x 12 = {}" if "e \<in> set (es @ l # fe)" "x \<in> set (es @ l # fe)" "e \<noteq> x" for e x
    using fifo_elem(5) [OF st, of e x] that by simp
  have ED: "extent e 12 \<inter> extent d (unat (f_dataSize f)) = {}" if "e \<in> set (es @ l # fe)" "d \<in> set (ds @ c # fd)" for e d
    using fifo_elem(6) [OF st, of e d] that by simp
  have D: "extent d (unat (f_dataSize f)) \<inter> extent x (unat (f_dataSize f)) = {}"
    if "d \<in> set (ds @ c # fd)" "x \<in> set (ds @ c # fd)" "d \<noteq> x" for d x
    using fifo_data(6) [OF st, of d x] that by simp
  have sub: "extent e 4 \<subseteq> extent e 12" "extent (FifoElem_prev e) 4 \<subseteq> extent e 12" "extent (FifoElem_data e) 4 \<subseteq> extent e 12"
      "extent e 4 \<inter> extent (FifoElem_prev e) 4 = {}" "extent e 4 \<inter> extent (FifoElem_data e) 4 = {}"
    if "e \<in> set (es @ l # fe)" for e using fifo_cells [OF st, of e] that by simp_all
  have dsub: "extent d 4 \<subseteq> extent d (unat (f_dataSize f))" if "d \<in> set (ds @ c # fd)" for d
    using fifo_data(5) [OF st, of d] that by simp
  have lst: "es \<noteq> [] \<Longrightarrow> last es \<in> set (es @ l # fe)" by simp
  have cell: "X \<inter> remove_area es l c = {}"
    if X: "X \<subseteq> extent e 12" "e \<in> set (es @ l # fe)" "X \<inter> extent e 4 = {} \<or> (e \<noteq> l \<and> (es \<noteq> [] \<longrightarrow> e \<noteq> last es))" for X e
  proof -
    have "X \<inter> extent x 4 = {}" if x: "x = l \<or> (es \<noteq> [] \<and> x = last es)" for x
    proof (cases "e = x")
      case True
      then show ?thesis using X(3) x by auto
    next
      case False
      moreover have "x \<in> set (es @ l # fe)" using x lst by auto
      ultimately show ?thesis using E [OF X(2)] sub(1) [of x] X(1) by blast
    qed
    moreover have "X \<inter> extent c 4 = {}" using ED [OF X(2), of c] dsub [of c] X(1) by auto
    ultimately show ?thesis unfolding remove_area_def by auto
  qed
  show "e \<in> set es \<Longrightarrow> e \<noteq> last es \<Longrightarrow> extent e 4 \<inter> remove_area es l c = {}"
    using cell [of "extent e 4" e] sub(1) [of e] dst(1) by auto
  show "e \<in> set (es @ [l]) \<Longrightarrow> extent (FifoElem_prev e) 4 \<inter> remove_area es l c = {}"
    using cell [of "extent (FifoElem_prev e) 4" e] sub(2,4) [of e] by auto
  show "e \<in> set (es @ [l]) \<Longrightarrow> extent (FifoElem_data e) 4 \<inter> remove_area es l c = {}"
    using cell [of "extent (FifoElem_data e) 4" e] sub(3,5) [of e] by auto
  show "extent e 4 \<inter> remove_area es l c = {}" if e: "e \<in> set fe"
  proof (rule cell [of _ e])
    show "extent e 4 \<subseteq> extent e 12" using sub(1) [of e] e by simp
    show "extent e 4 \<inter> extent e 4 = {} \<or> (e \<noteq> l \<and> (es \<noteq> [] \<longrightarrow> e \<noteq> last es))"
      using e dst(1) last_in_set [of es] by (metis IntI distinct_append emptyE list.set_intros(1,2) distinct.simps(2))
  qed (use e in simp)
  have data: "extent d (unat (f_dataSize f)) \<inter> remove_area es l c = {}" if d: "d \<in> set (ds @ c # fd)" "d \<noteq> c" for d
  proof -
    have "extent d (unat (f_dataSize f)) \<inter> extent x 4 = {}" if "x \<in> set (es @ l # fe)" for x
      using ED [OF that d(1)] sub(1) [OF that] by blast
    moreover have "extent d (unat (f_dataSize f)) \<inter> extent c 4 = {}" using D [OF d(1), of c] d(2) dsub [of c] by auto
    moreover have "es \<noteq> [] \<Longrightarrow> extent d (unat (f_dataSize f)) \<inter> extent (last es) 4 = {}"
      using ED [OF lst d(1)] sub(1) [OF lst] by blast
    ultimately show ?thesis unfolding remove_area_def by (simp add: Int_Un_distrib)
  qed
  show "d \<in> set ds \<Longrightarrow> extent d (unat (f_dataSize f)) \<inter> remove_area es l c = {}" using data [of d] dst(2) by auto
  show "extent d 4 \<inter> remove_area es l c = {}" if "d \<in> set fd"
    using data [of d] dsub [of d] that dst(2) by fastforce
qed

lemma links_remove:
  assumes st: "fifo_state m f (es @ [l]) (ds @ [c]) fe fd"
    and ag: "agree_off (W \<union> remove_area es l c) m m'" "W \<inter> fifo_area f = {}"
    and nxt: "es \<noteq> [] \<Longrightarrow> load32 m' (last es) = Some 0"
    and f': "f_first f' = (if es = [] then NULL else f_first f)" "f_last f' = (if es = [] then NULL else last es)"
  shows "fifo_links m' f' es ds"
proof -
  have L: "chain load32 m (f_first f) (es @ [l])" "chain (\<lambda>m p. load32 m (FifoElem_prev p)) m (f_last f) (l # rev es)"
    "list_all2 (\<lambda>e d. load32 m (FifoElem_data e) = Some d) (es @ [l]) (ds @ [c])"
    using st by (simp_all add: fifo_state_def fifo_links_def)
  have "extent e 12 \<inter> W = {}" if "e \<in> set es" for e
    using fifo_elem(4) [OF st, of e] that ag(2) by auto
  then have off: "e \<in> set es \<Longrightarrow> e \<noteq> last es \<Longrightarrow> extent e 4 \<inter> (W \<union> remove_area es l c) = {}"
      "e \<in> set es \<Longrightarrow> extent (FifoElem_prev e) 4 \<inter> (W \<union> remove_area es l c) = {}"
      "e \<in> set es \<Longrightarrow> extent (FifoElem_data e) 4 \<inter> (W \<union> remove_area es l c) = {}" for e
    using remove_area_cells(1-3) [OF st, of e] fifo_cells(1-3) [OF st, of e] by (simp_all, blast+)
  have 1: "chain load32 m' (f_first f') es"
  proof (cases es rule: rev_cases)
    case Nil
    then show ?thesis using f'(1) by simp
  next
    case (snoc es1 k)
    have "path load32 m (f_first f) es1 k" "k \<noteq> NULL" using L(1) snoc by (auto simp: chain_append)
    moreover have "path load32 m' (f_first f) es1 k = path load32 m (f_first f) es1 k"
    proof (rule path_cong)
      fix a assume "a \<in> set es1"
      then have "a \<in> set es" "a \<noteq> last es" using snoc st by (auto simp: fifo_state_def)
      then show "load32 m' a = load32 m a" using agree_load32 [OF ag(1)] off(1) by blast
    qed
    ultimately show ?thesis using nxt f'(1) snoc by (simp add: chain_append)
  qed
  obtain r where r: "chain (\<lambda>m p. load32 m (FifoElem_prev p)) m r (rev es)" using L(2) by auto
  then have "r = f_last f'" using f'(2) by (cases es rule: rev_cases) auto
  moreover have "chain (\<lambda>m p. load32 m (FifoElem_prev p)) m' r (rev es) = chain (\<lambda>m p. load32 m (FifoElem_prev p)) m r (rev es)"
    using agree_load32 [OF ag(1)] off(2) by (intro chain_cong) simp
  ultimately have 2: "chain (\<lambda>m p. load32 m (FifoElem_prev p)) m' (f_last f') (rev es)" using r by simp
  have "load32 m' (FifoElem_data e) = load32 m (FifoElem_data e)" if "e \<in> set es" for e
    using agree_load32 [OF ag(1)] off(3) that by blast
  moreover have "list_all2 (\<lambda>e d. load32 m (FifoElem_data e) = Some d) es ds"
    using L(3) list_all2_lengthD [OF L(3)] by (simp add: list_all2_append)
  ultimately have "list_all2 (\<lambda>e d. load32 m' (FifoElem_data e) = Some d) es ds"
    by (auto simp: list_all2_conv_all_nth)
  then show ?thesis using 1 2 by (simp add: fifo_links_def)
qed

lemma fifo_last:
  assumes "fifo_state m f (es @ [l]) (ds @ [c]) fe fd"
  shows "f_last f = l" "load32 m (FifoElem_data l) = Some c"
    "load32 m (FifoElem_prev l) = Some (if es = [] then NULL else last es)"
proof -
  have L: "chain (\<lambda>m p. load32 m (FifoElem_prev p)) m (f_last f) (l # rev es)"
    "list_all2 (\<lambda>e d. load32 m (FifoElem_data e) = Some d) (es @ [l]) (ds @ [c])"
    using assms by (simp_all add: fifo_state_def fifo_links_def)
  show "f_last f = l" using L(1) by simp
  show "load32 m (FifoElem_data l) = Some c" using L(2) list_all2_lengthD [OF L(2)] by (simp add: list_all2_append)
  obtain r where "load32 m (FifoElem_prev l) = Some r" "chain (\<lambda>m p. load32 m (FifoElem_prev p)) m r (rev es)"
    using L(1) by auto
  then show "load32 m (FifoElem_prev l) = Some (if es = [] then NULL else last es)" by (cases es rule: rev_cases) auto
qed

lemma fifoRemove_state:
  assumes st: "fifo_state m f (es @ [l]) (ds @ [c]) fe fd" and x: "load_bytes m c (unat (f_dataSize f)) = Some x"
    and dst: "extent data (unat (f_dataSize f)) \<subseteq> dom m" "extent data (unat (f_dataSize f)) \<inter> fifo_area f = {}"
  shows "\<exists>m' f'. fifoRemove (m, f) data = Some ((m', f'), 1) \<and> fifo_state m' f' es ds (l # fe) (c # fd) \<and>
    load_bytes m' data (unat (f_dataSize f)) = Some x \<and>
    agree_off (extent data (unat (f_dataSize f)) \<union> remove_area es l c) m m' \<and>
    f_dataSize f' = f_dataSize f \<and> f_maxElems f' = f_maxElems f \<and> fifo_area f' = fifo_area f"
proof -
  let ?z = "unat (f_dataSize f)"
  define prev where "prev = (if es = [] then NULL else last es)"
  note last = fifo_last [OF st, folded prev_def]
  have c: "extent c ?z \<subseteq> dom m" "extent c ?z \<subseteq> fifo_area f" "4 \<le> ?z" "extent c 4 \<subseteq> extent c ?z"
    using fifo_data [OF st, of c] by simp_all
  have pools: "pool_inv (m, f_fifoElemBuf f) fe" "pool_inv (m, f_dataBuf f) fd"
    and mem: "l \<in> set (pool_blocks (f_fifoElemBuf f))" "l \<notin> set fe" "c \<in> set (pool_blocks (f_dataBuf f))" "c \<notin> set fd"
    using st by (auto simp: fifo_state_def)
  have elem: "extent e 12 \<subseteq> dom m" "extent e 12 \<subseteq> fifo_area f" "extent e 4 \<subseteq> extent e 12" if "e \<in> set (es @ [l])" for e
  proof -
    have e: "e \<in> set ((es @ [l]) @ fe)" using that by auto
    show "extent e 12 \<subseteq> dom m" "extent e 12 \<subseteq> fifo_area f" "extent e 4 \<subseteq> extent e 12"
      by (fact fifo_elem(3,4) [OF st e] fifo_cells(1) [OF st e])+
  qed
  obtain m1 where m1: "memcpy m data c ?z = Some m1" "store_bytes m data x = Some m1"
    using memcpy_ok [OF x dst(1)] dst(2) c(2,3) by auto
  have len: "length x = ?z" using load_bytes_length [OF x] .
  have a1: "agree_off (extent data ?z) m m1" using agree_store_bytes [OF agree_refl m1(2)] len by simp
  have prev1: "load32 m1 (FifoElem_prev l) = Some prev"
  proof -
    have "extent (FifoElem_prev l) 4 \<inter> extent data ?z = {}"
      using fifo_cells(2) [OF st, of l] elem(2) [of l] dst(2) by (simp, blast)
    then show ?thesis using agree_load32 [OF a1] last(3) by simp
  qed
  have pin: "prev \<noteq> NULL \<Longrightarrow> prev \<in> set es" by (auto simp: prev_def split: if_splits)
  define f1 where "f1 = (if prev \<noteq> NULL then f\<lparr>f_last := prev\<rparr> else f\<lparr>f_last := prev, f_first := NULL\<rparr>)"
  have "\<exists>m2. (if prev \<noteq> NULL then store32 m1 prev 0 else Some m1) = Some m2"
    using store32_ex [of prev m1 0] pin elem(1,3) [of prev] a1 by (auto simp: agree_off_def)
  then obtain m2 where m2: "(if prev \<noteq> NULL then store32 m1 prev 0 else Some m1) = Some m2" by blast
  have ne: "es \<noteq> [] \<Longrightarrow> prev \<noteq> NULL" using fifo_elem(1) [OF st, of prev] by (simp add: prev_def)
  have a2: "agree_off (extent data ?z \<union> (if es = [] then {} else extent (last es) 4)) m m2"
    using m2 a1 agree_store32 [OF a1] ne by (cases "es = []") (auto simp: prev_def)
  have off: "A \<inter> (extent data ?z \<union> (if es = [] then {} else extent (last es) 4)) = {}"
    if "A \<inter> remove_area es l c = {}" "A \<inter> extent data ?z = {}" for A
    using that by (auto simp: remove_area_def)
  have out: "extent e 12 \<inter> extent data ?z = {}" if "e \<in> set (es @ [l] @ fe)" for e
    using fifo_elem(4) [OF st, of e] dst(2) that by auto
  have dout: "extent d ?z \<inter> extent data ?z = {}" if "d \<in> set (ds @ [c] @ fd)" for d
    using fifo_data(3) [OF st, of d] dst(2) that by auto
  have data2: "load32 m2 (FifoElem_data l) = Some c"
    using agree_load32 [OF a2 off] remove_area_cells(3) [OF st, of l] last(2)
      disj_sub [OF fifo_cells(3) [OF st, of l] out [of l]] by simp
  have free: "extent e 4 \<inter> extent data ?z = {}" if "e \<in> set fe" for e
    using disj_sub [OF fifo_cells(1) [OF st, of e] out [of e]] that by simp
  have dfree: "extent d 4 \<inter> extent data ?z = {}" if "d \<in> set fd" for d
    using disj_sub [OF fifo_data(5) [OF st, of d] dout [of d]] that by simp
  have p2: "pool_inv (m2, f_dataBuf f) fd" "pool_inv (m2, f_fifoElemBuf f) fe"
    using agree_pool [OF a2 pools(1) off] agree_pool [OF a2 pools(2) off] remove_area_cells(4,6) [OF st] free dfree by simp_all
  obtain m3 where m3: "poolFree (m2, f_dataBuf f) c = Some (m3, (f_dataBuf f)\<lparr>pa_nextFreeBlock := c\<rparr>)"
    "store32 m2 c (pa_nextFreeBlock (f_dataBuf f)) = Some m3" "pool_inv (m3, (f_dataBuf f)\<lparr>pa_nextFreeBlock := c\<rparr>) (c # fd)"
    using poolFree_block [OF p2(1) mem(3,4)] .
  have ce: "extent e 12 \<inter> extent c 4 = {}" if "e \<in> set (es @ [l] @ fe)" for e
    using fifo_elem(6) [OF st, of e c] c(4) that by auto
  have "pool_inv (m3, f_fifoElemBuf f) fe"
    using agree_pool [OF agree_store32 [OF agree_refl m3(2)] p2(2)] ce fifo_cells(1) [OF st] by fastforce
  then obtain m4 where m4: "poolFree (m3, f_fifoElemBuf f) l = Some (m4, (f_fifoElemBuf f)\<lparr>pa_nextFreeBlock := l\<rparr>)"
    "store32 m3 l (pa_nextFreeBlock (f_fifoElemBuf f)) = Some m4" "pool_inv (m4, (f_fifoElemBuf f)\<lparr>pa_nextFreeBlock := l\<rparr>) (l # fe)"
    using poolFree_block mem(1,2) by blast
  have a4: "agree_off (extent data ?z \<union> remove_area es l c) m m4"
    by (rule agree_mono [OF agree_store32 [OF agree_store32 [OF a2 m3(2)] m4(2)]]) (auto simp: remove_area_def)
  have a34: "agree_off (extent l 4) m3 m4" using agree_store32 [OF agree_refl m4(2)] by simp
  have pd4: "pool_inv (m4, (f_dataBuf f)\<lparr>pa_nextFreeBlock := c\<rparr>) (c # fd)"
  proof (rule agree_pool [OF a34 m3(3)])
    fix d assume d: "d \<in> set (c # fd)"
    then show "extent d 4 \<inter> extent l 4 = {}"
      using fifo_elem(6) [OF st, of l d] elem(3) [of l] fifo_data(5) [OF st, of d] by auto
  qed
  define f' where "f' = f1\<lparr>f_dataBuf := (f_dataBuf f)\<lparr>pa_nextFreeBlock := c\<rparr>, f_fifoElemBuf := (f_fifoElemBuf f)\<lparr>pa_nextFreeBlock := l\<rparr>\<rparr>"
  have run: "fifoRemove (m, f) data = Some ((m4, f'), 1)"
    using last(1,2) fifo_elem(1) [OF st, of l] m1(1) prev1 m2 data2 m3(2) m4(2)
    by (cases "prev = NULL") (simp_all add: fifoRemove_def f'_def f1_def Let_def)
  have blocks: "pool_blocks (f_dataBuf f') = pool_blocks (f_dataBuf f)" "pool_blocks (f_fifoElemBuf f') = pool_blocks (f_fifoElemBuf f)"
    by (simp_all add: f'_def f1_def pool_blocks_def)
  have nxt: "load32 m4 (last es) = Some 0" if "es \<noteq> []"
  proof -
    have k: "last es \<in> set (es @ [l])" "last es \<noteq> l" using that st by (auto simp: fifo_state_def)
    have "load32 m2 (last es) = Some 0" using m2 ne [OF that] that load_store32_same by (simp add: prev_def)
    moreover have "apart c (last es)" using ce [of "last es"] elem(3) [OF k(1)] k(1) by (auto simp: apart_def)
    moreover have "apart l (last es)"
      using fifo_elem(5) [OF st, of l "last es"] elem(3) [OF k(1)] elem(3) [of l] k by (auto simp: apart_def)
    ultimately show ?thesis using load_store32_apart [OF m3(2)] load_store32_apart [OF m4(2)] by simp
  qed
  have "fifo_links m4 f' es ds"
    by (rule links_remove [OF st a4 dst(2) nxt]) (use ne in \<open>auto simp: f'_def f1_def prev_def\<close>)
  then have "fifo_state m4 f' es ds (l # fe) (c # fd)"
    using st pd4 m4(3) unfolding fifo_state_def fifo_blocks_def blocks by (auto simp: f'_def f1_def)
  moreover have "load_bytes m4 data ?z = Some x"
  proof -
    have "load_bytes m1 data ?z = Some x"
      using load_store_bytes_same [OF m1(2)] len unat_lt_u32 [of "f_dataSize f"] by simp
    moreover have "agree_off (remove_area es l c) m1 m4"
    proof (cases "es = []")
      case True
      then have "m1 = m2" using m2 by (simp add: prev_def)
      then show ?thesis
        using agree_store32 [OF agree_store32 [OF agree_refl m3(2)] m4(2)] True by (simp add: remove_area_def)
    next
      case False
      then have "store32 m1 (last es) 0 = Some m2" using m2 ne by (simp add: prev_def)
      from agree_store32 [OF agree_store32 [OF agree_store32 [OF agree_refl this] m3(2)] m4(2)]
      show ?thesis by (rule agree_mono) (auto simp: remove_area_def False)
    qed
    moreover have "extent data ?z \<inter> remove_area es l c = {}"
    proof -
      have "extent c 4 \<subseteq> fifo_area f" "extent l 4 \<subseteq> fifo_area f" "es \<noteq> [] \<Longrightarrow> extent (last es) 4 \<subseteq> fifo_area f"
        using c(2,4) elem(2,3) [of l] elem(2,3) [of "last es"] by (auto dest: subset_trans)
      then show ?thesis using dst(2) by (cases "es = []") (simp_all add: remove_area_def, blast+)
    qed
    ultimately show ?thesis using agree_load_bytes by metis
  qed
  ultimately show ?thesis
    using run a4 by (intro exI [of _ m4] exI [of _ f']) (simp add: fifo_area_def blocks, simp add: f'_def f1_def)
qed

subsection \<open>The contract\<close>

lemma fifo_state_agree:
  assumes st: "fifo_state m f es ds fe fd" and ag: "agree_off W m m'" "W \<inter> fifo_area f = {}"
  shows "fifo_state m' f es ds fe fd"
    "map (\<lambda>d. load_bytes m' d (unat (f_dataSize f))) ds = map (\<lambda>d. load_bytes m d (unat (f_dataSize f))) ds"
proof -
  have e: "extent e 12 \<inter> W = {}" if "e \<in> set (es @ fe)" for e using fifo_elem(4) [OF st that] ag(2) by blast
  have d: "extent d (unat (f_dataSize f)) \<inter> W = {}" if "d \<in> set (ds @ fd)" for d using fifo_data(3) [OF st that] ag(2) by blast
  have cell: "load32 m' e = load32 m e" "load32 m' (FifoElem_prev e) = load32 m (FifoElem_prev e)"
    "load32 m' (FifoElem_data e) = load32 m (FifoElem_data e)" if "e \<in> set es" for e
    using that fifo_cells(1-3) [OF st, of e] e [of e] by (auto intro!: agree_load32 [OF ag(1)] dest: disj_sub)
  have "fifo_links m f es ds" using st by (simp add: fifo_state_def)
  moreover have "chain load32 m' (f_first f) es = chain load32 m (f_first f) es"
    "chain (\<lambda>m p. load32 m (FifoElem_prev p)) m' (f_last f) (rev es) = chain (\<lambda>m p. load32 m (FifoElem_prev p)) m (f_last f) (rev es)"
    by (rule chain_cong; use cell in simp)+
  ultimately have "fifo_links m' f es ds"
    using cell(3) by (auto simp: fifo_links_def list_all2_conv_all_nth)
  moreover have "pool_inv (m', f_fifoElemBuf f) fe" "pool_inv (m', f_dataBuf f) fd"
  proof -
    have "extent x 4 \<inter> W = {}" if "x \<in> set fe" for x using disj_sub [OF fifo_cells(1) [OF st, of x] e] that by simp
    moreover have "extent x 4 \<inter> W = {}" if "x \<in> set fd" for x using disj_sub [OF fifo_data(5) [OF st, of x] d] that by simp
    moreover have "pool_inv (m, f_fifoElemBuf f) fe" "pool_inv (m, f_dataBuf f) fd" using st by (simp_all add: fifo_state_def)
    ultimately show "pool_inv (m', f_fifoElemBuf f) fe" "pool_inv (m', f_dataBuf f) fd" using agree_pool [OF ag(1)] by blast+
  qed
  ultimately show "fifo_state m' f es ds fe fd" using st by (simp add: fifo_state_def)
  show "map (\<lambda>d. load_bytes m' d (unat (f_dataSize f))) ds = map (\<lambda>d. load_bytes m d (unat (f_dataSize f))) ds"
    using agree_load_bytes [OF ag(1) d] by simp
qed

text \<open>A client with a variable at \<open>tmp\<close> through which it passes the elements, as in modeset.c.\<close>

definition fifo_push :: "addr \<Rightarrow> mem \<times> Fifo \<Rightarrow> u8 list \<Rightarrow> ((mem \<times> Fifo) \<times> u32) option" where
  "fifo_push tmp s x = do { m \<leftarrow> store_bytes (fst s) tmp x; fifoAdd (m, snd s) tmp }"

definition fifo_pop :: "addr \<Rightarrow> mem \<times> Fifo \<Rightarrow> ((mem \<times> Fifo) \<times> u8 list option) option" where
  "fifo_pop tmp s = do {
     (s', r) \<leftarrow> fifoRemove s tmp;
     if r = 0 then Some (s', None)
     else do { x \<leftarrow> load_bytes (fst s') tmp (unat (f_dataSize (snd s'))); Some (s', Some x) } }"

definition fifo_client :: "addr \<Rightarrow> nat \<Rightarrow> nat \<Rightarrow> mem \<times> Fifo \<Rightarrow> u8 list list \<Rightarrow> bool" where
  "fifo_client tmp n z s xs \<longleftrightarrow> fifo_inv s (rev xs) \<and> unat (f_maxElems (snd s)) = n \<and> unat (f_dataSize (snd s)) = z \<and>
     extent tmp z \<subseteq> dom (fst s) \<and> extent tmp z \<inter> fifo_area (snd s) = {}"

lemma fifo_push_room:
  assumes "fifo_client tmp n z s xs" "length xs < n" "length x = z"
  shows "\<exists>s'. fifo_push tmp s x = Some (s', 1) \<and> fifo_client tmp n z s' (xs @ [x])"
proof -
  obtain m f where s: "s = (m, f)" by (cases s)
  obtain es ds fe fd where st: "fifo_state m f es ds fe fd"
    and xs: "map (\<lambda>d. load_bytes m d (unat (f_dataSize f))) ds = map Some (rev xs)"
    using assms(1) by (auto simp: fifo_client_def fifo_inv_def s)
  have z: "unat (f_dataSize f) = z" "unat (f_maxElems f) = n" "extent tmp z \<subseteq> dom m" "extent tmp z \<inter> fifo_area f = {}"
    using assms(1) by (simp_all add: fifo_client_def s)
  have "length ds = length xs" using xs by (metis length_map length_rev)
  then obtain p fe' d fd' where free: "fe = p # fe'" "fd = d # fd'"
    using fifo_held [OF st] assms(2) z(2) by (metis Suc_diff_Suc length_Suc_conv)
  obtain m0 where m0: "store_bytes m tmp x = Some m0" using store_bytes_defined z(3) assms(3) by blast
  have ag: "agree_off (extent tmp z) m m0" using agree_store_bytes [OF agree_refl m0] assms(3) by simp
  note st0 = fifo_state_agree [OF st ag z(4)]
  have x: "load_bytes m0 tmp (unat (f_dataSize f)) = Some x"
    using load_store_bytes_same [OF m0] z(1) assms(3) unat_lt_u32 [of "f_dataSize f"] by simp
  have st1: "fifo_state m0 f es ds (p # fe') (d # fd')" using st0(1) free by simp
  obtain m' f' where F: "fifoAdd (m0, f) tmp = Some ((m', f'), 1)" "fifo_state m' f' (p # es) (d # ds) fe' fd'"
      "load_bytes m' d (unat (f_dataSize f)) = Some x" "agree_off (add_area f es p d) m0 m'"
      "f_dataSize f' = f_dataSize f" "f_maxElems f' = f_maxElems f" "fifo_area f' = fifo_area f"
    using fifoAdd_state [OF st1 x] z(1,4) by auto
  have "load_bytes m' c (unat (f_dataSize f)) = load_bytes m0 c (unat (f_dataSize f))" if "c \<in> set ds" for c
    using agree_load_bytes [OF F(4)] add_area_free(3) [OF st1 that] by blast
  then have "map (\<lambda>d. load_bytes m' d (unat (f_dataSize f))) ds = map Some (rev xs)" using xs st0(2) by (metis map_cong)
  then have "fifo_inv (m', f') (rev (xs @ [x]))" using F(2,3,5) by (auto simp: fifo_inv_def intro!: exI)
  then show ?thesis using m0 F z ag by (auto simp: fifo_push_def fifo_client_def s agree_off_def)
qed

lemma fifo_pop_some:
  assumes "fifo_client tmp n z s (x # xs)"
  shows "\<exists>s'. fifo_pop tmp s = Some (s', Some x) \<and> fifo_client tmp n z s' xs"
proof -
  obtain m f where s: "s = (m, f)" by (cases s)
  obtain es ds fe fd where st: "fifo_state m f es ds fe fd"
    and xs: "map (\<lambda>d. load_bytes m d (unat (f_dataSize f))) ds = map Some (rev (x # xs))"
    using assms(1) by (auto simp: fifo_client_def fifo_inv_def s)
  have z: "unat (f_dataSize f) = z" "unat (f_maxElems f) = n" "extent tmp z \<subseteq> dom m" "extent tmp z \<inter> fifo_area f = {}"
    using assms(1) by (simp_all add: fifo_client_def s)
  from xs obtain ds0 c where ds: "ds = ds0 @ [c]" by (cases ds rule: rev_cases) auto
  with fifo_held(1) [OF st] obtain es0 l where es: "es = es0 @ [l]" by (cases es rule: rev_cases) auto
  have xc: "load_bytes m c (unat (f_dataSize f)) = Some x" and
    xs0: "map (\<lambda>d. load_bytes m d (unat (f_dataSize f))) ds0 = map Some (rev xs)" using xs by (simp_all add: ds)
  note st' = st [unfolded es ds]
  obtain m' f' where F: "fifoRemove (m, f) tmp = Some ((m', f'), 1)" "fifo_state m' f' es0 ds0 (l # fe) (c # fd)"
      "load_bytes m' tmp (unat (f_dataSize f)) = Some x" "agree_off (extent tmp z \<union> remove_area es0 l c) m m'"
      "f_dataSize f' = f_dataSize f" "f_maxElems f' = f_maxElems f" "fifo_area f' = fifo_area f"
    using fifoRemove_state [OF st' xc, of tmp] z by auto
  have "load_bytes m' d (unat (f_dataSize f)) = load_bytes m d (unat (f_dataSize f))" if "d \<in> set ds0" for d
  proof (rule agree_load_bytes [OF F(4)])
    have "extent d (unat (f_dataSize f)) \<inter> extent tmp z = {}"
      using fifo_data(3) [OF st', of d] that z(4) by auto
    then show "extent d (unat (f_dataSize f)) \<inter> (extent tmp z \<union> remove_area es0 l c) = {}"
      using remove_area_cells(5) [OF st' that] by blast
  qed
  then have "map (\<lambda>d. load_bytes m' d (unat (f_dataSize f))) ds0 = map Some (rev xs)" using xs0 by (metis map_cong)
  then have "fifo_inv (m', f') (rev xs)" using F(2,5) by (auto simp: fifo_inv_def intro!: exI)
  then show ?thesis using F z by (auto simp: fifo_pop_def fifo_client_def s agree_off_def)
qed

lemma fifo_pop_empty:
  assumes "fifo_client tmp n z s []"
  shows "fifo_pop tmp s = Some (s, None)"
proof -
  obtain m f where s: "s = (m, f)" by (cases s)
  obtain es ds fe fd where st: "fifo_state m f es ds fe fd" "ds = []"
    using assms(1) by (auto simp: fifo_client_def fifo_inv_def s)
  then have "f_last f = NULL" by (auto simp: fifo_state_def fifo_links_def)
  then show ?thesis by (simp add: fifo_pop_def fifoRemove_def s)
qed

interpretation fifo: bounded_queue "fifo_client tmp n z" n "\<lambda>x. length x = z" "fifo_push tmp" "fifo_pop tmp" for tmp n z
proof
  fix s xs and x :: "u8 list"
  show "fifo_client tmp n z s xs \<Longrightarrow> length xs < n \<Longrightarrow> length x = z \<Longrightarrow>
      \<exists>s'. fifo_push tmp s x = Some (s', 1) \<and> fifo_client tmp n z s' (xs @ [x])" by (rule fifo_push_room)
  show "fifo_client tmp n z s (x # xs) \<Longrightarrow> \<exists>s'. fifo_pop tmp s = Some (s', Some x) \<and> fifo_client tmp n z s' xs"
    by (rule fifo_pop_some)
  show "fifo_client tmp n z s [] \<Longrightarrow> \<exists>s'. fifo_pop tmp s = Some (s', None) \<and> fifo_client tmp n z s' []"
    using fifo_pop_empty by blast
qed

subsection \<open>Properties\<close>

lemma create_fifo:
  assumes "block_area m dmem z n" "block_area m emem 12 n" "0 < n" "unat k = n"
    "extent dmem (n * unat z) \<inter> extent emem (n * 12) = {}"
    "extent tmp (unat z) \<subseteq> dom m" "extent tmp (unat z) \<inter> (extent dmem (n * unat z) \<union> extent emem (n * 12)) = {}"
  shows "\<exists>s. createFifo m dmem emem k z = Some s \<and> fifo_client tmp n (unat z) s []"
proof -
  have lim: "n * unat z < 2 ^ 32" "n * 12 < 2 ^ 32" using assms(1,2) unfolding block_area_def by simp_all
  have size: "unat (k * z) = n * unat z" "unat (k * 12) = n * unat (12 :: u32)"
    using lim assms(4) by (simp_all add: unat_word_ariths)
  obtain m1 pd where 1: "createPoolAllocator m dmem z (k * z) = Some (m1, pd)" "pool_inv (m1, pd) (blocks dmem z n)"
    "pool_blocks pd = blocks dmem z n" "\<forall>x. x \<notin> extent dmem (unat (k * z)) \<longrightarrow> m1 x = m x"
    using pool_inv_create [OF assms(1,3) size(1)] by blast
  have pd: "pa_buf pd = dmem" "pa_blockSize pd = z" "pa_size pd = k * z"
    using 1(1) by (auto simp: createPoolAllocator_def split: if_splits elim!: bind_SomeE)
  have area1: "block_area m1 dmem z n" using 1(2) pd size(1) block_area_pos [OF assms(1)] by (simp add: pool_inv.simps)
  have same1: "m1 x = m x" if "x \<notin> extent dmem (n * unat z)" for x using 1(4) that size(1) by simp
  have "extent emem (n * 12) \<subseteq> dom m1" using assms(2,5) same1 unfolding block_area_def by fastforce
  then have area2: "block_area m1 emem 12 n" using assms(2) by (simp add: block_area_def)
  obtain m2 pe where 2: "createPoolAllocator m1 emem 12 (k * 12) = Some (m2, pe)" "pool_inv (m2, pe) (blocks emem 12 n)"
    "pool_blocks pe = blocks emem 12 n" "\<forall>x. x \<notin> extent emem (unat (k * 12)) \<longrightarrow> m2 x = m1 x"
    using pool_inv_create [OF area2 assms(3) size(2)] by blast
  have pe: "pa_buf pe = emem" "pa_blockSize pe = 12" "pa_size pe = k * 12"
    using 2(1) by (auto simp: createPoolAllocator_def split: if_splits elim!: bind_SomeE)
  have area3: "block_area m2 emem 12 n" using 2(2) pe size(2) by (simp add: pool_inv.simps)
  have same2: "m2 x = m1 x" if "x \<notin> extent emem (n * 12)" for x using 2(4) that size(2) by simp
  have "dom m2 = dom m1"
  proof -
    have "x \<in> dom m2 \<longleftrightarrow> x \<in> dom m1" for x
      using same2 [of x] area2 area3 by (cases "x \<in> extent emem (n * 12)") (auto simp: block_area_def dom_def)
    then show ?thesis by blast
  qed
  then have ag: "agree_off (extent emem (n * 12)) m1 m2" using same2 by (simp add: agree_off_def)
  have sep: "extent p (unat z) \<inter> extent emem (n * 12) = {}" if "p \<in> set (blocks dmem z n)" for p
    using blocks_inside [OF assms(1) that] assms(5) by blast
  have "pool_inv (m2, pd) (blocks dmem z n)"
    using agree_pool [OF ag 1(2)] disj_sub [OF extent_mono [OF block_area_pos [OF assms(1)]] sep] by blast
  moreover have inside: "extent p 12 \<subseteq> extent emem (n * 12)" if "p \<in> set (blocks emem 12 n)" for p
    using blocks_inside [OF assms(2) that] by simp
  define f where "f = \<lparr>f_first = NULL, f_last = NULL, f_dataBuf = pd, f_fifoElemBuf = pe, f_dataSize = z, f_maxElems = k\<rparr>"
  have len: "length (blocks b bs n) = n" for b bs by (simp add: blocks_def)
  have "extent d (unat z) \<inter> extent e 12 = {}" if "d \<in> set (blocks dmem z n)" "e \<in> set (blocks emem 12 n)" for d e
    using sep [OF that(1)] inside [OF that(2)] by blast
  then have "fifo_blocks f" using pd(2) pe(2) assms(4) by (simp add: fifo_blocks_def f_def 1(3) 2(3) len)
  ultimately have "fifo_state m2 f [] [] (blocks emem 12 n) (blocks dmem z n)"
    using 1(3) 2(2,3) distinct_blocks [OF assms(1)] distinct_blocks [OF assms(2)]
    by (simp add: fifo_state_def fifo_links_def) (simp add: f_def)
  then have "fifo_inv (m2, f) []" by (auto simp: fifo_inv_def intro!: exI)
  moreover have "fifo_area f \<subseteq> extent dmem (n * unat z) \<union> extent emem (n * 12)"
    using blocks_inside [OF assms(1)] inside by (auto simp: fifo_area_def f_def 1(3) 2(3))
  moreover have "extent tmp (unat z) \<subseteq> dom m2" using assms(6,7) same1 same2 by (force simp: dom_def)
  ultimately have "fifo_client tmp n (unat z) (m2, f) []" using assms(4,7) by (auto simp: fifo_client_def f_def)
  then show ?thesis using 1(1) 2(1) by (simp add: createFifo_def f_def)
qed

text \<open>C9: a queue over two buffers of \<open>n\<close> blocks is a first-in first-out queue of at most \<open>n\<close> elements: for
  every sequence of additions and removals that never adds to a full queue, no operation is undefined,
  and every removal copies out the oldest element, or returns 0 if there is none.\<close>

theorem fifo_is_queue:
  assumes "block_area m dmem z n" "block_area m emem 12 n" "0 < n" "unat k = n"
    "extent dmem (n * unat z) \<inter> extent emem (n * 12) = {}"
    "extent tmp (unat z) \<subseteq> dom m" "extent tmp (unat z) \<inter> (extent dmem (n * unat z) \<union> extent emem (n * 12)) = {}"
    "\<forall>x. Push x \<in> set ops \<longrightarrow> length x = unat z" "list_queue n [] ops = Some (xs, ys)"
  shows "\<exists>s s'. createFifo m dmem emem k z = Some s \<and>
    run_queue (fifo_push tmp) (fifo_pop tmp) s ops = Some (s', ys) \<and> fifo_client tmp n (unat z) s' xs"
proof -
  obtain s where s: "createFifo m dmem emem k z = Some s" "fifo_client tmp n (unat z) s []"
    using create_fifo [OF assms(1-7)] by blast
  then show ?thesis using fifo.run_queue_refines [OF s(2) assms(9,8)] by blast
qed

lemma fifo_is_queue_witness:
  "\<exists>s s'. createFifo (zero_mem 4096 128) 4096 4128 2 8 = Some s \<and>
    run_queue (fifo_push 4200) (fifo_pop 4200) s
      [Push [1, 2, 3, 4, 5, 6, 7, 8], Push [9, 9, 9, 9, 9, 9, 9, 9], Pop, Push [7, 7, 7, 7, 7, 7, 7, 7], Pop, Pop, Pop] =
      Some (s', [Some [1, 2, 3, 4, 5, 6, 7, 8], Some [9, 9, 9, 9, 9, 9, 9, 9], Some [7, 7, 7, 7, 7, 7, 7, 7], None]) \<and>
    fifo_client 4200 2 (unat (8 :: u32)) s' []"
proof (rule fifo_is_queue)
  show "block_area (zero_mem 4096 128) 4096 8 2" "block_area (zero_mem 4096 128) 4128 12 2"
    "extent 4200 (unat (8 :: u32)) \<subseteq> dom (zero_mem 4096 128)"
    by (auto simp: block_area_def extent_iff zero_mem_def dom_def)
  show "extent 4096 (2 * unat (8 :: u32)) \<inter> extent 4128 (2 * 12) = {}"
    "extent 4200 (unat (8 :: u32)) \<inter> (extent 4096 (2 * unat (8 :: u32)) \<union> extent 4128 (2 * 12)) = {}"
    by (auto simp: extent_iff)
qed simp_all

text \<open>Adding to a full queue is undefined: the blocks that the pools return are tested for null only
  after the element was copied to the null pointer, so the return value 0 is never reached.\<close>

theorem fifoAdd_full:
  assumes "fifo_inv (m, f) xs" "length xs = unat (f_maxElems f)" "m NULL = None" "0 < unat (f_dataSize f)"
  shows "fifoAdd (m, f) data = None"
proof -
  obtain es ds fe fd where st: "fifo_state m f es ds fe fd"
    and xs: "map (\<lambda>d. load_bytes m d (unat (f_dataSize f))) ds = map Some xs"
    using assms(1) by (auto simp: fifo_inv_def)
  have "length ds = length xs" using xs by (metis length_map)
  then have "fe = []" "fd = []" using fifo_held [OF st] assms(2) by simp_all
  then have "poolAllocate (m, f_dataBuf f) = Some ((m, f_dataBuf f), NULL)"
    "poolAllocate (m, f_fifoElemBuf f) = Some ((m, f_fifoElemBuf f), NULL)"
    using st poolAllocate_empty by (simp_all add: fifo_state_def)
  moreover have "memcpy m NULL data (unat (f_dataSize f)) = None"
  proof -
    have "store_bytes m NULL bs = None" if "load_bytes m data (unat (f_dataSize f)) = Some bs" for bs
      using load_bytes_length [OF that] assms(3,4) by (cases bs) auto
    then show ?thesis by (cases "load_bytes m data (unat (f_dataSize f))") (auto simp: memcpy_def)
  qed
  ultimately show ?thesis by (simp add: fifoAdd_def Let_def)
qed

definition full_fifo :: "mem \<times> Fifo" where
  "full_fifo = fst (the (fifo_push 4200 (the (createFifo (zero_mem 4096 128) 4096 4128 1 8)) [1, 2, 3, 4, 5, 6, 7, 8]))"

lemma empty_fifo: "\<exists>s. createFifo (zero_mem 4096 128) 4096 4128 1 8 = Some s \<and> fifo_client 4200 1 8 s []"
proof -
  have "\<exists>s. createFifo (zero_mem 4096 128) 4096 4128 1 8 = Some s \<and> fifo_client 4200 1 (unat (8 :: u32)) s []"
  proof (rule create_fifo)
    show "block_area (zero_mem 4096 128) 4096 8 1" "block_area (zero_mem 4096 128) 4128 12 1"
      "extent 4200 (unat (8 :: u32)) \<subseteq> dom (zero_mem 4096 128)"
      by (auto simp: block_area_def extent_iff zero_mem_def dom_def)
    show "extent 4096 (1 * unat (8 :: u32)) \<inter> extent 4128 (1 * 12) = {}"
      "extent 4200 (unat (8 :: u32)) \<inter> (extent 4096 (1 * unat (8 :: u32)) \<union> extent 4128 (1 * 12)) = {}"
      by (auto simp: extent_iff)
  qed simp_all
  then show ?thesis by simp
qed

lemma full_fifo: "fifo_client 4200 1 8 full_fifo [[1, 2, 3, 4, 5, 6, 7, 8]]"
proof -
  obtain s where s: "createFifo (zero_mem 4096 128) 4096 4128 1 8 = Some s" "fifo_client 4200 1 8 s []"
    using empty_fifo by blast
  show ?thesis using fifo.push_room [OF s(2), of "[1, 2, 3, 4, 5, 6, 7, 8]"] s(1) by (auto simp: full_fifo_def)
qed

lemma createFifo_dom: "createFifo m dm em k z = Some (m', f) \<Longrightarrow> dom m' = dom m"
  by (auto simp: createFifo_def elim!: bind_SomeE simp del: store_bytes.simps del: equalityI dest!: createPool_dom)

lemma memcpy_dom: "memcpy m d s n = Some m' \<Longrightarrow> dom m' = dom m"
  by (auto simp: memcpy_def split: if_splits elim!: bind_SomeE simp del: store_bytes.simps del: equalityI dest!: store_bytes_dom)

lemma poolAllocate_mem: "poolAllocate (m, pa) = Some ((m', pa'), p) \<Longrightarrow> m' = m"
  by (auto split: if_splits elim!: bind_SomeE simp del: store_bytes.simps del: equalityI)

lemma fifoAdd_dom: "fifoAdd (m, f) data = Some ((m', f'), r) \<Longrightarrow> dom m' = dom m"
  unfolding fifoAdd_def Let_def
  by (auto simp del: poolAllocate.simps split: if_splits elim!: bind_SomeE del: equalityI dest!: poolAllocate_mem memcpy_dom store32_dom)

lemma full_fifo_null: "fst full_fifo NULL = None"
proof -
  obtain s where s: "createFifo (zero_mem 4096 128) 4096 4128 1 8 = Some s" "fifo_client 4200 1 8 s []"
    using empty_fifo by blast
  obtain s' where s': "fifo_push 4200 s [1, 2, 3, 4, 5, 6, 7, 8] = Some (s', 1)"
    using fifo.push_room [OF s(2), of "[1, 2, 3, 4, 5, 6, 7, 8]"] by auto
  have "dom (fst s') = dom (fst s)"
    using s' by (cases s; cases s') (auto simp: fifo_push_def elim!: bind_SomeE simp del: store_bytes.simps del: equalityI dest!: fifoAdd_dom store_bytes_dom)
  moreover have "dom (fst s) = dom (zero_mem 4096 128)" using s(1) createFifo_dom by (cases s) simp
  ultimately have "NULL \<notin> dom (fst full_fifo)" using s(1) s' by (simp add: full_fifo_def) (simp add: zero_mem_def dom_def)
  then show ?thesis by (simp add: dom_def)
qed

lemma fifoAdd_full_witness: "fifoAdd (fst full_fifo, snd full_fifo) 4200 = None"
  using full_fifo full_fifo_null by (intro fifoAdd_full [where xs = "[[1, 2, 3, 4, 5, 6, 7, 8]]"]) (simp_all add: fifo_client_def)

end
