(* ===== verification/Driver_Types.thy ===== *)
theory Driver_Types
  imports Formats
begin

text \<open>
  Data shared by the entry points of the driver: the return codes and flag values that come from
  the Vulkan headers (at the values these document), and the structures of driver/common.h for
  device memory, buffers, images and views.  A pointer field is the address of the object it
  points to, an array that an object owns is a list, and a \<open>float\<close> that is only copied is its bit
  pattern.  The objects of one type live in a typed store, a partial map from addresses to
  records, that the operations take and return.
\<close>

unbundle bit_operations_syntax

datatype VkResult = VK_SUCCESS | VK_NOT_READY | VK_TIMEOUT | VK_ERROR_OUT_OF_HOST_MEMORY
  | VK_ERROR_OUT_OF_DEVICE_MEMORY | VK_ERROR_MEMORY_MAP_FAILED | VK_INCOMPLETE

record deviceMemory =
  dm_size :: u32
  dm_bo :: u32
  dm_memTypeIndex :: u32
  dm_mappedPtr :: addr
  dm_mappedOffset :: u32
  dm_mappedSize :: u32

record buffer =
  bf_size :: u32
  bf_usage :: u32
  bf_boundMem :: addr
  bf_boundOffset :: u32
  bf_alignment :: u32
  bf_alignedSize :: u32

record image =
  im_type :: u32
  im_fb :: u32
  im_width :: u32
  im_height :: u32
  im_depth :: u32
  im_miplevels :: u32
  im_samples :: u32
  im_levelOffsets :: "u32 list"
  im_levelTiling :: "u32 list"
  im_layers :: u32
  im_size :: u32
  im_stride :: u32
  im_usageBits :: u32
  im_format :: VkFormat
  im_imageSpace :: u32
  im_tiling :: u32
  im_layout :: u32
  im_boundMem :: addr
  im_boundOffset :: u32
  im_alignment :: u32
  im_concurrentAccess :: u32
  im_numQueueFamiliesWithAccess :: u32
  im_queueFamiliesWithAccess :: "u32 list"
  im_preTransformMode :: u32
  im_compositeAlpha :: u32
  im_presentMode :: u32
  im_clipped :: u32
  im_flags :: u32

record VkImageSubresourceRange =
  sr_aspectMask :: u32
  sr_baseMipLevel :: u32
  sr_levelCount :: u32
  sr_baseArrayLayer :: u32
  sr_layerCount :: u32

datatype VkImageViewType = VK_IMAGE_VIEW_TYPE_1D | VK_IMAGE_VIEW_TYPE_2D | VK_IMAGE_VIEW_TYPE_3D
  | VK_IMAGE_VIEW_TYPE_CUBE | VK_IMAGE_VIEW_TYPE_other u32

record imageView =
  iv_image :: addr
  iv_viewType :: VkImageViewType
  iv_interpretedFormat :: VkFormat
  iv_swizzle :: "u32 list"
  iv_subresourceRange :: VkImageSubresourceRange

record bufferView =
  bv_buffer :: addr
  bv_format :: VkFormat
  bv_offset :: u64
  bv_range :: u64

subsection \<open>Constants of the driver and of the packet header\<close>

definition ARM_PAGE_SIZE :: u32 where "ARM_PAGE_SIZE = 4096"

definition VC4_TILING_FORMAT_LINEAR :: u32 where "VC4_TILING_FORMAT_LINEAR = 0"
definition VC4_TILING_FORMAT_T :: u32 where "VC4_TILING_FORMAT_T = 1"
definition VC4_TILING_FORMAT_LT :: u32 where "VC4_TILING_FORMAT_LT = 2"

text \<open>
  The driver has one memory type, index 0 of \<open>memoryTypes\<close> in driver/vkCaps.h, with the device
  local, host visible and host coherent flags.
\<close>

definition VK_MEMORY_PROPERTY_DEVICE_LOCAL_BIT :: u32 where "VK_MEMORY_PROPERTY_DEVICE_LOCAL_BIT = 1"
definition VK_MEMORY_PROPERTY_HOST_VISIBLE_BIT :: u32 where "VK_MEMORY_PROPERTY_HOST_VISIBLE_BIT = 2"
definition VK_MEMORY_PROPERTY_HOST_COHERENT_BIT :: u32 where "VK_MEMORY_PROPERTY_HOST_COHERENT_BIT = 4"

definition memoryTypes :: "u32 list" where
  "memoryTypes = [VK_MEMORY_PROPERTY_DEVICE_LOCAL_BIT OR VK_MEMORY_PROPERTY_HOST_VISIBLE_BIT OR
     VK_MEMORY_PROPERTY_HOST_COHERENT_BIT]"

text \<open>\<open>align\<close> and \<open>getBOAlignedSize\<close> of driver/kernelInterface.c; a zero alignment divides by zero.\<close>

definition align :: "u32 \<Rightarrow> u32 \<Rightarrow> u32 option" where
  "align num alignment =
     (if alignment = 0 then None
      else if num mod alignment = 0 then Some num else Some (num + alignment - num mod alignment))"

definition getBOAlignedSize :: "u32 \<Rightarrow> u32 \<Rightarrow> u32 option" where
  "getBOAlignedSize sz alignment = align sz alignment"

end
