(* ===== verification/Images.thy ===== *)
theory Images
  imports Driver_Types
begin

text \<open>
  driver/resource.c: buffers, images and views, and the placement of the mip levels of an image in
  its memory.  \<open>ALLOCATE\<close> is the address it returns, an argument of the operation (\<open>NULL\<close> when it
  fails).  \<open>vkGetImageMemoryRequirements\<close> lays the levels out from the smallest to the largest, then
  moves all of them so that level 0 starts on a page.
\<close>

unbundle bit_operations_syntax

subsection \<open>Buffers\<close>

record VkBufferCreateInfo =
  bci_size :: u64
  bci_usage :: u32

text \<open>\<open>u\<close> is what the new block holds at \<open>boundOffset\<close>, which is not set.\<close>

definition vkCreateBuffer ::
  "addr \<Rightarrow> u32 \<Rightarrow> VkBufferCreateInfo \<Rightarrow> (addr \<rightharpoonup> buffer) \<Rightarrow> ((addr \<rightharpoonup> buffer) \<times> VkResult \<times> addr) option" where
  "vkCreateBuffer p u ci bufs =
     (if p = NULL then Some (bufs, VK_ERROR_OUT_OF_HOST_MEMORY, NULL)
      else do {
        let sz = ucast (bci_size ci);
        aligned \<leftarrow> getBOAlignedSize sz ARM_PAGE_SIZE;
        Some (bufs(p \<mapsto> \<lparr>bf_size = sz, bf_usage = bci_usage ci, bf_boundMem = NULL, bf_boundOffset = u,
          bf_alignment = ARM_PAGE_SIZE, bf_alignedSize = aligned\<rparr>), VK_SUCCESS, p) })"

record VkMemoryRequirements =
  mr_size :: u64
  mr_alignment :: u64
  mr_memoryTypeBits :: u32

definition vkGetBufferMemoryRequirements :: "(addr \<rightharpoonup> buffer) \<Rightarrow> addr \<Rightarrow> VkMemoryRequirements option" where
  "vkGetBufferMemoryRequirements bufs p = do {
     buf \<leftarrow> bufs p;
     aligned \<leftarrow> getBOAlignedSize (bf_size buf) ARM_PAGE_SIZE;
     Some \<lparr>mr_size = ucast aligned, mr_alignment = ucast (bf_alignment buf),
       mr_memoryTypeBits = VK_MEMORY_PROPERTY_DEVICE_LOCAL_BIT OR VK_MEMORY_PROPERTY_HOST_VISIBLE_BIT OR
         VK_MEMORY_PROPERTY_HOST_COHERENT_BIT\<rparr> }"

definition vkBindBufferMemory ::
  "(addr \<rightharpoonup> buffer) \<Rightarrow> addr \<Rightarrow> addr \<Rightarrow> u64 \<Rightarrow> ((addr \<rightharpoonup> buffer) \<times> VkResult) option" where
  "vkBindBufferMemory bufs p memory memoryOffset = do {
     buf \<leftarrow> bufs p;
     Some (bufs(p \<mapsto> buf\<lparr>bf_boundMem := memory, bf_boundOffset := ucast memoryOffset\<rparr>), VK_SUCCESS) }"

text \<open>The loop over the bind infos; a failure is remembered and the loop goes on.\<close>

fun bind_all ::
  "('s \<Rightarrow> addr \<Rightarrow> addr \<Rightarrow> u64 \<Rightarrow> ('s \<times> VkResult) option) \<Rightarrow> 's \<Rightarrow> VkResult \<Rightarrow> (addr \<times> addr \<times> u64) list \<Rightarrow>
    ('s \<times> VkResult) option" where
  "bind_all bind1 s ret [] = Some (s, ret)"
| "bind_all bind1 s ret ((p, memory, off) # infos) = do {
     (s', res) \<leftarrow> bind1 s p memory off;
     bind_all bind1 s' (if res \<noteq> VK_SUCCESS then res else ret) infos }"

definition vkBindBufferMemory2 ::
  "(addr \<rightharpoonup> buffer) \<Rightarrow> (addr \<times> addr \<times> u64) list \<Rightarrow> ((addr \<rightharpoonup> buffer) \<times> VkResult) option" where
  "vkBindBufferMemory2 bufs infos = bind_all vkBindBufferMemory bufs VK_SUCCESS infos"

definition vkDestroyBuffer :: "(addr \<rightharpoonup> buffer) \<Rightarrow> addr \<Rightarrow> (addr \<rightharpoonup> buffer)" where
  "vkDestroyBuffer bufs p = (if p = NULL then bufs else bufs(p := None))"

record VkBufferViewCreateInfo =
  bvci_buffer :: addr
  bvci_format :: VkFormat
  bvci_offset :: u64
  bvci_range :: u64

definition vkCreateBufferView ::
  "addr \<Rightarrow> VkBufferViewCreateInfo \<Rightarrow> (addr \<rightharpoonup> bufferView) \<Rightarrow> (addr \<rightharpoonup> bufferView) \<times> VkResult \<times> addr" where
  "vkCreateBufferView p ci views =
     (if p = NULL then (views, VK_ERROR_OUT_OF_HOST_MEMORY, NULL)
      else (views(p \<mapsto> \<lparr>bv_buffer = bvci_buffer ci, bv_format = bvci_format ci, bv_offset = bvci_offset ci,
        bv_range = bvci_range ci\<rparr>), VK_SUCCESS, p))"

definition vkDestroyBufferView :: "(addr \<rightharpoonup> bufferView) \<Rightarrow> addr \<Rightarrow> (addr \<rightharpoonup> bufferView)" where
  "vkDestroyBufferView views p = (if p = NULL then views else views(p := None))"

subsection \<open>Image views\<close>

record VkImageViewCreateInfo =
  ivci_image :: addr
  ivci_viewType :: VkImageViewType
  ivci_format :: VkFormat
  ivci_components :: "u32 list"
  ivci_subresourceRange :: VkImageSubresourceRange

definition vkCreateImageView ::
  "addr \<Rightarrow> VkImageViewCreateInfo \<Rightarrow> (addr \<rightharpoonup> imageView) \<Rightarrow> (addr \<rightharpoonup> imageView) \<times> VkResult \<times> addr" where
  "vkCreateImageView p ci views =
     (if p = NULL then (views, VK_ERROR_OUT_OF_HOST_MEMORY, NULL)
      else (views(p \<mapsto> \<lparr>iv_image = ivci_image ci, iv_viewType = ivci_viewType ci,
        iv_interpretedFormat = ivci_format ci, iv_swizzle = ivci_components ci,
        iv_subresourceRange = ivci_subresourceRange ci\<rparr>), VK_SUCCESS, p))"

definition vkDestroyImageView :: "(addr \<rightharpoonup> imageView) \<Rightarrow> addr \<Rightarrow> (addr \<rightharpoonup> imageView)" where
  "vkDestroyImageView views p = (if p = NULL then views else views(p := None))"

subsection \<open>Images\<close>

record VkImageCreateInfo =
  ici_flags :: u32
  ici_imageType :: u32
  ici_format :: VkFormat
  ici_width :: u32
  ici_height :: u32
  ici_depth :: u32
  ici_mipLevels :: u32
  ici_arrayLayers :: u32
  ici_samples :: u32
  ici_tilingLinear :: bool
  ici_usage :: u32
  ici_sharingMode :: u32
  ici_queueFamilyIndices :: "u32 list"
  ici_initialLayout :: u32

text \<open>
  \<open>p\<close> and \<open>q\<close> are the results of the two calls of \<open>ALLOCATE\<close>.  The list of queue families is the
  content of the second block; the field is not set when there is none.
\<close>

definition vkCreateImage ::
  "addr \<Rightarrow> addr \<Rightarrow> VkImageCreateInfo \<Rightarrow> (addr \<rightharpoonup> image) \<Rightarrow> ((addr \<rightharpoonup> image) \<times> VkResult \<times> addr) option" where
  "vkCreateImage p q ci imgs =
     (if p = NULL then Some (imgs, VK_ERROR_OUT_OF_HOST_MEMORY, NULL)
      else do {
        tiling \<leftarrow> (if ici_tilingLinear ci then Some VC4_TILING_FORMAT_LINEAR
          else do {
            isLT \<leftarrow> isLTformat (getFormatBpp (ici_format ci)) (ici_width ci) (ici_height ci);
            Some (if \<not> isLT then VC4_TILING_FORMAT_T else VC4_TILING_FORMAT_LT) });
        let i = \<lparr>im_type = ici_imageType ci, im_fb = 0, im_width = ici_width ci, im_height = ici_height ci,
          im_depth = ici_depth ci, im_miplevels = ici_mipLevels ci, im_samples = ici_samples ci,
          im_levelOffsets = replicate 12 0, im_levelTiling = replicate 12 0, im_layers = ici_arrayLayers ci,
          im_size = 0, im_stride = 0, im_usageBits = ici_usage ci, im_format = ici_format ci,
          im_imageSpace = 0, im_tiling = tiling, im_layout = ici_initialLayout ci, im_boundMem = NULL,
          im_boundOffset = 0, im_alignment = ARM_PAGE_SIZE, im_concurrentAccess = ici_sharingMode ci,
          im_numQueueFamiliesWithAccess = of_nat (length (ici_queueFamilyIndices ci)),
          im_queueFamiliesWithAccess = ici_queueFamilyIndices ci, im_preTransformMode = 0,
          im_compositeAlpha = 0, im_presentMode = 0, im_clipped = 0, im_flags = ici_flags ci\<rparr>;
        if im_numQueueFamiliesWithAccess i > 0 \<and> q = NULL
        then Some (imgs, VK_ERROR_OUT_OF_HOST_MEMORY, NULL)
        else Some (imgs(p \<mapsto> i), VK_SUCCESS, p) })"

definition vkDestroyImage :: "(addr \<rightharpoonup> image) \<Rightarrow> addr \<Rightarrow> (addr \<rightharpoonup> image)" where
  "vkDestroyImage imgs p = (if p = NULL then imgs else imgs(p := None))"

subsection \<open>The placement of the mip levels\<close>

text \<open>
  The padded size of level \<open>c\<close> and its tiling.  \<open>wh\<close> is the size of level 0, \<open>pot\<close> that size
  rounded up to powers of two, from which the smaller levels are halved.
\<close>

definition mip_extent :: "image \<Rightarrow> u32 \<Rightarrow> u32 \<times> u32 \<Rightarrow> u32 \<times> u32 \<Rightarrow> u32 \<times> u32 \<Rightarrow> nat \<Rightarrow> (u32 \<times> u32 \<times> u32) option" where
  "mip_extent i bpp utile wh pot c = (
     let (utileW, utileH) = utile;
         mipW = (if c = 0 then fst wh else max (drop_bit c (fst pot)) 1);
         mipH = (if c = 0 then snd wh else max (drop_bit c (snd pot)) 1)
     in if im_tiling i = VC4_TILING_FORMAT_LINEAR
        then if im_samples i > 1 then Some (roundUp mipW 32, roundUp mipH 32, im_tiling i)
             else Some (roundUp mipW utileW, mipH, im_tiling i)
        else do {
          isMipLT \<leftarrow> isLTformat bpp mipW mipH;
          Some (if isMipLT then (roundUp mipW utileW, roundUp mipH utileH, VC4_TILING_FORMAT_LT)
                else (roundUp mipW (utileW * 8), roundUp mipH (utileH * 8), im_tiling i)) })"

text \<open>
  The loop from level \<open>k - 1\<close> down to level 0, over the image, the running offset, and the local
  arrays \<open>sizes\<close> and \<open>strides\<close>.
\<close>

fun mip_loop ::
  "u32 \<Rightarrow> u32 \<times> u32 \<Rightarrow> u32 \<times> u32 \<Rightarrow> u32 \<times> u32 \<Rightarrow> nat \<Rightarrow> image \<times> u32 \<times> u32 list \<times> u32 list \<Rightarrow>
    (image \<times> u32 \<times> u32 list \<times> u32 list) option" where
  "mip_loop bpp utile wh pot 0 st = Some st"
| "mip_loop bpp utile wh pot (Suc c) (i, offset, sizes, strides) = do {
     (mipW, mipH, tiling) \<leftarrow> mip_extent i bpp utile wh pot c;
     let stride = drop_bit 3 (mipW * bpp * max (im_samples i) 1);
     let sz = mipH * stride;
     mip_loop bpp utile wh pot c
       (i\<lparr>im_levelTiling := (im_levelTiling i)[c := tiling], im_levelOffsets := (im_levelOffsets i)[c := offset]\<rparr>,
        offset + sz, sizes[c := sz], strides[c := stride]) }"

text \<open>
  No level, or more than the twelve that the arrays hold, is undefined: the arrays are overrun or
  read where they were not written.  The local arrays start as zeros here, what is read of them was
  written.
\<close>

definition image_layout :: "image \<Rightarrow> image option" where
  "image_layout i = do {
     let bpp = getFormatBpp (im_format i);
     utile \<leftarrow> getUTileDimensions bpp;
     let etc = (im_format i = VK_FORMAT_ETC2_R8G8B8_UNORM_BLOCK);
     let w = (if etc then drop_bit 2 (im_width i + 3) else im_width i);
     let h = (if etc then drop_bit 2 (im_height i + 3) else im_height i);
     let n = unat (im_miplevels i);
     if n = 0 \<or> 12 < n then None
     else do {
       (i1, offset, sizes, strides) \<leftarrow>
         mip_loop bpp utile (w, h) (getPow2Pad w, getPow2Pad h) n (i, 0, replicate 12 0, replicate 12 0);
       let off0 = im_levelOffsets i1 ! 0;
       let levelZeroOffset = roundUp off0 ARM_PAGE_SIZE - off0;
       let i2 = (if levelZeroOffset \<noteq> 0
         then i1\<lparr>im_levelOffsets := map ((+) levelZeroOffset) (take n (im_levelOffsets i1)) @ drop n (im_levelOffsets i1)\<rparr>
         else i1);
       aligned \<leftarrow> getBOAlignedSize (sizes ! 0 + im_levelOffsets i2 ! 0) ARM_PAGE_SIZE;
       Some (i2\<lparr>im_size := aligned * im_layers i2, im_stride := strides ! 0\<rparr>) } }"

definition vkGetImageMemoryRequirements ::
  "(addr \<rightharpoonup> image) \<Rightarrow> addr \<Rightarrow> ((addr \<rightharpoonup> image) \<times> VkMemoryRequirements) option" where
  "vkGetImageMemoryRequirements imgs p = do {
     i \<leftarrow> imgs p;
     i' \<leftarrow> image_layout i;
     Some (imgs(p \<mapsto> i'), \<lparr>mr_size = ucast (im_size i'), mr_alignment = ucast ARM_PAGE_SIZE,
       mr_memoryTypeBits = memoryTypes ! 0\<rparr>) }"

text \<open>
  The binding asks the kernel to note the tiling of the buffer object; the request is recorded as
  the format modifier, its result is only asserted.
\<close>

datatype bo_tiling = DRM_FORMAT_MOD_LINEAR | DRM_FORMAT_MOD_BROADCOM_VC4_T_TILED

definition vkBindImageMemory ::
  "(addr \<rightharpoonup> deviceMemory) \<Rightarrow> (addr \<rightharpoonup> image) \<times> (u32 \<times> bo_tiling) list \<Rightarrow> addr \<Rightarrow> addr \<Rightarrow> u64 \<Rightarrow>
    (((addr \<rightharpoonup> image) \<times> (u32 \<times> bo_tiling) list) \<times> VkResult) option" where
  "vkBindImageMemory mems s p memory memoryOffset = do {
     let (imgs, log) = s;
     i \<leftarrow> imgs p;
     m \<leftarrow> mems memory;
     let i' = i\<lparr>im_boundMem := memory, im_boundOffset := ucast memoryOffset\<rparr>;
     let log' = (if im_tiling i' = VC4_TILING_FORMAT_LINEAR then log @ [(dm_bo m, DRM_FORMAT_MOD_LINEAR)]
       else if im_tiling i' = VC4_TILING_FORMAT_T \<or> im_tiling i' = VC4_TILING_FORMAT_LT
       then log @ [(dm_bo m, DRM_FORMAT_MOD_BROADCOM_VC4_T_TILED)] else log);
     Some ((imgs(p \<mapsto> i'), log'), VK_SUCCESS) }"

definition vkBindImageMemory2 ::
  "(addr \<rightharpoonup> deviceMemory) \<Rightarrow> (addr \<rightharpoonup> image) \<times> (u32 \<times> bo_tiling) list \<Rightarrow> (addr \<times> addr \<times> u64) list \<Rightarrow>
    (((addr \<rightharpoonup> image) \<times> (u32 \<times> bo_tiling) list) \<times> VkResult) option" where
  "vkBindImageMemory2 mems s infos = bind_all (vkBindImageMemory mems) s VK_SUCCESS infos"

subsection \<open>The layout in natural numbers\<close>

text \<open>
  The reference: the padded extent of a level, its bytes per row and its bytes, computed without a
  word size.
\<close>

definition ceil_to :: "nat \<Rightarrow> nat \<Rightarrow> nat" where
  "ceil_to m x = (x + m - 1) div m * m"

definition level_extent :: "image \<Rightarrow> nat \<times> nat \<Rightarrow> nat \<Rightarrow> nat \<times> nat" where
  "level_extent i wh c = (if c = 0 then wh
     else (max (unat (getPow2Pad (of_nat (fst wh))) div 2 ^ c) 1, max (unat (getPow2Pad (of_nat (snd wh))) div 2 ^ c) 1))"

definition image_extent :: "image \<Rightarrow> nat \<times> nat" where
  "image_extent i = (let blk = (if im_format i = VK_FORMAT_ETC2_R8G8B8_UNORM_BLOCK then 4 else 1) in
     ((unat (im_width i) + blk - 1) div blk, (unat (im_height i) + blk - 1) div blk))"

definition level_small :: "nat \<times> nat \<Rightarrow> nat \<times> nat \<Rightarrow> bool" where
  "level_small utile wh \<longleftrightarrow> fst wh \<le> 4 * fst utile \<or> snd wh \<le> 4 * snd utile"

definition level_unit :: "image \<Rightarrow> nat \<times> nat \<Rightarrow> nat \<times> nat \<Rightarrow> nat \<times> nat" where
  "level_unit i utile wh =
     (if im_tiling i = VC4_TILING_FORMAT_LINEAR then if 1 < unat (im_samples i) then (32, 32) else (fst utile, 1)
      else if level_small utile wh then utile else (8 * fst utile, 8 * snd utile))"

definition level_tiling :: "image \<Rightarrow> nat \<times> nat \<Rightarrow> nat \<times> nat \<Rightarrow> u32" where
  "level_tiling i utile wh =
     (if im_tiling i \<noteq> VC4_TILING_FORMAT_LINEAR \<and> level_small utile wh then VC4_TILING_FORMAT_LT else im_tiling i)"

definition level_stride :: "image \<Rightarrow> nat \<times> nat \<Rightarrow> nat \<Rightarrow> nat" where
  "level_stride i utile c = (let wh = level_extent i (image_extent i) c in
     ceil_to (fst (level_unit i utile wh)) (fst wh) * unat (getFormatBpp (im_format i)) *
       max (unat (im_samples i)) 1 div 8)"

definition level_bytes :: "image \<Rightarrow> nat \<times> nat \<Rightarrow> nat \<Rightarrow> nat" where
  "level_bytes i utile c = (let wh = level_extent i (image_extent i) c in
     ceil_to (snd (level_unit i utile wh)) (snd wh) * level_stride i utile c)"

text \<open>The images that the limits of driver/vkCaps.h allow, with the sample counts of the hardware.\<close>

definition image_in_limits :: "image \<Rightarrow> bool" where
  "image_in_limits i \<longleftrightarrow> im_width i \<in> {1..2048} \<and> im_height i \<in> {1..2048} \<and> im_samples i \<le> 4 \<and>
     im_miplevels i \<in> {1..12} \<and> getFormatBpp (im_format i) \<le> 128"

lemma ceil_to_le: "m dvd k \<Longrightarrow> 0 < m \<Longrightarrow> x \<le> k \<Longrightarrow> ceil_to m x \<le> k"
proof -
  assume m: "m dvd k" "0 < m" and x: "x \<le> k"
  then obtain q where q: "k = m * q" by blast
  have "x + m - 1 < m * (q + 1)" using x m(2) q by (simp add: algebra_simps)
  then have "(x + m - 1) div m < q + 1" using m(2) by (simp add: div_less_iff_less_mult mult.commute)
  then have "(x + m - 1) div m \<le> q" by simp
  then show ?thesis unfolding ceil_to_def q by (simp add: mult.commute)
qed

lemma ceil_to_ge: "0 < m \<Longrightarrow> x \<le> ceil_to m x"
proof -
  assume m: "0 < m"
  have "x + m - 1 = (x + m - 1) div m * m + (x + m - 1) mod m" by simp
  moreover have "(x + m - 1) mod m < m" using m by simp
  ultimately show ?thesis unfolding ceil_to_def by linarith
qed

lemma ceil_to_dvd: "m dvd ceil_to m x"
  by (simp add: ceil_to_def)

lemma ceil_to_mod:
  assumes "0 < m"
  shows "ceil_to m x = (if x mod m = 0 then x else x + m - x mod m)"
proof -
  have x: "x = x div m * m + x mod m" by simp
  show ?thesis
  proof (cases "x mod m = 0")
    case True
    then obtain q where "x = m * q" by blast
    moreover have "(m * q + m - 1) div m = q"
      using assms by (intro div_nat_eqI) (auto simp: algebra_simps)
    ultimately show ?thesis using True by (simp add: ceil_to_def mult.commute)
  next
    case False
    have "(x + m - 1) div m = x div m + 1"
    proof (rule div_nat_eqI)
      define q r where "q = x div m" and "r = x mod m"
      have "x = m * q + r" "0 < r" "r < m" using x False assms by (simp_all add: q_def r_def mult.commute)
      then show "m * (x div m + 1) \<le> x + m - 1" "x + m - 1 < m * Suc (x div m + 1)"
        unfolding q_def [symmetric] by (simp_all add: algebra_simps)
    qed
    moreover have "x + m - x mod m = x div m * m + m" using x by linarith
    ultimately show ?thesis using False by (simp add: ceil_to_def)
  qed
qed

lemma unat_roundUp:
  assumes "0 < unat m" "unat x + unat m < 2 ^ 32"
  shows "unat (roundUp x m) = ceil_to (unat m) (unat x)"
proof -
  have m: "m \<noteq> 0" using assms(1) by auto
  have "unat (x + m) = unat x + unat m" using assms(2) by (simp add: unat_word_ariths)
  moreover have "unat (x mod m) \<le> unat m"
    using assms(1) by (simp add: unat_mod less_imp_le)
  ultimately have "unat (x + m - x mod m) = unat x + unat m - unat (x mod m)"
    by (simp add: unat_sub word_le_nat_alt)
  then show ?thesis
    using m assms(1) by (simp add: roundUp_def Let_def ceil_to_mod unat_mod unat_eq_0 [symmetric])
qed

lemma getBOAlignedSize_roundUp: "0 < m \<Longrightarrow> getBOAlignedSize x m = Some (roundUp x m)"
  by (simp add: getBOAlignedSize_def align_def roundUp_def Let_def)

lemma getPow2Pad_le:
  assumes "n \<in> {1..2048}"
  shows "unat (getPow2Pad n) \<le> 2048"
proof (cases "n - 1 = 0")
  case True
  then have "n = 1" by simp
  then show ?thesis by (simp add: getPow2Pad_def)
next
  case False
  from top_bit [OF this] obtain h where h: "2 ^ h \<le> unat (n - 1)" "unat (n - 1) < 2 ^ Suc h"
    "bit (n - 1) h" "\<And>j. h < j \<Longrightarrow> \<not> bit (n - 1) j" by blast
  have "n \<noteq> 0" using assms by auto
  then have "unat (n - 1) = unat n - 1" by (simp add: unat_minus_one)
  moreover have "unat n \<le> 2048" "0 < unat n" using assms \<open>n \<noteq> 0\<close> by (simp_all add: word_le_nat_alt)
  ultimately have "unat (n - 1) < 2048" by linarith
  then have "(2 :: nat) ^ h < 2 ^ 11" using h(1) by simp
  then have "h < 11" by (simp only: power_strict_increasing_iff)
  then have "(2 :: nat) ^ Suc h \<le> 2 ^ 11" by (intro power_increasing) auto
  moreover have "getPow2Pad n = of_nat (2 ^ Suc h)"
    using getPow2Pad_smear [OF False h] by (simp add: mask_eq_exp_minus_1)
  moreover have "unat (of_nat (2 ^ Suc h) :: u32) = 2 ^ Suc h"
    using calculation(1) by (intro unat_of_nat_u32) simp
  ultimately show ?thesis by simp
qed

lemma image_extent_range:
  assumes "image_in_limits i"
  shows "fst (image_extent i) \<in> {1..2048}" "snd (image_extent i) \<in> {1..2048}"
  using assms by (auto simp: image_in_limits_def image_extent_def Let_def word_le_nat_alt)

lemma level_extent_range:
  assumes "image_in_limits i"
  shows "fst (level_extent i (image_extent i) c) \<in> {1..2048}" "snd (level_extent i (image_extent i) c) \<in> {1..2048}"
proof -
  have b: "unat (getPow2Pad (of_nat n)) div 2 ^ c \<le> 2048" if "n \<in> {1..2048}" for n
  proof -
    have "unat (of_nat n :: u32) = n" using that by (simp add: unat_of_nat_u32)
    then have "(of_nat n :: u32) \<in> {1..2048}" using that by (simp add: word_le_nat_alt)
    then have "unat (getPow2Pad (of_nat n)) \<le> 2048" by (rule getPow2Pad_le)
    then show ?thesis by (meson div_le_dividend le_trans)
  qed
  show "fst (level_extent i (image_extent i) c) \<in> {1..2048}" "snd (level_extent i (image_extent i) c) \<in> {1..2048}"
    using image_extent_range [OF assms] b [of "fst (image_extent i)"] b [of "snd (image_extent i)"]
    by (auto simp: level_extent_def)
qed

lemma utile_cases:
  assumes "getUTileDimensions bpp = Some (tw, th)" "bpp \<le> 128"
  shows "(unat bpp, unat tw, unat th) \<in> {(128, 2, 2), (64, 2, 4), (32, 4, 4), (24, 4, 4), (16, 8, 4), (8, 8, 8),
    (4, 16, 8), (1, 32, 16)}"
proof -
  have "(128 :: u32) < 256" by simp
  then have "bpp \<noteq> 256" using assms(2) by auto
  then show ?thesis using assms(1) unfolding getUTileDimensions_def by (auto split: if_splits)
qed

lemma level_unit_props:
  assumes "getUTileDimensions (getFormatBpp (im_format i)) = Some (tw, th)" "image_in_limits i"
  shows "fst (level_unit i (unat tw, unat th) wh) dvd 2048" "snd (level_unit i (unat tw, unat th) wh) dvd 2048"
    "0 < fst (level_unit i (unat tw, unat th) wh)" "0 < snd (level_unit i (unat tw, unat th) wh)"
    "fst (level_unit i (unat tw, unat th) wh) \<le> 2048" "snd (level_unit i (unat tw, unat th) wh) \<le> 2048"
proof -
  have "getFormatBpp (im_format i) \<le> 128" using assms(2) by (simp add: image_in_limits_def)
  from utile_cases [OF assms(1) this]
  have u: "(unat tw, unat th) \<in> {(2, 2), (2, 4), (4, 4), (8, 4), (8, 8), (16, 8), (32, 16)}" by auto
  have d: "(16 :: nat) dvd 2048" "(32 :: nat) dvd 2048" "(64 :: nat) dvd 2048" "(128 :: nat) dvd 2048"
    "(256 :: nat) dvd 2048" "(8 :: nat) dvd 2048" "(4 :: nat) dvd 2048" "(2 :: nat) dvd 2048" by simp_all
  show "fst (level_unit i (unat tw, unat th) wh) dvd 2048" "snd (level_unit i (unat tw, unat th) wh) dvd 2048"
    "0 < fst (level_unit i (unat tw, unat th) wh)" "0 < snd (level_unit i (unat tw, unat th) wh)"
    "fst (level_unit i (unat tw, unat th) wh) \<le> 2048" "snd (level_unit i (unat tw, unat th) wh) \<le> 2048"
    using u by (auto simp: level_unit_def d)
qed

lemma unat_times_8: "unat (t :: u32) \<le> 32 \<Longrightarrow> unat (t * 8) = unat t * 8" "unat (t :: u32) \<le> 32 \<Longrightarrow> unat (4 * t) = 4 * unat t"
  by (simp_all add: unat_word_ariths)

lemma unat_drop: "unat (drop_bit c (x :: u32)) = unat x div 2 ^ c"
  by (metis drop_bit_eq_div unat_drop_bit_eq)

lemma max_word_nat: "unat (max (x :: u32) 1) = max (unat x) 1"
  by (simp add: max_def word_le_nat_alt)

lemma mip_extent_spec:
  assumes ut: "getUTileDimensions (getFormatBpp (im_format i)) = Some (tw, th)" and lim: "image_in_limits i"
    and w: "w = of_nat (fst (image_extent i))" "h = of_nat (snd (image_extent i))" and c: "c < 12"
  shows "\<exists>W H. mip_extent i (getFormatBpp (im_format i)) (tw, th) (w, h) (getPow2Pad w, getPow2Pad h) c =
      Some (W, H, level_tiling i (unat tw, unat th) (level_extent i (image_extent i) c)) \<and>
    unat W = ceil_to (fst (level_unit i (unat tw, unat th) (level_extent i (image_extent i) c)))
      (fst (level_extent i (image_extent i) c)) \<and>
    unat H = ceil_to (snd (level_unit i (unat tw, unat th) (level_extent i (image_extent i) c)))
      (snd (level_extent i (image_extent i) c))"
proof -
  let ?wh = "level_extent i (image_extent i) c"
  define W where "W = (if c = 0 then w else max (drop_bit c (getPow2Pad w)) 1)"
  define H where "H = (if c = 0 then h else max (drop_bit c (getPow2Pad h)) 1)"
  have u: "unat tw \<in> {1..32}" "unat th \<in> {1..32}"
    using utile_cases [OF ut] lim by (auto simp: image_in_limits_def)
  have "unat w = fst (image_extent i)" "unat h = snd (image_extent i)"
    using image_extent_range [OF lim] by (simp_all add: w unat_of_nat_u32)
  then have WH: "unat W = fst ?wh" "unat H = snd ?wh"
    by (simp_all add: W_def H_def level_extent_def max_word_nat unat_drop w)
  have r: "unat W \<le> 2048" "unat H \<le> 2048" using level_extent_range [OF lim, of c] WH by simp_all
  have R: "unat (roundUp x m) = ceil_to (unat m) (unat x)" if "unat x \<le> 2048" "unat m \<in> {1..256}" for x m
    using that by (intro unat_roundUp) auto
  have lt: "isLTformat (getFormatBpp (im_format i)) W H = Some (level_small (unat tw, unat th) ?wh)"
    using u unat_times_8(2) [of tw] unat_times_8(2) [of th]
    by (simp add: isLTformat_def ut level_small_def WH [symmetric] word_le_nat_alt)
  have m: "mip_extent i (getFormatBpp (im_format i)) (tw, th) (w, h) (getPow2Pad w, getPow2Pad h) c =
      (if im_tiling i = VC4_TILING_FORMAT_LINEAR
       then if im_samples i > 1 then Some (roundUp W 32, roundUp H 32, im_tiling i)
            else Some (roundUp W tw, H, im_tiling i)
       else Some (if level_small (unat tw, unat th) ?wh then (roundUp W tw, roundUp H th, VC4_TILING_FORMAT_LT)
            else (roundUp W (tw * 8), roundUp H (th * 8), im_tiling i)))"
    unfolding mip_extent_def Let_def prod.case fst_conv snd_conv W_def [symmetric] H_def [symmetric] lt bind.simps
    by (rule refl)
  have one: "ceil_to (Suc 0) x = x" for x by (simp add: ceil_to_def)
  have "1 < im_samples i \<longleftrightarrow> 1 < unat (im_samples i)" by (simp add: word_less_nat_alt)
  then show ?thesis
    using r u R [of W 32] R [of H 32] R [of W tw] R [of H th] R [of W "tw * 8"] R [of H "th * 8"]
      unat_times_8(1) [of tw] unat_times_8(1) [of th]
    by (simp add: m level_unit_def level_tiling_def WH one mult.commute)
qed

text \<open>The bytes of a level fit a word, and so do the bytes of all levels together.\<close>

lemma level_sizes:
  assumes ut: "getUTileDimensions (getFormatBpp (im_format i)) = Some (tw, th)" and lim: "image_in_limits i"
  shows "ceil_to (fst (level_unit i (unat tw, unat th) wh)) (fst (level_extent i (image_extent i) c)) \<le> 2048"
    "ceil_to (snd (level_unit i (unat tw, unat th) wh)) (snd (level_extent i (image_extent i) c)) \<le> 2048"
    "level_stride i (unat tw, unat th) c \<le> 2 ^ 17" "level_bytes i (unat tw, unat th) c \<le> 2 ^ 28"
proof -
  have W: "ceil_to (fst (level_unit i (unat tw, unat th) wh)) (fst (level_extent i (image_extent i) c)) \<le> 2048"
    "ceil_to (snd (level_unit i (unat tw, unat th) wh)) (snd (level_extent i (image_extent i) c)) \<le> 2048" for wh
    using level_unit_props [OF ut lim, of wh] level_extent_range [OF lim, of c] by (auto intro!: ceil_to_le)
  then show "ceil_to (fst (level_unit i (unat tw, unat th) wh)) (fst (level_extent i (image_extent i) c)) \<le> 2048"
    "ceil_to (snd (level_unit i (unat tw, unat th) wh)) (snd (level_extent i (image_extent i) c)) \<le> 2048"
    by blast+
  have "unat (getFormatBpp (im_format i)) \<le> 128" "max (unat (im_samples i)) 1 \<le> 4"
    using lim by (simp_all add: image_in_limits_def word_le_nat_alt)
  then have "ceil_to (fst (level_unit i (unat tw, unat th) wh)) (fst (level_extent i (image_extent i) c)) *
      unat (getFormatBpp (im_format i)) * max (unat (im_samples i)) 1 \<le> 2048 * 128 * 4" for wh
    using W by (intro mult_mono) auto
  then show s: "level_stride i (unat tw, unat th) c \<le> 2 ^ 17"
    unfolding level_stride_def Let_def using div_le_mono [of _ "2048 * 128 * 4" 8] by fastforce
  have "ceil_to (snd (level_unit i (unat tw, unat th) wh)) (snd (level_extent i (image_extent i) c)) *
      level_stride i (unat tw, unat th) c \<le> 2048 * 2 ^ 17" for wh
    using W s by (intro mult_mono) auto
  then show "level_bytes i (unat tw, unat th) c \<le> 2 ^ 28"
    unfolding level_bytes_def Let_def by fastforce
qed

lemma level_sum:
  assumes ut: "getUTileDimensions (getFormatBpp (im_format i)) = Some (tw, th)" and lim: "image_in_limits i"
    and D: "finite D" "card D \<le> 12"
  shows "(\<Sum>d\<in>D. level_bytes i (unat tw, unat th) d) \<le> 12 * 2 ^ 28"
proof -
  have "(\<Sum>d\<in>D. level_bytes i (unat tw, unat th) d) \<le> (\<Sum>d\<in>D. 2 ^ 28)"
    by (rule sum_mono) (rule level_sizes [OF ut lim])
  also have "\<dots> \<le> 12 * 2 ^ 28" using D by simp
  finally show ?thesis .
qed

lemma mip_extent_cong:
  assumes "im_tiling i' = im_tiling i" "im_samples i' = im_samples i"
  shows "mip_extent i' = mip_extent i"
  unfolding mip_extent_def assms ..

lemma mip_loop_spec:
  assumes "\<And>c. c < k \<Longrightarrow> \<exists>W H. mip_extent i bpp utile wh pot c = Some (W, H, T c) \<and>
      drop_bit 3 (W * bpp * max (im_samples i) 1) = of_nat (st c) \<and> H * of_nat (st c) = of_nat (sz c)"
    and "k \<le> 12" "length F = 12" "length L = 12" "length S = 12" "length R = 12"
  shows "\<exists>F' L' S' R'. mip_loop bpp utile wh pot k (i\<lparr>im_levelTiling := L, im_levelOffsets := F\<rparr>, off, S, R) =
      Some (i\<lparr>im_levelTiling := L', im_levelOffsets := F'\<rparr>, off + of_nat (\<Sum>d<k. sz d), S', R') \<and>
    length F' = 12 \<and> length L' = 12 \<and> length S' = 12 \<and> length R' = 12 \<and>
    (\<forall>c<k. F' ! c = off + of_nat (\<Sum>d\<in>{c<..<k}. sz d) \<and> L' ! c = T c \<and> S' ! c = of_nat (sz c) \<and> R' ! c = of_nat (st c)) \<and>
    (\<forall>c\<ge>k. F' ! c = F ! c \<and> L' ! c = L ! c \<and> S' ! c = S ! c \<and> R' ! c = R ! c)"
  using assms
proof (induction k arbitrary: off F L S R)
  case 0
  then show ?case by auto
next
  case (Suc k)
  obtain W H where e: "mip_extent i bpp utile wh pot k = Some (W, H, T k)"
    "drop_bit 3 (W * bpp * max (im_samples i) 1) = of_nat (st k)" "H * of_nat (st k) = of_nat (sz k)"
    using Suc.prems(1) [of k] by auto
  let ?F = "F[k := off]" and ?L = "L[k := T k]" and ?S = "S[k := of_nat (sz k)]" and ?R = "R[k := of_nat (st k)]"
  have step: "mip_loop bpp utile wh pot (Suc k) (i\<lparr>im_levelTiling := L, im_levelOffsets := F\<rparr>, off, S, R) =
      mip_loop bpp utile wh pot k (i\<lparr>im_levelTiling := ?L, im_levelOffsets := ?F\<rparr>, off + of_nat (sz k), ?S, ?R)"
    using e mip_extent_cong [of "i\<lparr>im_levelTiling := L, im_levelOffsets := F\<rparr>" i] by (simp add: Let_def)
  obtain F' L' S' R' where r: "mip_loop bpp utile wh pot k
        (i\<lparr>im_levelTiling := ?L, im_levelOffsets := ?F\<rparr>, off + of_nat (sz k), ?S, ?R) =
      Some (i\<lparr>im_levelTiling := L', im_levelOffsets := F'\<rparr>, off + of_nat (sz k) + of_nat (\<Sum>d<k. sz d), S', R')"
    "length F' = 12" "length L' = 12" "length S' = 12" "length R' = 12"
    "\<forall>c<k. F' ! c = off + of_nat (sz k) + of_nat (\<Sum>d\<in>{c<..<k}. sz d) \<and> L' ! c = T c \<and> S' ! c = of_nat (sz c) \<and>
      R' ! c = of_nat (st c)"
    "\<forall>c\<ge>k. F' ! c = ?F ! c \<and> L' ! c = ?L ! c \<and> S' ! c = ?S ! c \<and> R' ! c = ?R ! c"
    using Suc.IH [of ?F ?L ?S ?R "off + of_nat (sz k)"] Suc.prems by auto
  have "{c<..<Suc k} = insert k {c<..<k}" if "c < k" for c using that by auto
  then have "off + of_nat (sz k) + of_nat (\<Sum>d\<in>{c<..<k}. sz d) = off + of_nat (\<Sum>d\<in>{c<..<Suc k}. sz d)"
    if "c < k" for c using that by (simp add: add.assoc)
  moreover have "{k<..<Suc k} = {}" by auto
  ultimately have "\<forall>c<Suc k. F' ! c = off + of_nat (\<Sum>d\<in>{c<..<Suc k}. sz d) \<and> L' ! c = T c \<and>
      S' ! c = of_nat (sz c) \<and> R' ! c = of_nat (st c)"
    using r(6,7) Suc.prems by (auto simp: less_Suc_eq)
  moreover have "\<forall>c\<ge>Suc k. F' ! c = F ! c \<and> L' ! c = L ! c \<and> S' ! c = S ! c \<and> R' ! c = R ! c"
    using r(7) by simp
  moreover have "off + of_nat (sz k) + of_nat (\<Sum>d<k. sz d) = off + of_nat (\<Sum>d<Suc k. sz d)" by (simp add: add.assoc)
  ultimately show ?case unfolding step r(1) using r(2-5) by metis
qed

lemma level_step:
  assumes ut: "getUTileDimensions (getFormatBpp (im_format i)) = Some (tw, th)" and lim: "image_in_limits i"
    and w: "w = of_nat (fst (image_extent i))" "h = of_nat (snd (image_extent i))" and c: "c < 12"
  shows "\<exists>W H. mip_extent i (getFormatBpp (im_format i)) (tw, th) (w, h) (getPow2Pad w, getPow2Pad h) c =
      Some (W, H, level_tiling i (unat tw, unat th) (level_extent i (image_extent i) c)) \<and>
    drop_bit 3 (W * getFormatBpp (im_format i) * max (im_samples i) 1) = of_nat (level_stride i (unat tw, unat th) c) \<and>
    H * of_nat (level_stride i (unat tw, unat th) c) = of_nat (level_bytes i (unat tw, unat th) c)"
proof -
  obtain W H where e: "mip_extent i (getFormatBpp (im_format i)) (tw, th) (w, h) (getPow2Pad w, getPow2Pad h) c =
      Some (W, H, level_tiling i (unat tw, unat th) (level_extent i (image_extent i) c))"
    and W: "unat W = ceil_to (fst (level_unit i (unat tw, unat th) (level_extent i (image_extent i) c)))
      (fst (level_extent i (image_extent i) c))"
    and H: "unat H = ceil_to (snd (level_unit i (unat tw, unat th) (level_extent i (image_extent i) c)))
      (snd (level_extent i (image_extent i) c))"
    using mip_extent_spec [OF ut lim w c] by blast
  let ?b = "getFormatBpp (im_format i)" and ?s = "max (im_samples i) 1"
  have "unat W \<le> 2048" unfolding W by (rule level_sizes [OF ut lim])
  moreover have "unat ?b \<le> 128" "unat ?s \<le> 4"
    using lim by (simp_all add: image_in_limits_def word_le_nat_alt max_word_nat)
  ultimately have le: "unat W * unat ?b * unat ?s \<le> 2048 * 128 * 4" by (intro mult_mono) auto
  have "W * ?b * ?s = of_nat (unat W * unat ?b * unat ?s)" by simp
  then have "unat (W * ?b * ?s) = unat W * unat ?b * unat ?s"
    using le by (simp add: unat_of_nat_u32 del: of_nat_mult)
  then have "unat (drop_bit 3 (W * ?b * ?s)) = level_stride i (unat tw, unat th) c"
    by (simp add: level_stride_def Let_def unat_drop W max_word_nat)
  then have "drop_bit 3 (W * ?b * ?s) = of_nat (level_stride i (unat tw, unat th) c)" by (metis unat_of_nat_self)
  moreover have "H * of_nat (level_stride i (unat tw, unat th) c) = of_nat (unat H * level_stride i (unat tw, unat th) c)"
    by simp
  ultimately show ?thesis using e unfolding H by (simp add: level_bytes_def Let_def)
qed

lemma image_extent_words:
  assumes "image_in_limits i"
  defines "etc \<equiv> im_format i = VK_FORMAT_ETC2_R8G8B8_UNORM_BLOCK"
  shows "(if etc then drop_bit 2 (im_width i + 3) else im_width i) = of_nat (fst (image_extent i))"
    "(if etc then drop_bit 2 (im_height i + 3) else im_height i) = of_nat (snd (image_extent i))"
proof -
  have "drop_bit 2 (x + 3) = of_nat ((unat x + 3) div 4)" if "unat x \<le> 2048" for x :: u32
  proof -
    have "unat (x + 3) = unat x + 3" using that by (simp add: unat_word_ariths)
    then have "unat (drop_bit 2 (x + 3)) = (unat x + 3) div 4" by (simp add: unat_drop)
    then show ?thesis by (metis unat_of_nat_self)
  qed
  moreover have "unat (im_width i) \<le> 2048" "unat (im_height i) \<le> 2048"
    using assms(1) by (simp_all add: image_in_limits_def word_le_nat_alt)
  ultimately show "(if etc then drop_bit 2 (im_width i + 3) else im_width i) = of_nat (fst (image_extent i))"
    "(if etc then drop_bit 2 (im_height i + 3) else im_height i) = of_nat (snd (image_extent i))"
    by (simp_all add: image_extent_def etc_def add.commute [of 3])
qed

lemma ceil_pad: "0 < m \<Longrightarrow> ceil_to m x - x < m"
  by (simp add: ceil_to_mod)

text \<open>C20: The placement of the mip levels computed in 32-bit words is that of the reference in natural
  numbers, for every image within the limits: the smallest level starts within the first page, each
  level starts where the next smaller one ends, so no two overlap, level 0 starts on a page, every
  level has its tiling, and the size is that of all levels in whole pages, times the layers.\<close>

theorem image_layout_levels:
  assumes ut: "getUTileDimensions (getFormatBpp (im_format i)) = Some (tw, th)" and lim: "image_in_limits i"
    and len: "length (im_levelOffsets i) = 12" "length (im_levelTiling i) = 12"
  shows "\<exists>i'. image_layout i = Some i' \<and> (let utile = (unat tw, unat th); n = unat (im_miplevels i);
      off = (\<lambda>c. unat (im_levelOffsets i' ! c)); bytes = level_bytes i utile in
    off (n - 1) < 4096 \<and> (\<forall>c. Suc c < n \<longrightarrow> off (Suc c) + bytes (Suc c) = off c) \<and> 4096 dvd off 0 \<and>
    (\<forall>c<n. im_levelTiling i' ! c = level_tiling i utile (level_extent i (image_extent i) c)) \<and>
    unat (im_stride i') = level_stride i utile 0 \<and>
    im_size i' = of_nat (ceil_to 4096 (off 0 + bytes 0)) * im_layers i)"
proof -
  let ?ut = "(unat tw, unat th)" and ?n = "unat (im_miplevels i)" and ?bpp = "getFormatBpp (im_format i)"
  let ?w = "of_nat (fst (image_extent i)) :: u32" and ?h = "of_nat (snd (image_extent i)) :: u32"
  let ?sz = "level_bytes i ?ut" and ?st = "level_stride i ?ut"
  have n: "0 < ?n" "?n \<le> 12" using lim by (auto simp: image_in_limits_def word_le_nat_alt)
  have i: "i = i\<lparr>im_levelTiling := im_levelTiling i, im_levelOffsets := im_levelOffsets i\<rparr>" by simp
  obtain F L S R where l: "mip_loop ?bpp (tw, th) (?w, ?h) (getPow2Pad ?w, getPow2Pad ?h) ?n
        (i, 0, replicate 12 0, replicate 12 0) =
      Some (i\<lparr>im_levelTiling := L, im_levelOffsets := F\<rparr>, of_nat (\<Sum>d<?n. ?sz d), S, R)"
    and F: "length F = 12" "length L = 12"
    and at: "\<And>c. c < ?n \<Longrightarrow> F ! c = of_nat (\<Sum>d\<in>{c<..<?n}. ?sz d) \<and>
      L ! c = level_tiling i ?ut (level_extent i (image_extent i) c) \<and> S ! c = of_nat (?sz c) \<and> R ! c = of_nat (?st c)"
  proof -
    have "\<exists>W H. mip_extent i ?bpp (tw, th) (?w, ?h) (getPow2Pad ?w, getPow2Pad ?h) c =
        Some (W, H, level_tiling i ?ut (level_extent i (image_extent i) c)) \<and>
      drop_bit 3 (W * ?bpp * max (im_samples i) 1) = of_nat (?st c) \<and> H * of_nat (?st c) = of_nat (?sz c)"
      if "c < ?n" for c
      by (rule level_step [OF ut lim refl refl]) (use that n in simp)
    from mip_loop_spec [OF this n(2) len, where S = "replicate 12 0" and R = "replicate 12 0" and off = 0]
    show ?thesis using that unfolding i [symmetric] by auto
  qed
  define pad where "pad = ceil_to 4096 (\<Sum>d\<in>{0<..<?n}. ?sz d) - (\<Sum>d\<in>{0<..<?n}. ?sz d)"
  have pad: "pad < 4096" unfolding pad_def by (rule ceil_pad) simp
  have sum: "(\<Sum>d\<in>{c<..<?n}. ?sz d) \<le> 12 * 2 ^ 28" for c
    using n by (intro level_sum [OF ut lim]) auto
  have "unat (F ! 0) = (\<Sum>d\<in>{0<..<?n}. ?sz d)"
    using at [OF n(1)] sum [of 0] by (simp add: unat_of_nat_u32 del: of_nat_sum)
  then have "unat (roundUp (F ! 0) 4096) = ceil_to 4096 (\<Sum>d\<in>{0<..<?n}. ?sz d)" "unat (F ! 0) = (\<Sum>d\<in>{0<..<?n}. ?sz d)"
    using sum [of 0] by (simp_all add: unat_roundUp)
  moreover have "(\<Sum>d\<in>{0<..<?n}. ?sz d) \<le> ceil_to 4096 (\<Sum>d\<in>{0<..<?n}. ?sz d)" by (rule ceil_to_ge) simp
  ultimately have p: "roundUp (F ! 0) 4096 - F ! 0 = of_nat pad"
    unfolding pad_def by (metis of_nat_diff unat_of_nat_self)
  define G where "G = (if pad = 0 then F else map ((+) (of_nat pad)) (take ?n F) @ drop ?n F)"
  have G: "G ! c = of_nat (pad + (\<Sum>d\<in>{c<..<?n}. ?sz d))" if "c < ?n" for c
    using at [OF that] F(1) n that by (simp add: G_def nth_append del: of_nat_sum)
  have off: "unat (G ! c) = pad + (\<Sum>d\<in>{c<..<?n}. ?sz d)" if "c < ?n" for c
    unfolding G [OF that] using pad sum [of c] by (intro unat_of_nat_u32) simp
  have "(of_nat pad :: u32) = 0 \<longleftrightarrow> pad = 0" using pad of_nat_u32_inject [of pad 0] by simp
  then have "roundUp (F ! 0) 4096 = F ! 0 \<longleftrightarrow> pad = 0" using p by (metis eq_iff_diff_eq_0)
  then have lay: "image_layout i = Some (i\<lparr>im_levelTiling := L, im_levelOffsets := G,
      im_size := roundUp (S ! 0 + G ! 0) ARM_PAGE_SIZE * im_layers i, im_stride := R ! 0\<rparr>)"
    using n l p unfolding image_layout_def Let_def image_extent_words [OF lim]
    by (simp add: ut G_def ARM_PAGE_SIZE_def getBOAlignedSize_roundUp)
  have z: "?sz 0 \<le> 2 ^ 28" "?st 0 \<le> 2 ^ 17" by (rule level_sizes [OF ut lim])+
  have "S ! 0 + G ! 0 = of_nat (unat (G ! 0) + ?sz 0)" using at [OF n(1)] by simp
  then have "unat (S ! 0 + G ! 0) = unat (G ! 0) + ?sz 0"
    using z off [OF n(1)] pad sum [of 0] by (simp add: unat_of_nat_u32 del: of_nat_add)
  then have "unat (roundUp (S ! 0 + G ! 0) ARM_PAGE_SIZE) = ceil_to 4096 (unat (G ! 0) + ?sz 0)"
    using z off [OF n(1)] pad sum [of 0] by (simp add: unat_roundUp ARM_PAGE_SIZE_def)
  then have size: "roundUp (S ! 0 + G ! 0) ARM_PAGE_SIZE = of_nat (ceil_to 4096 (unat (G ! 0) + ?sz 0))"
    by (metis unat_of_nat_self)
  have "{?n - 1<..<?n} = {}" by auto
  then have "unat (G ! (?n - 1)) < 4096" using off [of "?n - 1"] n pad by simp
  moreover have "unat (G ! Suc c) + ?sz (Suc c) = unat (G ! c)" if "Suc c < ?n" for c
  proof -
    have "{c<..<?n} = insert (Suc c) {Suc c<..<?n}" using that by auto
    then show ?thesis using off that by simp
  qed
  moreover have "4096 dvd unat (G ! 0)"
    using off [OF n(1)] ceil_to_dvd [of 4096] ceil_to_ge [of 4096] unfolding pad_def by simp
  moreover have "unat (R ! 0) = ?st 0" using at [OF n(1)] z by (simp add: unat_of_nat_u32)
  ultimately show ?thesis using lay at size by (simp add: Let_def)
qed

definition layout_example :: image where
  "layout_example = \<lparr>im_type = 1, im_fb = 0, im_width = 100, im_height = 60, im_depth = 1, im_miplevels = 7,
     im_samples = 1, im_levelOffsets = replicate 12 0, im_levelTiling = replicate 12 0, im_layers = 1,
     im_size = 0, im_stride = 0, im_usageBits = 0, im_format = VK_FORMAT_R8G8B8A8 UNORM, im_imageSpace = 0,
     im_tiling = VC4_TILING_FORMAT_T, im_layout = 0, im_boundMem = NULL, im_boundOffset = 0,
     im_alignment = ARM_PAGE_SIZE, im_concurrentAccess = 0, im_numQueueFamiliesWithAccess = 0,
     im_queueFamiliesWithAccess = [], im_preTransformMode = 0, im_compositeAlpha = 0, im_presentMode = 0,
     im_clipped = 0, im_flags = 0\<rparr>"

lemma image_layout_levels_witness:
  "\<exists>i'. image_layout layout_example = Some i' \<and>
    unat (im_levelOffsets i' ! 6) < 4096 \<and> 4096 dvd unat (im_levelOffsets i' ! 0) \<and>
    unat (im_levelOffsets i' ! 1) + level_bytes layout_example (4, 4) 1 = unat (im_levelOffsets i' ! 0) \<and>
    im_levelTiling i' ! 6 = VC4_TILING_FORMAT_LT \<and> unat (im_stride i') = 512"
proof -
  have ut: "getUTileDimensions (getFormatBpp (im_format layout_example)) = Some (4, 4)"
    and lim: "image_in_limits layout_example"
    and len: "length (im_levelOffsets layout_example) = 12" "length (im_levelTiling layout_example) = 12"
    by (simp_all add: layout_example_def getFormatBpp_def getUTileDimensions_def image_in_limits_def)
  obtain i' where i': "image_layout layout_example = Some i'"
    "unat (im_levelOffsets i' ! 6) < 4096" "4096 dvd unat (im_levelOffsets i' ! 0)"
    "unat (im_levelOffsets i' ! Suc 0) + level_bytes layout_example (4, 4) (Suc 0) = unat (im_levelOffsets i' ! 0)"
    "im_levelTiling i' ! 6 = level_tiling layout_example (4, 4) (level_extent layout_example (image_extent layout_example) 6)"
    "unat (im_stride i') = level_stride layout_example (4, 4) 0"
    using image_layout_levels [OF ut lim len] by (auto simp: Let_def layout_example_def)
  moreover have "level_tiling layout_example (4, 4) (level_extent layout_example (image_extent layout_example) 6) =
      VC4_TILING_FORMAT_LT" "level_stride layout_example (4, 4) 0 = 512"
    by code_simp+
  ultimately show ?thesis by simp
qed

end
