(* ===== verification/Command_Buffer.thy ===== *)
theory Command_Buffer
  imports Memory_Frames Control_List Driver_Types
begin

text \<open>
  driver/command.c: command pools and the life of a command buffer.  A command pool holds two pool
  allocators: one for the command buffer objects, one whose blocks the seven control lists of each
  command buffer grow in.

  The state is a world: the byte memory both allocators keep their free lists in, and typed stores
  of the command pools and of the command buffers.  A command buffer is the block its address
  names; its first word, where the loader keeps its magic value, lies in the byte memory, because
  the free list of the pool links through it, and the other fields are a record, which is still
  there (stale) when the block is free.  The record groups the dynamic state and the dirty flags of
  the flat C structure.  Reading at an address without an object (the null pointer) is undefined.
\<close>

unbundle bit_operations_syntax

subsection \<open>The structures\<close>

record commandPool =
  cp_pa :: PoolAllocator
  cp_cpa :: ConsecutivePoolAllocator
  cp_queueFamilyIndex :: u32
  cp_resetAble :: u32

datatype commandBufferState = CMDBUF_STATE_INITIAL | CMDBUF_STATE_RECORDING | CMDBUF_STATE_EXECUTABLE
  | CMDBUF_STATE_PENDING | CMDBUF_STATE_INVALID

datatype VkCommandBufferLevel = VK_COMMAND_BUFFER_LEVEL_PRIMARY | VK_COMMAND_BUFFER_LEVEL_SECONDARY

record VkViewport =
  vp_x :: u32
  vp_y :: u32
  vp_width :: u32
  vp_height :: u32
  vp_minDepth :: u32
  vp_maxDepth :: u32

record VkRect2D =
  rc_x :: u32
  rc_y :: u32
  rc_width :: u32
  rc_height :: u32

record dynamicState =
  ds_viewport :: VkViewport
  ds_scissor :: VkRect2D
  ds_lineWidth :: u32
  ds_depthBiasConstantFactor :: u32
  ds_depthBiasClamp :: u32
  ds_depthBiasSlopeFactor :: u32
  ds_blendConstants :: "u32 list"
  ds_minDepthBounds :: u32
  ds_maxDepthBounds :: u32
  ds_stencilCompareMask :: "u32 list"
  ds_stencilWriteMask :: "u32 list"
  ds_stencilReference :: "u32 list"
  ds_vertexBufferOffsets :: "u32 list"
  ds_vertexBuffers :: "addr list"

record dirtyFlags =
  vertexBufferDirty :: u32
  indexBufferDirty :: u32
  viewportDirty :: u32
  lineWidthDirty :: u32
  depthBiasDirty :: u32
  graphicsPipelineDirty :: u32
  computePipelineDirty :: u32
  subpassDirty :: u32
  blendConstantsDirty :: u32
  scissorDirty :: u32
  depthBoundsDirty :: u32
  stencilCompareMaskDirty :: u32
  stencilWriteMaskDirty :: u32
  stencilReferenceDirty :: u32
  descriptorSetDirty :: u32
  pushConstantDirty :: u32

record commandBuffer =
  cb_dev :: addr
  cb_level :: VkCommandBufferLevel
  cb_pushConstantBufferVertex :: "u8 list"
  cb_pushConstantBufferPixel :: "u8 list"
  cb_binCl :: ControlList
  cb_shaderRecCl :: ControlList
  cb_shaderRecCount :: u32
  cb_uniformsCl :: ControlList
  cb_handlesCl :: ControlList
  cb_state :: commandBufferState
  cb_usageFlags :: u32
  cb_cp :: addr
  cb_uniformRelocCl :: ControlList
  cb_gemRelocCl :: ControlList
  cb_shaderRecRelocCl :: ControlList
  cb_graphicsPipeline :: addr
  cb_computePipeline :: addr
  cb_currRenderPass :: addr
  cb_dynamic :: dynamicState
  cb_indexBufferOffset :: u32
  cb_indexBuffer :: addr
  cb_perfmonID :: addr
  cb_dirty :: dirtyFlags

text \<open>The size of the C structure on the 32-bit target.\<close>

definition sizeof_commandBuffer :: u32 where "sizeof_commandBuffer = 964"

record cmd_world =
  cw_mem :: mem
  cw_cps :: "addr \<rightharpoonup> commandPool"
  cw_cbs :: "addr \<rightharpoonup> commandBuffer"

definition ICD_LOADER_MAGIC :: u32 where "ICD_LOADER_MAGIC = 0x01CDC0DE"

definition VK_COMMAND_POOL_CREATE_RESET_COMMAND_BUFFER_BIT :: u32 where
  "VK_COMMAND_POOL_CREATE_RESET_COMMAND_BUFFER_BIT = 2"

definition all_dirty :: dirtyFlags where
  "all_dirty = \<lparr>vertexBufferDirty = 1, indexBufferDirty = 1, viewportDirty = 1, lineWidthDirty = 1,
     depthBiasDirty = 1, graphicsPipelineDirty = 1, computePipelineDirty = 1, subpassDirty = 1,
     blendConstantsDirty = 1, scissorDirty = 1, depthBoundsDirty = 1, stencilCompareMaskDirty = 1,
     stencilWriteMaskDirty = 1, stencilReferenceDirty = 1, descriptorSetDirty = 1, pushConstantDirty = 1\<rparr>"

subsection \<open>Operations of the two allocators in the world\<close>

definition with_cpa :: "addr \<Rightarrow> (cpa_state \<Rightarrow> (cpa_state \<times> 'a) option) \<Rightarrow> cmd_world \<Rightarrow> (cmd_world \<times> 'a) option" where
  "with_cpa cp f w = do {
     p \<leftarrow> cw_cps w cp;
     ((m', pa'), r) \<leftarrow> f (cw_mem w, cp_cpa p);
     Some (w\<lparr>cw_mem := m', cw_cps := (cw_cps w)(cp \<mapsto> p\<lparr>cp_cpa := pa'\<rparr>)\<rparr>, r) }"

definition with_pa ::
  "addr \<Rightarrow> (mem \<times> PoolAllocator \<Rightarrow> ((mem \<times> PoolAllocator) \<times> 'a) option) \<Rightarrow> cmd_world \<Rightarrow> (cmd_world \<times> 'a) option" where
  "with_pa cp f w = do {
     p \<leftarrow> cw_cps w cp;
     ((m', pa'), r) \<leftarrow> f (cw_mem w, cp_pa p);
     Some (w\<lparr>cw_mem := m', cw_cps := (cw_cps w)(cp \<mapsto> p\<lparr>cp_pa := pa'\<rparr>)\<rparr>, r) }"

subsection \<open>vkCreateCommandPool\<close>

text \<open>
  \<open>c\<close>, \<open>pamem\<close> and \<open>cpamem\<close> are the results of the three calls of \<open>ALLOCATE\<close>, \<open>stale\<close> is what the
  memory of the command buffer objects holds.
\<close>

definition vkCreateCommandPool ::
  "addr \<Rightarrow> addr \<Rightarrow> addr \<Rightarrow> (addr \<Rightarrow> commandBuffer) \<Rightarrow> u32 \<Rightarrow> u32 \<Rightarrow> cmd_world \<Rightarrow>
    (cmd_world \<times> VkResult \<times> addr) option" where
  "vkCreateCommandPool c pamem cpamem stale queueFamilyIndex flags w =
     (let numCommandBufs = 128; consecutiveBlockSize = ARM_PAGE_SIZE; consecutiveBlockNumber = 512;
          consecutivePoolSize = consecutiveBlockNumber * consecutiveBlockSize in
      if c = NULL then Some (w, VK_ERROR_OUT_OF_HOST_MEMORY, NULL)
      else if pamem = NULL then Some (w, VK_ERROR_OUT_OF_HOST_MEMORY, NULL)
      else do {
        (m1, pa) \<leftarrow> createPoolAllocator (cw_mem w) pamem sizeof_commandBuffer (numCommandBufs * sizeof_commandBuffer);
        if cpamem = NULL then Some (w\<lparr>cw_mem := m1\<rparr>, VK_ERROR_OUT_OF_HOST_MEMORY, NULL)
        else do {
          (m2, cpa) \<leftarrow> createConsecutivePoolAllocator m1 cpamem consecutiveBlockSize consecutivePoolSize;
          Some (w\<lparr>cw_mem := m2, cw_cps := (cw_cps w)(c \<mapsto> \<lparr>cp_pa = pa, cp_cpa = cpa,
              cp_queueFamilyIndex = queueFamilyIndex,
              cp_resetAble = flags AND VK_COMMAND_POOL_CREATE_RESET_COMMAND_BUFFER_BIT\<rparr>),
            cw_cbs := cw_cbs w ++ (\<lambda>p. if p \<in> set (blocks pamem sizeof_commandBuffer 128) then Some (stale p) else None)\<rparr>,
            VK_SUCCESS, c) } })"

text \<open>The destruction of a pool returns its memory; the objects in it are gone.\<close>

definition vkDestroyCommandPool :: "addr \<Rightarrow> cmd_world \<Rightarrow> cmd_world option" where
  "vkDestroyCommandPool cp w =
     (if cp = NULL then Some w
      else do {
        p \<leftarrow> cw_cps w cp;
        Some (w\<lparr>cw_cps := (cw_cps w)(cp := None),
          cw_cbs := cw_cbs w |` (- set (pool_blocks (cp_pa p)))\<rparr>) })"

subsection \<open>vkAllocateCommandBuffers\<close>

text \<open>One control list: a block of the consecutive pool; the offset is \<open>~0\<close> when there is none.\<close>

definition alloc_cl :: "addr \<Rightarrow> cmd_world \<Rightarrow> (cmd_world \<times> ControlList) option" where
  "alloc_cl cp w = with_cpa cp (\<lambda>s. do {
     (s', off) \<leftarrow> consecutivePoolAllocate s 1;
     Some (s', clInit off (cpa_blockSize (snd s'))) }) w"

text \<open>The fields that are set besides the lists, the same at allocation and at reset.\<close>

definition cleared :: "commandBuffer \<Rightarrow> commandBuffer" where
  "cleared b = b\<lparr>cb_graphicsPipeline := NULL, cb_computePipeline := NULL, cb_indexBuffer := NULL,
     cb_indexBufferOffset := 0, cb_dirty := all_dirty, cb_currRenderPass := NULL, cb_perfmonID := NULL\<rparr>"

definition init_cmdbuf ::
  "addr \<Rightarrow> VkCommandBufferLevel \<Rightarrow> addr \<Rightarrow> ControlList \<Rightarrow> ControlList \<Rightarrow> ControlList \<Rightarrow> ControlList \<Rightarrow> ControlList \<Rightarrow>
    ControlList \<Rightarrow> ControlList \<Rightarrow> commandBuffer \<Rightarrow> commandBuffer" where
  "init_cmdbuf device level cp binCl handlesCl shaderRecCl uniformsCl uniformRelocCl gemRelocCl shaderRecRelocCl b =
     cleared (b\<lparr>cb_dev := device, cb_level := level, cb_shaderRecCount := 0, cb_usageFlags := 0,
       cb_state := CMDBUF_STATE_INITIAL, cb_cp := cp, cb_binCl := binCl, cb_handlesCl := handlesCl,
       cb_shaderRecCl := shaderRecCl, cb_uniformsCl := uniformsCl, cb_uniformRelocCl := uniformRelocCl,
       cb_gemRelocCl := gemRelocCl, cb_shaderRecRelocCl := shaderRecRelocCl\<rparr>)"

definition alloc_cmdbuf :: "addr \<Rightarrow> VkCommandBufferLevel \<Rightarrow> addr \<Rightarrow> cmd_world \<Rightarrow> (cmd_world \<times> addr \<times> VkResult) option" where
  "alloc_cmdbuf device level cp w = do {
     (w, p) \<leftarrow> with_pa cp poolAllocate w;
     if p = NULL then Some (w, NULL, VK_ERROR_OUT_OF_HOST_MEMORY)
     else do {
       b \<leftarrow> cw_cbs w p;
       m \<leftarrow> store32 (cw_mem w) p ICD_LOADER_MAGIC;
       (w, binCl) \<leftarrow> alloc_cl cp (w\<lparr>cw_mem := m\<rparr>);
       (w, handlesCl) \<leftarrow> alloc_cl cp w;
       (w, shaderRecCl) \<leftarrow> alloc_cl cp w;
       (w, uniformsCl) \<leftarrow> alloc_cl cp w;
       (w, uniformRelocCl) \<leftarrow> alloc_cl cp w;
       (w, gemRelocCl) \<leftarrow> alloc_cl cp w;
       (w, shaderRecRelocCl) \<leftarrow> alloc_cl cp w;
       let w = w\<lparr>cw_cbs := (cw_cbs w)(p \<mapsto> init_cmdbuf device level cp binCl handlesCl shaderRecCl uniformsCl
         uniformRelocCl gemRelocCl shaderRecRelocCl b)\<rparr>;
       Some (w, p, if U32_MAX \<in> set (map cl_offset [binCl, handlesCl, shaderRecCl, uniformsCl, uniformRelocCl,
           gemRelocCl, shaderRecRelocCl]) then VK_ERROR_OUT_OF_HOST_MEMORY else VK_SUCCESS) } }"

text \<open>
  The array of the caller is a list; writing behind its end is undefined.  \<open>n\<close> command buffers are
  still to be allocated, from index \<open>c\<close> on.
\<close>

fun alloc_loop ::
  "addr \<Rightarrow> VkCommandBufferLevel \<Rightarrow> addr \<Rightarrow> nat \<Rightarrow> nat \<Rightarrow> cmd_world \<times> addr list \<Rightarrow>
    ((cmd_world \<times> addr list) \<times> VkResult) option" where
  "alloc_loop device level cp c 0 s = Some (s, VK_SUCCESS)"
| "alloc_loop device level cp c (Suc n) (w, out) = do {
     (w', p, res) \<leftarrow> alloc_cmdbuf device level cp w;
     if length out \<le> c then None
     else if res \<noteq> VK_SUCCESS then Some ((w', out[c := p]), res)
     else alloc_loop device level cp (Suc c) n (w', out[c := p]) }"

definition free_cl :: "addr \<Rightarrow> ControlList \<Rightarrow> cmd_world \<Rightarrow> cmd_world option" where
  "free_cl cp cl w = do {
     (w', u) \<leftarrow> with_cpa cp (\<lambda>s. do {
       s' \<leftarrow> consecutivePoolFree s (getCPAptrFromOffset (snd s) (cl_offset cl)) (cl_numBlocks cl);
       Some (s', ()) }) w;
     Some w' }"

text \<open>The lists of a command buffer in the order they are given back, then the object.\<close>

definition release_cmdbuf :: "addr \<Rightarrow> cmd_world \<Rightarrow> addr \<Rightarrow> cmd_world option" where
  "release_cmdbuf cp w p = do {
     b \<leftarrow> cw_cbs w p;
     w \<leftarrow> free_cl cp (cb_binCl b) w;
     w \<leftarrow> free_cl cp (cb_handlesCl b) w;
     w \<leftarrow> free_cl cp (cb_shaderRecCl b) w;
     w \<leftarrow> free_cl cp (cb_uniformsCl b) w;
     w \<leftarrow> free_cl cp (cb_uniformRelocCl b) w;
     w \<leftarrow> free_cl cp (cb_gemRelocCl b) w;
     w \<leftarrow> free_cl cp (cb_shaderRecRelocCl b) w;
     (w, u) \<leftarrow> with_pa cp (\<lambda>s. do { s' \<leftarrow> poolFree s p; Some (s', ()) }) w;
     Some w }"

fun release_all :: "addr \<Rightarrow> cmd_world \<Rightarrow> addr list \<Rightarrow> cmd_world option" where
  "release_all cp w [] = Some w"
| "release_all cp w (p # ps) = do { w' \<leftarrow> release_cmdbuf cp w p; release_all cp w' ps }"

text \<open>
  After a failure every entry of the array is released, the one that failed and those behind it,
  which were not written, included.
\<close>

definition vkAllocateCommandBuffers ::
  "addr \<Rightarrow> VkCommandBufferLevel \<Rightarrow> addr \<Rightarrow> nat \<Rightarrow> cmd_world \<times> addr list \<Rightarrow>
    ((cmd_world \<times> addr list) \<times> VkResult) option" where
  "vkAllocateCommandBuffers device level cp count s = do {
     ((w, out), res) \<leftarrow> alloc_loop device level cp 0 count s;
     if res \<noteq> VK_SUCCESS
     then if length out < count then None
       else do { w' \<leftarrow> release_all cp w (take count out); Some ((w', replicate count NULL @ drop count out), res) }
     else Some ((w, out), res) }"

definition vkFreeCommandBuffers :: "addr \<Rightarrow> addr list \<Rightarrow> cmd_world \<Rightarrow> cmd_world option" where
  "vkFreeCommandBuffers cp ps w = release_all cp w (filter (\<lambda>p. p \<noteq> NULL) ps)"

subsection \<open>Recording and resetting\<close>

text \<open>The list is emptied; its blocks are kept.\<close>

definition reset_cl :: "ControlList \<Rightarrow> ControlList" where
  "reset_cl cl = cl\<lparr>cl_nextFreeByteOffset := cl_offset cl, cl_currMarkerOffset := -1\<rparr>"

definition vkResetCommandBuffer :: "addr \<Rightarrow> cmd_world \<Rightarrow> (cmd_world \<times> VkResult) option" where
  "vkResetCommandBuffer p w = do {
     b \<leftarrow> cw_cbs w p;
     let b1 = b\<lparr>cb_state := (if cb_state b = CMDBUF_STATE_RECORDING \<or> cb_state b = CMDBUF_STATE_EXECUTABLE
         then CMDBUF_STATE_INVALID else CMDBUF_STATE_INITIAL), cb_shaderRecCount := 0\<rparr>;
     let b2 = b1\<lparr>cb_binCl := reset_cl (cb_binCl b), cb_handlesCl := reset_cl (cb_handlesCl b),
         cb_shaderRecCl := reset_cl (cb_shaderRecCl b), cb_uniformsCl := reset_cl (cb_uniformsCl b),
         cb_uniformRelocCl := reset_cl (cb_uniformRelocCl b), cb_gemRelocCl := reset_cl (cb_gemRelocCl b),
         cb_shaderRecRelocCl := reset_cl (cb_shaderRecRelocCl b)\<rparr>;
     Some (w\<lparr>cw_cbs := (cw_cbs w)(p \<mapsto> cleared b2)\<rparr>, VK_SUCCESS) }"

text \<open>
  \<open>vkBeginCommandBuffer\<close>, where \<open>beginRenderPass\<close> is the call of \<open>vkCmdBeginRenderPass\<close> that a
  secondary command buffer with inheritance info makes, on the framebuffer and render pass of it.
\<close>

definition vkBeginCommandBuffer ::
  "(addr \<Rightarrow> addr \<times> addr \<Rightarrow> cmd_world \<Rightarrow> cmd_world option) \<Rightarrow> addr \<Rightarrow> u32 \<Rightarrow> (addr \<times> addr) option \<Rightarrow> cmd_world \<Rightarrow>
    (cmd_world \<times> VkResult) option" where
  "vkBeginCommandBuffer beginRenderPass p flags inheritance w = do {
     b \<leftarrow> cw_cbs w p;
     w \<leftarrow> (if cb_state b = CMDBUF_STATE_INVALID \<or> cb_state b = CMDBUF_STATE_EXECUTABLE
       then do {
         cp \<leftarrow> cw_cps w (cb_cp b);
         if cp_resetAble cp \<noteq> 0 then do { (w, r) \<leftarrow> vkResetCommandBuffer p w; Some w } else Some w }
       else Some w);
     b \<leftarrow> cw_cbs w p;
     let w = w\<lparr>cw_cbs := (cw_cbs w)(p \<mapsto> b\<lparr>cb_usageFlags := flags, cb_state := CMDBUF_STATE_RECORDING\<rparr>)\<rparr>;
     w \<leftarrow> (case inheritance of
         Some fbrp \<Rightarrow> if cb_level b = VK_COMMAND_BUFFER_LEVEL_SECONDARY then beginRenderPass p fbrp w else Some w
       | None \<Rightarrow> Some w);
     Some (w, VK_SUCCESS) }"

definition vkEndCommandBuffer :: "addr \<Rightarrow> cmd_world \<Rightarrow> (cmd_world \<times> VkResult) option" where
  "vkEndCommandBuffer p w = do {
     b \<leftarrow> cw_cbs w p;
     Some (w\<lparr>cw_cbs := (cw_cbs w)(p \<mapsto> b\<lparr>cb_state := CMDBUF_STATE_EXECUTABLE\<rparr>)\<rparr>, VK_SUCCESS) }"

text \<open>The search for the block \<open>c\<close> in the free list that starts at \<open>d\<close>.\<close>

partial_function (option) in_free_chain :: "mem \<Rightarrow> addr \<Rightarrow> addr \<Rightarrow> bool option" where
  "in_free_chain m c d =
     (if d = NULL then Some False
      else if c = d then Some True
      else do { d' \<leftarrow> load32 m d; in_free_chain m c d' })"

text \<open>The blocks that are not free are command buffers, whose state is set.\<close>

fun reset_blocks :: "mem \<Rightarrow> addr \<Rightarrow> addr list \<Rightarrow> (addr \<rightharpoonup> commandBuffer) \<Rightarrow> (addr \<rightharpoonup> commandBuffer) option" where
  "reset_blocks m d [] cbs = Some cbs"
| "reset_blocks m d (c # cs) cbs = do {
     free \<leftarrow> in_free_chain m c d;
     if free then reset_blocks m d cs cbs
     else do {
       b \<leftarrow> cbs c;
       reset_blocks m d cs (cbs(c \<mapsto> b\<lparr>cb_state := CMDBUF_STATE_INITIAL\<rparr>)) } }"

text \<open>The loop over the blocks meets its end only if the size is a multiple of the block size.\<close>

definition vkResetCommandPool :: "addr \<Rightarrow> cmd_world \<Rightarrow> (cmd_world \<times> VkResult) option" where
  "vkResetCommandPool cp w = do {
     p \<leftarrow> cw_cps w cp;
     let pa = cp_pa p;
     if pa_blockSize pa = 0 \<or> pa_size pa mod pa_blockSize pa \<noteq> 0 then None
     else do {
       cbs \<leftarrow> reset_blocks (cw_mem w) (pa_nextFreeBlock pa) (pool_blocks pa) (cw_cbs w);
       Some (w\<lparr>cw_cbs := cbs\<rparr>, VK_SUCCESS) } }"

end
