(* ===== verification/Recording.thy ===== *)
theory Recording
  imports Command_Buffer Formats
begin

text \<open>
  Commands that are recorded into a command buffer: the dynamic state and bindings of
  driver/stateChange.c, driver/pipeline.c and driver/resource.c, and the clears of whole images.  The
  last ones write to the control lists: each is a job of its own, which starts with a marker.
\<close>

unbundle bit_operations_syntax

subsection \<open>Arrays\<close>

text \<open>An array access of C; outside of the array it is undefined.\<close>

definition elem_at :: "'a list \<Rightarrow> u32 \<Rightarrow> 'a option" where
  "elem_at xs i = (if unat i < length xs then Some (xs ! unat i) else None)"

definition put_at :: "'a list \<Rightarrow> u32 \<Rightarrow> 'a \<Rightarrow> 'a list option" where
  "put_at xs i x = (if unat i < length xs then Some (xs[unat i := x]) else None)"

text \<open>\<open>memcpy\<close> of \<open>sz\<close> bytes into an array.\<close>

definition put_bytes :: "u8 list \<Rightarrow> u32 \<Rightarrow> u32 \<Rightarrow> u8 list \<Rightarrow> u8 list option" where
  "put_bytes xs offset sz bs =
     (if unat sz \<le> length bs \<and> unat offset + unat sz \<le> length xs
      then Some (take (unat offset) xs @ take (unat sz) bs @ drop (unat offset + unat sz) xs) else None)"

subsection \<open>Dynamic state and bindings\<close>

definition on_cmdbuf :: "addr \<Rightarrow> (commandBuffer \<Rightarrow> commandBuffer) \<Rightarrow> cmd_world \<Rightarrow> cmd_world option" where
  "on_cmdbuf p f w = do { b \<leftarrow> cw_cbs w p; Some (w\<lparr>cw_cbs := (cw_cbs w)(p \<mapsto> f b)\<rparr>) }"

definition set_dynamic ::
  "addr \<Rightarrow> (dynamicState \<Rightarrow> dynamicState) \<Rightarrow> (dirtyFlags \<Rightarrow> dirtyFlags) \<Rightarrow> cmd_world \<Rightarrow> cmd_world option" where
  "set_dynamic p f d = on_cmdbuf p (cb_dynamic_update f \<circ> cb_dirty_update d)"

text \<open>Only the first viewport and scissor are looked at.\<close>

definition vkCmdSetViewport :: "addr \<Rightarrow> VkViewport list \<Rightarrow> cmd_world \<Rightarrow> cmd_world option" where
  "vkCmdSetViewport p pViewports w = do {
     v \<leftarrow> elem_at pViewports 0;
     set_dynamic p (\<lambda>s. s\<lparr>ds_viewport := v\<rparr>) (\<lambda>d. d\<lparr>viewportDirty := 1\<rparr>) w }"

definition vkCmdSetScissor :: "addr \<Rightarrow> VkRect2D list \<Rightarrow> cmd_world \<Rightarrow> cmd_world option" where
  "vkCmdSetScissor p pScissors w = do {
     r \<leftarrow> elem_at pScissors 0;
     set_dynamic p (\<lambda>s. s\<lparr>ds_scissor := r\<rparr>) (\<lambda>d. d\<lparr>scissorDirty := 1\<rparr>) w }"

fun bind_vertex_buffers :: "u32 \<Rightarrow> (addr \<times> u64) list \<Rightarrow> dynamicState \<Rightarrow> dynamicState option" where
  "bind_vertex_buffers binding [] s = Some s"
| "bind_vertex_buffers binding ((buf, offset) # bs) s = do {
     bufs \<leftarrow> put_at (ds_vertexBuffers s) binding buf;
     offsets \<leftarrow> put_at (ds_vertexBufferOffsets s) binding (ucast offset);
     bind_vertex_buffers (binding + 1) bs (s\<lparr>ds_vertexBuffers := bufs, ds_vertexBufferOffsets := offsets\<rparr>) }"

definition vkCmdBindVertexBuffers :: "addr \<Rightarrow> u32 \<Rightarrow> (addr \<times> u64) list \<Rightarrow> cmd_world \<Rightarrow> cmd_world option" where
  "vkCmdBindVertexBuffers p firstBinding bs w = do {
     b \<leftarrow> cw_cbs w p;
     s \<leftarrow> bind_vertex_buffers firstBinding bs (cb_dynamic b);
     set_dynamic p (\<lambda>_. s) (\<lambda>d. d\<lparr>vertexBufferDirty := 1\<rparr>) w }"

definition vkCmdBindIndexBuffer :: "addr \<Rightarrow> addr \<Rightarrow> u64 \<Rightarrow> cmd_world \<Rightarrow> cmd_world option" where
  "vkCmdBindIndexBuffer p buf offset = on_cmdbuf p (\<lambda>b. b\<lparr>cb_indexBuffer := buf,
     cb_indexBufferOffset := ucast offset, cb_dirty := (cb_dirty b)\<lparr>indexBufferDirty := 1\<rparr>\<rparr>)"

definition vkCmdSetLineWidth :: "addr \<Rightarrow> u32 \<Rightarrow> cmd_world \<Rightarrow> cmd_world option" where
  "vkCmdSetLineWidth p lineWidth =
     set_dynamic p (\<lambda>s. s\<lparr>ds_lineWidth := lineWidth\<rparr>) (\<lambda>d. d\<lparr>lineWidthDirty := 1\<rparr>)"

definition vkCmdSetDepthBias :: "addr \<Rightarrow> u32 \<Rightarrow> u32 \<Rightarrow> u32 \<Rightarrow> cmd_world \<Rightarrow> cmd_world option" where
  "vkCmdSetDepthBias p constantFactor clamp slopeFactor =
     set_dynamic p (\<lambda>s. s\<lparr>ds_depthBiasConstantFactor := constantFactor, ds_depthBiasClamp := clamp,
       ds_depthBiasSlopeFactor := slopeFactor\<rparr>) (\<lambda>d. d\<lparr>depthBiasDirty := 1\<rparr>)"

definition vkCmdSetBlendConstants :: "addr \<Rightarrow> u32 list \<Rightarrow> cmd_world \<Rightarrow> cmd_world option" where
  "vkCmdSetBlendConstants p blendConstants w =
     (if length blendConstants < 4 then None
      else set_dynamic p (\<lambda>s. s\<lparr>ds_blendConstants := take 4 blendConstants\<rparr>) (\<lambda>d. d\<lparr>blendConstantsDirty := 1\<rparr>) w)"

definition vkCmdSetDepthBounds :: "addr \<Rightarrow> u32 \<Rightarrow> u32 \<Rightarrow> cmd_world \<Rightarrow> cmd_world option" where
  "vkCmdSetDepthBounds p minDepthBounds maxDepthBounds =
     set_dynamic p (\<lambda>s. s\<lparr>ds_minDepthBounds := minDepthBounds, ds_maxDepthBounds := maxDepthBounds\<rparr>)
       (\<lambda>d. d\<lparr>depthBoundsDirty := 1\<rparr>)"

text \<open>\<open>VK_STENCIL_FACE_FRONT_BIT\<close> is 1 and \<open>VK_STENCIL_FACE_BACK_BIT\<close> is 2.\<close>

definition set_faces :: "u32 \<Rightarrow> u32 \<Rightarrow> u32 list \<Rightarrow> u32 list" where
  "set_faces faceMask v xs = (let ys = (if faceMask AND 1 \<noteq> 0 then xs[0 := v] else xs) in
     if faceMask AND 2 \<noteq> 0 then ys[1 := v] else ys)"

definition vkCmdSetStencilCompareMask :: "addr \<Rightarrow> u32 \<Rightarrow> u32 \<Rightarrow> cmd_world \<Rightarrow> cmd_world option" where
  "vkCmdSetStencilCompareMask p faceMask v =
     set_dynamic p (ds_stencilCompareMask_update (set_faces faceMask v))
       (\<lambda>d. d\<lparr>stencilCompareMaskDirty := 1\<rparr>)"

definition vkCmdSetStencilWriteMask :: "addr \<Rightarrow> u32 \<Rightarrow> u32 \<Rightarrow> cmd_world \<Rightarrow> cmd_world option" where
  "vkCmdSetStencilWriteMask p faceMask v =
     set_dynamic p (ds_stencilWriteMask_update (set_faces faceMask v))
       (\<lambda>d. d\<lparr>stencilWriteMaskDirty := 1\<rparr>)"

definition vkCmdSetStencilReference :: "addr \<Rightarrow> u32 \<Rightarrow> u32 \<Rightarrow> cmd_world \<Rightarrow> cmd_world option" where
  "vkCmdSetStencilReference p faceMask v =
     set_dynamic p (ds_stencilReference_update (set_faces faceMask v))
       (\<lambda>d. d\<lparr>stencilReferenceDirty := 1\<rparr>)"

datatype VkPipelineBindPoint = VK_PIPELINE_BIND_POINT_GRAPHICS | VK_PIPELINE_BIND_POINT_COMPUTE
  | VK_PIPELINE_BIND_POINT_other u32

definition vkCmdBindPipeline :: "addr \<Rightarrow> VkPipelineBindPoint \<Rightarrow> addr \<Rightarrow> cmd_world \<Rightarrow> cmd_world option" where
  "vkCmdBindPipeline p bindPoint pipeline = on_cmdbuf p (\<lambda>b. case bindPoint of
     VK_PIPELINE_BIND_POINT_GRAPHICS \<Rightarrow> b\<lparr>cb_graphicsPipeline := pipeline\<rparr>
   | VK_PIPELINE_BIND_POINT_COMPUTE \<Rightarrow> b\<lparr>cb_computePipeline := pipeline\<rparr>
   | VK_PIPELINE_BIND_POINT_other n \<Rightarrow> b)"

text \<open>\<open>VK_SHADER_STAGE_VERTEX_BIT\<close> is 1 and \<open>VK_SHADER_STAGE_FRAGMENT_BIT\<close> is 16.\<close>

definition vkCmdPushConstants :: "addr \<Rightarrow> u32 \<Rightarrow> u32 \<Rightarrow> u32 \<Rightarrow> u8 list \<Rightarrow> cmd_world \<Rightarrow> cmd_world option" where
  "vkCmdPushConstants p stageFlags offset sz pValues w = do {
     b \<leftarrow> cw_cbs w p;
     vertex \<leftarrow> (if stageFlags AND 1 \<noteq> 0 then put_bytes (cb_pushConstantBufferVertex b) offset sz pValues
        else Some (cb_pushConstantBufferVertex b));
     pixel \<leftarrow> (if stageFlags AND 16 \<noteq> 0 then put_bytes (cb_pushConstantBufferPixel b) offset sz pValues
        else Some (cb_pushConstantBufferPixel b));
     on_cmdbuf p (\<lambda>b. b\<lparr>cb_pushConstantBufferVertex := vertex, cb_pushConstantBufferPixel := pixel,
       cb_dirty := (cb_dirty b)\<lparr>pushConstantDirty := 1\<rparr>\<rparr>) w }"

subsection \<open>The control lists of a command buffer\<close>

definition on_cl ::
  "(commandBuffer \<Rightarrow> ControlList) \<Rightarrow> ((ControlList \<Rightarrow> ControlList) \<Rightarrow> commandBuffer \<Rightarrow> commandBuffer) \<Rightarrow> addr \<Rightarrow>
    (cl_state \<Rightarrow> cl_state option) \<Rightarrow> cmd_world \<Rightarrow> cmd_world option" where
  "on_cl get upd p f w = do {
     b \<leftarrow> cw_cbs w p;
     P \<leftarrow> cw_cps w (cb_cp b);
     ((m', pa'), cl') \<leftarrow> f ((cw_mem w, cp_cpa P), get b);
     Some (w\<lparr>cw_mem := m', cw_cps := (cw_cps w)(cb_cp b \<mapsto> P\<lparr>cp_cpa := pa'\<rparr>),
       cw_cbs := (cw_cbs w)(p \<mapsto> upd (\<lambda>_. cl') b)\<rparr>) }"

abbreviation on_binCl where "on_binCl \<equiv> on_cl cb_binCl cb_binCl_update"
abbreviation on_handlesCl where "on_handlesCl \<equiv> on_cl cb_handlesCl cb_handlesCl_update"

text \<open>The members of the marker that the commands and the submission use, as offsets.\<close>

definition CLMarker_writeImage :: u32 where "CLMarker_writeImage = 12"
definition CLMarker_readImage :: u32 where "CLMarker_readImage = 16"
definition CLMarker_writeDepthStencilImage :: u32 where "CLMarker_writeDepthStencilImage = 20"
definition CLMarker_readDepthStencilImage :: u32 where "CLMarker_readDepthStencilImage = 24"
definition CLMarker_writeMSAAimage :: u32 where "CLMarker_writeMSAAimage = 28"
definition CLMarker_writeMSAAdepthStencilImage :: u32 where "CLMarker_writeMSAAdepthStencilImage = 32"
definition CLMarker_writeImageOffset :: u32 where "CLMarker_writeImageOffset = 36"
definition CLMarker_readImageOffset :: u32 where "CLMarker_readImageOffset = 40"
definition CLMarker_writeDepthStencilImageOffset :: u32 where "CLMarker_writeDepthStencilImageOffset = 44"
definition CLMarker_readDepthStencilImageOffset :: u32 where "CLMarker_readDepthStencilImageOffset = 48"
definition CLMarker_writeMSAAimageOffset :: u32 where "CLMarker_writeMSAAimageOffset = 52"
definition CLMarker_writeMSAAdepthStencilImageOffset :: u32 where "CLMarker_writeMSAAdepthStencilImageOffset = 56"
definition CLMarker_flags :: u32 where "CLMarker_flags = 60"
definition CLMarker_performResolve :: u32 where "CLMarker_performResolve = 64"
definition CLMarker_readMSAAimage :: u32 where "CLMarker_readMSAAimage = 68"
definition CLMarker_readMSAAdepthStencilImage :: u32 where "CLMarker_readMSAAdepthStencilImage = 72"
definition CLMarker_perfmonID :: u32 where "CLMarker_perfmonID = 76"
definition CLMarker_clearColor :: u32 where "CLMarker_clearColor = 80"
definition CLMarker_clearDepth :: u32 where "CLMarker_clearDepth = 88"
definition CLMarker_clearStencil :: u32 where "CLMarker_clearStencil = 92"
definition CLMarker_width :: u32 where "CLMarker_width = 96"
definition CLMarker_height :: u32 where "CLMarker_height = 100"
definition CLMarker_mipLevel :: u32 where "CLMarker_mipLevel = 104"
definition CLMarker_numDrawCallsSubmitted :: u32 where "CLMarker_numDrawCallsSubmitted = 108"
definition CLMarker_uniformRelocOffset :: u32 where "CLMarker_uniformRelocOffset = 140"
definition CLMarker_uniformRelocSize :: u32 where "CLMarker_uniformRelocSize = 144"
definition CLMarker_gemRelocOffset :: u32 where "CLMarker_gemRelocOffset = 148"
definition CLMarker_gemRelocSize :: u32 where "CLMarker_gemRelocSize = 152"
definition CLMarker_shaderRecRelocOffset :: u32 where "CLMarker_shaderRecRelocOffset = 156"
definition CLMarker_shaderRecRelocSize :: u32 where "CLMarker_shaderRecRelocSize = 160"

definition curr_marker :: "addr \<Rightarrow> cmd_world \<Rightarrow> addr option" where
  "curr_marker p w = do {
     b \<leftarrow> cw_cbs w p;
     P \<leftarrow> cw_cps w (cb_cp b);
     Some (getCPAptrFromOffset (cp_cpa P) (cl_currMarkerOffset (cb_binCl b))) }"

definition get_marker :: "addr \<Rightarrow> u32 \<Rightarrow> cmd_world \<Rightarrow> u32 option" where
  "get_marker p member w = do { a \<leftarrow> curr_marker p w; load32 (cw_mem w) (a + member) }"

definition set_marker :: "addr \<Rightarrow> u32 \<Rightarrow> u32 \<Rightarrow> cmd_world \<Rightarrow> cmd_world option" where
  "set_marker p member v w = do {
     a \<leftarrow> curr_marker p w;
     m \<leftarrow> store32 (cw_mem w) (a + member) v;
     Some (w\<lparr>cw_mem := m\<rparr>) }"

fun set_members :: "addr \<Rightarrow> (u32 \<times> u32) list \<Rightarrow> cmd_world \<Rightarrow> cmd_world option" where
  "set_members p [] w = Some w"
| "set_members p ((member, v) # mvs) w = do { w' \<leftarrow> set_marker p member v w; set_members p mvs w' }"

text \<open>The pairs of calls that the commands are made of: room for a packet and the packet.\<close>

definition fit_emit :: "addr \<Rightarrow> u32 \<Rightarrow> (cl_state \<Rightarrow> cl_state option) \<Rightarrow> cmd_world \<Rightarrow> cmd_world option" where
  "fit_emit p len f w = do { w' \<leftarrow> on_binCl p (\<lambda>\<sigma>. clFit \<sigma> len) w; on_binCl p f w' }"

definition begin_marker :: "addr \<Rightarrow> cmd_world \<Rightarrow> cmd_world option" where
  "begin_marker p w = do {
     w \<leftarrow> on_binCl p (\<lambda>\<sigma>. clFit \<sigma> sizeof_CLMarker) w;
     b \<leftarrow> cw_cbs w p;
     on_binCl p (clInsertNewCLMarker (cb_handlesCl b) (cb_shaderRecCl b) (cb_shaderRecCount b) (cb_uniformsCl b)) w }"

definition add_handle :: "addr \<Rightarrow> u32 \<Rightarrow> cmd_world \<Rightarrow> cmd_world option" where
  "add_handle p bo w = do {
     w \<leftarrow> on_handlesCl p (\<lambda>\<sigma>. clFit \<sigma> 4) w;
     b \<leftarrow> cw_cbs w p;
     handlesBufOffset \<leftarrow> get_marker p CLMarker_handlesBufOffset w;
     handlesSize \<leftarrow> get_marker p CLMarker_handlesSize w;
     on_handlesCl p (\<lambda>\<sigma>. do {
       (\<sigma>', idx) \<leftarrow> clGetHandleIndex (handlesBufOffset + cl_offset (cb_handlesCl b)) handlesSize bo \<sigma>;
       Some \<sigma>' }) w }"

subsection \<open>Clears of whole images\<close>

text \<open>The objects the commands read.\<close>

record objects =
  ob_images :: "addr \<rightharpoonup> image"
  ob_mems :: "addr \<rightharpoonup> deviceMemory"

definition image_bo :: "objects \<Rightarrow> addr \<Rightarrow> u32 option" where
  "image_bo ob i = do { im \<leftarrow> ob_images ob i; mm \<leftarrow> ob_mems ob (im_boundMem im); Some (dm_bo mm) }"

text \<open>
  The depth is multiplied as a \<open>float\<close>: the product is rounded to 24 significant bits, ties to even,
  with the bits of the smallest \<open>float\<close> at the end.  A depth outside of 0 to 1 is not valid.
\<close>

definition round_even :: "rat \<Rightarrow> int" where
  "round_even x = (let d = x - of_int (floor x) in
     if d < 1 / 2 \<or> (d = 1 / 2 \<and> even (floor x)) then floor x else floor x + 1)"

fun round_float :: "nat \<Rightarrow> rat \<Rightarrow> rat" where
  "round_float 0 x = of_int (round_even x)"
| "round_float (Suc n) x = (if x \<ge> 2 ^ 23 then of_int (round_even x) else round_float n (2 * x) / 2)"

definition depth24 :: "rat \<Rightarrow> u32 option" where
  "depth24 depth = (if depth < 0 \<or> depth > 1 then None
     else Some (word_of_int (floor (round_float 149 (depth * 0xffffff))) AND 0xffffff))"

definition VC4_SUBMIT_CL_USE_CLEAR_COLOR :: u32 where "VC4_SUBMIT_CL_USE_CLEAR_COLOR = 1"

text \<open>The packets of a job without a draw call.\<close>

definition clear_packets :: "addr \<Rightarrow> image \<Rightarrow> u32 \<Rightarrow> cmd_world \<Rightarrow> cmd_world option" where
  "clear_packets p i bit64 w = do {
     w \<leftarrow> fit_emit p 16 (clInsertTileBinningModeConfiguration 0 0 0 0 bit64 (if im_samples i > 1 then 1 else 0)
       (im_width i) (im_height i) 0 0 0) w;
     w \<leftarrow> fit_emit p 1 clInsertStartTileBinning w;
     w \<leftarrow> fit_emit p 1 clInsertIncrementSemaphore w;
     fit_emit p 1 clInsertFlush w }"

definition vkCmdClearColorImage ::
  "objects \<Rightarrow> addr \<Rightarrow> addr \<Rightarrow> rat \<times> rat \<times> rat \<times> rat \<Rightarrow> cmd_world \<Rightarrow> cmd_world option" where
  "vkCmdClearColorImage ob p img pColor w = do {
     w \<leftarrow> begin_marker p w;
     w \<leftarrow> set_marker p CLMarker_writeImage img w;
     bo \<leftarrow> image_bo ob img;
     w \<leftarrow> add_handle p bo w;
     i \<leftarrow> ob_images ob img;
     w \<leftarrow> clear_packets p i (if getFormatBpp (im_format i) = 64 then 1 else 0) w;
     c \<leftarrow> packVec4IntoABGR8 pColor;
     flags \<leftarrow> get_marker p CLMarker_flags w;
     set_members p [(CLMarker_clearColor + 4, c), (CLMarker_clearColor, c),
       (CLMarker_flags, flags OR VC4_SUBMIT_CL_USE_CLEAR_COLOR),
       (CLMarker_width, im_width i), (CLMarker_height, im_height i)] w }"

definition vkCmdClearDepthStencilImage ::
  "objects \<Rightarrow> addr \<Rightarrow> addr \<Rightarrow> rat \<Rightarrow> u32 \<Rightarrow> cmd_world \<Rightarrow> cmd_world option" where
  "vkCmdClearDepthStencilImage ob p img depth stencil w = do {
     w \<leftarrow> begin_marker p w;
     w \<leftarrow> set_marker p CLMarker_writeDepthStencilImage img w;
     bo \<leftarrow> image_bo ob img;
     w \<leftarrow> add_handle p bo w;
     i \<leftarrow> ob_images ob img;
     w \<leftarrow> clear_packets p i 0 w;
     d \<leftarrow> depth24 depth;
     flags \<leftarrow> get_marker p CLMarker_flags w;
     set_members p [(CLMarker_clearDepth, d), (CLMarker_clearStencil, stencil AND 0xff),
       (CLMarker_flags, flags OR VC4_SUBMIT_CL_USE_CLEAR_COLOR),
       (CLMarker_width, im_width i), (CLMarker_height, im_height i)] w }"

end
