(* ===== verification/Render_Pass.thy ===== *)
theory Render_Pass
  imports Recording
begin

text \<open>
  driver/renderpass.c: render passes, framebuffers, and the commands that begin and end a render
  pass.  Only the first subpass is looked at.  A pointer to an array that may be null is an optional
  list; the results of the calls of \<open>ALLOCATE\<close> of an operation are given as a list, in order.
\<close>

unbundle bit_operations_syntax

subsection \<open>Render passes\<close>

datatype VkAttachmentLoadOp = VK_ATTACHMENT_LOAD_OP_LOAD | VK_ATTACHMENT_LOAD_OP_CLEAR | VK_ATTACHMENT_LOAD_OP_DONT_CARE
datatype VkAttachmentStoreOp = VK_ATTACHMENT_STORE_OP_STORE | VK_ATTACHMENT_STORE_OP_DONT_CARE

text \<open>The members of the Vulkan structure that the driver reads.\<close>

record VkAttachmentDescription =
  ad_format :: VkFormat
  ad_samples :: u32
  ad_loadOp :: VkAttachmentLoadOp
  ad_storeOp :: VkAttachmentStoreOp
  ad_stencilLoadOp :: VkAttachmentLoadOp
  ad_stencilStoreOp :: VkAttachmentStoreOp

text \<open>An attachment reference is its attachment index and its layout.\<close>

record VkSubpassDescription =
  sp_flags :: u32
  sp_pipelineBindPoint :: VkPipelineBindPoint
  sp_inputAttachmentCount :: u32
  sp_pInputAttachments :: "(u32 \<times> u32) list option"
  sp_colorAttachmentCount :: u32
  sp_pColorAttachments :: "(u32 \<times> u32) list option"
  sp_pResolveAttachments :: "(u32 \<times> u32) list option"
  sp_pDepthStencilAttachment :: "(u32 \<times> u32) option"
  sp_preserveAttachmentCount :: u32
  sp_pPreserveAttachments :: "u32 list option"

record 'd VkRenderPassCreateInfo =
  ci_attachmentCount :: u32
  ci_pAttachments :: "VkAttachmentDescription list"
  ci_subpassCount :: u32
  ci_pSubpasses :: "VkSubpassDescription list"
  ci_dependencyCount :: u32
  ci_pDependencies :: "'d list"

record 'd renderpass =
  rp_attachments :: "VkAttachmentDescription list"
  rp_subpasses :: "VkSubpassDescription list"
  rp_subpassDependencies :: "'d list"

text \<open>
  An allocation followed by a copy of \<open>n\<close> elements; the inner option is the result of the
  allocation.  A copy from an array that is null or too short is undefined.
\<close>

definition alloc_copy :: "u32 \<Rightarrow> 'a list option \<Rightarrow> bool list \<Rightarrow> (bool list \<times> 'a list option) option" where
  "alloc_copy n src allocs = (case allocs of
     [] \<Rightarrow> None
   | False # as \<Rightarrow> Some (as, None)
   | True # as \<Rightarrow> (case src of
         None \<Rightarrow> None
       | Some xs \<Rightarrow> if length xs < unat n then None else Some (as, Some (take (unat n) xs))))"

text \<open>
  One array of a subpass: copied when \<open>wanted\<close>, null otherwise.  \<open>None\<close> inside is the failure of the
  allocation.
\<close>

definition copy_part :: "bool \<Rightarrow> u32 \<Rightarrow> 'a list option \<Rightarrow> bool list \<Rightarrow> (bool list \<times> 'a list option option) option" where
  "copy_part wanted n src allocs =
     (if wanted then do { (as, r) \<leftarrow> alloc_copy n src allocs; Some (as, map_option Some r) }
      else Some (allocs, Some None))"

definition copy_subpass :: "VkSubpassDescription \<Rightarrow> bool list \<Rightarrow> (bool list \<times> VkSubpassDescription option) option" where
  "copy_subpass s allocs = do {
     (as, inputs) \<leftarrow> copy_part (sp_inputAttachmentCount s \<noteq> 0) (sp_inputAttachmentCount s) (sp_pInputAttachments s) allocs;
     case inputs of None \<Rightarrow> Some (as, None) | Some inputs \<Rightarrow> do {
     (as, colors) \<leftarrow> copy_part (sp_colorAttachmentCount s \<noteq> 0) (sp_colorAttachmentCount s) (sp_pColorAttachments s) as;
     case colors of None \<Rightarrow> Some (as, None) | Some colors \<Rightarrow> do {
     (as, resolves) \<leftarrow> copy_part (sp_colorAttachmentCount s \<noteq> 0 \<and> sp_pResolveAttachments s \<noteq> None)
       (sp_colorAttachmentCount s) (sp_pResolveAttachments s) as;
     case resolves of None \<Rightarrow> Some (as, None) | Some resolves \<Rightarrow> do {
     (as, depth) \<leftarrow> copy_part (sp_pDepthStencilAttachment s \<noteq> None) 1
       (map_option (\<lambda>x. [x]) (sp_pDepthStencilAttachment s)) as;
     case depth of None \<Rightarrow> Some (as, None) | Some depth \<Rightarrow> do {
     (as, preserve) \<leftarrow> copy_part (sp_preserveAttachmentCount s \<noteq> 0) (sp_preserveAttachmentCount s) (sp_pPreserveAttachments s) as;
     case preserve of None \<Rightarrow> Some (as, None) | Some preserve \<Rightarrow>
     Some (as, Some (s\<lparr>sp_pInputAttachments := inputs, sp_pColorAttachments := colors, sp_pResolveAttachments := resolves,
       sp_pDepthStencilAttachment := map_option hd depth, sp_pPreserveAttachments := preserve\<rparr>)) } } } } }"

fun copy_subpasses :: "VkSubpassDescription list \<Rightarrow> bool list \<Rightarrow> (bool list \<times> VkSubpassDescription list option) option" where
  "copy_subpasses [] allocs = Some (allocs, Some [])"
| "copy_subpasses (s # ss) allocs = do {
     (as, s') \<leftarrow> copy_subpass s allocs;
     case s' of None \<Rightarrow> Some (as, None) | Some s' \<Rightarrow> do {
     (as, ss') \<leftarrow> copy_subpasses ss as;
     Some (as, map_option ((#) s') ss') } }"

text \<open>\<open>allocs\<close> starts with the allocation of the render pass itself; after a failure nothing is freed.\<close>

definition vkCreateRenderPass ::
  "'d VkRenderPassCreateInfo \<Rightarrow> bool list \<Rightarrow> (VkResult \<times> 'd renderpass option) option" where
  "vkCreateRenderPass ci allocs = do {
     (as, rp) \<leftarrow> alloc_copy 0 (Some [()]) allocs;
     case rp of None \<Rightarrow> Some (VK_ERROR_OUT_OF_HOST_MEMORY, None) | Some u \<Rightarrow> do {
     (as, attachments) \<leftarrow> alloc_copy (ci_attachmentCount ci) (Some (ci_pAttachments ci)) as;
     case attachments of None \<Rightarrow> Some (VK_ERROR_OUT_OF_HOST_MEMORY, None) | Some attachments \<Rightarrow> do {
     (as, subpasses) \<leftarrow> alloc_copy (ci_subpassCount ci) (Some (ci_pSubpasses ci)) as;
     case subpasses of None \<Rightarrow> Some (VK_ERROR_OUT_OF_HOST_MEMORY, None) | Some subpasses \<Rightarrow> do {
     (as, subpasses) \<leftarrow> copy_subpasses subpasses as;
     case subpasses of None \<Rightarrow> Some (VK_ERROR_OUT_OF_HOST_MEMORY, None) | Some subpasses \<Rightarrow> do {
     (as, dependencies) \<leftarrow> alloc_copy (ci_dependencyCount ci) (Some (ci_pDependencies ci)) as;
     case dependencies of None \<Rightarrow> Some (VK_ERROR_OUT_OF_HOST_MEMORY, None) | Some dependencies \<Rightarrow>
     Some (VK_SUCCESS, Some \<lparr>rp_attachments = attachments, rp_subpasses = subpasses,
       rp_subpassDependencies = dependencies\<rparr>) } } } } }"

definition vkDestroyRenderPass :: "addr \<Rightarrow> (addr \<rightharpoonup> 'd renderpass) \<Rightarrow> (addr \<rightharpoonup> 'd renderpass)" where
  "vkDestroyRenderPass p rps = (if p = NULL then rps else rps(p := None))"

definition vkGetRenderAreaGranularity :: "'d renderpass \<Rightarrow> (u32 \<times> u32) option" where
  "vkGetRenderAreaGranularity rp = do {
     a \<leftarrow> elem_at (rp_attachments rp) 0;
     let tileSize = (if ad_samples a > 1 then drop_bit 1 64 else 64);
     Some (tileSize, if getFormatBpp (ad_format a) = 64 then drop_bit 1 tileSize else tileSize) }"

subsection \<open>Framebuffers\<close>

record framebuffer =
  fb_renderpass :: addr
  fb_attachmentViews :: "imageView list"
  fb_width :: u32
  fb_height :: u32
  fb_layers :: u32

fun copy_views :: "(addr \<rightharpoonup> imageView) \<Rightarrow> addr list \<Rightarrow> imageView list option" where
  "copy_views views [] = Some []"
| "copy_views views (p # ps) = do { v \<leftarrow> views p; vs \<leftarrow> copy_views views ps; Some (v # vs) }"

text \<open>\<open>fb\<close> and \<open>avs\<close> are the results of the two calls of \<open>ALLOCATE\<close>.\<close>

definition vkCreateFramebuffer ::
  "addr \<Rightarrow> addr \<Rightarrow> (addr \<rightharpoonup> imageView) \<Rightarrow> addr \<Rightarrow> addr list \<Rightarrow> u32 \<times> u32 \<times> u32 \<Rightarrow> (addr \<rightharpoonup> framebuffer) \<Rightarrow>
    ((addr \<rightharpoonup> framebuffer) \<times> VkResult \<times> addr) option" where
  "vkCreateFramebuffer fb avs views renderPass pAttachments extent3 fbs =
     (if fb = NULL then Some (fbs, VK_ERROR_OUT_OF_HOST_MEMORY, NULL)
      else if avs = NULL then Some (fbs, VK_ERROR_OUT_OF_HOST_MEMORY, NULL)
      else do {
        vs \<leftarrow> copy_views views pAttachments;
        let (width, height, layers) = extent3;
        Some (fbs(fb \<mapsto> \<lparr>fb_renderpass = renderPass, fb_attachmentViews = vs, fb_width = width,
          fb_height = height, fb_layers = layers\<rparr>), VK_SUCCESS, fb) })"

definition vkDestroyFramebuffer :: "addr \<Rightarrow> (addr \<rightharpoonup> framebuffer) \<Rightarrow> (addr \<rightharpoonup> framebuffer)" where
  "vkDestroyFramebuffer p fbs = (if p = NULL then fbs else fbs(p := None))"

subsection \<open>The images a render pass reads and writes\<close>

record pass_targets =
  pt_writeImage :: addr
  pt_readImage :: addr
  pt_writeDepthStencilImage :: addr
  pt_readDepthStencilImage :: addr
  pt_writeMSAAimage :: addr
  pt_writeMSAAdepthStencilImage :: addr
  pt_performResolve :: u32
  pt_readMSAAimage :: u32
  pt_readMSAAdepthStencilImage :: u32
  pt_writeImageOffset :: u32
  pt_readImageOffset :: u32
  pt_writeDepthStencilImageOffset :: u32
  pt_readDepthStencilImageOffset :: u32
  pt_writeMSAAimageOffset :: u32
  pt_writeMSAAdepthStencilImageOffset :: u32

definition no_targets :: pass_targets where
  "no_targets = \<lparr>pt_writeImage = 0, pt_readImage = 0, pt_writeDepthStencilImage = 0, pt_readDepthStencilImage = 0,
     pt_writeMSAAimage = 0, pt_writeMSAAdepthStencilImage = 0, pt_performResolve = 0, pt_readMSAAimage = 0,
     pt_readMSAAdepthStencilImage = 0, pt_writeImageOffset = 0, pt_readImageOffset = 0,
     pt_writeDepthStencilImageOffset = 0, pt_readDepthStencilImageOffset = 0, pt_writeMSAAimageOffset = 0,
     pt_writeMSAAdepthStencilImageOffset = 0\<rparr>"

definition attachment_image :: "objects \<Rightarrow> framebuffer \<Rightarrow> u32 \<Rightarrow> (imageView \<times> image) option" where
  "attachment_image ob fb a = do {
     v \<leftarrow> elem_at (fb_attachmentViews fb) a;
     i \<leftarrow> ob_images ob (iv_image v);
     Some (v, i) }"

text \<open>
  The offset of the level of one attachment, plus the layer of a second one times the size of the
  image of a third one, divided by the number of layers of a fourth one: the code does not take all
  of them from the same attachment.
\<close>

definition target_offset :: "objects \<Rightarrow> framebuffer \<Rightarrow> u32 \<Rightarrow> u32 \<Rightarrow> u32 \<Rightarrow> u32 \<Rightarrow> u32 option" where
  "target_offset ob fb level layer sz layers = do {
     (v1, i1) \<leftarrow> attachment_image ob fb level;
     levelOffset \<leftarrow> elem_at (im_levelOffsets i1) (sr_baseMipLevel (iv_subresourceRange v1));
     (v2, i2) \<leftarrow> attachment_image ob fb layer;
     (v3, i3) \<leftarrow> attachment_image ob fb sz;
     (v4, i4) \<leftarrow> attachment_image ob fb layers;
     if im_layers i4 = 0 then None
     else Some (levelOffset + sr_baseArrayLayer (iv_subresourceRange v2) * im_size i3 div im_layers i4) }"

definition target_image :: "framebuffer \<Rightarrow> u32 \<Rightarrow> addr option" where
  "target_image fb a = do { v \<leftarrow> elem_at (fb_attachmentViews fb) a; Some (iv_image v) }"

text \<open>The attachment index of the first element of an array of references.\<close>

definition first_ref :: "(u32 \<times> u32) list option \<Rightarrow> u32 option" where
  "first_ref refs = do { rs \<leftarrow> refs; r \<leftarrow> elem_at rs 0; Some (fst r) }"

definition color_targets ::
  "objects \<Rightarrow> framebuffer \<Rightarrow> 'd renderpass \<Rightarrow> VkSubpassDescription \<Rightarrow> pass_targets \<Rightarrow> pass_targets option" where
  "color_targets ob fb rp s t = do {
     t \<leftarrow> (if sp_pColorAttachments s = None then Some t
       else do {
         a \<leftarrow> first_ref (sp_pColorAttachments s);
         ad \<leftarrow> elem_at (rp_attachments rp) a;
         t \<leftarrow> (if ad_storeOp ad = VK_ATTACHMENT_STORE_OP_STORE
           then do {
             i \<leftarrow> target_image fb a;
             off \<leftarrow> target_offset ob fb a a a a;
             Some (if ad_samples ad > 1 then t\<lparr>pt_writeMSAAimage := i, pt_writeMSAAimageOffset := off\<rparr>
               else t\<lparr>pt_writeImage := i, pt_writeImageOffset := off\<rparr>) }
           else Some t);
         if ad_loadOp ad = VK_ATTACHMENT_LOAD_OP_LOAD
         then do {
           i \<leftarrow> target_image fb a;
           off \<leftarrow> target_offset ob fb a a a a;
           Some (t\<lparr>pt_readImage := i, pt_readImageOffset := off,
             pt_readMSAAimage := (if ad_samples ad > 1 then 1 else pt_readMSAAimage t)\<rparr>) }
         else Some t });
     if sp_pResolveAttachments s = None then Some t
     else do {
       r \<leftarrow> first_ref (sp_pResolveAttachments s);
       ad \<leftarrow> elem_at (rp_attachments rp) r;
       if ad_storeOp ad = VK_ATTACHMENT_STORE_OP_STORE
       then do {
         i \<leftarrow> target_image fb r;
         a \<leftarrow> first_ref (sp_pColorAttachments s);
         off \<leftarrow> target_offset ob fb r a a a;
         Some (t\<lparr>pt_writeImage := i, pt_writeImageOffset := off, pt_performResolve := 1\<rparr>) }
       else Some t } }"

text \<open>The size in the offsets of the depth and stencil attachment is that of the color attachment.\<close>

definition depth_targets ::
  "objects \<Rightarrow> framebuffer \<Rightarrow> 'd renderpass \<Rightarrow> VkSubpassDescription \<Rightarrow> u32 \<Rightarrow> pass_targets \<Rightarrow> pass_targets option" where
  "depth_targets ob fb rp s d t = do {
     ad \<leftarrow> elem_at (rp_attachments rp) d;
     t \<leftarrow> (if ad_storeOp ad = VK_ATTACHMENT_STORE_OP_STORE \<or> ad_stencilStoreOp ad = VK_ATTACHMENT_STORE_OP_STORE
       then do {
         i \<leftarrow> target_image fb d;
         a \<leftarrow> first_ref (sp_pColorAttachments s);
         off \<leftarrow> target_offset ob fb d d a d;
         Some (if ad_samples ad > 1
           then t\<lparr>pt_writeMSAAdepthStencilImage := i, pt_writeMSAAdepthStencilImageOffset := off\<rparr>
           else t\<lparr>pt_writeDepthStencilImage := i, pt_writeDepthStencilImageOffset := off\<rparr>) }
       else Some t);
     if ad_loadOp ad = VK_ATTACHMENT_LOAD_OP_LOAD \<or> ad_stencilLoadOp ad = VK_ATTACHMENT_LOAD_OP_LOAD
     then do {
       i \<leftarrow> target_image fb d;
       a \<leftarrow> first_ref (sp_pColorAttachments s);
       off \<leftarrow> target_offset ob fb d d a d;
       Some (t\<lparr>pt_readDepthStencilImage := i, pt_readDepthStencilImageOffset := off,
         pt_readMSAAdepthStencilImage := (if ad_samples ad > 1 then 1 else pt_readMSAAdepthStencilImage t)\<rparr>) }
     else Some t }"

definition pass_targets_of :: "objects \<Rightarrow> framebuffer \<Rightarrow> 'd renderpass \<Rightarrow> VkSubpassDescription \<Rightarrow> pass_targets option" where
  "pass_targets_of ob fb rp s = do {
     t \<leftarrow> (if sp_colorAttachmentCount s > 0 then color_targets ob fb rp s no_targets else Some no_targets);
     case sp_pDepthStencilAttachment s of None \<Rightarrow> Some t | Some d \<Rightarrow> depth_targets ob fb rp s (fst d) t }"

subsection \<open>Beginning and ending a render pass\<close>

text \<open>A clear value, read as a color or as depth and stencil.\<close>

record VkClearValue =
  cv_color :: "rat \<times> rat \<times> rat \<times> rat"
  cv_depth :: rat
  cv_stencil :: u32

definition marker_targets :: "pass_targets \<Rightarrow> (u32 \<times> u32) list" where
  "marker_targets t = [
     (CLMarker_writeImage, pt_writeImage t), (CLMarker_writeImageOffset, pt_writeImageOffset t),
     (CLMarker_readImage, pt_readImage t), (CLMarker_readImageOffset, pt_readImageOffset t),
     (CLMarker_writeDepthStencilImage, pt_writeDepthStencilImage t),
     (CLMarker_writeDepthStencilImageOffset, pt_writeDepthStencilImageOffset t),
     (CLMarker_readDepthStencilImage, pt_readDepthStencilImage t),
     (CLMarker_readDepthStencilImageOffset, pt_readDepthStencilImageOffset t),
     (CLMarker_writeMSAAimage, pt_writeMSAAimage t), (CLMarker_writeMSAAimageOffset, pt_writeMSAAimageOffset t),
     (CLMarker_writeMSAAdepthStencilImage, pt_writeMSAAdepthStencilImage t),
     (CLMarker_writeMSAAdepthStencilImageOffset, pt_writeMSAAdepthStencilImageOffset t),
     (CLMarker_performResolve, pt_performResolve t), (CLMarker_readMSAAimage, pt_readMSAAimage t),
     (CLMarker_readMSAAdepthStencilImage, pt_readMSAAdepthStencilImage t)]"

text \<open>The clear values and flags of a primary command buffer, as members of the marker.\<close>

definition pass_clears ::
  "'d renderpass \<Rightarrow> VkSubpassDescription \<Rightarrow> VkClearValue list \<Rightarrow> (u32 \<times> u32) list option" where
  "pass_clears rp s pClearValues = do {
     (color, f1) \<leftarrow> (if sp_colorAttachmentCount s > 0 \<and> sp_pColorAttachments s \<noteq> None
       then do {
         a \<leftarrow> first_ref (sp_pColorAttachments s);
         ad \<leftarrow> elem_at (rp_attachments rp) a;
         if ad_loadOp ad = VK_ATTACHMENT_LOAD_OP_CLEAR
         then do {
           cv \<leftarrow> elem_at pClearValues a;
           c \<leftarrow> packVec4IntoABGR8 (cv_color cv);
           Some ([(CLMarker_clearColor + 4, c), (CLMarker_clearColor, c)], VC4_SUBMIT_CL_USE_CLEAR_COLOR) }
         else Some ([], 0) }
       else Some ([], 0));
     (zs, f2) \<leftarrow> (case sp_pDepthStencilAttachment s of
         None \<Rightarrow> Some ([], 0)
       | Some d \<Rightarrow> do {
           ad \<leftarrow> elem_at (rp_attachments rp) (fst d);
           z \<leftarrow> (if ad_loadOp ad = VK_ATTACHMENT_LOAD_OP_CLEAR
             then do { cv \<leftarrow> elem_at pClearValues (fst d); z \<leftarrow> depth24 (cv_depth cv); Some [(CLMarker_clearDepth, z)] }
             else Some []);
           st \<leftarrow> (if ad_stencilLoadOp ad = VK_ATTACHMENT_LOAD_OP_CLEAR
             then do { cv \<leftarrow> elem_at pClearValues (fst d); Some [(CLMarker_clearStencil, cv_stencil cv AND 0xff)] }
             else Some []);
           Some (z @ st, if z @ st = [] then 0 else VC4_SUBMIT_CL_USE_CLEAR_COLOR) });
     Some (color @ zs @ [(CLMarker_flags, f1 OR f2)]) }"

text \<open>The handles of the images that are not null, in this order.\<close>

fun add_image_handles :: "objects \<Rightarrow> addr \<Rightarrow> addr list \<Rightarrow> cmd_world \<Rightarrow> cmd_world option" where
  "add_image_handles ob p [] w = Some w"
| "add_image_handles ob p (i # is) w = do {
     w \<leftarrow> (if i = NULL then Some w else do { bo \<leftarrow> image_bo ob i; add_handle p bo w });
     add_image_handles ob p is w }"

definition target_list :: "pass_targets \<Rightarrow> addr list" where
  "target_list t = [pt_writeImage t, pt_readImage t, pt_writeDepthStencilImage t, pt_readDepthStencilImage t,
     pt_writeMSAAimage t, pt_writeMSAAdepthStencilImage t]"

text \<open>The bits per pixel of the image that is written, 0 when there is none.\<close>

definition target_bpp :: "objects \<Rightarrow> addr \<Rightarrow> addr \<Rightarrow> u32 option" where
  "target_bpp ob writeImage writeMSAAimage =
     (if writeImage \<noteq> NULL then do { i \<leftarrow> ob_images ob writeImage; Some (getFormatBpp (im_format i)) }
      else if writeMSAAimage \<noteq> NULL then do { i \<leftarrow> ob_images ob writeMSAAimage; Some (getFormatBpp (im_format i)) }
      else Some 0)"

definition pad_width :: "u32 \<Rightarrow> u32 \<Rightarrow> u32" where
  "pad_width mipLevel width = (if mipLevel > 0 then max (getPow2Pad width) 4 else width)"

text \<open>The start of the binning of a primary command buffer.\<close>

definition begin_binning :: "objects \<Rightarrow> addr \<Rightarrow> framebuffer \<Rightarrow> pass_targets \<Rightarrow> cmd_world \<Rightarrow> cmd_world option" where
  "begin_binning ob p fb t w = do {
     bpp \<leftarrow> target_bpp ob (pt_writeImage t) (pt_writeMSAAimage t);
     let biggestMip = foldl (\<lambda>m v. max m (sr_baseMipLevel (iv_subresourceRange v))) 0 (fb_attachmentViews fb);
     w \<leftarrow> set_members p [(CLMarker_width, fb_width fb), (CLMarker_height, fb_height fb), (CLMarker_mipLevel, biggestMip)] w;
     w \<leftarrow> fit_emit p 16 (clInsertTileBinningModeConfiguration 0 0 0 0 (if bpp = 64 then 1 else 0)
       (if pt_writeMSAAimage t \<noteq> NULL \<or> pt_writeMSAAdepthStencilImage t \<noteq> NULL \<or> pt_performResolve t \<noteq> 0 then 1 else 0)
       (pad_width biggestMip (fb_width fb)) (fb_height fb) 0 0 0) w;
     fit_emit p 1 clInsertStartTileBinning w }"

definition vkCmdBeginRenderPass ::
  "objects \<Rightarrow> (addr \<rightharpoonup> 'd renderpass) \<Rightarrow> (addr \<rightharpoonup> framebuffer) \<Rightarrow> addr \<Rightarrow> addr \<times> addr \<Rightarrow> VkClearValue list \<Rightarrow>
    cmd_world \<Rightarrow> cmd_world option" where
  "vkCmdBeginRenderPass ob rps fbs p rpfb pClearValues w = do {
     rp \<leftarrow> rps (fst rpfb);
     fb \<leftarrow> fbs (snd rpfb);
     s \<leftarrow> elem_at (rp_subpasses rp) 0;
     t \<leftarrow> pass_targets_of ob fb rp s;
     w \<leftarrow> begin_marker p w;
     w \<leftarrow> set_members p (marker_targets t) w;
     b \<leftarrow> cw_cbs w p;
     w \<leftarrow> (if cb_level b = VK_COMMAND_BUFFER_LEVEL_PRIMARY
       then do {
         clears \<leftarrow> pass_clears rp s pClearValues;
         w \<leftarrow> set_members p clears w;
         w \<leftarrow> add_image_handles ob p (target_list t) w;
         begin_binning ob p fb t w }
       else Some w);
     w \<leftarrow> set_marker p CLMarker_perfmonID (cb_perfmonID b) w;
     on_cmdbuf p (\<lambda>b. b\<lparr>cb_currRenderPass := fst rpfb\<rparr>) w }"

definition vkCmdEndRenderPass :: "addr \<Rightarrow> cmd_world \<Rightarrow> cmd_world option" where
  "vkCmdEndRenderPass p w = do {
     b \<leftarrow> cw_cbs w p;
     w \<leftarrow> (if cb_level b = VK_COMMAND_BUFFER_LEVEL_PRIMARY
       then do {
         w \<leftarrow> fit_emit p 1 clInsertIncrementSemaphore w;
         fit_emit p 1 clInsertFlush w }
       else Some w);
     on_cmdbuf p (\<lambda>b. b\<lparr>cb_currRenderPass := NULL\<rparr>) w }"

end
