(* ===== verification/Kernel_Interface.thy ===== *)
theory Kernel_Interface
  imports Driver_Types
begin

text \<open>
  driver/kernelInterface.c: the system calls of the driver.  The kernel is not part of the program:
  it is a parameter, a record of functions on an abstract kernel state \<open>'k\<close> (\<open>drmIoctl\<close> with
  the request it is given, the opening of the card and the closing of a descriptor, \<open>mmap\<close>, \<open>munmap\<close>).  What is written to the error stream is left out.  A
  C \<open>int\<close> result is an \<open>int\<close>, \<open>errno\<close> is part of the reply.
\<close>

unbundle bit_operations_syntax

subsection \<open>Requests and replies\<close>

record drm_vc4_submit_rcl_surface =
  rs_hindex :: u32
  rs_offset :: u32
  rs_bits :: u16
  rs_flags :: u16

record drm_vc4_submit_cl =
  sc_bin_cl :: u64
  sc_shader_rec :: u64
  sc_uniforms :: u64
  sc_bo_handles :: u64
  sc_bin_cl_size :: u32
  sc_shader_rec_size :: u32
  sc_shader_rec_count :: u32
  sc_uniforms_size :: u32
  sc_bo_handle_count :: u32
  sc_width :: u16
  sc_height :: u16
  sc_min_x_tile :: u8
  sc_min_y_tile :: u8
  sc_max_x_tile :: u8
  sc_max_y_tile :: u8
  sc_color_read :: drm_vc4_submit_rcl_surface
  sc_color_write :: drm_vc4_submit_rcl_surface
  sc_zs_read :: drm_vc4_submit_rcl_surface
  sc_zs_write :: drm_vc4_submit_rcl_surface
  sc_msaa_color_write :: drm_vc4_submit_rcl_surface
  sc_msaa_zs_write :: drm_vc4_submit_rcl_surface
  sc_clear_color :: "u32 \<times> u32"
  sc_clear_z :: u32
  sc_clear_s :: u8
  sc_flags :: u32
  sc_perfmonid :: u32

datatype drm_request =
    GET_PARAM u32
  | SUBMIT_CL drm_vc4_submit_cl
  | WAIT_SEQNO u64 u64
  | WAIT_BO u32 u64
  | CREATE_BO u32
  | CREATE_SHADER_BO u32 u64
  | MMAP_BO u32
  | GEM_MADVISE u32 u32
  | GEM_CLOSE u32
  | GEM_FLINK u32
  | GEM_OPEN u32
  | GET_TILING u32
  | SET_TILING u32 u64
  | PERFMON_CREATE "u32 list"
  | PERFMON_DESTROY u32
  | PERFMON_GET_VALUES u32
  | GET_HANG_STATE
  | PRIME_HANDLE_TO_FD u32

datatype errno = ETIME | EINVAL | ENOENT | errno_other u32

text \<open>
  The one field of the request structure that the kernel writes back (a value, a handle, an offset,
  a sequence number, a name, a modifier, the remaining time), and the counter values.
\<close>

record drm_reply =
  rp_ret :: int
  rp_errno :: errno
  rp_value :: u64
  rp_values :: "u64 list"

record 'k kernel =
  drmIoctl :: "'k \<Rightarrow> drm_request \<Rightarrow> 'k \<times> drm_reply"
  open_card :: "'k \<Rightarrow> 'k \<times> int"
  close_fd :: "'k \<Rightarrow> int \<Rightarrow> 'k"
  mmap :: "'k \<Rightarrow> u32 \<Rightarrow> u64 \<Rightarrow> 'k \<times> addr option"
  munmap :: "'k \<Rightarrow> addr \<Rightarrow> u32 \<Rightarrow> 'k"

definition WAIT_TIMEOUT_INFINITE :: u64 where "WAIT_TIMEOUT_INFINITE = 0xffffffffffffffff"

subsection \<open>The control descriptor\<close>

record ioctl_state =
  controlFd :: int
  refCounter :: int

definition openIoctl :: "'k kernel \<Rightarrow> 'k \<times> ioctl_state \<Rightarrow> ('k \<times> ioctl_state) \<times> int" where
  "openIoctl K s = (let (k, c) = s;
     (k1, c1) = (if controlFd c = 0 then (let (k', fd) = open_card K k in (k', c\<lparr>controlFd := fd\<rparr>)) else (k, c))
   in if controlFd c = 0 \<and> controlFd c1 < 0 then ((k1, c1), -1)
      else ((k1, c1\<lparr>refCounter := refCounter c1 + 1\<rparr>), 0))"

definition closeIoctl :: "'k kernel \<Rightarrow> 'k \<times> ioctl_state \<Rightarrow> int \<Rightarrow> 'k \<times> ioctl_state" where
  "closeIoctl K s fd = (let (k, c) = s; c' = c\<lparr>refCounter := refCounter c - 1\<rparr>
   in if refCounter c' = 0 then (close_fd K k fd, c') else (k, c'))"

subsection \<open>Chip, features and tiling\<close>

record chip_info =
  ci_technologyVersion :: u32
  ci_IDstrUINT :: u32
  ci_vpmMemorySize :: u32
  ci_hdrSupported :: u32
  ci_numSemaphores :: u32
  ci_numTMUperSlice :: u32
  ci_numQPUperSlice :: u32
  ci_numSlices :: u32
  ci_v3dRevision :: u32
  ci_tileBufferDoubleBufferModeSupported :: u32
  ci_tileBufferSize :: u32
  ci_vriMemorySize :: u32

text \<open>The fields of the three identity registers.\<close>

definition chip_info_of :: "u64 \<Rightarrow> u64 \<Rightarrow> u64 \<Rightarrow> chip_info" where
  "chip_info_of ident0 ident1 ident2 = (let f = (\<lambda>v n m. ucast (drop_bit n v AND m)) in
     \<lparr>ci_technologyVersion = f ident0 24 0xff, ci_IDstrUINT = f ident0 0 0x00ffffff,
      ci_vpmMemorySize = ucast ((drop_bit 28 ident1 AND 0xf) * 1024), ci_hdrSupported = f ident1 24 0xf,
      ci_numSemaphores = f ident1 16 0xff, ci_numTMUperSlice = f ident1 12 0xf,
      ci_numQPUperSlice = f ident1 8 0xf, ci_numSlices = f ident1 4 0xf, ci_v3dRevision = f ident1 0 0xf,
      ci_tileBufferDoubleBufferModeSupported = f ident2 8 0xf, ci_tileBufferSize = f ident2 4 0xf,
      ci_vriMemorySize = f ident2 0 0xf\<rparr>)"

text \<open>The parameter numbers \<open>DRM_VC4_PARAM_V3D_IDENT0\<close> to \<open>IDENT2\<close> are 0 to 2.\<close>

definition vc4_get_chip_info :: "'k kernel \<Rightarrow> 'k \<Rightarrow> 'k \<times> int \<times> chip_info option" where
  "vc4_get_chip_info K k = (let (k1, r0) = drmIoctl K k (GET_PARAM 0) in
     if rp_ret r0 \<noteq> 0 then (k1, 0, None)
     else let (k2, r1) = drmIoctl K k1 (GET_PARAM 1) in
     if rp_ret r1 \<noteq> 0 then (k2, 0, None)
     else let (k3, r2) = drmIoctl K k2 (GET_PARAM 2) in
     if rp_ret r2 \<noteq> 0 then (k3, 0, None)
     else let ci = chip_info_of (rp_value r0) (rp_value r1) (rp_value r2);
              v3d_ver = ci_technologyVersion ci * 10 + ci_v3dRevision ci in
     if v3d_ver \<noteq> 21 \<and> v3d_ver \<noteq> 26 then (k3, 0, Some ci) else (k3, 1, Some ci))"

definition vc4_has_feature :: "'k kernel \<Rightarrow> 'k \<Rightarrow> u32 \<Rightarrow> 'k \<times> int" where
  "vc4_has_feature K k feature = (let (k', r) = drmIoctl K k (GET_PARAM feature) in
     (k', if rp_ret r \<noteq> 0 then 0 else sint (ucast (rp_value r) :: u32)))"

definition vc4_test_tiling :: "'k kernel \<Rightarrow> 'k \<Rightarrow> 'k \<times> int" where
  "vc4_test_tiling K k = (let (k', r) = drmIoctl K k (GET_TILING 0) in
     (k', if rp_ret r = -1 \<and> rp_errno r = ENOENT then 1 else 0))"

text \<open>The values of drm/drm_fourcc.h: \<open>DRM_FORMAT_MOD_INVALID\<close> and \<open>DRM_FORMAT_MOD_LINEAR\<close>.\<close>

definition DRM_FORMAT_MOD_INVALID :: u64 where "DRM_FORMAT_MOD_INVALID = 0x00ffffffffffffff"

definition vc4_bo_get_tiling :: "'k kernel \<Rightarrow> 'k \<Rightarrow> u32 \<Rightarrow> u64 \<Rightarrow> 'k \<times> u64" where
  "vc4_bo_get_tiling K k bo modifier = (let (k', r) = drmIoctl K k (GET_TILING bo) in
     (k', if rp_ret r \<noteq> 0 then 0
          else if modifier = DRM_FORMAT_MOD_INVALID then rp_value r
          else -1))"

definition vc4_bo_set_tiling :: "'k kernel \<Rightarrow> 'k \<Rightarrow> u32 \<Rightarrow> u64 \<Rightarrow> 'k \<times> int" where
  "vc4_bo_set_tiling K k bo modifier = (let (k', r) = drmIoctl K k (SET_TILING bo modifier) in
     (k', if rp_ret r \<noteq> 0 then 0 else 1))"

subsection \<open>Buffer objects\<close>

definition vc4_set_madvise :: "'k kernel \<Rightarrow> 'k \<Rightarrow> u32 \<Rightarrow> u32 \<Rightarrow> bool \<Rightarrow> 'k \<times> u32" where
  "vc4_set_madvise K k bo needed hasMadvise =
     (if \<not> hasMadvise then (k, 1)
      else let (k', r) = drmIoctl K k (GEM_MADVISE bo (if needed = 0 then 1 else 0)) in
        (k', if rp_ret r \<noteq> 0 then 0 else ucast (rp_value r)))"

definition vc4_bo_map_unsynchronized :: "'k kernel \<Rightarrow> 'k \<Rightarrow> u32 \<Rightarrow> u32 \<Rightarrow> u32 \<Rightarrow> 'k \<times> addr" where
  "vc4_bo_map_unsynchronized K k bo offset sz = (let (k1, r) = drmIoctl K k (MMAP_BO bo) in
     if rp_ret r \<noteq> 0 then (k1, NULL)
     else let (k2, p) = mmap K k1 sz (rp_value r + ucast offset) in
       (k2, case p of None \<Rightarrow> NULL | Some mapPtr \<Rightarrow> mapPtr))"

definition vc4_bo_unmap_unsynchronized :: "'k kernel \<Rightarrow> 'k \<Rightarrow> addr \<Rightarrow> u32 \<Rightarrow> 'k" where
  "vc4_bo_unmap_unsynchronized K k p sz = munmap K k p sz"

definition vc4_bo_wait :: "'k kernel \<Rightarrow> 'k \<Rightarrow> u32 \<Rightarrow> u64 \<Rightarrow> 'k \<times> int" where
  "vc4_bo_wait K k bo timeout_ns = (let (k', r) = drmIoctl K k (WAIT_BO bo timeout_ns) in
     (k', if rp_ret r \<noteq> 0 then 0 else 1))"

definition vc4_bo_map :: "'k kernel \<Rightarrow> 'k \<Rightarrow> u32 \<Rightarrow> u32 \<Rightarrow> u32 \<Rightarrow> 'k \<times> addr" where
  "vc4_bo_map K k bo offset sz = (let (k1, map) = vc4_bo_map_unsynchronized K k bo offset sz;
       (k2, ok) = vc4_bo_wait K k1 bo WAIT_TIMEOUT_INFINITE in
     (k2, if ok = 0 then NULL else map))"

definition vc4_bo_flink :: "'k kernel \<Rightarrow> 'k \<Rightarrow> u32 \<Rightarrow> 'k \<times> int \<times> u32 option" where
  "vc4_bo_flink K k bo = (let (k', r) = drmIoctl K k (GEM_FLINK bo) in
     (k', if rp_ret r \<noteq> 0 then (0, None) else (1, Some (ucast (rp_value r)))))"

text \<open>The size is an in/out parameter: on success it becomes the aligned one.\<close>

definition vc4_bo_alloc_shader :: "'k kernel \<Rightarrow> 'k \<Rightarrow> addr \<Rightarrow> u32 \<Rightarrow> ('k \<times> u32 \<times> u32) option" where
  "vc4_bo_alloc_shader K k data sz = do {
     alignedSize \<leftarrow> getBOAlignedSize sz 8;
     let (k', r) = drmIoctl K k (CREATE_SHADER_BO alignedSize (ucast data));
     Some (if rp_ret r \<noteq> 0 then (k', 0, sz) else (k', ucast (rp_value r), alignedSize)) }"

definition vc4_bo_open_name :: "'k kernel \<Rightarrow> 'k \<Rightarrow> u32 \<Rightarrow> 'k \<times> u32" where
  "vc4_bo_open_name K k name = (let (k', r) = drmIoctl K k (GEM_OPEN name) in
     (k', if rp_ret r \<noteq> 0 then 0 else ucast (rp_value r)))"

text \<open>The label and the clearing of a new object belong to debug builds.\<close>

definition vc4_bo_alloc :: "'k kernel \<Rightarrow> 'k \<Rightarrow> u32 \<Rightarrow> 'k \<times> u32" where
  "vc4_bo_alloc K k sz = (let (k', r) = drmIoctl K k (CREATE_BO sz) in
     (k', if rp_ret r \<noteq> 0 then 0 else ucast (rp_value r)))"

definition vc4_bo_free :: "'k kernel \<Rightarrow> 'k \<Rightarrow> u32 \<Rightarrow> addr \<Rightarrow> u32 \<Rightarrow> 'k" where
  "vc4_bo_free K k bo mappedAddr sz =
     (let k1 = (if mappedAddr \<noteq> NULL then vc4_bo_unmap_unsynchronized K k mappedAddr sz else k)
      in fst (drmIoctl K k1 (GEM_CLOSE bo)))"

definition vc4_bo_get_dmabuf :: "'k kernel \<Rightarrow> 'k \<Rightarrow> u32 \<Rightarrow> 'k \<times> int" where
  "vc4_bo_get_dmabuf K k bo = (let (k', r) = drmIoctl K k (PRIME_HANDLE_TO_FD bo) in
     (k', if rp_ret r \<noteq> 0 then 0 else sint (ucast (rp_value r) :: u32)))"

subsection \<open>Jobs\<close>

definition vc4_print_hang_state :: "'k kernel \<Rightarrow> 'k \<Rightarrow> 'k" where
  "vc4_print_hang_state K k = fst (drmIoctl K k GET_HANG_STATE)"

text \<open>
  The result is the new kernel state, the return code (1 done, 0 error, -1 timeout), and the two
  values behind the pointers: the last finished sequence number and the remaining time.
\<close>

definition vc4_seqno_wait ::
  "'k kernel \<Rightarrow> 'k \<Rightarrow> u64 \<Rightarrow> u64 \<Rightarrow> u64 \<Rightarrow> 'k \<times> int \<times> u64 \<times> u64" where
  "vc4_seqno_wait K k lastFinishedSeqno seqno timeout_ns =
     (if seqno = 0 then (k, 1, lastFinishedSeqno, timeout_ns)
      else if lastFinishedSeqno \<ge> seqno then (k, 1, lastFinishedSeqno, timeout_ns)
      else let (k', r) = drmIoctl K k (WAIT_SEQNO seqno timeout_ns) in
        if rp_ret r \<noteq> 0
        then if rp_errno r \<noteq> ETIME then (vc4_print_hang_state K k', 0, lastFinishedSeqno, timeout_ns)
             else (k', -1, lastFinishedSeqno, -1)
        else (k', 1, seqno, rp_value r))"

definition vc4_cl_submit ::
  "'k kernel \<Rightarrow> 'k \<Rightarrow> drm_vc4_submit_cl \<Rightarrow> u64 \<Rightarrow> u64 \<Rightarrow> 'k \<times> u64 \<times> u64" where
  "vc4_cl_submit K k submit lastEmittedSeqno lastFinishedSeqno =
     (let (k1, r) = drmIoctl K k (SUBMIT_CL submit);
          emitted = (if rp_ret r = 0 then rp_value r else lastEmittedSeqno)
      in if emitted - lastFinishedSeqno > 5
         then let (k2, ret, finished, timeout) = vc4_seqno_wait K k1 lastFinishedSeqno
                (if lastFinishedSeqno > 0 then emitted - 5 else emitted) WAIT_TIMEOUT_INFINITE
              in (k2, emitted, finished)
         else (k1, emitted, lastFinishedSeqno))"

subsection \<open>Performance monitors\<close>

definition vc4_create_perfmon :: "'k kernel \<Rightarrow> 'k \<Rightarrow> u32 list \<Rightarrow> 'k \<times> u32" where
  "vc4_create_perfmon K k counters = (let (k', r) = drmIoctl K k (PERFMON_CREATE counters) in
     (k', if rp_ret r \<noteq> 0 then 0 else ucast (rp_value r)))"

definition vc4_destroy_perfmon :: "'k kernel \<Rightarrow> 'k \<Rightarrow> u32 \<Rightarrow> 'k" where
  "vc4_destroy_perfmon K k i = fst (drmIoctl K k (PERFMON_DESTROY i))"

text \<open>The values the kernel writes, when it does.\<close>

definition vc4_perfmon_get_values :: "'k kernel \<Rightarrow> 'k \<Rightarrow> u32 \<Rightarrow> 'k \<times> u64 list option" where
  "vc4_perfmon_get_values K k i = (let (k', r) = drmIoctl K k (PERFMON_GET_VALUES i) in
     (k', if rp_ret r \<noteq> 0 then None else Some (rp_values r)))"

end
