(* ===== verification/Sync.thy ===== *)
theory Sync
  imports Kernel_Interface
begin

text \<open>
  driver/sync.c: semaphores, fences, image barriers and the waits for the GPU.  A \<open>sem_t\<close> is the
  count it holds; waiting on a count of zero does not return (\<open>None\<close>).  The GPU numbers its jobs;
  a fence holds the number of the job that signals it.  An uninitialised local variable is an
  argument of the operation.
\<close>

unbundle bit_operations_syntax

record queue =
  q_lastEmitSeqno :: u64
  q_lastFinishedSeqno :: u64
  q_dev :: addr

record fence =
  fn_seqno :: u64
  fn_signaled :: u32

type_synonym sems = "addr \<rightharpoonup> nat"
type_synonym fences = "addr \<rightharpoonup> fence"

subsection \<open>Semaphores\<close>

definition sem_wait :: "sems \<Rightarrow> addr \<Rightarrow> sems option" where
  "sem_wait S p = do { n \<leftarrow> S p; if n = 0 then None else Some (S(p \<mapsto> n - 1)) }"

definition sem_post :: "sems \<Rightarrow> addr \<Rightarrow> sems option" where
  "sem_post S p = do { n \<leftarrow> S p; Some (S(p \<mapsto> n + 1)) }"

definition vkCreateSemaphore :: "addr \<Rightarrow> sems \<Rightarrow> sems \<times> VkResult \<times> addr" where
  "vkCreateSemaphore p S =
     (if p = NULL then (S, VK_ERROR_OUT_OF_HOST_MEMORY, NULL) else (S(p \<mapsto> 0), VK_SUCCESS, p))"

definition vkDestroySemaphore :: "sems \<Rightarrow> addr \<Rightarrow> sems" where
  "vkDestroySemaphore S p = (if p = NULL then S else S(p := None))"

subsection \<open>Barriers\<close>

text \<open>The image barriers, each an image and its new layout; the other barriers have empty loops.\<close>

fun image_barriers :: "(addr \<rightharpoonup> image) \<Rightarrow> (addr \<times> u32) list \<Rightarrow> (addr \<rightharpoonup> image) option" where
  "image_barriers imgs [] = Some imgs"
| "image_barriers imgs ((p, newLayout) # bs) = do {
     i \<leftarrow> imgs p;
     image_barriers (imgs(p \<mapsto> i\<lparr>im_layout := newLayout\<rparr>)) bs }"

definition vkCmdPipelineBarrier :: "(addr \<rightharpoonup> image) \<Rightarrow> (addr \<times> u32) list \<Rightarrow> (addr \<rightharpoonup> image) option" where
  "vkCmdPipelineBarrier imgs pImageMemoryBarriers = image_barriers imgs pImageMemoryBarriers"

subsection \<open>Waiting for queues\<close>

text \<open>\<open>u\<close> is the value of the uninitialised \<open>lastFinishedSeqno\<close>.\<close>

definition vkQueueWaitIdle :: "'k kernel \<Rightarrow> u64 \<Rightarrow> 'k \<Rightarrow> queue \<Rightarrow> 'k \<times> VkResult" where
  "vkQueueWaitIdle K u k q =
     (let (k', ret, fin, timeout) = vc4_seqno_wait K k u (q_lastEmitSeqno q) WAIT_TIMEOUT_INFINITE
      in (k', VK_SUCCESS))"

fun wait_queues :: "'k kernel \<Rightarrow> 'k \<Rightarrow> (u64 \<times> queue) list \<Rightarrow> 'k" where
  "wait_queues K k [] = k"
| "wait_queues K k ((u, q) # qs) =
     (let (k', ret, fin, timeout) = vc4_seqno_wait K k u (q_lastEmitSeqno q) WAIT_TIMEOUT_INFINITE
      in wait_queues K k' qs)"

text \<open>The queues of every family, each with the value its own uninitialised variable has.\<close>

definition vkDeviceWaitIdle :: "'k kernel \<Rightarrow> 'k \<Rightarrow> (u64 \<times> queue) list list \<Rightarrow> 'k \<times> VkResult" where
  "vkDeviceWaitIdle K k families = (foldl (wait_queues K) k families, VK_SUCCESS)"

subsection \<open>Fences\<close>

definition VK_FENCE_CREATE_SIGNALED_BIT :: u32 where "VK_FENCE_CREATE_SIGNALED_BIT = 1"

definition vkCreateFence :: "addr \<Rightarrow> u32 \<Rightarrow> fences \<Rightarrow> fences \<times> VkResult \<times> addr" where
  "vkCreateFence p flags F =
     (if p = NULL then (F, VK_ERROR_OUT_OF_HOST_MEMORY, NULL)
      else (F(p \<mapsto> \<lparr>fn_seqno = 0, fn_signaled = flags AND VK_FENCE_CREATE_SIGNALED_BIT\<rparr>), VK_SUCCESS, p))"

definition vkDestroyFence :: "fences \<Rightarrow> addr \<Rightarrow> fences" where
  "vkDestroyFence F p = (if p = NULL then F else F(p := None))"

definition vkGetFenceStatus :: "fences \<Rightarrow> addr \<Rightarrow> VkResult option" where
  "vkGetFenceStatus F p = do { f \<leftarrow> F p; Some (if fn_signaled f \<noteq> 0 then VK_SUCCESS else VK_NOT_READY) }"

fun vkResetFences :: "fences \<Rightarrow> addr list \<Rightarrow> (fences \<times> VkResult) option" where
  "vkResetFences F [] = Some (F, VK_SUCCESS)"
| "vkResetFences F (p # ps) = do {
     f \<leftarrow> F p;
     vkResetFences (F(p \<mapsto> f\<lparr>fn_signaled := 0, fn_seqno := 0\<rparr>)) ps }"

text \<open>
  The two loops of \<open>vkWaitForFences\<close>, with the remaining time.  Only a negative result of the wait
  is a failure there.
\<close>

fun wait_all_fences :: "'k kernel \<Rightarrow> 'k \<times> fences \<Rightarrow> u64 \<Rightarrow> addr list \<Rightarrow> (('k \<times> fences) \<times> VkResult) option" where
  "wait_all_fences K s timeout [] = Some (s, VK_SUCCESS)"
| "wait_all_fences K s timeout (p # ps) = do {
     let (k, F) = s;
     f \<leftarrow> F p;
     if fn_signaled f = 0
     then let (k', ret, fin, timeout') = vc4_seqno_wait K k 0 (fn_seqno f) timeout in
       if ret < 0 then Some ((k', F), VK_TIMEOUT)
       else wait_all_fences K (k', F(p \<mapsto> f\<lparr>fn_signaled := 1, fn_seqno := 0\<rparr>)) timeout' ps
     else wait_all_fences K s timeout ps }"

fun wait_any_fence :: "'k kernel \<Rightarrow> 'k \<times> fences \<Rightarrow> u64 \<Rightarrow> addr list \<Rightarrow> (('k \<times> fences) \<times> VkResult) option" where
  "wait_any_fence K s timeout [] = Some (s, VK_TIMEOUT)"
| "wait_any_fence K s timeout (p # ps) = do {
     let (k, F) = s;
     f \<leftarrow> F p;
     if fn_signaled f = 0
     then let (k', ret, fin, timeout') = vc4_seqno_wait K k 0 (fn_seqno f) timeout in
       if ret < 0 then wait_any_fence K (k', F) timeout' ps
       else Some ((k', F(p \<mapsto> f\<lparr>fn_signaled := 1, fn_seqno := 0\<rparr>)), VK_SUCCESS)
     else Some (s, VK_SUCCESS) }"

text \<open>
  With a zero timeout the loop over the fences returns in its first round, in both modes; without a
  fence it falls through to the loops above.
\<close>

definition vkWaitForFences ::
  "'k kernel \<Rightarrow> 'k \<times> fences \<Rightarrow> addr list \<Rightarrow> bool \<Rightarrow> u64 \<Rightarrow> (('k \<times> fences) \<times> VkResult) option" where
  "vkWaitForFences K s ps waitAll timeout =
     (if timeout = 0 \<and> ps \<noteq> [] then do {
        f \<leftarrow> snd s (hd ps);
        if waitAll
        then (if fn_signaled f = 0 then Some (s, VK_TIMEOUT) else Some (s, VK_SUCCESS))
        else (if fn_signaled f \<noteq> 0 then Some (s, VK_SUCCESS) else Some (s, VK_TIMEOUT)) }
      else if waitAll then wait_all_fences K s timeout ps
      else wait_any_fence K s timeout ps)"

subsection \<open>The contract of the kernel\<close>

text \<open>
  What the driver relies on: the number of the last finished job never falls, and a wait that
  reports success returns when the job it names has finished.
\<close>

definition kernel_waits :: "'k kernel \<Rightarrow> ('k \<Rightarrow> u64) \<Rightarrow> bool" where
  "kernel_waits K finished \<longleftrightarrow>
     (\<forall>k rq. finished k \<le> finished (fst (drmIoctl K k rq))) \<and>
     (\<forall>k seqno t. rp_ret (snd (drmIoctl K k (WAIT_SEQNO seqno t))) = 0 \<longrightarrow>
        seqno \<le> finished (fst (drmIoctl K k (WAIT_SEQNO seqno t))))"

text \<open>
  What a program can observe of waits that fail: \<open>failed\<close> collects the numbers of the jobs for which
  the kernel has answered a wait with another error than running out of time.  A wait without a limit
  does not run out of time.
\<close>

definition kernel_failures :: "'k kernel \<Rightarrow> ('k \<Rightarrow> u64 set) \<Rightarrow> bool" where
  "kernel_failures K failed \<longleftrightarrow>
     (\<forall>k rq. failed k \<subseteq> failed (fst (drmIoctl K k rq))) \<and>
     (\<forall>k seqno t. rp_ret (snd (drmIoctl K k (WAIT_SEQNO seqno t))) \<noteq> 0 \<and>
        rp_errno (snd (drmIoctl K k (WAIT_SEQNO seqno t))) \<noteq> ETIME \<longrightarrow>
        seqno \<in> failed (fst (drmIoctl K k (WAIT_SEQNO seqno t))))"

definition infinite_waits :: "'k kernel \<Rightarrow> bool" where
  "infinite_waits K \<longleftrightarrow> (\<forall>k seqno. rp_ret (snd (drmIoctl K k (WAIT_SEQNO seqno WAIT_TIMEOUT_INFINITE))) \<noteq> 0 \<longrightarrow>
     rp_errno (snd (drmIoctl K k (WAIT_SEQNO seqno WAIT_TIMEOUT_INFINITE))) \<noteq> ETIME)"

text \<open>Why a fence may be marked: no job was ever submitted with it, its job has finished, or the wait
  for its job has failed.\<close>

definition settled :: "u64 \<Rightarrow> u64 \<Rightarrow> u64 set \<Rightarrow> bool" where
  "settled seqno finished failed \<longleftrightarrow> seqno = 0 \<or> 0 < seqno \<and> seqno \<le> finished \<or> seqno \<in> failed"

lemma settled_mono: "settled n a A \<Longrightarrow> a \<le> b \<Longrightarrow> A \<subseteq> B \<Longrightarrow> settled n b B"
  by (auto simp: settled_def)

lemma minus_1_infinite: "(- 1 :: u64) = WAIT_TIMEOUT_INFINITE"
  by code_simp

lemma seqno_wait_settled:
  assumes "kernel_waits K finished" "kernel_failures K failed" "vc4_seqno_wait K k 0 seqno t = (k', ret, fin, t')"
  shows "finished k \<le> finished k'" "failed k \<subseteq> failed k'" "\<not> ret < 0 \<Longrightarrow> settled seqno (finished k') (failed k')"
    "ret < 0 \<Longrightarrow> seqno \<noteq> 0 \<and> t' = WAIT_TIMEOUT_INFINITE" "infinite_waits K \<Longrightarrow> t = WAIT_TIMEOUT_INFINITE \<Longrightarrow> \<not> ret < 0"
proof -
  have mono: "finished k \<le> finished (fst (drmIoctl K k rq))" "failed k \<subseteq> failed (fst (drmIoctl K k rq))" for k rq
    using assms(1,2) by (simp_all add: kernel_waits_def kernel_failures_def)
  have hang: "finished k \<le> finished (vc4_print_hang_state K k)" "failed k \<subseteq> failed (vc4_print_hang_state K k)" for k
    using mono by (simp_all add: vc4_print_hang_state_def)
  obtain k1 r where io: "drmIoctl K k (WAIT_SEQNO seqno t) = (k1, r)" by fastforce
  have 1: "finished k \<le> finished k1" "failed k \<subseteq> failed k1" using mono [where rq = "WAIT_SEQNO seqno t"] io by (metis fst_conv)+
  have 2: "rp_ret r = 0 \<Longrightarrow> seqno \<le> finished k1" "rp_ret r \<noteq> 0 \<Longrightarrow> rp_errno r \<noteq> ETIME \<Longrightarrow> seqno \<in> failed k1"
    using assms(1,2) io by (auto simp: kernel_waits_def kernel_failures_def) (metis fst_conv snd_conv)+
  show "finished k \<le> finished k'" "failed k \<subseteq> failed k'"
    using assms(3) 1 hang [of k1] io by (auto simp: vc4_seqno_wait_def split: if_splits)
  show "\<not> ret < 0 \<Longrightarrow> settled seqno (finished k') (failed k')"
    using assms(3) 2 hang [of k1] io by (auto simp: vc4_seqno_wait_def settled_def word_gt_0 split: if_splits)
  show "ret < 0 \<Longrightarrow> seqno \<noteq> 0 \<and> t' = WAIT_TIMEOUT_INFINITE"
    using assms(3) io minus_1_infinite by (auto simp: vc4_seqno_wait_def split: if_splits)
  show "infinite_waits K \<Longrightarrow> t = WAIT_TIMEOUT_INFINITE \<Longrightarrow> \<not> ret < 0"
    using assms(3) io by (auto simp: vc4_seqno_wait_def infinite_waits_def split: if_splits) (metis snd_conv)
qed

subsection \<open>What the waits guarantee\<close>

text \<open>What the loop over all fences has done with those it got past.\<close>

definition fences_passed :: "fences \<Rightarrow> fences \<Rightarrow> u64 \<Rightarrow> u64 set \<Rightarrow> addr list \<Rightarrow> bool" where
  "fences_passed F F' finished failed ps \<longleftrightarrow>
     (\<forall>p. p \<notin> set ps \<longrightarrow> F' p = F p) \<and>
     (\<forall>p\<in>set ps. \<exists>f. F p = Some f \<and>
        (if fn_signaled f \<noteq> 0 then F' p = Some f
         else F' p = Some (f\<lparr>fn_signaled := 1, fn_seqno := 0\<rparr>) \<and> settled (fn_seqno f) finished failed))"

lemma fences_passed_Nil: "fences_passed F F n A [] \<longleftrightarrow> True"
  by (simp add: fences_passed_def)

lemma fences_passed_signaled:
  assumes "F p = Some f" "fn_signaled f \<noteq> 0" "fences_passed F F' n A ps"
  shows "fences_passed F F' n A (p # ps)"
proof -
  have "F' p = Some f" using assms by (cases "p \<in> set ps") (auto simp: fences_passed_def split: if_splits)
  then show ?thesis using assms by (auto simp: fences_passed_def)
qed

lemma fences_passed_marked:
  assumes f: "F p = Some f" "fn_signaled f = 0" "settled (fn_seqno f) n A"
    and rest: "fences_passed (F(p \<mapsto> f\<lparr>fn_signaled := 1, fn_seqno := 0\<rparr>)) F' n A ps"
  shows "fences_passed F F' n A (p # ps)"
proof -
  have p: "F' p = Some (f\<lparr>fn_signaled := 1, fn_seqno := 0\<rparr>)"
    using rest by (cases "p \<in> set ps") (auto simp: fences_passed_def split: if_splits)
  have "\<exists>g. F q = Some g \<and> (if fn_signaled g \<noteq> 0 then F' q = Some g
      else F' q = Some (g\<lparr>fn_signaled := 1, fn_seqno := 0\<rparr>) \<and> settled (fn_seqno g) n A)" if q: "q \<in> set (p # ps)" for q
  proof (cases "q = p")
    case False
    then have "q \<in> set ps" using q by simp
    from bspec [OF conjunct2 [OF rest [unfolded fences_passed_def]] this] have "\<exists>g. (F(p \<mapsto> f\<lparr>fn_signaled := 1, fn_seqno := 0\<rparr>)) q = Some g \<and> (if fn_signaled g \<noteq> 0 then F' q = Some g
      else F' q = Some (g\<lparr>fn_signaled := 1, fn_seqno := 0\<rparr>) \<and> settled (fn_seqno g) n A)"
      .
    with False show ?thesis by simp
  qed (use f p in simp)
  moreover have "F' q = F q" if "q \<notin> set (p # ps)" for q using rest that by (simp add: fences_passed_def)
  ultimately show ?thesis by (simp add: fences_passed_def)
qed

text \<open>The loop that waits for all: it gets past some of the fences, and ends at the first one for which
  the wait runs out of time.\<close>

lemma wait_all_fences_spec:
  assumes K: "kernel_waits K finished" "kernel_failures K failed"
    and r: "wait_all_fences K (k, F) t ps = Some ((k', F'), r)"
  shows "finished k \<le> finished k' \<and> failed k \<subseteq> failed k' \<and>
    (if r = VK_SUCCESS then fences_passed F F' (finished k') (failed k') ps
     else r = VK_TIMEOUT \<and> (\<exists>ys p zs f. ps = ys @ p # zs \<and> fences_passed F F' (finished k') (failed k') ys \<and>
       F p = Some f \<and> p \<notin> set ys \<and> fn_signaled f = 0 \<and> fn_seqno f \<noteq> 0))"
  using r
proof (induction ps arbitrary: k F t)
  case Nil
  then show ?case by (simp add: fences_passed_Nil)
next
  case (Cons p ps)
  obtain f where f: "F p = Some f" using Cons.prems by (auto elim!: bind_SomeE)
  have later: "\<exists>ys q zs g. p # ps = ys @ q # zs \<and> fences_passed F F' (finished k') (failed k') ys \<and>
      F q = Some g \<and> q \<notin> set ys \<and> fn_signaled g = 0 \<and> fn_seqno g \<noteq> 0"
    if "ps = ys @ q # zs" "fences_passed F F' (finished k') (failed k') (p # ys)"
      "F q = Some g" "q \<notin> set (p # ys)" "fn_signaled g = 0" "fn_seqno g \<noteq> 0" for ys q zs g
    using that by (metis append_Cons)
  show ?case
  proof (cases "fn_signaled f = 0")
    case False
    then have "wait_all_fences K (k, F) t ps = Some ((k', F'), r)" using Cons.prems f by simp
    note IH = Cons.IH [OF this] and past = fences_passed_signaled [where F = F, OF f False]
    show ?thesis
    proof (cases "r = VK_SUCCESS")
      case True
      then show ?thesis using IH past by simp
    next
      case r: False
      then obtain ys q zs g where g: "ps = ys @ q # zs" "fences_passed F F' (finished k') (failed k') ys"
        "F q = Some g" "q \<notin> set ys" "fn_signaled g = 0" "fn_seqno g \<noteq> 0" using IH by auto
      have "q \<noteq> p" using g(3,5) f False by auto
      then have "\<exists>ys q zs g. p # ps = ys @ q # zs \<and> fences_passed F F' (finished k') (failed k') ys \<and>
          F q = Some g \<and> q \<notin> set ys \<and> fn_signaled g = 0 \<and> fn_seqno g \<noteq> 0"
        using later [OF g(1) past [OF g(2)] g(3) _ g(5,6)] g(4) by simp
      then show ?thesis using IH r by simp
    qed
  next
    case True
    obtain k1 ret fin t1 where w: "vc4_seqno_wait K k 0 (fn_seqno f) t = (k1, ret, fin, t1)" by (metis prod_cases4)
    note d = seqno_wait_settled [OF K w]
    let ?F = "F(p \<mapsto> f\<lparr>fn_signaled := 1, fn_seqno := 0\<rparr>)"
    show ?thesis
    proof (cases "ret < 0")
      case timeout: True
      then have "k' = k1" "F' = F" "r = VK_TIMEOUT" using Cons.prems f True w by simp_all
      moreover have "\<exists>ys q zs g. p # ps = ys @ q # zs \<and> fences_passed F F (finished k1) (failed k1) ys \<and>
          F q = Some g \<and> q \<notin> set ys \<and> fn_signaled g = 0 \<and> fn_seqno g \<noteq> 0"
        by (rule exI [of _ "[]"], rule exI [of _ p], rule exI [of _ ps], rule exI [of _ f])
          (use d(4) [OF timeout] f True in \<open>simp add: fences_passed_Nil\<close>)
      ultimately show ?thesis using d(1,2) by simp
    next
      case False
      then have rest: "wait_all_fences K (k1, ?F) t1 ps = Some ((k', F'), r)" using Cons.prems f True w by simp
      note IH = Cons.IH [OF rest]
      have mono: "finished k \<le> finished k'" "failed k \<subseteq> failed k'" using IH d(1,2) by (meson order_trans)+
      have st: "settled (fn_seqno f) (finished k') (failed k')" using d(3) [OF False] IH settled_mono by blast
      note past = fences_passed_marked [where F = F, OF f True st]
      show ?thesis
      proof (cases "r = VK_SUCCESS")
        case r: True
        then show ?thesis using IH past mono by simp
      next
        case r: False
        then obtain ys q zs g where g: "ps = ys @ q # zs" "fences_passed ?F F' (finished k') (failed k') ys"
          "?F q = Some g" "q \<notin> set ys" "fn_signaled g = 0" "fn_seqno g \<noteq> 0" using IH by auto
        have q: "q \<noteq> p" "F q = Some g" using g(3,5) by (auto split: if_splits)
        then have "\<exists>ys q zs g. p # ps = ys @ q # zs \<and> fences_passed F F' (finished k') (failed k') ys \<and>
            F q = Some g \<and> q \<notin> set ys \<and> fn_signaled g = 0 \<and> fn_seqno g \<noteq> 0"
          using later [OF g(1) past [OF g(2)] q(2) _ g(5,6)] g(4) by simp
        then show ?thesis using IH r mono by simp
      qed
    qed
  qed
qed

text \<open>C21: vkWaitForFences for all fences with a time above zero, for every kernel and every way in which
  its waits fail.  If it reports success, every fence is marked, and one that was not marked before was
  never submitted (its number is 0), or its job has finished, or the wait for its job has failed with
  another error than a timeout, which the code takes for success.  If it reports a timeout, it has done
  so with the fences in front of one that is still not marked and whose job was submitted.  No other
  fence changes.\<close>

theorem vkWaitForFences_all_done:
  assumes "kernel_waits K finished" "kernel_failures K failed" "timeout \<noteq> 0"
    and "vkWaitForFences K (k, F) ps True timeout = Some ((k', F'), r)"
  shows "if r = VK_SUCCESS then fences_passed F F' (finished k') (failed k') ps
    else r = VK_TIMEOUT \<and> (\<exists>ys p zs f. ps = ys @ p # zs \<and> fences_passed F F' (finished k') (failed k') ys \<and>
      F' p = Some f \<and> fn_signaled f = 0 \<and> fn_seqno f \<noteq> 0)"
proof -
  have w: "wait_all_fences K (k, F) timeout ps = Some ((k', F'), r)" using assms(3,4) by (simp add: vkWaitForFences_def)
  note spec = wait_all_fences_spec [OF assms(1,2) w]
  show ?thesis
  proof (cases "r = VK_SUCCESS")
    case False
    then obtain ys p zs f where p: "ps = ys @ p # zs" "fences_passed F F' (finished k') (failed k') ys"
      "F p = Some f" "p \<notin> set ys" "fn_signaled f = 0" "fn_seqno f \<noteq> 0" using spec by auto
    then have "F' p = Some f" by (simp add: fences_passed_def)
    then show ?thesis using False spec p by auto
  qed (use spec in simp)
qed

text \<open>With a zero timeout vkWaitForFences looks at the first fence only, whether all of the fences
  or any of them are asked for: it reports success for all when the first one is signaled, and a
  timeout for any when the first one is not.\<close>

theorem vkWaitForFences_poll:
  assumes "F p = Some f"
  shows "vkWaitForFences K (k, F) (p # ps) waitAll 0 =
    Some ((k, F), if fn_signaled f \<noteq> 0 then VK_SUCCESS else VK_TIMEOUT)"
  using assms by (simp add: vkWaitForFences_def)

text \<open>C23: vkWaitForFences for any of the fences with a time above zero: since the time that is left after a
  timeout is stored as -1, the wait for the second fence has no limit, whatever time the caller gave,
  so a timeout is reported for at most one fence, and no fence behind the second one is ever looked at:
  a success is that of the first or the second fence, which was marked before, or was never submitted,
  or its job has finished, or the wait for it has failed with another error.\<close>

theorem vkWaitForFences_any:
  assumes K: "kernel_waits K finished" "kernel_failures K failed" "infinite_waits K" and t: "timeout \<noteq> 0"
    and r: "vkWaitForFences K (k, F) ps False timeout = Some ((k', F'), r)"
  shows "if r = VK_SUCCESS
    then \<exists>ys p zs f. ps = ys @ p # zs \<and> length ys \<le> 1 \<and> F p = Some f \<and>
      (\<forall>q\<in>set ys. \<exists>g. F q = Some g \<and> fn_signaled g = 0 \<and> fn_seqno g \<noteq> 0) \<and>
      (if fn_signaled f \<noteq> 0 then F' = F
       else F' = F(p \<mapsto> f\<lparr>fn_signaled := 1, fn_seqno := 0\<rparr>) \<and> settled (fn_seqno f) (finished k') (failed k'))
    else r = VK_TIMEOUT \<and> F' = F \<and> length ps \<le> 1"
proof -
  have w: "wait_any_fence K (k, F) timeout ps = Some ((k', F'), r)" using r t by (simp add: vkWaitForFences_def)
  have first: "(if fn_signaled f \<noteq> 0 then k' = k \<and> F' = F \<and> r = VK_SUCCESS
       else \<exists>k1 t1. F' = F(p \<mapsto> f\<lparr>fn_signaled := 1, fn_seqno := 0\<rparr>) \<and> r = VK_SUCCESS \<and> settled (fn_seqno f) (finished k') (failed k') \<or>
         t \<noteq> WAIT_TIMEOUT_INFINITE \<and> fn_seqno f \<noteq> 0 \<and> wait_any_fence K (k1, F) WAIT_TIMEOUT_INFINITE qs = Some ((k', F'), r))"
    if "wait_any_fence K (k, F) t (p # qs) = Some ((k', F'), r)" "F p = Some f" for k p qs f t
  proof (cases "fn_signaled f = 0")
    case True
    obtain k1 ret fin t1 where w: "vc4_seqno_wait K k 0 (fn_seqno f) t = (k1, ret, fin, t1)" by (metis prod_cases4)
    show ?thesis using that True w seqno_wait_settled [OF K(1,2) w] K(3) by (cases "ret < 0") auto
  qed (use that in simp)
  have ex: "\<exists>f. F p = Some f" if "wait_any_fence K (k, F) t (p # qs) = Some ((k', F'), r)" for k t p qs
    using that by (auto elim!: bind_SomeE)
  show ?thesis
  proof (cases ps)
    case Nil
    then show ?thesis using w by simp
  next
    case (Cons p qs)
    obtain f where f: "F p = Some f" using ex w Cons by blast
    consider (here) "r = VK_SUCCESS" "if fn_signaled f \<noteq> 0 then F' = F
        else F' = F(p \<mapsto> f\<lparr>fn_signaled := 1, fn_seqno := 0\<rparr>) \<and> settled (fn_seqno f) (finished k') (failed k')"
      | (later) k1 where "fn_signaled f = 0" "fn_seqno f \<noteq> 0"
        "wait_any_fence K (k1, F) WAIT_TIMEOUT_INFINITE qs = Some ((k', F'), r)"
      using first [OF w [unfolded Cons] f] by (auto split: if_splits)
    then show ?thesis
    proof cases
      case here
      have "\<exists>ys p zs f. ps = ys @ p # zs \<and> length ys \<le> 1 \<and> F p = Some f \<and>
          (\<forall>q\<in>set ys. \<exists>g. F q = Some g \<and> fn_signaled g = 0 \<and> fn_seqno g \<noteq> 0) \<and>
          (if fn_signaled f \<noteq> 0 then F' = F
           else F' = F(p \<mapsto> f\<lparr>fn_signaled := 1, fn_seqno := 0\<rparr>) \<and> settled (fn_seqno f) (finished k') (failed k'))"
        by (rule exI [of _ "[]"], rule exI [of _ p], rule exI [of _ qs], rule exI [of _ f]) (use here f Cons in simp)
      then show ?thesis by (subst if_P [OF here(1)])
    next
      case later
      show ?thesis
      proof (cases qs)
        case Nil
        then show ?thesis using later(3) Cons by simp
      next
        case q: (Cons q zs)
        obtain g where g: "F q = Some g" using ex later(3) q by blast
        have g2: "r = VK_SUCCESS \<and> (if fn_signaled g \<noteq> 0 then F' = F
            else F' = F(q \<mapsto> g\<lparr>fn_signaled := 1, fn_seqno := 0\<rparr>) \<and> settled (fn_seqno g) (finished k') (failed k'))"
          using first [OF later(3) [unfolded q] g] by (auto split: if_splits)
        have "\<exists>ys p zs f. ps = ys @ p # zs \<and> length ys \<le> 1 \<and> F p = Some f \<and>
            (\<forall>q\<in>set ys. \<exists>g. F q = Some g \<and> fn_signaled g = 0 \<and> fn_seqno g \<noteq> 0) \<and>
            (if fn_signaled f \<noteq> 0 then F' = F
             else F' = F(p \<mapsto> f\<lparr>fn_signaled := 1, fn_seqno := 0\<rparr>) \<and> settled (fn_seqno f) (finished k') (failed k'))"
          by (rule exI [of _ "[p]"], rule exI [of _ q], rule exI [of _ zs], rule exI [of _ g]) (use g2 f g later(1,2) Cons q in simp)
        then show ?thesis by (subst if_P [OF conjunct1 [OF g2]])
      qed
    qed
  qed
qed

text \<open>Waiting for a queue to become idle depends on an uninitialised variable: if the memory it
  gets holds a number at or above that of the last job, the call reports success without asking the
  kernel anything; if it holds a smaller one, the call waits for the last job.\<close>

theorem vkQueueWaitIdle_uninitialised:
  "vkQueueWaitIdle K u k q =
    (if q_lastEmitSeqno q \<le> u then (k, VK_SUCCESS)
     else let (k1, r) = drmIoctl K k (WAIT_SEQNO (q_lastEmitSeqno q) WAIT_TIMEOUT_INFINITE) in
       (if rp_ret r \<noteq> 0 \<and> rp_errno r \<noteq> ETIME then vc4_print_hang_state K k1 else k1, VK_SUCCESS))"
  by (auto simp: vkQueueWaitIdle_def vc4_seqno_wait_def Let_def split: prod.splits)


subsection \<open>Examples\<close>

text \<open>
  A kernel that counts the jobs it accepts and finishes those it is asked to wait for, or, with
  \<open>fail\<close>, answers every wait with the error given.
\<close>

definition ex_kernel :: "errno option \<Rightarrow> (u64 \<times> u64) kernel" where
  "ex_kernel fail = \<lparr>drmIoctl = (\<lambda>(n, d) rq. case rq of
       SUBMIT_CL cl \<Rightarrow> ((n + 1, d), \<lparr>rp_ret = 0, rp_errno = errno_other 0, rp_value = n + 1, rp_values = []\<rparr>)
     | WAIT_SEQNO s t \<Rightarrow> (case fail of
         None \<Rightarrow> ((n, max d s), \<lparr>rp_ret = 0, rp_errno = errno_other 0, rp_value = t, rp_values = []\<rparr>)
       | Some e \<Rightarrow> ((n, d), \<lparr>rp_ret = - 1, rp_errno = e, rp_value = 0, rp_values = []\<rparr>))
     | _ \<Rightarrow> ((n, d), \<lparr>rp_ret = 0, rp_errno = errno_other 0, rp_value = 0, rp_values = []\<rparr>)),
     open_card = (\<lambda>k. (k, 3)), close_fd = (\<lambda>k fd. k), mmap = (\<lambda>k sz off. (k, None)), munmap = (\<lambda>k p sz. k)\<rparr>"

lemma ex_kernel_simps:
  "drmIoctl (ex_kernel None) (n, d) (WAIT_SEQNO s t) =
    ((n, max d s), \<lparr>rp_ret = 0, rp_errno = errno_other 0, rp_value = t, rp_values = []\<rparr>)"
  "drmIoctl (ex_kernel (Some e)) (n, d) (WAIT_SEQNO s t) =
    ((n, d), \<lparr>rp_ret = - 1, rp_errno = e, rp_value = 0, rp_values = []\<rparr>)"
  "drmIoctl (ex_kernel fail) (n, d) (SUBMIT_CL cl) =
    ((n + 1, d), \<lparr>rp_ret = 0, rp_errno = errno_other 0, rp_value = n + 1, rp_values = []\<rparr>)"
  "vc4_print_hang_state (ex_kernel fail) (n, d) = (n, d)"
  by (simp_all add: ex_kernel_def vc4_print_hang_state_def)

lemma ex_kernel_waits: "kernel_waits (ex_kernel fail) snd"
  by (auto simp: kernel_waits_def ex_kernel_def split: drm_request.splits option.splits)

lemma ex_kernel_failures: "kernel_failures (ex_kernel None) (\<lambda>_. {})" "kernel_failures (ex_kernel (Some ETIME)) (\<lambda>_. {})"
  "kernel_failures (ex_kernel (Some EINVAL)) (\<lambda>_. UNIV)" "infinite_waits (ex_kernel (Some EINVAL))"
  by (auto simp: kernel_failures_def infinite_waits_def ex_kernel_def split: drm_request.splits)

definition ex_fences :: fences where
  "ex_fences = [100 \<mapsto> \<lparr>fn_seqno = 3, fn_signaled = 0\<rparr>, 200 \<mapsto> \<lparr>fn_seqno = 5, fn_signaled = 0\<rparr>]"

lemma vkWaitForFences_all_done_witness:
  "\<exists>k' F'. vkWaitForFences (ex_kernel None) ((5, 0), ex_fences) [100, 200] True 1000 = Some ((k', F'), VK_SUCCESS) \<and>
    fences_passed ex_fences F' (snd k') {} [100, 200] \<and> 5 \<le> snd k'"
proof -
  have t: "(1000 :: u64) \<noteq> 0" by simp
  obtain k' F' where r: "vkWaitForFences (ex_kernel None) ((5, 0), ex_fences) [100, 200] True 1000 =
      Some ((k', F'), VK_SUCCESS)"
    by (simp add: vkWaitForFences_def vc4_seqno_wait_def ex_fences_def ex_kernel_simps)
  from vkWaitForFences_all_done [OF ex_kernel_waits ex_kernel_failures(1) t this]
  have p: "fences_passed ex_fences F' (snd k') {} [100, 200]" by simp
  then have "5 \<le> snd k'" by (auto simp: ex_fences_def fences_passed_def settled_def)
  then show ?thesis using r p by blast
qed

lemma vkWaitForFences_poll_witness:
  "vkWaitForFences (ex_kernel None) ((5, 0), ex_fences(100 \<mapsto> \<lparr>fn_seqno = 0, fn_signaled = 1\<rparr>)) [100, 200] True 0 =
    Some (((5, 0), ex_fences(100 \<mapsto> \<lparr>fn_seqno = 0, fn_signaled = 1\<rparr>)), VK_SUCCESS)"
  by (subst vkWaitForFences_poll [where f = "\<lparr>fn_seqno = 0, fn_signaled = 1\<rparr>"]) simp_all

lemma vkWaitForFences_any_witness:
  "\<exists>ys p zs f. [100, 200] = ys @ p # zs \<and> ex_fences p = Some f \<and>
    ex_fences(100 \<mapsto> \<lparr>fn_seqno = 0, fn_signaled = 1\<rparr>) = ex_fences(p \<mapsto> f\<lparr>fn_signaled := 1, fn_seqno := 0\<rparr>)"
proof -
  have t: "(1000 :: u64) \<noteq> 0" by simp
  have r: "vkWaitForFences (ex_kernel (Some EINVAL)) ((5, 0), ex_fences) [100, 200] False 1000 =
      Some (((5, 0), ex_fences(100 \<mapsto> \<lparr>fn_seqno = 0, fn_signaled = 1\<rparr>)), VK_SUCCESS)"
    by (simp add: vkWaitForFences_def vc4_seqno_wait_def ex_fences_def ex_kernel_simps)
  from vkWaitForFences_any [OF ex_kernel_waits ex_kernel_failures(3,4) t r] obtain ys p zs f where
    a: "[100, 200] = ys @ p # zs" "ex_fences p = Some f" "fn_signaled f = 0 \<longrightarrow>
      ex_fences(100 \<mapsto> \<lparr>fn_seqno = 0, fn_signaled = 1\<rparr>) = ex_fences(p \<mapsto> f\<lparr>fn_signaled := 1, fn_seqno := 0\<rparr>)"
    by (auto simp only: if_True if_False refl split: if_splits)
  have "fn_signaled f = 0" using a(2) by (auto simp: ex_fences_def split: if_splits)
  with a show ?thesis by blast
qed


end
