(* ===== verification/Queue_Submit.thy ===== *)
theory Queue_Submit
  imports Render_Pass Sync
begin

text \<open>
  \<open>vkQueueSubmit\<close> of driver/command.c: the markers of the command buffers become jobs of the kernel.
  Also \<open>vkCmdExecuteCommands\<close>, which copies the contents of secondary command buffers.  The code that
  prints the lists is not compiled by default and left out.
\<close>

unbundle bit_operations_syntax

subsection \<open>The surfaces of a job\<close>

text \<open>\<open>VC4_SET_FIELD\<close> of kernel/vc4_packet.h.\<close>

definition VC4_SET_FIELD :: "u32 \<Rightarrow> nat \<Rightarrow> u32 \<Rightarrow> u32" where
  "VC4_SET_FIELD v shift msk = push_bit shift v AND msk"

definition render_config_bits :: "VkFormat \<Rightarrow> u32 \<Rightarrow> u32" where
  "render_config_bits format tiling =
     VC4_SET_FIELD (getRenderTargetFormatVC4 format) 2 0xc OR VC4_SET_FIELD tiling 6 0xc0"

text \<open>\<open>VC4_LOADSTORE_TILE_BUFFER_COLOR\<close> is 1 and \<open>VC4_LOADSTORE_TILE_BUFFER_ZS\<close> is 2.\<close>

definition loadstore_bits :: "u32 \<Rightarrow> u32 \<Rightarrow> u32" where
  "loadstore_bits buf tiling = VC4_SET_FIELD buf 0 7 OR VC4_SET_FIELD tiling 4 0x30"

definition loadstore_format :: "VkFormat \<Rightarrow> u32" where
  "loadstore_format format = VC4_SET_FIELD (getRenderTargetFormatVC4 format) 8 0x300"

definition VC4_RENDER_CONFIG_MS_MODE_4X :: u32 where "VC4_RENDER_CONFIG_MS_MODE_4X = 1"
definition VC4_RENDER_CONFIG_DECIMATE_MODE_4X :: u32 where "VC4_RENDER_CONFIG_DECIMATE_MODE_4X = 16"
definition VC4_SUBMIT_RCL_SURFACE_READ_IS_FULL_RES :: u16 where "VC4_SUBMIT_RCL_SURFACE_READ_IS_FULL_RES = 1"

definition no_surface :: drm_vc4_submit_rcl_surface where
  "no_surface = \<lparr>rs_hindex = U32_MAX, rs_offset = 0, rs_bits = 0, rs_flags = 0\<rparr>"

definition image_tiling :: "image \<Rightarrow> u32 \<Rightarrow> u32 option" where
  "image_tiling i mipLevel = (if mipLevel > 0 then elem_at (im_levelTiling i) mipLevel else Some (im_tiling i))"

text \<open>A surface of a job; a null image gives none.\<close>

definition job_surface ::
  "objects \<Rightarrow> addr \<Rightarrow> u32 \<Rightarrow> u32 \<Rightarrow> u32 \<Rightarrow> (image \<Rightarrow> u32 \<Rightarrow> u32) \<Rightarrow> u16 \<Rightarrow> drm_vc4_submit_rcl_surface option" where
  "job_surface ob img hindex offset mipLevel bits flags =
     (if img = NULL then Some no_surface
      else do {
        i \<leftarrow> ob_images ob img;
        tiling \<leftarrow> image_tiling i mipLevel;
        Some \<lparr>rs_hindex = hindex, rs_offset = offset + im_boundOffset i, rs_bits = ucast (bits i tiling), rs_flags = flags\<rparr> })"

subsection \<open>One marker\<close>

text \<open>A marker is read member by member at its address \<open>a\<close>.\<close>

definition member :: "cmd_world \<Rightarrow> addr \<Rightarrow> u32 \<Rightarrow> u32 option" where
  "member w a m = load32 (cw_mem w) (a + m)"

text \<open>
  The index of the buffer object of an image among the handles of the marker, 0 for a null image.
  For the multisampled color image the code swaps the two arguments that give the offset and the size
  of these handles.
\<close>

definition surface_index :: "objects \<Rightarrow> addr \<Rightarrow> addr \<Rightarrow> bool \<Rightarrow> addr \<Rightarrow> cmd_world \<Rightarrow> (cmd_world \<times> u32) option" where
  "surface_index ob p a swapped img w =
     (if img = NULL then Some (w, 0)
      else do {
        b \<leftarrow> cw_cbs w p;
        P \<leftarrow> cw_cps w (cb_cp b);
        hb \<leftarrow> member w a CLMarker_handlesBufOffset;
        hs \<leftarrow> member w a CLMarker_handlesSize;
        bo \<leftarrow> image_bo ob img;
        let off = hb + cl_offset (cb_handlesCl b);
        (((m', pa'), cl'), idx) \<leftarrow> clGetHandleIndex (if swapped then hs else off) (if swapped then off else hs) bo
          ((cw_mem w, cp_cpa P), cb_handlesCl b);
        Some (w\<lparr>cw_mem := m', cw_cps := (cw_cps w)(cb_cp b \<mapsto> P\<lparr>cp_cpa := pa'\<rparr>),
          cw_cbs := (cw_cbs w)(p \<mapsto> b\<lparr>cb_handlesCl := cl'\<rparr>)\<rparr>, idx) })"

text \<open>The monitor that the counter pass of the submission selects; none without a query.\<close>

definition job_perfmon :: "(addr \<rightharpoonup> u32 list) \<Rightarrow> addr \<Rightarrow> u32 option \<Rightarrow> u32 option" where
  "job_perfmon perfmons ids counterPassIndex =
     (if ids = NULL then Some 0
      else do { xs \<leftarrow> perfmons ids; elem_at xs (case counterPassIndex of None \<Rightarrow> 0 | Some i \<Rightarrow> i) })"

text \<open>The size of a tile in pixels, with the bits per pixel of the image written.\<close>

definition tile_size :: "u32 \<Rightarrow> bool \<Rightarrow> u32 \<times> u32" where
  "tile_size bpp multisample = (let h = (if bpp = 64 then drop_bit 1 64 else 64) in
     if multisample then (drop_bit 1 64, drop_bit 1 h) else (64, h))"

text \<open>A pointer that becomes a 64-bit integer is sign-extended by the compiler.\<close>

definition user_ptr :: "addr \<Rightarrow> u64" where
  "user_ptr a = scast a"

text \<open>The marker that is still open is closed; its sizes are read afterwards.\<close>

definition close_marker :: "addr \<Rightarrow> addr \<Rightarrow> cmd_world \<Rightarrow> cmd_world option" where
  "close_marker p a w = do {
     sz \<leftarrow> member w a CLMarker_size;
     if sz = 0
     then do {
       b \<leftarrow> cw_cbs w p;
       on_binCl p (clCloseCurrentMarker (cb_handlesCl b) (cb_shaderRecCl b) (cb_shaderRecCount b) (cb_uniformsCl b)) w }
     else Some w }"

text \<open>The surfaces of the job, with the handle indices in the order the code takes them.\<close>

definition job_surfaces :: "objects \<Rightarrow> addr \<Rightarrow> addr \<Rightarrow> cmd_world \<Rightarrow> (cmd_world \<times> drm_vc4_submit_rcl_surface list) option" where
  "job_surfaces ob p a w = do {
     writeImage \<leftarrow> member w a CLMarker_writeImage;
     readImage \<leftarrow> member w a CLMarker_readImage;
     writeZS \<leftarrow> member w a CLMarker_writeDepthStencilImage;
     readZS \<leftarrow> member w a CLMarker_readDepthStencilImage;
     writeMSAA \<leftarrow> member w a CLMarker_writeMSAAimage;
     writeMSAAZS \<leftarrow> member w a CLMarker_writeMSAAdepthStencilImage;
     w \<leftarrow> on_handlesCl p (\<lambda>\<sigma>. clFit \<sigma> 24) w;
     (w, writeIdx) \<leftarrow> surface_index ob p a False writeImage w;
     (w, readIdx) \<leftarrow> surface_index ob p a False readImage w;
     (w, writeZSIdx) \<leftarrow> surface_index ob p a False writeZS w;
     (w, readZSIdx) \<leftarrow> surface_index ob p a False readZS w;
     (w, writeMSAAIdx) \<leftarrow> surface_index ob p a True writeMSAA w;
     (w, writeMSAAZSIdx) \<leftarrow> surface_index ob p a False writeMSAAZS w;
     mip \<leftarrow> member w a CLMarker_mipLevel;
     resolve \<leftarrow> member w a CLMarker_performResolve;
     readMSAA \<leftarrow> member w a CLMarker_readMSAAimage;
     readMSAAZS \<leftarrow> member w a CLMarker_readMSAAdepthStencilImage;
     writeOffset \<leftarrow> member w a CLMarker_writeImageOffset;
     readOffset \<leftarrow> member w a CLMarker_readImageOffset;
     writeZSOffset \<leftarrow> member w a CLMarker_writeDepthStencilImageOffset;
     readZSOffset \<leftarrow> member w a CLMarker_readDepthStencilImageOffset;
     writeMSAAOffset \<leftarrow> member w a CLMarker_writeMSAAimageOffset;
     writeMSAAZSOffset \<leftarrow> member w a CLMarker_writeMSAAdepthStencilImageOffset;
     color_write \<leftarrow> job_surface ob writeImage writeIdx writeOffset mip
       (\<lambda>i tiling. render_config_bits (im_format i) tiling OR
          (if resolve \<noteq> 0 then VC4_RENDER_CONFIG_MS_MODE_4X OR VC4_RENDER_CONFIG_DECIMATE_MODE_4X else 0)) 0;
     msaa_color_write \<leftarrow> job_surface ob writeMSAA writeMSAAIdx writeMSAAOffset mip
       (\<lambda>i tiling. VC4_RENDER_CONFIG_MS_MODE_4X OR loadstore_bits 1 tiling OR loadstore_format (im_format i)) 0;
     color_read \<leftarrow> job_surface ob readImage readIdx readOffset mip
       (\<lambda>i tiling. loadstore_bits 1 tiling OR loadstore_format (im_format i))
       (if readMSAA \<noteq> 0 then VC4_SUBMIT_RCL_SURFACE_READ_IS_FULL_RES else 0);
     zs_write \<leftarrow> job_surface ob writeZS writeZSIdx writeZSOffset mip (\<lambda>i tiling. loadstore_bits 2 tiling) 0;
     msaa_zs_write \<leftarrow> job_surface ob writeMSAAZS writeMSAAZSIdx writeMSAAZSOffset mip
       (\<lambda>i tiling. VC4_RENDER_CONFIG_MS_MODE_4X OR loadstore_bits 2 tiling) 0;
     zs_read \<leftarrow> job_surface ob readZS readZSIdx readZSOffset mip (\<lambda>i tiling. loadstore_bits 2 tiling)
       (if readMSAAZS \<noteq> 0 then VC4_SUBMIT_RCL_SURFACE_READ_IS_FULL_RES else 0);
     Some (w, [color_read, color_write, zs_read, zs_write, msaa_color_write, msaa_zs_write]) }"

text \<open>The width, the height and the last tiles; the width is padded when a mip level is rendered.\<close>

definition job_size :: "objects \<Rightarrow> addr \<Rightarrow> cmd_world \<Rightarrow> (u16 \<times> u16 \<times> u8 \<times> u8) option" where
  "job_size ob a w = do {
     writeImage \<leftarrow> member w a CLMarker_writeImage;
     writeMSAA \<leftarrow> member w a CLMarker_writeMSAAimage;
     writeMSAAZS \<leftarrow> member w a CLMarker_writeMSAAdepthStencilImage;
     resolve \<leftarrow> member w a CLMarker_performResolve;
     width \<leftarrow> member w a CLMarker_width;
     height \<leftarrow> member w a CLMarker_height;
     mip \<leftarrow> member w a CLMarker_mipLevel;
     bpp \<leftarrow> target_bpp ob writeImage writeMSAA;
     let (tw, th) = tile_size bpp (resolve \<noteq> 0 \<or> writeMSAA \<noteq> NULL \<or> writeMSAAZS \<noteq> NULL);
     widthInTiles \<leftarrow> divRoundUp width tw;
     heightInTiles \<leftarrow> divRoundUp height th;
     Some (ucast (pad_width mip width), ucast height, ucast (widthInTiles - 1), ucast (heightInTiles - 1)) }"

definition marker_job ::
  "objects \<Rightarrow> (addr \<rightharpoonup> u32 list) \<Rightarrow> u32 option \<Rightarrow> addr \<Rightarrow> addr \<Rightarrow> cmd_world \<Rightarrow> (cmd_world \<times> drm_vc4_submit_cl) option" where
  "marker_job ob perfmons counterPassIndex p a w = do {
     (w, surfaces) \<leftarrow> job_surfaces ob p a w;
     (width, height, maxx, maxy) \<leftarrow> job_size ob a w;
     c0 \<leftarrow> member w a CLMarker_clearColor;
     c1 \<leftarrow> member w a (CLMarker_clearColor + 4);
     z \<leftarrow> member w a CLMarker_clearDepth;
     st \<leftarrow> member w a CLMarker_clearStencil;
     flags \<leftarrow> member w a CLMarker_flags;
     b \<leftarrow> cw_cbs w p;
     P \<leftarrow> cw_cps w (cb_cp b);
     hb \<leftarrow> member w a CLMarker_handlesBufOffset;
     sb \<leftarrow> member w a CLMarker_shaderRecBufOffset;
     ub \<leftarrow> member w a CLMarker_uniformsBufOffset;
     ids \<leftarrow> member w a CLMarker_perfmonID;
     perfmon \<leftarrow> job_perfmon perfmons ids counterPassIndex;
     w \<leftarrow> close_marker p a w;
     hs \<leftarrow> member w a CLMarker_handlesSize;
     size \<leftarrow> member w a CLMarker_size;
     ss \<leftarrow> member w a CLMarker_shaderRecSize;
     sc \<leftarrow> member w a CLMarker_shaderRecCount;
     us \<leftarrow> member w a CLMarker_uniformsSize;
     Some (w, \<lparr>sc_bin_cl = user_ptr (a + sizeof_CLMarker),
       sc_shader_rec = user_ptr (getCPAptrFromOffset (cp_cpa P) (sb + cl_offset (cb_shaderRecCl b))),
       sc_uniforms = user_ptr (getCPAptrFromOffset (cp_cpa P) (ub + cl_offset (cb_uniformsCl b))),
       sc_bo_handles = user_ptr (getCPAptrFromOffset (cp_cpa P) (hb + cl_offset (cb_handlesCl b))),
       sc_bin_cl_size = size, sc_shader_rec_size = ss, sc_shader_rec_count = sc, sc_uniforms_size = us,
       sc_bo_handle_count = hs div 4, sc_width = width, sc_height = height, sc_min_x_tile = 0, sc_min_y_tile = 0,
       sc_max_x_tile = maxx, sc_max_y_tile = maxy, sc_color_read = surfaces ! 0, sc_color_write = surfaces ! 1,
       sc_zs_read = surfaces ! 2, sc_zs_write = surfaces ! 3, sc_msaa_color_write = surfaces ! 4,
       sc_msaa_zs_write = surfaces ! 5, sc_clear_color = (c0, c1), sc_clear_z = z, sc_clear_s = ucast st,
       sc_flags = flags, sc_perfmonid = perfmon\<rparr>) }"

subsection \<open>Submitting\<close>

record 'k submit_state =
  ss_world :: cmd_world
  ss_kernel :: 'k
  ss_queue :: queue

definition submit_job :: "'k kernel \<Rightarrow> drm_vc4_submit_cl \<Rightarrow> 'k submit_state \<Rightarrow> 'k submit_state" where
  "submit_job K cl s = (let (k', e, f) = vc4_cl_submit K (ss_kernel s) cl (q_lastEmitSeqno (ss_queue s)) (q_lastFinishedSeqno (ss_queue s)) in
     s\<lparr>ss_kernel := k', ss_queue := (ss_queue s)\<lparr>q_lastEmitSeqno := e, q_lastFinishedSeqno := f\<rparr>\<rparr>)"

text \<open>The loop over the markers from \<open>a\<close> on; a list of markers that runs into itself never ends.\<close>

partial_function (option) submit_markers ::
  "'k kernel \<Rightarrow> objects \<Rightarrow> (addr \<rightharpoonup> u32 list) \<Rightarrow> u32 option \<Rightarrow> addr \<Rightarrow> addr \<Rightarrow> 'k submit_state \<Rightarrow> 'k submit_state option" where
  "submit_markers K ob perfmons pass p a s =
     (if a = NULL then Some s
      else do {
        (w, cl) \<leftarrow> marker_job ob perfmons pass p a (ss_world s);
        let s1 = submit_job K cl (s\<lparr>ss_world := w\<rparr>);
        nextOffset \<leftarrow> member w a CLMarker_nextMarkerOffset;
        if nextOffset = U32_MAX then Some s1
        else do {
          b \<leftarrow> cw_cbs w p;
          P \<leftarrow> cw_cps w (cb_cp b);
          submit_markers K ob perfmons pass p (getCPAptrFromOffset (cp_cpa P) (nextOffset + cl_offset (cb_binCl b))) s1 } })"

declare submit_markers.simps [code]

text \<open>A command buffer without a marker is passed over.\<close>

definition submit_cmdbuf ::
  "'k kernel \<Rightarrow> objects \<Rightarrow> (addr \<rightharpoonup> u32 list) \<Rightarrow> u32 option \<Rightarrow> addr \<Rightarrow> 'k submit_state \<Rightarrow> 'k submit_state option" where
  "submit_cmdbuf K ob perfmons pass p s = do {
     b \<leftarrow> cw_cbs (ss_world s) p;
     if cl_currMarkerOffset (cb_binCl b) = U32_MAX then Some s
     else do {
       P \<leftarrow> cw_cps (ss_world s) (cb_cp b);
       submit_markers K ob perfmons pass p (getCPAptrFromOffset (cp_cpa P) (cl_offset (cb_binCl b))) s } }"

fun submit_cmdbufs ::
  "'k kernel \<Rightarrow> objects \<Rightarrow> (addr \<rightharpoonup> u32 list) \<Rightarrow> u32 option \<Rightarrow> addr list \<Rightarrow> 'k submit_state \<Rightarrow> 'k submit_state option" where
  "submit_cmdbufs K ob perfmons pass [] s = Some s"
| "submit_cmdbufs K ob perfmons pass (p # ps) s = do {
     s' \<leftarrow> submit_cmdbuf K ob perfmons pass p s;
     submit_cmdbufs K ob perfmons pass ps s' }"

definition VK_COMMAND_BUFFER_USAGE_ONE_TIME_SUBMIT_BIT :: u32 where
  "VK_COMMAND_BUFFER_USAGE_ONE_TIME_SUBMIT_BIT = 1"

definition to_pending :: "commandBuffer \<Rightarrow> commandBuffer" where
  "to_pending b = (if cb_state b = CMDBUF_STATE_EXECUTABLE then b\<lparr>cb_state := CMDBUF_STATE_PENDING\<rparr> else b)"

definition from_pending :: "commandBuffer \<Rightarrow> commandBuffer" where
  "from_pending b = (if cb_state b = CMDBUF_STATE_PENDING
     then b\<lparr>cb_state := (if cb_usageFlags b AND VK_COMMAND_BUFFER_USAGE_ONE_TIME_SUBMIT_BIT \<noteq> 0
       then CMDBUF_STATE_INVALID else CMDBUF_STATE_EXECUTABLE)\<rparr> else b)"

fun map_cmdbufs :: "(commandBuffer \<Rightarrow> commandBuffer) \<Rightarrow> addr list \<Rightarrow> cmd_world \<Rightarrow> cmd_world option" where
  "map_cmdbufs f [] w = Some w"
| "map_cmdbufs f (p # ps) w = do { w' \<leftarrow> on_cmdbuf p f w; map_cmdbufs f ps w' }"

fun sem_ops :: "(sems \<Rightarrow> addr \<Rightarrow> sems option) \<Rightarrow> addr list \<Rightarrow> sems \<Rightarrow> sems option" where
  "sem_ops f [] S = Some S"
| "sem_ops f (p # ps) S = do { S' \<leftarrow> f S p; sem_ops f ps S' }"

text \<open>
  A batch; the extension structure in \<open>pNext\<close> is the performance query one.  A wait for a semaphore
  of count zero does not return.
\<close>

record VkSubmitInfo =
  si_waitSemaphores :: "addr list"
  si_commandBuffers :: "addr list"
  si_signalSemaphores :: "addr list"
  si_counterPassIndex :: "u32 option"

definition submit_batch ::
  "'k kernel \<Rightarrow> objects \<Rightarrow> (addr \<rightharpoonup> u32 list) \<Rightarrow> VkSubmitInfo \<Rightarrow> 'k submit_state \<times> sems \<Rightarrow> ('k submit_state \<times> sems) option" where
  "submit_batch K ob perfmons si st = (let (s, S) = st in do {
     S \<leftarrow> sem_ops sem_wait (si_waitSemaphores si) S;
     w \<leftarrow> map_cmdbufs to_pending (si_commandBuffers si) (ss_world s);
     s \<leftarrow> submit_cmdbufs K ob perfmons (si_counterPassIndex si) (si_commandBuffers si) (s\<lparr>ss_world := w\<rparr>);
     w \<leftarrow> map_cmdbufs from_pending (si_commandBuffers si) (ss_world s);
     S \<leftarrow> sem_ops sem_post (si_signalSemaphores si) S;
     Some (s\<lparr>ss_world := w\<rparr>, S) })"

fun submit_batches ::
  "'k kernel \<Rightarrow> objects \<Rightarrow> (addr \<rightharpoonup> u32 list) \<Rightarrow> VkSubmitInfo list \<Rightarrow> 'k submit_state \<times> sems \<Rightarrow> ('k submit_state \<times> sems) option" where
  "submit_batches K ob perfmons [] st = Some st"
| "submit_batches K ob perfmons (si # sis) st = do {
     st' \<leftarrow> submit_batch K ob perfmons si st;
     submit_batches K ob perfmons sis st' }"

definition vkQueueSubmit ::
  "'k kernel \<Rightarrow> objects \<Rightarrow> (addr \<rightharpoonup> u32 list) \<Rightarrow> VkSubmitInfo list \<Rightarrow> addr \<Rightarrow> 'k submit_state \<times> sems \<times> fences \<Rightarrow>
    (('k submit_state \<times> sems \<times> fences) \<times> VkResult) option" where
  "vkQueueSubmit K ob perfmons pSubmits fence_p st = (let (s, S, F) = st in do {
     (s, S) \<leftarrow> submit_batches K ob perfmons pSubmits (s, S);
     F \<leftarrow> (if fence_p = NULL then Some F
       else do { f \<leftarrow> F fence_p; Some (F(fence_p \<mapsto> f\<lparr>fn_seqno := q_lastEmitSeqno (ss_queue s)\<rparr>)) });
     Some ((s, S, F), VK_SUCCESS) })"

subsection \<open>Secondary command buffers\<close>

text \<open>The address of an offset into a list of a command buffer.\<close>

definition list_ptr :: "addr \<Rightarrow> (commandBuffer \<Rightarrow> ControlList) \<Rightarrow> u32 \<Rightarrow> cmd_world \<Rightarrow> addr option" where
  "list_ptr p get offset w = do {
     b \<leftarrow> cw_cbs w p;
     P \<leftarrow> cw_cps w (cb_cp b);
     Some (getCPAptrFromOffset (cp_cpa P) (offset + cl_offset (get b))) }"

text \<open>
  One relocation: the \<open>d\<close>-th word of the relocation list says where in the target list of the
  secondary command buffer \<open>q\<close> a handle index is; the handle is interned in the primary one \<open>p\<close> and
  its index there replaces the old one.  \<open>m1\<close> and \<open>m2\<close> are the addresses of the two markers.
\<close>

definition relocate ::
  "addr \<Rightarrow> addr \<Rightarrow> addr \<Rightarrow> addr \<Rightarrow> (commandBuffer \<Rightarrow> ControlList) \<Rightarrow> u32 \<Rightarrow> (commandBuffer \<Rightarrow> ControlList) \<Rightarrow> u32 option \<Rightarrow>
    u32 \<Rightarrow> cmd_world \<Rightarrow> cmd_world option" where
  "relocate p m1 q m2 relocCl relocMember targetCl targetMember d w = do {
     relocOffset \<leftarrow> member w m2 relocMember;
     rp \<leftarrow> list_ptr q relocCl (relocOffset + d * 4) w;
     offset \<leftarrow> load32 (cw_mem w) rp;
     base \<leftarrow> (case targetMember of None \<Rightarrow> Some 0 | Some tm \<Rightarrow> member w m2 tm);
     handleIdx \<leftarrow> list_ptr q targetCl (base + offset) w;
     i \<leftarrow> load32 (cw_mem w) handleIdx;
     hb2 \<leftarrow> member w m2 CLMarker_handlesBufOffset;
     hp \<leftarrow> list_ptr q cb_handlesCl (hb2 + i * 4) w;
     handle \<leftarrow> load32 (cw_mem w) hp;
     w \<leftarrow> on_handlesCl p (\<lambda>\<sigma>. clFit \<sigma> 4) w;
     b \<leftarrow> cw_cbs w p;
     P \<leftarrow> cw_cps w (cb_cp b);
     hb1 \<leftarrow> member w m1 CLMarker_handlesBufOffset;
     hs1 \<leftarrow> member w m1 CLMarker_handlesSize;
     (((m', pa'), cl'), idx) \<leftarrow> clGetHandleIndex (hb1 + cl_offset (cb_handlesCl b)) hs1 handle
       ((cw_mem w, cp_cpa P), cb_handlesCl b);
     m'' \<leftarrow> store32 m' handleIdx idx;
     Some (w\<lparr>cw_mem := m'', cw_cps := (cw_cps w)(cb_cp b \<mapsto> P\<lparr>cp_cpa := pa'\<rparr>),
       cw_cbs := (cw_cbs w)(p \<mapsto> b\<lparr>cb_handlesCl := cl'\<rparr>)\<rparr>) }"

text \<open>The loop reads the size of the relocation list again in every round.\<close>

partial_function (option) relocate_loop ::
  "addr \<Rightarrow> u32 \<Rightarrow> (u32 \<Rightarrow> cmd_world \<Rightarrow> cmd_world option) \<Rightarrow> u32 \<Rightarrow> cmd_world \<Rightarrow> cmd_world option" where
  "relocate_loop m2 sizeMember step d w = do {
     sz \<leftarrow> member w m2 sizeMember;
     if d < sz div 4 then do { w' \<leftarrow> step d w; relocate_loop m2 sizeMember step (d + 1) w' } else Some w }"

declare relocate_loop.simps [code]

text \<open>The marker of a secondary command buffer is closed, with the sizes of the relocation lists.\<close>

definition reloc_size :: "addr \<Rightarrow> (commandBuffer \<Rightarrow> ControlList) \<Rightarrow> u32 \<Rightarrow> addr \<Rightarrow> u32 \<Rightarrow> cmd_world \<Rightarrow> cmd_world option" where
  "reloc_size q get offsetMember m2 sizeMember w = do {
     b \<leftarrow> cw_cbs w q;
     ro \<leftarrow> member w m2 offsetMember;
     m \<leftarrow> store32 (cw_mem w) (m2 + sizeMember) (cl_nextFreeByteOffset (get b) - (ro + cl_offset (get b)));
     Some (w\<lparr>cw_mem := m\<rparr>) }"

definition close_secondary :: "addr \<Rightarrow> addr \<Rightarrow> cmd_world \<Rightarrow> cmd_world option" where
  "close_secondary q m2 w = do {
     sz \<leftarrow> member w m2 CLMarker_size;
     if sz = 0
     then do {
       w \<leftarrow> close_marker q m2 w;
       w \<leftarrow> reloc_size q cb_uniformRelocCl CLMarker_uniformRelocOffset m2 CLMarker_uniformRelocSize w;
       w \<leftarrow> reloc_size q cb_gemRelocCl CLMarker_gemRelocOffset m2 CLMarker_gemRelocSize w;
       reloc_size q cb_shaderRecRelocCl CLMarker_shaderRecRelocOffset m2 CLMarker_shaderRecRelocSize w }
     else Some w }"

text \<open>A piece of a list of the secondary command buffer is appended to the list of the primary one.\<close>

definition append_list ::
  "(commandBuffer \<Rightarrow> ControlList) \<Rightarrow> ((ControlList \<Rightarrow> ControlList) \<Rightarrow> commandBuffer \<Rightarrow> commandBuffer) \<Rightarrow> addr \<Rightarrow> addr \<Rightarrow>
    u32 \<Rightarrow> (cmd_world \<Rightarrow> addr option) \<Rightarrow> cmd_world \<Rightarrow> cmd_world option" where
  "append_list get upd p m2 sizeMember src w = do {
     sz \<leftarrow> member w m2 sizeMember;
     w \<leftarrow> on_cl get upd p (\<lambda>\<sigma>. clFit \<sigma> sz) w;
     sz \<leftarrow> member w m2 sizeMember;
     s \<leftarrow> src w;
     on_cl get upd p (clInsertData sz s) w }"

definition execute_one :: "addr \<Rightarrow> addr \<Rightarrow> addr \<Rightarrow> cmd_world \<Rightarrow> cmd_world option" where
  "execute_one p m1 q w = do {
     m2 \<leftarrow> curr_marker q w;
     w \<leftarrow> close_secondary q m2 w;
     w \<leftarrow> relocate_loop m2 CLMarker_uniformRelocSize
       (relocate p m1 q m2 cb_uniformRelocCl CLMarker_uniformRelocOffset cb_uniformsCl (Some CLMarker_uniformsBufOffset)) 0 w;
     w \<leftarrow> relocate_loop m2 CLMarker_gemRelocSize
       (relocate p m1 q m2 cb_gemRelocCl CLMarker_gemRelocOffset cb_binCl None) 0 w;
     w \<leftarrow> relocate_loop m2 CLMarker_shaderRecRelocSize
       (relocate p m1 q m2 cb_shaderRecRelocCl CLMarker_shaderRecRelocOffset cb_shaderRecCl (Some CLMarker_shaderRecBufOffset)) 0 w;
     w \<leftarrow> append_list cb_binCl cb_binCl_update p m2 CLMarker_size (\<lambda>w. Some (m2 + sizeof_CLMarker)) w;
     n \<leftarrow> get_marker p CLMarker_numDrawCallsSubmitted w;
     n2 \<leftarrow> member w m2 CLMarker_numDrawCallsSubmitted;
     w \<leftarrow> set_marker p CLMarker_numDrawCallsSubmitted (n + n2) w;
     w \<leftarrow> append_list cb_uniformsCl cb_uniformsCl_update p m2 CLMarker_uniformsSize
       (\<lambda>w. do { ub \<leftarrow> member w m2 CLMarker_uniformsBufOffset; list_ptr q cb_uniformsCl ub w }) w;
     w \<leftarrow> append_list cb_shaderRecCl cb_shaderRecCl_update p m2 CLMarker_shaderRecSize
       (\<lambda>w. do { sb \<leftarrow> member w m2 CLMarker_shaderRecBufOffset; list_ptr q cb_shaderRecCl sb w }) w;
     b2 \<leftarrow> cw_cbs w q;
     on_cmdbuf p (\<lambda>b. b\<lparr>cb_shaderRecCount := cb_shaderRecCount b + cb_shaderRecCount b2\<rparr>) w }"

fun execute_all :: "addr \<Rightarrow> addr \<Rightarrow> addr list \<Rightarrow> cmd_world \<Rightarrow> cmd_world option" where
  "execute_all p m1 [] w = Some w"
| "execute_all p m1 (q # qs) w = do { w' \<leftarrow> execute_one p m1 q w; execute_all p m1 qs w' }"

text \<open>
  The address of the marker of the primary command buffer is taken once, although the binning list
  may be moved by the first secondary one.
\<close>

definition vkCmdExecuteCommands :: "addr \<Rightarrow> addr list \<Rightarrow> cmd_world \<Rightarrow> cmd_world option" where
  "vkCmdExecuteCommands p qs w = do { m1 \<leftarrow> curr_marker p w; execute_all p m1 qs w }"

end
