(* ===== verification/Marker_Words.thy ===== *)
theory Marker_Words
  imports Queue_Submit Handles_Markers
begin

text \<open>
  A marker as the list of its 41 words: what reading and writing its members does.
\<close>

lemma words_at_update:
  assumes "words_at m a ws" "i < length ws" "4 * length ws \<le> 2 ^ 32" "store32 m (a + of_nat (4 * i)) v = Some m'"
  shows "words_at m' a (ws[i := v])"
proof -
  have cell: "load32 m' (a + of_nat (4 * j)) = Some (ws[i := v] ! j)" if j: "j < length ws" for j
  proof (cases "j = i")
    case True
    then show ?thesis using load_store32_same [OF assms(4)] assms(2) by simp
  next
    case False
    have "extent (a + of_nat (4 * i)) 4 \<inter> extent (a + of_nat (4 * j)) 4 = {}"
    proof (rule ccontr)
      assume "\<not> ?thesis"
      then obtain k l where kl: "k < 4" "l < 4" "a + of_nat (4 * i) + of_nat k = a + of_nat (4 * j) + of_nat l"
        by (auto simp: extent_def)
      then have "a + of_nat (4 * i + k) = a + of_nat (4 * j + l)" by (simp add: add.assoc)
      moreover have "4 * i + k < 2 ^ 32" "4 * j + l < 2 ^ 32" using kl(1,2) j assms(2,3) by linarith+
      ultimately have "4 * i + k = 4 * j + l" using add_of_nat_inject by blast
      then show False using kl(1,2) False by presburger
    qed
    then have "load32 m' (a + of_nat (4 * j)) = load32 m (a + of_nat (4 * j))"
      by (intro load_store32_apart [OF assms(4)]) (simp add: apart_def)
    then show ?thesis using words_at_nth [OF assms(1) j] False by simp
  qed
  have all: "words_at m' b us" if "\<And>j. j < length us \<Longrightarrow> load32 m' (b + of_nat (4 * j)) = Some (us ! j)" for b us
    using that
  proof (induction us arbitrary: b)
    case (Cons u us)
    have "load32 m' (b + 4 + of_nat (4 * j)) = Some (us ! j)" if "j < length us" for j
      using Cons.prems [of "Suc j"] that by (simp add: add.assoc)
    then show ?case using Cons.IH Cons.prems [of 0] by simp
  qed simp
  show ?thesis by (rule all) (use cell in simp)
qed

lemma words_at_dom: "words_at m a ws \<Longrightarrow> extent a (4 * length ws) \<subseteq> dom m"
proof (induction ws arbitrary: a)
  case (Cons v ws)
  have "extent a (4 + 4 * length ws) = extent a 4 \<union> extent (a + 4) (4 * length ws)"
    using extent_add [of a 4 "4 * length ws"] by simp
  then show ?case using Cons load32_defined [of m a] by (simp add: numeral_eq_Suc)
qed simp

lemma words_at_store:
  assumes "words_at m a ws" "i < length ws" "4 * length ws \<le> 2 ^ 32"
  obtains m' where "store32 m (a + of_nat (4 * i)) v = Some m'" "words_at m' a (ws[i := v])"
    "dom m' = dom m" "\<And>x. x \<notin> extent a (4 * length ws) \<Longrightarrow> m' x = m x"
proof -
  have "load32 m (a + of_nat (4 * i)) \<noteq> None" using words_at_nth [OF assms(1,2)] by simp
  then obtain m' where m': "store32 m (a + of_nat (4 * i)) v = Some m'" unfolding load32_defined using store32_defined by blast
  have "extent (a + of_nat (4 * i)) 4 \<subseteq> extent a (4 * length ws)"
    using extent_add [of a "4 * i" 4] extent_mono [of "4 * i + 4" "4 * length ws" a] assms(2) by auto
  then have "m' x = m x" if "x \<notin> extent a (4 * length ws)" for x using store32_frame [OF m'] that by blast
  with that show ?thesis using m' words_at_update [OF assms m'] store32_dom [OF m'] by blast
qed

lemmas marker_members =
  CLMarker_writeImage_def CLMarker_readImage_def CLMarker_writeDepthStencilImage_def
  CLMarker_readDepthStencilImage_def CLMarker_writeMSAAimage_def CLMarker_writeMSAAdepthStencilImage_def
  CLMarker_writeImageOffset_def CLMarker_readImageOffset_def CLMarker_writeDepthStencilImageOffset_def
  CLMarker_readDepthStencilImageOffset_def CLMarker_writeMSAAimageOffset_def
  CLMarker_writeMSAAdepthStencilImageOffset_def CLMarker_flags_def CLMarker_performResolve_def
  CLMarker_readMSAAimage_def CLMarker_readMSAAdepthStencilImage_def CLMarker_perfmonID_def
  CLMarker_clearColor_def CLMarker_clearDepth_def CLMarker_clearStencil_def CLMarker_width_def
  CLMarker_height_def CLMarker_mipLevel_def CLMarker_nextMarkerOffset_def CLMarker_size_def
  CLMarker_handlesBufOffset_def CLMarker_handlesSize_def CLMarker_shaderRecBufOffset_def
  CLMarker_shaderRecSize_def CLMarker_shaderRecCount_def CLMarker_uniformsBufOffset_def
  CLMarker_uniformsSize_def

lemma word_at: "words_at m a ws \<Longrightarrow> i < length ws \<Longrightarrow> c = of_nat (4 * i) \<Longrightarrow> load32 m (a + c) = Some (ws ! i)"
  using words_at_nth by blast

lemma member_words:
  assumes "words_at (cw_mem w) a M" "length M = 41"
  shows
    "member w a CLMarker_writeImage = Some (M ! 3)" "member w a CLMarker_readImage = Some (M ! 4)"
    "member w a CLMarker_writeDepthStencilImage = Some (M ! 5)"
    "member w a CLMarker_readDepthStencilImage = Some (M ! 6)"
    "member w a CLMarker_writeMSAAimage = Some (M ! 7)"
    "member w a CLMarker_writeMSAAdepthStencilImage = Some (M ! 8)"
    "member w a CLMarker_writeImageOffset = Some (M ! 9)"
    "member w a CLMarker_readImageOffset = Some (M ! 10)"
    "member w a CLMarker_writeDepthStencilImageOffset = Some (M ! 11)"
    "member w a CLMarker_readDepthStencilImageOffset = Some (M ! 12)"
    "member w a CLMarker_writeMSAAimageOffset = Some (M ! 13)"
    "member w a CLMarker_writeMSAAdepthStencilImageOffset = Some (M ! 14)"
    "member w a CLMarker_flags = Some (M ! 15)" "member w a CLMarker_performResolve = Some (M ! 16)"
    "member w a CLMarker_readMSAAimage = Some (M ! 17)"
    "member w a CLMarker_readMSAAdepthStencilImage = Some (M ! 18)"
    "member w a CLMarker_perfmonID = Some (M ! 19)" "member w a CLMarker_clearColor = Some (M ! 20)"
    "member w a CLMarker_clearDepth = Some (M ! 22)" "member w a CLMarker_clearStencil = Some (M ! 23)"
    "member w a CLMarker_width = Some (M ! 24)" "member w a CLMarker_height = Some (M ! 25)"
    "member w a CLMarker_mipLevel = Some (M ! 26)" "member w a CLMarker_nextMarkerOffset = Some (M ! 1)"
    "member w a CLMarker_size = Some (M ! 2)" "member w a CLMarker_handlesBufOffset = Some (M ! 28)"
    "member w a CLMarker_handlesSize = Some (M ! 29)" "member w a CLMarker_shaderRecBufOffset = Some (M ! 30)"
    "member w a CLMarker_shaderRecSize = Some (M ! 31)" "member w a CLMarker_shaderRecCount = Some (M ! 32)"
    "member w a CLMarker_uniformsBufOffset = Some (M ! 33)" "member w a CLMarker_uniformsSize = Some (M ! 34)"
    "member w a (CLMarker_clearColor + 4) = Some (M ! 21)"
  unfolding member_def marker_members by (rule word_at [OF assms(1)]; simp add: assms(2))+

end
