(* ===== verification/Submit_Chain.thy ===== *)
theory Submit_Chain
  imports Marker_Words
begin

text \<open>
  What \<open>vkQueueSubmit\<close> makes of a recorded command buffer: its markers, read as lists of words, become
  the jobs of the kernel, one each, in the order of the chain they form.
\<close>

subsection \<open>Markers that can be submitted\<close>

text \<open>The number of handles of a marker as the code computes it: an open marker has no size yet.\<close>

definition handle_count :: "commandBuffer \<Rightarrow> u32 list \<Rightarrow> nat" where
  "handle_count b M = unat ((if M ! 29 \<noteq> 0 then M ! 29
     else cl_nextFreeByteOffset (cb_handlesCl b) - (M ! 28 + cl_offset (cb_handlesCl b))) div 4)"

text \<open>An image of a marker: it exists, and the buffer object of its memory is among the handles.\<close>

definition image_ready :: "objects \<Rightarrow> u32 list \<Rightarrow> u32 \<Rightarrow> addr \<Rightarrow> bool" where
  "image_ready ob hs mip img \<longleftrightarrow> img = NULL \<or> (case ob_images ob img of None \<Rightarrow> False | Some i \<Rightarrow>
     unat mip < length (im_levelTiling i) \<and> (case ob_mems ob (im_boundMem i) of None \<Rightarrow> False | Some mm \<Rightarrow> dm_bo mm \<in> set hs))"

text \<open>
  A marker at \<open>a\<close> with words \<open>M\<close> and handles \<open>hs\<close>.  It must not have a multisampled color target,
  whose handle is looked up at a wrong place.
\<close>

definition marker_ready ::
  "objects \<Rightarrow> (addr \<rightharpoonup> u32 list) \<Rightarrow> u32 option \<Rightarrow> commandBuffer \<Rightarrow> commandPool \<Rightarrow> mem \<Rightarrow> addr \<times> u32 list \<times> u32 list \<Rightarrow> bool" where
  "marker_ready ob perfmons pass b P m r \<longleftrightarrow> (case r of (a, M, hs) \<Rightarrow>
     a \<noteq> NULL \<and> length M = 41 \<and> words_at m a M \<and> handle_count b M = length hs \<and>
     words_at m (getCPAptrFromOffset (cp_cpa P) (M ! 28 + cl_offset (cb_handlesCl b))) hs \<and> M ! 7 = NULL \<and>
     list_all (image_ready ob hs (M ! 26)) [M ! 3, M ! 4, M ! 5, M ! 6, M ! 8] \<and>
     job_perfmon perfmons (M ! 19) pass \<noteq> None)"

text \<open>
  The markers from one on: all but the last are closed and link to the next one; the last one may
  still be open, and then it is the current marker of the list.
\<close>

fun marker_chain ::
  "objects \<Rightarrow> (addr \<rightharpoonup> u32 list) \<Rightarrow> u32 option \<Rightarrow> commandBuffer \<Rightarrow> commandPool \<Rightarrow> mem \<Rightarrow> (addr \<times> u32 list \<times> u32 list) list \<Rightarrow> bool" where
  "marker_chain ob perfmons pass b P m [] \<longleftrightarrow> False"
| "marker_chain ob perfmons pass b P m [(a, M, hs)] \<longleftrightarrow> marker_ready ob perfmons pass b P m (a, M, hs) \<and> M ! 1 = U32_MAX \<and>
     (M ! 2 = 0 \<longrightarrow> a = getCPAptrFromOffset (cp_cpa P) (cl_currMarkerOffset (cb_binCl b)))"
| "marker_chain ob perfmons pass b P m ((a, M, hs) # r # rs) \<longleftrightarrow> marker_ready ob perfmons pass b P m (a, M, hs) \<and>
     M ! 2 \<noteq> 0 \<and> M ! 1 \<noteq> U32_MAX \<and> fst r = getCPAptrFromOffset (cp_cpa P) (M ! 1 + cl_offset (cb_binCl b)) \<and>
     marker_chain ob perfmons pass b P m (r # rs)"

text \<open>The words of a marker after it was closed by the submission, if it was open.\<close>

definition closed_words :: "commandBuffer \<Rightarrow> u32 list \<Rightarrow> u32 list" where
  "closed_words b M = (if M ! 2 \<noteq> 0 then M
     else M[2 := cl_nextFreeByteOffset (cb_binCl b) - (cl_currMarkerOffset (cb_binCl b) + sizeof_CLMarker),
       29 := cl_nextFreeByteOffset (cb_handlesCl b) - (M ! 28 + cl_offset (cb_handlesCl b)),
       31 := cl_nextFreeByteOffset (cb_shaderRecCl b) - (M ! 30 + cl_offset (cb_shaderRecCl b)),
       34 := cl_nextFreeByteOffset (cb_uniformsCl b) - (M ! 33 + cl_offset (cb_uniformsCl b)),
       32 := cb_shaderRecCount b - M ! 32])"

subsection \<open>The job of a marker\<close>

text \<open>A surface names the buffer object of its image by an index into the handles, and where it starts.\<close>

definition surface_of :: "objects \<Rightarrow> u32 list \<Rightarrow> addr \<Rightarrow> u32 \<Rightarrow> drm_vc4_submit_rcl_surface \<Rightarrow> bool" where
  "surface_of ob hs img offset s \<longleftrightarrow> (if img = NULL then s = no_surface
     else (case ob_images ob img of None \<Rightarrow> False | Some i \<Rightarrow> unat (rs_hindex s) < length hs \<and>
       image_bo ob img = Some (hs ! unat (rs_hindex s)) \<and> rs_offset s = offset + im_boundOffset i))"

definition job_of_marker ::
  "objects \<Rightarrow> (addr \<rightharpoonup> u32 list) \<Rightarrow> u32 option \<Rightarrow> commandBuffer \<Rightarrow> commandPool \<Rightarrow> addr \<Rightarrow> u32 list \<Rightarrow> u32 list \<Rightarrow>
    drm_vc4_submit_cl \<Rightarrow> bool" where
  "job_of_marker ob perfmons pass b P a M hs cl \<longleftrightarrow>
     sc_bin_cl cl = user_ptr (a + sizeof_CLMarker) \<and> sc_bin_cl_size cl = M ! 2 \<and>
     sc_bo_handles cl = user_ptr (getCPAptrFromOffset (cp_cpa P) (M ! 28 + cl_offset (cb_handlesCl b))) \<and>
     sc_bo_handle_count cl = M ! 29 div 4 \<and>
     sc_shader_rec cl = user_ptr (getCPAptrFromOffset (cp_cpa P) (M ! 30 + cl_offset (cb_shaderRecCl b))) \<and>
     sc_shader_rec_size cl = M ! 31 \<and> sc_shader_rec_count cl = M ! 32 \<and>
     sc_uniforms cl = user_ptr (getCPAptrFromOffset (cp_cpa P) (M ! 33 + cl_offset (cb_uniformsCl b))) \<and>
     sc_uniforms_size cl = M ! 34 \<and> sc_clear_color cl = (M ! 20, M ! 21) \<and> sc_clear_z cl = M ! 22 \<and>
     sc_clear_s cl = ucast (M ! 23) \<and> sc_flags cl = M ! 15 \<and>
     sc_width cl = ucast (pad_width (M ! 26) (M ! 24)) \<and> sc_height cl = ucast (M ! 25) \<and>
     job_perfmon perfmons (M ! 19) pass = Some (sc_perfmonid cl) \<and>
     surface_of ob hs (M ! 3) (M ! 9) (sc_color_write cl) \<and> surface_of ob hs (M ! 4) (M ! 10) (sc_color_read cl) \<and>
     surface_of ob hs (M ! 5) (M ! 11) (sc_zs_write cl) \<and> surface_of ob hs (M ! 6) (M ! 12) (sc_zs_read cl) \<and>
     sc_msaa_color_write cl = no_surface \<and> surface_of ob hs (M ! 8) (M ! 14) (sc_msaa_zs_write cl)"

subsection \<open>One marker\<close>

definition handle_pos :: "objects \<Rightarrow> u32 list \<Rightarrow> addr \<Rightarrow> u32" where
  "handle_pos ob hs img = (if img = NULL then 0
     else of_nat (length (takeWhile (\<lambda>v. Some v \<noteq> image_bo ob img) hs)))"

lemma image_readyD:
  assumes "image_ready ob hs mip img" "img \<noteq> NULL" "length hs < 2 ^ 32"
  obtains i where "ob_images ob img = Some i" "unat mip < length (im_levelTiling i)"
    "image_bo ob img = Some (hs ! unat (handle_pos ob hs img))" "unat (handle_pos ob hs img) < length hs"
    "find_handle m base (hs ! unat (handle_pos ob hs img)) 0 (length hs) = Some (Some (handle_pos ob hs img)) \<or> \<not> words_at m base hs"
proof -
  obtain i mm where i: "ob_images ob img = Some i" "unat mip < length (im_levelTiling i)"
    "ob_mems ob (im_boundMem i) = Some mm" "dm_bo mm \<in> set hs"
    using assms(1,2) by (auto simp: image_ready_def split: option.splits)
  then have bo: "image_bo ob img = Some (dm_bo mm)" by (simp add: image_bo_def)
  let ?k = "length (takeWhile (\<lambda>v. v \<noteq> dm_bo mm) hs)"
  have pos: "handle_pos ob hs img = of_nat ?k" using assms(2) by (simp add: handle_pos_def bo)
  have k: "?k < length hs" "hs ! ?k = dm_bo mm" using first_occurrence [OF i(4)] by simp_all
  then have u: "unat (handle_pos ob hs img) = ?k" unfolding pos using assms(3) by (intro unat_of_nat_u32) linarith
  show ?thesis using that [OF i(1,2)] bo k u pos find_handle_spec [of m base 0 hs "dm_bo mm"] i(4) by auto
qed

lemma handle_count_bound: "handle_count b M < 2 ^ 32"
  using unat_lt_u32 [of "(if M ! 29 \<noteq> 0 then M ! 29
     else cl_nextFreeByteOffset (cb_handlesCl b) - (M ! 28 + cl_offset (cb_handlesCl b))) div 4"]
  by (simp add: handle_count_def)

lemma surface_index_ready:
  assumes cb: "cw_cbs w p = Some b" "cw_cps w (cb_cp b) = Some P"
    and r: "marker_ready ob perfmons pass b P (cw_mem w) (a, M, hs)" and i: "image_ready ob hs (M ! 26) img"
  shows "surface_index ob p a False img w = Some (w, handle_pos ob hs img)"
proof (cases "img = NULL")
  case False
  have M: "words_at (cw_mem w) a M" "length M = 41" and n: "handle_count b M = length hs"
    and h: "words_at (cw_mem w) (getCPAptrFromOffset (cp_cpa P) (M ! 28 + cl_offset (cb_handlesCl b))) hs"
    using r by (auto simp: marker_ready_def)
  obtain bo where bo: "image_bo ob img = Some bo"
    "find_handle (cw_mem w) (getCPAptrFromOffset (cp_cpa P) (M ! 28 + cl_offset (cb_handlesCl b))) bo 0 (length hs) =
      Some (Some (handle_pos ob hs img))"
    using image_readyD [OF i False handle_count_bound [of b M, unfolded n]] h by metis
  have "unat ((if M ! 29 \<noteq> 0 then M ! 29
      else cl_nextFreeByteOffset (cb_handlesCl b) - (M ! 28 + cl_offset (cb_handlesCl b))) div 4) = length hs"
    using n by (simp only: handle_count_def)
  then have "clGetHandleIndex (M ! 28 + cl_offset (cb_handlesCl b)) (M ! 29) bo ((cw_mem w, cp_cpa P), cb_handlesCl b) =
      Some (((cw_mem w, cp_cpa P), cb_handlesCl b), handle_pos ob hs img)"
    using bo(2) by (simp add: clGetHandleIndex_def Let_def)
  then show ?thesis using False cb bo(1) member_words [OF M] by (simp add: surface_index_def fun_upd_idem)
qed (simp add: surface_index_def handle_pos_def)

lemma job_surface_ready:
  assumes "image_ready ob hs mip img" "length hs < 2 ^ 32"
  obtains s where "job_surface ob img (handle_pos ob hs img) offset mip bits flags = Some s" "surface_of ob hs img offset s"
proof (cases "img = NULL")
  case False
  then obtain i where i: "ob_images ob img = Some i" "unat mip < length (im_levelTiling i)"
    "image_bo ob img = Some (hs ! unat (handle_pos ob hs img))" "unat (handle_pos ob hs img) < length hs"
    using image_readyD [OF assms(1) _ assms(2)] by blast
  then obtain t where "image_tiling i mip = Some t" by (cases "mip > 0") (simp_all add: image_tiling_def elem_at_def)
  with i False show ?thesis using that by (simp add: job_surface_def surface_of_def)
qed (use that in \<open>simp add: job_surface_def surface_of_def\<close>)

text \<open>An operation on a list that leaves everything as it was.\<close>

lemma on_cl_id:
  assumes "cw_cbs w p = Some b" "cw_cps w (cb_cp b) = Some P"
    "f ((cw_mem w, cp_cpa P), get b) = Some ((cw_mem w, cp_cpa P), get b)" "upd (\<lambda>_. get b) b = b"
  shows "on_cl get upd p f w = Some w"
  using assms by (simp add: on_cl_def fun_upd_idem)

lemma job_surfaces_ready:
  assumes cb: "cw_cbs w p = Some b" "cw_cps w (cb_cp b) = Some P" "clHasEnoughSpace (cb_handlesCl b) 24"
    and r: "marker_ready ob perfmons pass b P (cw_mem w) (a, M, hs)"
  obtains cr cwr zr zw mc mz where "job_surfaces ob p a w = Some (w, [cr, cwr, zr, zw, mc, mz])"
    "surface_of ob hs (M ! 4) (M ! 10) cr" "surface_of ob hs (M ! 3) (M ! 9) cwr" "surface_of ob hs (M ! 6) (M ! 12) zr"
    "surface_of ob hs (M ! 5) (M ! 11) zw" "mc = no_surface" "surface_of ob hs (M ! 8) (M ! 14) mz"
proof -
  have M: "words_at (cw_mem w) a M" "length M = 41" "length hs < 2 ^ 32" "M ! 7 = NULL"
    and i: "image_ready ob hs (M ! 26) (M ! 3)" "image_ready ob hs (M ! 26) (M ! 4)" "image_ready ob hs (M ! 26) (M ! 5)"
      "image_ready ob hs (M ! 26) (M ! 6)" "image_ready ob hs (M ! 26) (M ! 8)"
    using r handle_count_bound [of b M] by (auto simp: marker_ready_def)
  note idx = surface_index_ready [OF cb(1,2) r]
  have fit: "on_handlesCl p (\<lambda>\<sigma>. clFit \<sigma> 24) w = Some w"
    by (rule on_cl_id [OF cb(1,2)]) (simp_all add: clFit_def cb(3))
  note sf = job_surface_ready [OF _ M(3)]
  obtain cwr where cwr: "job_surface ob (M ! 3) (handle_pos ob hs (M ! 3)) (M ! 9) (M ! 26)
       (\<lambda>i tiling. render_config_bits (im_format i) tiling OR
          (if M ! 16 \<noteq> 0 then VC4_RENDER_CONFIG_MS_MODE_4X OR VC4_RENDER_CONFIG_DECIMATE_MODE_4X else 0)) 0 = Some cwr"
    "surface_of ob hs (M ! 3) (M ! 9) cwr" using sf [OF i(1)] by blast
  obtain cr where cr: "job_surface ob (M ! 4) (handle_pos ob hs (M ! 4)) (M ! 10) (M ! 26)
       (\<lambda>i tiling. loadstore_bits 1 tiling OR loadstore_format (im_format i))
       (if M ! 17 \<noteq> 0 then VC4_SUBMIT_RCL_SURFACE_READ_IS_FULL_RES else 0) = Some cr"
    "surface_of ob hs (M ! 4) (M ! 10) cr" using sf [OF i(2)] by blast
  obtain zw where zw: "job_surface ob (M ! 5) (handle_pos ob hs (M ! 5)) (M ! 11) (M ! 26)
       (\<lambda>i tiling. loadstore_bits 2 tiling) 0 = Some zw" "surface_of ob hs (M ! 5) (M ! 11) zw" using sf [OF i(3)] by blast
  obtain zr where zr: "job_surface ob (M ! 6) (handle_pos ob hs (M ! 6)) (M ! 12) (M ! 26)
       (\<lambda>i tiling. loadstore_bits 2 tiling) (if M ! 18 \<noteq> 0 then VC4_SUBMIT_RCL_SURFACE_READ_IS_FULL_RES else 0) = Some zr"
    "surface_of ob hs (M ! 6) (M ! 12) zr" using sf [OF i(4)] by blast
  obtain mz where mz: "job_surface ob (M ! 8) (handle_pos ob hs (M ! 8)) (M ! 14) (M ! 26)
       (\<lambda>i tiling. VC4_RENDER_CONFIG_MS_MODE_4X OR loadstore_bits 2 tiling) 0 = Some mz"
    "surface_of ob hs (M ! 8) (M ! 14) mz" using sf [OF i(5)] by blast
  have "surface_index ob p a True NULL w = Some (w, 0)" by (simp add: surface_index_def)
  moreover have "job_surface ob NULL 0 (M ! 13) (M ! 26) bits flags = Some no_surface" for bits flags
    by (simp add: job_surface_def)
  ultimately have "job_surfaces ob p a w = Some (w, [cr, cwr, zr, zw, no_surface, mz])"
    unfolding job_surfaces_def
    by (simp add: member_words [OF M(1,2)] fit idx i M(4) cwr(1) cr(1) zw(1) zr(1) mz(1) del: One_nat_def)
  then show ?thesis using that cwr(2) cr(2) zw(2) zr(2) mz(2) by blast
qed

lemma job_size_ready:
  assumes "marker_ready ob perfmons pass b P (cw_mem w) (a, M, hs)"
  obtains mx my where "job_size ob a w = Some (ucast (pad_width (M ! 26) (M ! 24)), ucast (M ! 25), mx, my)"
proof -
  have M: "words_at (cw_mem w) a M" "length M = 41" "M ! 7 = NULL" "image_ready ob hs (M ! 26) (M ! 3)"
    using assms by (auto simp: marker_ready_def)
  obtain bpp where bpp: "target_bpp ob (M ! 3) NULL = Some bpp"
    using M(4) by (cases "M ! 3 = NULL") (auto simp: target_bpp_def image_ready_def split: option.splits)
  let ?ts = "tile_size bpp (M ! 16 \<noteq> 0 \<or> NULL \<noteq> NULL \<or> M ! 8 \<noteq> NULL)"
  obtain tw th where t: "?ts = (tw, th)" by (cases ?ts)
  then have "tw \<noteq> 0" "th \<noteq> 0" by (auto simp: tile_size_def Let_def split: if_splits)
  then have "divRoundUp (M ! 24) tw \<noteq> None" "divRoundUp (M ! 25) th \<noteq> None" by (simp_all add: divRoundUp_def)
  then obtain k l where "divRoundUp (M ! 24) tw = Some k" "divRoundUp (M ! 25) th = Some l" by blast
  then have "job_size ob a w = Some (ucast (pad_width (M ! 26) (M ! 24)), ucast (M ! 25), ucast (k - 1), ucast (l - 1))"
    using t unfolding job_size_def by (simp add: member_words [OF M(1,2)] M(3) bpp)
  then show ?thesis by (rule that)
qed

text \<open>Closing a marker that is still open, and reading its words again.\<close>

lemma close_words:
  assumes "words_at m p M" "length M = 41" "p = getCPAptrFromOffset pa (cl_currMarkerOffset cl)"
  obtains m' where "clCloseCurrentMarker h r N u ((m, pa), cl) = Some ((m', pa), cl)" "dom m' = dom m"
    "words_at m' p (M[2 := cl_nextFreeByteOffset cl - (cl_currMarkerOffset cl + sizeof_CLMarker),
       29 := cl_nextFreeByteOffset h - (M ! 28 + cl_offset h), 31 := cl_nextFreeByteOffset r - (M ! 30 + cl_offset r),
       34 := cl_nextFreeByteOffset u - (M ! 33 + cl_offset u), 32 := N - M ! 32])"
    "\<And>x. x \<notin> extent p 164 \<Longrightarrow> m' x = m x"
proof -
  let ?v = "cl_nextFreeByteOffset cl - (cl_currMarkerOffset cl + sizeof_CLMarker)"
  let ?vh = "cl_nextFreeByteOffset h - (M ! 28 + cl_offset h)" and ?vr = "cl_nextFreeByteOffset r - (M ! 30 + cl_offset r)"
  let ?vu = "cl_nextFreeByteOffset u - (M ! 33 + cl_offset u)"
  obtain m1 where m1: "store32 m (p + of_nat (4 * 2)) ?v = Some m1" "words_at m1 p (M[2 := ?v])" "dom m1 = dom m"
    "\<And>x. x \<notin> extent p 164 \<Longrightarrow> m1 x = m x" using words_at_store [OF assms(1), of 2] assms(2) by auto
  obtain m2 where m2: "store32 m1 (p + of_nat (4 * 29)) ?vh = Some m2" "words_at m2 p (M[2 := ?v, 29 := ?vh])" "dom m2 = dom m"
    "\<And>x. x \<notin> extent p 164 \<Longrightarrow> m2 x = m x" using words_at_store [OF m1(2), of 29] assms(2) m1(3,4) by auto
  obtain m3 where m3: "store32 m2 (p + of_nat (4 * 31)) ?vr = Some m3" "words_at m3 p (M[2 := ?v, 29 := ?vh, 31 := ?vr])"
    "dom m3 = dom m" "\<And>x. x \<notin> extent p 164 \<Longrightarrow> m3 x = m x" using words_at_store [OF m2(2), of 31] assms(2) m2(3,4) by auto
  obtain m4 where m4: "store32 m3 (p + of_nat (4 * 34)) ?vu = Some m4"
    "words_at m4 p (M[2 := ?v, 29 := ?vh, 31 := ?vr, 34 := ?vu])"
    "dom m4 = dom m" "\<And>x. x \<notin> extent p 164 \<Longrightarrow> m4 x = m x" using words_at_store [OF m3(2), of 34] assms(2) m3(3,4) by auto
  obtain m5 where m5: "store32 m4 (p + of_nat (4 * 32)) (N - M ! 32) = Some m5"
    "words_at m5 p (M[2 := ?v, 29 := ?vh, 31 := ?vr, 34 := ?vu, 32 := N - M ! 32])"
    "dom m5 = dom m" "\<And>x. x \<notin> extent p 164 \<Longrightarrow> m5 x = m x" using words_at_store [OF m4(2), of 32] assms(2) m4(3,4) by auto
  have "load32 m1 (p + 112) = Some (M ! 28)" "load32 m2 (p + 120) = Some (M ! 30)" "load32 m3 (p + 132) = Some (M ! 33)"
    "load32 m4 (p + 128) = Some (M ! 32)"
    using word_at [OF m1(2), of 28] word_at [OF m2(2), of 30] word_at [OF m3(2), of 33] word_at [OF m4(2), of 32] assms(2) by simp_all
  then have "clCloseCurrentMarker h r N u ((m, pa), cl) = Some ((m5, pa), cl)"
    using m1(1) m2(1) m3(1) m4(1) m5(1)
    by (simp add: clCloseCurrentMarker_def assms(3) [symmetric] marker_offsets)
  then show ?thesis using that m5 by blast
qed

lemma close_marker_ready:
  assumes cb: "cw_cbs w p = Some b" "cw_cps w (cb_cp b) = Some P"
    and M: "words_at (cw_mem w) a M" "length M = 41"
    and cur: "M ! 2 = 0 \<longrightarrow> a = getCPAptrFromOffset (cp_cpa P) (cl_currMarkerOffset (cb_binCl b))"
  obtains m' where "close_marker p a w = Some (w\<lparr>cw_mem := m'\<rparr>)" "words_at m' a (closed_words b M)" "dom m' = dom (cw_mem w)"
    "\<And>x. x \<notin> extent a 164 \<Longrightarrow> m' x = cw_mem w x" "M ! 2 \<noteq> 0 \<longrightarrow> m' = cw_mem w"
proof (cases "M ! 2 = 0")
  case True
  then have a: "a = getCPAptrFromOffset (cp_cpa P) (cl_currMarkerOffset (cb_binCl b))" using cur by blast
  obtain m' where m': "clCloseCurrentMarker (cb_handlesCl b) (cb_shaderRecCl b) (cb_shaderRecCount b) (cb_uniformsCl b)
      ((cw_mem w, cp_cpa P), cb_binCl b) = Some ((m', cp_cpa P), cb_binCl b)" "dom m' = dom (cw_mem w)"
    "words_at m' a (closed_words b M)" "\<And>x. x \<notin> extent a 164 \<Longrightarrow> m' x = cw_mem w x"
    by (rule close_words [OF M a]) (use True in \<open>auto simp: closed_words_def\<close>)
  have "close_marker p a w = Some (w\<lparr>cw_mem := m'\<rparr>)"
    using cb m'(1) by (simp add: close_marker_def member_words [OF M] True on_cl_def fun_upd_idem)
  with that m' True show ?thesis by blast
next
  case False
  then have "close_marker p a w = Some (w\<lparr>cw_mem := cw_mem w\<rparr>)" by (simp add: close_marker_def member_words [OF M])
  with that [of "cw_mem w"] False M show ?thesis by (simp add: closed_words_def)
qed

lemma closed_words_same:
  "length (closed_words b M) = length M"
  "k \<notin> {2, 29, 31, 32, 34} \<Longrightarrow> closed_words b M ! k = M ! k"
  by (auto simp: closed_words_def)

lemma marker_job_ready:
  assumes cb: "cw_cbs w p = Some b" "cw_cps w (cb_cp b) = Some P" "clHasEnoughSpace (cb_handlesCl b) 24"
    and r: "marker_ready ob perfmons pass b P (cw_mem w) (a, M, hs)"
    and cur: "M ! 2 = 0 \<longrightarrow> a = getCPAptrFromOffset (cp_cpa P) (cl_currMarkerOffset (cb_binCl b))"
  obtains m' cl where "marker_job ob perfmons pass p a w = Some (w\<lparr>cw_mem := m'\<rparr>, cl)"
    "job_of_marker ob perfmons pass b P a (closed_words b M) hs cl" "member (w\<lparr>cw_mem := m'\<rparr>) a CLMarker_nextMarkerOffset = Some (M ! 1)"
    "dom m' = dom (cw_mem w)" "\<And>x. x \<notin> extent a 164 \<Longrightarrow> m' x = cw_mem w x" "M ! 2 \<noteq> 0 \<longrightarrow> m' = cw_mem w"
proof -
  have M: "words_at (cw_mem w) a M" "length M = 41" using r by (auto simp: marker_ready_def)
  obtain cr cwr zr zw mc mz where s: "job_surfaces ob p a w = Some (w, [cr, cwr, zr, zw, mc, mz])"
    "surface_of ob hs (M ! 4) (M ! 10) cr" "surface_of ob hs (M ! 3) (M ! 9) cwr" "surface_of ob hs (M ! 6) (M ! 12) zr"
    "surface_of ob hs (M ! 5) (M ! 11) zw" "mc = no_surface" "surface_of ob hs (M ! 8) (M ! 14) mz"
    by (rule job_surfaces_ready [OF cb r])
  obtain mx my where sz: "job_size ob a w = Some (ucast (pad_width (M ! 26) (M ! 24)), ucast (M ! 25), mx, my)"
    by (rule job_size_ready [OF r])
  obtain pm where pm: "job_perfmon perfmons (M ! 19) pass = Some pm" using r by (auto simp: marker_ready_def)
  obtain m' where m': "close_marker p a w = Some (w\<lparr>cw_mem := m'\<rparr>)" "words_at m' a (closed_words b M)" "dom m' = dom (cw_mem w)"
    "\<And>x. x \<notin> extent a 164 \<Longrightarrow> m' x = cw_mem w x" "M ! 2 \<noteq> 0 \<longrightarrow> m' = cw_mem w"
    using close_marker_ready [OF cb(1,2) M cur] by metis
  let ?C = "closed_words b M"
  have C: "words_at (cw_mem (w\<lparr>cw_mem := m'\<rparr>)) a ?C" "length ?C = 41" using m'(2) M(2) by (simp_all add: closed_words_same)
  define cl where "cl = \<lparr>sc_bin_cl = user_ptr (a + sizeof_CLMarker),
       sc_shader_rec = user_ptr (getCPAptrFromOffset (cp_cpa P) (M ! 30 + cl_offset (cb_shaderRecCl b))),
       sc_uniforms = user_ptr (getCPAptrFromOffset (cp_cpa P) (M ! 33 + cl_offset (cb_uniformsCl b))),
       sc_bo_handles = user_ptr (getCPAptrFromOffset (cp_cpa P) (M ! 28 + cl_offset (cb_handlesCl b))),
       sc_bin_cl_size = ?C ! 2, sc_shader_rec_size = ?C ! 31, sc_shader_rec_count = ?C ! 32, sc_uniforms_size = ?C ! 34,
       sc_bo_handle_count = ?C ! 29 div 4, sc_width = ucast (pad_width (M ! 26) (M ! 24)), sc_height = ucast (M ! 25),
       sc_min_x_tile = 0, sc_min_y_tile = 0,
       sc_max_x_tile = mx, sc_max_y_tile = my, sc_color_read = cr, sc_color_write = cwr,
       sc_zs_read = zr, sc_zs_write = zw, sc_msaa_color_write = mc,
       sc_msaa_zs_write = mz, sc_clear_color = (M ! 20, M ! 21), sc_clear_z = M ! 22, sc_clear_s = ucast (M ! 23),
       sc_flags = M ! 15, sc_perfmonid = pm\<rparr>"
  have "marker_job ob perfmons pass p a w = Some (w\<lparr>cw_mem := m'\<rparr>, cl)"
    unfolding marker_job_def cl_def
    by (simp add: s(1) sz member_words [OF M] cb(1,2) pm m'(1) member_words [OF C] del: One_nat_def)
  moreover have "job_of_marker ob perfmons pass b P a ?C hs cl"
    using s pm by (simp add: job_of_marker_def cl_def closed_words_same)
  moreover have "member (w\<lparr>cw_mem := m'\<rparr>) a CLMarker_nextMarkerOffset = Some (M ! 1)"
    using member_words(24) [OF C] by (simp add: closed_words_same)
  ultimately show ?thesis using that m'(3-5) by blast
qed


subsection \<open>The chain of markers\<close>

text \<open>The jobs that are handed to the kernel, in order; nothing else changes.\<close>

definition submit_jobs :: "'k kernel \<Rightarrow> drm_vc4_submit_cl list \<Rightarrow> 'k submit_state \<Rightarrow> 'k submit_state" where
  "submit_jobs K jobs s = fold (submit_job K) jobs s"

lemma submit_job_world: "ss_world (submit_job K cl s) = ss_world s"
  by (simp add: submit_job_def split: prod.splits)

lemma submit_job_swap: "submit_job K cl (s\<lparr>ss_world := w\<rparr>) = (submit_job K cl s)\<lparr>ss_world := w\<rparr>"
  by (simp add: submit_job_def split: prod.splits)

lemma submit_jobs_swap: "submit_jobs K jobs (s\<lparr>ss_world := w\<rparr>) = (submit_jobs K jobs s)\<lparr>ss_world := w\<rparr>"
  unfolding submit_jobs_def by (induction jobs arbitrary: s) (simp_all add: submit_job_swap)

lemma submit_jobs_simps: "submit_jobs K [] s = s" "submit_jobs K (cl # jobs) s = submit_jobs K jobs (submit_job K cl s)"
  by (simp_all add: submit_jobs_def)

lemma ready_nonnull: "marker_chain ob perfmons pass b P m ((a, M, hs) # rs) \<Longrightarrow> marker_ready ob perfmons pass b P m (a, M, hs)"
  by (cases rs) auto

lemma submit_markers_chain:
  assumes "cw_cbs (ss_world s) p = Some b" "cw_cps (ss_world s) (cb_cp b) = Some P" "clHasEnoughSpace (cb_handlesCl b) 24"
    and "marker_chain ob perfmons pass b P (cw_mem (ss_world s)) ms"
  shows "\<exists>m' jobs. submit_markers K ob perfmons pass p (fst (hd ms)) s =
       Some ((submit_jobs K jobs s)\<lparr>ss_world := (ss_world s)\<lparr>cw_mem := m'\<rparr>\<rparr>) \<and>
     (\<forall>x. (\<forall>r\<in>set ms. x \<notin> extent (fst r) 164) \<longrightarrow> m' x = cw_mem (ss_world s) x) \<and>
     list_all2 (\<lambda>(a, M, hs) cl. job_of_marker ob perfmons pass b P a (closed_words b M) hs cl) ms jobs"
  using assms
proof (induction ob perfmons pass b P "cw_mem (ss_world s)" ms arbitrary: s rule: marker_chain.induct)
  case (2 ob perfmons pass b P a M hs)
  have r: "marker_ready ob perfmons pass b P (cw_mem (ss_world s)) (a, M, hs)" and nx: "M ! 1 = U32_MAX"
    and cur: "M ! 2 = 0 \<longrightarrow> a = getCPAptrFromOffset (cp_cpa P) (cl_currMarkerOffset (cb_binCl b))" using 2(4) by simp_all
  obtain m' cl where j: "marker_job ob perfmons pass p a (ss_world s) = Some ((ss_world s)\<lparr>cw_mem := m'\<rparr>, cl)"
    "job_of_marker ob perfmons pass b P a (closed_words b M) hs cl"
    "member ((ss_world s)\<lparr>cw_mem := m'\<rparr>) a CLMarker_nextMarkerOffset = Some (M ! 1)"
    "\<And>x. x \<notin> extent a 164 \<Longrightarrow> m' x = cw_mem (ss_world s) x"
    by (rule marker_job_ready [OF 2(1-3) r cur]) blast
  have "a \<noteq> NULL" using r by (simp add: marker_ready_def)
  then have "submit_markers K ob perfmons pass p a s =
      Some ((submit_jobs K [cl] s)\<lparr>ss_world := (ss_world s)\<lparr>cw_mem := m'\<rparr>\<rparr>)"
    using j(1,3) nx by (subst submit_markers.simps) (simp add: submit_job_swap submit_jobs_simps)
  with j(2,4) show ?case by (intro exI [of _ m'] exI [of _ "[cl]"]) simp
next
  case (3 ob perfmons pass b P a M hs r rs)
  have rd: "marker_ready ob perfmons pass b P (cw_mem (ss_world s)) (a, M, hs)" and sz: "M ! 2 \<noteq> 0" "M ! 1 \<noteq> U32_MAX"
    and lk: "fst r = getCPAptrFromOffset (cp_cpa P) (M ! 1 + cl_offset (cb_binCl b))"
    and ch: "marker_chain ob perfmons pass b P (cw_mem (ss_world s)) (r # rs)" using 3(5) by simp_all
  obtain m' cl where j: "marker_job ob perfmons pass p a (ss_world s) = Some ((ss_world s)\<lparr>cw_mem := m'\<rparr>, cl)"
    "job_of_marker ob perfmons pass b P a (closed_words b M) hs cl"
    "member ((ss_world s)\<lparr>cw_mem := m'\<rparr>) a CLMarker_nextMarkerOffset = Some (M ! 1)" "M ! 2 \<noteq> 0 \<longrightarrow> m' = cw_mem (ss_world s)"
    using marker_job_ready [OF 3(2-4) rd] sz(1) by metis
  then have w: "(ss_world s)\<lparr>cw_mem := m'\<rparr> = ss_world s" using sz(1) by simp
  let ?s = "submit_job K cl s"
  have "a \<noteq> NULL" using rd by (simp add: marker_ready_def)
  then have step: "submit_markers K ob perfmons pass p a s = submit_markers K ob perfmons pass p (fst r) ?s"
    using j(1,3) sz 3(2,3) lk unfolding w by (subst submit_markers.simps) (simp add: submit_job_world)
  have "cw_mem (ss_world ?s) = cw_mem (ss_world s)" by (simp add: submit_job_world)
  from 3(1) [OF this [symmetric]] 3(2-4) ch obtain m'' jobs where
    "submit_markers K ob perfmons pass p (fst r) ?s = Some ((submit_jobs K jobs ?s)\<lparr>ss_world := (ss_world s)\<lparr>cw_mem := m''\<rparr>\<rparr>)"
    "\<forall>x. (\<forall>r\<in>set (r # rs). x \<notin> extent (fst r) 164) \<longrightarrow> m'' x = cw_mem (ss_world s) x"
    "list_all2 (\<lambda>(a, M, hs) cl. job_of_marker ob perfmons pass b P a (closed_words b M) hs cl) (r # rs) jobs"
    by (auto simp: submit_job_world)
  then show ?case using step j(2)
    by (intro exI [of _ m''] exI [of _ "cl # jobs"]) (simp add: submit_jobs_simps)
qed simp


subsection \<open>The submission of a command buffer\<close>

text \<open>The state of a command buffer does not matter for its markers.\<close>

lemma ready_state: "marker_ready ob perfmons pass (b\<lparr>cb_state := x\<rparr>) = marker_ready ob perfmons pass b"
  by (simp add: marker_ready_def handle_count_def fun_eq_iff)

lemma chain_state: "marker_chain ob perfmons pass (b\<lparr>cb_state := x\<rparr>) P m ms = marker_chain ob perfmons pass b P m ms"
  by (induction ob perfmons pass b P m ms rule: marker_chain.induct) (simp_all add: ready_state)

lemma job_state: "job_of_marker ob perfmons pass (b\<lparr>cb_state := x\<rparr>) P a (closed_words (b\<lparr>cb_state := x\<rparr>) M) hs cl =
    job_of_marker ob perfmons pass b P a (closed_words b M) hs cl"
  by (simp add: job_of_marker_def closed_words_def)

text \<open>What a submission leaves of the command buffer.\<close>

definition submitted :: "commandBuffer \<Rightarrow> commandBuffer" where
  "submitted b = b\<lparr>cb_state := (if cb_usageFlags b AND VK_COMMAND_BUFFER_USAGE_ONE_TIME_SUBMIT_BIT \<noteq> 0
     then CMDBUF_STATE_INVALID else CMDBUF_STATE_EXECUTABLE)\<rparr>"

definition one_batch :: "addr list \<Rightarrow> addr \<Rightarrow> addr list \<Rightarrow> u32 option \<Rightarrow> VkSubmitInfo" where
  "one_batch waits p signals pass = \<lparr>si_waitSemaphores = waits, si_commandBuffers = [p], si_signalSemaphores = signals,
     si_counterPassIndex = pass\<rparr>"

lemma submit_batch_chain:
  fixes s :: "'k submit_state"
  assumes "cw_cbs (ss_world s) p = Some b" "cw_cps (ss_world s) (cb_cp b) = Some P"
    and "cb_state b = CMDBUF_STATE_EXECUTABLE" "cl_currMarkerOffset (cb_binCl b) \<noteq> U32_MAX"
    and "clHasEnoughSpace (cb_handlesCl b) 24" "marker_chain ob perfmons pass b P (cw_mem (ss_world s)) ms"
    and "fst (hd ms) = getCPAptrFromOffset (cp_cpa P) (cl_offset (cb_binCl b))"
    and "sem_ops sem_wait waits S = Some S1" "sem_ops sem_post signals S1 = Some S2"
  obtains m' jobs where "submit_batch K ob perfmons (one_batch waits p signals pass) (s, S) = Some ((submit_jobs K jobs s)
      \<lparr>ss_world := (ss_world s)\<lparr>cw_mem := m', cw_cbs := (cw_cbs (ss_world s))(p \<mapsto> submitted b)\<rparr>\<rparr>, S2)"
    "list_all2 (\<lambda>(a, M, hs) cl. job_of_marker ob perfmons pass b P a (closed_words b M) hs cl) ms jobs"
    "\<And>x. (\<forall>r\<in>set ms. x \<notin> extent (fst r) 164) \<Longrightarrow> m' x = cw_mem (ss_world s) x"
proof -
  let ?b = "b\<lparr>cb_state := CMDBUF_STATE_PENDING\<rparr>"
  let ?w = "(ss_world s)\<lparr>cw_cbs := (cw_cbs (ss_world s))(p \<mapsto> ?b)\<rparr>"
  let ?s = "s\<lparr>ss_world := ?w\<rparr>"
  have w: "cw_cbs (ss_world ?s) p = Some ?b" "cw_cps (ss_world ?s) (cb_cp ?b) = Some P" "clHasEnoughSpace (cb_handlesCl ?b) 24"
    "marker_chain ob perfmons pass ?b P (cw_mem (ss_world ?s)) ms" using assms(1,2,5,6) by (simp_all add: chain_state)
  obtain m' jobs where j: "submit_markers K ob perfmons pass p (fst (hd ms)) ?s =
      Some ((submit_jobs K jobs ?s)\<lparr>ss_world := ?w\<lparr>cw_mem := m'\<rparr>\<rparr>)"
    "\<And>x. (\<forall>r\<in>set ms. x \<notin> extent (fst r) 164) \<Longrightarrow> m' x = cw_mem (ss_world s) x"
    "list_all2 (\<lambda>(a, M, hs) cl. job_of_marker ob perfmons pass ?b P a (closed_words ?b M) hs cl) ms jobs"
    using submit_markers_chain [OF w, of K] by auto
  have "submit_cmdbufs K ob perfmons pass [p] ?s = Some ((submit_jobs K jobs s)\<lparr>ss_world := ?w\<lparr>cw_mem := m'\<rparr>\<rparr>)"
    using assms(2,4,7) j(1) by (simp add: submit_cmdbuf_def submit_jobs_swap)
  moreover have "map_cmdbufs to_pending [p] (ss_world s) = Some ?w" using assms(1,3) by (simp add: on_cmdbuf_def to_pending_def)
  moreover have "map_cmdbufs from_pending [p] (?w\<lparr>cw_mem := m'\<rparr>) =
      Some ((ss_world s)\<lparr>cw_mem := m', cw_cbs := (cw_cbs (ss_world s))(p \<mapsto> submitted b)\<rparr>)"
    by (simp add: on_cmdbuf_def from_pending_def submitted_def)
  ultimately show ?thesis using assms(8,9) j(2,3) that [of m' jobs]
    by (simp add: submit_batch_def one_batch_def job_state del: submit_cmdbufs.simps map_cmdbufs.simps)
qed

end
