(* ===== verification/Command_Pools.thy ===== *)
theory Command_Pools
  imports Command_Buffer "HOL-Library.Multiset"
begin

text \<open>
  What a command pool hands out: the invariant \<open>cmd_inv\<close> says that the blocks of the two
  allocators are divided between the free lists and the live command buffers, and the lemmas show
  that \<open>vkAllocateCommandBuffers\<close> and \<open>vkFreeCommandBuffers\<close> keep it, with what they return.
\<close>

subsection \<open>The two allocators of a pool\<close>

text \<open>The part of a consecutive allocator that never changes.\<close>

definition geo :: "ConsecutivePoolAllocator \<Rightarrow> ConsecutivePoolAllocator" where
  "geo pa = pa\<lparr>cpa_nextFreeBlock := 0, cpa_numFreeBlocks := 0\<rparr>"

lemma geo_sel [simp]:
  "cpa_buf (geo pa) = cpa_buf pa" "cpa_blockSize (geo pa) = cpa_blockSize pa" "cpa_size (geo pa) = cpa_size pa"
  "cpa_blocks (geo pa) = cpa_blocks pa" "run_of (geo pa) i n = run_of pa i n"
  by (simp_all add: geo_def cpa_blocks_def run_of_def)

lemma geo_update [simp]: "geo (pa\<lparr>cpa_nextFreeBlock := x, cpa_numFreeBlocks := y\<rparr>) = geo pa"
  by (simp add: geo_def)

lemma geo_eqI: "cpa_buf pa = cpa_buf pb \<Longrightarrow> cpa_blockSize pa = cpa_blockSize pb \<Longrightarrow> cpa_size pa = cpa_size pb \<Longrightarrow> geo pa = geo pb"
  by (cases pa; cases pb) (simp add: geo_def)

definition pools :: "addr \<Rightarrow> addr list \<Rightarrow> ConsecutivePoolAllocator \<Rightarrow> cmd_world \<Rightarrow> addr list \<Rightarrow> addr list \<Rightarrow> bool" where
  "pools cp B A w ps qs \<longleftrightarrow> (\<exists>P. cw_cps w cp = Some P \<and> pool_blocks (cp_pa P) = B \<and> geo (cp_cpa P) = A \<and>
     pool_inv (cw_mem w, cp_pa P) ps \<and> cpa_inv (cw_mem w, cp_cpa P) qs \<and>
     (\<forall>a\<in>set B. \<forall>q\<in>set (cpa_blocks A). apart a q) \<and> set B \<subseteq> dom (cw_cbs w))"

lemma poolsE:
  assumes "pools cp B A w ps qs"
  obtains P where "cw_cps w cp = Some P" "pool_blocks (cp_pa P) = B" "geo (cp_cpa P) = A"
    "pool_inv (cw_mem w, cp_pa P) ps" "cpa_inv (cw_mem w, cp_cpa P) qs"
    "\<And>a q. a \<in> set B \<Longrightarrow> q \<in> set (cpa_blocks A) \<Longrightarrow> apart a q" "set B \<subseteq> dom (cw_cbs w)"
    "cpa_blocks (cp_cpa P) = cpa_blocks A" "cpa_blockSize (cp_cpa P) = cpa_blockSize A" "cpa_buf (cp_cpa P) = cpa_buf A"
    "cpa_size (cp_cpa P) = cpa_size A" "set ps \<subseteq> set B" "set qs \<subseteq> set (cpa_blocks A)"
  using assms geo_sel cpa_invD(4) [of "(cw_mem w, _)" qs] unfolding pools_def by (fastforce simp: pool_inv.simps)

lemma cpa_inv_agree:
  assumes "agree_off W m m'" "cpa_inv (m, pa) qs" "\<And>q. q \<in> set qs \<Longrightarrow> extent q 4 \<inter> W = {}"
  shows "cpa_inv (m', pa) qs"
proof -
  have "chain load32 m' (cpa_nextFreeBlock pa) qs = chain load32 m (cpa_nextFreeBlock pa) qs"
    using agree_load32 [OF assms(1)] assms(3) by (intro chain_cong) blast
  then show ?thesis using assms(1,2)
    by (simp add: cpa_inv_def cpa_links_def cpa_area_def block_area_def agree_off_def)
qed

text \<open>The head of the free list is the block that an allocation of one block takes.\<close>

lemma cpa_allocate_head:
  assumes "cpa_inv (m, pa) (q # qs)"
  obtains nx nf where "consecutivePoolAllocate (m, pa) 1 =
      Some ((m, pa\<lparr>cpa_nextFreeBlock := nx, cpa_numFreeBlocks := nf\<rparr>), q - cpa_buf pa)"
    "cpa_inv (m, pa\<lparr>cpa_nextFreeBlock := nx, cpa_numFreeBlocks := nf\<rparr>) qs"
proof -
  note d = cpa_invD [OF assms, simplified]
  from d(2) obtain nx where nx: "cpa_nextFreeBlock pa = q" "q \<noteq> NULL" "load32 m q = Some nx" "chain load32 m nx qs" by auto
  have "cpa_search m (cpa_blockSize pa) 1 q = Some (Some q)" using nx by (subst cpa_search.simps) simp
  then have a: "consecutivePoolAllocate (m, pa) 1 =
      Some ((m, pa\<lparr>cpa_nextFreeBlock := nx, cpa_numFreeBlocks := cpa_numFreeBlocks pa - 1\<rparr>), q - cpa_buf pa)"
    using nx by (simp add: consecutivePoolAllocate_def cpa_unlink_def)
  have "cpa_inv (m, pa\<lparr>cpa_nextFreeBlock := nx, cpa_numFreeBlocks := cpa_numFreeBlocks pa - 1\<rparr>) qs"
    using d nx by (simp add: cpa_inv_def cpa_links_def cpa_area_def cpa_blocks_def)
  then show ?thesis using that a by blast
qed

lemma cpa_allocate_none: "cpa_inv (m, pa) [] \<Longrightarrow> consecutivePoolAllocate (m, pa) 1 = Some ((m, pa), -1)"
  using cpa_invD(2) [of "(m, pa)" "[]"] by (simp add: consecutivePoolAllocate_def)

lemma alloc_cl_spec:
  assumes "pools cp B A w ps (q # qs)"
  obtains w' where "alloc_cl cp w = Some (w', clInit (q - cpa_buf A) (cpa_blockSize A))" "pools cp B A w' ps qs"
    "cw_mem w' = cw_mem w" "cw_cbs w' = cw_cbs w"
proof -
  from assms obtain P where P: "cw_cps w cp = Some P" "pool_blocks (cp_pa P) = B" "geo (cp_cpa P) = A"
    "pool_inv (cw_mem w, cp_pa P) ps" "cpa_inv (cw_mem w, cp_cpa P) (q # qs)"
    "\<And>a q. a \<in> set B \<Longrightarrow> q \<in> set (cpa_blocks A) \<Longrightarrow> apart a q" "set B \<subseteq> dom (cw_cbs w)"
    "cpa_blockSize (cp_cpa P) = cpa_blockSize A" "cpa_buf (cp_cpa P) = cpa_buf A" by (rule poolsE) blast
  from P(5) obtain nx nf where a: "consecutivePoolAllocate (cw_mem w, cp_cpa P) 1 =
      Some ((cw_mem w, cp_cpa P\<lparr>cpa_nextFreeBlock := nx, cpa_numFreeBlocks := nf\<rparr>), q - cpa_buf (cp_cpa P))"
    "cpa_inv (cw_mem w, cp_cpa P\<lparr>cpa_nextFreeBlock := nx, cpa_numFreeBlocks := nf\<rparr>) qs" by (rule cpa_allocate_head)
  let ?w = "w\<lparr>cw_mem := cw_mem w, cw_cps := (cw_cps w)(cp \<mapsto> P\<lparr>cp_cpa := cp_cpa P\<lparr>cpa_nextFreeBlock := nx, cpa_numFreeBlocks := nf\<rparr>\<rparr>)\<rparr>"
  have "alloc_cl cp w = Some (?w, clInit (q - cpa_buf A) (cpa_blockSize A))"
    using P a by (simp add: alloc_cl_def with_cpa_def)
  moreover have "pools cp B A ?w ps qs" using P a unfolding pools_def by auto
  ultimately show ?thesis using that by simp
qed

lemma alloc_cl_empty:
  assumes "pools cp B A w ps []"
  shows "alloc_cl cp w = Some (w, clInit (- 1) (cpa_blockSize A))"
proof -
  from assms obtain P where P: "cw_cps w cp = Some P" "cpa_inv (cw_mem w, cp_cpa P) []"
    "cpa_blockSize (cp_cpa P) = cpa_blockSize A" by (rule poolsE) blast
  then have "(cw_cps w)(cp \<mapsto> P) = cw_cps w" by auto
  then show ?thesis using P cpa_allocate_none [OF P(2)] by (simp add: alloc_cl_def with_cpa_def)
qed

lemma alloc_object:
  assumes "pools cp B A w (p # ps) qs"
  obtains w' where "with_pa cp poolAllocate w = Some (w', p)" "pools cp B A w' ps qs"
    "cw_mem w' = cw_mem w" "cw_cbs w' = cw_cbs w" "p \<noteq> NULL" "p \<in> set B" "p \<notin> set ps"
proof -
  from assms obtain P where P: "cw_cps w cp = Some P" "pool_blocks (cp_pa P) = B" "geo (cp_cpa P) = A"
    "pool_inv (cw_mem w, cp_pa P) (p # ps)" "cpa_inv (cw_mem w, cp_cpa P) qs"
    "\<And>a q. a \<in> set B \<Longrightarrow> q \<in> set (cpa_blocks A) \<Longrightarrow> apart a q" "set B \<subseteq> dom (cw_cbs w)" by (rule poolsE) blast
  from P(4) obtain nx where a: "poolAllocate (cw_mem w, cp_pa P) = Some ((cw_mem w, cp_pa P\<lparr>pa_nextFreeBlock := nx\<rparr>), p)"
    "pool_inv (cw_mem w, cp_pa P\<lparr>pa_nextFreeBlock := nx\<rparr>) ps" "p \<noteq> NULL" by (rule poolAllocate_head)
  let ?w = "w\<lparr>cw_mem := cw_mem w, cw_cps := (cw_cps w)(cp \<mapsto> P\<lparr>cp_pa := cp_pa P\<lparr>pa_nextFreeBlock := nx\<rparr>\<rparr>)\<rparr>"
  have "with_pa cp poolAllocate w = Some (?w, p)" using P a by (simp add: with_pa_def)
  moreover have "pools cp B A ?w ps qs" using P a unfolding pools_def by (auto simp: pool_blocks_def)
  moreover have "p \<in> set B" "p \<notin> set ps" using P(2,4) by (auto simp: pool_inv.simps)
  ultimately show ?thesis using that a(3) by simp
qed

lemma alloc_object_empty:
  assumes "pools cp B A w [] qs"
  shows "with_pa cp poolAllocate w = Some (w, NULL)"
proof -
  from assms obtain P where P: "cw_cps w cp = Some P" "pool_inv (cw_mem w, cp_pa P) []" by (rule poolsE) blast
  then have "(cw_cps w)(cp \<mapsto> P) = cw_cps w" by auto
  then show ?thesis using P poolAllocate_empty [OF P(2)] by (simp add: with_pa_def)
qed

text \<open>Writing the first word of an object that is not free, and the record of any object.\<close>

lemma pools_store:
  assumes "pools cp B A w ps qs" "p \<in> set B" "p \<notin> set ps" "store32 (cw_mem w) p v = Some m'"
  shows "pools cp B A (w\<lparr>cw_mem := m'\<rparr>) ps qs"
proof -
  from assms(1) obtain P where P: "cw_cps w cp = Some P" "pool_blocks (cp_pa P) = B" "geo (cp_cpa P) = A"
    "pool_inv (cw_mem w, cp_pa P) ps" "cpa_inv (cw_mem w, cp_cpa P) qs"
    "\<And>a q. a \<in> set B \<Longrightarrow> q \<in> set (cpa_blocks A) \<Longrightarrow> apart a q" "set B \<subseteq> dom (cw_cbs w)"
    "set ps \<subseteq> set B" "set qs \<subseteq> set (cpa_blocks A)" by (rule poolsE) blast
  have agree: "agree_off (extent p 4) (cw_mem w) m'" using agree_store32 [OF agree_refl assms(4)] by simp
  have "extent a 4 \<inter> extent p 4 = {}" if "a \<in> set ps" for a
  proof -
    have "a \<noteq> p" "a \<in> set B" using that P(8) assms(3) by auto
    then have "apart a p" using P(2,4) assms(2) by (intro blocks_apart [of "cw_mem w"]) (auto simp: pool_inv.simps pool_blocks_def)
    then show ?thesis by (simp add: apart_def)
  qed
  then have "pool_inv (m', cp_pa P) ps" using agree_pool [OF agree P(4)] by blast
  moreover have "extent q 4 \<inter> extent p 4 = {}" if "q \<in> set qs" for q
    using that P(6) [OF assms(2), of q] P(9) by (auto simp: apart_def)
  then have "cpa_inv (m', cp_cpa P) qs" using cpa_inv_agree [OF agree P(5)] by blast
  ultimately show ?thesis using P unfolding pools_def by simp
qed

lemma pools_cbs: "pools cp B A w ps qs \<Longrightarrow> dom (cw_cbs w) \<subseteq> dom cbs \<Longrightarrow> pools cp B A (w\<lparr>cw_cbs := cbs\<rparr>) ps qs"
  unfolding pools_def by fastforce

lemma pools_object: "pools cp B A w ps qs \<Longrightarrow> p \<in> set B \<Longrightarrow> \<exists>b. cw_cbs w p = Some b"
  unfolding pools_def by blast

lemma pools_cell:
  assumes "pools cp B A w ps qs" "p \<in> set B"
  obtains m' where "store32 (cw_mem w) p v = Some m'"
proof -
  from assms(1) obtain P where "cw_cps w cp = Some P" "pool_blocks (cp_pa P) = B" "pool_inv (cw_mem w, cp_pa P) ps"
    by (rule poolsE) blast
  then have "block_area (cw_mem w) (pa_buf (cp_pa P)) (pa_blockSize (cp_pa P)) (unat (pa_size (cp_pa P)) div unat (pa_blockSize (cp_pa P)))"
    "p \<in> set (blocks (pa_buf (cp_pa P)) (pa_blockSize (cp_pa P)) (unat (pa_size (cp_pa P)) div unat (pa_blockSize (cp_pa P))))"
    using assms(2) by (simp_all add: pool_inv.simps pool_blocks_def)
  from block_store [OF this] show ?thesis using that by blast
qed

lemma list_offset:
  assumes "pools cp B A w ps qs" "q \<in> set qs"
  shows "q - cpa_buf A \<noteq> - 1"
    and "\<exists>i. q - cpa_buf A = of_nat (i * unat (cpa_blockSize A)) \<and> q = block_at (cpa_buf A) (cpa_blockSize A) i \<and>
      i < unat (cpa_size A) div unat (cpa_blockSize A) \<and> unat (q - cpa_buf A) = i * unat (cpa_blockSize A)"
proof -
  from assms(1) obtain P where "cw_cps w cp = Some P" and P: "geo (cp_cpa P) = A" "cpa_inv (cw_mem w, cp_cpa P) qs"
    "set qs \<subseteq> set (cpa_blocks A)" by (rule poolsE) blast
  have area: "block_area (cw_mem w) (cpa_buf A) (cpa_blockSize A) (unat (cpa_size A) div unat (cpa_blockSize A))"
    using cpa_invD(1) [OF P(2)] P(1) by auto
  from assms(2) P(3) obtain i where i: "i < unat (cpa_size A) div unat (cpa_blockSize A)"
    "q = block_at (cpa_buf A) (cpa_blockSize A) i" by (auto simp: cpa_blocks_def set_blocks)
  have o: "q - cpa_buf A = of_nat (i * unat (cpa_blockSize A))" by (simp only: i(2) block_at_def add_diff_cancel_left')
  show "q - cpa_buf A \<noteq> - 1" unfolding o by (rule offset_not_error [OF area i(1)])
  have "unat (q - cpa_buf A) = i * unat (cpa_blockSize A)" using unat_block_at [OF area, of i] i o
    mult_lt_bound [OF i(1), of "unat (cpa_blockSize A)"] area unfolding o block_area_def
    by (subst unat_of_nat_u32) linarith+
  then show "\<exists>i. q - cpa_buf A = of_nat (i * unat (cpa_blockSize A)) \<and> q = block_at (cpa_buf A) (cpa_blockSize A) i \<and>
      i < unat (cpa_size A) div unat (cpa_blockSize A) \<and> unat (q - cpa_buf A) = i * unat (cpa_blockSize A)"
    using i o by blast
qed

subsection \<open>Allocating one command buffer\<close>

definition cb_lists :: "commandBuffer \<Rightarrow> ControlList list" where
  "cb_lists b = [cb_binCl b, cb_handlesCl b, cb_shaderRecCl b, cb_uniformsCl b, cb_uniformRelocCl b,
     cb_gemRelocCl b, cb_shaderRecRelocCl b]"

text \<open>A command buffer as it is handed out, with its lists on the blocks \<open>rs\<close>.\<close>

definition fresh_cmdbuf ::
  "addr \<Rightarrow> VkCommandBufferLevel \<Rightarrow> addr \<Rightarrow> ConsecutivePoolAllocator \<Rightarrow> addr list \<Rightarrow> commandBuffer \<Rightarrow> bool" where
  "fresh_cmdbuf device level cp A rs b \<longleftrightarrow> cb_dev b = device \<and> cb_level b = level \<and> cb_cp b = cp \<and>
     cb_state b = CMDBUF_STATE_INITIAL \<and> cb_usageFlags b = 0 \<and> cb_shaderRecCount b = 0 \<and> cleared b = b \<and>
     cb_lists b = map (\<lambda>q. clInit (q - cpa_buf A) (cpa_blockSize A)) rs"

lemma minus_1_u32: "(- 1 :: u32) = U32_MAX"
  by simp

lemma length_7: "7 \<le> length qs \<Longrightarrow> \<exists>a b c d e f g rest. qs = a # b # c # d # e # f # g # rest"
  by (auto simp: numeral_eq_Suc Suc_le_length_iff)

lemma clInit_sel [simp]: "cl_offset (clInit off bs) = off" "cl_numBlocks (clInit off bs) = 1"
  by (simp_all add: clInit_def)

text \<open>The offset that the next allocation of a list gets when \<open>k\<close> of the blocks \<open>qs\<close> are taken.\<close>

definition slot :: "ConsecutivePoolAllocator \<Rightarrow> addr list \<Rightarrow> nat \<Rightarrow> u32" where
  "slot A qs k = (if k < length qs then qs ! k - cpa_buf A else - 1)"

lemma alloc_cl_slot:
  assumes "pools cp B A w ps (drop k qs)"
  obtains w' where "alloc_cl cp w = Some (w', clInit (slot A qs k) (cpa_blockSize A))"
    "pools cp B A w' ps (drop (Suc k) qs)" "cw_mem w' = cw_mem w" "cw_cbs w' = cw_cbs w"
proof (cases "k < length qs")
  case True
  then have "drop k qs = qs ! k # drop (Suc k) qs" by (rule Cons_nth_drop_Suc [symmetric])
  with assms have "pools cp B A w ps (qs ! k # drop (Suc k) qs)" by simp
  then show ?thesis using that True by (elim alloc_cl_spec) (simp add: slot_def)
next
  case False
  then show ?thesis using that [of w] alloc_cl_empty [of cp B A w ps] assms by (simp add: slot_def)
qed

lemma alloc_cmdbuf_any:
  assumes "pools cp B A w (p # ps) qs"
  obtains w' b where "alloc_cmdbuf device level cp w =
      Some (w', p, if 7 \<le> length qs then VK_SUCCESS else VK_ERROR_OUT_OF_HOST_MEMORY)"
    "pools cp B A w' ps (drop 7 qs)" "dom (cw_mem w') = dom (cw_mem w)"
    "cw_cbs w' = (cw_cbs w)(p \<mapsto> init_cmdbuf device level cp
      (clInit (slot A qs 0) (cpa_blockSize A)) (clInit (slot A qs 1) (cpa_blockSize A)) (clInit (slot A qs 2) (cpa_blockSize A))
      (clInit (slot A qs 3) (cpa_blockSize A)) (clInit (slot A qs 4) (cpa_blockSize A)) (clInit (slot A qs 5) (cpa_blockSize A))
      (clInit (slot A qs 6) (cpa_blockSize A)) b)"
proof -
  let ?cl = "\<lambda>k. clInit (slot A qs k) (cpa_blockSize A)"
  obtain w0 where w0: "with_pa cp poolAllocate w = Some (w0, p)" "pools cp B A w0 ps qs"
    "cw_mem w0 = cw_mem w" "cw_cbs w0 = cw_cbs w" "p \<noteq> NULL" "p \<in> set B" "p \<notin> set ps" by (rule alloc_object [OF assms(1)])
  obtain m' where m': "store32 (cw_mem w0) p ICD_LOADER_MAGIC = Some m'" by (rule pools_cell [OF w0(2,6)])
  obtain b0 where b0: "cw_cbs w p = Some b0" using pools_object [OF w0(2,6)] w0(4) by auto
  have s: "pools cp B A (w0\<lparr>cw_mem := m'\<rparr>) ps (drop 0 qs)" using pools_store [OF w0(2,6,7) m'] by simp
  obtain w1 where w1: "alloc_cl cp (w0\<lparr>cw_mem := m'\<rparr>) = Some (w1, ?cl 0)" "pools cp B A w1 ps (drop 1 qs)"
    "cw_mem w1 = m'" "cw_cbs w1 = cw_cbs w" by (rule alloc_cl_slot [OF s]) (simp add: w0(4))
  obtain w2 where w2: "alloc_cl cp w1 = Some (w2, ?cl 1)" "pools cp B A w2 ps (drop 2 qs)"
    "cw_mem w2 = m'" "cw_cbs w2 = cw_cbs w" by (rule alloc_cl_slot [OF w1(2)]) (simp add: w1 numeral_2_eq_2)
  obtain w3 where w3: "alloc_cl cp w2 = Some (w3, ?cl 2)" "pools cp B A w3 ps (drop 3 qs)"
    "cw_mem w3 = m'" "cw_cbs w3 = cw_cbs w" by (rule alloc_cl_slot [OF w2(2)]) (simp add: w2)
  obtain w4 where w4: "alloc_cl cp w3 = Some (w4, ?cl 3)" "pools cp B A w4 ps (drop 4 qs)"
    "cw_mem w4 = m'" "cw_cbs w4 = cw_cbs w" by (rule alloc_cl_slot [OF w3(2)]) (simp add: w3)
  obtain w5 where w5: "alloc_cl cp w4 = Some (w5, ?cl 4)" "pools cp B A w5 ps (drop 5 qs)"
    "cw_mem w5 = m'" "cw_cbs w5 = cw_cbs w" by (rule alloc_cl_slot [OF w4(2)]) (simp add: w4)
  obtain w6 where w6: "alloc_cl cp w5 = Some (w6, ?cl 5)" "pools cp B A w6 ps (drop 6 qs)"
    "cw_mem w6 = m'" "cw_cbs w6 = cw_cbs w" by (rule alloc_cl_slot [OF w5(2)]) (simp add: w5)
  obtain w7 where w7: "alloc_cl cp w6 = Some (w7, ?cl 6)" "pools cp B A w7 ps (drop 7 qs)"
    "cw_mem w7 = m'" "cw_cbs w7 = cw_cbs w" by (rule alloc_cl_slot [OF w6(2)]) (simp add: w6)
  let ?cbs = "(cw_cbs w)(p \<mapsto> init_cmdbuf device level cp (?cl 0) (?cl 1) (?cl 2) (?cl 3) (?cl 4) (?cl 5) (?cl 6) b0)"
  have ok: "U32_MAX \<in> set (map cl_offset [?cl 0, ?cl 1, ?cl 2, ?cl 3, ?cl 4, ?cl 5, ?cl 6]) \<longleftrightarrow> \<not> 7 \<le> length qs"
  proof -
    have n: "slot A qs k \<noteq> U32_MAX" if "7 \<le> length qs" "k < 7" for k
      using list_offset(1) [OF w0(2), of "qs ! k"] that unfolding minus_1_u32 slot_def by simp
    have e: "slot A qs 6 = U32_MAX" if "\<not> 7 \<le> length qs" using that unfolding slot_def minus_1_u32 by simp
    show ?thesis
    proof (cases "7 \<le> length qs")
      case True
      then show ?thesis using n [OF True, of 0] n [OF True, of 1] n [OF True, of 2] n [OF True, of 3]
        n [OF True, of 4] n [OF True, of 5] n [OF True, of 6] by simp
    next
      case False
      then show ?thesis using e by simp
    qed
  qed
  have "alloc_cmdbuf device level cp w =
      Some (w7\<lparr>cw_cbs := ?cbs\<rparr>, p, if 7 \<le> length qs then VK_SUCCESS else VK_ERROR_OUT_OF_HOST_MEMORY)"
    unfolding alloc_cmdbuf_def using w0(1,4,5) b0 m' ok
    by (simp add: w1(1) w2(1) w3(1) w4(1) w5(1) w6(1) w7(1,4) Let_def del: list.map set_simps)
  moreover have "pools cp B A (w7\<lparr>cw_cbs := ?cbs\<rparr>) ps (drop 7 qs)" using pools_cbs [OF w7(2), of ?cbs] w7(4) by auto
  moreover have "dom (cw_mem (w7\<lparr>cw_cbs := ?cbs\<rparr>)) = dom (cw_mem w)" using w7(3) store32_dom [OF m'] w0(3) by simp
  ultimately show ?thesis using that [of "w7\<lparr>cw_cbs := ?cbs\<rparr>" b0] by simp
qed

lemma alloc_cmdbuf_spec:
  assumes "pools cp B A w (p # ps) qs" "7 \<le> length qs"
  obtains w' b where "alloc_cmdbuf device level cp w = Some (w', p, VK_SUCCESS)" "pools cp B A w' ps (drop 7 qs)"
    "cw_cbs w' = (cw_cbs w)(p \<mapsto> b)" "fresh_cmdbuf device level cp A (take 7 qs) b"
proof -
  from length_7 [OF assms(2)] obtain a b c d e f g rest where qs: "qs = a # b # c # d # e # f # g # rest" by blast
  from assms(1) show ?thesis
  proof (rule alloc_cmdbuf_any)
    fix w' b0
    let ?b = "init_cmdbuf device level cp (clInit (slot A qs 0) (cpa_blockSize A)) (clInit (slot A qs 1) (cpa_blockSize A))
      (clInit (slot A qs 2) (cpa_blockSize A)) (clInit (slot A qs 3) (cpa_blockSize A)) (clInit (slot A qs 4) (cpa_blockSize A))
      (clInit (slot A qs 5) (cpa_blockSize A)) (clInit (slot A qs 6) (cpa_blockSize A)) b0"
    assume "alloc_cmdbuf device level cp w = Some (w', p, if 7 \<le> length qs then VK_SUCCESS else VK_ERROR_OUT_OF_HOST_MEMORY)"
      "pools cp B A w' ps (drop 7 qs)" "cw_cbs w' = (cw_cbs w)(p \<mapsto> ?b)"
    moreover have "fresh_cmdbuf device level cp A (take 7 qs) ?b"
      by (simp add: fresh_cmdbuf_def init_cmdbuf_def cb_lists_def cleared_def qs slot_def)
    ultimately show ?thesis using that [of w' ?b] assms(2) by simp
  qed
qed

subsection \<open>The blocks are divided between the free lists and the command buffers\<close>

text \<open>The blocks of a control list, and where it lies.\<close>

definition cl_blocks :: "ConsecutivePoolAllocator \<Rightarrow> ControlList \<Rightarrow> addr list" where
  "cl_blocks A cl = run_of A (unat (cl_offset cl) div unat (cpa_blockSize A)) (unat (cl_numBlocks cl))"

definition cl_placed :: "ConsecutivePoolAllocator \<Rightarrow> ControlList \<Rightarrow> bool" where
  "cl_placed A cl \<longleftrightarrow> (\<exists>i n. cl_offset cl = of_nat (i * unat (cpa_blockSize A)) \<and> cl_numBlocks cl = of_nat n \<and>
     0 < n \<and> i + n \<le> unat (cpa_size A) div unat (cpa_blockSize A))"

definition held :: "ConsecutivePoolAllocator \<Rightarrow> cmd_world \<Rightarrow> addr \<Rightarrow> addr list" where
  "held A w p = (case cw_cbs w p of None \<Rightarrow> [] | Some b \<Rightarrow> concat (map (cl_blocks A) (cb_lists b)))"

definition held_all :: "ConsecutivePoolAllocator \<Rightarrow> cmd_world \<Rightarrow> addr multiset \<Rightarrow> addr multiset" where
  "held_all A w live = sum_mset (image_mset (\<lambda>p. mset (held A w p)) live)"

text \<open>
  The invariant of a pool with the live command buffers \<open>live\<close> and the free blocks \<open>ps\<close> and \<open>qs\<close>:
  every block of the two allocators is free or belongs to exactly one live command buffer.
\<close>

definition cmd_inv ::
  "addr \<Rightarrow> addr list \<Rightarrow> ConsecutivePoolAllocator \<Rightarrow> cmd_world \<Rightarrow> addr multiset \<Rightarrow> addr list \<Rightarrow> addr list \<Rightarrow> bool" where
  "cmd_inv cp B A w live ps qs \<longleftrightarrow> pools cp B A w ps qs \<and> mset B = mset ps + live \<and>
     mset (cpa_blocks A) = mset qs + held_all A w live \<and>
     (\<forall>p\<in>#live. \<exists>b. cw_cbs w p = Some b \<and> (\<forall>cl\<in>set (cb_lists b). cl_placed A cl))"

lemma pools_distinct:
  assumes "pools cp B A w ps qs"
  shows "distinct B" "distinct (cpa_blocks A)" "distinct ps" "NULL \<notin> set B"
    "block_area (cw_mem w) (cpa_buf A) (cpa_blockSize A) (unat (cpa_size A) div unat (cpa_blockSize A))"
proof -
  from assms obtain P where "cw_cps w cp = Some P" and P: "pool_blocks (cp_pa P) = B" "geo (cp_cpa P) = A"
    "pool_inv (cw_mem w, cp_pa P) ps" "cpa_inv (cw_mem w, cp_cpa P) qs" by (rule poolsE) blast
  show area: "block_area (cw_mem w) (cpa_buf A) (cpa_blockSize A) (unat (cpa_size A) div unat (cpa_blockSize A))"
    using cpa_invD(1) [OF P(4)] P(2) by auto
  show "distinct (cpa_blocks A)" unfolding cpa_blocks_def by (rule distinct_blocks [OF area])
  have pa: "block_area (cw_mem w) (pa_buf (cp_pa P)) (pa_blockSize (cp_pa P)) (unat (pa_size (cp_pa P)) div unat (pa_blockSize (cp_pa P)))"
    using P(3) by (simp add: pool_inv.simps)
  show "distinct B" using distinct_blocks [OF pa] P(1) by (simp add: pool_blocks_def)
  show "NULL \<notin> set B" using block_nonnull [OF pa] P(1) by (auto simp: pool_blocks_def)
  show "distinct ps" using P(3) by (simp add: pool_inv.simps)
qed

lemma fresh_held:
  assumes "pools cp B A w ps qs" "set rs \<subseteq> set (cpa_blocks A)" "fresh_cmdbuf device level cp A rs b"
  shows "concat (map (cl_blocks A) (cb_lists b)) = rs" "\<forall>cl\<in>set (cb_lists b). cl_placed A cl"
proof -
  note area = pools_distinct(5) [OF assms(1)]
  have q: "cl_blocks A (clInit (q - cpa_buf A) (cpa_blockSize A)) = [q] \<and> cl_placed A (clInit (q - cpa_buf A) (cpa_blockSize A))"
    if "q \<in> set (cpa_blocks A)" for q
  proof -
    from that obtain i where i: "i < unat (cpa_size A) div unat (cpa_blockSize A)"
      "q = block_at (cpa_buf A) (cpa_blockSize A) i" by (auto simp: cpa_blocks_def set_blocks)
    have off: "q - cpa_buf A = of_nat (i * unat (cpa_blockSize A))" by (simp only: i(2) block_at_def add_diff_cancel_left')
    have "unat (of_nat (i * unat (cpa_blockSize A)) :: u32) = i * unat (cpa_blockSize A)"
      using mult_lt_bound [OF i(1), of "unat (cpa_blockSize A)"] area unfolding block_area_def
      by (intro unat_of_nat_u32) linarith
    moreover have "0 < unat (cpa_blockSize A)" using block_area_pos [OF area] by simp
    ultimately have "cl_blocks A (clInit (q - cpa_buf A) (cpa_blockSize A)) = run_of A i 1"
      unfolding off by (simp add: cl_blocks_def clInit_def)
    then have "cl_blocks A (clInit (q - cpa_buf A) (cpa_blockSize A)) = [q]" by (simp add: run_of_def i(2))
    moreover have "cl_placed A (clInit (q - cpa_buf A) (cpa_blockSize A))" unfolding cl_placed_def off
      using i(1) by (intro exI [of _ i] exI [of _ 1]) (simp add: clInit_def)
    ultimately show ?thesis by blast
  qed
  have l: "cb_lists b = map (\<lambda>q. clInit (q - cpa_buf A) (cpa_blockSize A)) rs" using assms(3) by (simp add: fresh_cmdbuf_def)
  have "map (cl_blocks A) (cb_lists b) = map (\<lambda>q. [q]) rs" unfolding l using q assms(2) by auto
  then show "concat (map (cl_blocks A) (cb_lists b)) = rs" by simp
  show "\<forall>cl\<in>set (cb_lists b). cl_placed A cl" unfolding l using q assms(2) by auto
qed

lemma held_all_cong: "(\<And>p. p \<in># live \<Longrightarrow> cw_cbs w' p = cw_cbs w p) \<Longrightarrow> held_all A w' live = held_all A w live"
  unfolding held_all_def by (intro arg_cong [where f = sum_mset] image_mset_cong) (simp add: held_def)

lemma alloc_cmdbuf_inv:
  assumes "cmd_inv cp B A w live (p # ps) qs" "7 \<le> length qs"
  obtains w' b where "alloc_cmdbuf device level cp w = Some (w', p, VK_SUCCESS)"
    "cmd_inv cp B A w' (add_mset p live) ps (drop 7 qs)"
    "cw_cbs w' = (cw_cbs w)(p \<mapsto> b)" "fresh_cmdbuf device level cp A (take 7 qs) b"
proof -
  note inv = assms(1) [unfolded cmd_inv_def]
  obtain w' b where a: "alloc_cmdbuf device level cp w = Some (w', p, VK_SUCCESS)" "pools cp B A w' ps (drop 7 qs)"
    "cw_cbs w' = (cw_cbs w)(p \<mapsto> b)" "fresh_cmdbuf device level cp A (take 7 qs) b"
    using inv assms(2) alloc_cmdbuf_spec by blast
  have "mset qs \<subseteq># mset (cpa_blocks A)" using inv by simp
  then have "set qs \<subseteq> set (cpa_blocks A)" by (metis set_mset_mono set_mset_mset)
  then have sub: "set (take 7 qs) \<subseteq> set (cpa_blocks A)" by (meson set_take_subset subset_trans)
  note f = fresh_held [OF a(2) sub a(4)]
  have "p \<notin># live"
  proof
    assume "p \<in># live"
    then have "0 < count live p" by simp
    moreover have "count (mset B) p = Suc (count (mset ps) p + count live p)" using inv by simp
    moreover have "count (mset B) p \<le> 1" using pools_distinct(1) [OF a(2)] unfolding distinct_count_atmost_1 by auto
    ultimately show False by linarith
  qed
  then have "held_all A w' live = held_all A w live" using a(3) by (intro held_all_cong) auto
  moreover have "held A w' p = take 7 qs" using f(1) a(3) by (simp add: held_def)
  ultimately have h: "held_all A w' (add_mset p live) = mset (take 7 qs) + held_all A w live" by (simp add: held_all_def)
  have "mset qs = mset (take 7 qs) + mset (drop 7 qs)" by (metis append_take_drop_id mset_append)
  then have "mset (cpa_blocks A) = mset (drop 7 qs) + held_all A w' (add_mset p live)" using inv h by (simp add: ac_simps)
  moreover have "\<forall>r\<in>#add_mset p live. \<exists>b. cw_cbs w' r = Some b \<and> (\<forall>cl\<in>set (cb_lists b). cl_placed A cl)"
    using inv f(2) a(3) \<open>p \<notin># live\<close> by auto
  ultimately have "cmd_inv cp B A w' (add_mset p live) ps (drop 7 qs)" using inv a(2) by (simp add: cmd_inv_def)
  then show ?thesis using that a by blast
qed

lemma alloc_loop_spec:
  assumes "cmd_inv cp B A w live ps qs" "n \<le> length ps" "7 * n \<le> length qs" "c + n \<le> length out"
  shows "\<exists>w'. alloc_loop device level cp c n (w, out) = Some ((w', take c out @ take n ps @ drop (c + n) out), VK_SUCCESS) \<and>
    cmd_inv cp B A w' (live + mset (take n ps)) (drop n ps) (drop (7 * n) qs) \<and>
    (\<forall>i<n. \<exists>b. cw_cbs w' (ps ! i) = Some b \<and> fresh_cmdbuf device level cp A (take 7 (drop (7 * i) qs)) b) \<and>
    (\<forall>p. p \<notin> set (take n ps) \<longrightarrow> cw_cbs w' p = cw_cbs w p)"
  using assms
proof (induction n arbitrary: c w live ps qs out)
  case (Suc n)
  then obtain p ps' where ps: "ps = p # ps'" by (cases ps) auto
  have "7 \<le> length qs" using Suc.prems(3) by simp
  with Suc.prems(1) [unfolded ps] obtain w1 b where a: "alloc_cmdbuf device level cp w = Some (w1, p, VK_SUCCESS)"
    "cmd_inv cp B A w1 (add_mset p live) ps' (drop 7 qs)"
    "cw_cbs w1 = (cw_cbs w)(p \<mapsto> b)" "fresh_cmdbuf device level cp A (take 7 qs) b" by (rule alloc_cmdbuf_inv)
  have "distinct ps" using Suc.prems(1) pools_distinct(3) unfolding cmd_inv_def by blast
  then have np: "p \<notin> set (take n ps')" using in_set_takeD ps by fastforce
  have le: "n \<le> length ps'" "7 * n \<le> length (drop 7 qs)" "Suc c + n \<le> length (out[c := p])" using Suc.prems by (auto simp: ps)
  from Suc.IH [OF a(2) le] obtain w' where IH:
    "alloc_loop device level cp (Suc c) n (w1, out[c := p]) =
      Some ((w', take (Suc c) (out[c := p]) @ take n ps' @ drop (Suc c + n) (out[c := p])), VK_SUCCESS)"
    "cmd_inv cp B A w' (add_mset p live + mset (take n ps')) (drop n ps') (drop (7 * n) (drop 7 qs))"
    "\<And>i. i < n \<Longrightarrow> \<exists>b. cw_cbs w' (ps' ! i) = Some b \<and> fresh_cmdbuf device level cp A (take 7 (drop (7 * i) (drop 7 qs))) b"
    "\<And>p. p \<notin> set (take n ps') \<Longrightarrow> cw_cbs w' p = cw_cbs w1 p" by blast
  have o: "take (Suc c) (out[c := p]) @ take n ps' @ drop (Suc c + n) (out[c := p]) = take c out @ take (Suc n) ps @ drop (c + Suc n) out"
    using Suc.prems(4) by (simp add: ps take_Suc_conv_app_nth)
  have "alloc_loop device level cp c (Suc n) (w, out) = Some ((w', take c out @ take (Suc n) ps @ drop (c + Suc n) out), VK_SUCCESS)"
    using a(1) IH(1) Suc.prems(4) unfolding o by simp
  moreover have "cmd_inv cp B A w' (live + mset (take (Suc n) ps)) (drop (Suc n) ps) (drop (7 * Suc n) qs)"
    using IH(2) by (simp add: ps add.commute)
  moreover have "\<exists>b. cw_cbs w' (ps ! i) = Some b \<and> fresh_cmdbuf device level cp A (take 7 (drop (7 * i) qs)) b" if "i < Suc n" for i
  proof (cases i)
    case 0
    then show ?thesis using IH(4) [OF np] a(3,4) by (simp add: ps)
  next
    case (Suc j)
    then show ?thesis using IH(3) [of j] that by (simp add: ps add.commute)
  qed
  moreover have "cw_cbs w' q = cw_cbs w q" if "q \<notin> set (take (Suc n) ps)" for q
    using that IH(4) [of q] a(3) by (simp add: ps)
  ultimately show ?case by blast
qed simp

subsection \<open>Giving command buffers back\<close>

lemma placed_run:
  assumes "pools cp B A w ps qs" "cl_placed A cl"
  obtains i n where "cl_offset cl = of_nat (i * unat (cpa_blockSize A))" "cl_numBlocks cl = of_nat n"
    "0 < n" "i + n \<le> unat (cpa_size A) div unat (cpa_blockSize A)" "cl_blocks A cl = run_of A i n"
proof -
  from assms(2) obtain i n where cl: "cl_offset cl = of_nat (i * unat (cpa_blockSize A))" "cl_numBlocks cl = of_nat n"
    "0 < n" "i + n \<le> unat (cpa_size A) div unat (cpa_blockSize A)" by (auto simp: cl_placed_def)
  note area = pools_distinct(5) [OF assms(1)]
  have "i * unat (cpa_blockSize A) \<le> unat (cpa_size A) div unat (cpa_blockSize A) * unat (cpa_blockSize A)"
    using cl(4) by (intro mult_le_mono1) linarith
  then have "unat (cl_offset cl) = i * unat (cpa_blockSize A)"
    using area unfolding cl(1) block_area_def by (intro unat_of_nat_u32) linarith
  moreover have "unat (cl_numBlocks cl) = n"
    using block_count_bound [OF area] cl(4) unfolding cl(2) by (intro unat_of_nat_u32) linarith
  ultimately have "cl_blocks A cl = run_of A i n" using block_area_pos [OF area] by (simp add: cl_blocks_def)
  then show ?thesis using that cl by blast
qed

lemma free_cl_spec:
  assumes "pools cp B A w ps qs" "cl_placed A cl" "set qs \<inter> set (cl_blocks A cl) = {}"
  obtains w' qs' where "free_cl cp cl w = Some w'" "pools cp B A w' ps qs'"
    "mset qs' = mset qs + mset (cl_blocks A cl)" "cw_cbs w' = cw_cbs w"
proof -
  from assms(1) obtain P where P: "cw_cps w cp = Some P" "pool_blocks (cp_pa P) = B" "geo (cp_cpa P) = A"
    "pool_inv (cw_mem w, cp_pa P) ps" "cpa_inv (cw_mem w, cp_cpa P) qs"
    "\<And>a q. a \<in> set B \<Longrightarrow> q \<in> set (cpa_blocks A) \<Longrightarrow> apart a q" "set B \<subseteq> dom (cw_cbs w)"
    "cpa_blockSize (cp_cpa P) = cpa_blockSize A" "cpa_buf (cp_cpa P) = cpa_buf A"
    "cpa_size (cp_cpa P) = cpa_size A" "set ps \<subseteq> set B" "set qs \<subseteq> set (cpa_blocks A)" by (rule poolsE) blast
  from assms(1,2) obtain i n where cl: "cl_offset cl = of_nat (i * unat (cpa_blockSize A))" "cl_numBlocks cl = of_nat n"
    "0 < n" "i + n \<le> unat (cpa_size A) div unat (cpa_blockSize A)" "cl_blocks A cl = run_of A i n" by (rule placed_run)
  have bl: "run_of (cp_cpa P) i n = cl_blocks A cl" using P(3) cl(5) by auto
  have n: "i + n \<le> unat (cpa_size (cp_cpa P)) div unat (cpa_blockSize (cp_cpa P))" using cl(4) P(8,10) by simp
  have dj: "set qs \<inter> set (run_of (cp_cpa P) i n) = {}" using assms(3) bl by simp
  have links: "cpa_links (cw_mem w, cp_cpa P) qs" using P(5) by (simp add: cpa_inv_def)
  from cpa_free_links [OF links cl(3) n refl dj] obtain m' nx where
    f: "consecutivePoolFree (cw_mem w, cp_cpa P) (block_at (cpa_buf A) (cpa_blockSize A) i) (of_nat n) =
      Some (m', cp_cpa P\<lparr>cpa_nextFreeBlock := nx, cpa_numFreeBlocks := cpa_numFreeBlocks (cp_cpa P) + of_nat n\<rparr>)"
    "dom m' = dom (cw_mem w)" "\<And>x. x \<notin> (\<Union>p\<in>set qs \<union> set (cl_blocks A cl). extent p 4) \<Longrightarrow> m' x = cw_mem w x"
    unfolding P(8,9) bl by blast
  let ?pa = "cp_cpa P\<lparr>cpa_nextFreeBlock := nx, cpa_numFreeBlocks := cpa_numFreeBlocks (cp_cpa P) + of_nat n\<rparr>"
  let ?w = "w\<lparr>cw_mem := m', cw_cps := (cw_cps w)(cp \<mapsto> P\<lparr>cp_cpa := ?pa\<rparr>)\<rparr>"
  obtain s' where "consecutivePoolFree (cw_mem w, cp_cpa P) (block_at (cpa_buf A) (cpa_blockSize A) i) (of_nat n) = Some s'"
    "cpa_inv s' (put_run (cpa_blockSize A) (cl_blocks A cl) qs)"
    using cpa_free_spec [OF P(5) cl(3), of i] n dj bl P(8,9) by auto
  then have inv: "cpa_inv (m', ?pa) (put_run (cpa_blockSize A) (cl_blocks A cl) qs)" using f(1) by simp
  have "free_cl cp cl w = Some ?w"
    using f(1) P(1,9) cl(1,2) by (simp add: free_cl_def with_cpa_def getCPAptrFromOffset_def block_at_def)
  moreover have "pools cp B A ?w ps (put_run (cpa_blockSize A) (cl_blocks A cl) qs)"
  proof -
    have agree: "agree_off (\<Union>p\<in>set qs \<union> set (cl_blocks A cl). extent p 4) (cw_mem w) m'"
      using f(2,3) by (simp add: agree_off_def)
    have "set (cl_blocks A cl) \<subseteq> set (cpa_blocks A)" unfolding cl(5) cpa_blocks_def by (rule run_of_blocks [OF cl(4)])
    then have "pool_inv (m', cp_pa P) ps" using P(6,11,12)
      by (intro agree_pool [OF agree P(4)]) (fastforce simp: apart_def)
    then show ?thesis using P(2,3,6,7) inv unfolding pools_def by auto
  qed
  moreover have "mset (put_run (cpa_blockSize A) (cl_blocks A cl) qs) = mset qs + mset (cl_blocks A cl)"
    by (rule put_run_cases [of qs "cpa_blockSize A" "cl_blocks A cl"]) simp_all
  ultimately show ?thesis using that by simp
qed

fun free_cls :: "addr \<Rightarrow> ControlList list \<Rightarrow> cmd_world \<Rightarrow> cmd_world option" where
  "free_cls cp [] w = Some w"
| "free_cls cp (cl # cls) w = do { w' \<leftarrow> free_cl cp cl w; free_cls cp cls w' }"

lemma release_cmdbuf_lists:
  "release_cmdbuf cp w p = do {
     b \<leftarrow> cw_cbs w p;
     w' \<leftarrow> free_cls cp (cb_lists b) w;
     (w', u) \<leftarrow> with_pa cp (\<lambda>s. do { s' \<leftarrow> poolFree s p; Some (s', ()) }) w';
     Some w' }"
  by (simp add: release_cmdbuf_def cb_lists_def)

lemma mset_disjoint:
  assumes "mset xs + mset ys \<subseteq># mset D" "distinct D"
  shows "set xs \<inter> set ys = {}"
proof -
  have "a \<notin> set ys" if "a \<in> set xs" for a
  proof
    assume "a \<in> set ys"
    then have "0 < count (mset xs) a" "0 < count (mset ys) a" using that by simp_all
    moreover have "count (mset xs + mset ys) a \<le> count (mset D) a" using assms(1) by (rule mset_subset_eq_count)
    moreover have "count (mset D) a \<le> 1" using assms(2) unfolding distinct_count_atmost_1 by auto
    ultimately show False unfolding count_union by linarith
  qed
  then show ?thesis by blast
qed

lemma free_cls_spec:
  assumes "pools cp B A w ps qs" "\<forall>cl\<in>set cls. cl_placed A cl"
    and "mset qs + mset (concat (map (cl_blocks A) cls)) \<subseteq># mset (cpa_blocks A)"
  obtains w' qs' where "free_cls cp cls w = Some w'" "pools cp B A w' ps qs'"
    "mset qs' = mset qs + mset (concat (map (cl_blocks A) cls))" "cw_cbs w' = cw_cbs w"
  using assms
proof (induction cls arbitrary: w qs thesis)
  case (Cons cl cls)
  have "mset qs + mset (cl_blocks A cl) \<subseteq># mset (cpa_blocks A)"
    using Cons.prems(4) by (auto intro: subset_mset.order_trans [rotated] simp: ac_simps)
  then have dj: "set qs \<inter> set (cl_blocks A cl) = {}" by (rule mset_disjoint) (rule pools_distinct(2) [OF Cons.prems(2)])
  have "cl_placed A cl" using Cons.prems(3) by simp
  from Cons.prems(2) this dj obtain w1 qs1 where f: "free_cl cp cl w = Some w1" "pools cp B A w1 ps qs1"
    "mset qs1 = mset qs + mset (cl_blocks A cl)" "cw_cbs w1 = cw_cbs w" by (rule free_cl_spec)
  have "\<forall>cl\<in>set cls. cl_placed A cl" "mset qs1 + mset (concat (map (cl_blocks A) cls)) \<subseteq># mset (cpa_blocks A)"
    using Cons.prems(3,4) f(3) by (simp_all add: ac_simps)
  from Cons.IH [OF _ f(2) this] obtain w' qs' where
    "free_cls cp cls w1 = Some w'" "pools cp B A w' ps qs'"
    "mset qs' = mset qs1 + mset (concat (map (cl_blocks A) cls))" "cw_cbs w' = cw_cbs w1" by blast
  then show ?case using Cons.prems(1) f by (simp add: ac_simps)
qed simp

lemma free_object:
  assumes "pools cp B A w ps qs" "p \<in> set B" "p \<notin> set ps"
  obtains w' where "with_pa cp (\<lambda>s. do { s' \<leftarrow> poolFree s p; Some (s', ()) }) w = Some (w', ())"
    "pools cp B A w' (p # ps) qs" "cw_cbs w' = cw_cbs w"
proof -
  from assms(1) obtain P where P: "cw_cps w cp = Some P" "pool_blocks (cp_pa P) = B" "geo (cp_cpa P) = A"
    "pool_inv (cw_mem w, cp_pa P) ps" "cpa_inv (cw_mem w, cp_cpa P) qs"
    "\<And>a q. a \<in> set B \<Longrightarrow> q \<in> set (cpa_blocks A) \<Longrightarrow> apart a q" "set B \<subseteq> dom (cw_cbs w)"
    "set qs \<subseteq> set (cpa_blocks A)" by (rule poolsE) blast
  have "p \<in> set (pool_blocks (cp_pa P))" using assms(2) P(2) by simp
  from poolFree_block [OF P(4) this assms(3)] obtain m' where
    f: "poolFree (cw_mem w, cp_pa P) p = Some (m', cp_pa P\<lparr>pa_nextFreeBlock := p\<rparr>)"
    "store32 (cw_mem w) p (pa_nextFreeBlock (cp_pa P)) = Some m'"
    "pool_inv (m', cp_pa P\<lparr>pa_nextFreeBlock := p\<rparr>) (p # ps)" .
  let ?w = "w\<lparr>cw_mem := m', cw_cps := (cw_cps w)(cp \<mapsto> P\<lparr>cp_pa := cp_pa P\<lparr>pa_nextFreeBlock := p\<rparr>\<rparr>)\<rparr>"
  have agree: "agree_off (extent p 4) (cw_mem w) m'" using agree_store32 [OF agree_refl f(2)] by simp
  have "extent q 4 \<inter> extent p 4 = {}" if "q \<in> set qs" for q
    using that P(6) [OF assms(2), of q] P(8) by (auto simp: apart_def)
  then have "cpa_inv (m', cp_cpa P) qs" by (rule cpa_inv_agree [OF agree P(5)])
  then have "pools cp B A ?w (p # ps) qs" using P f(3) unfolding pools_def by (auto simp: pool_blocks_def)
  moreover have "with_pa cp (\<lambda>s. do { s' \<leftarrow> poolFree s p; Some (s', ()) }) w = Some (?w, ())"
    using P(1) f(2) by (simp add: with_pa_def)
  ultimately show ?thesis using that by simp
qed

lemma held_all_add [simp]: "held_all A w (add_mset p live) = mset (held A w p) + held_all A w live"
  by (simp add: held_all_def)

lemma held_all_empty [simp]: "held_all A w {#} = {#}"
  by (simp add: held_all_def)

lemma release_cmdbuf_spec:
  assumes "cmd_inv cp B A w (add_mset p live) ps qs"
  obtains w' qs' where "release_cmdbuf cp w p = Some w'" "cmd_inv cp B A w' live (p # ps) qs'"
    "mset qs' = mset qs + mset (held A w p)" "cw_cbs w' = cw_cbs w"
proof -
  note inv = assms [unfolded cmd_inv_def]
  from inv obtain b where b: "cw_cbs w p = Some b" "\<forall>cl\<in>set (cb_lists b). cl_placed A cl" by auto
  then have h: "held A w p = concat (map (cl_blocks A) (cb_lists b))" by (simp add: held_def)
  have P: "pools cp B A w ps qs" using inv by blast
  have eq: "mset (cpa_blocks A) = mset qs + mset (concat (map (cl_blocks A) (cb_lists b))) + held_all A w live"
    using inv unfolding h [symmetric] by (simp add: ac_simps)
  then have "mset qs + mset (concat (map (cl_blocks A) (cb_lists b))) \<subseteq># mset (cpa_blocks A)" by simp
  from P b(2) this obtain w1 qs1 where w1: "free_cls cp (cb_lists b) w = Some w1" "pools cp B A w1 ps qs1"
    "mset qs1 = mset qs + mset (concat (map (cl_blocks A) (cb_lists b)))" "cw_cbs w1 = cw_cbs w" by (rule free_cls_spec)
  have "mset ps + mset [p] \<subseteq># mset B" using inv by simp
  then have "p \<notin> set ps" using mset_disjoint [OF _ pools_distinct(1) [OF P], of ps "[p]"] by auto
  moreover have "p \<in># mset B" using inv by simp
  then have "p \<in> set B" by simp
  ultimately obtain w2 where w2: "with_pa cp (\<lambda>s. do { s' \<leftarrow> poolFree s p; Some (s', ()) }) w1 = Some (w2, ())"
    "pools cp B A w2 (p # ps) qs1" "cw_cbs w2 = cw_cbs w1" using free_object [OF w1(2)] by blast
  have "release_cmdbuf cp w p = Some w2" using b(1) w1(1) w2(1) by (simp add: release_cmdbuf_lists)
  moreover have "held_all A w2 live = held_all A w live" using w1(4) w2(3) by (intro held_all_cong) simp
  then have "cmd_inv cp B A w2 live (p # ps) qs1"
    using inv eq w2(2,3) w1(3,4) by (simp add: cmd_inv_def)
  ultimately show ?thesis using that w1(3,4) w2(3) h by simp
qed

lemma release_all_spec:
  assumes "cmd_inv cp B A w (mset xs + rest) ps qs"
  obtains w' ps' qs' where "release_all cp w xs = Some w'" "cmd_inv cp B A w' rest ps' qs'"
    "mset ps' = mset ps + mset xs" "mset qs' = mset qs + held_all A w (mset xs)" "cw_cbs w' = cw_cbs w"
  using assms
proof (induction xs arbitrary: w ps qs thesis)
  case (Cons x xs)
  then have "cmd_inv cp B A w (add_mset x (mset xs + rest)) ps qs" by simp
  then obtain w1 qs1 where w1: "release_cmdbuf cp w x = Some w1" "cmd_inv cp B A w1 (mset xs + rest) (x # ps) qs1"
    "mset qs1 = mset qs + mset (held A w x)" "cw_cbs w1 = cw_cbs w" by (rule release_cmdbuf_spec)
  from Cons.IH [OF _ w1(2)] obtain w' ps' qs' where w': "release_all cp w1 xs = Some w'" "cmd_inv cp B A w' rest ps' qs'"
    "mset ps' = mset (x # ps) + mset xs" "mset qs' = mset qs1 + held_all A w1 (mset xs)" "cw_cbs w' = cw_cbs w1" by blast
  have "held_all A w1 (mset xs) = held_all A w (mset xs)" using w1(4) by (intro held_all_cong) simp
  then show ?case using Cons.prems(1) w' w1 by (simp add: ac_simps)
qed simp

subsection \<open>When the blocks run out\<close>

text \<open>A release keeps the memory mapped as it is; it is undefined when its address is not mapped.\<close>

lemma cpa_insert_dom:
  assumes "cpa_insert m bs p n f lp = Some r"
  shows "dom (fst r) = dom m"
  by (rule cpa_insert.raw_induct [where P = "\<lambda>m bs p n f lp r. dom (fst r) = dom m", OF _ assms])
    (auto simp: cpa_link_run_def split: if_splits elim!: bind_SomeE simp del: store_bytes.simps del: equalityI
        dest!: init_links_dom store32_dom)

lemma store32_unmapped: "p \<notin> dom m \<Longrightarrow> store32 m p v = None"
  using store32_defined [of m p v] by (cases "store32 m p v") (auto simp: extent_4)

lemma link_run_unmapped: "p \<notin> dom m \<Longrightarrow> cpa_link_run m bs p 1 tail = None"
  by (simp add: cpa_link_run_def store32_unmapped)

lemma cpa_insert_unmapped:
  assumes "cpa_insert m bs p 1 f lp = Some r" "p \<notin> dom m"
  shows "r = (m, f)"
proof -
  have "(1 :: u32) = 1 \<longrightarrow> p \<notin> dom m \<longrightarrow> r = (m, f)"
  proof (rule cpa_insert.raw_induct [where P = "\<lambda>m bs p n f lp r. n = 1 \<longrightarrow> p \<notin> dom m \<longrightarrow> r = (m, f)", OF _ assms(1)])
    fix ins :: "mem \<Rightarrow> u32 \<Rightarrow> addr \<Rightarrow> u32 \<Rightarrow> bool \<Rightarrow> addr \<Rightarrow> (mem \<times> bool) option" and m bs p n f lp r
    assume IH: "\<And>m bs p n f lp r. ins m bs p n f lp = Some r \<Longrightarrow> n = 1 \<longrightarrow> p \<notin> dom m \<longrightarrow> r = (m, f)"
    assume step: "(if lp = NULL then Some (m, f)
      else if lp + bs = p then do {
        tmp \<leftarrow> load32 m lp;
        m1 \<leftarrow> store32 m lp p;
        ptr \<leftarrow> load32 m1 lp;
        m2 \<leftarrow> cpa_link_run m1 bs ptr n tmp;
        next \<leftarrow> load32 m2 lp;
        ins m2 bs p n True next }
      else do {
        next \<leftarrow> load32 m lp;
        ins m bs p n f next }) = Some r"
    show "n = 1 \<longrightarrow> p \<notin> dom m \<longrightarrow> r = (m, f)"
    proof (intro impI)
      assume n: "n = 1" "p \<notin> dom m"
      consider "lp = NULL" | "lp \<noteq> NULL" "lp + bs = p" | "lp \<noteq> NULL" "lp + bs \<noteq> p" by blast
      then show "r = (m, f)"
      proof cases
        case 2
        with step obtain tmp m1 ptr where s: "store32 m lp p = Some m1" "load32 m1 lp = Some ptr"
          "cpa_link_run m1 bs ptr n tmp \<noteq> None" by (auto elim!: bind_SomeE)
        have "ptr = p" using load_store32_same [OF s(1)] s(2) by simp
        moreover have "p \<notin> dom m1" using store32_dom [OF s(1)] n(2) by simp
        ultimately show ?thesis using s(3) n(1) link_run_unmapped by simp
      next
        case 3
        with step obtain nx where "ins m bs p n f nx = Some r" by (auto elim!: bind_SomeE)
        from IH [OF this] n show ?thesis by blast
      qed (use step in simp)
    qed
  qed
  then show ?thesis using assms(2) by simp
qed

lemma consecutivePoolFree_unmapped:
  assumes "p \<notin> dom m"
  shows "consecutivePoolFree (m, pa) p 1 = None"
proof (rule ccontr)
  assume "consecutivePoolFree (m, pa) p 1 \<noteq> None"
  then show False using assms link_run_unmapped [OF assms]
    by (auto simp: consecutivePoolFree_def split: if_splits elim!: bind_SomeE dest!: cpa_insert_unmapped)
qed

lemma consecutivePoolFree_frame:
  "consecutivePoolFree (m, pa) p n = Some (m', pa') \<Longrightarrow> dom m' = dom m \<and> cpa_buf pa' = cpa_buf pa"
  by (auto simp: consecutivePoolFree_def cpa_link_run_def split: if_splits elim!: bind_SomeE simp del: store_bytes.simps
      del: equalityI dest!: init_links_dom store32_dom cpa_insert_dom)

text \<open>
  What every release keeps: the records, which bytes are mapped, and where the blocks of the lists
  begin.
\<close>

definition same_shape :: "addr \<Rightarrow> cmd_world \<Rightarrow> cmd_world \<Rightarrow> bool" where
  "same_shape cp w w' \<longleftrightarrow> cw_cbs w' = cw_cbs w \<and> dom (cw_mem w') = dom (cw_mem w) \<and>
     map_option (cpa_buf \<circ> cp_cpa) (cw_cps w' cp) = map_option (cpa_buf \<circ> cp_cpa) (cw_cps w cp)"

lemma same_shape_trans: "same_shape cp w w' \<Longrightarrow> same_shape cp w' w'' \<Longrightarrow> same_shape cp w w''"
  by (simp add: same_shape_def)

lemma free_cl_shape: "free_cl cp cl w = Some w' \<Longrightarrow> same_shape cp w w'"
  by (auto simp: free_cl_def with_cpa_def same_shape_def elim!: bind_SomeE dest!: consecutivePoolFree_frame simp del: domIff del: equalityI)

lemma free_cls_shape: "free_cls cp cls w = Some w' \<Longrightarrow> same_shape cp w w'"
proof (induction cls arbitrary: w)
  case (Cons cl cls)
  then show ?case by (auto elim!: bind_SomeE dest!: free_cl_shape intro: same_shape_trans)
qed (simp add: same_shape_def)

lemma release_cmdbuf_shape:
  assumes "release_cmdbuf cp w p = Some w'"
  shows "same_shape cp w w'" "\<exists>b. cw_cbs w p = Some b \<and> (\<exists>w1. free_cls cp (cb_lists b) w = Some w1)"
proof -
  from assms obtain b w1 u where r: "cw_cbs w p = Some b" "free_cls cp (cb_lists b) w = Some w1"
    "with_pa cp (\<lambda>s. do { s' \<leftarrow> poolFree s p; Some (s', ()) }) w1 = Some (w', u)"
    by (auto simp: release_cmdbuf_lists elim!: bind_SomeE)
  have "same_shape cp w1 w'" using r(3)
    by (auto simp: with_pa_def same_shape_def elim!: bind_SomeE simp del: store_bytes.simps del: equalityI dest!: store32_dom)
  then show "same_shape cp w w'" using free_cls_shape [OF r(2)] same_shape_trans by blast
  show "\<exists>b. cw_cbs w p = Some b \<and> (\<exists>w1. free_cls cp (cb_lists b) w = Some w1)" using r by blast
qed

text \<open>A list without a block, and what its release does.\<close>

definition cl_missing :: "ControlList \<Rightarrow> bool" where
  "cl_missing cl \<longleftrightarrow> cl_offset cl = - 1 \<and> cl_numBlocks cl = 1"

lemma free_cls_missing:
  assumes "cw_cps w cp = Some P" "cpa_buf (cp_cpa P) - 1 \<notin> dom (cw_mem w)" "cl \<in> set cls" "cl_missing cl"
  shows "free_cls cp cls w = None"
  using assms
proof (induction cls arbitrary: w P)
  case (Cons c cls)
  show ?case
  proof (cases "c = cl")
    case True
    then have "free_cl cp c w = None" using Cons.prems(1,2,4) consecutivePoolFree_unmapped
      by (simp add: free_cl_def with_cpa_def getCPAptrFromOffset_def cl_missing_def)
    then show ?thesis by simp
  next
    case False
    have "free_cls cp cls w' = None" if "free_cl cp c w = Some w'" for w'
    proof -
      from free_cl_shape [OF that] Cons.prems(1) obtain P' where "cw_cps w' cp = Some P'"
        "cpa_buf (cp_cpa P') = cpa_buf (cp_cpa P)" "dom (cw_mem w') = dom (cw_mem w)" by (auto simp: same_shape_def)
      then show ?thesis using Cons.IH [of w' P'] Cons.prems False by auto
    qed
    then show ?thesis by (cases "free_cl cp c w") auto
  qed
qed simp

lemma release_all_None:
  assumes "p \<in> set xs"
    and "cw_cbs w p = None \<or> (\<exists>P b cl. cw_cps w cp = Some P \<and> cpa_buf (cp_cpa P) - 1 \<notin> dom (cw_mem w) \<and>
      cw_cbs w p = Some b \<and> cl \<in> set (cb_lists b) \<and> cl_missing cl)"
  shows "release_all cp w xs = None"
  using assms
proof (induction xs arbitrary: w)
  case (Cons x xs)
  show ?case
  proof (cases "release_cmdbuf cp w x")
    case (Some w')
    note r = release_cmdbuf_shape [OF Some]
    have "x \<noteq> p"
    proof
      assume "x = p"
      then obtain b w1 where b: "cw_cbs w p = Some b" "free_cls cp (cb_lists b) w = Some w1" using r(2) by blast
      then show False using Cons.prems(2) free_cls_missing [of w cp] by fastforce
    qed
    then have "release_all cp w' xs = None"
      using Cons.prems r(1) by (intro Cons.IH) (auto simp: same_shape_def)
    then show ?thesis using Some by simp
  qed simp
qed simp

lemma alloc_loop_short:
  assumes "pools cp B A w ps qs" "length ps < n \<or> length qs < 7 * n" "c + n \<le> length out"
  obtains w' out' ps' qs' p where "alloc_loop device level cp c n (w, out) = Some ((w', out'), VK_ERROR_OUT_OF_HOST_MEMORY)"
    "pools cp B A w' ps' qs'" "length out' = length out" "p \<in> set (take (c + n) out')" "dom (cw_mem w') = dom (cw_mem w)"
    "p = NULL \<or> (\<exists>b cl. cw_cbs w' p = Some b \<and> cl \<in> set (cb_lists b) \<and> cl_missing cl)" "cw_cbs w' NULL = cw_cbs w NULL"
  using assms
proof (induction n arbitrary: c w ps qs out thesis)
  case (Suc n)
  have c: "c < length out" using Suc.prems(4) by simp
  have inx: "x \<in> set (take (c + Suc n) (out[c := x]))" for x
    using c by (auto simp: in_set_conv_nth intro!: exI [of _ c])
  show ?case
  proof (cases ps)
    case Nil
    then have "with_pa cp poolAllocate w = Some (w, NULL)" using Suc.prems(2) alloc_object_empty by blast
    then have "alloc_cmdbuf device level cp w = Some (w, NULL, VK_ERROR_OUT_OF_HOST_MEMORY)"
      by (simp add: alloc_cmdbuf_def)
    then show ?thesis using Suc.prems(1) [of w "out[c := NULL]" ps qs NULL] Suc.prems(2) c inx by simp
  next
    case (Cons p ps')
    with Suc.prems(2) have P: "pools cp B A w (p # ps') qs" by simp
    have pn: "p \<noteq> NULL" using alloc_object [OF P] by blast
    obtain w1 b where a: "alloc_cmdbuf device level cp w =
        Some (w1, p, if 7 \<le> length qs then VK_SUCCESS else VK_ERROR_OUT_OF_HOST_MEMORY)"
      "pools cp B A w1 ps' (drop 7 qs)" "dom (cw_mem w1) = dom (cw_mem w)" "cw_cbs w1 = (cw_cbs w)(p \<mapsto> b)"
      "7 \<le> length qs \<or> cl_missing (cb_shaderRecRelocCl b)"
      using alloc_cmdbuf_any [OF P, of device level thesis]
      by (auto simp: init_cmdbuf_def cleared_def cl_missing_def slot_def)
    show ?thesis
    proof (cases "7 \<le> length qs")
      case False
      have "cb_shaderRecRelocCl b \<in> set (cb_lists b)" by (simp add: cb_lists_def)
      then show ?thesis using Suc.prems(1) [of w1 "out[c := p]" ps' "drop 7 qs" p] a c inx False pn by auto
    next
      case True
      have short: "length ps' < n \<or> length (drop 7 qs) < 7 * n" using Suc.prems(3) Cons True by auto
      have len: "Suc c + n \<le> length (out[c := p])" using Suc.prems(4) by simp
      obtain w' out' ps2 qs2 r where IH: "alloc_loop device level cp (Suc c) n (w1, out[c := p]) =
          Some ((w', out'), VK_ERROR_OUT_OF_HOST_MEMORY)"
        "pools cp B A w' ps2 qs2" "length out' = length (out[c := p])" "r \<in> set (take (Suc c + n) out')"
        "dom (cw_mem w') = dom (cw_mem w1)"
        "r = NULL \<or> (\<exists>b cl. cw_cbs w' r = Some b \<and> cl \<in> set (cb_lists b) \<and> cl_missing cl)"
        "cw_cbs w' NULL = cw_cbs w1 NULL" using Suc.IH [OF _ a(2) short len] by blast
      then show ?thesis using Suc.prems(1) [of w' out' ps2 qs2 r] a c True pn by simp
    qed
  qed
qed simp

subsection \<open>What a command pool promises\<close>

text \<open>C24: As long as there is an object and seven list blocks for each of them, vkAllocateCommandBuffers
  succeeds and returns the first n free objects.  Each is initialised as a fresh command buffer whose
  seven lists are empty and lie, in order, in the next seven free blocks; no other command buffer
  changes, and every block of the pool is again free or in exactly one live command buffer.\<close>

theorem vkAllocateCommandBuffers_fresh:
  assumes "cmd_inv cp B A w live ps qs" "n \<le> length ps" "7 * n \<le> length qs" "n \<le> length out"
  shows "\<exists>w'. vkAllocateCommandBuffers device level cp n (w, out) = Some ((w', take n ps @ drop n out), VK_SUCCESS) \<and>
    cmd_inv cp B A w' (live + mset (take n ps)) (drop n ps) (drop (7 * n) qs) \<and>
    (\<forall>i<n. \<exists>b. cw_cbs w' (ps ! i) = Some b \<and> fresh_cmdbuf device level cp A (take 7 (drop (7 * i) qs)) b) \<and>
    (\<forall>p. p \<notin> set (take n ps) \<longrightarrow> cw_cbs w' p = cw_cbs w p)"
  using alloc_loop_spec [OF assms(1-3), of 0 out device level] assms(4) by (auto simp: vkAllocateCommandBuffers_def)

text \<open>C25: vkFreeCommandBuffers takes back live command buffers, passing over null entries: their objects
  and all the blocks their lists hold, however long the lists have grown, become free, the remaining
  command buffers are untouched, and the division of the blocks stays exact.\<close>

theorem vkFreeCommandBuffers_partition:
  assumes "cmd_inv cp B A w (mset (filter (\<lambda>p. p \<noteq> NULL) xs) + rest) ps qs"
  shows "\<exists>w' ps' qs'. vkFreeCommandBuffers cp xs w = Some w' \<and> cmd_inv cp B A w' rest ps' qs' \<and>
    mset ps' = mset ps + mset (filter (\<lambda>p. p \<noteq> NULL) xs) \<and>
    mset qs' = mset qs + held_all A w (mset (filter (\<lambda>p. p \<noteq> NULL) xs)) \<and> cw_cbs w' = cw_cbs w"
  using release_all_spec [OF assms] by (metis vkFreeCommandBuffers_def)

text \<open>C26: When the objects or the list blocks do not suffice, vkAllocateCommandBuffers does not report the
  lack of memory: the clean-up reads through the null pointer that stands for the missing object, or
  writes the link of a free block at the address in front of the pool; with these not mapped the call is
  undefined in every case.\<close>

theorem vkAllocateCommandBuffers_exhausted:
  assumes "cmd_inv cp B A w live ps qs" "length ps < n \<or> length qs < 7 * n" "n \<le> length out"
    and "cw_cbs w NULL = None" "cpa_buf A - 1 \<notin> dom (cw_mem w)"
  shows "vkAllocateCommandBuffers device level cp n (w, out) = None"
proof -
  have P: "pools cp B A w ps qs" using assms(1) by (simp add: cmd_inv_def)
  have "0 + n \<le> length out" using assms(3) by simp
  from P assms(2) this obtain w' out' ps' qs' p where r:
    "alloc_loop device level cp 0 n (w, out) = Some ((w', out'), VK_ERROR_OUT_OF_HOST_MEMORY)"
    "pools cp B A w' ps' qs'" "length out' = length out" "p \<in> set (take (0 + n) out')" "dom (cw_mem w') = dom (cw_mem w)"
    "p = NULL \<or> (\<exists>b cl. cw_cbs w' p = Some b \<and> cl \<in> set (cb_lists b) \<and> cl_missing cl)" "cw_cbs w' NULL = cw_cbs w NULL"
    by (rule alloc_loop_short)
  from r(2) obtain Q where "cw_cps w' cp = Some Q" "cpa_buf (cp_cpa Q) = cpa_buf A" by (rule poolsE) blast
  then have "release_all cp w' (take n out') = None"
    using r(4-7) assms(4,5) by (intro release_all_None [of p]) auto
  then show ?thesis using r(1,3) assms(3) by (simp add: vkAllocateCommandBuffers_def)
qed

subsection \<open>A new command pool, and examples\<close>

text \<open>
  The pool has 128 objects and 512 list blocks, so the lists run out first: 73 command buffers can be
  allocated.
\<close>

lemma vkCreateCommandPool_spec:
  assumes "c \<noteq> NULL" "block_area (cw_mem w) pamem sizeof_commandBuffer 128" "block_area (cw_mem w) cpamem 4096 512"
    and "extent pamem 123392 \<inter> extent cpamem 2097152 = {}"
  obtains w' A where "vkCreateCommandPool c pamem cpamem stale family flags w = Some (w', VK_SUCCESS, c)"
    "cmd_inv c (blocks pamem sizeof_commandBuffer 128) A w' {#} (blocks pamem sizeof_commandBuffer 128) (blocks cpamem 4096 512)"
    "cpa_buf A = cpamem" "dom (cw_mem w') = dom (cw_mem w)"
    "cw_cbs w' = cw_cbs w ++ (\<lambda>p. if p \<in> set (blocks pamem sizeof_commandBuffer 128) then Some (stale p) else None)"
    "cpa_blockSize A = 4096"
proof -
  let ?B = "blocks pamem sizeof_commandBuffer 128" and ?Q = "blocks cpamem 4096 512"
  have "pamem \<noteq> NULL" "cpamem \<noteq> NULL" using assms(2,3) by (simp_all add: block_area_def)
  have s: "unat (123392 :: u32) = 128 * unat sizeof_commandBuffer" by (simp add: sizeof_commandBuffer_def)
  obtain m1 pa where pa: "createPoolAllocator (cw_mem w) pamem sizeof_commandBuffer 123392 = Some (m1, pa)"
    "pool_inv (m1, pa) ?B" "pool_blocks pa = ?B" using pool_inv_create [OF assms(2) _ s] by auto
  have area: "block_area m1 cpamem 4096 512" using assms(3) createPool_dom [OF pa(1)] by (simp add: block_area_def)
  obtain m2 cpa where cpa: "createConsecutivePoolAllocator m1 cpamem 4096 2097152 = Some (m2, cpa)"
    "cpa_inv (m2, cpa) ?Q" "cpa_buf cpa = cpamem" "cpa_blockSize cpa = 4096" "cpa_size cpa = 2097152"
    "\<And>x. x \<notin> extent cpamem 2097152 \<Longrightarrow> m2 x = m1 x"
    using cpa_inv_create [OF area, of 2097152] by auto
  have Q: "cpa_blocks (geo cpa) = ?Q" using cpa(3-5) by (simp add: cpa_blocks_def)
  have dom: "dom m2 = dom m1" using cpa(1)
    by (auto simp: createConsecutivePoolAllocator_def split: if_splits elim!: bind_SomeE simp del: store_bytes.simps
        del: equalityI dest!: init_links_dom store32_dom)
  have cells: "extent a 4 \<subseteq> extent pamem 123392" if "a \<in> set ?B" for a
    using blocks_inside [OF assms(2) that] extent_mono [of 4 "unat sizeof_commandBuffer" a] by (simp add: sizeof_commandBuffer_def)
  have lists: "extent q 4 \<subseteq> extent cpamem 2097152" if "q \<in> set ?Q" for q
    using blocks_inside [OF assms(3) that] extent_mono [of 4 "unat (4096 :: u32)" q] by simp
  have sep: "extent a 4 \<inter> extent q 4 = {}" if "a \<in> set ?B" "q \<in> set ?Q" for a q
    using cells [OF that(1)] lists [OF that(2)] assms(4) by blast
  have agree: "agree_off (extent cpamem 2097152) m1 m2" using dom cpa(6) by (simp add: agree_off_def)
  have pool: "pool_inv (m2, pa) ?B" using cells assms(4) by (intro agree_pool [OF agree pa(2)]) blast
  let ?cbs = "cw_cbs w ++ (\<lambda>p. if p \<in> set ?B then Some (stale p) else None)"
  let ?w = "w\<lparr>cw_mem := m2, cw_cps := (cw_cps w)(c \<mapsto> \<lparr>cp_pa = pa, cp_cpa = cpa, cp_queueFamilyIndex = family,
      cp_resetAble = flags AND VK_COMMAND_POOL_CREATE_RESET_COMMAND_BUFFER_BIT\<rparr>), cw_cbs := ?cbs\<rparr>"
  have "128 * sizeof_commandBuffer = 123392" by (simp add: sizeof_commandBuffer_def)
  then have "vkCreateCommandPool c pamem cpamem stale family flags w = Some (?w, VK_SUCCESS, c)"
    using assms(1) pa(1) cpa(1) \<open>pamem \<noteq> NULL\<close> \<open>cpamem \<noteq> NULL\<close>
    by (simp add: vkCreateCommandPool_def ARM_PAGE_SIZE_def Let_def)
  moreover have "pools c ?B (geo cpa) ?w ?B ?Q"
    using pool pa(3) cpa(2) sep unfolding pools_def by (auto simp: Q [simplified] apart_def map_add_def)
  then have "cmd_inv c ?B (geo cpa) ?w {#} ?B ?Q" using Q by (simp add: cmd_inv_def)
  moreover have "dom (cw_mem ?w) = dom (cw_mem w)" using dom createPool_dom [OF pa(1)] by simp
  ultimately show ?thesis using that [of ?w "geo cpa"] cpa(3,4) by simp
qed

definition ex_viewport :: VkViewport where
  "ex_viewport = \<lparr>vp_x = 0, vp_y = 0, vp_width = 0, vp_height = 0, vp_minDepth = 0, vp_maxDepth = 0\<rparr>"

definition ex_dynamic :: dynamicState where
  "ex_dynamic = \<lparr>ds_viewport = ex_viewport, ds_scissor = \<lparr>rc_x = 0, rc_y = 0, rc_width = 0, rc_height = 0\<rparr>,
     ds_lineWidth = 0, ds_depthBiasConstantFactor = 0, ds_depthBiasClamp = 0, ds_depthBiasSlopeFactor = 0,
     ds_blendConstants = replicate 4 0, ds_minDepthBounds = 0, ds_maxDepthBounds = 0,
     ds_stencilCompareMask = [0, 0], ds_stencilWriteMask = [0, 0], ds_stencilReference = [0, 0],
     ds_vertexBufferOffsets = replicate 8 0, ds_vertexBuffers = replicate 8 0\<rparr>"

text \<open>A command buffer of zeros, as the memory of a new pool may hold it.\<close>

definition ex_cmdbuf :: commandBuffer where
  "ex_cmdbuf = \<lparr>cb_dev = 0, cb_level = VK_COMMAND_BUFFER_LEVEL_PRIMARY, cb_pushConstantBufferVertex = replicate 256 0,
     cb_pushConstantBufferPixel = replicate 256 0, cb_binCl = clInit 0 0, cb_shaderRecCl = clInit 0 0, cb_shaderRecCount = 0,
     cb_uniformsCl = clInit 0 0, cb_handlesCl = clInit 0 0, cb_state = CMDBUF_STATE_INITIAL, cb_usageFlags = 0, cb_cp = 0,
     cb_uniformRelocCl = clInit 0 0, cb_gemRelocCl = clInit 0 0, cb_shaderRecRelocCl = clInit 0 0,
     cb_graphicsPipeline = 0, cb_computePipeline = 0, cb_currRenderPass = 0, cb_dynamic = ex_dynamic,
     cb_indexBufferOffset = 0, cb_indexBuffer = 0, cb_perfmonID = 0, cb_dirty = all_dirty\<rparr>"

definition ex_world :: cmd_world where
  "ex_world = \<lparr>cw_mem = zero_mem 4096 123392 ++ zero_mem 131072 2097152, cw_cps = Map.empty, cw_cbs = Map.empty\<rparr>"

lemma ex_pool:
  obtains w A where "vkCreateCommandPool 64 4096 131072 (\<lambda>p. ex_cmdbuf) 0 2 ex_world = Some (w, VK_SUCCESS, 64)"
    "cmd_inv 64 (blocks 4096 964 128) A w {#} (blocks 4096 964 128) (blocks 131072 4096 512)"
    "cpa_buf A = 131072" "cw_cbs w NULL = None" "cpa_buf A - 1 \<notin> dom (cw_mem w)" "cpa_blockSize A = 4096"
proof -
  have d: "dom (cw_mem ex_world) = dom (zero_mem 4096 123392) \<union> dom (zero_mem 131072 2097152)" by (auto simp: ex_world_def)
  have a: "block_area (cw_mem ex_world) 4096 sizeof_commandBuffer 128" "block_area (cw_mem ex_world) 131072 4096 512"
    unfolding block_area_def d using zero_mem_span [of 4096 123392] zero_mem_span [of 131072 2097152]
    by (auto simp: sizeof_commandBuffer_def)
  have dj: "extent 4096 123392 \<inter> extent 131072 2097152 = {}" by (auto simp: extent_iff)
  have "(64 :: addr) \<noteq> NULL" by simp
  from vkCreateCommandPool_spec [OF this a dj, of "\<lambda>p. ex_cmdbuf" 0 2] obtain w A where w:
    "vkCreateCommandPool 64 4096 131072 (\<lambda>p. ex_cmdbuf) 0 2 ex_world = Some (w, VK_SUCCESS, 64)"
    "cmd_inv 64 (blocks 4096 sizeof_commandBuffer 128) A w {#} (blocks 4096 sizeof_commandBuffer 128) (blocks 131072 4096 512)"
    "cpa_buf A = 131072" "dom (cw_mem w) = dom (cw_mem ex_world)"
    "cw_cbs w = cw_cbs ex_world ++ (\<lambda>p. if p \<in> set (blocks 4096 sizeof_commandBuffer 128) then Some ex_cmdbuf else None)"
    "cpa_blockSize A = 4096" by blast
  have "NULL \<notin> set (blocks 4096 sizeof_commandBuffer 128)" using w(2) pools_distinct(4) unfolding cmd_inv_def by blast
  then have "cw_cbs w NULL = None" using w(5) by (simp add: ex_world_def)
  moreover have "cpa_buf A - 1 \<notin> dom (cw_mem w)" unfolding w(3,4) d by (simp add: zero_mem_def dom_def)
  ultimately show ?thesis using that w(1-3,6) by (simp add: sizeof_commandBuffer_def)
qed

lemma vkAllocateCommandBuffers_fresh_witness:
  "\<exists>w w'. vkCreateCommandPool 64 4096 131072 (\<lambda>p. ex_cmdbuf) 0 2 ex_world = Some (w, VK_SUCCESS, 64) \<and>
    vkAllocateCommandBuffers 32 VK_COMMAND_BUFFER_LEVEL_PRIMARY 64 73 (w, replicate 73 0) =
      Some ((w', take 73 (blocks 4096 964 128)), VK_SUCCESS)"
proof -
  obtain w A where w: "vkCreateCommandPool 64 4096 131072 (\<lambda>p. ex_cmdbuf) 0 2 ex_world = Some (w, VK_SUCCESS, 64)"
    "cmd_inv 64 (blocks 4096 964 128) A w {#} (blocks 4096 964 128) (blocks 131072 4096 512)" by (rule ex_pool)
  show ?thesis using vkAllocateCommandBuffers_fresh [OF w(2), of 73 "replicate 73 0" 32 VK_COMMAND_BUFFER_LEVEL_PRIMARY] w(1)
    by (auto simp: blocks_def)
qed

lemma ex_pool_used:
  obtains w A where "cmd_inv 64 (blocks 4096 964 128) A w (mset (take 73 (blocks 4096 964 128)))
      (drop 73 (blocks 4096 964 128)) (drop 511 (blocks 131072 4096 512))" "NULL \<notin> set (blocks 4096 964 128)"
    "cmd_inv 64 (blocks 4096 964 128) A w (mset (filter (\<lambda>p. p \<noteq> NULL) (NULL # take 73 (blocks 4096 964 128))) + {#})
      (drop 73 (blocks 4096 964 128)) (drop 511 (blocks 131072 4096 512))"
proof -
  obtain w A where w: "cmd_inv 64 (blocks 4096 964 128) A w {#} (blocks 4096 964 128) (blocks 131072 4096 512)" by (rule ex_pool)
  have "73 \<le> length (blocks 4096 964 128)" "7 * 73 \<le> length (blocks 131072 4096 512)" "0 + 73 \<le> length (replicate 73 NULL)"
    by (simp_all add: blocks_def)
  from alloc_loop_spec [OF w this, of 0 VK_COMMAND_BUFFER_LEVEL_PRIMARY] obtain w' where w':
    "cmd_inv 64 (blocks 4096 964 128) A w' (mset (take 73 (blocks 4096 964 128)))
      (drop 73 (blocks 4096 964 128)) (drop 511 (blocks 131072 4096 512))" by auto
  have n: "NULL \<notin> set (blocks 4096 964 128)" using w pools_distinct(4) unfolding cmd_inv_def by blast
  then have "NULL \<notin> set (take 73 (blocks 4096 964 128))" by (meson in_set_takeD)
  then have "filter (\<lambda>p. p \<noteq> NULL) (NULL # take 73 (blocks 4096 964 128)) = take 73 (blocks 4096 964 128)"
    by (auto simp: filter_id_conv)
  then show ?thesis using that [OF w' n] w' by simp
qed

lemma vkFreeCommandBuffers_partition_witness:
  "\<exists>w w' A ps' qs'. vkFreeCommandBuffers 64 (NULL # take 73 (blocks 4096 964 128)) w = Some w' \<and>
    cmd_inv 64 (blocks 4096 964 128) A w' {#} ps' qs'"
proof -
  obtain w A where "cmd_inv 64 (blocks 4096 964 128) A w
      (mset (filter (\<lambda>p. p \<noteq> NULL) (NULL # take 73 (blocks 4096 964 128))) + {#})
      (drop 73 (blocks 4096 964 128)) (drop 511 (blocks 131072 4096 512))" by (rule ex_pool_used)
  from vkFreeCommandBuffers_partition [OF this] show ?thesis by blast
qed

lemma vkAllocateCommandBuffers_exhausted_witness:
  "\<exists>w. vkCreateCommandPool 64 4096 131072 (\<lambda>p. ex_cmdbuf) 0 2 ex_world = Some (w, VK_SUCCESS, 64) \<and>
    vkAllocateCommandBuffers 32 VK_COMMAND_BUFFER_LEVEL_PRIMARY 64 74 (w, replicate 74 0) = None"
proof -
  obtain w A where w: "vkCreateCommandPool 64 4096 131072 (\<lambda>p. ex_cmdbuf) 0 2 ex_world = Some (w, VK_SUCCESS, 64)"
    "cmd_inv 64 (blocks 4096 964 128) A w {#} (blocks 4096 964 128) (blocks 131072 4096 512)"
    "cw_cbs w NULL = None" "cpa_buf A - 1 \<notin> dom (cw_mem w)" using ex_pool by metis
  have "length (blocks 4096 964 128) < 74 \<or> length (blocks 131072 4096 512) < 7 * 74" "74 \<le> length (replicate 74 NULL)"
    by (simp_all add: blocks_def)
  from vkAllocateCommandBuffers_exhausted [OF w(2) this w(3,4)] w(1) show ?thesis by blast
qed

end
