(* ===== verification/Clear_Submit.thy ===== *)
theory Clear_Submit
  imports Submit_Chain List_Fit Command_Pools
begin

text \<open>
  The parts together: a command buffer is allocated, a clear of an image is recorded, and the command
  buffer is submitted; the kernel gets the one job that clears the image.
\<close>

unbundle bit_operations_syntax

subsection \<open>Steps of a recording\<close>

text \<open>A world in which the recording of the command buffer \<open>p\<close> has changed memory and two of its lists.\<close>

definition recorded :: "cmd_world \<Rightarrow> addr \<Rightarrow> commandBuffer \<Rightarrow> mem \<Rightarrow> ControlList \<Rightarrow> ControlList \<Rightarrow> cmd_world" where
  "recorded w p b m bin han = w\<lparr>cw_mem := m, cw_cbs := (cw_cbs w)(p \<mapsto> b\<lparr>cb_binCl := bin, cb_handlesCl := han\<rparr>)\<rparr>"

lemma recorded_sel [simp]:
  "cw_mem (recorded w p b m bin han) = m" "cw_cps (recorded w p b m bin han) = cw_cps w"
  "cw_cbs (recorded w p b m bin han) = (cw_cbs w)(p \<mapsto> b\<lparr>cb_binCl := bin, cb_handlesCl := han\<rparr>)"
  by (simp_all add: recorded_def)

lemma recorded_bin:
  "cw_cps w (cb_cp b) = Some P \<Longrightarrow> f ((m, cp_cpa P), bin) = Some ((m', cp_cpa P), bin') \<Longrightarrow>
    on_binCl p f (recorded w p b m bin han) = Some (recorded w p b m' bin' han)"
  by (cases b) (simp add: on_cl_def recorded_def fun_upd_idem)

lemma recorded_han:
  "cw_cps w (cb_cp b) = Some P \<Longrightarrow> f ((m, cp_cpa P), han) = Some ((m', cp_cpa P), han') \<Longrightarrow>
    on_handlesCl p f (recorded w p b m bin han) = Some (recorded w p b m' bin han')"
  by (simp add: on_cl_def recorded_def fun_upd_idem)

lemma recorded_marker:
  "cw_cps w (cb_cp b) = Some P \<Longrightarrow>
    curr_marker p (recorded w p b m bin han) = Some (getCPAptrFromOffset (cp_cpa P) (cl_currMarkerOffset bin))"
  by (simp add: curr_marker_def)

text \<open>A list with room is not moved.\<close>

lemma room_space:
  assumes "cl_room (s, cl) n"
  shows "clHasEnoughSpace cl (of_nat n)"
proof -
  have r: "unat (cl_offset cl) \<le> unat (cl_nextFreeByteOffset cl)"
    "unat (cl_nextFreeByteOffset cl) + n \<le> unat (cl_offset cl) + unat (cl_numBlocks cl * cl_blockSize cl)"
    "n < 2 ^ 32"
    using assms unat_lt_u32 [of "cl_numBlocks cl * cl_blockSize cl"] unfolding cl_room_def cl_wf_def cl_cap_def by auto
  have "unat (cl_nextFreeByteOffset cl - cl_offset cl) = unat (cl_nextFreeByteOffset cl) - unat (cl_offset cl)"
    using r(1) by (simp add: unat_sub_if_size)
  moreover have "unat (cl_nextFreeByteOffset cl) - unat (cl_offset cl) + n \<le> unat (cl_numBlocks cl * cl_blockSize cl)"
    using r(1,2) by linarith
  moreover have "unat (cl_nextFreeByteOffset cl - cl_offset cl + of_nat n) = unat (cl_nextFreeByteOffset cl - cl_offset cl) + n"
    using calculation unat_lt_u32 [of "cl_numBlocks cl * cl_blockSize cl"] by (intro unat_add_of_nat) simp
  ultimately show ?thesis by (simp add: clHasEnoughSpace_def word_le_nat_alt)
qed

lemma room_fit: "cl_room \<sigma> n \<Longrightarrow> k = of_nat n \<Longrightarrow> clFit \<sigma> k = Some \<sigma>"
  using room_space [of "fst \<sigma>" "snd \<sigma>" n] by (cases \<sigma>) (simp add: clFit_def)

lemma recorded_emit:
  assumes "cw_cps w (cb_cp b) = Some P" "cl_room ((m, cp_cpa P), bin) n" "len = of_nat n" "cl_appends f bs n"
  obtains m' where "fit_emit p len f (recorded w p b m bin han) =
      Some (recorded w p b m' (bin\<lparr>cl_nextFreeByteOffset := cl_nextFreeByteOffset bin + of_nat (length bs)\<rparr>) han)"
    "cl_after n ((m, cp_cpa P), bin) bs ((m', cp_cpa P), bin\<lparr>cl_nextFreeByteOffset := cl_nextFreeByteOffset bin + of_nat (length bs)\<rparr>)"
proof -
  obtain \<sigma>' where s: "f ((m, cp_cpa P), bin) = Some \<sigma>'" "cl_after n ((m, cp_cpa P), bin) bs \<sigma>'"
    using assms(2,4) unfolding appends_def by blast
  obtain m' where m': "\<sigma>' = ((m', cp_cpa P), bin\<lparr>cl_nextFreeByteOffset := cl_nextFreeByteOffset bin + of_nat (length bs)\<rparr>)"
    using s(2) by (cases \<sigma>') (auto simp: cl_after_def)
  have "on_binCl p (\<lambda>\<sigma>. clFit \<sigma> len) (recorded w p b m bin han) = Some (recorded w p b m bin han)"
    by (rule recorded_bin [OF assms(1)]) (rule room_fit [OF assms(2,3)])
  moreover have "on_binCl p f (recorded w p b m bin han) =
      Some (recorded w p b m' (bin\<lparr>cl_nextFreeByteOffset := cl_nextFreeByteOffset bin + of_nat (length bs)\<rparr>) han)"
    by (rule recorded_bin [OF assms(1)]) (simp add: s(1) m')
  ultimately show ?thesis using that s(2) m' by (simp add: fit_emit_def)
qed

lemma recorded_member:
  assumes "cw_cps w (cb_cp b) = Some P" "words_at m a M" "a = getCPAptrFromOffset (cp_cpa P) (cl_currMarkerOffset bin)"
    and "i < length M" "c = of_nat (4 * i)"
  shows "get_marker p c (recorded w p b m bin han) = Some (M ! i)"
  using recorded_marker [OF assms(1), of p m bin han] word_at [OF assms(2,4,5)] assms(3) by (simp add: get_marker_def)

lemma recorded_set:
  assumes "cw_cps w (cb_cp b) = Some P" "words_at m a M" "a = getCPAptrFromOffset (cp_cpa P) (cl_currMarkerOffset bin)"
    and "i < length M" "length M = 41" "c = of_nat (4 * i)"
  obtains m' where "set_marker p c v (recorded w p b m bin han) = Some (recorded w p b m' bin han)"
    "words_at m' a (M[i := v])" "dom m' = dom m" "\<And>x. x \<notin> extent a 164 \<Longrightarrow> m' x = m x"
proof -
  obtain m' where m': "store32 m (a + of_nat (4 * i)) v = Some m'" "words_at m' a (M[i := v])" "dom m' = dom m"
    "\<And>x. x \<notin> extent a (4 * length M) \<Longrightarrow> m' x = m x" using words_at_store [OF assms(2,4)] assms(5) by auto
  have "set_marker p c v (recorded w p b m bin han) = Some (recorded w p b m' bin han)"
    using recorded_marker [OF assms(1), of p m bin han] m'(1) assms(3,6) by (simp add: set_marker_def recorded_def)
  with that m' assms(5) show ?thesis by simp
qed

text \<open>The first marker of an empty list.\<close>

lemma recorded_first_marker:
  assumes "cw_cps w (cb_cp b) = Some P" "cl_room ((m, cp_cpa P), bin) 164" "cl_currMarkerOffset bin = U32_MAX"
    and "a = getCPAptrFromOffset (cp_cpa P) (cl_nextFreeByteOffset bin)"
  obtains m' where "begin_marker p (recorded w p b m bin han) = Some (recorded w p b m'
      (bin\<lparr>cl_currMarkerOffset := cl_nextFreeByteOffset bin, cl_nextFreeByteOffset := cl_nextFreeByteOffset bin + 164\<rparr>) han)"
    "words_at m' a (marker_words 0 0 0 0)" "dom m' = dom m" "\<And>x. x \<notin> extent a 164 \<Longrightarrow> m' x = m x"
proof -
  let ?ws = "marker_words 0 0 0 0"
  have len: "length ?ws = 41" "length (concat (map bytes32 ?ws)) = 164"
    by (simp_all add: length_concat comp_def sum_list_triv) (simp_all add: marker_words_def)
  have "extent a 164 \<subseteq> dom m" using cl_window [OF assms(2)] assms(4) by (simp add: cl_at_def)
  then obtain m' where m': "store_bytes m a (concat (map bytes32 ?ws)) = Some m'"
    using store_bytes_defined [of a "concat (map bytes32 ?ws)" m] len(2) by auto
  have w: "words_at m' a ?ws" using store_words [OF m'] len by simp
  have f: "m' x = m x" if "x \<notin> extent a 164" for x using store_bytes_frame [OF m'] that len by simp
  let ?bin = "bin\<lparr>cl_currMarkerOffset := cl_nextFreeByteOffset bin, cl_nextFreeByteOffset := cl_nextFreeByteOffset bin + 164\<rparr>"
  have "clInsertNewCLMarker h r N u ((m, cp_cpa P), bin) = Some ((m', cp_cpa P), ?bin)" for h r N u
    using m' assms(3,4) by (simp add: clInsertNewCLMarker_def sizeof_CLMarker_def Let_def)
  then have ins: "on_binCl p (clInsertNewCLMarker h r N u) (recorded w p b m bin han) = Some (recorded w p b m' ?bin han)" for h r N u
    by (rule recorded_bin [where f = "clInsertNewCLMarker h r N u", OF assms(1)])
  have "on_binCl p (\<lambda>\<sigma>. clFit \<sigma> sizeof_CLMarker) (recorded w p b m bin han) = Some (recorded w p b m bin han)"
    by (rule recorded_bin [OF assms(1)]) (rule room_fit [OF assms(2)], simp add: sizeof_CLMarker_def)
  then have "begin_marker p (recorded w p b m bin han) = Some (recorded w p b m'
      (bin\<lparr>cl_currMarkerOffset := cl_nextFreeByteOffset bin, cl_nextFreeByteOffset := cl_nextFreeByteOffset bin + 164\<rparr>) han)"
    by (simp add: begin_marker_def ins)
  with that w f store_bytes_dom [OF m'] show ?thesis by simp
qed

text \<open>The first handle of the first marker.\<close>

lemma recorded_first_handle:
  assumes "cw_cps w (cb_cp b) = Some P" "words_at m a M" "a = getCPAptrFromOffset (cp_cpa P) (cl_currMarkerOffset bin)"
    and "length M = 41" "M ! 28 = 0" "M ! 29 = 0" "cl_room ((m, cp_cpa P), han) 4" "cl_nextFreeByteOffset han = cl_offset han"
    and "h = getCPAptrFromOffset (cp_cpa P) (cl_offset han)"
  obtains m' where "add_handle p bo (recorded w p b m bin han) =
      Some (recorded w p b m' bin (han\<lparr>cl_nextFreeByteOffset := cl_offset han + 4\<rparr>))"
    "load32 m' h = Some bo" "dom m' = dom m" "\<And>x. x \<notin> extent h 4 \<Longrightarrow> m' x = m x"
proof -
  have "extent h 4 \<subseteq> dom m" using cl_window [OF assms(7)] assms(8,9) by (simp add: cl_at_def)
  then obtain m' where m': "store32 m h bo = Some m'" using store32_defined by blast
  let ?han = "han\<lparr>cl_nextFreeByteOffset := cl_offset han + 4\<rparr>"
  have g: "clGetHandleIndex (cl_offset han) 0 bo ((m, cp_cpa P), han) = Some (((m', cp_cpa P), ?han), 0)"
    using m' assms(8,9) by (simp add: clGetHandleIndex_def cl_put_def store32_def [symmetric] bytes32_def [symmetric])
  have "on_handlesCl p (\<lambda>\<sigma>. clFit \<sigma> 4) (recorded w p b m bin han) = Some (recorded w p b m bin han)"
    by (rule recorded_han [OF assms(1)]) (rule room_fit [OF assms(7)], simp)
  moreover have "get_marker p CLMarker_handlesBufOffset (recorded w p b m bin han) = Some 0"
    "get_marker p CLMarker_handlesSize (recorded w p b m bin han) = Some 0"
    using recorded_member [OF assms(1-3), of 28 CLMarker_handlesBufOffset p han]
      recorded_member [OF assms(1-3), of 29 CLMarker_handlesSize p han] assms(4-6)
    by (simp_all add: CLMarker_handlesBufOffset_def CLMarker_handlesSize_def)
  moreover have "on_handlesCl p (\<lambda>\<sigma>. do { (\<sigma>', idx) \<leftarrow> clGetHandleIndex (cl_offset han) 0 bo \<sigma>; Some \<sigma>' }) (recorded w p b m bin han) =
      Some (recorded w p b m' bin ?han)"
    by (rule recorded_han [OF assms(1)]) (simp add: g)
  ultimately have "add_handle p bo (recorded w p b m bin han) = Some (recorded w p b m' bin ?han)"
    by (simp add: add_handle_def)
  with that load_store32_same [OF m'] store32_dom [OF m'] store32_frame [OF m'] show ?thesis by blast
qed

text \<open>The packets of a clear: the binning configuration of the image, then an empty bin.\<close>

definition clear_stream :: "image \<Rightarrow> u32 \<Rightarrow> u8 list" where
  "clear_stream i bit64 = packet (TileBinningModeConfiguration 0 0 0 0 bit64 (if im_samples i > 1 then 1 else 0)
     (im_width i) (im_height i) 0 0 0) @ packet StartTileBinning @ packet IncrementSemaphore @ packet Flush"

lemma clear_stream_length: "length (clear_stream i bit64) = 19"
  by (simp add: clear_stream_def)

lemma recorded_clear_packets:
  assumes "cw_cps w (cb_cp b) = Some P" "cl_room ((m, cp_cpa P), bin) 19"
  obtains m' where "clear_packets p i bit64 (recorded w p b m bin han) =
      Some (recorded w p b m' (bin\<lparr>cl_nextFreeByteOffset := cl_nextFreeByteOffset bin + 19\<rparr>) han)"
    "cl_after 19 ((m, cp_cpa P), bin) (clear_stream i bit64)
       ((m', cp_cpa P), bin\<lparr>cl_nextFreeByteOffset := cl_nextFreeByteOffset bin + 19\<rparr>)"
proof -
  let ?bin = "\<lambda>k. bin\<lparr>cl_nextFreeByteOffset := cl_nextFreeByteOffset bin + k\<rparr>"
  let ?c = "TileBinningModeConfiguration 0 0 0 0 bit64 (if im_samples i > 1 then 1 else 0) (im_width i) (im_height i) 0 0 0"
  have len: "length (packet ?c) = 16" by simp
  have a: "cl_appends (clInsertTileBinningModeConfiguration 0 0 0 0 bit64 (if im_samples i > 1 then 1 else 0)
      (im_width i) (im_height i) 0 0 0) (packet ?c) 16" "cl_appends clInsertStartTileBinning [6] 1"
    "cl_appends clInsertIncrementSemaphore [7] 1" "cl_appends clInsertFlush [4] 1"
    using cmd_appends [of ?c] cmd_appends [of StartTileBinning] cmd_appends [of IncrementSemaphore] cmd_appends [of Flush] len
    by (simp_all del: packet.simps(25))
  obtain m1 where m1: "fit_emit p 16 (clInsertTileBinningModeConfiguration 0 0 0 0 bit64 (if im_samples i > 1 then 1 else 0)
      (im_width i) (im_height i) 0 0 0) (recorded w p b m bin han) = Some (recorded w p b m1 (?bin 16) han)"
    "cl_after 16 ((m, cp_cpa P), bin) (packet ?c) ((m1, cp_cpa P), ?bin 16)"
    using recorded_emit [OF assms(1) cl_room_mono [OF assms(2)] _ a(1), of 16 p han] unfolding len by auto
  have r1: "cl_room ((m1, cp_cpa P), ?bin 16) 3" using cl_after_room [OF m1(2), of 3] assms(2) len by (simp del: packet.simps(25))
  obtain m2 where m2: "fit_emit p 1 clInsertStartTileBinning (recorded w p b m1 (?bin 16) han) = Some (recorded w p b m2 (?bin 17) han)"
    "cl_after 1 ((m1, cp_cpa P), ?bin 16) [6] ((m2, cp_cpa P), ?bin 17)"
    using recorded_emit [OF assms(1) cl_room_mono [OF r1] _ a(2), of 1 p han] by (auto simp: add.assoc)
  have r2: "cl_room ((m2, cp_cpa P), ?bin 17) 2" using cl_after_room [OF m2(2), of 2] r1 by (simp add: eval_nat_numeral)
  obtain m3 where m3: "fit_emit p 1 clInsertIncrementSemaphore (recorded w p b m2 (?bin 17) han) = Some (recorded w p b m3 (?bin 18) han)"
    "cl_after 1 ((m2, cp_cpa P), ?bin 17) [7] ((m3, cp_cpa P), ?bin 18)"
    using recorded_emit [OF assms(1) cl_room_mono [OF r2] _ a(3), of 1 p han] by (auto simp: add.assoc)
  have r3: "cl_room ((m3, cp_cpa P), ?bin 18) 1" using cl_after_room [OF m3(2), of 1] r2 by (simp add: eval_nat_numeral)
  obtain m4 where m4: "fit_emit p 1 clInsertFlush (recorded w p b m3 (?bin 18) han) = Some (recorded w p b m4 (?bin 19) han)"
    "cl_after 1 ((m3, cp_cpa P), ?bin 18) [4] ((m4, cp_cpa P), ?bin 19)"
    using recorded_emit [OF assms(1) r3 _ a(4), of 1 p han] by (auto simp: add.assoc)
  have "cl_after 2 ((m2, cp_cpa P), ?bin 17) [7, 4] ((m4, cp_cpa P), ?bin 19)"
    using cl_after_trans [OF m3(2) m4(2)] r2 by (simp add: eval_nat_numeral)
  then have "cl_after 3 ((m1, cp_cpa P), ?bin 16) [6, 7, 4] ((m4, cp_cpa P), ?bin 19)"
    using cl_after_trans [OF m2(2), of 2 "[7, 4]"] r1 by (simp add: eval_nat_numeral)
  then have "cl_after 19 ((m, cp_cpa P), bin) (packet ?c @ [6, 7, 4]) ((m4, cp_cpa P), ?bin 19)"
    using cl_after_trans [OF m1(2), of 3 "[6, 7, 4]"] assms(2) len by (simp del: packet.simps(25))
  moreover have "clear_packets p i bit64 (recorded w p b m bin han) = Some (recorded w p b m4 (?bin 19) han)"
    using m1(1) m2(1) m3(1) m4(1) by (simp add: clear_packets_def)
  ultimately show ?thesis using that by (simp add: clear_stream_def del: packet.simps(25))
qed

text \<open>The words of the marker of a clear.\<close>

definition clear_marker :: "addr \<Rightarrow> image \<Rightarrow> u32 \<Rightarrow> u32 list" where
  "clear_marker img i c = (marker_words 0 0 0 0)[3 := img, 21 := c, 20 := c, 15 := VC4_SUBMIT_CL_USE_CLEAR_COLOR,
     24 := im_width i, 25 := im_height i]"

definition image_bit64 :: "image \<Rightarrow> u32" where
  "image_bit64 i = (if getFormatBpp (im_format i) = 64 then 1 else 0)"

lemma extent_behind:
  assumes "n + k \<le> 2 ^ 32"
  shows "extent a n \<inter> extent (a + of_nat n) k = {}"
proof (rule ccontr)
  assume "\<not> ?thesis"
  then obtain i j where "i < n" "j < k" "a + of_nat i = a + of_nat (n + j)" by (auto simp: extent_def algebra_simps)
  then show False using assms add_of_nat_inject [of i "n + j" a] by simp
qed

lemma room_dom: "cl_room ((m, pa), cl) n \<Longrightarrow> dom m' = dom m \<Longrightarrow> cl_room ((m', pa), cl) n"
  by (simp add: cl_room_def cl_wf_def cl_at_def)

lemma room_advance:
  assumes "cl_room ((m, pa), cl) (k + n)"
  shows "cl_room ((m, pa), cl\<lparr>cl_currMarkerOffset := x, cl_nextFreeByteOffset := cl_nextFreeByteOffset cl + of_nat k\<rparr>) n"
  using assms cl_room_next [OF assms, of k] by (simp add: cl_room_def cl_wf_def cl_at_def cl_cap_def)

lemma clear_marker_words:
  "length (clear_marker img i c) = 41" "clear_marker img i c ! 1 = U32_MAX" "clear_marker img i c ! 3 = img"
  "clear_marker img i c ! 20 = c" "clear_marker img i c ! 21 = c" "clear_marker img i c ! 15 = VC4_SUBMIT_CL_USE_CLEAR_COLOR"
  "clear_marker img i c ! 24 = im_width i" "clear_marker img i c ! 25 = im_height i"
  by (simp_all add: clear_marker_def marker_words_def)

lemma clear_marker_zero: "k < 41 \<Longrightarrow> k \<notin> {0, 1, 3, 20, 21, 15, 24, 25} \<Longrightarrow> clear_marker img i c ! k = 0"
  by (auto simp: clear_marker_def marker_words_def nth_list_update)

lemma recorded_clear:
  assumes P: "cw_cps w (cb_cp b) = Some P" and bin: "cl_room ((m, cp_cpa P), bin) 183" "cl_currMarkerOffset bin = U32_MAX"
    and a: "a = getCPAptrFromOffset (cp_cpa P) (cl_nextFreeByteOffset bin)"
    and han: "cl_room ((m, cp_cpa P), han) 4" "cl_nextFreeByteOffset han = cl_offset han"
    and h: "h = getCPAptrFromOffset (cp_cpa P) (cl_offset han)" and sep: "extent a 183 \<inter> extent h 4 = {}"
    and ob: "ob_images ob img = Some i" "image_bo ob img = Some bo" "packVec4IntoABGR8 color = Some c"
  obtains m' where "vkCmdClearColorImage ob p img color (recorded w p b m bin han) = Some (recorded w p b m'
      (bin\<lparr>cl_currMarkerOffset := cl_nextFreeByteOffset bin, cl_nextFreeByteOffset := cl_nextFreeByteOffset bin + 183\<rparr>)
      (han\<lparr>cl_nextFreeByteOffset := cl_offset han + 4\<rparr>))"
    "words_at m' a (clear_marker img i c)" "load_bytes m' (a + 164) 19 = Some (clear_stream i (image_bit64 i))"
    "load32 m' h = Some bo" "dom m' = dom m" "\<And>x. x \<notin> extent a 183 \<union> extent h 4 \<Longrightarrow> m' x = m x"
proof -
  let ?W = "marker_words 0 0 0 0" and ?bin1 = "bin\<lparr>cl_currMarkerOffset := cl_nextFreeByteOffset bin, cl_nextFreeByteOffset := cl_nextFreeByteOffset bin + 164\<rparr>"
  let ?han = "han\<lparr>cl_nextFreeByteOffset := cl_offset han + 4\<rparr>" and ?bin2 = "bin\<lparr>cl_currMarkerOffset := cl_nextFreeByteOffset bin, cl_nextFreeByteOffset := cl_nextFreeByteOffset bin + 183\<rparr>"
  have ext: "extent a (164 + 19) = extent a 164 \<union> extent (a + 164) 19" using extent_add [of a 164 19] by simp
  have W: "length ?W = 41" "?W ! 28 = 0" "?W ! 29 = 0" "?W ! 15 = 0" by (simp_all add: marker_words_def)
  have at: "a = getCPAptrFromOffset (cp_cpa P) (cl_currMarkerOffset ?bin1)" "a = getCPAptrFromOffset (cp_cpa P) (cl_currMarkerOffset ?bin2)"
    using a by simp_all
  have apart: "extent a 164 \<inter> extent h 4 = {}" "extent (a + 164) 19 \<inter> extent h 4 = {}" "extent a 164 \<inter> extent (a + 164) 19 = {}"
    using sep ext extent_behind [of 164 19 a] by auto
  obtain m1 where m1: "begin_marker p (recorded w p b m bin han) = Some (recorded w p b m1 ?bin1 han)" "words_at m1 a ?W"
    "dom m1 = dom m" "\<And>x. x \<notin> extent a 164 \<Longrightarrow> m1 x = m x"
    by (rule recorded_first_marker [OF P cl_room_mono [OF bin(1)] bin(2) a, of p han]) auto
  obtain m2 where m2: "set_marker p CLMarker_writeImage img (recorded w p b m1 ?bin1 han) = Some (recorded w p b m2 ?bin1 han)"
    "words_at m2 a (?W[3 := img])" "dom m2 = dom m" "\<And>x. x \<notin> extent a 164 \<Longrightarrow> m2 x = m x"
    by (rule recorded_set [OF P m1(2) at(1), of 3 CLMarker_writeImage p img han]) (use W m1(3,4) in \<open>auto simp: CLMarker_writeImage_def\<close>)
  obtain m3 where m3: "add_handle p bo (recorded w p b m2 ?bin1 han) = Some (recorded w p b m3 ?bin1 ?han)"
    "load32 m3 h = Some bo" "dom m3 = dom m" "\<And>x. x \<notin> extent h 4 \<Longrightarrow> m3 x = m2 x"
    by (rule recorded_first_handle [OF P m2(2) at(1) _ _ _ room_dom [OF han(1) m2(3)] han(2) h, of p bo]) (use W m2(3) in auto)
  have M3: "words_at m3 a (?W[3 := img])" using m3(4) apart(1) W(1) by (intro words_at_frame [OF m2(2)]) auto
  have r3: "cl_room ((m3, cp_cpa P), ?bin1) 19" using room_advance [of m "cp_cpa P" bin 164 19] bin(1) room_dom [OF _ m3(3)] by simp
  obtain m4 where m4: "clear_packets p i (image_bit64 i) (recorded w p b m3 ?bin1 ?han) = Some (recorded w p b m4 ?bin2 ?han)"
    "cl_after 19 ((m3, cp_cpa P), ?bin1) (clear_stream i (image_bit64 i)) ((m4, cp_cpa P), ?bin2)"
    using recorded_clear_packets [OF P r3, of p i "image_bit64 i" ?han] by (auto simp: add.assoc)
  have nx: "cl_at ((m3, cp_cpa P), ?bin1) (cl_nextFreeByteOffset ?bin1) = a + 164"
    by (simp add: cl_at_def a getCPAptrFromOffset_def)
  have f4: "m4 x = m3 x" if "x \<notin> extent (a + 164) 19" for x
    using cl_afterD(4) [OF m4(2), of x] that unfolding snd_conv fst_conv nx by blast
  have stream: "load_bytes m4 (a + 164) 19 = Some (clear_stream i (image_bit64 i))"
    using cl_afterD(5) [OF m4(2)] unfolding snd_conv fst_conv nx clear_stream_length .
  have d4: "dom m4 = dom m" using cl_afterD(3) [OF m4(2)] m3(3) by simp
  have M4: "words_at m4 a (?W[3 := img])" using f4 apart(3) W(1) by (intro words_at_frame [OF M3]) auto
  let ?r = "\<lambda>m. recorded w p b m ?bin2 ?han"
  obtain m5 where m5: "set_marker p (CLMarker_clearColor + 4) c (?r m4) = Some (?r m5)" "words_at m5 a (?W[3 := img, 21 := c])"
    "dom m5 = dom m" "\<And>x. x \<notin> extent a 164 \<Longrightarrow> m5 x = m4 x"
    by (rule recorded_set [OF P M4 at(2), of 21 "CLMarker_clearColor + 4" p c ?han])
      (use W d4 in \<open>auto simp: CLMarker_clearColor_def\<close>)
  obtain m6 where m6: "set_marker p CLMarker_clearColor c (?r m5) = Some (?r m6)" "words_at m6 a (?W[3 := img, 21 := c, 20 := c])"
    "dom m6 = dom m" "\<And>x. x \<notin> extent a 164 \<Longrightarrow> m6 x = m4 x"
    by (rule recorded_set [OF P m5(2) at(2), of 20 CLMarker_clearColor p c ?han])
      (use W m5(3,4) in \<open>auto simp: CLMarker_clearColor_def\<close>)
  let ?f = VC4_SUBMIT_CL_USE_CLEAR_COLOR
  obtain m7 where m7: "set_marker p CLMarker_flags ?f (?r m6) = Some (?r m7)"
    "words_at m7 a (?W[3 := img, 21 := c, 20 := c, 15 := ?f])" "dom m7 = dom m" "\<And>x. x \<notin> extent a 164 \<Longrightarrow> m7 x = m4 x"
    by (rule recorded_set [OF P m6(2) at(2), of 15 CLMarker_flags p ?f ?han])
      (use W m6(3,4) in \<open>auto simp: CLMarker_flags_def\<close>)
  obtain m8 where m8: "set_marker p CLMarker_width (im_width i) (?r m7) = Some (?r m8)"
    "words_at m8 a (?W[3 := img, 21 := c, 20 := c, 15 := ?f, 24 := im_width i])" "dom m8 = dom m"
    "\<And>x. x \<notin> extent a 164 \<Longrightarrow> m8 x = m4 x"
    by (rule recorded_set [OF P m7(2) at(2), of 24 CLMarker_width p "im_width i" ?han])
      (use W m7(3,4) in \<open>auto simp: CLMarker_width_def\<close>)
  obtain m9 where m9: "set_marker p CLMarker_height (im_height i) (?r m8) = Some (?r m9)"
    "words_at m9 a (clear_marker img i c)" "dom m9 = dom m" "\<And>x. x \<notin> extent a 164 \<Longrightarrow> m9 x = m4 x"
    by (rule recorded_set [OF P m8(2) at(2), of 25 CLMarker_height p "im_height i" ?han])
      (use W m8(3,4) in \<open>auto simp: CLMarker_height_def clear_marker_def\<close>)
  have "get_marker p CLMarker_flags (?r m4) = Some 0"
    using recorded_member [OF P M4 at(2), of 15 CLMarker_flags p ?han] W by (simp add: CLMarker_flags_def)
  then have "vkCmdClearColorImage ob p img color (recorded w p b m bin han) = Some (?r m9)"
    using m1(1) m2(1) m3(1) m4(1) m5(1) m6(1) m7(1) m8(1) m9(1) ob
    by (simp add: vkCmdClearColorImage_def image_bit64_def)
  moreover have "load_bytes m9 (a + 164) 19 = Some (clear_stream i (image_bit64 i))"
    using m9(4) apart(3) stream by (subst load_bytes_frame [of _ _ m9 m4]) auto
  moreover have "load32 m9 h = Some bo"
  proof -
    have "load32 m9 h = load32 m3 h"
    proof (rule load32_frame)
      fix x assume "x \<in> extent h 4"
      then have "x \<notin> extent a 164" "x \<notin> extent (a + 164) 19" using apart(1,2) by blast+
      then show "m9 x = m3 x" using m9(4) f4 by simp
    qed
    then show ?thesis using m3(2) by simp
  qed
  moreover have "m9 x = m x" if "x \<notin> extent a 183 \<union> extent h 4" for x
    using that ext m9(4) f4 m3(4) m2(4) m1(4) by simp
  ultimately show ?thesis using that m9(2,3) by blast
qed


subsection \<open>From the allocation to the kernel\<close>

text \<open>A fresh list on a block of the pool.\<close>

lemma block_list:
  assumes "block_area m (cpa_buf pa) (cpa_blockSize pa) N" "q \<in> set (blocks (cpa_buf pa) (cpa_blockSize pa) N)"
    and "n \<le> unat (cpa_blockSize pa)"
  shows "cl_room ((m, pa), clInit (q - cpa_buf pa) (cpa_blockSize pa)) n" "getCPAptrFromOffset pa (q - cpa_buf pa) = q"
    "q \<noteq> NULL" "q - cpa_buf pa \<noteq> U32_MAX"
proof -
  obtain i where i: "i < N" "q = block_at (cpa_buf pa) (cpa_blockSize pa) i" using assms(2) by (auto simp: set_blocks)
  have o: "q - cpa_buf pa = of_nat (i * unat (cpa_blockSize pa))" unfolding i(2) block_at_def by simp
  let ?cl = "clInit (q - cpa_buf pa) (cpa_blockSize pa)"
  have cl: "cl_offset ?cl = of_nat (i * unat (cpa_blockSize (snd (m, pa))))" "cl_numBlocks ?cl = of_nat 1"
    "cl_blockSize ?cl = cpa_blockSize (snd (m, pa))" "cl_nextFreeByteOffset ?cl = cl_offset ?cl + of_nat 0"
    using o by (simp_all add: clInit_def)
  show "cl_room ((m, pa), ?cl) n"
    by (rule placed_room(1) [of "(m, pa)" N i 1, OF _ _ cl]) (use assms(1,3) i(1) in auto)
  show "getCPAptrFromOffset pa (q - cpa_buf pa) = q" by (simp add: getCPAptrFromOffset_def)
  have "unat q = unat (cpa_buf pa) + i * unat (cpa_blockSize pa)" using unat_block_at [OF assms(1), of i] i by simp
  then show "q \<noteq> NULL" using assms(1) by (auto simp: block_area_def unat_eq_0 simp flip: unat_eq_0)
  show "q - cpa_buf pa \<noteq> U32_MAX" unfolding o using offset_not_error [OF assms(1) i(1)] minus_1_u32 by metis
qed

text \<open>A command buffer that was just allocated, ready for recording.\<close>

lemma fresh_recording:
  assumes inv: "cmd_inv cp B A w live (p # ps) (q # h # r1 # r2 # r3 # r4 # r5 # qs)" and n: "192 \<le> unat (cpa_blockSize A)"
  obtains w1 b P where "vkAllocateCommandBuffers device level cp 1 (w, [x]) = Some ((w1, [p]), VK_SUCCESS)"
    "vkBeginCommandBuffer beginRP p 0 None w1 = Some (recorded w1 p b (cw_mem w1) (cb_binCl b) (cb_handlesCl b), VK_SUCCESS)"
    "cb_binCl b = clInit (q - cpa_buf (cp_cpa P)) (cpa_blockSize (cp_cpa P))"
    "cb_handlesCl b = clInit (h - cpa_buf (cp_cpa P)) (cpa_blockSize (cp_cpa P))"
    "\<exists>o3 o4 k. cb_shaderRecCl b = clInit o3 k \<and> cb_uniformsCl b = clInit o4 k" "cb_shaderRecCount b = 0" "cb_usageFlags b = 0"
    "cw_cps w1 (cb_cp b) = Some P" "cb_cp b = cp" "cl_room ((cw_mem w1, cp_cpa P), cb_binCl b) 183"
    "cl_room ((cw_mem w1, cp_cpa P), cb_handlesCl b) 28" "getCPAptrFromOffset (cp_cpa P) (q - cpa_buf (cp_cpa P)) = q"
    "getCPAptrFromOffset (cp_cpa P) (h - cpa_buf (cp_cpa P)) = h" "q \<noteq> NULL" "q - cpa_buf (cp_cpa P) \<noteq> U32_MAX"
    "extent q 183 \<inter> extent h 4 = {}"
proof -
  let ?qs = "q # h # r1 # r2 # r3 # r4 # r5 # qs"
  obtain w1 b0 where w1: "alloc_loop device level cp 0 1 (w, [x]) = Some ((w1, [p]), VK_SUCCESS)"
    "cw_cbs w1 p = Some b0" "fresh_cmdbuf device level cp A [q, h, r1, r2, r3, r4, r5] b0"
    "cmd_inv cp B A w1 (add_mset p live) ps qs"
    using alloc_loop_spec [OF inv, of 1 0 "[x]" device level] by auto
  have lists: "cb_lists b0 = map (\<lambda>q. clInit (q - cpa_buf A) (cpa_blockSize A)) [q, h, r1, r2, r3, r4, r5]"
    "cb_state b0 = CMDBUF_STATE_INITIAL" "cb_shaderRecCount b0 = 0" "cb_cp b0 = cp"
    using w1(3) by (simp_all add: fresh_cmdbuf_def)
  obtain P where P: "cw_cps w1 cp = Some P" "cpa_buf (cp_cpa P) = cpa_buf A" "cpa_blockSize (cp_cpa P) = cpa_blockSize A"
    "cpa_size (cp_cpa P) = cpa_size A" using w1(4) unfolding cmd_inv_def by (meson poolsE)
  have qh: "q \<in> set (cpa_blocks A)" "h \<in> set (cpa_blocks A)" "q \<noteq> h"
  proof -
    have "pools cp B A w (p # ps) ?qs" using inv by (simp add: cmd_inv_def)
    then obtain P0 :: commandPool where "cpa_inv (cw_mem w, cp_cpa P0) ?qs" "set ?qs \<subseteq> set (cpa_blocks A)" by (rule poolsE) blast
    then show "q \<in> set (cpa_blocks A)" "h \<in> set (cpa_blocks A)" "q \<noteq> h" using cpa_invD(3) by fastforce+
  qed
  have area: "block_area (cw_mem w1) (cpa_buf A) (cpa_blockSize A) (unat (cpa_size A) div unat (cpa_blockSize A))"
    using w1(4) pools_distinct(5) unfolding cmd_inv_def by blast
  have dj: "extent q 183 \<inter> extent h 4 = {}"
    using block_extents_disjoint [OF area, of q h] qh n extent_mono [of 183 "unat (cpa_blockSize A)" q]
      extent_mono [of 4 "unat (cpa_blockSize A)" h] by (simp add: cpa_blocks_def) blast
  let ?b = "b0\<lparr>cb_usageFlags := 0, cb_state := CMDBUF_STATE_RECORDING\<rparr>"
  have bl: "cb_binCl ?b = clInit (q - cpa_buf (cp_cpa P)) (cpa_blockSize (cp_cpa P))"
    "cb_handlesCl ?b = clInit (h - cpa_buf (cp_cpa P)) (cpa_blockSize (cp_cpa P))"
    "\<exists>o3 o4 k. cb_shaderRecCl ?b = clInit o3 k \<and> cb_uniformsCl ?b = clInit o4 k"
    using lists(1) P by (auto simp: cb_lists_def)
  have "vkBeginCommandBuffer beginRP p 0 None w1 = Some (recorded w1 p ?b (cw_mem w1) (cb_binCl ?b) (cb_handlesCl ?b), VK_SUCCESS)"
    using w1(2) lists(2) by (cases b0) (simp add: vkBeginCommandBuffer_def recorded_def)
  moreover have "vkAllocateCommandBuffers device level cp 1 (w, [x]) = Some ((w1, [p]), VK_SUCCESS)"
    using w1(1) by (simp add: vkAllocateCommandBuffers_def)
  moreover have "block_area (cw_mem w1) (cpa_buf (cp_cpa P)) (cpa_blockSize (cp_cpa P)) (unat (cpa_size A) div unat (cpa_blockSize A))"
    "q \<in> set (blocks (cpa_buf (cp_cpa P)) (cpa_blockSize (cp_cpa P)) (unat (cpa_size A) div unat (cpa_blockSize A)))"
    "h \<in> set (blocks (cpa_buf (cp_cpa P)) (cpa_blockSize (cp_cpa P)) (unat (cpa_size A) div unat (cpa_blockSize A)))"
    using area qh P by (simp_all add: cpa_blocks_def)
  note block_list [OF this(1,2), of 183] block_list [OF this(1,3), of 28]
  ultimately show ?thesis using that [of w1 ?b P] bl lists P n dj by simp
qed

text \<open>A clear recorded into a new command buffer.\<close>

definition record_clear ::
  "objects \<Rightarrow> addr \<Rightarrow> addr \<Rightarrow> addr \<Rightarrow> rat \<times> rat \<times> rat \<times> rat \<Rightarrow> cmd_world \<Rightarrow> (cmd_world \<times> addr) option" where
  "record_clear ob device cp img color w = do {
     ((w, out), r) \<leftarrow> vkAllocateCommandBuffers device VK_COMMAND_BUFFER_LEVEL_PRIMARY cp 1 (w, [NULL]);
     (w, r) \<leftarrow> vkBeginCommandBuffer (\<lambda>p fbrp w. None) (out ! 0) 0 None w;
     w \<leftarrow> vkCmdClearColorImage ob (out ! 0) img color w;
     (w, r) \<leftarrow> vkEndCommandBuffer (out ! 0) w;
     Some (w, out ! 0) }"

lemma record_clear_spec:
  assumes inv: "cmd_inv cp B A w live (p # ps) (q # h # r1 # r2 # r3 # r4 # r5 # qs)" "192 \<le> unat (cpa_blockSize A)"
    and im: "img \<noteq> NULL" "ob_images ob img = Some i" "im_levelTiling i \<noteq> []" "ob_mems ob (im_boundMem i) = Some mm"
    and c: "packVec4IntoABGR8 color = Some c"
  obtains w' b P where "record_clear ob device cp img color w = Some (w', p)" "cw_cbs w' p = Some b" "cw_cps w' (cb_cp b) = Some P"
    "cb_state b = CMDBUF_STATE_EXECUTABLE" "cb_usageFlags b = 0" "cl_currMarkerOffset (cb_binCl b) \<noteq> U32_MAX"
    "clHasEnoughSpace (cb_handlesCl b) 24" "marker_chain ob Map.empty None b P (cw_mem w') [(q, clear_marker img i c, [dm_bo mm])]"
    "q = getCPAptrFromOffset (cp_cpa P) (cl_offset (cb_binCl b))" "h = getCPAptrFromOffset (cp_cpa P) (cl_offset (cb_handlesCl b))"
    "closed_words b (clear_marker img i c) = (clear_marker img i c)[2 := 19, 29 := 4, 31 := 0, 34 := 0, 32 := 0]"
    "load_bytes (cw_mem w') (q + 164) 19 = Some (clear_stream i (image_bit64 i))" "load32 (cw_mem w') h = Some (dm_bo mm)"
    "extent q 183 \<inter> extent h 4 = {}"
proof -
  obtain w1 b P where r: "vkAllocateCommandBuffers device VK_COMMAND_BUFFER_LEVEL_PRIMARY cp 1 (w, [NULL]) = Some ((w1, [p]), VK_SUCCESS)"
    "vkBeginCommandBuffer (\<lambda>p fbrp w. None) p 0 None w1 = Some (recorded w1 p b (cw_mem w1) (cb_binCl b) (cb_handlesCl b), VK_SUCCESS)"
    "cb_binCl b = clInit (q - cpa_buf (cp_cpa P)) (cpa_blockSize (cp_cpa P))"
    "cb_handlesCl b = clInit (h - cpa_buf (cp_cpa P)) (cpa_blockSize (cp_cpa P))"
    "\<exists>o3 o4 k. cb_shaderRecCl b = clInit o3 k \<and> cb_uniformsCl b = clInit o4 k" "cb_shaderRecCount b = 0" "cb_usageFlags b = 0"
    "cw_cps w1 (cb_cp b) = Some P" "cb_cp b = cp" "cl_room ((cw_mem w1, cp_cpa P), cb_binCl b) 183"
    "cl_room ((cw_mem w1, cp_cpa P), cb_handlesCl b) 28" "getCPAptrFromOffset (cp_cpa P) (q - cpa_buf (cp_cpa P)) = q"
    "getCPAptrFromOffset (cp_cpa P) (h - cpa_buf (cp_cpa P)) = h" "q \<noteq> NULL" "q - cpa_buf (cp_cpa P) \<noteq> U32_MAX"
    "extent q 183 \<inter> extent h 4 = {}" by (rule fresh_recording [OF inv])
  let ?bin = "(cb_binCl b)\<lparr>cl_currMarkerOffset := cl_nextFreeByteOffset (cb_binCl b), cl_nextFreeByteOffset := cl_nextFreeByteOffset (cb_binCl b) + 183\<rparr>"
  let ?han = "(cb_handlesCl b)\<lparr>cl_nextFreeByteOffset := cl_offset (cb_handlesCl b) + 4\<rparr>"
  have bo: "image_bo ob img = Some (dm_bo mm)" using im(2,4) by (simp add: image_bo_def)
  obtain m' where m': "vkCmdClearColorImage ob p img color (recorded w1 p b (cw_mem w1) (cb_binCl b) (cb_handlesCl b)) =
      Some (recorded w1 p b m' ?bin ?han)" "words_at m' q (clear_marker img i c)"
    "load_bytes m' (q + 164) 19 = Some (clear_stream i (image_bit64 i))" "load32 m' h = Some (dm_bo mm)"
    by (rule recorded_clear [OF r(8,10) _ _ cl_room_mono [OF r(11)] _ _ r(16) im(2) bo c, of p])
      (use r(3,4,12,13) in \<open>auto simp: clInit_def\<close>)
  let ?b = "b\<lparr>cb_binCl := ?bin, cb_handlesCl := ?han, cb_state := CMDBUF_STATE_EXECUTABLE\<rparr>"
  let ?w = "w1\<lparr>cw_mem := m', cw_cbs := (cw_cbs w1)(p \<mapsto> ?b)\<rparr>" and ?M = "clear_marker img i c"
  have "vkEndCommandBuffer p (recorded w1 p b m' ?bin ?han) = Some (?w, VK_SUCCESS)"
    by (simp add: vkEndCommandBuffer_def recorded_def)
  then have "record_clear ob device cp img color w = Some (?w, p)" using r(1,2) m'(1) by (simp add: record_clear_def)
  moreover have "clHasEnoughSpace (cb_handlesCl ?b) 24"
    using room_space [OF room_advance [of "cw_mem w1" "cp_cpa P" "cb_handlesCl b" 4 24]] r(11) r(4)
    by (simp add: clHasEnoughSpace_def clInit_def)
  moreover have "marker_chain ob Map.empty None ?b P m' [(q, ?M, [dm_bo mm])]"
    using m' r(3,4,12-14) im clear_marker_words [of img i c]
    by (simp add: marker_ready_def handle_count_def image_ready_def job_perfmon_def clInit_def clear_marker_zero)
  moreover have "closed_words ?b ?M = ?M[2 := 19, 29 := 4, 31 := 0, 34 := 0, 32 := 0]"
    using r(3-6) by (auto simp: closed_words_def clear_marker_zero clInit_def sizeof_CLMarker_def)
  ultimately show ?thesis
    by (intro that [of ?w ?b P]) (use r(3,4,7,8,12,13,15,16) m'(3,4) in \<open>simp_all add: clInit_def\<close>)
qed

text \<open>The whole life of a clear: allocate a command buffer, record, submit.\<close>

definition clear_image ::
  "'k kernel \<Rightarrow> objects \<Rightarrow> addr \<Rightarrow> addr \<Rightarrow> addr \<Rightarrow> rat \<times> rat \<times> rat \<times> rat \<Rightarrow> 'k submit_state \<times> sems \<times> fences \<Rightarrow>
    (('k submit_state \<times> sems \<times> fences) \<times> VkResult) option" where
  "clear_image K ob device cp img color st = (let (s, S, F) = st in do {
     (w, p) \<leftarrow> record_clear ob device cp img color (ss_world s);
     vkQueueSubmit K ob Map.empty [one_batch [] p [] None] NULL (s\<lparr>ss_world := w\<rparr>, S, F) })"

text \<open>The job of a clear, with the bytes it points to.\<close>

definition clear_job :: "image \<Rightarrow> u32 \<Rightarrow> u32 \<Rightarrow> addr \<Rightarrow> addr \<Rightarrow> mem \<Rightarrow> drm_vc4_submit_cl \<Rightarrow> bool" where
  "clear_job i bo c q h m job \<longleftrightarrow>
     sc_bin_cl job = user_ptr (q + 164) \<and> sc_bin_cl_size job = 19 \<and>
     load_bytes m (q + 164) 19 = Some (clear_stream i (image_bit64 i)) \<and>
     sc_bo_handles job = user_ptr h \<and> sc_bo_handle_count job = 1 \<and> load32 m h = Some bo \<and>
     rs_hindex (sc_color_write job) = 0 \<and> rs_offset (sc_color_write job) = im_boundOffset i \<and>
     sc_color_read job = no_surface \<and> sc_zs_read job = no_surface \<and> sc_zs_write job = no_surface \<and>
     sc_msaa_color_write job = no_surface \<and> sc_msaa_zs_write job = no_surface \<and>
     sc_clear_color job = (c, c) \<and> sc_flags job = VC4_SUBMIT_CL_USE_CLEAR_COLOR \<and>
     sc_width job = ucast (im_width i) \<and> sc_height job = ucast (im_height i) \<and>
     sc_shader_rec_count job = 0 \<and> sc_shader_rec_size job = 0 \<and> sc_uniforms_size job = 0"

text \<open>C27: vkQueueSubmit of an executable command buffer returns, and gives the kernel exactly the jobs of
  its markers, one each, in the order of their chain: the lists and sizes of the marker (of the lists as
  they stand for a last marker that is still open), surfaces whose handle index denotes the buffer object
  of the image, the clear values and the size.  The command buffer is executable again, or invalid if it
  was recorded for one submission; the fence takes the number of the last job.\<close>

theorem vkQueueSubmit_jobs:
  fixes s :: "'k submit_state"
  assumes "cw_cbs (ss_world s) p = Some b" "cw_cps (ss_world s) (cb_cp b) = Some P"
    and "cb_state b = CMDBUF_STATE_EXECUTABLE" "cl_currMarkerOffset (cb_binCl b) \<noteq> U32_MAX"
    and "clHasEnoughSpace (cb_handlesCl b) 24" "marker_chain ob perfmons pass b P (cw_mem (ss_world s)) ms"
    and "fst (hd ms) = getCPAptrFromOffset (cp_cpa P) (cl_offset (cb_binCl b))"
    and "sem_ops sem_wait waits S = Some S1" "sem_ops sem_post signals S1 = Some S2"
    and "fence_p \<noteq> NULL \<longrightarrow> F fence_p = Some f"
  shows "\<exists>m' jobs t. t = submit_jobs K jobs s \<and>
     vkQueueSubmit K ob perfmons [one_batch waits p signals pass] fence_p (s, S, F) =
       Some ((t\<lparr>ss_world := (ss_world s)\<lparr>cw_mem := m', cw_cbs := (cw_cbs (ss_world s))(p \<mapsto> submitted b)\<rparr>\<rparr>, S2,
         if fence_p = NULL then F else F(fence_p \<mapsto> f\<lparr>fn_seqno := q_lastEmitSeqno (ss_queue t)\<rparr>)), VK_SUCCESS) \<and>
     list_all2 (\<lambda>(a, M, hs) cl. job_of_marker ob perfmons pass b P a (closed_words b M) hs cl) ms jobs"
proof -
  obtain m' jobs where j: "submit_batch K ob perfmons (one_batch waits p signals pass) (s, S) = Some ((submit_jobs K jobs s)
      \<lparr>ss_world := (ss_world s)\<lparr>cw_mem := m', cw_cbs := (cw_cbs (ss_world s))(p \<mapsto> submitted b)\<rparr>\<rparr>, S2)"
    "list_all2 (\<lambda>(a, M, hs) cl. job_of_marker ob perfmons pass b P a (closed_words b M) hs cl) ms jobs"
    using submit_batch_chain [OF assms(1-9)] by metis
  then show ?thesis using assms(10)
    by (intro exI [of _ m'] exI [of _ jobs] exI [of _ "submit_jobs K jobs s"]) (simp add: vkQueueSubmit_def)
qed

text \<open>C28: clearing an image works from the allocation of the command buffer to the kernel: a clear
  recorded into a fresh command buffer is submitted as one job.  Its 19 bytes of binning list are the
  binning configuration of the image and an empty bin, its one handle is the buffer object of the image,
  which is the color target at its bound offset, and it has the packed color, the clear flag and the size.\<close>

theorem clear_image_submitted:
  fixes s :: "'k submit_state"
  assumes "cmd_inv cp B A (ss_world s) live (p # ps) (q # h # r1 # r2 # r3 # r4 # r5 # qs)" "192 \<le> unat (cpa_blockSize A)"
    and "img \<noteq> NULL" "ob_images ob img = Some i" "im_levelTiling i \<noteq> []" "ob_mems ob (im_boundMem i) = Some mm"
    and "packVec4IntoABGR8 color = Some c"
  shows "\<exists>job w'. clear_image K ob device cp img color (s, S, F) =
       Some (((submit_job K job s)\<lparr>ss_world := w'\<rparr>, S, F), VK_SUCCESS) \<and> clear_job i (dm_bo mm) c q h (cw_mem w') job"
proof -
  let ?M = "clear_marker img i c" and ?ms = "[(q, clear_marker img i c, [dm_bo mm])]"
  obtain w b P where r: "record_clear ob device cp img color (ss_world s) = Some (w, p)" "cw_cbs w p = Some b" "cw_cps w (cb_cp b) = Some P"
    "cb_state b = CMDBUF_STATE_EXECUTABLE" "cb_usageFlags b = 0" "cl_currMarkerOffset (cb_binCl b) \<noteq> U32_MAX"
    "clHasEnoughSpace (cb_handlesCl b) 24" "marker_chain ob Map.empty None b P (cw_mem w) ?ms"
    "q = getCPAptrFromOffset (cp_cpa P) (cl_offset (cb_binCl b))" "h = getCPAptrFromOffset (cp_cpa P) (cl_offset (cb_handlesCl b))"
    "closed_words b ?M = ?M[2 := 19, 29 := 4, 31 := 0, 34 := 0, 32 := 0]"
    "load_bytes (cw_mem w) (q + 164) 19 = Some (clear_stream i (image_bit64 i))" "load32 (cw_mem w) h = Some (dm_bo mm)"
    "extent q 183 \<inter> extent h 4 = {}" by (rule record_clear_spec [OF assms])
  obtain m'' jobs where j: "submit_batch K ob Map.empty (one_batch [] p [] None) (s\<lparr>ss_world := w\<rparr>, S) =
      Some ((submit_jobs K jobs (s\<lparr>ss_world := w\<rparr>))\<lparr>ss_world := w\<lparr>cw_mem := m'', cw_cbs := (cw_cbs w)(p \<mapsto> submitted b)\<rparr>\<rparr>, S)"
    "list_all2 (\<lambda>(a, M, hs) cl. job_of_marker ob Map.empty None b P a (closed_words b M) hs cl) ?ms jobs"
    "\<And>x. (\<forall>r\<in>set ?ms. x \<notin> extent (fst r) 164) \<Longrightarrow> m'' x = cw_mem w x"
    using submit_batch_chain [of "s\<lparr>ss_world := w\<rparr>" p b P ob Map.empty None ?ms "[]" S S "[]" S K] r(2-9) by auto
  then obtain job where job: "jobs = [job]"
    "job_of_marker ob Map.empty None b P q (?M[2 := 19, 29 := 4, 31 := 0, 34 := 0, 32 := 0]) [dm_bo mm] job"
    using r(11) by (auto simp: list_all2_Cons1)
  have out: "m'' x = cw_mem w x" if "x \<notin> extent q 164" for x using j(3) that by simp
  have "load_bytes m'' (q + 164) 19 = load_bytes (cw_mem w) (q + 164) 19"
    using out extent_behind [of 164 19 q] by (intro load_bytes_frame) auto
  moreover have "extent q 164 \<inter> extent h 4 = {}" using r(14) extent_mono [of 164 183 q] by auto
  then have "load32 m'' h = load32 (cw_mem w) h" using out by (intro load32_frame) blast
  moreover have "surface_of ob [dm_bo mm] img 0 (sc_color_write job)"
    using job(2) clear_marker_words [of img i c] by (simp add: job_of_marker_def clear_marker_zero)
  then have "rs_hindex (sc_color_write job) = 0 \<and> rs_offset (sc_color_write job) = im_boundOffset i"
    using assms(3,4) by (simp add: surface_of_def unat_eq_0)
  ultimately have "clear_job i (dm_bo mm) c q h m'' job"
    using job(2) r(10,12,13) clear_marker_words [of img i c]
    by (simp add: clear_job_def job_of_marker_def clear_marker_zero surface_of_def pad_width_def sizeof_CLMarker_def)
  moreover have "clear_image K ob device cp img color (s, S, F) = Some (((submit_job K job s)
      \<lparr>ss_world := w\<lparr>cw_mem := m'', cw_cbs := (cw_cbs w)(p \<mapsto> submitted b)\<rparr>\<rparr>, S, F), VK_SUCCESS)"
    using r(1) j(1) job(1) by (simp add: clear_image_def vkQueueSubmit_def submit_jobs_simps submit_job_swap)
  ultimately show ?thesis by (intro exI [of _ job] exI [of _ "w\<lparr>cw_mem := m'', cw_cbs := (cw_cbs w)(p \<mapsto> submitted b)\<rparr>"]) simp
qed


subsection \<open>Examples\<close>

definition ex_image :: image where
  "ex_image = \<lparr>im_type = 1, im_fb = 0, im_width = 640, im_height = 480, im_depth = 1, im_miplevels = 1, im_samples = 1,
     im_levelOffsets = replicate 11 0, im_levelTiling = replicate 11 0, im_layers = 1, im_size = 1228800, im_stride = 2560,
     im_usageBits = 18, im_format = VK_FORMAT_R8G8B8A8 UNORM, im_imageSpace = 0, im_tiling = 0, im_layout = 0,
     im_boundMem = 200, im_boundOffset = 8192, im_alignment = 4096, im_concurrentAccess = 0, im_numQueueFamiliesWithAccess = 0,
     im_queueFamiliesWithAccess = [], im_preTransformMode = 0, im_compositeAlpha = 0, im_presentMode = 0, im_clipped = 0, im_flags = 0\<rparr>"

definition ex_objects :: objects where
  "ex_objects = \<lparr>ob_images = [100 \<mapsto> ex_image],
     ob_mems = [200 \<mapsto> \<lparr>dm_size = 2097152, dm_bo = 7, dm_memTypeIndex = 0, dm_mappedPtr = 0, dm_mappedOffset = 0, dm_mappedSize = 0\<rparr>]\<rparr>"

lemma ex_clear:
  "ob_images ex_objects 100 = Some ex_image" "im_levelTiling ex_image \<noteq> []"
  "ob_mems ex_objects (im_boundMem ex_image) = Some (the (ob_mems ex_objects 200))" "dm_bo (the (ob_mems ex_objects 200)) = 7"
  "packVec4IntoABGR8 (1, 0, 0, 1) = Some 0xFF0000FF" "(100 :: addr) \<noteq> NULL"
  by (simp_all add: ex_objects_def ex_image_def packVec4IntoABGR8_def unorm8_def Let_def)

lemma ex_blocks:
  "blocks 4096 964 128 = 4096 # tl (blocks 4096 964 128)"
  "blocks 131072 4096 512 = 131072 # 135168 # 139264 # 143360 # 147456 # 151552 # 155648 # drop 7 (blocks 131072 4096 512)"
proof -
  show "blocks 4096 964 128 = 4096 # tl (blocks 4096 964 128)"
    by (simp add: blocks_def upt_rec [of 0 128] block_at_def)
  have "[0..<512] = [0..<7] @ [7..<512 :: nat]" using upt_add_eq_append [of 0 7 505] by simp
  moreover have "[0..<7] = [0, 1, 2, 3, 4, 5, 6 :: nat]" by (simp add: upt_rec)
  ultimately have "[0..<512] = [0, 1, 2, 3, 4, 5, 6] @ drop 7 [0..<512 :: nat]" by simp
  then show "blocks 131072 4096 512 = 131072 # 135168 # 139264 # 143360 # 147456 # 151552 # 155648 # drop 7 (blocks 131072 4096 512)"
    unfolding blocks_def by (simp add: drop_map block_at_def)
qed

definition ex_state :: "cmd_world \<Rightarrow> (u64 \<times> u64) submit_state" where
  "ex_state w = \<lparr>ss_world = w, ss_kernel = (0, 0), ss_queue = \<lparr>q_lastEmitSeqno = 0, q_lastFinishedSeqno = 0, q_dev = 0\<rparr>\<rparr>"

lemma ex_cmd_pool:
  obtains w A where "vkCreateCommandPool 64 4096 131072 (\<lambda>p. ex_cmdbuf) 0 2 ex_world = Some (w, VK_SUCCESS, 64)"
    "cmd_inv 64 (blocks 4096 964 128) A w {#} (4096 # tl (blocks 4096 964 128))
      (131072 # 135168 # 139264 # 143360 # 147456 # 151552 # 155648 # drop 7 (blocks 131072 4096 512))"
    "192 \<le> unat (cpa_blockSize A)"
proof -
  obtain w A where w: "vkCreateCommandPool 64 4096 131072 (\<lambda>p. ex_cmdbuf) 0 2 ex_world = Some (w, VK_SUCCESS, 64)"
    "cmd_inv 64 (blocks 4096 964 128) A w {#} (blocks 4096 964 128) (blocks 131072 4096 512)" "cpa_blockSize A = 4096"
    by (rule ex_pool) blast
  then show ?thesis using that [of w A] ex_blocks by simp
qed

lemma clear_image_submitted_witness:
  "\<exists>w job w'. vkCreateCommandPool 64 4096 131072 (\<lambda>p. ex_cmdbuf) 0 2 ex_world = Some (w, VK_SUCCESS, 64) \<and>
     clear_image (ex_kernel None) ex_objects 32 64 100 (1, 0, 0, 1) (ex_state w, Map.empty, Map.empty) =
       Some (((submit_job (ex_kernel None) job (ex_state w))\<lparr>ss_world := w'\<rparr>, Map.empty, Map.empty), VK_SUCCESS) \<and>
     sc_bin_cl job = 131236 \<and> sc_bin_cl_size job = 19 \<and> sc_clear_color job = (0xFF0000FF, 0xFF0000FF) \<and>
     load32 (cw_mem w') 135168 = Some 7"
proof -
  obtain w A where w: "vkCreateCommandPool 64 4096 131072 (\<lambda>p. ex_cmdbuf) 0 2 ex_world = Some (w, VK_SUCCESS, 64)"
    "cmd_inv 64 (blocks 4096 964 128) A (ss_world (ex_state w)) {#} (4096 # tl (blocks 4096 964 128))
      (131072 # 135168 # 139264 # 143360 # 147456 # 151552 # 155648 # drop 7 (blocks 131072 4096 512))"
    "192 \<le> unat (cpa_blockSize A)" by (rule ex_cmd_pool) (simp add: ex_state_def)
  from clear_image_submitted [OF w(2,3) ex_clear(6,1-3,5), of "ex_kernel None" 32 Map.empty Map.empty] ex_clear(4)
  obtain job w' where "clear_image (ex_kernel None) ex_objects 32 64 100 (1, 0, 0, 1) (ex_state w, Map.empty, Map.empty) =
       Some (((submit_job (ex_kernel None) job (ex_state w))\<lparr>ss_world := w'\<rparr>, Map.empty, Map.empty), VK_SUCCESS)"
    "clear_job ex_image 7 0xFF0000FF 131072 135168 (cw_mem w') job" by auto
  then show ?thesis using w(1) by (auto simp: clear_job_def user_ptr_def)
qed

lemma vkQueueSubmit_jobs_witness:
  "\<exists>w p s' F'. record_clear ex_objects 32 64 100 (1, 0, 0, 1) w = Some (ss_world s', p) \<and>
     (\<exists>r. vkQueueSubmit (ex_kernel None) ex_objects Map.empty [one_batch [8] p [16] None] 24
        (s', [8 \<mapsto> 1, 16 \<mapsto> 0], [24 \<mapsto> \<lparr>fn_seqno = 0, fn_signaled = 0\<rparr>]) = Some ((r, [8 \<mapsto> 0, 16 \<mapsto> 1], F'), VK_SUCCESS))"
proof -
  obtain w A where w: "cmd_inv 64 (blocks 4096 964 128) A w {#} (4096 # tl (blocks 4096 964 128))
      (131072 # 135168 # 139264 # 143360 # 147456 # 151552 # 155648 # drop 7 (blocks 131072 4096 512))"
    "192 \<le> unat (cpa_blockSize A)" by (rule ex_cmd_pool)
  obtain w' b P where r: "record_clear ex_objects 32 64 100 (1, 0, 0, 1) w = Some (w', 4096)" "cw_cbs w' 4096 = Some b"
    "cw_cps w' (cb_cp b) = Some P" "cb_state b = CMDBUF_STATE_EXECUTABLE" "cl_currMarkerOffset (cb_binCl b) \<noteq> U32_MAX"
    "clHasEnoughSpace (cb_handlesCl b) 24"
    "marker_chain ex_objects Map.empty None b P (cw_mem w') [(131072, clear_marker 100 ex_image 0xFF0000FF, [7])]"
    "131072 = getCPAptrFromOffset (cp_cpa P) (cl_offset (cb_binCl b))"
    using record_clear_spec [OF w ex_clear(6,1-3,5), of 32] ex_clear(4) by metis
  have "\<exists>m' jobs t. t = submit_jobs (ex_kernel None) jobs (ex_state w') \<and>
     vkQueueSubmit (ex_kernel None) ex_objects Map.empty [one_batch [8] 4096 [16] None] 24
        (ex_state w', [8 \<mapsto> 1, 16 \<mapsto> 0], [24 \<mapsto> \<lparr>fn_seqno = 0, fn_signaled = 0\<rparr>]) =
       Some ((t\<lparr>ss_world := (ss_world (ex_state w'))\<lparr>cw_mem := m', cw_cbs := (cw_cbs (ss_world (ex_state w')))(4096 \<mapsto> submitted b)\<rparr>\<rparr>,
         [8 \<mapsto> 0, 16 \<mapsto> 1], if (24 :: addr) = NULL then [24 \<mapsto> \<lparr>fn_seqno = 0, fn_signaled = 0\<rparr>]
           else [24 \<mapsto> \<lparr>fn_seqno = 0, fn_signaled = 0\<rparr>](24 \<mapsto> \<lparr>fn_seqno = 0, fn_signaled = 0\<rparr>\<lparr>fn_seqno := q_lastEmitSeqno (ss_queue t)\<rparr>)), VK_SUCCESS) \<and>
     list_all2 (\<lambda>(a, M, hs) cl. job_of_marker ex_objects Map.empty None b P a (closed_words b M) hs cl)
       [(131072, clear_marker 100 ex_image 0xFF0000FF, [7])] jobs"
    by (rule vkQueueSubmit_jobs) (use r in \<open>auto simp: ex_state_def sem_wait_def sem_post_def\<close>)
  then show ?thesis using r(1) by (intro exI [of _ w] exI [of _ 4096] exI [of _ "ex_state w'"]) (auto simp: ex_state_def)
qed

end
