(* ===== verification/Shader_Module.thy ===== *)
theory Shader_Module
  imports Render_Pass Kernel_Interface Qpu_Encode
begin

text \<open>
  driver/shader.c: shader modules.  The application gives the assembled QPU programs of the stages
  and, for each, the resources its uniform reads stand for; the driver reads off the instructions
  how many uniforms, varyings and vertex attributes they take, and stores the programs in buffer
  objects of the kernel.  The arrays of a module are indexed by the stage: 0 coordinate, 1 vertex,
  2 fragment, 3 compute shader.
\<close>

unbundle bit_operations_syntax

subsection \<open>The structures\<close>

datatype VkDescriptorType = VK_DESCRIPTOR_TYPE_SAMPLER | VK_DESCRIPTOR_TYPE_COMBINED_IMAGE_SAMPLER
  | VK_DESCRIPTOR_TYPE_SAMPLED_IMAGE | VK_DESCRIPTOR_TYPE_STORAGE_IMAGE
  | VK_DESCRIPTOR_TYPE_UNIFORM_TEXEL_BUFFER | VK_DESCRIPTOR_TYPE_STORAGE_TEXEL_BUFFER
  | VK_DESCRIPTOR_TYPE_UNIFORM_BUFFER | VK_DESCRIPTOR_TYPE_STORAGE_BUFFER
  | VK_DESCRIPTOR_TYPE_UNIFORM_BUFFER_DYNAMIC | VK_DESCRIPTOR_TYPE_STORAGE_BUFFER_DYNAMIC
  | VK_DESCRIPTOR_TYPE_INPUT_ATTACHMENT | VK_DESCRIPTOR_TYPE_other u32

datatype VkRpiAssemblyMappingTypeEXT = VK_RPI_ASSEMBLY_MAPPING_TYPE_DESCRIPTOR
  | VK_RPI_ASSEMBLY_MAPPING_TYPE_PUSH_CONSTANT

record VkRpiAssemblyMappingEXT =
  am_mappingType :: VkRpiAssemblyMappingTypeEXT
  am_descriptorType :: VkDescriptorType
  am_descriptorSet :: u32
  am_descriptorBinding :: u32
  am_descriptorArrayElement :: u32
  am_resourceOffset :: u32

text \<open>The program of a stage is the address of its instructions and the instructions.\<close>

record VkRpiShaderModuleAssemblyCreateInfoEXT =
  sa_instructions :: "(addr \<times> u64 list) option list"
  sa_numInstructions :: "u32 list"
  sa_mappings :: "VkRpiAssemblyMappingEXT list list"
  sa_numMappings :: "u32 list option"

record shaderModule =
  sm_bos :: "u32 list"
  sm_sizes :: "u32 list"
  sm_mappings :: "VkRpiAssemblyMappingEXT list list"
  sm_hasThreadSwitch :: u32
  sm_numTextureSamples :: u32
  sm_numVaryings :: u32
  sm_numFragUniformReads :: u32
  sm_numVertUniformReads :: u32
  sm_numCoordUniformReads :: u32
  sm_numVertVPMreads :: u32
  sm_numCoordVPMreads :: u32
  sm_numVertVPMwrites :: u32
  sm_numCoordVPMwrites :: u32
  sm_numFragCycles :: u32
  sm_numVertCycles :: u32
  sm_numCoordCycles :: u32
  sm_numFragALUcycles :: u32
  sm_numVertALUcycles :: u32
  sm_numCoordALUcycles :: u32
  sm_numEmptyFragALUinstructions :: u32
  sm_numEmptyVertALUinstructions :: u32
  sm_numEmptyCoordALUinstructions :: u32
  sm_numFragBranches :: u32
  sm_numVertBranches :: u32
  sm_numCoordBranches :: u32
  sm_numFragSFUoperations :: u32
  sm_numVertSFUoperations :: u32
  sm_numCoordSFUoperations :: u32

definition VK_RPI_ASSEMBLY_TYPE_COORDINATE :: nat where "VK_RPI_ASSEMBLY_TYPE_COORDINATE = 0"
definition VK_RPI_ASSEMBLY_TYPE_VERTEX :: nat where "VK_RPI_ASSEMBLY_TYPE_VERTEX = 1"
definition VK_RPI_ASSEMBLY_TYPE_FRAGMENT :: nat where "VK_RPI_ASSEMBLY_TYPE_FRAGMENT = 2"
definition VK_RPI_ASSEMBLY_TYPE_MAX :: nat where "VK_RPI_ASSEMBLY_TYPE_MAX = 4"

lemmas stage_defs = VK_RPI_ASSEMBLY_TYPE_COORDINATE_def VK_RPI_ASSEMBLY_TYPE_VERTEX_def
  VK_RPI_ASSEMBLY_TYPE_FRAGMENT_def VK_RPI_ASSEMBLY_TYPE_MAX_def

subsection \<open>The fields of an instruction\<close>

definition is_sem :: "u64 \<Rightarrow> bool" where "is_sem i \<longleftrightarrow> drop_bit 57 i AND 0x7f = 0x74"
definition sig_bits :: "u64 \<Rightarrow> u64" where "sig_bits i = drop_bit 60 i AND 0xf"
definition waddr_add :: "u64 \<Rightarrow> u64" where "waddr_add i = drop_bit 38 i AND 0x3f"
definition waddr_mul :: "u64 \<Rightarrow> u64" where "waddr_mul i = drop_bit 32 i AND 0x3f"
definition raddr_a :: "u64 \<Rightarrow> u64" where "raddr_a i = drop_bit 18 i AND 0x3f"
definition raddr_b :: "u64 \<Rightarrow> u64" where "raddr_b i = drop_bit 12 i AND 0x3f"

text \<open>The values of the enums of \<open>vc4_qpu_enums.h\<close> that the analysis looks for.\<close>

definition QPU_SIG_THREAD_SWITCH :: u64 where "QPU_SIG_THREAD_SWITCH = 2"
definition QPU_SIG_LAST_THREAD_SWITCH :: u64 where "QPU_SIG_LAST_THREAD_SWITCH = 6"
definition QPU_SIG_LOAD_TMU0 :: u64 where "QPU_SIG_LOAD_TMU0 = 10"
definition QPU_SIG_LOAD_TMU1 :: u64 where "QPU_SIG_LOAD_TMU1 = 11"
definition QPU_SIG_SMALL_IMM :: u64 where "QPU_SIG_SMALL_IMM = 13"
definition QPU_SIG_LOAD_IMM :: u64 where "QPU_SIG_LOAD_IMM = 14"
definition QPU_SIG_BRANCH :: u64 where "QPU_SIG_BRANCH = 15"
definition QPU_R_UNIF :: u64 where "QPU_R_UNIF = 32"
definition QPU_R_VARY :: u64 where "QPU_R_VARY = 35"
definition QPU_R_VPM :: u64 where "QPU_R_VPM = 48"
definition QPU_W_NOP :: u64 where "QPU_W_NOP = 39"
definition QPU_W_VPM :: u64 where "QPU_W_VPM = 48"

text \<open>The write addresses from \<open>QPU_W_SFU_RECIP\<close> to \<open>QPU_W_SFU_LOG\<close>, and of the texture units.\<close>

definition is_sfu :: "u64 \<Rightarrow> bool" where "is_sfu w \<longleftrightarrow> w \<in> {52, 53, 54, 55}"
definition is_tmu :: "u64 \<Rightarrow> bool" where "is_tmu w \<longleftrightarrow> w \<in> {56, 57, 58, 59, 60, 61, 62, 63}"

lemmas qpu_value_defs = QPU_SIG_THREAD_SWITCH_def QPU_SIG_LAST_THREAD_SWITCH_def QPU_SIG_LOAD_TMU0_def
  QPU_SIG_LOAD_TMU1_def QPU_SIG_SMALL_IMM_def QPU_SIG_LOAD_IMM_def QPU_SIG_BRANCH_def QPU_R_UNIF_def
  QPU_R_VARY_def QPU_R_VPM_def QPU_W_NOP_def QPU_W_VPM_def

text \<open>Neither a semaphore access, nor a load of an immediate, nor a branch.\<close>

definition is_alu :: "u64 \<Rightarrow> bool" where
  "is_alu i \<longleftrightarrow> \<not> is_sem i \<and> sig_bits i \<noteq> QPU_SIG_LOAD_IMM \<and> sig_bits i \<noteq> QPU_SIG_BRANCH"

subsection \<open>The analysis of a program\<close>

text \<open>The increment of a counter under a condition.\<close>

definition count :: "bool \<Rightarrow> ((u32 \<Rightarrow> u32) \<Rightarrow> 's \<Rightarrow> 's) \<Rightarrow> 's \<Rightarrow> 's" where
  "count b upd s = (if b then upd (\<lambda>n. n + 1) s else s)"

definition has_thread_switch :: "u64 list \<Rightarrow> bool" where
  "has_thread_switch is \<longleftrightarrow> list_ex (\<lambda>i. sig_bits i = QPU_SIG_THREAD_SWITCH \<or> sig_bits i = QPU_SIG_LAST_THREAD_SWITCH) is"

text \<open>One instruction of a fragment shader; the number is that of the writes to the texture units.\<close>

definition frag_step :: "u64 \<Rightarrow> shaderModule \<times> u32 \<Rightarrow> shaderModule \<times> u32" where
  "frag_step i st = (let (s, numTMUwrites) = st;
     s = count (is_sfu (waddr_add i)) sm_numFragSFUoperations_update s;
     s = count (is_sfu (waddr_mul i)) sm_numFragSFUoperations_update s;
     numTMUwrites = numTMUwrites + of_bool (is_tmu (waddr_add i)) + of_bool (is_tmu (waddr_mul i));
     sample = (\<not> is_sem i \<and> (sig_bits i = QPU_SIG_LOAD_TMU0 \<or> sig_bits i = QPU_SIG_LOAD_TMU1));
     s = count sample sm_numTextureSamples_update s;
     s = count sample sm_numFragUniformReads_update s
   in if is_alu i then
     (let s = count True sm_numFragALUcycles_update s;
          s = count (waddr_add i = QPU_W_NOP) sm_numEmptyFragALUinstructions_update s;
          s = count (waddr_mul i = QPU_W_NOP) sm_numEmptyFragALUinstructions_update s;
          s = (if raddr_a i = QPU_R_VARY then count True sm_numVaryings_update s
               else count (raddr_a i = QPU_R_UNIF) sm_numFragUniformReads_update s);
          reg = (sig_bits i \<noteq> QPU_SIG_SMALL_IMM)
      in (if reg \<and> raddr_b i = QPU_R_VARY then count True sm_numVaryings_update s
          else count (reg \<and> raddr_b i = QPU_R_UNIF) sm_numFragUniformReads_update s, numTMUwrites))
   else (count (\<not> is_sem i \<and> sig_bits i = QPU_SIG_BRANCH) sm_numFragBranches_update s, numTMUwrites))"

definition analyse_fragment :: "u64 list \<Rightarrow> shaderModule \<Rightarrow> shaderModule" where
  "analyse_fragment is s = (let s = (if has_thread_switch is then s\<lparr>sm_hasThreadSwitch := 1\<rparr> else s);
     (s, numTMUwrites) = fold frag_step is (s, 0)
   in if numTMUwrites > 1 then s\<lparr>sm_numFragUniformReads := sm_numFragUniformReads s + numTMUwrites\<rparr> else s)"

text \<open>The counter of the vertex or of the coordinate shader.\<close>

definition count_stage ::
  "nat \<Rightarrow> bool \<Rightarrow> ((u32 \<Rightarrow> u32) \<Rightarrow> 's \<Rightarrow> 's) \<Rightarrow> ((u32 \<Rightarrow> u32) \<Rightarrow> 's \<Rightarrow> 's) \<Rightarrow> 's \<Rightarrow> 's" where
  "count_stage c b vert coord s =
     (if c = VK_RPI_ASSEMBLY_TYPE_VERTEX then count b vert s
      else if c = VK_RPI_ASSEMBLY_TYPE_COORDINATE then count b coord s else s)"

definition vert_step :: "nat \<Rightarrow> u64 \<Rightarrow> shaderModule \<Rightarrow> shaderModule" where
  "vert_step c i s = (let
     s = count_stage c (is_sfu (waddr_add i)) sm_numVertSFUoperations_update sm_numCoordSFUoperations_update s;
     s = count_stage c (is_sfu (waddr_mul i)) sm_numVertSFUoperations_update sm_numCoordSFUoperations_update s;
     s = count_stage c (waddr_add i = QPU_W_VPM \<or> waddr_mul i = QPU_W_VPM)
       sm_numVertVPMwrites_update sm_numCoordVPMwrites_update s
   in if is_alu i then
     (let s = count_stage c True sm_numVertALUcycles_update sm_numCoordALUcycles_update s;
          s = count_stage c (waddr_add i = QPU_W_NOP) sm_numEmptyVertALUinstructions_update sm_numEmptyCoordALUinstructions_update s;
          s = count_stage c (waddr_mul i = QPU_W_NOP) sm_numEmptyVertALUinstructions_update sm_numEmptyCoordALUinstructions_update s;
          s = (if raddr_a i = QPU_R_VPM then count_stage c True sm_numVertVPMreads_update sm_numCoordVPMreads_update s
               else count_stage c (raddr_a i = QPU_R_UNIF) sm_numVertUniformReads_update sm_numCoordUniformReads_update s);
          reg = (sig_bits i \<noteq> QPU_SIG_SMALL_IMM)
      in if reg \<and> raddr_b i = QPU_R_VPM then count_stage c True sm_numVertVPMreads_update sm_numCoordVPMreads_update s
         else count_stage c (reg \<and> raddr_b i = QPU_R_UNIF) sm_numVertUniformReads_update sm_numCoordUniformReads_update s)
   else count_stage c (\<not> is_sem i \<and> sig_bits i = QPU_SIG_BRANCH) sm_numVertBranches_update sm_numCoordBranches_update s)"

definition set_cycles :: "nat \<Rightarrow> u32 \<Rightarrow> shaderModule \<Rightarrow> shaderModule" where
  "set_cycles c n s =
     (if c = VK_RPI_ASSEMBLY_TYPE_FRAGMENT then s\<lparr>sm_numFragCycles := n\<rparr>
      else if c = VK_RPI_ASSEMBLY_TYPE_VERTEX then s\<lparr>sm_numVertCycles := n\<rparr>
      else if c = VK_RPI_ASSEMBLY_TYPE_COORDINATE then s\<lparr>sm_numCoordCycles := n\<rparr> else s)"

definition analyse :: "nat \<Rightarrow> u64 list \<Rightarrow> shaderModule \<Rightarrow> shaderModule" where
  "analyse c is s = (let
     s = (if c = VK_RPI_ASSEMBLY_TYPE_FRAGMENT then analyse_fragment is s else s);
     s = (if c = VK_RPI_ASSEMBLY_TYPE_VERTEX \<or> c = VK_RPI_ASSEMBLY_TYPE_COORDINATE then fold (vert_step c) is s else s)
   in set_cycles c (of_nat (length is)) s)"

subsection \<open>Creation and destruction\<close>

definition empty_module :: shaderModule where
  "empty_module = \<lparr>sm_bos = [], sm_sizes = [], sm_mappings = [], sm_hasThreadSwitch = 0,
     sm_numTextureSamples = 0, sm_numVaryings = 0, sm_numFragUniformReads = 0, sm_numVertUniformReads = 0,
     sm_numCoordUniformReads = 0, sm_numVertVPMreads = 0, sm_numCoordVPMreads = 0, sm_numVertVPMwrites = 0,
     sm_numCoordVPMwrites = 0, sm_numFragCycles = 0, sm_numVertCycles = 0, sm_numCoordCycles = 0,
     sm_numFragALUcycles = 0, sm_numVertALUcycles = 0, sm_numCoordALUcycles = 0,
     sm_numEmptyFragALUinstructions = 0, sm_numEmptyVertALUinstructions = 0,
     sm_numEmptyCoordALUinstructions = 0, sm_numFragBranches = 0, sm_numVertBranches = 0,
     sm_numCoordBranches = 0, sm_numFragSFUoperations = 0, sm_numVertSFUoperations = 0,
     sm_numCoordSFUoperations = 0\<rparr>"

text \<open>
  The program of stage \<open>c\<close>: the analysis and the buffer object.  The arrays of the stages grow with
  the stages that are done.
\<close>

definition stage_program ::
  "'k kernel \<Rightarrow> VkRpiShaderModuleAssemblyCreateInfoEXT \<Rightarrow> nat \<Rightarrow> 'k \<times> shaderModule \<Rightarrow> ('k \<times> shaderModule) option" where
  "stage_program K ci c st = (let (k, s) = st in do {
     instructions \<leftarrow> elem_at (sa_instructions ci) (of_nat c);
     case instructions of
       None \<Rightarrow> Some (k, s\<lparr>sm_bos := sm_bos s @ [0], sm_sizes := sm_sizes s @ [0]\<rparr>)
     | Some (data, is) \<Rightarrow> do {
         n \<leftarrow> elem_at (sa_numInstructions ci) (of_nat c);
         if length is < unat n then None
         else do {
           let s = analyse c (take (unat n) is) s;
           (k, bo, sz) \<leftarrow> vc4_bo_alloc_shader K k data (n * 8);
           Some (k, s\<lparr>sm_bos := sm_bos s @ [bo], sm_sizes := sm_sizes s @ [sz]\<rparr>) } } })"

text \<open>The mappings of stage \<open>c\<close>; the inner option is the result of the allocation.\<close>

definition stage_mappings ::
  "VkRpiShaderModuleAssemblyCreateInfoEXT \<Rightarrow> nat \<Rightarrow> bool list \<Rightarrow>
    (bool list \<times> VkRpiAssemblyMappingEXT list option) option" where
  "stage_mappings ci c allocs = (case sa_numMappings ci of
     None \<Rightarrow> Some (allocs, Some [])
   | Some numMappings \<Rightarrow> do {
       n \<leftarrow> elem_at numMappings (of_nat c);
       if n > 0 then do {
         ms \<leftarrow> elem_at (sa_mappings ci) (of_nat c);
         alloc_copy n (Some ms) allocs }
       else Some (allocs, Some []) })"

text \<open>The stages still to be done; \<open>None\<close> inside is a failed allocation, after which nothing is freed.\<close>

fun create_stages ::
  "'k kernel \<Rightarrow> VkRpiShaderModuleAssemblyCreateInfoEXT \<Rightarrow> nat list \<Rightarrow> bool list \<Rightarrow> 'k \<times> shaderModule \<Rightarrow>
    ('k \<times> shaderModule option) option" where
  "create_stages K ci [] allocs (k, s) = Some (k, Some s)"
| "create_stages K ci (c # cs) allocs (k, s) = do {
     (k, s) \<leftarrow> stage_program K ci c (k, s);
     (allocs, ms) \<leftarrow> stage_mappings ci c allocs;
     case ms of
       None \<Rightarrow> Some (k, None)
     | Some ms \<Rightarrow> create_stages K ci cs allocs (k, s\<lparr>sm_mappings := sm_mappings s @ [ms]\<rparr>) }"

text \<open>
  The application hides the address of its structure in the words of the code, after a magic number.
  \<open>allocs\<close> starts with the allocation of the module itself.
\<close>

definition vkCreateShaderModule ::
  "'k kernel \<Rightarrow> (addr \<rightharpoonup> VkRpiShaderModuleAssemblyCreateInfoEXT) \<Rightarrow> u32 list \<Rightarrow> bool list \<Rightarrow> 'k \<Rightarrow>
    ('k \<times> VkResult \<times> shaderModule option) option" where
  "vkCreateShaderModule K infos pCode allocs k = do {
     magic \<leftarrow> elem_at pCode 2;
     cip \<leftarrow> elem_at pCode 4;
     if magic \<noteq> 0x14E45250 then Some (k, VK_ERROR_OUT_OF_HOST_MEMORY, None)
     else case allocs of
       [] \<Rightarrow> None
     | False # as \<Rightarrow> Some (k, VK_ERROR_OUT_OF_HOST_MEMORY, None)
     | True # as \<Rightarrow> do {
         ci \<leftarrow> infos cip;
         (k, r) \<leftarrow> create_stages K ci [0..<VK_RPI_ASSEMBLY_TYPE_MAX] as (k, empty_module);
         case r of
           None \<Rightarrow> Some (k, VK_ERROR_OUT_OF_HOST_MEMORY, None)
         | Some s \<Rightarrow> Some (k, VK_SUCCESS, Some s) } }"

fun free_programs :: "'k kernel \<Rightarrow> (u32 \<times> u32) list \<Rightarrow> 'k \<Rightarrow> 'k" where
  "free_programs K [] k = k"
| "free_programs K ((bo, sz) # bs) k =
     free_programs K bs (if bo \<noteq> 0 then vc4_bo_free K k bo NULL sz else k)"

definition vkDestroyShaderModule ::
  "'k kernel \<Rightarrow> addr \<Rightarrow> (addr \<rightharpoonup> shaderModule) \<Rightarrow> 'k \<Rightarrow> ((addr \<rightharpoonup> shaderModule) \<times> 'k) option" where
  "vkDestroyShaderModule K p modules k =
     (if p = NULL then Some (modules, k)
      else do {
        s \<leftarrow> modules p;
        Some (modules(p := None), free_programs K (zip (sm_bos s) (sm_sizes s)) k) })"

end
