(* ===== verification/Memory_Map.thy ===== *)
theory Memory_Map
  imports Hash_Map Marker_Words
begin

text \<open>
  The hash maps of descriptor sets and pipeline layouts: the operations of driver/map.c on a table
  in memory, where an element is two words, the pointer and the key.  They compute what the
  operations of \<open>Hash_Map\<close> compute on the list of elements that the memory holds.
\<close>

subsection \<open>The code\<close>

record map_ref =
  mp_elements :: addr
  mp_maxData :: u32

definition sizeof_mapElem :: u32 where "sizeof_mapElem = 8"

definition elem_addr :: "addr \<Rightarrow> u32 \<Rightarrow> addr" where
  "elem_addr es i = es + i * sizeof_mapElem"

partial_function (option) mem_probe :: "mem \<Rightarrow> addr \<Rightarrow> u32 \<Rightarrow> u32 \<Rightarrow> u32 \<Rightarrow> u32 option" where
  "mem_probe m es maxData key index = do {
     k \<leftarrow> load32 m (elem_addr es index + 4);
     if k = key then Some index
     else do {
       d \<leftarrow> load32 m (elem_addr es index);
       if d \<noteq> 0 then mem_probe m es maxData key ((index + 1) mod maxData) else Some index } }"

declare mem_probe.simps [code]

definition mem_getMapElement :: "mem \<Rightarrow> map_ref \<Rightarrow> u32 \<Rightarrow> addr option" where
  "mem_getMapElement m r key = do {
     index \<leftarrow> getIndex key (mp_maxData r);
     i \<leftarrow> mem_probe m (mp_elements r) (mp_maxData r) key index;
     load32 m (elem_addr (mp_elements r) i) }"

definition mem_setMapElement :: "mem \<Rightarrow> map_ref \<Rightarrow> u32 \<Rightarrow> addr \<Rightarrow> mem option" where
  "mem_setMapElement m r key data = do {
     index \<leftarrow> getIndex key (mp_maxData r);
     i \<leftarrow> mem_probe m (mp_elements r) (mp_maxData r) key index;
     m \<leftarrow> store32 m (elem_addr (mp_elements r) i) data;
     store32 m (elem_addr (mp_elements r) i + 4) key }"

text \<open>The buckets from \<open>c\<close> on that are still to be emptied.\<close>

fun clear_buckets :: "mem \<Rightarrow> addr \<Rightarrow> u32 \<Rightarrow> nat \<Rightarrow> mem option" where
  "clear_buckets m es c 0 = Some m"
| "clear_buckets m es c (Suc n) = do { m \<leftarrow> store32 m (elem_addr es c) 0; clear_buckets m es (c + 1) n }"

definition mem_createMap :: "mem \<Rightarrow> addr \<Rightarrow> u32 \<Rightarrow> (mem \<times> map_ref) option" where
  "mem_createMap m buf maxData = do {
     m \<leftarrow> clear_buckets m buf 0 (unat maxData);
     Some (m, \<lparr>mp_elements = buf, mp_maxData = maxData\<rparr>) }"

subsection \<open>A table in memory\<close>

definition table_words :: "mapElem list \<Rightarrow> u32 list" where
  "table_words els = concat (map (\<lambda>e. [me_data e, me_key e]) els)"

definition table_at :: "mem \<Rightarrow> map_ref \<Rightarrow> hashmap \<Rightarrow> bool" where
  "table_at m r h \<longleftrightarrow> words_at m (mp_elements r) (table_words (hm_elements h)) \<and>
     hm_maxData h = mp_maxData r \<and> length (hm_elements h) = unat (mp_maxData r)"

text \<open>The table that the memory holds.\<close>

definition table_of :: "mem \<Rightarrow> map_ref \<Rightarrow> hashmap" where
  "table_of m r = \<lparr>hm_elements = map (\<lambda>i. \<lparr>me_data = the (load32 m (elem_addr (mp_elements r) (of_nat i))),
     me_key = the (load32 m (elem_addr (mp_elements r) (of_nat i) + 4))\<rparr>) [0..<unat (mp_maxData r)],
     hm_maxData = mp_maxData r\<rparr>"

lemma length_table_words [simp]: "length (table_words els) = 2 * length els"
  by (induction els) (simp_all add: table_words_def)

lemma table_words_nth:
  "i < length els \<Longrightarrow> table_words els ! (2 * i) = me_data (els ! i) \<and> table_words els ! Suc (2 * i) = me_key (els ! i)"
proof (induction els arbitrary: i)
  case (Cons e els)
  then show ?case by (cases i) (simp_all add: table_words_def)
qed simp

lemma table_words_update:
  "i < length els \<Longrightarrow> (table_words els)[2 * i := d, Suc (2 * i) := k] = table_words (els[i := \<lparr>me_data = d, me_key = k\<rparr>])"
proof (induction els arbitrary: i)
  case (Cons e els)
  then show ?case by (cases i) (simp_all add: table_words_def)
qed simp

lemma elem_addr_nat: "elem_addr es (of_nat i) = es + of_nat (4 * (2 * i))" "elem_addr es (of_nat i) + 4 = es + of_nat (4 * Suc (2 * i))"
  by (simp_all add: elem_addr_def sizeof_mapElem_def algebra_simps)

lemma table_load:
  assumes "table_at m r h" "i < length (hm_elements h)"
  shows "load32 m (elem_addr (mp_elements r) (of_nat i)) = Some (me_data (hm_elements h ! i))"
    "load32 m (elem_addr (mp_elements r) (of_nat i) + 4) = Some (me_key (hm_elements h ! i))"
proof -
  let ?ws = "table_words (hm_elements h)"
  have ws: "words_at m (mp_elements r) ?ws" using assms(1) by (simp add: table_at_def)
  have "2 * i < length ?ws" "Suc (2 * i) < length ?ws" using assms(2) by simp_all
  from words_at_nth [OF ws this(1)] words_at_nth [OF ws this(2)] table_words_nth [OF assms(2)]
  have "load32 m (mp_elements r + of_nat (4 * (2 * i))) = Some (me_data (hm_elements h ! i))"
    "load32 m (mp_elements r + of_nat (4 * Suc (2 * i))) = Some (me_key (hm_elements h ! i))" by simp_all
  then show "load32 m (elem_addr (mp_elements r) (of_nat i)) = Some (me_data (hm_elements h ! i))"
    "load32 m (elem_addr (mp_elements r) (of_nat i) + 4) = Some (me_key (hm_elements h ! i))"
    by (simp_all only: elem_addr_nat(2)) (simp only: elem_addr_nat(1))
qed

lemma table_of: "table_at m r h \<Longrightarrow> table_of m r = h"
proof -
  assume t: "table_at m r h"
  then have len: "length (hm_elements h) = unat (mp_maxData r)" "hm_maxData h = mp_maxData r" by (simp_all add: table_at_def)
  have "map (\<lambda>i. \<lparr>me_data = the (load32 m (elem_addr (mp_elements r) (of_nat i))),
      me_key = the (load32 m (elem_addr (mp_elements r) (of_nat i) + 4))\<rparr>) [0..<unat (mp_maxData r)] = hm_elements h"
    by (rule nth_equalityI) (use len table_load [OF t] in simp_all)
  then show "table_of m r = h" using len by (simp add: table_of_def)
qed

subsection \<open>The operations are those on the list of elements\<close>

lemma probe_mem:
  assumes "table_at m r h" "unat index < unat (mp_maxData r)"
  shows "mem_probe m (mp_elements r) (mp_maxData r) key index = probe (hm_elements h) (mp_maxData r) key index"
proof -
  have len: "length (hm_elements h) = unat (mp_maxData r)" using assms(1) by (simp add: table_at_def)
  have load: "load32 m (elem_addr (mp_elements r) index) = Some (me_data (hm_elements h ! unat index))"
      "load32 m (elem_addr (mp_elements r) index + 4) = Some (me_key (hm_elements h ! unat index))"
    if "unat index < unat (mp_maxData r)" for index
    using table_load [OF assms(1), of "unat index"] that len by simp_all
  have nxt: "unat ((index + 1) mod mp_maxData r) < unat (mp_maxData r)" for index :: u32
    using assms(2) by (simp add: unat_mod)
  have to: "probe (hm_elements h) (mp_maxData r) key index = Some i"
    if "mem_probe m (mp_elements r) (mp_maxData r) key index = Some i" "unat index < unat (mp_maxData r)" for i index
  proof -
    have "m = m \<longrightarrow> mp_elements r = mp_elements r \<longrightarrow> mp_maxData r = mp_maxData r \<longrightarrow> unat index < unat (mp_maxData r) \<longrightarrow>
        probe (hm_elements h) (mp_maxData r) key index = Some i"
      by (rule mem_probe.raw_induct [where P = "\<lambda>m' es md key index i. m' = m \<longrightarrow> es = mp_elements r \<longrightarrow>
          md = mp_maxData r \<longrightarrow> unat index < unat (mp_maxData r) \<longrightarrow> probe (hm_elements h) md key index = Some i", OF _ that(1)])
        (subst probe.simps, use load nxt len in \<open>auto split: if_splits\<close>)
    then show ?thesis using that(2) by simp
  qed
  have fro: "mem_probe m (mp_elements r) (mp_maxData r) key index = Some i"
    if "probe (hm_elements h) (mp_maxData r) key index = Some i" "unat index < unat (mp_maxData r)" for i index
  proof -
    have "hm_elements h = hm_elements h \<longrightarrow> mp_maxData r = mp_maxData r \<longrightarrow> unat index < unat (mp_maxData r) \<longrightarrow>
        mem_probe m (mp_elements r) (mp_maxData r) key index = Some i"
      by (rule probe.raw_induct [where P = "\<lambda>es md key index i. es = hm_elements h \<longrightarrow>
          md = mp_maxData r \<longrightarrow> unat index < unat (mp_maxData r) \<longrightarrow> mem_probe m (mp_elements r) md key index = Some i", OF _ that(1)])
        (subst mem_probe.simps, use load nxt len in \<open>auto split: if_splits\<close>)
    then show ?thesis using that(2) by simp
  qed
  show ?thesis using to [OF _ assms(2)] fro [OF _ assms(2)] by (metis option.exhaust)
qed

lemma index_lt: "getIndex key md = Some index \<Longrightarrow> unat index < unat md"
  by (auto simp: getIndex_def Let_def unat_mod unat_gt_0 split: if_splits)

lemma index_limit:
  assumes "getIndex key md = Some index"
  shows "unat md \<le> 32"
proof -
  have "unat (32 - md) < 32" "md \<noteq> 0" using assms by (auto simp: getIndex_def Let_def split: if_splits)
  then show ?thesis by unat_arith
qed

lemma mem_get:
  assumes "table_at m r h"
  shows "mem_getMapElement m r key = getMapElement h key"
proof -
  have md: "hm_maxData h = mp_maxData r" using assms by (simp add: table_at_def)
  show ?thesis
  proof (cases "getIndex key (mp_maxData r)")
    case (Some index)
    note lt = index_lt [OF Some]
    show ?thesis
    proof (cases "probe (hm_elements h) (mp_maxData r) key index")
      case (Some i)
      have "unat i < length (hm_elements h)" using probe_stops [OF Some] by simp
      from table_load [OF assms this] show ?thesis
        using Some \<open>getIndex key (mp_maxData r) = Some index\<close> md probe_mem [OF assms lt]
        by (simp add: mem_getMapElement_def getMapElement_def)
    qed (use Some md probe_mem [OF assms lt] in \<open>simp add: mem_getMapElement_def getMapElement_def\<close>)
  qed (simp add: mem_getMapElement_def getMapElement_def md)
qed

lemma table_limit: "table_at m r h \<Longrightarrow> 4 * length (table_words (hm_elements h)) \<le> 2 ^ 32 \<longleftrightarrow> unat (mp_maxData r) \<le> 2 ^ 29"
  by (simp add: table_at_def)

lemma mem_set:
  assumes "table_at m r h" "setMapElement h key d = Some h'"
  obtains m' where "mem_setMapElement m r key d = Some m'" "table_at m' r h'" "dom m' = dom m"
    "\<And>x. x \<notin> extent (mp_elements r) (8 * unat (mp_maxData r)) \<Longrightarrow> m' x = m x"
proof -
  let ?es = "hm_elements h" and ?a = "mp_elements r"
  have len: "length ?es = unat (mp_maxData r)" and md: "hm_maxData h = mp_maxData r" and ws: "words_at m ?a (table_words ?es)"
    using assms(1) by (simp_all add: table_at_def)
  obtain index i where ix: "getIndex key (mp_maxData r) = Some index" "probe ?es (mp_maxData r) key index = Some i"
      "h' = h\<lparr>hm_elements := ?es[unat i := \<lparr>me_data = d, me_key = key\<rparr>]\<rparr>"
    using assms(2) md by (auto simp: setMapElement_def bind_Some_iff)
  have i: "unat i < length ?es" using probe_stops [OF ix(2)] by simp
  have "unat (mp_maxData r) \<le> 32" using index_limit [OF ix(1)] .
  then have lim: "4 * length (table_words ?es) \<le> 2 ^ 32" using len by simp
  from words_at_store [OF ws, of "2 * unat i" d] i lim obtain m1 where
    m1: "store32 m (?a + of_nat (4 * (2 * unat i))) d = Some m1" "words_at m1 ?a ((table_words ?es)[2 * unat i := d])"
      "dom m1 = dom m" "\<And>x. x \<notin> extent ?a (4 * length (table_words ?es)) \<Longrightarrow> m1 x = m x" by auto
  from words_at_store [OF m1(2), of "Suc (2 * unat i)" key] i lim obtain m2 where
    m2: "store32 m1 (?a + of_nat (4 * Suc (2 * unat i))) key = Some m2"
      "words_at m2 ?a ((table_words ?es)[2 * unat i := d, Suc (2 * unat i) := key])"
      "dom m2 = dom m1" "\<And>x. x \<notin> extent ?a (4 * length (table_words ?es)) \<Longrightarrow> m2 x = m1 x" by auto
  show ?thesis
  proof (rule that [of m2])
    show "mem_setMapElement m r key d = Some m2"
      using ix m1(1) m2(1) probe_mem [OF assms(1) index_lt [OF ix(1)]] elem_addr_nat [of ?a "unat i"]
      by (simp add: mem_setMapElement_def add.assoc) (simp add: algebra_simps)
    show "table_at m2 r h'" using m2(2) table_words_update [OF i] len md ix(3) by (simp add: table_at_def)
    show "dom m2 = dom m" using m1(3) m2(3) by simp
    fix x assume "x \<notin> extent ?a (8 * unat (mp_maxData r))"
    then show "m2 x = m x" using m1(4) m2(4) len by simp
  qed
qed

lemma words_exist: "extent a (4 * n) \<subseteq> dom m \<Longrightarrow> \<exists>ws. words_at m a ws \<and> length ws = n"
proof (induction n arbitrary: a)
  case (Suc n)
  have "extent a (4 + 4 * n) = extent a 4 \<union> extent (a + 4) (4 * n)" using extent_add [of a 4 "4 * n"] by simp
  then have sub: "extent a 4 \<subseteq> dom m" "extent (a + 4) (4 * n) \<subseteq> dom m" using Suc.prems by auto
  obtain v where "load32 m a = Some v" using sub(1) load32_defined [of m a] by blast
  moreover obtain ws where "words_at m (a + 4) ws" "length ws = n" using Suc.IH [OF sub(2)] by blast
  ultimately show ?case by (intro exI [of _ "v # ws"]) simp
qed simp

lemma table_exists: "extent a (8 * n) \<subseteq> dom m \<Longrightarrow> \<exists>els. words_at m a (table_words els) \<and> length els = n"
proof (induction n arbitrary: a)
  case 0
  then show ?case by (intro exI [of _ "[]"]) (simp add: table_words_def)
next
  case (Suc n)
  have "extent a (8 + 8 * n) = extent a 8 \<union> extent (a + 8) (8 * n)" using extent_add [of a 8 "8 * n"] by simp
  then have sub: "extent a (4 * 2) \<subseteq> dom m" "extent (a + 8) (8 * n) \<subseteq> dom m" using Suc.prems by auto
  obtain ws where ws: "words_at m a ws" "length ws = 2" using words_exist [OF sub(1)] by blast
  then obtain d k where dk: "ws = [d, k]" by (cases ws; cases "tl ws") auto
  obtain els where els: "words_at m (a + 8) (table_words els)" "length els = n" using Suc.IH [OF sub(2)] by blast
  have "words_at m a (table_words (\<lparr>me_data = d, me_key = k\<rparr> # els))"
    using ws(1) els(1) dk by (simp add: table_words_def add.assoc)
  then show ?case using els(2) by (intro exI [of _ "\<lparr>me_data = d, me_key = k\<rparr> # els"]) simp
qed

lemma table_words_clear:
  "i < length els \<Longrightarrow> (table_words els)[2 * i := d] = table_words (els[i := (els ! i)\<lparr>me_data := d\<rparr>])"
proof (induction els arbitrary: i)
  case (Cons e els)
  then show ?case by (cases i) (simp_all add: table_words_def)
qed simp

abbreviation freed :: "mapElem \<Rightarrow> mapElem" where "freed e \<equiv> e\<lparr>me_data := 0\<rparr>"

lemma clear_buckets_words:
  assumes "words_at m a (table_words (map freed xs @ els))" "length xs + length els \<le> 2 ^ 28"
  shows "\<exists>m'. clear_buckets m a (of_nat (length xs)) (length els) = Some m' \<and>
    words_at m' a (table_words (map freed (xs @ els))) \<and> dom m' = dom m \<and>
    (\<forall>x. x \<notin> extent a (8 * (length xs + length els)) \<longrightarrow> m' x = m x)"
  using assms
proof (induction els arbitrary: m xs)
  case (Cons e els)
  let ?es = "map freed xs @ e # els"
  have i: "length xs < length ?es" "4 * length (table_words ?es) \<le> 2 ^ 32" using Cons.prems(2) by simp_all
  from words_at_store [OF Cons.prems(1), of "2 * length xs" 0] i obtain m1 where
    m1: "store32 m (a + of_nat (4 * (2 * length xs))) 0 = Some m1" "words_at m1 a ((table_words ?es)[2 * length xs := 0])"
      "dom m1 = dom m" "\<And>x. x \<notin> extent a (4 * length (table_words ?es)) \<Longrightarrow> m1 x = m x" by auto
  have "words_at m1 a (table_words (map freed (xs @ [e]) @ els))"
    using m1(2) table_words_clear [OF i(1), of 0] by (simp add: nth_append list_update_append)
  from Cons.IH [OF this] Cons.prems(2) obtain m' where
    m': "clear_buckets m1 a (of_nat (length (xs @ [e]))) (length els) = Some m'"
      "words_at m' a (table_words (map freed ((xs @ [e]) @ els)))" "dom m' = dom m1"
      "\<And>x. x \<notin> extent a (8 * (length (xs @ [e]) + length els)) \<Longrightarrow> m' x = m1 x" by auto
  show ?case
  proof (intro exI [of _ m'] conjI allI impI)
    show "clear_buckets m a (of_nat (length xs)) (length (e # els)) = Some m'"
      using m1(1) m'(1) elem_addr_nat(1) [of a "length xs"] by (simp add: add.commute)
    show "words_at m' a (table_words (map freed (xs @ e # els)))" using m'(2) by simp
    show "dom m' = dom m" using m1(3) m'(3) by simp
    show "m' x = m x" if "x \<notin> extent a (8 * (length xs + length (e # els)))" for x
      using that m1(4) [of x] m'(4) [of x] by simp
  qed
qed simp

lemma mem_create:
  assumes "extent buf (8 * unat n) \<subseteq> dom m" "0 < unat n" "unat n \<le> 32"
  obtains m' h where "mem_createMap m buf n = Some (m', \<lparr>mp_elements = buf, mp_maxData = n\<rparr>)"
    "table_at m' \<lparr>mp_elements = buf, mp_maxData = n\<rparr> h" "map_inv (unat n) h" "map_view h = Map.empty"
    "dom m' = dom m" "\<And>x. x \<notin> extent buf (8 * unat n) \<Longrightarrow> m' x = m x"
proof -
  obtain els where els: "words_at m buf (table_words els)" "length els = unat n"
    using table_exists [OF assms(1)] by blast
  obtain m' where m': "clear_buckets m buf 0 (unat n) = Some m'" "words_at m' buf (table_words (map freed els))"
      "dom m' = dom m" "\<And>x. x \<notin> extent buf (8 * unat n) \<Longrightarrow> m' x = m x"
    using clear_buckets_words [of m buf "[]" els] els assms(3) by auto
  obtain h where h: "createMap els n = Some h" "map_inv (unat n) h" "map_view h = Map.empty"
    using create_inv [OF assms(2,3) els(2)] by blast
  then have "hm_elements h = map freed els" "hm_maxData h = n" using els(2) by (auto simp: createMap_def)
  then have "table_at m' \<lparr>mp_elements = buf, mp_maxData = n\<rparr> h" using m'(2) els(2) by (simp add: table_at_def)
  then show ?thesis using that m' h by (simp add: mem_createMap_def)
qed

subsection \<open>A table in memory is a lookup table\<close>

definition mem_map_inv :: "map_ref \<Rightarrow> nat \<Rightarrow> mem \<Rightarrow> bool" where
  "mem_map_inv r n m \<longleftrightarrow> (\<exists>h. table_at m r h \<and> map_inv n h)"

definition mem_map_view :: "map_ref \<Rightarrow> mem \<Rightarrow> u32 \<Rightarrow> addr option" where
  "mem_map_view r m = map_view (table_of m r)"

lemma mem_map_view: "table_at m r h \<Longrightarrow> mem_map_view r m = map_view h"
  by (simp add: mem_map_view_def table_of)

interpretation mem_table: lookup_table "mem_map_inv r" "mem_map_view r" "\<lambda>m. mem_setMapElement m r"
  "\<lambda>m. mem_getMapElement m r" 0 for r
proof
  fix n m and key :: u32 and d :: addr
  assume "mem_map_inv r n m"
  then obtain h where h: "table_at m r h" "map_inv n h" by (auto simp: mem_map_inv_def)
  note [simp] = mem_map_view [OF h(1)] mem_get [OF h(1)]
  show "finite (dom (mem_map_view r m)) \<and> card (dom (mem_map_view r m)) \<le> n"
    using hash.view_card [OF h(2)] by simp
  show "mem_map_view r m key = Some d \<Longrightarrow> mem_getMapElement m r key = Some d"
    using hash.lookup_found [OF h(2)] by simp
  show "mem_map_view r m key = None \<Longrightarrow> card (dom (mem_map_view r m)) < n \<Longrightarrow> mem_getMapElement m r key = Some 0"
    using hash.lookup_missing [OF h(2)] by simp
  show "mem_map_view r m key = None \<Longrightarrow> card (dom (mem_map_view r m)) = n \<Longrightarrow> mem_getMapElement m r key = None"
    using hash.lookup_full [OF h(2)] by simp
  assume "d \<noteq> 0" "key \<in> dom (mem_map_view r m) \<or> card (dom (mem_map_view r m)) < n"
  then obtain h' where h': "setMapElement h key d = Some h'" "map_inv n h'" "map_view h' = (map_view h)(key \<mapsto> d)"
    using hash.store_ok [OF h(2), of d key] by auto
  obtain m' where "mem_setMapElement m r key d = Some m'" "table_at m' r h'" by (rule mem_set [OF h(1) h'(1)])
  then show "\<exists>s'. mem_setMapElement m r key d = Some s' \<and> mem_map_inv r n s' \<and>
      mem_map_view r s' = (mem_map_view r m)(key \<mapsto> d)"
    using h' by (auto simp: mem_map_inv_def mem_map_view)
qed

end
