(* ===== verification/Pipelines.thy ===== *)
theory Pipelines
  imports Shader_Module Memory_Map
begin

text \<open>
  driver/pipeline.c: graphics pipelines and pipeline layouts.  A pipeline copies the state of its
  create info, but for the state that is dynamic; fields that are not set keep what the memory of
  the new object holds (\<open>stale\<close>), and so do the elements of a new array.  A pipeline layout owns the
  map in which the bound descriptor sets are recorded.
\<close>

unbundle bit_operations_syntax

subsection \<open>The structures\<close>

record VkVertexInputBindingDescription =
  vb_binding :: u32
  vb_stride :: u32
  vb_inputRate :: u32

record VkVertexInputAttributeDescription =
  va_location :: u32
  va_binding :: u32
  va_format :: VkFormat
  va_offset :: u32

datatype VkDynamicState = VK_DYNAMIC_STATE_VIEWPORT | VK_DYNAMIC_STATE_SCISSOR
  | VK_DYNAMIC_STATE_LINE_WIDTH | VK_DYNAMIC_STATE_DEPTH_BIAS | VK_DYNAMIC_STATE_BLEND_CONSTANTS
  | VK_DYNAMIC_STATE_DEPTH_BOUNDS | VK_DYNAMIC_STATE_STENCIL_COMPARE_MASK
  | VK_DYNAMIC_STATE_STENCIL_WRITE_MASK | VK_DYNAMIC_STATE_STENCIL_REFERENCE
  | VK_DYNAMIC_STATE_other u32

text \<open>The blend state of an attachment is only copied, so its type \<open>'b\<close> is left open.\<close>

record 'b pipeline =
  pl_modules :: "addr list"
  pl_names :: "string option list"
  pl_vertexBindingDescriptions :: "VkVertexInputBindingDescription list"
  pl_vertexAttributeDescriptions :: "VkVertexInputAttributeDescription list"
  pl_topology :: VkPrimitiveTopology
  pl_primitiveRestartEnable :: u32
  pl_viewports :: "VkViewport list"
  pl_scissors :: "VkRect2D list"
  pl_depthClampEnable :: u32
  pl_rasterizerDiscardEnable :: u32
  pl_polygonMode :: u32
  pl_cullMode :: u32
  pl_frontFace :: u32
  pl_depthBiasEnable :: u32
  pl_depthBiasConstantFactor :: u32
  pl_depthBiasClamp :: u32
  pl_depthBiasSlopeFactor :: u32
  pl_lineWidth :: u32
  pl_rasterizationSamples :: u32
  pl_sampleShadingEnable :: u32
  pl_minSampleShading :: u32
  pl_sampleMask :: u32
  pl_alphaToCoverageEnable :: u32
  pl_alphaToOneEnable :: u32
  pl_depthTestEnable :: u32
  pl_depthWriteEnable :: u32
  pl_depthCompareOp :: VkCompareOp
  pl_depthBoundsTestEnable :: u32
  pl_stencilTestEnable :: u32
  pl_front :: VkStencilOpState
  pl_back :: VkStencilOpState
  pl_minDepthBounds :: u32
  pl_maxDepthBounds :: u32
  pl_logicOpEnable :: u32
  pl_logicOp :: u32
  pl_attachmentBlendStates :: "'b list"
  pl_blendConstants :: "u32 list"
  pl_dynamicStates :: "VkDynamicState list"
  pl_layout :: addr
  pl_renderPass :: addr
  pl_subpass :: u32

text \<open>The parts of the create info.  A pointer to a part may be null.\<close>

record VkPipelineShaderStageCreateInfo =
  ss_stage :: u32
  ss_module :: addr
  ss_pName :: string

record VkPipelineRasterizationStateCreateInfo =
  rs_depthClampEnable :: u32
  rs_rasterizerDiscardEnable :: u32
  rs_polygonMode :: u32
  rs_cullMode :: u32
  rs_frontFace :: u32
  rs_depthBiasEnable :: u32
  rs_depthBiasConstantFactor :: u32
  rs_depthBiasClamp :: u32
  rs_depthBiasSlopeFactor :: u32
  rs_lineWidth :: u32

record VkPipelineMultisampleStateCreateInfo =
  ms_rasterizationSamples :: u32
  ms_sampleShadingEnable :: u32
  ms_minSampleShading :: u32
  ms_pSampleMask :: "u32 option"
  ms_alphaToCoverageEnable :: u32
  ms_alphaToOneEnable :: u32

record VkPipelineDepthStencilStateCreateInfo =
  dss_depthTestEnable :: u32
  dss_depthWriteEnable :: u32
  dss_depthCompareOp :: VkCompareOp
  dss_depthBoundsTestEnable :: u32
  dss_stencilTestEnable :: u32
  dss_front :: VkStencilOpState
  dss_back :: VkStencilOpState
  dss_minDepthBounds :: u32
  dss_maxDepthBounds :: u32

record 'b VkPipelineColorBlendStateCreateInfo =
  cbs_sType :: u32
  cbs_pNext :: addr
  cbs_flags :: u32
  cbs_logicOpEnable :: u32
  cbs_logicOp :: u32
  cbs_attachmentCount :: u32
  cbs_pAttachments :: "'b list"
  cbs_blendConstants :: "u32 list"

record 'b VkGraphicsPipelineCreateInfo =
  gp_stageCount :: u32
  gp_pStages :: "VkPipelineShaderStageCreateInfo list"
  gp_vertexBindingDescriptionCount :: u32
  gp_pVertexBindingDescriptions :: "VkVertexInputBindingDescription list"
  gp_vertexAttributeDescriptionCount :: u32
  gp_pVertexAttributeDescriptions :: "VkVertexInputAttributeDescription list"
  gp_topology :: VkPrimitiveTopology
  gp_primitiveRestartEnable :: u32
  gp_viewportCount :: u32
  gp_pViewports :: "VkViewport list"
  gp_scissorCount :: u32
  gp_pScissors :: "VkRect2D list"
  gp_pRasterizationState :: VkPipelineRasterizationStateCreateInfo
  gp_pMultisampleState :: "VkPipelineMultisampleStateCreateInfo option"
  gp_pDepthStencilState :: "VkPipelineDepthStencilStateCreateInfo option"
  gp_pColorBlendState :: "'b VkPipelineColorBlendStateCreateInfo option"
  gp_pDynamicState :: "(u32 \<times> VkDynamicState list) option"
  gp_layout :: addr
  gp_renderPass :: addr
  gp_subpass :: u32

subsection \<open>vkCreateGraphicsPipelines\<close>

text \<open>An allocation with a copy; a failure ends the call.\<close>

definition alloc_or_fail ::
  "u32 \<Rightarrow> 'a list option \<Rightarrow> bool list \<Rightarrow> ('a list \<Rightarrow> bool list \<Rightarrow> (bool list \<times> 'r option) option) \<Rightarrow>
    (bool list \<times> 'r option) option" where
  "alloc_or_fail n src allocs f = do {
     (as, r) \<leftarrow> alloc_copy n src allocs;
     case r of None \<Rightarrow> Some (as, None) | Some xs \<Rightarrow> f xs as }"

text \<open>The stages: the arrays of modules and names have six elements.\<close>

fun copy_stages ::
  "VkPipelineShaderStageCreateInfo list \<Rightarrow> bool list \<Rightarrow> addr list \<times> string option list \<Rightarrow>
    (bool list \<times> (addr list \<times> string option list) option) option" where
  "copy_stages [] allocs mn = Some (allocs, Some mn)"
| "copy_stages (st # sts) allocs (modules, names) = do {
     let idx = ulog2 (ss_stage st);
     modules \<leftarrow> put_at modules idx (ss_module st);
     alloc_or_fail (of_nat (length (ss_pName st))) (Some (ss_pName st)) allocs (\<lambda>name as. do {
       names \<leftarrow> put_at names idx (Some name);
       copy_stages sts as (modules, names) }) }"

definition dynamic :: "'b VkGraphicsPipelineCreateInfo \<Rightarrow> VkDynamicState \<Rightarrow> bool" where
  "dynamic ci st = (case gp_pDynamicState ci of None \<Rightarrow> False | Some (n, sts) \<Rightarrow> st \<in> set (take (unat n) sts))"

definition copy_rasterization :: "'b VkGraphicsPipelineCreateInfo \<Rightarrow> 'b pipeline \<Rightarrow> 'b pipeline" where
  "copy_rasterization ci pip = (let r = gp_pRasterizationState ci;
     pip = pip\<lparr>pl_depthClampEnable := rs_depthClampEnable r, pl_rasterizerDiscardEnable := rs_rasterizerDiscardEnable r,
       pl_polygonMode := rs_polygonMode r, pl_cullMode := rs_cullMode r, pl_frontFace := rs_frontFace r,
       pl_depthBiasEnable := rs_depthBiasEnable r\<rparr>;
     pip = (if dynamic ci VK_DYNAMIC_STATE_DEPTH_BIAS then pip
       else pip\<lparr>pl_depthBiasConstantFactor := rs_depthBiasConstantFactor r, pl_depthBiasClamp := rs_depthBiasClamp r,
         pl_depthBiasSlopeFactor := rs_depthBiasSlopeFactor r\<rparr>)
   in if dynamic ci VK_DYNAMIC_STATE_LINE_WIDTH then pip else pip\<lparr>pl_lineWidth := rs_lineWidth r\<rparr>)"

definition copy_multisample :: "VkPipelineMultisampleStateCreateInfo \<Rightarrow> 'b pipeline \<Rightarrow> 'b pipeline" where
  "copy_multisample s pip = pip\<lparr>pl_rasterizationSamples := ms_rasterizationSamples s,
     pl_sampleShadingEnable := ms_sampleShadingEnable s, pl_minSampleShading := ms_minSampleShading s,
     pl_sampleMask := (case ms_pSampleMask s of Some x \<Rightarrow> x | None \<Rightarrow> 0),
     pl_alphaToCoverageEnable := ms_alphaToCoverageEnable s, pl_alphaToOneEnable := ms_alphaToOneEnable s\<rparr>"

text \<open>A face: the operations are always copied, the masks and the reference unless they are dynamic.\<close>

definition copy_face :: "'b VkGraphicsPipelineCreateInfo \<Rightarrow> VkStencilOpState \<Rightarrow> VkStencilOpState \<Rightarrow> VkStencilOpState" where
  "copy_face ci src dst = (let
     f = dst\<lparr>compareOp := compareOp src, depthFailOp := depthFailOp src, failOp := failOp src, passOp := passOp src\<rparr>;
     f = (if dynamic ci VK_DYNAMIC_STATE_STENCIL_COMPARE_MASK then f else f\<lparr>compareMask := compareMask src\<rparr>);
     f = (if dynamic ci VK_DYNAMIC_STATE_STENCIL_WRITE_MASK then f else f\<lparr>writeMask := writeMask src\<rparr>)
   in if dynamic ci VK_DYNAMIC_STATE_STENCIL_REFERENCE then f else f\<lparr>reference := reference src\<rparr>)"

definition copy_depth_stencil ::
  "'b VkGraphicsPipelineCreateInfo \<Rightarrow> VkPipelineDepthStencilStateCreateInfo \<Rightarrow> 'b pipeline \<Rightarrow> 'b pipeline" where
  "copy_depth_stencil ci d pip = (let
     pip = pip\<lparr>pl_depthTestEnable := dss_depthTestEnable d, pl_depthWriteEnable := dss_depthWriteEnable d,
       pl_depthCompareOp := dss_depthCompareOp d, pl_depthBoundsTestEnable := dss_depthBoundsTestEnable d,
       pl_stencilTestEnable := dss_stencilTestEnable d,
       pl_front := copy_face ci (dss_front d) (pl_front pip), pl_back := copy_face ci (dss_back d) (pl_back pip)\<rparr>
   in if dynamic ci VK_DYNAMIC_STATE_DEPTH_BOUNDS then pip
      else pip\<lparr>pl_minDepthBounds := dss_minDepthBounds d, pl_maxDepthBounds := dss_maxDepthBounds d\<rparr>)"

text \<open>
  The blend constants: the source of the copy is the structure itself, so they get its first four
  words.
\<close>

definition copy_blend_constants ::
  "'b VkGraphicsPipelineCreateInfo \<Rightarrow> 'b VkPipelineColorBlendStateCreateInfo \<Rightarrow> 'b pipeline \<Rightarrow> 'b pipeline" where
  "copy_blend_constants ci c pip = (if dynamic ci VK_DYNAMIC_STATE_BLEND_CONSTANTS then pip
     else pip\<lparr>pl_blendConstants := [cbs_sType c, cbs_pNext c, cbs_flags c, cbs_logicOpEnable c]\<rparr>)"

text \<open>
  The arrays of viewports and scissors, which both have the number of viewports as their size; \<open>vs\<close>
  and \<open>ss\<close> are what the new arrays hold.
\<close>

definition copy_viewports :: "'b VkGraphicsPipelineCreateInfo \<Rightarrow> VkViewport list \<Rightarrow> VkViewport list option" where
  "copy_viewports ci vs = (let n = unat (gp_viewportCount ci) in
     if dynamic ci VK_DYNAMIC_STATE_VIEWPORT then Some (take n vs)
     else if length (gp_pViewports ci) < n then None else Some (take n (gp_pViewports ci)))"

definition copy_scissors :: "'b VkGraphicsPipelineCreateInfo \<Rightarrow> VkRect2D list \<Rightarrow> VkRect2D list option" where
  "copy_scissors ci ss = (let n = unat (gp_viewportCount ci); k = unat (gp_scissorCount ci) in
     if dynamic ci VK_DYNAMIC_STATE_SCISSOR then Some (take n ss)
     else if length (gp_pScissors ci) < k \<or> n < k then None
     else Some (take k (gp_pScissors ci) @ drop k (take n ss)))"

text \<open>
  One pipeline.  \<open>stale\<close> is what the memory of the object holds, its arrays what the memory of the new
  arrays holds.
\<close>

definition create_pipeline ::
  "'b VkGraphicsPipelineCreateInfo \<Rightarrow> 'b pipeline \<Rightarrow> bool list \<Rightarrow> (bool list \<times> 'b pipeline option) option" where
  "create_pipeline ci stale allocs =
     alloc_or_fail 0 (Some [()]) allocs (\<lambda>_ as.
       if length (gp_pStages ci) < unat (gp_stageCount ci) then None
       else do {
         (as, mn) \<leftarrow> copy_stages (take (unat (gp_stageCount ci)) (gp_pStages ci)) as (replicate 6 NULL, replicate 6 None);
         case mn of None \<Rightarrow> Some (as, None) | Some (modules, names) \<Rightarrow>
         alloc_or_fail (gp_vertexAttributeDescriptionCount ci) (Some (gp_pVertexAttributeDescriptions ci)) as (\<lambda>attributes as.
         alloc_or_fail (gp_vertexBindingDescriptionCount ci) (Some (gp_pVertexBindingDescriptions ci)) as (\<lambda>bindings as.
         alloc_or_fail 0 (Some [()]) as (\<lambda>_ as. do {
         viewports \<leftarrow> copy_viewports ci (pl_viewports stale);
         alloc_or_fail 0 (Some [()]) as (\<lambda>_ as. do {
         scissors \<leftarrow> copy_scissors ci (pl_scissors stale);
         multisample \<leftarrow> gp_pMultisampleState ci;
         depthStencil \<leftarrow> gp_pDepthStencilState ci;
         blend \<leftarrow> gp_pColorBlendState ci;
         alloc_or_fail (cbs_attachmentCount blend) (Some (cbs_pAttachments blend)) as (\<lambda>attachments as. do {
         let pip = stale\<lparr>pl_modules := modules, pl_names := names, pl_vertexAttributeDescriptions := attributes,
             pl_vertexBindingDescriptions := bindings, pl_topology := gp_topology ci,
             pl_primitiveRestartEnable := gp_primitiveRestartEnable ci, pl_viewports := viewports, pl_scissors := scissors\<rparr>;
         let pip = copy_depth_stencil ci depthStencil (copy_multisample multisample (copy_rasterization ci pip));
         let pip = copy_blend_constants ci blend (pip\<lparr>pl_logicOpEnable := cbs_logicOpEnable blend,
             pl_logicOp := cbs_logicOp blend, pl_attachmentBlendStates := attachments\<rparr>);
         let pip = pip\<lparr>pl_layout := gp_layout ci, pl_renderPass := gp_renderPass ci, pl_subpass := gp_subpass ci\<rparr>;
         case gp_pDynamicState ci of
           None \<Rightarrow> Some (as, Some (pip\<lparr>pl_dynamicStates := []\<rparr>))
         | Some (n, sts) \<Rightarrow> alloc_or_fail n (Some sts) as (\<lambda>states as.
             Some (as, Some (pip\<lparr>pl_dynamicStates := states\<rparr>))) }) }) }))) })"

text \<open>The pipelines up to the first failure, after which nothing is freed.\<close>

fun vkCreateGraphicsPipelines ::
  "'b VkGraphicsPipelineCreateInfo list \<Rightarrow> 'b pipeline list \<Rightarrow> bool list \<Rightarrow> (VkResult \<times> 'b pipeline list) option" where
  "vkCreateGraphicsPipelines [] stales allocs = Some (VK_SUCCESS, [])"
| "vkCreateGraphicsPipelines (ci # infos) [] allocs = None"
| "vkCreateGraphicsPipelines (ci # infos) (stale # stales) allocs = do {
     (as, r) \<leftarrow> create_pipeline ci stale allocs;
     case r of
       None \<Rightarrow> Some (VK_ERROR_OUT_OF_HOST_MEMORY, [])
     | Some pip \<Rightarrow> do {
         (res, pips) \<leftarrow> vkCreateGraphicsPipelines infos stales as;
         Some (res, pip # pips) } }"

definition vkDestroyPipeline :: "addr \<Rightarrow> (addr \<rightharpoonup> 'b pipeline) \<Rightarrow> (addr \<rightharpoonup> 'b pipeline)" where
  "vkDestroyPipeline p pips = (if p = NULL then pips else pips(p := None))"

subsection \<open>Pipeline layouts\<close>

text \<open>
  An array that is not copied is left uninitialised, which is \<open>None\<close>; reading or freeing it is
  undefined.
\<close>

record pipelineLayout =
  ly_descriptorSetBindingMap :: map_ref
  ly_setLayoutCount :: u32
  ly_setLayouts :: "addr list option"
  ly_pushConstantRangeCount :: u32
  ly_pushConstantRanges :: "(u32 \<times> u32 \<times> u32) list option"

record VkPipelineLayoutCreateInfo =
  li_setLayoutCount :: u32
  li_pSetLayouts :: "addr list option"
  li_pushConstantRangeCount :: u32
  li_pPushConstantRanges :: "(u32 \<times> u32 \<times> u32) list option"

text \<open>
  \<open>buf\<close> is the result of the allocation of the buckets, which has four bytes for each set layout and
  is not checked.  \<open>allocs\<close> holds the results of the other ones.
\<close>

definition vkCreatePipelineLayout ::
  "VkPipelineLayoutCreateInfo \<Rightarrow> addr \<Rightarrow> bool list \<Rightarrow> mem \<Rightarrow> (mem \<times> VkResult \<times> pipelineLayout option) option" where
  "vkCreatePipelineLayout ci buf allocs m = (let fail = Some (m, VK_ERROR_OUT_OF_HOST_MEMORY, None) in do {
     (as, pl) \<leftarrow> alloc_copy 0 (Some [()]) allocs;
     case pl of None \<Rightarrow> fail | Some u \<Rightarrow> do {
     (as, setLayouts) \<leftarrow> copy_part (li_setLayoutCount ci > 0 \<and> li_pSetLayouts ci \<noteq> None) (li_setLayoutCount ci) (li_pSetLayouts ci) as;
     case setLayouts of None \<Rightarrow> fail | Some setLayouts \<Rightarrow> do {
     (as, ranges) \<leftarrow> copy_part (li_pushConstantRangeCount ci > 0 \<and> li_pPushConstantRanges ci \<noteq> None)
       (li_pushConstantRangeCount ci) (li_pPushConstantRanges ci) as;
     case ranges of None \<Rightarrow> fail | Some ranges \<Rightarrow> do {
     (m', bmap) \<leftarrow> mem_createMap m buf (li_setLayoutCount ci);
     Some (m', VK_SUCCESS, Some \<lparr>ly_descriptorSetBindingMap = bmap, ly_setLayoutCount = li_setLayoutCount ci,
       ly_setLayouts = setLayouts, ly_pushConstantRangeCount = li_pushConstantRangeCount ci,
       ly_pushConstantRanges = ranges\<rparr>) } } } })"

definition vkDestroyPipelineLayout :: "addr \<Rightarrow> (addr \<rightharpoonup> pipelineLayout) \<Rightarrow> (addr \<rightharpoonup> pipelineLayout) option" where
  "vkDestroyPipelineLayout p layouts = do {
     pl \<leftarrow> layouts p;
     if ly_pushConstantRanges pl = None \<or> ly_setLayouts pl = None then None
     else Some (layouts(p := None)) }"

end
