(* ===== verification/Descriptor_Sets.thy ===== *)
theory Descriptor_Sets
  imports Pipelines
begin

text \<open>
  driver/descriptorSet.c: descriptor pools and sets.  A pool holds a pool allocator for the set
  objects and consecutive pools for the buckets of their maps and for the three kinds of
  descriptors.  The memory of the pools is a part of the byte memory of its own; the objects in them
  are records in typed stores, which are there, stale, when the memory is free.  What the code leaves
  uninitialised (an allocator or a map of a kind without descriptors) is \<open>None\<close>, and its use is
  undefined.
\<close>

unbundle bit_operations_syntax

subsection \<open>The structures\<close>

record descriptorImage =
  di_count :: u32
  di_type :: VkDescriptorType
  di_stageFlags :: u32
  di_sampler :: addr
  di_imageView :: addr
  di_imageLayout :: u32

record descriptorBuffer =
  db_count :: u32
  db_type :: VkDescriptorType
  db_stageFlags :: u32
  db_buffer :: addr
  db_offset :: u64
  db_range :: u64

record descriptorTexelBuffer =
  dt_count :: u32
  dt_type :: VkDescriptorType
  dt_stageFlags :: u32
  dt_bufferView :: addr

record descriptorSet =
  ds_imageBindingMap :: "map_ref option"
  ds_bufferBindingMap :: "map_ref option"
  ds_texelBufferBindingMap :: "map_ref option"
  ds_imageDescriptors :: addr
  ds_bufferDescriptors :: addr
  ds_texelBufferDescriptors :: addr
  ds_imageDescriptorsCount :: u32
  ds_bufferDescriptorsCount :: u32
  ds_texelBufferDescriptorsCount :: u32

record descriptorPool =
  dp_descriptorSetPA :: PoolAllocator
  dp_mapElementCPA :: ConsecutivePoolAllocator
  dp_imageDescriptorCPA :: "ConsecutivePoolAllocator option"
  dp_bufferDescriptorCPA :: "ConsecutivePoolAllocator option"
  dp_texelBufferDescriptorCPA :: "ConsecutivePoolAllocator option"
  dp_freeAble :: u32

text \<open>The sizes of the C structures on the 32-bit target.\<close>

definition sizeof_descriptorImage :: u32 where "sizeof_descriptorImage = 24"
definition sizeof_descriptorBuffer :: u32 where "sizeof_descriptorBuffer = 32"
definition sizeof_descriptorTexelBuffer :: u32 where "sizeof_descriptorTexelBuffer = 16"
definition sizeof_descriptorSet :: u32 where "sizeof_descriptorSet = 48"

lemmas descriptor_sizes = sizeof_descriptorImage_def sizeof_descriptorBuffer_def
  sizeof_descriptorTexelBuffer_def sizeof_descriptorSet_def

record VkDescriptorSetLayoutBinding =
  lb_binding :: u32
  lb_descriptorType :: VkDescriptorType
  lb_descriptorCount :: u32
  lb_stageFlags :: u32

record descriptorSetLayout =
  dl_bindings :: "VkDescriptorSetLayoutBinding list"
  dl_flags :: u32

record desc_world =
  dw_mem :: mem
  dw_pools :: "addr \<rightharpoonup> descriptorPool"
  dw_sets :: "addr \<rightharpoonup> descriptorSet"
  dw_images :: "addr \<rightharpoonup> descriptorImage"
  dw_buffers :: "addr \<rightharpoonup> descriptorBuffer"
  dw_texels :: "addr \<rightharpoonup> descriptorTexelBuffer"
  dw_layouts :: "addr \<rightharpoonup> pipelineLayout"

text \<open>The cases of the \<open>switch\<close> statements.  A type without a case has no effect.\<close>

datatype descriptor_kind = KIND_IMAGE | KIND_BUFFER | KIND_TEXEL

fun kind_of :: "VkDescriptorType \<Rightarrow> descriptor_kind option" where
  "kind_of VK_DESCRIPTOR_TYPE_SAMPLER = Some KIND_IMAGE"
| "kind_of VK_DESCRIPTOR_TYPE_COMBINED_IMAGE_SAMPLER = Some KIND_IMAGE"
| "kind_of VK_DESCRIPTOR_TYPE_SAMPLED_IMAGE = Some KIND_IMAGE"
| "kind_of VK_DESCRIPTOR_TYPE_STORAGE_IMAGE = Some KIND_IMAGE"
| "kind_of VK_DESCRIPTOR_TYPE_INPUT_ATTACHMENT = Some KIND_IMAGE"
| "kind_of VK_DESCRIPTOR_TYPE_UNIFORM_BUFFER = Some KIND_BUFFER"
| "kind_of VK_DESCRIPTOR_TYPE_STORAGE_BUFFER = Some KIND_BUFFER"
| "kind_of VK_DESCRIPTOR_TYPE_UNIFORM_BUFFER_DYNAMIC = Some KIND_BUFFER"
| "kind_of VK_DESCRIPTOR_TYPE_STORAGE_BUFFER_DYNAMIC = Some KIND_BUFFER"
| "kind_of VK_DESCRIPTOR_TYPE_UNIFORM_TEXEL_BUFFER = Some KIND_TEXEL"
| "kind_of VK_DESCRIPTOR_TYPE_STORAGE_TEXEL_BUFFER = Some KIND_TEXEL"
| "kind_of (VK_DESCRIPTOR_TYPE_other n) = None"

text \<open>The sum of the counts of one kind.\<close>

definition kind_count :: "descriptor_kind \<Rightarrow> (VkDescriptorType \<times> u32) list \<Rightarrow> u32" where
  "kind_count k ts = sum_list (map snd (filter (\<lambda>t. kind_of (fst t) = Some k) ts))"

definition binding_counts :: "VkDescriptorSetLayoutBinding list \<Rightarrow> (VkDescriptorType \<times> u32) list" where
  "binding_counts bs = map (\<lambda>b. (lb_descriptorType b, lb_descriptorCount b)) bs"

subsection \<open>Pools\<close>

text \<open>
  The pool of one kind: \<open>mem\<close> is the result of the allocation.  The inner option is its failure.
\<close>

definition create_kind_pool ::
  "u32 \<Rightarrow> u32 \<Rightarrow> addr \<Rightarrow> mem \<Rightarrow> (mem \<times> ConsecutivePoolAllocator option option) option" where
  "create_kind_pool blockSize n buf m =
     (if n > 0 then
        if buf = NULL then Some (m, None)
        else do { (m, cpa) \<leftarrow> createConsecutivePoolAllocator m buf blockSize (blockSize * n); Some (m, Some (Some cpa)) }
      else Some (m, Some None))"

text \<open>New objects of a typed store in memory that is handed out in pieces of \<open>sz\<close> bytes.\<close>

definition stale_objects :: "(addr \<Rightarrow> 'a) \<Rightarrow> addr \<Rightarrow> u32 \<Rightarrow> nat \<Rightarrow> (addr \<rightharpoonup> 'a) \<Rightarrow> (addr \<rightharpoonup> 'a)" where
  "stale_objects stale buf sz n st = st ++ (\<lambda>p. if p \<in> set (blocks buf sz n) then Some (stale p) else None)"

record stale_descriptors =
  st_set :: "addr \<Rightarrow> descriptorSet"
  st_image :: "addr \<Rightarrow> descriptorImage"
  st_buffer :: "addr \<Rightarrow> descriptorBuffer"
  st_texel :: "addr \<Rightarrow> descriptorTexelBuffer"

text \<open>
  \<open>dp\<close>, \<open>dsmem\<close>, \<open>memem\<close>, \<open>imem\<close>, \<open>bmem\<close> and \<open>tmem\<close> are the results of the calls of \<open>ALLOCATE\<close>, in order.
  After a failure nothing is freed.  The pool of the texel buffer descriptors has the blocks of the
  buffer descriptors.
\<close>

definition vkCreateDescriptorPool ::
  "addr \<Rightarrow> addr \<Rightarrow> addr \<Rightarrow> addr \<Rightarrow> addr \<Rightarrow> addr \<Rightarrow> stale_descriptors \<Rightarrow> u32 \<Rightarrow> (VkDescriptorType \<times> u32) list \<Rightarrow> u32 \<Rightarrow>
    desc_world \<Rightarrow> (desc_world \<times> VkResult \<times> addr) option" where
  "vkCreateDescriptorPool dp dsmem memem imem bmem tmem stale flags pPoolSizes maxSets w =
     (let images = kind_count KIND_IMAGE pPoolSizes; buffers = kind_count KIND_BUFFER pPoolSizes;
          texels = kind_count KIND_TEXEL pPoolSizes;
          fail = (\<lambda>m. Some (w\<lparr>dw_mem := m\<rparr>, VK_ERROR_OUT_OF_HOST_MEMORY, NULL)) in
      if dp = NULL then fail (dw_mem w)
      else if dsmem = NULL then fail (dw_mem w)
      else do {
        (m, pa) \<leftarrow> createPoolAllocator (dw_mem w) dsmem sizeof_descriptorSet (sizeof_descriptorSet * maxSets);
        if memem = NULL then fail m
        else do {
          (m, mcpa) \<leftarrow> createConsecutivePoolAllocator m memem sizeof_mapElem (sizeof_mapElem * (images + buffers + texels));
          (m, icpa) \<leftarrow> create_kind_pool sizeof_descriptorImage images imem m;
          case icpa of None \<Rightarrow> fail m | Some icpa \<Rightarrow> do {
          (m, bcpa) \<leftarrow> create_kind_pool sizeof_descriptorBuffer buffers bmem m;
          case bcpa of None \<Rightarrow> fail m | Some bcpa \<Rightarrow> do {
          (m, tcpa) \<leftarrow> create_kind_pool sizeof_descriptorBuffer texels tmem m;
          case tcpa of None \<Rightarrow> fail m | Some tcpa \<Rightarrow>
          Some (w\<lparr>dw_mem := m,
              dw_pools := (dw_pools w)(dp \<mapsto> \<lparr>dp_descriptorSetPA = pa, dp_mapElementCPA = mcpa, dp_imageDescriptorCPA = icpa,
                dp_bufferDescriptorCPA = bcpa, dp_texelBufferDescriptorCPA = tcpa, dp_freeAble = flags AND 1\<rparr>),
              dw_sets := stale_objects (st_set stale) dsmem sizeof_descriptorSet (unat maxSets) (dw_sets w),
              dw_images := stale_objects (st_image stale) imem sizeof_descriptorImage (unat images) (dw_images w),
              dw_buffers := stale_objects (st_buffer stale) bmem sizeof_descriptorBuffer (unat buffers) (dw_buffers w),
              dw_texels := stale_objects (st_texel stale) tmem sizeof_descriptorTexelBuffer (2 * unat texels) (dw_texels w)\<rparr>,
            VK_SUCCESS, dp) } } } })"

text \<open>The buffers of all five allocators are freed, also of the ones that were not created.\<close>

definition vkDestroyDescriptorPool :: "addr \<Rightarrow> desc_world \<Rightarrow> desc_world option" where
  "vkDestroyDescriptorPool dp w = do {
     p \<leftarrow> dw_pools w dp;
     if dp_imageDescriptorCPA p = None \<or> dp_bufferDescriptorCPA p = None \<or> dp_texelBufferDescriptorCPA p = None then None
     else Some (w\<lparr>dw_pools := (dw_pools w)(dp := None),
       dw_sets := dw_sets w |` (- set (pool_blocks (dp_descriptorSetPA p)))\<rparr>) }"

definition vkResetDescriptorPool :: "addr \<Rightarrow> desc_world \<Rightarrow> desc_world \<times> VkResult" where
  "vkResetDescriptorPool dp w = (w, VK_SUCCESS)"

subsection \<open>Layouts\<close>

text \<open>\<open>p\<close> and \<open>bindings\<close> are the results of the allocations.\<close>

definition vkCreateDescriptorSetLayout ::
  "addr \<Rightarrow> addr \<Rightarrow> u32 \<Rightarrow> VkDescriptorSetLayoutBinding list \<Rightarrow> u32 \<Rightarrow> (addr \<rightharpoonup> descriptorSetLayout) \<Rightarrow>
    ((addr \<rightharpoonup> descriptorSetLayout) \<times> VkResult \<times> addr) option" where
  "vkCreateDescriptorSetLayout p bindings bindingCount pBindings flags dls =
     (if p = NULL then Some (dls, VK_ERROR_OUT_OF_HOST_MEMORY, NULL)
      else if bindings = NULL then Some (dls, VK_ERROR_OUT_OF_HOST_MEMORY, NULL)
      else if length pBindings < unat bindingCount then None
      else Some (dls(p \<mapsto> \<lparr>dl_bindings = take (unat bindingCount) pBindings, dl_flags = flags\<rparr>), VK_SUCCESS, p))"

definition vkDestroyDescriptorSetLayout ::
  "addr \<Rightarrow> (addr \<rightharpoonup> descriptorSetLayout) \<Rightarrow> (addr \<rightharpoonup> descriptorSetLayout) option" where
  "vkDestroyDescriptorSetLayout p dls = (if dls p = None then None else Some (dls(p := None)))"

subsection \<open>Allocation of sets\<close>

text \<open>
  The descriptors of one kind and the buckets of their map, neither of which is checked; nothing for
  a kind without descriptors.
\<close>

definition alloc_kind ::
  "ConsecutivePoolAllocator option \<Rightarrow> u32 \<Rightarrow> mem \<times> ConsecutivePoolAllocator \<Rightarrow>
    ((mem \<times> ConsecutivePoolAllocator) \<times> ConsecutivePoolAllocator option \<times> addr \<times> map_ref option) option" where
  "alloc_kind kcpa n s = (let (m, mcpa) = s in
     if n > 0 then do {
       cpa \<leftarrow> kcpa;
       ((m, cpa), off) \<leftarrow> consecutivePoolAllocate (m, cpa) n;
       ((m, mcpa), moff) \<leftarrow> consecutivePoolAllocate (m, mcpa) n;
       (m, r) \<leftarrow> mem_createMap m (getCPAptrFromOffset mcpa moff) n;
       Some ((m, mcpa), Some cpa, getCPAptrFromOffset cpa off, Some r) }
     else Some ((m, mcpa), kcpa, NULL, None))"

text \<open>One binding: its first descriptor is entered in the map of its kind.\<close>

definition enter_binding ::
  "addr \<Rightarrow> u32 \<Rightarrow> map_ref option \<Rightarrow> addr \<Rightarrow> u32 \<Rightarrow> u32 \<Rightarrow> mem \<Rightarrow> (mem \<times> addr) option" where
  "enter_binding ds binding r descriptors sz counter m = do {
     r \<leftarrow> r;
     let p = descriptors + counter * sz;
     m \<leftarrow> mem_setMapElement m r binding p;
     Some (m, p) }"

fun enter_bindings ::
  "addr \<Rightarrow> VkDescriptorSetLayoutBinding list \<Rightarrow> u32 \<times> u32 \<times> u32 \<Rightarrow> desc_world \<Rightarrow> desc_world option" where
  "enter_bindings ds [] ns w = Some w"
| "enter_bindings ds (b # bs) (i, j, k) w = do {
     s \<leftarrow> dw_sets w ds;
     case kind_of (lb_descriptorType b) of
       None \<Rightarrow> enter_bindings ds bs (i, j, k) w
     | Some KIND_IMAGE \<Rightarrow> do {
         (m, p) \<leftarrow> enter_binding ds (lb_binding b) (ds_imageBindingMap s) (ds_imageDescriptors s) sizeof_descriptorImage i (dw_mem w);
         d \<leftarrow> dw_images w p;
         enter_bindings ds bs (i + lb_descriptorCount b, j, k) (w\<lparr>dw_mem := m, dw_images := (dw_images w)(p \<mapsto>
           d\<lparr>di_count := lb_descriptorCount b, di_type := lb_descriptorType b, di_stageFlags := lb_stageFlags b\<rparr>)\<rparr>) }
     | Some KIND_BUFFER \<Rightarrow> do {
         (m, p) \<leftarrow> enter_binding ds (lb_binding b) (ds_bufferBindingMap s) (ds_bufferDescriptors s) sizeof_descriptorBuffer j (dw_mem w);
         d \<leftarrow> dw_buffers w p;
         enter_bindings ds bs (i, j + lb_descriptorCount b, k) (w\<lparr>dw_mem := m, dw_buffers := (dw_buffers w)(p \<mapsto>
           d\<lparr>db_count := lb_descriptorCount b, db_type := lb_descriptorType b, db_stageFlags := lb_stageFlags b\<rparr>)\<rparr>) }
     | Some KIND_TEXEL \<Rightarrow> do {
         (m, p) \<leftarrow> enter_binding ds (lb_binding b) (ds_texelBufferBindingMap s) (ds_texelBufferDescriptors s)
           sizeof_descriptorTexelBuffer k (dw_mem w);
         d \<leftarrow> dw_texels w p;
         enter_bindings ds bs (i, j, k + lb_descriptorCount b) (w\<lparr>dw_mem := m, dw_texels := (dw_texels w)(p \<mapsto>
           d\<lparr>dt_count := lb_descriptorCount b, dt_type := lb_descriptorType b, dt_stageFlags := lb_stageFlags b\<rparr>)\<rparr>) } }"

definition alloc_set :: "addr \<Rightarrow> descriptorSetLayout \<Rightarrow> desc_world \<Rightarrow> (desc_world \<times> addr) option" where
  "alloc_set dp dsl w = do {
     p \<leftarrow> dw_pools w dp;
     ((m, pa), ds) \<leftarrow> poolAllocate (dw_mem w, dp_descriptorSetPA p);
     let counts = binding_counts (dl_bindings dsl);
     let images = kind_count KIND_IMAGE counts;
     let buffers = kind_count KIND_BUFFER counts;
     let texels = kind_count KIND_TEXEL counts;
     s \<leftarrow> dw_sets w ds;
     (s1, icpa, imgs, imap) \<leftarrow> alloc_kind (dp_imageDescriptorCPA p) images (m, dp_mapElementCPA p);
     (s2, bcpa, bufs, bmap) \<leftarrow> alloc_kind (dp_bufferDescriptorCPA p) buffers s1;
     ((m, mcpa), tcpa, texs, tmap) \<leftarrow> alloc_kind (dp_texelBufferDescriptorCPA p) texels s2;
     w \<leftarrow> enter_bindings ds (dl_bindings dsl) (0, 0, 0) (w\<lparr>dw_mem := m,
       dw_pools := (dw_pools w)(dp \<mapsto> p\<lparr>dp_descriptorSetPA := pa, dp_mapElementCPA := mcpa, dp_imageDescriptorCPA := icpa,
         dp_bufferDescriptorCPA := bcpa, dp_texelBufferDescriptorCPA := tcpa\<rparr>),
       dw_sets := (dw_sets w)(ds \<mapsto> \<lparr>ds_imageBindingMap = imap, ds_bufferBindingMap = bmap, ds_texelBufferBindingMap = tmap,
         ds_imageDescriptors = imgs, ds_bufferDescriptors = bufs, ds_texelBufferDescriptors = texs,
         ds_imageDescriptorsCount = images, ds_bufferDescriptorsCount = buffers, ds_texelBufferDescriptorsCount = texels\<rparr>)\<rparr>);
     Some (w, ds) }"

fun vkAllocateDescriptorSets ::
  "addr \<Rightarrow> descriptorSetLayout list \<Rightarrow> desc_world \<Rightarrow> (desc_world \<times> addr list \<times> VkResult) option" where
  "vkAllocateDescriptorSets dp [] w = Some (w, [], VK_SUCCESS)"
| "vkAllocateDescriptorSets dp (dsl # dsls) w = do {
     (w, ds) \<leftarrow> alloc_set dp dsl w;
     (w, dss, res) \<leftarrow> vkAllocateDescriptorSets dp dsls w;
     Some (w, ds # dss, res) }"

subsection \<open>Updates\<close>

record VkDescriptorImageInfo =
  ii_sampler :: addr
  ii_imageView :: addr
  ii_imageLayout :: u32

record VkDescriptorBufferInfo =
  bi_buffer :: addr
  bi_offset :: u64
  bi_range :: u64

record VkWriteDescriptorSet =
  wd_dstSet :: addr
  wd_dstBinding :: u32
  wd_dstArrayElement :: u32
  wd_descriptorCount :: u32
  wd_descriptorType :: VkDescriptorType
  wd_pImageInfo :: "VkDescriptorImageInfo list"
  wd_pBufferInfo :: "VkDescriptorBufferInfo list"
  wd_pTexelBufferView :: "addr list"

record VkCopyDescriptorSet =
  cd_srcSet :: addr
  cd_srcBinding :: u32
  cd_srcArrayElement :: u32
  cd_dstSet :: addr
  cd_dstBinding :: u32
  cd_dstArrayElement :: u32
  cd_descriptorCount :: u32

text \<open>The loop over the descriptors from \<open>p\<close> on, each \<open>sz\<close> bytes, and the infos that go into them.\<close>

fun write_infos :: "('i \<Rightarrow> 'd \<Rightarrow> 'd) \<Rightarrow> u32 \<Rightarrow> addr \<Rightarrow> nat \<Rightarrow> 'i list \<Rightarrow> (addr \<rightharpoonup> 'd) \<Rightarrow> (addr \<rightharpoonup> 'd) option" where
  "write_infos f sz p 0 infos st = Some st"
| "write_infos f sz p (Suc n) [] st = None"
| "write_infos f sz p (Suc n) (i # infos) st = do { d \<leftarrow> st p; write_infos f sz (p + sz) n infos (st(p \<mapsto> f i d)) }"

definition set_image :: "VkDescriptorImageInfo \<Rightarrow> descriptorImage \<Rightarrow> descriptorImage" where
  "set_image i d = d\<lparr>di_imageLayout := ii_imageLayout i, di_imageView := ii_imageView i, di_sampler := ii_sampler i\<rparr>"

definition set_buffer :: "VkDescriptorBufferInfo \<Rightarrow> descriptorBuffer \<Rightarrow> descriptorBuffer" where
  "set_buffer i d = d\<lparr>db_buffer := bi_buffer i, db_offset := bi_offset i, db_range := bi_range i\<rparr>"

definition set_texel :: "addr \<Rightarrow> descriptorTexelBuffer \<Rightarrow> descriptorTexelBuffer" where
  "set_texel v d = d\<lparr>dt_bufferView := v\<rparr>"

text \<open>The descriptor of a binding, through the map of the set.\<close>

definition find_descriptor :: "mem \<Rightarrow> map_ref option \<Rightarrow> u32 \<Rightarrow> u32 \<Rightarrow> u32 \<Rightarrow> addr option" where
  "find_descriptor m r binding arrayElement sz = do {
     r \<leftarrow> r;
     p \<leftarrow> mem_getMapElement m r binding;
     Some (p + arrayElement * sz) }"

definition write_descriptor :: "VkWriteDescriptorSet \<Rightarrow> desc_world \<Rightarrow> desc_world option" where
  "write_descriptor x w = (case kind_of (wd_descriptorType x) of
     None \<Rightarrow> Some w
   | Some KIND_IMAGE \<Rightarrow> do {
       s \<leftarrow> dw_sets w (wd_dstSet x);
       p \<leftarrow> find_descriptor (dw_mem w) (ds_imageBindingMap s) (wd_dstBinding x) (wd_dstArrayElement x) sizeof_descriptorImage;
       st \<leftarrow> write_infos set_image sizeof_descriptorImage p (unat (wd_descriptorCount x)) (wd_pImageInfo x) (dw_images w);
       Some (w\<lparr>dw_images := st\<rparr>) }
   | Some KIND_BUFFER \<Rightarrow> do {
       s \<leftarrow> dw_sets w (wd_dstSet x);
       p \<leftarrow> find_descriptor (dw_mem w) (ds_bufferBindingMap s) (wd_dstBinding x) (wd_dstArrayElement x) sizeof_descriptorBuffer;
       st \<leftarrow> write_infos set_buffer sizeof_descriptorBuffer p (unat (wd_descriptorCount x)) (wd_pBufferInfo x) (dw_buffers w);
       Some (w\<lparr>dw_buffers := st\<rparr>) }
   | Some KIND_TEXEL \<Rightarrow> do {
       s \<leftarrow> dw_sets w (wd_dstSet x);
       p \<leftarrow> find_descriptor (dw_mem w) (ds_texelBufferBindingMap s) (wd_dstBinding x) (wd_dstArrayElement x) sizeof_descriptorTexelBuffer;
       st \<leftarrow> write_infos set_texel sizeof_descriptorTexelBuffer p (unat (wd_descriptorCount x)) (wd_pTexelBufferView x) (dw_texels w);
       Some (w\<lparr>dw_texels := st\<rparr>) })"

text \<open>\<open>memcpy\<close> of \<open>n\<close> objects of \<open>sz\<close> bytes; the two pieces must not overlap.\<close>

fun copy_loop :: "u32 \<Rightarrow> addr \<Rightarrow> addr \<Rightarrow> nat \<Rightarrow> (addr \<rightharpoonup> 'd) \<Rightarrow> (addr \<rightharpoonup> 'd) option" where
  "copy_loop sz dst src 0 st = Some st"
| "copy_loop sz dst src (Suc n) st = do { d \<leftarrow> st src; e \<leftarrow> st dst; copy_loop sz (dst + sz) (src + sz) n (st(dst \<mapsto> d)) }"

definition copy_objects :: "u32 \<Rightarrow> addr \<Rightarrow> addr \<Rightarrow> nat \<Rightarrow> (addr \<rightharpoonup> 'd) \<Rightarrow> (addr \<rightharpoonup> 'd) option" where
  "copy_objects sz dst src n st =
     (if unat (dst - src) < n * unat sz \<or> unat (src - dst) < n * unat sz then None else copy_loop sz dst src n st)"

text \<open>One of the three parts of a copy: it is done when the source set has the binding.\<close>

definition copy_kind ::
  "VkCopyDescriptorSet \<Rightarrow> mem \<Rightarrow> map_ref option \<Rightarrow> map_ref option \<Rightarrow> u32 \<Rightarrow> (addr \<rightharpoonup> 'd) \<Rightarrow> (addr \<rightharpoonup> 'd) option" where
  "copy_kind x m srcMap dstMap sz st = do {
     sr \<leftarrow> srcMap;
     src \<leftarrow> mem_getMapElement m sr (cd_srcBinding x);
     if src = NULL then Some st
     else do {
       dr \<leftarrow> dstMap;
       dst \<leftarrow> mem_getMapElement m dr (cd_dstBinding x);
       copy_objects sz (dst + cd_dstArrayElement x * sz) (src + cd_srcArrayElement x * sz) (unat (cd_descriptorCount x)) st } }"

definition copy_descriptor :: "VkCopyDescriptorSet \<Rightarrow> desc_world \<Rightarrow> desc_world option" where
  "copy_descriptor x w = do {
     s \<leftarrow> dw_sets w (cd_srcSet x);
     d \<leftarrow> dw_sets w (cd_dstSet x);
     images \<leftarrow> copy_kind x (dw_mem w) (ds_imageBindingMap s) (ds_imageBindingMap d) sizeof_descriptorImage (dw_images w);
     buffers \<leftarrow> copy_kind x (dw_mem w) (ds_bufferBindingMap s) (ds_bufferBindingMap d) sizeof_descriptorBuffer (dw_buffers w);
     texels \<leftarrow> copy_kind x (dw_mem w) (ds_texelBufferBindingMap s) (ds_texelBufferBindingMap d) sizeof_descriptorTexelBuffer (dw_texels w);
     Some (w\<lparr>dw_images := images, dw_buffers := buffers, dw_texels := texels\<rparr>) }"

fun do_all :: "('x \<Rightarrow> 'w \<Rightarrow> 'w option) \<Rightarrow> 'x list \<Rightarrow> 'w \<Rightarrow> 'w option" where
  "do_all f [] w = Some w"
| "do_all f (x # xs) w = do { w \<leftarrow> f x w; do_all f xs w }"

definition vkUpdateDescriptorSets ::
  "VkWriteDescriptorSet list \<Rightarrow> VkCopyDescriptorSet list \<Rightarrow> desc_world \<Rightarrow> desc_world option" where
  "vkUpdateDescriptorSets pDescriptorWrites pDescriptorCopies w = do {
     w \<leftarrow> do_all write_descriptor pDescriptorWrites w;
     do_all copy_descriptor pDescriptorCopies w }"

subsection \<open>Freeing and binding\<close>

definition free_kind ::
  "u32 \<Rightarrow> map_ref option \<Rightarrow> addr \<Rightarrow> ConsecutivePoolAllocator option \<Rightarrow> mem \<times> ConsecutivePoolAllocator \<Rightarrow>
    ((mem \<times> ConsecutivePoolAllocator) \<times> ConsecutivePoolAllocator option) option" where
  "free_kind n r descriptors kcpa s =
     (if n > 0 then do {
        r \<leftarrow> r;
        cpa \<leftarrow> kcpa;
        (m, mcpa) \<leftarrow> consecutivePoolFree s (mp_elements r) n;
        (m, cpa) \<leftarrow> consecutivePoolFree (m, cpa) descriptors n;
        Some ((m, mcpa), Some cpa) }
      else Some (s, kcpa))"

definition free_set :: "addr \<Rightarrow> addr \<Rightarrow> desc_world \<Rightarrow> desc_world option" where
  "free_set dp ds w = do {
     p \<leftarrow> dw_pools w dp;
     s \<leftarrow> dw_sets w ds;
     (s1, icpa) \<leftarrow> free_kind (ds_imageDescriptorsCount s) (ds_imageBindingMap s) (ds_imageDescriptors s)
       (dp_imageDescriptorCPA p) (dw_mem w, dp_mapElementCPA p);
     (s2, bcpa) \<leftarrow> free_kind (ds_bufferDescriptorsCount s) (ds_bufferBindingMap s) (ds_bufferDescriptors s)
       (dp_bufferDescriptorCPA p) s1;
     ((m, mcpa), tcpa) \<leftarrow> free_kind (ds_texelBufferDescriptorsCount s) (ds_texelBufferBindingMap s)
       (ds_texelBufferDescriptors s) (dp_texelBufferDescriptorCPA p) s2;
     (m, pa) \<leftarrow> poolFree (m, dp_descriptorSetPA p) ds;
     Some (w\<lparr>dw_mem := m, dw_pools := (dw_pools w)(dp \<mapsto> p\<lparr>dp_descriptorSetPA := pa, dp_mapElementCPA := mcpa,
       dp_imageDescriptorCPA := icpa, dp_bufferDescriptorCPA := bcpa, dp_texelBufferDescriptorCPA := tcpa\<rparr>)\<rparr>) }"

definition vkFreeDescriptorSets :: "addr \<Rightarrow> addr list \<Rightarrow> desc_world \<Rightarrow> (desc_world \<times> VkResult) option" where
  "vkFreeDescriptorSets dp pDescriptorSets w = do { w \<leftarrow> do_all (free_set dp) pDescriptorSets w; Some (w, VK_SUCCESS) }"

text \<open>The bound sets are entered in the map of the pipeline layout.\<close>

fun bind_sets :: "map_ref \<Rightarrow> u32 \<Rightarrow> addr list \<Rightarrow> mem \<Rightarrow> mem option" where
  "bind_sets r i [] m = Some m"
| "bind_sets r i (ds # dss) m = do { m \<leftarrow> mem_setMapElement m r i ds; bind_sets r (i + 1) dss m }"

definition vkCmdBindDescriptorSets ::
  "addr \<Rightarrow> addr \<Rightarrow> u32 \<Rightarrow> addr list \<Rightarrow> desc_world \<times> cmd_world \<Rightarrow> (desc_world \<times> cmd_world) option" where
  "vkCmdBindDescriptorSets p layout firstSet pDescriptorSets s = (let (d, w) = s in do {
     pl \<leftarrow> dw_layouts d layout;
     m \<leftarrow> bind_sets (ly_descriptorSetBindingMap pl) firstSet pDescriptorSets (dw_mem d);
     w \<leftarrow> on_cmdbuf p (\<lambda>b. b\<lparr>cb_dirty := (cb_dirty b)\<lparr>descriptorSetDirty := 1\<rparr>\<rparr>) w;
     Some (d\<lparr>dw_mem := m\<rparr>, w) })"

end
