(* ===== verification/Device_Objects.thy ===== *)
theory Device_Objects
  imports Kernel_Interface Recording
begin

text \<open>
  The small objects of a device: memory (driver/memory.c), samplers (driver/sampler.c) and query pools
  (driver/query.c).  What the memory of a new object holds is \<open>stale\<close>.
\<close>

unbundle bit_operations_syntax

subsection \<open>Device memory\<close>

text \<open>
  The size of the heap from the text of \<open>/proc/meminfo\<close>, as much of it as the buffer holds: the digits
  between the first \<open>CmaTotal\<close> and the end of its line, a number of kilobytes.
\<close>

fun from_first :: "string \<Rightarrow> string \<Rightarrow> string option" where
  "from_first pat s = (if take (length pat) s = pat then Some s
     else case s of [] \<Rightarrow> None | c # cs \<Rightarrow> from_first pat cs)"

declare from_first.simps [simp del]

definition is_digit :: "char \<Rightarrow> bool" where
  "is_digit c \<longleftrightarrow> 48 \<le> (of_char c :: nat) \<and> (of_char c :: nat) \<le> 57"

definition atoi :: "string \<Rightarrow> int" where
  "atoi ds = fold (\<lambda>c n. 10 * n + (of_char c - 48)) ds 0"

definition cma_total :: "string \<Rightarrow> u32 option" where
  "cma_total buf = do {
     cma \<leftarrow> from_first ''CmaTotal'' buf;
     if CHR 0x0A \<notin> set cma then None
     else let n = atoi (filter is_digit (takeWhile (\<lambda>c. c \<noteq> CHR 0x0A) cma)) in
       if n < 2 ^ 31 then Some (word_of_int n * 1000) else None }"

text \<open>The size of the heap is read once; 0 is not yet.\<close>

definition vkGetPhysicalDeviceMemoryProperties :: "string \<Rightarrow> u64 \<Rightarrow> (u64 \<times> u32 list \<times> u64 list) option" where
  "vkGetPhysicalDeviceMemoryProperties meminfo heapSize = do {
     sz \<leftarrow> (if heapSize = 0 then map_option ucast (cma_total meminfo) else Some heapSize);
     Some (sz, memoryTypes, [sz]) }"

text \<open>\<open>p\<close> is the result of \<open>ALLOCATE\<close>; the buffer object is kept when it fails.\<close>

definition vkAllocateMemory ::
  "'k kernel \<Rightarrow> addr \<Rightarrow> deviceMemory \<Rightarrow> u64 \<Rightarrow> u32 \<Rightarrow> (addr \<rightharpoonup> deviceMemory) \<Rightarrow> 'k \<Rightarrow>
    'k \<times> (addr \<rightharpoonup> deviceMemory) \<times> VkResult \<times> addr" where
  "vkAllocateMemory K p stale allocationSize memoryTypeIndex mems k =
     (let (k, bo) = vc4_bo_alloc K k (ucast allocationSize) in
      if bo = 0 then (k, mems, VK_ERROR_OUT_OF_DEVICE_MEMORY, NULL)
      else if p = NULL then (k, mems, VK_ERROR_OUT_OF_HOST_MEMORY, NULL)
      else (k, mems(p \<mapsto> stale\<lparr>dm_bo := bo, dm_size := ucast allocationSize, dm_memTypeIndex := memoryTypeIndex,
        dm_mappedPtr := NULL\<rparr>), VK_SUCCESS, p))"

definition VK_WHOLE_SIZE :: u64 where "VK_WHOLE_SIZE = 0xffffffffffffffff"

definition vkMapMemory ::
  "'k kernel \<Rightarrow> addr \<Rightarrow> u64 \<Rightarrow> u64 \<Rightarrow> (addr \<rightharpoonup> deviceMemory) \<Rightarrow> 'k \<Rightarrow>
    ('k \<times> (addr \<rightharpoonup> deviceMemory) \<times> VkResult \<times> addr) option" where
  "vkMapMemory K memory offset sz mems k = do {
     m \<leftarrow> mems memory;
     let sz = (if sz \<noteq> VK_WHOLE_SIZE then sz else ucast (dm_size m));
     let (k, ptr) = vc4_bo_map K k (dm_bo m) (ucast offset) (ucast sz);
     Some (if ptr = NULL then (k, mems, VK_ERROR_MEMORY_MAP_FAILED, NULL)
       else (k, mems(memory \<mapsto> m\<lparr>dm_mappedPtr := ptr, dm_mappedOffset := ucast offset, dm_mappedSize := ucast sz\<rparr>),
         VK_SUCCESS, ptr)) }"

definition vkUnmapMemory ::
  "'k kernel \<Rightarrow> addr \<Rightarrow> (addr \<rightharpoonup> deviceMemory) \<Rightarrow> 'k \<Rightarrow> ('k \<times> (addr \<rightharpoonup> deviceMemory)) option" where
  "vkUnmapMemory K memory mems k = do {
     m \<leftarrow> mems memory;
     let k = vc4_bo_unmap_unsynchronized K k (dm_mappedPtr m) (dm_mappedSize m);
     Some (k, mems(memory \<mapsto> m\<lparr>dm_mappedPtr := NULL, dm_mappedSize := 0, dm_mappedOffset := 0\<rparr>)) }"

definition vkFreeMemory ::
  "'k kernel \<Rightarrow> bool \<Rightarrow> addr \<Rightarrow> (addr \<rightharpoonup> deviceMemory) \<Rightarrow> 'k \<Rightarrow> ('k \<times> (addr \<rightharpoonup> deviceMemory)) option" where
  "vkFreeMemory K hasMadvise memory mems k =
     (if memory = NULL then Some (k, mems)
      else do {
        m \<leftarrow> mems memory;
        let (k, retained) = vc4_set_madvise K k (dm_bo m) 0 hasMadvise;
        Some (vc4_bo_free K k (dm_bo m) (dm_mappedPtr m) (dm_size m), mems(memory := None)) })"

subsection \<open>Samplers\<close>

record sampler =
  sa_minFilter :: VkFilter
  sa_magFilter :: VkFilter
  sa_mipmapMode :: VkSamplerMipmapMode
  sa_addressModeU :: VkSamplerAddressMode
  sa_addressModeV :: VkSamplerAddressMode
  sa_addressModeW :: VkSamplerAddressMode
  sa_mipLodBias :: u32
  sa_disableAutoLod :: u32
  sa_anisotropyEnable :: u32
  sa_maxAnisotropy :: u32
  sa_compareEnable :: u32
  sa_compareOp :: VkCompareOp
  sa_minLod :: u32
  sa_maxLod :: u32
  sa_borderColor :: u32
  sa_unnormalizedCoordinates :: u32

text \<open>A \<open>float\<close> that is greater than zero: not negative, not zero and not a NaN.\<close>

definition f32_positive :: "u32 \<Rightarrow> bool" where
  "f32_positive w \<longleftrightarrow> 0 < w \<and> w \<le> 0x7f800000"

text \<open>The create info has the fields of a sampler; the one the driver adds is not looked at.\<close>

definition vkCreateSampler :: "addr \<Rightarrow> sampler \<Rightarrow> (addr \<rightharpoonup> sampler) \<Rightarrow> (addr \<rightharpoonup> sampler) \<times> VkResult \<times> addr" where
  "vkCreateSampler p ci sas =
     (if p = NULL then (sas, VK_ERROR_OUT_OF_HOST_MEMORY, NULL)
      else (sas(p \<mapsto> ci\<lparr>sa_disableAutoLod := (if f32_positive (sa_mipLodBias ci) then 1 else 0)\<rparr>), VK_SUCCESS, p))"

definition vkDestroySampler :: "addr \<Rightarrow> (addr \<rightharpoonup> sampler) \<Rightarrow> (addr \<rightharpoonup> sampler)" where
  "vkDestroySampler p sas = (if p = NULL then sas else sas(p := None))"

subsection \<open>Query pools\<close>

definition VC4_PERFCNT_NUM_EVENTS :: nat where "VC4_PERFCNT_NUM_EVENTS = 30"
definition DRM_VC4_MAX_PERF_COUNTERS :: nat where "DRM_VC4_MAX_PERF_COUNTERS = 16"

record query =
  qu_enabledCounters :: "u32 list"
  qu_counterValues :: "u64 list list"
  qu_numEnabledCounters :: u32
  qu_perfmonIDs :: "u32 list"

record queryPool =
  qp_type :: u32
  qp_queries :: "query list"

text \<open>
  The performance monitors of a query, one for every 16 counters from \<open>d\<close> on.  All of them are given
  the same number of counters; the arrays for them have two elements.
\<close>

function create_perfmons :: "'k kernel \<Rightarrow> nat \<Rightarrow> nat \<Rightarrow> query \<Rightarrow> 'k \<Rightarrow> ('k \<times> query) option" where
  "create_perfmons K d n q k =
     (if n \<le> d then Some (k, q)
      else let i = d div DRM_VC4_MAX_PERF_COUNTERS; c = min n DRM_VC4_MAX_PERF_COUNTERS in
        if length (qu_enabledCounters q) < d + c \<or> length (qu_perfmonIDs q) \<le> i \<or> length (qu_counterValues q) \<le> i then None
        else let (k, pm) = vc4_create_perfmon K k (take c (drop d (qu_enabledCounters q))) in
          create_perfmons K (d + DRM_VC4_MAX_PERF_COUNTERS) n (q\<lparr>qu_perfmonIDs := (qu_perfmonIDs q)[i := pm],
            qu_counterValues := (qu_counterValues q)[i := replicate DRM_VC4_MAX_PERF_COUNTERS 0]\<rparr>) k)"
  by auto
termination
  by (relation "measure (\<lambda>(K, d, n, q, k). n - d)") (auto simp: DRM_VC4_MAX_PERF_COUNTERS_def)

declare create_perfmons.simps [simp del]

fun create_queries :: "'k kernel \<Rightarrow> u32 list \<Rightarrow> query list \<Rightarrow> 'k \<Rightarrow> ('k \<times> query list) option" where
  "create_queries K counters [] k = Some (k, [])"
| "create_queries K counters (q # qs) k =
     (if length (qu_enabledCounters q) < length counters then None
      else do {
        (k, q) \<leftarrow> create_perfmons K 0 (length counters) (q\<lparr>qu_numEnabledCounters := of_nat (length counters),
          qu_enabledCounters := counters @ drop (length counters) (qu_enabledCounters q)\<rparr>) k;
        (k, qs) \<leftarrow> create_queries K counters qs k;
        Some (k, q # qs) })"

text \<open>
  \<open>qp\<close> is the result of the first allocation, which is not checked, and \<open>stale\<close> the array of the
  second one.  Pools of another type are not written, and their handle is not set.
\<close>

definition VK_QUERY_TYPE_PERFORMANCE_QUERY_KHR :: u32 where "VK_QUERY_TYPE_PERFORMANCE_QUERY_KHR = 1000116000"

definition vkCreateQueryPool ::
  "'k kernel \<Rightarrow> addr \<Rightarrow> query list option \<Rightarrow> u32 \<Rightarrow> u32 \<Rightarrow> u32 list \<Rightarrow> (addr \<rightharpoonup> queryPool) \<Rightarrow> 'k \<Rightarrow>
    ('k \<times> (addr \<rightharpoonup> queryPool) \<times> VkResult \<times> addr option) option" where
  "vkCreateQueryPool K qp stale queryType queryCount counters qps k =
     (if queryType \<noteq> VK_QUERY_TYPE_PERFORMANCE_QUERY_KHR then Some (k, qps, VK_SUCCESS, None)
      else if qp = NULL then None
      else do {
        qs \<leftarrow> (if queryCount = 0 then Some [] else stale);
        if length qs \<noteq> unat queryCount then None
        else do {
          (k, qs) \<leftarrow> create_queries K counters qs k;
          Some (k, qps(qp \<mapsto> \<lparr>qp_type = queryType, qp_queries = qs\<rparr>), VK_SUCCESS, Some qp) } })"

text \<open>The numbers of the performance monitors of a query.\<close>

definition perfmon_count :: "query \<Rightarrow> nat" where
  "perfmon_count q = (unat (qu_numEnabledCounters q) + 15) div DRM_VC4_MAX_PERF_COUNTERS"

definition destroy_query :: "'k kernel \<Rightarrow> query \<Rightarrow> 'k \<Rightarrow> 'k option" where
  "destroy_query K q k = (if length (qu_perfmonIDs q) < perfmon_count q then None
     else Some (fold (\<lambda>pm k. vc4_destroy_perfmon K k pm) (take (perfmon_count q) (qu_perfmonIDs q)) k))"

fun destroy_queries :: "'k kernel \<Rightarrow> query list \<Rightarrow> 'k \<Rightarrow> 'k option" where
  "destroy_queries K [] k = Some k"
| "destroy_queries K (q # qs) k = do { k \<leftarrow> destroy_query K q k; destroy_queries K qs k }"

text \<open>The array of the queries is freed, the pool itself is not.\<close>

definition vkDestroyQueryPool ::
  "'k kernel \<Rightarrow> addr \<Rightarrow> (addr \<rightharpoonup> queryPool) \<Rightarrow> 'k \<Rightarrow> ('k \<times> (addr \<rightharpoonup> queryPool)) option" where
  "vkDestroyQueryPool K p qps k = do {
     qp \<leftarrow> qps p;
     k \<leftarrow> destroy_queries K (qp_queries qp) k;
     Some (k, qps(p \<mapsto> qp\<lparr>qp_queries := []\<rparr>)) }"

text \<open>\<open>perfmons p i\<close> is the address of the monitors of query \<open>i\<close> of the pool \<open>p\<close>.\<close>

definition vkCmdBeginQuery ::
  "(addr \<Rightarrow> u32 \<Rightarrow> addr) \<Rightarrow> addr \<Rightarrow> addr \<Rightarrow> u32 \<Rightarrow> (addr \<rightharpoonup> queryPool) \<Rightarrow> cmd_world \<Rightarrow> cmd_world option" where
  "vkCmdBeginQuery perfmons p pool i qps w = do {
     qp \<leftarrow> qps pool;
     q \<leftarrow> elem_at (qp_queries qp) i;
     on_cmdbuf p (\<lambda>b. b\<lparr>cb_perfmonID := perfmons pool i\<rparr>) w }"

definition vkCmdEndQuery :: "addr \<Rightarrow> cmd_world \<Rightarrow> cmd_world option" where
  "vkCmdEndQuery p = on_cmdbuf p (\<lambda>b. b\<lparr>cb_perfmonID := NULL\<rparr>)"

end
