(* ===== verification/Float32.thy ===== *)
theory Float32
  imports Recording
begin

text \<open>
  The \<open>float\<close> arithmetic of the draw commands: IEEE single precision, in the bit pattern the fields
  hold.  Infinities and NaNs are left out (\<open>None\<close>), as a value and as a result.
\<close>

unbundle bit_operations_syntax

definition f32_negative :: "u32 \<Rightarrow> bool" where "f32_negative w \<longleftrightarrow> bit w 31"

definition f32_value :: "u32 \<Rightarrow> rat option" where
  "f32_value w = (let e = unat (drop_bit 23 w AND 0xff); f = unat (w AND 0x7fffff);
     x = (if e = 0 then of_nat f / 2 ^ 149 else of_nat (2 ^ 23 + f) * 2 ^ e / 2 ^ 150)
   in if e = 255 then None else Some (if f32_negative w then - x else x))"

text \<open>
  Rounding to nearest, ties to even: \<open>y\<close> is the value in units of the last place for the exponent field
  \<open>e\<close>; there are 254 exponents.
\<close>

fun f32_search :: "u32 \<Rightarrow> nat \<Rightarrow> rat \<Rightarrow> u32 option" where
  "f32_search e 0 y = None"
| "f32_search e (Suc n) y = (let m = round_even y in
     if m < 2 ^ 24 then Some (e * 2 ^ 23 + word_of_int m) else f32_search (e + 1) n (y / 2))"

definition f32_round :: "bool \<Rightarrow> rat \<Rightarrow> u32 option" where
  "f32_round negative x = map_option (\<lambda>w. if negative then w OR 0x80000000 else w) (f32_search 0 254 (x * 2 ^ 149))"

definition f32_mul :: "u32 \<Rightarrow> u32 \<Rightarrow> u32 option" where
  "f32_mul a b = do { x \<leftarrow> f32_value a; y \<leftarrow> f32_value b; f32_round (f32_negative a \<noteq> f32_negative b) \<bar>x * y\<bar> }"

definition f32_add :: "u32 \<Rightarrow> u32 \<Rightarrow> u32 option" where
  "f32_add a b = do { x \<leftarrow> f32_value a; y \<leftarrow> f32_value b;
     if x + y = 0 then Some (if f32_negative a \<and> f32_negative b then 0x80000000 else 0)
     else f32_round (x + y < 0) \<bar>x + y\<bar> }"

definition f32_sub :: "u32 \<Rightarrow> u32 \<Rightarrow> u32 option" where
  "f32_sub a b = f32_add a (b XOR 0x80000000)"

text \<open>The conversion to \<open>uint32_t\<close> drops the fraction; a value out of range is undefined.\<close>

definition f32_to_u32 :: "u32 \<Rightarrow> u32 option" where
  "f32_to_u32 w = do { x \<leftarrow> f32_value w;
     if - 1 < x \<and> x < 2 ^ 32 then Some (word_of_int (if x < 0 then 0 else floor x)) else None }"


subsection \<open>Exact results\<close>

lemma round_even_int [simp]: "round_even (of_int i) = i"
  by (simp add: round_even_def Let_def)

lemma round_even_nat_pow [simp]: "round_even (of_nat M * 2 ^ k) = int M * 2 ^ k"
  using round_even_int [of "int M * 2 ^ k"] by simp

lemma f32_search_exact:
  assumes "M < 2 ^ 24" "k = 0 \<or> 2 ^ 23 \<le> M" "k < n"
  shows "f32_search e n (of_nat M * 2 ^ k) = Some ((e + of_nat k) * 2 ^ 23 + of_nat M)"
  using assms
proof (induction k arbitrary: e n)
  case 0
  have "int M < 2 ^ 24" using 0 by simp
  then show ?case using 0 round_even_nat_pow [of M 0] by (cases n) (simp_all add: Let_def)
next
  case (Suc k)
  obtain n' where n: "n = Suc n'" using Suc.prems(3) by (cases n) auto
  have "2 ^ 24 \<le> int M * 2 ^ Suc k"
  proof -
    have "(2 :: int) ^ 23 * 2 ^ 1 \<le> int M * 2 ^ Suc k" using Suc.prems(2) by (intro mult_mono power_increasing) auto
    then show ?thesis by simp
  qed
  then have "f32_search e n (of_nat M * 2 ^ Suc k) = f32_search (e + 1) n' (of_nat M * 2 ^ k)"
    using n round_even_nat_pow [of M "Suc k"] by (simp add: Let_def)
  also have "\<dots> = Some ((e + 1 + of_nat k) * 2 ^ 23 + of_nat M)"
    using Suc.prems n by (intro Suc.IH) auto
  finally show ?case by (simp add: add.assoc)
qed

lemma f32_fields:
  fixes w :: u32
  defines "e \<equiv> unat (drop_bit 23 w AND 0xff)" and "f \<equiv> unat (w AND 0x7fffff)"
  shows "f < 2 ^ 23" "e < 256" "of_nat e * 2 ^ 23 + of_nat f = take_bit 31 w"
proof -
  have "(0xff :: u32) = mask 8" "(0x7fffff :: u32) = mask 23" by (simp_all add: mask_eq_exp_minus_1)
  then have "e = unat (take_bit 8 (drop_bit 23 w))" "f = unat (take_bit 23 w)"
    unfolding e_def f_def by (simp_all only: take_bit_eq_mask)
  then have ef: "e = unat w div 2 ^ 23 mod 2 ^ 8" "f = unat w mod 2 ^ 23"
    by (simp_all only: unsigned_take_bit_eq unsigned_drop_bit_eq take_bit_eq_mod drop_bit_eq_div) (simp_all add: unat_mod unat_div)
  show "f < 2 ^ 23" "e < 256" by (simp_all add: ef)
  have "e * 2 ^ 23 + f = unat w mod 2 ^ 31" 
    unfolding ef using mod_mult2_eq [of "unat w" "2 ^ 23" "2 ^ 8"] by (simp add: mult.commute)
  also have "\<dots> = unat (take_bit 31 w)" by (simp add: unsigned_take_bit_eq take_bit_eq_mod unat_mod)
  finally have "of_nat (e * 2 ^ 23 + f) = (of_nat (unat (take_bit 31 w)) :: u32)" by (rule arg_cong)
  then show "of_nat e * 2 ^ 23 + of_nat f = take_bit 31 w" by simp
qed

lemma f32_sign: "take_bit 31 (w :: u32) OR (if bit w 31 then 0x80000000 else 0) = w"
proof -
  have b: "bit (0x80000000 :: u32) n \<longleftrightarrow> n = 31" for n
  proof -
    have "(0x80000000 :: u32) = push_bit 31 1" by simp
    then show ?thesis by (simp only: bit_push_bit_iff) (auto simp: bit_simps)
  qed
  show ?thesis
  proof (rule bit_word_eqI)
    fix n assume "n < LENGTH(32)"
    then consider "n = 31" | "n < 31" by fastforce
    then show "bit (take_bit 31 w OR (if bit w 31 then 0x80000000 else 0)) n \<longleftrightarrow> bit w n"
      using b [of n] by cases (simp_all add: bit_or_iff bit_take_bit_iff)
  qed
qed

lemma f32_magnitude:
  assumes "f32_value w = Some x"
  obtains e f where "e = unat (drop_bit 23 w AND 0xff)" "f = unat (w AND 0x7fffff)" "e \<noteq> 255"
    "\<bar>x\<bar> = (if e = 0 then of_nat f / 2 ^ 149 else of_nat (2 ^ 23 + f) * 2 ^ e / 2 ^ 150)" "f32_negative w \<longleftrightarrow> x < 0 \<or> x = 0 \<and> f32_negative w"
proof -
  define e f where ef: "e = unat (drop_bit 23 w AND 0xff)" "f = unat (w AND 0x7fffff)"
  define X :: rat where "X = (if e = 0 then of_nat f / 2 ^ 149 else of_nat (2 ^ 23 + f) * 2 ^ e / 2 ^ 150)"
  have "0 \<le> X" by (simp add: X_def)
  moreover have "e \<noteq> 255" "x = (if f32_negative w then - X else X)"
    using assms unfolding f32_value_def Let_def X_def ef by (simp_all only: split: if_splits) auto
  ultimately have "\<bar>x\<bar> = X" "f32_negative w \<longleftrightarrow> x < 0 \<or> x = 0 \<and> f32_negative w" "e \<noteq> 255" by auto
  then show ?thesis using that [OF ef] unfolding X_def by blast
qed

lemma f32_round_exact:
  assumes "f32_value w = Some x"
  shows "f32_round (f32_negative w) \<bar>x\<bar> = Some w"
proof -
  obtain e f where ef: "e = unat (drop_bit 23 w AND 0xff)" "f = unat (w AND 0x7fffff)"
    and e: "e \<noteq> 255" and x: "\<bar>x\<bar> = (if e = 0 then of_nat f / 2 ^ 149 else of_nat (2 ^ 23 + f) * 2 ^ e / 2 ^ 150)"
    using f32_magnitude [OF assms] by metis
  note lim = f32_fields [of w, folded ef]
  define k M where kM: "k = e - 1" "M = (if e = 0 then f else 2 ^ 23 + f)"
  have pow: "2 ^ e = (2 :: rat) * 2 ^ k" if "e \<noteq> 0" using that by (cases e) (simp_all add: kM)
  have "\<bar>x\<bar> * 2 ^ 149 = of_nat M * 2 ^ k"
    using x pow by (cases "e = 0") (simp_all add: kM field_simps)
  moreover have "f32_search 0 254 (of_nat M * 2 ^ k) = Some ((0 + of_nat k) * 2 ^ 23 + of_nat M)"
    using lim e by (intro f32_search_exact) (auto simp: kM)
  moreover have "(of_nat k * 2 ^ 23 + of_nat M :: u32) = take_bit 31 w"
    using lim(3) by (cases e) (simp_all add: kM algebra_simps)
  ultimately have "f32_round (f32_negative w) \<bar>x\<bar> = Some (if f32_negative w then take_bit 31 w OR 0x80000000 else take_bit 31 w)"
    by (simp add: f32_round_def)
  then show ?thesis using f32_sign [of w] by (auto simp: f32_negative_def)
qed

lemma f32_negative_value: "f32_value w = Some x \<Longrightarrow> x \<noteq> 0 \<Longrightarrow> f32_negative w \<longleftrightarrow> x < 0"
  by (rule f32_magnitude) auto

text \<open>A result that is a \<open>float\<close> is exact.\<close>

lemma f32_mul_exact:
  assumes "f32_value a = Some x" "f32_value b = Some y" "f32_value r = Some (x * y)"
    "f32_negative r \<longleftrightarrow> f32_negative a \<noteq> f32_negative b"
  shows "f32_mul a b = Some r"
  using assms f32_round_exact [OF assms(3)] by (simp add: f32_mul_def)

lemma f32_add_exact:
  assumes "f32_value a = Some x" "f32_value b = Some y" "f32_value r = Some (x + y)" "x + y \<noteq> 0"
  shows "f32_add a b = Some r"
  using assms f32_round_exact [OF assms(3)] f32_negative_value [OF assms(3,4)] by (simp add: f32_add_def)

text \<open>Numbers of at most 24 significant bits are values of a \<open>float\<close>.\<close>

lemma f32_value_pieces:
  assumes "w = of_nat (E * 2 ^ 23 + f)" "E < 255" "f < 2 ^ 23" "E \<noteq> 0"
  shows "f32_value w = Some (of_nat (2 ^ 23 + f) * 2 ^ E / 2 ^ 150)" "\<not> f32_negative w"
proof -
  have small: "E * 2 ^ 23 + f < 2 ^ 31" using assms(2,3) by simp
  then have u: "unat w = E * 2 ^ 23 + f" unfolding assms(1) unat_of_nat by (simp del: of_nat_add of_nat_mult)
  have "(0xff :: u32) = mask 8" "(0x7fffff :: u32) = mask 23" by (simp_all add: mask_eq_exp_minus_1)
  then have m: "unat (drop_bit 23 w AND 0xff) = unat (take_bit 8 (drop_bit 23 w))" "unat (w AND 0x7fffff) = unat (take_bit 23 w)"
    by (simp_all only: take_bit_eq_mask)
  have "unat (drop_bit 23 w AND 0xff) = unat w div 2 ^ 23 mod 2 ^ 8" "unat (w AND 0x7fffff) = unat w mod 2 ^ 23"
    unfolding m by (simp_all only: unsigned_take_bit_eq unsigned_drop_bit_eq take_bit_eq_mod drop_bit_eq_div) (simp_all add: unat_mod unat_div)
  then have ef: "unat (drop_bit 23 w AND 0xff) = E" "unat (w AND 0x7fffff) = f" using assms(2,3) by (simp_all add: u)
  show n: "\<not> f32_negative w"
  proof
    assume "f32_negative w"
    then have "take_bit 31 w \<noteq> w" by (metis f32_negative_def bit_take_bit_iff less_irrefl)
    moreover have "unat (take_bit 31 w) = unat w" unfolding unsigned_take_bit_eq u using small by (simp only: take_bit_eq_mod mod_less)
    ultimately show False by (metis word_unat_eq_iff)
  qed
  show "f32_value w = Some (of_nat (2 ^ 23 + f) * 2 ^ E / 2 ^ 150)"
    using n assms(2,4) by (simp add: f32_value_def ef)
qed

lemma f32_exact:
  assumes "0 < M" "M < 2 ^ 24" "j \<le> 32"
  obtains w where "f32_value w = Some (of_nat M * 2 ^ j / 2)" "\<not> f32_negative w"
    "f32_round False (of_nat M * 2 ^ j / 2) = Some w"
proof -
  obtain e where e: "2 ^ e \<le> M" "M < 2 ^ (e + 1)" using ex_power_ivl1 [of 2 M] assms(1) by auto
  then have "e < 24" using assms(2) by (metis le_less_trans power_less_imp_less_exp one_less_numeral_iff semiring_norm(76))
  define f where "f = M * 2 ^ (23 - e) - 2 ^ 23"
  have p: "2 ^ e * 2 ^ (23 - e) = (2 ^ 23 :: nat)" using \<open>e < 24\<close> by (simp flip: power_add)
  have "2 ^ 23 \<le> M * 2 ^ (23 - e)" using mult_le_mono1 [OF e(1), of "2 ^ (23 - e)"] p by simp
  then have f: "2 ^ 23 + f = M * 2 ^ (23 - e)" by (simp add: f_def)
  have "M * 2 ^ (23 - e) < 2 ^ (e + 1) * 2 ^ (23 - e)" using e(2) by simp
  also have "\<dots> = 2 ^ 24" using p by simp
  finally have f_lt: "f < 2 ^ 23" using f by simp
  define E where "E = e + j + 126"
  define w :: u32 where "w = of_nat (E * 2 ^ 23 + f)"
  have "f32_value w = Some (of_nat (2 ^ 23 + f) * 2 ^ E / 2 ^ 150)" and n: "\<not> f32_negative w"
    using f32_value_pieces [OF w_def _ f_lt] \<open>e < 24\<close> assms(3) by (simp_all add: E_def)
  moreover have "(of_nat (2 ^ 23 + f) * 2 ^ E / 2 ^ 150 :: rat) = of_nat M * 2 ^ j / 2"
  proof -
    have "(2 ^ (23 - e) * 2 ^ E :: rat) = 2 ^ (149 + j)" using \<open>e < 24\<close> by (simp add: E_def flip: power_add)
    then have "(of_nat M * 2 ^ (23 - e) * 2 ^ E :: rat) = of_nat M * 2 ^ j * 2 ^ 149" by (simp add: power_add mult.assoc)
    then show ?thesis unfolding f by (simp add: mult.commute)
  qed
  ultimately have v: "f32_value w = Some (of_nat M * 2 ^ j / 2)" by simp
  then show ?thesis using that [OF v n] f32_round_exact [OF v] n by simp
qed

lemma f32_scaled:
  assumes "M < 2 ^ 24" "j \<le> 32"
  obtains w where "f32_value w = Some (of_nat M * 2 ^ j / 2)" "\<not> f32_negative w"
    "f32_round False (of_nat M * 2 ^ j / 2) = Some w"
proof (cases "M = 0")
  case True
  have "f32_value 0 = Some 0" "\<not> f32_negative 0" by (simp_all add: f32_value_def f32_negative_def)
  moreover from this have "f32_round False 0 = Some 0" using f32_round_exact [of 0 0] by simp
  ultimately show ?thesis using that [of 0] True by simp
qed (use that f32_exact assms in blast)

end
