(* ===== verification/Draw.thy ===== *)
theory Draw
  imports Descriptor_Sets Device_Objects Float32
begin

text \<open>
  driver/draw.c: the draw commands.  A draw writes to all the lists of the command buffer: the state
  packets and the draw packet to the binning list, the shader record and the attribute records, with
  the indices of their buffers in front, to the shader record list, the uniforms in the order in
  which the shaders read them to the uniforms list, and the buffers to the handles.  A secondary
  command buffer also records where the indices lie.
\<close>

unbundle bit_operations_syntax

subsection \<open>The objects and the lists\<close>

record 'b draw_objects = objects +
  ob_buffers :: "addr \<rightharpoonup> buffer"
  ob_views :: "addr \<rightharpoonup> imageView"
  ob_bufferViews :: "addr \<rightharpoonup> bufferView"
  ob_samplers :: "addr \<rightharpoonup> sampler"
  ob_pipelines :: "addr \<rightharpoonup> 'b pipeline"
  ob_modules :: "addr \<rightharpoonup> shaderModule"

abbreviation on_shaderRecCl where "on_shaderRecCl \<equiv> on_cl cb_shaderRecCl cb_shaderRecCl_update"
abbreviation on_uniformsCl where "on_uniformsCl \<equiv> on_cl cb_uniformsCl cb_uniformsCl_update"
abbreviation on_uniformRelocCl where "on_uniformRelocCl \<equiv> on_cl cb_uniformRelocCl cb_uniformRelocCl_update"
abbreviation on_gemRelocCl where "on_gemRelocCl \<equiv> on_cl cb_gemRelocCl cb_gemRelocCl_update"
abbreviation on_shaderRecRelocCl where "on_shaderRecRelocCl \<equiv> on_cl cb_shaderRecRelocCl cb_shaderRecRelocCl_update"

text \<open>\<open>clInsertData\<close> of bytes that do not lie in the byte memory.\<close>

definition insert_bytes :: "u8 list \<Rightarrow> cl_state \<Rightarrow> cl_state option" where
  "insert_bytes bs = cl_put bs (of_nat (length bs))"

text \<open>\<open>sz\<close> bytes of an array at an offset.\<close>

definition bytes_of :: "u8 list \<Rightarrow> u32 \<Rightarrow> nat \<Rightarrow> u8 list option" where
  "bytes_of xs offset sz = (if unat offset + sz \<le> length xs then Some (take sz (drop (unat offset) xs)) else None)"

definition bound_pipeline :: "'b draw_objects \<Rightarrow> addr \<Rightarrow> cmd_world \<Rightarrow> 'b pipeline option" where
  "bound_pipeline ob p w = do { b \<leftarrow> cw_cbs w p; ob_pipelines ob (cb_graphicsPipeline b) }"

text \<open>The place of the handles of the current marker and their size.\<close>

definition handles_place :: "addr \<Rightarrow> cmd_world \<Rightarrow> (u32 \<times> u32) option" where
  "handles_place p w = do {
     b \<leftarrow> cw_cbs w p;
     handlesBufOffset \<leftarrow> get_marker p CLMarker_handlesBufOffset w;
     handlesSize \<leftarrow> get_marker p CLMarker_handlesSize w;
     Some (handlesBufOffset + cl_offset (cb_handlesCl b), handlesSize) }"

definition handle_index :: "addr \<Rightarrow> u32 \<Rightarrow> cmd_world \<Rightarrow> (cmd_world \<times> u32) option" where
  "handle_index p bo w = do {
     w \<leftarrow> on_handlesCl p (\<lambda>\<sigma>. clFit \<sigma> 4) w;
     (offset, sz) \<leftarrow> handles_place p w;
     b \<leftarrow> cw_cbs w p;
     P \<leftarrow> cw_cps w (cb_cp b);
     (\<sigma>', idx) \<leftarrow> clGetHandleIndex offset sz bo ((cw_mem w, cp_cpa P), cb_handlesCl b);
     w \<leftarrow> on_handlesCl p (\<lambda>_. Some \<sigma>') w;
     Some (w, idx) }"

subsection \<open>The state packets\<close>

definition draw_viewport :: "'b pipeline \<Rightarrow> commandBuffer \<Rightarrow> VkViewport option" where
  "draw_viewport pip b = do {
     vp \<leftarrow> elem_at (pl_viewports pip) 0;
     Some (if VK_DYNAMIC_STATE_VIEWPORT \<in> set (pl_dynamicStates pip) then ds_viewport (cb_dynamic b) else vp) }"

definition draw_depth_bias :: "'b pipeline \<Rightarrow> commandBuffer \<Rightarrow> u32 \<times> u32" where
  "draw_depth_bias pip b =
     (if VK_DYNAMIC_STATE_DEPTH_BIAS \<in> set (pl_dynamicStates pip)
      then (ds_depthBiasConstantFactor (cb_dynamic b), ds_depthBiasSlopeFactor (cb_dynamic b))
      else (pl_depthBiasConstantFactor pip, pl_depthBiasSlopeFactor pip))"

text \<open>The literals \<open>0.5f\<close>, \<open>1.0f\<close> and \<open>16.0f\<close>.\<close>

abbreviation F32_HALF :: u32 where "F32_HALF \<equiv> 0x3f000000"
abbreviation F32_ONE :: u32 where "F32_ONE \<equiv> 0x3f800000"
abbreviation F32_SIXTEEN :: u32 where "F32_SIXTEEN \<equiv> 0x41800000"

definition clip_window :: "VkViewport \<Rightarrow> cl_state \<Rightarrow> cl_state option" where
  "clip_window vp \<sigma> = do {
     width \<leftarrow> f32_to_u32 (vp_width vp);
     height \<leftarrow> f32_to_u32 (vp_height vp);
     bottom \<leftarrow> f32_to_u32 (vp_y vp);
     left \<leftarrow> f32_to_u32 (vp_x vp);
     clInsertClipWindow width height bottom left \<sigma> }"

definition clipper_scaling :: "VkViewport \<Rightarrow> cl_state \<Rightarrow> cl_state option" where
  "clipper_scaling vp \<sigma> = do {
     halfWidth \<leftarrow> f32_mul (vp_width vp) F32_HALF;
     x \<leftarrow> f32_mul halfWidth F32_SIXTEEN;
     height \<leftarrow> f32_mul F32_ONE (vp_height vp);
     halfHeight \<leftarrow> f32_mul height F32_HALF;
     y \<leftarrow> f32_mul halfHeight F32_SIXTEEN;
     clInsertClipperXYScaling x y \<sigma> }"

definition viewport_offset :: "VkViewport \<Rightarrow> cl_state \<Rightarrow> cl_state option" where
  "viewport_offset vp \<sigma> = do {
     halfWidth \<leftarrow> f32_mul (vp_width vp) F32_HALF;
     x \<leftarrow> f32_add halfWidth (vp_x vp);
     xv \<leftarrow> f32_value x;
     halfHeight \<leftarrow> f32_mul (vp_height vp) F32_HALF;
     y \<leftarrow> f32_add halfHeight (vp_y vp);
     yv \<leftarrow> f32_value y;
     clInsertViewPortOffset xv yv \<sigma> }"

definition draw_configuration :: "'b pipeline \<Rightarrow> cl_state \<Rightarrow> cl_state option" where
  "draw_configuration pip = clInsertConfigurationBits 1 (pl_depthTestEnable pip)
     (of_bool (pl_depthWriteEnable pip \<noteq> 0 \<and> pl_depthTestEnable pip \<noteq> 0))
     (if pl_depthTestEnable pip \<noteq> 0 then getCompareOp (pl_depthCompareOp pip) else 7)
     0 0 0 0 (of_bool (pl_rasterizationSamples pip > 1)) (pl_depthBiasEnable pip) (of_bool (pl_frontFace pip = 1))
     (of_bool (pl_cullMode pip AND 2 = 0)) (of_bool (pl_cullMode pip AND 1 = 0))"

definition clipper_z :: "VkViewport \<Rightarrow> cl_state \<Rightarrow> cl_state option" where
  "clipper_z vp \<sigma> = do {
     scale \<leftarrow> f32_sub (vp_maxDepth vp) (vp_minDepth vp);
     clInsertClipperZScaleOffset (vp_minDepth vp) scale \<sigma> }"

definition clear_dirty :: "addr \<Rightarrow> (dirtyFlags \<Rightarrow> dirtyFlags) \<Rightarrow> cmd_world \<Rightarrow> cmd_world option" where
  "clear_dirty p f = on_cmdbuf p (cb_dirty_update f)"

text \<open>After the depth packets the flag of the vertex buffers is cleared.\<close>

definition draw_state :: "'b pipeline \<Rightarrow> addr \<Rightarrow> cmd_world \<Rightarrow> cmd_world option" where
  "draw_state pip p w = do {
     b \<leftarrow> cw_cbs w p;
     vp \<leftarrow> draw_viewport pip b;
     w \<leftarrow> fit_emit p 5 (clInsertLineWidth (pl_lineWidth pip)) w;
     w \<leftarrow> clear_dirty p (\<lambda>d. d\<lparr>lineWidthDirty := 0\<rparr>) w;
     w \<leftarrow> fit_emit p 9 (clip_window vp) w;
     w \<leftarrow> fit_emit p 9 (clipper_scaling vp) w;
     w \<leftarrow> fit_emit p 5 (viewport_offset vp) w;
     w \<leftarrow> clear_dirty p (\<lambda>d. d\<lparr>viewportDirty := 0\<rparr>) w;
     w \<leftarrow> fit_emit p 4 (draw_configuration pip) w;
     w \<leftarrow> fit_emit p 5 (clInsertDepthOffset (fst (draw_depth_bias pip b)) (snd (draw_depth_bias pip b))) w;
     w \<leftarrow> fit_emit p 9 (clipper_z vp) w;
     w \<leftarrow> clear_dirty p (\<lambda>d. d\<lparr>vertexBufferDirty := 0, depthBoundsDirty := 0\<rparr>) w;
     w \<leftarrow> fit_emit p 5 (clInsertPointSize F32_ONE) w;
     w \<leftarrow> fit_emit p 5 (clInsertFlatShadeFlags 0) w;
     fit_emit p 5 (clInsertShaderState 0 0 (of_nat (length (pl_vertexAttributeDescriptions pip)) AND 7)) w }"

text \<open>The modules of the vertex and of the fragment shader; either may stand for both.\<close>

definition draw_modules :: "'b draw_objects \<Rightarrow> 'b pipeline \<Rightarrow> (shaderModule \<times> shaderModule) option" where
  "draw_modules ob pip = do {
     frag \<leftarrow> elem_at (pl_modules pip) (ulog2 16);
     vert \<leftarrow> elem_at (pl_modules pip) (ulog2 1);
     let vertModule = (if vert = NULL then frag else vert);
     let fragModule = (if frag = NULL then vertModule else frag);
     v \<leftarrow> ob_modules ob vertModule;
     f \<leftarrow> ob_modules ob fragModule;
     Some (v, f) }"

subsection \<open>The shader record and the attribute records\<close>

text \<open>An operation on the shader record list, the copy of it at the relocations, and the handles.\<close>

definition on_record ::
  "addr \<Rightarrow> (cl3_state \<Rightarrow> cl3_state option) \<Rightarrow> cmd_world \<times> ControlList \<Rightarrow> (cmd_world \<times> ControlList) option" where
  "on_record p f s = (let (w, relocCl) = s in do {
     b \<leftarrow> cw_cbs w p;
     P \<leftarrow> cw_cps w (cb_cp b);
     ((m, cpa), cls, relocCl, handlesCl) \<leftarrow> f ((cw_mem w, cp_cpa P), cb_shaderRecCl b, relocCl, cb_handlesCl b);
     Some (w\<lparr>cw_mem := m, cw_cps := (cw_cps w)(cb_cp b \<mapsto> P\<lparr>cp_cpa := cpa\<rparr>),
       cw_cbs := (cw_cbs w)(p \<mapsto> b\<lparr>cb_shaderRecCl := cls, cb_handlesCl := handlesCl\<rparr>)\<rparr>, relocCl) })"

definition format_bytes :: "VkVertexInputAttributeDescription \<Rightarrow> u32" where
  "format_bytes a = drop_bit 3 (getFormatBpp (va_format a))"

text \<open>How many of the attributes have a buffer, and the bits of their locations.\<close>

fun bound_attributes :: "addr list \<Rightarrow> VkVertexInputAttributeDescription list \<Rightarrow> u32 \<times> u32 \<Rightarrow> (u32 \<times> u32) option" where
  "bound_attributes bufs [] s = Some s"
| "bound_attributes bufs (a # as) (n, bits) = do {
     buf \<leftarrow> elem_at bufs (va_binding a);
     if buf = NULL then bound_attributes bufs as (n, bits)
     else if va_location a \<ge> 32 then None
     else bound_attributes bufs as (n + 1, bits OR push_bit (unat (va_location a)) 1) }"

definition vertex_attrib_size :: "VkVertexInputAttributeDescription list \<Rightarrow> u32" where
  "vertex_attrib_size as = sum_list (map format_bytes as)"

text \<open>The size of the last attribute at location 0.\<close>

definition coord_attrib_size :: "VkVertexInputAttributeDescription list \<Rightarrow> u32" where
  "coord_attrib_size as = fold (\<lambda>a n. if va_location a = 0 then format_bytes a else n) as 0"

definition record_relocs :: "u32 \<Rightarrow> addr \<Rightarrow> cmd_world \<Rightarrow> cmd_world option" where
  "record_relocs attribCount p w = do {
     b \<leftarrow> cw_cbs w p;
     if cb_level b \<noteq> VK_COMMAND_BUFFER_LEVEL_SECONDARY then Some w
     else do {
       let offset = cl_nextFreeByteOffset (cb_shaderRecCl b) - cl_offset (cb_shaderRecCl b);
       w \<leftarrow> on_shaderRecRelocCl p (\<lambda>\<sigma>. clFit \<sigma> 12) w;
       w \<leftarrow> on_shaderRecRelocCl p (run_ops (map (\<lambda>i. insert_bytes (bytes32 (offset + i))) [0, 4, 8])) w;
       w \<leftarrow> on_shaderRecRelocCl p (\<lambda>\<sigma>. clFit \<sigma> (4 * attribCount)) w;
       on_shaderRecRelocCl p (run_ops (map (\<lambda>c. insert_bytes (bytes32 (offset + 12 + of_nat c * 4)))
         [0..<unat attribCount])) w } }"

definition stage_code :: "shaderModule \<Rightarrow> nat \<Rightarrow> ControlListAddress option" where
  "stage_code sh stage = do {
     bo \<leftarrow> elem_at (sm_bos sh) (of_nat stage);
     Some \<lparr>cla_handle = bo, cla_offset = 0\<rparr> }"

text \<open>The result is the list copy that the attribute records go on with.\<close>

definition draw_shader_record ::
  "'b pipeline \<Rightarrow> shaderModule \<Rightarrow> shaderModule \<Rightarrow> addr \<Rightarrow> cmd_world \<Rightarrow> (cmd_world \<times> ControlList) option" where
  "draw_shader_record pip vertModule fragModule p w = do {
     fragCode \<leftarrow> stage_code fragModule VK_RPI_ASSEMBLY_TYPE_FRAGMENT;
     vertCode \<leftarrow> stage_code vertModule VK_RPI_ASSEMBLY_TYPE_VERTEX;
     coordCode \<leftarrow> stage_code vertModule VK_RPI_ASSEMBLY_TYPE_COORDINATE;
     w \<leftarrow> on_cmdbuf p (\<lambda>b. b\<lparr>cb_shaderRecCount := cb_shaderRecCount b + 1\<rparr>) w;
     w \<leftarrow> on_shaderRecCl p (\<lambda>\<sigma>. clFit \<sigma> (12 * 4 + 104 + 8 * 32)) w;
     b \<leftarrow> cw_cbs w p;
     let relocCl = cb_shaderRecCl b;
     let as = pl_vertexAttributeDescriptions pip;
     (attribCount, attribSelectBits) \<leftarrow> bound_attributes (ds_vertexBuffers (cb_dynamic b)) as (0, 0);
     w \<leftarrow> record_relocs attribCount p w;
     w \<leftarrow> on_shaderRecCl p (run_ops (replicate (unat ((3 + attribCount) * 4)) clInsertNop)) w;
     w \<leftarrow> on_handlesCl p (\<lambda>\<sigma>. clFit \<sigma> ((3 + 8) * 4)) w;
     (handlesOffset, handlesSize) \<leftarrow> handles_place p w;
     on_record p (clInsertShaderRecord handlesOffset handlesSize (of_bool (sm_hasThreadSwitch fragModule = 0)) 0 1
       0 (sm_numVaryings fragModule) 0 fragCode
       0 attribSelectBits (vertex_attrib_size as) 0 vertCode
       0 1 (coord_attrib_size as) 0 coordCode) (w, relocCl) }"

text \<open>The sizes of the attributes in front of location \<open>c\<close>; the coordinate shader has the first one only.\<close>

definition vertex_vpm_offset :: "VkVertexInputAttributeDescription list \<Rightarrow> nat \<Rightarrow> u32" where
  "vertex_vpm_offset as c = sum_list (map format_bytes (filter (\<lambda>a. unat (va_location a) < c) as))"

definition vertexAttribOffsets :: "VkVertexInputAttributeDescription list \<Rightarrow> u32 list" where
  "vertexAttribOffsets as = map (\<lambda>c. if c = 0 then 0 else vertex_vpm_offset as c) [0..<8]"

definition coordAttribOffsets :: "VkVertexInputAttributeDescription list \<Rightarrow> u32 list" where
  "coordAttribOffsets as = map (\<lambda>c. if c = 0 then 0 else vertex_vpm_offset as 1) [0..<8]"

text \<open>The last index for which the attribute lies in its memory; the difference may wrap around.\<close>

definition used_indices :: "deviceMemory \<Rightarrow> buffer \<Rightarrow> u32 \<Rightarrow> u32 \<Rightarrow> u32 \<Rightarrow> VkVertexInputAttributeDescription \<Rightarrow> u32" where
  "used_indices mm buf bufOffset vertexOffset stride a =
     (dm_size mm - va_offset a - vertexOffset * stride - bufOffset - bf_boundOffset buf - format_bytes a) div stride"

text \<open>One attribute; a description whose binding has no buffer is left out.\<close>

definition draw_attribute ::
  "'b draw_objects \<Rightarrow> 'b pipeline \<Rightarrow> u32 \<Rightarrow> addr \<Rightarrow> VkVertexInputAttributeDescription \<Rightarrow>
    (cmd_world \<times> ControlList) \<times> u32 \<Rightarrow> ((cmd_world \<times> ControlList) \<times> u32) option" where
  "draw_attribute ob pip vertexOffset p a s = (let ((w, relocCl), maxIndex) = s; as = pl_vertexAttributeDescriptions pip in do {
     b \<leftarrow> cw_cbs w p;
     bufp \<leftarrow> elem_at (ds_vertexBuffers (cb_dynamic b)) (va_binding a);
     if bufp = NULL then Some ((w, relocCl), maxIndex)
     else do {
       bd \<leftarrow> elem_at (pl_vertexBindingDescriptions pip) (va_binding a);
       bufOffset \<leftarrow> elem_at (ds_vertexBufferOffsets (cb_dynamic b)) (va_binding a);
       buf \<leftarrow> ob_buffers ob bufp;
       mm \<leftarrow> ob_mems ob (bf_boundMem buf);
       let stride = vb_stride bd;
       let used = used_indices mm buf bufOffset vertexOffset stride a;
       let maxIndex = (if stride > 0 \<and> used < maxIndex then used else maxIndex);
       (handlesOffset, handlesSize) \<leftarrow> handles_place p w;
       vo \<leftarrow> elem_at (vertexAttribOffsets as) (va_location a);
       co \<leftarrow> elem_at (coordAttribOffsets as) (va_location a);
       s \<leftarrow> on_record p (clInsertAttributeRecord handlesOffset handlesSize
         \<lparr>cla_handle = dm_bo mm, cla_offset = va_offset a + vertexOffset * stride + bufOffset + bf_boundOffset buf\<rparr>
         (format_bytes a) stride vo co) (w, relocCl);
       Some (s, maxIndex) } })"

fun draw_attributes ::
  "'b draw_objects \<Rightarrow> 'b pipeline \<Rightarrow> u32 \<Rightarrow> addr \<Rightarrow> VkVertexInputAttributeDescription list \<Rightarrow>
    (cmd_world \<times> ControlList) \<times> u32 \<Rightarrow> ((cmd_world \<times> ControlList) \<times> u32) option" where
  "draw_attributes ob pip vertexOffset p [] s = Some s"
| "draw_attributes ob pip vertexOffset p (a # as) s = do {
     s \<leftarrow> draw_attribute ob pip vertexOffset p a s;
     draw_attributes ob pip vertexOffset p as s }"

subsection \<open>Uniforms\<close>

text \<open>The descriptor set that is bound for a mapping.\<close>

definition mapped_set :: "desc_world \<Rightarrow> addr \<Rightarrow> VkRpiAssemblyMappingEXT \<Rightarrow> descriptorSet option" where
  "mapped_set d layout mp = do {
     pl \<leftarrow> dw_layouts d layout;
     ds \<leftarrow> mem_getMapElement (dw_mem d) (ly_descriptorSetBindingMap pl) (am_descriptorSet mp);
     dw_sets d ds }"

definition mapped_image :: "desc_world \<Rightarrow> addr \<Rightarrow> VkRpiAssemblyMappingEXT \<Rightarrow> descriptorImage option" where
  "mapped_image d layout mp = do {
     s \<leftarrow> mapped_set d layout mp;
     q \<leftarrow> find_descriptor (dw_mem d) (ds_imageBindingMap s) (am_descriptorBinding mp) (am_descriptorArrayElement mp) sizeof_descriptorImage;
     dw_images d q }"

definition mapped_buffer :: "desc_world \<Rightarrow> addr \<Rightarrow> VkRpiAssemblyMappingEXT \<Rightarrow> descriptorBuffer option" where
  "mapped_buffer d layout mp = do {
     s \<leftarrow> mapped_set d layout mp;
     q \<leftarrow> find_descriptor (dw_mem d) (ds_bufferBindingMap s) (am_descriptorBinding mp) (am_descriptorArrayElement mp) sizeof_descriptorBuffer;
     dw_buffers d q }"

definition mapped_texel :: "desc_world \<Rightarrow> addr \<Rightarrow> VkRpiAssemblyMappingEXT \<Rightarrow> descriptorTexelBuffer option" where
  "mapped_texel d layout mp = do {
     s \<leftarrow> mapped_set d layout mp;
     q \<leftarrow> find_descriptor (dw_mem d) (ds_texelBufferBindingMap s) (am_descriptorBinding mp) (am_descriptorArrayElement mp) sizeof_descriptorTexelBuffer;
     dw_texels d q }"

definition buffer_bo :: "'b draw_objects \<Rightarrow> addr \<Rightarrow> u32 option" where
  "buffer_bo ob p = do { buf \<leftarrow> ob_buffers ob p; mm \<leftarrow> ob_mems ob (bf_boundMem buf); Some (dm_bo mm) }"

definition mapped_image_type :: "VkDescriptorType \<Rightarrow> bool" where
  "mapped_image_type t \<longleftrightarrow> t \<in> {VK_DESCRIPTOR_TYPE_COMBINED_IMAGE_SAMPLER, VK_DESCRIPTOR_TYPE_SAMPLED_IMAGE,
     VK_DESCRIPTOR_TYPE_STORAGE_IMAGE}"

text \<open>The buffer object behind a mapping; the types without a case are skipped.\<close>

definition mapped_bo :: "'b draw_objects \<Rightarrow> desc_world \<Rightarrow> addr \<Rightarrow> VkRpiAssemblyMappingEXT \<Rightarrow> u32 option option" where
  "mapped_bo ob d layout mp =
     (if mapped_image_type (am_descriptorType mp) then do {
        di \<leftarrow> mapped_image d layout mp;
        v \<leftarrow> ob_views ob (di_imageView di);
        bo \<leftarrow> image_bo (objects.truncate ob) (iv_image v);
        Some (Some bo) }
      else case kind_of (am_descriptorType mp) of
        Some KIND_BUFFER \<Rightarrow> do { db \<leftarrow> mapped_buffer d layout mp; bo \<leftarrow> buffer_bo ob (db_buffer db); Some (Some bo) }
      | Some KIND_TEXEL \<Rightarrow> do {
          dt \<leftarrow> mapped_texel d layout mp;
          v \<leftarrow> ob_bufferViews ob (dt_bufferView dt);
          bo \<leftarrow> buffer_bo ob (bv_buffer v);
          Some (Some bo) }
      | _ \<Rightarrow> Some None)"

definition emit_uniform :: "addr \<Rightarrow> u8 list \<Rightarrow> cmd_world \<Rightarrow> cmd_world option" where
  "emit_uniform p bs w = do {
     w \<leftarrow> on_uniformsCl p (\<lambda>\<sigma>. clFit \<sigma> (of_nat (length bs))) w;
     on_uniformsCl p (insert_bytes bs) w }"

text \<open>The index of a buffer object, and in a secondary command buffer the place where it lies.\<close>

definition emit_reloc :: "addr \<Rightarrow> u32 \<Rightarrow> cmd_world \<Rightarrow> cmd_world option" where
  "emit_reloc p bo w = do {
     (w, idx) \<leftarrow> handle_index p bo w;
     w \<leftarrow> emit_uniform p (bytes32 idx) w;
     b \<leftarrow> cw_cbs w p;
     if cb_level b \<noteq> VK_COMMAND_BUFFER_LEVEL_SECONDARY then Some w
     else do {
       let offset = cl_nextFreeByteOffset (cb_uniformsCl b) - cl_offset (cb_uniformsCl b) - 4;
       w \<leftarrow> on_uniformRelocCl p (\<lambda>\<sigma>. clFit \<sigma> 4) w;
       on_uniformRelocCl p (insert_bytes (bytes32 offset)) w } }"

text \<open>The indices of all buffers come first.\<close>

fun uniform_relocs ::
  "'b draw_objects \<Rightarrow> desc_world \<Rightarrow> addr \<Rightarrow> addr \<Rightarrow> VkRpiAssemblyMappingEXT list \<Rightarrow> cmd_world \<Rightarrow> cmd_world option" where
  "uniform_relocs ob d layout p [] w = Some w"
| "uniform_relocs ob d layout p (mp # mps) w =
     (if am_mappingType mp \<noteq> VK_RPI_ASSEMBLY_MAPPING_TYPE_DESCRIPTOR then uniform_relocs ob d layout p mps w
      else do {
        bo \<leftarrow> mapped_bo ob d layout mp;
        w \<leftarrow> (case bo of None \<Rightarrow> Some w | Some bo \<Rightarrow> emit_reloc p bo w);
        uniform_relocs ob d layout p mps w })"

text \<open>The words of a texture, and how many bytes of them are written.\<close>

definition texture_params :: "image \<Rightarrow> imageView \<Rightarrow> sampler \<Rightarrow> u32 list option" where
  "texture_params i v sa = (let cubemapStride = im_size i div 6;
     levels = sr_levelCount (iv_subresourceRange v);
     numLevels = (if levels < im_miplevels i then levels else im_miplevels i) in do {
     level0 \<leftarrow> elem_at (im_levelOffsets i) 0;
     Some (encodeTextureUniform (ucast (numLevels - 1)) (getTextureDataType (iv_interpretedFormat v))
       (of_bool (iv_viewType v = VK_IMAGE_VIEW_TYPE_CUBE)) (drop_bit 12 cubemapStride)
       (drop_bit 12 (sr_baseArrayLayer (iv_subresourceRange v) * cubemapStride + level0 + im_boundOffset i))
       (ucast (im_height i AND 2047)) (ucast (im_width i AND 2047))
       (getMinFilterType (sa_minFilter sa) (sa_mipmapMode sa)) (of_bool (sa_magFilter sa = VK_FILTER_NEAREST))
       (getWrapMode (sa_addressModeU sa)) (getWrapMode (sa_addressModeV sa)) (ucast (sa_disableAutoLod sa))) })"

definition texture_size :: "imageView \<Rightarrow> sampler \<Rightarrow> nat" where
  "texture_size v sa = (case iv_viewType v of
     VK_IMAGE_VIEW_TYPE_1D \<Rightarrow> 4 | VK_IMAGE_VIEW_TYPE_2D \<Rightarrow> 8 | VK_IMAGE_VIEW_TYPE_CUBE \<Rightarrow> 12 | _ \<Rightarrow> 0) +
     (if iv_viewType v \<noteq> VK_IMAGE_VIEW_TYPE_CUBE \<and> sa_disableAutoLod sa \<noteq> 0 then 4 else 0)"

definition emit_texture :: "'b draw_objects \<Rightarrow> desc_world \<Rightarrow> addr \<Rightarrow> addr \<Rightarrow> VkRpiAssemblyMappingEXT \<Rightarrow> cmd_world \<Rightarrow> cmd_world option" where
  "emit_texture ob d layout p mp w = do {
     di \<leftarrow> mapped_image d layout mp;
     v \<leftarrow> ob_views ob (di_imageView di);
     i \<leftarrow> ob_images ob (iv_image v);
     sa \<leftarrow> ob_samplers ob (di_sampler di);
     params \<leftarrow> texture_params i v sa;
     emit_uniform p (take (texture_size v sa) (concat (map bytes32 params))) w }"

definition emit_push_constant :: "addr \<Rightarrow> (commandBuffer \<Rightarrow> u8 list) \<Rightarrow> VkRpiAssemblyMappingEXT \<Rightarrow> cmd_world \<Rightarrow> cmd_world option" where
  "emit_push_constant p buffer mp w = do {
     b \<leftarrow> cw_cbs w p;
     bs \<leftarrow> bytes_of (buffer b) (am_resourceOffset mp) 4;
     emit_uniform p bs w }"

text \<open>Then what the fragment shader reads, in the order of its reads.\<close>

fun fragment_uniforms ::
  "'b draw_objects \<Rightarrow> desc_world \<Rightarrow> addr \<Rightarrow> addr \<Rightarrow> VkRpiAssemblyMappingEXT list \<Rightarrow> cmd_world \<Rightarrow> cmd_world option" where
  "fragment_uniforms ob d layout p [] w = Some w"
| "fragment_uniforms ob d layout p (mp # mps) w = do {
     w \<leftarrow> (case am_mappingType mp of
       VK_RPI_ASSEMBLY_MAPPING_TYPE_PUSH_CONSTANT \<Rightarrow> emit_push_constant p cb_pushConstantBufferPixel mp w
     | VK_RPI_ASSEMBLY_MAPPING_TYPE_DESCRIPTOR \<Rightarrow>
         if mapped_image_type (am_descriptorType mp) then emit_texture ob d layout p mp w else Some w);
     fragment_uniforms ob d layout p mps w }"

text \<open>The vertex and the coordinate shader read push constants only.\<close>

fun vertex_uniforms :: "addr \<Rightarrow> VkRpiAssemblyMappingEXT list \<Rightarrow> cmd_world \<Rightarrow> cmd_world option" where
  "vertex_uniforms p [] w = Some w"
| "vertex_uniforms p (mp # mps) w = do {
     w \<leftarrow> (if am_mappingType mp = VK_RPI_ASSEMBLY_MAPPING_TYPE_PUSH_CONSTANT
       then emit_push_constant p cb_pushConstantBufferVertex mp w else Some w);
     vertex_uniforms p mps w }"

definition draw_uniforms ::
  "'b draw_objects \<Rightarrow> desc_world \<Rightarrow> 'b pipeline \<Rightarrow> shaderModule \<Rightarrow> shaderModule \<Rightarrow> addr \<Rightarrow> cmd_world \<Rightarrow> cmd_world option" where
  "draw_uniforms ob d pip vertModule fragModule p w = do {
     frags \<leftarrow> elem_at (sm_mappings fragModule) (of_nat VK_RPI_ASSEMBLY_TYPE_FRAGMENT);
     w \<leftarrow> uniform_relocs ob d (pl_layout pip) p frags w;
     w \<leftarrow> fragment_uniforms ob d (pl_layout pip) p frags w;
     verts \<leftarrow> elem_at (sm_mappings vertModule) (of_nat VK_RPI_ASSEMBLY_TYPE_VERTEX);
     w \<leftarrow> vertex_uniforms p verts w;
     coords \<leftarrow> elem_at (sm_mappings vertModule) (of_nat VK_RPI_ASSEMBLY_TYPE_COORDINATE);
     vertex_uniforms p (if coords = [] then verts else coords) w }"

subsection \<open>The draw commands\<close>

text \<open>The result is the largest index that may be used.\<close>

definition drawCommon ::
  "'b draw_objects \<Rightarrow> desc_world \<Rightarrow> addr \<Rightarrow> u32 \<Rightarrow> cmd_world \<Rightarrow> (cmd_world \<times> u32) option" where
  "drawCommon ob d p vertexOffset w = do {
     pip \<leftarrow> bound_pipeline ob p w;
     w \<leftarrow> draw_state pip p w;
     (vertModule, fragModule) \<leftarrow> draw_modules ob pip;
     s \<leftarrow> draw_shader_record pip vertModule fragModule p w;
     ((w, relocCl), maxIndex) \<leftarrow> draw_attributes ob pip vertexOffset p (pl_vertexAttributeDescriptions pip) (s, 0xffff);
     w \<leftarrow> draw_uniforms ob d pip vertModule fragModule p w;
     Some (w, maxIndex) }"

definition count_draw :: "addr \<Rightarrow> cmd_world \<Rightarrow> cmd_world option" where
  "count_draw p w = do {
     n \<leftarrow> get_marker p CLMarker_numDrawCallsSubmitted w;
     set_marker p CLMarker_numDrawCallsSubmitted (n + 1) w }"

text \<open>Instancing is not supported; a message is printed and the draw goes on.\<close>

definition vkCmdDraw ::
  "'b draw_objects \<Rightarrow> desc_world \<Rightarrow> addr \<Rightarrow> u32 \<Rightarrow> u32 \<Rightarrow> u32 \<Rightarrow> u32 \<Rightarrow> cmd_world \<Rightarrow> cmd_world option" where
  "vkCmdDraw ob d p vertexCount instanceCount firstVertex firstInstance w = do {
     (w, maxIndex) \<leftarrow> drawCommon ob d p 0 w;
     pip \<leftarrow> bound_pipeline ob p w;
     w \<leftarrow> fit_emit p 10 (clInsertVertexArrayPrimitives firstVertex vertexCount (getPrimitiveMode (pl_topology pip))) w;
     count_draw p w }"

text \<open>
  There is no \<open>clFit\<close> for the relocation packet, and the one for the primitives asks for the length of
  another packet.
\<close>

definition vkCmdDrawIndexed ::
  "'b draw_objects \<Rightarrow> desc_world \<Rightarrow> addr \<Rightarrow> u32 \<Rightarrow> u32 \<Rightarrow> u32 \<Rightarrow> u32 \<Rightarrow> u32 \<Rightarrow> cmd_world \<Rightarrow> cmd_world option" where
  "vkCmdDrawIndexed ob d p indexCount instanceCount firstIndex vertexOffset firstInstance w = do {
     (w, maxIndex) \<leftarrow> drawCommon ob d p vertexOffset w;
     b \<leftarrow> cw_cbs w p;
     buf \<leftarrow> ob_buffers ob (cb_indexBuffer b);
     mm \<leftarrow> ob_mems ob (bf_boundMem buf);
     (w, idx) \<leftarrow> handle_index p (dm_bo mm) w;
     w \<leftarrow> on_binCl p (clInsertGEMRelocations idx 0) w;
     b \<leftarrow> cw_cbs w p;
     w \<leftarrow> (if cb_level b \<noteq> VK_COMMAND_BUFFER_LEVEL_SECONDARY then Some w
       else do {
         let offset = cl_nextFreeByteOffset (cb_binCl b) - cl_offset (cb_binCl b) - 8;
         w \<leftarrow> on_gemRelocCl p (\<lambda>\<sigma>. clFit \<sigma> 4) w;
         on_gemRelocCl p (insert_bytes (bytes32 offset)) w });
     pip \<leftarrow> bound_pipeline ob p w;
     w \<leftarrow> fit_emit p 10 (clInsertIndexedPrimitiveList maxIndex
       (bf_boundOffset buf + cb_indexBufferOffset b + firstIndex * 2) indexCount 1 (getPrimitiveMode (pl_topology pip))) w;
     count_draw p w }"

end
