(* ===== verification/Draw_State.thy ===== *)
theory Draw_State
  imports Draw Clear_Submit
begin

text \<open>
  What the state packets of a draw are: the commands that the pipeline and the dynamic state stand
  for, in order, each with the floats of the viewport computed, and the flags that are cleared.
\<close>

unbundle bit_operations_syntax

subsection \<open>The commands of a draw\<close>

definition viewport_cmds :: "VkViewport \<Rightarrow> cl_cmd list option" where
  "viewport_cmds vp = do {
     width \<leftarrow> f32_to_u32 (vp_width vp);
     height \<leftarrow> f32_to_u32 (vp_height vp);
     bottom \<leftarrow> f32_to_u32 (vp_y vp);
     left \<leftarrow> f32_to_u32 (vp_x vp);
     halfWidth \<leftarrow> f32_mul (vp_width vp) F32_HALF;
     sx \<leftarrow> f32_mul halfWidth F32_SIXTEEN;
     height1 \<leftarrow> f32_mul F32_ONE (vp_height vp);
     halfHeight1 \<leftarrow> f32_mul height1 F32_HALF;
     sy \<leftarrow> f32_mul halfHeight1 F32_SIXTEEN;
     halfHeight \<leftarrow> f32_mul (vp_height vp) F32_HALF;
     cx \<leftarrow> f32_add halfWidth (vp_x vp);
     cy \<leftarrow> f32_add halfHeight (vp_y vp);
     x \<leftarrow> f32_value cx;
     y \<leftarrow> f32_value cy;
     Some [ClipWindow width height bottom left, ClipperXYScaling sx sy, ViewPortOffset x y] }"

definition configuration_cmd :: "'b pipeline \<Rightarrow> cl_cmd" where
  "configuration_cmd pip = ConfigurationBits 1 (pl_depthTestEnable pip)
     (of_bool (pl_depthWriteEnable pip \<noteq> 0 \<and> pl_depthTestEnable pip \<noteq> 0))
     (if pl_depthTestEnable pip \<noteq> 0 then getCompareOp (pl_depthCompareOp pip) else 7)
     0 0 0 0 (of_bool (pl_rasterizationSamples pip > 1)) (pl_depthBiasEnable pip) (of_bool (pl_frontFace pip = 1))
     (of_bool (pl_cullMode pip AND 2 = 0)) (of_bool (pl_cullMode pip AND 1 = 0))"

definition state_cmds :: "'b pipeline \<Rightarrow> commandBuffer \<Rightarrow> cl_cmd list option" where
  "state_cmds pip b = do {
     vp \<leftarrow> draw_viewport pip b;
     window \<leftarrow> viewport_cmds vp;
     scale \<leftarrow> f32_sub (vp_maxDepth vp) (vp_minDepth vp);
     Some ([LineWidth (pl_lineWidth pip)] @ window @ [configuration_cmd pip,
       DepthOffset (fst (draw_depth_bias pip b)) (snd (draw_depth_bias pip b)),
       ClipperZScaleOffset (vp_minDepth vp) scale, PointSize F32_ONE, FlatShadeFlags 0,
       ShaderState 0 0 (of_nat (length (pl_vertexAttributeDescriptions pip)) AND 7)]) }"

subsection \<open>A stream of commands in a recording\<close>

definition cmd_stream :: "cl_cmd list \<Rightarrow> u8 list" where
  "cmd_stream cs = concat (map packet cs)"

text \<open>The commands \<open>cs\<close> have been written to the binning list, which had room for \<open>n\<close> bytes.\<close>

definition streamed :: "commandPool \<Rightarrow> cl_state \<Rightarrow> nat \<Rightarrow> cl_cmd list \<Rightarrow> mem \<Rightarrow> ControlList \<Rightarrow> bool" where
  "streamed P \<sigma> n cs m bin \<longleftrightarrow> cl_room \<sigma> n \<and> (\<exists>k\<le>n. length (cmd_stream cs) \<le> k \<and>
     cl_after k \<sigma> (cmd_stream cs) ((m, cp_cpa P), bin))"

lemma streamed_start: "cl_room ((m, cp_cpa P), bin) n \<Longrightarrow> streamed P ((m, cp_cpa P), bin) n [] m bin"
  by (auto simp: streamed_def cmd_stream_def intro!: exI [of _ 0] cl_after_refl)

lemma streamed_step:
  assumes P: "cw_cps w (cb_cp b) = Some P" and s: "streamed P \<sigma> n cs m bin"
    and f: "\<And>\<tau>. f \<tau> = cl_exec c \<tau>" and ok: "cmd_ok c"
    and fits: "length (cmd_stream cs) + length (packet c) + slack c \<le> n" "len = of_nat (length (packet c))"
  obtains m' bin' where "fit_emit p len f (recorded w p b m bin han) = Some (recorded w p b m' bin' han)"
    "streamed P \<sigma> n (cs @ [c]) m' bin'"
proof -
  let ?\<tau> = "((m, cp_cpa P), bin)" and ?k = "length (packet c) + slack c"
  obtain k where k: "k \<le> n" "length (cmd_stream cs) \<le> k" "cl_after k \<sigma> (cmd_stream cs) ?\<tau>" and room: "cl_room \<sigma> n"
    using s unfolding streamed_def by blast
  have r: "cl_room ?\<tau> ?k" by (rule cl_after_room [OF k(3)]) (use cl_room_mono [OF room] fits in simp)
  obtain \<tau>' where t: "cl_exec c ?\<tau> = Some \<tau>'" "cl_after ?k ?\<tau> (packet c) \<tau>'"
    using cmd_appends [OF ok] r unfolding appends_def by blast
  obtain m' bin' where \<tau>': "\<tau>' = ((m', cp_cpa P), bin')"
    using t(2) by (cases \<tau>') (auto simp: cl_after_def)
  have "on_binCl p (\<lambda>\<sigma>. clFit \<sigma> len) (recorded w p b m bin han) = Some (recorded w p b m bin han)"
    by (rule recorded_bin [OF P]) (rule room_fit [OF cl_room_mono [OF r] fits(2)], simp)
  moreover have "on_binCl p f (recorded w p b m bin han) = Some (recorded w p b m' bin' han)"
    by (rule recorded_bin [OF P]) (use t(1) \<tau>' f in simp)
  ultimately have "fit_emit p len f (recorded w p b m bin han) = Some (recorded w p b m' bin' han)"
    by (simp add: fit_emit_def)
  moreover have "cl_after (max k (length (cmd_stream cs) + ?k)) \<sigma> (cmd_stream cs @ packet c) \<tau>'"
    by (rule cl_after_trans [OF k(3) t(2) k(2)]) (use cl_room_mono [OF room] k fits in auto)
  then have "streamed P \<sigma> n (cs @ [c]) m' bin'"
    unfolding streamed_def using room k fits \<tau>'
    by (auto simp: cmd_stream_def intro!: exI [of _ "max k (length (concat (map packet cs)) + ?k)"])
  ultimately show ?thesis using that by blast
qed

lemma recorded_dirty:
  "clear_dirty p f (recorded w p b m bin han) = Some (recorded w p (b\<lparr>cb_dirty := f (cb_dirty b)\<rparr>) m bin han)"
  by (cases b) (simp add: clear_dirty_def on_cmdbuf_def recorded_def)

lemma dynamic_lists: "cb_dynamic (b\<lparr>cb_binCl := bin, cb_handlesCl := han\<rparr>) = cb_dynamic b"
  by (cases b) simp

lemma draw_lists [simp]:
  "draw_viewport pip (b\<lparr>cb_binCl := bin, cb_handlesCl := han\<rparr>) = draw_viewport pip b"
  "draw_depth_bias pip (b\<lparr>cb_binCl := bin, cb_handlesCl := han\<rparr>) = draw_depth_bias pip b"
  by (simp_all only: draw_viewport_def draw_depth_bias_def dynamic_lists)

lemma streamed_content:
  assumes "streamed P \<sigma> n cs m bin"
  shows "cl_content ((m, cp_cpa P), bin) = map_option (\<lambda>xs. xs @ cmd_stream cs) (cl_content \<sigma>)"
  using assms cl_after_content unfolding streamed_def by (meson cl_room_mono)

subsection \<open>The state packets\<close>

lemma draw_state_recorded:
  assumes P: "cw_cps w (cb_cp b) = Some P" and room: "cl_room ((m, cp_cpa P), bin) 61"
    and cmds: "state_cmds pip b = Some cs" "list_all cmd_ok cs"
  obtains m' bin' where "draw_state pip p (recorded w p b m bin han) = Some (recorded w p
      (b\<lparr>cb_dirty := (cb_dirty b)\<lparr>lineWidthDirty := 0, viewportDirty := 0, vertexBufferDirty := 0, depthBoundsDirty := 0\<rparr>\<rparr>) m' bin' han)"
    "streamed P ((m, cp_cpa P), bin) 61 cs m' bin'"
proof -
  let ?\<sigma> = "((m, cp_cpa P), bin)"
  obtain vp where vp: "draw_viewport pip b = Some vp" using cmds(1) by (auto simp: state_cmds_def bind_Some_iff)
  obtain width height bottom left hw sx h1 hh1 sy hh cx cy x y sc where
    v: "f32_to_u32 (vp_width vp) = Some width" "f32_to_u32 (vp_height vp) = Some height" "f32_to_u32 (vp_y vp) = Some bottom"
      "f32_to_u32 (vp_x vp) = Some left" "f32_mul (vp_width vp) F32_HALF = Some hw" "f32_mul hw F32_SIXTEEN = Some sx"
      "f32_mul F32_ONE (vp_height vp) = Some h1" "f32_mul h1 F32_HALF = Some hh1" "f32_mul hh1 F32_SIXTEEN = Some sy"
      "f32_mul (vp_height vp) F32_HALF = Some hh" "f32_add hw (vp_x vp) = Some cx" "f32_add hh (vp_y vp) = Some cy"
      "f32_value cx = Some x" "f32_value cy = Some y" "f32_sub (vp_maxDepth vp) (vp_minDepth vp) = Some sc"
    and cs: "cs = [LineWidth (pl_lineWidth pip), ClipWindow width height bottom left, ClipperXYScaling sx sy, ViewPortOffset x y,
      configuration_cmd pip, DepthOffset (fst (draw_depth_bias pip b)) (snd (draw_depth_bias pip b)),
      ClipperZScaleOffset (vp_minDepth vp) sc, PointSize F32_ONE, FlatShadeFlags 0,
      ShaderState 0 0 (of_nat (length (pl_vertexAttributeDescriptions pip)) AND 7)]"
    using cmds(1) vp by (auto simp: state_cmds_def viewport_cmds_def bind_Some_iff)
  have ok: "cmd_ok (ViewPortOffset x y)" using cmds(2) cs by simp
  let ?d1 = "b\<lparr>cb_dirty := (cb_dirty b)\<lparr>lineWidthDirty := 0\<rparr>\<rparr>" and ?d2 = "b\<lparr>cb_dirty := (cb_dirty b)\<lparr>lineWidthDirty := 0, viewportDirty := 0\<rparr>\<rparr>"
  let ?d3 = "b\<lparr>cb_dirty := (cb_dirty b)\<lparr>lineWidthDirty := 0, viewportDirty := 0, vertexBufferDirty := 0, depthBoundsDirty := 0\<rparr>\<rparr>"
  have P1: "cw_cps w (cb_cp ?d1) = Some P" and P2: "cw_cps w (cb_cp ?d2) = Some P" and P3: "cw_cps w (cb_cp ?d3) = Some P"
    using P by simp_all
  note step = streamed_step [where p = p and han = han]
  obtain m1 b1 where s1: "fit_emit p 5 (clInsertLineWidth (pl_lineWidth pip)) (recorded w p b m bin han) = Some (recorded w p b m1 b1 han)"
    "streamed P ?\<sigma> 61 (take 1 cs) m1 b1"
    by (rule step [OF P streamed_start [OF room], where c = "cs ! 0"]) (auto simp: cs cmd_stream_def)
  obtain m2 b2 where s2: "fit_emit p 9 (clip_window vp) (recorded w p ?d1 m1 b1 han) = Some (recorded w p ?d1 m2 b2 han)"
    "streamed P ?\<sigma> 61 (take 2 cs) m2 b2"
    by (rule step [OF P1 s1(2), where f = "clip_window vp" and c = "cs ! 1"]) (auto simp: cs cmd_stream_def clip_window_def v)
  obtain m3 b3 where s3: "fit_emit p 9 (clipper_scaling vp) (recorded w p ?d1 m2 b2 han) = Some (recorded w p ?d1 m3 b3 han)"
    "streamed P ?\<sigma> 61 (take 3 cs) m3 b3"
    by (rule step [OF P1 s2(2), where f = "clipper_scaling vp" and c = "cs ! 2"]) (auto simp: cs cmd_stream_def clipper_scaling_def v)
  obtain m4 b4 where s4: "fit_emit p 5 (viewport_offset vp) (recorded w p ?d1 m3 b3 han) = Some (recorded w p ?d1 m4 b4 han)"
    "streamed P ?\<sigma> 61 (take 4 cs) m4 b4"
    by (rule step [OF P1 s3(2), where f = "viewport_offset vp" and c = "cs ! 3"]) (use ok in \<open>auto simp: cs cmd_stream_def viewport_offset_def v\<close>)
  obtain m5 b5 where s5: "fit_emit p 4 (draw_configuration pip) (recorded w p ?d2 m4 b4 han) = Some (recorded w p ?d2 m5 b5 han)"
    "streamed P ?\<sigma> 61 (take 5 cs) m5 b5"
    by (rule step [OF P2 s4(2), where f = "draw_configuration pip" and c = "cs ! 4"]) (auto simp: cs cmd_stream_def draw_configuration_def configuration_cmd_def)
  have conf: "length (packet (configuration_cmd pip)) = 4" by (simp add: configuration_cmd_def)
  obtain m6 b6 where s6: "fit_emit p 5 (clInsertDepthOffset (fst (draw_depth_bias pip b)) (snd (draw_depth_bias pip b))) (recorded w p ?d2 m5 b5 han) = Some (recorded w p ?d2 m6 b6 han)"
    "streamed P ?\<sigma> 61 (take 6 cs) m6 b6"
    by (rule step [OF P2 s5(2), where c = "cs ! 5"]) (auto simp: cs cmd_stream_def conf)
  obtain m7 b7 where s7: "fit_emit p 9 (clipper_z vp) (recorded w p ?d2 m6 b6 han) = Some (recorded w p ?d2 m7 b7 han)"
    "streamed P ?\<sigma> 61 (take 7 cs) m7 b7"
    by (rule step [OF P2 s6(2), where f = "clipper_z vp" and c = "cs ! 6"]) (auto simp: cs cmd_stream_def conf clipper_z_def v)
  obtain m8 b8 where s8: "fit_emit p 5 (clInsertPointSize F32_ONE) (recorded w p ?d3 m7 b7 han) = Some (recorded w p ?d3 m8 b8 han)"
    "streamed P ?\<sigma> 61 (take 8 cs) m8 b8"
    by (rule step [OF P3 s7(2), where c = "cs ! 7"]) (auto simp: cs cmd_stream_def conf)
  obtain m9 b9 where s9: "fit_emit p 5 (clInsertFlatShadeFlags 0) (recorded w p ?d3 m8 b8 han) = Some (recorded w p ?d3 m9 b9 han)"
    "streamed P ?\<sigma> 61 (take 9 cs) m9 b9"
    by (rule step [OF P3 s8(2), where c = "cs ! 8"]) (auto simp: cs cmd_stream_def conf)
  obtain m10 b10 where s10: "fit_emit p 5 (clInsertShaderState 0 0 (of_nat (length (pl_vertexAttributeDescriptions pip)) AND 7)) (recorded w p ?d3 m9 b9 han) = Some (recorded w p ?d3 m10 b10 han)"
    "streamed P ?\<sigma> 61 cs m10 b10"
    by (rule step [OF P3 s9(2), where c = "cs ! 9"]) (auto simp: cs cmd_stream_def conf)
  have "draw_state pip p (recorded w p b m bin han) = Some (recorded w p ?d3 m10 b10 han)"
    by (simp add: draw_state_def vp s1(1) recorded_dirty s2(1) s3(1) s4(1) s5(1) s6(1) s7(1) s8(1) s9(1) s10(1))
  then show ?thesis using that s10(2) by blast
qed

text \<open>C29: the state packets of a draw: on a binning list with room for 61 bytes the function returns
  and appends exactly the commands the bound pipeline and the dynamic state stand for, ten packets in
  this order with the floats of the viewport computed; it leaves the other lists and command buffers
  alone and clears four dirty flags, that of the vertex buffers among them and not that of the depth
  bias.\<close>

theorem draw_state_stream:
  assumes "cw_cbs w p = Some b" "cw_cps w (cb_cp b) = Some P" "cl_room ((cw_mem w, cp_cpa P), cb_binCl b) 61"
    and "state_cmds pip b = Some cs" "list_all cmd_ok cs"
  shows "\<exists>w' bin'. draw_state pip p w = Some w' \<and> cw_cps w' = cw_cps w \<and>
    cw_cbs w' = (cw_cbs w)(p \<mapsto> b\<lparr>cb_binCl := bin', cb_dirty := (cb_dirty b)\<lparr>lineWidthDirty := 0, viewportDirty := 0,
      vertexBufferDirty := 0, depthBoundsDirty := 0\<rparr>\<rparr>) \<and>
    cl_content ((cw_mem w', cp_cpa P), bin') =
      map_option (\<lambda>xs. xs @ concat (map packet cs)) (cl_content ((cw_mem w, cp_cpa P), cb_binCl b)) \<and>
    length (concat (map packet cs)) = 61"
proof -
  have w: "w = recorded w p b (cw_mem w) (cb_binCl b) (cb_handlesCl b)"
    using assms(1) by (cases w) (simp add: recorded_def fun_upd_idem)
  obtain m' bin' where r: "draw_state pip p w = Some (recorded w p (b\<lparr>cb_dirty := (cb_dirty b)\<lparr>lineWidthDirty := 0,
      viewportDirty := 0, vertexBufferDirty := 0, depthBoundsDirty := 0\<rparr>\<rparr>) m' bin' (cb_handlesCl b))"
    "streamed P ((cw_mem w, cp_cpa P), cb_binCl b) 61 cs m' bin'"
    using draw_state_recorded [OF assms(2-5), of p "cb_handlesCl b"] w by metis
  have "length (concat (map packet cs)) = 61"
    using assms(4) by (auto simp: state_cmds_def viewport_cmds_def configuration_cmd_def bind_Some_iff)
  then show ?thesis using r streamed_content [OF r(2)]
    by (intro exI [of _ "recorded w p (b\<lparr>cb_dirty := (cb_dirty b)\<lparr>lineWidthDirty := 0,
      viewportDirty := 0, vertexBufferDirty := 0, depthBoundsDirty := 0\<rparr>\<rparr>) m' bin' (cb_handlesCl b)"] exI [of _ bin'])
      (cases b, simp add: cmd_stream_def)
qed

subsection \<open>An example\<close>

definition ex_stencil :: VkStencilOpState where
  "ex_stencil = \<lparr>failOp = VK_STENCIL_OP_KEEP, passOp = VK_STENCIL_OP_KEEP, depthFailOp = VK_STENCIL_OP_KEEP, compareOp = VK_COMPARE_OP_ALWAYS,
       compareMask = 255, writeMask = 255, reference = 0\<rparr>"

abbreviation ex_pipeline_with :: "'b list \<Rightarrow> 'b pipeline" where
  "ex_pipeline_with attachments \<equiv> \<lparr>pl_modules = [], pl_names = [], pl_vertexBindingDescriptions = [], pl_vertexAttributeDescriptions = [],
     pl_topology = VK_PRIMITIVE_TOPOLOGY_TRIANGLE_LIST, pl_primitiveRestartEnable = 0,
     pl_viewports = [\<lparr>vp_x = 0, vp_y = 0, vp_width = 0x44200000, vp_height = 0x43f00000, vp_minDepth = 0, vp_maxDepth = F32_ONE\<rparr>],
     pl_scissors = [], pl_depthClampEnable = 0, pl_rasterizerDiscardEnable = 0, pl_polygonMode = 0, pl_cullMode = 2,
     pl_frontFace = 1, pl_depthBiasEnable = 0, pl_depthBiasConstantFactor = 0, pl_depthBiasClamp = 0,
     pl_depthBiasSlopeFactor = 0, pl_lineWidth = F32_ONE, pl_rasterizationSamples = 1, pl_sampleShadingEnable = 0,
     pl_minSampleShading = 0, pl_sampleMask = 0, pl_alphaToCoverageEnable = 0, pl_alphaToOneEnable = 0,
     pl_depthTestEnable = 1, pl_depthWriteEnable = 1, pl_depthCompareOp = VK_COMPARE_OP_LESS, pl_depthBoundsTestEnable = 0,
     pl_stencilTestEnable = 0, pl_front = ex_stencil, pl_back = ex_stencil, pl_minDepthBounds = 0, pl_maxDepthBounds = 0,
     pl_logicOpEnable = 0, pl_logicOp = 0, pl_attachmentBlendStates = attachments, pl_blendConstants = replicate 4 0,
     pl_dynamicStates = [], pl_layout = 0, pl_renderPass = 0, pl_subpass = 0\<rparr>"

definition ex_pipeline :: "unit pipeline" where "ex_pipeline = ex_pipeline_with []"

definition ex_recording :: cmd_world where
  "ex_recording = (let ((m, pa), cl) = ex_list in \<lparr>cw_mem = m,
     cw_cps = [64 \<mapsto> \<lparr>cp_pa = \<lparr>pa_buf = 0, pa_nextFreeBlock = 0, pa_blockSize = 0, pa_size = 0\<rparr>, cp_cpa = pa, cp_queueFamilyIndex = 0, cp_resetAble = 1\<rparr>],
     cw_cbs = [4096 \<mapsto> ex_cmdbuf\<lparr>cb_cp := 64, cb_binCl := cl\<rparr>]\<rparr>)"

lemma f32_literals:
  "f32_value 0 = Some 0" "f32_value F32_ONE = Some 1" "f32_value F32_HALF = Some (1 / 2)" "f32_value F32_SIXTEEN = Some 16"
  "f32_value 0x44200000 = Some 640" "f32_value 0x43f00000 = Some 480" "f32_value 0x43a00000 = Some 320"
  "f32_value 0x43700000 = Some 240" "f32_value 0x45a00000 = Some 5120" "f32_value 0x45700000 = Some 3840"
  by (simp_all add: f32_value_def f32_negative_def Let_def)


lemma ex_viewport_cmds:
  "viewport_cmds (hd (pl_viewports ex_pipeline)) = Some [ClipWindow 640 480 0 0, ClipperXYScaling 0x45a00000 0x45700000, ViewPortOffset 320 240]"
proof -
  have mul: "f32_mul 0x44200000 F32_HALF = Some 0x43a00000" "f32_mul 0x43a00000 F32_SIXTEEN = Some 0x45a00000"
    "f32_mul F32_ONE 0x43f00000 = Some 0x43f00000" "f32_mul 0x43f00000 F32_HALF = Some 0x43700000"
    "f32_mul 0x43700000 F32_SIXTEEN = Some 0x45700000"
    using f32_mul_exact [OF f32_literals(5) f32_literals(3), of "0x43a00000"] f32_mul_exact [OF f32_literals(7) f32_literals(4), of "0x45a00000"]
      f32_mul_exact [OF f32_literals(2) f32_literals(6), of "0x43f00000"] f32_mul_exact [OF f32_literals(6) f32_literals(3), of "0x43700000"]
      f32_mul_exact [OF f32_literals(8) f32_literals(4), of "0x45700000"]
    by (simp_all add: f32_literals f32_negative_def)
  have add: "f32_add 0x43a00000 0 = Some 0x43a00000" "f32_add 0x43700000 0 = Some 0x43700000"
    using f32_add_exact [OF f32_literals(7) f32_literals(1)] f32_add_exact [OF f32_literals(8) f32_literals(1)]
    by (simp_all add: f32_literals)
  show ?thesis by (simp add: viewport_cmds_def ex_pipeline_def f32_to_u32_def f32_literals mul add)
qed

lemma ex_state_cmds:
  "state_cmds ex_pipeline (ex_cmdbuf\<lparr>cb_cp := 64, cb_binCl := cl\<rparr>) = Some [LineWidth F32_ONE, ClipWindow 640 480 0 0,
     ClipperXYScaling 0x45a00000 0x45700000, ViewPortOffset 320 240, ConfigurationBits 1 1 1 1 0 0 0 0 0 0 1 0 1,
     DepthOffset 0 0, ClipperZScaleOffset 0 F32_ONE, PointSize F32_ONE, FlatShadeFlags 0, ShaderState 0 0 0]"
proof -
  have "f32_sub F32_ONE 0 = Some F32_ONE"
    unfolding f32_sub_def using f32_add_exact [OF f32_literals(2), of "0x80000000" 0 F32_ONE]
    by (simp add: f32_literals) (simp add: f32_value_def)
  moreover have "hd (pl_viewports ex_pipeline) = \<lparr>vp_x = 0, vp_y = 0, vp_width = 0x44200000, vp_height = 0x43f00000, vp_minDepth = 0, vp_maxDepth = F32_ONE\<rparr>"
    by (simp add: ex_pipeline_def)
  moreover have "draw_viewport ex_pipeline (ex_cmdbuf\<lparr>cb_cp := 64, cb_binCl := cl\<rparr>) = Some (hd (pl_viewports ex_pipeline))"
    by (simp add: draw_viewport_def ex_pipeline_def elem_at_def)
  ultimately show ?thesis using ex_viewport_cmds
    by (simp add: state_cmds_def draw_depth_bias_def configuration_cmd_def) (simp add: ex_pipeline_def getCompareOp_def)
qed

lemma draw_state_stream_witness:
  "\<exists>w' bin'. draw_state ex_pipeline 4096 ex_recording = Some w' \<and>
     cw_cbs w' 4096 = Some (ex_cmdbuf\<lparr>cb_cp := 64, cb_binCl := bin', cb_dirty := all_dirty\<lparr>lineWidthDirty := 0, viewportDirty := 0,
       vertexBufferDirty := 0, depthBoundsDirty := 0\<rparr>\<rparr>) \<and>
     map_option length (cl_content ((cw_mem w', snd (fst ex_list)), bin')) = Some 61"
proof -
  obtain m pa cl where l: "ex_list = ((m, pa), cl)" by (metis surj_pair)
  let ?b = "ex_cmdbuf\<lparr>cb_cp := 64, cb_binCl := cl\<rparr>"
  let ?P = "\<lparr>cp_pa = \<lparr>pa_buf = 0, pa_nextFreeBlock = 0, pa_blockSize = 0, pa_size = 0\<rparr>, cp_cpa = pa, cp_queueFamilyIndex = 0, cp_resetAble = 1\<rparr>"
  have "\<exists>w' bin'. draw_state ex_pipeline 4096 ex_recording = Some w' \<and> cw_cps w' = cw_cps ex_recording \<and>
    cw_cbs w' = (cw_cbs ex_recording)(4096 \<mapsto> ?b\<lparr>cb_binCl := bin', cb_dirty := (cb_dirty ?b)\<lparr>lineWidthDirty := 0, viewportDirty := 0,
      vertexBufferDirty := 0, depthBoundsDirty := 0\<rparr>\<rparr>) \<and>
    cl_content ((cw_mem w', cp_cpa ?P), bin') = map_option (\<lambda>xs. xs @ concat (map packet (the (state_cmds ex_pipeline ?b))))
      (cl_content ((cw_mem ex_recording, cp_cpa ?P), cb_binCl ?b)) \<and>
    length (concat (map packet (the (state_cmds ex_pipeline ?b)))) = 61"
    by (rule draw_state_stream)
      (use ex_list_room [of 61] in \<open>simp_all add: l ex_recording_def ex_state_cmds get16bitSignedFixedNumber_def roundf_def\<close>)
  then obtain w' bin' where "draw_state ex_pipeline 4096 ex_recording = Some w'"
    "cw_cbs w' 4096 = Some (?b\<lparr>cb_binCl := bin', cb_dirty := (cb_dirty ?b)\<lparr>lineWidthDirty := 0, viewportDirty := 0,
      vertexBufferDirty := 0, depthBoundsDirty := 0\<rparr>\<rparr>)"
    "cl_content ((cw_mem w', pa), bin') = map_option (\<lambda>xs. xs @ concat (map packet (the (state_cmds ex_pipeline ?b)))) (cl_content ((m, pa), cl))"
    "length (concat (map packet (the (state_cmds ex_pipeline ?b)))) = 61"
    by (auto simp: ex_recording_def l)
  moreover have "cb_dirty ?b = all_dirty" by (simp add: ex_cmdbuf_def)
  ultimately show ?thesis using ex_list_content
    by (intro exI [of _ w'] exI [of _ bin']) (simp add: l)
qed

end
