(* ===== verification/Recording_State.thy ===== *)
theory Recording_State
  imports Recording Command_Pools
begin

text \<open>
  The commands of driver/stateChange.c and driver/pipeline.c that set the state of a command buffer,
  as one language: which of its sentences are defined, and what they do.  The arrays of the state have
  the sizes of the C structure; the effect of a command is given by ranges of them.
\<close>

unbundle bit_operations_syntax

subsection \<open>The commands\<close>

datatype state_cmd =
    SetViewport "VkViewport list"
  | SetScissor "VkRect2D list"
  | BindVertexBuffers u32 "(addr \<times> u64) list"
  | BindIndexBuffer addr u64
  | SetLineWidth u32
  | SetDepthBias u32 u32 u32
  | SetBlendConstants "u32 list"
  | SetDepthBounds u32 u32
  | SetStencilCompareMask u32 u32
  | SetStencilWriteMask u32 u32
  | SetStencilReference u32 u32
  | BindPipeline VkPipelineBindPoint addr
  | PushConstants u32 u32 u32 "u8 list"

fun record_cmd :: "addr \<Rightarrow> state_cmd \<Rightarrow> cmd_world \<Rightarrow> cmd_world option" where
  "record_cmd p (SetViewport vs) = vkCmdSetViewport p vs"
| "record_cmd p (SetScissor rs) = vkCmdSetScissor p rs"
| "record_cmd p (BindVertexBuffers firstBinding bs) = vkCmdBindVertexBuffers p firstBinding bs"
| "record_cmd p (BindIndexBuffer buf offset) = vkCmdBindIndexBuffer p buf offset"
| "record_cmd p (SetLineWidth lineWidth) = vkCmdSetLineWidth p lineWidth"
| "record_cmd p (SetDepthBias constantFactor clamp slopeFactor) = vkCmdSetDepthBias p constantFactor clamp slopeFactor"
| "record_cmd p (SetBlendConstants cs) = vkCmdSetBlendConstants p cs"
| "record_cmd p (SetDepthBounds lo hi) = vkCmdSetDepthBounds p lo hi"
| "record_cmd p (SetStencilCompareMask faceMask v) = vkCmdSetStencilCompareMask p faceMask v"
| "record_cmd p (SetStencilWriteMask faceMask v) = vkCmdSetStencilWriteMask p faceMask v"
| "record_cmd p (SetStencilReference faceMask v) = vkCmdSetStencilReference p faceMask v"
| "record_cmd p (BindPipeline bindPoint pip) = vkCmdBindPipeline p bindPoint pip"
| "record_cmd p (PushConstants stageFlags offset sz vals) = vkCmdPushConstants p stageFlags offset sz vals"

fun record_cmds :: "addr \<Rightarrow> state_cmd list \<Rightarrow> cmd_world \<Rightarrow> cmd_world option" where
  "record_cmds p [] w = Some w"
| "record_cmds p (c # cs) w = do { w \<leftarrow> record_cmd p c w; record_cmds p cs w }"

subsection \<open>Well-formed commands and states\<close>

fun cmd_typed :: "state_cmd \<Rightarrow> bool" where
  "cmd_typed (SetViewport vs) \<longleftrightarrow> vs \<noteq> []"
| "cmd_typed (SetScissor rs) \<longleftrightarrow> rs \<noteq> []"
| "cmd_typed (BindVertexBuffers firstBinding bs) \<longleftrightarrow> bs = [] \<or> unat firstBinding + length bs \<le> 8"
| "cmd_typed (SetBlendConstants cs) \<longleftrightarrow> 4 \<le> length cs"
| "cmd_typed (PushConstants stageFlags offset sz vals) \<longleftrightarrow> (stageFlags AND 1 = 0 \<and> stageFlags AND 16 = 0) \<or>
     unat sz \<le> length vals \<and> unat offset + unat sz \<le> 256"
| "cmd_typed c \<longleftrightarrow> True"

definition cb_typed :: "commandBuffer \<Rightarrow> bool" where
  "cb_typed b \<longleftrightarrow> length (cb_pushConstantBufferVertex b) = 256 \<and> length (cb_pushConstantBufferPixel b) = 256 \<and>
     length (ds_vertexBuffers (cb_dynamic b)) = 8 \<and> length (ds_vertexBufferOffsets (cb_dynamic b)) = 8 \<and>
     length (ds_blendConstants (cb_dynamic b)) = 4 \<and> length (ds_stencilCompareMask (cb_dynamic b)) = 2 \<and>
     length (ds_stencilWriteMask (cb_dynamic b)) = 2 \<and> length (ds_stencilReference (cb_dynamic b)) = 2"

text \<open>Elements of an array, from an index on, replaced.\<close>

definition overlay :: "nat \<Rightarrow> 'a list \<Rightarrow> 'a list \<Rightarrow> 'a list" where
  "overlay i ys xs = take i xs @ ys @ drop (i + length ys) xs"

definition overlay_stage :: "bool \<Rightarrow> nat \<Rightarrow> 'a list \<Rightarrow> 'a list \<Rightarrow> 'a list" where
  "overlay_stage c i ys xs = (if c then overlay i ys xs else xs)"

text \<open>What a command does to the command buffer.\<close>

fun cmd_effect :: "state_cmd \<Rightarrow> dynamicState \<Rightarrow> dynamicState" where
  "cmd_effect (SetViewport vs) s = s\<lparr>ds_viewport := hd vs\<rparr>"
| "cmd_effect (SetScissor rs) s = s\<lparr>ds_scissor := hd rs\<rparr>"
| "cmd_effect (BindVertexBuffers firstBinding bs) s = (if bs = [] then s else
     s\<lparr>ds_vertexBuffers := overlay (unat firstBinding) (map fst bs) (ds_vertexBuffers s),
       ds_vertexBufferOffsets := overlay (unat firstBinding) (map (\<lambda>(q, offset). ucast offset) bs) (ds_vertexBufferOffsets s)\<rparr>)"
| "cmd_effect (SetLineWidth lineWidth) s = s\<lparr>ds_lineWidth := lineWidth\<rparr>"
| "cmd_effect (SetDepthBias constantFactor clamp slopeFactor) s = s\<lparr>ds_depthBiasConstantFactor := constantFactor,
     ds_depthBiasClamp := clamp, ds_depthBiasSlopeFactor := slopeFactor\<rparr>"
| "cmd_effect (SetBlendConstants cs) s = s\<lparr>ds_blendConstants := take 4 cs\<rparr>"
| "cmd_effect (SetDepthBounds lo hi) s = s\<lparr>ds_minDepthBounds := lo, ds_maxDepthBounds := hi\<rparr>"
| "cmd_effect (SetStencilCompareMask faceMask v) s = ds_stencilCompareMask_update (set_faces faceMask v) s"
| "cmd_effect (SetStencilWriteMask faceMask v) s = ds_stencilWriteMask_update (set_faces faceMask v) s"
| "cmd_effect (SetStencilReference faceMask v) s = ds_stencilReference_update (set_faces faceMask v) s"
| "cmd_effect c s = s"

fun cmd_dirties :: "state_cmd \<Rightarrow> dirtyFlags \<Rightarrow> dirtyFlags" where
  "cmd_dirties (SetViewport vs) d = d\<lparr>viewportDirty := 1\<rparr>"
| "cmd_dirties (SetScissor rs) d = d\<lparr>scissorDirty := 1\<rparr>"
| "cmd_dirties (BindVertexBuffers firstBinding bs) d = d\<lparr>vertexBufferDirty := 1\<rparr>"
| "cmd_dirties (BindIndexBuffer buf offset) d = d\<lparr>indexBufferDirty := 1\<rparr>"
| "cmd_dirties (SetLineWidth lineWidth) d = d\<lparr>lineWidthDirty := 1\<rparr>"
| "cmd_dirties (SetDepthBias constantFactor clamp slopeFactor) d = d\<lparr>depthBiasDirty := 1\<rparr>"
| "cmd_dirties (SetBlendConstants cs) d = d\<lparr>blendConstantsDirty := 1\<rparr>"
| "cmd_dirties (SetDepthBounds lo hi) d = d\<lparr>depthBoundsDirty := 1\<rparr>"
| "cmd_dirties (SetStencilCompareMask faceMask v) d = d\<lparr>stencilCompareMaskDirty := 1\<rparr>"
| "cmd_dirties (SetStencilWriteMask faceMask v) d = d\<lparr>stencilWriteMaskDirty := 1\<rparr>"
| "cmd_dirties (SetStencilReference faceMask v) d = d\<lparr>stencilReferenceDirty := 1\<rparr>"
| "cmd_dirties (BindPipeline bindPoint pip) d = d"
| "cmd_dirties (PushConstants stageFlags offset sz vals) d = d\<lparr>pushConstantDirty := 1\<rparr>"

fun cmd_binds :: "state_cmd \<Rightarrow> commandBuffer \<Rightarrow> commandBuffer" where
  "cmd_binds (BindIndexBuffer buf offset) b = b\<lparr>cb_indexBuffer := buf, cb_indexBufferOffset := ucast offset\<rparr>"
| "cmd_binds (BindPipeline VK_PIPELINE_BIND_POINT_GRAPHICS pip) b = b\<lparr>cb_graphicsPipeline := pip\<rparr>"
| "cmd_binds (BindPipeline VK_PIPELINE_BIND_POINT_COMPUTE pip) b = b\<lparr>cb_computePipeline := pip\<rparr>"
| "cmd_binds (PushConstants stageFlags offset sz vals) b = b\<lparr>
     cb_pushConstantBufferVertex := overlay_stage (stageFlags AND 1 \<noteq> 0) (unat offset) (take (unat sz) vals) (cb_pushConstantBufferVertex b),
     cb_pushConstantBufferPixel := overlay_stage (stageFlags AND 16 \<noteq> 0) (unat offset) (take (unat sz) vals) (cb_pushConstantBufferPixel b)\<rparr>"
| "cmd_binds c b = b"

definition apply_cmd :: "state_cmd \<Rightarrow> commandBuffer \<Rightarrow> commandBuffer" where
  "apply_cmd c b = (cmd_binds c b)\<lparr>cb_dynamic := cmd_effect c (cb_dynamic b), cb_dirty := cmd_dirties c (cb_dirty b)\<rparr>"

subsection \<open>Progress and preservation\<close>

lemma length_overlay: "i + length ys \<le> length xs \<Longrightarrow> length (overlay i ys xs) = length xs"
  by (simp add: overlay_def)

lemma length_overlay_stage: "\<not> c \<or> i + length ys \<le> length xs \<Longrightarrow> length (overlay_stage c i ys xs) = length xs"
  by (auto simp: overlay_stage_def length_overlay)

lemma length_set_faces [simp]: "length (set_faces faceMask v xs) = length xs"
  by (simp add: set_faces_def Let_def)

lemma overlay_Cons:
  assumes "i < length xs"
  shows "overlay (Suc i) ys (xs[i := y]) = overlay i (y # ys) xs"
  using assms by (simp add: overlay_def take_Suc_conv_app_nth)

lemma overlay_Nil [simp]: "overlay i [] xs = xs"
  by (simp add: overlay_def)

lemma bind_vertex_buffers_spec:
  assumes "length (ds_vertexBuffers s) = 8" "length (ds_vertexBufferOffsets s) = 8"
  shows "bind_vertex_buffers binding bs s = (if bs = [] \<or> unat binding + length bs \<le> 8
     then Some (cmd_effect (BindVertexBuffers binding bs) s) else None)"
  using assms
proof (induction bs arbitrary: binding s)
  case (Cons q bs)
  obtain buf offset where q: "q = (buf, offset)" by (cases q)
  show ?case
  proof (cases "unat binding < 8")
    case True
    then have u: "unat (binding + 1) = Suc (unat binding)" by (simp add: unat_word_ariths)
    show ?thesis using True Cons.prems Cons.IH [of "s\<lparr>ds_vertexBuffers := (ds_vertexBuffers s)[unat binding := buf],
      ds_vertexBufferOffsets := (ds_vertexBufferOffsets s)[unat binding := ucast offset]\<rparr>" "binding + 1"]
      by (auto simp: q put_at_def u overlay_Cons overlay_Cons [where ys = "[]", simplified, symmetric])
  qed (simp add: q put_at_def Cons.prems)
qed simp

lemma put_bytes_overlay:
  "put_bytes xs offset sz bs = (if unat sz \<le> length bs \<and> unat offset + unat sz \<le> length xs
     then Some (overlay (unat offset) (take (unat sz) bs) xs) else None)"
  by (simp add: put_bytes_def overlay_def min_absorb2)

lemma set_dynamic_at:
  assumes "cw_cbs w p = Some b"
  shows "set_dynamic p f d w =
    Some (w\<lparr>cw_cbs := (cw_cbs w)(p \<mapsto> b\<lparr>cb_dynamic := f (cb_dynamic b), cb_dirty := d (cb_dirty b)\<rparr>)\<rparr>)"
proof -
  have "cb_dynamic_update f (cb_dirty_update d b) = b\<lparr>cb_dynamic := f (cb_dynamic b), cb_dirty := d (cb_dirty b)\<rparr>"
    by (cases b) simp
  then show ?thesis by (simp only: set_dynamic_def on_cmdbuf_def assms comp_apply Option.bind.bind_lunit)
qed

lemma push_constants_at:
  assumes b: "cw_cbs w p = Some b" and t: "cb_typed b"
  shows "vkCmdPushConstants p stageFlags offset sz vals w = (if cmd_typed (PushConstants stageFlags offset sz vals)
    then Some (w\<lparr>cw_cbs := (cw_cbs w)(p \<mapsto> apply_cmd (PushConstants stageFlags offset sz vals) b)\<rparr>) else None)"
proof -
  have l: "length (cb_pushConstantBufferVertex b) = 256" "length (cb_pushConstantBufferPixel b) = 256"
    using t by (simp_all add: cb_typed_def)
  show ?thesis unfolding vkCmdPushConstants_def on_cmdbuf_def
    by (cases "stageFlags AND 1 = 0"; cases "stageFlags AND 16 = 0")
      (simp_all add: b l put_bytes_overlay overlay_stage_def apply_cmd_def)
qed

lemma record_cmd_spec:
  assumes b: "cw_cbs w p = Some b" and t: "cb_typed b"
  shows "record_cmd p c w = (if cmd_typed c then Some (w\<lparr>cw_cbs := (cw_cbs w)(p \<mapsto> apply_cmd c b)\<rparr>) else None)"
proof (cases c)
  case (BindVertexBuffers firstBinding bs)
  then show ?thesis using t bind_vertex_buffers_spec [of "cb_dynamic b" firstBinding bs]
    by (simp add: b cb_typed_def apply_cmd_def vkCmdBindVertexBuffers_def set_dynamic_at [OF b])
next
  case (BindIndexBuffer buf offset)
  then show ?thesis by (cases b) (simp add: b apply_cmd_def vkCmdBindIndexBuffer_def on_cmdbuf_def)
next
  case (BindPipeline bindPoint pip)
  then show ?thesis by (cases b; cases bindPoint) (simp_all add: b apply_cmd_def vkCmdBindPipeline_def on_cmdbuf_def)
next
  case (PushConstants stageFlags offset sz vals)
  then show ?thesis using push_constants_at [OF b t] by simp
qed (simp_all add: b apply_cmd_def set_dynamic_at [OF b] elem_at_def hd_conv_nth
    vkCmdSetViewport_def vkCmdSetScissor_def vkCmdSetLineWidth_def vkCmdSetDepthBias_def
    vkCmdSetBlendConstants_def vkCmdSetDepthBounds_def vkCmdSetStencilCompareMask_def vkCmdSetStencilWriteMask_def
    vkCmdSetStencilReference_def)

lemma apply_cmd_typed: "cb_typed b \<Longrightarrow> cmd_typed c \<Longrightarrow> cb_typed (apply_cmd c b)"
proof (cases c)
  case (BindPipeline bindPoint pip)
  then show ?thesis if "cb_typed b" using that by (cases bindPoint) (simp_all add: cb_typed_def apply_cmd_def)
next
  case (PushConstants stageFlags offset sz vals)
  then show ?thesis if "cb_typed b" "cmd_typed c" using that
    by (auto simp: cb_typed_def apply_cmd_def min_absorb2 length_overlay_stage)
qed (auto simp: cb_typed_def apply_cmd_def length_overlay min_absorb2)

text \<open>C31: type soundness of the recorded state: on a command buffer whose arrays have the sizes of
  their type, a sequence of state commands is defined exactly when each of its commands is well formed
  by itself, whatever was recorded in front; it then has the effect of the single commands one after
  the other on this command buffer only, and the arrays keep their sizes.\<close>

theorem record_cmds_sound:
  assumes "cw_cbs w p = Some b" "cb_typed b"
  shows "record_cmds p cs w = (if list_all cmd_typed cs then Some (w\<lparr>cw_cbs := (cw_cbs w)(p \<mapsto> fold apply_cmd cs b)\<rparr>) else None) \<and>
    (list_all cmd_typed cs \<longrightarrow> cb_typed (fold apply_cmd cs b))"
  using assms
proof (induction cs arbitrary: w b)
  case Nil
  then show ?case by (cases w) (simp add: fun_upd_idem)
next
  case (Cons c cs)
  show ?case
  proof (cases "cmd_typed c")
    case True
    then show ?thesis using Cons.prems apply_cmd_typed
      Cons.IH [of "w\<lparr>cw_cbs := (cw_cbs w)(p \<mapsto> apply_cmd c b)\<rparr>" "apply_cmd c b"] by (simp add: record_cmd_spec)
  qed (simp add: record_cmd_spec [OF Cons.prems])
qed

lemma record_cmds_sound_witness:
  "\<exists>w. record_cmds 64 [BindVertexBuffers 6 [(100, 16), (200, 32)], SetLineWidth 0x3f800000, PushConstants 17 252 4 [1, 2, 3, 4]]
      \<lparr>cw_mem = Map.empty, cw_cps = Map.empty, cw_cbs = [64 \<mapsto> ex_cmdbuf]\<rparr> = Some w \<and>
     map_option (\<lambda>b. (ds_vertexBuffers (cb_dynamic b), ds_vertexBufferOffsets (cb_dynamic b), drop 250 (cb_pushConstantBufferPixel b)))
       (cw_cbs w 64) = Some ([0, 0, 0, 0, 0, 0, 100, 200], [0, 0, 0, 0, 0, 0, 16, 32], [0, 0, 1, 2, 3, 4])"
proof -
  let ?cs = "[BindVertexBuffers 6 [(100, 16), (200, 32)], SetLineWidth 0x3f800000, PushConstants 17 252 4 [1, 2, 3, 4]]"
  let ?w = "\<lparr>cw_mem = Map.empty, cw_cps = Map.empty, cw_cbs = [64 \<mapsto> ex_cmdbuf]\<rparr>"
  have "cb_typed ex_cmdbuf" by (simp add: cb_typed_def ex_cmdbuf_def ex_dynamic_def)
  moreover have "cw_cbs ?w 64 = Some ex_cmdbuf" by simp
  ultimately have r: "record_cmds 64 ?cs ?w = Some (?w\<lparr>cw_cbs := (cw_cbs ?w)(64 \<mapsto> fold apply_cmd ?cs ex_cmdbuf)\<rparr>)"
    using record_cmds_sound [of ?w 64 ex_cmdbuf ?cs] by simp
  have n: "replicate 6 x = [x, x, x, x, x, x]" "replicate 2 x = [x, x]" for x :: "'a::zero" by (simp_all add: eval_nat_numeral)
  show ?thesis
    by (intro exI [of _ "?w\<lparr>cw_cbs := (cw_cbs ?w)(64 \<mapsto> fold apply_cmd ?cs ex_cmdbuf)\<rparr>"] conjI r)
      (simp add: apply_cmd_def ex_cmdbuf_def ex_dynamic_def overlay_def overlay_stage_def n)
qed

end
