(* ===== verification/Binding_Path.thy ===== *)
theory Binding_Path
  imports Draw Command_Pools
begin

text \<open>
  Descriptors on their way from the update of a set, through the map of the pipeline layout where the
  set is bound, to the draw that reads them; and the buckets of the layout, which are too few bytes.
  The two maps are the lookup tables of \<open>Memory_Map\<close> in one memory.
\<close>

subsection \<open>Two tables in one memory\<close>

lemma words_at_cong: "words_at m a ws \<Longrightarrow> (\<And>x. x \<in> extent a (4 * length ws) \<Longrightarrow> m' x = m x) \<Longrightarrow> words_at m' a ws"
proof (induction ws arbitrary: a)
  case (Cons v ws)
  have ext: "extent a (4 + 4 * length ws) = extent a 4 \<union> extent (a + 4) (4 * length ws)"
    using extent_add [of a 4 "4 * length ws"] by simp
  then have "m' x = m x" if "x \<in> extent a 4 \<or> x \<in> extent (a + 4) (4 * length ws)" for x
    using Cons.prems(2) [of x] that by auto
  then show ?case using Cons.IH [of "a + 4"] Cons.prems(1) by (auto simp: load32_def extent_4)
qed simp

lemma table_at_cong:
  "table_at m r h \<Longrightarrow> (\<And>x. x \<in> extent (mp_elements r) (8 * unat (mp_maxData r)) \<Longrightarrow> m' x = m x) \<Longrightarrow> table_at m' r h"
  by (auto simp: table_at_def intro: words_at_cong)

definition table_area :: "map_ref \<Rightarrow> addr set" where
  "table_area r = extent (mp_elements r) (8 * unat (mp_maxData r))"

lemma mem_map_cong:
  assumes "mem_map_inv r n m" "\<And>x. x \<in> table_area r \<Longrightarrow> m' x = m x"
  shows "mem_map_inv r n m'" "mem_map_view r m' = mem_map_view r m"
proof -
  obtain h where h: "table_at m r h" "map_inv n h" using assms(1) by (auto simp: mem_map_inv_def)
  have "table_at m' r h" by (rule table_at_cong [OF h(1)]) (use assms(2) in \<open>simp add: table_area_def\<close>)
  then show "mem_map_inv r n m'" "mem_map_view r m' = mem_map_view r m"
    using h by (auto simp: mem_map_inv_def mem_map_view)
qed

text \<open>A store into one table leaves the other bytes alone.\<close>

lemma mem_set_frame:
  assumes "mem_map_inv r n m" "mem_setMapElement m r key d = Some m'" "x \<notin> table_area r"
  shows "m' x = m x"
proof -
  obtain h where h: "table_at m r h" "map_inv n h" using assms(1) by (auto simp: mem_map_inv_def)
  obtain index i where i: "mem_probe m (mp_elements r) (mp_maxData r) key index = Some i" "getIndex key (mp_maxData r) = Some index"
    using assms(2) by (auto simp: mem_setMapElement_def bind_Some_iff)
  then have "probe (hm_elements h) (mp_maxData r) key index = Some i" using probe_mem [OF h(1) index_lt [OF i(2)]] by simp
  then obtain h' where "setMapElement h key d = Some h'"
    using i(2) h(1) by (simp add: setMapElement_def table_at_def)
  from mem_set [OF h(1) this] assms(2,3) show ?thesis by (auto simp: table_area_def)
qed

subsection \<open>Writes of descriptors\<close>

lemma write_infos_spec:
  assumes "n * unat sz \<le> 2 ^ 32" "n \<le> length infos" "0 < unat sz" "\<And>j. j < n \<Longrightarrow> st (p + of_nat j * sz) = Some (d j)"
  shows "\<exists>st'. write_infos f sz p n infos st = Some st' \<and> (\<forall>j<n. st' (p + of_nat j * sz) = Some (f (infos ! j) (d j))) \<and>
    (\<forall>q. (\<forall>j<n. q \<noteq> p + of_nat j * sz) \<longrightarrow> st' q = st q)"
  using assms
proof (induction n arbitrary: p infos st d)
  case (Suc n)
  obtain i rest where infos: "infos = i # rest" using Suc.prems(2) by (cases infos) auto
  have ne: "of_nat (Suc j) * sz \<noteq> 0" if "j < n" for j
  proof -
    have "Suc j * unat sz < Suc n * unat sz" using that Suc.prems(3) by simp
    then have "Suc j * unat sz < 2 ^ 32" using Suc.prems(1) by linarith
    moreover have "(of_nat (Suc j) * sz :: u32) = of_nat (Suc j * unat sz)" by (simp add: algebra_simps)
    ultimately have "unat (of_nat (Suc j) * sz) = Suc j * unat sz" by (simp only: unat_of_nat_u32)
    then show ?thesis using Suc.prems(3) by (metis mult_eq_0_iff nat.distinct(1) not_gr_zero unat_0)
  qed
  have shift: "p + sz + of_nat j * sz = p + of_nat (Suc j) * sz" for j by (simp add: algebra_simps)
  let ?st = "st(p \<mapsto> f i (d 0))"
  have st: "st p = Some (d 0)" using Suc.prems(4) [of 0] by simp
  have "\<exists>st'. write_infos f sz (p + sz) n rest ?st = Some st' \<and>
      (\<forall>j<n. st' (p + sz + of_nat j * sz) = Some (f (rest ! j) (d (Suc j)))) \<and>
      (\<forall>q. (\<forall>j<n. q \<noteq> p + sz + of_nat j * sz) \<longrightarrow> st' q = ?st q)"
  proof (rule Suc.IH)
    fix j assume j: "j < n"
    then show "?st (p + sz + of_nat j * sz) = Some (d (Suc j))"
      using Suc.prems(4) [of "Suc j"] ne [OF j] unfolding shift by simp
  qed (use Suc.prems infos in auto)
  then obtain st' where st': "write_infos f sz (p + sz) n rest ?st = Some st'"
    "\<And>j. j < n \<Longrightarrow> st' (p + of_nat (Suc j) * sz) = Some (f (rest ! j) (d (Suc j)))"
    "\<And>q. \<forall>j<n. q \<noteq> p + of_nat (Suc j) * sz \<Longrightarrow> st' q = ?st q" unfolding shift by blast
  have "st' p = ?st p" by (rule st'(3)) (use ne in auto)
  then have all: "st' (p + of_nat j * sz) = Some (f (infos ! j) (d j))" if "j < Suc n" for j
    using st'(2) [of "j - 1"] that infos by (cases j) (simp_all add: nth_Cons)
  show ?case
  proof (intro exI [of _ st'] conjI allI impI)
    show "write_infos f sz p (Suc n) infos st = Some st'" using st'(1) st infos by simp
    show "\<And>j. j < Suc n \<Longrightarrow> st' (p + of_nat j * sz) = Some (f (infos ! j) (d j))" by (rule all)
    fix q assume q: "\<forall>j<Suc n. q \<noteq> p + of_nat j * sz"
    have "q \<noteq> p" using q [rule_format, of 0] by simp
    moreover have "st' q = ?st q" by (rule st'(3)) (use q in auto)
    ultimately show "st' q = st q" by simp
  qed
qed simp

subsection \<open>Binding of sets\<close>

fun numbered :: "u32 \<Rightarrow> addr list \<Rightarrow> (u32 \<times> addr) list" where
  "numbered i [] = []"
| "numbered i (ds # dss) = (i, ds) # numbered (i + 1) dss"

lemma length_numbered [simp]: "length (numbered i dss) = length dss"
  by (induction dss arbitrary: i) simp_all

lemma numbered_nth: "j < length dss \<Longrightarrow> numbered i dss ! j = (i + of_nat j, dss ! j)"
proof (induction dss arbitrary: i j)
  case (Cons d dss)
  then show ?case using Cons.IH [of "j - 1" "i + 1"] by (cases j) (simp_all add: algebra_simps)
qed simp

lemma numbered_keys: "fst ` set (numbered i dss) = (\<lambda>j. i + of_nat j) ` {..<length dss}"
  using numbered_nth [of _ dss i] by (force simp: set_conv_nth)

lemma of_nat_inj_u32: "x < 2 ^ 32 \<Longrightarrow> y < 2 ^ 32 \<Longrightarrow> of_nat x = (of_nat y :: u32) \<Longrightarrow> x = y"
  by (metis unat_of_nat_u32)

lemma numbered_lookup:
  assumes "j < length dss" "length dss \<le> 2 ^ 32"
  shows "map_of (rev (numbered i dss)) (i + of_nat j) = Some (dss ! j)"
proof -
  have "x = y" if "x < length dss" "y < length dss" "of_nat x = (of_nat y :: u32)" for x y
    using that assms(2) by (intro of_nat_inj_u32) simp_all
  then have "distinct (map fst (numbered i dss))"
    using numbered_nth by (auto simp: distinct_conv_nth)
  then have "distinct (map fst (rev (numbered i dss)))" by (simp add: rev_map [symmetric])
  moreover have "(i + of_nat j, dss ! j) \<in> set (rev (numbered i dss))"
    using numbered_nth [OF assms(1), of i] assms(1) by (metis length_numbered nth_mem set_rev)
  ultimately show ?thesis by (simp add: map_of_eq_Some_iff)
qed

lemma bind_sets_spec:
  assumes "mem_map_inv r n m" "NULL \<notin> set dss" "card (dom (mem_map_view r m) \<union> fst ` set (numbered i dss)) \<le> n"
  shows "\<exists>m'. bind_sets r i dss m = Some m' \<and> mem_map_inv r n m' \<and>
    mem_map_view r m' = mem_map_view r m ++ map_of (rev (numbered i dss)) \<and> (\<forall>x. x \<notin> table_area r \<longrightarrow> m' x = m x)"
  using assms
proof (induction dss arbitrary: i m)
  case (Cons ds dss)
  let ?K = "fst ` set (numbered (i + 1) dss)"
  have fin: "finite (dom (mem_map_view r m))" using mem_table.view_card [OF Cons.prems(1)] by simp
  have "i \<in> dom (mem_map_view r m) \<or> card (dom (mem_map_view r m)) < n"
  proof (rule disjCI)
    assume "\<not> card (dom (mem_map_view r m)) < n"
    then have "dom (mem_map_view r m) = dom (mem_map_view r m) \<union> fst ` set (numbered i (ds # dss))"
      using Cons.prems(3) fin by (intro card_seteq) auto
    then show "i \<in> dom (mem_map_view r m)" by auto
  qed
  from mem_table.store_ok [OF Cons.prems(1) _ this, of ds] Cons.prems(2)
  obtain m1 where m1: "mem_setMapElement m r i ds = Some m1" "mem_map_inv r n m1"
    "mem_map_view r m1 = (mem_map_view r m)(i \<mapsto> ds)" by auto
  have "card (dom (mem_map_view r m1) \<union> ?K) \<le> n" using Cons.prems(3) m1(3) by simp
  from Cons.IH [OF m1(2) _ this] Cons.prems(2) obtain m' where
    m': "bind_sets r (i + 1) dss m1 = Some m'" "mem_map_inv r n m'"
      "mem_map_view r m' = mem_map_view r m1 ++ map_of (rev (numbered (i + 1) dss))" "\<And>x. x \<notin> table_area r \<Longrightarrow> m' x = m1 x" by auto
  show ?case
    by (intro exI [of _ m'] conjI allI impI)
      (use m1 m' mem_set_frame [OF Cons.prems(1) m1(1)] in \<open>auto simp: map_add_assoc map_add_upd_left\<close>)
qed simp

lemma find_descriptor_view:
  "mem_map_inv r n m \<Longrightarrow> mem_map_view r m binding = Some base \<Longrightarrow>
    find_descriptor m (Some r) binding a sz = Some (base + a * sz)"
  using mem_table.lookup_found [of r n m binding base] by (simp add: find_descriptor_def)

text \<open>C30: from the update to the draw: image descriptors that an update writes to a set are the ones
  that a draw with a pipeline layout finds, when the set is bound to the layout afterwards, at any
  place of the sets bound; element by element, with the count, type and stages they had.  The map of
  the layout needs a bucket for each set, and the two maps must lie apart in memory.\<close>

theorem descriptor_update_bind_draw:
  assumes "cw_cbs w p = Some b" "dw_layouts d layout = Some pl"
    and "mem_map_inv (ly_descriptorSetBindingMap pl) N (dw_mem d)"
      "card (dom (mem_map_view (ly_descriptorSetBindingMap pl) (dw_mem d)) \<union> (\<lambda>j. firstSet + of_nat j) ` {..<length dss}) \<le> N"
    and "NULL \<notin> set dss" "length dss \<le> 2 ^ 32" "i < length dss" "dss ! i = wd_dstSet x"
    and "dw_sets d (wd_dstSet x) = Some s" "ds_imageBindingMap s = Some r"
    and "mem_map_inv r n (dw_mem d)" "mem_map_view r (dw_mem d) (wd_dstBinding x) = Some base"
    and "table_area r \<inter> table_area (ly_descriptorSetBindingMap pl) = {}"
    and "kind_of (wd_descriptorType x) = Some KIND_IMAGE"
    and "unat (wd_descriptorCount x) \<le> length (wd_pImageInfo x)" "unat (wd_descriptorCount x) * 24 \<le> 2 ^ 32"
    and "\<forall>j<unat (wd_descriptorCount x). dw_images d (base + (wd_dstArrayElement x + of_nat j) * 24) = Some (old j)"
  shows "\<exists>d1 d2 w2. vkUpdateDescriptorSets [x] [] d = Some d1 \<and>
    vkCmdBindDescriptorSets p layout firstSet dss (d1, w) = Some (d2, w2) \<and>
    (\<forall>j (mp :: VkRpiAssemblyMappingEXT). j < unat (wd_descriptorCount x) \<longrightarrow> am_descriptorSet mp = firstSet + of_nat i \<longrightarrow>
       am_descriptorBinding mp = wd_dstBinding x \<longrightarrow> am_descriptorArrayElement mp = wd_dstArrayElement x + of_nat j \<longrightarrow>
       mapped_image d2 layout mp = Some (set_image (wd_pImageInfo x ! j) (old j)))"
proof -
  let ?R = "ly_descriptorSetBindingMap pl" and ?p = "base + wd_dstArrayElement x * 24" and ?n = "unat (wd_descriptorCount x)"
  have shift: "base + (wd_dstArrayElement x + of_nat j) * 24 = ?p + of_nat j * 24" for j by (simp add: algebra_simps)
  obtain st where st: "write_infos set_image 24 ?p ?n (wd_pImageInfo x) (dw_images d) = Some st"
    "\<And>j. j < ?n \<Longrightarrow> st (?p + of_nat j * 24) = Some (set_image (wd_pImageInfo x ! j) (old j))"
    using write_infos_spec [of ?n 24 "wd_pImageInfo x" "dw_images d" ?p old set_image] assms(15-17) unfolding shift by auto
  obtain m where m: "bind_sets ?R firstSet dss (dw_mem d) = Some m" "mem_map_inv ?R N m"
    "mem_map_view ?R m = mem_map_view ?R (dw_mem d) ++ map_of (rev (numbered firstSet dss))"
    "\<And>y. y \<notin> table_area ?R \<Longrightarrow> m y = dw_mem d y"
    using bind_sets_spec [OF assms(3,5)] assms(4) unfolding numbered_keys by blast
  have r: "mem_map_inv r n m" "mem_map_view r m (wd_dstBinding x) = Some base"
    using mem_map_cong [OF assms(11), of m] m(4) assms(12,13) by (auto simp: disjoint_iff)
  have "mem_map_view ?R m (firstSet + of_nat i) = Some (wd_dstSet x)"
    using numbered_lookup [OF assms(7,6)] assms(8) by (simp add: m(3))
  from mem_table.lookup_found [OF m(2) this]
  have get: "mem_getMapElement m ?R (firstSet + of_nat i) = Some (wd_dstSet x)" .
  show ?thesis
  proof (intro exI conjI allI impI)
    show "vkUpdateDescriptorSets [x] [] d = Some (d\<lparr>dw_images := st\<rparr>)"
      using st(1) find_descriptor_view [OF assms(11,12)] assms(9,10,14)
      by (simp add: vkUpdateDescriptorSets_def write_descriptor_def sizeof_descriptorImage_def)
    show "vkCmdBindDescriptorSets p layout firstSet dss (d\<lparr>dw_images := st\<rparr>, w) = Some (d\<lparr>dw_images := st, dw_mem := m\<rparr>,
        w\<lparr>cw_cbs := (cw_cbs w)(p \<mapsto> b\<lparr>cb_dirty := (cb_dirty b)\<lparr>descriptorSetDirty := 1\<rparr>\<rparr>)\<rparr>)"
      using m(1) assms(1,2) by (simp add: vkCmdBindDescriptorSets_def on_cmdbuf_def)
    fix j and mp :: VkRpiAssemblyMappingEXT assume "j < ?n" "am_descriptorSet mp = firstSet + of_nat i" "am_descriptorBinding mp = wd_dstBinding x"
      "am_descriptorArrayElement mp = wd_dstArrayElement x + of_nat j"
    then show "mapped_image (d\<lparr>dw_images := st, dw_mem := m\<rparr>) layout mp = Some (set_image (wd_pImageInfo x ! j) (old j))"
      using get find_descriptor_view [OF r] st(2) [of j] assms(2,9,10)
      by (simp add: mapped_image_def mapped_set_def sizeof_descriptorImage_def shift add.assoc)
  qed
qed

text \<open>Two empty tables of four buckets, and the binding 3 in the second one.\<close>

lemma ex_tables:
  obtains m where "mem_map_inv \<lparr>mp_elements = 4096, mp_maxData = 4\<rparr> 4 m" "mem_map_view \<lparr>mp_elements = 4096, mp_maxData = 4\<rparr> m = Map.empty"
    "mem_map_inv \<lparr>mp_elements = 4128, mp_maxData = 4\<rparr> 4 m" "mem_map_view \<lparr>mp_elements = 4128, mp_maxData = 4\<rparr> m 3 = Some 8192"
    "table_area \<lparr>mp_elements = 4128, mp_maxData = 4\<rparr> \<inter> table_area \<lparr>mp_elements = 4096, mp_maxData = 4\<rparr> = {}"
proof -
  let ?R = "\<lparr>mp_elements = 4096, mp_maxData = 4\<rparr>" and ?r = "\<lparr>mp_elements = 4128, mp_maxData = 4\<rparr>"
  have dj: "table_area ?r \<inter> table_area ?R = {}" by (auto simp: table_area_def extent_iff)
  have e: "extent 4096 32 \<subseteq> dom (zero_mem 4096 64)" "extent 4128 32 \<subseteq> dom (zero_mem 4096 64)"
    by (auto simp: extent_iff zero_mem_def dom_def)
  obtain m1 h1 where m1: "table_at m1 ?R h1" "map_inv 4 h1" "map_view h1 = Map.empty" "extent 4128 32 \<subseteq> dom m1"
    by (rule mem_create [of 4096 4 "zero_mem 4096 64"]) (use e in simp_all)
  obtain m2 h2 where m2: "table_at m2 ?r h2" "map_inv 4 h2" "map_view h2 = Map.empty" "\<And>x. x \<notin> table_area ?r \<Longrightarrow> m2 x = m1 x"
    by (rule mem_create [of 4128 4 m1]) (use m1(4) in \<open>simp_all add: table_area_def\<close>)
  have i2: "mem_map_inv ?r 4 m2" using m2(1,2) by (auto simp: mem_map_inv_def)
  obtain m3 where m3: "mem_setMapElement m2 ?r 3 8192 = Some m3" "mem_map_inv ?r 4 m3" "mem_map_view ?r m3 3 = Some 8192"
    using mem_table.store_ok [OF i2, of 8192 3] m2(3) by (auto simp: mem_map_view [OF m2(1)])
  have i1: "mem_map_inv ?R 4 m1" using m1(1,2) by (auto simp: mem_map_inv_def)
  have same: "m3 x = m1 x" if "x \<in> table_area ?R" for x
    using that dj m2(4) [of x] mem_set_frame [OF i2 m3(1), of x] by (metis disjoint_iff)
  show ?thesis
    by (rule that [OF _ _ m3(2,3) dj])
      (use mem_map_cong [OF i1, of m3] same m1(3) in \<open>simp_all add: mem_map_view [OF m1(1)]\<close>)
qed

definition ex_write :: VkWriteDescriptorSet where
  "ex_write = \<lparr>wd_dstSet = 64, wd_dstBinding = 3, wd_dstArrayElement = 0, wd_descriptorCount = 2,
     wd_descriptorType = VK_DESCRIPTOR_TYPE_COMBINED_IMAGE_SAMPLER,
     wd_pImageInfo = [\<lparr>ii_sampler = 100, ii_imageView = 200, ii_imageLayout = 1\<rparr>, \<lparr>ii_sampler = 101, ii_imageView = 201, ii_imageLayout = 1\<rparr>],
     wd_pBufferInfo = [], wd_pTexelBufferView = []\<rparr>"

lemma descriptor_update_bind_draw_witness:
  "\<exists>d d1 d2 w2. vkUpdateDescriptorSets [ex_write] [] d = Some d1 \<and>
     vkCmdBindDescriptorSets 4096 32 5 [48, 64] (d1, \<lparr>cw_mem = Map.empty, cw_cps = Map.empty, cw_cbs = [4096 \<mapsto> ex_cmdbuf]\<rparr>) = Some (d2, w2) \<and>
     map_option di_imageView (mapped_image d2 32 \<lparr>am_mappingType = VK_RPI_ASSEMBLY_MAPPING_TYPE_DESCRIPTOR,
       am_descriptorType = VK_DESCRIPTOR_TYPE_COMBINED_IMAGE_SAMPLER, am_descriptorSet = 6, am_descriptorBinding = 3,
       am_descriptorArrayElement = 1, am_resourceOffset = 0\<rparr>) = Some 201"
proof -
  let ?R = "\<lparr>mp_elements = 4096, mp_maxData = 4\<rparr>" and ?r = "\<lparr>mp_elements = 4128, mp_maxData = 4\<rparr>"
  let ?old = "\<lparr>di_count = 2, di_type = VK_DESCRIPTOR_TYPE_COMBINED_IMAGE_SAMPLER, di_stageFlags = 16, di_sampler = 0, di_imageView = 0, di_imageLayout = 0\<rparr>"
  let ?w = "\<lparr>cw_mem = Map.empty, cw_cps = Map.empty, cw_cbs = [4096 \<mapsto> ex_cmdbuf]\<rparr>"
  let ?pl = "\<lparr>ly_descriptorSetBindingMap = ?R, ly_setLayoutCount = 4, ly_setLayouts = None, ly_pushConstantRangeCount = 0, ly_pushConstantRanges = None\<rparr>"
  let ?s = "\<lparr>ds_imageBindingMap = Some ?r, ds_bufferBindingMap = None, ds_texelBufferBindingMap = None, ds_imageDescriptors = 8192,
    ds_bufferDescriptors = 0, ds_texelBufferDescriptors = 0, ds_imageDescriptorsCount = 2, ds_bufferDescriptorsCount = 0, ds_texelBufferDescriptorsCount = 0\<rparr>"
  obtain m where m: "mem_map_inv ?R 4 m" "mem_map_view ?R m = Map.empty" "mem_map_inv ?r 4 m" "mem_map_view ?r m 3 = Some 8192"
    "table_area ?r \<inter> table_area ?R = {}" by (rule ex_tables)
  let ?d = "\<lparr>dw_mem = m, dw_pools = Map.empty, dw_sets = [64 \<mapsto> ?s], dw_images = [8192 \<mapsto> ?old, 8216 \<mapsto> ?old], dw_buffers = Map.empty,
    dw_texels = Map.empty, dw_layouts = [32 \<mapsto> ?pl]\<rparr>"
  have n2: "{..<2 :: nat} = {0, 1}" "j < 2 \<longleftrightarrow> j = 0 \<or> j = 1" for j :: nat by auto
  obtain d1 d2 w2 where r: "vkUpdateDescriptorSets [ex_write] [] ?d = Some d1" "vkCmdBindDescriptorSets 4096 32 5 [48, 64] (d1, ?w) = Some (d2, w2)"
    "\<forall>j (mp :: VkRpiAssemblyMappingEXT). j < unat (wd_descriptorCount ex_write) \<longrightarrow> am_descriptorSet mp = 5 + of_nat 1 \<longrightarrow>
       am_descriptorBinding mp = wd_dstBinding ex_write \<longrightarrow> am_descriptorArrayElement mp = wd_dstArrayElement ex_write + of_nat j \<longrightarrow>
       mapped_image d2 32 mp = Some (set_image (wd_pImageInfo ex_write ! j) ?old)"
    using descriptor_update_bind_draw [of ?w 4096 ex_cmdbuf ?d 32 ?pl 4 5 "[48, 64]" 1 ex_write ?s ?r 4 8192 "\<lambda>j. ?old"] m
    by (auto simp: ex_write_def n2 card_insert_if numeral_2_eq_2 [symmetric])
  show ?thesis using r(1,2) r(3) [rule_format, of 1]
    by (intro exI [of _ ?d] exI [of _ d1] exI [of _ d2] exI [of _ w2]) (simp add: ex_write_def set_image_def)
qed

subsection \<open>The buckets of a pipeline layout\<close>

lemma clear_buckets_dom: "clear_buckets m es c n = Some m' \<Longrightarrow> dom m' = dom m"
proof (induction n arbitrary: m c)
  case (Suc n)
  then obtain m1 where "store32 m (elem_addr es c) 0 = Some m1" "clear_buckets m1 es (c + 1) n = Some m'"
    by (auto simp: bind_Some_iff)
  then show ?case using Suc.IH store32_dom by metis
qed simp

lemma clear_buckets_defined:
  "clear_buckets m es c n = Some m' \<Longrightarrow> j < n \<Longrightarrow> extent (elem_addr es (c + of_nat j)) 4 \<subseteq> dom m"
proof (induction n arbitrary: m c j)
  case (Suc n)
  obtain m1 where m1: "store32 m (elem_addr es c) 0 = Some m1" "clear_buckets m1 es (c + 1) n = Some m'"
    using Suc.prems(1) by (auto simp: bind_Some_iff)
  show ?case
  proof (cases j)
    case 0
    then show ?thesis using m1(1) store32_defined [of m "elem_addr es c" 0] by auto
  next
    case (Suc j')
    then show ?thesis using Suc.IH [OF m1(2), of j'] Suc.prems(2) store32_dom [OF m1(1)] by (simp add: add.assoc)
  qed
qed simp

text \<open>C32: a pipeline layout allocates four bytes for each set layout and uses them as the buckets of a map,
  which have eight: when the bytes behind the allocation are not the program's, a layout with more than
  one set is undefined, and a layout with one can be created, but no set can be bound to it.\<close>

theorem layout_buckets_overrun:
  assumes "extent (buf + 4 * li_setLayoutCount ci) (4 * unat (li_setLayoutCount ci)) \<inter> dom m = {}"
    and "vkCreatePipelineLayout ci buf allocs m = Some (m', VK_SUCCESS, Some pl)"
  shows "unat (li_setLayoutCount ci) \<le> 1 \<and> bind_sets (ly_descriptorSetBindingMap pl) firstSet (ds # dss) m' = None"
proof -
  let ?n = "unat (li_setLayoutCount ci)"
  have pl: "mem_createMap m buf (li_setLayoutCount ci) = Some (m', ly_descriptorSetBindingMap pl)"
    using assms(2) by (auto simp: vkCreatePipelineLayout_def Let_def bind_Some_iff split: option.splits)
  then have c: "clear_buckets m buf 0 ?n = Some m'" and
    r: "ly_descriptorSetBindingMap pl = \<lparr>mp_elements = buf, mp_maxData = li_setLayoutCount ci\<rparr>"
    by (auto simp: mem_createMap_def bind_Some_iff)
  have le: "?n \<le> 1"
  proof (rule ccontr)
    assume "\<not> ?n \<le> 1"
    then have "extent (elem_addr buf (of_nat (?n - 1))) 4 \<subseteq> dom m"
      using clear_buckets_defined [OF c, of "?n - 1"] by simp
    moreover have "elem_addr buf (of_nat (?n - 1)) = buf + 4 * li_setLayoutCount ci + of_nat (4 * ?n - 8)"
    proof -
      have "8 * (?n - 1) = 4 * ?n + (4 * ?n - 8)" using \<open>\<not> ?n \<le> 1\<close> by simp
      then have "(of_nat (8 * (?n - 1)) :: u32) = of_nat (4 * ?n) + of_nat (4 * ?n - 8)" by (metis of_nat_add)
      then show ?thesis by (simp add: elem_addr_def sizeof_mapElem_def mult.commute add.assoc)
    qed
    then have "elem_addr buf (of_nat (?n - 1)) \<in> extent (buf + 4 * li_setLayoutCount ci) (4 * ?n)"
      unfolding extent_def by (rule image_eqI) (use \<open>\<not> ?n \<le> 1\<close> in simp)
    moreover have "elem_addr buf (of_nat (?n - 1)) \<in> extent (elem_addr buf (of_nat (?n - 1))) 4"
      by (simp add: extent_4)
    ultimately show False using assms(1) by blast
  qed
  have "mem_setMapElement m' (ly_descriptorSetBindingMap pl) firstSet ds = None"
  proof (cases "getIndex firstSet (li_setLayoutCount ci)")
    case (Some index)
    then have "?n = 1" "unat index = 0" using index_lt [OF Some] le by simp_all
    then have one: "li_setLayoutCount ci = 1" "index = 0" using word_unat_eq_iff [of "li_setLayoutCount ci" 1] by (simp_all add: unat_eq_0)
  have "buf + 4 \<notin> dom m'"
      using assms(1) one clear_buckets_dom [OF c] by (auto simp: extent_4)
    then have "load32 m' (elem_addr buf 0 + 4) = None"
      by (simp add: load32_def elem_addr_def domIff)
    then have "mem_probe m' buf 1 firstSet 0 = None" by (subst mem_probe.simps) simp
    then show ?thesis using Some one by (simp add: mem_setMapElement_def r)
  qed (simp add: mem_setMapElement_def r)
  with le show ?thesis by simp
qed

lemma layout_buckets_overrun_witness:
  "\<exists>m' pl. vkCreatePipelineLayout \<lparr>li_setLayoutCount = 1, li_pSetLayouts = Some [64], li_pushConstantRangeCount = 0,
      li_pPushConstantRanges = None\<rparr> 4096 [True, True] (zero_mem 4096 4) = Some (m', VK_SUCCESS, Some pl) \<and>
    bind_sets (ly_descriptorSetBindingMap pl) 0 [128] m' = None"
proof -
  let ?ci = "\<lparr>li_setLayoutCount = 1, li_pSetLayouts = Some [64], li_pushConstantRangeCount = 0, li_pPushConstantRanges = None\<rparr>"
  have "store32 (zero_mem 4096 4) 4096 0 \<noteq> None"
    using store32_defined [of "zero_mem 4096 4" 4096 0] zero_mem_span [of 4096 4] by auto
  then obtain m' where "clear_buckets (zero_mem 4096 4) 4096 0 1 = Some m'" by (auto simp: elem_addr_def)
  then obtain pl where pl: "vkCreatePipelineLayout ?ci 4096 [True, True] (zero_mem 4096 4) = Some (m', VK_SUCCESS, Some pl)"
    by (simp add: vkCreatePipelineLayout_def alloc_copy_def copy_part_def mem_createMap_def)
  have "extent 4100 4 \<inter> dom (zero_mem 4096 4) = {}" by (auto simp: extent_iff zero_mem_def split: if_splits)
  then show ?thesis using layout_buckets_overrun [of 4096 ?ci, OF _ pl, of 0 128 "[]"] pl by auto
qed

end
