(* ===== verification/Query_Results.thy ===== *)
theory Query_Results
  imports Device_Objects
begin

text \<open>
  The results of performance queries (\<open>vkGetQueryPoolResults\<close> of driver/query.c): the values of the
  counters are read from the kernel and written to the memory of the application.
\<close>

unbundle bit_operations_syntax

subsection \<open>The values of the counters\<close>


definition bytes64 :: "u64 \<Rightarrow> u8 list" where
  "bytes64 v = bytes32 (ucast v) @ bytes32 (ucast (drop_bit 32 v))"




subsection \<open>What the application gets\<close>

lemma store_bytes_append:
  "store_bytes m a (xs @ ys) = Option.bind (store_bytes m a xs) (\<lambda>m. store_bytes m (a + of_nat (length xs)) ys)"
  by (induction xs arbitrary: m a) (simp_all add: algebra_simps)

lemma length_bytes64 [simp]: "length (bytes64 v) = 8"
  by (simp add: bytes64_def)
























end
