(* ===== verification/Builtin_Programs.thy ===== *)
theory Builtin_Programs
  imports Qpu_Programs
begin

text \<open>
  The shader programs that the driver itself brings along, for copies and blits (driver/copy.c) and for
  clears of attachments (driver/stateChange.c): their texts, as the C source has them, and the
  instructions they are assembled to.

  A text is taken apart line by line by a function that checks what it finds: the parts put together
  again must be the line, and they must be those of an instruction.  One lemma says that the assembler
  turns a text whose lines pass this check into the words that the check computes, so that what is
  evaluated is one short line at a time and never the assembler on a whole buffer.
\<close>

unbundle bit_operations_syntax

subsection \<open>Taking a line apart\<close>

fun split_on :: "char \<Rightarrow> string \<Rightarrow> string list" where
  "split_on d [] = [[]]"
| "split_on d (c # cs) = (if c = d then [] # split_on d cs
     else (case split_on d cs of [] \<Rightarrow> [[c]] | w # ws \<Rightarrow> (c # w) # ws))"

definition unblank :: "string \<Rightarrow> string" where
  "unblank s = filter (\<lambda>c. c \<noteq> CHR '' '') s"

text \<open>An assignment: the name and the packing on the left, the operation, its modifiers and its arguments.\<close>

definition split_op :: "string \<Rightarrow> string \<times> string option \<times> string \<times> string list \<times> string list" where
  "split_op s = (let
     lhs = split_on (CHR ''.'') (unblank (takeWhile (\<lambda>c. c \<noteq> CHR ''='') s));
     rhs = drop 1 (dropWhile (\<lambda>c. c \<noteq> CHR ''='') s);
     name = split_on (CHR ''.'') (unblank (takeWhile (\<lambda>c. c \<noteq> CHR ''('') rhs));
     args = unblank (takeWhile (\<lambda>c. c \<noteq> CHR '')'') (drop 1 (dropWhile (\<lambda>c. c \<noteq> CHR ''('') rhs)))
   in (hd lhs, (case tl lhs of [] \<Rightarrow> None | p # _ \<Rightarrow> Some p), hd name, tl name,
     if args = [] then [] else split_on (CHR '','') args))"

text \<open>A line, and what stands behind its last parenthesis.\<close>

definition split_line :: "string \<Rightarrow> asm_line \<times> string" where
  "split_line s = (let
     r1 = drop 1 (dropWhile (\<lambda>c. c \<noteq> CHR '';'') s);
     r2 = drop 1 (dropWhile (\<lambda>c. c \<noteq> CHR '';'') r1);
     (dst, pk, oper, mods, args) = split_op r1;
     (dst2, pk2, oper2, mods2, args2) = split_op r2
   in (\<lparr>al_sig = takeWhile (\<lambda>c. c \<noteq> CHR '' '') s, al_dst = dst, al_pack = pk, al_op = oper, al_mods = mods,
        al_args = args, al_dst2 = dst2, al_pack2 = pk2, al_op2 = oper2, al_mods2 = mods2, al_args2 = args2\<rparr>,
      drop 1 (dropWhile (\<lambda>c. c \<noteq> CHR '')'') r2)))"

subsection \<open>The word of a line\<close>

lemma pred_option_code [code]: "pred_option P x = (case x of None \<Rightarrow> True | Some y \<Rightarrow> P y)"
  by (simp split: option.splits)

definition line_word :: "string \<Rightarrow> u64 option" where
  "line_word s = (let (l, w) = split_line s in
     if al_sig l @ '' '' @ line_with w (CHR '')'') l = s \<and> spaced_ok (l, w)
     then map_option emit_instruction (line_insn l) else None)"

subsection \<open>Evaluation\<close>

text \<open>
  The tables of names with their gaps written out, and the shifts of the encoder on integers: equations
  that only make the evaluation of a line quicker.
\<close>

definition dense :: "(nat \<times> string list) list \<Rightarrow> names" where
  "dense bs = concat (map (\<lambda>(n, ss). replicate n None @ map Some ss) bs)"

lemma qpu_op_add_str_dense [code]:
  "qpu_op_add_str = dense [
     (0, [''nop'', ''fadd'', ''fsub'', ''fmin'', ''fmax'', ''fminabs'', ''fmaxabs'', ''ftoi'', ''itof'']),
     (3, [''add'', ''sub'', ''shr'', ''asr'', ''ror'', ''shl'', ''min'', ''max'', ''and'', ''or'', ''xor'', ''not'',
       ''clz'']),
     (5, [''v8adds'', ''v8subs''])]"
  by code_simp

lemma qpu_raddr_str_dense [code]:
  "qpu_raddr_str = [
     dense [(15, [''pay_zw'']), (16, [''uni'']), (2, [''vary'']), (2, [''elem'', ''nop'']), (1, [''x_pix'', ''ms_flags'']),
       (5, [''vpm_read'', ''vpm_ld_busy'', ''vpm_ld_wait'', ''mutex_acq''])],
     dense [(15, [''pay_zw'']), (16, [''uni'']), (2, [''vary'']), (2, [''elem'', ''nop'']), (1, [''y_pix'', ''rev_flag'']),
       (5, [''vpm_read'', ''vpm_st_busy'', ''vpm_st_wait'', ''mutex_acq''])]]"
  by code_simp

lemma qpu_waddr_str_dense [code]:
  "qpu_waddr_str = [
     dense [(32, [''r0'', ''r1'', ''r2'', ''r3'', ''tmu_noswap'', ''r5'', ''host_int'', ''nop'', ''uniforms_addr'',
         ''quad_x'', ''ms_flags'', ''tlb_stencil_setup'', ''tlb_z'', ''tlb_color_ms'', ''tlb_color_all'']),
       (1, [''vpm'', ''vr_setup'', ''vr_addr'', ''mutex_release'', ''sfu_recip'', ''sfu_recipsqrt'', ''sfu_exp'',
         ''sfu_log'', ''tmu0_s'', ''tmu0_t'', ''tmu0_r'', ''tmu0_b'', ''tmu1_s'', ''tmu1_t'', ''tmu1_r'', ''tmu1_b''])],
     dense [(32, [''r0'', ''r1'', ''r2'', ''r3'', ''tmu_noswap'', ''r5'', ''host_int'', ''nop'', ''uniforms_addr'',
         ''quad_y'', ''rev_flags'', ''tlb_stencil_setup'', ''tlb_z'', ''tlb_color_ms'', ''tlb_color_all'']),
       (1, [''vpm'', ''vw_setup'', ''vw_addr'', ''mutex_release'', ''sfu_recip'', ''sfu_recipsqrt'', ''sfu_exp'',
         ''sfu_log'', ''tmu0_s'', ''tmu0_t'', ''tmu0_r'', ''tmu0_b'', ''tmu1_s'', ''tmu1_t'', ''tmu1_r'', ''tmu1_b''])]]"
  by code_simp

fun doubled :: "nat \<Rightarrow> int \<Rightarrow> int" where
  "doubled 0 i = i"
| "doubled (Suc k) i = doubled k (i + i)"

lemma doubled_eq: "doubled k i = i * 2 ^ k"
  by (induction k arbitrary: i) (simp_all add: algebra_simps)

lemma bits_at_doubled [code]: "bits_at n p d = word_of_int (doubled p (uint (d AND mask n)))"
  by (simp add: bits_at_def doubled_eq push_bit_eq_mult)

subsection \<open>A program\<close>

text \<open>The array of characters of a program: its lines, the NUL written out and that of the literal.\<close>

definition asm_code :: "string list \<Rightarrow> string" where
  "asm_code ss = concat ss @ [NUL, NUL]"

lemma line_word_text:
  assumes "list_all2 (\<lambda>s w. line_word s = Some w) ss ws"
  shows "\<exists>ls qs. concat ss @ NUL # z = spaced_text z (CHR '')'') ls \<and>
    list_all2 (\<lambda>lw q. spaced_ok lw \<and> line_insn (fst lw) = Some q) ls qs \<and> ws = map emit_instruction qs \<and>
    length ls = length ss"
  using assms
proof (induction ss ws rule: list_all2_induct)
  case Nil
  then show ?case by (auto intro!: exI [of _ "[]"])
next
  case (Cons s ss w ws)
  obtain l g where lg: "split_line s = (l, g)" by fastforce
  obtain q where q: "al_sig l @ '' '' @ line_with g (CHR '')'') l = s" "spaced_ok (l, g)" "line_insn l = Some q"
    "w = emit_instruction q" using Cons.hyps(1) by (auto simp: line_word_def lg split: if_splits)
  obtain ls qs where IH: "concat ss @ NUL # z = spaced_text z (CHR '')'') ls"
    "list_all2 (\<lambda>lw q. spaced_ok lw \<and> line_insn (fst lw) = Some q) ls qs" "ws = map emit_instruction qs"
    "length ls = length ss" using Cons.IH by blast
  have "concat (s # ss) @ NUL # z = spaced_text z (CHR '')'') ((l, g) # ls)"
    by (simp add: IH(1) flip: q(1))
  then show ?case using IH(2-4) q(2-4)
    by (intro exI [of _ "(l, g) # ls"] exI [of _ "q # qs"]) simp
qed

text \<open>The assembler on a program, and the number of instructions counted in it.\<close>

lemma assemble_asm_code:
  assumes "list_all2 (\<lambda>s w. line_word s = Some w) ss ws"
  shows "assemble_qpu_asm (asm_code ss) = Some ws"
    "get_num_instructions (takeWhile (\<lambda>c. c \<noteq> NUL) (asm_code ss)) = of_nat (length ws)"
proof -
  obtain ls qs where 1: "concat ss @ NUL # [NUL] = spaced_text [NUL] (CHR '')'') ls"
    "list_all2 (\<lambda>lw q. spaced_ok lw \<and> line_insn (fst lw) = Some q) ls qs" "ws = map emit_instruction qs"
    "length ls = length ss" using line_word_text [OF assms, of "[NUL]"] by blast
  have code: "asm_code ss = spaced_text [NUL] (CHR '')'') ls" using 1(1) by (simp add: asm_code_def)
  have "list_all spaced_ok ls" using 1(2) by (auto simp: list_all2_conv_all_nth list_all_length)
  then show "get_num_instructions (takeWhile (\<lambda>c. c \<noteq> NUL) (asm_code ss)) = of_nat (length ws)"
    using spaced_text_size list_all2_lengthD [OF 1(2)] 1(3) by (simp add: code)
  show "assemble_qpu_asm (asm_code ss) = Some ws"
    using assemble_spaced [OF 1(2)] 1(3) by (simp add: code)
qed

subsection \<open>The programs\<close>

text \<open>
  A program is the list of its lines.  The vertex and the coordinate program of the fullscreen quad are
  written out in each of the functions; the fragment programs write the colour of a clear, the texel that
  is read from a buffer, or the texel that is sampled from an image.
\<close>

definition with_newlines :: "string list \<Rightarrow> string list" where
  "with_newlines = map (\<lambda>s. s @ [CHR 0x0A])"

definition clear_cs_asm_code :: "string list" where
  "clear_cs_asm_code = with_newlines [
     ''sig_small_imm ; r3 = fsub.always(b, a, uni, 0x40000000) ; nop = nop(r0, r0);'',
     ''sig_load_imm ; vr_setup = load32.always(0x00201a00) ; nop = load32.always() ;'',
     ''sig_none ; r2 = or.always(a, a, vpm_read, nop) ; nop = nop(r0, r0);'',
     ''sig_load_imm ; vw_setup = load32.always.ws(0x00001a00) ; nop = load32.always() ;'',
     ''sig_none ; r1 = or.always(a, a, vpm_read, nop) ; vpm = v8min.always(r2, r2);'',
     ''sig_none ; vpm = or.always(r1, r1, uni, nop) ; r2 = fmul.always(r2, a);'',
     ''sig_none ; nop = nop(r0, r0, uni, nop) ; r1 = fmul.always(r1, a);'',
     ''sig_none ; nop = nop(r0, r0) ; r0 = fmul.always(r2, r3);'',
     ''sig_none ; rx0.16a = ftoi.always(r0, r0) ; r1 = fmul.always(r1, r3) ;'',
     ''sig_none ; rx0.16b = ftoi.always(r1, r1) ; nop = nop(r0, r0) ;'',
     ''sig_small_imm ; vpm = or.always(b, b, nop, 0) ; nop = nop(r0, r0) ;'',
     ''sig_small_imm ; vpm = or.always(b, b, nop, 0x3f800000) ; nop = nop(r0, r0) ;'',
     ''sig_none ; vpm = or.always(a, a, ra0, nop) ; nop = nop(r0, r0) ;'',
     ''sig_none ; vpm = or.always(a, a, uni, nop) ; nop = nop(r0, r0) ;'',
     ''sig_none ; vpm = or.always(r3, r3) ; nop = nop(r0, r0) ;'',
     ''sig_end ; nop = nop(r0, r0) ; nop = nop(r0, r0) ;'',
     ''sig_none ; nop = nop(r0, r0) ; nop = nop(r0, r0) ;'',
     ''sig_none ; nop = nop(r0, r0) ; nop = nop(r0, r0) ;'']"

definition clear_vs_asm_code :: "string list" where
  "clear_vs_asm_code = with_newlines [
     ''sig_small_imm ; rx0 = fsub.ws.always(b, a, uni, 0x40000000) ; nop = nop(r0, r0) ;'',
     ''sig_load_imm ; vr_setup = load32.always(0x00201a00) ; nop = load32.always() ;'',
     ''sig_none ; nop = nop(r0, r0, vpm_read, uni) ; r0 = fmul.always(a, b) ;'',
     ''sig_none ; nop = nop(r0, r0, nop, rb0) ; r1 = fmul.always(r0, b) ;'',
     ''sig_none ; rx0.16a = ftoi.always(r1, r1, vpm_read, uni) ; r2 = fmul.always(a, b) ;'',
     ''sig_none ; nop = nop(r0, r0, nop, rb0) ; r3 = fmul.always(r2, b) ;'',
     ''sig_none ; rx0.16b = ftoi.always(r3, r3) ; nop = nop(r0, r0) ;'',
     ''sig_load_imm ; vw_setup = load32.always.ws(0x00001a00) ; nop = load32.always() ;'',
     ''sig_none ; vpm = or.always(a, a, ra0, nop) ; nop = nop(r0, r0);'',
     ''sig_none ; vpm = or.always(a, a, uni, nop) ; nop = nop(r0, r0);'',
     ''sig_none ; vpm = or.always(b, b, nop, rb0) ; nop = nop(r0, r0);'',
     ''sig_end ; nop = nop(r0, r0) ; nop = nop(r0, r0) ;'',
     ''sig_none ; nop = nop(r0, r0) ; nop = nop(r0, r0) ;'',
     ''sig_none ; nop = nop(r0, r0) ; nop = nop(r0, r0) ;'']"

definition clear_fs_asm_code :: "string list" where
  "clear_fs_asm_code = [
     ''sig_none ; r0 = or.always(a, a, uni, nop) ; nop = nop(r0, r0) ;'',
     ''sig_none ; r1 = or.always(a, a, uni, nop) ; nop = nop(r0, r0) ;'',
     ''sig_none ; r2 = or.always(a, a, uni, nop) ; nop = nop(r0, r0) ;'',
     ''sig_none ; tlb_stencil_setup = or.always(r1, r1) ; nop = nop(r0, r0) ;'',
     ''sig_none ; tlb_z = or.always(r2, r2) ; nop = nop(r0, r0) ;'',
     ''sig_none ; tlb_color_all = or.always(r0, r0) ; nop = nop(r0, r0) ;'',
     ''sig_end ; nop = nop(r0, r0) ; nop = nop(r0, r0) ;'',
     ''sig_none ; nop = nop(r0, r0) ; nop = nop(r0, r0) ;'',
     ''sig_unlock_score ; nop = nop(r0, r0) ; nop = nop(r0, r0) ;'']"

definition clear_fs_asm_code_no_color :: "string list" where
  "clear_fs_asm_code_no_color = [
     ''sig_none ; r0 = or.always(a, a, uni, nop) ; nop = nop(r0, r0) ;'',
     ''sig_none ; r1 = or.always(a, a, uni, nop) ; nop = nop(r0, r0) ;'',
     ''sig_none ; r2 = or.always(a, a, uni, nop) ; nop = nop(r0, r0) ;'',
     ''sig_none ; tlb_stencil_setup = or.always(r1, r1) ; nop = nop(r0, r0) ;'',
     ''sig_none ; tlb_z = or.always(r2, r2) ; nop = nop(r0, r0) ;'',
     ''sig_end ; nop = nop(r0, r0) ; nop = nop(r0, r0) ;'',
     ''sig_none ; nop = nop(r0, r0) ; nop = nop(r0, r0) ;'',
     ''sig_unlock_score ; nop = nop(r0, r0) ; nop = nop(r0, r0) ;'']"

definition bufferToTexture_cs_asm_code :: "string list" where
  "bufferToTexture_cs_asm_code = with_newlines [
     ''sig_small_imm ; r3 = fsub.always(b, a, uni, 0x40000000) ; nop = nop(r0, r0);'',
     ''sig_load_imm ; vr_setup = load32.always(0x00201a00) ; nop = load32.always() ;'',
     ''sig_none ; r2 = or.always(a, a, vpm_read, nop) ; nop = nop(r0, r0);'',
     ''sig_load_imm ; vw_setup = load32.always.ws(0x00001a00) ; nop = load32.always() ;'',
     ''sig_none ; r1 = or.always(a, a, vpm_read, nop) ; vpm = v8min.always(r2, r2);'',
     ''sig_none ; vpm = or.always(r1, r1, uni, nop) ; r2 = fmul.always(r2, a);'',
     ''sig_none ; nop = nop(r0, r0, uni, nop) ; r1 = fmul.always(r1, a);'',
     ''sig_none ; nop = nop(r0, r0) ; r0 = fmul.always(r2, r3);'',
     ''sig_none ; rx0.16a = ftoi.always(r0, r0) ; r1 = fmul.always(r1, r3) ;'',
     ''sig_none ; rx0.16b = ftoi.always(r1, r1) ; nop = nop(r0, r0) ;'',
     ''sig_small_imm ; vpm = or.always(b, b, nop, 0) ; nop = nop(r0, r0) ;'',
     ''sig_small_imm ; vpm = or.always(b, b, nop, 0x3f800000) ; nop = nop(r0, r0) ;'',
     ''sig_none ; vpm = or.always(a, a, ra0, nop) ; nop = nop(r0, r0) ;'',
     ''sig_none ; vpm = or.always(a, a, uni, nop) ; nop = nop(r0, r0) ;'',
     ''sig_none ; vpm = or.always(r3, r3) ; nop = nop(r0, r0) ;'',
     ''sig_end ; nop = nop(r0, r0) ; nop = nop(r0, r0) ;'',
     ''sig_none ; nop = nop(r0, r0) ; nop = nop(r0, r0) ;'',
     ''sig_none ; nop = nop(r0, r0) ; nop = nop(r0, r0) ;'']"

definition bufferToTexture_vs_asm_code :: "string list" where
  "bufferToTexture_vs_asm_code = with_newlines [
     ''sig_small_imm ; rx0 = fsub.ws.always(b, a, uni, 0x40000000) ; nop = nop(r0, r0) ;'',
     ''sig_load_imm ; vr_setup = load32.always(0x00201a00) ; nop = load32.always() ;'',
     ''sig_none ; nop = nop(r0, r0, vpm_read, uni) ; r0 = fmul.always(a, b) ;'',
     ''sig_none ; nop = nop(r0, r0, nop, rb0) ; r1 = fmul.always(r0, b) ;'',
     ''sig_none ; rx0.16a = ftoi.always(r1, r1, vpm_read, uni) ; r2 = fmul.always(a, b) ;'',
     ''sig_none ; nop = nop(r0, r0, nop, rb0) ; r3 = fmul.always(r2, b) ;'',
     ''sig_none ; rx0.16b = ftoi.always(r3, r3) ; nop = nop(r0, r0) ;'',
     ''sig_load_imm ; vw_setup = load32.always.ws(0x00001a00) ; nop = load32.always() ;'',
     ''sig_none ; vpm = or.always(a, a, ra0, nop) ; nop = nop(r0, r0);'',
     ''sig_none ; vpm = or.always(a, a, uni, nop) ; nop = nop(r0, r0);'',
     ''sig_none ; vpm = or.always(b, b, nop, rb0) ; nop = nop(r0, r0);'',
     ''sig_end ; nop = nop(r0, r0) ; nop = nop(r0, r0) ;'',
     ''sig_none ; nop = nop(r0, r0) ; nop = nop(r0, r0) ;'',
     ''sig_none ; nop = nop(r0, r0) ; nop = nop(r0, r0) ;'']"

definition bufferToTexture_blit_fs_asm_code :: "string list" where
  "bufferToTexture_blit_fs_asm_code = [
     ''sig_none ; r2 = or.always(b, b, nop, uni) ; nop = nop(r0, r0) ;'',
     ''sig_none ; r1 = itof.always(b, b, x_pix, y_pix) ; nop = nop(r0, r0) ;'',
     ''sig_none ; r0 = itof.always(a, a, x_pix, y_pix) ; r1 = fmul.always(r1, r2) ;'',
     ''sig_none ; r0 = fadd.always(r0, r1) ; r0 = nop(r0, r0) ;'',
     ''sig_none ; r0 = nop(r0, r0, nop, uni) ; r0 = fmul.always(r0, b) ;'',
     ''sig_small_imm ; nop = nop(r0, r0, nop, 0x3e000000) ; r0 = fmul.always(r0, b) ;'',
     ''sig_none ; r0 = ftoi.always(r0, r0) ; nop = nop(r0, r0) ;'',
     ''sig_small_imm ; r0 = max.always(r0, b, nop, 0) ; nop = nop(r0, r0) ;'',
     ''sig_none ; r0 = min.always(r0, b, nop, uni) ; nop = nop(r0, r0) ;'',
     ''sig_none ; tmu0_s = add.always(r0, b, nop, uni) ; nop = nop(r0, r0) ;'',
     ''sig_thread_switch ; nop = nop(r0, r0) ; nop = nop(r0, r0) ;'',
     ''sig_none ; nop = nop(r0, r0) ; nop = nop(r0, r0) ;'',
     ''sig_none ; nop = nop(r0, r0) ; nop = nop(r0, r0) ;'',
     ''sig_load_tmu0 ; nop = nop(r0, r0) ; nop = nop(r0, r0) ;'',
     ''sig_none ; r0 = fmax.pm.always.8a(r4, r4) ; nop = nop(r0, r0) ;'',
     ''sig_none ; r1 = fmax.pm.always.8b(r4, r4) ; r0.8a = v8min.always(r0, r0) ;'',
     ''sig_none ; r2 = fmax.pm.always.8c(r4, r4) ; r0.8b = v8min.always(r1, r1) ;'',
     ''sig_none ; r3 = fmax.pm.always.8d(r4, r4) ; r0.8c = v8min.always(r2, r2) ;'',
     ''sig_none ; nop = nop.pm(r0, r0) ; r0.8d = v8min.always(r3, r3) ;'',
     ''sig_none ; tlb_color_all = or.always(r0, r0) ; nop = nop(r0, r0) ;'',
     ''sig_end ; nop = nop(r0, r0) ; nop = nop(r0, r0) ;'',
     ''sig_none ; nop = nop(r0, r0) ; nop = nop(r0, r0) ;'',
     ''sig_unlock_score ; nop = nop(r0, r0) ; nop = nop(r0, r0) ;'']"

definition textureToTexture_cs_asm_code :: "string list" where
  "textureToTexture_cs_asm_code = with_newlines [
     ''sig_small_imm ; r3 = fsub.always(b, a, uni, 0x40000000) ; nop = nop(r0, r0);'',
     ''sig_load_imm ; vr_setup = load32.always(0x00201a00) ; nop = load32.always() ;'',
     ''sig_none ; r2 = or.always(a, a, vpm_read, nop) ; nop = nop(r0, r0);'',
     ''sig_load_imm ; vw_setup = load32.always.ws(0x00001a00) ; nop = load32.always() ;'',
     ''sig_none ; r1 = or.always(a, a, vpm_read, nop) ; vpm = v8min.always(r2, r2);'',
     ''sig_none ; vpm = or.always(r1, r1, uni, nop) ; r2 = fmul.always(r2, a);'',
     ''sig_none ; nop = nop(r0, r0, uni, nop) ; r1 = fmul.always(r1, a);'',
     ''sig_none ; nop = nop(r0, r0) ; r0 = fmul.always(r2, r3);'',
     ''sig_none ; rx0.16a = ftoi.always(r0, r0) ; r1 = fmul.always(r1, r3) ;'',
     ''sig_none ; rx0.16b = ftoi.always(r1, r1) ; nop = nop(r0, r0) ;'',
     ''sig_small_imm ; vpm = or.always(b, b, nop, 0) ; nop = nop(r0, r0) ;'',
     ''sig_small_imm ; vpm = or.always(b, b, nop, 0x3f800000) ; nop = nop(r0, r0) ;'',
     ''sig_none ; vpm = or.always(a, a, ra0, nop) ; nop = nop(r0, r0) ;'',
     ''sig_none ; vpm = or.always(a, a, uni, nop) ; nop = nop(r0, r0) ;'',
     ''sig_none ; vpm = or.always(r3, r3) ; nop = nop(r0, r0) ;'',
     ''sig_end ; nop = nop(r0, r0) ; nop = nop(r0, r0) ;'',
     ''sig_none ; nop = nop(r0, r0) ; nop = nop(r0, r0) ;'',
     ''sig_none ; nop = nop(r0, r0) ; nop = nop(r0, r0) ;'']"

definition textureToTexture_vs_asm_code :: "string list" where
  "textureToTexture_vs_asm_code = with_newlines [
     ''sig_small_imm ; rx0 = fsub.ws.always(b, a, uni, 0x40000000) ; nop = nop(r0, r0) ;'',
     ''sig_load_imm ; vr_setup = load32.always(0x00401a00) ; nop = load32.always() ;'',
     ''sig_none ; nop = nop(r0, r0, vpm_read, uni) ; r0 = fmul.always(a, b) ;'',
     ''sig_none ; nop = nop(r0, r0, nop, rb0) ; r1 = fmul.always(r0, b) ;'',
     ''sig_none ; rx0.16a = ftoi.always(r1, r1, vpm_read, uni) ; r2 = fmul.always(a, b) ;'',
     ''sig_none ; r0 = or.always(a, a, vpm_read, rb0) ; r3 = fmul.always(r2, b) ;'',
     ''sig_none ; rx0.16b = ftoi.always(r3, r3, vpm_read, nop) ; r1 = v8min.always(a, a) ;'',
     ''sig_load_imm ; vw_setup = load32.always.ws(0x00001a00) ; nop = load32.always() ;'',
     ''sig_none ; vpm = or.always(a, a, ra0, nop) ; nop = nop(r0, r0);'',
     ''sig_none ; vpm = or.always(a, a, uni, nop) ; nop = nop(r0, r0);'',
     ''sig_none ; vpm = or.always(b, b, nop, rb0) ; nop = nop(r0, r0);'',
     ''sig_none ; vpm = or.always(r0, r0) ; nop = nop(r0, r0);'',
     ''sig_none ; vpm = or.always(r1, r1) ; nop = nop(r0, r0);'',
     ''sig_end ; nop = nop(r0, r0) ; nop = nop(r0, r0) ;'',
     ''sig_none ; nop = nop(r0, r0) ; nop = nop(r0, r0) ;'',
     ''sig_none ; nop = nop(r0, r0) ; nop = nop(r0, r0) ;'']"

definition textureToTexture_sample_fs_asm_code :: "string list" where
  "textureToTexture_sample_fs_asm_code = [
     ''sig_none ; nop = nop(r0, r0, pay_zw, vary) ; r0 = fmul.always(a, b) ;'',
     ''sig_none ; r2 = fadd.always(r0, r5, pay_zw, vary) ; r0 = fmul.always(a, b) ;'',
     ''sig_none ; r3 = fadd.pm.always(r0, r5, nop, uni) ; r0 = v8min.always(b, b) ;'',
     ''sig_none ; nop = nop(r0, r0, nop, uni) ; r2 = fmul.always(r2, b) ;'',
     ''sig_none ; nop = nop(r0, r0, nop, uni) ; r3 = fmul.always(r3, b) ;'',
     ''sig_none ; r2 = fadd.always(r2, b, nop, uni) ; nop = nop(r0, r0) ;'',
     ''sig_none ; r3 = fadd.always(r3, b, nop, uni) ; nop = nop(r0, r0) ;'',
     ''sig_none ; tmu0_b = or.always(r0, r0) ; nop = nop(r0, r0) ;'',
     ''sig_none ; tmu0_t = or.always(r3, r3) ; nop = nop(r0, r0) ;'',
     ''sig_none ; tmu0_s = or.always(r2, r2) ; nop = nop(r0, r0) ;'',
     ''sig_thread_switch ; nop = nop(r0, r0) ; nop = nop(r0, r0) ;'',
     ''sig_none ; nop = nop(r0, r0) ; nop = nop(r0, r0) ;'',
     ''sig_none ; nop = nop(r0, r0) ; nop = nop(r0, r0) ;'',
     ''sig_load_tmu0 ; nop = nop(r0, r0) ; nop = nop(r0, r0) ;'',
     ''sig_none ; r0 = fmax.pm.always.8a(r4, r4) ; nop = nop(r0, r0) ;'',
     ''sig_none ; r1 = fmax.pm.always.8b(r4, r4) ; r0.8a = v8min.always(r0, r0) ;'',
     ''sig_none ; r2 = fmax.pm.always.8c(r4, r4) ; r0.8b = v8min.always(r1, r1) ;'',
     ''sig_none ; r3 = fmax.pm.always.8d(r4, r4) ; r0.8c = v8min.always(r2, r2) ;'',
     ''sig_none ; nop = nop.pm(r0, r0) ; r0.8d = v8min.always(r3, r3) ;'',
     ''sig_none ; tlb_color_all = or.always(r0, r0) ; nop = nop(r0, r0) ;'',
     ''sig_end ; nop = nop(r0, r0) ; nop = nop(r0, r0) ;'',
     ''sig_none ; nop = nop(r0, r0) ; nop = nop(r0, r0) ;'',
     ''sig_unlock_score ; nop = nop(r0, r0) ; nop = nop(r0, r0) ;'']"

subsection \<open>The instructions\<close>

definition assembles_to :: "string list \<Rightarrow> u64 list \<Rightarrow> bool" where
  "assembles_to ss ws \<longleftrightarrow> list_all2 (\<lambda>s w. line_word s = Some w) ss ws"

lemma assembles_split:
  "assembles_to (take n ss) (take n ws) \<Longrightarrow> assembles_to (drop n ss) (drop n ws) \<Longrightarrow> assembles_to ss ws"
  unfolding assembles_to_def by (metis append_take_drop_id list_all2_appendI)

definition clear_cs_words :: "u64 list" where
  "clear_cs_words = [
     0xd00208e702821f80, 0xe0024c6700201a00, 0x100208a715c27d80, 0xe0025c6700001a00, 0x1002487095c27d92,
     0x10024c2235827256, 0x100049e12082700e, 0x100049e0209e7013, 0x10124021279e700b, 0x10220027079e7240,
     0xd0020c27159c0fc0, 0xd0020c27159e0fc0, 0x10020c2715027d80, 0x10020c2715827d80, 0x10020c27159e76c0,
     0x300009e7009e7000, 0x100009e7009e7000, 0x100009e7009e7000]"

definition clear_vs_words :: "u64 list" where
  "clear_vs_words = [
     0xd002102702821f80, 0xe0024c6700201a00, 0x100049e020c20037, 0x100049e1209c0007, 0x1012402227c20277,
     0x100049e3209c0017, 0x10220027079e76c0, 0xe0025c6700001a00, 0x10020c2715027d80, 0x10020c2715827d80,
     0x10020c27159c0fc0, 0x300009e7009e7000, 0x100009e7009e7000, 0x100009e7009e7000]"

definition clear_fs_words :: "u64 list" where
  "clear_fs_words = [
     0x1002082715827d80, 0x1002086715827d80, 0x100208a715827d80, 0x10020ae7159e7240, 0x10020b27159e7480,
     0x10020ba7159e7000, 0x300009e7009e7000, 0x100009e7009e7000, 0x500009e7009e7000]"

definition clear_fs_words_no_color :: "u64 list" where
  "clear_fs_words_no_color = [
     0x1002082715827d80, 0x1002086715827d80, 0x100208a715827d80, 0x10020ae7159e7240, 0x10020b27159e7480,
     0x300009e7009e7000, 0x100009e7009e7000, 0x500009e7009e7000]"

definition bufferToTexture_blit_fs_words :: "u64 list" where
  "bufferToTexture_blit_fs_words = [
     0x100208a7159e0fc0, 0x1002086708a69fc0, 0x1002482128a69d8a, 0x10020820019e7040, 0x10004820209e0007,
     0xd00049e0209ed007, 0x10020827079e7000, 0xd0020827139c01c0, 0x10020827129e01c0, 0x10020e270c9e01c0,
     0x200009e7009e7000, 0x100009e7009e7000, 0x100009e7009e7000, 0xa00009e7009e7000, 0x19020827049e7900,
     0x1b424860849e7900, 0x1d5248a0849e7909, 0x1f6248e0849e7912, 0x117049e0809e701b, 0x10020ba7159e7000,
     0x300009e7009e7000, 0x100009e7009e7000, 0x500009e7009e7000]"

definition textureToTexture_vs_words :: "u64 list" where
  "textureToTexture_vs_words = [
     0xd002102702821f80, 0xe0024c6700401a00, 0x100049e020c20037, 0x100049e1209c0007, 0x1012402227c20277,
     0x1002482335c00d97, 0x1022402187c276f6, 0xe0025c6700001a00, 0x10020c2715027d80, 0x10020c2715827d80,
     0x10020c27159c0fc0, 0x10020c27159e7000, 0x10020c27159e7240, 0x300009e7009e7000, 0x100009e7009e7000,
     0x100009e7009e7000]"

definition textureToTexture_sample_fs_words :: "u64 list" where
  "textureToTexture_sample_fs_words = [
     0x100049e0203e3037, 0x100248a0213e3177, 0x110248e0819e017f, 0x100049e2209e0017, 0x100049e3209e001f,
     0x100208a7019e05c0, 0x100208e7019e07c0, 0x10020ee7159e7000, 0x10020e67159e76c0, 0x10020e27159e7480,
     0x200009e7009e7000, 0x100009e7009e7000, 0x100009e7009e7000, 0xa00009e7009e7000, 0x19020827049e7900,
     0x1b424860849e7900, 0x1d5248a0849e7909, 0x1f6248e0849e7912, 0x117049e0809e701b, 0x10020ba7159e7000,
     0x300009e7009e7000, 0x100009e7009e7000, 0x500009e7009e7000]"

lemma clear_cs_asm_code_word_1: "assembles_to (take 6 clear_cs_asm_code) (take 6 clear_cs_words)"
  by code_simp

lemma clear_cs_asm_code_word_2: "assembles_to (take 6 (drop 6 clear_cs_asm_code)) (take 6 (drop 6 clear_cs_words))"
  by code_simp

lemma clear_cs_asm_code_word_3: "assembles_to (drop 12 clear_cs_asm_code) (drop 12 clear_cs_words)"
  by code_simp

lemma clear_cs_asm_code_word: "assembles_to clear_cs_asm_code clear_cs_words"
  by (rule assembles_split [OF clear_cs_asm_code_word_1], rule assembles_split [OF clear_cs_asm_code_word_2], simp only: drop_drop)
    (use clear_cs_asm_code_word_3 in simp)

lemma clear_vs_asm_code_word_1: "assembles_to (take 7 clear_vs_asm_code) (take 7 clear_vs_words)"
  by code_simp

lemma clear_vs_asm_code_word_2: "assembles_to (drop 7 clear_vs_asm_code) (drop 7 clear_vs_words)"
  by code_simp

lemmas clear_vs_asm_code_word = assembles_split [OF clear_vs_asm_code_word_1 clear_vs_asm_code_word_2]

lemma clear_fs_asm_code_word_1: "assembles_to (take 5 clear_fs_asm_code) (take 5 clear_fs_words)"
  by code_simp

lemma clear_fs_asm_code_word_2: "assembles_to (drop 5 clear_fs_asm_code) (drop 5 clear_fs_words)"
  by code_simp

lemmas clear_fs_asm_code_word = assembles_split [OF clear_fs_asm_code_word_1 clear_fs_asm_code_word_2]

lemma clear_fs_asm_code_no_color_word: "assembles_to clear_fs_asm_code_no_color clear_fs_words_no_color"
  by code_simp

lemma bufferToTexture_cs_asm_code_word: "assembles_to bufferToTexture_cs_asm_code clear_cs_words"
  using clear_cs_asm_code_word by (simp only: bufferToTexture_cs_asm_code_def clear_cs_asm_code_def)

lemma bufferToTexture_vs_asm_code_word: "assembles_to bufferToTexture_vs_asm_code clear_vs_words"
  using clear_vs_asm_code_word by (simp only: bufferToTexture_vs_asm_code_def clear_vs_asm_code_def)

lemma bufferToTexture_blit_fs_asm_code_word_1: "assembles_to (take 8 bufferToTexture_blit_fs_asm_code) (take 8 bufferToTexture_blit_fs_words)"
  by code_simp

lemma bufferToTexture_blit_fs_asm_code_word_2: "assembles_to (take 8 (drop 8 bufferToTexture_blit_fs_asm_code)) (take 8 (drop 8 bufferToTexture_blit_fs_words))"
  by code_simp

lemma bufferToTexture_blit_fs_asm_code_word_3: "assembles_to (drop 16 bufferToTexture_blit_fs_asm_code) (drop 16 bufferToTexture_blit_fs_words)"
  by code_simp

lemma bufferToTexture_blit_fs_asm_code_word: "assembles_to bufferToTexture_blit_fs_asm_code bufferToTexture_blit_fs_words"
  by (rule assembles_split [OF bufferToTexture_blit_fs_asm_code_word_1], rule assembles_split [OF bufferToTexture_blit_fs_asm_code_word_2], simp only: drop_drop)
    (use bufferToTexture_blit_fs_asm_code_word_3 in simp)

lemma textureToTexture_cs_asm_code_word: "assembles_to textureToTexture_cs_asm_code clear_cs_words"
  using clear_cs_asm_code_word by (simp only: textureToTexture_cs_asm_code_def clear_cs_asm_code_def)

lemma textureToTexture_vs_asm_code_word_1: "assembles_to (take 8 textureToTexture_vs_asm_code) (take 8 textureToTexture_vs_words)"
  by code_simp

lemma textureToTexture_vs_asm_code_word_2: "assembles_to (drop 8 textureToTexture_vs_asm_code) (drop 8 textureToTexture_vs_words)"
  by code_simp

lemmas textureToTexture_vs_asm_code_word = assembles_split [OF textureToTexture_vs_asm_code_word_1 textureToTexture_vs_asm_code_word_2]

lemma textureToTexture_sample_fs_asm_code_word_1: "assembles_to (take 8 textureToTexture_sample_fs_asm_code) (take 8 textureToTexture_sample_fs_words)"
  by code_simp

lemma textureToTexture_sample_fs_asm_code_word_2: "assembles_to (take 8 (drop 8 textureToTexture_sample_fs_asm_code)) (take 8 (drop 8 textureToTexture_sample_fs_words))"
  by code_simp

lemma textureToTexture_sample_fs_asm_code_word_3: "assembles_to (drop 16 textureToTexture_sample_fs_asm_code) (drop 16 textureToTexture_sample_fs_words)"
  by code_simp

lemma textureToTexture_sample_fs_asm_code_word: "assembles_to textureToTexture_sample_fs_asm_code textureToTexture_sample_fs_words"
  by (rule assembles_split [OF textureToTexture_sample_fs_asm_code_word_1], rule assembles_split [OF textureToTexture_sample_fs_asm_code_word_2], simp only: drop_drop)
    (use textureToTexture_sample_fs_asm_code_word_3 in simp)

end
