(* ===== verification/Builtin_Modules.thy ===== *)
theory Builtin_Modules
  imports Builtin_Programs Draw
begin

text \<open>
  The shader modules of the driver's own programs: \<open>createClearShaderModule\<close> (driver/stateChange.c),
  \<open>createBufferToTextureShaderModule\<close> and \<open>createTextureToTextureShaderModule\<close> (driver/copy.c).  The
  texts are assembled into buffers whose size comes from the count of instructions, and handed to
  \<open>vkCreateShaderModule\<close> with the mappings of their uniforms.  The main theorem says that the modules
  pass the checks that a draw makes on the modules of its pipeline.
\<close>

unbundle bit_operations_syntax

subsection \<open>Assembling a stage\<close>

text \<open>
  The number of instructions and the instructions, which have to fit the buffer at \<open>p\<close> that
  \<open>malloc\<close> returned for them.
\<close>

definition assemble_stage :: "addr \<Rightarrow> string list \<Rightarrow> (addr \<times> u32 \<times> u64 list) option" where
  "assemble_stage p ss = (let n = get_num_instructions (takeWhile (\<lambda>c. c \<noteq> NUL) (asm_code ss)) in
     if p = NULL then None
     else do {
       is \<leftarrow> assemble_qpu_asm (asm_code ss);
       if 8 * length is \<le> unat (8 * n) then Some (p, n, is) else None })"

subsection \<open>The mappings\<close>

definition push_constant :: "u32 \<Rightarrow> VkRpiAssemblyMappingEXT" where
  "push_constant offset = \<lparr>am_mappingType = VK_RPI_ASSEMBLY_MAPPING_TYPE_PUSH_CONSTANT,
     am_descriptorType = VK_DESCRIPTOR_TYPE_other 0x7fffffff, am_descriptorSet = 0, am_descriptorBinding = 0,
     am_descriptorArrayElement = 0, am_resourceOffset = offset\<rparr>"

definition first_descriptor :: "VkDescriptorType \<Rightarrow> VkRpiAssemblyMappingEXT" where
  "first_descriptor t = \<lparr>am_mappingType = VK_RPI_ASSEMBLY_MAPPING_TYPE_DESCRIPTOR,
     am_descriptorType = t, am_descriptorSet = 0, am_descriptorBinding = 0,
     am_descriptorArrayElement = 0, am_resourceOffset = 0\<rparr>"

definition vertexMappings :: "VkRpiAssemblyMappingEXT list" where
  "vertexMappings = map push_constant [0, 4, 8, 12]"

definition clear_fragmentMappings :: "VkRpiAssemblyMappingEXT list" where
  "clear_fragmentMappings = map push_constant [0, 4, 8]"

definition bufferToTexture_fragmentMappings :: "VkRpiAssemblyMappingEXT list" where
  "bufferToTexture_fragmentMappings =
     first_descriptor VK_DESCRIPTOR_TYPE_STORAGE_TEXEL_BUFFER # map push_constant [0, 4, 8, 12]"

definition textureToTexture_fragmentMappings :: "VkRpiAssemblyMappingEXT list" where
  "textureToTexture_fragmentMappings =
     map push_constant [0, 4, 8, 12, 16] @ [first_descriptor VK_DESCRIPTOR_TYPE_COMBINED_IMAGE_SAMPLER]"

subsection \<open>The modules\<close>

text \<open>The coordinate and the compute stage have no mappings, the latter no program either.\<close>

definition builtin_info ::
  "(addr \<times> u32 \<times> u64 list) list \<Rightarrow> VkRpiAssemblyMappingEXT list \<Rightarrow> VkRpiAssemblyMappingEXT list \<Rightarrow>
    VkRpiShaderModuleAssemblyCreateInfoEXT" where
  "builtin_info stages vertex fragment = \<lparr>
     sa_instructions = map (\<lambda>(p, n, is). Some (p, is)) stages @ [None],
     sa_numInstructions = map (\<lambda>(p, n, is). n) stages @ [0],
     sa_mappings = [[], vertex, fragment, []],
     sa_numMappings = Some [0, of_nat (length vertex), of_nat (length fragment), 0]\<rparr>"

text \<open>The words of the code; \<open>cip\<close> is the address of the create info.\<close>

definition builtin_spirv :: "addr \<Rightarrow> u32 list" where
  "builtin_spirv cip = [0x07230203, 0x00010000, 0x14E45250, 1, cip, push_bit 16 1]"

definition createBufferToTextureShaderModule ::
  "'k kernel \<Rightarrow> addr \<Rightarrow> addr \<times> addr \<times> addr \<Rightarrow> bool list \<Rightarrow> 'k \<Rightarrow> ('k \<times> VkResult \<times> shaderModule option) option" where
  "createBufferToTextureShaderModule K cip ptrs allocs k = (let (p, q, r) = ptrs in do {
     cs \<leftarrow> assemble_stage p bufferToTexture_cs_asm_code;
     vs \<leftarrow> assemble_stage q bufferToTexture_vs_asm_code;
     fs \<leftarrow> assemble_stage r bufferToTexture_blit_fs_asm_code;
     vkCreateShaderModule K [cip \<mapsto> builtin_info [cs, vs, fs] vertexMappings bufferToTexture_fragmentMappings]
       (builtin_spirv cip) allocs k })"

definition createTextureToTextureShaderModule ::
  "'k kernel \<Rightarrow> addr \<Rightarrow> addr \<times> addr \<times> addr \<Rightarrow> bool list \<Rightarrow> 'k \<Rightarrow> ('k \<times> VkResult \<times> shaderModule option) option" where
  "createTextureToTextureShaderModule K cip ptrs allocs k = (let (p, q, r) = ptrs in do {
     cs \<leftarrow> assemble_stage p textureToTexture_cs_asm_code;
     vs \<leftarrow> assemble_stage q textureToTexture_vs_asm_code;
     fs \<leftarrow> assemble_stage r textureToTexture_sample_fs_asm_code;
     vkCreateShaderModule K [cip \<mapsto> builtin_info [cs, vs, fs] vertexMappings textureToTexture_fragmentMappings]
       (builtin_spirv cip) allocs k })"

text \<open>Two modules with the same vertex and coordinate programs; \<open>s\<close> is the buffer that replaces \<open>r\<close>.\<close>

definition createClearShaderModule ::
  "'k kernel \<Rightarrow> addr \<Rightarrow> addr \<times> addr \<times> addr \<times> addr \<Rightarrow> bool list \<Rightarrow> bool list \<Rightarrow> 'k \<Rightarrow>
    ('k \<times> (VkResult \<times> shaderModule option) \<times> (VkResult \<times> shaderModule option)) option" where
  "createClearShaderModule K cip ptrs allocs allocs' k = (let (p, q, r, s) = ptrs in do {
     cs \<leftarrow> assemble_stage p clear_cs_asm_code;
     vs \<leftarrow> assemble_stage q clear_vs_asm_code;
     fs \<leftarrow> assemble_stage r clear_fs_asm_code;
     (k, blitShaderModule) \<leftarrow> vkCreateShaderModule K
       [cip \<mapsto> builtin_info [cs, vs, fs] vertexMappings clear_fragmentMappings] (builtin_spirv cip) allocs k;
     fs' \<leftarrow> assemble_stage s clear_fs_asm_code_no_color;
     (k, blitShaderModuleNoColor) \<leftarrow> vkCreateShaderModule K
       [cip \<mapsto> builtin_info [cs, vs, fs'] vertexMappings clear_fragmentMappings] (builtin_spirv cip) allocs' k;
     Some (k, blitShaderModule, blitShaderModuleNoColor) })"

subsection \<open>What a draw checks\<close>

text \<open>
  The assertions of \<open>drawCommon\<close> about the modules of the vertex and the fragment shader and the
  attributes of the pipeline.
\<close>

definition push_reads :: "VkRpiAssemblyMappingEXT list \<Rightarrow> u32" where
  "push_reads ms = of_nat (length (filter (\<lambda>mp. am_mappingType mp = VK_RPI_ASSEMBLY_MAPPING_TYPE_PUSH_CONSTANT) ms))"

definition descriptor_reads :: "VkRpiAssemblyMappingEXT list \<Rightarrow> u32" where
  "descriptor_reads ms = of_nat (length (filter (\<lambda>mp. am_mappingType mp = VK_RPI_ASSEMBLY_MAPPING_TYPE_DESCRIPTOR) ms))"

definition attribute_checks :: "shaderModule \<Rightarrow> VkVertexInputAttributeDescription list \<Rightarrow> bool" where
  "attribute_checks vertModule as \<longleftrightarrow>
     sm_numVertVPMreads vertModule = drop_bit 2 (vertex_attrib_size as) \<and>
     sm_numCoordVPMreads vertModule = drop_bit 2 (coord_attrib_size as)"

definition varying_checks :: "shaderModule \<Rightarrow> shaderModule \<Rightarrow> bool" where
  "varying_checks vertModule fragModule \<longleftrightarrow>
     sm_numVertVPMwrites vertModule - 3 = sm_numVaryings fragModule \<and> sm_numCoordVPMwrites vertModule = 7"

definition texture_check :: "shaderModule \<Rightarrow> bool" where
  "texture_check fragModule \<longleftrightarrow>
     descriptor_reads (sm_mappings fragModule ! VK_RPI_ASSEMBLY_TYPE_FRAGMENT) = sm_numTextureSamples fragModule"

definition vertex_uniform_check :: "shaderModule \<Rightarrow> bool" where
  "vertex_uniform_check vertModule \<longleftrightarrow>
     push_reads (sm_mappings vertModule ! VK_RPI_ASSEMBLY_TYPE_VERTEX) = sm_numVertUniformReads vertModule"

definition coord_uniform_check :: "shaderModule \<Rightarrow> bool" where
  "coord_uniform_check vertModule \<longleftrightarrow>
     push_reads (sm_mappings vertModule ! (if sm_mappings vertModule ! VK_RPI_ASSEMBLY_TYPE_COORDINATE = []
       then VK_RPI_ASSEMBLY_TYPE_VERTEX else VK_RPI_ASSEMBLY_TYPE_COORDINATE)) = sm_numCoordUniformReads vertModule"

definition draw_checks :: "shaderModule \<Rightarrow> shaderModule \<Rightarrow> VkVertexInputAttributeDescription list \<Rightarrow> bool" where
  "draw_checks vertModule fragModule as \<longleftrightarrow> attribute_checks vertModule as \<and> varying_checks vertModule fragModule \<and>
     texture_check fragModule \<and> vertex_uniform_check vertModule \<and> coord_uniform_check vertModule"

lemmas draw_checks_defs = draw_checks_def attribute_checks_def varying_checks_def texture_check_def
  vertex_uniform_check_def coord_uniform_check_def

text \<open>
  The words that a draw writes for the fragment shader: the index of a buffer and a push constant are
  one, a texture has \<open>n\<close> more.
\<close>

definition fragment_words :: "u32 \<Rightarrow> VkRpiAssemblyMappingEXT list \<Rightarrow> u32" where
  "fragment_words n ms = sum_list (map (\<lambda>mp. case am_mappingType mp of
     VK_RPI_ASSEMBLY_MAPPING_TYPE_PUSH_CONSTANT \<Rightarrow> 1
   | VK_RPI_ASSEMBLY_MAPPING_TYPE_DESCRIPTOR \<Rightarrow> if mapped_image_type (am_descriptorType mp) then 1 + n else 1) ms)"

text \<open>The vertex attributes of the pipelines that draw the fullscreen quad.\<close>

definition emul_attributes :: "u32 \<Rightarrow> VkVertexInputAttributeDescription list" where
  "emul_attributes needTexcoords =
     \<lparr>va_location = 0, va_binding = 0, va_format = VK_FORMAT_R32G32 SFLOAT, va_offset = 0\<rparr> #
     (if needTexcoords = 0 then []
      else [\<lparr>va_location = 1, va_binding = 0, va_format = VK_FORMAT_R32G32 SFLOAT, va_offset = 4 * 2\<rparr>])"


subsection \<open>The analysis of a module\<close>

text \<open>The analysis only counts; the buffer objects and the mappings pass through it.\<close>

definition place :: "u32 list \<Rightarrow> u32 list \<Rightarrow> VkRpiAssemblyMappingEXT list list \<Rightarrow> shaderModule \<Rightarrow> shaderModule" where
  "place bos szs ms s = s\<lparr>sm_bos := bos, sm_sizes := szs, sm_mappings := ms\<rparr>"

lemma count_place:
  assumes "\<And>g s. upd g (place b z m s) = place b z m (upd g s)"
  shows "count c upd (place b z m s) = place b z m (count c upd s)"
  using assms by (simp add: count_def)

lemma count_stage_place:
  assumes "\<And>g s. upd g (place b z m s) = place b z m (upd g s)" "\<And>g s. upd' g (place b z m s) = place b z m (upd' g s)"
  shows "count_stage i c upd upd' (place b z m s) = place b z m (count_stage i c upd upd' s)"
  using assms by (simp add: count_stage_def count_place)

lemma place_updates [simp]:
  "sm_hasThreadSwitch_update g (place b z m s) = place b z m (sm_hasThreadSwitch_update g s)"
  "sm_numTextureSamples_update g (place b z m s) = place b z m (sm_numTextureSamples_update g s)"
  "sm_numVaryings_update g (place b z m s) = place b z m (sm_numVaryings_update g s)"
  "sm_numFragUniformReads_update g (place b z m s) = place b z m (sm_numFragUniformReads_update g s)"
  "sm_numVertUniformReads_update g (place b z m s) = place b z m (sm_numVertUniformReads_update g s)"
  "sm_numCoordUniformReads_update g (place b z m s) = place b z m (sm_numCoordUniformReads_update g s)"
  "sm_numVertVPMreads_update g (place b z m s) = place b z m (sm_numVertVPMreads_update g s)"
  "sm_numCoordVPMreads_update g (place b z m s) = place b z m (sm_numCoordVPMreads_update g s)"
  "sm_numVertVPMwrites_update g (place b z m s) = place b z m (sm_numVertVPMwrites_update g s)"
  "sm_numCoordVPMwrites_update g (place b z m s) = place b z m (sm_numCoordVPMwrites_update g s)"
  "sm_numFragCycles_update g (place b z m s) = place b z m (sm_numFragCycles_update g s)"
  "sm_numVertCycles_update g (place b z m s) = place b z m (sm_numVertCycles_update g s)"
  "sm_numCoordCycles_update g (place b z m s) = place b z m (sm_numCoordCycles_update g s)"
  "sm_numFragALUcycles_update g (place b z m s) = place b z m (sm_numFragALUcycles_update g s)"
  "sm_numVertALUcycles_update g (place b z m s) = place b z m (sm_numVertALUcycles_update g s)"
  "sm_numCoordALUcycles_update g (place b z m s) = place b z m (sm_numCoordALUcycles_update g s)"
  "sm_numEmptyFragALUinstructions_update g (place b z m s) = place b z m (sm_numEmptyFragALUinstructions_update g s)"
  "sm_numEmptyVertALUinstructions_update g (place b z m s) = place b z m (sm_numEmptyVertALUinstructions_update g s)"
  "sm_numEmptyCoordALUinstructions_update g (place b z m s) = place b z m (sm_numEmptyCoordALUinstructions_update g s)"
  "sm_numFragBranches_update g (place b z m s) = place b z m (sm_numFragBranches_update g s)"
  "sm_numVertBranches_update g (place b z m s) = place b z m (sm_numVertBranches_update g s)"
  "sm_numCoordBranches_update g (place b z m s) = place b z m (sm_numCoordBranches_update g s)"
  "sm_numFragSFUoperations_update g (place b z m s) = place b z m (sm_numFragSFUoperations_update g s)"
  "sm_numVertSFUoperations_update g (place b z m s) = place b z m (sm_numVertSFUoperations_update g s)"
  "sm_numCoordSFUoperations_update g (place b z m s) = place b z m (sm_numCoordSFUoperations_update g s)"
  by (simp_all add: place_def)

lemma if_place: "(if c then place b z m s else place b z m t) = place b z m (if c then s else t)"
  by simp

lemma vert_step_place: "vert_step c i (place b z m s) = place b z m (vert_step c i s)"
  by (simp add: vert_step_def Let_def count_stage_place if_place)

lemma frag_step_place:
  "frag_step i (place b z m s, n) = (place b z m (fst (frag_step i (s, n))), snd (frag_step i (s, n)))"
  by (simp add: frag_step_def Let_def count_place if_place)

lemma frag_fold_place:
  "fold frag_step is (place b z m s, n) = (place b z m (fst (fold frag_step is (s, n))), snd (fold frag_step is (s, n)))"
  by (induction "is" arbitrary: s n) (simp_all add: frag_step_place)

lemma vert_fold_place: "fold (vert_step c) is (place b z m s) = place b z m (fold (vert_step c) is s)"
  by (induction "is" arbitrary: s) (simp_all add: vert_step_place)

lemma place_reads: "sm_numFragUniformReads (place b z m s) = sm_numFragUniformReads s"
  by (simp add: place_def)

lemma analyse_place: "analyse c is (place b z m s) = place b z m (analyse c is s)"
  by (simp add: analyse_def analyse_fragment_def set_cycles_def Let_def vert_fold_place frag_fold_place if_place
      place_reads split: prod.splits)

text \<open>A stage that has a program.\<close>

lemma alloc_shader_defined: "\<exists>k' bo z. vc4_bo_alloc_shader K k p n = Some (k', bo, z)"
  by (auto simp: vc4_bo_alloc_shader_def getBOAlignedSize_def align_def split: prod.splits)

lemma stage_program_some:
  assumes "elem_at (sa_instructions ci) (of_nat c) = Some (Some (p, is))"
    "elem_at (sa_numInstructions ci) (of_nat c) = Some (of_nat (length is))" "length is < 2 ^ 32"
  shows "\<exists>k' bo sz. stage_program K ci c (k, place b z m s) = Some (k', place (b @ [bo]) (z @ [sz]) m (analyse c is s))"
proof -
  have n: "unat (of_nat (length is) :: u32) = length is" using assms(3) by (simp add: unat_of_nat_u32)
  obtain k' bo sz where "vc4_bo_alloc_shader K k p (of_nat (length is) * 8) = Some (k', bo, sz)"
    using alloc_shader_defined [of K k p "of_nat (length is) * 8"] by auto
  then have "stage_program K ci c (k, place b z m s) =
      Some (k', (place b z m (analyse c is s))\<lparr>sm_bos := b @ [bo], sm_sizes := z @ [sz]\<rparr>)"
    using assms(1,2) by (simp add: stage_program_def n analyse_place) (simp add: place_def)
  moreover have "(place b z m x)\<lparr>sm_bos := b @ [bo], sm_sizes := z @ [sz]\<rparr> = place (b @ [bo]) (z @ [sz]) m x" for x
    by (simp add: place_def)
  ultimately show ?thesis by auto
qed

lemma place_empty: "place [] [] [] empty_module = empty_module"
  by (simp add: place_def empty_module_def)

lemma place_place: "place b z m (place b' z' m' s) = place b z m s"
  by (simp add: place_def)

definition built ::
  "u64 list \<Rightarrow> u64 list \<Rightarrow> u64 list \<Rightarrow> VkRpiAssemblyMappingEXT list \<Rightarrow> VkRpiAssemblyMappingEXT list \<Rightarrow>
    u32 list \<Rightarrow> u32 list \<Rightarrow> shaderModule" where
  "built cs vs fs vertex fragment bos szs = place bos szs [[], vertex, fragment, []]
     (analyse 3 [] (analyse 2 fs (analyse 1 vs (analyse 0 cs empty_module))))"

lemma analyse_3: "analyse 3 [] s = s"
  by (simp add: analyse_def set_cycles_def stage_defs)

lemma create_builtin:
  assumes "length cs < 2 ^ 32" "length vs < 2 ^ 32" "length fs < 2 ^ 32"
    "0 < length vertex" "length vertex < 2 ^ 32" "0 < length fragment" "length fragment < 2 ^ 32"
  shows "\<exists>k' bos szs. vkCreateShaderModule K [cip \<mapsto> builtin_info [(p, of_nat (length cs), cs),
      (q, of_nat (length vs), vs), (r, of_nat (length fs), fs)] vertex fragment] (builtin_spirv cip) [True, True, True] k =
    Some (k', VK_SUCCESS, Some (built cs vs fs vertex fragment bos szs))"
proof -
  let ?ci = "builtin_info [(p, of_nat (length cs), cs), (q, of_nat (length vs), vs), (r, of_nat (length fs), fs)] vertex fragment"
  have ci: "sa_instructions ?ci = [Some (p, cs), Some (q, vs), Some (r, fs), None]"
    "sa_numInstructions ?ci = [of_nat (length cs), of_nat (length vs), of_nat (length fs), 0]"
    "sa_mappings ?ci = [[], vertex, fragment, []]"
    "sa_numMappings ?ci = Some [0, of_nat (length vertex), of_nat (length fragment), 0]"
    by (simp_all add: builtin_info_def)
  obtain k1 b1 z1 where 1: "stage_program K ?ci 0 (k, place [] [] [] empty_module) =
      Some (k1, place [b1] [z1] [] (analyse 0 cs empty_module))"
    using stage_program_some [of ?ci 0 p cs K k "[]" "[]" "[]" empty_module] assms(1) by (auto simp: ci elem_at_def)
  let ?s1 = "analyse 0 cs empty_module"
  obtain k2 b2 z2 where 2: "stage_program K ?ci 1 (k1, place [b1] [z1] [[]] ?s1) =
      Some (k2, place [b1, b2] [z1, z2] [[]] (analyse 1 vs ?s1))"
    using stage_program_some [of ?ci 1 q vs K k1 "[b1]" "[z1]" "[[]]" ?s1] assms(2) by (auto simp: ci elem_at_def)
  let ?s2 = "analyse 1 vs ?s1"
  obtain k3 b3 z3 where 3: "stage_program K ?ci 2 (k2, place [b1, b2] [z1, z2] [[], vertex] ?s2) =
      Some (k3, place [b1, b2, b3] [z1, z2, z3] [[], vertex] (analyse 2 fs ?s2))"
    using stage_program_some [of ?ci 2 r fs K k2 "[b1, b2]" "[z1, z2]" "[[], vertex]" ?s2] assms(3) by (auto simp: ci elem_at_def)
  have 4: "stage_program K ?ci 3 (k3, place [b1, b2, b3] [z1, z2, z3] ms s) =
      Some (k3, place [b1, b2, b3, 0] [z1, z2, z3, 0] ms s)" for ms s
    by (simp add: stage_program_def ci elem_at_def place_def)
  have "(of_nat (length vertex) :: u32) \<noteq> 0" "(of_nat (length fragment) :: u32) \<noteq> 0"
    using assms(4-7) by (metis unat_of_nat_u32 unat_0 less_irrefl)+
  then have mappings: "stage_mappings ?ci 0 as = Some (as, Some [])" "stage_mappings ?ci 3 as = Some (as, Some [])"
    "stage_mappings ?ci 1 (True # as) = Some (as, Some vertex)" "stage_mappings ?ci 2 (True # as) = Some (as, Some fragment)" for as
    using assms(4-7) by (simp_all add: stage_mappings_def ci elem_at_def alloc_copy_def unat_of_nat_u32 word_greater_zero_iff)
  have upd: "(place b z m s)\<lparr>sm_mappings := sm_mappings (place b z m s) @ [ms]\<rparr> = place b z (m @ [ms]) s" for b z m s ms
    by (simp add: place_def)
  have stages: "[0..<VK_RPI_ASSEMBLY_TYPE_MAX] = [0, 1, 2, 3]" by (simp add: VK_RPI_ASSEMBLY_TYPE_MAX_def upt_rec)
  have all: "create_stages K ?ci [0, 1, 2, 3] [True, True] (k, place [] [] [] empty_module) =
      Some (k3, Some (built cs vs fs vertex fragment [b1, b2, b3, 0] [z1, z2, z3, 0]))"
    by (simp add: 1 2 3 4 mappings upd built_def analyse_3 del: One_nat_def)
  show ?thesis
    by (simp add: vkCreateShaderModule_def builtin_spirv_def elem_at_def stages all [unfolded place_empty]
        del: create_stages.simps One_nat_def) blast
qed

lemma assemble_stage_words:
  assumes "assembles_to ss ws" "p \<noteq> NULL" "8 * length ws < 2 ^ 32"
  shows "assemble_stage p ss = Some (p, of_nat (length ws), ws)"
proof -
  have "unat (8 * of_nat (length ws) :: u32) = 8 * length ws"
    using assms(3) unat_of_nat_u32 [of "8 * length ws"] by simp
  then show ?thesis
    using assemble_asm_code [OF assms(1) [unfolded assembles_to_def]] assms(2) by (simp add: assemble_stage_def)
qed

text \<open>A step on the fields of its instruction, so that they are evaluated once.\<close>

definition frag_fields :: "bool \<Rightarrow> u64 \<Rightarrow> u64 \<Rightarrow> u64 \<Rightarrow> u64 \<Rightarrow> u64 \<Rightarrow> shaderModule \<times> u32 \<Rightarrow> shaderModule \<times> u32" where
  "frag_fields sem sg wa wm ra rb st = (let (s, numTMUwrites) = st;
     s = count (is_sfu (wa)) sm_numFragSFUoperations_update s;
     s = count (is_sfu (wm)) sm_numFragSFUoperations_update s;
     numTMUwrites = numTMUwrites + of_bool (is_tmu (wa)) + of_bool (is_tmu (wm));
     sample = (\<not> sem \<and> (sg = QPU_SIG_LOAD_TMU0 \<or> sg = QPU_SIG_LOAD_TMU1));
     s = count sample sm_numTextureSamples_update s;
     s = count sample sm_numFragUniformReads_update s
   in if (\<not> sem \<and> sg \<noteq> QPU_SIG_LOAD_IMM \<and> sg \<noteq> QPU_SIG_BRANCH) then
     (let s = count True sm_numFragALUcycles_update s;
          s = count (wa = QPU_W_NOP) sm_numEmptyFragALUinstructions_update s;
          s = count (wm = QPU_W_NOP) sm_numEmptyFragALUinstructions_update s;
          s = (if ra = QPU_R_VARY then count True sm_numVaryings_update s
               else count (ra = QPU_R_UNIF) sm_numFragUniformReads_update s);
          reg = (sg \<noteq> QPU_SIG_SMALL_IMM)
      in (if reg \<and> rb = QPU_R_VARY then count True sm_numVaryings_update s
          else count (reg \<and> rb = QPU_R_UNIF) sm_numFragUniformReads_update s, numTMUwrites))
   else (count (\<not> sem \<and> sg = QPU_SIG_BRANCH) sm_numFragBranches_update s, numTMUwrites))"

definition vert_fields :: "nat \<Rightarrow> bool \<Rightarrow> u64 \<Rightarrow> u64 \<Rightarrow> u64 \<Rightarrow> u64 \<Rightarrow> u64 \<Rightarrow> shaderModule \<Rightarrow> shaderModule" where
  "vert_fields c sem sg wa wm ra rb s = (let
     s = count_stage c (is_sfu (wa)) sm_numVertSFUoperations_update sm_numCoordSFUoperations_update s;
     s = count_stage c (is_sfu (wm)) sm_numVertSFUoperations_update sm_numCoordSFUoperations_update s;
     s = count_stage c (wa = QPU_W_VPM \<or> wm = QPU_W_VPM)
       sm_numVertVPMwrites_update sm_numCoordVPMwrites_update s
   in if (\<not> sem \<and> sg \<noteq> QPU_SIG_LOAD_IMM \<and> sg \<noteq> QPU_SIG_BRANCH) then
     (let s = count_stage c True sm_numVertALUcycles_update sm_numCoordALUcycles_update s;
          s = count_stage c (wa = QPU_W_NOP) sm_numEmptyVertALUinstructions_update sm_numEmptyCoordALUinstructions_update s;
          s = count_stage c (wm = QPU_W_NOP) sm_numEmptyVertALUinstructions_update sm_numEmptyCoordALUinstructions_update s;
          s = (if ra = QPU_R_VPM then count_stage c True sm_numVertVPMreads_update sm_numCoordVPMreads_update s
               else count_stage c (ra = QPU_R_UNIF) sm_numVertUniformReads_update sm_numCoordUniformReads_update s);
          reg = (sg \<noteq> QPU_SIG_SMALL_IMM)
      in if reg \<and> rb = QPU_R_VPM then count_stage c True sm_numVertVPMreads_update sm_numCoordVPMreads_update s
         else count_stage c (reg \<and> rb = QPU_R_UNIF) sm_numVertUniformReads_update sm_numCoordUniformReads_update s)
   else count_stage c (\<not> sem \<and> sg = QPU_SIG_BRANCH) sm_numVertBranches_update sm_numCoordBranches_update s)"

lemma step_fields [code]:
  "frag_step i st = frag_fields (is_sem i) (sig_bits i) (waddr_add i) (waddr_mul i) (raddr_a i) (raddr_b i) st"
  "vert_step c i s = vert_fields c (is_sem i) (sig_bits i) (waddr_add i) (waddr_mul i) (raddr_a i) (raddr_b i) s"
  by (simp_all only: frag_step_def frag_fields_def vert_step_def vert_fields_def is_alu_def)

lemma write_units [code]:
  "is_sfu w \<longleftrightarrow> w = 52 \<or> w = 53 \<or> w = 54 \<or> w = 55"
  "is_tmu w \<longleftrightarrow> w = 56 \<or> w = 57 \<or> w = 58 \<or> w = 59 \<or> w = 60 \<or> w = 61 \<or> w = 62 \<or> w = 63"
  by (simp_all add: is_sfu_def is_tmu_def)

text \<open>The counters, program by program.\<close>

definition cs_module :: shaderModule where
  "cs_module = empty_module\<lparr>sm_numCoordUniformReads := 4, sm_numCoordVPMreads := 2, sm_numCoordVPMwrites := 7,
     sm_numCoordCycles := 18, sm_numCoordALUcycles := 16, sm_numEmptyCoordALUinstructions := 16\<rparr>"

lemma cs_analysis: "analyse 0 clear_cs_words empty_module = cs_module"
  by code_simp

definition quad_module :: shaderModule where
  "quad_module = cs_module\<lparr>sm_numVertUniformReads := 4, sm_numVertVPMreads := 2, sm_numVertVPMwrites := 3,
     sm_numVertCycles := 14, sm_numVertALUcycles := 12, sm_numEmptyVertALUinstructions := 14\<rparr>"

definition textured_quad_module :: shaderModule where
  "textured_quad_module = cs_module\<lparr>sm_numVertUniformReads := 4, sm_numVertVPMreads := 4, sm_numVertVPMwrites := 5,
     sm_numVertCycles := 16, sm_numVertALUcycles := 14, sm_numEmptyVertALUinstructions := 14\<rparr>"

lemma vs_analysis:
  "analyse 1 clear_vs_words cs_module = quad_module"
  "analyse 1 textureToTexture_vs_words cs_module = textured_quad_module"
  by code_simp+

lemma clear_fs_analysis: "analyse 2 clear_fs_words quad_module = quad_module\<lparr>sm_numFragUniformReads := 3,
     sm_numFragCycles := 9, sm_numFragALUcycles := 9, sm_numEmptyFragALUinstructions := 12\<rparr>"
  by code_simp

lemma clear_fs_no_color_analysis: "analyse 2 clear_fs_words_no_color quad_module = quad_module\<lparr>sm_numFragUniformReads := 3,
     sm_numFragCycles := 8, sm_numFragALUcycles := 8, sm_numEmptyFragALUinstructions := 11\<rparr>"
  by code_simp

lemma blit_fs_analysis: "analyse 2 bufferToTexture_blit_fs_words quad_module = quad_module\<lparr>sm_hasThreadSwitch := 1,
     sm_numTextureSamples := 1, sm_numFragUniformReads := 5,
     sm_numFragCycles := 23, sm_numFragALUcycles := 23, sm_numEmptyFragALUinstructions := 24\<rparr>"
  by code_simp

lemma sample_fs_analysis: "analyse 2 textureToTexture_sample_fs_words textured_quad_module =
   textured_quad_module\<lparr>sm_hasThreadSwitch := 1, sm_numTextureSamples := 1, sm_numVaryings := 2, sm_numFragUniformReads := 9,
     sm_numFragCycles := 23, sm_numFragALUcycles := 23, sm_numEmptyFragALUinstructions := 25\<rparr>"
  by code_simp

lemmas program_analyses = analyse_3 cs_analysis vs_analysis clear_fs_analysis clear_fs_no_color_analysis
  blit_fs_analysis sample_fs_analysis

subsection \<open>The modules fit the draws that use them\<close>

text \<open>The checks, and as many words for the fragment shader as it reads.\<close>

definition module_fits :: "shaderModule \<Rightarrow> u32 \<Rightarrow> VkVertexInputAttributeDescription list \<Rightarrow> bool" where
  "module_fits m n as \<longleftrightarrow> draw_checks m m as \<and>
     fragment_words n (sm_mappings m ! VK_RPI_ASSEMBLY_TYPE_FRAGMENT) = sm_numFragUniformReads m"

lemma vec2_bytes: "drop_bit 3 (getFormatBpp (VK_FORMAT_R32G32 SFLOAT)) = 8"
  by code_simp

lemma attribute_sizes:
  "vertex_attrib_size (emul_attributes 0) = 8" "coord_attrib_size (emul_attributes n) = 8"
  "vertex_attrib_size (emul_attributes 1) = 16"
  by (simp_all add: vertex_attrib_size_def coord_attrib_size_def emul_attributes_def format_bytes_def vec2_bytes)

lemmas module_fits_defs = module_fits_def draw_checks_defs quad_module_def textured_quad_module_def
  cs_module_def empty_module_def place_def attribute_sizes stage_defs push_reads_def descriptor_reads_def fragment_words_def
  push_constant_def first_descriptor_def mapped_image_type_def

lemma built_clear_fits:
  "module_fits (built clear_cs_words clear_vs_words clear_fs_words vertexMappings clear_fragmentMappings bos szs) n (emul_attributes 0)"
  "module_fits (built clear_cs_words clear_vs_words clear_fs_words_no_color vertexMappings clear_fragmentMappings bos szs) n
     (emul_attributes 0)"
  unfolding built_def program_analyses
  by (simp_all add: module_fits_defs vertexMappings_def clear_fragmentMappings_def)

lemma built_blit_fits:
  "module_fits (built clear_cs_words clear_vs_words bufferToTexture_blit_fs_words vertexMappings
     bufferToTexture_fragmentMappings bos szs) n (emul_attributes 0)"
  unfolding built_def program_analyses
  by (simp add: module_fits_defs vertexMappings_def bufferToTexture_fragmentMappings_def)

lemma built_sample_fits:
  "module_fits (built clear_cs_words textureToTexture_vs_words textureToTexture_sample_fs_words vertexMappings
     textureToTexture_fragmentMappings bos szs) 3 (emul_attributes 1)"
  unfolding built_def program_analyses
  by (simp add: module_fits_defs vertexMappings_def textureToTexture_fragmentMappings_def)

text \<open>The programs as the driver assembles them.\<close>

lemmas program_words =
  clear_cs_asm_code_word clear_vs_asm_code_word clear_fs_asm_code_word clear_fs_asm_code_no_color_word
  bufferToTexture_cs_asm_code_word bufferToTexture_vs_asm_code_word bufferToTexture_blit_fs_asm_code_word
  textureToTexture_cs_asm_code_word textureToTexture_vs_asm_code_word textureToTexture_sample_fs_asm_code_word

lemma program_lengths:
  "length clear_cs_words = 18" "length clear_vs_words = 14" "length clear_fs_words = 9"
  "length clear_fs_words_no_color = 8" "length bufferToTexture_blit_fs_words = 23"
  "length textureToTexture_vs_words = 16" "length textureToTexture_sample_fs_words = 23"
  by (simp_all add: clear_cs_words_def clear_vs_words_def clear_fs_words_def clear_fs_words_no_color_def
      bufferToTexture_blit_fs_words_def textureToTexture_vs_words_def textureToTexture_sample_fs_words_def)

lemma mapping_lengths:
  "length vertexMappings = 4" "length clear_fragmentMappings = 3" "length bufferToTexture_fragmentMappings = 5"
  "length textureToTexture_fragmentMappings = 6"
  by (simp_all add: vertexMappings_def clear_fragmentMappings_def bufferToTexture_fragmentMappings_def
      textureToTexture_fragmentMappings_def)

lemmas stage_words = program_words [THEN assemble_stage_words]

lemma createBufferToTexture_built:
  assumes "p \<noteq> NULL" "q \<noteq> NULL" "r \<noteq> NULL"
  shows "\<exists>k' bos szs. createBufferToTextureShaderModule K cip (p, q, r) [True, True, True] k = Some (k', VK_SUCCESS,
    Some (built clear_cs_words clear_vs_words bufferToTexture_blit_fs_words vertexMappings bufferToTexture_fragmentMappings bos szs))"
  using create_builtin [of clear_cs_words clear_vs_words bufferToTexture_blit_fs_words vertexMappings
      bufferToTexture_fragmentMappings K cip p q r k]
  by (simp add: createBufferToTextureShaderModule_def stage_words program_lengths mapping_lengths assms)

lemma createTextureToTexture_built:
  assumes "p \<noteq> NULL" "q \<noteq> NULL" "r \<noteq> NULL"
  shows "\<exists>k' bos szs. createTextureToTextureShaderModule K cip (p, q, r) [True, True, True] k = Some (k', VK_SUCCESS,
    Some (built clear_cs_words textureToTexture_vs_words textureToTexture_sample_fs_words vertexMappings
      textureToTexture_fragmentMappings bos szs))"
  using create_builtin [of clear_cs_words textureToTexture_vs_words textureToTexture_sample_fs_words vertexMappings
      textureToTexture_fragmentMappings K cip p q r k]
  by (simp add: createTextureToTextureShaderModule_def stage_words program_lengths mapping_lengths assms)

lemma createClear_built:
  assumes "p \<noteq> NULL" "q \<noteq> NULL" "r \<noteq> NULL" "s \<noteq> NULL"
  shows "\<exists>k' bos szs bos' szs'. createClearShaderModule K cip (p, q, r, s) [True, True, True] [True, True, True] k = Some (k',
    (VK_SUCCESS, Some (built clear_cs_words clear_vs_words clear_fs_words vertexMappings clear_fragmentMappings bos szs)),
    (VK_SUCCESS, Some (built clear_cs_words clear_vs_words clear_fs_words_no_color vertexMappings clear_fragmentMappings bos' szs')))"
proof -
  note create = create_builtin [of clear_cs_words clear_vs_words _ vertexMappings clear_fragmentMappings,
      simplified program_lengths mapping_lengths]
  obtain k1 bos szs where 1: "vkCreateShaderModule K [cip \<mapsto> builtin_info [(p, 18, clear_cs_words), (q, 14, clear_vs_words),
      (r, 9, clear_fs_words)] vertexMappings clear_fragmentMappings] (builtin_spirv cip) [True, True, True] k =
    Some (k1, VK_SUCCESS, Some (built clear_cs_words clear_vs_words clear_fs_words vertexMappings clear_fragmentMappings bos szs))"
    using create [of clear_fs_words] by (force simp: program_lengths)
  obtain k2 bos' szs' where 2: "vkCreateShaderModule K [cip \<mapsto> builtin_info [(p, 18, clear_cs_words), (q, 14, clear_vs_words),
      (s, 8, clear_fs_words_no_color)] vertexMappings clear_fragmentMappings] (builtin_spirv cip) [True, True, True] k1 =
    Some (k2, VK_SUCCESS, Some (built clear_cs_words clear_vs_words clear_fs_words_no_color vertexMappings clear_fragmentMappings bos' szs'))"
    using create [of clear_fs_words_no_color] by (force simp: program_lengths)
  show ?thesis by (simp add: createClearShaderModule_def stage_words program_lengths assms 1 2) blast
qed

text \<open>C33: the driver's own shader modules fit the pipelines that draw with them: creating them succeeds
  whatever the kernel answers, if the allocations of host memory do; and their counters of vertex components, varyings, texture accesses and
  uniforms are those that the assertions of a draw compare them with; the fragment shader reads as many
  uniforms as a draw writes for it, where a texture without automatic choice of the level takes three.\<close>

theorem builtin_modules_fit:
  assumes "p \<noteq> NULL" "q \<noteq> NULL" "r \<noteq> NULL" "s \<noteq> NULL"
  shows "(\<exists>k' m m'. createClearShaderModule K cip (p, q, r, s) [True, True, True] [True, True, True] k =
       Some (k', (VK_SUCCESS, Some m), (VK_SUCCESS, Some m')) \<and>
       module_fits m n (emul_attributes 0) \<and> module_fits m' n (emul_attributes 0)) \<and>
     (\<exists>k' m. createBufferToTextureShaderModule K cip (p, q, r) [True, True, True] k = Some (k', VK_SUCCESS, Some m) \<and>
       module_fits m n (emul_attributes 0)) \<and>
     (\<exists>k' m. createTextureToTextureShaderModule K cip (p, q, r) [True, True, True] k = Some (k', VK_SUCCESS, Some m) \<and>
       module_fits m 3 (emul_attributes 1))"
  using createClear_built [OF assms, of K cip k] createBufferToTexture_built [OF assms(1-3), of K cip k]
    createTextureToTexture_built [OF assms(1-3), of K cip k] built_clear_fits built_blit_fits built_sample_fits
  by metis


lemma builtin_modules_fit_witness:
  "\<exists>k' m m'. createClearShaderModule (ex_kernel None) 64 (8, 16, 24, 32) [True, True, True] [True, True, True] (0, 0) =
      Some (k', (VK_SUCCESS, Some m), (VK_SUCCESS, Some m')) \<and>
    module_fits m 0 (emul_attributes 0) \<and> module_fits m' 0 (emul_attributes 0)"
  using builtin_modules_fit [of 8 16 24 32 "ex_kernel None" 64 "(0, 0)" 0] by simp

end
