(* ===== verification/Emulation.thy ===== *)
theory Emulation
  imports Builtin_Modules Recording_State Images
begin

text \<open>
  driver/copy.c and \<open>vkCmdClearAttachments\<close> of driver/stateChange.c: copies, blits and clears that are
  drawn.  For each region the driver creates a view, a render pass, a framebuffer, a descriptor set and
  a pipeline, records a draw of a fullscreen quad, and destroys what it created.  A function is the
  sequence of the calls that it makes, in order and with their arguments; the handles that the creating
  calls return are a parameter.  What the calls do is what their models say.
\<close>

unbundle bit_operations_syntax

subsection \<open>The calls\<close>

record VkSubpassDependency =
  sd_srcSubpass :: u32
  sd_dstSubpass :: u32
  sd_srcStageMask :: u32
  sd_dstStageMask :: u32
  sd_srcAccessMask :: u32
  sd_dstAccessMask :: u32
  sd_dependencyFlags :: u32

record VkPipelineColorBlendAttachmentState =
  ba_blendEnable :: u32
  ba_srcColorBlendFactor :: u32
  ba_dstColorBlendFactor :: u32
  ba_colorBlendOp :: u32
  ba_srcAlphaBlendFactor :: u32
  ba_dstAlphaBlendFactor :: u32
  ba_alphaBlendOp :: u32
  ba_colorWriteMask :: u32

type_synonym quad_pipeline_info = "VkPipelineColorBlendAttachmentState VkGraphicsPipelineCreateInfo"

datatype (plugins only: code size) emul_object =
    BufferView addr
  | DescriptorSet addr
  | ImageView addr
  | RenderPass addr
  | Framebuffer addr
  | PipelineLayout addr
  | GraphicsPipeline addr
  | Sampler addr

text \<open>The first argument of a creating call is the handle that it returns.\<close>

datatype (plugins only: code size) emul_call =
    CreateBufferView addr VkBufferViewCreateInfo
  | AllocateDescriptorSet addr addr addr
  | UpdateDescriptorSet VkWriteDescriptorSet
  | CreateImageView addr VkImageViewCreateInfo
  | CreateRenderPass addr "VkSubpassDependency VkRenderPassCreateInfo"
  | CreateFramebuffer addr addr "addr list" "u32 \<times> u32 \<times> u32"
  | CreatePipelineLayout addr VkPipelineLayoutCreateInfo
  | CreateGraphicsPipeline addr quad_pipeline_info
  | CreateSampler addr sampler
  | BeginRenderPass addr addr VkRect2D "VkClearValue list"
  | SetState state_cmd
  | BindDescriptorSets addr u32 "addr list"
  | Draw u32 u32 u32 u32
  | EndRenderPass
  | Destroy emul_object

record emul_handles =
  h_bufferView :: addr
  h_set :: addr
  h_srcView :: addr
  h_view :: addr
  h_renderPass :: addr
  h_framebuffer :: addr
  h_layout :: addr
  h_pipeline :: addr
  h_sampler :: addr

text \<open>The resources of the device that do not change, as \<open>setupEmulationResources\<close> creates them.\<close>

record emul_device =
  emulFsqVertexBuffer :: addr
  emulDescriptorPool :: addr
  emulBufferDsl :: addr
  emulTextureDsl :: addr
  emulClearDsl :: addr
  emulBufferToTextureShaderModule :: addr
  emulTextureToTextureShaderModule :: addr
  emulClearShaderModule :: addr
  emulClearNoColorShaderModule :: addr

subsection \<open>Create infos\<close>

definition createDescriptorPool_info :: "(VkDescriptorType \<times> u32) list \<times> u32 \<times> u32" where
  "createDescriptorPool_info = ([(VK_DESCRIPTOR_TYPE_STORAGE_TEXEL_BUFFER, 2048),
     (VK_DESCRIPTOR_TYPE_COMBINED_IMAGE_SAMPLER, 2048)], 2048, 1)"

text \<open>The bindings of the layout for buffers and of the one for textures.\<close>

definition emul_binding :: "VkDescriptorType \<Rightarrow> VkDescriptorSetLayoutBinding list" where
  "emul_binding t = [\<lparr>lb_binding = 0, lb_descriptorType = t, lb_descriptorCount = 1, lb_stageFlags = 16\<rparr>]"

definition createDescriptorSetLayouts_info :: "VkDescriptorSetLayoutBinding list \<times> VkDescriptorSetLayoutBinding list" where
  "createDescriptorSetLayouts_info =
     (emul_binding VK_DESCRIPTOR_TYPE_STORAGE_TEXEL_BUFFER, emul_binding VK_DESCRIPTOR_TYPE_COMBINED_IMAGE_SAMPLER)"

definition emul_sampler :: "VkFilter \<Rightarrow> VkSamplerAddressMode \<Rightarrow> u32 \<Rightarrow> sampler" where
  "emul_sampler f mode lodBias = \<lparr>sa_minFilter = f, sa_magFilter = f, sa_mipmapMode = VK_SAMPLER_MIPMAP_MODE_NEAREST,
     sa_addressModeU = mode, sa_addressModeV = mode, sa_addressModeW = mode, sa_mipLodBias = lodBias,
     sa_disableAutoLod = 0, sa_anisotropyEnable = 0, sa_maxAnisotropy = 0, sa_compareEnable = 0,
     sa_compareOp = VK_COMPARE_OP_NEVER, sa_minLod = 0, sa_maxLod = 0, sa_borderColor = 0,
     sa_unnormalizedCoordinates = 0\<rparr>"

definition createSampler_info :: "sampler \<times> sampler" where
  "createSampler_info = (emul_sampler VK_FILTER_NEAREST VK_SAMPLER_ADDRESS_MODE_REPEAT 0,
     emul_sampler VK_FILTER_LINEAR VK_SAMPLER_ADDRESS_MODE_REPEAT 0)"

text \<open>Positions and texture coordinates of the two triangles, as floats: -1, 0 and 1.\<close>

definition fullscreen_quad :: "u32 list" where
  "fullscreen_quad = [
     0xbf800000, 0x3f800000, 0, 0x3f800000,
     0x3f800000, 0x3f800000, 0x3f800000, 0x3f800000,
     0x3f800000, 0xbf800000, 0x3f800000, 0,
     0x3f800000, 0xbf800000, 0x3f800000, 0,
     0xbf800000, 0xbf800000, 0, 0,
     0xbf800000, 0x3f800000, 0, 0x3f800000]"

text \<open>The first memory type that is allowed and has the properties; there is no result without one.\<close>

fun getMemoryTypeIndex :: "u32 list \<Rightarrow> u32 \<Rightarrow> u32 \<Rightarrow> u32 \<Rightarrow> u32 option" where
  "getMemoryTypeIndex [] typeBits properties i = None"
| "getMemoryTypeIndex (flags # types) typeBits properties i =
     (if typeBits AND 1 = 1 \<and> flags AND properties = properties then Some i
      else getMemoryTypeIndex types (drop_bit 1 typeBits) properties (i + 1))"

subsection \<open>The render target\<close>

text \<open>One level of one layer; a compressed image is rendered to as if it had bytes for its texels.\<close>

definition rendertarget_format :: "VkFormat \<Rightarrow> VkFormat" where
  "rendertarget_format f = (if f = VK_FORMAT_ETC2_R8G8B8_UNORM_BLOCK then VK_FORMAT_R8G8B8A8 UNORM else f)"

definition rendertarget_view :: "u32 \<Rightarrow> u32 \<Rightarrow> VkFormat \<Rightarrow> addr \<Rightarrow> VkImageViewCreateInfo" where
  "rendertarget_view baseLayer baseMip format img = \<lparr>ivci_image = img, ivci_viewType = VK_IMAGE_VIEW_TYPE_2D,
     ivci_format = format, ivci_components = [3, 4, 5, 6],
     ivci_subresourceRange = \<lparr>sr_aspectMask = 1, sr_baseMipLevel = baseMip, sr_levelCount = 1,
       sr_baseArrayLayer = baseLayer, sr_layerCount = 1\<rparr>\<rparr>"

definition VK_SUBPASS_EXTERNAL :: u32 where "VK_SUBPASS_EXTERNAL = 0xffffffff"

definition rendertarget_pass :: "VkFormat \<Rightarrow> VkSubpassDependency VkRenderPassCreateInfo" where
  "rendertarget_pass format = \<lparr>
     ci_attachmentCount = 1,
     ci_pAttachments = [\<lparr>ad_format = format, ad_samples = 1, ad_loadOp = VK_ATTACHMENT_LOAD_OP_CLEAR,
       ad_storeOp = VK_ATTACHMENT_STORE_OP_STORE, ad_stencilLoadOp = VK_ATTACHMENT_LOAD_OP_DONT_CARE,
       ad_stencilStoreOp = VK_ATTACHMENT_STORE_OP_DONT_CARE\<rparr>],
     ci_subpassCount = 1,
     ci_pSubpasses = [\<lparr>sp_flags = 0, sp_pipelineBindPoint = VK_PIPELINE_BIND_POINT_GRAPHICS, sp_inputAttachmentCount = 0,
       sp_pInputAttachments = None, sp_colorAttachmentCount = 1, sp_pColorAttachments = Some [(0, 2)],
       sp_pResolveAttachments = None, sp_pDepthStencilAttachment = None, sp_preserveAttachmentCount = 0,
       sp_pPreserveAttachments = None\<rparr>],
     ci_dependencyCount = 2,
     ci_pDependencies = [
       \<lparr>sd_srcSubpass = VK_SUBPASS_EXTERNAL, sd_dstSubpass = 0, sd_srcStageMask = 0x80, sd_dstStageMask = 0x400,
         sd_srcAccessMask = 0x20, sd_dstAccessMask = 0x100, sd_dependencyFlags = 1\<rparr>,
       \<lparr>sd_srcSubpass = 0, sd_dstSubpass = VK_SUBPASS_EXTERNAL, sd_srcStageMask = 0x400, sd_dstStageMask = 0x80,
         sd_srcAccessMask = 0x100, sd_dstAccessMask = 0x20, sd_dependencyFlags = 1\<rparr>]\<rparr>"

definition createRendertarget ::
  "u32 \<Rightarrow> u32 \<Rightarrow> u32 \<Rightarrow> u32 \<Rightarrow> addr \<Rightarrow> image \<Rightarrow> emul_handles \<Rightarrow> emul_call list" where
  "createRendertarget baseLayer baseMip width height img i h = (let format = rendertarget_format (im_format i) in
     [CreateImageView (h_view h) (rendertarget_view baseLayer baseMip format img),
      CreateRenderPass (h_renderPass h) (rendertarget_pass format),
      CreateFramebuffer (h_framebuffer h) (h_renderPass h) [h_view h] (width, height, 1)])"

subsection \<open>The pipelines\<close>

definition no_stencil :: VkStencilOpState where
  "no_stencil = \<lparr>failOp = VK_STENCIL_OP_KEEP, passOp = VK_STENCIL_OP_KEEP, depthFailOp = VK_STENCIL_OP_KEEP,
     compareOp = VK_COMPARE_OP_NEVER, compareMask = 0, writeMask = 0, reference = 0\<rparr>"

definition no_depth_stencil :: VkPipelineDepthStencilStateCreateInfo where
  "no_depth_stencil = \<lparr>dss_depthTestEnable = 0, dss_depthWriteEnable = 0, dss_depthCompareOp = VK_COMPARE_OP_NEVER,
     dss_depthBoundsTestEnable = 0, dss_stencilTestEnable = 0, dss_front = no_stencil, dss_back = no_stencil,
     dss_minDepthBounds = 0, dss_maxDepthBounds = 0\<rparr>"

definition quad_stages :: "addr \<Rightarrow> VkPipelineShaderStageCreateInfo list" where
  "quad_stages m = [\<lparr>ss_stage = 1, ss_module = m, ss_pName = ''main''\<rparr>, \<lparr>ss_stage = 16, ss_module = m, ss_pName = ''main''\<rparr>]"

definition quad_layout :: "u32 \<Rightarrow> u32 \<Rightarrow> addr \<Rightarrow> VkPipelineLayoutCreateInfo" where
  "quad_layout numVertUniforms numFragUniforms dsl = \<lparr>li_setLayoutCount = 1, li_pSetLayouts = Some [dsl],
     li_pushConstantRangeCount = 2,
     li_pPushConstantRanges = Some [(1, 0, numVertUniforms * 4), (16, 0, numFragUniforms * 4)]\<rparr>"

text \<open>The viewport is dynamic, and there are no viewports.\<close>

definition quad_pipeline ::
  "u32 \<Rightarrow> VkPipelineDepthStencilStateCreateInfo \<Rightarrow> addr \<Rightarrow> addr \<Rightarrow> addr \<Rightarrow> quad_pipeline_info" where
  "quad_pipeline needTexcoords dsState m layout renderPass = \<lparr>
     gp_stageCount = 2,
     gp_pStages = quad_stages m,
     gp_vertexBindingDescriptionCount = 1,
     gp_pVertexBindingDescriptions = [\<lparr>vb_binding = 0, vb_stride = 4 * 2 * 2, vb_inputRate = 0\<rparr>],
     gp_vertexAttributeDescriptionCount = (if needTexcoords \<noteq> 0 then 2 else 1),
     gp_pVertexAttributeDescriptions = emul_attributes needTexcoords,
     gp_topology = VK_PRIMITIVE_TOPOLOGY_TRIANGLE_LIST,
     gp_primitiveRestartEnable = 0,
     gp_viewportCount = 0,
     gp_pViewports = [],
     gp_scissorCount = 0,
     gp_pScissors = [],
     gp_pRasterizationState = \<lparr>rs_depthClampEnable = 0, rs_rasterizerDiscardEnable = 0, rs_polygonMode = 0, rs_cullMode = 0,
       rs_frontFace = 0, rs_depthBiasEnable = 0, rs_depthBiasConstantFactor = 0, rs_depthBiasClamp = 0,
       rs_depthBiasSlopeFactor = 0, rs_lineWidth = F32_ONE\<rparr>,
     gp_pMultisampleState = Some \<lparr>ms_rasterizationSamples = 0, ms_sampleShadingEnable = 0, ms_minSampleShading = 0,
       ms_pSampleMask = None, ms_alphaToCoverageEnable = 0, ms_alphaToOneEnable = 0\<rparr>,
     gp_pDepthStencilState = Some dsState,
     gp_pColorBlendState = Some \<lparr>cbs_sType = 26, cbs_pNext = NULL, cbs_flags = 0, cbs_logicOpEnable = 0, cbs_logicOp = 0,
       cbs_attachmentCount = 1,
       cbs_pAttachments = [\<lparr>ba_blendEnable = 0, ba_srcColorBlendFactor = 0, ba_dstColorBlendFactor = 0, ba_colorBlendOp = 0,
         ba_srcAlphaBlendFactor = 0, ba_dstAlphaBlendFactor = 0, ba_alphaBlendOp = 0, ba_colorWriteMask = 0xf\<rparr>],
       cbs_blendConstants = [0, 0, 0, 0]\<rparr>,
     gp_pDynamicState = Some (1, [VK_DYNAMIC_STATE_VIEWPORT]),
     gp_layout = layout,
     gp_renderPass = renderPass,
     gp_subpass = 0\<rparr>"

definition createPipeline :: "u32 \<Rightarrow> u32 \<Rightarrow> u32 \<Rightarrow> addr \<Rightarrow> addr \<Rightarrow> addr \<Rightarrow> emul_handles \<Rightarrow> emul_call list" where
  "createPipeline needTexcoords numVertUniforms numFragUniforms m dsl renderPass h = [
     CreatePipelineLayout (h_layout h) (quad_layout numVertUniforms numFragUniforms dsl),
     CreateGraphicsPipeline (h_pipeline h) (quad_pipeline needTexcoords no_depth_stencil m (h_layout h) renderPass)]"

definition createClearPipeline ::
  "VkPipelineDepthStencilStateCreateInfo \<Rightarrow> addr \<Rightarrow> addr \<Rightarrow> addr \<Rightarrow> emul_handles \<Rightarrow> emul_call list" where
  "createClearPipeline dsState m dsl renderPass h = [
     CreatePipelineLayout (h_layout h) (quad_layout 4 3 dsl),
     CreateGraphicsPipeline (h_pipeline h) (quad_pipeline 0 dsState m (h_layout h) renderPass)]"

subsection \<open>Floats\<close>

definition f32_of_u32 :: "u32 \<Rightarrow> u32 option" where
  "f32_of_u32 w = f32_round False (of_nat (unat w))"

definition f32_of_s32 :: "u32 \<Rightarrow> u32 option" where
  "f32_of_s32 w = f32_round (sint w < 0) \<bar>of_int (sint w)\<bar>"

text \<open>A division by zero has no finite result.\<close>

definition f32_div :: "u32 \<Rightarrow> u32 \<Rightarrow> u32 option" where
  "f32_div a b = do { x \<leftarrow> f32_value a; y \<leftarrow> f32_value b;
     if y = 0 then None else f32_round (f32_negative a \<noteq> f32_negative b) \<bar>x / y\<bar> }"

subsection \<open>Drawing the quad\<close>

definition words_bytes :: "u32 list \<Rightarrow> u8 list" where
  "words_bytes ws = concat (map bytes32 ws)"

definition push_words :: "u32 \<Rightarrow> u32 list \<Rightarrow> emul_call" where
  "push_words stage ws = SetState (PushConstants stage 0 (of_nat (4 * length ws)) (words_bytes ws))"

definition quad_viewport :: "u32 \<Rightarrow> u32 \<Rightarrow> u32 \<Rightarrow> u32 \<Rightarrow> VkViewport" where
  "quad_viewport x y width height = \<lparr>vp_x = x, vp_y = y, vp_width = width, vp_height = height,
     vp_minDepth = 0, vp_maxDepth = F32_ONE\<rparr>"

text \<open>The uniforms of the vertex shader, from the size of the viewport as floats.\<close>

definition vertConstants :: "u32 \<Rightarrow> u32 \<Rightarrow> u32 list option" where
  "vertConstants width height = do {
     x \<leftarrow> f32_mul width F32_HALF;
     viewportScaleX \<leftarrow> f32_mul x F32_SIXTEEN;
     y \<leftarrow> f32_mul F32_ONE height;
     y \<leftarrow> f32_mul y F32_HALF;
     viewportScaleY \<leftarrow> f32_mul y F32_SIXTEEN;
     Some [F32_ONE, viewportScaleX, viewportScaleY, F32_ONE] }"

definition bind_quad :: "emul_device \<Rightarrow> emul_call" where
  "bind_quad dev = SetState (BindVertexBuffers 0 [(emulFsqVertexBuffer dev, 0)])"

definition offscreen_clear :: VkClearValue where
  "offscreen_clear = \<lparr>cv_color = (1, 0, 1, 1), cv_depth = 1, cv_stencil = 0\<rparr>"

definition begin_offscreen :: "u32 \<Rightarrow> u32 \<Rightarrow> emul_handles \<Rightarrow> emul_call list" where
  "begin_offscreen width height h = [
     BeginRenderPass (h_renderPass h) (h_framebuffer h) \<lparr>rc_x = 0, rc_y = 0, rc_width = width, rc_height = height\<rparr>
       [offscreen_clear],
     SetState (BindPipeline VK_PIPELINE_BIND_POINT_GRAPHICS (h_pipeline h))]"

subsection \<open>Copying a buffer to an image\<close>

record VkBufferImageCopy =
  bic_bufferOffset :: u64
  bic_mipLevel :: u32
  bic_baseArrayLayer :: u32
  bic_width :: u32
  bic_height :: u32

definition texel_write :: "addr \<Rightarrow> addr \<Rightarrow> VkWriteDescriptorSet" where
  "texel_write ds view = \<lparr>wd_dstSet = ds, wd_dstBinding = 0, wd_dstArrayElement = 0, wd_descriptorCount = 1,
     wd_descriptorType = VK_DESCRIPTOR_TYPE_STORAGE_TEXEL_BUFFER, wd_pImageInfo = [], wd_pBufferInfo = [],
     wd_pTexelBufferView = [view]\<rparr>"

text \<open>The width, the bits of a texel, the last address of the clamp, and the address of the texels.\<close>

definition copy_fragConstants :: "u32 \<Rightarrow> u32 \<Rightarrow> u32 \<Rightarrow> buffer \<Rightarrow> VkBufferImageCopy \<Rightarrow> u32 list option" where
  "copy_fragConstants width height pixelBpp buf r = do {
     w \<leftarrow> f32_of_u32 width;
     bppfloat \<leftarrow> f32_of_u32 pixelBpp;
     Some [w, bppfloat,
       drop_bit 3 (width * height * pixelBpp) - drop_bit 3 (if pixelBpp > 32 then pixelBpp else 32),
       ucast (bic_bufferOffset r) + bf_boundOffset buf] }"

definition copy_region ::
  "emul_device \<Rightarrow> addr \<Rightarrow> buffer \<Rightarrow> addr \<Rightarrow> image \<Rightarrow> VkBufferImageCopy \<Rightarrow> emul_handles \<Rightarrow> emul_call list option" where
  "copy_region dev bufp buf img i r h = (let width = bic_width r; height = bic_height r;
       pixelBpp = getFormatBpp (im_format i) in do {
     fwidth \<leftarrow> f32_of_u32 width;
     fheight \<leftarrow> f32_of_u32 height;
     vert \<leftarrow> vertConstants fwidth fheight;
     frag \<leftarrow> copy_fragConstants width height pixelBpp buf r;
     Some (
       [CreateBufferView (h_bufferView h) \<lparr>bvci_buffer = bufp, bvci_format = im_format i, bvci_offset = bic_bufferOffset r,
          bvci_range = ucast (drop_bit 3 (width * height * pixelBpp))\<rparr>,
        AllocateDescriptorSet (h_set h) (emulDescriptorPool dev) (emulBufferDsl dev),
        UpdateDescriptorSet (texel_write (h_set h) (h_bufferView h))] @
       createRendertarget (bic_baseArrayLayer r) (bic_mipLevel r) width height img i h @
       createPipeline 0 4 5 (emulBufferToTextureShaderModule dev) (emulBufferDsl dev) (h_renderPass h) h @
       begin_offscreen width height h @
       [SetState (SetViewport [quad_viewport 0 0 fwidth fheight]),
        bind_quad dev,
        BindDescriptorSets (h_layout h) 0 [h_set h],
        push_words 1 vert,
        push_words 16 frag,
        Draw 6 1 0 0,
        EndRenderPass,
        Destroy (PipelineLayout (h_layout h)),
        Destroy (GraphicsPipeline (h_pipeline h)),
        Destroy (DescriptorSet (h_set h)),
        Destroy (ImageView (h_view h)),
        Destroy (RenderPass (h_renderPass h)),
        Destroy (Framebuffer (h_framebuffer h))]) })"

text \<open>
  The calls for all regions, each with the handles its calls return.  The row length and the image height
  of the buffer are not used; assertions say that they are 0.
\<close>

fun emul_regions :: "('r \<Rightarrow> emul_handles \<Rightarrow> emul_call list option) \<Rightarrow> ('r \<times> emul_handles) list \<Rightarrow> emul_call list option" where
  "emul_regions f [] = Some []"
| "emul_regions f ((r, h) # rs) = do { cs \<leftarrow> f r h; ds \<leftarrow> emul_regions f rs; Some (cs @ ds) }"

definition vkCmdCopyBufferToImage ::
  "emul_device \<Rightarrow> addr \<Rightarrow> buffer \<Rightarrow> addr \<Rightarrow> image \<Rightarrow> u32 \<Rightarrow> (VkBufferImageCopy \<times> emul_handles) list \<Rightarrow>
    (emul_call list \<times> image) option" where
  "vkCmdCopyBufferToImage dev bufp buf img i dstImageLayout regions = do {
     cs \<leftarrow> emul_regions (copy_region dev bufp buf img i) regions;
     Some (cs, i\<lparr>im_layout := dstImageLayout\<rparr>) }"

subsection \<open>Blits\<close>

text \<open>A subresource and two corners, of the source and of the destination.\<close>

record VkImageBlit =
  ib_srcMipLevel :: u32
  ib_srcBaseArrayLayer :: u32
  ib_srcOffsets :: "(u32 \<times> u32) \<times> (u32 \<times> u32)"
  ib_dstMipLevel :: u32
  ib_dstBaseArrayLayer :: u32
  ib_dstOffsets :: "(u32 \<times> u32) \<times> (u32 \<times> u32)"

text \<open>The larger of a difference of signed integers, which must not overflow, and 1.\<close>

definition blit_extent :: "u32 \<Rightarrow> u32 \<Rightarrow> u32 option" where
  "blit_extent a b = (let d = sint b - sint a in
     if d < - (2 ^ 31) \<or> 2 ^ 31 \<le> d then None else Some (if d > 1 then word_of_int d else 1))"

text \<open>A level of the source: a shift by 32 or more is undefined.\<close>

definition level_size :: "u32 \<Rightarrow> u32 \<Rightarrow> u32 option" where
  "level_size n level = (if level < 32 then Some (drop_bit (unat level) n) else None)"

definition texcoord_offset :: "u32 \<Rightarrow> u32 \<Rightarrow> u32 option" where
  "texcoord_offset x n = do { a \<leftarrow> f32_of_s32 x; b \<leftarrow> f32_of_u32 n; f32_div a b }"

definition texcoord_scale :: "u32 \<Rightarrow> u32 \<Rightarrow> u32 \<Rightarrow> u32 option" where
  "texcoord_scale x n level = do { a \<leftarrow> f32_of_u32 x; m \<leftarrow> level_size n level; b \<leftarrow> f32_of_u32 m; f32_div a b }"

definition blit_fragConstants :: "image \<Rightarrow> VkImageBlit \<Rightarrow> u32 \<Rightarrow> u32 \<Rightarrow> u32 list option" where
  "blit_fragConstants i r srcWidth srcHeight = do {
     mipBias \<leftarrow> f32_of_u32 (ib_srcMipLevel r);
     texCoordXoffset \<leftarrow> texcoord_offset (fst (fst (ib_srcOffsets r))) (im_width i);
     texCoordYoffset \<leftarrow> texcoord_offset (snd (fst (ib_srcOffsets r))) (im_height i);
     texCoordXscale \<leftarrow> texcoord_scale srcWidth (im_width i) (ib_srcMipLevel r);
     texCoordYscale \<leftarrow> texcoord_scale srcHeight (im_height i) (ib_srcMipLevel r);
     Some [mipBias, texCoordXscale, texCoordYscale, texCoordXoffset, texCoordYoffset] }"

definition blit_sampler :: "VkFilter \<Rightarrow> sampler" where
  "blit_sampler f = emul_sampler (if f = VK_FILTER_LINEAR then VK_FILTER_LINEAR else VK_FILTER_NEAREST)
     VK_SAMPLER_ADDRESS_MODE_CLAMP_TO_EDGE F32_ONE"

definition blit_source_view :: "addr \<Rightarrow> image \<Rightarrow> VkImageBlit \<Rightarrow> VkImageViewCreateInfo" where
  "blit_source_view img i r = \<lparr>ivci_image = img, ivci_viewType = VK_IMAGE_VIEW_TYPE_2D, ivci_format = im_format i,
     ivci_components = [0, 0, 0, 0],
     ivci_subresourceRange = \<lparr>sr_aspectMask = 1, sr_baseMipLevel = ib_srcMipLevel r, sr_levelCount = im_miplevels i,
       sr_baseArrayLayer = ib_srcBaseArrayLayer r, sr_layerCount = 1\<rparr>\<rparr>"

definition image_write :: "addr \<Rightarrow> addr \<Rightarrow> addr \<Rightarrow> VkWriteDescriptorSet" where
  "image_write ds view sa = \<lparr>wd_dstSet = ds, wd_dstBinding = 0, wd_dstArrayElement = 0, wd_descriptorCount = 1,
     wd_descriptorType = VK_DESCRIPTOR_TYPE_COMBINED_IMAGE_SAMPLER,
     wd_pImageInfo = [\<lparr>ii_sampler = sa, ii_imageView = view, ii_imageLayout = 5\<rparr>], wd_pBufferInfo = [],
     wd_pTexelBufferView = []\<rparr>"

definition blit_region ::
  "emul_device \<Rightarrow> addr \<Rightarrow> image \<Rightarrow> addr \<Rightarrow> image \<Rightarrow> VkFilter \<Rightarrow> VkImageBlit \<Rightarrow> emul_handles \<Rightarrow> emul_call list option" where
  "blit_region dev src si dst di f r h = do {
     srcWidth \<leftarrow> blit_extent (fst (fst (ib_srcOffsets r))) (fst (snd (ib_srcOffsets r)));
     srcHeight \<leftarrow> blit_extent (snd (fst (ib_srcOffsets r))) (snd (snd (ib_srcOffsets r)));
     dstWidth \<leftarrow> blit_extent (fst (fst (ib_dstOffsets r))) (fst (snd (ib_dstOffsets r)));
     dstHeight \<leftarrow> blit_extent (snd (fst (ib_dstOffsets r))) (snd (snd (ib_dstOffsets r)));
     x \<leftarrow> f32_of_s32 (fst (fst (ib_dstOffsets r)));
     y \<leftarrow> f32_of_s32 (snd (fst (ib_dstOffsets r)));
     fwidth \<leftarrow> f32_of_u32 dstWidth;
     fheight \<leftarrow> f32_of_u32 dstHeight;
     vert \<leftarrow> vertConstants fwidth fheight;
     frag \<leftarrow> blit_fragConstants si r srcWidth srcHeight;
     Some (
       [CreateSampler (h_sampler h) (blit_sampler f),
        CreateImageView (h_srcView h) (blit_source_view src si r),
        AllocateDescriptorSet (h_set h) (emulDescriptorPool dev) (emulTextureDsl dev),
        UpdateDescriptorSet (image_write (h_set h) (h_srcView h) (h_sampler h))] @
       createRendertarget (ib_dstBaseArrayLayer r) (ib_dstMipLevel r) dstWidth dstHeight dst di h @
       createPipeline 1 4 6 (emulTextureToTextureShaderModule dev) (emulTextureDsl dev) (h_renderPass h) h @
       begin_offscreen dstWidth dstHeight h @
       [SetState (SetViewport [quad_viewport x y fwidth fheight]),
        bind_quad dev,
        BindDescriptorSets (h_layout h) 0 [h_set h],
        push_words 1 vert,
        push_words 16 frag,
        Draw 6 1 0 0,
        EndRenderPass,
        Destroy (Sampler (h_sampler h)),
        Destroy (PipelineLayout (h_layout h)),
        Destroy (GraphicsPipeline (h_pipeline h)),
        Destroy (DescriptorSet (h_set h)),
        Destroy (ImageView (h_srcView h)),
        Destroy (ImageView (h_view h)),
        Destroy (RenderPass (h_renderPass h)),
        Destroy (Framebuffer (h_framebuffer h))]) }"

text \<open>
  The regions are an array of structures of 20 words in the memory of the caller; a read behind its
  end is undefined.
\<close>

definition blit_at :: "u32 list \<Rightarrow> nat \<Rightarrow> VkImageBlit option" where
  "blit_at ws c = (let r = drop (20 * c) ws in
     if length r < 20 then None
     else Some \<lparr>ib_srcMipLevel = r ! 1, ib_srcBaseArrayLayer = r ! 2,
       ib_srcOffsets = ((r ! 4, r ! 5), (r ! 7, r ! 8)),
       ib_dstMipLevel = r ! 11, ib_dstBaseArrayLayer = r ! 12,
       ib_dstOffsets = ((r ! 14, r ! 15), (r ! 17, r ! 18))\<rparr>)"

text \<open>One round of the loop for each of the handles, from region \<open>c\<close> on.\<close>

fun blit_loop ::
  "(VkImageBlit \<Rightarrow> emul_handles \<Rightarrow> emul_call list option) \<Rightarrow> u32 list \<Rightarrow> nat \<Rightarrow> emul_handles list \<Rightarrow> emul_call list option" where
  "blit_loop f ws c [] = Some []"
| "blit_loop f ws c (h # hs) = do { r \<leftarrow> blit_at ws c; cs \<leftarrow> f r h; ds \<leftarrow> blit_loop f ws (c + 1) hs; Some (cs @ ds) }"

definition vkCmdBlitImage ::
  "emul_device \<Rightarrow> addr \<Rightarrow> image \<Rightarrow> addr \<Rightarrow> image \<Rightarrow> u32 list \<Rightarrow> VkFilter \<Rightarrow> emul_handles list \<Rightarrow> emul_call list option" where
  "vkCmdBlitImage dev src si dst di pRegions f hs = blit_loop (blit_region dev src si dst di f) pRegions 0 hs"

text \<open>
  A copy hands its regions, structures of 17 words, to the blit as they are.
\<close>

record VkImageCopy =
  ic_srcSubresource :: "u32 \<times> u32 \<times> u32 \<times> u32"
  ic_srcOffset :: "u32 \<times> u32 \<times> u32"
  ic_dstSubresource :: "u32 \<times> u32 \<times> u32 \<times> u32"
  ic_dstOffset :: "u32 \<times> u32 \<times> u32"
  ic_extent :: "u32 \<times> u32 \<times> u32"

definition image_copy_words :: "VkImageCopy \<Rightarrow> u32 list" where
  "image_copy_words r = (let three = (\<lambda>(x, y, z). [x, y, z]); four = (\<lambda>(x, y, z, w). [x, y, z, w]) in
     four (ic_srcSubresource r) @ three (ic_srcOffset r) @ four (ic_dstSubresource r) @ three (ic_dstOffset r) @
     three (ic_extent r))"

definition vkCmdCopyImage ::
  "emul_device \<Rightarrow> addr \<Rightarrow> image \<Rightarrow> addr \<Rightarrow> image \<Rightarrow> (VkImageCopy \<times> emul_handles) list \<Rightarrow> emul_call list option" where
  "vkCmdCopyImage dev src si dst di regions =
     vkCmdBlitImage dev src si dst di (concat (map (image_copy_words \<circ> fst) regions)) VK_FILTER_NEAREST (map snd regions)"

subsection \<open>Clearing attachments\<close>

record VkClearAttachment =
  ca_aspectMask :: u32
  ca_clearValue :: VkClearValue

definition clear_face :: "u32 \<Rightarrow> VkStencilOpState" where
  "clear_face stencil = \<lparr>failOp = VK_STENCIL_OP_REPLACE, passOp = VK_STENCIL_OP_REPLACE, depthFailOp = VK_STENCIL_OP_REPLACE,
     compareOp = VK_COMPARE_OP_NEVER, compareMask = 0xff, writeMask = 0xff, reference = stencil\<rparr>"

definition clear_depth_stencil :: "VkClearAttachment \<Rightarrow> VkPipelineDepthStencilStateCreateInfo" where
  "clear_depth_stencil a = \<lparr>dss_depthTestEnable = 1, dss_depthWriteEnable = of_bool (ca_aspectMask a AND 2 \<noteq> 0),
     dss_depthCompareOp = VK_COMPARE_OP_ALWAYS, dss_depthBoundsTestEnable = 0,
     dss_stencilTestEnable = of_bool (ca_aspectMask a AND 4 \<noteq> 0),
     dss_front = clear_face (cv_stencil (ca_clearValue a)), dss_back = clear_face (cv_stencil (ca_clearValue a)),
     dss_minDepthBounds = 0, dss_maxDepthBounds = F32_ONE\<rparr>"

text \<open>
  All the values are computed for every attachment: the color and the depth share their memory in the
  code, so both are taken to be in the range from 0 to 1.  The stencil setup has room for one word.
\<close>

definition clear_fragConstants :: "VkClearAttachment \<Rightarrow> u32 list option" where
  "clear_fragConstants a = (let ds = clear_depth_stencil a in do {
     clearColorValue \<leftarrow> packVec4IntoABGR8 (cv_color (ca_clearValue a));
     depthClearValue \<leftarrow> depth24 (cv_depth (ca_clearValue a));
     (stencilSetup, numValues) \<leftarrow> encodeStencilValue [0] (dss_front ds) (dss_back ds) (ucast (dss_stencilTestEnable ds));
     Some [clearColorValue, stencilSetup ! 0, depthClearValue] })"

definition clear_rect :: "VkRect2D \<Rightarrow> emul_call list option" where
  "clear_rect r = do {
     x \<leftarrow> f32_of_s32 (rc_x r);
     y \<leftarrow> f32_of_s32 (rc_y r);
     width \<leftarrow> f32_of_u32 (rc_width r);
     height \<leftarrow> f32_of_u32 (rc_height r);
     vert \<leftarrow> vertConstants width height;
     Some [SetState (SetViewport [quad_viewport x y width height]), push_words 1 vert, Draw 6 1 0 0] }"

fun clear_rects :: "VkRect2D list \<Rightarrow> emul_call list option" where
  "clear_rects [] = Some []"
| "clear_rects (r # rs) = do { cs \<leftarrow> clear_rect r; ds \<leftarrow> clear_rects rs; Some (cs @ ds) }"

definition clear_attachment ::
  "emul_device \<Rightarrow> addr \<Rightarrow> VkRect2D list \<Rightarrow> VkClearAttachment \<Rightarrow> emul_handles \<Rightarrow> emul_call list option" where
  "clear_attachment dev renderPass rects a h = do {
     frag \<leftarrow> clear_fragConstants a;
     draws \<leftarrow> clear_rects rects;
     Some (createClearPipeline (clear_depth_stencil a)
         (if ca_aspectMask a AND 1 \<noteq> 0 then emulClearShaderModule dev else emulClearNoColorShaderModule dev)
         (emulClearDsl dev) renderPass h @
       [SetState (BindPipeline VK_PIPELINE_BIND_POINT_GRAPHICS (h_pipeline h)), bind_quad dev, push_words 16 frag] @
       draws @
       [Destroy (PipelineLayout (h_layout h)), Destroy (GraphicsPipeline (h_pipeline h))]) }"

text \<open>What is saved in front and put back in the end: 40 bytes of each of the push constants.\<close>

record saved_state =
  oldViewport :: VkViewport
  oldPipeline :: addr
  oldVertexBufferOffsets :: "u32 list"
  oldVertexBuffers :: "addr list"
  oldPushConstantBufferVertex :: "u8 list"
  oldPushConstantBufferPixel :: "u8 list"

definition save_state :: "commandBuffer \<Rightarrow> saved_state" where
  "save_state b = \<lparr>oldViewport = ds_viewport (cb_dynamic b), oldPipeline = cb_graphicsPipeline b,
     oldVertexBufferOffsets = ds_vertexBufferOffsets (cb_dynamic b), oldVertexBuffers = ds_vertexBuffers (cb_dynamic b),
     oldPushConstantBufferVertex = take (4 * 10) (cb_pushConstantBufferVertex b),
     oldPushConstantBufferPixel = take (4 * 10) (cb_pushConstantBufferPixel b)\<rparr>"

definition restore_state :: "saved_state \<Rightarrow> commandBuffer \<Rightarrow> commandBuffer" where
  "restore_state s b = b\<lparr>cb_graphicsPipeline := oldPipeline s,
     cb_dynamic := (cb_dynamic b)\<lparr>ds_viewport := oldViewport s, ds_vertexBufferOffsets := oldVertexBufferOffsets s,
       ds_vertexBuffers := oldVertexBuffers s\<rparr>,
     cb_pushConstantBufferVertex := overlay 0 (oldPushConstantBufferVertex s) (cb_pushConstantBufferVertex b),
     cb_pushConstantBufferPixel := overlay 0 (oldPushConstantBufferPixel s) (cb_pushConstantBufferPixel b)\<rparr>"

text \<open>The calls and the saved state; nothing happens outside a render pass.\<close>

definition vkCmdClearAttachments ::
  "emul_device \<Rightarrow> commandBuffer \<Rightarrow> (VkClearAttachment \<times> emul_handles) list \<Rightarrow> VkRect2D list \<Rightarrow>
    (emul_call list \<times> saved_state) option" where
  "vkCmdClearAttachments dev b attachments rects =
     (if cb_currRenderPass b = NULL then Some ([], save_state b)
      else do {
        cs \<leftarrow> emul_regions (clear_attachment dev (cb_currRenderPass b) rects) attachments;
        Some (cs, save_state b) })"

subsection \<open>The lifetime of objects\<close>

text \<open>
  The objects that exist, and the pointers between them and from the command buffer that a draw follows:
  the layout of each pipeline, the sets bound with each layout (by their number), the views and samplers
  that the descriptors of each set point to, and the bound pipeline.
\<close>

record emul_env =
  ev_live :: "emul_object list"
  ev_layout :: "addr \<Rightarrow> addr"
  ev_sets :: "addr \<Rightarrow> (u32 \<times> addr) list"
  ev_written :: "addr \<Rightarrow> emul_object list"
  ev_pipeline :: addr

definition written_objects :: "VkWriteDescriptorSet \<Rightarrow> emul_object list" where
  "written_objects w = map BufferView (wd_pTexelBufferView w) @
     concat (map (\<lambda>ii. [ImageView (ii_imageView ii), Sampler (ii_sampler ii)]) (wd_pImageInfo w))"

text \<open>
  The objects that a draw reads: the bound pipeline, its layout, the sets bound with that layout and what
  their descriptors point to.  The shader modules and the vertex buffer live as long as the device.
\<close>

definition draw_needs :: "emul_env \<Rightarrow> emul_object list" where
  "draw_needs e = (let layout = ev_layout e (ev_pipeline e) in
     GraphicsPipeline (ev_pipeline e) # PipelineLayout layout #
     concat (map (\<lambda>(i, ds). DescriptorSet ds # ev_written e ds) (ev_sets e layout)))"

text \<open>The framebuffer copies the views, and the end of a render pass only resets a pointer.\<close>

fun needs :: "emul_env \<Rightarrow> emul_call \<Rightarrow> emul_object list" where
  "needs e (UpdateDescriptorSet w) = DescriptorSet (wd_dstSet w) # written_objects w"
| "needs e (CreateFramebuffer h rp views ext) = RenderPass rp # map ImageView views"
| "needs e (CreateGraphicsPipeline h ci) = [PipelineLayout (gp_layout ci), RenderPass (gp_renderPass ci)]"
| "needs e (BeginRenderPass rp fb r vs) = [RenderPass rp, Framebuffer fb]"
| "needs e (SetState (BindPipeline bp pip)) = [GraphicsPipeline pip]"
| "needs e (BindDescriptorSets layout first sets) = PipelineLayout layout # map DescriptorSet sets"
| "needs e (Draw vertexCount instanceCount firstVertex firstInstance) = draw_needs e"
| "needs e (Destroy x) = [x]"
| "needs e c = []"

text \<open>What a call does to the objects and the pointers; a new set points to nothing, a new layout has no
  sets, and binding a set puts it in the place of its number.\<close>

fun lifetime_effect :: "emul_call \<Rightarrow> emul_env \<Rightarrow> emul_env" where
  "lifetime_effect (CreateBufferView h ci) e = e\<lparr>ev_live := BufferView h # ev_live e\<rparr>"
| "lifetime_effect (AllocateDescriptorSet h pool dsl) e =
     e\<lparr>ev_live := DescriptorSet h # ev_live e, ev_written := (ev_written e)(h := [])\<rparr>"
| "lifetime_effect (UpdateDescriptorSet w) e =
     e\<lparr>ev_written := (ev_written e)(wd_dstSet w := written_objects w @ ev_written e (wd_dstSet w))\<rparr>"
| "lifetime_effect (CreateImageView h ci) e = e\<lparr>ev_live := ImageView h # ev_live e\<rparr>"
| "lifetime_effect (CreateRenderPass h ci) e = e\<lparr>ev_live := RenderPass h # ev_live e\<rparr>"
| "lifetime_effect (CreateFramebuffer h rp views ext) e = e\<lparr>ev_live := Framebuffer h # ev_live e\<rparr>"
| "lifetime_effect (CreatePipelineLayout h ci) e =
     e\<lparr>ev_live := PipelineLayout h # ev_live e, ev_sets := (ev_sets e)(h := [])\<rparr>"
| "lifetime_effect (CreateGraphicsPipeline h ci) e =
     e\<lparr>ev_live := GraphicsPipeline h # ev_live e, ev_layout := (ev_layout e)(h := gp_layout ci)\<rparr>"
| "lifetime_effect (CreateSampler h ci) e = e\<lparr>ev_live := Sampler h # ev_live e\<rparr>"
| "lifetime_effect (SetState (BindPipeline bp pip)) e =
     (if bp = VK_PIPELINE_BIND_POINT_GRAPHICS then e\<lparr>ev_pipeline := pip\<rparr> else e)"
| "lifetime_effect (BindDescriptorSets layout first sets) e =
     (let new = zip (map (\<lambda>c. first + of_nat c) [0..<length sets]) sets
      in e\<lparr>ev_sets := (ev_sets e)(layout := new @ filter (\<lambda>x. fst x \<notin> fst ` set new) (ev_sets e layout))\<rparr>)"
| "lifetime_effect (Destroy x) e = e\<lparr>ev_live := remove1 x (ev_live e)\<rparr>"
| "lifetime_effect c e = e"

text \<open>A run of calls: what is used or destroyed must exist.\<close>

fun live_after :: "emul_call list \<Rightarrow> emul_env \<Rightarrow> emul_env option" where
  "live_after [] e = Some e"
| "live_after (c # cs) e = (if set (needs e c) \<subseteq> set (ev_live e) then live_after cs (lifetime_effect c e) else None)"

end
