(* ===== verification/Emulated_Draws.thy ===== *)
theory Emulated_Draws
  imports Emulation Draw_State
begin

text \<open>
  What the calls of the drawn copies, blits and clears do: the lifetimes of the objects that they create,
  the state that a draw of a copy works with and the one that a clear leaves, and two places where
  what they do is undefined.
\<close>

unbundle bit_operations_syntax

subsection \<open>The lifetimes\<close>

lemma live_after_append: "live_after (cs @ ds) e = Option.bind (live_after cs e) (live_after ds)"
  by (induction cs arbitrary: e) simp_all

lemmas region_calls = createRendertarget_def createPipeline_def createClearPipeline_def begin_offscreen_def
  rendertarget_format_def Let_def quad_pipeline_def texel_write_def image_write_def push_words_def bind_quad_def
  written_objects_def draw_needs_def

text \<open>The end of a run, as far as the theorem speaks of it: the objects and the bound pipeline.\<close>

definition ends_with :: "emul_call list \<Rightarrow> emul_env \<Rightarrow> emul_object list \<Rightarrow> addr \<Rightarrow> bool" where
  "ends_with cs e live pip \<longleftrightarrow> (\<exists>e'. live_after cs e = Some e' \<and> ev_live e' = live \<and> ev_pipeline e' = pip)"

lemma copy_region_lives:
  assumes "copy_region dev bufp buf img i r h = Some cs"
  shows "ends_with cs e (BufferView (h_bufferView h) # ev_live e) (h_pipeline h)"
  using assms by (auto simp: copy_region_def region_calls bind_Some_iff ends_with_def)

lemma blit_region_lives:
  assumes "blit_region dev src si dst di f r h = Some cs"
  shows "ends_with cs e (ev_live e) (h_pipeline h)"
  using assms by (auto simp: blit_region_def region_calls bind_Some_iff ends_with_def)

lemma clear_rects_live:
  assumes "clear_rects rs = Some cs" "set (draw_needs e) \<subseteq> set (ev_live e)"
  shows "live_after cs e = Some e"
  using assms(1) by (induction rs arbitrary: cs) (use assms(2) in \<open>auto simp: clear_rect_def push_words_def bind_Some_iff\<close>)

lemma clear_attachment_lives:
  assumes "clear_attachment dev renderPass rects a h = Some cs" "RenderPass renderPass \<in> set (ev_live e)"
  shows "ends_with cs e (ev_live e) (h_pipeline h)"
proof -
  obtain frag draws where "clear_fragConstants a = Some frag" "clear_rects rects = Some draws"
    using assms(1) by (auto simp: clear_attachment_def bind_Some_iff)
  then show ?thesis using assms clear_rects_live [of rects draws]
    by (auto simp: clear_attachment_def live_after_append region_calls ends_with_def)
qed

text \<open>Several regions: each adds the same kind of objects, and the last one leaves its pipeline bound.\<close>

definition last_pipeline :: "emul_handles list \<Rightarrow> emul_env \<Rightarrow> addr" where
  "last_pipeline hs e = (if hs = [] then ev_pipeline e else h_pipeline (last hs))"

lemma last_pipeline_Cons:
  "ev_pipeline e' = h_pipeline h \<Longrightarrow> last_pipeline hs e' = last_pipeline (h # hs) e"
  by (simp add: last_pipeline_def)

lemma emul_regions_live:
  assumes "emul_regions f rs = Some cs"
    and "\<And>r h cs e. (r, h) \<in> set rs \<Longrightarrow> f r h = Some cs \<Longrightarrow> P (ev_live e) \<Longrightarrow>
      ends_with cs e (g h @ ev_live e) (h_pipeline h) \<and> P (g h @ ev_live e)"
    and "P (ev_live e)"
  shows "ends_with cs e (concat (map g (rev (map snd rs))) @ ev_live e) (last_pipeline (map snd rs) e)"
  using assms
proof (induction rs arbitrary: cs e)
  case Nil
  then show ?case by (simp add: ends_with_def last_pipeline_def)
next
  case (Cons x rs)
  obtain r h where x: "x = (r, h)" by (cases x)
  obtain c1 c2 where c: "f r h = Some c1" "emul_regions f rs = Some c2" "cs = c1 @ c2"
    using Cons.prems(1) by (auto simp: x bind_Some_iff)
  obtain e1 where e1: "live_after c1 e = Some e1" "ev_live e1 = g h @ ev_live e" "ev_pipeline e1 = h_pipeline h" "P (ev_live e1)"
    using Cons.prems(2) [of r h c1 e] Cons.prems(3) c(1) x by (auto simp: ends_with_def)
  have "ends_with c2 e1 (concat (map g (rev (map snd rs))) @ ev_live e1) (last_pipeline (map snd rs) e1)"
    by (rule Cons.IH [OF c(2) _ e1(4)]) (rule Cons.prems(2), simp_all)
  then show ?case using e1(1,2) last_pipeline_Cons [OF e1(3), of "map snd rs" e]
    by (auto simp: ends_with_def live_after_append c(3) x)
qed

lemma blit_loop_live:
  assumes "blit_loop f ws c hs = Some cs" "\<And>r h cs e. f r h = Some cs \<Longrightarrow> ends_with cs e (ev_live e) (h_pipeline h)"
  shows "ends_with cs e (ev_live e) (last_pipeline hs e)"
  using assms(1)
proof (induction hs arbitrary: cs c e)
  case Nil
  then show ?case by (simp add: ends_with_def last_pipeline_def)
next
  case (Cons h hs)
  then obtain r c1 c2 where c: "f r h = Some c1" "blit_loop f ws (c + 1) hs = Some c2" "cs = c1 @ c2"
    by (auto simp: bind_Some_iff)
  obtain e1 where e1: "live_after c1 e = Some e1" "ev_live e1 = ev_live e" "ev_pipeline e1 = h_pipeline h"
    using assms(2) [OF c(1), of e] by (auto simp: ends_with_def)
  show ?case using Cons.IH [OF c(2), of e1] e1 last_pipeline_Cons [OF e1(3), of hs e]
    by (auto simp: ends_with_def live_after_append c(3))
qed

text \<open>C34: the lifetimes of the objects that the drawn copies, blits and clears create: whatever exists before,
  every object is used and destroyed only while it exists, by the draws too, which use the bound pipeline,
  its layout, the sets bound with that layout and the views and samplers that these point to.  A blit and
  a clear leave the objects as they found them, while a copy of a buffer leaves the buffer view of every
  region behind, and nothing else.  The pipeline of the last region, which is destroyed, stays bound.\<close>

theorem emulation_lifetimes:
  "(vkCmdCopyBufferToImage dev bufp buf img i dstImageLayout regions = Some (cs, i') \<longrightarrow>
      ends_with cs e (map (\<lambda>(r, h). BufferView (h_bufferView h)) (rev regions) @ ev_live e) (last_pipeline (map snd regions) e)) \<and>
   (vkCmdBlitImage dev src si dst di pRegions f hs = Some cs \<longrightarrow> ends_with cs e (ev_live e) (last_pipeline hs e)) \<and>
   ((cb_currRenderPass b = NULL \<or> RenderPass (cb_currRenderPass b) \<in> set (ev_live e)) \<and>
      vkCmdClearAttachments dev b attachments rects = Some (cs, st) \<longrightarrow>
      ends_with cs e (ev_live e) (if cb_currRenderPass b = NULL then ev_pipeline e else last_pipeline (map snd attachments) e))"
proof (intro conjI impI)
  assume "vkCmdCopyBufferToImage dev bufp buf img i dstImageLayout regions = Some (cs, i')"
  then have "emul_regions (copy_region dev bufp buf img i) regions = Some cs"
    by (auto simp: vkCmdCopyBufferToImage_def bind_Some_iff)
  from emul_regions_live [OF this, of "\<lambda>_. True" "\<lambda>h. [BufferView (h_bufferView h)]" e]
  show "ends_with cs e (map (\<lambda>(r, h). BufferView (h_bufferView h)) (rev regions) @ ev_live e) (last_pipeline (map snd regions) e)"
    by (simp add: copy_region_lives rev_map comp_def case_prod_unfold)
next
  assume "vkCmdBlitImage dev src si dst di pRegions f hs = Some cs"
  then show "ends_with cs e (ev_live e) (last_pipeline hs e)"
    unfolding vkCmdBlitImage_def by (rule blit_loop_live) (rule blit_region_lives)
next
  assume a: "(cb_currRenderPass b = NULL \<or> RenderPass (cb_currRenderPass b) \<in> set (ev_live e)) \<and>
    vkCmdClearAttachments dev b attachments rects = Some (cs, st)"
  show "ends_with cs e (ev_live e) (if cb_currRenderPass b = NULL then ev_pipeline e else last_pipeline (map snd attachments) e)"
  proof (cases "cb_currRenderPass b = NULL")
    case False
    then have "emul_regions (clear_attachment dev (cb_currRenderPass b) rects) attachments = Some cs"
      using a by (auto simp: vkCmdClearAttachments_def bind_Some_iff)
    from emul_regions_live [OF this, of "\<lambda>live. RenderPass (cb_currRenderPass b) \<in> set live" "\<lambda>h. []" e]
    show ?thesis using a False by (auto simp: clear_attachment_lives concat_eq_Nil_conv [THEN iffD2])
  qed (use a in \<open>simp add: vkCmdClearAttachments_def ends_with_def\<close>)
qed

subsection \<open>What is undefined\<close>

text \<open>C37: a pipeline of the emulation has no viewports, and a draw reads the first one even when the viewport
  is dynamic: whenever such a pipeline has been created and is bound, the draw reads outside of an array.\<close>

theorem emulated_draw_undefined:
  assumes "vkCreateGraphicsPipelines [quad_pipeline needTexcoords dsState m layout renderPass] [stale] allocs = Some (VK_SUCCESS, [pip])"
    and "bound_pipeline ob p w = Some pip"
  shows "vkCmdDraw ob d p 6 1 0 0 w = None"
proof -
  have "pl_viewports pip = []" using assms(1)
    by (auto simp: create_pipeline_def alloc_or_fail_def copy_viewports_def dynamic_def quad_pipeline_def Let_def
        copy_depth_stencil_def copy_multisample_def copy_rasterization_def copy_blend_constants_def
        bind_Some_iff split: option.splits if_splits)
  then have "draw_state pip p w = None"
    by (simp add: draw_state_def draw_viewport_def elem_at_def bind_eq_None_conv)
  then show ?thesis by (simp add: vkCmdDraw_def drawCommon_def assms(2))
qed

lemma blit_loop_reads:
  "blit_loop f ws c hs = Some cs \<Longrightarrow> hs = [] \<or> 20 * (c + length hs) \<le> length ws"
  by (induction hs arbitrary: c cs) (force simp: blit_at_def Let_def bind_Some_iff split: if_splits)+

text \<open>C38: a copy between images hands its array of regions to the blit, whose regions are larger: with one
  region or more the blit reads behind the end of the array.\<close>

theorem copy_image_undefined:
  "vkCmdCopyImage dev src si dst di regions \<noteq> None \<longleftrightarrow> regions = []"
proof -
  have "length (concat (map (image_copy_words \<circ> fst) regions)) = 17 * length regions"
    by (induction regions) (simp_all add: image_copy_words_def Let_def case_prod_unfold)
  then show ?thesis using blit_loop_reads [of _ _ 0 "map snd regions"]
    by (fastforce simp: vkCmdCopyImage_def vkCmdBlitImage_def)
qed

subsection \<open>The state that a clear leaves\<close>

definition state_cmds_of :: "emul_call list \<Rightarrow> state_cmd list" where
  "state_cmds_of cs = concat (map (\<lambda>c. case c of SetState s \<Rightarrow> [s] | _ \<Rightarrow> []) cs)"

text \<open>The commands whose effect the saved state undoes.\<close>

fun undoable :: "state_cmd \<Rightarrow> bool" where
  "undoable (SetViewport vs) \<longleftrightarrow> vs \<noteq> []"
| "undoable (BindVertexBuffers firstBinding bs) \<longleftrightarrow> bs \<noteq> [] \<and> unat firstBinding + length bs \<le> 8"
| "undoable (BindPipeline bindPoint pip) \<longleftrightarrow> bindPoint = VK_PIPELINE_BIND_POINT_GRAPHICS"
| "undoable (PushConstants stageFlags offset sz vals) \<longleftrightarrow> offset = 0 \<and> unat sz \<le> length vals \<and> length vals \<le> 40"
| "undoable c \<longleftrightarrow> False"

lemma overlay_overlay:
  assumes "length zs \<le> length ys"
  shows "overlay 0 ys (overlay 0 zs xs) = overlay 0 ys xs"
  using assms by (simp add: overlay_def)

lemma overlay_take: "overlay 0 (take n xs) xs = xs"
  by (cases "n \<le> length xs") (simp_all add: overlay_def min_def)

lemma undoable_typed: "undoable c \<Longrightarrow> cmd_typed c"
  by (cases c) auto

lemma restore_undoes:
  assumes "undoable c" "length (oldPushConstantBufferVertex s) = 40" "length (oldPushConstantBufferPixel s) = 40"
  shows "restore_state s (apply_cmd c b) = (restore_state s b)\<lparr>cb_dirty := cmd_dirties c (cb_dirty b)\<rparr>"
  using assms by (cases c) (auto simp: restore_state_def apply_cmd_def overlay_stage_def overlay_overlay)

lemma restore_save: "restore_state (save_state b) b = b"
  by (simp add: restore_state_def save_state_def overlay_take)


lemma restore_undoes_all:
  assumes "list_all undoable cs" "length (oldPushConstantBufferVertex s) = 40" "length (oldPushConstantBufferPixel s) = 40"
  shows "restore_state s (fold apply_cmd cs b) = (restore_state s b)\<lparr>cb_dirty := fold cmd_dirties cs (cb_dirty b)\<rparr>"
  using assms(1)
proof (induction cs arbitrary: b)
  case Nil
  then show ?case by (cases b) (simp add: restore_state_def)
next
  case (Cons c cs)
  have "cb_dirty (apply_cmd c b) = cmd_dirties c (cb_dirty b)" by (simp add: apply_cmd_def)
  then show ?case using Cons restore_undoes [OF _ assms(2,3), of c b] by simp
qed

lemma state_cmds_of_simps [simp]:
  "state_cmds_of [] = []" "state_cmds_of (cs @ ds) = state_cmds_of cs @ state_cmds_of ds"
  "state_cmds_of (c # cs) = (case c of SetState s \<Rightarrow> [s] | _ \<Rightarrow> []) @ state_cmds_of cs"
  by (simp_all add: state_cmds_of_def)

lemma length_words_bytes: "length (words_bytes ws) = 4 * length ws"
  by (induction ws) (simp_all add: words_bytes_def)

lemma clear_rects_undoable: "clear_rects rs = Some cs \<Longrightarrow> list_all undoable (state_cmds_of cs)"
  by (induction rs arbitrary: cs)
    (auto simp: clear_rect_def push_words_def vertConstants_def length_words_bytes bind_Some_iff)

lemma clear_attachment_undoable:
  assumes "clear_attachment dev renderPass rects a h = Some cs"
  shows "list_all undoable (state_cmds_of cs)"
proof -
  obtain frag draws where "clear_fragConstants a = Some frag" "clear_rects rects = Some draws"
    using assms by (auto simp: clear_attachment_def bind_Some_iff)
  moreover from this(1) have "length frag = 3" by (auto simp: clear_fragConstants_def Let_def bind_Some_iff)
  ultimately show ?thesis using assms clear_rects_undoable
    by (auto simp: clear_attachment_def createClearPipeline_def bind_quad_def push_words_def length_words_bytes)
qed

lemma emul_regions_undoable:
  assumes "emul_regions f rs = Some cs" "\<And>r h cs. f r h = Some cs \<Longrightarrow> list_all undoable (state_cmds_of cs)"
  shows "list_all undoable (state_cmds_of cs)"
  using assms(1) by (induction rs arbitrary: cs) (auto simp: bind_Some_iff assms(2))

text \<open>C36: clearing attachments inside a render pass leaves the state of the command buffer as it was: on a
  command buffer whose arrays have their sizes, the state commands of the clear are all well formed, and
  what is saved in front and put back in the end undoes all of them, but for the dirty flags.\<close>

theorem clear_restores_state:
  assumes "cb_typed b" "vkCmdClearAttachments dev b attachments rects = Some (cs, st)"
  shows "list_all cmd_typed (state_cmds_of cs) \<and>
    restore_state st (fold apply_cmd (state_cmds_of cs) b) =
      b\<lparr>cb_dirty := fold cmd_dirties (state_cmds_of cs) (cb_dirty b)\<rparr>"
proof -
  have "list_all undoable (state_cmds_of cs)"
    using assms(2) emul_regions_undoable [OF _ clear_attachment_undoable]
    by (auto simp: vkCmdClearAttachments_def bind_Some_iff split: if_splits)
  moreover have "st = save_state b"
    using assms(2) by (auto simp: vkCmdClearAttachments_def bind_Some_iff split: if_splits)
  moreover from this have "length (oldPushConstantBufferVertex st) = 40" "length (oldPushConstantBufferPixel st) = 40"
    using assms(1) by (simp_all add: save_state_def cb_typed_def)
  ultimately show ?thesis using restore_undoes_all [of "state_cmds_of cs" st b] restore_save
    by (auto simp: undoable_typed list_all_iff)
qed

subsection \<open>The state that a copy draws with\<close>

lemma f32_of_size:
  assumes "unat n < 2 ^ 24"
  obtains w where "f32_of_u32 n = Some w" "f32_value w = Some (of_nat (unat n))" "\<not> f32_negative w"
proof -
  obtain w where "f32_value w = Some (of_nat (unat n) * 2 ^ 1 / 2)" "\<not> f32_negative w"
    "f32_round False (of_nat (unat n) * 2 ^ 1 / 2) = Some w"
    using f32_scaled [OF assms, of 1] by auto
  then show ?thesis using that by (simp add: f32_of_u32_def)
qed

text \<open>Half of a size and sixteen times that are exact.\<close>

lemma f32_viewport_scale:
  assumes "f32_value w = Some (of_nat M)" "\<not> f32_negative w" "M < 2 ^ 24"
  obtains x y where "f32_mul w F32_HALF = Some x" "f32_mul F32_ONE w = Some w" "f32_mul x F32_SIXTEEN = Some y"
    "f32_value y = Some (8 * of_nat M)"
proof -
  obtain x where x: "f32_value x = Some (of_nat M * 2 ^ 0 / 2)" "\<not> f32_negative x"
    using f32_scaled [OF assms(3), of 0] by auto
  obtain y where y: "f32_value y = Some (of_nat M * 2 ^ 4 / 2)" "\<not> f32_negative y"
    using f32_scaled [OF assms(3), of 4] by auto
  have n: "\<not> f32_negative F32_HALF" "\<not> f32_negative F32_ONE" "\<not> f32_negative F32_SIXTEEN"
    by (simp_all add: f32_negative_def)
  have "f32_mul w F32_HALF = Some x" "f32_mul F32_ONE w = Some w" "f32_mul x F32_SIXTEEN = Some y"
    using f32_mul_exact [OF assms(1) f32_literals(3), of x] f32_mul_exact [OF f32_literals(2) assms(1), of w]
      f32_mul_exact [OF x(1) f32_literals(4), of y] by (simp_all add: assms x y n)
  then show ?thesis using that y(1) by simp
qed

lemma vertConstants_exact:
  assumes "f32_value width = Some (of_nat W)" "\<not> f32_negative width" "W < 2 ^ 24"
    and "f32_value height = Some (of_nat H)" "\<not> f32_negative height" "H < 2 ^ 24"
  obtains vert where "vertConstants width height = Some vert" "length vert = 4"
    "map f32_value vert = map Some [1, 8 * of_nat W, 8 * of_nat H, 1]"
proof -
  obtain x sx where "f32_mul width F32_HALF = Some x" "f32_mul x F32_SIXTEEN = Some sx" "f32_value sx = Some (8 * of_nat W)"
    using f32_viewport_scale [OF assms(1-3)] by metis
  moreover obtain y sy where "f32_mul height F32_HALF = Some y" "f32_mul F32_ONE height = Some height"
      "f32_mul y F32_SIXTEEN = Some sy" "f32_value sy = Some (8 * of_nat H)"
    using f32_viewport_scale [OF assms(4-6)] by metis
  ultimately show ?thesis using that by (simp add: vertConstants_def f32_literals)
qed

lemma getFormatBpp_le: "unat (getFormatBpp f) \<le> 256"
proof -
  have "getFormatBpp f \<in> {256, 192, 128, 96, 64, 48, 32, 24, 16, 8, 4, 0}"
    by (cases f) (simp_all add: getFormatBpp_def)
  then show ?thesis by auto
qed


text \<open>
  Where the last texel begins, or the last word if a texel is smaller, counted in bytes: the size of all
  texels, whose product of three wraps around, less one of them; for fewer than four bytes the
  difference wraps around.
\<close>

definition last_address :: "nat \<Rightarrow> nat \<Rightarrow> nat \<Rightarrow> int" where
  "last_address width height bpp = (int ((width * height * bpp) mod 2 ^ 32 div 8) - int (max bpp 32 div 8)) mod 2 ^ 32"

lemma last_address_word:
  "uint (drop_bit 3 (width * height * bpp) - drop_bit 3 (if bpp > 32 then bpp else 32 :: u32)) =
    last_address (unat width) (unat height) (unat bpp)"
proof -
  have "unat (drop_bit 3 (width * height * bpp)) = unat width * unat height * unat bpp mod 2 ^ 32 div 8"
    by (simp add: unat_drop_bit_eq drop_bit_eq_div unat_word_ariths mod_mult_left_eq)
  moreover have "unat (drop_bit 3 (if bpp > 32 then bpp else 32)) = max (unat bpp) 32 div 8"
    by (simp add: unat_drop_bit_eq drop_bit_eq_div word_less_nat_alt max_def unat_div)
  moreover have "uint (x - y) = (int (unat x) - int (unat y)) mod 2 ^ 32" for x y :: u32
    by (simp add: uint_word_ariths)
  ultimately show ?thesis by (simp only: last_address_def)
qed


text \<open>The constants of a copy, and the state commands of its calls.\<close>

lemma copy_region_calls:
  assumes "unat (bic_width r) < 2 ^ 24" "unat (bic_height r) < 2 ^ 24"
  obtains cs vert frag width height where "copy_region dev bufp buf img i r h = Some cs"
    "state_cmds_of cs = [BindPipeline VK_PIPELINE_BIND_POINT_GRAPHICS (h_pipeline h),
      SetViewport [quad_viewport 0 0 width height], BindVertexBuffers 0 [(emulFsqVertexBuffer dev, 0)],
      PushConstants 1 0 16 (words_bytes vert), PushConstants 16 0 16 (words_bytes frag)]"
    "f32_value width = Some (of_nat (unat (bic_width r)))" "f32_value height = Some (of_nat (unat (bic_height r)))"
    "length vert = 4" "map f32_value vert = map Some [1, 8 * of_nat (unat (bic_width r)), 8 * of_nat (unat (bic_height r)), 1]"
    "length frag = 4" "f32_value (frag ! 0) = Some (of_nat (unat (bic_width r)))"
    "f32_value (frag ! 1) = Some (of_nat (unat (getFormatBpp (im_format i))))"
    "frag ! 3 = ucast (bic_bufferOffset r) + bf_boundOffset buf"
    "uint (frag ! 2) = last_address (unat (bic_width r)) (unat (bic_height r)) (unat (getFormatBpp (im_format i)))"
proof -
  obtain width where w: "f32_of_u32 (bic_width r) = Some width" "f32_value width = Some (of_nat (unat (bic_width r)))"
    "\<not> f32_negative width" using f32_of_size [OF assms(1)] by metis
  obtain height where h: "f32_of_u32 (bic_height r) = Some height" "f32_value height = Some (of_nat (unat (bic_height r)))"
    "\<not> f32_negative height" using f32_of_size [OF assms(2)] by metis
  obtain vert where v: "vertConstants width height = Some vert" "length vert = 4"
    "map f32_value vert = map Some [1, 8 * of_nat (unat (bic_width r)), 8 * of_nat (unat (bic_height r)), 1]"
    using vertConstants_exact [OF w(2,3) assms(1) h(2,3) assms(2)] by metis
  have "unat (getFormatBpp (im_format i)) < 2 ^ 24" using getFormatBpp_le [of "im_format i"] by simp
  then obtain bpp where bpp: "f32_of_u32 (getFormatBpp (im_format i)) = Some bpp"
    "f32_value bpp = Some (of_nat (unat (getFormatBpp (im_format i))))" by (rule f32_of_size)
  obtain frag where f: "copy_fragConstants (bic_width r) (bic_height r) (getFormatBpp (im_format i)) buf r = Some frag"
    and frag: "length frag = 4" "frag ! 0 = width" "frag ! 1 = bpp" "frag ! 3 = ucast (bic_bufferOffset r) + bf_boundOffset buf"
      "frag ! 2 = drop_bit 3 (bic_width r * bic_height r * getFormatBpp (im_format i)) -
        drop_bit 3 (if getFormatBpp (im_format i) > 32 then getFormatBpp (im_format i) else 32)"
    by (simp add: copy_fragConstants_def w(1) bpp(1))
  obtain cs where cs: "copy_region dev bufp buf img i r h = Some cs"
    and sc: "state_cmds_of cs = [BindPipeline VK_PIPELINE_BIND_POINT_GRAPHICS (h_pipeline h),
      SetViewport [quad_viewport 0 0 width height], BindVertexBuffers 0 [(emulFsqVertexBuffer dev, 0)],
      PushConstants 1 0 16 (words_bytes vert), PushConstants 16 0 16 (words_bytes frag)]"
    by (simp add: copy_region_def Let_def w(1) h(1) v(1,2) f frag(1) createRendertarget_def createPipeline_def begin_offscreen_def
        bind_quad_def push_words_def)
  show ?thesis by (rule that [OF cs sc w(2) h(2) v(2,3) frag(1)]) (simp_all add: frag(2,3,4) frag(3) [unfolded One_nat_def] w(2) bpp(2) del: of_nat_unat,
      simp only: frag(5) last_address_word)
qed


text \<open>An example.\<close>

definition ex_handles :: emul_handles where
  "ex_handles = \<lparr>h_bufferView = 8, h_set = 16, h_srcView = 24, h_view = 32, h_renderPass = 40, h_framebuffer = 48,
     h_layout = 56, h_pipeline = 64, h_sampler = 72\<rparr>"

definition ex_emulation :: emul_device where
  "ex_emulation = \<lparr>emulFsqVertexBuffer = 104, emulDescriptorPool = 112, emulBufferDsl = 120, emulTextureDsl = 128,
     emulClearDsl = 136, emulBufferToTextureShaderModule = 144, emulTextureToTextureShaderModule = 152,
     emulClearShaderModule = 160, emulClearNoColorShaderModule = 168\<rparr>"

lemma f32_round_small: "f32_round False 0 = Some 0" "f32_round False 1 = Some F32_ONE"
  using f32_round_exact [OF f32_literals(1)] f32_round_exact [OF f32_literals(2)] by (simp_all add: f32_negative_def)

lemma f32_convert_small:
  "f32_of_u32 0 = Some 0" "f32_of_u32 1 = Some F32_ONE" "f32_of_s32 0 = Some 0" "f32_div 0 F32_ONE = Some 0"
  "f32_div F32_ONE F32_ONE = Some F32_ONE"
  by (simp_all add: f32_of_u32_def f32_of_s32_def f32_div_def f32_round_small f32_literals) (simp_all add: f32_negative_def f32_round_small)

lemma vertConstants_small: obtains vert where "vertConstants F32_ONE F32_ONE = Some vert"
  using vertConstants_exact [of F32_ONE 1 F32_ONE 1] by (auto simp: f32_literals f32_negative_def)

lemma ex_clear_fragConstants:
  "clear_fragConstants \<lparr>ca_aspectMask = 1, ca_clearValue = offscreen_clear\<rparr> = Some [0xffff00ff, 0xf49700ff, 0xffffff]"
  by code_simp

definition ex_clear :: "(VkClearAttachment \<times> emul_handles) list" where
  "ex_clear = [(\<lparr>ca_aspectMask = 1, ca_clearValue = offscreen_clear\<rparr>, ex_handles)]"

definition ex_copy_region :: VkBufferImageCopy where
  "ex_copy_region = \<lparr>bic_bufferOffset = 64, bic_mipLevel = 0, bic_baseArrayLayer = 0, bic_width = 640, bic_height = 480\<rparr>"

definition ex_buffer :: buffer where
  "ex_buffer = \<lparr>bf_size = 2097152, bf_usage = 1, bf_boundMem = 200, bf_boundOffset = 4096, bf_alignment = 4096, bf_alignedSize = 2097152\<rparr>"

lemma ex_clear_calls:
  obtains cs st where "vkCmdClearAttachments ex_emulation (ex_cmdbuf\<lparr>cb_currRenderPass := 40\<rparr>) ex_clear
    [\<lparr>rc_x = 0, rc_y = 0, rc_width = 1, rc_height = 1\<rparr>] = Some (cs, st)"
proof -
  obtain vert where v: "vertConstants F32_ONE F32_ONE = Some vert" by (rule vertConstants_small)
  show ?thesis
    by (rule that) (simp add: vkCmdClearAttachments_def ex_clear_def clear_attachment_def ex_clear_fragConstants clear_rect_def
      f32_convert_small v)
qed


lemma ex_copy_calls:
  obtains cs i' where "vkCmdCopyBufferToImage ex_emulation 80 ex_buffer 88 ex_image 1 [(ex_copy_region, ex_handles)] = Some (cs, i')"
proof -
  obtain cs where "copy_region ex_emulation 80 ex_buffer 88 ex_image ex_copy_region ex_handles = Some cs"
    using copy_region_calls [of ex_copy_region ex_emulation 80 ex_buffer 88 ex_image ex_handles]
    by (auto simp: ex_copy_region_def)
  then show ?thesis by (intro that) (simp add: vkCmdCopyBufferToImage_def)
qed

text \<open>The blit of one texel of an image of one texel to another one.\<close>

definition ex_texel :: image where
  "ex_texel = ex_image\<lparr>im_width := 1, im_height := 1\<rparr>"

lemma ex_blit_calls:
  obtains cs where "vkCmdBlitImage ex_emulation 80 ex_texel 88 ex_texel [1, 0, 0, 1, 0, 0, 0, 1, 1, 1, 1, 0, 0, 1, 0, 0, 0, 1, 1, 1]
    VK_FILTER_LINEAR [ex_handles] = Some cs"
proof -
  obtain vert where v: "vertConstants F32_ONE F32_ONE = Some vert" by (rule vertConstants_small)
  have f: "im_width ex_texel = 1" "im_height ex_texel = 1" by (simp_all add: ex_texel_def)
  show ?thesis
    by (rule that) (simp add: vkCmdBlitImage_def blit_at_def blit_region_def blit_fragConstants_def blit_extent_def
      texcoord_offset_def texcoord_scale_def level_size_def f32_convert_small v f)
qed

definition ex_env :: "emul_object list \<Rightarrow> emul_env" where
  "ex_env live = \<lparr>ev_live = live, ev_layout = (\<lambda>p. NULL), ev_sets = (\<lambda>l. []), ev_written = (\<lambda>ds. []), ev_pipeline = NULL\<rparr>"

lemma emulation_lifetimes_witness:
  "(\<exists>cs i'. vkCmdCopyBufferToImage ex_emulation 80 ex_buffer 88 ex_image 1 [(ex_copy_region, ex_handles)] = Some (cs, i') \<and>
     ends_with cs (ex_env []) [BufferView 8] 64) \<and>
   (\<exists>cs. vkCmdBlitImage ex_emulation 80 ex_texel 88 ex_texel [1, 0, 0, 1, 0, 0, 0, 1, 1, 1, 1, 0, 0, 1, 0, 0, 0, 1, 1, 1]
       VK_FILTER_LINEAR [ex_handles] = Some cs \<and> ends_with cs (ex_env [BufferView 8]) [BufferView 8] 64) \<and>
   (\<exists>cs st. vkCmdClearAttachments ex_emulation (ex_cmdbuf\<lparr>cb_currRenderPass := 40\<rparr>) ex_clear
       [\<lparr>rc_x = 0, rc_y = 0, rc_width = 1, rc_height = 1\<rparr>] = Some (cs, st) \<and>
     ends_with cs (ex_env [RenderPass 40]) [RenderPass 40] 64)"
proof (intro conjI)
  obtain cs i' where c: "vkCmdCopyBufferToImage ex_emulation 80 ex_buffer 88 ex_image 1 [(ex_copy_region, ex_handles)] = Some (cs, i')"
    by (rule ex_copy_calls)
  have "ends_with cs (ex_env []) (map (\<lambda>(r, h). BufferView (h_bufferView h)) (rev [(ex_copy_region, ex_handles)]) @ ev_live (ex_env []))
      (last_pipeline (map snd [(ex_copy_region, ex_handles)]) (ex_env []))"
    by (rule emulation_lifetimes [THEN conjunct1, THEN mp, OF c])
  then show "\<exists>cs i'. vkCmdCopyBufferToImage ex_emulation 80 ex_buffer 88 ex_image 1 [(ex_copy_region, ex_handles)] = Some (cs, i') \<and>
     ends_with cs (ex_env []) [BufferView 8] 64" using c by (auto simp: ex_handles_def ex_env_def last_pipeline_def)
next
  obtain cs where c: "vkCmdBlitImage ex_emulation 80 ex_texel 88 ex_texel
      [1, 0, 0, 1, 0, 0, 0, 1, 1, 1, 1, 0, 0, 1, 0, 0, 0, 1, 1, 1] VK_FILTER_LINEAR [ex_handles] = Some cs"
    by (rule ex_blit_calls)
  have "ends_with cs (ex_env [BufferView 8]) (ev_live (ex_env [BufferView 8])) (last_pipeline [ex_handles] (ex_env [BufferView 8]))"
    by (rule emulation_lifetimes [THEN conjunct2, THEN conjunct1, THEN mp, OF c])
  then show "\<exists>cs. vkCmdBlitImage ex_emulation 80 ex_texel 88 ex_texel [1, 0, 0, 1, 0, 0, 0, 1, 1, 1, 1, 0, 0, 1, 0, 0, 0, 1, 1, 1]
       VK_FILTER_LINEAR [ex_handles] = Some cs \<and> ends_with cs (ex_env [BufferView 8]) [BufferView 8] 64"
    using c by (auto simp: ex_handles_def ex_env_def last_pipeline_def)
next
  let ?b = "ex_cmdbuf\<lparr>cb_currRenderPass := 40\<rparr>"
  obtain cs st where c: "vkCmdClearAttachments ex_emulation ?b ex_clear
      [\<lparr>rc_x = 0, rc_y = 0, rc_width = 1, rc_height = 1\<rparr>] = Some (cs, st)" by (rule ex_clear_calls)
  have "ends_with cs (ex_env [RenderPass 40]) (ev_live (ex_env [RenderPass 40]))
      (if cb_currRenderPass ?b = NULL then ev_pipeline (ex_env [RenderPass 40]) else last_pipeline (map snd ex_clear) (ex_env [RenderPass 40]))"
    by (rule emulation_lifetimes [THEN conjunct2, THEN conjunct2, THEN mp, OF conjI [OF _ c]]) (simp add: ex_env_def)
  then show "\<exists>cs st. vkCmdClearAttachments ex_emulation ?b ex_clear
       [\<lparr>rc_x = 0, rc_y = 0, rc_width = 1, rc_height = 1\<rparr>] = Some (cs, st) \<and>
     ends_with cs (ex_env [RenderPass 40]) [RenderPass 40] 64" using c by (auto simp: ex_handles_def ex_env_def last_pipeline_def ex_clear_def)
qed

lemma clear_restores_state_witness:
  "\<exists>cs st b'. vkCmdClearAttachments ex_emulation (ex_cmdbuf\<lparr>cb_currRenderPass := 40\<rparr>) ex_clear
      [\<lparr>rc_x = 0, rc_y = 0, rc_width = 1, rc_height = 1\<rparr>] = Some (cs, st) \<and>
    restore_state st (fold apply_cmd (state_cmds_of cs) (ex_cmdbuf\<lparr>cb_currRenderPass := 40\<rparr>)) = b' \<and>
    cb_graphicsPipeline b' = 0 \<and> ds_viewport (cb_dynamic b') = ex_viewport \<and> cb_pushConstantBufferPixel b' = replicate 256 0"
proof -
  let ?b = "ex_cmdbuf\<lparr>cb_currRenderPass := 40\<rparr>"
  obtain cs st where c: "vkCmdClearAttachments ex_emulation ?b ex_clear
      [\<lparr>rc_x = 0, rc_y = 0, rc_width = 1, rc_height = 1\<rparr>] = Some (cs, st)" by (rule ex_clear_calls)
  have "cb_typed ?b" by (simp add: cb_typed_def ex_cmdbuf_def ex_dynamic_def)
  from clear_restores_state [OF this c] show ?thesis using c
    by (intro exI [of _ cs] exI [of _ st] exI [of _ "?b\<lparr>cb_dirty := fold cmd_dirties (state_cmds_of cs) (cb_dirty ?b)\<rparr>"])
      (simp add: ex_cmdbuf_def ex_dynamic_def)
qed


lemma stage_index: "ulog2 1 = 0" "ulog2 16 = 4"
  by code_simp+

definition ex_emulated_objects :: "VkPipelineColorBlendAttachmentState pipeline \<Rightarrow> VkPipelineColorBlendAttachmentState draw_objects" where
  "ex_emulated_objects pip = \<lparr>ob_images = Map.empty, ob_mems = Map.empty, ob_buffers = Map.empty, ob_views = Map.empty,
     ob_bufferViews = Map.empty, ob_samplers = Map.empty, ob_pipelines = [64 \<mapsto> pip], ob_modules = Map.empty\<rparr>"

lemma emulated_draw_undefined_witness:
  "\<exists>pip. vkCreateGraphicsPipelines [quad_pipeline 0 no_depth_stencil 144 56 40] [ex_pipeline_with []] (replicate 9 True) =
      Some (VK_SUCCESS, [pip]) \<and>
    (let b = ex_cmdbuf\<lparr>cb_graphicsPipeline := 64\<rparr>;
         d = \<lparr>dw_mem = Map.empty, dw_pools = Map.empty, dw_sets = Map.empty, dw_images = Map.empty, dw_buffers = Map.empty,
           dw_texels = Map.empty, dw_layouts = Map.empty\<rparr>
     in vkCmdDraw (ex_emulated_objects pip) d 4096 6 1 0 0 \<lparr>cw_mem = Map.empty, cw_cps = Map.empty, cw_cbs = [4096 \<mapsto> b]\<rparr> = None)"
proof -
  have r: "replicate 9 True = [True, True, True, True, True, True, True, True, True]" by (simp add: eval_nat_numeral)
  obtain pip where p: "vkCreateGraphicsPipelines [quad_pipeline 0 no_depth_stencil 144 56 40] [ex_pipeline_with []] (replicate 9 True) =
      Some (VK_SUCCESS, [pip])"
    by (simp add: r create_pipeline_def alloc_or_fail_def alloc_copy_def quad_pipeline_def quad_stages_def
        emul_attributes_def copy_viewports_def copy_scissors_def dynamic_def put_at_def stage_index Let_def)
  show ?thesis
    by (intro exI [of _ pip] conjI p)
      (simp add: Let_def emulated_draw_undefined [OF p] bound_pipeline_def ex_emulated_objects_def)
qed

end
