(* ===== verification/Presentation.thy ===== *)
theory Presentation
  imports Queue_Submit
begin

text \<open>
  Presentation (driver/wsi.c and driver/modeset.c): an application that acquires and presents the
  images of a swapchain, the thread that flips to a presented image once its rendering has finished,
  and the display.  The critical sections of modeset.c, between \<open>sem_wait\<close> and \<open>sem_post\<close> of the binary
  semaphore of the flip queue, are the steps; the flip queue is the list of the data blocks that the
  queue of fifo.c holds, with their contents (\<open>Flip_Queue\<close> shows that fifo.c implements it).  One
  surface with one swapchain that exists throughout.
\<close>

subsection \<open>The flip queue\<close>

record vsyncData =
  vd_i :: addr
  vd_s :: addr
  vd_flipPending :: u32
  vd_seqno :: u64

text \<open>The contents of the data blocks, the blocks in use, oldest first, and the free ones.\<close>

record flip_queue =
  fq_data :: "addr \<Rightarrow> vsyncData"
  fq_elems :: "addr list"
  fq_free :: "addr list"

text \<open>An element is added to a full queue through a null pointer.\<close>

definition fq_add :: "flip_queue \<Rightarrow> vsyncData \<Rightarrow> flip_queue option" where
  "fq_add q d = (case fq_free q of [] \<Rightarrow> None
     | p # ps \<Rightarrow> Some (q\<lparr>fq_data := (fq_data q)(p := d), fq_elems := fq_elems q @ [p], fq_free := ps\<rparr>))"

definition fq_last :: "flip_queue \<Rightarrow> addr" where
  "fq_last q = (case fq_elems q of [] \<Rightarrow> NULL | p # ps \<Rightarrow> p)"

definition fq_remove :: "flip_queue \<Rightarrow> (flip_queue \<times> vsyncData) option" where
  "fq_remove q = (case fq_elems q of [] \<Rightarrow> None
     | p # ps \<Rightarrow> Some (q\<lparr>fq_elems := ps, fq_free := p # fq_free q\<rparr>, fq_data q p))"

definition fq_write :: "addr \<Rightarrow> (vsyncData \<Rightarrow> vsyncData) \<Rightarrow> flip_queue \<Rightarrow> flip_queue" where
  "fq_write p f q = q\<lparr>fq_data := (fq_data q)(p := f (fq_data q p))\<rparr>"

subsection \<open>The swapchain\<close>

record swapchain =
  sc_images :: "addr list"
  sc_inFlight :: "u32 list"
  sc_numImages :: u32
  sc_backbufferIdx :: u32
  sc_surface :: addr

text \<open>The image that comes back from the display is not in flight any more.\<close>

definition clear_in_flight :: "addr \<Rightarrow> addr \<Rightarrow> swapchain \<Rightarrow> swapchain" where
  "clear_in_flight i surf sc =
     (case find (\<lambda>c. sc_images sc ! c = i \<and> sc_surface sc = surf) [0 ..< unat (sc_numImages sc)] of
        None \<Rightarrow> sc
      | Some c \<Rightarrow> sc\<lparr>sc_inFlight := (sc_inFlight sc)[c := 0]\<rparr>)"

text \<open>The next image that is not in flight, or else the current one.\<close>

fun next_backbuffer :: "nat \<Rightarrow> u32 \<Rightarrow> swapchain \<Rightarrow> u32" where
  "next_backbuffer 0 candidateIdx sc = sc_backbufferIdx sc"
| "next_backbuffer (Suc k) candidateIdx sc =
     (if sc_inFlight sc ! unat candidateIdx = 0 then candidateIdx
      else next_backbuffer k ((candidateIdx + 1) mod sc_numImages sc) sc)"

definition next_image :: "addr \<Rightarrow> addr \<Rightarrow> swapchain \<Rightarrow> swapchain" where
  "next_image i surf sc =
     (let sc = (if i \<noteq> NULL \<and> surf \<noteq> NULL then clear_in_flight i surf sc else sc)
      in sc\<lparr>sc_backbufferIdx := next_backbuffer (unat (sc_numImages sc))
           ((sc_backbufferIdx sc + 1) mod sc_numImages sc) sc\<rparr>)"

text \<open>The semaphore, which must be unsignalled, and the fence of an acquisition.\<close>

definition acquire_signal :: "addr \<Rightarrow> addr \<Rightarrow> sems \<times> fences \<Rightarrow> (sems \<times> fences) option" where
  "acquire_signal sem fence s = do {
     semVal \<leftarrow> fst s sem;
     if semVal \<noteq> 0 then None else do {
       S \<leftarrow> sem_post (fst s) sem;
       if fence = NULL then Some (S, snd s)
       else do { f \<leftarrow> snd s fence; Some (S, (snd s)(fence \<mapsto> f\<lparr>fn_signaled := 1\<rparr>)) } } }"

definition vkGetSwapchainImagesKHR :: "swapchain \<Rightarrow> u32 option \<Rightarrow> u32 \<times> addr list \<times> VkResult" where
  "vkGetSwapchainImagesKHR sc arraySize = (case arraySize of
     None \<Rightarrow> (sc_numImages sc, [], VK_SUCCESS)
   | Some n \<Rightarrow> let elementsWritten = min (sc_numImages sc) n
       in (elementsWritten, map (\<lambda>c. sc_images sc ! c) [0 ..< unat elementsWritten],
           if elementsWritten < sc_numImages sc then VK_INCOMPLETE else VK_SUCCESS))"

subsection \<open>Taking over the display\<close>

text \<open>What a CRTC shows is the image whose framebuffer it scans out.\<close>

record modeset_saved_state =
  ms_used :: u32
  ms_crtc :: "addr option"

record display =
  dp_screen :: addr
  dp_states :: "modeset_saved_state list"
  dp_savedState :: u32

text \<open>
  \<open>modeset_present\<close> keeps what the display shows in the first free slot and sets the mode with the
  image; it recognises a surface that has done so by the number of its slot.
\<close>

definition modeset_takeover :: "addr \<Rightarrow> bool \<Rightarrow> display \<Rightarrow> display" where
  "modeset_takeover buf crtc_ok dp =
     (if dp_savedState dp \<noteq> 0 then dp
      else let dp = (case find (\<lambda>c. ms_used (dp_states dp ! c) = 0) [0 ..< 32] of
               None \<Rightarrow> dp
             | Some c \<Rightarrow> dp\<lparr>dp_states := (dp_states dp)[c := \<lparr>ms_used = 1, ms_crtc = Some (dp_screen dp)\<rparr>],
                 dp_savedState := of_nat c\<rparr>)
        in if crtc_ok then dp\<lparr>dp_screen := buf\<rparr> else dp)"

text \<open>The part of \<open>modeset_destroy_surface\<close> that gives the display back.\<close>

definition modeset_restore :: "bool \<Rightarrow> display \<Rightarrow> display option" where
  "modeset_restore crtc_ok dp = (let s = dp_states dp ! unat (dp_savedState dp) in do {
     old \<leftarrow> ms_crtc s;
     Some (dp\<lparr>dp_screen := (if crtc_ok then old else dp_screen dp),
       dp_states := (dp_states dp)[unat (dp_savedState dp) := s\<lparr>ms_used := 0\<rparr>]\<rparr>) })"

subsection \<open>The threads\<close>

text \<open>The flip thread, with its \<open>lastFinishedSeqno\<close>: before it looks at the queue, before it waits for
  a job, and before the second critical section.\<close>

datatype flip_pc = F_Peek u64 | F_Wait u64 u64 | F_Flip u64

text \<open>The application: between calls; in \<open>modeset_acquire_image\<close> at the condition of its loop, in
  \<open>drmHandleEvent\<close>, before the critical section of the loop, and before the last one; in
  \<open>vkQueuePresentKHR\<close> before the image is added to the queue.\<close>

datatype app_pc = Running | Test bool bool | Handling | Checking | Removing | Adding u32

text \<open>
  The state of all.  \<open>w_held\<close>: the images acquired and not presented; \<open>w_flips\<close>: flips the display
  has not made yet, each with the data of its event and its image; \<open>w_events\<close>: events not handled yet.
  The last three fields are the history: what has been presented and flipped to, and whether the
  kernel has refused a flip.
\<close>

record 'k world =
  w_kernel :: 'k
  w_queue :: flip_queue
  w_flip :: flip_pc
  w_app :: app_pc
  w_request :: "addr \<times> addr"
  w_sc :: swapchain
  w_held :: "u32 list"
  w_signals :: "sems \<times> fences"
  w_lastEmitSeqno :: u64
  w_display :: display
  w_flips :: "(addr \<times> addr) list"
  w_events :: "addr list"
  w_presented :: "(addr \<times> u64) list"
  w_flipped :: "(addr \<times> u64) list"
  w_refused :: bool

text \<open>A step that is not possible now, one that is undefined or fails an assertion, and the next state.\<close>

datatype 'w outcome = Blocked | Undefined | Next 'w

definition VK_PRESENT_MODE_IMMEDIATE_KHR :: u32 where "VK_PRESENT_MODE_IMMEDIATE_KHR = 0"
definition VK_PRESENT_MODE_FIFO_KHR :: u32 where "VK_PRESENT_MODE_FIFO_KHR = 2"

subsection \<open>The flip thread\<close>

definition flip_peek :: "'k world \<Rightarrow> 'k world outcome" where
  "flip_peek w = (case w_flip w of
     F_Peek fin \<Rightarrow>
       let d = fq_last (w_queue w);
           seqno = (if d \<noteq> NULL then vd_seqno (fq_data (w_queue w) d) else 0)
       in Next (w\<lparr>w_flip := (if seqno \<noteq> 0 then F_Wait fin seqno else F_Peek fin)\<rparr>)
   | _ \<Rightarrow> Blocked)"

definition flip_wait :: "'k kernel \<Rightarrow> 'k world \<Rightarrow> 'k world outcome" where
  "flip_wait K w = (case w_flip w of
     F_Wait fin seqno \<Rightarrow>
       let (k, ret, fin, timeOut) = vc4_seqno_wait K (w_kernel w) fin seqno 1000000
       in Next (w\<lparr>w_kernel := k, w_flip := (if 0 < ret then F_Flip fin else F_Peek fin)\<rparr>)
   | _ \<Rightarrow> Blocked)"

text \<open>The second critical section; \<open>ok\<close>: whether the kernel accepts the flip, which the code ignores.\<close>

definition flip_show :: "(addr \<rightharpoonup> image) \<Rightarrow> bool \<Rightarrow> 'k world \<Rightarrow> 'k world outcome" where
  "flip_show I ok w = (case w_flip w of
     F_Flip fin \<Rightarrow>
       let p = fq_last (w_queue w); d = fq_data (w_queue w) p;
           w' = w\<lparr>w_flip := F_Peek fin, w_queue := fq_write p (vd_seqno_update (\<lambda>_. 0)) (w_queue w)\<rparr>;
           logged = w'\<lparr>w_flipped := w_flipped w @ [(vd_i d, vd_seqno d)], w_refused := (w_refused w \<or> \<not> ok)\<rparr>
       in if p = NULL then Undefined else (case I (vd_i d) of
          None \<Rightarrow> Undefined
        | Some i \<Rightarrow>
            if im_presentMode i = VK_PRESENT_MODE_FIFO_KHR
            then Next (logged\<lparr>w_queue := fq_write p (vd_flipPending_update (\<lambda>_. 1)) (w_queue w'),
              w_flips := (if ok then w_flips w @ [(p, vd_i d)] else w_flips w)\<rparr>)
            else if im_presentMode i = VK_PRESENT_MODE_IMMEDIATE_KHR
            then Next (logged\<lparr>w_display := (if ok then (w_display w)\<lparr>dp_screen := vd_i d\<rparr> else w_display w)\<rparr>)
            else Next w')
   | _ \<Rightarrow> Blocked)"

text \<open>The display makes the next flip.\<close>

definition vblank :: "'k world \<Rightarrow> 'k world outcome" where
  "vblank w = (case w_flips w of
     [] \<Rightarrow> Blocked
   | (p, i) # fs \<Rightarrow> Next (w\<lparr>w_flips := fs, w_events := w_events w @ [p], w_display := (w_display w)\<lparr>dp_screen := i\<rparr>\<rparr>))"

subsection \<open>The application\<close>

text \<open>The end of \<open>vkAcquireNextImageKHR\<close>, with what \<open>modeset_acquire_image\<close> has returned.\<close>

definition finish_acquire :: "addr \<Rightarrow> addr \<Rightarrow> 'k world \<Rightarrow> 'k world outcome" where
  "finish_acquire i surf w =
     (if sc_numImages (w_sc w) = 0 then Undefined
      else let sc = next_image i surf (w_sc w) in
        case acquire_signal (fst (w_request w)) (snd (w_request w)) (w_signals w) of
          None \<Rightarrow> Undefined
        | Some s \<Rightarrow> Next (w\<lparr>w_app := Running, w_sc := sc, w_held := w_held w @ [sc_backbufferIdx sc], w_signals := s\<rparr>))"

definition begin_acquire :: "addr \<Rightarrow> addr \<Rightarrow> 'k world \<Rightarrow> 'k world outcome" where
  "begin_acquire sem fence w = (if w_app w \<noteq> Running then Blocked
     else if sem = NULL \<and> fence = NULL then Undefined
     else let w = w\<lparr>w_request := (sem, fence)\<rparr>; last = fq_last (w_queue w); d = fq_data (w_queue w) last
       in if last \<noteq> NULL then Next (w\<lparr>w_app := Test (vd_flipPending d \<noteq> 0) (vd_seqno d > 0)\<rparr>)
          else finish_acquire NULL NULL w)"

definition acquire_test :: "'k world \<Rightarrow> 'k world outcome" where
  "acquire_test w = (case w_app w of
     Test pending gpuprocessing \<Rightarrow>
       Next (w\<lparr>w_app := (if pending then Handling else if gpuprocessing then Checking else Removing)\<rparr>)
   | _ \<Rightarrow> Blocked)"

text \<open>\<open>drmHandleEvent\<close> calls \<open>modeset_page_flip_event\<close> for events; it may return without, if it cannot
  read any.\<close>

definition modeset_page_flip_event :: "addr \<Rightarrow> flip_queue \<Rightarrow> flip_queue" where
  "modeset_page_flip_event data q = (if data \<noteq> NULL then fq_write data (vd_flipPending_update (\<lambda>_. 0)) q else q)"

definition handle_event :: "'k world \<Rightarrow> 'k world outcome" where
  "handle_event w = (case (w_app w, w_events w) of
     (Handling, p # ps) \<Rightarrow> Next (w\<lparr>w_events := ps, w_queue := modeset_page_flip_event p (w_queue w)\<rparr>)
   | _ \<Rightarrow> Blocked)"

definition events_handled :: "'k world \<Rightarrow> 'k world outcome" where
  "events_handled w = (if w_app w = Handling then Next (w\<lparr>w_app := Checking\<rparr>) else Blocked)"

definition acquire_check :: "'k world \<Rightarrow> 'k world outcome" where
  "acquire_check w = (if w_app w \<noteq> Checking then Blocked
     else let d = fq_last (w_queue w) in
       if d = NULL then Undefined
       else Next (w\<lparr>w_app := Test (vd_flipPending (fq_data (w_queue w) d) \<noteq> 0) (vd_seqno (fq_data (w_queue w) d) > 0)\<rparr>))"

text \<open>If the queue were empty the caller would read a local variable that is not initialised.\<close>

definition acquire_remove :: "'k world \<Rightarrow> 'k world outcome" where
  "acquire_remove w = (if w_app w \<noteq> Removing then Blocked
     else case fq_remove (w_queue w) of
       None \<Rightarrow> Undefined
     | Some (q, d) \<Rightarrow> finish_acquire (vd_i d) (vd_s d) (w\<lparr>w_queue := q\<rparr>))"

text \<open>\<open>vkQueuePresentKHR\<close>: the semaphores, taking over the display, and the critical section in which
  the image is added.\<close>

definition begin_present :: "u32 \<Rightarrow> addr list \<Rightarrow> bool \<Rightarrow> 'k world \<Rightarrow> 'k world outcome" where
  "begin_present idx waits crtc_ok w = (if w_app w \<noteq> Running then Blocked
     else case sem_ops sem_wait waits (fst (w_signals w)) of
       None \<Rightarrow> Blocked
     | Some S \<Rightarrow> Next (w\<lparr>w_app := Adding idx, w_signals := (S, snd (w_signals w)),
         w_display := modeset_takeover (sc_images (w_sc w) ! unat idx) crtc_ok (w_display w)\<rparr>))"

definition add_present :: "'k world \<Rightarrow> 'k world outcome" where
  "add_present w = (case w_app w of
     Adding idx \<Rightarrow>
       let buf = sc_images (w_sc w) ! unat idx; seqno = w_lastEmitSeqno w;
           d = \<lparr>vd_i = buf, vd_s = sc_surface (w_sc w), vd_flipPending = 0, vd_seqno = seqno\<rparr>
       in (case fq_add (w_queue w) d of
          None \<Rightarrow> Undefined
        | Some q \<Rightarrow> Next (w\<lparr>w_queue := q, w_app := Running, w_held := remove1 idx (w_held w),
            w_sc := (w_sc w)\<lparr>sc_inFlight := (sc_inFlight (w_sc w))[unat idx := 1]\<rparr>,
            w_presented := w_presented w @ [(buf, seqno)]\<rparr>))
   | _ \<Rightarrow> Blocked)"

subsection \<open>The interleaving\<close>

text \<open>An acquisition passes an unsignalled semaphore, and a fence or none.\<close>

definition valid_signal :: "addr \<times> addr \<Rightarrow> sems \<times> fences \<Rightarrow> bool" where
  "valid_signal rq s \<longleftrightarrow> fst rq \<noteq> NULL \<and> fst s (fst rq) = Some 0 \<and> (snd rq = NULL \<or> snd rq \<in> dom (snd s))"

text \<open>
  The steps of all threads.  \<open>gpu\<close>: how the kernel's state changes by itself.  An application presents
  images that it holds; \<open>elsewhere\<close> is anything that it does outside of the presentation: submissions,
  signals and waits.
\<close>

inductive present_step ::
  "'k kernel \<Rightarrow> ('k \<Rightarrow> 'k \<Rightarrow> bool) \<Rightarrow> (addr \<rightharpoonup> image) \<Rightarrow> 'k world \<Rightarrow> 'k world outcome \<Rightarrow> bool"
  for K gpu I where
  peek: "present_step K gpu I w (flip_peek w)"
| wait: "present_step K gpu I w (flip_wait K w)"
| show_image: "present_step K gpu I w (flip_show I ok w)"
| flip_done: "present_step K gpu I w (vblank w)"
| gpu: "gpu (w_kernel w) k \<Longrightarrow> present_step K gpu I w (Next (w\<lparr>w_kernel := k\<rparr>))"
| elsewhere: "w_app w = Running \<Longrightarrow> gpu (w_kernel w) k \<Longrightarrow>
    present_step K gpu I w (Next (w\<lparr>w_kernel := k, w_signals := s, w_lastEmitSeqno := n\<rparr>))"
| acquire: "valid_signal (sem, fence) (w_signals w) \<Longrightarrow> present_step K gpu I w (begin_acquire sem fence w)"
| test: "present_step K gpu I w (acquire_test w)"
| event: "present_step K gpu I w (handle_event w)"
| handled: "present_step K gpu I w (events_handled w)"
| check: "present_step K gpu I w (acquire_check w)"
| remove: "present_step K gpu I w (acquire_remove w)"
| present: "idx \<in> set (w_held w) \<Longrightarrow> present_step K gpu I w (begin_present idx waits crtc_ok w)"
| add: "present_step K gpu I w (add_present w)"

text \<open>The states that are reached from \<open>w0\<close> through states in which \<open>P\<close> holds.\<close>

inductive presents ::
  "'k kernel \<Rightarrow> ('k \<Rightarrow> 'k \<Rightarrow> bool) \<Rightarrow> (addr \<rightharpoonup> image) \<Rightarrow> ('k world \<Rightarrow> bool) \<Rightarrow> 'k world \<Rightarrow> 'k world \<Rightarrow> bool"
  for K gpu I P w0 where
  start: "presents K gpu I P w0 w0"
| step: "presents K gpu I P w0 w \<Longrightarrow> present_step K gpu I w (Next w') \<Longrightarrow> P w' \<Longrightarrow> presents K gpu I P w0 w'"

text \<open>After the surface and the swapchain have been created.\<close>

definition swapchain_ok :: "(addr \<rightharpoonup> image) \<Rightarrow> swapchain \<Rightarrow> bool" where
  "swapchain_ok I sc \<longleftrightarrow> length (sc_images sc) = unat (sc_numImages sc) \<and> sc_numImages sc \<noteq> 0 \<and>
     length (sc_inFlight sc) = unat (sc_numImages sc) \<and> sc_backbufferIdx sc < sc_numImages sc \<and>
     set (sc_images sc) \<subseteq> dom I \<and> distinct (sc_images sc) \<and> NULL \<notin> set (sc_images sc) \<and> sc_surface sc \<noteq> NULL"

definition fresh_world :: "(addr \<rightharpoonup> image) \<Rightarrow> 'k world \<Rightarrow> bool" where
  "fresh_world I w \<longleftrightarrow> fq_elems (w_queue w) = [] \<and> length (fq_free (w_queue w)) = 2 \<and> distinct (fq_free (w_queue w)) \<and>
     NULL \<notin> set (fq_free (w_queue w)) \<and> w_flip w = F_Peek 0 \<and> w_app w = Running \<and> w_held w = [] \<and>
     w_flips w = [] \<and> w_events w = [] \<and> w_presented w = [] \<and> w_flipped w = [] \<and> \<not> w_refused w \<and>
     swapchain_ok I (w_sc w) \<and> (\<forall>x\<in>set (sc_inFlight (w_sc w)). x = 0) \<and>
     dp_screen (w_display w) \<notin> set (sc_images (w_sc w))"

end
