(* ===== verification/Flip_Queue.thy ===== *)
theory Flip_Queue
  imports Presentation Fifo_Refine
begin

text \<open>
  The queue of driver/fifo.c, as driver/modeset.c uses it, implements the flip queue of
  Presentation.thy: the data blocks in use are its elements, the free list of the data pool holds the
  free ones, and the bytes of each block in use are a \<open>vsyncData\<close>.
\<close>

text \<open>\<open>vsync\<close>: how the bytes of a data block are read as a \<open>vsyncData\<close>.\<close>

definition flip_fifo :: "(u8 list \<Rightarrow> vsyncData) \<Rightarrow> mem \<times> Fifo \<Rightarrow> flip_queue \<Rightarrow> bool" where
  "flip_fifo vsync s q \<longleftrightarrow> (\<exists>es fe. fifo_state (fst s) (snd s) es (rev (fq_elems q)) fe (fq_free q)) \<and>
     (\<forall>p\<in>set (fq_elems q). \<exists>bs. load_bytes (fst s) p (unat (f_dataSize (snd s))) = Some bs \<and> vsync bs = fq_data q p)"

lemma flip_fifo_last:
  assumes "flip_fifo vsync (m, f) q"
  shows "fifoGetLast (m, f) = Some (fq_last q)"
proof -
  obtain es fe where st: "fifo_state m f es (rev (fq_elems q)) fe (fq_free q)" using assms by (auto simp: flip_fifo_def)
  then have len: "length es = length (fq_elems q)" using fifo_held(1) [OF st] by simp
  show ?thesis
  proof (cases es rule: rev_cases)
    case Nil
    then have "f_last f = NULL" "fq_elems q = []" using st len by (simp_all add: fifo_state_def fifo_links_def)
    then show ?thesis by (simp add: fifoGetLast_def fq_last_def)
  next
    case (snoc es0 l)
    then obtain p ps where q: "fq_elems q = p # ps" using len by (cases "fq_elems q") auto
    have "f_last f = l" "l \<noteq> NULL" and D: "list_all2 (\<lambda>e d. load32 m (FifoElem_data e) = Some d) (es0 @ [l]) (rev ps @ [p])"
      using st fifo_elem(1) [OF st, of l] snoc q by (auto simp: fifo_state_def fifo_links_def)
    moreover have "load32 m (FifoElem_data l) = Some p"
      using D list_all2_append [of es0 "rev ps"] len snoc q by simp
    ultimately show ?thesis by (simp add: fifoGetLast_def fq_last_def q)
  qed
qed

lemma flip_fifo_add:
  assumes q: "flip_fifo vsync (m, f) q" "fq_add q d = Some q'"
    and src: "load_bytes m data (unat (f_dataSize f)) = Some bs" "vsync bs = d"
    and apart: "extent data (unat (f_dataSize f)) \<inter> fifo_area f = {}"
  shows "\<exists>m' f'. fifoAdd (m, f) data = Some ((m', f'), 1) \<and> flip_fifo vsync (m', f') q'"
proof -
  obtain c fd where fd: "fq_free q = c # fd" and
    q': "q' = q\<lparr>fq_data := (fq_data q)(c := d), fq_elems := fq_elems q @ [c], fq_free := fd\<rparr>"
    using q(2) by (auto simp: fq_add_def split: list.splits)
  obtain es fe where st: "fifo_state m f es (rev (fq_elems q)) fe (c # fd)" using q(1) fd by (auto simp: flip_fifo_def)
  then obtain p fe' where fe: "fe = p # fe'" using fifo_held [OF st] by (cases fe) auto
  note st' = st [unfolded fe]
  obtain m' f' where F: "fifoAdd (m, f) data = Some ((m', f'), 1)" "fifo_state m' f' (p # es) (c # rev (fq_elems q)) fe' fd"
      "load_bytes m' c (unat (f_dataSize f)) = Some bs" "agree_off (add_area f es p c) m m'" "f_dataSize f' = f_dataSize f"
    using fifoAdd_state [OF st' src(1) apart] by blast
  have "load_bytes m' x (unat (f_dataSize f)) = load_bytes m x (unat (f_dataSize f))" if "x \<in> set (fq_elems q)" for x
    using agree_load_bytes [OF F(4)] add_area_free(3) [OF st', of x] that by simp
  moreover have "c \<notin> set (fq_elems q)" using st by (auto simp: fifo_state_def)
  ultimately have "flip_fifo vsync (m', f') q'" using q(1) F(2,3,5) src(2) by (auto simp: flip_fifo_def q')
  then show ?thesis using F(1) by blast
qed

lemma flip_fifo_remove:
  assumes q: "flip_fifo vsync (m, f) q" "fq_remove q = Some (q', d)"
    and dst: "extent data (unat (f_dataSize f)) \<subseteq> dom m" "extent data (unat (f_dataSize f)) \<inter> fifo_area f = {}"
  shows "\<exists>m' f' bs. fifoRemove (m, f) data = Some ((m', f'), 1) \<and> flip_fifo vsync (m', f') q' \<and>
    load_bytes m' data (unat (f_dataSize f)) = Some bs \<and> vsync bs = d"
proof -
  obtain c cs where cs: "fq_elems q = c # cs" and
    q': "q' = q\<lparr>fq_elems := cs, fq_free := c # fq_free q\<rparr>" "d = fq_data q c"
    using q(2) by (auto simp: fq_remove_def split: list.splits)
  obtain es fe where st: "fifo_state m f es (rev cs @ [c]) fe (fq_free q)" using q(1) cs by (auto simp: flip_fifo_def)
  then obtain es0 l where es: "es = es0 @ [l]" using fifo_held(1) [OF st] by (cases es rule: rev_cases) auto
  obtain bs where bs: "load_bytes m c (unat (f_dataSize f)) = Some bs" "vsync bs = d"
    using q(1) cs q'(2) by (auto simp: flip_fifo_def)
  note st' = st [unfolded es]
  obtain m' f' where F: "fifoRemove (m, f) data = Some ((m', f'), 1)" "fifo_state m' f' es0 (rev cs) (l # fe) (c # fq_free q)"
      "load_bytes m' data (unat (f_dataSize f)) = Some bs"
      "agree_off (extent data (unat (f_dataSize f)) \<union> remove_area es0 l c) m m'" "f_dataSize f' = f_dataSize f"
    using fifoRemove_state [OF st' bs(1) dst] by auto
  have "load_bytes m' x (unat (f_dataSize f)) = load_bytes m x (unat (f_dataSize f))" if "x \<in> set cs" for x
  proof (rule agree_load_bytes [OF F(4)])
    have "extent x (unat (f_dataSize f)) \<inter> extent data (unat (f_dataSize f)) = {}"
      using fifo_data(3) [OF st', of x] that dst(2) by auto
    then show "extent x (unat (f_dataSize f)) \<inter> (extent data (unat (f_dataSize f)) \<union> remove_area es0 l c) = {}"
      using remove_area_cells(5) [OF st', of x] that by auto
  qed
  then have "flip_fifo vsync (m', f') q'" using q(1) F(2,5) cs by (auto simp: flip_fifo_def q'(1))
  then show ?thesis using F(1,3) bs(2) by blast
qed

end
