(* ===== verification/Presentation_Safety.thy ===== *)
theory Presentation_Safety
  imports Presentation Images
begin

text \<open>
  The invariant of presentation (Presentation.thy) when the application never holds more than two
  images: the flip queue never overflows, the event of a flip belongs to the oldest element, the
  images are flipped to in the order in which they are presented and after their rendering.
\<close>

abbreviation elems :: "'k world \<Rightarrow> addr list" where
  "elems w \<equiv> fq_elems (w_queue w)"

abbreviation slot :: "'k world \<Rightarrow> addr \<Rightarrow> vsyncData" where
  "slot w \<equiv> fq_data (w_queue w)"

definition few_held :: "nat \<Rightarrow> 'k world \<Rightarrow> bool" where
  "few_held n w \<longleftrightarrow> length (w_held w) \<le> n"

text \<open>A presented image that is flipped to: something has been rendered, in one of the two modes.\<close>

definition shown :: "(addr \<rightharpoonup> image) \<Rightarrow> addr \<times> u64 \<Rightarrow> bool" where
  "shown I x \<longleftrightarrow> snd x \<noteq> 0 \<and> (case I (fst x) of None \<Rightarrow> False
     | Some i \<Rightarrow> im_presentMode i \<in> {VK_PRESENT_MODE_FIFO_KHR, VK_PRESENT_MODE_IMMEDIATE_KHR})"

subsection \<open>The invariant\<close>

definition queue_inv :: "'k world \<Rightarrow> bool" where
  "queue_inv w \<longleftrightarrow> distinct (elems w @ fq_free (w_queue w)) \<and> length (elems w @ fq_free (w_queue w)) = 2 \<and>
     NULL \<notin> set (elems w @ fq_free (w_queue w)) \<and> length (elems w) + length (w_held w) \<le> 2"

definition swapchain_inv :: "(addr \<rightharpoonup> image) \<Rightarrow> 'k world \<Rightarrow> bool" where
  "swapchain_inv I w \<longleftrightarrow> swapchain_ok I (w_sc w) \<and> (\<forall>c\<in>set (w_held w). c < sc_numImages (w_sc w)) \<and>
     (\<forall>p\<in>set (elems w). vd_i (slot w p) \<in> set (sc_images (w_sc w)))"

definition idle :: "vsyncData \<Rightarrow> bool" where
  "idle d \<longleftrightarrow> vd_flipPending d = 0 \<and> vd_seqno d = 0"

definition app_inv :: "'k world \<Rightarrow> bool" where
  "app_inv w \<longleftrightarrow> (case w_app w of
     Running \<Rightarrow> True
   | Adding idx \<Rightarrow> idx \<in> set (w_held w)
   | Test pending gpuprocessing \<Rightarrow> valid_signal (w_request w) (w_signals w) \<and> elems w \<noteq> [] \<and>
       (\<not> pending \<and> \<not> gpuprocessing \<longrightarrow> idle (slot w (hd (elems w))))
   | Removing \<Rightarrow> valid_signal (w_request w) (w_signals w) \<and> elems w \<noteq> [] \<and> idle (slot w (hd (elems w)))
   | _ \<Rightarrow> valid_signal (w_request w) (w_signals w) \<and> elems w \<noteq> [])"

definition flip_inv :: "('k \<Rightarrow> u64) \<Rightarrow> 'k world \<Rightarrow> bool" where
  "flip_inv finished w \<longleftrightarrow> (case w_flip w of
     F_Peek fin \<Rightarrow> fin \<le> finished (w_kernel w)
   | F_Wait fin seqno \<Rightarrow> fin \<le> finished (w_kernel w) \<and> elems w \<noteq> [] \<and> seqno \<noteq> 0 \<and>
       vd_seqno (slot w (hd (elems w))) = seqno
   | F_Flip fin \<Rightarrow> fin \<le> finished (w_kernel w) \<and> elems w \<noteq> [] \<and> vd_seqno (slot w (hd (elems w))) \<noteq> 0 \<and>
       vd_seqno (slot w (hd (elems w))) \<le> finished (w_kernel w))"

text \<open>The events that are still to be handled.\<close>

definition outstanding :: "'k world \<Rightarrow> addr list" where
  "outstanding w = map fst (w_flips w) @ w_events w"

definition event_inv :: "'k world \<Rightarrow> bool" where
  "event_inv w \<longleftrightarrow> (\<forall>p\<in>set (tl (elems w)). vd_flipPending (slot w p) = 0) \<and>
     outstanding w \<in> {[], take 1 (elems w)} \<and>
     (elems w \<noteq> [] \<longrightarrow>
       (vd_seqno (slot w (hd (elems w))) \<noteq> 0 \<longrightarrow> vd_flipPending (slot w (hd (elems w))) = 0) \<and>
       (outstanding w \<noteq> [] \<longrightarrow> vd_flipPending (slot w (hd (elems w))) \<noteq> 0) \<and>
       (vd_flipPending (slot w (hd (elems w))) \<noteq> 0 \<longrightarrow> outstanding w \<noteq> [] \<or> w_refused w))"

definition history_inv :: "(addr \<rightharpoonup> image) \<Rightarrow> ('k \<Rightarrow> u64) \<Rightarrow> 'k world \<Rightarrow> bool" where
  "history_inv I finished w \<longleftrightarrow> (\<forall>x\<in>set (w_flipped w). snd x \<le> finished (w_kernel w)) \<and>
     (\<exists>old rest. w_presented w = old @ rest \<and>
        list_all2 (\<lambda>p x. vd_i (slot w p) = fst x) (elems w) rest \<and>
        list_all2 (\<lambda>p x. vd_seqno (slot w p) = snd x) (tl (elems w)) (tl rest) \<and>
        (elems w \<noteq> [] \<longrightarrow> vd_seqno (slot w (hd (elems w))) \<in> {0, snd (hd rest)}) \<and>
        w_flipped w = filter (shown I)
          (old @ (if elems w \<noteq> [] \<and> vd_seqno (slot w (hd (elems w))) = 0 then [hd rest] else [])))"

lemmas present_inv_defs = queue_inv_def swapchain_inv_def app_inv_def flip_inv_def event_inv_def outstanding_def

definition present_inv :: "(addr \<rightharpoonup> image) \<Rightarrow> ('k \<Rightarrow> u64) \<Rightarrow> 'k world \<Rightarrow> bool" where
  "present_inv I finished w \<longleftrightarrow> queue_inv w \<and> swapchain_inv I w \<and> app_inv w \<and> flip_inv finished w \<and>
     event_inv w \<and> history_inv I finished w"

lemma present_inv_fresh: "fresh_world I w \<Longrightarrow> present_inv I finished w"
  by (simp add: fresh_world_def present_inv_def present_inv_defs history_inv_def)

subsection \<open>The steps keep it\<close>

lemma next_backbuffer_less:
  assumes "sc_backbufferIdx sc < sc_numImages sc" "c < sc_numImages sc"
  shows "next_backbuffer k c sc < sc_numImages sc"
  using assms(2)
proof (induction k arbitrary: c)
  case (Suc k)
  have "(c + 1) mod sc_numImages sc < sc_numImages sc" by (rule word_mod_less_divisor) (rule order.strict_trans1 [OF word_zero_le Suc.prems])
  then show ?case using Suc by simp
qed (simp add: assms(1))

lemma clear_in_flight_simps [simp]:
  "sc_images (clear_in_flight i s sc) = sc_images sc" "sc_numImages (clear_in_flight i s sc) = sc_numImages sc"
  "sc_backbufferIdx (clear_in_flight i s sc) = sc_backbufferIdx sc" "sc_surface (clear_in_flight i s sc) = sc_surface sc"
  "length (sc_inFlight (clear_in_flight i s sc)) = length (sc_inFlight sc)"
  by (simp_all add: clear_in_flight_def split: option.split)

lemma next_image_ok:
  assumes "swapchain_ok I sc"
  shows "swapchain_ok I (next_image i s sc)" "sc_backbufferIdx (next_image i s sc) < sc_numImages sc"
    "sc_images (next_image i s sc) = sc_images sc" "sc_numImages (next_image i s sc) = sc_numImages sc"
    "sc_surface (next_image i s sc) = sc_surface sc"
proof -
  have n: "sc_backbufferIdx sc < sc_numImages sc" "sc_numImages sc \<noteq> 0" using assms by (simp_all add: swapchain_ok_def)
  have "(sc_backbufferIdx sc + 1) mod sc_numImages sc < sc_numImages sc"
    using n by (intro word_mod_less_divisor) (simp add: word_gt_0)
  then show less: "sc_backbufferIdx (next_image i s sc) < sc_numImages sc"
    using n by (simp add: next_image_def Let_def next_backbuffer_less [of "clear_in_flight i s sc", simplified] next_backbuffer_less)
  show "sc_images (next_image i s sc) = sc_images sc" "sc_numImages (next_image i s sc) = sc_numImages sc"
    "sc_surface (next_image i s sc) = sc_surface sc" by (simp_all add: next_image_def Let_def)
  moreover have "length (sc_inFlight (next_image i s sc)) = length (sc_inFlight sc)" by (simp add: next_image_def Let_def)
  ultimately show "swapchain_ok I (next_image i s sc)" using less assms by (simp add: swapchain_ok_def)
qed

lemma valid_signal_ok: "valid_signal rq s \<Longrightarrow> \<exists>s'. acquire_signal (fst rq) (snd rq) s = Some s'"
  by (cases s) (auto simp: valid_signal_def acquire_signal_def sem_post_def)

text \<open>The first element and the rest of the queue.\<close>

lemma fq_last_elems [simp]: "fq_elems q = [] \<Longrightarrow> fq_last q = NULL" "fq_elems q = p # ps \<Longrightarrow> fq_last q = p"
  by (simp_all add: fq_last_def)

lemma fq_write_simps [simp]:
  "fq_elems (fq_write p f q) = fq_elems q" "fq_free (fq_write p f q) = fq_free q"
  "fq_data (fq_write p f q) = (fq_data q)(p := f (fq_data q p))"
  by (simp_all add: fq_write_def)

text \<open>What the parts of the invariant do not depend on.\<close>

lemma queue_inv_frame [simp]:
  "queue_inv (w\<lparr>w_kernel := k\<rparr>) = queue_inv w" "queue_inv (w\<lparr>w_flip := f\<rparr>) = queue_inv w"
  "queue_inv (w\<lparr>w_app := a\<rparr>) = queue_inv w" "queue_inv (w\<lparr>w_request := rq\<rparr>) = queue_inv w"
  "queue_inv (w\<lparr>w_sc := sc\<rparr>) = queue_inv w" "queue_inv (w\<lparr>w_signals := s\<rparr>) = queue_inv w"
  "queue_inv (w\<lparr>w_lastEmitSeqno := n\<rparr>) = queue_inv w" "queue_inv (w\<lparr>w_display := d\<rparr>) = queue_inv w"
  "queue_inv (w\<lparr>w_flips := fs\<rparr>) = queue_inv w" "queue_inv (w\<lparr>w_events := es\<rparr>) = queue_inv w"
  "queue_inv (w\<lparr>w_presented := ps\<rparr>) = queue_inv w" "queue_inv (w\<lparr>w_flipped := ps\<rparr>) = queue_inv w"
  "queue_inv (w\<lparr>w_refused := r\<rparr>) = queue_inv w"
  by (simp_all add: queue_inv_def)

lemma swapchain_inv_frame [simp]:
  "swapchain_inv I (w\<lparr>w_kernel := k\<rparr>) = swapchain_inv I w" "swapchain_inv I (w\<lparr>w_flip := f\<rparr>) = swapchain_inv I w"
  "swapchain_inv I (w\<lparr>w_app := a\<rparr>) = swapchain_inv I w" "swapchain_inv I (w\<lparr>w_request := rq\<rparr>) = swapchain_inv I w"
  "swapchain_inv I (w\<lparr>w_signals := s\<rparr>) = swapchain_inv I w" "swapchain_inv I (w\<lparr>w_lastEmitSeqno := n\<rparr>) = swapchain_inv I w"
  "swapchain_inv I (w\<lparr>w_display := d\<rparr>) = swapchain_inv I w" "swapchain_inv I (w\<lparr>w_flips := fs\<rparr>) = swapchain_inv I w"
  "swapchain_inv I (w\<lparr>w_events := es\<rparr>) = swapchain_inv I w" "swapchain_inv I (w\<lparr>w_presented := ps\<rparr>) = swapchain_inv I w"
  "swapchain_inv I (w\<lparr>w_flipped := ps\<rparr>) = swapchain_inv I w" "swapchain_inv I (w\<lparr>w_refused := r\<rparr>) = swapchain_inv I w"
  by (simp_all add: swapchain_inv_def)

lemma app_inv_frame [simp]:
  "app_inv (w\<lparr>w_kernel := k\<rparr>) = app_inv w" "app_inv (w\<lparr>w_flip := f\<rparr>) = app_inv w"
  "app_inv (w\<lparr>w_sc := sc\<rparr>) = app_inv w" "app_inv (w\<lparr>w_lastEmitSeqno := n\<rparr>) = app_inv w"
  "app_inv (w\<lparr>w_display := d\<rparr>) = app_inv w" "app_inv (w\<lparr>w_flips := fs\<rparr>) = app_inv w"
  "app_inv (w\<lparr>w_events := es\<rparr>) = app_inv w" "app_inv (w\<lparr>w_presented := ps\<rparr>) = app_inv w"
  "app_inv (w\<lparr>w_flipped := ps\<rparr>) = app_inv w" "app_inv (w\<lparr>w_refused := r\<rparr>) = app_inv w"
  by (simp_all add: app_inv_def split: app_pc.split)

lemma flip_inv_frame [simp]:
  "flip_inv fn (w\<lparr>w_app := a\<rparr>) = flip_inv fn w" "flip_inv fn (w\<lparr>w_request := rq\<rparr>) = flip_inv fn w"
  "flip_inv fn (w\<lparr>w_sc := sc\<rparr>) = flip_inv fn w" "flip_inv fn (w\<lparr>w_held := h\<rparr>) = flip_inv fn w"
  "flip_inv fn (w\<lparr>w_signals := s\<rparr>) = flip_inv fn w" "flip_inv fn (w\<lparr>w_lastEmitSeqno := n\<rparr>) = flip_inv fn w"
  "flip_inv fn (w\<lparr>w_display := d\<rparr>) = flip_inv fn w" "flip_inv fn (w\<lparr>w_flips := fs\<rparr>) = flip_inv fn w"
  "flip_inv fn (w\<lparr>w_events := es\<rparr>) = flip_inv fn w" "flip_inv fn (w\<lparr>w_presented := ps\<rparr>) = flip_inv fn w"
  "flip_inv fn (w\<lparr>w_flipped := ps\<rparr>) = flip_inv fn w" "flip_inv fn (w\<lparr>w_refused := r\<rparr>) = flip_inv fn w"
  by (simp_all add: flip_inv_def split: flip_pc.split)

lemma event_inv_frame [simp]:
  "event_inv (w\<lparr>w_kernel := k\<rparr>) = event_inv w" "event_inv (w\<lparr>w_flip := f\<rparr>) = event_inv w"
  "event_inv (w\<lparr>w_app := a\<rparr>) = event_inv w" "event_inv (w\<lparr>w_request := rq\<rparr>) = event_inv w"
  "event_inv (w\<lparr>w_sc := sc\<rparr>) = event_inv w" "event_inv (w\<lparr>w_held := h\<rparr>) = event_inv w"
  "event_inv (w\<lparr>w_signals := s\<rparr>) = event_inv w" "event_inv (w\<lparr>w_lastEmitSeqno := n\<rparr>) = event_inv w"
  "event_inv (w\<lparr>w_display := d\<rparr>) = event_inv w" "event_inv (w\<lparr>w_presented := ps\<rparr>) = event_inv w"
  "event_inv (w\<lparr>w_flipped := ps\<rparr>) = event_inv w"
  by (simp_all add: event_inv_def outstanding_def)

lemma history_inv_frame [simp]:
  "history_inv I fn (w\<lparr>w_flip := f\<rparr>) = history_inv I fn w" "history_inv I fn (w\<lparr>w_app := a\<rparr>) = history_inv I fn w"
  "history_inv I fn (w\<lparr>w_request := rq\<rparr>) = history_inv I fn w" "history_inv I fn (w\<lparr>w_sc := sc\<rparr>) = history_inv I fn w"
  "history_inv I fn (w\<lparr>w_held := h\<rparr>) = history_inv I fn w" "history_inv I fn (w\<lparr>w_signals := s\<rparr>) = history_inv I fn w"
  "history_inv I fn (w\<lparr>w_lastEmitSeqno := n\<rparr>) = history_inv I fn w" "history_inv I fn (w\<lparr>w_display := d\<rparr>) = history_inv I fn w"
  "history_inv I fn (w\<lparr>w_flips := fs\<rparr>) = history_inv I fn w" "history_inv I fn (w\<lparr>w_events := es\<rparr>) = history_inv I fn w"
  "history_inv I fn (w\<lparr>w_refused := r\<rparr>) = history_inv I fn w"
  by (simp_all add: history_inv_def)

text \<open>The flip thread.\<close>

lemma flip_peek_inv:
  assumes "present_inv I finished w" "flip_peek w = Next w'"
  shows "present_inv I finished w'"
proof -
  obtain fin where fin: "w_flip w = F_Peek fin" using assms(2) by (auto simp: flip_peek_def split: flip_pc.splits)
  let ?s = "if elems w = [] then 0 else vd_seqno (slot w (hd (elems w)))"
  have n: "NULL \<notin> set (elems w)" using assms(1) by (simp add: present_inv_def queue_inv_def)
  then have "w' = w\<lparr>w_flip := (if ?s \<noteq> 0 then F_Wait fin ?s else F_Peek fin)\<rparr>"
    using assms(2) fin by (cases "elems w") (auto simp: flip_peek_def)
  moreover have "flip_inv finished (w\<lparr>w_flip := (if ?s \<noteq> 0 then F_Wait fin ?s else F_Peek fin)\<rparr>)"
    using assms(1) fin by (auto simp: present_inv_def flip_inv_def)
  ultimately show ?thesis using assms(1) by (simp add: present_inv_def)
qed

lemma kernel_step_inv:
  assumes "present_inv I finished w" "finished (w_kernel w) \<le> finished k"
  shows "present_inv I finished (w\<lparr>w_kernel := k\<rparr>)"
proof -
  have "flip_inv finished (w\<lparr>w_kernel := k\<rparr>)"
    using assms by (auto simp: present_inv_def flip_inv_def split: flip_pc.splits intro: order_trans)
  moreover have "history_inv I finished (w\<lparr>w_kernel := k\<rparr>)"
    using assms by (fastforce simp: present_inv_def history_inv_def intro: order_trans)
  ultimately show ?thesis using assms(1) by (simp add: present_inv_def)
qed

lemma seqno_wait_finished:
  assumes "kernel_waits K finished" "vc4_seqno_wait K k fin seqno t = (k', ret, fin', t')" "fin \<le> finished k"
  shows "finished k \<le> finished k'" "fin' \<le> finished k'" "0 < ret \<Longrightarrow> seqno \<le> finished k'"
proof -
  have mono: "finished k \<le> finished (fst (drmIoctl K k rq))" for k rq using assms(1) by (simp add: kernel_waits_def)
  have hang: "finished k \<le> finished (vc4_print_hang_state K k)" for k
    using mono by (simp add: vc4_print_hang_state_def)
  obtain k1 r where io: "drmIoctl K k (WAIT_SEQNO seqno t) = (k1, r)" by (cases "drmIoctl K k (WAIT_SEQNO seqno t)")
  have 1: "finished k \<le> finished k1" "rp_ret r = 0 \<Longrightarrow> seqno \<le> finished k1"
    using mono [of k "WAIT_SEQNO seqno t"] assms(1) io by (auto simp: kernel_waits_def) (metis fst_conv snd_conv)
  show "finished k \<le> finished k'" "fin' \<le> finished k'" "0 < ret \<Longrightarrow> seqno \<le> finished k'"
    using assms(2,3) 1 hang [of k1] io by (auto simp: vc4_seqno_wait_def split: if_splits)
qed

lemma flip_wait_inv:
  assumes "kernel_waits K finished" "present_inv I finished w" "flip_wait K w = Next w'"
  shows "present_inv I finished w'"
proof -
  obtain fin seqno where f: "w_flip w = F_Wait fin seqno" using assms(3) by (auto simp: flip_wait_def split: flip_pc.splits)
  obtain k ret fin' t where wt: "vc4_seqno_wait K (w_kernel w) fin seqno 1000000 = (k, ret, fin', t)"
    by (metis prod_cases4)
  have inv: "fin \<le> finished (w_kernel w)" "elems w \<noteq> []" "seqno \<noteq> 0" "vd_seqno (slot w (hd (elems w))) = seqno"
    using assms(2) f by (simp_all add: present_inv_def flip_inv_def)
  note k = seqno_wait_finished [OF assms(1) wt inv(1)]
  have w': "w' = w\<lparr>w_kernel := k\<rparr>\<lparr>w_flip := (if 0 < ret then F_Flip fin' else F_Peek fin')\<rparr>"
    using assms(3) f wt by (simp add: flip_wait_def)
  have "flip_inv finished w'" using inv k unfolding w' by (simp add: flip_inv_def)
  then show ?thesis using kernel_step_inv [OF assms(2) k(1)] unfolding w' by (simp add: present_inv_def)
qed

lemma history_inv_show:
  assumes h: "history_inv I finished w" and q: "elems w = p # ps" "p \<notin> set ps"
    and s: "vd_seqno (slot w p) \<noteq> 0" "vd_seqno (slot w p) \<le> finished (w_kernel w)"
    and f: "vd_i (f (slot w p)) = vd_i (slot w p)" "vd_seqno (f (slot w p)) = 0"
  shows "history_inv I finished (w\<lparr>w_queue := fq_write p f (w_queue w),
    w_flipped := w_flipped w @ filter (shown I) [(vd_i (slot w p), vd_seqno (slot w p))]\<rparr>)"
proof -
  obtain old rest where h': "w_presented w = old @ rest" "list_all2 (\<lambda>p x. vd_i (slot w p) = fst x) (elems w) rest"
    "list_all2 (\<lambda>p x. vd_seqno (slot w p) = snd x) (tl (elems w)) (tl rest)"
    "vd_seqno (slot w p) = snd (hd rest)" "w_flipped w = filter (shown I) old"
    using h q(1) s(1) by (auto simp: history_inv_def)
  then obtain x rest' where r: "rest = x # rest'" "x = (vd_i (slot w p), vd_seqno (slot w p))"
    using q(1) by (cases rest) (auto simp: prod_eq_iff)
  have eq: "list_all2 (\<lambda>y x. P (((slot w)(p := d)) y) x) ps ys = list_all2 (\<lambda>y x. P (slot w y) x) ps ys" for P ys d
    using q(2) by (intro list.rel_cong) (auto simp: list_all2_conv_all_nth)
  have rest: "list_all2 (\<lambda>p x. vd_i (slot w p) = fst x) ps rest'" "list_all2 (\<lambda>p x. vd_seqno (slot w p) = snd x) ps rest'"
    using h'(2,3) q(1) r(1) by simp_all
  let ?w = "w\<lparr>w_queue := fq_write p f (w_queue w),
    w_flipped := w_flipped w @ filter (shown I) [(vd_i (slot w p), vd_seqno (slot w p))]\<rparr>"
  have fin: "\<forall>x\<in>set (w_flipped ?w). snd x \<le> finished (w_kernel ?w)" using h s(2) by (auto simp: history_inv_def)
  have "w_presented ?w = old @ rest" using h'(1) by simp
  moreover have "list_all2 (\<lambda>p x. vd_i (slot ?w p) = fst x) (elems ?w) rest"
    "list_all2 (\<lambda>p x. vd_seqno (slot ?w p) = snd x) (tl (elems ?w)) (tl rest)"
    using rest q(1) r f(1)
    by (simp_all del: fun_upd_apply add: fun_upd_same eq [of "\<lambda>d x. vd_i d = fst x"] eq [of "\<lambda>d x. vd_seqno d = snd x"])
  moreover have "vd_seqno (slot ?w (hd (elems ?w))) = 0" using q(1) f(2) by simp
  moreover have "w_flipped ?w = filter (shown I) (old @ [hd rest])" using h'(5) r by simp
  ultimately show ?thesis using fin q(1) unfolding history_inv_def by auto
qed

text \<open>What the invariant says when the flip thread is about to flip.\<close>

lemma flip_ready:
  assumes "present_inv I finished w" "w_flip w = F_Flip fin"
  obtains p ps i where "elems w = p # ps" "fq_last (w_queue w) = p" "p \<notin> set ps" "p \<noteq> NULL" "I (vd_i (slot w p)) = Some i"
    "vd_seqno (slot w p) \<noteq> 0" "vd_seqno (slot w p) \<le> finished (w_kernel w)" "fin \<le> finished (w_kernel w)"
    "vd_flipPending (slot w p) = 0" "outstanding w = []" "vd_i (slot w p) \<in> set (sc_images (w_sc w))"
proof -
  obtain p ps where q: "elems w = p # ps" using assms by (cases "elems w") (auto simp: present_inv_def flip_inv_def)
  have i: "vd_i (slot w p) \<in> set (sc_images (w_sc w))" "vd_i (slot w p) \<in> dom I"
    using assms(1) q by (auto simp: present_inv_def swapchain_inv_def swapchain_ok_def)
  then obtain im where "I (vd_i (slot w p)) = Some im" by auto
  moreover have s: "vd_seqno (slot w p) \<noteq> 0" "vd_seqno (slot w p) \<le> finished (w_kernel w)" "fin \<le> finished (w_kernel w)"
    using assms q by (simp_all add: present_inv_def flip_inv_def)
  moreover have "p \<notin> set ps" "p \<noteq> NULL" using assms(1) q by (auto simp: present_inv_def queue_inv_def)
  moreover have "vd_flipPending (slot w p) = 0" "outstanding w = []"
    using assms(1) q s(1) by (auto simp: present_inv_def event_inv_def)
  ultimately show ?thesis using that q i(1) by simp
qed

lemma queue_inv_write [simp]: "queue_inv (w\<lparr>w_queue := fq_write p f (w_queue w)\<rparr>) = queue_inv w"
  by (simp add: queue_inv_def)

lemma swapchain_inv_write:
  "swapchain_inv I w \<Longrightarrow> vd_i (f (slot w p)) = vd_i (slot w p) \<Longrightarrow> swapchain_inv I (w\<lparr>w_queue := fq_write p f (w_queue w)\<rparr>)"
  by (auto simp: swapchain_inv_def)

text \<open>The critical section for any element: the number is cleared, and perhaps the flag set.\<close>

lemma show_inv:
  assumes inv: "present_inv I finished w" and w: "w_flip w = F_Flip fin" "elems w = p # ps"
    and f: "vd_i (f (slot w p)) = vd_i (slot w p)" "vd_seqno (f (slot w p)) = 0"
    and e: "fs = [] \<and> vd_flipPending (f (slot w p)) = 0 \<or> fs = [(p, vd_i (slot w p))] \<and> vd_flipPending (f (slot w p)) \<noteq> 0 \<or>
      fs = [] \<and> r"
    and r: "w_refused w \<longrightarrow> r"
  shows "present_inv I finished (w\<lparr>w_flip := F_Peek fin, w_queue := fq_write p f (w_queue w),
    w_flipped := w_flipped w @ filter (shown I) [(vd_i (slot w p), vd_seqno (slot w p))],
    w_flips := w_flips w @ fs, w_refused := r, w_display := d\<rparr>)" (is "present_inv I finished ?w")
proof -
  from flip_ready [OF inv w(1)] w(2) have p: "p \<notin> set ps" "vd_seqno (slot w p) \<noteq> 0" "vd_seqno (slot w p) \<le> finished (w_kernel w)"
    "fin \<le> finished (w_kernel w)" "vd_flipPending (slot w p) = 0" "outstanding w = []" by auto
  have parts: "queue_inv w" "swapchain_inv I w" "app_inv w" "event_inv w" "history_inv I finished w"
    using inv by (simp_all add: present_inv_def)
  have "queue_inv ?w" using parts(1) by (simp add: queue_inv_def)
  moreover have "swapchain_inv I ?w" using parts(2) w(2) f(1) by (auto simp: swapchain_inv_def)
  moreover have "flip_inv finished ?w" using p(4) by (simp add: flip_inv_def)
  moreover have "event_inv ?w" using parts(4) w(2) p e f r by (auto simp: event_inv_def outstanding_def)
  moreover have "app_inv ?w" using parts(3) w(2) p(2) by (auto simp: app_inv_def idle_def split: app_pc.splits)
  moreover have "history_inv I finished ?w"
    using history_inv_show [where f = f, OF parts(5) w(2) p(1-3) f] by (simp add: history_inv_def)
  ultimately show ?thesis by (simp add: present_inv_def)
qed

lemma flip_show_inv:
  assumes "present_inv I finished w" "flip_show I ok w = Next w'"
  shows "present_inv I finished w'"
proof -
  obtain fin where w: "w_flip w = F_Flip fin" using assms(2) by (auto simp: flip_show_def split: flip_pc.splits)
  obtain p ps i where p: "elems w = p # ps" "fq_last (w_queue w) = p" "p \<noteq> NULL" "I (vd_i (slot w p)) = Some i"
      "vd_seqno (slot w p) \<noteq> 0" "vd_flipPending (slot w p) = 0"
    using flip_ready [OF assms(1) w] by metis
  note thread = show_inv [OF assms(1) w p(1)]
  consider (FIFO) "im_presentMode i = VK_PRESENT_MODE_FIFO_KHR" | (IMMEDIATE) "im_presentMode i = VK_PRESENT_MODE_IMMEDIATE_KHR"
    | (other) "im_presentMode i \<notin> {VK_PRESENT_MODE_FIFO_KHR, VK_PRESENT_MODE_IMMEDIATE_KHR}" by blast
  then show ?thesis
  proof cases
    case FIFO
    then have w': "w' = w\<lparr>w_flip := F_Peek fin, w_queue := fq_write p (\<lambda>d. d\<lparr>vd_seqno := 0, vd_flipPending := 1\<rparr>) (w_queue w),
        w_flipped := w_flipped w @ filter (shown I) [(vd_i (slot w p), vd_seqno (slot w p))],
        w_flips := w_flips w @ (if ok then [(p, vd_i (slot w p))] else []), w_refused := w_refused w \<or> \<not> ok,
        w_display := w_display w\<rparr>"
      using assms(2) w p by (cases ok) (auto simp: flip_show_def shown_def fq_write_def Let_def)
    show ?thesis unfolding w' by (rule thread) (auto simp: p)
  next
    case IMMEDIATE
    then have w': "w' = w\<lparr>w_flip := F_Peek fin, w_queue := fq_write p (\<lambda>d. d\<lparr>vd_seqno := 0\<rparr>) (w_queue w),
        w_flipped := w_flipped w @ filter (shown I) [(vd_i (slot w p), vd_seqno (slot w p))],
        w_flips := w_flips w @ [], w_refused := w_refused w \<or> \<not> ok,
        w_display := (if ok then (w_display w)\<lparr>dp_screen := vd_i (slot w p)\<rparr> else w_display w)\<rparr>"
      using assms(2) w p by (cases ok) (auto simp: flip_show_def shown_def fq_write_def Let_def VK_PRESENT_MODE_FIFO_KHR_def VK_PRESENT_MODE_IMMEDIATE_KHR_def)
    show ?thesis unfolding w' by (rule thread) (auto simp: p)
  next
    case other
    then have w': "w' = w\<lparr>w_flip := F_Peek fin, w_queue := fq_write p (\<lambda>d. d\<lparr>vd_seqno := 0\<rparr>) (w_queue w),
        w_flipped := w_flipped w @ filter (shown I) [(vd_i (slot w p), vd_seqno (slot w p))],
        w_flips := w_flips w @ [], w_refused := w_refused w, w_display := w_display w\<rparr>"
      using assms(2) w p by (cases ok) (auto simp: flip_show_def shown_def fq_write_def Let_def)
    show ?thesis unfolding w' by (rule thread) (auto simp: p)
  qed
qed

text \<open>The display and the events.\<close>

lemma vblank_inv:
  assumes "present_inv I finished w" "vblank w = Next w'"
  shows "present_inv I finished w'"
proof -
  obtain p i fs where f: "w_flips w = (p, i) # fs"
    "w' = w\<lparr>w_flips := fs, w_events := w_events w @ [p], w_display := (w_display w)\<lparr>dp_screen := i\<rparr>\<rparr>"
    using assms(2) by (auto simp: vblank_def split: list.splits)
  have "outstanding w \<in> {[], take 1 (elems w)}" using assms(1) by (simp add: present_inv_def event_inv_def)
  then have "fs = []" "w_events w = []" using f(1) by (cases "elems w"; auto simp: outstanding_def)+
  then have "event_inv w'" using assms(1) f by (simp add: present_inv_def event_inv_def outstanding_def)
  then show ?thesis using assms(1) f(2) by (simp add: present_inv_def)
qed

lemma handle_event_inv:
  assumes "present_inv I finished w" "handle_event w = Next w'"
  shows "present_inv I finished w'"
proof -
  obtain p ps where e: "w_app w = Handling" "w_events w = p # ps"
    "w' = w\<lparr>w_events := ps, w_queue := modeset_page_flip_event p (w_queue w)\<rparr>"
    using assms(2) by (auto simp: handle_event_def split: app_pc.splits list.splits)
  have parts: "queue_inv w" "swapchain_inv I w" "app_inv w" "flip_inv finished w" "event_inv w" "history_inv I finished w"
    using assms(1) by (simp_all add: present_inv_def)
  obtain qs where q: "elems w = p # qs" "ps = []" "w_flips w = []"
    using parts(5) e(2) by (cases "elems w") (auto simp: event_inv_def outstanding_def append_eq_Cons_conv)
  have p: "p \<noteq> NULL" "p \<notin> set qs" using parts(1) q(1) by (auto simp: queue_inv_def)
  have w': "w' = w\<lparr>w_events := [], w_queue := fq_write p (vd_flipPending_update (\<lambda>_. 0)) (w_queue w)\<rparr>"
    using e(3) p(1) q(2) by (simp add: modeset_page_flip_event_def)
  have vd: "vd_i (((slot w)(p := (slot w p)\<lparr>vd_flipPending := 0\<rparr>)) y) = vd_i (slot w y)"
    "vd_seqno (((slot w)(p := (slot w p)\<lparr>vd_flipPending := 0\<rparr>)) y) = vd_seqno (slot w y)" for y by simp_all
  have "queue_inv w'" using parts(1) by (simp add: w' queue_inv_def)
  moreover have "swapchain_inv I w'" using parts(2) by (auto simp: w' swapchain_inv_def)
  moreover have "app_inv w'" using parts(3) e(1) by (simp add: w' app_inv_def)
  moreover have "flip_inv finished w'" using parts(4) q(1) by (simp add: w' flip_inv_def split: flip_pc.splits)
  moreover have "event_inv w'" using parts(5) q p by (auto simp: w' event_inv_def outstanding_def)
  moreover have "history_inv I finished w'"
    using parts(6) by (simp add: w' history_inv_def vd del: fun_upd_apply)
  ultimately show ?thesis by (simp add: present_inv_def)
qed

lemma events_handled_inv:
  assumes "present_inv I finished w" "events_handled w = Next w'"
  shows "present_inv I finished w'"
  using assms by (auto simp: events_handled_def present_inv_def app_inv_def split: if_splits)

text \<open>An acquisition.\<close>

lemma finish_acquire_Next:
  assumes "finish_acquire i s w = Next w'"
  obtains sg where "w' = w\<lparr>w_app := Running, w_sc := next_image i s (w_sc w),
      w_held := w_held w @ [sc_backbufferIdx (next_image i s (w_sc w))], w_signals := sg\<rparr>"
  using assms by (auto simp: finish_acquire_def Let_def split: if_splits option.splits)

lemma finish_acquire_inv:
  assumes inv: "queue_inv w" "swapchain_inv I w" "flip_inv finished w" "event_inv w" "history_inv I finished w"
    and w': "finish_acquire i s w = Next w'" and room: "length (elems w) + length (w_held w') \<le> 2"
  shows "present_inv I finished w'"
proof -
  obtain sg where w'': "w' = w\<lparr>w_app := Running, w_sc := next_image i s (w_sc w),
      w_held := w_held w @ [sc_backbufferIdx (next_image i s (w_sc w))], w_signals := sg\<rparr>"
    using finish_acquire_Next [OF w'] .
  have ok: "swapchain_ok I (w_sc w)" using inv(2) by (simp add: swapchain_inv_def)
  have "queue_inv w'" using inv(1) room by (simp add: queue_inv_def w'')
  moreover have "swapchain_inv I w'" using inv(2) next_image_ok [OF ok] by (simp add: swapchain_inv_def w'')
  moreover have "app_inv w'" by (simp add: app_inv_def w'')
  ultimately show ?thesis using inv(3-5) by (simp add: present_inv_def w'')
qed

lemma test_of_head:
  assumes "present_inv I finished w" "fq_last (w_queue w) = d" "d \<noteq> NULL" "valid_signal (w_request w) (w_signals w)"
  shows "present_inv I finished (w\<lparr>w_app := Test (vd_flipPending (slot w d) \<noteq> 0) (vd_seqno (slot w d) > 0)\<rparr>)"
proof -
  have "elems w \<noteq> []" "hd (elems w) = d" using assms(2,3) by (auto simp: fq_last_def split: list.splits)
  then have "app_inv (w\<lparr>w_app := Test (vd_flipPending (slot w d) \<noteq> 0) (vd_seqno (slot w d) > 0)\<rparr>)"
    using assms(4) by (simp add: app_inv_def idle_def word_gt_0)
  then show ?thesis using assms(1) by (simp add: present_inv_def)
qed

lemma begin_acquire_inv:
  assumes "present_inv I finished w" "begin_acquire sem fence w = Next w'" "valid_signal (sem, fence) (w_signals w)" "few_held 2 w'"
  shows "present_inv I finished w'"
proof (cases "elems w")
  case Nil
  then have "finish_acquire NULL NULL (w\<lparr>w_request := (sem, fence)\<rparr>) = Next w'"
    using assms(2) by (auto simp: begin_acquire_def Let_def split: if_splits)
  then show ?thesis using assms(1,4) Nil by (intro finish_acquire_inv [of "w\<lparr>w_request := (sem, fence)\<rparr>"]) (simp_all add: present_inv_def few_held_def)
next
  case (Cons p ps)
  have r: "w_app w = Running" using assms(2) by (auto simp: begin_acquire_def split: if_splits)
  then have inv: "present_inv I finished (w\<lparr>w_request := (sem, fence)\<rparr>)" using assms(1) by (simp add: present_inv_def app_inv_def)
  have "p \<noteq> NULL" using assms(1) Cons by (auto simp: present_inv_def queue_inv_def)
  then have "w' = w\<lparr>w_request := (sem, fence), w_app := Test (vd_flipPending (slot w p) \<noteq> 0) (vd_seqno (slot w p) > 0)\<rparr>"
    using assms(2) Cons by (auto simp: begin_acquire_def Let_def split: if_splits)
  then show ?thesis using test_of_head [OF inv, of p] \<open>p \<noteq> NULL\<close> Cons assms(3) by simp
qed

lemma acquire_test_inv:
  assumes "present_inv I finished w" "acquire_test w = Next w'"
  shows "present_inv I finished w'"
  using assms by (auto simp: acquire_test_def present_inv_def app_inv_def split: app_pc.splits if_splits)

lemma acquire_check_inv:
  assumes "present_inv I finished w" "acquire_check w = Next w'"
  shows "present_inv I finished w'"
proof -
  obtain d where d: "w_app w = Checking" "fq_last (w_queue w) = d" "d \<noteq> NULL"
      "w' = w\<lparr>w_app := Test (vd_flipPending (slot w d) \<noteq> 0) (vd_seqno (slot w d) > 0)\<rparr>"
    using assms(2) by (auto simp: acquire_check_def Let_def split: if_splits)
  moreover have "valid_signal (w_request w) (w_signals w)" using assms(1) d(1) by (simp add: present_inv_def app_inv_def)
  ultimately show ?thesis using test_of_head [OF assms(1) d(2,3)] by simp
qed

lemma history_inv_remove:
  assumes "history_inv I finished w" "elems w = p # ps" "idle (slot w p)"
  shows "history_inv I finished (w\<lparr>w_queue := (w_queue w)\<lparr>fq_elems := ps, fq_free := fs\<rparr>\<rparr>)"
proof -
  obtain old rest where h: "\<forall>x\<in>set (w_flipped w). snd x \<le> finished (w_kernel w)"
    "w_presented w = old @ rest" "list_all2 (\<lambda>p x. vd_i (slot w p) = fst x) (p # ps) rest"
    "list_all2 (\<lambda>p x. vd_seqno (slot w p) = snd x) ps (tl rest)"
    "w_flipped w = filter (shown I) (old @ [hd rest])"
    using assms by (auto simp: history_inv_def idle_def)
  then obtain x rest' where r: "rest = x # rest'" by (cases rest) auto
  have hd: "ps \<noteq> [] \<Longrightarrow> vd_seqno (slot w (hd ps)) = snd (hd rest')" using h(4) r by (cases ps; cases rest') auto
  have "snd (hd rest') = 0 \<Longrightarrow> \<not> shown I (hd rest')" by (simp add: shown_def)
  then have "w_flipped w = filter (shown I) ((old @ [x]) @
      (if ps \<noteq> [] \<and> vd_seqno (slot w (hd ps)) = 0 then [hd rest'] else []))"
    using h(5) r hd by auto
  moreover have "list_all2 (\<lambda>p x. vd_seqno (slot w p) = snd x) (tl ps) (tl rest')" "list_all2 (\<lambda>p x. vd_i (slot w p) = fst x) ps rest'"
    using h(3,4) r by (cases ps; cases rest'; simp)+
  moreover have "w_presented w = (old @ [x]) @ rest'" using h(2) r by simp
  ultimately show ?thesis unfolding history_inv_def using h(1) hd by (intro conjI exI [of _ "old @ [x]"] exI [of _ rest']) simp_all
qed

lemma history_inv_add:
  assumes "history_inv I finished w" "p \<notin> set (elems w)"
  shows "history_inv I finished (w\<lparr>w_queue := \<lparr>fq_data = (slot w)(p := d), fq_elems = elems w @ [p], fq_free = fs\<rparr>,
    w_presented := w_presented w @ [(vd_i d, vd_seqno d)]\<rparr>)"
proof -
  obtain old rest where h: "\<forall>x\<in>set (w_flipped w). snd x \<le> finished (w_kernel w)"
    "w_presented w = old @ rest" "list_all2 (\<lambda>p x. vd_i (slot w p) = fst x) (elems w) rest"
    "list_all2 (\<lambda>p x. vd_seqno (slot w p) = snd x) (tl (elems w)) (tl rest)"
    "elems w \<noteq> [] \<longrightarrow> vd_seqno (slot w (hd (elems w))) \<in> {0, snd (hd rest)}"
    "w_flipped w = filter (shown I) (old @ (if elems w \<noteq> [] \<and> vd_seqno (slot w (hd (elems w))) = 0 then [hd rest] else []))"
    using assms(1) by (auto simp: history_inv_def)
  let ?x = "(vd_i d, vd_seqno d)" and ?slot = "(slot w)(p := d)"
  have i: "list_all2 (\<lambda>y x. vd_i (?slot y) = fst x) (elems w) rest"
    by (rule list.rel_mono_strong [OF h(3)]) (use assms(2) in auto)
  have n: "list_all2 (\<lambda>y x. vd_seqno (?slot y) = snd x) (tl (elems w)) (tl rest)"
    by (rule list.rel_mono_strong [OF h(4)]) (use assms(2) list.set_sel(2) [of "elems w"] in \<open>cases "elems w"; auto\<close>)
  have 1: "list_all2 (\<lambda>y x. vd_i (?slot y) = fst x) (elems w @ [p]) (rest @ [?x])"
    using i by (intro list_all2_appendI) simp_all
  have len: "elems w = [] \<longleftrightarrow> rest = []" using h(3) by (cases rest) auto
  have 2: "list_all2 (\<lambda>y x. vd_seqno (?slot y) = snd x) (tl (elems w @ [p])) (tl (rest @ [?x]))"
    using n len by (cases "elems w"; cases rest) (auto intro!: list_all2_appendI)
  have 3: "vd_seqno (?slot (hd (elems w @ [p]))) \<in> {0, snd (hd (rest @ [?x]))}"
    using h(5) len assms(2) by (cases "elems w"; cases rest) auto
  have 4: "w_flipped w = filter (shown I) (old @
      (if elems w @ [p] \<noteq> [] \<and> vd_seqno (?slot (hd (elems w @ [p]))) = 0 then [hd (rest @ [?x])] else []))"
    using h(6) len assms(2) by (cases "elems w"; cases rest) (auto simp: shown_def)
  let ?w = "w\<lparr>w_queue := \<lparr>fq_data = ?slot, fq_elems = elems w @ [p], fq_free = fs\<rparr>,
    w_presented := w_presented w @ [(vd_i d, vd_seqno d)]\<rparr>"
  have w: "slot ?w = ?slot" "elems ?w = elems w @ [p]" "w_presented ?w = old @ rest @ [?x]" "w_flipped ?w = w_flipped w"
    "w_kernel ?w = w_kernel w" by (simp_all add: h(2) del: fun_upd_apply)
  show ?thesis
    unfolding history_inv_def w using h(1) 1 2 3 4
    by - (rule conjI, assumption, rule exI [of _ old], rule exI [of _ "rest @ [?x]"], intro conjI impI refl; assumption)
qed

lemma acquire_remove_inv:
  assumes "present_inv I finished w" "acquire_remove w = Next w'"
  shows "present_inv I finished w'"
proof -
  have parts: "queue_inv w" "swapchain_inv I w" "app_inv w" "flip_inv finished w" "event_inv w" "history_inv I finished w"
    using assms(1) by (simp_all add: present_inv_def)
  have a: "w_app w = Removing" using assms(2) by (auto simp: acquire_remove_def split: if_splits)
  then obtain p ps where q: "elems w = p # ps" "idle (slot w p)" using parts(3) by (cases "elems w") (auto simp: app_inv_def)
  let ?w = "w\<lparr>w_queue := (w_queue w)\<lparr>fq_elems := ps, fq_free := p # fq_free (w_queue w)\<rparr>\<rparr>"
  have w': "finish_acquire (vd_i (slot w p)) (vd_s (slot w p)) ?w = Next w'"
    using assms(2) a q(1) by (simp add: acquire_remove_def fq_remove_def)
  have p: "p \<notin> set ps" using parts(1) q(1) by (simp add: queue_inv_def)
  have none: "outstanding w = []" "\<forall>y\<in>set ps. vd_flipPending (slot w y) = 0"
    using parts(5) q by (auto simp: event_inv_def idle_def)
  have busy: "\<not> w_flip w = F_Flip fin" "\<not> w_flip w = F_Wait fin s" for fin s
    using parts(4) q by (auto simp: flip_inv_def idle_def)
  show ?thesis
  proof (rule finish_acquire_inv [OF _ _ _ _ _ w'])
    show "queue_inv ?w" using parts(1) q(1) by (auto simp: queue_inv_def)
    show "swapchain_inv I ?w" using parts(2) q(1) by (simp add: swapchain_inv_def)
    show "flip_inv finished ?w" using parts(4) busy by (simp add: flip_inv_def split: flip_pc.splits)
    show "event_inv ?w" using none by (cases ps) (simp_all add: event_inv_def outstanding_def)
    show "history_inv I finished ?w" using history_inv_remove [OF parts(6) q] by simp
    have "length (w_held w') = Suc (length (w_held w))" by (rule finish_acquire_Next [OF w']) simp
    then show "length (elems ?w) + length (w_held w') \<le> 2"
      using parts(1) q(1) by (simp add: queue_inv_def)
  qed
qed

text \<open>A presentation.\<close>

lemma begin_present_inv:
  assumes "present_inv I finished w" "begin_present idx waits ok w = Next w'" "idx \<in> set (w_held w)"
  shows "present_inv I finished w'"
  using assms by (auto simp: begin_present_def present_inv_def app_inv_def split: if_splits option.splits)

lemma add_present_inv:
  assumes "present_inv I finished w" "add_present w = Next w'"
  shows "present_inv I finished w'"
proof -
  have parts: "queue_inv w" "swapchain_inv I w" "app_inv w" "flip_inv finished w" "event_inv w" "history_inv I finished w"
    using assms(1) by (simp_all add: present_inv_def)
  obtain idx q where a: "w_app w = Adding idx"
    using assms(2) by (auto simp: add_present_def split: app_pc.splits)
  define buf where "buf = sc_images (w_sc w) ! unat idx"
  define d where "d = \<lparr>vd_i = buf, vd_s = sc_surface (w_sc w), vd_flipPending = 0, vd_seqno = w_lastEmitSeqno w\<rparr>"
  have idx: "idx \<in> set (w_held w)" using parts(3) a by (simp add: app_inv_def)
  obtain p ps where f: "fq_free (w_queue w) = p # ps" using assms(2) a
    by (auto simp: add_present_def Let_def fq_add_def split: list.splits)
  let ?q = "\<lparr>fq_data = (slot w)(p := d), fq_elems = elems w @ [p], fq_free = ps\<rparr>"
  have w': "w' = w\<lparr>w_queue := ?q, w_presented := w_presented w @ [(buf, w_lastEmitSeqno w)], w_app := Running, w_held := remove1 idx (w_held w),
      w_sc := (w_sc w)\<lparr>sc_inFlight := (sc_inFlight (w_sc w))[unat idx := 1]\<rparr>\<rparr>"
    using assms(2) a f by (cases "w_queue w") (auto simp: add_present_def Let_def fq_add_def d_def buf_def)
  have p: "p \<notin> set (elems w)" "p \<noteq> NULL" using parts(1) f by (auto simp: queue_inv_def)
  have "idx < sc_numImages (w_sc w)" using parts(2) idx by (simp add: swapchain_inv_def)
  then have buf: "buf \<in> set (sc_images (w_sc w))"
    using parts(2) by (auto simp: buf_def swapchain_inv_def swapchain_ok_def word_less_nat_alt)
  have same: "((slot w)(p := d)) (hd (elems w @ [p])) = (if elems w = [] then d else slot w (hd (elems w)))"
    using p(1) by (cases "elems w") auto
  have "queue_inv w'" using parts(1) f idx length_pos_if_in_set [OF idx] by (auto simp: queue_inv_def w' length_remove1)
  moreover have "swapchain_inv I w'"
    using parts(2) buf p(1) by (auto simp: swapchain_inv_def swapchain_ok_def w' d_def dest: notin_set_remove1 set_remove1_subset [THEN subsetD])
  moreover have "flip_inv finished w'"
    using parts(4) p(1) by (cases "elems w") (auto simp: w' flip_inv_def split: flip_pc.splits)
  moreover have "event_inv w'"
    using parts(5) p(1) by (cases "elems w") (auto simp: w' event_inv_def outstanding_def d_def)
  moreover have "history_inv I finished w'" using history_inv_add [OF parts(6) p(1), of d] by (simp add: w' d_def)
  ultimately show ?thesis by (simp add: present_inv_def app_inv_def w')
qed


subsection \<open>Every reachable state\<close>

lemma present_step_inv:
  assumes "kernel_waits K finished" "\<And>k k'. gpu k k' \<Longrightarrow> finished k \<le> finished k'"
    and inv: "present_inv I finished w" and step: "present_step K gpu I w r" "r = Next w'" "few_held 2 w'"
  shows "present_inv I finished w'"
  using step(1)
proof cases
  case (elsewhere k n s)
  have "present_inv I finished (w\<lparr>w_kernel := k\<rparr>)" using kernel_step_inv [OF inv] assms(2) elsewhere by blast
  moreover have "app_inv (w\<lparr>w_kernel := k, w_signals := s, w_lastEmitSeqno := n\<rparr>)" using elsewhere(2) by (simp add: app_inv_def)
  moreover have "w' = w\<lparr>w_kernel := k, w_signals := s, w_lastEmitSeqno := n\<rparr>" using step(2) elsewhere(1) by simp
  ultimately show ?thesis by (simp add: present_inv_def)
next
  case (gpu k)
  then show ?thesis using kernel_step_inv [OF inv] assms(2) step(2) by blast
next
  case (acquire sem fence)
  then show ?thesis using begin_acquire_inv [OF inv] step(2,3) by metis
next
  case (present idx waits ok)
  then show ?thesis using begin_present_inv [OF inv] step(2) by metis
qed (use step(2) in \<open>metis flip_peek_inv [OF inv] flip_wait_inv [OF assms(1) inv] flip_show_inv [OF inv] vblank_inv [OF inv]
    acquire_test_inv [OF inv] handle_event_inv [OF inv] events_handled_inv [OF inv] acquire_check_inv [OF inv]
    acquire_remove_inv [OF inv] add_present_inv [OF inv]\<close>)+

lemma presents_inv:
  assumes "presents K gpu I P w0 w" "kernel_waits K finished" "\<And>k k'. gpu k k' \<Longrightarrow> finished k \<le> finished k'"
    and "\<And>w. P w \<Longrightarrow> few_held 2 w" "fresh_world I w0"
  shows "present_inv I finished w"
  using assms(1)
proof induction
  case start
  show ?case using assms(5) by (rule present_inv_fresh)
next
  case (step w w')
  then show ?case using present_step_inv [OF assms(2,3) step.IH step.hyps(2) refl] assms(4) by blast
qed

lemma finish_acquire_defined:
  assumes "swapchain_ok I (w_sc w)" "valid_signal (w_request w) (w_signals w)"
  shows "finish_acquire i s w \<noteq> Undefined"
  using valid_signal_ok [OF assms(2)] assms(1) by (auto simp: finish_acquire_def swapchain_ok_def Let_def)

lemma present_step_defined:
  assumes inv: "present_inv I finished w" and step: "present_step K gpu I w r"
  shows "r \<noteq> Undefined"
proof -
  have parts: "queue_inv w" "swapchain_ok I (w_sc w)" "app_inv w" using inv by (simp_all add: present_inv_def swapchain_inv_def)
  have last: "elems w \<noteq> [] \<Longrightarrow> fq_last (w_queue w) \<noteq> NULL" using parts(1) by (cases "elems w") (auto simp: queue_inv_def)
  from step show ?thesis
  proof cases
    case (show_image ok)
    show ?thesis
    proof (cases "w_flip w")
      case (F_Flip fin)
      obtain p i where "fq_last (w_queue w) = p" "p \<noteq> NULL" "I (vd_i (slot w p)) = Some i" using flip_ready [OF inv F_Flip] by metis
      then show ?thesis using show_image F_Flip by (simp add: flip_show_def Let_def)
    qed (use show_image in \<open>simp_all add: flip_show_def\<close>)
  next
    case (acquire sem fence)
    have "finish_acquire NULL NULL (w\<lparr>w_request := (sem, fence)\<rparr>) \<noteq> Undefined"
      by (rule finish_acquire_defined) (use parts(2) acquire(2) in simp_all)
    then show ?thesis using acquire by (auto simp: begin_acquire_def valid_signal_def Let_def)
  next
    case check
    then show ?thesis using last parts(3) by (auto simp: acquire_check_def app_inv_def Let_def)
  next
    case remove
    show ?thesis
    proof (cases "w_app w = Removing")
      case True
      then obtain p ps where q: "elems w = p # ps" "valid_signal (w_request w) (w_signals w)"
        using parts(3) by (cases "elems w") (auto simp: app_inv_def)
      have "finish_acquire i s (w\<lparr>w_queue := x\<rparr>) \<noteq> Undefined" for i s x
        by (rule finish_acquire_defined) (use parts(2) q(2) in simp_all)
      then show ?thesis using True by (simp add: remove acquire_remove_def fq_remove_def q(1))
    qed (use remove in \<open>simp add: acquire_remove_def\<close>)
  next
    case add
    show ?thesis
    proof (cases "w_app w")
      case (Adding idx)
      then have "0 < length (w_held w)" using parts(3) by (auto simp: app_inv_def)
      then have "fq_free (w_queue w) \<noteq> []" using parts(1) by (auto simp: queue_inv_def)
      then show ?thesis using add Adding by (auto simp: add_present_def fq_add_def Let_def split: list.splits)
    qed (use add in \<open>simp_all add: add_present_def\<close>)
  qed (auto simp: flip_peek_def flip_wait_def vblank_def acquire_test_def handle_event_def events_handled_def begin_present_def
      Let_def split: flip_pc.splits app_pc.splits list.splits option.splits prod.splits)
qed

lemma history_prefix:
  assumes "history_inv I finished w"
  shows "\<exists>n. length (w_presented w) - length (elems w) \<le> n \<and> n \<le> Suc (length (w_presented w) - length (elems w)) \<and>
    w_flipped w = filter (shown I) (take n (w_presented w))"
proof -
  obtain old rest where h: "w_presented w = old @ rest" "length (elems w) = length rest"
    "w_flipped w = filter (shown I) (old @ (if elems w \<noteq> [] \<and> vd_seqno (slot w (hd (elems w))) = 0 then [hd rest] else []))"
    using assms by (auto simp: history_inv_def dest: list_all2_lengthD)
  show ?thesis
  proof (cases "elems w \<noteq> [] \<and> vd_seqno (slot w (hd (elems w))) = 0")
    case True
    then obtain x xs where "rest = x # xs" using h(2) by (cases rest) auto
    then show ?thesis using h True by (intro exI [of _ "Suc (length old)"]) simp
  next
    case False
    then show ?thesis using h by (intro exI [of _ "length old"]) auto
  qed
qed

text \<open>C40: presentation when the application never holds more than two images, for every interleaving of the
  application, the flip thread, the GPU and the display, and whether or not the kernel accepts a flip:
  no step is undefined or fails an assertion (the queue of two elements does not overflow, and both
  critical sections find the element they expect); an event that is still to come belongs to the oldest
  element of the queue; an image is flipped to only after its rendering has finished; and the flips are
  those of the images presented first, in their order, as far as anything was rendered to them: all that
  have left the queue, and at most one more.\<close>

theorem presentation_safe:
  assumes "kernel_waits K finished" "\<forall>k k'. gpu k k' \<longrightarrow> finished k \<le> finished k'" "fresh_world I w0"
    and "presents K gpu I (few_held 2) w0 w"
  shows "\<not> present_step K gpu I w Undefined \<and> length (elems w) + length (w_held w) \<le> 2 \<and>
    set (outstanding w) \<subseteq> set (take 1 (elems w)) \<and> (\<forall>x\<in>set (w_flipped w). snd x \<le> finished (w_kernel w)) \<and>
    (\<exists>n. length (w_presented w) - length (elems w) \<le> n \<and> n \<le> Suc (length (w_presented w) - length (elems w)) \<and>
       w_flipped w = filter (shown I) (take n (w_presented w)))"
proof -
  have inv: "present_inv I finished w" using presents_inv [OF assms(4,1)] assms(2,3) by blast
  then have "set (outstanding w) \<subseteq> set (take 1 (elems w))" by (auto simp: present_inv_def event_inv_def)
  moreover have "length (elems w) + length (w_held w) \<le> 2" "\<forall>x\<in>set (w_flipped w). snd x \<le> finished (w_kernel w)"
    using inv by (simp_all add: present_inv_def queue_inv_def history_inv_def)
  moreover have "\<not> present_step K gpu I w Undefined" using present_step_defined [OF inv, of K gpu Undefined] by blast
  moreover note history_prefix [of I finished w]
  ultimately show ?thesis using inv by (simp add: present_inv_def)
qed


subsection \<open>An example\<close>

text \<open>Moves one after the other, each through a state with few images held.\<close>

fun perform :: "('k world \<Rightarrow> 'k world outcome) list \<Rightarrow> 'k world \<Rightarrow> 'k world outcome" where
  "perform [] w = Next w"
| "perform (f # fs) w = (case f w of Next w' \<Rightarrow> if few_held 2 w' then perform fs w' else Blocked | r \<Rightarrow> r)"

lemma perform_presents:
  assumes "perform fs w = Next w'" "presents K gpu I (few_held 2) w0 w"
    and "\<forall>f\<in>set fs. \<forall>w w'. f w = Next w' \<longrightarrow> present_step K gpu I w (Next w')"
  shows "presents K gpu I (few_held 2) w0 w'"
  using assms
proof (induction fs arbitrary: w)
  case (Cons f fs)
  then obtain w1 where "f w = Next w1" "few_held 2 w1" "perform fs w1 = Next w'"
    by (auto split: outcome.splits if_splits)
  then show ?case using Cons.IH Cons.prems(2,3) presents.step by (metis list.set_intros(1,2))
qed simp

definition ex_swapchain_images :: "addr \<rightharpoonup> image" where
  "ex_swapchain_images = [4096 \<mapsto> layout_example\<lparr>im_presentMode := 2\<rparr>, 8192 \<mapsto> layout_example\<lparr>im_presentMode := 2\<rparr>]"

definition ex_world :: "(u64 \<times> u64) world" where
  "ex_world = \<lparr>w_kernel = (0, 0),
     w_queue = \<lparr>fq_data = (\<lambda>_. \<lparr>vd_i = 0, vd_s = 0, vd_flipPending = 0, vd_seqno = 0\<rparr>), fq_elems = [], fq_free = [100, 200]\<rparr>,
     w_flip = F_Peek 0, w_app = Running, w_request = (0, 0),
     w_sc = \<lparr>sc_images = [4096, 8192], sc_inFlight = [0, 0], sc_numImages = 2, sc_backbufferIdx = 0, sc_surface = 300\<rparr>,
     w_held = [], w_signals = ([8 \<mapsto> 0], Map.empty), w_lastEmitSeqno = 0,
     w_display = \<lparr>dp_screen = 64, dp_states = replicate 32 \<lparr>ms_used = 0, ms_crtc = None\<rparr>, dp_savedState = 0\<rparr>,
     w_flips = [], w_events = [], w_presented = [], w_flipped = [], w_refused = False\<rparr>"

text \<open>An image is acquired, a job is submitted for it, it is presented and flipped to.\<close>

definition ex_moves :: "((u64 \<times> u64) world \<Rightarrow> (u64 \<times> u64) world outcome) list" where
  "ex_moves =
     [\<lambda>w. if valid_signal (8, NULL) (w_signals w) then begin_acquire 8 NULL w else Blocked,
      \<lambda>w. if w_app w = Running then Next (w\<lparr>w_kernel := w_kernel w, w_signals := ([8 \<mapsto> 0], Map.empty), w_lastEmitSeqno := 1\<rparr>) else Blocked,
      \<lambda>w. if 1 \<in> set (w_held w) then begin_present 1 [] True w else Blocked,
      add_present, flip_peek, flip_wait (ex_kernel None), flip_show ex_swapchain_images True, vblank]"

lemma ex_fresh: "fresh_world ex_swapchain_images ex_world"
  by (simp add: fresh_world_def ex_world_def swapchain_ok_def ex_swapchain_images_def)

lemma ex_moves_steps: "\<forall>f\<in>set ex_moves. \<forall>w w'. f w = Next w' \<longrightarrow>
    present_step (ex_kernel None) (=) ex_swapchain_images w (Next w')"
proof -
  have "present_step (ex_kernel None) (=) ex_swapchain_images w (Next w')"
    if "f w = Next w'" "f \<in> {add_present, flip_peek, flip_wait (ex_kernel None), flip_show ex_swapchain_images True, vblank}" for f w w'
    using that present_step.add [of "ex_kernel None" "(=)" ex_swapchain_images w] present_step.peek [of "ex_kernel None" "(=)" ex_swapchain_images w]
      present_step.wait [of "ex_kernel None" "(=)" ex_swapchain_images w] present_step.flip_done [of "ex_kernel None" "(=)" ex_swapchain_images w]
      present_step.show_image [of "ex_kernel None" "(=)" ex_swapchain_images w True] by auto
  moreover have "present_step (ex_kernel None) (=) ex_swapchain_images w (Next w')"
    if "valid_signal (8, NULL) (w_signals w)" "begin_acquire 8 NULL w = Next w'" for w w'
    using present_step.acquire [OF that(1), of "ex_kernel None" "(=)" ex_swapchain_images] that(2) by simp
  moreover have "present_step (ex_kernel None) (=) ex_swapchain_images w
      (Next (w\<lparr>w_kernel := w_kernel w, w_signals := ([8 \<mapsto> 0], Map.empty), w_lastEmitSeqno := 1\<rparr>))" if "w_app w = Running" for w
    by (rule present_step.elsewhere [OF that refl])
  moreover have "present_step (ex_kernel None) (=) ex_swapchain_images w (Next w')"
    if "1 \<in> set (w_held w)" "begin_present 1 [] True w = Next w'" for w w'
    using present_step.present [OF that(1), of "ex_kernel None" "(=)" ex_swapchain_images "[]" True] that(2) by simp
  ultimately show ?thesis unfolding ex_moves_def by (auto split: if_splits)
qed

lemma next_backbuffer_2:
  "next_backbuffer 2 c sc = (if sc_inFlight sc ! unat c = 0 then c
     else if sc_inFlight sc ! unat ((c + 1) mod sc_numImages sc) = 0 then (c + 1) mod sc_numImages sc else sc_backbufferIdx sc)"
  by (simp add: numeral_2_eq_2)

lemma ex_moves_run: "\<exists>w. perform ex_moves ex_world = Next w \<and> w_presented w = [(8192, 1)] \<and> w_flipped w = [(8192, 1)] \<and>
    dp_screen (w_display w) = 8192 \<and> elems w = [100] \<and> outstanding w = [100] \<and> snd (w_kernel w) = 1"
  by (simp add: ex_moves_def ex_world_def ex_swapchain_images_def begin_acquire_def finish_acquire_def next_image_def
    acquire_signal_def sem_post_def valid_signal_def begin_present_def modeset_takeover_def add_present_def fq_add_def
    flip_peek_def flip_wait_def flip_show_def vblank_def vc4_seqno_wait_def ex_kernel_simps few_held_def outstanding_def
    next_backbuffer_2 upt_conv_Cons fq_last_def fq_write_def VK_PRESENT_MODE_FIFO_KHR_def)


lemma presentation_safe_witness:
  "\<exists>w. perform ex_moves ex_world = Next w \<and> w_flipped w = [(8192, 1)] \<and> \<not> present_step (ex_kernel None) (=) ex_swapchain_images w Undefined \<and>
     set (outstanding w) \<subseteq> set (take 1 (elems w)) \<and> (\<forall>x\<in>set (w_flipped w). snd x \<le> snd (w_kernel w))"
proof -
  obtain w where w: "perform ex_moves ex_world = Next w" "w_flipped w = [(8192, 1)]" using ex_moves_run by blast
  have "presents (ex_kernel None) (=) ex_swapchain_images (few_held 2) ex_world w"
    by (rule perform_presents [OF w(1) presents.start ex_moves_steps])
  from presentation_safe [OF ex_kernel_waits _ ex_fresh this] show ?thesis using w by auto
qed

subsection \<open>Two shortcomings\<close>

text \<open>
  Two images acquired and presented, and a third acquisition: it waits until the first image is on the
  screen, and then hands out that image.
\<close>

lemma acquired_image_on_screen:
  "\<exists>w. perform
       [begin_acquire 8 NULL, begin_acquire 16 NULL, \<lambda>w. Next (w\<lparr>w_lastEmitSeqno := 1\<rparr>),
        begin_present 1 [] True, add_present, begin_present 0 [] True, add_present,
        flip_peek, flip_wait (ex_kernel None), flip_show ex_swapchain_images True, vblank,
        begin_acquire 24 NULL, acquire_test, handle_event, events_handled, acquire_check, acquire_test, acquire_remove]
       (ex_world\<lparr>w_signals := ([8 \<mapsto> 0, 16 \<mapsto> 0, 24 \<mapsto> 0], Map.empty)\<rparr>) = Next w \<and>
     w_held w = [1] \<and> sc_images (w_sc w) ! 1 = 8192 \<and> dp_screen (w_display w) = 8192"
  by (simp add: ex_world_def ex_swapchain_images_def begin_acquire_def finish_acquire_def next_image_def clear_in_flight_def
    acquire_signal_def sem_post_def valid_signal_def begin_present_def modeset_takeover_def add_present_def fq_add_def
    flip_peek_def flip_wait_def flip_show_def vblank_def vc4_seqno_wait_def ex_kernel_simps few_held_def
    next_backbuffer_2 upt_conv_Cons fq_last_def fq_write_def VK_PRESENT_MODE_FIFO_KHR_def
    acquire_test_def handle_event_def modeset_page_flip_event_def events_handled_def acquire_check_def acquire_remove_def fq_remove_def)

text \<open>
  A surface that uses slot 0 of the saved states is taken for one that has not set the mode: its second
  presentation saves the first image as what the display showed before, and that is what destroying
  the surface shows again.
\<close>

lemma takeover_forgets:
  assumes "dp_savedState dp = 0" "length (dp_states dp) = 32" "ms_used (dp_states dp ! 0) = 0" "ms_used (dp_states dp ! 1) = 0"
  shows "\<exists>dp'. modeset_restore True (modeset_takeover b True (modeset_takeover a True dp)) = Some dp' \<and> dp_screen dp' = a"
  using assms by (simp add: modeset_takeover_def modeset_restore_def upt_conv_Cons Let_def)

end
