(* ===== verification/Spec2Isabelle.thy ===== *)
theory Spec2Isabelle
  imports Formats Packet_Stream Handles_Markers List_Fit Qpu_Programs Hash_Map Fifo_Refine
    Images Clear_Submit Draw_State Recording_State Binding_Path Query_Results Emulated_Draws
    Flip_Queue Presentation_Safety
begin

text \<open>
  Verification of rpi-vk-driver, a Vulkan driver for the VideoCore IV GPU of the Raspberry Pi.

  The program.  An application records commands into command buffers; the driver turns them into
  hardware command streams (control lists), and a submission hands them to the kernel module vc4 as
  one job per render pass or clear.  Below the entry points lie the allocators that everything is
  placed in, and beside them an assembler for the instructions of the shader cores (QPU), since the
  driver takes shaders in assembly.

  The theories, from the bottom up:

    \<^item> Prelude, Memory, Memory_Frames: words and bytes, and the byte memory that raw pointers read and
      write.  An access to an address outside of it is undefined.
    \<^item> Pool_Alloc (driver/PoolAllocator.c, driver/LinearAllocator.c, driver/AlignedAllocator.c) and
      Consecutive_Alloc (driver/ConsecutivePoolAllocator.c): the free lists lie in the free blocks.
      The invariants say which blocks are free and in which order; allocation is first fit, a release
      undoes it, a reallocation keeps the content.
    \<^item> Hash_Map and Memory_Map (driver/map.c): the table on the list of its elements and on the words of
      its memory.  The locale \<open>lookup_table\<close> is the contract of a finite map; it is interpreted on both.
    \<^item> Fifo_Queue, Fifo_Refine (driver/fifo.c): a queue of two block pools refines a bounded list; the
      contract is the locale \<open>bounded_queue\<close>.
    \<^item> Formats (the pure part of driver/common.c): tables, sizes and the encoders of hardware words.
    \<^item> Control_List, Packet_Stream, Handles_Markers, List_Fit (driver/ControlListUtil.c and \<open>clFit\<close> of
      driver/common.c): the emitters of packets, the byte streams they append, the table of buffer
      handles, the markers that cut a list into jobs, and the growth of a list in its pool.
    \<^item> Qpu_Names, Qpu_Encode, Qpu_Tokens, Qpu_Text, Qpu_Line, Qpu_Disasm, Qpu_Roundtrip, Qpu_Programs
      (QPUassembler/qpu_assembler.c): instruction words, the text of an instruction, the assembler and
      the disassembler, and that the one reads back what the other prints.
    \<^item> Driver_Types, Images (driver/resource.c): the objects of driver/common.h, buffers, images and views,
      and where the mip levels lie.
    \<^item> Kernel_Interface (driver/kernelInterface.c) and Sync (driver/sync.c): the system calls, fences,
      semaphores and events.
    \<^item> Command_Buffer, Command_Pools (driver/command.c): the pools, the life of a command buffer and the
      partition of the blocks between the free lists and the live command buffers.
    \<^item> Recording, Recording_State, Render_Pass (driver/stateChange.c, driver/renderpass.c and parts of
      driver/resource.c and driver/pipeline.c): the dynamic state, clears and render passes.
    \<^item> Shader_Module (driver/shader.c), Pipelines (driver/pipeline.c), Descriptor_Sets
      (driver/descriptorSet.c), Device_Objects (driver/memory.c, driver/sampler.c, driver/query.c): the
      objects that a draw reads.  Query_Results: what an application reads from a query pool.
    \<^item> Draw, Float32, Draw_State, Binding_Path (driver/draw.c): the draw commands, the float arithmetic
      they use, the packets of the state, and how a draw finds the descriptors.
    \<^item> Builtin_Programs, Builtin_Modules (driver/copy.c, driver/stateChange.c): the shader programs that the
      driver brings along, which are assembled in the logic, and the modules that are built from them.
      Emulation, Emulated_Draws: the copies, blits and clears that are drawn with these modules, as the
      sequences of the calls they make, the lifetimes of the objects in them and the state they leave.
    \<^item> Queue_Submit, Marker_Words, Submit_Chain, Clear_Submit (driver/command.c): submission; the chain of
      markers becomes the jobs of the kernel, from the allocation of a command buffer to the job.
    \<^item> Presentation, Flip_Queue, Presentation_Safety (driver/wsi.c, driver/modeset.c): acquiring and
      presenting the images of a swapchain, and the thread that flips to them.  The critical sections
      are the steps of an inductive relation; an invariant of it gives the safety of every interleaving
      when at most two images are held.  Here failed assertions count as undefined.  The flip queue is
      a list of blocks, which the queue of driver/fifo.c implements (Flip_Queue).

  How the model corresponds to the code.  A definition has the name of its function, without the prefix
  rpi_, or of the part of it that it models.  The result \<open>None\<close> is undefined behaviour of C: an access
  outside the memory or an array, a null pointer that is read, an undefined shift or conversion, or a
  loop that never ends (the loops that may are partial functions in the option monad).  One shift is an
  exception: the mask of \<open>moveBits\<close> for a field of 32 bits is taken to be 0.  Failures that
  the code reports are values (\<open>VkResult\<close>, a null pointer, an offset of -1).  The C types \<open>uint32_t\<close> and \<open>uint64_t\<close>
  are words, so arithmetic wraps around as in C; a pointer is a word of 32 bits, as on the target.
  Assertions are left out, as in a release build: what they state is a hypothesis where a theorem needs
  it.  \<open>ALLOCATE\<close> is a parameter, the address it returns or whether it succeeds; the memory it returns
  is what it was before (\<open>stale\<close>).  The kernel is a parameter, a record of functions over an abstract
  state.  Structures that the code links through raw memory (free lists, hash buckets, markers, control
  lists) are bytes; the other objects are records in typed stores.  The pools of command buffers and of
  descriptors use two parts of the memory that do not meet, so each has a byte memory of its own.
  Floats that are only copied are bit patterns; those that are computed with are the finite values of
  single precision with rounding to nearest, in Float32.

  What the lemmas show.  For each allocator and container an invariant, that every operation keeps it,
  and the abstract operation it implements (a free list, a finite map, a queue).  For the control lists,
  that a sequence of emitters appends exactly the packets of its commands, which can be read back.  For
  the assembler, the round trip and the meaning of a program.  For the entry points, what they do on
  every branch that is reached with valid arguments, and in some places that a call is undefined: these
  are the findings of the manifest.

  Bounds.  Sizes appear as hypotheses where the code needs them: a hash table has 1 to 32 buckets (the
  index shifts by 32 less the size), a marker 41 words, a control list the room that \<open>clFit\<close> made, a command
  buffer 8 vertex buffers and 256 bytes of push constants.  There is no fuel but in \<open>f32_search\<close>, which
  has one step for each of the 254 exponents of a finite float, and \<open>round_float\<close>, which ends at the
  smallest one, 149 steps below.

  Not modelled, because there is no logic of the driver in it: the tables of driver/device.c,
  driver/instance.c, driver/declarations.h and driver/vkCaps.h, the profiler, the functions of
  driver/compute.c and driver/sparse.c, which are empty, the sample shaders and main function of
  QPUassembler, the vendored code under brcm and external, and the demonstration programs under test.
  Printing is left out everywhere.  Of driver/wsi.c and driver/modeset.c the enumeration of displays and
  the creation and destruction of surfaces and swapchains are not modelled.
\<close>

end
